(* ===== verification/Prelude.thy ===== *)
theory Prelude
  imports Main "HOL-Library.AList" "HOL-Library.Sublist" "HOL-Library.Word"
begin

text \<open>
  Shared vocabulary of the development: the Go types the components use (byte strings, maps,
  times, machine integers) and the generic lemmas about them.

  \<^item> A Go \<^verbatim>\<open>string\<close> is a \<^typ>\<open>string\<close>, a list of bytes. The case mapping and the white
    space of \<^verbatim>\<open>strings.ToLower\<close>, \<^verbatim>\<open>strings.TrimSpace\<close> are those of ASCII, so the model agrees with the
    source on ASCII text (host names, API keys, tunnel ids, plan codes).
  \<^item> A Go \<^verbatim>\<open>map\<close> is an association list with distinct keys (\<open>gomap_ok\<close>). Lookup, assignment and
    \<^verbatim>\<open>delete\<close> are \<^const>\<open>map_of\<close>, \<^const>\<open>AList.update\<close> and \<^const>\<open>AList.delete\<close>; \<^verbatim>\<open>range\<close> visits the
    entries in list order. Go leaves that order open, and so do the theorems: they hold for
    every list.
  \<^item> A \<^verbatim>\<open>time.Time\<close> is an \<^typ>\<open>int\<close>, nanoseconds since the zero \<^verbatim>\<open>Time\<close>, which is \<open>0\<close>; a
    \<^verbatim>\<open>time.Duration\<close> is an \<^typ>\<open>int\<close> of nanoseconds; \<^verbatim>\<open>time.Now()\<close> is an argument.
\<close>

named_theorems gomap_simps "lookup laws of Go maps"
named_theorems wf_intros "preservation of well-formedness invariants"

type_synonym byte = "8 word"
type_synonym gotime = int
type_synonym duration = int
type_synonym ('k, 'v) gomap = "('k \<times> 'v) list"

abbreviation gget :: "('k, 'v) gomap \<Rightarrow> 'k \<Rightarrow> 'v option" where
  "gget m k \<equiv> map_of m k"

abbreviation gset :: "'k \<Rightarrow> 'v \<Rightarrow> ('k, 'v) gomap \<Rightarrow> ('k, 'v) gomap" where
  "gset k v m \<equiv> AList.update k v m"

abbreviation gdel :: "'k \<Rightarrow> ('k, 'v) gomap \<Rightarrow> ('k, 'v) gomap" where
  "gdel k m \<equiv> AList.delete k m"

abbreviation millisecond :: duration where "millisecond \<equiv> 1000000"
abbreviation second :: duration where "second \<equiv> 1000000000"
abbreviation minute :: duration where "minute \<equiv> 60000000000"

text \<open>\<^verbatim>\<open>Time.UnixMilli\<close>: the Unix epoch is 62135596800 seconds after the zero \<^verbatim>\<open>Time\<close>.\<close>

definition unixMilli :: "gotime \<Rightarrow> int" where
  "unixMilli t = (t - 62135596800 * second) div millisecond"

text \<open>The value an \<^verbatim>\<open>int64\<close> holds after an addition.\<close>

definition wrap64 :: "int \<Rightarrow> int" where
  "wrap64 x = (x + 2 ^ 63) mod 2 ^ 64 - 2 ^ 63"

lemma wrap64_id: "- (2 ^ 63) \<le> x \<Longrightarrow> x < 2 ^ 63 \<Longrightarrow> wrap64 x = x"
  by (simp add: wrap64_def)

lemma wrap64_mod [simp]: "wrap64 x mod 2 ^ 64 = x mod 2 ^ 64"
  unfolding wrap64_def by (metis add_diff_cancel_right' mod_diff_left_eq)

section \<open>Go maps\<close>

definition gomap_ok :: "('k, 'v) gomap \<Rightarrow> bool" where
  "gomap_ok m \<longleftrightarrow> distinct (map fst m)"

lemma gget_gset [simp, gomap_simps]: "gget (gset k v m) x = (if x = k then Some v else gget m x)"
  by (simp add: update_conv')

lemma gget_gdel [simp, gomap_simps]: "gget (gdel k m) x = (if x = k then None else gget m x)"
  by (simp add: delete_conv')

lemma gomap_ok_Nil [simp, wf_intros]: "gomap_ok []"
  by (simp add: gomap_ok_def)

lemma gomap_ok_gset [simp, wf_intros]: "gomap_ok m \<Longrightarrow> gomap_ok (gset k v m)"
  by (simp add: gomap_ok_def distinct_update)

lemma gomap_ok_gdel [simp, wf_intros]: "gomap_ok m \<Longrightarrow> gomap_ok (gdel k m)"
  by (simp add: gomap_ok_def distinct_delete)

lemma gomap_ok_mem: "gomap_ok m \<Longrightarrow> (k, v) \<in> set m \<longleftrightarrow> gget m k = Some v"
  by (simp add: gomap_ok_def map_of_eq_Some_iff)

lemma gget_SomeD: "gget m k = Some v \<Longrightarrow> (k, v) \<in> set m"
  by (rule map_of_SomeD)

lemma length_gset: "length (gset k v m) = (if gget m k = None then Suc (length m) else length m)"
  by (induction m) auto

lemma length_gdel:
  assumes "gomap_ok m"
  shows "length (gdel k m) = (if gget m k = None then length m else length m - 1)"
  using assms
proof (induction m)
  case Nil
  then show ?case by simp
next
  case (Cons p m)
  obtain a b where p: "p = (a, b)" by (cases p)
  with Cons.prems have ok: "gomap_ok m" and notin: "a \<notin> fst ` set m"
    by (auto simp: gomap_ok_def)
  show ?case
  proof (cases "a = k")
    case True
    then have none: "gget m k = None" using notin by (simp add: map_of_eq_None_iff)
    with True Cons.IH [OF ok] show ?thesis by (simp add: p)
  next
    case False
    have "gget m k \<noteq> None \<Longrightarrow> 0 < length m" by (cases m) auto
    with False Cons.IH [OF ok] show ?thesis by (auto simp: p)
  qed
qed

lemma gomap_ok_filter [simp, wf_intros]: "gomap_ok m \<Longrightarrow> gomap_ok (filter P m)"
  by (simp add: gomap_ok_def distinct_map_filter)

lemma gget_filter_val:
  "gomap_ok m \<Longrightarrow> gget (filter (\<lambda>(k, v). P v) m) k = (case gget m k of Some v \<Rightarrow> if P v then Some v else None | None \<Rightarrow> None)"
proof (induction m)
  case (Cons p m)
  obtain a b where p: "p = (a, b)" by (cases p)
  with Cons.prems have "gomap_ok m" "a \<notin> fst ` set m" by (auto simp: gomap_ok_def)
  moreover then have "gget m a = None" by (simp add: map_of_eq_None_iff)
  ultimately show ?case using Cons.IH by (auto simp: p)
qed simp

section \<open>Strings\<close>

definition lower_char :: "char \<Rightarrow> char" where
  "lower_char c =
     (let n = (of_char c :: nat) in if 65 \<le> n \<and> n \<le> 90 then char_of (n + 32) else c)"

definition upper_char :: "char \<Rightarrow> char" where
  "upper_char c =
     (let n = (of_char c :: nat) in if 97 \<le> n \<and> n \<le> 122 then char_of (n - 32) else c)"

definition to_lower :: "string \<Rightarrow> string" where
  "to_lower = map lower_char"

definition to_upper :: "string \<Rightarrow> string" where
  "to_upper = map upper_char"

definition is_space :: "char \<Rightarrow> bool" where
  "is_space c \<longleftrightarrow> (let n = (of_char c :: nat) in n = 32 \<or> (9 \<le> n \<and> n \<le> 13))"

definition trim_space :: "string \<Rightarrow> string" where
  "trim_space s = rev (dropWhile is_space (rev (dropWhile is_space s)))"

lemma dropWhile_head: "xs = [] \<or> \<not> P (hd xs) \<Longrightarrow> dropWhile P xs = xs"
  by (cases xs) auto

lemma trim_space_ends: "trim_space s = [] \<or> \<not> is_space (hd (trim_space s)) \<and> \<not> is_space (last (trim_space s))"
proof -
  define t where "t = dropWhile is_space s"
  define u where "u = dropWhile is_space (rev t)"
  obtain z where z: "rev t = z @ u" unfolding u_def by (metis takeWhile_dropWhile_id)
  then have "t = rev u @ rev z" by (metis rev_append rev_rev_ident)
  then have "u \<noteq> [] \<Longrightarrow> hd (rev u) = hd t \<and> t \<noteq> []" by simp
  moreover have "t \<noteq> [] \<Longrightarrow> \<not> is_space (hd t)" unfolding t_def by (rule hd_dropWhile)
  moreover have "u \<noteq> [] \<Longrightarrow> \<not> is_space (hd u)" unfolding u_def by (rule hd_dropWhile)
  ultimately show ?thesis by (auto simp: trim_space_def t_def [symmetric] u_def [symmetric] last_rev)
qed

lemma trim_space_idem [simp]: "trim_space (trim_space s) = trim_space s"
proof -
  have "dropWhile is_space (trim_space s) = trim_space s"
    "dropWhile is_space (rev (trim_space s)) = rev (trim_space s)"
    using trim_space_ends [of s] by (auto intro!: dropWhile_head simp: hd_rev)
  then show ?thesis by (subst trim_space_def) simp
qed

lemma lower_char_idem [simp]: "lower_char (lower_char c) = lower_char c"
  by (simp add: lower_char_def Let_def)

lemma to_lower_idem [simp]: "to_lower (to_lower s) = to_lower s"
  by (simp add: to_lower_def comp_def)

lemma to_lower_append [simp]: "to_lower (s @ t) = to_lower s @ to_lower t"
  by (simp add: to_lower_def)

lemma to_lower_Nil [simp]: "to_lower [] = []"
  by (simp add: to_lower_def)

lemma to_lower_eq_Nil [simp]: "to_lower s = [] \<longleftrightarrow> s = []"
  by (simp add: to_lower_def)

lemma length_to_lower [simp]: "length (to_lower s) = length s"
  by (simp add: to_lower_def)

text \<open>\<^verbatim>\<open>strings.IndexByte\<close>, \<^verbatim>\<open>strings.Cut\<close> and \<^verbatim>\<open>strings.Split\<close> on a single byte.\<close>

fun index_byte :: "char \<Rightarrow> string \<Rightarrow> nat option" where
  "index_byte c [] = None"
| "index_byte c (x # xs) = (if x = c then Some 0 else map_option Suc (index_byte c xs))"

fun split_byte :: "char \<Rightarrow> string \<Rightarrow> string list" where
  "split_byte c [] = [[]]"
| "split_byte c (x # xs) =
     (if x = c then [] # split_byte c xs
      else (case split_byte c xs of [] \<Rightarrow> [[x]] | p # ps \<Rightarrow> (x # p) # ps))"

lemma index_byte_None: "index_byte c s = None \<longleftrightarrow> c \<notin> set s"
  by (induction s) auto

lemma index_byte_Some:
  "index_byte c s = Some i \<Longrightarrow> i < length s \<and> s ! i = c \<and> c \<notin> set (take i s)"
  by (induction s arbitrary: i) (auto split: if_splits)

lemma split_byte_append: "c \<notin> set s \<Longrightarrow> split_byte c (s @ c # t) = s # split_byte c t"
  by (induction s) auto

lemma split_byte_last: "c \<notin> set s \<Longrightarrow> split_byte c s = [s]"
  by (induction s) auto

lemma index_byte_append: "c \<notin> set s \<Longrightarrow> index_byte c (s @ c # t) = Some (length s)"
  by (induction s) auto

section \<open>Decimal numerals (the verb \<open>%d\<close>)\<close>

definition digit_char :: "nat \<Rightarrow> char" where
  "digit_char d = char_of (48 + d)"

fun show_nat :: "nat \<Rightarrow> string" where
  "show_nat n = (if n < 10 then [digit_char n] else show_nat (n div 10) @ [digit_char (n mod 10)])"

declare show_nat.simps [simp del]

definition show_int :: "int \<Rightarrow> string" where
  "show_int i = (if i < 0 then CHR ''-'' # show_nat (nat (- i)) else show_nat (nat i))"

definition digits_val :: "string \<Rightarrow> nat" where
  "digits_val s = foldl (\<lambda>a c. 10 * a + (of_char c - 48)) 0 s"

lemma of_char_digit [simp]: "d < 10 \<Longrightarrow> (of_char (digit_char d) :: nat) = 48 + d"
  by (simp add: digit_char_def)

lemma digits_val_snoc: "digits_val (s @ [c]) = 10 * digits_val s + (of_char c - 48)"
  by (simp add: digits_val_def)

lemma digits_val_show_nat [simp]: "digits_val (show_nat n) = n"
proof (induction n rule: show_nat.induct)
  case (1 n)
  show ?case
  proof (cases "n < 10")
    case True
    then show ?thesis by (subst show_nat.simps) (simp add: digits_val_def)
  next
    case False
    with 1 show ?thesis by (subst show_nat.simps) (simp add: digits_val_snoc)
  qed
qed

lemma show_nat_inj [simp]: "show_nat m = show_nat n \<longleftrightarrow> m = n"
  by (metis digits_val_show_nat)

lemma show_nat_digits: "c \<in> set (show_nat n) \<Longrightarrow> 48 \<le> (of_char c :: nat) \<and> (of_char c :: nat) \<le> 57"
proof (induction n arbitrary: c rule: show_nat.induct)
  case (1 n)
  show ?case
  proof (cases "n < 10")
    case True
    with 1 show ?thesis by (subst (asm) (2) show_nat.simps) auto
  next
    case False
    with "1.prems" have "c \<in> set (show_nat (n div 10)) \<or> c = digit_char (n mod 10)"
      by (subst (asm) show_nat.simps) auto
    with False "1.IH" show ?thesis by auto
  qed
qed

lemma show_int_inj [simp]: "show_int i = show_int j \<longleftrightarrow> i = j"
proof -
  have *: "CHR ''-'' \<notin> set (show_nat n)" for n
    using show_nat_digits [of "CHR ''-''" n] by auto
  then have "show_nat m \<noteq> CHR ''-'' # s" for m s
    by (metis list.set_intros(1))
  then show ?thesis by (auto simp: show_int_def) metis+
qed

lemma show_int_no_colon: "CHR '':'' \<notin> set (show_int i)"
  using show_nat_digits [of "CHR '':''"] by (auto simp: show_int_def)

text \<open>A separator that the second part does not contain splits a string in one way only.\<close>

lemma append_sep_inj:
  assumes "c \<notin> set x" "c \<notin> set y"
  shows "a @ c # x = b @ c # y \<longleftrightarrow> a = b \<and> x = y"
proof
  assume "a @ c # x = b @ c # y"
  then have "rev x @ c # rev a = rev y @ c # rev b"
    by (metis append.assoc append_Cons append_Nil rev.simps(2) rev_append)
  moreover have "takeWhile (\<lambda>z. z \<noteq> c) (rev x @ c # rev a) = rev x"
    "takeWhile (\<lambda>z. z \<noteq> c) (rev y @ c # rev b) = rev y"
    using assms by (subst takeWhile_append2; auto)+
  ultimately have "rev x = rev y" by simp
  with \<open>a @ c # x = b @ c # y\<close> show "a = b \<and> x = y" by simp
qed simp

section \<open>Hexadecimal (\<^verbatim>\<open>hex.EncodeToString\<close>)\<close>

definition hex_digit :: "nat \<Rightarrow> char" where
  "hex_digit n = (if n < 10 then char_of (48 + n) else char_of (87 + n))"

definition hex_encode :: "byte list \<Rightarrow> string" where
  "hex_encode bs = concat (map (\<lambda>b. [hex_digit (unat b div 16), hex_digit (unat b mod 16)]) bs)"

lemma hex_digit_range: "n < 16 \<Longrightarrow> (of_char (hex_digit n) :: nat) = (if n < 10 then 48 + n else 87 + n)"
  by (simp add: hex_digit_def)

lemma hex_encode_range:
  assumes "c \<in> set (hex_encode bs)"
  shows "48 \<le> (of_char c :: nat) \<and> (of_char c :: nat) \<le> 57 \<or> 97 \<le> (of_char c :: nat) \<and> (of_char c :: nat) \<le> 102"
proof -
  have "unat b div 16 < 16" for b :: byte using unsigned_less [of b, where ?'a = nat] by simp
  moreover have "unat b mod 16 < 16" for b :: byte by simp
  moreover obtain b :: byte where "c = hex_digit (unat b div 16) \<or> c = hex_digit (unat b mod 16)"
    using assms by (auto simp: hex_encode_def)
  ultimately obtain n where "n < 16" "c = hex_digit n" by blast
  then show ?thesis using hex_digit_range [of n] by auto
qed

lemma hex_encode_not_in: "of_char c < (48 :: nat) \<or> of_char c > (57 :: nat) \<and> of_char c < (97 :: nat) \<Longrightarrow> c \<notin> set (hex_encode bs)"
  using hex_encode_range [of c bs] by auto

section \<open>The end of a list\<close>

text \<open>The last \<open>n\<close> entries.\<close>

definition window :: "nat \<Rightarrow> 'a list \<Rightarrow> 'a list" where
  "window n xs = drop (length xs - n) xs"

lemma window_snoc:
  assumes "0 < n"
  shows "window n (xs @ [x]) = (if length (window n xs) \<ge> n then tl (window n xs) else window n xs) @ [x]"
proof (cases "length xs < n")
  case True
  then show ?thesis by (auto simp: window_def)
next
  case False
  then have "length xs + 1 - n = Suc (length xs - n)" by simp
  with False assms show ?thesis by (simp add: window_def drop_Suc tl_drop)
qed

lemma window_window: "window n (window n xs @ ys) = window n (xs @ ys)"
  by (auto simp: window_def drop_drop intro: arg_cong2 [where f = drop])

lemma length_window: "length (window n xs) \<le> n"
  by (simp add: window_def)

lemma window_Nil [simp]: "window n [] = []"
  by (simp add: window_def)

section \<open>Error results\<close>

text \<open>A Go function that returns \<^verbatim>\<open>(T, error)\<close> yields \<open>Inl err\<close> or \<open>Inr value\<close>.\<close>

abbreviation is_ok :: "'e + 'a \<Rightarrow> bool" where
  "is_ok r \<equiv> \<not> isl r"

end
