(* ===== verification/Hosts.thy ===== *)
theory Hosts
  imports Prelude
begin

text \<open>
  Host names as the edge handles them: \<^verbatim>\<open>net.SplitHostPort\<close>, \<^verbatim>\<open>hostOnly\<close> of
  \<^verbatim>\<open>internal/server/ingress_http.go\<close> and \<^verbatim>\<open>randSubdomain\<close> of \<^verbatim>\<open>internal/server/server.go\<close>.
\<close>

section \<open>The standard library\<close>

definition has_prefix :: "string \<Rightarrow> string \<Rightarrow> bool" where
  "has_prefix s p \<longleftrightarrow> take (length p) s = p"

definition has_suffix :: "string \<Rightarrow> string \<Rightarrow> bool" where
  "has_suffix s p \<longleftrightarrow> length p \<le> length s \<and> drop (length s - length p) s = p"

definition trim_suffix :: "string \<Rightarrow> string \<Rightarrow> string" where
  "trim_suffix s p = (if has_suffix s p then take (length s - length p) s else s)"

definition last_index_byte :: "char \<Rightarrow> string \<Rightarrow> nat option" where
  "last_index_byte c s = map_option (\<lambda>i. length s - 1 - i) (index_byte c (rev s))"

text \<open>\<^verbatim>\<open>net.SplitHostPort\<close>; the reason for a refusal is not looked at by any caller.\<close>

definition split_host_port :: "string \<Rightarrow> (string \<times> string) option" where
  "split_host_port hp =
     (case last_index_byte CHR '':'' hp of
        None \<Rightarrow> None
      | Some i \<Rightarrow>
          let finish = (\<lambda>host j k.
                if CHR ''['' \<in> set (drop j hp) \<or> CHR '']'' \<in> set (drop k hp) then None
                else Some (host, drop (i + 1) hp))
          in if hp ! 0 = CHR ''['' then
               (case index_byte CHR '']'' hp of
                  None \<Rightarrow> None
                | Some e \<Rightarrow> if e + 1 = i then finish (drop 1 (take e hp)) 1 (e + 1) else None)
             else if CHR '':'' \<in> set (take i hp) then None
             else finish (take i hp) 0 0)"

section \<open>The program's helpers\<close>

definition hostOnly :: "string \<Rightarrow> string" where
  "hostOnly hostport =
     (let h = to_lower (trim_space hostport) in
      if CHR '':'' \<in> set h then (case split_host_port h of Some (host, _) \<Rightarrow> host | None \<Rightarrow> h)
      else h)"

definition firstNonEmpty :: "string \<Rightarrow> string \<Rightarrow> string" where
  "firstNonEmpty a b = (if a \<noteq> '''' then a else b)"

definition subdomainAlphabet :: string where
  "subdomainAlphabet = ''abcdefghijklmnopqrstuvwxyz0123456789''"

text \<open>\<^verbatim>\<open>randSubdomain\<close> on the bytes that \<^verbatim>\<open>rand.Read\<close> delivers, at least one.\<close>

definition randSubdomain :: "byte list \<Rightarrow> string" where
  "randSubdomain rnd =
     (let buf = map (\<lambda>b. subdomainAlphabet ! (unat b mod length subdomainAlphabet)) rnd
      in if of_char (hd buf) \<ge> (48 :: nat) \<and> of_char (hd buf) \<le> (57 :: nat) then buf[0 := CHR ''r''] else buf)"

section \<open>Facts\<close>

lemma has_prefix_iff: "has_prefix s p \<longleftrightarrow> s = p @ drop (length p) s"
  unfolding has_prefix_def by (metis append_eq_conv_conj append_take_drop_id)

lemma lower_char_sep [simp]:
  "lower_char c = CHR '':'' \<longleftrightarrow> c = CHR '':''" "lower_char c = CHR ''['' \<longleftrightarrow> c = CHR ''[''"
  "lower_char c = CHR '']'' \<longleftrightarrow> c = CHR '']''" "lower_char c = CHR ''.'' \<longleftrightarrow> c = CHR ''.''"
proof -
  have *: "lower_char c = d \<longleftrightarrow> c = d"
    if "\<not> (65 \<le> (of_char d :: nat) \<and> (of_char d :: nat) \<le> 90)" "\<not> (97 \<le> (of_char d :: nat) \<and> (of_char d :: nat) \<le> 122)" for d
    using that by (auto simp: lower_char_def Let_def)
  show "lower_char c = CHR '':'' \<longleftrightarrow> c = CHR '':''" "lower_char c = CHR ''['' \<longleftrightarrow> c = CHR ''[''"
    "lower_char c = CHR '']'' \<longleftrightarrow> c = CHR '']''" "lower_char c = CHR ''.'' \<longleftrightarrow> c = CHR ''.''"
    by (rule *; simp)+
qed

text \<open>A host as it appears in a routing table: lower case, no white space, no port, no brackets.\<close>

definition plain_host :: "string \<Rightarrow> bool" where
  "plain_host h \<longleftrightarrow> to_lower h = h \<and> (\<forall>c \<in> set h. \<not> is_space c) \<and>
     CHR '':'' \<notin> set h \<and> CHR ''['' \<notin> set h \<and> CHR '']'' \<notin> set h"

lemma trim_space_id: "(\<forall>c \<in> set s. \<not> is_space c) \<Longrightarrow> trim_space s = s"
proof -
  assume s: "\<forall>c \<in> set s. \<not> is_space c"
  have "dropWhile is_space xs = xs" if "\<forall>c \<in> set xs. \<not> is_space c" for xs
    using that by (cases xs) auto
  from this [of s] this [of "rev s"] s show ?thesis by (simp add: trim_space_def)
qed

lemma hostOnly_plain: "plain_host h \<Longrightarrow> hostOnly h = h"
  by (simp add: hostOnly_def plain_host_def trim_space_id Let_def)

lemma last_index_byte_append: "c \<notin> set t \<Longrightarrow> last_index_byte c (s @ c # t) = Some (length s)"
  using index_byte_append [of c "rev t" "rev s"] by (simp add: last_index_byte_def)

lemma split_host_port_plain:
  assumes "CHR '':'' \<notin> set h" "CHR ''['' \<notin> set h" "CHR '']'' \<notin> set h"
    and "CHR '':'' \<notin> set p" "CHR ''['' \<notin> set p" "CHR '']'' \<notin> set p"
  shows "split_host_port (h @ CHR '':'' # p) = Some (h, p)"
proof -
  have "(h @ CHR '':'' # p) ! 0 \<noteq> CHR ''[''" using assms(2) by (cases h) auto
  with assms show ?thesis by (simp add: split_host_port_def last_index_byte_append Let_def)
qed

text \<open>The port a client adds to the \<^verbatim>\<open>Host\<close> header, and the case it writes it in, do not matter.\<close>

lemma hostOnly_with_port:
  assumes "plain_host h" "to_lower g = h" "\<forall>c \<in> set g. \<not> is_space c"
  shows "hostOnly (g @ CHR '':'' # show_nat n) = h"
proof -
  have d: "c \<in> set (show_nat n) \<Longrightarrow> 48 \<le> (of_char c :: nat) \<and> (of_char c :: nat) \<le> 57" for c
    by (rule show_nat_digits)
  then have low: "to_lower (show_nat n) = show_nat n" by (auto simp: to_lower_def lower_char_def Let_def intro!: map_idI dest!: d)
  have sep: "CHR '':'' \<notin> set (show_nat n)" "CHR ''['' \<notin> set (show_nat n)" "CHR '']'' \<notin> set (show_nat n)"
    using d [of "CHR '':''"] d [of "CHR ''[''"] d [of "CHR '']''"] by auto
  have "\<forall>c \<in> set (g @ CHR '':'' # show_nat n). \<not> is_space c"
    using assms(3) d by (fastforce simp: is_space_def Let_def)
  then have "to_lower (trim_space (g @ CHR '':'' # show_nat n)) = h @ CHR '':'' # show_nat n"
    using assms(2) low by (simp add: trim_space_id) (simp add: to_lower_def lower_char_def)
  moreover have "split_host_port (h @ CHR '':'' # show_nat n) = Some (h, show_nat n)"
    using assms(1) sep by (intro split_host_port_plain) (auto simp: plain_host_def)
  ultimately show ?thesis by (simp add: hostOnly_def Let_def)
qed

lemma alphabet_char:
  assumes "c \<in> set (randSubdomain rnd)" "rnd \<noteq> []"
  shows "c \<in> set subdomainAlphabet"
proof -
  have "unat b mod length subdomainAlphabet < length subdomainAlphabet" for b :: byte
    by (simp add: subdomainAlphabet_def)
  then have a: "set (map (\<lambda>b. subdomainAlphabet ! (unat b mod length subdomainAlphabet)) rnd) \<subseteq> set subdomainAlphabet"
    by auto
  moreover have "CHR ''r'' \<in> set subdomainAlphabet" by (simp add: subdomainAlphabet_def)
  ultimately show ?thesis
    using assms set_update_subset_insert [of "map (\<lambda>b. subdomainAlphabet ! (unat b mod length subdomainAlphabet)) rnd" 0 "CHR ''r''"]
    by (auto simp: randSubdomain_def Let_def split: if_splits)
qed

lemma alphabet_plain: "c \<in> set subdomainAlphabet \<Longrightarrow>
    lower_char c = c \<and> \<not> is_space c \<and> c \<noteq> CHR '':'' \<and> c \<noteq> CHR ''['' \<and> c \<noteq> CHR '']''"
  by (auto simp: subdomainAlphabet_def lower_char_def is_space_def Let_def)

lemma plain_host_randSubdomain: "rnd \<noteq> [] \<Longrightarrow> plain_host (randSubdomain rnd)"
  using alphabet_plain [OF alphabet_char] by (auto simp: plain_host_def to_lower_def intro!: map_idI)

lemma plain_host_append: "plain_host g \<Longrightarrow> plain_host h \<Longrightarrow> plain_host (g @ ''.'' @ h)"
  by (auto simp: plain_host_def is_space_def Let_def) (simp_all add: to_lower_def lower_char_def)

end
