(* ===== verification/IpAddr.thy ===== *)
theory IpAddr
  imports Hosts
begin

text \<open>
  IP addresses as the standard library has them (\<^verbatim>\<open>net.ParseIP\<close>, \<^verbatim>\<open>IP.IsLoopback\<close>, \<^verbatim>\<open>IP.IsPrivate\<close>,
  \<^verbatim>\<open>IP.IsLinkLocalUnicast\<close>, \<^verbatim>\<open>IP.IsUnspecified\<close>, \<^verbatim>\<open>IP.String\<close>) and the guard the local servers of the agent
  build on them: \<^verbatim>\<open>isLoopbackHost\<close> of \<^verbatim>\<open>internal/agent/inspect/server.go\<close> and
  \<^verbatim>\<open>internal/agent/localapi.go\<close>. An address is a list of sixteen bytes, an IPv4 address in its mapped form.
\<close>

section \<open>Parsing\<close>

definition is_dec :: "char \<Rightarrow> bool" where
  "is_dec c \<longleftrightarrow> (let n = (of_char c :: nat) in 48 \<le> n \<and> n \<le> 57)"

definition hex_val :: "char \<Rightarrow> nat option" where
  "hex_val c =
     (let n = (of_char c :: nat) in
      if 48 \<le> n \<and> n \<le> 57 then Some (n - 48) else if 97 \<le> n \<and> n \<le> 102 then Some (n - 87)
      else if 65 \<le> n \<and> n \<le> 70 then Some (n - 55) else None)"

text \<open>A field of a dotted address: decimal, without a leading zero, at most 255.\<close>

definition octet :: "string \<Rightarrow> nat option" where
  "octet s =
     (if s \<noteq> [] \<and> list_all is_dec s \<and> (length s > 1 \<longrightarrow> hd s \<noteq> CHR ''0'') \<and> digits_val s \<le> 255
      then Some (digits_val s) else None)"

definition parseIPv4 :: "string \<Rightarrow> nat list option" where
  "parseIPv4 s =
     (case map octet (split_byte CHR ''.'' s) of
        [Some a, Some b, Some c, Some d] \<Rightarrow> Some [a, b, c, d]
      | _ \<Rightarrow> None)"

text \<open>
  The loop of \<^verbatim>\<open>parseIPv6\<close>. \<open>k\<close> groups still fit, \<open>ip\<close> holds the bytes so far and \<open>ell\<close> the place of the
  double colon. The result is what the loop leaves: the bytes, that place and the unread text.
\<close>

fun v6_loop :: "nat \<Rightarrow> nat option \<Rightarrow> nat list \<Rightarrow> string \<Rightarrow> (nat list \<times> nat option \<times> string) option" where
  "v6_loop 0 ell ip s = Some (ip, ell, s)"
| "v6_loop (Suc k) ell ip s =
     (let ds = takeWhile (\<lambda>c. hex_val c \<noteq> None) s;
          r = dropWhile (\<lambda>c. hex_val c \<noteq> None) s;
          acc = foldl (\<lambda>a c. 16 * a + the (hex_val c)) 0 ds;
          ip' = ip @ [acc div 256, acc mod 256]
      in if ds = [] \<or> length ds > 4 then None
         else (case r of
                 [] \<Rightarrow> Some (ip', ell, [])
               | c # r1 \<Rightarrow>
                   if c = CHR ''.'' then
                     if (ell = None \<and> length ip \<noteq> 12) \<or> length ip + 4 > 16 then None
                     else map_option (\<lambda>v4. (ip @ v4, ell, [])) (parseIPv4 s)
                   else if c \<noteq> CHR '':'' then None
                   else (case r1 of
                           [] \<Rightarrow> None
                         | d # r2 \<Rightarrow>
                             if d = CHR '':'' then
                               if ell \<noteq> None then None
                               else if r2 = [] then Some (ip', Some (length ip'), [])
                               else v6_loop k (Some (length ip')) ip' r2
                             else v6_loop k ell ip' r1)))"

text \<open>An address with a zone is refused by \<^verbatim>\<open>ParseIP\<close>.\<close>

definition parseIPv6 :: "string \<Rightarrow> nat list option" where
  "parseIPv6 s =
     (if CHR ''%'' \<in> set s then None
      else if s = ''::'' then Some (replicate 16 0)
      else
        let (ell, s') = (if has_prefix s ''::'' then (Some 0, drop 2 s) else (None, s)) in
        (case v6_loop 8 ell [] s' of
           None \<Rightarrow> None
         | Some (ip, ell', rest) \<Rightarrow>
             if rest \<noteq> [] then None
             else if length ip < 16 then
               map_option (\<lambda>e. take e ip @ replicate (16 - length ip) 0 @ drop e ip) ell'
             else if ell' \<noteq> None then None
             else Some ip))"

definition ParseIP :: "string \<Rightarrow> nat list option" where
  "ParseIP s =
     (case find (\<lambda>c. c \<in> {CHR ''.'', CHR '':'', CHR ''%''}) s of
        None \<Rightarrow> None
      | Some c \<Rightarrow>
          if c = CHR ''.'' then map_option (\<lambda>v4. replicate 10 0 @ [255, 255] @ v4) (parseIPv4 s)
          else if c = CHR '':'' then parseIPv6 s
          else None)"

section \<open>Classes of addresses\<close>

definition To4 :: "nat list \<Rightarrow> nat list option" where
  "To4 ip = (if take 12 ip = replicate 10 0 @ [255, 255] then Some (drop 12 ip) else None)"

definition IsLoopback :: "nat list \<Rightarrow> bool" where
  "IsLoopback ip = (case To4 ip of Some q \<Rightarrow> q ! 0 = 127 | None \<Rightarrow> ip = replicate 15 0 @ [1])"

definition IsPrivate :: "nat list \<Rightarrow> bool" where
  "IsPrivate ip =
     (case To4 ip of
        Some q \<Rightarrow> q ! 0 = 10 \<or> (q ! 0 = 172 \<and> q ! 1 div 16 = 1) \<or> (q ! 0 = 192 \<and> q ! 1 = 168)
      | None \<Rightarrow> ip ! 0 div 2 = 126)"

definition IsLinkLocalUnicast :: "nat list \<Rightarrow> bool" where
  "IsLinkLocalUnicast ip =
     (case To4 ip of
        Some q \<Rightarrow> q ! 0 = 169 \<and> q ! 1 = 254
      | None \<Rightarrow> ip ! 0 = 254 \<and> ip ! 1 div 64 = 2)"

definition IsUnspecified :: "nat list \<Rightarrow> bool" where
  "IsUnspecified ip \<longleftrightarrow> ip = replicate 10 0 @ [255, 255, 0, 0, 0, 0] \<or> ip = replicate 16 0"

section \<open>Printing\<close>

fun show_hex :: "nat \<Rightarrow> string" where
  "show_hex n = (if n < 16 then [hex_digit n] else show_hex (n div 16) @ [hex_digit (n mod 16)])"

declare show_hex.simps [simp del]

definition v6u16 :: "nat list \<Rightarrow> nat \<Rightarrow> nat" where
  "v6u16 ip i = 256 * ip ! (2 * i) + ip ! (2 * i + 1)"

text \<open>The first longest run of at least two zero groups.\<close>

definition zero_run :: "nat list \<Rightarrow> (nat \<times> nat) option" where
  "zero_run ip =
     foldl (\<lambda>best i.
        let l = length (takeWhile (\<lambda>j. v6u16 ip j = 0) [i..<8]) in
        if l \<ge> 2 \<and> (case best of None \<Rightarrow> True | Some (a, b) \<Rightarrow> l > b - a) then Some (i, i + l) else best)
      None [0..<8]"

definition join :: "string \<Rightarrow> string list \<Rightarrow> string" where
  "join sep ss = (case ss of [] \<Rightarrow> [] | s # rest \<Rightarrow> s @ concat (map (\<lambda>t. sep @ t) rest))"

definition ip_String :: "nat list \<Rightarrow> string" where
  "ip_String ip =
     (case To4 ip of
        Some q \<Rightarrow> join ''.'' (map show_nat q)
      | None \<Rightarrow>
          let part = (\<lambda>a b. join '':'' (map (\<lambda>i. show_hex (v6u16 ip i)) [a..<b])) in
          (case zero_run ip of
             None \<Rightarrow> part 0 8
           | Some (a, b) \<Rightarrow> part 0 a @ ''::'' @ part b 8))"

section \<open>The loopback guard\<close>

definition EqualFold :: "string \<Rightarrow> string \<Rightarrow> bool" where
  "EqualFold a b \<longleftrightarrow> to_lower a = to_lower b"

definition isLoopbackHost :: "string \<Rightarrow> bool" where
  "isLoopbackHost host =
     (if host = '''' then False
      else
        let h = (case split_host_port host of Some (hh, _) \<Rightarrow> hh | None \<Rightarrow> host) in
        if EqualFold h ''localhost'' then True
        else (case ParseIP h of Some ip \<Rightarrow> IsLoopback ip | None \<Rightarrow> False))"

section \<open>Facts\<close>

text \<open>The bytes an address can be written with.\<close>

definition addr_char :: "char \<Rightarrow> bool" where
  "addr_char c \<longleftrightarrow> hex_val c \<noteq> None \<or> c = CHR ''.'' \<or> c = CHR '':''"

lemma is_dec_addr: "is_dec c \<Longrightarrow> addr_char c"
  by (simp add: is_dec_def addr_char_def hex_val_def Let_def)

lemma split_byte_set: "c \<in> set s \<Longrightarrow> c = d \<or> (\<exists>f \<in> set (split_byte d s). c \<in> set f)"
  by (induction d s rule: split_byte.induct) (auto split: list.splits)

lemma parseIPv4_fields: "parseIPv4 s = Some q \<Longrightarrow> map octet (split_byte CHR ''.'' s) = map Some q \<and> length q = 4"
  by (auto simp: parseIPv4_def split: list.splits option.splits)

lemma octet_SomeD: "octet s = Some v \<Longrightarrow> list_all is_dec s \<and> v \<le> 255"
  by (auto simp: octet_def split: if_splits)

lemma parseIPv4_chars:
  assumes "parseIPv4 s = Some q" "c \<in> set s"
  shows "addr_char c"
proof (cases "c = CHR ''.''")
  case False
  with assms(2) split_byte_set obtain f where f: "f \<in> set (split_byte CHR ''.'' s)" "c \<in> set f" by blast
  with parseIPv4_fields [OF assms(1)] have "octet f \<in> set (map Some q)" by (metis image_eqI set_map)
  then have "list_all is_dec f" using octet_SomeD by fastforce
  with f show ?thesis by (auto simp: list_all_iff is_dec_addr)
qed (simp add: addr_char_def)

lemma parseIPv4_bytes:
  assumes "parseIPv4 s = Some q"
  shows "length q = 4 \<and> (\<forall>b \<in> set q. b < 256)"
proof -
  have "b \<le> 255" if "b \<in> set q" for b
  proof -
    from that parseIPv4_fields [OF assms] have "Some b \<in> set (map octet (split_byte CHR ''.'' s))" by simp
    then show ?thesis using octet_SomeD by fastforce
  qed
  with parseIPv4_fields [OF assms] show ?thesis by fastforce
qed

lemma hex_val_less: "hex_val c = Some v \<Longrightarrow> v < 16"
  by (auto simp: hex_val_def Let_def split: if_splits)

lemma hex_group_bound:
  assumes "\<forall>c \<in> set ds. hex_val c \<noteq> None"
  shows "foldl (\<lambda>a c. 16 * a + the (hex_val c)) a ds < (a + 1) * 16 ^ length ds"
  using assms
proof (induction ds arbitrary: a)
  case (Cons c ds)
  then obtain v where v: "hex_val c = Some v" by auto
  have "foldl (\<lambda>a c. 16 * a + the (hex_val c)) (16 * a + v) ds < (16 * a + v + 1) * 16 ^ length ds"
    using Cons by simp
  also have "\<dots> \<le> (16 * a + 16) * 16 ^ length ds" using hex_val_less [OF v] by (intro mult_right_mono) auto
  finally show ?case using v by (simp add: algebra_simps)
qed simp

text \<open>One turn of the loop over the groups: a trailing IPv4 address, the last group, or a group and more.\<close>

lemma v6_loop_Suc_cases:
  assumes "v6_loop (Suc k) ell ip s = Some (ip', ell', rest)"
  obtains (v4) q where "parseIPv4 s = Some q" "ip' = ip @ q" "ell' = ell" "rest = []" "length ip + 4 \<le> 16"
  | (final) hi lo where "hi < 256" "lo < 256" "ip' = ip @ [hi, lo]" "rest = []" "\<forall>c \<in> set s. addr_char c"
      "ell' = ell \<or> ell' = Some (length ip')"
  | (more) s0 s1 hi lo ell1 where "hi < 256" "lo < 256" "s = s0 @ s1" "\<forall>c \<in> set s0. addr_char c"
      "ell1 = ell \<or> ell1 = Some (length ip + 2)" "v6_loop k ell1 (ip @ [hi, lo]) s1 = Some (ip', ell', rest)"
proof -
  define ds where "ds = takeWhile (\<lambda>c. hex_val c \<noteq> None) s"
  define r where "r = dropWhile (\<lambda>c. hex_val c \<noteq> None) s"
  define acc where "acc = foldl (\<lambda>a c. 16 * a + the (hex_val c)) 0 ds"
  define hi lo where "hi = acc div 256" and "lo = acc mod 256"
  note eq = assms [unfolded v6_loop.simps Let_def, folded ds_def r_def, folded acc_def, folded hi_def lo_def]
  have ds: "\<forall>c \<in> set ds. hex_val c \<noteq> None" unfolding ds_def using set_takeWhileD by fastforce
  then have chars: "s = ds @ r" "\<forall>c \<in> set ds. addr_char c" "addr_char CHR ''.''" "addr_char CHR '':''"
    by (auto simp: addr_char_def ds_def r_def)
  from eq have len: "ds \<noteq> []" "length ds \<le> 4" by (auto split: if_splits)
  have "acc < 16 ^ length ds" unfolding acc_def using hex_group_bound [OF ds, of 0] by simp
  also have "\<dots> \<le> 16 ^ 4" using len by (intro power_increasing) auto
  finally have b: "hi < 256" "lo < 256" by (auto simp: hi_def lo_def)
  show ?thesis
  proof (cases r)
    case Nil
    with eq len b chars show ?thesis by (intro final [of hi lo]) auto
  next
    case (Cons c r1)
    show ?thesis
    proof (cases "c = CHR ''.''")
      case True
      with eq len Cons show ?thesis by (auto intro: v4 split: if_splits)
    next
      case False
      with eq len Cons obtain d r2 where r: "r = CHR '':'' # d # r2" "r1 = d # r2" by (auto split: if_splits list.splits)
      consider "d = CHR '':''" "r2 = []" | "d = CHR '':''" "r2 \<noteq> []" | "d \<noteq> CHR '':''" by blast
      then show ?thesis
      proof cases
        case 1
        with eq len r b chars show ?thesis by (intro final [of hi lo]) (auto split: if_splits)
      next
        case 2
        with eq len r b chars show ?thesis
          by (intro more [of hi lo "ds @ ''::''" r2 "Some (length ip + 2)"]) (auto split: if_splits)
      next
        case 3
        with eq len r b chars show ?thesis by (intro more [of hi lo "ds @ '':''" r1 ell]) (auto split: if_splits)
      qed
    qed
  qed
qed

lemma v6_loop_facts:
  assumes "v6_loop k ell ip s = Some (ip', ell', rest)" "\<forall>b \<in> set ip. b < 256" "length ip + 2 * k \<le> 16"
    "\<forall>e. ell = Some e \<longrightarrow> e \<le> length ip"
  shows "(\<forall>c \<in> set s. addr_char c \<or> c \<in> set rest) \<and> (\<forall>b \<in> set ip'. b < 256) \<and> length ip' \<le> 16
    \<and> (\<forall>e. ell' = Some e \<longrightarrow> e \<le> length ip')"
  using assms
proof (induction k arbitrary: ell ip s)
  case (Suc k)
  from Suc.prems(1) show ?case
  proof (cases rule: v6_loop_Suc_cases)
    case (v4 q)
    with Suc.prems parseIPv4_bytes [OF v4(1)] parseIPv4_chars [OF v4(1)] show ?thesis by fastforce
  next
    case (final hi lo)
    with Suc.prems show ?thesis by auto
  next
    case (more s0 s1 hi lo ell1)
    with Suc.IH [OF more(6)] Suc.prems show ?thesis by fastforce
  qed
qed simp

text \<open>Whatever \<^verbatim>\<open>ParseIP\<close> accepts is sixteen bytes, and is written with digits, dots and colons only.\<close>

lemma ParseIP_bytes:
  assumes "ParseIP s = Some ip"
  shows "length ip = 16 \<and> (\<forall>b \<in> set ip. b < 256) \<and> (\<forall>c \<in> set s. addr_char c)"
proof -
  have v6: ?thesis if p: "parseIPv6 s = Some ip"
  proof (cases "s = ''::''")
    case False
    obtain ell t where t: "(if has_prefix s ''::'' then (Some (0::nat), drop 2 s) else (None, s)) = (ell, t)" by fastforce
    then have s: "s = t \<or> s = ''::'' @ t" "ell = None \<or> ell = Some 0"
      using has_prefix_iff [of s "''::''"] by (auto simp: numeral_2_eq_2 split: if_splits)
    from p False t obtain ip' ell' where l: "v6_loop 8 ell [] t = Some (ip', ell', [])"
      and ip: "if length ip' < 16 then map_option (\<lambda>e. take e ip' @ replicate (16 - length ip') 0 @ drop e ip') ell' = Some ip
               else ell' = None \<and> ip = ip'"
      by (auto simp: parseIPv6_def split: if_splits option.splits)
    from v6_loop_facts [OF l] s have f: "\<forall>c \<in> set t. addr_char c" "\<forall>b \<in> set ip'. b < 256" "length ip' \<le> 16"
      "\<forall>e. ell' = Some e \<longrightarrow> e \<le> length ip'" by auto
    then have "length ip = 16" "\<forall>b \<in> set ip. b < 256"
      using ip by (auto split: if_splits dest!: in_set_takeD in_set_dropD)
    with f s show ?thesis by (auto simp: addr_char_def)
  qed (use p in \<open>auto simp: parseIPv6_def addr_char_def\<close>)
  show ?thesis
  proof (cases "parseIPv6 s = Some ip")
    case True
    then show ?thesis by (rule v6)
  next
    case False
    with assms obtain q where "parseIPv4 s = Some q" "ip = replicate 10 0 @ [255, 255] @ q"
      by (auto simp: ParseIP_def split: option.splits if_splits)
    with parseIPv4_bytes parseIPv4_chars show ?thesis by fastforce
  qed
qed

lemma hex_digit_addr: "n < 16 \<Longrightarrow> addr_char (hex_digit n)"
  using hex_digit_range [of n] by (auto simp: addr_char_def hex_val_def Let_def split: if_splits)

lemma show_hex_addr: "c \<in> set (show_hex n) \<Longrightarrow> addr_char c"
proof (induction n rule: show_hex.induct)
  case (1 n)
  then show ?case by (subst (asm) (2) show_hex.simps) (auto simp: hex_digit_addr split: if_splits)
qed

lemma join_set: "c \<in> set (join sep ss) \<Longrightarrow> c \<in> set sep \<or> (\<exists>s \<in> set ss. c \<in> set s)"
  by (auto simp: join_def split: list.splits if_splits)

lemma ip_String_chars: "c \<in> set (ip_String ip) \<Longrightarrow> addr_char c"
  by (auto simp: ip_String_def Let_def addr_char_def hex_val_def split: option.splits prod.splits
      dest!: join_set show_hex_addr show_nat_digits)

end
