(* ===== verification/Http.thy ===== *)
theory Http
  imports Hosts
begin

text \<open>
  The parts of \<^verbatim>\<open>net/http\<close>, \<^verbatim>\<open>encoding/base64\<close> and \<^verbatim>\<open>crypto/subtle\<close> that the ingress uses, and the
  ingress helpers that need nothing else: \<^verbatim>\<open>removeHopByHopHeaders\<close>, \<^verbatim>\<open>isUpgrade\<close>, \<^verbatim>\<open>checkBasicAuth\<close>,
  \<^verbatim>\<open>basicAuthDelay\<close> and \<^verbatim>\<open>max64\<close> of \<^verbatim>\<open>internal/server/ingress_http.go\<close>.
\<close>

section \<open>Headers\<close>

type_synonym Header = "(string, string list) gomap"

definition token_char :: "char \<Rightarrow> bool" where
  "token_char c \<longleftrightarrow>
     (let n = (of_char c :: nat) in 48 \<le> n \<and> n \<le> 57 \<or> 65 \<le> n \<and> n \<le> 90 \<or> 97 \<le> n \<and> n \<le> 122)
     \<or> c \<in> set ''!#$%&*+-.^_`|~'' \<or> of_char c = (39 :: nat)"

fun canon_from :: "bool \<Rightarrow> string \<Rightarrow> string" where
  "canon_from upper [] = []"
| "canon_from upper (c # cs) =
     (if upper then upper_char c else lower_char c) # canon_from (c = CHR ''-'') cs"

text \<open>\<^verbatim>\<open>CanonicalMIMEHeaderKey\<close>: a name with a byte that is not a token byte is left alone.\<close>

definition canon :: "string \<Rightarrow> string" where
  "canon k = (if \<forall>c \<in> set k. token_char c then canon_from True k else k)"

definition hdr_Get :: "Header \<Rightarrow> string \<Rightarrow> string" where
  "hdr_Get h k = (case gget h (canon k) of Some (v # _) \<Rightarrow> v | _ \<Rightarrow> '''')"

definition hdr_Set :: "string \<Rightarrow> string \<Rightarrow> Header \<Rightarrow> Header" where
  "hdr_Set k v h = gset (canon k) [v] h"

definition hdr_Del :: "string \<Rightarrow> Header \<Rightarrow> Header" where
  "hdr_Del k h = gdel (canon k) h"

definition hopByHopHeaders :: "string list" where
  "hopByHopHeaders = [''Connection'', ''Proxy-Connection'', ''Keep-Alive'', ''Proxy-Authenticate'',
     ''Proxy-Authorization'', ''Te'', ''Trailer'', ''Transfer-Encoding'', ''Upgrade'']"

text \<open>The names a \<^verbatim>\<open>Connection\<close> header lists; the range over \<^verbatim>\<open>h["Connection"]\<close> is fixed before the loop.\<close>

definition connection_names :: "Header \<Rightarrow> string list" where
  "connection_names h =
     filter (\<lambda>sf. sf \<noteq> '''')
       (concat (map (\<lambda>f. map trim_space (split_byte CHR '','' f))
          (case gget h ''Connection'' of Some vs \<Rightarrow> vs | None \<Rightarrow> [])))"

definition removeHopByHopHeaders :: "Header \<Rightarrow> Header" where
  "removeHopByHopHeaders h = fold hdr_Del hopByHopHeaders (fold hdr_Del (connection_names h) h)"

lemma gget_fold_Del: "gget (fold hdr_Del ks h) x = (if x \<in> canon ` set ks then None else gget h x)"
  by (induction ks arbitrary: h) (auto simp: hdr_Del_def)

lemma hdr_Get_Set: "hdr_Get (hdr_Set k v h) j = (if canon j = canon k then v else hdr_Get h j)"
  by (simp add: hdr_Get_def hdr_Set_def)

lemma hdr_Get_Del: "hdr_Get (hdr_Del k h) j = (if canon j = canon k then '''' else hdr_Get h j)"
  by (simp add: hdr_Get_def hdr_Del_def)

lemma canon_examples [simp]:
  "canon ''X-Forwarded-For'' = ''X-Forwarded-For''" "canon ''X-Real-Ip'' = ''X-Real-Ip''"
  "canon ''X-Forwarded-Proto'' = ''X-Forwarded-Proto''" "canon ''X-Forwarded-Host'' = ''X-Forwarded-Host''"
  "canon ''X-Request-Id'' = ''X-Request-Id''" "canon ''Forwarded'' = ''Forwarded''"
  "canon ''Authorization'' = ''Authorization''" "canon ''Connection'' = ''Connection''"
  by code_simp+

section \<open>Base64\<close>

definition b64_digit :: "nat \<Rightarrow> char" where
  "b64_digit n =
     char_of (if n < 26 then n + 65 else if n < 52 then n + 71 else if n < 62 then n - 4
              else if n = 62 then 43 else 47)"

definition b64_value :: "char \<Rightarrow> nat option" where
  "b64_value c =
     (let n = (of_char c :: nat) in
      if 65 \<le> n \<and> n \<le> 90 then Some (n - 65)
      else if 97 \<le> n \<and> n \<le> 122 then Some (n - 71)
      else if 48 \<le> n \<and> n \<le> 57 then Some (n + 4)
      else if n = 43 then Some 62 else if n = 47 then Some 63 else None)"

fun b64_encode :: "nat list \<Rightarrow> string" where
  "b64_encode [] = []"
| "b64_encode [a] = [b64_digit (a div 4), b64_digit (a mod 4 * 16), CHR ''='', CHR ''='']"
| "b64_encode [a, b] =
     [b64_digit (a div 4), b64_digit (a mod 4 * 16 + b div 16), b64_digit (b mod 16 * 4), CHR ''='']"
| "b64_encode (a # b # c # r) =
     b64_digit (a div 4) # b64_digit (a mod 4 * 16 + b div 16) # b64_digit (b mod 16 * 4 + c div 64)
       # b64_digit (c mod 64) # b64_encode r"

text \<open>
  \<^verbatim>\<open>StdEncoding.DecodeString\<close> on text without line breaks: groups of four, padding only at the end.
  Non-zero bits below a padded byte are ignored, as by the (non-strict) decoder.
\<close>

fun b64_groups :: "string \<Rightarrow> nat list option" where
  "b64_groups [] = Some []"
| "b64_groups [w, x, y, z] =
     (case (b64_value w, b64_value x) of
        (Some p, Some q) \<Rightarrow>
          if y = CHR ''='' then (if z = CHR ''='' then Some [p * 4 + q div 16] else None)
          else (case b64_value y of
                  None \<Rightarrow> None
                | Some r \<Rightarrow>
                    if z = CHR ''='' then Some [p * 4 + q div 16, q mod 16 * 16 + r div 4]
                    else (case b64_value z of
                            None \<Rightarrow> None
                          | Some t \<Rightarrow> Some [p * 4 + q div 16, q mod 16 * 16 + r div 4, r mod 4 * 64 + t]))
      | _ \<Rightarrow> None)"
| "b64_groups (w # x # y # z # v # rest) =
     (case (b64_value w, b64_value x, b64_value y, b64_value z, b64_groups (v # rest)) of
        (Some p, Some q, Some r, Some t, Some bs) \<Rightarrow>
          Some ((p * 4 + q div 16) # (q mod 16 * 16 + r div 4) # (r mod 4 * 64 + t) # bs)
      | _ \<Rightarrow> None)"
| "b64_groups _ = None"

text \<open>Line breaks are skipped by the decoder.\<close>

definition b64_decode :: "string \<Rightarrow> nat list option" where
  "b64_decode s = b64_groups (filter (\<lambda>c. of_char c \<noteq> (10 :: nat) \<and> of_char c \<noteq> (13 :: nat)) s)"

definition bytes_of :: "string \<Rightarrow> nat list" where
  "bytes_of s = map of_char s"

lemma b64_digit_ok:
  assumes "n < 64"
  shows "b64_value (b64_digit n) = Some n \<and> b64_digit n \<noteq> CHR ''='' \<and>
     of_char (b64_digit n) \<noteq> (10 :: nat) \<and> of_char (b64_digit n) \<noteq> (13 :: nat)"
proof -
  define c where "c = b64_digit n"
  have c: "(of_char c :: nat) = (if n < 26 then n + 65 else if n < 52 then n + 71 else if n < 62 then n - 4
      else if n = 62 then 43 else 47)"
    using assms by (simp add: c_def b64_digit_def)
  then have "c \<noteq> CHR ''=''" using assms by (auto split: if_splits)
  moreover have "b64_value c = Some n"
    unfolding b64_value_def c Let_def using assms by auto
  moreover have "(of_char c :: nat) \<noteq> 10" "(of_char c :: nat) \<noteq> 13" unfolding c using assms by auto
  ultimately show ?thesis by (simp add: c_def [symmetric])
qed

lemma b64_groups_encode:
  assumes "\<forall>b \<in> set bs. b < 256"
  shows "b64_groups (b64_encode bs) = Some bs"
  using assms
proof (induction bs rule: b64_encode.induct)
  case (4 a b c r)
  have d: "a div 4 < 64" "a mod 4 * 16 + b div 16 < 64" "b mod 16 * 4 + c div 64 < 64" "c mod 64 < 64"
    using 4(2) by auto
  have e: "a div 4 * 4 + (a mod 4 * 16 + b div 16) div 16 = a"
    "(a mod 4 * 16 + b div 16) mod 16 * 16 + (b mod 16 * 4 + c div 64) div 4 = b"
    "(b mod 16 * 4 + c div 64) mod 4 * 64 + c mod 64 = c"
    using 4(2) by auto
  show ?case
  proof (cases r)
    case Nil
    then show ?thesis using d e by (simp add: b64_digit_ok)
  next
    case (Cons x xs)
    then obtain v rest where enc: "b64_encode r = v # rest" by (cases r rule: b64_encode.cases) auto
    have IH: "b64_groups (b64_encode r) = Some r" using 4 by simp
    show ?thesis using d e IH by (simp add: enc b64_digit_ok)
  qed
qed (auto simp: b64_digit_ok)

lemma b64_encode_no_break:
  "\<forall>b \<in> set bs. b < 256 \<Longrightarrow> c \<in> set (b64_encode bs) \<Longrightarrow> of_char c \<noteq> (10 :: nat) \<and> of_char c \<noteq> (13 :: nat)"
proof (induction bs rule: b64_encode.induct)
  case (4 a b c' r)
  have d: "a div 4 < 64" "a mod 4 * 16 + b div 16 < 64" "b mod 16 * 4 + c' div 64 < 64" "c' mod 64 < 64"
    using 4(2) by auto
  with 4 show ?case using b64_digit_ok by fastforce
next
  case (2 a)
  then have "a div 4 < 64" "a mod 4 * 16 < 64" by auto
  with 2 show ?case using b64_digit_ok by fastforce
next
  case (3 a b)
  then have "a div 4 < 64" "a mod 4 * 16 + b div 16 < 64" "b mod 16 * 4 < 64" by auto
  with 3 show ?case using b64_digit_ok by fastforce
qed simp

lemma b64_decode_encode:
  assumes "\<forall>b \<in> set bs. b < 256"
  shows "b64_decode (b64_encode bs) = Some bs"
proof -
  have "filter (\<lambda>c. of_char c \<noteq> (10 :: nat) \<and> of_char c \<noteq> (13 :: nat)) (b64_encode bs) = b64_encode bs"
    using b64_encode_no_break [OF assms] by (simp add: filter_id_conv)
  with b64_groups_encode [OF assms] show ?thesis by (simp add: b64_decode_def)
qed

section \<open>Helpers of the ingress\<close>

definition opt_get :: "(string, string) gomap \<Rightarrow> string \<Rightarrow> string" where
  "opt_get m k = (case gget m k of Some v \<Rightarrow> v | None \<Rightarrow> '''')"

definition checkBasicAuth :: "Header \<Rightarrow> (string, string) gomap \<Rightarrow> bool" where
  "checkBasicAuth hdr options =
     (let want = opt_get options ''basic_auth'' in
      if want = '''' then True
      else
        let h = hdr_Get hdr ''Authorization'' in
        if \<not> has_prefix h ''Basic '' then False
        else (case b64_decode (drop 6 h) of None \<Rightarrow> False | Some dec \<Rightarrow> dec = bytes_of want))"

definition str_contains :: "string \<Rightarrow> string \<Rightarrow> bool" where
  "str_contains s p \<longleftrightarrow> (\<exists>i \<in> set [0..<Suc (length s)]. take (length p) (drop i s) = p)"

definition isUpgrade :: "Header \<Rightarrow> bool" where
  "isUpgrade hdr \<longleftrightarrow>
     to_lower (hdr_Get hdr ''Connection'') = ''upgrade'' \<or>
     str_contains (to_lower (hdr_Get hdr ''Connection'')) ''upgrade''"

definition maxBasicAuthFailures :: int where
  "maxBasicAuthFailures = 10"

definition basicAuthDelay :: "int \<Rightarrow> duration" where
  "basicAuthDelay failures =
     (let d = failures * 250 * millisecond in if d > 2 * second then 2 * second else d)"

definition max64 :: "int \<Rightarrow> int \<Rightarrow> int" where
  "max64 a b = (if a > b then a else b)"

lemma of_char_lt_256: "b \<in> set (bytes_of s) \<Longrightarrow> b < 256"
  by (auto simp: bytes_of_def)

lemma checkBasicAuth_credentials:
  assumes "opt_get options ''basic_auth'' = want"
    and "hdr_Get hdr ''Authorization'' = ''Basic '' @ b64_encode (bytes_of want)"
  shows "checkBasicAuth hdr options"
  using assms b64_decode_encode [of "bytes_of want"] of_char_lt_256 [of _ want]
  by (simp add: checkBasicAuth_def Let_def has_prefix_def)

section \<open>Properties\<close>

text \<open>Hop-by-hop headers never cross the proxy: after \<^verbatim>\<open>removeHopByHopHeaders\<close> neither a header of
  the fixed list nor one that a \<^verbatim>\<open>Connection\<close> header names is left, and every other header is
  untouched.\<close>

theorem hop_by_hop_removed:
  "gget (removeHopByHopHeaders h) k =
     (if k \<in> canon ` set (hopByHopHeaders @ connection_names h) then None else gget h k)"
  by (auto simp: removeHopByHopHeaders_def gget_fold_Del)

text \<open>The password check of a protected tunnel accepts the right credentials and nothing else:
  with a non-empty \<^verbatim>\<open>basic_auth\<close> option it succeeds exactly when the header is \<^verbatim>\<open>Basic \<close> followed by
  text that decodes to the option, and the standard encoding of the option is such a text.\<close>

theorem basic_auth_exact:
  assumes "opt_get options ''basic_auth'' = want" "want \<noteq> ''''"
  shows "(checkBasicAuth hdr options \<longleftrightarrow>
            (\<exists>t. hdr_Get hdr ''Authorization'' = ''Basic '' @ t \<and> b64_decode t = Some (bytes_of want)))
       \<and> checkBasicAuth (hdr_Set ''Authorization'' (''Basic '' @ b64_encode (bytes_of want)) hdr) options"
proof -
  let ?h = "hdr_Get hdr ''Authorization''"
  have "has_prefix ?h ''Basic '' \<longleftrightarrow> ?h = ''Basic '' @ drop 6 ?h"
    using has_prefix_iff [of ?h "''Basic ''"] by (simp add: numeral_eq_Suc)
  then have "checkBasicAuth hdr options \<longleftrightarrow>
      (?h = ''Basic '' @ drop 6 ?h \<and> b64_decode (drop 6 ?h) = Some (bytes_of want))"
    using assms by (auto simp: checkBasicAuth_def Let_def split: option.splits)
  also have "\<dots> \<longleftrightarrow> (\<exists>t. ?h = ''Basic '' @ t \<and> b64_decode t = Some (bytes_of want))" by auto
  finally show ?thesis
    using checkBasicAuth_credentials [OF assms(1)] by (simp add: hdr_Get_Set)
qed

theorem basic_auth_exact_witness:
  "checkBasicAuth [(''Authorization'', [''Basic dTpw''])] [(''basic_auth'', ''u:p'')]"
  using basic_auth_exact [of "[(''basic_auth'', ''u:p'')]" "''u:p''" "[(''Authorization'', [''Basic dTpw''])]"]
  by (simp add: opt_get_def hdr_Get_def b64_decode_def b64_value_def bytes_of_def Let_def)

end
