(* ===== verification/Fanout.thy ===== *)
theory Fanout
  imports Prelude
begin

text \<open>
  Live event streams. The request inspector and the control API of the agent and the remote-control relay of the
  control plane hand every event to a set of subscribers, each behind a buffered channel that drops an event when it
  is full. The locale \<open>fanout\<close> states what they promise; its lemma says what a subscriber gets to see.
\<close>

section \<open>A buffered channel\<close>

text \<open>\<^verbatim>\<open>select { case ch <- x: default: }\<close> on a channel of capacity \<open>cap\<close> holding \<open>q\<close>.\<close>

definition try_send :: "nat \<Rightarrow> 'a \<Rightarrow> 'a list \<Rightarrow> 'a list" where
  "try_send cap x q = (if length q < cap then q @ [x] else q)"

lemma length_try_send: "length q \<le> cap \<Longrightarrow> length (try_send cap x q) \<le> cap"
  by (simp add: try_send_def)

section \<open>Subscribers\<close>

datatype 'i fan_op = FPublish 'i | FSubscribe | FUnsubscribe nat | FReceive nat

text \<open>
  \<open>publish\<close> returns the event it hands out; \<open>chan s i\<close> is what waits in the channel of subscriber \<open>i\<close>,
  \<open>None\<close> when there is no such subscriber; \<open>receive i\<close> takes the oldest of them. A new subscriber finds
  \<open>greeting s\<close> in its channel.
\<close>

locale fanout =
  fixes publish :: "'i \<Rightarrow> 's \<Rightarrow> 'e \<times> 's"
    and subscribe :: "'s \<Rightarrow> nat \<times> 's"
    and unsubscribe :: "nat \<Rightarrow> 's \<Rightarrow> 's"
    and receive :: "nat \<Rightarrow> 's \<Rightarrow> 'e option \<times> 's"
    and chan :: "'s \<Rightarrow> nat \<Rightarrow> 'e list option"
    and cap :: nat
    and fresh :: "'s \<Rightarrow> nat"
    and greeting :: "'s \<Rightarrow> 'e list"
  assumes publish_chan: "publish x s = (e, s') \<Longrightarrow> chan s' i = map_option (try_send cap e) (chan s i)"
    and publish_fresh: "publish x s = (e, s') \<Longrightarrow> fresh s' = fresh s"
    and subscribe_chan: "subscribe s = (i, s') \<Longrightarrow> i = fresh s \<and> fresh s' = Suc (fresh s) \<and> chan s' = (chan s)(i := Some (greeting s))"
    and unsubscribe_chan: "chan (unsubscribe i s) = (chan s)(i := None)"
    and unsubscribe_fresh: "fresh (unsubscribe i s) = fresh s"
    and receive_chan: "receive i s = (r, s') \<Longrightarrow>
        fresh s' = fresh s \<and>
        (case chan s i of
           Some (e # q) \<Rightarrow> r = Some e \<and> chan s' = (chan s)(i := Some q)
         | _ \<Rightarrow> r = None \<and> chan s' = chan s)"
begin

text \<open>A run, with the events published in it and what subscriber \<open>i\<close> receives.\<close>

fun step :: "'i fan_op \<Rightarrow> 's \<Rightarrow> 's" where
  "step (FPublish x) s = snd (publish x s)"
| "step FSubscribe s = snd (subscribe s)"
| "step (FUnsubscribe i) s = unsubscribe i s"
| "step (FReceive i) s = snd (receive i s)"

fun published :: "'i fan_op list \<Rightarrow> 's \<Rightarrow> 'e list" where
  "published [] s = []"
| "published (p # ps) s = (case p of FPublish x \<Rightarrow> [fst (publish x s)] | _ \<Rightarrow> []) @ published ps (step p s)"

fun received :: "nat \<Rightarrow> 'i fan_op list \<Rightarrow> 's \<Rightarrow> 'e list" where
  "received i [] s = []"
| "received i (p # ps) s =
     (if p = FReceive i then (case fst (receive i s) of Some e \<Rightarrow> [e] | None \<Rightarrow> []) else []) @ received i ps (step p s)"

text \<open>No event finds the channel of \<open>i\<close> full.\<close>

fun keeps_up :: "nat \<Rightarrow> 'i fan_op list \<Rightarrow> 's \<Rightarrow> bool" where
  "keeps_up i [] s = True"
| "keeps_up i (p # ps) s =
     ((case (p, chan s i) of (FPublish x, Some q) \<Rightarrow> length q < cap | _ \<Rightarrow> True) \<and> keeps_up i ps (step p s))"

lemma step_live:
  assumes "i < fresh s" "chan s i = Some q" "p \<noteq> FUnsubscribe i"
  shows "i < fresh (step p s)"
    and "\<exists>q'. chan (step p s) i = Some q' \<and>
      (case p of FPublish x \<Rightarrow> q' = try_send cap (fst (publish x s)) q
       | FReceive j \<Rightarrow> (if j = i then (case fst (receive i s) of Some e \<Rightarrow> q = e # q' | None \<Rightarrow> q' = q) else q' = q)
       | _ \<Rightarrow> q' = q)"
proof -
  show "i < fresh (step p s)"
  proof (cases p)
    case (FPublish x)
    then show ?thesis using assms(1) publish_fresh [of x s] by (cases "publish x s") simp
  next
    case FSubscribe
    then show ?thesis using assms(1) subscribe_chan [of s] by (cases "subscribe s") auto
  next
    case (FUnsubscribe j)
    then show ?thesis using assms(1) by (simp add: unsubscribe_fresh)
  next
    case (FReceive j)
    then show ?thesis using assms(1) receive_chan [of j s] by (cases "receive j s") simp
  qed
  show "\<exists>q'. chan (step p s) i = Some q' \<and>
      (case p of FPublish x \<Rightarrow> q' = try_send cap (fst (publish x s)) q
       | FReceive j \<Rightarrow> (if j = i then (case fst (receive i s) of Some e \<Rightarrow> q = e # q' | None \<Rightarrow> q' = q) else q' = q)
       | _ \<Rightarrow> q' = q)"
  proof (cases p)
    case (FPublish x)
    then show ?thesis using assms publish_chan [of x s] by (cases "publish x s") simp
  next
    case FSubscribe
    then show ?thesis using assms subscribe_chan [of s] by (cases "subscribe s") auto
  next
    case (FUnsubscribe j)
    then show ?thesis using assms by (auto simp: unsubscribe_chan)
  next
    case (FReceive j)
    obtain r s' where r: "receive j s = (r, s')" by fastforce
    from receive_chan [OF r] FReceive assms r show ?thesis
      by (cases "chan s j"; cases "j = i") (auto split: list.splits)
  qed
qed

text \<open>A subscriber that stays sees the events in order, each at most once, and all of them when it keeps up.\<close>

lemma subscriber_sees:
  assumes "i < fresh s" "chan s i = Some q" "FUnsubscribe i \<notin> set ps"
  shows "\<exists>q'. chan (fold step ps s) i = Some q' \<and> subseq (received i ps s @ q') (q @ published ps s)
     \<and> (keeps_up i ps s \<longrightarrow> received i ps s @ q' = q @ published ps s)"
  using assms
proof (induction ps arbitrary: s q)
  case (Cons p ps)
  from step_live [of i s q p] Cons.prems obtain q1 where q1: "chan (step p s) i = Some q1" "i < fresh (step p s)"
    and c: "case p of FPublish x \<Rightarrow> q1 = try_send cap (fst (publish x s)) q
       | FReceive j \<Rightarrow> (if j = i then (case fst (receive i s) of Some e \<Rightarrow> q = e # q1 | None \<Rightarrow> q1 = q) else q1 = q)
       | _ \<Rightarrow> q1 = q" by auto
  from Cons.IH [OF q1(2,1)] Cons.prems obtain q' where IH: "chan (fold step ps (step p s)) i = Some q'"
    "subseq (received i ps (step p s) @ q') (q1 @ published ps (step p s))"
    "keeps_up i ps (step p s) \<longrightarrow> received i ps (step p s) @ q' = q1 @ published ps (step p s)" by auto
  show ?case
  proof (cases p)
    case (FPublish x)
    define e where "e = fst (publish x s)"
    from FPublish c have "q1 = q @ [e] \<and> length q < cap \<or> q1 = q \<and> \<not> length q < cap" by (auto simp: try_send_def e_def)
    moreover have "subseq (q @ published ps (step p s)) (q @ e # published ps (step p s))"
      by (simp add: subseq_append' list_emb_Cons)
    ultimately show ?thesis using FPublish IH Cons.prems(2)
      by (intro exI [of _ q']) (auto simp: e_def [symmetric] intro: subseq_order.trans)
  next
    case (FReceive j)
    then show ?thesis using IH c by (intro exI [of _ q']) (auto split: if_splits option.splits)
  qed (use IH c in \<open>intro exI [of _ q'], auto\<close>)+
qed simp

end

end
