(* ===== verification/Inspect.thy ===== *)
theory Inspect
  imports IpAddr Http Fanout
begin

text \<open>
  The request inspector of the agent: the recorder of \<^verbatim>\<open>internal/agent/inspect/inspect.go\<close> and the local
  server of \<^verbatim>\<open>internal/agent/inspect/server.go\<close>. The HTTP client that replays a request is an argument. The
  recorder refines an unbounded log of captures of which it shows the last \<open>capN\<close>; its live stream is an
  instance of the locale \<open>fanout\<close>.
\<close>

section \<open>The recorder\<close>

record CapturedRequest =
  crID :: string
  crTunnelID :: string
  crProto :: string
  crMethod :: string
  crHost :: string
  crPath :: string
  crStatus :: int
  crStartedAt :: gotime
  crDurationMs :: int
  crReqHeaders :: "(string, string) gomap"
  crRespHeaders :: "(string, string) gomap"
  crReqBody :: "byte list"
  crRespBody :: "byte list"
  crBytesIn :: int
  crBytesOut :: int
  crLocalAddr :: string

definition MaxBodyCapture :: nat where
  "MaxBodyCapture = 64 * 1024"

record Recorder =
  capN :: nat
  recBuf :: "CapturedRequest list"
  recSeq :: nat
  recSubs :: "(nat, CapturedRequest list) gomap"
  nextSub :: nat

definition NewRecorder :: "int \<Rightarrow> Recorder" where
  "NewRecorder capacity =
     \<lparr>capN = (if capacity \<le> 0 then 128 else nat capacity), recBuf = [], recSeq = 0, recSubs = [], nextSub = 0\<rparr>"

text \<open>Copying the buffer down by one and cutting off the last place drops the oldest capture.\<close>

definition rec_Add :: "CapturedRequest \<Rightarrow> Recorder \<Rightarrow> CapturedRequest \<times> Recorder" where
  "rec_Add c r =
     (let n = recSeq r + 1;
          c' = (if crID c = '''' then c\<lparr>crID := ''r'' @ show_nat n\<rparr> else c);
          b = (if length (recBuf r) \<ge> capN r then tl (recBuf r) else recBuf r)
      in (c', r\<lparr>recSeq := n, recBuf := b @ [c'], recSubs := map (\<lambda>(i, q). (i, try_send 32 c' q)) (recSubs r)\<rparr>))"

definition rec_List :: "Recorder \<Rightarrow> CapturedRequest list" where
  "rec_List r = rev (recBuf r)"

definition rec_Clear :: "Recorder \<Rightarrow> Recorder" where
  "rec_Clear r = r\<lparr>recBuf := []\<rparr>"

definition rec_Get :: "string \<Rightarrow> Recorder \<Rightarrow> CapturedRequest option" where
  "rec_Get i r = find (\<lambda>c. crID c = i) (recBuf r)"

definition rec_Subscribe :: "Recorder \<Rightarrow> nat \<times> Recorder" where
  "rec_Subscribe r = (nextSub r, r\<lparr>nextSub := nextSub r + 1, recSubs := gset (nextSub r) [] (recSubs r)\<rparr>)"

definition rec_Unsubscribe :: "nat \<Rightarrow> Recorder \<Rightarrow> Recorder" where
  "rec_Unsubscribe i r = r\<lparr>recSubs := gdel i (recSubs r)\<rparr>"

text \<open>The receive of \<^verbatim>\<open>stream\<close>, when something waits.\<close>

definition stream_recv :: "nat \<Rightarrow> Recorder \<Rightarrow> CapturedRequest option \<times> Recorder" where
  "stream_recv i r =
     (case gget (recSubs r) i of
        Some (c # q) \<Rightarrow> (Some c, r\<lparr>recSubs := gset i q (recSubs r)\<rparr>)
      | _ \<Rightarrow> (None, r))"

definition capBody :: "byte list \<Rightarrow> byte list" where
  "capBody b = (if length b > MaxBodyCapture then take MaxBodyCapture b else b)"

interpretation insp: fanout rec_Add rec_Subscribe rec_Unsubscribe stream_recv "\<lambda>r. gget (recSubs r)" 32 nextSub "\<lambda>_. []"
proof (unfold_locales, goal_cases)
  case (1 x s e s' i)
  then show ?case by (auto simp: rec_Add_def Let_def map_of_map)
next
  case (6 i s r s')
  then show ?case by (auto simp: stream_recv_def split: option.splits list.splits)
qed (auto simp: rec_Add_def Let_def rec_Subscribe_def rec_Unsubscribe_def)

section \<open>The local server\<close>

definition headerMap :: "Header \<Rightarrow> (string, string) gomap" where
  "headerMap h = map (\<lambda>(k, v). (k, join '', '' v)) h"

definition isHopByHop :: "string \<Rightarrow> bool" where
  "isHopByHop k \<longleftrightarrow> canon k \<in> {''Connection'', ''Keep-Alive'', ''Transfer-Encoding'', ''Upgrade'', ''Proxy-Connection'',
     ''Te'', ''Trailer''}"

text \<open>\<open>send\<close> is \<^verbatim>\<open>http.NewRequest\<close> followed by \<^verbatim>\<open>client.Do\<close>: method, URL, headers and body, to an error or a status,
  headers and a body.\<close>

type_synonym sender = "string \<Rightarrow> string \<Rightarrow> Header \<Rightarrow> byte list \<Rightarrow> string + int \<times> Header \<times> byte list"

definition replay_url :: "CapturedRequest \<Rightarrow> string" where
  "replay_url c =
     (let host = crLocalAddr c;
          host = (if split_host_port host = None then host @ '':80'' else host)
      in ''http://'' @ host @ crPath c)"

definition replay :: "sender \<Rightarrow> gotime \<Rightarrow> gotime \<Rightarrow> CapturedRequest \<Rightarrow> Recorder \<Rightarrow> (string + CapturedRequest) \<times> Recorder" where
  "replay send start finish c r =
     (if crLocalAddr c = '''' then (Inl ''no local address recorded'', r)
      else
        let hdr = fold (\<lambda>(k, v) h. if isHopByHop k then h else hdr_Set k v h) (crReqHeaders c) [] in
        (case send (crMethod c) (replay_url c) hdr (crReqBody c) of
           Inl err \<Rightarrow> (Inl err, r)
         | Inr (status, rh, rb) \<Rightarrow>
             let body = take MaxBodyCapture rb;
                 ot = \<lparr>crID = '''', crTunnelID = crTunnelID c, crProto = crProto c, crMethod = crMethod c, crHost = crHost c,
                       crPath = crPath c @ '' (replay)'', crStatus = status, crStartedAt = start,
                       crDurationMs = (finish - start) div millisecond, crReqHeaders = crReqHeaders c,
                       crRespHeaders = headerMap rh, crReqBody = crReqBody c, crRespBody = capBody body,
                       crBytesIn = 0, crBytesOut = 0, crLocalAddr = crLocalAddr c\<rparr>
             in map_prod Inr (\<lambda>x. x) (rec_Add ot r)))"

datatype insp_req = GetIndex | GetRequests | GetRequest string | PostReplay string | GetStream

datatype insp_resp =
    RespPage
  | RespList "CapturedRequest list"
  | RespOne CapturedRequest
  | RespStream nat
  | RespErr int string

definition insp_handle :: "sender \<Rightarrow> gotime \<Rightarrow> gotime \<Rightarrow> insp_req \<Rightarrow> Recorder \<Rightarrow> insp_resp \<times> Recorder" where
  "insp_handle send start finish q r =
     (case q of
        GetIndex \<Rightarrow> (RespPage, r)
      | GetRequests \<Rightarrow> (RespList (rec_List r), r)
      | GetRequest i \<Rightarrow> (case rec_Get i r of None \<Rightarrow> (RespErr 404 ''not found'', r) | Some c \<Rightarrow> (RespOne c, r))
      | PostReplay i \<Rightarrow>
          (case rec_Get i r of
             None \<Rightarrow> (RespErr 404 ''not found'', r)
           | Some c \<Rightarrow>
               (case replay send start finish c r of
                  (Inl err, r') \<Rightarrow> (RespErr 502 err, r')
                | (Inr c', r') \<Rightarrow> (RespOne c', r')))
      | GetStream \<Rightarrow> map_prod RespStream (\<lambda>x. x) (rec_Subscribe r))"

definition guardLoopback :: "string \<Rightarrow> (Recorder \<Rightarrow> insp_resp \<times> Recorder) \<Rightarrow> Recorder \<Rightarrow> insp_resp \<times> Recorder" where
  "guardLoopback host hnext r =
     (if \<not> isLoopbackHost host then (RespErr 403 ''forbidden: non-loopback host'', r) else hnext r)"

section \<open>The recorder as a log\<close>

text \<open>What is done to a recorder, and the specification: a log that only \<open>Clear\<close> shortens, and a counter.\<close>

datatype rec_op = RAdd CapturedRequest | RClear | RSubscribe | RUnsubscribe nat | RReceive nat

fun rec_step :: "rec_op \<Rightarrow> Recorder \<Rightarrow> Recorder" where
  "rec_step (RAdd c) r = snd (rec_Add c r)"
| "rec_step RClear r = rec_Clear r"
| "rec_step RSubscribe r = snd (rec_Subscribe r)"
| "rec_step (RUnsubscribe i) r = rec_Unsubscribe i r"
| "rec_step (RReceive i) r = snd (stream_recv i r)"

fun log_step :: "rec_op \<Rightarrow> CapturedRequest list \<times> nat \<Rightarrow> CapturedRequest list \<times> nat" where
  "log_step (RAdd c) (h, n) = (h @ [if crID c = '''' then c\<lparr>crID := ''r'' @ show_nat (n + 1)\<rparr> else c], n + 1)"
| "log_step RClear (h, n) = ([], n)"
| "log_step _ (h, n) = (h, n)"

definition captures :: "rec_op list \<Rightarrow> CapturedRequest list" where
  "captures ops = fst (fold log_step ops ([], 0))"

lemma rec_step_log:
  assumes "recBuf r = window (capN r) h" "recSeq r = n" "0 < capN r"
  shows "recBuf (rec_step p r) = window (capN r) (fst (log_step p (h, n)))" "recSeq (rec_step p r) = snd (log_step p (h, n))"
    "capN (rec_step p r) = capN r"
  using assms window_snoc [OF assms(3), of h]
  by (cases p; auto simp: rec_Add_def rec_Clear_def rec_Subscribe_def rec_Unsubscribe_def stream_recv_def Let_def window_def
      split: option.splits list.splits)+

lemma rec_run_log:
  assumes "recBuf r = window (capN r) h" "recSeq r = n" "0 < capN r"
  shows "recBuf (fold rec_step ps r) = window (capN r) (fst (fold log_step ps (h, n)))"
  using assms
proof (induction ps arbitrary: r h n)
  case (Cons p ps)
  obtain h' n' where s: "log_step p (h, n) = (h', n')" by fastforce
  from rec_step_log [OF Cons.prems, of p] s Cons.prems(3) Cons.IH [of "rec_step p r" h' n'] show ?case by simp
qed simp

text \<open>Numbers the recorder gives out are never used twice.\<close>

definition own_ids :: "CapturedRequest list \<times> nat \<Rightarrow> bool" where
  "own_ids hn \<longleftrightarrow> distinct (map crID (fst hn)) \<and> (\<forall>c \<in> set (fst hn). \<exists>k \<le> snd hn. crID c = ''r'' @ show_nat k)"

lemma own_ids_step:
  assumes "own_ids hn" "\<forall>c. RAdd c = p \<longrightarrow> crID c = ''''"
  shows "own_ids (log_step p hn)"
proof (cases p)
  case (RAdd c)
  obtain h n where hn: "hn = (h, n)" by fastforce
  have "''r'' @ show_nat (n + 1) \<notin> crID ` set h"
    using assms(1) unfolding own_ids_def hn by fastforce
  with assms RAdd hn show ?thesis unfolding own_ids_def by (fastforce intro: le_SucI)
qed (use assms in \<open>cases hn, auto simp: own_ids_def\<close>)+

lemma own_ids_run: "own_ids hn \<Longrightarrow> \<forall>c. RAdd c \<in> set ps \<longrightarrow> crID c = '''' \<Longrightarrow> own_ids (fold log_step ps hn)"
proof (induction ps arbitrary: hn)
  case (Cons p ps)
  with own_ids_step [of hn p] Cons.IH [of "log_step p hn"] show ?case by simp
qed simp

lemma find_distinct: "distinct (map f xs) \<Longrightarrow> x \<in> set xs \<Longrightarrow> find (\<lambda>y. f y = f x) xs = Some x"
  by (induction xs) auto

text \<open>The inspector refines an unbounded log. Whatever captures are added, cleared and streamed, the
  list it shows is, newest first, the last \<open>capacity\<close> captures since the last clear; and when the
  captures come without ids, as those of the agent do, every listed capture is found under its id.\<close>

theorem inspector_refines_log:
  fixes ops :: "rec_op list"
  assumes "0 < capacity"
  defines "r \<equiv> fold rec_step ops (NewRecorder capacity)"
  shows "rec_List r = rev (window (nat capacity) (captures ops)) \<and>
    ((\<forall>c. RAdd c \<in> set ops \<longrightarrow> crID c = '''') \<longrightarrow> (\<forall>c \<in> set (rec_List r). rec_Get (crID c) r = Some c))"
proof -
  have buf: "recBuf r = window (nat capacity) (captures ops)"
    using rec_run_log [of "NewRecorder capacity" "[]" 0 ops] assms
    by (simp add: NewRecorder_def window_def captures_def)
  have "rec_Get (crID c) r = Some c" if "\<forall>c. RAdd c \<in> set ops \<longrightarrow> crID c = ''''" "c \<in> set (rec_List r)" for c
  proof -
    from that(1) have "own_ids (fold log_step ops ([], 0))" by (intro own_ids_run) (simp_all add: own_ids_def)
    then have "distinct (map crID (recBuf r))"
      by (simp add: buf own_ids_def captures_def window_def drop_map [symmetric] distinct_drop)
    with that(2) show ?thesis using find_distinct [of crID] by (simp add: rec_Get_def rec_List_def)
  qed
  with buf show ?thesis by (simp add: rec_List_def)
qed

definition ex_cap :: "string \<Rightarrow> CapturedRequest" where
  "ex_cap p = \<lparr>crID = '''', crTunnelID = ''ct_1'', crProto = ''http'', crMethod = ''GET'', crHost = ''a.trqsh.uz'', crPath = p,
     crStatus = 200, crStartedAt = 0, crDurationMs = 1, crReqHeaders = [], crRespHeaders = [], crReqBody = [], crRespBody = [],
     crBytesIn = 0, crBytesOut = 0, crLocalAddr = ''localhost:3000''\<rparr>"

theorem inspector_refines_log_witness:
  "map crPath (rec_List (fold rec_step [RAdd (ex_cap ''/a''), RAdd (ex_cap ''/b''), RAdd (ex_cap ''/c'')] (NewRecorder 2))) = [''/c'', ''/b'']"
  using inspector_refines_log [of 2 "[RAdd (ex_cap ''/a''), RAdd (ex_cap ''/b''), RAdd (ex_cap ''/c'')]"]
  by (simp add: captures_def window_def ex_cap_def)

text \<open>A name that is neither \<^verbatim>\<open>localhost\<close> nor an address is turned away with 403 before any handler runs, so
  a page that rebinds its own domain to the loopback address reads no captures and replays nothing.\<close>

lemma not_loopback_name:
  assumes "split_host_port host = Some (h, port) \<or> split_host_port host = None \<and> h = host"
    and "to_lower h \<noteq> ''localhost''" "c \<in> set h" "\<not> addr_char c"
  shows "\<not> isLoopbackHost host"
proof -
  have "ParseIP h = None" using ParseIP_bytes [of h] assms(3,4) by (cases "ParseIP h") auto
  moreover have "to_lower ''localhost'' = ''localhost''" by code_simp
  ultimately show ?thesis using assms(1,2) by (auto simp: isLoopbackHost_def EqualFold_def Let_def)
qed

lemma guard_blocks_names:
  assumes "split_host_port host = Some (h, port) \<or> split_host_port host = None \<and> h = host"
    and "to_lower h \<noteq> ''localhost''" "c \<in> set h" "\<not> addr_char c"
  shows "guardLoopback host hnext r = (RespErr 403 ''forbidden: non-loopback host'', r)"
  using not_loopback_name [OF assms] by (simp add: guardLoopback_def)

text \<open>A replayed capture cannot be replayed again. The capture that a replay records carries the suffix
  \<^verbatim>\<open>(replay)\<close> in its path, and the path is what the next replay requests: it asks the local service for
  another resource than the original request did.\<close>

theorem replay_records_wrong_path:
  assumes "replay send start finish c r = (Inr c', r')"
  shows "replay_url c' = replay_url c @ '' (replay)'' \<and> crMethod c' = crMethod c \<and> c' \<in> set (rec_List r')"
  using assms
  by (auto simp: replay_def replay_url_def rec_Add_def rec_List_def Let_def split: if_splits sum.splits prod.splits)

theorem replay_records_wrong_path_witness:
  "\<exists>c' r'. replay (\<lambda>m u h b. Inr (200, [], [])) 0 0 (ex_cap ''/a'') (NewRecorder 2) = (Inr c', r')
     \<and> replay_url c' = ''http://localhost:3000/a (replay)''"
proof -
  obtain c' r' where r: "replay (\<lambda>m u h b. Inr (200, [], [])) 0 0 (ex_cap ''/a'') (NewRecorder 2) = (Inr c', r')"
    by (fastforce simp: replay_def ex_cap_def rec_Add_def Let_def)
  have "replay_url (ex_cap ''/a'') = ''http://localhost:3000/a''" by code_simp
  with replay_records_wrong_path [OF r] r show ?thesis by (intro exI [of _ c'] exI [of _ r']) simp
qed

end
