(* ===== verification/Framing.thy ===== *)
theory Framing
  imports Prelude
begin

text \<open>
  Length-prefixed framing: the control and stream-init frames of \<^verbatim>\<open>pkg/proto/codec.go\<close> (a
  big-endian 32-bit length) and the datagram frames that \<^verbatim>\<open>internal/server/ingress_udp.go\<close> and
  \<^verbatim>\<open>internal/agent/forward.go\<close> exchange (a big-endian 16-bit length). A reader is the list of
  the bytes it will deliver before EOF; a writer is a function argument. Protobuf's \<^verbatim>\<open>Marshal\<close>
  and \<^verbatim>\<open>Unmarshal\<close> are arguments too. The locale \<open>framing\<close> states what both formats promise;
  its lemmas (unambiguous parsing of a sequence of frames) hold for the two instances.
\<close>

unbundle bit_operations_syntax

section \<open>Big-endian integers (\<^verbatim>\<open>encoding/binary\<close>)\<close>

definition put_uint32 :: "32 word \<Rightarrow> byte list" where
  "put_uint32 v =
     [ucast (drop_bit 24 v), ucast (drop_bit 16 v), ucast (drop_bit 8 v), ucast v]"

definition get_uint32 :: "byte list \<Rightarrow> 32 word" where
  "get_uint32 b =
     ucast (b ! 3) OR push_bit 8 (ucast (b ! 2)) OR push_bit 16 (ucast (b ! 1))
       OR push_bit 24 (ucast (b ! 0))"

definition put_uint16 :: "16 word \<Rightarrow> byte list" where
  "put_uint16 v = [ucast (drop_bit 8 v), ucast v]"

definition get_uint16 :: "byte list \<Rightarrow> 16 word" where
  "get_uint16 b = ucast (b ! 1) OR push_bit 8 (ucast (b ! 0))"

lemma length_put_uint [simp]: "length (put_uint32 v) = 4" "length (put_uint16 w) = 2"
  by (simp_all add: put_uint32_def put_uint16_def)

lemma get_put_uint16 [simp]: "get_uint16 (put_uint16 v) = v"
  by (rule bit_word_eqI) (auto simp: get_uint16_def put_uint16_def bit_simps)

lemma get_put_uint32 [simp]: "get_uint32 (put_uint32 v) = v"
proof (rule bit_word_eqI)
  fix n assume "n < LENGTH(32)"
  moreover have "24 + (n - 24) = n \<or> n - 16 < 8" by arith
  ultimately show "bit (get_uint32 (put_uint32 v)) n = bit v n"
    by (auto simp: get_uint32_def put_uint32_def bit_simps)
qed

lemma put_get_uint16:
  assumes "length b = 2"
  shows "put_uint16 (get_uint16 b) = b"
proof -
  from assms obtain x y where b: "b = [x, y]"
    by (auto simp: numeral_eq_Suc length_Suc_conv)
  have "ucast (drop_bit 8 (get_uint16 b)) = x"
    by (rule bit_word_eqI) (auto simp: b get_uint16_def bit_simps dest: bit_imp_le_length)
  moreover have "ucast (get_uint16 b) = y"
    by (rule bit_word_eqI) (auto simp: b get_uint16_def bit_simps dest: bit_imp_le_length)
  ultimately show ?thesis by (simp add: put_uint16_def b)
qed

lemma put_get_uint32:
  assumes "length b = 4"
  shows "put_uint32 (get_uint32 b) = b"
proof -
  from assms obtain x y z w where b: "b = [x, y, z, w]"
    by (auto simp: numeral_eq_Suc length_Suc_conv)
  have "ucast (drop_bit 24 (get_uint32 b)) = x"
    by (rule bit_word_eqI) (auto simp: b get_uint32_def bit_simps dest: bit_imp_le_length)
  moreover have "ucast (drop_bit 16 (get_uint32 b)) = y"
    by (rule bit_word_eqI) (auto simp: b get_uint32_def bit_simps dest: bit_imp_le_length)
  moreover have "ucast (drop_bit 8 (get_uint32 b)) = z"
    by (rule bit_word_eqI) (auto simp: b get_uint32_def bit_simps dest: bit_imp_le_length)
  moreover have "ucast (get_uint32 b) = w"
    by (rule bit_word_eqI) (auto simp: b get_uint32_def bit_simps dest: bit_imp_le_length)
  ultimately show ?thesis by (simp add: put_uint32_def b)
qed

section \<open>Readers, writers and errors\<close>

datatype io_error =
    EOF
  | ErrUnexpectedEOF
  | ErrFrameTooLarge
  | ErrMarshal
  | ErrUnmarshal
  | ErrWrite

text \<open>\<^verbatim>\<open>io.ReadFull\<close> on a reader that delivers the bytes \<open>s\<close>: the bytes read and those left.\<close>

definition read_full :: "nat \<Rightarrow> byte list \<Rightarrow> io_error + (byte list \<times> byte list)" where
  "read_full n s =
     (if n \<le> length s then Inr (take n s, drop n s)
      else if s = [] then Inl EOF else Inl ErrUnexpectedEOF)"

lemma read_full_append [simp]: "length b = n \<Longrightarrow> read_full n (b @ s) = Inr (b, s)"
  by (simp add: read_full_def)

lemma read_full_Inr: "read_full n s = Inr (b, t) \<longleftrightarrow> s = b @ t \<and> length b = n"
  by (auto simp: read_full_def split: if_splits)

section \<open>Control frames\<close>

definition MaxFrameSize :: nat where
  "MaxFrameSize = 1048576"

text \<open>The two \<^verbatim>\<open>w.Write\<close> calls go through the argument \<open>write\<close>, which returns an error (if any) and
  the new state of the writer.\<close>

definition writeFramed ::
  "('m \<Rightarrow> byte list option) \<Rightarrow> (byte list \<Rightarrow> 'w \<Rightarrow> io_error option \<times> 'w) \<Rightarrow> 'w \<Rightarrow> 'm
     \<Rightarrow> io_error option \<times> 'w" where
  "writeFramed marshal write w m =
     (case marshal m of
        None \<Rightarrow> (Some ErrMarshal, w)
      | Some b \<Rightarrow>
          if length b > MaxFrameSize then (Some ErrFrameTooLarge, w)
          else (case write (put_uint32 (word_of_nat (length b))) w of
                  (Some e, w1) \<Rightarrow> (Some e, w1)
                | (None, w1) \<Rightarrow> write b w1))"

text \<open>\<open>readFrame\<close> is \<^verbatim>\<open>readFramed\<close> up to its call of \<^verbatim>\<open>proto.Unmarshal\<close>.\<close>

definition readFrame :: "byte list \<Rightarrow> io_error + (byte list \<times> byte list)" where
  "readFrame r =
     (case read_full 4 r of
        Inl e \<Rightarrow> Inl e
      | Inr (hdr, r1) \<Rightarrow>
          let n = get_uint32 hdr in
          if unat n > MaxFrameSize then Inl ErrFrameTooLarge
          else read_full (unat n) r1)"

definition readFramed ::
  "(byte list \<Rightarrow> 'm option) \<Rightarrow> byte list \<Rightarrow> io_error + ('m \<times> byte list)" where
  "readFramed unmarshal r =
     (case readFrame r of
        Inl e \<Rightarrow> Inl e
      | Inr (buf, r1) \<Rightarrow>
          (case unmarshal buf of None \<Rightarrow> Inl ErrUnmarshal | Some m \<Rightarrow> Inr (m, r1)))"

text \<open>A writer that appends to a buffer, the one the concrete instances use.\<close>

definition buf_write :: "byte list \<Rightarrow> byte list \<Rightarrow> io_error option \<times> byte list" where
  "buf_write b w = (None, w @ b)"

definition frame :: "byte list \<Rightarrow> byte list" where
  "frame b = put_uint32 (word_of_nat (length b)) @ b"

lemma unat_len32: "length b \<le> MaxFrameSize \<Longrightarrow> unat (word_of_nat (length b) :: 32 word) = length b"
  by (simp add: MaxFrameSize_def unat_of_nat)

lemma writeFramed_buf:
  "writeFramed marshal buf_write w m =
     (case marshal m of
        None \<Rightarrow> (Some ErrMarshal, w)
      | Some b \<Rightarrow> if length b > MaxFrameSize then (Some ErrFrameTooLarge, w)
                  else (None, w @ frame b))"
  by (simp add: writeFramed_def buf_write_def frame_def split: option.splits)

section \<open>Datagram frames\<close>

text \<open>\<^verbatim>\<open>writeUDPFrame\<close>: the conversion \<^verbatim>\<open>uint16(len(payload))\<close> keeps the low 16 bits.\<close>

definition writeUDPFrame ::
  "(byte list \<Rightarrow> 'w \<Rightarrow> io_error option \<times> 'w) \<Rightarrow> 'w \<Rightarrow> byte list \<Rightarrow> io_error option \<times> 'w" where
  "writeUDPFrame write w payload =
     (case write (put_uint16 (word_of_nat (length payload))) w of
        (Some e, w1) \<Rightarrow> (Some e, w1)
      | (None, w1) \<Rightarrow> write payload w1)"

definition readUDPFrame :: "byte list \<Rightarrow> io_error + (byte list \<times> byte list)" where
  "readUDPFrame r =
     (case read_full 2 r of
        Inl e \<Rightarrow> Inl e
      | Inr (hdr, r1) \<Rightarrow> read_full (unat (get_uint16 hdr)) r1)"

definition udp_frame :: "byte list \<Rightarrow> byte list" where
  "udp_frame b = put_uint16 (word_of_nat (length b)) @ b"

lemma readUDPFrame_shrinks: "readUDPFrame r = Inr (p, r1) \<Longrightarrow> length r1 < length r"
  by (auto simp: readUDPFrame_def read_full_Inr split: sum.splits)

text \<open>
  The receiving loops of \<^verbatim>\<open>udpReadBack\<close> (edge) and of \<^verbatim>\<open>forwardUDP\<close> (agent): read a frame, hand the
  payload to the socket (\<open>send\<close> tells whether the write succeeds), count its bytes, repeat. The
  result is the payloads sent and the bytes counted.
\<close>

function udpRecvLoop :: "(byte list \<Rightarrow> bool) \<Rightarrow> byte list \<Rightarrow> byte list list \<times> nat" where
  "udpRecvLoop send r =
     (case readUDPFrame r of
        Inl e \<Rightarrow> ([], 0)
      | Inr (payload, r1) \<Rightarrow>
          if \<not> send payload then ([], 0)
          else (case udpRecvLoop send r1 of
                  (ps, n) \<Rightarrow> (payload # ps, length payload + n)))"
  by pat_completeness auto
termination
  by (relation "measure (\<lambda>(send, r). length r)") (auto simp: readUDPFrame_shrinks)

declare udpRecvLoop.simps [simp del]

section \<open>What a framing promises\<close>

locale framing =
  fixes enc :: "byte list \<Rightarrow> byte list"
    and rd :: "byte list \<Rightarrow> io_error + (byte list \<times> byte list)"
    and limit :: nat
  assumes rd_enc: "length b \<le> limit \<Longrightarrow> rd (enc b @ s) = Inr (b, s)"
    and rd_sound: "rd r = Inr (b, s) \<Longrightarrow> r = enc b @ s \<and> length b \<le> limit"
    and rd_eof: "rd [] = Inl EOF"
begin

primrec rd_many :: "nat \<Rightarrow> byte list \<Rightarrow> io_error + (byte list list \<times> byte list)" where
  "rd_many 0 r = Inr ([], r)"
| "rd_many (Suc n) r =
     (case rd r of
        Inl e \<Rightarrow> Inl e
      | Inr (b, r1) \<Rightarrow>
          (case rd_many n r1 of Inl e \<Rightarrow> Inl e | Inr (bs, r2) \<Rightarrow> Inr (b # bs, r2)))"

lemma rd_many_concat:
  "\<forall>b \<in> set bs. length b \<le> limit \<Longrightarrow>
     rd_many (length bs) (concat (map enc bs) @ s) = Inr (bs, s)"
  by (induction bs) (auto simp: rd_enc)

lemma enc_prefix_free:
  assumes "length a \<le> limit" "length b \<le> limit" "enc a @ s = enc b @ t"
  shows "a = b \<and> s = t"
proof -
  have "Inr (a, s) = rd (enc b @ t)" using rd_enc [OF assms(1), of s] unfolding assms(3) by (rule sym)
  also have "\<dots> = Inr (b, t)" by (rule rd_enc [OF assms(2)])
  finally show ?thesis by simp
qed

lemma enc_not_empty: "length b \<le> limit \<Longrightarrow> enc b \<noteq> []"
  using rd_enc [of b "[]"] rd_eof by auto

lemma concat_enc_unique:
  assumes "\<forall>b \<in> set bs. length b \<le> limit" "\<forall>c \<in> set cs. length c \<le> limit"
    and "concat (map enc bs) = concat (map enc cs)"
  shows "bs = cs"
  using assms
proof (induction bs arbitrary: cs)
  case Nil
  then show ?case using enc_not_empty by (cases cs) auto
next
  case (Cons b bs)
  from Cons.prems(1) have "enc b \<noteq> []" by (intro enc_not_empty) simp
  with Cons.prems(3) obtain c cs' where cs: "cs = c # cs'"
    by (cases cs) auto
  have len: "length b \<le> limit" "length c \<le> limit"
    using Cons.prems cs by auto
  have "enc b @ concat (map enc bs) = enc c @ concat (map enc cs')"
    using Cons.prems(3) cs by simp
  from enc_prefix_free [OF len this]
  have "b = c" and rest: "concat (map enc bs) = concat (map enc cs')" by auto
  moreover have "bs = cs'"
    using Cons.prems cs rest by (intro Cons.IH) auto
  ultimately show ?case by (simp add: cs)
qed

end

interpretation ctl: framing frame readFrame MaxFrameSize
proof (unfold_locales, goal_cases)
  case (1 b s)
  then show ?case by (simp add: readFrame_def frame_def unat_len32)
next
  case (2 r b s)
  then obtain hdr r1 where r: "r = hdr @ r1" "length hdr = 4" "r1 = b @ s"
    and b: "length b = unat (get_uint32 hdr)" "length b \<le> MaxFrameSize"
    by (auto simp: readFrame_def read_full_Inr Let_def split: sum.splits if_splits)
  have "(word_of_nat (length b) :: 32 word) = get_uint32 hdr"
    by (simp add: b(1))
  with r b show ?case by (simp add: frame_def put_get_uint32)
next
  case 3
  then show ?case by (simp add: readFrame_def read_full_def)
qed

interpretation udp: framing udp_frame readUDPFrame 65535
proof (unfold_locales, goal_cases)
  case (1 b s)
  then have "unat (word_of_nat (length b) :: 16 word) = length b"
    by (simp add: unat_of_nat)
  then show ?case by (simp add: readUDPFrame_def udp_frame_def)
next
  case (2 r b s)
  then obtain hdr r1 where r: "r = hdr @ r1" "length hdr = 2" "r1 = b @ s"
    and b: "length b = unat (get_uint16 hdr)"
    by (auto simp: readUDPFrame_def read_full_Inr split: sum.splits)
  have "(word_of_nat (length b) :: 16 word) = get_uint16 hdr"
    by (simp add: b)
  moreover have "length b \<le> 65535"
    using unsigned_less [of "get_uint16 hdr", where ?'a = nat] by (simp add: b)
  ultimately show ?case using r by (simp add: udp_frame_def put_get_uint16)
next
  case 3
  then show ?case by (simp add: readUDPFrame_def read_full_def)
qed

lemma writeUDPFrame_buf: "writeUDPFrame buf_write w p = (None, w @ udp_frame p)"
  by (simp add: writeUDPFrame_def buf_write_def udp_frame_def)

lemma writeUDPFrames_buf:
  "foldl (\<lambda>w d. snd (writeUDPFrame buf_write w d)) w ds = w @ concat (map udp_frame ds)"
  by (induction ds arbitrary: w) (simp_all add: writeUDPFrame_buf)

lemma udpRecvLoop_concat:
  assumes "\<forall>d \<in> set ds. length d \<le> 65535"
  shows "udpRecvLoop (\<lambda>_. True) (concat (map udp_frame ds)) = (ds, sum_list (map length ds))"
  using assms
proof (induction ds)
  case Nil
  then show ?case by (subst udpRecvLoop.simps) (simp add: udp.rd_eof)
next
  case (Cons d ds)
  then have "readUDPFrame (concat (map udp_frame (d # ds))) = Inr (d, concat (map udp_frame ds))"
    by (simp add: udp.rd_enc)
  with Cons show ?case by (subst udpRecvLoop.simps) simp
qed

section \<open>Properties\<close>

text \<open>Messages written one after the other, as long as no write fails, and as many reads.\<close>

fun write_msgs :: "('m \<Rightarrow> byte list option) \<Rightarrow> byte list \<Rightarrow> 'm list \<Rightarrow> byte list option" where
  "write_msgs marshal w [] = Some w"
| "write_msgs marshal w (m # ms) =
     (case writeFramed marshal buf_write w m of (None, w') \<Rightarrow> write_msgs marshal w' ms | (Some e, w') \<Rightarrow> None)"

fun read_msgs :: "(byte list \<Rightarrow> 'm option) \<Rightarrow> nat \<Rightarrow> byte list \<Rightarrow> io_error + 'm list \<times> byte list" where
  "read_msgs unmarshal 0 r = Inr ([], r)"
| "read_msgs unmarshal (Suc n) r =
     (case readFramed unmarshal r of
        Inl e \<Rightarrow> Inl e
      | Inr (m, r') \<Rightarrow> (case read_msgs unmarshal n r' of Inl e \<Rightarrow> Inl e | Inr (ms, r'') \<Rightarrow> Inr (m # ms, r'')))"

lemma framed_one:
  assumes "\<And>b. marshal m = Some b \<Longrightarrow> unmarshal b = Some m" "writeFramed marshal buf_write w m = (None, w')"
  shows "\<exists>f. w' = w @ f \<and> length f \<le> MaxFrameSize + 4 \<and> (\<forall>rest. readFramed unmarshal (f @ rest) = Inr (m, rest))"
proof -
  from assms(2) obtain b where b: "marshal m = Some b" "length b \<le> MaxFrameSize"
    and w': "w' = w @ frame b"
    by (auto simp: writeFramed_buf split: option.splits if_splits)
  have "readFramed unmarshal (frame b @ rest) = Inr (m, rest)" for rest
    using ctl.rd_enc [OF b(2)] assms(1) [OF b(1)] by (simp add: readFramed_def)
  moreover have "length (frame b) \<le> MaxFrameSize + 4" using b(2) by (simp add: frame_def)
  ultimately show ?thesis using w' by blast
qed

text \<open>C17. Messages survive the stream. Whatever sequence of control or stream-init messages \<^verbatim>\<open>WriteMsg\<close> put on the wire, as
  many calls of \<^verbatim>\<open>ReadMsg\<close> get the same sequence back, in order, whatever bytes follow, and the last one stops exactly at
  the end of the last frame; no frame is longer than the limit and its header. The hypothesis on protobuf is that
  \<^verbatim>\<open>Unmarshal\<close> inverts \<^verbatim>\<open>Marshal\<close> on these messages.\<close>

theorem framed_roundtrip:
  assumes "\<forall>m \<in> set ms. \<forall>b. marshal m = Some b \<longrightarrow> unmarshal b = Some m" "write_msgs marshal w ms = Some w'"
  shows "\<exists>f. w' = w @ f \<and> length f \<le> length ms * (MaxFrameSize + 4)
           \<and> (\<forall>rest. read_msgs unmarshal (length ms) (f @ rest) = Inr (ms, rest))"
  using assms
proof (induction ms arbitrary: w)
  case (Cons m ms)
  from Cons.prems(2) obtain w1 where w1: "writeFramed marshal buf_write w m = (None, w1)" "write_msgs marshal w1 ms = Some w'"
    by (auto split: prod.splits option.splits)
  obtain f where f: "w1 = w @ f" "length f \<le> MaxFrameSize + 4" "\<And>rest. readFramed unmarshal (f @ rest) = Inr (m, rest)"
    using framed_one [OF _ w1(1), of unmarshal] Cons.prems(1) by auto
  obtain g where g: "w' = w1 @ g" "length g \<le> length ms * (MaxFrameSize + 4)"
    "\<And>rest. read_msgs unmarshal (length ms) (g @ rest) = Inr (ms, rest)"
    using Cons.IH [OF _ w1(2)] Cons.prems(1) by auto
  have "read_msgs unmarshal (length (m # ms)) ((f @ g) @ rest) = Inr (m # ms, rest)" for rest
    using f(3) g(3) by simp
  moreover have "w' = w @ (f @ g)" "length (f @ g) \<le> length (m # ms) * (MaxFrameSize + 4)" using f g by simp_all
  ultimately show ?case by blast
qed simp

theorem framed_roundtrip_witness:
  "\<exists>f. [1, 0, 0, 0, 1, 7, 0, 0, 0, 1, 8] = [1 :: byte] @ f \<and> (\<forall>rest. read_msgs Some 2 (f @ rest) = Inr ([[7], [8]], rest))"
proof -
  have "put_uint32 1 = [0, 0, 0, 1]" by (simp add: put_uint32_def)
  then have w: "write_msgs Some [1 :: byte] [[7], [8]] = Some [1, 0, 0, 0, 1, 7, 0, 0, 0, 1, 8]"
    by (simp add: writeFramed_buf MaxFrameSize_def frame_def)
  have "\<forall>m \<in> set [[7], [8 :: byte]]. \<forall>b. Some m = Some b \<longrightarrow> Some b = Some m" by simp
  note rt = framed_roundtrip [OF this w]
  have "length [[7], [8 :: byte]] = 2" by simp
  from rt [unfolded this] show ?thesis by blast
qed

text \<open>Bounded frames: what \<^verbatim>\<open>ReadMsg\<close> accepts is exactly one well-formed frame of at most
  \<^verbatim>\<open>MaxFrameSize\<close> payload bytes at the front of the stream, and it consumes nothing behind it; a
  header announcing more is refused before any payload byte is read.\<close>

theorem readFramed_bounded:
  "(readFramed unmarshal r = Inr (m, r') \<longleftrightarrow>
      (\<exists>b. r = frame b @ r' \<and> length b \<le> MaxFrameSize \<and> unmarshal b = Some m))
   \<and> (4 \<le> length r \<and> unat (get_uint32 (take 4 r)) > MaxFrameSize \<longrightarrow>
        readFramed unmarshal r = Inl ErrFrameTooLarge)"
proof (intro conjI impI iffI)
  assume "readFramed unmarshal r = Inr (m, r')"
  then obtain b where "readFrame r = Inr (b, r')" "unmarshal b = Some m"
    by (auto simp: readFramed_def split: sum.splits option.splits)
  with ctl.rd_sound show "\<exists>b. r = frame b @ r' \<and> length b \<le> MaxFrameSize \<and> unmarshal b = Some m"
    by blast
next
  assume "\<exists>b. r = frame b @ r' \<and> length b \<le> MaxFrameSize \<and> unmarshal b = Some m"
  then show "readFramed unmarshal r = Inr (m, r')"
    by (auto simp: readFramed_def ctl.rd_enc)
next
  assume "4 \<le> length r \<and> unat (get_uint32 (take 4 r)) > MaxFrameSize"
  then show "readFramed unmarshal r = Inl ErrFrameTooLarge"
    by (simp add: readFramed_def readFrame_def read_full_def)
qed

theorem readFramed_bounded_witness:
  "readFramed Some [0, 16, 0, 1, 9 :: byte] = (Inl ErrFrameTooLarge :: io_error + _)"
proof -
  have "get_uint32 [0, 16, 0, 1] = 1048577" by (simp add: get_uint32_def)
  then have "4 \<le> length [0, 16, 0, 1, 9 :: byte]
      \<and> unat (get_uint32 (take 4 [0, 16, 0, 1, 9 :: byte])) > MaxFrameSize"
    by (simp add: MaxFrameSize_def)
  then show ?thesis using readFramed_bounded [of Some "[0, 16, 0, 1, 9]"] by blast
qed

text \<open>Datagram boundaries survive the stream: whatever sequence of datagrams one side writes
  with \<^verbatim>\<open>writeUDPFrame\<close> (each at most the 65535 bytes its buffer holds), the receiving loop of the
  other side delivers exactly that sequence, in order, and counts exactly their bytes.\<close>

theorem udp_datagrams_preserved:
  assumes "\<forall>d \<in> set ds. length d \<le> 65535"
  shows "udpRecvLoop (\<lambda>_. True) (foldl (\<lambda>w d. snd (writeUDPFrame buf_write w d)) [] ds) =
           (ds, sum_list (map length ds))"
  using udpRecvLoop_concat [OF assms] by (simp add: writeUDPFrames_buf)

theorem udp_datagrams_preserved_witness:
  "udpRecvLoop (\<lambda>_. True) (foldl (\<lambda>w d. snd (writeUDPFrame buf_write w d)) [] [[1, 2], [], [3 :: byte]]) =
     ([[1, 2], [], [3]], 3)"
  using udp_datagrams_preserved [of "[[1, 2], [], [3 :: byte]]"] by simp

end
