(* ===== verification/Registry.thy ===== *)
theory Registry
  imports Prelude
begin

text \<open>
  The route registry of \<^verbatim>\<open>internal/server/registry.go\<close>: \<^verbatim>\<open>Route\<close>, \<^verbatim>\<open>Binding\<close>, the in-memory
  implementation \<^verbatim>\<open>InMemoryRegistry\<close>, and the presence loop of \<^verbatim>\<open>forward_listener.go\<close> that renews
  the entries. The locale \<open>route_registry\<close> is the \<^verbatim>\<open>Registry\<close> interface as its clients rely on it;
  its lemmas show how long a binding can be resolved.
\<close>

section \<open>Routes and bindings\<close>

record Route =
  Host :: string
  Proto :: string
  Port :: int

definition host_route :: "string \<Rightarrow> Route" where
  "host_route h = \<lparr>Host = h, Proto = '''', Port = 0\<rparr>"

definition port_route :: "string \<Rightarrow> int \<Rightarrow> Route" where
  "port_route p n = \<lparr>Host = '''', Proto = p, Port = n\<rparr>"

definition Key :: "Route \<Rightarrow> string" where
  "Key r = (if Host r \<noteq> '''' then ''host:'' @ to_lower (Host r)
            else ''port:'' @ Proto r @ '':'' @ show_int (Port r))"

record Binding =
  EdgeID :: string
  SessionID :: string

lemma Key_host_route: "h \<noteq> '''' \<Longrightarrow> Key (host_route h) = ''host:'' @ to_lower h"
  by (simp add: Key_def host_route_def)

lemma Key_port_route: "Key (port_route p n) = ''port:'' @ p @ '':'' @ show_int n"
  by (simp add: Key_def port_route_def)

lemma port_part_inj: "p @ '':'' @ show_int m = q @ '':'' @ show_int n \<longleftrightarrow> p = q \<and> m = n"
  using append_sep_inj [OF show_int_no_colon show_int_no_colon, of p m q n] by simp

section \<open>The in-memory registry\<close>

record memEntry =
  meB :: Binding
  meExpiry :: gotime

record edgeEntry =
  eeAddr :: string
  eeExpiry :: gotime

record InMemoryRegistry =
  regM :: "(string, memEntry) gomap"
  regEdges :: "(string, edgeEntry) gomap"

definition NewInMemoryRegistry :: InMemoryRegistry where
  "NewInMemoryRegistry = \<lparr>regM = [], regEdges = []\<rparr>"

definition expiryFrom :: "gotime \<Rightarrow> duration \<Rightarrow> gotime" where
  "expiryFrom now ttl = (if ttl \<le> 0 then 0 else now + ttl)"

definition reg_Bind :: "gotime \<Rightarrow> Route \<Rightarrow> Binding \<Rightarrow> duration \<Rightarrow> InMemoryRegistry \<Rightarrow> InMemoryRegistry" where
  "reg_Bind now r b ttl g =
     g\<lparr>regM := gset (Key r) \<lparr>meB = b, meExpiry = expiryFrom now ttl\<rparr> (regM g)\<rparr>"

definition reg_Refresh :: "gotime \<Rightarrow> Route \<Rightarrow> duration \<Rightarrow> InMemoryRegistry \<Rightarrow> InMemoryRegistry" where
  "reg_Refresh now r ttl g =
     (case gget (regM g) (Key r) of
        None \<Rightarrow> g
      | Some e \<Rightarrow> g\<lparr>regM := gset (Key r) (e\<lparr>meExpiry := expiryFrom now ttl\<rparr>) (regM g)\<rparr>)"

definition reg_Lookup :: "gotime \<Rightarrow> Route \<Rightarrow> InMemoryRegistry \<Rightarrow> Binding option" where
  "reg_Lookup now r g =
     (case gget (regM g) (Key r) of
        None \<Rightarrow> None
      | Some e \<Rightarrow> if meExpiry e \<noteq> 0 \<and> now > meExpiry e then None else Some (meB e))"

definition reg_Unbind :: "Route \<Rightarrow> InMemoryRegistry \<Rightarrow> InMemoryRegistry" where
  "reg_Unbind r g = g\<lparr>regM := gdel (Key r) (regM g)\<rparr>"

definition RegisterEdge :: "gotime \<Rightarrow> string \<Rightarrow> string \<Rightarrow> duration \<Rightarrow> InMemoryRegistry \<Rightarrow> InMemoryRegistry" where
  "RegisterEdge now edgeID addr ttl g =
     g\<lparr>regEdges := gset edgeID \<lparr>eeAddr = addr, eeExpiry = expiryFrom now ttl\<rparr> (regEdges g)\<rparr>"

definition LookupEdge :: "gotime \<Rightarrow> string \<Rightarrow> InMemoryRegistry \<Rightarrow> string option" where
  "LookupEdge now edgeID g =
     (case gget (regEdges g) edgeID of
        None \<Rightarrow> None
      | Some e \<Rightarrow> if eeExpiry e \<noteq> 0 \<and> now > eeExpiry e then None else Some (eeAddr e))"

definition UnregisterEdge :: "string \<Rightarrow> InMemoryRegistry \<Rightarrow> InMemoryRegistry" where
  "UnregisterEdge edgeID g = g\<lparr>regEdges := gdel edgeID (regEdges g)\<rparr>"

lemmas reg_defs = reg_Bind_def reg_Refresh_def reg_Lookup_def reg_Unbind_def
  RegisterEdge_def LookupEdge_def UnregisterEdge_def

text \<open>One tick of \<^verbatim>\<open>runPresence\<close>: advertise the edge's address, then renew every route homed here.\<close>

definition presenceTick ::
  "string \<Rightarrow> string \<Rightarrow> duration \<Rightarrow> Route list \<Rightarrow> gotime \<Rightarrow> InMemoryRegistry \<Rightarrow> InMemoryRegistry" where
  "presenceTick edgeID addr ttl routes now g =
     fold (\<lambda>r. reg_Refresh now r ttl) routes (RegisterEdge now edgeID addr ttl g)"

section \<open>The interface\<close>

definition live_until :: "gotime \<Rightarrow> duration \<Rightarrow> gotime \<Rightarrow> bool" where
  "live_until t ttl t' \<longleftrightarrow> ttl \<le> 0 \<or> t' \<le> t + ttl"

locale route_registry =
  fixes bind :: "gotime \<Rightarrow> Route \<Rightarrow> Binding \<Rightarrow> duration \<Rightarrow> 'r \<Rightarrow> 'r"
    and refresh :: "gotime \<Rightarrow> Route \<Rightarrow> duration \<Rightarrow> 'r \<Rightarrow> 'r"
    and lookup :: "gotime \<Rightarrow> Route \<Rightarrow> 'r \<Rightarrow> Binding option"
    and unbind :: "Route \<Rightarrow> 'r \<Rightarrow> 'r"
  assumes lookup_bind: "0 \<le> t \<Longrightarrow>
      lookup t' r (bind t r b ttl g) = (if live_until t ttl t' then Some b else None)"
    and lookup_bind_other: "Key r' \<noteq> Key r \<Longrightarrow> lookup t' r' (bind t r b ttl g) = lookup t' r' g"
    and lookup_refresh: "0 \<le> t \<Longrightarrow> lookup t r g = Some b \<Longrightarrow>
      lookup t' r (refresh t r ttl g) = (if live_until t ttl t' then Some b else None)"
    and refresh_absent: "(\<And>s. lookup s r g = None) \<Longrightarrow> lookup t' r (refresh t r ttl g) = None"
    and lookup_refresh_other: "Key r' \<noteq> Key r \<Longrightarrow> lookup t' r' (refresh t r ttl g) = lookup t' r' g"
    and lookup_unbind: "lookup t' r (unbind r g) = None"
    and lookup_unbind_other: "Key r' \<noteq> Key r \<Longrightarrow> lookup t' r' (unbind r g) = lookup t' r' g"
begin

text \<open>Renewals at the times \<open>ts\<close>, the previous one (or the bind) at \<open>t\<close>: each comes in time.\<close>

fun in_time :: "duration \<Rightarrow> gotime \<Rightarrow> gotime list \<Rightarrow> bool" where
  "in_time ttl t [] \<longleftrightarrow> True"
| "in_time ttl t (u # us) \<longleftrightarrow> t \<le> u \<and> u \<le> t + ttl \<and> in_time ttl u us"

lemma refreshed_live:
  assumes "0 \<le> t" "0 < ttl" "in_time ttl t ts"
    and "\<And>t'. lookup t' r g = (if live_until t ttl t' then Some b else None)"
  shows "lookup t' r (fold (\<lambda>u. refresh u r ttl) ts g) =
           (if live_until (last (t # ts)) ttl t' then Some b else None)"
  using assms
proof (induction ts arbitrary: t g)
  case Nil
  then show ?case by simp
next
  case (Cons u us)
  then have u: "t \<le> u" "u \<le> t + ttl" "in_time ttl u us" "0 \<le> u" by auto
  then have "lookup u r g = Some b"
    using Cons.prems(2,4) by (simp add: live_until_def)
  then have step: "lookup t' r (refresh u r ttl g) = (if live_until u ttl t' then Some b else None)" for t'
    using u(4) by (simp add: lookup_refresh)
  have "lookup t' r (fold (\<lambda>u. refresh u r ttl) us (refresh u r ttl g)) =
          (if live_until (last (u # us)) ttl t' then Some b else None)"
    by (rule Cons.IH [OF u(4) Cons.prems(2) u(3) step])
  then show ?case by simp
qed

lemma refresh_never_creates:
  assumes "\<And>s. lookup s r g = None"
  shows "lookup t' r (fold (\<lambda>u. refresh u r ttl) ts g) = None"
  using assms
proof (induction ts arbitrary: g)
  case Nil
  then show ?case by simp
next
  case (Cons u us)
  have "lookup s r (refresh u r ttl g) = None" for s
    by (rule refresh_absent) (rule Cons.prems)
  then show ?case using Cons.IH by simp
qed

end

lemma expiryFrom_live:
  "0 \<le> t \<Longrightarrow> (expiryFrom t ttl \<noteq> 0 \<and> t' > expiryFrom t ttl) \<longleftrightarrow> \<not> live_until t ttl t'"
  by (auto simp: expiryFrom_def live_until_def)

interpretation memreg: route_registry reg_Bind reg_Refresh reg_Lookup reg_Unbind
proof (unfold_locales, goal_cases)
  case (1 t t' r b ttl g)
  then show ?case by (simp add: reg_defs expiryFrom_live)
next
  case (2 r' r t' t b ttl g)
  then show ?case by (simp add: reg_defs)
next
  case (3 t r g b t' ttl)
  then obtain e where "gget (regM g) (Key r) = Some e" "meB e = b"
    by (auto simp: reg_Lookup_def split: option.splits if_splits)
  with 3(1) show ?case by (simp add: reg_Refresh_def reg_Lookup_def expiryFrom_live)
next
  case (4 r g t' t ttl)
  have "gget (regM g) (Key r) = None"
  proof (cases "gget (regM g) (Key r)")
    case (Some e)
    with 4 [of "meExpiry e"] show ?thesis by (simp add: reg_Lookup_def)
  qed
  then show ?case by (simp add: reg_defs)
next
  case (5 r' r t' t ttl g)
  then show ?case by (cases "gget (regM g) (Key r)") (simp_all add: reg_defs)
next
  case (6 t' r g)
  then show ?case by (simp add: reg_defs)
next
  case (7 r' r t' g)
  then show ?case by (simp add: reg_defs)
qed

lemma Lookup_RegisterEdge [simp]: "reg_Lookup t r (RegisterEdge u e a ttl g) = reg_Lookup t r g"
  by (simp add: reg_defs)

lemma fold_refresh_entry:
  "gget (regM (fold (\<lambda>r. reg_Refresh now r ttl) rs g)) k =
     (if k \<in> Key ` set rs then map_option (meExpiry_update (\<lambda>_. expiryFrom now ttl)) (gget (regM g) k)
      else gget (regM g) k)"
proof (induction rs arbitrary: g)
  case Nil
  then show ?case by simp
next
  case (Cons r rs)
  have step: "gget (regM (reg_Refresh now r ttl g)) k' =
      (if k' = Key r then map_option (meExpiry_update (\<lambda>_. expiryFrom now ttl)) (gget (regM g) k')
       else gget (regM g) k')" for k'
    by (simp add: reg_Refresh_def split: option.splits)
  show ?case
    by (cases "gget (regM g) k") (auto simp: Cons.IH step)
qed

lemma Lookup_presenceTick:
  assumes "r \<in> set routes"
  shows "reg_Lookup t' r (presenceTick e a ttl routes now g) = reg_Lookup t' r (reg_Refresh now r ttl g)"
proof -
  have "gget (regM (presenceTick e a ttl routes now g)) (Key r) =
      gget (regM (reg_Refresh now r ttl g)) (Key r)"
    using assms
    by (simp add: presenceTick_def fold_refresh_entry RegisterEdge_def reg_Refresh_def split: option.splits)
  then show ?thesis by (simp only: reg_Lookup_def)
qed

lemma Lookup_presenceTicks:
  assumes "r \<in> set routes"
  shows "gget (regM (fold (presenceTick e a ttl routes) ts g)) (Key r) =
           gget (regM (fold (\<lambda>u. reg_Refresh u r ttl) ts g)) (Key r)"
proof (induction ts rule: rev_induct)
  case Nil
  then show ?case by simp
next
  case (snoc u us)
  with assms show ?case
    by (simp add: presenceTick_def fold_refresh_entry RegisterEdge_def reg_Refresh_def split: option.splits)
qed

section \<open>Properties\<close>

text \<open>Registry keys never collide by accident: two routes have the same \<^verbatim>\<open>Key()\<close> only when they
  are the same public entry point, a host (compared case-insensitively) or a protocol and port.\<close>

theorem Key_identifies_route:
  "Key r = Key s \<longleftrightarrow>
     (if Host r = '''' \<and> Host s = '''' then Proto r = Proto s \<and> Port r = Port s
      else to_lower (Host r) = to_lower (Host s))"
proof -
  have "to_lower (Host r) = to_lower (Host s) \<Longrightarrow> Host r = '''' \<longleftrightarrow> Host s = ''''"
    by (metis to_lower_eq_Nil)
  then show ?thesis
    using port_part_inj [of "Proto r" "Port r" "Proto s" "Port s"] by (auto simp: Key_def)
qed

text \<open>A live edge keeps its routes resolvable: a route bound at \<open>t\<close> and renewed by presence ticks
  that each come within the TTL of the previous one resolves to its binding until the TTL after
  the last tick, and not longer.\<close>

theorem presence_keeps_route:
  assumes "0 \<le> t" "0 < ttl" "memreg.in_time ttl t ts" "r \<in> set routes"
  shows "reg_Lookup t' r (fold (presenceTick e a ttl routes) ts (reg_Bind t r b ttl g)) =
           (if t' \<le> last (t # ts) + ttl then Some b else None)"
proof -
  have "reg_Lookup t' r (fold (\<lambda>u. reg_Refresh u r ttl) ts (reg_Bind t r b ttl g)) =
          (if live_until (last (t # ts)) ttl t' then Some b else None)"
    by (rule memreg.refreshed_live [OF assms(1-3)]) (rule memreg.lookup_bind [OF assms(1)])
  then show ?thesis
    using assms(2) Lookup_presenceTicks [OF assms(4), of e a ttl ts "reg_Bind t r b ttl g"]
    by (simp add: reg_Lookup_def live_until_def)
qed

theorem presence_keeps_route_witness:
  "reg_Lookup 90 (host_route ''a.lvh.me'')
     (fold (presenceTick ''e1'' ''10.0.0.1:4444'' 40 [port_route ''tcp'' 20000, host_route ''a.lvh.me''])
        [20, 40, 60] (reg_Bind 0 (host_route ''a.lvh.me'') \<lparr>EdgeID = ''e1'', SessionID = ''s''\<rparr> 40 NewInMemoryRegistry)) =
     Some \<lparr>EdgeID = ''e1'', SessionID = ''s''\<rparr>"
  using presence_keeps_route [of 0 40 "[20, 40, 60]" "host_route ''a.lvh.me''"
      "[port_route ''tcp'' 20000, host_route ''a.lvh.me'']" 90 "''e1''" "''10.0.0.1:4444''"
      "\<lparr>EdgeID = ''e1'', SessionID = ''s''\<rparr>" NewInMemoryRegistry]
  by simp

text \<open>\<^verbatim>\<open>Unbind\<close> does not ask who owns the entry. When an agent has moved a route from one edge to
  another and the first edge then releases its stale tunnel, the shared entry of the second edge
  is gone, and no later renewal by the second edge brings it back: peers cannot resolve a live
  tunnel until it is bound again.\<close>

theorem stale_unbind_drops_moved_route:
  assumes "r \<in> set routes"
  shows "reg_Lookup t' r
           (fold (presenceTick edgeB addrB ttl routes) ts
              (reg_Unbind r (reg_Bind tB r \<lparr>EdgeID = edgeB, SessionID = sB\<rparr> ttl
                 (reg_Bind tA r \<lparr>EdgeID = edgeA, SessionID = sA\<rparr> ttl g)))) = None"
proof -
  have "reg_Lookup t' r (fold (\<lambda>u. reg_Refresh u r ttl) ts (reg_Unbind r h)) = None" for h
    by (rule memreg.refresh_never_creates) (rule memreg.lookup_unbind)
  then show ?thesis
    using Lookup_presenceTicks [OF assms] by (simp add: reg_Lookup_def)
qed

theorem stale_unbind_drops_moved_route_witness:
  "reg_Lookup 7 (host_route ''a.lvh.me'')
     (fold (presenceTick ''B'' ''b:1'' 40 [host_route ''a.lvh.me'']) [3, 5]
        (reg_Unbind (host_route ''a.lvh.me'') (reg_Bind 2 (host_route ''a.lvh.me'')
           \<lparr>EdgeID = ''B'', SessionID = ''s2''\<rparr> 40
           (reg_Bind 1 (host_route ''a.lvh.me'') \<lparr>EdgeID = ''A'', SessionID = ''s1''\<rparr> 40
              NewInMemoryRegistry)))) = None"
  by (rule stale_unbind_drops_moved_route) simp

end
