(* ===== verification/Hub.thy ===== *)
theory Hub
  imports Registry
begin

text \<open>
  The routing table of one edge, \<^verbatim>\<open>internal/server/hub.go\<close>. The Go code shares \<^verbatim>\<open>*boundTunnel\<close> and
  \<^verbatim>\<open>*agentSession\<close> pointers between the hub, the sessions and the ingress, so a tunnel or a session
  is a reference (\<open>tref\<close>, \<open>sref\<close>) into a heap, and \<^verbatim>\<open>existing.session != bt.session\<close> compares
  references. The hub operations take the heap of tunnels they dereference. Each runs under the
  hub's lock and is one atomic step; the locale \<open>route_table\<close> states what any interleaving of them
  keeps.
\<close>

section \<open>Tunnels and sessions\<close>

text \<open>\<^verbatim>\<open>proto.TunnelType\<close> is an open enumeration: a message may carry any \<^verbatim>\<open>int32\<close>.\<close>

datatype TunnelType =
    TunnelType_HTTP
  | TunnelType_HTTPS
  | TunnelType_TLS
  | TunnelType_TCP
  | TunnelType_UDP
  | TunnelType_other int

type_synonym tref = nat
type_synonym sref = nat

record boundTunnel =
  clientTunnelID :: string
  btAccountID :: string
  btPlan :: string
  ttype :: TunnelType
  btHost :: string
  btPort :: int
  btOptions :: "(string, string) gomap"
  btSession :: sref
  publicURL :: string
  startedAt :: gotime
  btBytesIn :: int
  btBytesOut :: int
  btRequests :: int

definition zeroTunnel :: boundTunnel where
  "zeroTunnel = \<lparr>clientTunnelID = '''', btAccountID = '''', btPlan = '''', ttype = TunnelType_HTTP,
     btHost = '''', btPort = 0, btOptions = [], btSession = 0, publicURL = '''', startedAt = 0,
     btBytesIn = 0, btBytesOut = 0, btRequests = 0\<rparr>"

record agentSession =
  sessionID :: string
  asAccountID :: string
  asPlan :: string
  asApiKey :: string
  asRemoteAddr :: string
  tunnels :: "(string, tref) gomap"

type_synonym theap = "tref \<Rightarrow> boundTunnel"

definition addTraffic :: "int \<Rightarrow> int \<Rightarrow> int \<Rightarrow> boundTunnel \<Rightarrow> boundTunnel" where
  "addTraffic i ou r bt =
     bt\<lparr>btBytesIn := wrap64 (btBytesIn bt + i), btBytesOut := wrap64 (btBytesOut bt + ou), btRequests := wrap64 (btRequests bt + r)\<rparr>"

fun protoForType :: "TunnelType \<Rightarrow> string" where
  "protoForType TunnelType_UDP = ''udp''"
| "protoForType TunnelType_TCP = ''tcp''"
| "protoForType TunnelType_TLS = ''tls''"
| "protoForType TunnelType_HTTPS = ''https''"
| "protoForType _ = ''http''"

section \<open>The hub\<close>

record Hub =
  byHost :: "(string, tref) gomap"
  byPort :: "(string, tref) gomap"
  hubSessions :: "(string, sref) gomap"

definition NewHub :: Hub where
  "NewHub = \<lparr>byHost = [], byPort = [], hubSessions = []\<rparr>"

definition portKey :: "string \<Rightarrow> int \<Rightarrow> string" where
  "portKey proto port = proto @ '':'' @ show_int port"

definition bt_portKey :: "boundTunnel \<Rightarrow> string" where
  "bt_portKey bt = portKey (protoForType (ttype bt)) (btPort bt)"

definition addSession :: "string \<Rightarrow> sref \<Rightarrow> Hub \<Rightarrow> Hub" where
  "addSession sid a h = h\<lparr>hubSessions := gset sid a (hubSessions h)\<rparr>"

definition unbind :: "boundTunnel \<Rightarrow> Hub \<Rightarrow> Hub" where
  "unbind bt h =
     (let h1 = (if btHost bt \<noteq> '''' then h\<lparr>byHost := gdel (btHost bt) (byHost h)\<rparr> else h)
      in if btPort bt \<noteq> 0 then h1\<lparr>byPort := gdel (bt_portKey bt) (byPort h1)\<rparr> else h1)"

text \<open>\<^verbatim>\<open>removeSession\<close> deletes the session and the routes of the tunnels it still tracks.\<close>

definition removeSession :: "theap \<Rightarrow> agentSession \<Rightarrow> Hub \<Rightarrow> Hub" where
  "removeSession bts a h =
     fold (\<lambda>(id, t). unbind (bts t)) (tunnels a)
       (h\<lparr>hubSessions := gdel (sessionID a) (hubSessions h)\<rparr>)"

text \<open>The verb \<^verbatim>\<open>%q\<close> on text that needs no escapes.\<close>

definition quoted :: "string \<Rightarrow> string" where
  "quoted s = CHR 0x22 # s @ [CHR 0x22]"

definition bindHost :: "theap \<Rightarrow> tref \<Rightarrow> Hub \<Rightarrow> string + Hub" where
  "bindHost bts t h =
     (let bt = bts t; ok = Inr (h\<lparr>byHost := gset (btHost bt) t (byHost h)\<rparr>) in
      case gget (byHost h) (btHost bt) of
        Some e \<Rightarrow> if btSession (bts e) \<noteq> btSession bt
                  then Inl (''host '' @ quoted (btHost bt) @ '' already bound'') else ok
      | None \<Rightarrow> ok)"

definition bindPort :: "theap \<Rightarrow> tref \<Rightarrow> Hub \<Rightarrow> string + Hub" where
  "bindPort bts t h =
     (let bt = bts t; key = bt_portKey bt; ok = Inr (h\<lparr>byPort := gset key t (byPort h)\<rparr>) in
      case gget (byPort h) key of
        Some e \<Rightarrow> if btSession (bts e) \<noteq> btSession bt
                  then Inl (''port '' @ key @ '' already bound'') else ok
      | None \<Rightarrow> ok)"

definition LookupHost :: "string \<Rightarrow> Hub \<Rightarrow> tref option" where
  "LookupHost host h = gget (byHost h) host"

definition LookupPort :: "string \<Rightarrow> int \<Rightarrow> Hub \<Rightarrow> tref option" where
  "LookupPort proto port h = gget (byPort h) (portKey proto port)"

definition Stats :: "Hub \<Rightarrow> nat \<times> nat" where
  "Stats h = (length (hubSessions h), length (byHost h) + length (byPort h))"

definition SnapshotRoutes :: "theap \<Rightarrow> Hub \<Rightarrow> Route list" where
  "SnapshotRoutes bts h =
     map (\<lambda>(host, t). host_route host) (byHost h) @
     map (\<lambda>(k, t). port_route (protoForType (ttype (bts t))) (btPort (bts t))) (byPort h)"

definition SnapshotSessions :: "Hub \<Rightarrow> sref list" where
  "SnapshotSessions h = map snd (hubSessions h)"

section \<open>Facts about the operations\<close>

lemma portKey_inj [simp]: "portKey p m = portKey q n \<longleftrightarrow> p = q \<and> m = n"
  using port_part_inj by (simp add: portKey_def)

lemma unbind_sel [simp]:
  "gget (byHost (unbind bt h)) x = (if btHost bt \<noteq> '''' \<and> x = btHost bt then None else gget (byHost h) x)"
  "gget (byPort (unbind bt h)) k = (if btPort bt \<noteq> 0 \<and> k = bt_portKey bt then None else gget (byPort h) k)"
  "hubSessions (unbind bt h) = hubSessions h"
  by (simp_all add: unbind_def Let_def)

lemma bindHost_Inr:
  assumes "bindHost bts t h = Inr h'"
  shows "h' = h\<lparr>byHost := gset (btHost (bts t)) t (byHost h)\<rparr>"
    and "\<And>e. gget (byHost h) (btHost (bts t)) = Some e \<Longrightarrow> btSession (bts e) = btSession (bts t)"
  using assms by (auto simp: bindHost_def Let_def split: option.splits if_splits)

lemma bindHost_fresh: "gget (byHost h) (btHost (bts t)) = None \<Longrightarrow>
    bindHost bts t h = Inr (h\<lparr>byHost := gset (btHost (bts t)) t (byHost h)\<rparr>)"
  by (simp add: bindHost_def)

lemma bindPort_Inr:
  assumes "bindPort bts t h = Inr h'"
  shows "h' = h\<lparr>byPort := gset (bt_portKey (bts t)) t (byPort h)\<rparr>"
    and "\<And>e. gget (byPort h) (bt_portKey (bts t)) = Some e \<Longrightarrow> btSession (bts e) = btSession (bts t)"
  using assms by (auto simp: bindPort_def Let_def split: option.splits if_splits)

lemma bindPort_fresh: "gget (byPort h) (bt_portKey (bts t)) = None \<Longrightarrow>
    bindPort bts t h = Inr (h\<lparr>byPort := gset (bt_portKey (bts t)) t (byPort h)\<rparr>)"
  by (simp add: bindPort_def Let_def)

text \<open>The lookup tables only ever hold a tunnel under its own host or port.\<close>

definition hub_ok :: "theap \<Rightarrow> Hub \<Rightarrow> bool" where
  "hub_ok bts h \<longleftrightarrow>
     gomap_ok (byHost h) \<and> gomap_ok (byPort h) \<and> gomap_ok (hubSessions h) \<and>
     (\<forall>x t. gget (byHost h) x = Some t \<longrightarrow> btHost (bts t) = x) \<and>
     (\<forall>k t. gget (byPort h) k = Some t \<longrightarrow> bt_portKey (bts t) = k)"

lemma hub_ok_unbind [wf_intros]: "hub_ok bts h \<Longrightarrow> hub_ok bts (unbind bt h)"
  by (auto simp: hub_ok_def unbind_def Let_def split: if_splits)

lemma hub_ok_bindHost [wf_intros]: "hub_ok bts h \<Longrightarrow> bindHost bts t h = Inr h' \<Longrightarrow> hub_ok bts h'"
  by (auto simp: hub_ok_def dest!: bindHost_Inr(1) split: if_splits)

lemma hub_ok_bindPort [wf_intros]: "hub_ok bts h \<Longrightarrow> bindPort bts t h = Inr h' \<Longrightarrow> hub_ok bts h'"
  by (auto simp: hub_ok_def dest!: bindPort_Inr(1) split: if_splits)

lemma hub_ok_removeSession [wf_intros]: "hub_ok bts h \<Longrightarrow> hub_ok bts (removeSession bts a h)"
proof -
  assume "hub_ok bts h"
  then have "hub_ok bts (h\<lparr>hubSessions := gdel (sessionID a) (hubSessions h)\<rparr>)"
    by (simp add: hub_ok_def)
  then have "hub_ok bts (fold (\<lambda>(id, t). unbind (bts t)) ts (h\<lparr>hubSessions := gdel (sessionID a) (hubSessions h)\<rparr>))" for ts
    by (induction ts rule: rev_induct) (auto intro: hub_ok_unbind)
  then show ?thesis by (simp add: removeSession_def)
qed

section \<open>Ownership of routes\<close>

text \<open>
  The contract the two tables share: a bind either takes a key that is free or already the
  session's own, or it changes nothing.
\<close>

locale route_table =
  fixes bind :: "'t \<Rightarrow> 'h \<Rightarrow> string + 'h"
    and lookup :: "'k \<Rightarrow> 'h \<Rightarrow> 't option"
    and key :: "'t \<Rightarrow> 'k"
    and owner :: "'t \<Rightarrow> 's"
  assumes bind_ok: "bind t h = Inr h' \<Longrightarrow> lookup k h' = (if k = key t then Some t else lookup k h)"
    and bind_free: "(\<exists>h'. bind t h = Inr h') \<longleftrightarrow>
      (case lookup (key t) h of None \<Rightarrow> True | Some e \<Rightarrow> owner e = owner t)"
begin

text \<open>A caller that is refused leaves the table as it is.\<close>

definition try_bind :: "'t \<Rightarrow> 'h \<Rightarrow> 'h" where
  "try_bind t h = (case bind t h of Inr h' \<Rightarrow> h' | Inl e \<Rightarrow> h)"

lemma owner_stable:
  assumes "lookup k h = Some t"
  shows "\<exists>t'. lookup k (fold try_bind ts h) = Some t' \<and> owner t' = owner t"
proof (induction ts rule: rev_induct)
  case Nil
  with assms show ?case by simp
next
  case (snoc u us)
  then obtain t' where t': "lookup k (fold try_bind us h) = Some t'" "owner t' = owner t" by blast
  show ?case
  proof (cases "bind u (fold try_bind us h)")
    case (Inl e)
    then have "try_bind u (fold try_bind us h) = fold try_bind us h" by (simp add: try_bind_def)
    with t' show ?thesis by simp
  next
    case (Inr h')
    then have "k = key u \<Longrightarrow> owner u = owner t"
      using bind_free [of u "fold try_bind us h"] t' by auto
    moreover from Inr have "try_bind u (fold try_bind us h) = h'" by (simp add: try_bind_def)
    ultimately show ?thesis using t' bind_ok [OF Inr, of k] by auto
  qed
qed

lemma foreign_refused:
  assumes "lookup (key u) h = Some t" "owner u \<noteq> owner t"
  shows "\<exists>e. bind u h = Inl e"
  using assms bind_free [of u h] by (cases "bind u h") auto

end

interpretation hosts: route_table "bindHost bts" "\<lambda>k h. gget (byHost h) k" "\<lambda>t. btHost (bts t)" "\<lambda>t. btSession (bts t)"
  for bts :: theap
  by unfold_locales (auto simp: bindHost_def Let_def split: option.splits if_splits)

interpretation ports: route_table "bindPort bts" "\<lambda>k h. gget (byPort h) k" "\<lambda>t. bt_portKey (bts t)" "\<lambda>t. btSession (bts t)"
  for bts :: theap
  by unfold_locales (auto simp: bindPort_def Let_def split: option.splits if_splits)

section \<open>Properties\<close>

text \<open>No session can take over a host that another session serves: whatever sequence of
  \<^verbatim>\<open>bindHost\<close> calls the sessions of the edge make, in any interleaving, a host that is routed stays
  routed to a tunnel of the session that held it, and a bind of another session is refused.\<close>

theorem bindHost_no_hijack:
  assumes "LookupHost host h = Some t"
  shows "(\<exists>t'. LookupHost host (fold (hosts.try_bind bts) ts h) = Some t' \<and> btSession (bts t') = btSession (bts t))
       \<and> (btHost (bts u) = host \<longrightarrow> btSession (bts u) \<noteq> btSession (bts t) \<longrightarrow> (\<exists>e. bindHost bts u h = Inl e))"
  using assms hosts.owner_stable [of h host t bts ts] hosts.foreign_refused [of h bts u t]
  by (auto simp: LookupHost_def)

theorem bindHost_no_hijack_witness:
  "let bts = (\<lambda>t. zeroTunnel\<lparr>btHost := ''app.example.com'', btSession := t div 2\<rparr>);
       h = NewHub\<lparr>byHost := [(''app.example.com'', 1)]\<rparr>
   in (\<exists>t'. LookupHost ''app.example.com'' (fold (hosts.try_bind bts) [2, 0, 3] h) = Some t' \<and> t' div 2 = 0)
      \<and> (\<exists>e. bindHost bts 2 h = Inl e)"
  using bindHost_no_hijack [of "''app.example.com''" "NewHub\<lparr>byHost := [(''app.example.com'', 1)]\<rparr>" 1
      "\<lambda>t. zeroTunnel\<lparr>btHost := ''app.example.com'', btSession := t div 2\<rparr>" "[2, 0, 3]" 2]
  by (simp add: LookupHost_def NewHub_def Let_def)

end
