(* ===== verification/Plans.thy ===== *)
theory Plans
  imports Prelude
begin

text \<open>
  The contracts shared by the edge and the control plane, and the plan catalog: the error codes
  of \<^verbatim>\<open>pkg/proto/errors.go\<close>, the types of \<^verbatim>\<open>pkg/authz/authz.go\<close> with the allow-all
  implementation of \<^verbatim>\<open>stub.go\<close>, and \<^verbatim>\<open>internal/billing/plans.go\<close>. The locale
  \<open>entitlements\<close> is what the edge relies on when it asks for a bind decision; it is interpreted
  here for the stub and in theory \<open>Entitle\<close> for the control plane.
\<close>

section \<open>Error codes (\<^verbatim>\<open>pkg/proto/errors.go\<close>)\<close>

definition CodeAuthRequired :: string where "CodeAuthRequired = ''ERR_AUTH_REQUIRED''"
definition CodeAuthInvalid :: string where "CodeAuthInvalid = ''ERR_AUTH_INVALID''"
definition CodeVersionUnsupported :: string where "CodeVersionUnsupported = ''ERR_VERSION_UNSUPPORTED''"
definition CodeQuotaTunnels :: string where "CodeQuotaTunnels = ''ERR_QUOTA_TUNNELS''"
definition CodeQuotaBandwidth :: string where "CodeQuotaBandwidth = ''ERR_QUOTA_BANDWIDTH''"
definition CodeQuotaRequests :: string where "CodeQuotaRequests = ''ERR_QUOTA_REQUESTS''"
definition CodeSubdomainTaken :: string where "CodeSubdomainTaken = ''ERR_SUBDOMAIN_TAKEN''"
definition CodeSubdomainForbidden :: string where "CodeSubdomainForbidden = ''ERR_SUBDOMAIN_FORBIDDEN''"
definition CodeDomainUnverified :: string where "CodeDomainUnverified = ''ERR_DOMAIN_UNVERIFIED''"
definition CodePlanForbids :: string where "CodePlanForbids = ''ERR_PLAN_FORBIDS''"
definition CodeProtoUnsupported :: string where "CodeProtoUnsupported = ''ERR_PROTO_UNSUPPORTED''"
definition CodePortUnavailable :: string where "CodePortUnavailable = ''ERR_PORT_UNAVAILABLE''"
definition CodeRateLimited :: string where "CodeRateLimited = ''ERR_RATE_LIMITED''"
definition CodeInternal :: string where "CodeInternal = ''ERR_INTERNAL''"
definition CodeUpstreamUnreachable :: string where "CodeUpstreamUnreachable = ''ERR_UPSTREAM_UNREACHABLE''"

lemmas code_defs = CodeAuthRequired_def CodeAuthInvalid_def CodeVersionUnsupported_def
  CodeQuotaTunnels_def CodeQuotaBandwidth_def CodeQuotaRequests_def CodeSubdomainTaken_def
  CodeSubdomainForbidden_def CodeDomainUnverified_def CodePlanForbids_def CodeProtoUnsupported_def
  CodePortUnavailable_def CodeRateLimited_def CodeInternal_def CodeUpstreamUnreachable_def

record ErrorMsg =
  emCode :: string
  emMessage :: string

definition NewError :: "string \<Rightarrow> string \<Rightarrow> ErrorMsg" where
  "NewError code msg = \<lparr>emCode = code, emMessage = msg\<rparr>"

section \<open>Entitlement contracts (\<^verbatim>\<open>pkg/authz\<close>)\<close>

record Limits =
  MaxConcurrentTunnels :: int
  MaxBandwidthBytesMo :: int
  MaxRequestsMo :: int
  AllowCustomDomains :: bool
  AllowReservedSubdomain :: bool
  AllowTCP :: bool
  AllowUDP :: bool
  RateLimitRPS :: int

definition noLimits :: Limits where
  "noLimits = \<lparr>MaxConcurrentTunnels = 0, MaxBandwidthBytesMo = 0, MaxRequestsMo = 0,
     AllowCustomDomains = False, AllowReservedSubdomain = False, AllowTCP = False,
     AllowUDP = False, RateLimitRPS = 0\<rparr>"

record BindRequest =
  brAPIKey :: string
  brType :: string
  brSubdomain :: string
  brCustomHost :: string
  brRemotePort :: int
  brRegion :: string

record Decision =
  Allow :: bool
  dAccountID :: string
  dPlan :: string
  dLimits :: Limits
  AssignedSubdomain :: string
  ErrorCode :: string
  ErrorMessage :: string

record Usage =
  uAccountID :: string
  uTunnelID :: string
  uBytesIn :: int
  uBytesOut :: int
  uRequests :: int
  uWindowStart :: gotime
  uWindowEnd :: gotime

text \<open>\<^verbatim>\<open>StubEntitlements\<close>.\<close>

definition stub_Authenticate :: "string \<Rightarrow> string + (string \<times> string)" where
  "stub_Authenticate apiKey =
     (if apiKey = '''' then Inl ''authz: empty api key'' else Inr (''dev'', ''pro''))"

definition stub_CheckBind :: "BindRequest \<Rightarrow> string + Decision" where
  "stub_CheckBind req =
     Inr \<lparr>Allow = True, dAccountID = ''dev'', dPlan = ''pro'',
          dLimits = noLimits\<lparr>MaxConcurrentTunnels := 100, AllowCustomDomains := True,
            AllowReservedSubdomain := True, AllowTCP := True, AllowUDP := True\<rparr>,
          AssignedSubdomain = '''', ErrorCode = '''', ErrorMessage = ''''\<rparr>"

text \<open>
  What a bind decision promises the edge: a refusal names an error code, and an allowed bind
  carries limits that admit what was asked for. The first argument is the state of the
  provider, which a decision may consult.
\<close>

locale entitlements =
  fixes check :: "'s \<Rightarrow> BindRequest \<Rightarrow> string + Decision"
  assumes deny_code: "check s req = Inr d \<Longrightarrow> \<not> Allow d \<Longrightarrow> ErrorCode d \<noteq> ''''"
    and allow_tcp: "check s req = Inr d \<Longrightarrow> Allow d \<Longrightarrow> brType req = ''tcp'' \<Longrightarrow> AllowTCP (dLimits d)"
    and allow_udp: "check s req = Inr d \<Longrightarrow> Allow d \<Longrightarrow> brType req = ''udp'' \<Longrightarrow> AllowUDP (dLimits d)"
    and allow_custom: "check s req = Inr d \<Longrightarrow> Allow d \<Longrightarrow> brCustomHost req \<noteq> '''' \<Longrightarrow>
      AllowCustomDomains (dLimits d)"
    and allow_sub: "check s req = Inr d \<Longrightarrow> Allow d \<Longrightarrow> AllowReservedSubdomain (dLimits d)"

interpretation stub: entitlements "\<lambda>_ :: unit. stub_CheckBind"
  by unfold_locales (auto simp: stub_CheckBind_def)

section \<open>The plan catalog (\<^verbatim>\<open>internal/billing/plans.go\<close>)\<close>

definition GB :: int where "GB = 2 ^ 30"
definition TB :: int where "TB = 2 ^ 40"

definition PlanFree :: string where "PlanFree = ''free''"
definition PlanPro :: string where "PlanPro = ''pro''"
definition PlanTeam :: string where "PlanTeam = ''team''"
definition PlanPAYG :: string where "PlanPAYG = ''payg''"

lemmas plan_code_defs = PlanFree_def PlanPro_def PlanTeam_def PlanPAYG_def

record StripePrices =
  spMonthly :: string
  spAnnual :: string
  spMetered :: string

record Plan =
  pCode :: string
  pName :: string
  pMaxConcurrentTunnels :: int
  pMaxBandwidthBytesMo :: int
  pMaxRequestsMo :: int
  pMaxReservedSubdomains :: int
  pMaxCustomDomains :: int
  pAllowCustomDomains :: bool
  pAllowTCP :: bool
  pAllowTLS :: bool
  pAllowUDP :: bool
  pRateLimitRPS :: int
  pInspectorHistory :: duration
  pMeteredSeats :: bool
  pPriceMonthlyCents :: int
  pPriceAnnualCents :: int
  pStripePrices :: StripePrices

definition noPrices :: StripePrices where
  "noPrices = \<lparr>spMonthly = '''', spAnnual = '''', spMetered = ''''\<rparr>"

definition plan_Limits :: "Plan \<Rightarrow> Limits" where
  "plan_Limits p =
     \<lparr>MaxConcurrentTunnels = pMaxConcurrentTunnels p,
      MaxBandwidthBytesMo = pMaxBandwidthBytesMo p,
      MaxRequestsMo = pMaxRequestsMo p,
      AllowCustomDomains = pAllowCustomDomains p,
      AllowReservedSubdomain = (pMaxReservedSubdomains p > 0),
      AllowTCP = pAllowTCP p,
      AllowUDP = pAllowUDP p,
      RateLimitRPS = pRateLimitRPS p\<rparr>"

definition Metered :: "Plan \<Rightarrow> bool" where
  "Metered p \<longleftrightarrow> pCode p = PlanPAYG"

definition free_plan :: Plan where
  "free_plan = \<lparr>pCode = PlanFree, pName = ''Free'',
     pMaxConcurrentTunnels = 3, pMaxBandwidthBytesMo = 10 * GB, pMaxRequestsMo = 0,
     pMaxReservedSubdomains = 1, pMaxCustomDomains = 0,
     pAllowCustomDomains = False, pAllowTCP = True, pAllowTLS = False, pAllowUDP = False,
     pRateLimitRPS = 60, pInspectorHistory = 60 * minute, pMeteredSeats = False,
     pPriceMonthlyCents = 0, pPriceAnnualCents = 0, pStripePrices = noPrices\<rparr>"

definition pro_plan :: Plan where
  "pro_plan = \<lparr>pCode = PlanPro, pName = ''Pro'',
     pMaxConcurrentTunnels = 10, pMaxBandwidthBytesMo = 200 * GB, pMaxRequestsMo = 0,
     pMaxReservedSubdomains = 10, pMaxCustomDomains = 5,
     pAllowCustomDomains = True, pAllowTCP = True, pAllowTLS = True, pAllowUDP = True,
     pRateLimitRPS = 600, pInspectorHistory = 30 * 24 * 60 * minute, pMeteredSeats = False,
     pPriceMonthlyCents = 300, pPriceAnnualCents = 2400, pStripePrices = noPrices\<rparr>"

definition team_plan :: Plan where
  "team_plan = \<lparr>pCode = PlanTeam, pName = ''Team'',
     pMaxConcurrentTunnels = 25, pMaxBandwidthBytesMo = TB, pMaxRequestsMo = 0,
     pMaxReservedSubdomains = 50, pMaxCustomDomains = 50,
     pAllowCustomDomains = True, pAllowTCP = True, pAllowTLS = True, pAllowUDP = True,
     pRateLimitRPS = 2000, pInspectorHistory = 30 * 24 * 60 * minute, pMeteredSeats = False,
     pPriceMonthlyCents = 500, pPriceAnnualCents = 4440, pStripePrices = noPrices\<rparr>"

definition payg_plan :: Plan where
  "payg_plan = \<lparr>pCode = PlanPAYG, pName = ''Pay-as-you-go'',
     pMaxConcurrentTunnels = 0, pMaxBandwidthBytesMo = 0, pMaxRequestsMo = 0,
     pMaxReservedSubdomains = 1000, pMaxCustomDomains = 1000,
     pAllowCustomDomains = True, pAllowTCP = True, pAllowTLS = True, pAllowUDP = True,
     pRateLimitRPS = 0, pInspectorHistory = 30 * 24 * 60 * minute, pMeteredSeats = True,
     pPriceMonthlyCents = 0, pPriceAnnualCents = 0, pStripePrices = noPrices\<rparr>"

definition Catalog :: "(string, Plan) gomap" where
  "Catalog = [(PlanFree, free_plan), (PlanPro, pro_plan), (PlanTeam, team_plan), (PlanPAYG, payg_plan)]"

lemmas plan_defs = free_plan_def pro_plan_def team_plan_def payg_plan_def

definition PlanFor :: "string \<Rightarrow> Plan" where
  "PlanFor code = (case gget Catalog code of Some p \<Rightarrow> p | None \<Rightarrow> free_plan)"

definition LimitsForPlan :: "string \<Rightarrow> Limits" where
  "LimitsForPlan code = plan_Limits (PlanFor code)"

text \<open>\<^verbatim>\<open>PlanForPriceID\<close> ranges over the configured prices.\<close>

definition PlanForPriceID :: "(string, StripePrices) gomap \<Rightarrow> string \<Rightarrow> string option" where
  "PlanForPriceID prices priceID =
     (if priceID = '''' then None
      else map_option fst
        (find (\<lambda>(code, p). spMonthly p = priceID \<or> spAnnual p = priceID \<or> spMetered p = priceID) prices))"

lemma PlanFor_cases:
  "PlanFor code = free_plan \<or> PlanFor code = pro_plan \<or> PlanFor code = team_plan
     \<or> (code = PlanPAYG \<and> PlanFor code = payg_plan)"
  by (auto simp: PlanFor_def Catalog_def)

lemma PlanFor_subdomains: "0 < pMaxReservedSubdomains (PlanFor code)"
  using PlanFor_cases [of code] by (auto simp: plan_defs)

section \<open>Properties\<close>

text \<open>The catalog fails safe: a plan code that is not in the catalog gets exactly the Free limits,
  and the only code whose bandwidth is unlimited is Pay-as-you-go, which is billed by usage.\<close>

theorem PlanFor_fail_safe:
  "(code \<notin> {PlanFree, PlanPro, PlanTeam, PlanPAYG} \<longrightarrow> LimitsForPlan code = plan_Limits free_plan)
   \<and> (MaxBandwidthBytesMo (LimitsForPlan code) = 0 \<longleftrightarrow> Metered (PlanFor code))
   \<and> (Metered (PlanFor code) \<longleftrightarrow> code = PlanPAYG)"
proof (intro conjI impI)
  assume "code \<notin> {PlanFree, PlanPro, PlanTeam, PlanPAYG}"
  then show "LimitsForPlan code = plan_Limits free_plan"
    by (simp add: LimitsForPlan_def PlanFor_def Catalog_def)
next
  show "MaxBandwidthBytesMo (LimitsForPlan code) = 0 \<longleftrightarrow> Metered (PlanFor code)"
    using PlanFor_cases [of code]
    by (auto simp: LimitsForPlan_def plan_Limits_def plan_defs Metered_def plan_code_defs GB_def TB_def)
next
  show "Metered (PlanFor code) \<longleftrightarrow> code = PlanPAYG"
    by (auto simp: PlanFor_def Catalog_def plan_defs Metered_def plan_code_defs)
qed

theorem PlanFor_fail_safe_witness:
  "LimitsForPlan ''enterprise'' = plan_Limits free_plan \<and> MaxBandwidthBytesMo (LimitsForPlan ''enterprise'') = 10 * GB"
proof -
  have "''enterprise'' \<notin> {PlanFree, PlanPro, PlanTeam, PlanPAYG}" by (simp add: plan_code_defs)
  then have "LimitsForPlan ''enterprise'' = plan_Limits free_plan"
    using PlanFor_fail_safe [of "''enterprise''"] by blast
  then show ?thesis by (simp add: plan_Limits_def plan_defs)
qed

end
