(* ===== verification/Metering.thy ===== *)
theory Metering
  imports Plans
begin

text \<open>
  The usage aggregator of the edge, \<^verbatim>\<open>internal/server/usage.go\<close>: traffic is added to one window per
  account and tunnel, and a flush hands every non-empty window to \<^verbatim>\<open>ReportUsage\<close> and starts over.
  The calls of \<^verbatim>\<open>ReportUsage\<close> are the result of \<open>flush\<close>; their errors are discarded by the code, and a
  window whose call failed is dropped. Byte and request counts are \<^verbatim>\<open>int64\<close>: an \<^typ>\<open>int\<close> that
  every addition wraps to 64 bits.
\<close>

section \<open>The aggregator\<close>

type_synonym usageKey = "string \<times> string"

record usageAgg =
  windows :: "(usageKey, Usage) gomap"

definition newUsageAgg :: usageAgg where
  "newUsageAgg = \<lparr>windows = []\<rparr>"

definition usage_record ::
  "gotime \<Rightarrow> string \<Rightarrow> string \<Rightarrow> int \<Rightarrow> int \<Rightarrow> int \<Rightarrow> usageAgg \<Rightarrow> usageAgg" where
  "usage_record now accountID tunnelID bytesIn bytesOut requests u =
     (if accountID = '''' then u
      else
        let k = (accountID, tunnelID);
            w = (case gget (windows u) k of
                   Some w \<Rightarrow> w
                 | None \<Rightarrow> \<lparr>uAccountID = accountID, uTunnelID = tunnelID, uBytesIn = 0, uBytesOut = 0,
                            uRequests = 0, uWindowStart = now, uWindowEnd = 0\<rparr>)
        in u\<lparr>windows := gset k (w\<lparr>uBytesIn := wrap64 (uBytesIn w + bytesIn), uBytesOut := wrap64 (uBytesOut w + bytesOut),
                                 uRequests := wrap64 (uRequests w + requests)\<rparr>) (windows u)\<rparr>)"

text \<open>\<^verbatim>\<open>flush\<close>: the windows handed to \<^verbatim>\<open>ReportUsage\<close>, in order, and the aggregator with an empty map. What the
  calls return does not matter to it.\<close>

definition flush :: "gotime \<Rightarrow> usageAgg \<Rightarrow> Usage list \<times> usageAgg" where
  "flush now u =
     (map (\<lambda>w. w\<lparr>uWindowEnd := now\<rparr>)
        (filter (\<lambda>w. \<not> (uBytesIn w = 0 \<and> uBytesOut w = 0 \<and> uRequests w = 0)) (map snd (windows u))),
      u\<lparr>windows := []\<rparr>)"

text \<open>A run of the edge: traffic samples interleaved with flushes of the ticker (or of \<^verbatim>\<open>Stop\<close>). A flush comes
  with what \<^verbatim>\<open>ReportUsage\<close> returns for each window, \<^const>\<open>True\<close> where it succeeds. The run collects the
  windows that were delivered and those that were dropped with the error.\<close>

datatype usage_op =
    Sample gotime string string int int int
  | Flush gotime "Usage \<Rightarrow> bool"

fun usage_step :: "usage_op \<Rightarrow> (Usage list \<times> Usage list) \<times> usageAgg \<Rightarrow> (Usage list \<times> Usage list) \<times> usageAgg" where
  "usage_step (Sample now acc tid i ou r) (sent, u) = (sent, usage_record now acc tid i ou r u)"
| "usage_step (Flush now answer) ((delivered, dropped), u) =
     (case flush now u of (ws, u') \<Rightarrow> ((delivered @ filter answer ws, dropped @ filter (\<lambda>w. \<not> answer w) ws), u'))"

section \<open>Conservation\<close>

datatype meter = MIn | MOut | MReq

fun meter_of :: "meter \<Rightarrow> Usage \<Rightarrow> int" where
  "meter_of MIn w = uBytesIn w"
| "meter_of MOut w = uBytesOut w"
| "meter_of MReq w = uRequests w"

fun sample_of :: "meter \<Rightarrow> usageKey \<Rightarrow> usage_op \<Rightarrow> int" where
  "sample_of m k (Flush now answer) = 0"
| "sample_of m k (Sample now acc tid i ou r) =
     (if (acc, tid) = k then (case m of MIn \<Rightarrow> i | MOut \<Rightarrow> ou | MReq \<Rightarrow> r) else 0)"

definition reported :: "meter \<Rightarrow> usageKey \<Rightarrow> Usage list \<Rightarrow> int" where
  "reported m k ws = sum_list (map (\<lambda>w. if (uAccountID w, uTunnelID w) = k then meter_of m w else 0) ws)"

definition pending :: "meter \<Rightarrow> usageKey \<Rightarrow> usageAgg \<Rightarrow> int" where
  "pending m k u = (case gget (windows u) k of Some w \<Rightarrow> meter_of m w | None \<Rightarrow> 0)"

definition usage_wf :: "usageAgg \<Rightarrow> bool" where
  "usage_wf u \<longleftrightarrow> gomap_ok (windows u) \<and>
     (\<forall>k w. gget (windows u) k = Some w \<longrightarrow> k = (uAccountID w, uTunnelID w) \<and> uAccountID w \<noteq> '''')"

lemma usage_wf_record [wf_intros]: "usage_wf u \<Longrightarrow> usage_wf (usage_record now acc tid i ou r u)"
  unfolding usage_wf_def usage_record_def Let_def
  by (simp split: option.split) (metis (no_types, lifting) prod.inject)

lemma usage_wf_flush [wf_intros]: "usage_wf (snd (flush now u))"
  by (simp add: usage_wf_def flush_def)

lemma pending_record:
  assumes "usage_wf u" "fst k \<noteq> ''''"
  shows "pending m k (usage_record now acc tid i ou r u) =
           (if (acc, tid) = k then wrap64 (pending m k u + sample_of m k (Sample now acc tid i ou r)) else pending m k u)"
  using assms by (cases m) (auto simp: pending_def usage_record_def Let_def split: option.splits)

lemma reported_split: "reported m k (filter P ws) + reported m k (filter (\<lambda>w. \<not> P w) ws) = reported m k ws"
  by (induction ws) (auto simp: reported_def)

lemma reported_append [simp]: "reported m k (xs @ ys) = reported m k xs + reported m k ys"
  by (simp add: reported_def)

lemma reported_drop_zero:
  "reported m k (map (\<lambda>w. w\<lparr>uWindowEnd := now\<rparr>)
      (filter (\<lambda>w. \<not> (uBytesIn w = 0 \<and> uBytesOut w = 0 \<and> uRequests w = 0)) ws)) = reported m k ws"
proof (induction ws)
  case Nil
  then show ?case by simp
next
  case (Cons w ws)
  then show ?case by (cases m) (auto simp: reported_def)
qed

lemma reported_windows:
  assumes "distinct (map fst ws)" "\<forall>(k, w) \<in> set ws. k = (uAccountID w, uTunnelID w)"
  shows "reported m k (map snd ws) = (case map_of ws k of Some w \<Rightarrow> meter_of m w | None \<Rightarrow> 0)"
  using assms
proof (induction ws)
  case Nil
  then show ?case by (simp add: reported_def)
next
  case (Cons p ws)
  obtain k' w where p: "p = (k', w)" by (cases p)
  have IH: "reported m k (map snd ws) = (case map_of ws k of Some w \<Rightarrow> meter_of m w | None \<Rightarrow> 0)"
    using Cons by simp
  have "k' = (uAccountID w, uTunnelID w)" "map_of ws k' = None"
    using Cons.prems p by (auto simp: map_of_eq_None_iff)
  with IH p show ?case by (auto simp: reported_def)
qed

lemma reported_flush:
  assumes "usage_wf u"
  shows "reported m k (fst (flush now u)) = pending m k u" "pending m k (snd (flush now u)) = 0"
proof -
  have "\<forall>(k, w) \<in> set (windows u). k = (uAccountID w, uTunnelID w)" "distinct (map fst (windows u))"
    using assms gomap_ok_mem [of "windows u"] by (auto simp: usage_wf_def gomap_ok_def)
  then show "reported m k (fst (flush now u)) = pending m k u"
    unfolding flush_def fst_conv reported_drop_zero pending_def by (intro reported_windows)
qed (simp add: pending_def flush_def)

text \<open>Delivered, dropped and pending together.\<close>

definition accounted :: "meter \<Rightarrow> usageKey \<Rightarrow> (Usage list \<times> Usage list) \<times> usageAgg \<Rightarrow> int" where
  "accounted m k s = reported m k (fst (fst s)) + reported m k (snd (fst s)) + pending m k (snd s)"

lemma usage_wf_step: "usage_wf (snd s) \<Longrightarrow> usage_wf (snd (usage_step op s))"
proof -
  obtain del drop u where s: "s = ((del, drop), u)" by (metis prod.exhaust)
  assume "usage_wf (snd s)"
  then show ?thesis using usage_wf_flush [of _ u] usage_wf_record [of u] unfolding s by (cases op) (auto simp: case_prod_unfold)
qed

lemma accounted_step:
  assumes "usage_wf (snd s)" "fst k \<noteq> ''''"
  shows "accounted m k (usage_step op s) =
    (case op of
       Sample now acc tid i ou r \<Rightarrow>
         accounted m k s - pending m k (snd s) +
           (if (acc, tid) = k then wrap64 (pending m k (snd s) + sample_of m k op) else pending m k (snd s))
     | Flush now answer \<Rightarrow> accounted m k s)"
proof (cases op)
  case (Sample now acc tid i ou r)
  then show ?thesis using pending_record [OF assms] by (cases s) (simp add: accounted_def)
next
  case (Flush now answer)
  obtain del drop u where s: "s = ((del, drop), u)" by (metis prod.exhaust)
  obtain ws u' where f: "flush now u = (ws, u')" by fastforce
  with assms have "reported m k ws = pending m k u" "pending m k u' = 0"
    using reported_flush [of u m k now] s by auto
  with reported_split [of m k answer ws] show ?thesis by (simp add: Flush s f accounted_def)
qed

lemma wrap64_shift: "(a - p + wrap64 (p + x) + z) mod 2 ^ 64 = (a + (x + z)) mod 2 ^ 64"
proof -
  have "(a - p + wrap64 (p + x) + z) mod 2 ^ 64 = (a - p + z + wrap64 (p + x) mod 2 ^ 64) mod 2 ^ 64"
    by (simp only: mod_add_right_eq) (simp add: algebra_simps)
  then show ?thesis unfolding wrap64_mod by (simp only: mod_add_right_eq) (simp add: algebra_simps)
qed

lemma accounted_mod:
  assumes "usage_wf (snd s)" "fst k \<noteq> ''''"
  shows "accounted m k (fold usage_step ops s) mod 2 ^ 64 = (accounted m k s + sum_list (map (sample_of m k) ops)) mod 2 ^ 64"
  using assms
proof (induction ops arbitrary: s)
  case (Cons op ops)
  have "accounted m k (fold usage_step (op # ops) s) mod 2 ^ 64 =
      (accounted m k (usage_step op s) + sum_list (map (sample_of m k) ops)) mod 2 ^ 64"
    using Cons.IH [OF usage_wf_step [OF Cons.prems(1)] Cons.prems(2)] by simp
  also have "\<dots> = (accounted m k s + sum_list (map (sample_of m k) (op # ops))) mod 2 ^ 64"
  proof (cases op)
    case (Sample now acc tid i ou r)
    then show ?thesis
      using accounted_step [OF Cons.prems, of m op] wrap64_shift [of "accounted m k s" "pending m k (snd s)" "sample_of m k op"]
      by (auto simp del: wrap64_mod)
  next
    case (Flush now answer)
    then show ?thesis using accounted_step [OF Cons.prems, of m op] by simp
  qed
  finally show ?case .
qed simp

lemma accounted_exact:
  assumes "usage_wf (snd s)" "fst k \<noteq> ''''" "\<forall>op \<in> set ops. 0 \<le> sample_of m k op"
    and "0 \<le> pending m k (snd s)" "pending m k (snd s) \<le> accounted m k s"
    and "accounted m k s + sum_list (map (sample_of m k) ops) < 2 ^ 63"
  shows "accounted m k (fold usage_step ops s) = accounted m k s + sum_list (map (sample_of m k) ops)"
  using assms
proof (induction ops arbitrary: s)
  case (Cons op ops)
  let ?s = "usage_step op s"
  have rest: "0 \<le> sum_list (map (sample_of m k) ops)" using Cons.prems(3) by (auto intro!: sum_list_nonneg)
  have here: "0 \<le> sample_of m k op" using Cons.prems(3) by simp
  have id: "wrap64 (pending m k (snd s) + sample_of m k op) = pending m k (snd s) + sample_of m k op"
    using Cons.prems(4-6) rest here by (intro wrap64_id) auto
  have acc: "accounted m k ?s = accounted m k s + sample_of m k op"
    using accounted_step [OF Cons.prems(1,2), of m op] id by (cases op) auto
  have "0 \<le> pending m k (snd ?s) \<and> pending m k (snd ?s) \<le> accounted m k ?s"
  proof (cases op)
    case (Sample now a tid i ou r)
    have p: "pending m k (snd ?s) = pending m k (snd s) + sample_of m k op"
      using pending_record [OF Cons.prems(1,2), of m now a tid i ou r] id Sample by (cases s) auto
    show ?thesis unfolding p acc using Cons.prems(4,5) here by simp
  next
    case (Flush now answer)
    obtain del drop u where "s = ((del, drop), u)" by (metis prod.exhaust)
    then have "pending m k (snd ?s) = 0" by (simp add: Flush flush_def pending_def)
    with acc Cons.prems(4,5) here show ?thesis by simp
  qed
  with Cons.IH [OF usage_wf_step [OF Cons.prems(1)] Cons.prems(2)] Cons.prems(3,6) acc show ?case by (simp add: add.assoc)
qed simp

section \<open>Properties\<close>

text \<open>C12. Metered traffic is accounted for on the edge. After any interleaving of traffic samples and flushes,
  whatever \<^verbatim>\<open>ReportUsage\<close> answers, the bytes in, bytes out and requests of an account (with a non-empty
  identifier) and tunnel that were delivered, those in windows dropped because their report failed, and
  those still pending add up to what was sampled: a sample is in one window, and a window is handed over
  once. This holds modulo the 64 bits of the counters, and as integers when the samples are not negative
  and stay below \<open>2\<^sup>6\<^sup>3\<close> in total.\<close>

theorem usage_accounted:
  assumes "acc \<noteq> ''''"
  shows "case fold usage_step ops (([], []), newUsageAgg) of
           ((delivered, dropped), u) \<Rightarrow>
             (let total = reported m (acc, tid) delivered + reported m (acc, tid) dropped + pending m (acc, tid) u;
                  sampled = sum_list (map (sample_of m (acc, tid)) ops)
              in total mod 2 ^ 64 = sampled mod 2 ^ 64 \<and>
                 ((\<forall>op \<in> set ops. 0 \<le> sample_of m (acc, tid) op) \<and> sampled < 2 ^ 63 \<longrightarrow> total = sampled))"
proof -
  have wf: "usage_wf (snd (([], []), newUsageAgg))" by (simp add: usage_wf_def newUsageAgg_def)
  have zero: "accounted m (acc, tid) (([], []), newUsageAgg) = 0" "pending m (acc, tid) newUsageAgg = 0"
    by (auto simp: accounted_def reported_def pending_def newUsageAgg_def)
  from accounted_mod [OF wf, of "(acc, tid)" m ops] accounted_exact [OF wf, of "(acc, tid)" ops m] assms zero
  show ?thesis by (simp add: accounted_def Let_def case_prod_unfold)
qed

theorem usage_accounted_witness:
  "case fold usage_step [Sample 1 ''o'' ''t'' 10 0 1, Flush 2 (\<lambda>w. False), Sample 3 ''o'' ''t'' 5 7 1, Flush 4 (\<lambda>w. True)]
      (([], []), newUsageAgg) of
     ((delivered, dropped), u) \<Rightarrow>
       reported MIn (''o'', ''t'') delivered + reported MIn (''o'', ''t'') dropped + pending MIn (''o'', ''t'') u = 15"
  using usage_accounted [of "''o''" MIn "''t''"
      "[Sample 1 ''o'' ''t'' 10 0 1, Flush 2 (\<lambda>w. False), Sample 3 ''o'' ''t'' 5 7 1, Flush 4 (\<lambda>w. True)]"]
  by (auto simp: Let_def split: prod.splits)

text \<open>A failed report loses its window: its traffic is in no report that succeeded and is not pending.\<close>

lemma failed_report_loses_usage:
  "case fold usage_step [Sample 1 ''o'' ''t'' 10 0 1, Flush 2 (\<lambda>w. False)] (([], []), newUsageAgg) of
     ((delivered, dropped), u) \<Rightarrow> delivered = [] \<and> pending MIn (''o'', ''t'') u = 0 \<and> reported MIn (''o'', ''t'') dropped = 10"
  by code_simp

end
