(* ===== verification/Ports.thy ===== *)
theory Ports
  imports Prelude
begin

text \<open>
  The pool of public TCP and UDP ports, \<^verbatim>\<open>portManager\<close> of \<^verbatim>\<open>internal/server/ingress_tcp.go\<close>, with
  \<^verbatim>\<open>openPort\<close>, \<^verbatim>\<open>openTCPPort\<close> and \<^verbatim>\<open>openUDPPort\<close> (\<^verbatim>\<open>ingress_udp.go\<close>). A listener or packet
  connection is a handle (a number); whether the operating system grants one is the answer of
  the argument \<open>listen\<close>, by protocol and port (an error text or a handle). Closing a handle is visible as its removal from the
  map of open handles.
\<close>

section \<open>The port manager\<close>

datatype port_error = errPortUnavailable | errListen string

record portManager =
  pmMin :: int
  pmMax :: int
  usedTCP :: "(int, bool) gomap"
  usedUDP :: "(int, bool) gomap"
  pmTCP :: "(int, nat) gomap"
  pmUDP :: "(int, nat) gomap"

definition newPortManager :: "int \<Rightarrow> int \<Rightarrow> portManager" where
  "newPortManager mn mx =
     \<lparr>pmMin = mn, pmMax = mx, usedTCP = [], usedUDP = [], pmTCP = [], pmUDP = []\<rparr>"

definition pm_used :: "string \<Rightarrow> portManager \<Rightarrow> (int, bool) gomap" where
  "pm_used proto pm = (if proto = ''udp'' then usedUDP pm else usedTCP pm)"

text \<open>Assigning to the map that \<^verbatim>\<open>used(proto)\<close> returns, which is a reference in Go.\<close>

definition set_used :: "string \<Rightarrow> (int, bool) gomap \<Rightarrow> portManager \<Rightarrow> portManager" where
  "set_used proto m pm = (if proto = ''udp'' then pm\<lparr>usedUDP := m\<rparr> else pm\<lparr>usedTCP := m\<rparr>)"

text \<open>Reading an absent key of a \<^verbatim>\<open>map[int]bool\<close> yields \<^verbatim>\<open>false\<close>.\<close>

definition is_used :: "(int, bool) gomap \<Rightarrow> int \<Rightarrow> bool" where
  "is_used m p \<longleftrightarrow> gget m p = Some True"

text \<open>The loop \<^verbatim>\<open>for p := pm.min; p <= pm.max; p++\<close>.\<close>

function first_free :: "(int, bool) gomap \<Rightarrow> int \<Rightarrow> int \<Rightarrow> int option" where
  "first_free m p mx =
     (if p > mx then None
      else if \<not> is_used m p then Some p
      else first_free m (p + 1) mx)"
  by pat_completeness auto
termination
  by (relation "measure (\<lambda>(m, p, mx). nat (mx + 1 - p))") auto

declare first_free.simps [simp del]

definition reserve :: "string \<Rightarrow> int \<Rightarrow> portManager \<Rightarrow> (port_error + int) \<times> portManager" where
  "reserve proto want pm =
     (let used = pm_used proto pm in
      if want \<noteq> 0 then
        if want < pmMin pm \<or> want > pmMax pm \<or> is_used used want
        then (Inl errPortUnavailable, pm)
        else (Inr want, set_used proto (gset want True used) pm)
      else (case first_free used (pmMin pm) (pmMax pm) of
              Some p \<Rightarrow> (Inr p, set_used proto (gset p True used) pm)
            | None \<Rightarrow> (Inl errPortUnavailable, pm)))"

definition setTCP :: "int \<Rightarrow> nat \<Rightarrow> portManager \<Rightarrow> portManager" where
  "setTCP port ln pm = pm\<lparr>pmTCP := gset port ln (pmTCP pm)\<rparr>"

definition setUDP :: "int \<Rightarrow> nat \<Rightarrow> portManager \<Rightarrow> portManager" where
  "setUDP port uc pm = pm\<lparr>pmUDP := gset port uc (pmUDP pm)\<rparr>"

definition pm_release :: "string \<Rightarrow> int \<Rightarrow> portManager \<Rightarrow> portManager" where
  "pm_release proto port pm =
     (let pm1 = set_used proto (gdel port (pm_used proto pm)) pm in
      if proto = ''udp'' then
        (case gget (pmUDP pm1) port of
           Some uc \<Rightarrow> pm1\<lparr>pmUDP := gdel port (pmUDP pm1)\<rparr>
         | None \<Rightarrow> pm1)
      else
        (case gget (pmTCP pm1) port of
           Some ln \<Rightarrow> pm1\<lparr>pmTCP := gdel port (pmTCP pm1)\<rparr>
         | None \<Rightarrow> pm1))"

definition closeAll :: "portManager \<Rightarrow> portManager" where
  "closeAll pm = pm\<lparr>pmTCP := [], pmUDP := []\<rparr>"

definition openTCPPort ::
  "(string \<Rightarrow> int \<Rightarrow> string + nat) \<Rightarrow> int \<Rightarrow> portManager \<Rightarrow> (port_error + int) \<times> portManager" where
  "openTCPPort listen want pm =
     (case reserve ''tcp'' want pm of
        (Inl e, pm1) \<Rightarrow> (Inl e, pm1)
      | (Inr port, pm1) \<Rightarrow>
          (case listen ''tcp'' port of
             Inl e \<Rightarrow> (Inl (errListen e), pm_release ''tcp'' port pm1)
           | Inr ln \<Rightarrow> (Inr port, setTCP port ln pm1)))"

definition openUDPPort ::
  "(string \<Rightarrow> int \<Rightarrow> string + nat) \<Rightarrow> int \<Rightarrow> portManager \<Rightarrow> (port_error + int) \<times> portManager" where
  "openUDPPort listen want pm =
     (case reserve ''udp'' want pm of
        (Inl e, pm1) \<Rightarrow> (Inl e, pm1)
      | (Inr port, pm1) \<Rightarrow>
          (case listen ''udp'' port of
             Inl e \<Rightarrow> (Inl (errListen e), pm_release ''udp'' port pm1)
           | Inr uc \<Rightarrow> (Inr port, setUDP port uc pm1)))"

definition openPort ::
  "(string \<Rightarrow> int \<Rightarrow> string + nat) \<Rightarrow> string \<Rightarrow> int \<Rightarrow> portManager
     \<Rightarrow> (port_error + int) \<times> portManager" where
  "openPort listen proto want pm =
     (if proto = ''udp'' then openUDPPort listen want pm else openTCPPort listen want pm)"

section \<open>What is reserved and what is open\<close>

definition used_set :: "string \<Rightarrow> portManager \<Rightarrow> int set" where
  "used_set proto pm = {p. is_used (pm_used proto pm) p}"

definition pm_open :: "string \<Rightarrow> portManager \<Rightarrow> int \<Rightarrow> nat option" where
  "pm_open proto pm = (if proto = ''udp'' then gget (pmUDP pm) else gget (pmTCP pm))"

text \<open>Every open handle sits on a reserved port, and every reserved port is in the range.\<close>

definition pm_wf :: "portManager \<Rightarrow> bool" where
  "pm_wf pm \<longleftrightarrow>
     (\<forall>proto. dom (pm_open proto pm) \<subseteq> used_set proto pm
            \<and> used_set proto pm \<subseteq> {pmMin pm..pmMax pm})"

lemma pm_frame [simp]:
  "pmMin (set_used proto m pm) = pmMin pm" "pmMax (set_used proto m pm) = pmMax pm"
  "pm_open p (set_used proto m pm) = pm_open p pm"
  by (simp_all add: set_used_def pm_open_def)

lemma pm_used_set_used [simp]:
  "pm_used p (set_used proto m pm) = (if (p = ''udp'') = (proto = ''udp'') then m else pm_used p pm)"
  by (simp add: set_used_def pm_used_def)

lemma used_set_set_True [simp]:
  "used_set p (set_used proto (gset x True (pm_used proto pm)) pm) =
     (if (p = ''udp'') = (proto = ''udp'') then insert x (used_set p pm) else used_set p pm)"
  by (auto simp: used_set_def is_used_def pm_used_def set_used_def)

lemma first_free_Some:
  "first_free m p mx = Some q \<longleftrightarrow>
     p \<le> q \<and> q \<le> mx \<and> \<not> is_used m q \<and> (\<forall>i. p \<le> i \<and> i < q \<longrightarrow> is_used m i)"
proof (induction m p mx rule: first_free.induct)
  case (1 m p mx)
  show ?case
  proof (cases "p \<le> mx \<and> is_used m p")
    case True
    with 1 have "first_free m p mx = Some q \<longleftrightarrow> p + 1 \<le> q \<and> q \<le> mx \<and> \<not> is_used m q \<and>
        (\<forall>i. p + 1 \<le> i \<and> i < q \<longrightarrow> is_used m i)"
      by (simp add: first_free.simps [of m p])
    moreover have "p \<le> i \<longleftrightarrow> i = p \<or> p + 1 \<le> i" for i by auto
    ultimately show ?thesis using True by auto
  next
    case False
    then show ?thesis by (subst first_free.simps) (auto dest: leD)
  qed
qed

lemma first_free_None: "first_free m p mx = None \<longleftrightarrow> (\<forall>i. p \<le> i \<and> i \<le> mx \<longrightarrow> is_used m i)"
proof (induction m p mx rule: first_free.induct)
  case (1 m p mx)
  show ?case
  proof (cases "p \<le> mx \<and> is_used m p")
    case True
    moreover have "p \<le> i \<longleftrightarrow> i = p \<or> p + 1 \<le> i" for i by auto
    ultimately show ?thesis using 1 by (auto simp: first_free.simps [of m p])
  next
    case False
    then show ?thesis by (subst first_free.simps) auto
  qed
qed

text \<open>The three outcomes of \<^verbatim>\<open>reserve\<close>.\<close>

lemma reserve_Inr:
  assumes "reserve proto want pm = (Inr p, pm')"
  shows "pm' = set_used proto (gset p True (pm_used proto pm)) pm"
    and "pmMin pm \<le> p" "p \<le> pmMax pm" "p \<notin> used_set proto pm"
    and "want \<noteq> 0 \<Longrightarrow> p = want"
    and "want = 0 \<Longrightarrow> {pmMin pm..<p} \<subseteq> used_set proto pm"
  using assms
  by (auto simp: reserve_def Let_def used_set_def first_free_Some split: if_splits option.splits)

lemma reserve_Inl:
  "reserve proto want pm = (Inl e, pm') \<longleftrightarrow>
     e = errPortUnavailable \<and> pm' = pm \<and>
     (if want \<noteq> 0 then want \<notin> {pmMin pm..pmMax pm} - used_set proto pm
      else {pmMin pm..pmMax pm} \<subseteq> used_set proto pm)"
  using first_free_None [of "pm_used proto pm" "pmMin pm" "pmMax pm"]
  by (auto simp: reserve_def Let_def used_set_def split: option.splits)

lemma used_set_release [simp]:
  "used_set p (pm_release proto x pm) =
     (if (p = ''udp'') = (proto = ''udp'') then used_set p pm - {x} else used_set p pm)"
  by (auto simp: pm_release_def Let_def used_set_def is_used_def pm_used_def set_used_def split: option.splits)

lemma pm_open_release [simp]:
  "pm_open p (pm_release proto x pm) =
     (if (p = ''udp'') = (proto = ''udp'') then (pm_open p pm)(x := None) else pm_open p pm)"
  by (auto simp: pm_release_def Let_def pm_open_def set_used_def fun_eq_iff split: option.splits)

lemma pm_range_release [simp]:
  "pmMin (pm_release proto x pm) = pmMin pm" "pmMax (pm_release proto x pm) = pmMax pm"
  by (auto simp: pm_release_def Let_def split: option.splits)

lemma pm_wf_release [wf_intros]: "pm_wf pm \<Longrightarrow> pm_wf (pm_release proto x pm)"
  by (auto simp: pm_wf_def split: if_splits)

lemma set_handle [simp]:
  "used_set p (setTCP x h pm) = used_set p pm" "used_set p (setUDP x h pm) = used_set p pm"
  "pmMin (setTCP x h pm) = pmMin pm" "pmMin (setUDP x h pm) = pmMin pm"
  "pmMax (setTCP x h pm) = pmMax pm" "pmMax (setUDP x h pm) = pmMax pm"
  "pm_open p (setTCP x h pm) = (if p = ''udp'' then pm_open p pm else (pm_open p pm)(x \<mapsto> h))"
  "pm_open p (setUDP x h pm) = (if p = ''udp'' then (pm_open p pm)(x \<mapsto> h) else pm_open p pm)"
  by (auto simp: used_set_def pm_used_def setTCP_def setUDP_def pm_open_def fun_eq_iff)

lemma pm_wf_new: "pm_wf (newPortManager mn mx)"
  by (simp add: pm_wf_def newPortManager_def pm_open_def used_set_def is_used_def pm_used_def)

section \<open>Opening a port\<close>

definition set_open :: "string \<Rightarrow> int \<Rightarrow> nat \<Rightarrow> portManager \<Rightarrow> portManager" where
  "set_open proto port h pm = (if proto = ''udp'' then setUDP port h pm else setTCP port h pm)"

lemma openPort_cases:
  assumes "proto = ''tcp'' \<or> proto = ''udp''"
  shows "openPort listen proto want pm =
     (case reserve proto want pm of
        (Inl e, pm1) \<Rightarrow> (Inl e, pm1)
      | (Inr port, pm1) \<Rightarrow>
          (case listen proto port of
             Inl e \<Rightarrow> (Inl (errListen e), pm_release proto port pm1)
           | Inr h \<Rightarrow> (Inr port, set_open proto port h pm1)))"
  using assms
  by (auto simp: openPort_def openTCPPort_def openUDPPort_def set_open_def
      split: prod.splits sum.splits option.splits)

lemma openPort_ok:
  assumes "openPort listen proto want pm = (Inr p, pm')" "proto = ''tcp'' \<or> proto = ''udp''"
  shows "p \<in> {pmMin pm..pmMax pm} - used_set proto pm"
    and "used_set proto pm' = insert p (used_set proto pm)"
    and "\<And>q. (q = ''udp'') \<noteq> (proto = ''udp'') \<Longrightarrow> used_set q pm' = used_set q pm \<and> pm_open q pm' = pm_open q pm"
    and "\<exists>h. listen proto p = Inr h \<and> pm_open proto pm' = (pm_open proto pm)(p \<mapsto> h)"
    and "pmMin pm' = pmMin pm" "pmMax pm' = pmMax pm"
    and "want \<noteq> 0 \<Longrightarrow> p = want"
proof -
  obtain pm1 h where *: "reserve proto want pm = (Inr p, pm1)" "listen proto p = Inr h"
    "pm' = set_open proto p h pm1"
    using assms(1) unfolding openPort_cases [OF assms(2)]
    by (auto split: prod.splits sum.splits option.splits)
  note r = reserve_Inr [OF *(1)]
  show "p \<in> {pmMin pm..pmMax pm} - used_set proto pm" using r by simp
  show "used_set proto pm' = insert p (used_set proto pm)"
    using assms(2) by (auto simp: *(3) r(1) set_open_def)
  show "\<And>q. (q = ''udp'') \<noteq> (proto = ''udp'') \<Longrightarrow> used_set q pm' = used_set q pm \<and> pm_open q pm' = pm_open q pm"
    by (auto simp: *(3) r(1) set_open_def)
  show "\<exists>h. listen proto p = Inr h \<and> pm_open proto pm' = (pm_open proto pm)(p \<mapsto> h)"
    using assms(2) *(2) by (auto simp: *(3) r(1) set_open_def)
  show "pmMin pm' = pmMin pm" "pmMax pm' = pmMax pm" by (simp_all add: *(3) r(1) set_open_def)
  show "want \<noteq> 0 \<Longrightarrow> p = want" by (rule r(5))
qed

lemma openPort_error:
  assumes "openPort listen proto want pm = (Inl e, pm')" "proto = ''tcp'' \<or> proto = ''udp''"
    and "pm_wf pm"
  shows "used_set q pm' = used_set q pm" "pm_open q pm' = pm_open q pm"
    "pmMin pm' = pmMin pm" "pmMax pm' = pmMax pm"
proof -
  consider "reserve proto want pm = (Inl e, pm')"
    | p pm1 where "reserve proto want pm = (Inr p, pm1)" "pm' = pm_release proto p pm1"
    using assms(1) unfolding openPort_cases [OF assms(2)]
    by (auto split: prod.splits sum.splits option.splits)
  then have "used_set q pm' = used_set q pm \<and> pm_open q pm' = pm_open q pm \<and>
    pmMin pm' = pmMin pm \<and> pmMax pm' = pmMax pm"
  proof cases
    case 1
    then show ?thesis by (simp add: reserve_Inl)
  next
    case 2
    note r = reserve_Inr [OF 2(1)]
    have "pm_open proto pm p = None" using assms(3) r(4) by (auto simp: pm_wf_def)
    then have "(q = ''udp'') = (proto = ''udp'') \<Longrightarrow> pm_open q pm p = None" by (simp add: pm_open_def)
    moreover have "(q = ''udp'') = (proto = ''udp'') \<Longrightarrow> p \<notin> used_set q pm"
      using r(4) by (simp add: used_set_def pm_used_def)
    ultimately show ?thesis by (auto simp: 2(2) r(1) fun_upd_idem)
  qed
  then show "used_set q pm' = used_set q pm" "pm_open q pm' = pm_open q pm"
    "pmMin pm' = pmMin pm" "pmMax pm' = pmMax pm" by simp_all
qed

lemma pm_wf_openPort [wf_intros]:
  assumes "pm_wf pm" "proto = ''tcp'' \<or> proto = ''udp''"
  shows "pm_wf (snd (openPort listen proto want pm))"
proof (cases "openPort listen proto want pm")
  case (Pair r pm')
  show ?thesis
  proof (cases r)
    case (Inl e)
    with Pair show ?thesis
      using openPort_error [OF _ assms(2,1), of listen want e pm'] assms(1) by (simp add: pm_wf_def)
  next
    case (Inr p)
    note ok = openPort_ok [OF Pair [unfolded Inr] assms(2)]
    obtain h where h: "pm_open proto pm' = (pm_open proto pm)(p \<mapsto> h)" using ok(4) by blast
    have "dom (pm_open q pm') \<subseteq> used_set q pm' \<and> used_set q pm' \<subseteq> {pmMin pm'..pmMax pm'}" for q
    proof (cases "(q = ''udp'') = (proto = ''udp'')")
      case True
      then have "pm_open q pm' = pm_open proto pm'" "used_set q pm' = used_set proto pm'"
        by (auto simp: pm_open_def used_set_def pm_used_def)
      moreover have "dom (pm_open proto pm) \<subseteq> used_set proto pm" "used_set proto pm \<subseteq> {pmMin pm..pmMax pm}"
        using assms(1) by (auto simp: pm_wf_def)
      ultimately show ?thesis using ok(1,2,5,6) h by (auto split: if_splits)
    next
      case False
      then show ?thesis using ok(3) [of q] ok(5,6) assms(1) by (simp add: pm_wf_def)
    qed
    then show ?thesis using Pair by (simp add: pm_wf_def)
  qed
qed

text \<open>Releasing a port right after opening it restores the pool.\<close>

lemma openPort_then_release:
  assumes "openPort listen proto want pm = (Inr p, pm')" "proto = ''tcp'' \<or> proto = ''udp''" "pm_wf pm"
  shows "used_set q (pm_release proto p pm') = used_set q pm" "pm_open q (pm_release proto p pm') = pm_open q pm"
proof -
  note ok = openPort_ok [OF assms(1,2)]
  obtain h where h: "pm_open proto pm' = (pm_open proto pm)(p \<mapsto> h)" using ok(4) by blast
  have none: "pm_open proto pm p = None" using assms(3) ok(1) by (auto simp: pm_wf_def)
  show "used_set q (pm_release proto p pm') = used_set q pm"
  proof (cases "(q = ''udp'') = (proto = ''udp'')")
    case True
    then have "used_set q pm' = used_set proto pm'" "used_set q pm = used_set proto pm"
      by (simp_all add: used_set_def pm_used_def)
    with True ok(1,2) show ?thesis by auto
  next
    case False
    with ok(3) [of q] show ?thesis by simp
  qed
  show "pm_open q (pm_release proto p pm') = pm_open q pm"
  proof (cases "(q = ''udp'') = (proto = ''udp'')")
    case True
    then have "pm_open q pm' = pm_open proto pm'" "pm_open q pm = pm_open proto pm"
      by (simp_all add: pm_open_def)
    with True h none show ?thesis by (simp add: fun_upd_idem)
  next
    case False
    with ok(3) [of q] show ?thesis by simp
  qed
qed

section \<open>The pool as an allocator\<close>

text \<open>
  What the edge relies on, once for TCP and once for UDP: a pool over a fixed finite set of
  ports, from which \<open>alloc\<close> takes a port nobody holds and \<open>free\<close> gives one back.
\<close>

locale port_pool =
  fixes alloc :: "int \<Rightarrow> 'p \<Rightarrow> (port_error + int) \<times> 'p"
    and free :: "int \<Rightarrow> 'p \<Rightarrow> 'p"
    and held :: "'p \<Rightarrow> int set"
    and range_of :: "'p \<Rightarrow> int set"
  assumes finite_range: "finite (range_of g)"
    and alloc_Inr: "alloc w g = (Inr p, g') \<Longrightarrow>
      p \<in> range_of g - held g \<and> held g' = insert p (held g) \<and> range_of g' = range_of g"
    and alloc_Inl: "alloc w g = (Inl e, g') \<Longrightarrow> g' = g"
    and alloc_any: "range_of g - held g \<noteq> {} \<longleftrightarrow> (\<exists>p g'. alloc 0 g = (Inr p, g'))"
    and free_held: "held (free p g) = held g - {p}" "range_of (free p g) = range_of g"
begin

fun alloc_many :: "nat \<Rightarrow> 'p \<Rightarrow> int list \<times> 'p" where
  "alloc_many 0 g = ([], g)"
| "alloc_many (Suc n) g =
     (case alloc 0 g of
        (Inl e, g1) \<Rightarrow> ([], g1)
      | (Inr p, g1) \<Rightarrow> (case alloc_many n g1 of (ps, g2) \<Rightarrow> (p # ps, g2)))"

lemma alloc_many_spec:
  assumes "alloc_many n g = (ps, g')"
  shows "distinct ps \<and> set ps \<subseteq> range_of g - held g \<and> held g' = held g \<union> set ps
       \<and> range_of g' = range_of g \<and> length ps = min n (card (range_of g - held g))"
  using assms
proof (induction n arbitrary: g ps)
  case 0
  then show ?case by simp
next
  case (Suc n)
  show ?case
  proof (cases "alloc 0 g")
    case (Pair r g1)
    show ?thesis
    proof (cases r)
      case (Inl e)
      with Pair have "range_of g - held g = {}" "g1 = g"
        using alloc_any [of g] alloc_Inl [of 0 g e g1] by auto
      moreover from this have "card (range_of g - held g) = 0" by (simp only: card.empty)
      ultimately show ?thesis using Suc.prems Pair Inl by simp
    next
      case (Inr p)
      obtain qs where qs: "alloc_many n g1 = (qs, g')" "ps = p # qs"
        using Suc.prems Pair Inr by (auto split: prod.splits)
      have p: "p \<in> range_of g - held g" "held g1 = insert p (held g)" "range_of g1 = range_of g"
        using alloc_Inr [of 0 g p g1] Pair Inr by auto
      have "range_of g1 - held g1 = (range_of g - held g) - {p}" using p by auto
      then have "Suc (card (range_of g1 - held g1)) = card (range_of g - held g)"
        using card_Suc_Diff1 [of "range_of g - held g" p] p(1) finite_range [of g] by simp
      with Suc.IH [OF qs(1)] p qs(2) show ?thesis by auto
    qed
  qed
qed

lemma free_then_available:
  assumes "p \<in> range_of g"
  shows "\<exists>q g'. alloc 0 (free p g) = (Inr q, g')"
  using assms alloc_any [of "free p g"] free_held by blast

end

lemma reserve_any:
  "{pmMin pm..pmMax pm} - used_set proto pm \<noteq> {} \<longleftrightarrow> (\<exists>p pm'. reserve proto 0 pm = (Inr p, pm'))"
proof (cases "reserve proto 0 pm")
  case (Pair r pm')
  show ?thesis
  proof (cases r)
    case (Inl e)
    with Pair have "{pmMin pm..pmMax pm} \<subseteq> used_set proto pm" by (simp add: reserve_Inl)
    with Pair Inl show ?thesis by auto
  next
    case (Inr p)
    with Pair reserve_Inr(2-4) [of proto 0 pm p pm'] show ?thesis by auto
  qed
qed

lemma reserve_port_pool:
  "port_pool (reserve proto) (pm_release proto) (used_set proto) (\<lambda>pm. {pmMin pm..pmMax pm})"
proof
  fix g g' :: portManager and p w e
  show "finite {pmMin g..pmMax g}" by simp
  show "p \<in> {pmMin g..pmMax g} - used_set proto g \<and> used_set proto g' = insert p (used_set proto g)
      \<and> {pmMin g'..pmMax g'} = {pmMin g..pmMax g}" if "reserve proto w g = (Inr p, g')"
    using reserve_Inr [OF that] by simp
  show "g' = g" if "reserve proto w g = (Inl e, g')" using that by (simp add: reserve_Inl)
  show "({pmMin g..pmMax g} - used_set proto g \<noteq> {}) = (\<exists>p g'. reserve proto 0 g = (Inr p, g'))"
    by (rule reserve_any)
qed simp_all

interpretation tcp_pool: port_pool "reserve ''tcp''" "pm_release ''tcp''" "used_set ''tcp''" "\<lambda>pm. {pmMin pm..pmMax pm}"
  by (rule reserve_port_pool)

interpretation udp_pool: port_pool "reserve ''udp''" "pm_release ''udp''" "used_set ''udp''" "\<lambda>pm. {pmMin pm..pmMax pm}"
  by (rule reserve_port_pool)

section \<open>Properties\<close>

text \<open>Opening a public port never takes a port from another tunnel. Whatever the operating system
  answers, a successful \<^verbatim>\<open>openPort\<close> returns a port of the configured range that was not reserved, the
  requested one if one was requested, with its handle open; a failed one leaves the pool as it
  was. Both keep every open handle on a reserved port and every reserved port in the range.\<close>

theorem openPort_exclusive:
  assumes "pm_wf pm" "proto = ''tcp'' \<or> proto = ''udp''"
  shows "case openPort listen proto want pm of
           (Inr p, pm') \<Rightarrow> p \<in> {pmMin pm..pmMax pm} - used_set proto pm \<and> (want = 0 \<or> p = want)
              \<and> used_set proto pm' = insert p (used_set proto pm)
              \<and> (\<exists>h. listen proto p = Inr h \<and> pm_open proto pm' = (pm_open proto pm)(p \<mapsto> h)) \<and> pm_wf pm'
         | (Inl e, pm') \<Rightarrow> used_set proto pm' = used_set proto pm
              \<and> pm_open proto pm' = pm_open proto pm \<and> pm_wf pm'"
proof (cases "openPort listen proto want pm")
  case (Pair r pm')
  have wf: "pm_wf pm'" using pm_wf_openPort [OF assms, of listen want] Pair by simp
  show ?thesis
  proof (cases r)
    case (Inl e)
    with Pair wf openPort_error [OF Pair [unfolded Inl] assms(2,1)] show ?thesis by simp
  next
    case (Inr p)
    note ok = openPort_ok [OF Pair [unfolded Inr] assms(2)]
    have "want = 0 \<or> p = want" using ok(7) by blast
    with Pair Inr wf ok(1,2,4) show ?thesis by simp
  qed
qed

theorem openPort_exclusive_witness:
  "case openPort (\<lambda>_ p. Inr (nat p)) ''udp'' 0 (newPortManager 20000 20099) of
     (Inr p, pm') \<Rightarrow> p \<in> {20000..20099} \<and> pm_open ''udp'' pm' p = Some (nat p) \<and> pm_wf pm'
   | (Inl e, pm') \<Rightarrow> used_set ''udp'' pm' = {}"
  using openPort_exclusive [of "newPortManager 20000 20099" "''udp''" 0 "\<lambda>_ p. Inr (nat p)"] pm_wf_new
  by (simp add: newPortManager_def used_set_def pm_used_def is_used_def split: prod.splits sum.splits)

text \<open>The pool hands out its whole range and no more: asking \<open>n\<close> times for any TCP port of a pool
  where some are free yields the smaller of \<open>n\<close> and the number of free ports, all different,
  all free before, and all in the range.\<close>

theorem reserve_exhausts_range:
  "case tcp_pool.alloc_many n pm of
     (ps, pm') \<Rightarrow> distinct ps \<and> set ps \<subseteq> {pmMin pm..pmMax pm} - used_set ''tcp'' pm
       \<and> used_set ''tcp'' pm' = used_set ''tcp'' pm \<union> set ps
       \<and> length ps = min n (card ({pmMin pm..pmMax pm} - used_set ''tcp'' pm))"
  using tcp_pool.alloc_many_spec [of n pm] by (auto split: prod.splits)

end
