(* ===== verification/Edge.thy ===== *)
theory Edge
  imports Framing Hub Hosts Metering Ports
begin

text \<open>
  The edge server: the session life cycle of \<^verbatim>\<open>internal/server/session.go\<close> and the bind, unbind and
  release handlers, the TLS issuance gate and the drain of \<^verbatim>\<open>internal/server/server.go\<close>. The state is
  the \<^verbatim>\<open>Server\<close> struct with the heaps of tunnels and sessions its pointers refer to. What the
  handlers ask of their environment (the clock, \<^verbatim>\<open>rand.Read\<close>, the operating system's listeners, the
  entitlements client) is the record \<open>Env\<close>, one per call. A handler runs as one step; the hub
  operations it is made of are atomic in the code, and \<open>Hub\<close> shows what survives their interleaving.
\<close>

section \<open>Messages and state\<close>

record BindTunnel =
  bClientTunnelId :: string
  bType :: TunnelType
  bSubdomain :: string
  bCustomDomain :: string
  bRemotePort :: "32 word"
  bOptions :: "(string, string) gomap"

record BindResp =
  rClientTunnelId :: string
  rOk :: bool
  rPublicUrl :: string
  rAssignedHost :: string
  rAssignedPort :: "32 word"
  rError :: "ErrorMsg option"

record Hello =
  ProtocolVersion :: string
  ApiKey :: string

record AuthResp =
  aOk :: bool
  aAccountId :: string
  aPlan :: string
  aSessionId :: string
  aError :: "ErrorMsg option"

datatype ControlMsg =
    MsgHello Hello
  | MsgAuthResp AuthResp
  | MsgBind BindTunnel
  | MsgBindResp BindResp
  | MsgUnbind string
  | MsgPing int
  | MsgPong int
  | MsgError ErrorMsg
  | MsgShutdown string int

record EdgeConfig =
  BaseDomain :: string
  cfgEdgeID :: string
  Region :: string
  HeartbeatInterval :: duration
  ForwardAddr :: string
  InternalToken :: string
  SiteUpstream :: string
  AppUpstream :: string
  APIUpstream :: string
  AltSvc :: string

record TunnelReport =
  trAction :: string
  trEdgeID :: string
  trSessionID :: string
  trTunnelID :: string
  trAccountID :: string
  trType :: string
  trPublicURL :: string
  trHost :: string
  trPort :: int
  trRegion :: string
  trClientIP :: string
  trBytesIn :: int
  trBytesOut :: int
  trRequests :: int
  trAt :: gotime

record Server =
  cfg :: EdgeConfig
  hub :: Hub
  reg :: InMemoryRegistry
  pman :: portManager
  usage :: usageAgg
  reporter :: bool
  reports :: "TunnelReport list"
  TunnelsActive :: int
  SessionsActive :: int
  draining :: bool
  bts :: theap
  btNext :: tref
  ags :: "sref \<Rightarrow> agentSession"
  agNext :: sref

record Env =
  now :: gotime
  rnd :: "nat \<Rightarrow> byte list"
  listen :: "string \<Rightarrow> int \<Rightarrow> string + nat"
  checkBind :: "BindRequest \<Rightarrow> string + Decision"

section \<open>Bind\<close>

definition bindErr :: "BindTunnel \<Rightarrow> string \<Rightarrow> string \<Rightarrow> BindResp" where
  "bindErr b code msg =
     \<lparr>rClientTunnelId = bClientTunnelId b, rOk = False, rPublicUrl = '''', rAssignedHost = '''',
      rAssignedPort = 0, rError = Some (NewError code msg)\<rparr>"

text \<open>\<^verbatim>\<open>allocateHost\<close>: an error code or a host. Draw \<open>i\<close> of the loop reads the bytes \<open>rnd e i\<close>.\<close>

definition allocateHost :: "Env \<Rightarrow> BindTunnel \<Rightarrow> Decision \<Rightarrow> Server \<Rightarrow> string + string" where
  "allocateHost e b dec s =
     (if bCustomDomain b \<noteq> '''' then
        if \<not> AllowCustomDomains (dLimits dec) then Inl CodePlanForbids
        else Inr (to_lower (bCustomDomain b))
      else
        let sub = (if bSubdomain b = '''' \<and> AssignedSubdomain dec \<noteq> '''' then AssignedSubdomain dec
                   else bSubdomain b) in
        if sub \<noteq> '''' then
          if \<not> AllowReservedSubdomain (dLimits dec) then Inl CodeSubdomainForbidden
          else
            let host = to_lower sub @ ''.'' @ BaseDomain (cfg s) in
            if LookupHost host (hub s) \<noteq> None then Inl CodeSubdomainTaken else Inr host
        else
          (case find (\<lambda>host. LookupHost host (hub s) = None)
                  (map (\<lambda>i. randSubdomain (rnd e i) @ ''.'' @ BaseDomain (cfg s)) [0..<8]) of
             Some host \<Rightarrow> Inr host
           | None \<Rightarrow> Inl CodeInternal))"

text \<open>Assigning fields of the tunnel behind a pointer.\<close>

definition upd_bt :: "tref \<Rightarrow> (boundTunnel \<Rightarrow> boundTunnel) \<Rightarrow> Server \<Rightarrow> Server" where
  "upd_bt t f s = s\<lparr>bts := (bts s)(t := f (bts s t))\<rparr>"

definition trackTunnel :: "sref \<Rightarrow> tref \<Rightarrow> Server \<Rightarrow> Server" where
  "trackTunnel a t s =
     s\<lparr>ags := (ags s)(a := (ags s a)\<lparr>tunnels := gset (clientTunnelID (bts s t)) t (tunnels (ags s a))\<rparr>)\<rparr>"

definition reportTunnelOpen :: "sref \<Rightarrow> tref \<Rightarrow> Server \<Rightarrow> Server" where
  "reportTunnelOpen a t s =
     (if \<not> reporter s then s
      else
        let bt = bts s t in
        s\<lparr>reports := reports s @
           [\<lparr>trAction = ''open'', trEdgeID = cfgEdgeID (cfg s), trSessionID = sessionID (ags s a),
             trTunnelID = clientTunnelID bt, trAccountID = btAccountID bt, trType = protoForType (ttype bt),
             trPublicURL = publicURL bt, trHost = btHost bt, trPort = btPort bt, trRegion = Region (cfg s),
             trClientIP = hostOnly (asRemoteAddr (ags s a)), trBytesIn = 0, trBytesOut = 0, trRequests = 0,
             trAt = startedAt bt\<rparr>]\<rparr>)"

text \<open>The steps the two bind paths share once the route is in the hub: track the tunnel in its
  session, mirror the route in the registry, count it, report it.\<close>

definition finishBind :: "Env \<Rightarrow> sref \<Rightarrow> tref \<Rightarrow> string \<Rightarrow> Route \<Rightarrow> Server \<Rightarrow> Server" where
  "finishBind e a t url route s =
     (let s1 = upd_bt t (\<lambda>bt. bt\<lparr>publicURL := url, startedAt := now e\<rparr>) s;
          s2 = trackTunnel a t s1;
          s3 = s2\<lparr>reg := reg_Bind (now e) route
                    \<lparr>EdgeID = cfgEdgeID (cfg s), SessionID = sessionID (ags s a)\<rparr>
                    (2 * HeartbeatInterval (cfg s)) (reg s2)\<rparr>;
          s4 = s3\<lparr>TunnelsActive := TunnelsActive s3 + 1\<rparr>
      in reportTunnelOpen a t s4)"

definition bindHostTunnel ::
  "Env \<Rightarrow> sref \<Rightarrow> BindTunnel \<Rightarrow> tref \<Rightarrow> Decision \<Rightarrow> Server \<Rightarrow> BindResp \<times> Server" where
  "bindHostTunnel e a b t dec s =
     (case allocateHost e b dec s of
        Inl code \<Rightarrow> (bindErr b code ''could not allocate hostname'', s)
      | Inr host \<Rightarrow>
          let s1 = upd_bt t (\<lambda>bt. bt\<lparr>btHost := host\<rparr>) s in
          (case bindHost (bts s1) t (hub s1) of
             Inl err \<Rightarrow> (bindErr b CodeSubdomainTaken err, s1)
           | Inr h \<Rightarrow>
               (\<lparr>rClientTunnelId = bClientTunnelId b, rOk = True, rPublicUrl = ''https://'' @ host,
                 rAssignedHost = host, rAssignedPort = 0, rError = None\<rparr>,
                finishBind e a t (''https://'' @ host) (host_route host) (s1\<lparr>hub := h\<rparr>))))"

definition bindPortTunnel ::
  "Env \<Rightarrow> sref \<Rightarrow> BindTunnel \<Rightarrow> tref \<Rightarrow> string \<Rightarrow> Server \<Rightarrow> BindResp \<times> Server" where
  "bindPortTunnel e a b t typ s =
     (case openPort (listen e) typ (uint (bRemotePort b)) (pman s) of
        (Inl errPortUnavailable, pm) \<Rightarrow> (bindErr b CodePortUnavailable ''no ports available'', s\<lparr>pman := pm\<rparr>)
      | (Inl (errListen msg), pm) \<Rightarrow> (bindErr b CodeInternal msg, s\<lparr>pman := pm\<rparr>)
      | (Inr port, pm) \<Rightarrow>
          let s1 = upd_bt t (\<lambda>bt. bt\<lparr>btPort := port\<rparr>) (s\<lparr>pman := pm\<rparr>) in
          (case bindPort (bts s1) t (hub s1) of
             Inl err \<Rightarrow> (bindErr b CodePortUnavailable err, s1\<lparr>pman := pm_release typ port (pman s1)\<rparr>)
           | Inr h \<Rightarrow>
               let url = typ @ ''://'' @ BaseDomain (cfg s) @ '':'' @ show_int port in
               (\<lparr>rClientTunnelId = bClientTunnelId b, rOk = True, rPublicUrl = url,
                 rAssignedHost = BaseDomain (cfg s), rAssignedPort = word_of_int port, rError = None\<rparr>,
                finishBind e a t url (port_route typ port) (s1\<lparr>hub := h\<rparr>))))"

definition bindRequest :: "sref \<Rightarrow> BindTunnel \<Rightarrow> Server \<Rightarrow> BindRequest" where
  "bindRequest a b s =
     \<lparr>brAPIKey = asApiKey (ags s a), brType = protoForType (bType b), brSubdomain = bSubdomain b,
      brCustomHost = bCustomDomain b, brRemotePort = uint (bRemotePort b), brRegion = Region (cfg s)\<rparr>"

text \<open>\<^verbatim>\<open>bt := &boundTunnel{...}\<close>: allocate the next reference.\<close>

definition newTunnel :: "sref \<Rightarrow> BindTunnel \<Rightarrow> Decision \<Rightarrow> Server \<Rightarrow> tref \<times> Server" where
  "newTunnel a b dec s =
     (btNext s,
      s\<lparr>bts := (bts s)(btNext s := zeroTunnel\<lparr>clientTunnelID := bClientTunnelId b,
            btAccountID := firstNonEmpty (dAccountID dec) (asAccountID (ags s a)),
            btPlan := firstNonEmpty (dPlan dec) (asPlan (ags s a)),
            ttype := bType b, btOptions := bOptions b, btSession := a\<rparr>),
        btNext := btNext s + 1\<rparr>)"

definition handleBind :: "Env \<Rightarrow> sref \<Rightarrow> BindTunnel \<Rightarrow> Server \<Rightarrow> BindResp \<times> Server" where
  "handleBind e a b s =
     (let typ = protoForType (bType b) in
      case checkBind e (bindRequest a b s) of
        Inl err \<Rightarrow> (bindErr b CodeInternal ''entitlement check failed'', s)
      | Inr dec \<Rightarrow>
          if \<not> Allow dec then
            (bindErr b (if ErrorCode dec = '''' then CodePlanForbids else ErrorCode dec) (ErrorMessage dec), s)
          else if bType b = TunnelType_TCP \<and> \<not> AllowTCP (dLimits dec) then
            (bindErr b CodePlanForbids ''TCP tunnels not allowed on this plan'', s)
          else if bType b = TunnelType_UDP \<and> \<not> AllowUDP (dLimits dec) then
            (bindErr b CodePlanForbids ''UDP tunnels not allowed on this plan'', s)
          else
            (case newTunnel a b dec s of
               (t, s1) \<Rightarrow>
                 if bType b = TunnelType_TCP \<or> bType b = TunnelType_UDP
                 then bindPortTunnel e a b t typ s1
                 else bindHostTunnel e a b t dec s1))"

section \<open>Unbind and release\<close>

definition reportTunnelClose :: "Env \<Rightarrow> tref \<Rightarrow> Server \<Rightarrow> Server" where
  "reportTunnelClose e t s =
     (if \<not> reporter s then s
      else
        let bt = bts s t in
        s\<lparr>reports := reports s @
           [\<lparr>trAction = ''close'', trEdgeID = cfgEdgeID (cfg s), trSessionID = sessionID (ags s (btSession bt)),
             trTunnelID = clientTunnelID bt, trAccountID = btAccountID bt, trType = protoForType (ttype bt),
             trPublicURL = '''', trHost = '''', trPort = 0, trRegion = Region (cfg s), trClientIP = '''',
             trBytesIn = btBytesIn bt, trBytesOut = btBytesOut bt, trRequests = btRequests bt,
             trAt = now e\<rparr>]\<rparr>)"

definition releaseTunnel :: "Env \<Rightarrow> tref \<Rightarrow> Server \<Rightarrow> Server" where
  "releaseTunnel e t s =
     (let bt = bts s t; typ = protoForType (ttype bt);
          s1 = s\<lparr>hub := unbind bt (hub s)\<rparr>;
          s2 = (if btHost bt \<noteq> '''' then s1\<lparr>reg := reg_Unbind (host_route (btHost bt)) (reg s1)\<rparr> else s1);
          s3 = (if btPort bt \<noteq> 0
                then s2\<lparr>pman := pm_release typ (btPort bt) (pman s2),
                        reg := reg_Unbind (port_route typ (btPort bt)) (reg s2)\<rparr>
                else s2);
          s4 = s3\<lparr>TunnelsActive := TunnelsActive s3 - 1\<rparr>
      in reportTunnelClose e t s4)"

definition upd_ag :: "sref \<Rightarrow> (agentSession \<Rightarrow> agentSession) \<Rightarrow> Server \<Rightarrow> Server" where
  "upd_ag a f s = s\<lparr>ags := (ags s)(a := f (ags s a))\<rparr>"

definition handleUnbind :: "Env \<Rightarrow> sref \<Rightarrow> string \<Rightarrow> Server \<Rightarrow> Server" where
  "handleUnbind e a cid s =
     (let s1 = upd_ag a (\<lambda>ag. ag\<lparr>tunnels := gdel cid (tunnels ag)\<rparr>) s in
      case gget (tunnels (ags s a)) cid of
        None \<Rightarrow> s1
      | Some t \<Rightarrow> releaseTunnel e t s1)"

definition recordUsage :: "Env \<Rightarrow> tref \<Rightarrow> int \<Rightarrow> int \<Rightarrow> int \<Rightarrow> Server \<Rightarrow> Server" where
  "recordUsage e t i ou r s =
     upd_bt t (addTraffic i ou r)
       (s\<lparr>usage := usage_record (now e) (btAccountID (bts s t)) (clientTunnelID (bts s t)) i ou r (usage s)\<rparr>)"

section \<open>Sessions\<close>

definition protocolVersion :: string where
  "protocolVersion = ''1''"

definition writeAuthErr :: "string \<Rightarrow> string \<Rightarrow> AuthResp" where
  "writeAuthErr code msg =
     \<lparr>aOk = False, aAccountId = '''', aPlan = '''', aSessionId = '''', aError = Some (NewError code msg)\<rparr>"

text \<open>The first control message must be a \<^verbatim>\<open>Hello\<close>.\<close>

definition readHello :: "ControlMsg \<Rightarrow> Hello option" where
  "readHello m = (case m of MsgHello h \<Rightarrow> Some h | _ \<Rightarrow> None)"

text \<open>\<^verbatim>\<open>newSessionID\<close>: the hexadecimal form of eight random bytes.\<close>

definition newSessionID :: "byte list \<Rightarrow> string" where
  "newSessionID buf = ''sess_'' @ hex_encode buf"

text \<open>
  \<^verbatim>\<open>serveSession\<close> up to the control loop. \<open>authn\<close> is \<^verbatim>\<open>s.ent.Authenticate\<close>, \<open>wr\<close> tells whether the
  \<^verbatim>\<open>AuthResp\<close> can be written. The result is the response written, if any, the session if one is up,
  and the server.
\<close>

definition openSession ::
  "(string \<Rightarrow> string + (string \<times> string)) \<Rightarrow> bool \<Rightarrow> byte list \<Rightarrow> string \<Rightarrow> ControlMsg \<Rightarrow> Server
     \<Rightarrow> AuthResp option \<times> sref option \<times> Server" where
  "openSession authn wr idbytes raddr first s =
     (case readHello first of
        None \<Rightarrow> (None, None, s)
      | Some hello \<Rightarrow>
          if ProtocolVersion hello \<noteq> '''' \<and> ProtocolVersion hello \<noteq> protocolVersion
          then (Some (writeAuthErr CodeVersionUnsupported ''unsupported protocol version''), None, s)
          else
            (case authn (ApiKey hello) of
               Inl err \<Rightarrow>
                 (Some (writeAuthErr (if ApiKey hello = '''' then CodeAuthRequired else CodeAuthInvalid)
                    ''authentication failed''), None, s)
             | Inr (accountID, plan) \<Rightarrow>
                 let a = agNext s;
                     sid = newSessionID idbytes;
                     s1 = s\<lparr>ags := (ags s)(a := \<lparr>sessionID = sid, asAccountID = accountID, asPlan = plan,
                              asApiKey = ApiKey hello, asRemoteAddr = raddr, tunnels = []\<rparr>),
                           agNext := agNext s + 1\<rparr>;
                     resp = \<lparr>aOk = True, aAccountId = accountID, aPlan = plan, aSessionId = sid, aError = None\<rparr>
                 in if \<not> wr then (None, None, s1)
                    else (Some resp, Some a,
                          s1\<lparr>hub := addSession sid a (hub s1), SessionsActive := SessionsActive s1 + 1\<rparr>)))"

text \<open>One turn of \<^verbatim>\<open>controlLoop\<close>: the message to write back, if any, and the server.\<close>

definition controlTurn :: "Env \<Rightarrow> sref \<Rightarrow> ControlMsg \<Rightarrow> Server \<Rightarrow> ControlMsg option \<times> Server" where
  "controlTurn e a m s =
     (case m of
        MsgBind b \<Rightarrow> (case handleBind e a b s of (resp, s') \<Rightarrow> (Some (MsgBindResp resp), s'))
      | MsgUnbind cid \<Rightarrow> (None, handleUnbind e a cid s)
      | MsgPing ts \<Rightarrow> (Some (MsgPong ts), s)
      | _ \<Rightarrow> (None, s))"

definition teardownSession :: "Env \<Rightarrow> sref \<Rightarrow> Server \<Rightarrow> Server" where
  "teardownSession e a s =
     (let ts = map snd (tunnels (ags s a));
          s1 = upd_ag a (\<lambda>ag. ag\<lparr>tunnels := []\<rparr>) s;
          s2 = fold (releaseTunnel e) ts s1
      in s2\<lparr>hub := removeSession (bts s2) (ags s2 a) (hub s2)\<rparr>)"

text \<open>The deferred function of \<^verbatim>\<open>serveSession\<close>.\<close>

definition sessionDown :: "Env \<Rightarrow> sref \<Rightarrow> Server \<Rightarrow> Server" where
  "sessionDown e a s =
     (let s1 = teardownSession e a s in s1\<lparr>SessionsActive := SessionsActive s1 - 1\<rparr>)"

text \<open>
  \<^verbatim>\<open>controlLoop\<close> on the messages the agent sends, each with its environment and whether a response
  can be written (a failed write of a \<^verbatim>\<open>BindResp\<close> ends the loop, one of a \<^verbatim>\<open>Pong\<close> does not); the end
  of the list is the read error that ends the session.
\<close>

fun controlLoop :: "sref \<Rightarrow> (Env \<times> bool \<times> ControlMsg) list \<Rightarrow> Server \<Rightarrow> ControlMsg list \<times> Server" where
  "controlLoop a [] s = ([], s)"
| "controlLoop a ((e, wr, m) # ms) s =
     (case controlTurn e a m s of
        (None, s') \<Rightarrow> controlLoop a ms s'
      | (Some r, s') \<Rightarrow>
          if wr then (case controlLoop a ms s' of (rs, s2) \<Rightarrow> (r # rs, s2))
          else (case m of MsgBind b \<Rightarrow> ([], s') | _ \<Rightarrow> controlLoop a ms s'))"

section \<open>TLS issuance and drain\<close>

definition allowTLSName :: "gotime \<Rightarrow> string \<Rightarrow> Server \<Rightarrow> bool" where
  "allowTLSName t name s =
     (let n = to_lower (trim_suffix name ''.''); base = to_lower (BaseDomain (cfg s)) in
      if n = base \<or> has_suffix n (''.'' @ base) then True
      else if LookupHost n (hub s) \<noteq> None then True
      else reg_Lookup t (host_route n) (reg s) \<noteq> None)"

definition tlsDecision :: "gotime \<Rightarrow> string \<Rightarrow> Server \<Rightarrow> string option" where
  "tlsDecision t name s =
     (if allowTLSName t name s then None else Some (''server: TLS issuance not allowed for '' @ quoted name))"

definition forwardingEnabled :: "EdgeConfig \<Rightarrow> bool" where
  "forwardingEnabled c \<longleftrightarrow> ForwardAddr c \<noteq> '''' \<and> InternalToken c \<noteq> ''''"

definition edgeTTL :: "EdgeConfig \<Rightarrow> duration" where
  "edgeTTL c = (if HeartbeatInterval c \<le> 0 then 0 else 2 * HeartbeatInterval c)"

text \<open>
  \<^verbatim>\<open>drain\<close>: the sessions that are told to shut down (with the message), the usage windows flushed by
  \<^verbatim>\<open>usage.Stop\<close>, and the server. Closing the listeners is not visible in the state.
\<close>

definition drain :: "Env \<Rightarrow> duration \<Rightarrow> Server \<Rightarrow> (sref \<times> ControlMsg) list \<times> Usage list \<times> Server" where
  "drain e drainTimeout s =
     (let s1 = s\<lparr>draining := True\<rparr>;
          s2 = (if forwardingEnabled (cfg s) then s1\<lparr>reg := UnregisterEdge (cfgEdgeID (cfg s)) (reg s1)\<rparr> else s1);
          msg = MsgShutdown ''edge draining'' (unixMilli (now e + drainTimeout));
          told = map (\<lambda>a. (a, msg)) (SnapshotSessions (hub s2));
          s3 = s2\<lparr>pman := closeAll (pman s2)\<rparr>
      in case flush (now e) (usage s3) of (ws, u) \<Rightarrow> (told, ws, s3\<lparr>usage := u\<rparr>))"

text \<open>\<^verbatim>\<open>New\<close> without the parts that stay outside (certificates, metrics, the proxy client).\<close>

definition newServer :: "EdgeConfig \<Rightarrow> int \<Rightarrow> int \<Rightarrow> bool \<Rightarrow> Server" where
  "newServer c portMin portMax rep =
     \<lparr>cfg = c, hub = NewHub, reg = NewInMemoryRegistry, pman = newPortManager portMin portMax,
      usage = newUsageAgg, reporter = rep, reports = [], TunnelsActive = 0, SessionsActive = 0,
      draining = False, bts = (\<lambda>_. zeroTunnel), btNext = 0,
      ags = (\<lambda>_. \<lparr>sessionID = '''', asAccountID = '''', asPlan = '''', asApiKey = '''',
                   asRemoteAddr = '''', tunnels = []\<rparr>), agNext = 0\<rparr>"

end
