(* ===== verification/Config.thy ===== *)
theory Config
  imports Edge
begin

text \<open>
  Start-up configuration of the two servers: \<^verbatim>\<open>LoadConfig\<close> of the control plane
  (\<^verbatim>\<open>internal/api/config.go\<close>) and of the edge (\<^verbatim>\<open>internal/server/config.go\<close>). The environment is a
  function \<open>genv\<close> (\<^verbatim>\<open>os.LookupEnv\<close>). Each problem a production configuration is refused for is a
  constructor instead of its message.
\<close>

section \<open>Reading the environment\<close>

type_synonym genv = "string \<Rightarrow> string option"

definition env_str :: "genv \<Rightarrow> string \<Rightarrow> string \<Rightarrow> string" where
  "env_str genv key cur =
     (case genv key of Some v \<Rightarrow> if trim_space v \<noteq> '''' then trim_space v else cur | None \<Rightarrow> cur)"

text \<open>\<^verbatim>\<open>strconv.Atoi\<close> on a 64-bit platform.\<close>

definition atoi :: "string \<Rightarrow> int option" where
  "atoi s =
     (let (neg, ds) = (case s of
            c # cs \<Rightarrow> if c = CHR ''-'' then (True, cs) else if c = CHR ''+'' then (False, cs) else (False, s)
          | [] \<Rightarrow> (False, []))
      in if ds = [] \<or> (\<exists>c \<in> set ds. \<not> (48 \<le> (of_char c :: nat) \<and> (of_char c :: nat) \<le> 57)) then None
         else
           let n = (if neg then - int (digits_val ds) else int (digits_val ds)) in
           if n < - (2 ^ 63) \<or> n \<ge> 2 ^ 63 then None else Some n)"

lemma show_int_chars: "c \<in> set (show_int i) \<Longrightarrow> c = CHR ''-'' \<or> 48 \<le> (of_char c :: nat) \<and> (of_char c :: nat) \<le> 57"
  using show_nat_digits [of c] by (auto simp: show_int_def split: if_splits)

lemma show_nat_nonempty: "show_nat n \<noteq> []"
  by (subst show_nat.simps) simp

lemma atoi_show_int: "- (2 ^ 63) \<le> i \<Longrightarrow> i < 2 ^ 63 \<Longrightarrow> atoi (show_int i) = Some i"
proof -
  have d: "c \<in> set (show_nat n) \<Longrightarrow> c \<noteq> CHR ''-'' \<and> c \<noteq> CHR ''+''" for c n
    using show_nat_digits [of c n] by auto
  obtain c cs where n: "show_nat (nat i) = c # cs" using show_nat_nonempty [of "nat i"] by (cases "show_nat (nat i)") auto
  have "c \<noteq> CHR ''-'' \<and> c \<noteq> CHR ''+''" using d [of c "nat i"] n by simp
  moreover have "digits_val (c # cs) = nat i" using digits_val_show_nat [of "nat i"] n by simp
  moreover have "\<not> (\<exists>c \<in> set (show_nat n). \<not> (48 \<le> (of_char c :: nat) \<and> (of_char c :: nat) \<le> 57))" for n
    using show_nat_digits by blast
  note this [of "nat i"] this [of "nat (- i)"]
  moreover assume "- (2 ^ 63) \<le> i" "i < 2 ^ 63"
  ultimately show ?thesis
  proof (cases "i < 0")
    case True
    with \<open>- (2 ^ 63) \<le> i\<close> show ?thesis
      using show_nat_nonempty [of "nat (- i)"] show_nat_digits [of _ "nat (- i)"]
      by (simp add: atoi_def show_int_def)
  next
    case False
    with \<open>i < 2 ^ 63\<close> show ?thesis
      using show_nat_digits [of _ "nat i"] \<open>c \<noteq> CHR ''-'' \<and> c \<noteq> CHR ''+''\<close> \<open>digits_val (c # cs) = nat i\<close>
      by (simp add: atoi_def show_int_def n)
  qed
qed

definition env_int :: "genv \<Rightarrow> string \<Rightarrow> int \<Rightarrow> int" where
  "env_int genv key cur =
     (case genv key of
        Some v \<Rightarrow> (case atoi (trim_space v) of Some n \<Rightarrow> n | None \<Rightarrow> cur)
      | None \<Rightarrow> cur)"

definition truthy :: "string \<Rightarrow> bool" where
  "truthy v \<longleftrightarrow> to_lower (trim_space v) \<in> {''1'', ''true'', ''yes'', ''on''}"

definition env_bool :: "genv \<Rightarrow> string \<Rightarrow> bool \<Rightarrow> bool" where
  "env_bool genv key def =
     (case genv key of
        None \<Rightarrow> def
      | Some v \<Rightarrow>
          if truthy v then True
          else if to_lower (trim_space v) \<in> {''0'', ''false'', ''no'', ''off'', ''''} then False
          else def)"

section \<open>The control plane\<close>

record ApiConfig =
  apEnv :: string
  apAddr :: string
  apMetricsAddr :: string
  DatabaseURL :: string
  apRedisURL :: string
  apBaseDomain :: string
  DBMaxOpenConns :: int
  DBMaxIdleConns :: int
  PublicURL :: string
  AppURL :: string
  QRURL :: string
  JWTSecret :: string
  apInternalToken :: string
  GitHubClientID :: string
  GitHubClientSecret :: string
  GoogleClientID :: string
  GoogleClientSecret :: string
  AdminUser :: string
  AdminPassword :: string
  DevAuth :: bool
  TrustProxy :: bool
  GeoIPHeader :: string
  GeoIPAPI :: string
  Regions :: string

definition devJWTSecret :: string where "devJWTSecret = ''dev-insecure-secret-change-me''"
definition devInternalToken :: string where "devInternalToken = ''dev-internal-token''"
definition minJWTSecretLen :: nat where "minJWTSecretLen = 32"

definition IsProduction :: "ApiConfig \<Rightarrow> bool" where
  "IsProduction c \<longleftrightarrow> to_lower (apEnv c) = ''production''"

definition DefaultApiConfig :: ApiConfig where
  "DefaultApiConfig =
     \<lparr>apEnv = ''development'', apAddr = '':8080'', apMetricsAddr = '':9090'', DatabaseURL = '''', apRedisURL = '''',
      apBaseDomain = ''lvh.me'', DBMaxOpenConns = 20, DBMaxIdleConns = 20, PublicURL = ''http://localhost:8080'',
      AppURL = '''', QRURL = '''', JWTSecret = devJWTSecret, apInternalToken = devInternalToken,
      GitHubClientID = '''', GitHubClientSecret = '''', GoogleClientID = '''', GoogleClientSecret = '''',
      AdminUser = '''', AdminPassword = '''', DevAuth = True, TrustProxy = False, GeoIPHeader = '''',
      GeoIPAPI = '''', Regions = ''''\<rparr>"

datatype cfg_problem =
    DefaultJWTSecret | ShortJWTSecret | WeakInternalToken | DevAuthEnabled | NoDatabase | PublicURLNotHTTPS
  | StubEntitlements | NoACMEEmail

datatype cfg_error =
    NoJWTSecret
  | NoBaseDomain
  | NoAPIURL
  | PortRange int int
  | Insecure "cfg_problem list"

definition prob :: "bool \<Rightarrow> cfg_problem \<Rightarrow> cfg_problem list" where
  "prob b p = (if b then [p] else [])"

definition validate :: "ApiConfig \<Rightarrow> cfg_error option" where
  "validate c =
     (if JWTSecret c = '''' then Some NoJWTSecret
      else if \<not> IsProduction c then None
      else
        let problems =
          prob (JWTSecret c = devJWTSecret) DefaultJWTSecret @
          prob (length (JWTSecret c) < minJWTSecretLen) ShortJWTSecret @
          prob (apInternalToken c = '''' \<or> apInternalToken c = devInternalToken) WeakInternalToken @
          prob (DevAuth c) DevAuthEnabled @
          prob (DatabaseURL c = '''') NoDatabase @
          prob (\<not> has_prefix (PublicURL c) ''https://'') PublicURLNotHTTPS
        in if problems \<noteq> [] then Some (Insecure problems) else None)"

definition realBase :: "string \<Rightarrow> bool" where
  "realBase b \<longleftrightarrow> b \<noteq> '''' \<and> b \<noteq> ''lvh.me'' \<and> b \<noteq> ''localhost''"

text \<open>The overlay in three steps: the variables, the two flags, the defaults of the public origins.\<close>

definition overlayVars :: "genv \<Rightarrow> ApiConfig" where
  "overlayVars genv =
     (let d = DefaultApiConfig; s = env_str genv in
      \<lparr>apEnv = s ''TRQSH_ENV'' (apEnv d), apAddr = s ''TRQSH_API_ADDR'' (apAddr d),
           apMetricsAddr = s ''TRQSH_METRICS_ADDR'' (apMetricsAddr d),
           DatabaseURL = s ''TRQSH_DATABASE_URL'' (DatabaseURL d), apRedisURL = s ''TRQSH_REDIS_URL'' (apRedisURL d),
           apBaseDomain = s ''TRQSH_BASE_DOMAIN'' (apBaseDomain d),
           DBMaxOpenConns = env_int genv ''TRQSH_DB_MAX_OPEN_CONNS'' (DBMaxOpenConns d),
           DBMaxIdleConns = env_int genv ''TRQSH_DB_MAX_IDLE_CONNS'' (DBMaxIdleConns d),
           PublicURL = s ''TRQSH_API_PUBLIC_URL'' (PublicURL d), AppURL = s ''TRQSH_APP_URL'' (AppURL d),
           QRURL = s ''TRQSH_QR_URL'' (QRURL d), JWTSecret = s ''TRQSH_JWT_SECRET'' (JWTSecret d),
           apInternalToken = s ''TRQSH_INTERNAL_TOKEN'' (apInternalToken d),
           GitHubClientID = s ''TRQSH_GITHUB_CLIENT_ID'' (GitHubClientID d),
           GitHubClientSecret = s ''TRQSH_GITHUB_CLIENT_SECRET'' (GitHubClientSecret d),
           GoogleClientID = s ''TRQSH_GOOGLE_CLIENT_ID'' (GoogleClientID d),
           GoogleClientSecret = s ''TRQSH_GOOGLE_CLIENT_SECRET'' (GoogleClientSecret d),
           AdminUser = s ''TRQSH_ADMIN_USER'' (AdminUser d), AdminPassword = s ''TRQSH_ADMIN_PASSWORD'' (AdminPassword d),
           DevAuth = DevAuth d, TrustProxy = TrustProxy d,
           GeoIPHeader = s ''TRQSH_GEOIP_HEADER'' (GeoIPHeader d), GeoIPAPI = s ''TRQSH_GEOIP_API'' (GeoIPAPI d),
           Regions = s ''TRQSH_REGIONS'' (Regions d)\<rparr>)"

definition overlayFlags :: "genv \<Rightarrow> ApiConfig \<Rightarrow> ApiConfig" where
  "overlayFlags genv c =
     c\<lparr>DevAuth := (case genv ''TRQSH_DEV_AUTH'' of
                     Some v \<Rightarrow> truthy v
                   | None \<Rightarrow> if IsProduction c then False else DevAuth c),
       TrustProxy := (case genv ''TRQSH_TRUST_PROXY'' of Some v \<Rightarrow> truthy v | None \<Rightarrow> TrustProxy c)\<rparr>"

definition overlayURLs :: "ApiConfig \<Rightarrow> ApiConfig" where
  "overlayURLs c =
     c\<lparr>AppURL := (if AppURL c = [] \<and> realBase (apBaseDomain c) then ''https://app.'' @ apBaseDomain c else AppURL c),
       QRURL := (if QRURL c = [] \<and> realBase (apBaseDomain c) then ''https://qr.'' @ apBaseDomain c else QRURL c)\<rparr>"

definition overlayApi :: "genv \<Rightarrow> ApiConfig" where
  "overlayApi genv = overlayURLs (overlayFlags genv (overlayVars genv))"

definition LoadApiConfig :: "genv \<Rightarrow> cfg_error + ApiConfig" where
  "LoadApiConfig genv =
     (let c = overlayApi genv in case validate c of Some e \<Rightarrow> Inl e | None \<Rightarrow> Inr c)"

section \<open>The edge\<close>

record ServerConfig =
  scEnv :: string
  QUICAddr :: string
  TCPAddr :: string
  HTTPAddr :: string
  HTTPSAddr :: string
  H3Addr :: string
  H3AdvertisePort :: int
  EnableH2 :: bool
  scBaseDomain :: string
  scRegion :: string
  scEdgeID :: string
  scRedisURL :: string
  EntitlementsMode :: string
  APIURL :: string
  scInternalToken :: string
  ACMEStaging :: bool
  ACMEEmail :: string
  CloudflareToken :: string
  TLSStorageDir :: string
  PortMin :: int
  PortMax :: int
  scMetricsAddr :: string
  scForwardAddr :: string
  ForwardAdvertiseAddr :: string
  scSiteUpstream :: string
  scAppUpstream :: string
  scAPIUpstream :: string
  scHeartbeatInterval :: duration
  SessionIdle :: duration
  DrainTimeout :: duration

definition DefaultServerConfig :: "string \<Rightarrow> ServerConfig" where
  "DefaultServerConfig hostname =
     \<lparr>scEnv = ''development'', QUICAddr = '':4443'', TCPAddr = '':4443'', HTTPAddr = '':80'', HTTPSAddr = '':443'',
      H3Addr = '''', H3AdvertisePort = 0, EnableH2 = False, scBaseDomain = ''lvh.me'', scRegion = ''local'',
      scEdgeID = (if hostname = '''' then ''edge'' else hostname), scRedisURL = '''', EntitlementsMode = ''stub'',
      APIURL = '''', scInternalToken = '''', ACMEStaging = False, ACMEEmail = '''', CloudflareToken = '''',
      TLSStorageDir = '''', PortMin = 20000, PortMax = 20099, scMetricsAddr = '':9090'', scForwardAddr = '''',
      ForwardAdvertiseAddr = '''', scSiteUpstream = '''', scAppUpstream = '''', scAPIUpstream = '''',
      scHeartbeatInterval = 20 * second, SessionIdle = 60 * second, DrainTimeout = 25 * second\<rparr>"

definition overlayServer :: "string \<Rightarrow> genv \<Rightarrow> ServerConfig" where
  "overlayServer hostname genv =
     (let d = DefaultServerConfig hostname; s = env_str genv in
      d\<lparr>scEnv := s ''TRQSH_ENV'' (scEnv d), QUICAddr := s ''TRQSH_QUIC_ADDR'' (QUICAddr d),
        TCPAddr := s ''TRQSH_TCP_ADDR'' (TCPAddr d), HTTPAddr := s ''TRQSH_HTTP_ADDR'' (HTTPAddr d),
        HTTPSAddr := s ''TRQSH_HTTPS_ADDR'' (HTTPSAddr d), H3Addr := s ''TRQSH_H3_ADDR'' (H3Addr d),
        H3AdvertisePort := env_int genv ''TRQSH_H3_ADVERTISE_PORT'' (H3AdvertisePort d),
        EnableH2 := env_bool genv ''TRQSH_ENABLE_H2'' (EnableH2 d),
        scBaseDomain := s ''TRQSH_BASE_DOMAIN'' (scBaseDomain d), scRegion := s ''TRQSH_REGION'' (scRegion d),
        scEdgeID := s ''TRQSH_EDGE_ID'' (scEdgeID d), scRedisURL := s ''TRQSH_REDIS_URL'' (scRedisURL d),
        EntitlementsMode := s ''TRQSH_ENTITLEMENTS'' (EntitlementsMode d), APIURL := s ''TRQSH_API_URL'' (APIURL d),
        scInternalToken := s ''TRQSH_INTERNAL_TOKEN'' (scInternalToken d), ACMEEmail := s ''TRQSH_ACME_EMAIL'' (ACMEEmail d),
        CloudflareToken := s ''TRQSH_CLOUDFLARE_API_TOKEN'' (CloudflareToken d),
        TLSStorageDir := s ''TRQSH_TLS_STORAGE_DIR'' (TLSStorageDir d),
        scMetricsAddr := s ''TRQSH_METRICS_ADDR'' (scMetricsAddr d), scForwardAddr := s ''TRQSH_FORWARD_ADDR'' (scForwardAddr d),
        ForwardAdvertiseAddr := s ''TRQSH_FORWARD_ADVERTISE_ADDR'' (ForwardAdvertiseAddr d),
        scSiteUpstream := s ''TRQSH_SITE_UPSTREAM'' (scSiteUpstream d),
        scAppUpstream := s ''TRQSH_APP_UPSTREAM'' (scAppUpstream d),
        scAPIUpstream := s ''TRQSH_API_UPSTREAM'' (scAPIUpstream d),
        ACMEStaging := env_bool genv ''TRQSH_ACME_STAGING'' (ACMEStaging d),
        PortMin := env_int genv ''TRQSH_PORT_MIN'' (PortMin d), PortMax := env_int genv ''TRQSH_PORT_MAX'' (PortMax d)\<rparr>)"

definition LoadServerConfig :: "string \<Rightarrow> genv \<Rightarrow> cfg_error + ServerConfig" where
  "LoadServerConfig hostname genv =
     (let c = overlayServer hostname genv in
      if scBaseDomain c = '''' then Inl NoBaseDomain
      else if EntitlementsMode c = ''api'' \<and> APIURL c = '''' then Inl NoAPIURL
      else if PortMin c > PortMax c then Inl (PortRange (PortMin c) (PortMax c))
      else if to_lower (scEnv c) = ''production'' then
        let problems =
          prob (EntitlementsMode c \<noteq> ''api'') StubEntitlements @
          prob (scInternalToken c = '''' \<or> scInternalToken c = ''dev-internal-token'') WeakInternalToken @
          prob (ACMEEmail c = '''') NoACMEEmail
        in if problems \<noteq> [] then Inl (Insecure problems) else Inr c
      else Inr c)"

text \<open>The part of the configuration the handlers of the edge read.\<close>

definition edgeConfig :: "ServerConfig \<Rightarrow> EdgeConfig" where
  "edgeConfig c =
     \<lparr>BaseDomain = scBaseDomain c, cfgEdgeID = scEdgeID c, Region = scRegion c,
      HeartbeatInterval = scHeartbeatInterval c, ForwardAddr = scForwardAddr c, InternalToken = scInternalToken c,
      SiteUpstream = scSiteUpstream c, AppUpstream = scAppUpstream c, APIUpstream = scAPIUpstream c, AltSvc = ''''\<rparr>"

section \<open>Facts\<close>

text \<open>The value of a variable that is set to something other than blanks.\<close>

definition setting :: "genv \<Rightarrow> string \<Rightarrow> string" where
  "setting genv key = (case genv key of Some v \<Rightarrow> trim_space v | None \<Rightarrow> '''')"

lemma env_str_setting: "env_str genv key cur = (if setting genv key \<noteq> '''' then setting genv key else cur)"
  by (auto simp: env_str_def setting_def split: option.splits)

lemma prob_Nil [simp]: "prob b p = [] \<longleftrightarrow> \<not> b"
  by (simp add: prob_def)

lemma dev_lengths [simp]: "length devJWTSecret = 29" "devJWTSecret \<noteq> ''''" "devInternalToken \<noteq> ''''"
  by (simp_all add: devJWTSecret_def devInternalToken_def)

lemma overlayApi_sel:
  "apEnv (overlayApi genv) = env_str genv ''TRQSH_ENV'' ''development''"
  "JWTSecret (overlayApi genv) = env_str genv ''TRQSH_JWT_SECRET'' devJWTSecret"
  "apInternalToken (overlayApi genv) = env_str genv ''TRQSH_INTERNAL_TOKEN'' devInternalToken"
  "DatabaseURL (overlayApi genv) = env_str genv ''TRQSH_DATABASE_URL'' ''''"
  "PublicURL (overlayApi genv) = env_str genv ''TRQSH_API_PUBLIC_URL'' ''http://localhost:8080''"
  by (simp_all add: overlayApi_def overlayURLs_def overlayFlags_def overlayVars_def DefaultApiConfig_def Let_def)

lemma overlayApi_DevAuth:
  "DevAuth (overlayApi genv) = (case genv ''TRQSH_DEV_AUTH'' of
      Some v \<Rightarrow> truthy v | None \<Rightarrow> to_lower (env_str genv ''TRQSH_ENV'' ''development'') \<noteq> ''production'')"
  by (simp add: overlayApi_def overlayURLs_def overlayFlags_def overlayVars_def DefaultApiConfig_def Let_def IsProduction_def split: option.splits)

text \<open>C27. A production control plane starts only on a safe configuration. When \<^verbatim>\<open>TRQSH_ENV\<close> says
  production, \<^verbatim>\<open>LoadConfig\<close> succeeds exactly when the environment itself provides a signing secret of
  at least 32 characters, an internal token other than the development one, a database and an
  \<^verbatim>\<open>https\<close> public URL, and does not switch on password-less login; no development default survives.\<close>

theorem production_api_fails_closed:
  assumes "to_lower (setting genv ''TRQSH_ENV'') = ''production''"
  shows "is_ok (LoadApiConfig genv) \<longleftrightarrow>
       32 \<le> length (setting genv ''TRQSH_JWT_SECRET'')
     \<and> setting genv ''TRQSH_INTERNAL_TOKEN'' \<notin> {'''', devInternalToken}
     \<and> setting genv ''TRQSH_DATABASE_URL'' \<noteq> ''''
     \<and> has_prefix (setting genv ''TRQSH_API_PUBLIC_URL'') ''https://''
     \<and> \<not> truthy (setting genv ''TRQSH_DEV_AUTH'')"
proof -
  have prod: "to_lower (env_str genv ''TRQSH_ENV'' ''development'') = ''production''"
    using assms by (auto simp: env_str_setting)
  then have isP: "IsProduction (overlayApi genv)" by (simp add: IsProduction_def overlayApi_sel)
  have trim_blank: "trim_space [] = []" by (simp add: trim_space_def)
  have dev: "DevAuth (overlayApi genv) \<longleftrightarrow> truthy (setting genv ''TRQSH_DEV_AUTH'')"
    using prod by (auto simp: overlayApi_DevAuth setting_def trim_blank truthy_def split: option.splits)
  show ?thesis
    using isP by (auto simp: LoadApiConfig_def Let_def validate_def dev overlayApi_sel env_str_setting has_prefix_def minJWTSecretLen_def split: option.splits)
qed

text \<open>A production environment.\<close>

definition ex_prod_env :: genv where
  "ex_prod_env = map_of
     [(''TRQSH_ENV'', ''production''), (''TRQSH_JWT_SECRET'', replicate 32 CHR ''s''), (''TRQSH_INTERNAL_TOKEN'', ''tok''),
      (''TRQSH_DATABASE_URL'', ''postgres://db''), (''TRQSH_API_PUBLIC_URL'', ''https://api.example.com''),
      (''TRQSH_ENTITLEMENTS'', ''api''), (''TRQSH_API_URL'', ''http://api''), (''TRQSH_ACME_EMAIL'', ''a@b'')]"

lemma ex_prod_settings:
  "setting ex_prod_env ''TRQSH_ENV'' = ''production''" "setting ex_prod_env ''TRQSH_JWT_SECRET'' = replicate 32 CHR ''s''"
  "setting ex_prod_env ''TRQSH_INTERNAL_TOKEN'' = ''tok''" "setting ex_prod_env ''TRQSH_DATABASE_URL'' = ''postgres://db''"
  "setting ex_prod_env ''TRQSH_API_PUBLIC_URL'' = ''https://api.example.com''" "setting ex_prod_env ''TRQSH_DEV_AUTH'' = ''''"
  "setting ex_prod_env ''TRQSH_ENTITLEMENTS'' = ''api''" "setting ex_prod_env ''TRQSH_API_URL'' = ''http://api''"
  "setting ex_prod_env ''TRQSH_ACME_EMAIL'' = ''a@b''" "setting ex_prod_env ''TRQSH_BASE_DOMAIN'' = ''''"
  by code_simp+

theorem production_api_fails_closed_witness: "is_ok (LoadApiConfig ex_prod_env)"
proof -
  have "to_lower (setting ex_prod_env ''TRQSH_ENV'') = ''production''" by (simp only: ex_prod_settings) code_simp
  moreover have "\<not> truthy ''''" by code_simp
  ultimately show ?thesis
    by (subst production_api_fails_closed) (simp_all add: ex_prod_settings devInternalToken_def has_prefix_def)
qed

text \<open>A production edge starts only with real entitlements. When \<^verbatim>\<open>TRQSH_ENV\<close> says production,
  \<^verbatim>\<open>LoadConfig\<close> succeeds exactly when the environment selects the control plane and names it, gives a
  non-default internal token and an ACME address, and the port range is not empty; so the stub that
  allows every bind is never in force.\<close>

theorem production_edge_fails_closed:
  assumes "to_lower (setting genv ''TRQSH_ENV'') = ''production''"
  shows "is_ok (LoadServerConfig hostname genv) \<longleftrightarrow>
       setting genv ''TRQSH_ENTITLEMENTS'' = ''api'' \<and> setting genv ''TRQSH_API_URL'' \<noteq> ''''
     \<and> setting genv ''TRQSH_INTERNAL_TOKEN'' \<notin> {'''', ''dev-internal-token''}
     \<and> setting genv ''TRQSH_ACME_EMAIL'' \<noteq> ''''
     \<and> env_int genv ''TRQSH_PORT_MIN'' 20000 \<le> env_int genv ''TRQSH_PORT_MAX'' 20099"
proof -
  define c where "c = overlayServer hostname genv"
  have sel: "scEnv c = env_str genv ''TRQSH_ENV'' ''development''" "scBaseDomain c = env_str genv ''TRQSH_BASE_DOMAIN'' ''lvh.me''"
    "EntitlementsMode c = env_str genv ''TRQSH_ENTITLEMENTS'' ''stub''" "APIURL c = env_str genv ''TRQSH_API_URL'' ''''"
    "scInternalToken c = env_str genv ''TRQSH_INTERNAL_TOKEN'' ''''" "ACMEEmail c = env_str genv ''TRQSH_ACME_EMAIL'' ''''"
    "PortMin c = env_int genv ''TRQSH_PORT_MIN'' 20000" "PortMax c = env_int genv ''TRQSH_PORT_MAX'' 20099"
    by (simp_all add: c_def overlayServer_def DefaultServerConfig_def Let_def)
  have "to_lower (scEnv c) = ''production''" using assms by (auto simp: sel env_str_setting)
  moreover have "scBaseDomain c \<noteq> ''''" by (auto simp: sel env_str_setting)
  ultimately show ?thesis
    unfolding LoadServerConfig_def c_def [symmetric] Let_def by (auto simp: sel env_str_setting)
qed

theorem production_edge_fails_closed_witness: "is_ok (LoadServerConfig ''host'' ex_prod_env)"
proof -
  have "to_lower (setting ex_prod_env ''TRQSH_ENV'') = ''production''" by (simp only: ex_prod_settings) code_simp
  moreover have "env_int ex_prod_env ''TRQSH_PORT_MIN'' 20000 \<le> env_int ex_prod_env ''TRQSH_PORT_MAX'' 20099"
    by (simp add: env_int_def ex_prod_env_def)
  ultimately show ?thesis
    by (subst production_edge_fails_closed) (simp_all add: ex_prod_settings)
qed


end
