(* ===== verification/AgentConfig.thy ===== *)
theory AgentConfig
  imports Config
begin

text \<open>
  The configuration of the agent: \<^verbatim>\<open>internal/agent/config.go\<close>. The file system, the environment and the YAML library are
  in the record \<open>CfgEnv\<close>; \<open>yaml_lawful\<close> is what the code relies on of the library.
\<close>

section \<open>Data\<close>

record TunnelConfig =
  tcProto :: string
  tcAddr :: string
  tcSubdomain :: string
  tcCustomDomain :: string
  tcBasicAuth :: string
  tcHostHeader :: string
  tcRemotePort :: int

record AgentCfg =
  acVersion :: int
  acAPIKey :: string
  acServer :: string
  acRegion :: string
  acTransport :: string
  acTunnels :: "(string, TunnelConfig) gomap"
  acInspEnabled :: bool
  acInspAddr :: string
  acLogLevel :: string
  acControlAddr :: string
  acAPIBase :: string
  acInsecure :: bool

definition DefaultServer :: string where "DefaultServer = ''trqsh.uz:4443''"
definition DefaultAPIBase :: string where "DefaultAPIBase = ''https://api.trqsh.uz''"

definition DefaultAgentCfg :: AgentCfg where
  "DefaultAgentCfg =
     \<lparr>acVersion = 1, acAPIKey = '''', acServer = DefaultServer, acRegion = ''auto'', acTransport = ''auto'', acTunnels = [],
      acInspEnabled = True, acInspAddr = ''127.0.0.1:4040'', acLogLevel = ''info'', acControlAddr = ''127.0.0.1:4041'',
      acAPIBase = DefaultAPIBase, acInsecure = False\<rparr>"

definition forcedTransport :: "AgentCfg \<Rightarrow> string" where
  "forcedTransport c =
     (let t = to_lower (acTransport c) in if t = ''quic'' then ''quic'' else if t = ''tcp'' then ''tcp'' else '''')"

section \<open>Loading and saving\<close>

datatype cfg_file = NoFile | Unreadable string | Content string

record CfgEnv =
  ceGetenv :: genv
  ceMarshal :: "AgentCfg \<Rightarrow> string"
  ceUnmarshal :: "string \<Rightarrow> AgentCfg \<Rightarrow> string + AgentCfg"
  ceSaveErr :: "string option"

definition applyEnv :: "genv \<Rightarrow> AgentCfg \<Rightarrow> AgentCfg" where
  "applyEnv g c =
     c\<lparr>acAPIKey := env_str g ''TRQSH_API_KEY'' (acAPIKey c), acServer := env_str g ''TRQSH_SERVER'' (acServer c),
       acRegion := env_str g ''TRQSH_REGION'' (acRegion c), acTransport := env_str g ''TRQSH_TRANSPORT'' (acTransport c),
       acLogLevel := env_str g ''TRQSH_LOG_LEVEL'' (acLogLevel c), acInspAddr := env_str g ''TRQSH_INSPECTOR_ADDR'' (acInspAddr c),
       acControlAddr := env_str g ''TRQSH_CONTROL_ADDR'' (acControlAddr c), acAPIBase := env_str g ''TRQSH_API_URL'' (acAPIBase c),
       acInsecure := (case g ''TRQSH_INSECURE'' of Some v \<Rightarrow> truthy v | None \<Rightarrow> acInsecure c)\<rparr>"

text \<open>A map of tunnels that is \<^verbatim>\<open>nil\<close> and one that is empty are the same value here.\<close>

definition Load :: "CfgEnv \<Rightarrow> string \<Rightarrow> cfg_file \<Rightarrow> string + AgentCfg" where
  "Load ce path f =
     (case f of
        Content d \<Rightarrow>
          (case ceUnmarshal ce d DefaultAgentCfg of
             Inl err \<Rightarrow> Inl (''agent: parse '' @ path @ '': '' @ err)
           | Inr c \<Rightarrow> Inr (applyEnv (ceGetenv ce) c))
      | NoFile \<Rightarrow> Inr (applyEnv (ceGetenv ce) DefaultAgentCfg)
      | Unreadable err \<Rightarrow> Inl (''agent: read '' @ path @ '': '' @ err))"

text \<open>The error, if any, and the file.\<close>

definition Save :: "CfgEnv \<Rightarrow> AgentCfg \<Rightarrow> cfg_file \<Rightarrow> string option \<times> cfg_file" where
  "Save ce c f = (case ceSaveErr ce of Some err \<Rightarrow> (Some err, f) | None \<Rightarrow> (None, Content (ceMarshal ce c)))"

section \<open>Facts\<close>

text \<open>
  YAML as the struct tags ask for it: a field marked \<^verbatim>\<open>omitempty\<close> that has its zero value is not written, and reading
  leaves what is not there as it was.
\<close>

definition omitted :: "AgentCfg \<Rightarrow> AgentCfg \<Rightarrow> AgentCfg" where
  "omitted d c =
     c\<lparr>acAPIKey := (if acAPIKey c = '''' then acAPIKey d else acAPIKey c),
       acTunnels := (if acTunnels c = [] then acTunnels d else acTunnels c),
       acControlAddr := (if acControlAddr c = '''' then acControlAddr d else acControlAddr c),
       acAPIBase := (if acAPIBase c = '''' then acAPIBase d else acAPIBase c),
       acInsecure := (acInsecure c \<or> acInsecure d)\<rparr>"

definition yaml_lawful :: "CfgEnv \<Rightarrow> AgentCfg \<Rightarrow> bool" where
  "yaml_lawful ce c \<longleftrightarrow> ceUnmarshal ce (ceMarshal ce c) DefaultAgentCfg = Inr (omitted DefaultAgentCfg c)"

lemma env_str_none [simp]: "env_str (\<lambda>_. None) k v = v"
  by (simp add: env_str_def)

lemma Load_Save:
  assumes "yaml_lawful ce c" "Save ce c f = (None, f')"
  shows "Load ce path f' = Inr (applyEnv (ceGetenv ce) (omitted DefaultAgentCfg c))"
  using assms by (auto simp: Save_def Load_def yaml_lawful_def split: option.splits)

text \<open>What is saved is what is loaded, in an environment that sets nothing.\<close>

lemma Load_Save_same:
  assumes "yaml_lawful ce c" "Save ce c f = (None, f')" "ceGetenv ce = (\<lambda>_. None)" "acControlAddr c \<noteq> ''''" "acAPIBase c \<noteq> ''''"
  shows "Load ce path f' = Inr c"
  using Load_Save [OF assms(1,2)] assms(3-5) by (simp add: applyEnv_def omitted_def DefaultAgentCfg_def)

end
