(* ===== verification/Agent.thy ===== *)
theory Agent
  imports Inspect AgentConfig
begin

text \<open>
  The core of the agent: \<^verbatim>\<open>internal/agent/core.go\<close>, \<^verbatim>\<open>session.go\<close>, \<^verbatim>\<open>reconnect.go\<close>, \<^verbatim>\<open>errors.go\<close>, and the order in
  which \<^verbatim>\<open>pkg/tunnel/dial.go\<close> tries transports. What the network answers is an argument. A call that waits
  (\<^verbatim>\<open>bind\<close> for its response) is two operations, what it does before and after, so that the control loop can
  run in between; \<open>bind\<close> composes them. An \<^verbatim>\<open>activeTunnel\<close> is only written through the table of tunnels, so
  the table holds the values.
\<close>

section \<open>Data\<close>

record Error =
  errCode :: string
  errMessage :: string

text \<open>An error that is no \<^verbatim>\<open>*Error\<close> (of a stream, of a context) is its text.\<close>

datatype agent_err = CodedErr Error | PlainErr string

definition err_Error :: "Error \<Rightarrow> string" where
  "err_Error e = (if errMessage e \<noteq> '''' then errCode e @ '': '' @ errMessage e else errCode e)"

text \<open>The bytes of an em dash in UTF-8.\<close>

definition emdash :: string where
  "emdash = [CHR 0xE2, CHR 0x80, CHR 0x94]"

definition Hint :: "Error \<Rightarrow> string" where
  "Hint e =
     (if errCode e \<in> {CodeAuthRequired, CodeAuthInvalid}
      then ''Run `trqsh login --token <key>` with a valid API key.''
      else if errCode e \<in> {CodePlanForbids, CodeQuotaTunnels, CodeQuotaBandwidth, CodeQuotaRequests}
      then ''Your plan does not allow this. Upgrade at https://trqsh.uz/pricing.''
      else if errCode e = CodeSubdomainTaken
      then ''That subdomain is in use ''
           @ emdash @ '' try another or omit --subdomain for a random one.''
      else if errCode e = CodeSubdomainForbidden then ''Reserved subdomains require a Pro plan.''
      else if errCode e = CodeDomainUnverified then ''Verify your custom domain in the dashboard first.''
      else if errCode e = CodePortUnavailable
      then ''No remote port available '' @ emdash @ '' omit --remote-port to get an ephemeral one.''
      else if errCode e = CodeUpstreamUnreachable
      then ''The local address is not reachable '' @ emdash @ '' is your service running?''
      else '''')"

definition errorFromResp :: "ErrorMsg option \<Rightarrow> Error" where
  "errorFromResp m =
     (case m of
        None \<Rightarrow> \<lparr>errCode = CodeInternal, errMessage = ''unknown error''\<rparr>
      | Some em \<Rightarrow> \<lparr>errCode = emCode em, errMessage = emMessage em\<rparr>)"

record TunnelSpec =
  tsName :: string
  tsProto :: string
  tsAddr :: string
  tsSubdomain :: string
  tsCustomDomain :: string
  tsBasicAuth :: string
  tsHostHeader :: string
  tsRemotePort :: int

record TunnelMetrics =
  tmConnections :: int
  tmRequests :: int
  tmBytesIn :: int
  tmBytesOut :: int

record activeTunnel =
  atSpec :: TunnelSpec
  atClientTunnelID :: string
  atPublicURL :: string
  atAssignedHost :: string
  atAssignedPort :: int
  atStatus :: string
  atCreatedAt :: gotime
  atMetrics :: TunnelMetrics

record Tunnel =
  tnID :: string
  tnName :: string
  tnProto :: string
  tnLocalAddr :: string
  tnPublicURL :: string
  tnStatus :: string
  tnMetrics :: TunnelMetrics
  tnCreatedAt :: gotime

definition view :: "activeTunnel \<Rightarrow> Tunnel" where
  "view t =
     \<lparr>tnID = atClientTunnelID t, tnName = tsName (atSpec t), tnProto = tsProto (atSpec t), tnLocalAddr = tsAddr (atSpec t),
      tnPublicURL = atPublicURL t, tnStatus = atStatus t, tnMetrics = atMetrics t, tnCreatedAt = atCreatedAt t\<rparr>"

record Status =
  stConnected :: bool
  stAccountID :: string
  stPlan :: string
  stEdge :: string
  stKind :: string

datatype RemoteEvent = RemoteCommand string | RemotePresence bool | RemoteEnded

datatype Event =
    EventStatus Status
  | EventTunnel Tunnel
  | EventRequest CapturedRequest
  | EventError string
  | EventRemote RemoteEvent

text \<open>
  The agent. A session of the transport is a number, its control stream has the same number.
  \<open>agPending\<close> holds the one-place channels of binds that wait for a response. The context of the agent is
  cancelled exactly when \<open>agClosed\<close> is set.
\<close>

record Agent =
  agCfg :: AgentCfg
  agInsp :: Recorder
  agSess :: "nat option"
  agControl :: "nat option"
  agConnected :: bool
  agAccountID :: string
  agPlan :: string
  agKind :: string
  agTunnels :: "(string, activeTunnel) gomap"
  agPending :: "(string, BindResp option) gomap"
  agEvents :: "Event list"
  agClosed :: bool
  agSessGen :: nat

definition newAgent :: "AgentCfg \<Rightarrow> Agent" where
  "newAgent c =
     \<lparr>agCfg = c, agInsp = NewRecorder 256, agSess = None, agControl = None, agConnected = False,
      agAccountID = '''', agPlan = '''', agKind = '''', agTunnels = [], agPending = [], agEvents = [], agClosed = False,
      agSessGen = 0\<rparr>"

definition agStatus :: "Agent \<Rightarrow> Status" where
  "agStatus a =
     \<lparr>stConnected = agConnected a, stAccountID = agAccountID a, stPlan = agPlan a, stEdge = acServer (agCfg a), stKind = agKind a\<rparr>"

definition agList :: "Agent \<Rightarrow> Tunnel list" where
  "agList a = map (view \<circ> snd) (agTunnels a)"

definition emit :: "Event \<Rightarrow> Agent \<Rightarrow> Agent" where
  "emit e a = a\<lparr>agEvents := try_send 256 e (agEvents a)\<rparr>"

text \<open>The write to the control stream: an error, or nothing. \<open>wr\<close> tells whether the stream takes it.\<close>

definition writeControl :: "bool \<Rightarrow> Agent \<Rightarrow> agent_err option" where
  "writeControl wr a =
     (if agControl a = None then Some (CodedErr \<lparr>errCode = CodeInternal, errMessage = ''not connected''\<rparr>)
      else if wr then None else Some (PlainErr ''write failed''))"

definition tunnelType :: "string \<Rightarrow> TunnelType \<times> bool" where
  "tunnelType p =
     (let q = to_lower p in
      if q = ''http'' then (TunnelType_HTTP, True) else if q = ''https'' then (TunnelType_HTTPS, True)
      else if q = ''tls'' then (TunnelType_TLS, True) else if q = ''tcp'' then (TunnelType_TCP, True)
      else if q = ''udp'' then (TunnelType_UDP, True) else (TunnelType_HTTP, False))"

section \<open>Dialling\<close>

datatype Kind = KindQUIC | KindTCP

text \<open>\<^verbatim>\<open>Dialer\<close>: the preferred and the forced transport; \<open>None\<close> is the empty string.\<close>

definition attemptOrder :: "Kind option \<Rightarrow> Kind option \<Rightarrow> Kind list" where
  "attemptOrder force prefer =
     (case force of
        Some k \<Rightarrow> [k]
      | None \<Rightarrow> if prefer = Some KindTCP then [KindTCP, KindQUIC] else [KindQUIC, KindTCP])"

text \<open>\<open>try k\<close> is the result of one attempt; \<open>cancelled\<close> tells whether the caller has given up after it.\<close>

fun dial_from :: "(Kind \<Rightarrow> 'x + nat) \<Rightarrow> (Kind \<Rightarrow> bool) \<Rightarrow> Kind list \<Rightarrow> 'x list \<Rightarrow> 'x list + Kind \<times> nat" where
  "dial_from attempt cancelled [] errs = Inl errs"
| "dial_from attempt cancelled (k # ks) errs =
     (case attempt k of
        Inr s \<Rightarrow> Inr (k, s)
      | Inl e \<Rightarrow> if cancelled k then Inl (errs @ [e]) else dial_from attempt cancelled ks (errs @ [e]))"

definition Dial :: "Kind option \<Rightarrow> Kind option \<Rightarrow> (Kind \<Rightarrow> 'x + nat) \<Rightarrow> (Kind \<Rightarrow> bool) \<Rightarrow> 'x list + Kind \<times> nat" where
  "Dial force prefer attempt cancelled = dial_from attempt cancelled (attemptOrder force prefer) []"

section \<open>Connecting\<close>

text \<open>How far an attempt to connect gets: no session, no control stream, no hello, no reply, or a reply.\<close>

datatype attempt = NoDial string | NoStream string | NoHello string | NoReply string | Reply nat string ControlMsg

definition connect :: "attempt \<Rightarrow> Agent \<Rightarrow> Error option \<times> Agent" where
  "connect at a =
     (case at of
        NoDial m \<Rightarrow> (Some \<lparr>errCode = CodeUpstreamUnreachable, errMessage = ''cannot reach edge: '' @ m\<rparr>, a)
      | NoStream m \<Rightarrow> (Some \<lparr>errCode = CodeInternal, errMessage = m\<rparr>, a)
      | NoHello m \<Rightarrow> (Some \<lparr>errCode = CodeInternal, errMessage = m\<rparr>, a)
      | NoReply m \<Rightarrow> (Some \<lparr>errCode = CodeInternal, errMessage = m\<rparr>, a)
      | Reply sess kind msg \<Rightarrow>
          (case msg of
             MsgAuthResp ar \<Rightarrow>
               if \<not> aOk ar then (Some (errorFromResp (aError ar)), a)
               else
                 let a1 = a\<lparr>agSess := Some sess, agControl := Some sess, agConnected := True, agAccountID := aAccountId ar,
                            agPlan := aPlan ar, agKind := kind, agSessGen := agSessGen a + 1\<rparr>
                 in (None, emit (EventStatus (agStatus a1)) a1)
           | _ \<Rightarrow> (Some \<lparr>errCode = CodeInternal, errMessage = ''expected AuthResp''\<rparr>, a)))"

text \<open>The hello of \<^verbatim>\<open>connect\<close>.\<close>

definition hello :: "Agent \<Rightarrow> Hello" where
  "hello a = \<lparr>ProtocolVersion = ''1'', ApiKey = (if acAPIKey (agCfg a) = '''' then ''tq_dev_local'' else acAPIKey (agCfg a))\<rparr>"

definition ensureConnected :: "attempt \<Rightarrow> Agent \<Rightarrow> Error option \<times> Agent" where
  "ensureConnected at a = (if agConnected a then (None, a) else connect at a)"

section \<open>Binding\<close>

text \<open>\<^verbatim>\<open>randHex(6)\<close> on the bytes it reads.\<close>

definition newClientTunnelID :: "byte list \<Rightarrow> string" where
  "newClientTunnelID buf = ''ct_'' @ hex_encode buf"

definition bindOptions :: "TunnelSpec \<Rightarrow> (string, string) gomap" where
  "bindOptions spec =
     (let o1 = (if tsBasicAuth spec \<noteq> '''' then gset ''basic_auth'' (tsBasicAuth spec) [] else [])
      in if tsHostHeader spec \<noteq> '''' then gset ''host_header'' (tsHostHeader spec) o1 else o1)"

definition bindMsg :: "string \<Rightarrow> TunnelSpec \<Rightarrow> BindTunnel" where
  "bindMsg cid spec =
     \<lparr>bClientTunnelId = cid, bType = fst (tunnelType (tsProto spec)), bSubdomain = tsSubdomain spec,
      bCustomDomain = tsCustomDomain spec, bRemotePort = word_of_int (tsRemotePort spec), bOptions = bindOptions spec\<rparr>"

text \<open>Up to the wait: the message written, or an error. The deferred function takes the channel away.\<close>

definition bindStart :: "bool \<Rightarrow> byte list \<Rightarrow> TunnelSpec \<Rightarrow> Agent \<Rightarrow> (agent_err + BindTunnel) \<times> Agent" where
  "bindStart wr buf spec a =
     (let cid = newClientTunnelID buf;
          a1 = a\<lparr>agPending := gset cid None (agPending a)\<rparr>
      in case writeControl wr a1 of
           Some err \<Rightarrow> (Inl err, a1\<lparr>agPending := gdel cid (agPending a1)\<rparr>)
         | None \<Rightarrow> (Inr (bindMsg cid spec), a1))"

definition deliverBind :: "BindResp \<Rightarrow> Agent \<Rightarrow> Agent" where
  "deliverBind br a =
     (case gget (agPending a) (rClientTunnelId br) of
        Some None \<Rightarrow> a\<lparr>agPending := gset (rClientTunnelId br) (Some br) (agPending a)\<rparr>
      | _ \<Rightarrow> a)"

text \<open>What ends the wait. \<open>Answered\<close> is possible only when a response is in the channel.\<close>

datatype wake = Answered | TimedOut | Cancelled string

definition newActive :: "gotime \<Rightarrow> TunnelSpec \<Rightarrow> string \<Rightarrow> BindResp \<Rightarrow> activeTunnel" where
  "newActive t spec cid br =
     \<lparr>atSpec = spec, atClientTunnelID = cid, atPublicURL = rPublicUrl br, atAssignedHost = rAssignedHost br,
      atAssignedPort = uint (rAssignedPort br), atStatus = ''online'', atCreatedAt = t,
      atMetrics = \<lparr>tmConnections = 0, tmRequests = 0, tmBytesIn = 0, tmBytesOut = 0\<rparr>\<rparr>"

definition bindFinish :: "wake \<Rightarrow> gotime \<Rightarrow> TunnelSpec \<Rightarrow> string \<Rightarrow> Agent \<Rightarrow> (agent_err + Tunnel) \<times> Agent" where
  "bindFinish w t spec cid a =
     (let a1 = a\<lparr>agPending := gdel cid (agPending a)\<rparr> in
      case w of
        TimedOut \<Rightarrow> (Inl (CodedErr \<lparr>errCode = CodeInternal, errMessage = ''bind timed out''\<rparr>), a1)
      | Cancelled m \<Rightarrow> (Inl (PlainErr m), a1)
      | Answered \<Rightarrow>
          (case gget (agPending a) cid of
             Some (Some br) \<Rightarrow>
               if \<not> rOk br then (Inl (CodedErr (errorFromResp (rError br))), a1)
               else
                 let at = newActive t spec cid br in
                 (Inr (view at), emit (EventTunnel (view at)) (a1\<lparr>agTunnels := gset cid at (agTunnels a1)\<rparr>))
           | _ \<Rightarrow> (Inl (PlainErr ''''), a1)))"

text \<open>A whole \<^verbatim>\<open>bind\<close>, when nothing else happens meanwhile: \<open>edge\<close> is the response to the message, \<open>None\<close> when
  none comes in time.\<close>

definition bind :: "bool \<Rightarrow> (BindTunnel \<Rightarrow> BindResp option) \<Rightarrow> byte list \<Rightarrow> gotime \<Rightarrow> TunnelSpec \<Rightarrow> Agent \<Rightarrow> (agent_err + Tunnel) \<times> Agent" where
  "bind wr edge buf t spec a =
     (case bindStart wr buf spec a of
        (Inl err, a1) \<Rightarrow> (Inl err, a1)
      | (Inr b, a1) \<Rightarrow>
          (case edge b of
             None \<Rightarrow> bindFinish TimedOut t spec (bClientTunnelId b) a1
           | Some br \<Rightarrow> bindFinish (if gget (agPending (deliverBind br a1)) (bClientTunnelId b) = Some None then TimedOut else Answered)
                         t spec (bClientTunnelId b) (deliverBind br a1)))"

text \<open>\<^verbatim>\<open>StartTunnel\<close> up to the call of \<^verbatim>\<open>bind\<close>.\<close>

definition trim_prefix :: "string \<Rightarrow> string \<Rightarrow> string" where
  "trim_prefix s p = (if has_prefix s p then drop (length p) s else s)"

definition fillSpec :: "TunnelSpec \<Rightarrow> TunnelSpec" where
  "fillSpec spec =
     (let s1 = (if tsProto spec = '''' then spec\<lparr>tsProto := ''http''\<rparr> else spec)
      in if tsName s1 = '''' then s1\<lparr>tsName := tsProto s1 @ ''-'' @ trim_prefix (tsAddr s1) ''localhost:''\<rparr> else s1)"

definition startCheck :: "attempt \<Rightarrow> TunnelSpec \<Rightarrow> Agent \<Rightarrow> Error option \<times> Agent" where
  "startCheck at spec a =
     (if \<not> snd (tunnelType (tsProto spec))
      then (Some \<lparr>errCode = CodeProtoUnsupported, errMessage = ''unknown proto '' @ tsProto spec\<rparr>, a)
      else ensureConnected at a)"

definition StartTunnel ::
  "attempt \<Rightarrow> bool \<Rightarrow> (BindTunnel \<Rightarrow> BindResp option) \<Rightarrow> byte list \<Rightarrow> gotime \<Rightarrow> TunnelSpec \<Rightarrow> Agent \<Rightarrow> (agent_err + Tunnel) \<times> Agent" where
  "StartTunnel at wr edge buf t spec0 a =
     (let spec = fillSpec spec0 in
      case startCheck at spec a of
        (Some err, a1) \<Rightarrow> (Inl (CodedErr err), a1)
      | (None, a1) \<Rightarrow> bind wr edge buf t spec a1)"

text \<open>The message to the edge, if any, the error and the agent. A failed write is ignored.\<close>

definition StopTunnel :: "string \<Rightarrow> Agent \<Rightarrow> string option \<times> Error option \<times> Agent" where
  "StopTunnel cid a =
     (case gget (agTunnels a) cid of
        None \<Rightarrow> (None, Some \<lparr>errCode = CodeInternal, errMessage = ''no such tunnel '' @ cid\<rparr>, a)
      | Some t \<Rightarrow>
          (if agControl a \<noteq> None then Some cid else None, None,
           emit (EventTunnel (view t)) (a\<lparr>agTunnels := gdel cid (agTunnels a)\<rparr>)))"

text \<open>The session to close, if any.\<close>

definition Shutdown :: "Agent \<Rightarrow> nat option \<times> Agent" where
  "Shutdown a = (if agClosed a then (None, a) else (agSess a, a\<lparr>agClosed := True\<rparr>))"

definition lookupTunnel :: "string \<Rightarrow> Agent \<Rightarrow> activeTunnel option" where
  "lookupTunnel cid a = gget (agTunnels a) cid"

section \<open>Losing the session\<close>

definition reconnectBase :: duration where "reconnectBase = 500 * millisecond"

definition reconnectMax :: duration where "reconnectMax = 30 * second"

text \<open>The tunnels to bind again, when a reconnection starts.\<close>

definition handleSessionDown :: "nat \<Rightarrow> Agent \<Rightarrow> activeTunnel list option \<times> Agent" where
  "handleSessionDown gen a =
     (if gen \<noteq> agSessGen a \<or> \<not> agConnected a then (None, a)
      else
        let prev = map snd (agTunnels a);
            a1 = a\<lparr>agConnected := False, agControl := None\<rparr>;
            a2 = emit (EventStatus (agStatus a1)) a1
        in (if agClosed a then None else Some prev, a2))"

text \<open>One message of the control stream, \<open>None\<close> when reading fails: whether the loop goes on, what is written
  back, the reconnection that starts, and the agent.\<close>

definition agentTurn :: "nat \<Rightarrow> ControlMsg option \<Rightarrow> Agent \<Rightarrow> bool \<times> ControlMsg list \<times> activeTunnel list option \<times> Agent" where
  "agentTurn gen m a =
     (case m of
        None \<Rightarrow> (case handleSessionDown gen a of (p, a') \<Rightarrow> (False, [], p, a'))
      | Some (MsgBindResp br) \<Rightarrow> (True, [], None, deliverBind br a)
      | Some (MsgPing ts) \<Rightarrow> (True, if agControl a = None then [] else [MsgPong ts], None, a)
      | Some (MsgShutdown reason d) \<Rightarrow>
          (case handleSessionDown gen (emit (EventError ''edge draining; reconnecting'') a) of (p, a') \<Rightarrow> (False, [], p, a'))
      | Some (MsgError em) \<Rightarrow> (True, [], None, emit (EventError (emMessage em)) a)
      | _ \<Rightarrow> (True, [], None, a))"

definition firstLabel :: "string \<Rightarrow> string" where
  "firstLabel host = (case index_byte CHR ''.'' host of Some i \<Rightarrow> if i > 0 then take i host else host | None \<Rightarrow> host)"

definition rebindSpec :: "activeTunnel \<Rightarrow> TunnelSpec" where
  "rebindSpec old =
     (let s1 = (if tsSubdomain (atSpec old) = '''' \<and> atAssignedHost old \<noteq> ''''
                then (atSpec old)\<lparr>tsSubdomain := firstLabel (atAssignedHost old)\<rparr> else atSpec old)
      in if tsRemotePort s1 = 0 \<and> atAssignedPort old \<noteq> 0 then s1\<lparr>tsRemotePort := atAssignedPort old\<rparr> else s1)"

definition err_text :: "agent_err \<Rightarrow> string" where
  "err_text e = (case e of CodedErr x \<Rightarrow> err_Error x | PlainErr m \<Rightarrow> m)"

definition rebindOne :: "(BindTunnel \<Rightarrow> BindResp option) \<Rightarrow> byte list \<times> gotime \<Rightarrow> activeTunnel \<Rightarrow> Agent \<Rightarrow> Agent" where
  "rebindOne edge bt old a =
     (let spec = rebindSpec old;
          a1 = a\<lparr>agTunnels := gdel (atClientTunnelID old) (agTunnels a)\<rparr>
      in case bind True edge (fst bt) (snd bt) spec a1 of
           (Inl err, a2) \<Rightarrow> emit (EventError (''re-bind '' @ tsName spec @ '': '' @ err_text err)) a2
         | (Inr _, a2) \<Rightarrow> a2)"

text \<open>The edge may change from one bind to the next; \<open>edges\<close> lists its answers with the bytes and time drawn.\<close>

fun rebindAll :: "((BindTunnel \<Rightarrow> BindResp option) \<times> byte list \<times> gotime) list \<Rightarrow> activeTunnel list \<Rightarrow> Agent \<Rightarrow> Agent" where
  "rebindAll ((edge, bt) # es) (old # prev) a = rebindAll es prev (rebindOne edge bt old a)"
| "rebindAll _ _ a = a"

text \<open>
  The sleeps of \<^verbatim>\<open>reconnect\<close> over failed attempts, starting from a backoff; \<open>jit k n\<close> is what \<^verbatim>\<open>rand.Int63n(n)\<close>
  returns after the \<open>k\<close>th of them.
\<close>

definition sleepFor :: "duration \<Rightarrow> int \<Rightarrow> duration" where
  "sleepFor backoff j = (let sleep = backoff + j in if sleep > reconnectMax then reconnectMax else sleep)"

definition nextBackoff :: "duration \<Rightarrow> duration" where
  "nextBackoff backoff = (if backoff < reconnectMax then backoff * 2 else backoff)"

text \<open>
  \<^verbatim>\<open>reconnect\<close> on the attempts it makes: the sleeps, and the agent. The loop ends when the agent is closed
  or an attempt succeeds; the end of the list is an attempt that has not come back yet.
\<close>

fun reconnect ::
  "(nat \<Rightarrow> int \<Rightarrow> int) \<Rightarrow> nat \<Rightarrow> duration \<Rightarrow> attempt list \<Rightarrow> ((BindTunnel \<Rightarrow> BindResp option) \<times> byte list \<times> gotime) list
     \<Rightarrow> activeTunnel list \<Rightarrow> Agent \<Rightarrow> duration list \<times> Agent" where
  "reconnect jit k backoff [] es prev a = ([], a)"
| "reconnect jit k backoff (at # ats) es prev a =
     (if agClosed a then ([], a)
      else (case connect at a of
              (None, a1) \<Rightarrow> ([], rebindAll es prev a1)
            | (Some err, a1) \<Rightarrow>
                (case reconnect jit (k + 1) (nextBackoff backoff) ats es prev a1 of
                   (ss, a2) \<Rightarrow> (sleepFor backoff (jit k (backoff div 2 + 1)) # ss, a2))))"

section \<open>The agent as a state machine\<close>

text \<open>
  What the goroutines of the agent do, one critical section at a time and in any order. The label is the
  generation of the session whose loss starts a reconnection.
\<close>

inductive ag_step :: "Agent \<Rightarrow> nat option \<Rightarrow> Agent \<Rightarrow> bool" where
  step_connect: "connect at a = (r, a') \<Longrightarrow> ag_step a None a'"
| step_turn: "agentTurn gen m a = (go, outs, p, a') \<Longrightarrow> ag_step a (map_option (\<lambda>_. gen) p) a'"
| step_accept: "handleSessionDown gen a = (p, a') \<Longrightarrow> ag_step a (map_option (\<lambda>_. gen) p) a'"
| step_bindStart: "bindStart wr buf spec a = (r, a') \<Longrightarrow> ag_step a None a'"
| step_bindFinish: "bindFinish w t spec cid a = (r, a') \<Longrightarrow> ag_step a None a'"
| step_stop: "StopTunnel cid a = (m, r, a') \<Longrightarrow> ag_step a None a'"
| step_forget: "ag_step a None (a\<lparr>agTunnels := gdel cid (agTunnels a)\<rparr>)"
| step_shutdown: "Shutdown a = (c, a') \<Longrightarrow> ag_step a None a'"
| step_event: "agEvents a = e # es \<Longrightarrow> ag_step a None (a\<lparr>agEvents := es\<rparr>)"

text \<open>A run with the generations that start a reconnection, in order.\<close>

inductive ag_run :: "Agent \<Rightarrow> nat list \<Rightarrow> Agent \<Rightarrow> bool" where
  run_start: "ag_run a [] a"
| run_step: "ag_run a gs a1 \<Longrightarrow> ag_step a1 None a2 \<Longrightarrow> ag_run a gs a2"
| run_reconnect: "ag_run a gs a1 \<Longrightarrow> ag_step a1 (Some g) a2 \<Longrightarrow> ag_run a (gs @ [g]) a2"

text \<open>What no operation breaks: the table is keyed by the ids of its tunnels, the event buffer is bounded,
  and there is a control stream exactly while connected.\<close>

definition agent_ok :: "Agent \<Rightarrow> bool" where
  "agent_ok a \<longleftrightarrow> gomap_ok (agTunnels a) \<and> (\<forall>k t. gget (agTunnels a) k = Some t \<longrightarrow> atClientTunnelID t = k)
     \<and> length (agEvents a) \<le> 256 \<and> (agControl a \<noteq> None \<longleftrightarrow> agConnected a) \<and> (agConnected a \<longrightarrow> agSess a \<noteq> None)"

lemma emit_fields [simp]:
  "agTunnels (emit e a) = agTunnels a" "agControl (emit e a) = agControl a" "agConnected (emit e a) = agConnected a"
  "agSess (emit e a) = agSess a" "agSessGen (emit e a) = agSessGen a" "agClosed (emit e a) = agClosed a"
  "agPending (emit e a) = agPending a" "agInsp (emit e a) = agInsp a" "agCfg (emit e a) = agCfg a"
  by (simp_all add: emit_def)

lemma emit_events [simp]: "length (agEvents a) \<le> 256 \<Longrightarrow> length (agEvents (emit e a)) \<le> 256"
  by (simp add: emit_def length_try_send)

lemma agent_ok_emit [simp, wf_intros]: "agent_ok a \<Longrightarrow> agent_ok (emit e a)"
  by (simp add: agent_ok_def)

lemma connect_cases:
  assumes "connect at a = (r, a')"
  obtains (failed) e where "r = Some e" "a' = a"
  | (up) sess where "r = None" "agSess a' = Some sess" "agControl a' = Some sess" "agConnected a'" "agSessGen a' = agSessGen a + 1"
      "agTunnels a' = agTunnels a" "agClosed a' = agClosed a" "agCfg a' = agCfg a" "agInsp a' = agInsp a"
      "length (agEvents a) \<le> 256 \<Longrightarrow> length (agEvents a') \<le> 256"
  using assms by (auto simp: connect_def Let_def split: attempt.splits ControlMsg.splits if_splits)

lemma agent_ok_connect [wf_intros]: "agent_ok a \<Longrightarrow> connect at a = (r, a') \<Longrightarrow> agent_ok a'"
  by (erule connect_cases) (auto simp: agent_ok_def)

lemma agent_ok_down [wf_intros]: "agent_ok a \<Longrightarrow> handleSessionDown gen a = (p, a') \<Longrightarrow> agent_ok a'"
  by (auto simp: handleSessionDown_def Let_def agent_ok_def split: if_splits)

lemma agent_ok_deliver [wf_intros]: "agent_ok a \<Longrightarrow> agent_ok (deliverBind br a)"
  by (auto simp: deliverBind_def agent_ok_def split: option.splits)

lemma agent_ok_turn [wf_intros]: "agent_ok a \<Longrightarrow> agentTurn gen m a = (go, outs, p, a') \<Longrightarrow> agent_ok a'"
  by (auto simp: agentTurn_def agent_ok_deliver split: option.splits ControlMsg.splits prod.splits
      dest: agent_ok_down agent_ok_down [OF agent_ok_emit])

lemma newActive_id [simp]: "atClientTunnelID (newActive t spec cid br) = cid"
  by (simp add: newActive_def)

lemma agent_ok_start [wf_intros]: "agent_ok a \<Longrightarrow> bindStart wr buf spec a = (r, a') \<Longrightarrow> agent_ok a'"
  by (auto simp: bindStart_def Let_def agent_ok_def split: option.splits)

lemma agent_ok_finish [wf_intros]: "agent_ok a \<Longrightarrow> bindFinish w t spec cid a = (r, a') \<Longrightarrow> agent_ok a'"
  by (auto simp: bindFinish_def Let_def agent_ok_def split: wake.splits option.splits if_splits)

lemma agent_ok_stop [wf_intros]: "agent_ok a \<Longrightarrow> StopTunnel cid a = (m, r, a') \<Longrightarrow> agent_ok a'"
  by (auto simp: StopTunnel_def agent_ok_def split: option.splits if_splits)

lemma agent_ok_step: "ag_step a l a' \<Longrightarrow> agent_ok a \<Longrightarrow> agent_ok a'"
proof (induction rule: ag_step.induct)
  case (step_shutdown a c a')
  then show ?case by (auto simp: Shutdown_def agent_ok_def split: if_splits)
next
  case (step_forget a cid)
  then show ?case by (simp add: agent_ok_def)
next
  case (step_event a e es)
  then show ?case by (simp add: agent_ok_def)
qed (blast intro: wf_intros)+

lemma agent_ok_new: "agent_ok (newAgent c)"
  by (simp add: agent_ok_def newAgent_def)

text \<open>One step and the generation: only \<open>connect\<close> moves it, and connects; only the loss of the current
  session starts a reconnection, and disconnects.\<close>

lemma down_gen:
  assumes "handleSessionDown gen a = (p, a')"
  shows "agSessGen a' = agSessGen a \<and> agClosed a' = agClosed a \<and> (agConnected a' \<longrightarrow> agConnected a)
     \<and> (p \<noteq> None \<longrightarrow> gen = agSessGen a \<and> agConnected a \<and> \<not> agConnected a' \<and> \<not> agClosed a)"
  using assms by (auto simp: handleSessionDown_def Let_def split: if_splits)

lemma turn_gen:
  assumes "agentTurn gen m a = (go, outs, p, a')"
  shows "agSessGen a' = agSessGen a \<and> agClosed a' = agClosed a \<and> (agConnected a' \<longrightarrow> agConnected a)
     \<and> (p \<noteq> None \<longrightarrow> gen = agSessGen a \<and> agConnected a \<and> \<not> agConnected a' \<and> \<not> agClosed a)"
proof -
  have d: "agSessGen (deliverBind br b) = agSessGen b" "agClosed (deliverBind br b) = agClosed b"
    "agConnected (deliverBind br b) = agConnected b" for br b
    by (auto simp: deliverBind_def split: option.splits)
  from assms show ?thesis
    by (auto simp: agentTurn_def d split: option.splits ControlMsg.splits prod.splits dest: down_gen)
qed

lemma step_gen:
  assumes "ag_step a l a'"
  shows "l = None \<Longrightarrow> agSessGen a' = agSessGen a \<and> (agConnected a' \<longrightarrow> agConnected a) \<or> agSessGen a' = agSessGen a + 1"
    and "l = Some g \<Longrightarrow> g = agSessGen a \<and> agConnected a \<and> agSessGen a' = agSessGen a \<and> \<not> agConnected a' \<and> \<not> agClosed a"
    and "agClosed a \<Longrightarrow> agClosed a'"
proof -
  have "(l = None \<longrightarrow> agSessGen a' = agSessGen a \<and> (agConnected a' \<longrightarrow> agConnected a) \<or> agSessGen a' = agSessGen a + 1)
    \<and> (l = Some g \<longrightarrow> g = agSessGen a \<and> agConnected a \<and> agSessGen a' = agSessGen a \<and> \<not> agConnected a' \<and> \<not> agClosed a)
    \<and> (agClosed a \<longrightarrow> agClosed a')"
    using assms
  proof (induction rule: ag_step.induct)
    case (step_connect at a r a')
    then show ?case by (auto elim: connect_cases)
  next
    case (step_turn gen m a go outs p a')
    then show ?case using turn_gen [OF step_turn] by auto
  next
    case (step_accept gen a p a')
    then show ?case using down_gen [OF step_accept] by auto
  next
    case (step_bindStart wr buf spec a r a')
    then show ?case by (auto simp: bindStart_def Let_def split: option.splits)
  next
    case (step_bindFinish w t spec cid a r a')
    then show ?case by (auto simp: bindFinish_def Let_def split: wake.splits option.splits if_splits)
  next
    case (step_stop cid a m r a')
    then show ?case by (auto simp: StopTunnel_def split: option.splits if_splits)
  next
    case (step_shutdown a c a')
    then show ?case by (auto simp: Shutdown_def split: if_splits)
  qed auto
  then show "l = None \<Longrightarrow> agSessGen a' = agSessGen a \<and> (agConnected a' \<longrightarrow> agConnected a) \<or> agSessGen a' = agSessGen a + 1"
    "l = Some g \<Longrightarrow> g = agSessGen a \<and> agConnected a \<and> agSessGen a' = agSessGen a \<and> \<not> agConnected a' \<and> \<not> agClosed a"
    "agClosed a \<Longrightarrow> agClosed a'" by blast+
qed

lemma run_gens:
  assumes "ag_run (newAgent c) gs a"
  shows "agent_ok a \<and> sorted_wrt (<) gs \<and> (\<forall>g \<in> set gs. 0 < g \<and> g \<le> agSessGen a \<and> (agConnected a \<longrightarrow> g < agSessGen a))
     \<and> (agConnected a \<longrightarrow> 0 < agSessGen a)"
  using assms
proof (induction "newAgent c" gs a rule: ag_run.induct)
  case run_start
  then show ?case by (simp add: agent_ok_new) (simp add: newAgent_def)
next
  case (run_step gs a1 a2)
  from step_gen(1) [OF run_step(3)] agent_ok_step [OF run_step(3)] run_step(2) show ?case by fastforce
next
  case (run_reconnect gs a1 g a2)
  from step_gen(2) [OF run_reconnect(3)] agent_ok_step [OF run_reconnect(3)] run_reconnect(2) show ?case
    by (auto simp: sorted_wrt_append)
qed

lemma bind_Inr:
  assumes "bind wr edge buf t spec a = (Inr tn, a')"
  obtains br where "edge (bindMsg (newClientTunnelID buf) spec) = Some br" "rOk br" "rClientTunnelId br = newClientTunnelID buf"
    "tn = view (newActive t spec (newClientTunnelID buf) br)"
    "lookupTunnel (newClientTunnelID buf) a' = Some (newActive t spec (newClientTunnelID buf) br)"
proof -
  define cid where "cid = newClientTunnelID buf"
  have "bClientTunnelId (bindMsg cid spec) = cid" by (simp add: bindMsg_def)
  with assms obtain a1 br where b: "bindStart wr buf spec a = (Inr (bindMsg cid spec), a1)" "edge (bindMsg cid spec) = Some br"
    and f: "bindFinish (if gget (agPending (deliverBind br a1)) cid = Some None then TimedOut else Answered) t spec cid (deliverBind br a1)
       = (Inr tn, a')"
    by (auto simp: bind_def bindStart_def bindFinish_def Let_def cid_def [symmetric] split: option.splits sum.splits prod.splits)
  from b(1) have "gget (agPending a1) cid = Some None"
    by (auto simp: bindStart_def Let_def cid_def [symmetric] split: option.splits)
  with f have "rClientTunnelId br = cid" "rOk br" "tn = view (newActive t spec cid br)" "lookupTunnel cid a' = Some (newActive t spec cid br)"
    by (auto simp: bindFinish_def deliverBind_def lookupTunnel_def Let_def split: if_splits option.splits)
  with b that show thesis by (simp add: cid_def)
qed

lemma bind_ok:
  assumes "agControl a \<noteq> None" "edge (bindMsg (newClientTunnelID buf) spec) = Some br" "rOk br"
    "rClientTunnelId br = newClientTunnelID buf"
  shows "fst (bind True edge buf t spec a) = Inr (view (newActive t spec (newClientTunnelID buf) br))"
proof -
  have "bClientTunnelId (bindMsg (newClientTunnelID buf) spec) = newClientTunnelID buf" by (simp add: bindMsg_def)
  with assms show ?thesis
    by (simp add: bind_def bindStart_def writeControl_def deliverBind_def bindFinish_def Let_def)
qed

lemma StartTunnel_Inr:
  assumes "StartTunnel at wr edge buf t spec a = (Inr tn, a')"
  obtains a1 where "snd (tunnelType (tsProto (fillSpec spec)))" "bind wr edge buf t (fillSpec spec) a1 = (Inr tn, a')"
  using assms by (auto simp: StartTunnel_def startCheck_def Let_def split: prod.splits option.splits if_splits)

lemma fillSpec_sel [simp]:
  "tsAddr (fillSpec spec) = tsAddr spec" "tsSubdomain (fillSpec spec) = tsSubdomain spec"
  "tsCustomDomain (fillSpec spec) = tsCustomDomain spec" "tsBasicAuth (fillSpec spec) = tsBasicAuth spec"
  "tsHostHeader (fillSpec spec) = tsHostHeader spec" "tsRemotePort (fillSpec spec) = tsRemotePort spec"
  by (simp_all add: fillSpec_def Let_def)

section \<open>Properties\<close>

text \<open>C19. The loss of a session starts at most one reconnection, although the control loop and the accept
  loop both report it and in any order with everything else: in every run of the agent the generations that start
  one are distinct, there are never more of them than sessions were set up, less the live one, and a closed
  agent starts none.\<close>

theorem one_reconnect_per_session:
  assumes "ag_run (newAgent c) gs a"
  shows "distinct gs \<and> length gs + of_bool (agConnected a) \<le> agSessGen a \<and> (agClosed a \<longrightarrow> (\<nexists>g a'. ag_step a (Some g) a'))"
proof -
  note r = run_gens [OF assms]
  then have d: "distinct gs" by (simp add: strict_sorted_iff)
  have "set gs \<subseteq> {1..<agSessGen a + 1 - of_bool (agConnected a)}"
  proof
    fix g assume "g \<in> set gs"
    with r have "0 < g" "g \<le> agSessGen a" "agConnected a \<longrightarrow> g < agSessGen a" by auto
    then show "g \<in> {1..<agSessGen a + 1 - of_bool (agConnected a)}" by (cases "agConnected a") auto
  qed
  from card_mono [OF _ this] d have "length gs \<le> agSessGen a - of_bool (agConnected a)"
    by (cases "agConnected a") (auto simp: distinct_card)
  with r d show ?thesis using step_gen(2) by (cases "agConnected a") auto
qed

theorem one_reconnect_per_session_witness:
  "\<exists>a. ag_run (newAgent DefaultAgentCfg) [1] a \<and> 1 + of_bool (agConnected a) \<le> agSessGen a"
proof -
  let ?a0 = "newAgent DefaultAgentCfg"
  let ?ar = "\<lparr>aOk = True, aAccountId = ''acc'', aPlan = ''free'', aSessionId = ''s'', aError = None\<rparr>"
  define a1 where "a1 = snd (connect (Reply 7 ''quic'' (MsgAuthResp ?ar)) ?a0)"
  define a2 where "a2 = snd (handleSessionDown 1 a1)"
  have "ag_step ?a0 None a1" unfolding a1_def by (rule step_connect [where at = "Reply 7 ''quic'' (MsgAuthResp ?ar)"]) (rule prod.collapse [symmetric])
  then have run1: "ag_run ?a0 [] a1" by (rule run_step [OF run_start])
  have "handleSessionDown 1 a1 = (Some [], a2)"
    unfolding a2_def a1_def by (simp add: connect_def newAgent_def handleSessionDown_def Let_def emit_def)
  from step_accept [OF this] have "ag_step a1 (Some 1) a2" by simp
  with run1 have "ag_run ?a0 ([] @ [1]) a2" by (rule run_reconnect)
  then have "ag_run ?a0 [1] a2" by simp
  with one_reconnect_per_session [OF this] show ?thesis by (intro exI [of _ a2]) simp
qed

text \<open>The backoff after \<open>k\<close> failures.\<close>

fun backoff_after :: "nat \<Rightarrow> duration" where
  "backoff_after 0 = reconnectBase"
| "backoff_after (Suc k) = nextBackoff (backoff_after k)"

lemma backoff_bounds: "reconnectBase \<le> backoff_after k \<and> min (reconnectBase * 2 ^ k) reconnectMax \<le> backoff_after k \<and> backoff_after k < 2 * reconnectMax"
proof (induction k)
  case (Suc k)
  then show ?case by (cases "backoff_after k < reconnectMax") (auto simp: nextBackoff_def reconnectBase_def reconnectMax_def min_def split: if_splits)
qed (simp add: reconnectBase_def reconnectMax_def)

lemma sleepFor_bounds:
  assumes "0 \<le> j" "min (reconnectBase * 2 ^ k) reconnectMax \<le> b"
  shows "min (reconnectBase * 2 ^ k) reconnectMax \<le> sleepFor b j \<and> sleepFor b j \<le> reconnectMax"
  using assms by (auto simp: sleepFor_def Let_def)

lemma reconnect_sleeps:
  assumes "\<And>k n. 0 < n \<Longrightarrow> 0 \<le> jit k n \<and> jit k n < n" "i < length (fst (reconnect jit k (backoff_after k) ats es prev a))"
  shows "min (reconnectBase * 2 ^ (k + i)) reconnectMax \<le> fst (reconnect jit k (backoff_after k) ats es prev a) ! i
     \<and> fst (reconnect jit k (backoff_after k) ats es prev a) ! i \<le> reconnectMax"
  using assms(2)
proof (induction ats arbitrary: k a i)
  case (Cons at ats)
  have c: "\<not> agClosed a" using Cons.prems by (auto split: if_splits)
  moreover obtain e a1 where con: "connect at a = (Some e, a1)"
    using Cons.prems c by (cases "connect at a"; cases "fst (connect at a)") auto
  moreover have "0 \<le> jit k (backoff_after k div 2 + 1)"
    using assms(1) [of "backoff_after k div 2 + 1" k] backoff_bounds [of k] by (simp add: reconnectBase_def)
  moreover have "min (reconnectBase * 2 ^ k) reconnectMax \<le> backoff_after k" using backoff_bounds by blast
  ultimately show ?case
    using Cons.IH [of "i - 1" "k + 1" a1] Cons.prems sleepFor_bounds [of "jit k (backoff_after k div 2 + 1)" k "backoff_after k"]
    by (cases i) (auto split: prod.splits)
qed simp

lemma bind_keeps_session:
  assumes "bind wr edge buf t spec a = (r, a')"
  shows "agConnected a' = agConnected a \<and> agSessGen a' = agSessGen a \<and> agClosed a' = agClosed a"
proof -
  have d: "agSessGen (deliverBind br b) = agSessGen b" "agConnected (deliverBind br b) = agConnected b" "agClosed (deliverBind br b) = agClosed b" for br b
    by (auto simp: deliverBind_def split: option.splits)
  have f: "agSessGen c = agSessGen b \<and> agConnected c = agConnected b \<and> agClosed c = agClosed b"
    if "bindFinish w t spec cid b = (x, c)" for w cid b x c
    using that by (auto simp: bindFinish_def Let_def split: wake.splits option.splits if_splits)
  have s: "agSessGen c = agSessGen b \<and> agConnected c = agConnected b \<and> agClosed c = agClosed b"
    if "bindStart wr buf spec b = (x, c)" for b x c
    using that by (auto simp: bindStart_def Let_def split: option.splits)
  from assms show ?thesis unfolding bind_def
    by (auto split: prod.splits sum.splits option.splits dest!: s f simp: d)
qed

lemma rebindAll_keeps_session: "agConnected (rebindAll es prev a) = agConnected a \<and> agSessGen (rebindAll es prev a) = agSessGen a"
proof (induction es prev a rule: rebindAll.induct)
  case (1 edge bt es old prev a)
  then show ?case using bind_keeps_session [of True edge "fst bt" "snd bt"]
    by (auto simp: rebindOne_def Let_def split: prod.splits sum.splits)
qed auto

lemma reconnect_reaches:
  assumes "\<not> agClosed a" "aOk ar"
  shows "agConnected (snd (reconnect jit k b (fs @ Reply s kd (MsgAuthResp ar) # rest) es prev a))
     \<and> agSessGen (snd (reconnect jit k b (fs @ Reply s kd (MsgAuthResp ar) # rest) es prev a)) = agSessGen a + 1"
  using assms(1)
proof (induction fs arbitrary: k b)
  case Nil
  then show ?case using assms(2) rebindAll_keeps_session by (simp add: connect_def Let_def)
next
  case (Cons f fs)
  obtain r a1 where c: "connect f a = (r, a1)" by fastforce
  from c show ?case
  proof (cases rule: connect_cases)
    case (failed e)
    with Cons.prems c Cons.IH [of "Suc k" "nextBackoff b"] show ?thesis
      by (cases "reconnect jit (Suc k) (nextBackoff b) (fs @ Reply s kd (MsgAuthResp ar) # rest) es prev a") simp
  next
    case (up sess)
    with Cons c show ?thesis using rebindAll_keeps_session by simp
  qed
qed

text \<open>C38. Reconnecting backs off and does not give up. Whatever random jitter is drawn, the sleep after the
  \<open>i\<close>th failed attempt is at least half a second times \<open>2^i\<close> until that reaches the cap of thirty seconds, and is
  never above the cap; and unless the agent is closed, the first attempt the edge accepts leaves it connected, one
  generation on.\<close>

theorem reconnect_backoff:
  assumes "\<And>k n. 0 < n \<Longrightarrow> 0 \<le> jit k n \<and> jit k n < n" "\<not> agClosed a" "aOk ar"
    and "ats = fs @ Reply s kd (MsgAuthResp ar) # rest"
  shows "(\<forall>i < length (fst (reconnect jit 0 reconnectBase ats es prev a)).
      min (reconnectBase * 2 ^ i) reconnectMax \<le> fst (reconnect jit 0 reconnectBase ats es prev a) ! i
      \<and> fst (reconnect jit 0 reconnectBase ats es prev a) ! i \<le> reconnectMax)
    \<and> agConnected (snd (reconnect jit 0 reconnectBase ats es prev a))
    \<and> agSessGen (snd (reconnect jit 0 reconnectBase ats es prev a)) = agSessGen a + 1"
  using reconnect_sleeps [OF assms(1), where k = 0 and ats = ats and es = es and prev = prev and a = a]
    reconnect_reaches [OF assms(2,3)] by (simp add: assms(4))

theorem reconnect_backoff_witness:
  "agConnected (snd (reconnect (\<lambda>_ _. 0) 0 reconnectBase
     ([NoDial '''', NoDial ''''] @ [Reply 7 ''tcp'' (MsgAuthResp \<lparr>aOk = True, aAccountId = ''a'', aPlan = ''free'', aSessionId = ''s'', aError = None\<rparr>)])
     [] [] (newAgent DefaultAgentCfg)))"
  using reconnect_backoff [of "\<lambda>_ _. 0" "newAgent DefaultAgentCfg" "\<lparr>aOk = True, aAccountId = ''a'', aPlan = ''free'', aSessionId = ''s'', aError = None\<rparr>"
      _ "[NoDial '''', NoDial '''']" 7 "''tcp''" "[]" "[]" "[]"]
  by (simp add: newAgent_def)

end
