(* ===== verification/Ingress.thy ===== *)
theory Ingress
  imports Http Edge
begin

text \<open>
  Public HTTP ingress: \<^verbatim>\<open>serveHTTPConn\<close> and its helpers (\<^verbatim>\<open>internal/server/ingress_http.go\<close>), the
  HTTP/2 and HTTP/3 handler \<^verbatim>\<open>routeHTTPS\<close> (\<^verbatim>\<open>ingress_h3.go\<close>), the hand-off between edges
  (\<^verbatim>\<open>forward.go\<close>) and its receiving side (\<^verbatim>\<open>forward_listener.go\<close>). A request is handled to a list of
  visible events (what is written where) and the new state. Everything the network answers is in
  the record \<open>Net\<close>. The parsed form of an upstream URL of the configuration is the argument
  \<open>urlHost\<close>.
\<close>

section \<open>Requests, events, environment\<close>

record Request =
  rqHost :: string
  rqURI :: string
  rqHeader :: Header
  rqClose :: bool
  rqContentLength :: int

record Response =
  rsStatus :: int
  rsHeader :: Header
  rsClose :: bool
  rsContentLength :: int

record StreamInit =
  siClientTunnelId :: string
  siRemoteAddr :: string
  siProto :: string
  siMeta :: "(string, string) gomap"

record Conn =
  connRemoteAddr :: string
  isForwarded :: bool

datatype ev =
    EvRedirect string
  | EvUpstream string Request
  | EvPeer string StreamInit Request
  | EvAgent tref StreamInit Request
  | EvRelay Response
  | EvStatus int
  | EvSleep duration

record Net =
  nNow :: gotime
  nRid :: "byte list"
  nOpenStream :: "tref \<Rightarrow> bool"
  nWriteReq :: bool
  nResponse :: "Response option"
  nWriteResp :: bool
  nCopied :: "int \<times> int"
  nProxy :: "Response option"
  nUrlHost :: "string \<Rightarrow> string option"
  nDial :: "string \<Rightarrow> bool"
  nReg2 :: InMemoryRegistry

section \<open>Routing helpers\<close>

definition reservedUpstream :: "EdgeConfig \<Rightarrow> string \<Rightarrow> string" where
  "reservedUpstream c host =
     (let base = to_lower (BaseDomain c) in
      if host = base \<or> host = ''www.'' @ base then SiteUpstream c
      else if host = ''app.'' @ base \<or> host = ''qr.'' @ base then AppUpstream c
      else if host = ''api.'' @ base \<or> host = ''approve.'' @ base then APIUpstream c
      else '''')"

definition clientIP :: "string \<Rightarrow> string" where
  "clientIP addr = (case split_host_port addr of Some (ip, _) \<Rightarrow> ip | None \<Rightarrow> addr)"

definition newRequestID :: "byte list \<Rightarrow> string" where
  "newRequestID buf = ''req_'' @ randSubdomain buf"

definition redirectToHTTPS :: "string \<Rightarrow> Request \<Rightarrow> ev" where
  "redirectToHTTPS host req = EvRedirect (''https://'' @ host @ rqURI req)"

text \<open>\<^verbatim>\<open>setAltSvc\<close>; \<open>AltSvc\<close> is the advertisement of the HTTP/3 ingress, empty when it is off.\<close>

definition setAltSvc :: "EdgeConfig \<Rightarrow> Header \<Rightarrow> Header" where
  "setAltSvc c h = (if AltSvc c \<noteq> '''' then hdr_Set ''Alt-Svc'' (AltSvc c) h else h)"

text \<open>\<^verbatim>\<open>proxyToUpstream\<close>: the events and whether the connection may be reused.\<close>

definition proxyToUpstream :: "Net \<Rightarrow> EdgeConfig \<Rightarrow> Conn \<Rightarrow> Request \<Rightarrow> string \<Rightarrow> string \<Rightarrow> ev list \<times> bool" where
  "proxyToUpstream n c conn req scheme upstream =
     (case nUrlHost n upstream of
        None \<Rightarrow> ([EvStatus 502], False)
      | Some uhost \<Rightarrow>
          let h1 = removeHopByHopHeaders (rqHeader req);
              h2 = hdr_Set ''X-Forwarded-Proto'' scheme h1;
              h3 = hdr_Set ''X-Forwarded-Host'' (rqHost req) h2;
              h4 = hdr_Set ''X-Forwarded-For'' (clientIP (connRemoteAddr conn)) h3;
              outReq = req\<lparr>rqHeader := h4\<rparr>
          in (case nProxy n of
                None \<Rightarrow> ([EvUpstream uhost outReq, EvStatus 502], False)
              | Some resp \<Rightarrow>
                  let rh = (if scheme = ''https''
                            then hdr_Set ''Strict-Transport-Security'' ''max-age=31536000; includeSubDomains'' (rsHeader resp)
                            else rsHeader resp);
                      keepAlive = (\<not> rqClose req \<and> \<not> rsClose resp)
                  in ([EvUpstream uhost outReq, EvRelay (resp\<lparr>rsHeader := setAltSvc c rh\<rparr>)],
                      nWriteResp n \<and> keepAlive)))"

section \<open>The hop between edges\<close>

definition forwardTokenMeta :: string where
  "forwardTokenMeta = ''fwd_token''"

text \<open>\<^verbatim>\<open>dialForwarder.Dial\<close>: the peer's address and the header written to it.\<close>

definition fwd_Dial :: "Net \<Rightarrow> EdgeConfig \<Rightarrow> InMemoryRegistry \<Rightarrow> string \<Rightarrow> string \<Rightarrow> string \<Rightarrow> (string \<times> StreamInit) option" where
  "fwd_Dial n c g edgeID scheme clientAddr =
     (if ForwardAddr c = '''' \<or> InternalToken c = '''' then None
      else (case LookupEdge (nNow n) edgeID g of
              None \<Rightarrow> None
            | Some addr \<Rightarrow>
                if nDial n addr
                then Some (addr, \<lparr>siClientTunnelId = '''', siRemoteAddr = clientAddr, siProto = scheme,
                                  siMeta = [(forwardTokenMeta, InternalToken c)]\<rparr>)
                else None))"

text \<open>The retry looks the route up again; the registry may have changed meanwhile (\<open>nReg2\<close>).\<close>

definition dialForwardWithRetry ::
  "Net \<Rightarrow> EdgeConfig \<Rightarrow> InMemoryRegistry \<Rightarrow> string \<Rightarrow> string \<Rightarrow> string \<Rightarrow> string \<Rightarrow> (string \<times> StreamInit) option" where
  "dialForwardWithRetry n c g edgeID host scheme clientAddr =
     (case fwd_Dial n c g edgeID scheme clientAddr of
        Some p \<Rightarrow> Some p
      | None \<Rightarrow>
          (case reg_Lookup (nNow n) (host_route host) (nReg2 n) of
             None \<Rightarrow> None
           | Some b \<Rightarrow>
               if EdgeID b = cfgEdgeID c \<or> EdgeID b = edgeID then None
               else fwd_Dial n c (nReg2 n) (EdgeID b) scheme clientAddr))"

definition forwardHTTP :: "Net \<Rightarrow> Conn \<Rightarrow> Request \<Rightarrow> string \<Rightarrow> string \<Rightarrow> Server \<Rightarrow> ev list option" where
  "forwardHTTP n conn req host scheme s =
     (case reg_Lookup (nNow n) (host_route host) (reg s) of
        None \<Rightarrow> None
      | Some b \<Rightarrow>
          if EdgeID b = cfgEdgeID (cfg s) then None
          else (case dialForwardWithRetry n (cfg s) (reg s) (EdgeID b) host scheme (connRemoteAddr conn) of
                  None \<Rightarrow> Some [EvStatus 502]
                | Some (addr, hdr) \<Rightarrow>
                    if nWriteReq n then Some [EvPeer addr hdr req] else Some [EvStatus 502]))"

section \<open>Serving a request\<close>

text \<open>The request as it is sent to the agent: the forwarding headers are the edge's own.\<close>

definition agentRequest :: "Net \<Rightarrow> Conn \<Rightarrow> string \<Rightarrow> string \<Rightarrow> boundTunnel \<Rightarrow> Request \<Rightarrow> Request" where
  "agentRequest n conn scheme host bt req =
     (let hh = opt_get (btOptions bt) ''host_header'';
          r1 = (if hh \<noteq> '''' then req\<lparr>rqHost := hh\<rparr> else req);
          h1 = hdr_Set ''X-Forwarded-Proto'' scheme (rqHeader r1);
          h2 = hdr_Set ''X-Forwarded-Host'' host h1;
          h3 = hdr_Set ''X-Request-Id'' (newRequestID (nRid n)) h2;
          h4 = hdr_Set ''X-Forwarded-For'' (clientIP (connRemoteAddr conn)) h3;
          h5 = hdr_Set ''X-Real-Ip'' (clientIP (connRemoteAddr conn)) h4
      in r1\<lparr>rqHeader := hdr_Del ''Forwarded'' h5\<rparr>)"

definition agentInit :: "Net \<Rightarrow> string \<Rightarrow> string \<Rightarrow> string \<Rightarrow> boundTunnel \<Rightarrow> StreamInit" where
  "agentInit n raddr scheme host bt =
     \<lparr>siClientTunnelId = clientTunnelID bt, siRemoteAddr = raddr, siProto = scheme,
      siMeta = [(''host'', host), (''request_id'', newRequestID (nRid n))]\<rparr>"

definition usageEnv :: "Net \<Rightarrow> Env" where
  "usageEnv n = \<lparr>now = nNow n, rnd = (\<lambda>_. []), listen = (\<lambda>_ _. Inl ''''), checkBind = (\<lambda>_. Inl '''')\<rparr>"

text \<open>
  One turn of the loop of \<^verbatim>\<open>serveHTTPConn\<close>: the events, whether the connection is kept for another
  request, the count of failed passwords, and the server.
\<close>

definition serveRequest ::
  "Net \<Rightarrow> Conn \<Rightarrow> string \<Rightarrow> int \<Rightarrow> Request \<Rightarrow> Server \<Rightarrow> ev list \<times> bool \<times> int \<times> Server" where
  "serveRequest n conn scheme authFailures req s =
     (let host = hostOnly (rqHost req) in
      if scheme = ''http'' \<and> reservedUpstream (cfg s) host \<noteq> ''''
      then ([redirectToHTTPS host req], False, authFailures, s)
      else (case LookupHost host (hub s) of
         None \<Rightarrow>
           let up = reservedUpstream (cfg s) host in
           if up \<noteq> ''''
           then (case proxyToUpstream n (cfg s) conn req scheme up of (evs, keep) \<Rightarrow> (evs, keep, authFailures, s))
           else
             (case (if forwardingEnabled (cfg s) \<and> \<not> isForwarded conn
                    then forwardHTTP n conn req host scheme s else None) of
                Some evs \<Rightarrow> (evs, False, authFailures, s)
              | None \<Rightarrow> ([EvStatus 404], False, authFailures, s))
       | Some t \<Rightarrow>
           let bt = bts s t in
           if \<not> checkBasicAuth (rqHeader req) (btOptions bt) then
             let f = authFailures + 1 in
             ([EvSleep (basicAuthDelay f), EvStatus 401], f < maxBasicAuthFailures, f, s)
           else
             let req' = agentRequest n conn scheme host bt req;
                 st = agentInit n (connRemoteAddr conn) scheme host bt
             in if \<not> nOpenStream n t then ([EvStatus 502], False, authFailures, s)
             else if \<not> nWriteReq n then ([EvAgent t st req'], False, authFailures, s)
             else if isUpgrade (rqHeader req') then
               ([EvAgent t st req'], False, authFailures,
                recordUsage (usageEnv n) t (fst (nCopied n)) (snd (nCopied n)) 1 s)
             else (case nResponse n of
                None \<Rightarrow> ([EvAgent t st req', EvStatus 502], False, authFailures, s)
              | Some resp \<Rightarrow>
                  let relay = EvRelay (resp\<lparr>rsHeader := setAltSvc (cfg s) (rsHeader resp)\<rparr>) in
                  if \<not> nWriteResp n then ([EvAgent t st req', relay], False, authFailures, s)
                  else ([EvAgent t st req', relay], \<not> (rqClose req \<or> rsClose resp), authFailures,
                        recordUsage (usageEnv n) t (max64 (rqContentLength req) 0)
                          (max64 (rsContentLength resp) 0) 1 s))))"

text \<open>The loop, on the requests the client sends; the end of the list is the read error.\<close>

fun serveHTTPConn :: "Conn \<Rightarrow> string \<Rightarrow> int \<Rightarrow> (Net \<times> Request) list \<Rightarrow> Server \<Rightarrow> ev list \<times> Server" where
  "serveHTTPConn conn scheme f [] s = ([], s)"
| "serveHTTPConn conn scheme f ((n, req) # rs) s =
     (case serveRequest n conn scheme f req s of
        (evs, keep, f', s') \<Rightarrow>
          if keep then (case serveHTTPConn conn scheme f' rs s' of (evs2, s2) \<Rightarrow> (evs @ evs2, s2))
          else (evs, s'))"

text \<open>\<^verbatim>\<open>serveForward\<close>: the connection of a peer edge, its header, and what follows on it.\<close>

definition serveForward :: "StreamInit \<Rightarrow> (Net \<times> Request) list \<Rightarrow> Server \<Rightarrow> ev list \<times> Server" where
  "serveForward hdr rs s =
     (let token = opt_get (siMeta hdr) forwardTokenMeta in
      if InternalToken (cfg s) = '''' \<or> token \<noteq> InternalToken (cfg s) then ([], s)
      else if siProto hdr = ''http'' \<or> siProto hdr = ''https''
      then serveHTTPConn \<lparr>connRemoteAddr = siRemoteAddr hdr, isForwarded = True\<rparr> (siProto hdr) 0 rs s
      else ([], s))"

section \<open>HTTP/2 and HTTP/3\<close>

definition proxyToUpstreamH3 :: "Net \<Rightarrow> EdgeConfig \<Rightarrow> string \<Rightarrow> Request \<Rightarrow> string \<Rightarrow> ev list" where
  "proxyToUpstreamH3 n c raddr req upstream =
     (case nUrlHost n upstream of
        None \<Rightarrow> [EvStatus 502]
      | Some uhost \<Rightarrow>
          let h1 = removeHopByHopHeaders (rqHeader req);
              h2 = hdr_Set ''X-Forwarded-Proto'' ''https'' h1;
              h3 = hdr_Set ''X-Forwarded-Host'' (rqHost req) h2;
              h4 = (case split_host_port raddr of
                      Some (ip, _) \<Rightarrow> hdr_Set ''X-Forwarded-For'' ip h3
                    | None \<Rightarrow> if raddr \<noteq> '''' then hdr_Set ''X-Forwarded-For'' raddr h3 else h3);
              outReq = req\<lparr>rqHeader := h4\<rparr>
          in (case nProxy n of
                None \<Rightarrow> [EvUpstream uhost outReq, EvStatus 502]
              | Some resp \<Rightarrow>
                  [EvUpstream uhost outReq,
                   EvRelay (resp\<lparr>rsHeader := setAltSvc c (removeHopByHopHeaders
                     (hdr_Set ''Strict-Transport-Security'' ''max-age=31536000; includeSubDomains'' (rsHeader resp)))\<rparr>)]))"

definition routeHTTPS :: "Net \<Rightarrow> string \<Rightarrow> Request \<Rightarrow> Server \<Rightarrow> ev list \<times> Server" where
  "routeHTTPS n raddr req s =
     (let host = hostOnly (rqHost req) in
      case LookupHost host (hub s) of
        None \<Rightarrow>
          let up = reservedUpstream (cfg s) host in
          if up \<noteq> '''' then (proxyToUpstreamH3 n (cfg s) raddr req up, s) else ([EvStatus 404], s)
      | Some t \<Rightarrow>
          let bt = bts s t in
          if \<not> checkBasicAuth (rqHeader req) (btOptions bt) then ([EvStatus 401], s)
          else
            let hh = opt_get (btOptions bt) ''host_header'';
                r1 = (if hh \<noteq> '''' then req\<lparr>rqHost := hh\<rparr> else req);
                h1 = hdr_Set ''X-Forwarded-Proto'' ''https'' (rqHeader r1);
                h2 = hdr_Set ''X-Forwarded-Host'' host h1;
                h3 = hdr_Set ''X-Request-Id'' (newRequestID (nRid n)) h2;
                req' = r1\<lparr>rqHeader := h3\<rparr>;
                st = agentInit n raddr ''https'' host bt
            in if \<not> nOpenStream n t then ([EvStatus 502], s)
            else if \<not> nWriteReq n then ([EvAgent t st req', EvStatus 502], s)
            else (case nResponse n of
               None \<Rightarrow> ([EvAgent t st req', EvStatus 502], s)
             | Some resp \<Rightarrow>
                 ([EvAgent t st req', EvRelay (resp\<lparr>rsHeader := setAltSvc (cfg s) (removeHopByHopHeaders (rsHeader resp))\<rparr>)],
                  recordUsage (usageEnv n) t (max64 (rqContentLength req) 0) (snd (nCopied n)) 1 s)))"

end
