(* ===== verification/Forward.thy ===== *)
theory Forward
  imports Agent Ingress Framing
begin

text \<open>
  Data streams at the agent: \<^verbatim>\<open>internal/agent/forward.go\<close>. A stream the edge opens is handed to the local
  service of the tunnel it names. The local service, the sockets and the clock are in the record \<open>LocalEnv\<close>; what is
  written where is a list of events.
\<close>

section \<open>Helpers\<close>

definition hopHeaders :: "string list" where
  "hopHeaders = [''Connection'', ''Proxy-Connection'', ''Keep-Alive'', ''Proxy-Authenticate'', ''Proxy-Authorization'', ''Te'',
     ''Trailer'', ''Transfer-Encoding'', ''Upgrade'']"

text \<open>\<^verbatim>\<open>capWriter\<close> counts all bytes and keeps the first \<open>cwMax\<close>.\<close>

record capWriter =
  cwMax :: nat
  cwBuf :: "byte list"
  cwTotal :: int

definition cw_Write :: "byte list \<Rightarrow> capWriter \<Rightarrow> capWriter" where
  "cw_Write p w =
     (let w1 = w\<lparr>cwTotal := cwTotal w + int (length p)\<rparr>;
          room = int (cwMax w1) - int (length (cwBuf w1))
      in if room > 0 then
           let room' = (if room > int (length p) then int (length p) else room)
           in w1\<lparr>cwBuf := cwBuf w1 @ take (nat room') p\<rparr>
         else w1)"

definition newCapWriter :: capWriter where
  "newCapWriter = \<lparr>cwMax = MaxBodyCapture, cwBuf = [], cwTotal = 0\<rparr>"

text \<open>Reading through a \<^verbatim>\<open>teeReadCloser\<close>: what the reader of it gets for the pieces of the body, and the writer, which has seen the same
  pieces.\<close>

fun tee :: "byte list list \<Rightarrow> capWriter \<Rightarrow> byte list list \<times> capWriter" where
  "tee [] w = ([], w)"
| "tee (p # ps) w = (case tee ps (cw_Write p w) of (out, w') \<Rightarrow> (p # out, w'))"

text \<open>\<^verbatim>\<open>strings.Index\<close>.\<close>

fun index_str :: "string \<Rightarrow> string \<Rightarrow> nat option" where
  "index_str p [] = (if p = [] then Some 0 else None)"
| "index_str p (c # cs) = (if has_prefix (c # cs) p then Some 0 else map_option Suc (index_str p cs))"

definition normalizeLocalAddr :: "string \<Rightarrow> string" where
  "normalizeLocalAddr addr0 =
     (let addr = trim_space addr0 in
      if addr = '''' then ''localhost:80''
      else
        let addr1 = (case index_str ''://'' addr of Some i \<Rightarrow> drop (i + 3) addr | None \<Rightarrow> addr) in
        if CHR '':'' \<notin> set addr1 then ''localhost:'' @ addr1 else addr1)"

definition isUpgradeReq :: "Header \<Rightarrow> bool" where
  "isUpgradeReq h = str_contains (to_lower (hdr_Get h ''Connection'')) ''upgrade''"

definition hdrMap :: "Header \<Rightarrow> (string, string) gomap" where
  "hdrMap h = map (\<lambda>(k, v). (k, join '', '' v)) h"

section \<open>The environment\<close>

record DataReq =
  dqMethod :: string
  dqHost :: string
  dqURI :: string
  dqHeader :: Header
  dqClose :: bool
  dqBody :: "byte list list"

text \<open>
  \<open>leReq\<close> is what \<^verbatim>\<open>http.ReadRequest\<close> reads off the stream, with the pieces its body is read in; \<open>leTaken\<close> how many of them
  the transport takes before the exchange is over; \<open>leTrip\<close> the transport's answer at an address to the request with the body it took,
  with the pieces of the body of the response; \<open>leWritten\<close> whether the response
  could be written to the stream; \<open>leDial\<close> the error of a dial, if any; \<open>leWeld\<close> the bytes copied each way.
\<close>

record LocalEnv =
  leStart :: gotime
  leEnd :: gotime
  leReq :: "DataReq option"
  leTaken :: nat
  leTrip :: "string \<Rightarrow> DataReq \<Rightarrow> string + int \<times> Header \<times> byte list list"
  leWritten :: bool
  leDial :: "string \<Rightarrow> string \<Rightarrow> string option"
  leReqSent :: bool
  leWeld :: "int \<times> int"
  leStream :: "byte list"
  leUdpSend :: "byte list \<Rightarrow> bool"
  leUdpRecv :: "byte list list"

datatype fwd_ev =
    FwLocal string DataReq
  | FwConn string
  | FwUpgrade string DataReq
  | FwDatagrams string "byte list list"
  | FwFrames "byte list"
  | FwResp int Header "byte list"
  | FwError int string

section \<open>Operations\<close>

definition upd_at :: "string \<Rightarrow> (TunnelMetrics \<Rightarrow> TunnelMetrics) \<Rightarrow> Agent \<Rightarrow> Agent" where
  "upd_at cid f a =
     (case gget (agTunnels a) cid of
        None \<Rightarrow> a
      | Some t \<Rightarrow> a\<lparr>agTunnels := gset cid (t\<lparr>atMetrics := f (atMetrics t)\<rparr>) (agTunnels a)\<rparr>)"

definition addBytes :: "int \<Rightarrow> int \<Rightarrow> TunnelMetrics \<Rightarrow> TunnelMetrics" where
  "addBytes i ou m = m\<lparr>tmBytesIn := wrap64 (tmBytesIn m + i), tmBytesOut := wrap64 (tmBytesOut m + ou)\<rparr>"

definition forwardRaw :: "LocalEnv \<Rightarrow> activeTunnel \<Rightarrow> Agent \<Rightarrow> fwd_ev list \<times> Agent" where
  "forwardRaw le at a =
     (let addr = normalizeLocalAddr (tsAddr (atSpec at)) in
      case leDial le ''tcp'' addr of
        Some err \<Rightarrow> ([], emit (EventError (''dial local '' @ tsAddr (atSpec at) @ '': '' @ err)) a)
      | None \<Rightarrow> ([FwConn addr], upd_at (atClientTunnelID at) (addBytes (fst (leWeld le)) (snd (leWeld le))) a))"

definition forwardUpgrade :: "LocalEnv \<Rightarrow> DataReq \<Rightarrow> activeTunnel \<Rightarrow> Agent \<Rightarrow> fwd_ev list \<times> Agent" where
  "forwardUpgrade le req at a =
     (let addr = normalizeLocalAddr (tsAddr (atSpec at)) in
      case leDial le ''tcp'' addr of
        Some err \<Rightarrow> ([FwError 502 ''local service unreachable''],
                     emit (EventError (''dial local '' @ tsAddr (atSpec at) @ '': '' @ err)) a)
      | None \<Rightarrow>
          if \<not> leReqSent le then ([FwUpgrade addr req], a)
          else ([FwUpgrade addr req], upd_at (atClientTunnelID at) (addBytes (fst (leWeld le)) (snd (leWeld le))) a))"

text \<open>The request as it goes to the local service: only the URL and the hop-by-hop headers change.\<close>

definition localReq :: "DataReq \<Rightarrow> DataReq" where
  "localReq req = req\<lparr>dqHeader := fold hdr_Del hopHeaders (dqHeader req), dqClose := False\<rparr>"

definition ag_forwardHTTP :: "LocalEnv \<Rightarrow> StreamInit \<Rightarrow> activeTunnel \<Rightarrow> Agent \<Rightarrow> fwd_ev list \<times> Agent" where
  "ag_forwardHTTP le si at a =
     (case leReq le of
        None \<Rightarrow> ([], a)
      | Some req \<Rightarrow>
          if isUpgradeReq (dqHeader req) then forwardUpgrade le req at a
          else
            let addr = normalizeLocalAddr (tsAddr (atSpec at));
                (sent, reqCap) = tee (take (leTaken le) (dqBody req)) newCapWriter;
                lreq = (localReq req)\<lparr>dqBody := sent\<rparr>
            in (case leTrip le addr lreq of
                  Inl err \<Rightarrow>
                    ([FwLocal addr lreq, FwError 502 ''local service unreachable''],
                     emit (EventError (''forward to '' @ tsAddr (atSpec at) @ '': '' @ err)) a)
                | Inr (status, rh, chunks) \<Rightarrow>
                    let (out, respCap) = tee chunks newCapWriter;
                        evs = [FwLocal addr lreq, FwResp status rh (concat out)]
                    in if \<not> leWritten le then (evs, a)
                       else
                         let a1 = upd_at (atClientTunnelID at)
                                    (\<lambda>m. addBytes (cwTotal reqCap) (cwTotal respCap) (m\<lparr>tmRequests := tmRequests m + 1\<rparr>)) a;
                             cap = \<lparr>crID = '''', crTunnelID = atClientTunnelID at, crProto = siProto si, crMethod = dqMethod req,
                                    crHost = dqHost req, crPath = dqURI req, crStatus = status, crStartedAt = leStart le,
                                    crDurationMs = (leEnd le - leStart le) div millisecond, crReqHeaders = hdrMap (dqHeader req),
                                    crRespHeaders = hdrMap rh, crReqBody = cwBuf reqCap, crRespBody = cwBuf respCap,
                                    crBytesIn = cwTotal reqCap, crBytesOut = cwTotal respCap, crLocalAddr = addr\<rparr>
                         in (case rec_Add cap (agInsp a1) of
                               (captured, r) \<Rightarrow> (evs, emit (EventRequest captured) (a1\<lparr>agInsp := r\<rparr>)))))"

text \<open>Both loops of \<^verbatim>\<open>forwardUDP\<close>: frames off the stream become datagrams, datagrams become frames.\<close>

definition forwardUDP :: "LocalEnv \<Rightarrow> activeTunnel \<Rightarrow> Agent \<Rightarrow> fwd_ev list \<times> Agent" where
  "forwardUDP le at a =
     (let addr = normalizeLocalAddr (tsAddr (atSpec at)) in
      case leDial le ''udp'' addr of
        Some err \<Rightarrow> ([], emit (EventError (''dial local udp '' @ tsAddr (atSpec at) @ '': '' @ err)) a)
      | None \<Rightarrow>
          (case udpRecvLoop (leUdpSend le) (leStream le) of
             (ps, n) \<Rightarrow>
               ([FwDatagrams addr ps, FwFrames (foldl (\<lambda>w d. snd (writeUDPFrame buf_write w d)) [] (leUdpRecv le))],
                upd_at (atClientTunnelID at) (addBytes (int n) (int (sum_list (map length (leUdpRecv le))))) a)))"

text \<open>\<open>None\<close> when the header of the stream cannot be read.\<close>

definition handleDataStream :: "LocalEnv \<Rightarrow> StreamInit option \<Rightarrow> Agent \<Rightarrow> fwd_ev list \<times> Agent" where
  "handleDataStream le init a =
     (case init of
        None \<Rightarrow> ([], a)
      | Some si \<Rightarrow>
          (case lookupTunnel (siClientTunnelId si) a of
             None \<Rightarrow> ([], a)
           | Some at \<Rightarrow>
               let a1 = upd_at (atClientTunnelID at) (\<lambda>m. m\<lparr>tmConnections := tmConnections m + 1\<rparr>) a;
                   p = to_lower (siProto si)
               in if p = ''http'' \<or> p = ''https'' then ag_forwardHTTP le si at a1
                  else if p = ''udp'' then forwardUDP le at a1
                  else forwardRaw le at a1))"

section \<open>Facts\<close>

lemma cw_Write_take:
  assumes "cwBuf w = take (cwMax w) xs" "cwTotal w = int (length xs)"
  shows "cwBuf (cw_Write p w) = take (cwMax w) (xs @ p) \<and> cwTotal (cw_Write p w) = int (length (xs @ p)) \<and> cwMax (cw_Write p w) = cwMax w"
proof (cases "length xs < cwMax w")
  case True
  then have "nat (int (cwMax w) - int (length xs)) = cwMax w - length xs" by simp
  with True assms show ?thesis by (auto simp: cw_Write_def Let_def take_all_iff)
next
  case False
  with assms show ?thesis by (simp add: cw_Write_def Let_def)
qed

lemma fold_cw_Write:
  assumes "cwBuf w = take (cwMax w) xs" "cwTotal w = int (length xs)"
  shows "cwBuf (fold cw_Write cs w) = take (cwMax w) (xs @ concat cs) \<and> cwTotal (fold cw_Write cs w) = int (length (xs @ concat cs))"
  using assms
proof (induction cs arbitrary: w xs)
  case (Cons c cs)
  from cw_Write_take [OF Cons.prems, of c] Cons.IH [of "cw_Write c w" "xs @ c"] show ?case by simp
qed simp

text \<open>However a body is cut into pieces, the capture is its beginning and the count its length.\<close>

lemma tee_fold: "tee cs w = (cs, fold cw_Write cs w)"
  by (induction cs arbitrary: w) simp_all

lemma tee_eq:
  "fst (tee cs newCapWriter) = cs" "cwBuf (snd (tee cs newCapWriter)) = take MaxBodyCapture (concat cs)"
  "cwTotal (snd (tee cs newCapWriter)) = int (length (concat cs))"
  using fold_cw_Write [of newCapWriter "[]" cs] by (simp_all add: tee_fold newCapWriter_def)

lemma upd_at_sel [simp]:
  "agInsp (upd_at cid f a) = agInsp a" "agEvents (upd_at cid f a) = agEvents a"
  "gget (agTunnels (upd_at cid f a)) k =
     (if k = cid then map_option (\<lambda>t. t\<lparr>atMetrics := f (atMetrics t)\<rparr>) (gget (agTunnels a) k) else gget (agTunnels a) k)"
  by (auto simp: upd_at_def split: option.splits)

lemma rec_Add_newest: "rec_Add c r = (c', r') \<Longrightarrow> crID c = '''' \<Longrightarrow>
    c' = c\<lparr>crID := ''r'' @ show_nat (recSeq r + 1)\<rparr> \<and> rec_List r' \<noteq> [] \<and> hd (rec_List r') = c'"
  by (auto simp: rec_Add_def rec_List_def Let_def)

section \<open>Properties\<close>

text \<open>C20. An HTTP exchange passes through the agent unchanged and is recorded in bounds. For a request (not an upgrade) that the local
  service answers and whose response could be written to the stream, the service gets the method, path and host, the headers
  except the hop-by-hop ones, and the body byte for byte as far as the transport reads it (all of it, if it reads to
  the end); the edge gets the status, headers and whole body of the response; the inspector's newest capture holds the first
  64 KiB of each body, however the bodies were cut into pieces, and their full lengths; and the counters of the tunnel grow by
  these lengths.\<close>

theorem http_exchange_exact:
  fixes le req
  defines "body \<equiv> take (leTaken le) (dqBody req)"
  defines "lreq \<equiv> (localReq req)\<lparr>dqBody := body\<rparr>"
  assumes "agent_ok a" "lookupTunnel (siClientTunnelId si) a = Some at" "to_lower (siProto si) \<in> {''http'', ''https''}"
    and "leReq le = Some req" "\<not> isUpgradeReq (dqHeader req)" "leWritten le"
    and "leTrip le (normalizeLocalAddr (tsAddr (atSpec at))) lreq = Inr (status, rh, chunks)"
    and "handleDataStream le (Some si) a = (evs, a')"
  shows "evs = [FwLocal (normalizeLocalAddr (tsAddr (atSpec at))) lreq, FwResp status rh (concat chunks)]
    \<and> dqMethod lreq = dqMethod req \<and> dqURI lreq = dqURI req \<and> dqHost lreq = dqHost req
    \<and> (\<forall>k. gget (dqHeader lreq) k = (if k \<in> set hopHeaders then None else gget (dqHeader req) k))
    \<and> (length (dqBody req) \<le> leTaken le \<longrightarrow> dqBody lreq = dqBody req)
    \<and> (\<exists>c. hd (rec_List (agInsp a')) = c \<and> crTunnelID c = siClientTunnelId si \<and> crPath c = dqURI req \<and> crStatus c = status
         \<and> crReqBody c = take MaxBodyCapture (concat body) \<and> crRespBody c = take MaxBodyCapture (concat chunks)
         \<and> crBytesIn c = int (length (concat body)) \<and> crBytesOut c = int (length (concat chunks)))
    \<and> map_option atMetrics (lookupTunnel (siClientTunnelId si) a') =
        Some (addBytes (int (length (concat body))) (int (length (concat chunks)))
          ((atMetrics at)\<lparr>tmConnections := tmConnections (atMetrics at) + 1, tmRequests := tmRequests (atMetrics at) + 1\<rparr>))"
proof -
  have cid: "atClientTunnelID at = siClientTunnelId si" using assms(3,4) by (auto simp: agent_ok_def lookupTunnel_def)
  have canon: "canon ` set hopHeaders = set hopHeaders" by code_simp
  have "\<forall>k. gget (dqHeader lreq) k = (if k \<in> set hopHeaders then None else gget (dqHeader req) k)"
    by (simp add: lreq_def localReq_def gget_fold_Del canon)
  moreover have "dqMethod lreq = dqMethod req" "dqURI lreq = dqURI req" "dqHost lreq = dqHost req"
    "length (dqBody req) \<le> leTaken le \<longrightarrow> dqBody lreq = dqBody req"
    by (simp_all add: lreq_def localReq_def body_def)
  moreover obtain c b where t: "tee body newCapWriter = (body, b)" "tee chunks newCapWriter = (chunks, c)" by (simp add: tee_fold)
  moreover have "cwBuf b = take MaxBodyCapture (concat body)" "cwTotal b = int (length (concat body))"
    "cwBuf c = take MaxBodyCapture (concat chunks)" "cwTotal c = int (length (concat chunks))"
    using tee_eq(2,3) [of body] tee_eq(2,3) [of chunks] t by simp_all
  ultimately show ?thesis using assms(4-10)
    by (auto simp: handleDataStream_def ag_forwardHTTP_def Let_def lookupTunnel_def cid addBytes_def
        simp flip: body_def lreq_def split: prod.splits dest!: rec_Add_newest)
qed

definition ex_spec :: TunnelSpec where
  "ex_spec = \<lparr>tsName = ''web'', tsProto = ''http'', tsAddr = ''3000'', tsSubdomain = '''', tsCustomDomain = '''', tsBasicAuth = '''',
     tsHostHeader = '''', tsRemotePort = 0\<rparr>"

definition ex_resp :: BindResp where
  "ex_resp = \<lparr>rClientTunnelId = ''ct_1'', rOk = True, rPublicUrl = ''https://a.lvh.me'', rAssignedHost = ''a.lvh.me'', rAssignedPort = 0, rError = None\<rparr>"

definition ex_agent :: Agent where
  "ex_agent = (newAgent DefaultAgentCfg)\<lparr>agTunnels := [(''ct_1'', newActive 0 ex_spec ''ct_1'' ex_resp)]\<rparr>"

definition ex_le :: LocalEnv where
  "ex_le = \<lparr>leStart = 0, leEnd = 0, leReq = Some \<lparr>dqMethod = ''GET'', dqHost = ''a.lvh.me'', dqURI = ''/x'', dqHeader = [], dqClose = False,
       dqBody = [[1], [2, 3]]\<rparr>,
     leTaken = 2, leTrip = (\<lambda>_ _. Inr (200, [], [[104], [105 :: byte]])), leWritten = True, leDial = (\<lambda>_ _. None), leReqSent = True,
     leWeld = (0, 0), leStream = [], leUdpSend = (\<lambda>_. True), leUdpRecv = []\<rparr>"

definition ex_si :: StreamInit where
  "ex_si = \<lparr>siClientTunnelId = ''ct_1'', siRemoteAddr = ''1.2.3.4:5'', siProto = ''http'', siMeta = []\<rparr>"

lemma ex_agent_ok: "agent_ok ex_agent"
  by (simp add: agent_ok_def ex_agent_def newAgent_def gomap_ok_def)

theorem http_exchange_exact_witness:
  "map (\<lambda>c. (crReqBody c, crRespBody c)) (take 1 (rec_List (agInsp (snd (handleDataStream ex_le (Some ex_si) ex_agent))))) = [([1, 2, 3], [104, 105])]"
proof -
  obtain evs a' where h: "handleDataStream ex_le (Some ex_si) ex_agent = (evs, a')" by fastforce
  let ?at = "newActive 0 ex_spec ''ct_1'' ex_resp"
  have l: "lookupTunnel (siClientTunnelId ex_si) ex_agent = Some ?at" by (simp add: lookupTunnel_def ex_si_def ex_agent_def)
  have p: "to_lower (siProto ex_si) \<in> {''http'', ''https''}" by (simp add: ex_si_def to_lower_def lower_char_def)
  have u: "\<not> isUpgradeReq []" by (simp add: isUpgradeReq_def hdr_Get_def str_contains_def)
  let ?req = "\<lparr>dqMethod = ''GET'', dqHost = ''a.lvh.me'', dqURI = ''/x'', dqHeader = [], dqClose = False, dqBody = [[1], [2, 3]]\<rparr>"
  from http_exchange_exact [OF ex_agent_ok l p _ _ _ _ h, of ?req 200 "[]" "[[104], [105]]"] u
  obtain c where c: "hd (rec_List (agInsp a')) = c" "crReqBody c = [1, 2, 3]" "crRespBody c = [104, 105]" by (auto simp: ex_le_def MaxBodyCapture_def)
  have "rec_List (agInsp a') \<noteq> []" using h l p u
    by (auto simp: handleDataStream_def ag_forwardHTTP_def Let_def ex_le_def rec_Add_def rec_List_def split: if_splits prod.splits)
  with c h show ?thesis by (cases "rec_List (agInsp a')") auto
qed

end
