(* ===== verification/EdgeSteps.thy ===== *)
theory EdgeSteps
  imports Edge
begin

text \<open>
  What each handler of the edge does to the state, and the edge as a state machine: sessions come
  up, send control messages and go down, traffic flows, presence ticks. The step relation takes
  the behaviour expected of the agents as a parameter, so that theorems about arbitrary agents
  and about well-behaved ones share it.
\<close>

section \<open>Effects of the building blocks\<close>

lemma upd_bt_sel [simp]:
  "bts (upd_bt t f s) = (bts s)(t := f (bts s t))" "hub (upd_bt t f s) = hub s"
  "reg (upd_bt t f s) = reg s" "pman (upd_bt t f s) = pman s" "ags (upd_bt t f s) = ags s"
  "TunnelsActive (upd_bt t f s) = TunnelsActive s" "SessionsActive (upd_bt t f s) = SessionsActive s"
  "btNext (upd_bt t f s) = btNext s" "agNext (upd_bt t f s) = agNext s" "cfg (upd_bt t f s) = cfg s"
  "reporter (upd_bt t f s) = reporter s" "reports (upd_bt t f s) = reports s" "usage (upd_bt t f s) = usage s"
  by (simp_all add: upd_bt_def)

lemma upd_ag_sel [simp]:
  "ags (upd_ag a f s) = (ags s)(a := f (ags s a))" "hub (upd_ag a f s) = hub s"
  "reg (upd_ag a f s) = reg s" "pman (upd_ag a f s) = pman s" "bts (upd_ag a f s) = bts s"
  "TunnelsActive (upd_ag a f s) = TunnelsActive s" "SessionsActive (upd_ag a f s) = SessionsActive s"
  "btNext (upd_ag a f s) = btNext s" "agNext (upd_ag a f s) = agNext s" "cfg (upd_ag a f s) = cfg s"
  by (simp_all add: upd_ag_def)

lemma finishBind_sel [simp]:
  "hub (finishBind e a t url r s) = hub s" "pman (finishBind e a t url r s) = pman s"
  "bts (finishBind e a t url r s) = (bts s)(t := (bts s t)\<lparr>publicURL := url, startedAt := now e\<rparr>)"
  "ags (finishBind e a t url r s) =
     (ags s)(a := (ags s a)\<lparr>tunnels := gset (clientTunnelID (bts s t)) t (tunnels (ags s a))\<rparr>)"
  "TunnelsActive (finishBind e a t url r s) = TunnelsActive s + 1"
  "SessionsActive (finishBind e a t url r s) = SessionsActive s"
  "btNext (finishBind e a t url r s) = btNext s" "agNext (finishBind e a t url r s) = agNext s"
  "cfg (finishBind e a t url r s) = cfg s"
  "reg (finishBind e a t url r s) =
     reg_Bind (now e) r \<lparr>EdgeID = cfgEdgeID (cfg s), SessionID = sessionID (ags s a)\<rparr>
       (2 * HeartbeatInterval (cfg s)) (reg s)"
  by (simp_all add: finishBind_def trackTunnel_def reportTunnelOpen_def Let_def)

lemma releaseTunnel_sel [simp]:
  "hub (releaseTunnel e t s) = unbind (bts s t) (hub s)"
  "pman (releaseTunnel e t s) =
     (if btPort (bts s t) \<noteq> 0 then pm_release (protoForType (ttype (bts s t))) (btPort (bts s t)) (pman s) else pman s)"
  "bts (releaseTunnel e t s) = bts s" "ags (releaseTunnel e t s) = ags s"
  "TunnelsActive (releaseTunnel e t s) = TunnelsActive s - 1"
  "SessionsActive (releaseTunnel e t s) = SessionsActive s"
  "btNext (releaseTunnel e t s) = btNext s" "agNext (releaseTunnel e t s) = agNext s"
  "cfg (releaseTunnel e t s) = cfg s"
  by (simp_all add: releaseTunnel_def reportTunnelClose_def Let_def)

lemma fold_release_sel [simp]:
  "bts (fold (releaseTunnel e) ts s) = bts s" "ags (fold (releaseTunnel e) ts s) = ags s"
  "btNext (fold (releaseTunnel e) ts s) = btNext s" "agNext (fold (releaseTunnel e) ts s) = agNext s"
  "cfg (fold (releaseTunnel e) ts s) = cfg s"
  "SessionsActive (fold (releaseTunnel e) ts s) = SessionsActive s"
  "TunnelsActive (fold (releaseTunnel e) ts s) = TunnelsActive s - int (length ts)"
  "hubSessions (hub (fold (releaseTunnel e) ts s)) = hubSessions (hub s)"
  by (induction ts arbitrary: s) auto

lemma fold_release_byHost:
  "gget (byHost (hub (fold (releaseTunnel e) ts s))) x =
     (if x \<noteq> '''' \<and> (\<exists>t \<in> set ts. btHost (bts s t) = x) then None else gget (byHost (hub s)) x)"
  by (induction ts arbitrary: s) auto

lemma fold_release_byPort:
  "gget (byPort (hub (fold (releaseTunnel e) ts s))) k =
     (if \<exists>t \<in> set ts. btPort (bts s t) \<noteq> 0 \<and> bt_portKey (bts s t) = k then None else gget (byPort (hub s)) k)"
  by (induction ts arbitrary: s) auto

lemma pm_wf_fold_release [wf_intros]: "pm_wf (pman s) \<Longrightarrow> pm_wf (pman (fold (releaseTunnel e) ts s))"
  by (induction ts arbitrary: s) (simp_all add: pm_wf_release)

lemma pm_range_fold_release [simp]:
  "pmMin (pman (fold (releaseTunnel e) ts s)) = pmMin (pman s)"
  by (induction ts arbitrary: s) auto

lemma hub_ok_fold_release [wf_intros]:
  "hub_ok bb (hub s) \<Longrightarrow> hub_ok bb (hub (fold (releaseTunnel e) ts s))"
  by (induction ts arbitrary: s) (simp_all add: hub_ok_unbind)

lemma used_set_fold_release:
  "used_set proto (pman (fold (releaseTunnel e) ts s)) =
     used_set proto (pman s) - {btPort (bts s t) | t. t \<in> set ts \<and> btPort (bts s t) \<noteq> 0 \<and>
        (proto = ''udp'') = (protoForType (ttype (bts s t)) = ''udp'')}"
  by (induction ts arbitrary: s) auto

lemma teardown_sel:
  "bts (teardownSession e a s) = bts s" "btNext (teardownSession e a s) = btNext s"
  "agNext (teardownSession e a s) = agNext s"
  "ags (teardownSession e a s) = (ags s)(a := (ags s a)\<lparr>tunnels := []\<rparr>)"
  "TunnelsActive (teardownSession e a s) = TunnelsActive s - int (length (tunnels (ags s a)))"
  "hub (teardownSession e a s) =
     (let h = hub (fold (releaseTunnel e) (map snd (tunnels (ags s a))) (upd_ag a (\<lambda>ag. ag\<lparr>tunnels := []\<rparr>) s))
      in h\<lparr>hubSessions := gdel (sessionID (ags s a)) (hubSessions h)\<rparr>)"
  "pman (teardownSession e a s) =
     pman (fold (releaseTunnel e) (map snd (tunnels (ags s a))) (upd_ag a (\<lambda>ag. ag\<lparr>tunnels := []\<rparr>) s))"
  by (simp_all add: teardownSession_def removeSession_def Let_def)

section \<open>Effect of a bind\<close>

definition port_type :: "TunnelType \<Rightarrow> bool" where
  "port_type ty \<longleftrightarrow> ty = TunnelType_TCP \<or> ty = TunnelType_UDP"

lemma port_type_proto: "port_type ty \<Longrightarrow> protoForType ty = ''tcp'' \<or> protoForType ty = ''udp''"
  by (auto simp: port_type_def)

lemma protoForType_udp [simp]: "protoForType ty = ''udp'' \<longleftrightarrow> ty = TunnelType_UDP"
  by (cases ty) auto

lemma protoForType_tcp [simp]: "protoForType ty = ''tcp'' \<longleftrightarrow> ty = TunnelType_TCP"
  by (cases ty) auto

text \<open>Everything but the heap of tunnels is as before, and so are the tunnels that existed.\<close>

definition same_routing :: "Server \<Rightarrow> Server \<Rightarrow> bool" where
  "same_routing s s' \<longleftrightarrow>
     hub s' = hub s \<and> reg s' = reg s \<and> ags s' = ags s \<and> agNext s' = agNext s \<and> cfg s' = cfg s \<and>
     TunnelsActive s' = TunnelsActive s \<and> SessionsActive s' = SessionsActive s \<and>
     (\<forall>p. used_set p (pman s') = used_set p (pman s) \<and> pm_open p (pman s') = pm_open p (pman s)) \<and>
     pmMin (pman s') = pmMin (pman s) \<and> pmMax (pman s') = pmMax (pman s) \<and>
     btNext s \<le> btNext s' \<and> (\<forall>t < btNext s. bts s' t = bts s t)"

lemma same_routing_refl [simp]: "same_routing s s"
  by (simp add: same_routing_def)

text \<open>The state after a successful bind of the new tunnel \<open>t\<close> of session \<open>a\<close>.\<close>

definition new_tunnel :: "sref \<Rightarrow> BindTunnel \<Rightarrow> Server \<Rightarrow> tref \<Rightarrow> Server \<Rightarrow> bool" where
  "new_tunnel a b s t s' \<longleftrightarrow>
     t = btNext s \<and> btNext s' = btNext s + 1 \<and> (\<forall>u < btNext s. bts s' u = bts s u) \<and>
     clientTunnelID (bts s' t) = bClientTunnelId b \<and> btSession (bts s' t) = a \<and> ttype (bts s' t) = bType b \<and>
     btOptions (bts s' t) = bOptions b \<and>
     ags s' = (ags s)(a := (ags s a)\<lparr>tunnels := gset (bClientTunnelId b) t (tunnels (ags s a))\<rparr>) \<and>
     agNext s' = agNext s \<and> cfg s' = cfg s \<and> TunnelsActive s' = TunnelsActive s + 1 \<and>
     SessionsActive s' = SessionsActive s"

lemma newTunnel_sel:
  assumes "newTunnel a b dec s = (t, s1)"
  shows "t = btNext s" "btNext s1 = btNext s + 1" "hub s1 = hub s" "pman s1 = pman s" "reg s1 = reg s"
    "ags s1 = ags s" "agNext s1 = agNext s" "cfg s1 = cfg s" "TunnelsActive s1 = TunnelsActive s"
    "SessionsActive s1 = SessionsActive s" "\<And>u. u < btNext s \<Longrightarrow> bts s1 u = bts s u"
    "clientTunnelID (bts s1 t) = bClientTunnelId b" "btSession (bts s1 t) = a" "ttype (bts s1 t) = bType b"
    "btOptions (bts s1 t) = bOptions b" "btHost (bts s1 t) = ''''" "btPort (bts s1 t) = 0"
  using assms by (auto simp: newTunnel_def zeroTunnel_def)

text \<open>How a bind ends: refused with an error, or with a host route, or with a port route.\<close>

definition bound_host :: "sref \<Rightarrow> BindTunnel \<Rightarrow> string \<Rightarrow> tref \<Rightarrow> Server \<Rightarrow> Server \<Rightarrow> bool" where
  "bound_host a b host t s s' \<longleftrightarrow>
     new_tunnel a b s t s' \<and> btHost (bts s' t) = host \<and> btPort (bts s' t) = 0 \<and>
     hub s' = (hub s)\<lparr>byHost := gset host t (byHost (hub s))\<rparr> \<and> pman s' = pman s"

definition bound_port :: "sref \<Rightarrow> BindTunnel \<Rightarrow> int \<Rightarrow> tref \<Rightarrow> Server \<Rightarrow> Server \<Rightarrow> bool" where
  "bound_port a b port t s s' \<longleftrightarrow>
     new_tunnel a b s t s' \<and> btHost (bts s' t) = '''' \<and> btPort (bts s' t) = port \<and>
     hub s' = (hub s)\<lparr>byPort := gset (portKey (protoForType (bType b)) port) t (byPort (hub s))\<rparr>"

lemma bindHostTunnel_cases:
  assumes "bindHostTunnel e a b t dec s1 = (r, s')" "newTunnel a b dec s = (t, s1)"
  shows "\<not> rOk r \<and> rError r \<noteq> None \<and> same_routing s s' \<or>
     (\<exists>host. allocateHost e b dec s1 = Inr host \<and> rOk r \<and> rAssignedHost r = host \<and> bound_host a b host t s s' \<and>
        (\<forall>x. gget (byHost (hub s)) host = Some x \<longrightarrow> btSession (bts s' x) = a))"
proof (cases "allocateHost e b dec s1")
  case (Inl code)
  with assms newTunnel_sel [OF assms(2)] show ?thesis
    by (auto simp: bindHostTunnel_def bindErr_def same_routing_def)
next
  case (Inr host)
  note nt = newTunnel_sel [OF assms(2)]
  define s2 where "s2 = upd_bt t (\<lambda>bt. bt\<lparr>btHost := host\<rparr>) s1"
  show ?thesis
  proof (cases "bindHost (bts s2) t (hub s2)")
    case (Inl err)
    with assms(1) Inr have "\<not> rOk r" "rError r \<noteq> None" "s' = s2"
      by (auto simp: bindHostTunnel_def bindErr_def Let_def s2_def)
    moreover have "same_routing s s2" using nt by (simp add: same_routing_def s2_def)
    ultimately show ?thesis by simp
  next
    case (Inr h)
    note bh = bindHost_Inr [OF Inr]
    have "rOk r" "rAssignedHost r = host"
      "s' = finishBind e a t (''https://'' @ host) (host_route host) (s2\<lparr>hub := h\<rparr>)"
      using assms(1) \<open>allocateHost e b dec s1 = Inr host\<close> Inr
      by (auto simp: bindHostTunnel_def Let_def s2_def)
    then show ?thesis
      using nt bh \<open>allocateHost e b dec s1 = Inr host\<close>
      by (auto simp: bound_host_def new_tunnel_def s2_def)
  qed
qed

lemma bindPortTunnel_cases:
  assumes "bindPortTunnel e a b t (protoForType (bType b)) s1 = (r, s')" "newTunnel a b dec s = (t, s1)"
    and "port_type (bType b)" "pm_wf (pman s)"
  shows "\<not> rOk r \<and> rError r \<noteq> None \<and> same_routing s s' \<or>
     (\<exists>port. rOk r \<and> openPort (listen e) (protoForType (bType b)) (uint (bRemotePort b)) (pman s) = (Inr port, pman s') \<and>
        bound_port a b port t s s' \<and>
        (\<forall>x. gget (byPort (hub s)) (portKey (protoForType (bType b)) port) = Some x \<longrightarrow> btSession (bts s' x) = a))"
proof -
  define pr where "pr = protoForType (bType b)"
  have pr: "pr = ''tcp'' \<or> pr = ''udp''" using port_type_proto [OF assms(3)] by (simp add: pr_def)
  note nt = newTunnel_sel [OF assms(2)]
  obtain res pm where op: "openPort (listen e) pr (uint (bRemotePort b)) (pman s) = (res, pm)" by fastforce
  show ?thesis
  proof (cases res)
    case (Inl err)
    then have "\<not> rOk r \<and> rError r \<noteq> None \<and> s' = s1\<lparr>pman := pm\<rparr>"
      using assms(1) op by (auto simp: bindPortTunnel_def bindErr_def nt pr_def split: port_error.splits)
    then show ?thesis
      using nt openPort_error [OF op [unfolded Inl] pr assms(4)] by (auto simp: same_routing_def)
  next
    case (Inr port)
    define s2 where "s2 = upd_bt t (\<lambda>bt. bt\<lparr>btPort := port\<rparr>) (s1\<lparr>pman := pm\<rparr>)"
    note op2 = op [unfolded Inr]
    note ok = openPort_ok [OF op2 pr]
    show ?thesis
    proof (cases "bindPort (bts s2) t (hub s2)")
      case (Inl err)
      then have "\<not> rOk r \<and> rError r \<noteq> None \<and> s' = s2\<lparr>pman := pm_release pr port pm\<rparr>"
        using assms(1) op \<open>res = Inr port\<close>
        by (auto simp: bindPortTunnel_def bindErr_def nt(4) Let_def s2_def pr_def)
      moreover have "same_routing s (s2\<lparr>pman := pm_release pr port pm\<rparr>)"
        using nt openPort_then_release [OF op2 pr assms(4)]
        by (auto simp: same_routing_def s2_def ok(5,6))
      ultimately show ?thesis by simp
    next
      case (Inr h)
      note bp = bindPort_Inr [OF Inr]
      have "rOk r \<and> s' = finishBind e a t (pr @ ''://'' @ BaseDomain (cfg s) @ '':'' @ show_int port)
              (port_route pr port) (s2\<lparr>hub := h\<rparr>)"
        using assms(1) op \<open>res = Inr port\<close> Inr
        by (auto simp: bindPortTunnel_def nt(4,8) Let_def s2_def pr_def)
      then show ?thesis
        using nt bp op \<open>res = Inr port\<close>
        by (auto simp: bound_port_def new_tunnel_def s2_def pr_def bt_portKey_def)
    qed
  qed
qed

text \<open>The three ends of \<^verbatim>\<open>handleBind\<close>.\<close>

lemma handleBind_cases [consumes 2, case_names Refused Host Port]:
  assumes "handleBind e a b s = (r, s')" "pm_wf (pman s)"
    and "\<not> rOk r \<Longrightarrow> rError r \<noteq> None \<Longrightarrow> same_routing s s' \<Longrightarrow> P"
    and "\<And>dec s1 host. checkBind e (bindRequest a b s) = Inr dec \<Longrightarrow> Allow dec \<Longrightarrow> \<not> port_type (bType b) \<Longrightarrow>
       newTunnel a b dec s = (btNext s, s1) \<Longrightarrow> allocateHost e b dec s1 = Inr host \<Longrightarrow> rOk r \<Longrightarrow>
       rAssignedHost r = host \<Longrightarrow> bound_host a b host (btNext s) s s' \<Longrightarrow>
       (\<And>x. gget (byHost (hub s)) host = Some x \<Longrightarrow> btSession (bts s' x) = a) \<Longrightarrow> P"
    and "\<And>dec port. checkBind e (bindRequest a b s) = Inr dec \<Longrightarrow> Allow dec \<Longrightarrow> port_type (bType b) \<Longrightarrow>
       (bType b = TunnelType_TCP \<Longrightarrow> AllowTCP (dLimits dec)) \<Longrightarrow>
       (bType b = TunnelType_UDP \<Longrightarrow> AllowUDP (dLimits dec)) \<Longrightarrow> rOk r \<Longrightarrow>
       openPort (listen e) (protoForType (bType b)) (uint (bRemotePort b)) (pman s) = (Inr port, pman s') \<Longrightarrow>
       bound_port a b port (btNext s) s s' \<Longrightarrow>
       (\<And>x. gget (byPort (hub s)) (portKey (protoForType (bType b)) port) = Some x \<Longrightarrow> btSession (bts s' x) = a) \<Longrightarrow> P"
  shows P
proof (cases "checkBind e (bindRequest a b s)")
  case (Inl err)
  with assms(1,3) show ?thesis by (auto simp: handleBind_def bindErr_def)
next
  case (Inr dec)
  show ?thesis
  proof (cases "Allow dec \<and> (bType b = TunnelType_TCP \<longrightarrow> AllowTCP (dLimits dec)) \<and>
                (bType b = TunnelType_UDP \<longrightarrow> AllowUDP (dLimits dec))")
    case False
    with assms(1,3) Inr show ?thesis by (auto simp: handleBind_def bindErr_def split: if_splits)
  next
    case True
    obtain s1 where nt: "newTunnel a b dec s = (btNext s, s1)" by (simp add: newTunnel_def)
    show ?thesis
    proof (cases "port_type (bType b)")
      case pt: True
      then have "bindPortTunnel e a b (btNext s) (protoForType (bType b)) s1 = (r, s')"
        using assms(1) Inr True nt by (auto simp: handleBind_def port_type_def)
      from bindPortTunnel_cases [OF this nt pt assms(2)] assms(3,5) Inr True pt show ?thesis by blast
    next
      case False
      then have "bindHostTunnel e a b (btNext s) dec s1 = (r, s')"
        using assms(1) Inr True nt by (auto simp: handleBind_def port_type_def)
      from bindHostTunnel_cases [OF this nt] assms(3,4) Inr True False nt show ?thesis by blast
    qed
  qed
qed

end
