(* ===== verification/EdgeSafety.thy ===== *)
theory EdgeSafety
  imports EdgeSteps
begin

text \<open>
  The edge as a state machine and its invariants: what holds whatever the agents send
  (\<open>edge_wf\<close>), and what holds when agents use each tunnel id once at a time (\<open>edge_exact\<close>).
\<close>

section \<open>Steps\<close>

definition live :: "Server \<Rightarrow> sref \<Rightarrow> bool" where
  "live s a \<longleftrightarrow> gget (hubSessions (hub s)) (sessionID (ags s a)) = Some a"

text \<open>
  \<open>ok\<close> is what the agents may send. A session id is eight random bytes; the step assumes that it
  is not the id of a session that is up.
\<close>

inductive edge_step :: "(Server \<Rightarrow> sref \<Rightarrow> ControlMsg \<Rightarrow> bool) \<Rightarrow> Server \<Rightarrow> Server \<Rightarrow> bool"
  for ok :: "Server \<Rightarrow> sref \<Rightarrow> ControlMsg \<Rightarrow> bool" where
  session_up: "openSession authn wr idb raddr m s = (r, x, s') \<Longrightarrow>
    gget (hubSessions (hub s)) (newSessionID idb) = None \<Longrightarrow> edge_step ok s s'"
| control: "live s a \<Longrightarrow> ok s a m \<Longrightarrow> controlTurn e a m s = (r, s') \<Longrightarrow> edge_step ok s s'"
| session_down: "live s a \<Longrightarrow> edge_step ok s (sessionDown e a s)"
| traffic: "t < btNext s \<Longrightarrow> edge_step ok s (recordUsage e t i ou r s)"
| presence: "edge_step ok s
    (s\<lparr>reg := presenceTick (cfgEdgeID (cfg s)) addr (edgeTTL (cfg s)) (SnapshotRoutes (bts s) (hub s)) t (reg s)\<rparr>)"

inductive edge_reach :: "(Server \<Rightarrow> sref \<Rightarrow> ControlMsg \<Rightarrow> bool) \<Rightarrow> Server \<Rightarrow> bool"
  for ok :: "Server \<Rightarrow> sref \<Rightarrow> ControlMsg \<Rightarrow> bool" where
  start: "0 < portMin \<Longrightarrow> edge_reach ok (newServer c portMin portMax rep)"
| step: "edge_reach ok s \<Longrightarrow> edge_step ok s s' \<Longrightarrow> edge_reach ok s'"

text \<open>Any agent, and an agent that keeps its tunnel ids unique (as the protocol asks) and does not
  bind a custom domain it already serves.\<close>

definition any_agent :: "Server \<Rightarrow> sref \<Rightarrow> ControlMsg \<Rightarrow> bool" where
  "any_agent s a m = True"

definition careful_agent :: "Server \<Rightarrow> sref \<Rightarrow> ControlMsg \<Rightarrow> bool" where
  "careful_agent s a m =
     (case m of
        MsgBind b \<Rightarrow> gget (tunnels (ags s a)) (bClientTunnelId b) = None \<and>
          (case LookupHost (to_lower (bCustomDomain b)) (hub s) of
             None \<Rightarrow> True | Some t \<Rightarrow> btSession (bts s t) \<noteq> a)
      | _ \<Rightarrow> True)"

section \<open>What holds for any agent\<close>

text \<open>A published tunnel has a host or a port, never both.\<close>

definition shape :: "boundTunnel \<Rightarrow> bool" where
  "shape bt \<longleftrightarrow> (if port_type (ttype bt) then btHost bt = '''' \<and> btPort bt \<noteq> 0
                 else btHost bt \<noteq> '''' \<and> btPort bt = 0)"

definition edge_wf :: "Server \<Rightarrow> bool" where
  "edge_wf s \<longleftrightarrow>
     hub_ok (bts s) (hub s) \<and> pm_wf (pman s) \<and> 0 < pmMin (pman s) \<and>
     (\<forall>sid a. gget (hubSessions (hub s)) sid = Some a \<longrightarrow> sessionID (ags s a) = sid \<and> a < agNext s) \<and>
     (\<forall>a. gomap_ok (tunnels (ags s a))) \<and>
     (\<forall>a id t. live s a \<longrightarrow> gget (tunnels (ags s a)) id = Some t \<longrightarrow>
        btSession (bts s t) = a \<and> clientTunnelID (bts s t) = id \<and> t < btNext s \<and> shape (bts s t)) \<and>
     (\<forall>x t. gget (byHost (hub s)) x = Some t \<longrightarrow> t < btNext s \<and> x \<noteq> '''' \<and> \<not> port_type (ttype (bts s t))) \<and>
     (\<forall>k t. gget (byPort (hub s)) k = Some t \<longrightarrow> t < btNext s \<and> btPort (bts s t) \<noteq> 0 \<and> port_type (ttype (bts s t)))"

lemma edge_wfD:
  assumes "edge_wf s"
  shows "hub_ok (bts s) (hub s)" "pm_wf (pman s)" "0 < pmMin (pman s)"
    "\<And>sid a. gget (hubSessions (hub s)) sid = Some a \<Longrightarrow> sessionID (ags s a) = sid \<and> a < agNext s"
    "\<And>a. gomap_ok (tunnels (ags s a))"
    "\<And>a id t. live s a \<Longrightarrow> gget (tunnels (ags s a)) id = Some t \<Longrightarrow>
        btSession (bts s t) = a \<and> clientTunnelID (bts s t) = id \<and> t < btNext s \<and> shape (bts s t)"
    "\<And>x t. gget (byHost (hub s)) x = Some t \<Longrightarrow> t < btNext s \<and> x \<noteq> '''' \<and> \<not> port_type (ttype (bts s t))"
    "\<And>k t. gget (byPort (hub s)) k = Some t \<Longrightarrow> t < btNext s \<and> btPort (bts s t) \<noteq> 0 \<and> port_type (ttype (bts s t))"
  using assms unfolding edge_wf_def by blast+

text \<open>The hub's tables under a change of the heap above the tunnels that exist.\<close>

lemma hub_ok_heap:
  assumes "hub_ok bb h" "\<And>x u. gget (byHost h) x = Some u \<Longrightarrow> bb' u = bb u"
    "\<And>x u. gget (byPort h) x = Some u \<Longrightarrow> bb' u = bb u"
  shows "hub_ok bb' h"
  using assms unfolding hub_ok_def by metis

lemma edge_wf_same_routing [wf_intros]:
  assumes "edge_wf s" "same_routing s s'"
  shows "edge_wf s'"
proof -
  note d = edge_wfD [OF assms(1)]
  have fr: "\<And>t. t < btNext s \<Longrightarrow> bts s' t = bts s t" "hub s' = hub s" "ags s' = ags s" "btNext s \<le> btNext s'"
      "agNext s' = agNext s" "pmMin (pman s') = pmMin (pman s)"
    using assms(2) by (auto simp: same_routing_def)
  have lv: "live s' a = live s a" for a by (simp add: live_def fr)
  have "pm_wf (pman s')" using assms(2) d(2) by (simp add: same_routing_def pm_wf_def)
  moreover have "hub_ok (bts s') (hub s')"
    unfolding fr(2) by (rule hub_ok_heap [OF d(1)]) (use d(7,8) fr(1) in blast)+
  moreover have "btSession (bts s' t) = a \<and> clientTunnelID (bts s' t) = id \<and> t < btNext s' \<and> shape (bts s' t)"
    if "live s' a" "gget (tunnels (ags s' a)) id = Some t" for a id t
    using d(6) [of a id t] that fr(1) [of t] fr(4) by (simp add: lv fr(3))
  moreover have "t < btNext s' \<and> x \<noteq> '''' \<and> \<not> port_type (ttype (bts s' t))" if "gget (byHost (hub s')) x = Some t" for x t
    using d(7) [of x t] that fr(1) [of t] fr(4) by (simp add: fr(2))
  moreover have "t < btNext s' \<and> btPort (bts s' t) \<noteq> 0 \<and> port_type (ttype (bts s' t))" if "gget (byPort (hub s')) k = Some t" for k t
    using d(8) [of k t] that fr(1) [of t] fr(4) by (simp add: fr(2))
  ultimately show ?thesis
    using d(3,4,5) fr unfolding edge_wf_def by simp
qed

lemma edge_wf_new_server: "0 < portMin \<Longrightarrow> edge_wf (newServer c portMin portMax rep)"
  by (simp add: edge_wf_def newServer_def hub_ok_def NewHub_def pm_wf_new live_def)
    (simp add: newPortManager_def)

text \<open>A live session keeps being the one it is when the tunnels of sessions change.\<close>

lemma live_new_tunnel:
  assumes "new_tunnel a b s t s'" "hubSessions (hub s') = hubSessions (hub s)"
  shows "live s' c = live s c" "sessionID (ags s' c) = sessionID (ags s c)"
  using assms by (auto simp: live_def new_tunnel_def)

lemma edge_wf_bound:
  assumes "edge_wf s" "new_tunnel a b s t s'" "hubSessions (hub s') = hubSessions (hub s)" "live s a"
    and "hub_ok (bts s') (hub s')" "pm_wf (pman s')" "pmMin (pman s') = pmMin (pman s)" "shape (bts s' t)"
    and "\<And>x u. gget (byHost (hub s')) x = Some u \<Longrightarrow>
       gget (byHost (hub s)) x = Some u \<or> u = t \<and> x \<noteq> '''' \<and> \<not> port_type (ttype (bts s' u))"
    and "\<And>k u. gget (byPort (hub s')) k = Some u \<Longrightarrow>
       gget (byPort (hub s)) k = Some u \<or> u = t \<and> btPort (bts s' u) \<noteq> 0 \<and> port_type (ttype (bts s' u))"
  shows "edge_wf s'"
proof -
  note d = edge_wfD [OF assms(1)] and lv = live_new_tunnel [OF assms(2,3)]
  have nt: "t = btNext s" "btNext s' = btNext s + 1" "\<And>u. u < btNext s \<Longrightarrow> bts s' u = bts s u" "agNext s' = agNext s"
    "clientTunnelID (bts s' t) = bClientTunnelId b" "btSession (bts s' t) = a"
    "ags s' = (ags s)(a := (ags s a)\<lparr>tunnels := gset (bClientTunnelId b) t (tunnels (ags s a))\<rparr>)"
    using assms(2) by (auto simp: new_tunnel_def)
  have tr: "gget (tunnels (ags s' c)) id =
      (if c = a \<and> id = bClientTunnelId b then Some t else gget (tunnels (ags s c)) id)" for c id
    by (simp add: nt(7))
  have g: "gomap_ok (tunnels (ags s' c))" for c using d(5) by (simp add: nt(7))
  have h: "u < btNext s' \<and> x \<noteq> '''' \<and> \<not> port_type (ttype (bts s' u))"
    if "gget (byHost (hub s')) x = Some u" for x u
    using assms(9) [OF that] d(7) [of x u] nt(1,2,3) by fastforce
  have p: "u < btNext s' \<and> btPort (bts s' u) \<noteq> 0 \<and> port_type (ttype (bts s' u))"
    if "gget (byPort (hub s')) k = Some u" for k u
    using assms(10) [OF that] d(8) [of k u] nt(1,2,3) by fastforce
  have o: "btSession (bts s' u) = c \<and> clientTunnelID (bts s' u) = id \<and> u < btNext s' \<and> shape (bts s' u)"
    if "live s' c" "gget (tunnels (ags s' c)) id = Some u" for c id u
    using that d(6) [of c id u] nt(1,2,3,5,6) assms(8) unfolding tr lv(1) by (auto split: if_splits)
  have "sessionID (ags s' c) = sid \<and> c < agNext s'" if "gget (hubSessions (hub s')) sid = Some c" for c sid
    using that d(4) [of sid c] assms(3) lv(2) nt(4) by simp
  with assms(5,6,7) d(3) g h p o show ?thesis unfolding edge_wf_def by auto
qed

lemma allocateHost_nonempty: "allocateHost e b dec s = Inr host \<Longrightarrow> host \<noteq> ''''"
  by (auto simp: allocateHost_def Let_def find_Some_iff split: if_splits option.splits)

lemma edge_wf_handleBind [wf_intros]:
  assumes "edge_wf s" "live s a" "handleBind e a b s = (r, s')"
  shows "edge_wf s'"
  using assms(3) edge_wfD(2) [OF assms(1)]
proof (cases rule: handleBind_cases)
  case Refused
  with assms(1) show ?thesis by (rule_tac edge_wf_same_routing)
next
  case (Host dec s1 host)
  note d = edge_wfD [OF assms(1)]
  have bh: "new_tunnel a b s (btNext s) s'" "btHost (bts s' (btNext s)) = host" "btPort (bts s' (btNext s)) = 0"
    "hub s' = (hub s)\<lparr>byHost := gset host (btNext s) (byHost (hub s))\<rparr>" "pman s' = pman s"
    using Host(8) by (auto simp: bound_host_def)
  have old: "\<And>u. u < btNext s \<Longrightarrow> bts s' u = bts s u" and ty: "ttype (bts s' (btNext s)) = bType b"
    using bh(1) by (auto simp: new_tunnel_def)
  have "hub_ok (bts s') (hub s)" by (rule hub_ok_heap [OF d(1)]) (use d(7,8) old in blast)+
  then have "hub_ok (bts s') (hub s')" using bh(2,4) by (auto simp: hub_ok_def)
  then show ?thesis
    using d(2) Host(3) allocateHost_nonempty [OF Host(5)] bh ty
    by (intro edge_wf_bound [OF assms(1) bh(1) _ assms(2)]) (auto simp: shape_def split: if_splits)
next
  case (Port dec port)
  note d = edge_wfD [OF assms(1)] and pt = port_type_proto [OF Port(3)]
  note op = openPort_ok [OF Port(7) pt]
  have bp: "new_tunnel a b s (btNext s) s'" "btHost (bts s' (btNext s)) = ''''" "btPort (bts s' (btNext s)) = port"
    "hub s' = (hub s)\<lparr>byPort := gset (portKey (protoForType (bType b)) port) (btNext s) (byPort (hub s))\<rparr>"
    using Port(8) by (auto simp: bound_port_def)
  have old: "\<And>u. u < btNext s \<Longrightarrow> bts s' u = bts s u" and ty: "ttype (bts s' (btNext s)) = bType b"
    using bp(1) by (auto simp: new_tunnel_def)
  have "hub_ok (bts s') (hub s)" by (rule hub_ok_heap [OF d(1)]) (use d(7,8) old in blast)+
  then have "hub_ok (bts s') (hub s')" using bp(3,4) ty by (auto simp: hub_ok_def bt_portKey_def)
  moreover have "pm_wf (pman s')" using pm_wf_openPort [OF d(2) pt, of "listen e" "uint (bRemotePort b)"] Port(7) by simp
  moreover have "port \<noteq> 0" using op(1) d(3) by auto
  ultimately show ?thesis
    using Port(3) op(5) bp ty
    by (intro edge_wf_bound [OF assms(1) bp(1) _ assms(2)]) (auto simp: shape_def split: if_splits)
qed

text \<open>Releasing tunnels only shrinks the tables; the heap and the sessions' identities stay.\<close>

lemma edge_wf_shrink:
  assumes "edge_wf s" "bts s' = bts s" "btNext s' = btNext s" "agNext s' = agNext s"
    and "hub_ok (bts s) (hub s')" "pm_wf (pman s')" "pmMin (pman s') = pmMin (pman s)"
    and "\<And>x u. gget (byHost (hub s')) x = Some u \<Longrightarrow> gget (byHost (hub s)) x = Some u"
    and "\<And>x u. gget (byPort (hub s')) x = Some u \<Longrightarrow> gget (byPort (hub s)) x = Some u"
    and "\<And>sid c. gget (hubSessions (hub s')) sid = Some c \<Longrightarrow> gget (hubSessions (hub s)) sid = Some c"
    and "\<And>c. sessionID (ags s' c) = sessionID (ags s c) \<and> gomap_ok (tunnels (ags s' c))"
    and "\<And>c id u. gget (tunnels (ags s' c)) id = Some u \<Longrightarrow> gget (tunnels (ags s c)) id = Some u"
  shows "edge_wf s'"
proof -
  note d = edge_wfD [OF assms(1)]
  have lv: "live s' c \<Longrightarrow> live s c" for c using assms(10,11) by (simp add: live_def)
  have o: "btSession (bts s' u) = c \<and> clientTunnelID (bts s' u) = id \<and> u < btNext s' \<and> shape (bts s' u)"
    if "live s' c" "gget (tunnels (ags s' c)) id = Some u" for c id u
    using d(6) [OF lv assms(12)] that assms(2,3) by simp
  have "sessionID (ags s' c) = sid \<and> c < agNext s'" if "gget (hubSessions (hub s')) sid = Some c" for c sid
    using d(4) [OF assms(10) [OF that]] assms(4,11) by simp
  moreover have "u < btNext s' \<and> x \<noteq> '''' \<and> \<not> port_type (ttype (bts s' u))" if "gget (byHost (hub s')) x = Some u" for x u
    using d(7) [OF assms(8) [OF that]] assms(2,3) by simp
  moreover have "u < btNext s' \<and> btPort (bts s' u) \<noteq> 0 \<and> port_type (ttype (bts s' u))" if "gget (byPort (hub s')) k = Some u" for k u
    using d(8) [OF assms(9) [OF that]] assms(2,3) by simp
  ultimately show ?thesis
    using o assms(2,5,6,7,11) d(3) unfolding edge_wf_def by simp
qed

lemma edge_wf_handleUnbind [wf_intros]:
  assumes "edge_wf s"
  shows "edge_wf (handleUnbind e a cid s)"
proof -
  note d = edge_wfD [OF assms]
  have sess: "sessionID (((ags s)(a := (ags s a)\<lparr>tunnels := gdel cid (tunnels (ags s a))\<rparr>)) c) = sessionID (ags s c) \<and>
     gomap_ok (tunnels (((ags s)(a := (ags s a)\<lparr>tunnels := gdel cid (tunnels (ags s a))\<rparr>)) c))" for c
    using d(5) by simp
  show ?thesis
  proof (cases "gget (tunnels (ags s a)) cid")
    case None
    then show ?thesis
      using d(1,2) sess
      by (intro edge_wf_shrink [OF assms]) (auto simp: handleUnbind_def Let_def split: if_splits)
  next
    case (Some t)
    then show ?thesis
      using d(1,2) sess
      by (intro edge_wf_shrink [OF assms])
        (auto simp: handleUnbind_def Let_def hub_ok_unbind pm_wf_release split: if_splits)
  qed
qed

lemma edge_wf_teardown [wf_intros]:
  assumes "edge_wf s"
  shows "edge_wf (sessionDown e a s)"
proof -
  note d = edge_wfD [OF assms]
  have hub: "hub_ok (bts s) (hub (fold (releaseTunnel e) ts (upd_ag a f s)))" for ts f
    using d(1) by (intro hub_ok_fold_release) simp
  have pm: "pm_wf (pman (fold (releaseTunnel e) ts (upd_ag a f s)))" for ts f
    using d(2) by (intro pm_wf_fold_release) simp
  have sess: "sessionID (((ags s)(a := (ags s a)\<lparr>tunnels := []\<rparr>)) c) = sessionID (ags s c) \<and>
     gomap_ok (tunnels (((ags s)(a := (ags s a)\<lparr>tunnels := []\<rparr>)) c))" for c
    using d(5) by simp
  let ?s = "sessionDown e a s"
  have h: "hub_ok (bts s) (hub ?s)"
    using hub by (simp add: sessionDown_def teardown_sel Let_def hub_ok_def)
  have x: "gget (byHost (hub ?s)) x = Some u \<Longrightarrow> gget (byHost (hub s)) x = Some u" for x u
    by (simp add: sessionDown_def teardown_sel Let_def fold_release_byHost split: if_splits)
  have k: "gget (byPort (hub ?s)) k = Some u \<Longrightarrow> gget (byPort (hub s)) k = Some u" for k u
    by (simp add: sessionDown_def teardown_sel Let_def fold_release_byPort split: if_splits)
  have i: "gget (hubSessions (hub ?s)) sid = Some c \<Longrightarrow> gget (hubSessions (hub s)) sid = Some c" for sid c
    by (simp add: sessionDown_def teardown_sel Let_def split: if_splits)
  have t: "gget (tunnels (ags ?s c)) id = Some u \<Longrightarrow> gget (tunnels (ags s c)) id = Some u" for c id u
    by (simp add: sessionDown_def teardown_sel Let_def split: if_splits)
  show ?thesis
    by (rule edge_wf_shrink [OF assms _ _ _ h _ _ x k i _ t])
      (use pm sess in \<open>simp_all add: sessionDown_def teardown_sel Let_def\<close>)
qed

text \<open>A session object at a new reference, registered in the hub or not.\<close>

lemma edge_wf_new_session:
  assumes "edge_wf s" "gget (hubSessions (hub s)) (sessionID ag) = None" "tunnels ag = []"
    and "ags s' = (ags s)(agNext s := ag)" "agNext s' = agNext s + 1" "bts s' = bts s" "btNext s' = btNext s"
    and "pman s' = pman s" "byHost (hub s') = byHost (hub s)" "byPort (hub s') = byPort (hub s)"
    and "hubSessions (hub s') = hubSessions (hub s) \<or>
         hubSessions (hub s') = gset (sessionID ag) (agNext s) (hubSessions (hub s))"
  shows "edge_wf s'"
proof -
  note d = edge_wfD [OF assms(1)]
  have old: "gget (hubSessions (hub s')) sid = Some c \<Longrightarrow>
      gget (hubSessions (hub s)) sid = Some c \<and> c < agNext s \<or> sid = sessionID ag \<and> c = agNext s" for sid c
    using assms(11) d(4) [of sid c] by (auto split: if_splits)
  have lv: "live s' c \<Longrightarrow> c = agNext s \<or> c < agNext s \<and> live s c" for c
    using old [of "sessionID (ags s' c)" c] by (auto simp: live_def assms(4) split: if_splits)
  have o: "btSession (bts s' u) = c \<and> clientTunnelID (bts s' u) = id \<and> u < btNext s' \<and> shape (bts s' u)"
    if "live s' c" "gget (tunnels (ags s' c)) id = Some u" for c id u
    using lv [OF that(1)] that(2) d(6) [of c id u] assms(3) by (auto simp: assms(4,6,7) split: if_splits)
  have i: "sessionID (ags s' c) = sid \<and> c < agNext s'" if "gget (hubSessions (hub s')) sid = Some c" for c sid
    using old [OF that] d(4) [of sid c] by (auto simp: assms(4,5))
  have g: "gomap_ok (tunnels (ags s' c))" for c using d(5) [of c] assms(3) by (simp add: assms(4))
  have "hub_ok (bts s') (hub s')" using d(1) assms(6,9,10,11) by (auto simp: hub_ok_def)
  with o i g d(2,3,7,8) assms(6,7,8,9,10) show ?thesis unfolding edge_wf_def by simp
qed

definition session_of :: "byte list \<Rightarrow> string \<Rightarrow> string \<Rightarrow> string \<Rightarrow> string \<Rightarrow> agentSession" where
  "session_of idb raddr acc pl key =
     \<lparr>sessionID = newSessionID idb, asAccountID = acc, asPlan = pl, asApiKey = key, asRemoteAddr = raddr, tunnels = []\<rparr>"

lemma openSession_state:
  assumes "openSession authn wr idb raddr m s = (r, x, s')"
  obtains "x = None" "s' = s"
  | acc pl key where "x = None" "s' = s\<lparr>ags := (ags s)(agNext s := session_of idb raddr acc pl key), agNext := agNext s + 1\<rparr>"
  | hello acc pl where "m = MsgHello hello" "authn (ApiKey hello) = Inr (acc, pl)" "x = Some (agNext s)"
      "s' = s\<lparr>ags := (ags s)(agNext s := session_of idb raddr acc pl (ApiKey hello)), agNext := agNext s + 1,
             hub := addSession (newSessionID idb) (agNext s) (hub s), SessionsActive := SessionsActive s + 1\<rparr>"
proof (cases "readHello m")
  case None
  with assms show ?thesis by (intro that(1)) (simp_all add: openSession_def)
next
  case (Some hello)
  then have MsgHello: "m = MsgHello hello" by (simp add: readHello_def split: ControlMsg.splits)
  show ?thesis
  proof (cases "authn (ApiKey hello)")
    case (Inl err)
    with assms MsgHello that(1) show ?thesis
      by (auto simp: openSession_def readHello_def split: if_splits)
  next
    case (Inr p)
    obtain acc pl where p: "p = (acc, pl)" by fastforce
    note eq = assms [unfolded openSession_def readHello_def MsgHello, simplified, unfolded Inr p, simplified, unfolded Let_def]
    consider "ProtocolVersion hello \<noteq> '''' \<and> ProtocolVersion hello \<noteq> protocolVersion"
      | "\<not> (ProtocolVersion hello \<noteq> '''' \<and> ProtocolVersion hello \<noteq> protocolVersion)" "wr"
      | "\<not> (ProtocolVersion hello \<noteq> '''' \<and> ProtocolVersion hello \<noteq> protocolVersion)" "\<not> wr"
      by blast
    then show ?thesis
    proof cases
      case 1
      with eq show ?thesis by (intro that(1)) simp_all
    next
      case 2
      with eq show ?thesis by (intro that(3) [OF MsgHello Inr [unfolded p]]) (simp_all add: session_of_def)
    next
      case 3
      with eq show ?thesis by (intro that(2) [of acc pl "ApiKey hello"]) (simp_all add: session_of_def)
    qed
  qed
qed

lemma edge_wf_openSession [wf_intros]:
  assumes "edge_wf s" "openSession authn wr idb raddr m s = (r, x, s')"
    and "gget (hubSessions (hub s)) (newSessionID idb) = None"
  shows "edge_wf s'"
  using assms(2)
proof (cases rule: openSession_state)
  case 1
  with assms(1) show ?thesis by simp
next
  case (2 acc pl key)
  with assms(3) show ?thesis
    by (intro edge_wf_new_session [OF assms(1), of "session_of idb raddr acc pl key"]) (simp_all add: session_of_def)
next
  case (3 hello acc pl)
  with assms(3) show ?thesis
    by (intro edge_wf_new_session [OF assms(1), of "session_of idb raddr acc pl (ApiKey hello)"])
      (simp_all add: session_of_def addSession_def)
qed

lemma addTraffic_sel [simp]:
  "btHost (addTraffic i ou r bt) = btHost bt" "btPort (addTraffic i ou r bt) = btPort bt"
  "ttype (addTraffic i ou r bt) = ttype bt" "btSession (addTraffic i ou r bt) = btSession bt"
  "clientTunnelID (addTraffic i ou r bt) = clientTunnelID bt" "shape (addTraffic i ou r bt) = shape bt"
  "bt_portKey (addTraffic i ou r bt) = bt_portKey bt"
  by (simp_all add: addTraffic_def shape_def bt_portKey_def)

lemma recordUsage_sel [simp]:
  "hub (recordUsage e t i ou r s) = hub s" "pman (recordUsage e t i ou r s) = pman s"
  "ags (recordUsage e t i ou r s) = ags s" "btNext (recordUsage e t i ou r s) = btNext s"
  "agNext (recordUsage e t i ou r s) = agNext s" "TunnelsActive (recordUsage e t i ou r s) = TunnelsActive s"
  "btHost (bts (recordUsage e t i ou r s) u) = btHost (bts s u)"
  "btPort (bts (recordUsage e t i ou r s) u) = btPort (bts s u)"
  "ttype (bts (recordUsage e t i ou r s) u) = ttype (bts s u)"
  "btSession (bts (recordUsage e t i ou r s) u) = btSession (bts s u)"
  "clientTunnelID (bts (recordUsage e t i ou r s) u) = clientTunnelID (bts s u)"
  "shape (bts (recordUsage e t i ou r s) u) = shape (bts s u)"
  "bt_portKey (bts (recordUsage e t i ou r s) u) = bt_portKey (bts s u)"
  by (simp_all add: recordUsage_def)

lemma edge_wf_recordUsage [wf_intros]: "edge_wf s \<Longrightarrow> edge_wf (recordUsage e t i ou r s)"
  by (simp add: edge_wf_def hub_ok_def live_def)

lemma edge_wf_step:
  assumes "edge_step ok s s'" "edge_wf s"
  shows "edge_wf s'"
  using assms
proof (induction rule: edge_step.induct)
  case (session_up authn wr idb raddr m s r x s')
  then show ?case by (rule_tac edge_wf_openSession)
next
  case (control s a m e r s')
  then show ?case
  proof (cases m)
    case (MsgBind b)
    obtain r2 s2 where "handleBind e a b s = (r2, s2)" by fastforce
    with control MsgBind edge_wf_handleBind show ?thesis by (simp add: controlTurn_def)
  qed (simp_all add: controlTurn_def, metis edge_wf_handleUnbind)
next
  case (presence s addr t)
  then show ?case by (simp add: edge_wf_def live_def)
qed (auto intro: wf_intros)

lemma edge_wf_reach: "edge_reach ok s \<Longrightarrow> edge_wf s"
  by (induction rule: edge_reach.induct) (auto intro: edge_wf_new_server edge_wf_step)

end
