(* ===== verification/EdgeExact.thy ===== *)
theory EdgeExact
  imports EdgeSafety
begin

text \<open>
  The exact invariant of an edge whose agents are careful: the routing tables hold precisely the
  tunnels the live sessions track, the port pool precisely the ports of those tunnels, and the
  \<^verbatim>\<open>TunnelsActive\<close> gauge counts them.
\<close>

definition tracked :: "Server \<Rightarrow> tref \<Rightarrow> bool" where
  "tracked s t \<longleftrightarrow> live s (btSession (bts s t)) \<and>
     gget (tunnels (ags s (btSession (bts s t)))) (clientTunnelID (bts s t)) = Some t"

definition edge_exact :: "Server \<Rightarrow> bool" where
  "edge_exact s \<longleftrightarrow>
     (\<forall>x t. gget (byHost (hub s)) x = Some t \<longleftrightarrow> tracked s t \<and> btHost (bts s t) = x \<and> x \<noteq> '''') \<and>
     (\<forall>k t. gget (byPort (hub s)) k = Some t \<longleftrightarrow> tracked s t \<and> btPort (bts s t) \<noteq> 0 \<and> bt_portKey (bts s t) = k) \<and>
     (\<forall>proto p. (proto = ''tcp'' \<or> proto = ''udp'') \<longrightarrow>
        (p \<in> used_set proto (pman s) \<longleftrightarrow> gget (byPort (hub s)) (portKey proto p) \<noteq> None)) \<and>
     TunnelsActive s = int (length (byHost (hub s)) + length (byPort (hub s)))"

lemma edge_exactD:
  assumes "edge_exact s"
  shows "\<And>x t. gget (byHost (hub s)) x = Some t \<longleftrightarrow> tracked s t \<and> btHost (bts s t) = x \<and> x \<noteq> ''''"
    "\<And>k t. gget (byPort (hub s)) k = Some t \<longleftrightarrow> tracked s t \<and> btPort (bts s t) \<noteq> 0 \<and> bt_portKey (bts s t) = k"
    "\<And>proto p. proto = ''tcp'' \<or> proto = ''udp'' \<Longrightarrow>
        p \<in> used_set proto (pman s) \<longleftrightarrow> gget (byPort (hub s)) (portKey proto p) \<noteq> None"
    "TunnelsActive s = int (length (byHost (hub s)) + length (byPort (hub s)))"
proof -
  note c = assms [unfolded edge_exact_def]
  show "\<And>x t. gget (byHost (hub s)) x = Some t \<longleftrightarrow> tracked s t \<and> btHost (bts s t) = x \<and> x \<noteq> ''''"
    by (rule c [THEN conjunct1, rule_format])
  show "\<And>k t. gget (byPort (hub s)) k = Some t \<longleftrightarrow> tracked s t \<and> btPort (bts s t) \<noteq> 0 \<and> bt_portKey (bts s t) = k"
    by (rule c [THEN conjunct2, THEN conjunct1, rule_format])
  show "\<And>proto p. proto = ''tcp'' \<or> proto = ''udp'' \<Longrightarrow>
        p \<in> used_set proto (pman s) \<longleftrightarrow> gget (byPort (hub s)) (portKey proto p) \<noteq> None"
    by (rule c [THEN conjunct2, THEN conjunct2, THEN conjunct1, rule_format])
  show "TunnelsActive s = int (length (byHost (hub s)) + length (byPort (hub s)))"
    by (rule c [THEN conjunct2, THEN conjunct2, THEN conjunct2])
qed

lemma trackedD:
  assumes "edge_wf s" "tracked s t"
  shows "t < btNext s" "shape (bts s t)" "live s (btSession (bts s t))"
  using edge_wfD(6) [OF assms(1)] assms(2) unfolding tracked_def by blast+

lemma trackedI:
  assumes "edge_wf s" "live s a" "gget (tunnels (ags s a)) cid = Some t"
  shows "tracked s t" "btSession (bts s t) = a" "clientTunnelID (bts s t) = cid"
  using edge_wfD(6) [OF assms] assms(2,3) by (simp_all add: tracked_def)

section \<open>Binding\<close>

lemma tracked_new_tunnel:
  assumes "edge_wf s" "edge_wf s'" "new_tunnel a b s t s'" "hubSessions (hub s') = hubSessions (hub s)" "live s a"
    and "gget (tunnels (ags s a)) (bClientTunnelId b) = None"
  shows "tracked s' u \<longleftrightarrow> u = t \<or> tracked s u"
proof -
  have nt: "t = btNext s" "btNext s' = btNext s + 1" "\<And>u. u < btNext s \<Longrightarrow> bts s' u = bts s u"
    "clientTunnelID (bts s' t) = bClientTunnelId b" "btSession (bts s' t) = a"
    "ags s' = (ags s)(a := (ags s a)\<lparr>tunnels := gset (bClientTunnelId b) t (tunnels (ags s a))\<rparr>)"
    using assms(3) by (auto simp: new_tunnel_def)
  note lv = live_new_tunnel [OF assms(3,4)]
  have tr: "gget (tunnels (ags s' c)) id =
      (if c = a \<and> id = bClientTunnelId b then Some t else gget (tunnels (ags s c)) id)" for c id
    by (simp add: nt(6))
  have new: "tracked s' t" using assms(5) nt(4,5) by (simp add: tracked_def lv tr)
  have old: "tracked s' u = tracked s u" if "u < btNext s"
    using that nt(1,3) assms(6) by (auto simp: tracked_def lv tr)
  have "tracked s' u \<Longrightarrow> u = t \<or> u < btNext s" "tracked s u \<Longrightarrow> u < btNext s"
    using trackedD(1) [OF assms(2)] trackedD(1) [OF assms(1)] nt(1,2) by fastforce+
  with new old show ?thesis by blast
qed

lemma allocateHost_free:
  assumes "allocateHost e b dec s = Inr host"
  shows "bCustomDomain b \<noteq> '''' \<and> AllowCustomDomains (dLimits dec) \<and> host = to_lower (bCustomDomain b) \<or>
     bCustomDomain b = '''' \<and> LookupHost host (hub s) = None"
  using assms by (auto simp: allocateHost_def Let_def find_Some_iff split: if_splits option.splits)

lemma edge_exact_handleBind:
  assumes "edge_wf s" "edge_exact s" "live s a" "careful_agent s a (MsgBind b)" "handleBind e a b s = (r, s')"
  shows "edge_exact s'"
  using assms(5) edge_wfD(2) [OF assms(1)]
proof (cases rule: handleBind_cases)
  case Refused
  then have fr: "hub s' = hub s" "ags s' = ags s" "TunnelsActive s' = TunnelsActive s"
      "\<And>p. used_set p (pman s') = used_set p (pman s)" "\<And>u. u < btNext s \<Longrightarrow> bts s' u = bts s u"
    by (auto simp: same_routing_def)
  have wf': "edge_wf s'" by (rule edge_wf_handleBind [OF assms(1,3,5)])
  have sess: "u < btNext s" if "tracked s' u" for u
  proof -
    from that have "live s (btSession (bts s' u))"
      "gget (tunnels (ags s (btSession (bts s' u)))) (clientTunnelID (bts s' u)) = Some u"
      by (auto simp: tracked_def live_def fr(1,2))
    then show ?thesis using edge_wfD(6) [OF assms(1)] by blast
  qed
  have old: "tracked s' u = tracked s u" if "u < btNext s" for u
    using fr(5) [OF that] by (simp add: tracked_def live_def fr(1,2))
  have tr: "tracked s' u \<and> P (bts s' u) \<longleftrightarrow> tracked s u \<and> P (bts s u)" for u P
    using trackedD(1) [OF assms(1), of u] sess [of u] old [of u] fr(5) [of u] by auto
  note d = edge_exactD [OF assms(2)]
  have 1: "gget (byHost (hub s')) x = Some t \<longleftrightarrow> tracked s' t \<and> btHost (bts s' t) = x \<and> x \<noteq> ''''" for x t
    using d(1) [of x t] tr [of t "\<lambda>bt. btHost bt = x \<and> x \<noteq> ''''"] fr(1) by simp
  have 2: "gget (byPort (hub s')) k = Some t \<longleftrightarrow> tracked s' t \<and> btPort (bts s' t) \<noteq> 0 \<and> bt_portKey (bts s' t) = k" for k t
    using d(2) [of k t] tr [of t "\<lambda>bt. btPort bt \<noteq> 0 \<and> bt_portKey bt = k"] fr(1) by simp
  from 1 2 d(3,4) fr show ?thesis unfolding edge_exact_def by simp
next
  case (Host dec s1 host)
  note d = edge_exactD [OF assms(2)]
  have wf': "edge_wf s'" by (rule edge_wf_handleBind [OF assms(1,3,5)])
  have bh: "new_tunnel a b s (btNext s) s'" "btHost (bts s' (btNext s)) = host" "btPort (bts s' (btNext s)) = 0"
    "hub s' = (hub s)\<lparr>byHost := gset host (btNext s) (byHost (hub s))\<rparr>" "pman s' = pman s"
    using Host(8) by (auto simp: bound_host_def)
  have nt: "\<And>u. u < btNext s \<Longrightarrow> bts s' u = bts s u" "TunnelsActive s' = TunnelsActive s + 1"
    using bh(1) by (auto simp: new_tunnel_def)
  have tr: "tracked s' u \<longleftrightarrow> u = btNext s \<or> tracked s u" for u
    by (rule tracked_new_tunnel [OF assms(1) wf' bh(1)]) (use bh(4) assms(3,4) in \<open>simp_all add: careful_agent_def\<close>)
  have free: "gget (byHost (hub s)) host = None"
  proof (rule ccontr)
    assume "gget (byHost (hub s)) host \<noteq> None"
    then obtain x where x: "gget (byHost (hub s)) host = Some x" by blast
    then have "bts s' x = bts s x" "btSession (bts s' x) = a"
      using nt(1) edge_wfD(7) [OF assms(1)] Host(9) by blast+
    moreover have "hub s1 = hub s" using newTunnel_sel(3) [OF Host(4)] .
    ultimately show False
      using x assms(4) allocateHost_free [OF Host(5)] by (auto simp: careful_agent_def LookupHost_def)
  qed
  have host: "host \<noteq> ''''" by (rule allocateHost_nonempty [OF Host(5)])
  have lt: "tracked s u \<Longrightarrow> u < btNext s" for u by (rule trackedD(1) [OF assms(1)])
  have 1: "gget (byHost (hub s')) x = Some t \<longleftrightarrow> tracked s' t \<and> btHost (bts s' t) = x \<and> x \<noteq> ''''" for x t
    using d(1) [of x t] d(1) [of host t] free lt [of t] nt(1) [of t] bh(2) host by (auto simp: tr bh(4) split: if_splits)
  have 2: "gget (byPort (hub s')) k = Some t \<longleftrightarrow> tracked s' t \<and> btPort (bts s' t) \<noteq> 0 \<and> bt_portKey (bts s' t) = k" for k t
    using d(2) [of k t] lt [of t] nt(1) [of t] bh(3) by (auto simp: tr bh(4))
  have 3: "TunnelsActive s' = int (length (byHost (hub s')) + length (byPort (hub s')))"
    using d(4) free nt(2) by (simp add: bh(4) length_gset)
  from 1 2 3 d(3) bh(4,5) show ?thesis unfolding edge_exact_def by simp
next
  case (Port dec port)
  note d = edge_exactD [OF assms(2)] and pt = port_type_proto [OF Port(3)]
  note op = openPort_ok [OF Port(7) pt]
  let ?k = "portKey (protoForType (bType b)) port"
  have wf': "edge_wf s'" by (rule edge_wf_handleBind [OF assms(1,3,5)])
  have bp: "new_tunnel a b s (btNext s) s'" "btHost (bts s' (btNext s)) = ''''" "btPort (bts s' (btNext s)) = port"
    "hub s' = (hub s)\<lparr>byPort := gset ?k (btNext s) (byPort (hub s))\<rparr>"
    using Port(8) by (auto simp: bound_port_def)
  have nt: "\<And>u. u < btNext s \<Longrightarrow> bts s' u = bts s u" "TunnelsActive s' = TunnelsActive s + 1"
    "bt_portKey (bts s' (btNext s)) = ?k"
    using bp(1,3) by (auto simp: new_tunnel_def bt_portKey_def)
  have tr: "tracked s' u \<longleftrightarrow> u = btNext s \<or> tracked s u" for u
    by (rule tracked_new_tunnel [OF assms(1) wf' bp(1)]) (use bp(4) assms(3,4) in \<open>simp_all add: careful_agent_def\<close>)
  have free: "gget (byPort (hub s)) ?k = None" using d(3) [OF pt, of port] op(1) by auto
  have port: "port \<noteq> 0" using op(1) edge_wfD(3) [OF assms(1)] by auto
  have lt: "tracked s u \<Longrightarrow> u < btNext s" for u by (rule trackedD(1) [OF assms(1)])
  have 1: "gget (byHost (hub s')) x = Some t \<longleftrightarrow> tracked s' t \<and> btHost (bts s' t) = x \<and> x \<noteq> ''''" for x t
    using d(1) [of x t] lt [of t] nt(1) [of t] bp(2) by (auto simp: tr bp(4))
  have 2: "gget (byPort (hub s')) k = Some t \<longleftrightarrow> tracked s' t \<and> btPort (bts s' t) \<noteq> 0 \<and> bt_portKey (bts s' t) = k" for k t
    using d(2) [of k t] d(2) [of ?k t] free lt [of t] nt(1) [of t] nt(3) bp(3) port by (auto simp: tr bp(4) split: if_splits)
  have 3: "p \<in> used_set proto (pman s') \<longleftrightarrow> gget (byPort (hub s')) (portKey proto p) \<noteq> None"
    if "proto = ''tcp'' \<or> proto = ''udp''" for proto p
  proof (cases "proto = protoForType (bType b)")
    case True
    with d(3) [OF that, of p] op(2) show ?thesis by (auto simp: bp(4))
  next
    case False
    then have "(proto = ''udp'') \<noteq> (protoForType (bType b) = ''udp'')" using that pt by auto
    with op(3) [of proto] d(3) [OF that, of p] False show ?thesis by (simp add: bp(4))
  qed
  have 4: "TunnelsActive s' = int (length (byHost (hub s')) + length (byPort (hub s')))"
    using d(4) free nt(2) by (simp add: bp(4) length_gset)
  from 1 2 3 4 show ?thesis unfolding edge_exact_def by blast
qed

section \<open>Releasing\<close>

text \<open>A tunnel that the tables hold under its own key.\<close>

definition routed :: "theap \<Rightarrow> Hub \<Rightarrow> tref \<Rightarrow> bool" where
  "routed bb h t \<longleftrightarrow> shape (bb t) \<and>
     (if port_type (ttype (bb t)) then gget (byPort h) (bt_portKey (bb t)) = Some t
      else gget (byHost h) (btHost (bb t)) = Some t)"

lemma routed_unbind_other:
  "routed bb h t \<Longrightarrow> routed bb h u \<Longrightarrow> t \<noteq> u \<Longrightarrow> routed bb (unbind (bb t) h) u"
  by (auto simp: routed_def shape_def split: if_splits)

lemma length_unbind:
  assumes "routed bb h t" "gomap_ok (byHost h)" "gomap_ok (byPort h)"
  shows "length (byHost (unbind (bb t) h)) + length (byPort (unbind (bb t) h)) + 1 =
     length (byHost h) + length (byPort h)"
proof -
  have pos: "gget m k = Some v \<Longrightarrow> 0 < length m" for m :: "(string, tref) gomap" and k v
    by (cases m) auto
  show ?thesis
    using assms pos [of "byHost h" "btHost (bb t)" t] pos [of "byPort h" "bt_portKey (bb t)" t]
    by (auto simp: unbind_def routed_def shape_def length_gdel Let_def split: if_splits)
qed

lemma gomap_ok_unbind:
  "gomap_ok (byHost h) \<Longrightarrow> gomap_ok (byPort h) \<Longrightarrow> gomap_ok (byHost (unbind bt h)) \<and> gomap_ok (byPort (unbind bt h))"
  by (simp add: unbind_def Let_def)

lemma length_fold_release:
  assumes "distinct ts" "\<And>t. t \<in> set ts \<Longrightarrow> routed (bts s) (hub s) t"
    and "gomap_ok (byHost (hub s))" "gomap_ok (byPort (hub s))"
  shows "length (byHost (hub (fold (releaseTunnel e) ts s))) + length (byPort (hub (fold (releaseTunnel e) ts s)))
           + length ts = length (byHost (hub s)) + length (byPort (hub s))"
  using assms
proof (induction ts arbitrary: s)
  case Nil
  then show ?case by simp
next
  case (Cons t ts)
  have "routed (bts s) (hub s) t" using Cons.prems(2) by simp
  note len = length_unbind [OF this Cons.prems(3,4)]
  have "routed (bts (releaseTunnel e t s)) (hub (releaseTunnel e t s)) u" if "u \<in> set ts" for u
    using that Cons.prems(1,2) routed_unbind_other [of "bts s" "hub s" t u] by auto
  then show ?case
    using Cons.IH [of "releaseTunnel e t s"] Cons.prems(1,3,4) len gomap_ok_unbind [of "hub s" "bts s t"] by simp
qed

text \<open>
  A session \<open>a\<close> gives up the tunnels \<open>ts\<close> it tracks; it stays up with the others, or it tracked
  no others and goes down.
\<close>

lemma edge_exact_release:
  assumes "edge_wf s" "edge_exact s" "live s a" "distinct ts"
    and ts: "\<And>t. t \<in> set ts \<Longrightarrow> tracked s t \<and> btSession (bts s t) = a"
    and ags': "\<And>c. c \<noteq> a \<Longrightarrow> ags s' c = ags s c" "sessionID (ags s' a) = sessionID (ags s a)"
      "\<And>id u. gget (tunnels (ags s' a)) id = Some u \<longleftrightarrow> gget (tunnels (ags s a)) id = Some u \<and> u \<notin> set ts"
    and live': "\<And>c. c \<noteq> a \<Longrightarrow> live s' c = live s c"
      "live s' a \<or> (\<forall>id u. gget (tunnels (ags s a)) id = Some u \<longrightarrow> u \<in> set ts)"
    and tables: "byHost (hub s') = byHost (hub (fold (releaseTunnel e) ts s))"
      "byPort (hub s') = byPort (hub (fold (releaseTunnel e) ts s))"
      "pman s' = pman (fold (releaseTunnel e) ts s)"
      "TunnelsActive s' = TunnelsActive s - int (length ts)" "bts s' = bts s"
  shows "edge_exact s'"
proof -
  note d = edge_exactD [OF assms(2)]
  have tr: "tracked s' u \<longleftrightarrow> tracked s u \<and> u \<notin> set ts" for u
  proof (cases "btSession (bts s u) = a")
    case True
    then show ?thesis using ags'(3) live'(2) assms(3) by (auto simp: tracked_def tables(5))
  next
    case False
    then have "u \<notin> set ts" using ts by blast
    with False show ?thesis using ags'(1) live'(1) by (simp add: tracked_def tables(5))
  qed
  have routed: "routed (bts s) (hub s) t" if "tracked s t" for t
    using trackedD(2) [OF assms(1) that] that d(1) [of "btHost (bts s t)" t] d(2) [of "bt_portKey (bts s t)" t]
    by (auto simp: routed_def shape_def split: if_splits)
  have 1: "gget (byHost (hub s')) x = Some t \<longleftrightarrow> tracked s' t \<and> btHost (bts s' t) = x \<and> x \<noteq> ''''" for x t
  proof -
    have "u = t" if "u \<in> set ts" "btHost (bts s u) = x" "gget (byHost (hub s)) x = Some t" "x \<noteq> ''''" for u
      using that ts [of u] d(1) [of x u] by simp
    then show ?thesis
      using d(1) [of x t] by (auto simp: tr tables(1,5) fold_release_byHost split: if_splits)
  qed
  have 2: "gget (byPort (hub s')) k = Some t \<longleftrightarrow> tracked s' t \<and> btPort (bts s' t) \<noteq> 0 \<and> bt_portKey (bts s' t) = k" for k t
  proof -
    have "u = t" if "u \<in> set ts" "btPort (bts s u) \<noteq> 0" "bt_portKey (bts s u) = k" "gget (byPort (hub s)) k = Some t" for u
      using that ts [of u] d(2) [of k u] by simp
    then show ?thesis
      using d(2) [of k t] by (auto simp: tr tables(2,5) fold_release_byPort split: if_splits)
  qed
  have 3: "p \<in> used_set proto (pman s') \<longleftrightarrow> gget (byPort (hub s')) (portKey proto p) \<noteq> None"
    if pr: "proto = ''tcp'' \<or> proto = ''udp''" for proto p
  proof -
    have "bt_portKey (bts s t) = portKey proto p \<longleftrightarrow>
        btPort (bts s t) = p \<and> (proto = ''udp'') = (protoForType (ttype (bts s t)) = ''udp'')"
      if "t \<in> set ts" "btPort (bts s t) \<noteq> 0" for t
    proof -
      have "shape (bts s t)" using trackedD(2) [OF assms(1)] ts that(1) by blast
      then have "port_type (ttype (bts s t))" using that(2) by (auto simp: shape_def split: if_splits)
      then show ?thesis using pr by (auto simp: bt_portKey_def port_type_def)
    qed
    then show ?thesis
      using d(3) [OF pr, of p] unfolding tables(2,3) used_set_fold_release fold_release_byPort by auto
  qed
  have "gomap_ok (byHost (hub s))" "gomap_ok (byPort (hub s))"
    using edge_wfD(1) [OF assms(1)] by (simp_all add: hub_ok_def)
  then have 4: "TunnelsActive s' = int (length (byHost (hub s')) + length (byPort (hub s')))"
    using length_fold_release [OF assms(4), of s e] routed ts d(4) tables(1,2,4) by fastforce
  from 1 2 3 4 show ?thesis unfolding edge_exact_def by blast
qed

lemma fold_release_upd_ag:
  "hub (fold (releaseTunnel e) ts (upd_ag a f s)) = hub (fold (releaseTunnel e) ts s)"
  "pman (fold (releaseTunnel e) ts (upd_ag a f s)) = pman (fold (releaseTunnel e) ts s)"
proof -
  have *: "hub (fold (releaseTunnel e) ts s1) = hub (fold (releaseTunnel e) ts s2) \<and>
        pman (fold (releaseTunnel e) ts s1) = pman (fold (releaseTunnel e) ts s2)"
    if "hub s1 = hub s2" "pman s1 = pman s2" "bts s1 = bts s2" for s1 s2
    using that by (induction ts arbitrary: s1 s2) simp_all
  have "hub (upd_ag a f s) = hub s" "pman (upd_ag a f s) = pman s" "bts (upd_ag a f s) = bts s" by simp_all
  from * [OF this] show "hub (fold (releaseTunnel e) ts (upd_ag a f s)) = hub (fold (releaseTunnel e) ts s)"
    "pman (fold (releaseTunnel e) ts (upd_ag a f s)) = pman (fold (releaseTunnel e) ts s)" by blast+
qed

lemma edge_exact_handleUnbind:
  assumes "edge_wf s" "edge_exact s" "live s a"
  shows "edge_exact (handleUnbind e a cid s)"
proof (cases "gget (tunnels (ags s a)) cid")
  case None
  let ?s = "handleUnbind e a cid s"
  have s': "?s = upd_ag a (\<lambda>ag. ag\<lparr>tunnels := gdel cid (tunnels ag)\<rparr>) s"
    using None by (simp add: handleUnbind_def)
  show ?thesis
    by (rule edge_exact_release [OF assms, of "[]"]) (use None assms(3) in \<open>auto simp: s' live_def split: if_splits\<close>)
next
  case (Some t)
  let ?s = "handleUnbind e a cid s" and ?f = "\<lambda>ag. ag\<lparr>tunnels := gdel cid (tunnels ag)\<rparr>"
  have s': "?s = releaseTunnel e t (upd_ag a ?f s)" using Some by (simp add: handleUnbind_def)
  note ti = trackedI [OF assms(1,3) Some]
  have "u \<noteq> t" if "gget (tunnels (ags s a)) id = Some u" "id \<noteq> cid" for id u
    using trackedI(3) [OF assms(1,3) that(1)] ti(3) that(2) by auto
  then have rest: "gget (tunnels (?f (ags s a))) id = Some u \<longleftrightarrow> gget (tunnels (ags s a)) id = Some u \<and> u \<notin> set [t]" for id u
    using Some by auto
  have f: "ags ?s = (ags s)(a := ?f (ags s a))" "hub ?s = hub (fold (releaseTunnel e) [t] s)"
    "pman ?s = pman (fold (releaseTunnel e) [t] s)" "bts ?s = bts s"
    "TunnelsActive ?s = TunnelsActive s - int (length [t])"
    by (simp_all add: s')
  show ?thesis
  proof (rule edge_exact_release [OF assms, of "[t]" ?s e])
    show "gget (tunnels (ags ?s a)) id = Some u \<longleftrightarrow> gget (tunnels (ags s a)) id = Some u \<and> u \<notin> set [t]" for id u
      using rest by (simp add: f(1))
    show "live ?s a \<or> (\<forall>id u. gget (tunnels (ags s a)) id = Some u \<longrightarrow> u \<in> set [t])"
      using assms(3) by (simp add: live_def f(1,2))
    show "live ?s c = live s c" if "c \<noteq> a" for c using that by (simp add: live_def f(1,2))
  qed (use ti in \<open>simp_all add: f\<close>)
qed

lemma edge_exact_sessionDown:
  assumes "edge_wf s" "edge_exact s" "live s a"
  shows "edge_exact (sessionDown e a s)"
proof -
  let ?ts = "map snd (tunnels (ags s a))" and ?s = "sessionDown e a s"
  have ok: "gomap_ok (tunnels (ags s a))" by (rule edge_wfD(5) [OF assms(1)])
  have mem: "t \<in> set ?ts \<longleftrightarrow> (\<exists>id. gget (tunnels (ags s a)) id = Some t)" for t
    using gomap_ok_mem [OF ok] by force
  have tr: "tracked s t \<and> btSession (bts s t) = a" if "t \<in> set ?ts" for t
    using that trackedI [OF assms(1,3)] unfolding mem by blast
  have "inj_on snd (set (tunnels (ags s a)))"
    using trackedI(3) [OF assms(1,3)] gomap_ok_mem [OF ok] by (intro inj_onI) (metis prod.collapse)
  then have "distinct ?ts" using ok by (simp add: distinct_map gomap_ok_def)
  have f: "ags ?s = (ags s)(a := (ags s a)\<lparr>tunnels := []\<rparr>)" "bts ?s = bts s"
    "byHost (hub ?s) = byHost (hub (fold (releaseTunnel e) ?ts s))"
    "byPort (hub ?s) = byPort (hub (fold (releaseTunnel e) ?ts s))"
    "hubSessions (hub ?s) = gdel (sessionID (ags s a)) (hubSessions (hub s))"
    "pman ?s = pman (fold (releaseTunnel e) ?ts s)" "TunnelsActive ?s = TunnelsActive s - int (length ?ts)"
    by (simp_all add: sessionDown_def teardown_sel Let_def fold_release_upd_ag)
  show ?thesis
  proof (rule edge_exact_release [OF assms \<open>distinct ?ts\<close> tr, of ?s e])
    show "gget (tunnels (ags ?s a)) id = Some u \<longleftrightarrow> gget (tunnels (ags s a)) id = Some u \<and> u \<notin> set ?ts" for id u
      using mem by (auto simp: f(1))
    show "live ?s a \<or> (\<forall>id u. gget (tunnels (ags s a)) id = Some u \<longrightarrow> u \<in> set ?ts)" using mem by blast
    show "live ?s c = live s c" if "c \<noteq> a" for c
      using that assms(3) by (auto simp: live_def f(1,5))
  qed (simp_all add: f)
qed

section \<open>Every reachable state\<close>

text \<open>The invariant only looks at the tables, the tracked tunnels, the pool and the gauge.\<close>

lemma edge_exact_cong:
  assumes "edge_exact s" "byHost (hub s') = byHost (hub s)" "byPort (hub s') = byPort (hub s)" "pman s' = pman s"
    "TunnelsActive s' = TunnelsActive s" "\<And>t. tracked s' t = tracked s t"
    "\<And>t. btHost (bts s' t) = btHost (bts s t)" "\<And>t. btPort (bts s' t) = btPort (bts s t)"
    "\<And>t. bt_portKey (bts s' t) = bt_portKey (bts s t)"
  shows "edge_exact s'"
  using assms(1) unfolding edge_exact_def assms(2-9) .

lemma edge_exact_openSession:
  assumes "edge_wf s" "edge_exact s" "openSession authn wr idb raddr m s = (r, x, s')"
    and "gget (hubSessions (hub s)) (newSessionID idb) = None"
  shows "edge_exact s'"
proof -
  have new: "tracked s' t = tracked s t"
    if a: "ags s' = (ags s)(agNext s := ag)" "tunnels ag = []" "bts s' = bts s"
      and h: "hubSessions (hub s') = hubSessions (hub s) \<or>
        hubSessions (hub s') = gset (newSessionID idb) (agNext s) (hubSessions (hub s))" for ag t
  proof (cases "btSession (bts s t) = agNext s")
    case True
    have "\<not> live s (agNext s)" using edge_wfD(4) [OF assms(1)] unfolding live_def by blast
    with True a show ?thesis by (simp add: tracked_def)
  next
    case False
    then have "live s' (btSession (bts s t)) = live s (btSession (bts s t))"
      using h assms(4) a by (auto simp: live_def split: if_splits)
    with False a show ?thesis by (simp add: tracked_def)
  qed
  show ?thesis using assms(3)
  proof (cases rule: openSession_state)
    case 1
    with assms(2) show ?thesis by simp
  next
    case (2 acc pl key)
    then show ?thesis
      by (intro edge_exact_cong [OF assms(2)] new [of "session_of idb raddr acc pl key"]) (simp_all add: session_of_def)
  next
    case (3 hello acc pl)
    then show ?thesis
      by (intro edge_exact_cong [OF assms(2)] new [of "session_of idb raddr acc pl (ApiKey hello)"])
        (simp_all add: session_of_def addSession_def)
  qed
qed

lemma edge_exact_step:
  assumes "edge_step careful_agent s s'" "edge_wf s" "edge_exact s"
  shows "edge_exact s'"
  using assms
proof (induction rule: edge_step.induct)
  case (session_up authn wr idb raddr m s r x s')
  then show ?case by (rule_tac edge_exact_openSession)
next
  case (control s a m e r s')
  then show ?case
  proof (cases m)
    case (MsgBind b)
    obtain r2 s2 where "handleBind e a b s = (r2, s2)" by fastforce
    with control MsgBind edge_exact_handleBind show ?thesis by (simp add: controlTurn_def)
  qed (simp_all add: controlTurn_def, metis edge_exact_handleUnbind)
next
  case (session_down s a e)
  then show ?case by (rule_tac edge_exact_sessionDown)
next
  case (traffic t s e i ou r)
  then show ?case by (rule_tac edge_exact_cong [of s]) (simp_all add: tracked_def live_def)
next
  case (presence s addr t)
  then show ?case by (rule_tac edge_exact_cong [of s]) (simp_all add: tracked_def live_def)
qed

lemma edge_exact_new_server: "edge_exact (newServer c portMin portMax rep)"
  by (simp add: edge_exact_def newServer_def NewHub_def tracked_def live_def newPortManager_def used_set_def
      is_used_def pm_used_def)

lemma edge_exact_reach: "edge_reach careful_agent s \<Longrightarrow> edge_exact s"
proof (induction rule: edge_reach.induct)
  case (start portMin c portMax rep)
  then show ?case by (rule_tac edge_exact_new_server)
next
  case (step s s')
  then show ?case using edge_exact_step edge_wf_reach by blast
qed

section \<open>Properties\<close>

text \<open>C1. The routing state of an edge is exact. In every state reachable with careful agents (no
  session binds a tunnel id it still has in use, nor a custom domain it already serves itself), a host
  or a port is routed to a tunnel exactly when a session that is up tracks that tunnel under its
  id; a public port is reserved exactly when it is routed; and the \<^verbatim>\<open>TunnelsActive\<close> gauge is the
  number of routes that \<^verbatim>\<open>Stats\<close> reports.\<close>

theorem edge_routing_exact:
  assumes "edge_reach careful_agent s"
  shows "(LookupHost x (hub s) = Some t \<longleftrightarrow> tracked s t \<and> btHost (bts s t) = x \<and> x \<noteq> '''')
       \<and> (gget (byPort (hub s)) k = Some t \<longleftrightarrow> tracked s t \<and> btPort (bts s t) \<noteq> 0 \<and> bt_portKey (bts s t) = k)
       \<and> (p \<in> used_set ''tcp'' (pman s) \<longleftrightarrow> LookupPort ''tcp'' p (hub s) \<noteq> None)
       \<and> (p \<in> used_set ''udp'' (pman s) \<longleftrightarrow> LookupPort ''udp'' p (hub s) \<noteq> None)
       \<and> TunnelsActive s = int (snd (Stats (hub s)))"
proof -
  note d = edge_exactD [OF edge_exact_reach [OF assms]]
  show ?thesis
    using d(1) [of x t] d(2) [of k t] d(3) [of "''tcp''" p] d(3) [of "''udp''" p] d(4)
    by (simp add: LookupHost_def LookupPort_def Stats_def)
qed

text \<open>A run used as an example: one agent connects and binds a TCP port.\<close>

definition ex_cfg :: EdgeConfig where
  "ex_cfg = \<lparr>BaseDomain = ''lvh.me'', cfgEdgeID = ''e1'', Region = ''eu'', HeartbeatInterval = 20 * second,
     ForwardAddr = '''', InternalToken = '''', SiteUpstream = '''', AppUpstream = '''', APIUpstream = '''', AltSvc = ''''\<rparr>"

definition ex_env :: Env where
  "ex_env = \<lparr>now = 1, rnd = (\<lambda>i. replicate 8 (word_of_nat i)), listen = (\<lambda>_ p. Inr (nat p)), checkBind = stub_CheckBind\<rparr>"

definition ex_s0 :: Server where
  "ex_s0 = newServer ex_cfg 20000 20099 False"

definition ex_s1 :: Server where
  "ex_s1 = snd (snd (openSession stub_Authenticate True [1, 2] ''10.0.0.9:4000''
      (MsgHello \<lparr>ProtocolVersion = ''1'', ApiKey = ''rk_live_x''\<rparr>) ex_s0))"

definition ex_bind :: BindTunnel where
  "ex_bind = \<lparr>bClientTunnelId = ''t1'', bType = TunnelType_TCP, bSubdomain = '''', bCustomDomain = '''',
     bRemotePort = 20001, bOptions = []\<rparr>"

definition ex_s2 :: Server where
  "ex_s2 = snd (handleBind ex_env 0 ex_bind ex_s1)"

lemma ex_s1_facts:
  "hub ex_s1 = addSession (newSessionID [1, 2]) 0 NewHub" "sessionID (ags ex_s1 0) = newSessionID [1, 2]"
  "tunnels (ags ex_s1 0) = []" "pman ex_s1 = newPortManager 20000 20099" "btNext ex_s1 = 0"
  by (simp_all add: ex_s1_def ex_s0_def newServer_def openSession_def readHello_def protocolVersion_def
      stub_Authenticate_def Let_def)

lemma ex_s1_live: "live ex_s1 0"
  by (simp add: live_def ex_s1_facts addSession_def)

lemma ex_s1_reach: "edge_reach ok ex_s1"
proof -
  have "edge_reach ok ex_s0" unfolding ex_s0_def by (rule edge_reach.start) simp
  moreover have "gget (hubSessions (hub ex_s0)) (newSessionID [1, 2]) = None"
    by (simp add: ex_s0_def newServer_def NewHub_def)
  ultimately show ?thesis
    unfolding ex_s1_def
    by (metis (no_types, lifting) edge_reach.step edge_step.session_up prod.collapse)
qed

lemma ex_handleBind:
  "handleBind ex_env 0 ex_bind ex_s1 =
     (\<lparr>rClientTunnelId = ''t1'', rOk = True, rPublicUrl = ''tcp://lvh.me:'' @ show_int 20001,
       rAssignedHost = ''lvh.me'', rAssignedPort = 20001, rError = None\<rparr>, ex_s2)"
proof -
  have "fst (handleBind ex_env 0 ex_bind ex_s1) =
     \<lparr>rClientTunnelId = ''t1'', rOk = True, rPublicUrl = ''tcp://lvh.me:'' @ show_int 20001,
       rAssignedHost = ''lvh.me'', rAssignedPort = 20001, rError = None\<rparr>"
    by (simp add: handleBind_def stub_CheckBind_def ex_env_def ex_bind_def bindPortTunnel_def newTunnel_def
        ex_s1_facts openPort_def openTCPPort_def reserve_def newPortManager_def pm_used_def is_used_def
        bindPort_def addSession_def NewHub_def Let_def noLimits_def)
      (simp add: ex_s1_def ex_s0_def newServer_def openSession_def readHello_def protocolVersion_def
        stub_Authenticate_def Let_def ex_cfg_def)
  then show ?thesis by (simp add: ex_s2_def prod_eq_iff)
qed

lemma ex_s2_reach: "edge_reach careful_agent ex_s2"
proof -
  have "careful_agent ex_s1 0 (MsgBind ex_bind)"
    by (simp add: careful_agent_def ex_s1_facts ex_bind_def LookupHost_def addSession_def NewHub_def)
  moreover have "controlTurn ex_env 0 (MsgBind ex_bind) ex_s1 =
      (Some (MsgBindResp (fst (handleBind ex_env 0 ex_bind ex_s1))), ex_s2)"
    by (simp add: controlTurn_def ex_s2_def split: prod.splits)
  ultimately show ?thesis
    using ex_s1_reach ex_s1_live edge_step.control edge_reach.step by metis
qed

lemma ex_s2_facts:
  "byPort (hub ex_s2) = [(portKey ''tcp'' 20001, 0)]" "byHost (hub ex_s2) = []"
  "hubSessions (hub ex_s2) = [(newSessionID [1, 2], 0)]"
  "sessionID (ags ex_s2 0) = newSessionID [1, 2]" "tunnels (ags ex_s2 0) = [(''t1'', 0)]"
  "btPort (bts ex_s2 0) = 20001" "btSession (bts ex_s2 0) = 0" "clientTunnelID (bts ex_s2 0) = ''t1''"
  "ttype (bts ex_s2 0) = TunnelType_TCP" "TunnelsActive ex_s2 = 1"
proof -
  have "pm_wf (pman ex_s1)" by (simp add: ex_s1_facts pm_wf_new)
  with ex_handleBind have "\<exists>port. port = 20001 \<and> bound_port 0 ex_bind port 0 ex_s1 ex_s2"
  proof (cases rule: handleBind_cases)
    case (Port dec port)
    have "port = uint (bRemotePort ex_bind)"
      by (rule openPort_ok(7) [OF Port(7)]) (simp_all add: ex_bind_def)
    with Port(8) show ?thesis by (simp add: ex_s1_facts ex_bind_def)
  qed (simp_all add: ex_bind_def port_type_def)
  moreover have "TunnelsActive ex_s1 = 0"
    by (simp add: ex_s1_def ex_s0_def newServer_def openSession_def readHello_def protocolVersion_def
      stub_Authenticate_def Let_def)
  ultimately show
    "byPort (hub ex_s2) = [(portKey ''tcp'' 20001, 0)]" "byHost (hub ex_s2) = []"
    "hubSessions (hub ex_s2) = [(newSessionID [1, 2], 0)]"
    "sessionID (ags ex_s2 0) = newSessionID [1, 2]" "tunnels (ags ex_s2 0) = [(''t1'', 0)]"
    "btPort (bts ex_s2 0) = 20001" "btSession (bts ex_s2 0) = 0" "clientTunnelID (bts ex_s2 0) = ''t1''"
    "ttype (bts ex_s2 0) = TunnelType_TCP" "TunnelsActive ex_s2 = 1"
    by (simp_all add: bound_port_def new_tunnel_def ex_s1_facts addSession_def NewHub_def ex_bind_def)
qed

lemma ex_s2_live: "live ex_s2 0"
  by (simp add: live_def ex_s2_facts)

theorem edge_routing_exact_witness:
  "tracked ex_s2 0 \<and> 20001 \<in> used_set ''tcp'' (pman ex_s2) \<and> TunnelsActive ex_s2 = 1"
  using edge_routing_exact [OF ex_s2_reach, of "''''" 0 "portKey ''tcp'' 20001" 20001]
  by (simp add: ex_s2_facts LookupPort_def Stats_def)

text \<open>C16. Nothing of a session survives it: on an edge whose agents are careful (no session binds
  a tunnel id it still has in use, nor a custom domain it already serves itself), after the teardown of a session no
  host and no port is routed to one of its tunnels, and the public ports of its tunnels are free
  again.\<close>

theorem teardown_releases_everything:
  assumes "edge_reach careful_agent s" "live s a"
  shows "(\<forall>x t. LookupHost x (hub (sessionDown e a s)) = Some t \<longrightarrow> btSession (bts s t) \<noteq> a)
       \<and> (\<forall>proto p t. LookupPort proto p (hub (sessionDown e a s)) = Some t \<longrightarrow> btSession (bts s t) \<noteq> a)
       \<and> (\<forall>t. tracked s t \<and> btSession (bts s t) = a \<and> btPort (bts s t) \<noteq> 0 \<longrightarrow>
            btPort (bts s t) \<notin> used_set (protoForType (ttype (bts s t))) (pman (sessionDown e a s)))"
proof -
  let ?s = "sessionDown e a s"
  have wf: "edge_wf s" by (rule edge_wf_reach [OF assms(1)])
  have dead: "\<not> live ?s a" by (simp add: live_def sessionDown_def teardown_sel Let_def)
  have bts: "bts ?s = bts s" by (simp add: sessionDown_def teardown_sel Let_def)
  note d = edge_exactD [OF edge_exact_sessionDown [OF wf edge_exact_reach [OF assms(1)] assms(2), of e]]
  have owner: "tracked ?s t \<Longrightarrow> btSession (bts s t) \<noteq> a" for t
    using dead by (auto simp: tracked_def bts)
  have "btPort (bts s t) \<notin> used_set (protoForType (ttype (bts s t))) (pman ?s)"
    if t: "tracked s t" "btSession (bts s t) = a" "btPort (bts s t) \<noteq> 0" for t
  proof
    assume used: "btPort (bts s t) \<in> used_set (protoForType (ttype (bts s t))) (pman ?s)"
    have "port_type (ttype (bts s t))" using trackedD(2) [OF wf t(1)] t(3) by (auto simp: shape_def split: if_splits)
    from d(3) [OF port_type_proto [OF this], of "btPort (bts s t)"] used
    obtain u where u: "gget (byPort (hub ?s)) (bt_portKey (bts s t)) = Some u" by (auto simp: bt_portKey_def)
    then have "tracked ?s u" using d(2) by blast
    moreover have "gget (byPort (hub s)) (bt_portKey (bts s t)) = Some u"
      using u by (simp add: sessionDown_def teardown_sel Let_def fold_release_byPort split: if_splits)
    moreover have "gget (byPort (hub s)) (bt_portKey (bts s t)) = Some t"
      using edge_exactD(2) [OF edge_exact_reach [OF assms(1)], of "bt_portKey (bts s t)" t] t by simp
    ultimately have "tracked ?s t" by simp
    then show False using owner t(2) by blast
  qed
  moreover have "btSession (bts s t) \<noteq> a" if "LookupHost x (hub ?s) = Some t" for x t
    using that d(1) [of x t] owner by (simp add: LookupHost_def)
  moreover have "btSession (bts s t) \<noteq> a" if "LookupPort proto p (hub ?s) = Some t" for proto p t
    using that d(2) [of "portKey proto p" t] owner by (simp add: LookupPort_def)
  ultimately show ?thesis by blast
qed

theorem teardown_releases_everything_witness:
  "20001 \<notin> used_set ''tcp'' (pman (sessionDown ex_env 0 ex_s2)) \<and>
   LookupPort ''tcp'' 20001 (hub (sessionDown ex_env 0 ex_s2)) \<noteq> Some 0"
proof -
  note w = teardown_releases_everything [OF ex_s2_reach ex_s2_live, of ex_env]
  have "tracked ex_s2 0" by (simp add: tracked_def ex_s2_live ex_s2_facts)
  with w [THEN conjunct2, THEN conjunct2, THEN spec, of 0]
    w [THEN conjunct2, THEN conjunct1, THEN spec, THEN spec, THEN spec, of "''tcp''" 20001 0]
  show ?thesis by (auto simp: ex_s2_facts)
qed

text \<open>C15. A refused bind leaves no trace in the routing state, whatever the agents did before: the
  hub, the registry, the port pool, the sessions and the gauges are as they were, and the
  response carries an error.\<close>

theorem refused_bind_changes_nothing:
  assumes "edge_reach any_agent s" "handleBind e a b s = (r, s')" "\<not> rOk r"
  shows "same_routing s s' \<and> (\<exists>err. rError r = Some err)"
  using assms(2) edge_wfD(2) [OF edge_wf_reach [OF assms(1)]]
  by (cases rule: handleBind_cases) (use assms(3) in auto)

theorem refused_bind_changes_nothing_witness:
  "case handleBind ex_env 0 (ex_bind\<lparr>bRemotePort := 80\<rparr>) ex_s1 of
     (r, s') \<Rightarrow> same_routing ex_s1 s' \<and> rError r = Some (NewError CodePortUnavailable ''no ports available'')"
proof -
  let ?b = "ex_bind\<lparr>bRemotePort := 80\<rparr>"
  have "fst (handleBind ex_env 0 ?b ex_s1) = bindErr ?b CodePortUnavailable ''no ports available''"
    by (simp add: handleBind_def stub_CheckBind_def ex_env_def ex_bind_def bindPortTunnel_def newTunnel_def
        ex_s1_facts openPort_def openTCPPort_def reserve_def newPortManager_def noLimits_def)
  then show ?thesis
    using refused_bind_changes_nothing [OF ex_s1_reach, of ex_env 0 ?b]
    by (cases "handleBind ex_env 0 ?b ex_s1") (simp add: bindErr_def)
qed

text \<open>C7. Binding is safe against other sessions, whatever the agents send: a bind request of session
  \<open>a\<close> never redirects or removes a host or port that is routed to a tunnel of another session, and
  it leaves that tunnel untouched.\<close>

theorem bind_keeps_other_sessions:
  assumes "edge_reach any_agent s" "live s a" "handleBind e a b s = (r, s')"
    and "btSession (bts s t) \<noteq> a"
  shows "(LookupHost x (hub s) = Some t \<longrightarrow> LookupHost x (hub s') = Some t \<and> bts s' t = bts s t)
       \<and> (LookupPort proto p (hub s) = Some t \<longrightarrow> LookupPort proto p (hub s') = Some t \<and> bts s' t = bts s t)"
  using assms(3) edge_wfD(2) [OF edge_wf_reach [OF assms(1)]]
proof (cases rule: handleBind_cases)
  case Refused
  then show ?thesis
    using edge_wfD(7,8) [OF edge_wf_reach [OF assms(1)]]
    by (auto simp: same_routing_def LookupHost_def LookupPort_def)
next
  case (Host dec s1 host)
  note d = edge_wfD(7,8) [OF edge_wf_reach [OF assms(1)]]
  have "u < btNext s \<Longrightarrow> bts s' u = bts s u" for u using Host(8) by (simp add: bound_host_def new_tunnel_def)
  with Host(8,9) d(1) [of x t] d(2) [of "portKey proto p" t] assms(4) show ?thesis
    by (auto simp: bound_host_def LookupHost_def LookupPort_def)
next
  case (Port dec port)
  note d = edge_wfD(7,8) [OF edge_wf_reach [OF assms(1)]]
  have "u < btNext s \<Longrightarrow> bts s' u = bts s u" for u using Port(8) by (simp add: bound_port_def new_tunnel_def)
  with Port(8,9) d(1) [of x t] d(2) [of "portKey proto p" t] assms(4) show ?thesis
    by (auto simp: bound_port_def LookupHost_def LookupPort_def)
qed

text \<open>A second agent on the same edge.\<close>

definition ex_s3 :: Server where
  "ex_s3 = snd (snd (openSession stub_Authenticate True [3, 4] ''10.0.0.8:4000''
      (MsgHello \<lparr>ProtocolVersion = '''', ApiKey = ''rk_live_y''\<rparr>) ex_s2))"

lemma agNext_ex_s2: "agNext ex_s2 = 1"
proof -
  have "agNext ex_s1 = 1"
    by (simp add: ex_s1_def ex_s0_def newServer_def openSession_def readHello_def protocolVersion_def
      stub_Authenticate_def Let_def)
  moreover have "pm_wf (pman ex_s1)" by (simp add: ex_s1_facts pm_wf_new)
  with ex_handleBind have "agNext ex_s2 = agNext ex_s1"
    by (cases rule: handleBind_cases) (auto simp: same_routing_def bound_host_def bound_port_def new_tunnel_def)
  ultimately show ?thesis by simp
qed

lemma newSessionID_ex: "newSessionID [3, 4] \<noteq> newSessionID [1, 2]"
  by (simp add: newSessionID_def hex_encode_def hex_digit_def)

lemma ex_s3_facts:
  "byPort (hub ex_s3) = [(portKey ''tcp'' 20001, 0)]" "live ex_s3 1" "btSession (bts ex_s3 0) = 0"
  "edge_reach careful_agent ex_s3" "edge_reach any_agent ex_s3"
proof -
  have eq: "openSession stub_Authenticate True [3, 4] ''10.0.0.8:4000''
      (MsgHello \<lparr>ProtocolVersion = '''', ApiKey = ''rk_live_y''\<rparr>) ex_s2 =
     (Some \<lparr>aOk = True, aAccountId = ''dev'', aPlan = ''pro'', aSessionId = newSessionID [3, 4], aError = None\<rparr>,
      Some 1, ex_s3)"
    by (simp add: ex_s3_def openSession_def readHello_def stub_Authenticate_def Let_def agNext_ex_s2)
  show "byPort (hub ex_s3) = [(portKey ''tcp'' 20001, 0)]" "live ex_s3 1" "btSession (bts ex_s3 0) = 0"
    by (simp_all add: ex_s3_def openSession_def readHello_def stub_Authenticate_def Let_def agNext_ex_s2
        addSession_def ex_s2_facts live_def newSessionID_ex)
  have free: "gget (hubSessions (hub ex_s2)) (newSessionID [3, 4]) = None"
    by (simp add: ex_s2_facts newSessionID_ex)
  show "edge_reach careful_agent ex_s3"
    by (rule edge_reach.step [OF ex_s2_reach edge_step.session_up [OF eq free]])
  have "edge_reach any_agent ex_s2"
    by (rule edge_reach.step [OF ex_s1_reach edge_step.control [OF ex_s1_live, of _ "MsgBind ex_bind" ex_env]])
      (simp_all add: any_agent_def controlTurn_def ex_handleBind)
  then show "edge_reach any_agent ex_s3"
    by (rule edge_reach.step [OF _ edge_step.session_up [OF eq free]])
qed

theorem bind_keeps_other_sessions_witness:
  "LookupPort ''tcp'' 20001 (hub (snd (handleBind ex_env 1 ex_bind ex_s3))) = Some 0"
  using bind_keeps_other_sessions [OF ex_s3_facts(5,2), of ex_env ex_bind _ "snd (handleBind ex_env 1 ex_bind ex_s3)" 0
      "''''" "''tcp''" 20001]
  by (cases "handleBind ex_env 1 ex_bind ex_s3") (simp add: ex_s3_facts LookupPort_def)

end
