(* ===== verification/EdgePolicy.thy ===== *)
theory EdgePolicy
  imports EdgeExact
begin

text \<open>
  What the edge enforces: the limits of the decision at bind time and the gate for certificates;
  and what it does not: a tunnel id bound twice leaks the first tunnel, and a route released
  twice can take down the route of another session.
\<close>

section \<open>Effects used below\<close>

lemma allocateHost_sub:
  assumes "allocateHost e b dec s = Inr host" "bCustomDomain b = ''''" "bSubdomain b \<noteq> ''''"
  shows "AllowReservedSubdomain (dLimits dec)" "host = to_lower (bSubdomain b) @ ''.'' @ BaseDomain (cfg s)"
  using assms by (auto simp: allocateHost_def Let_def split: if_splits)

lemma allocateHost_random:
  assumes "allocateHost e b dec s = Inr host" "bCustomDomain b = ''''" "bSubdomain b = ''''" "AssignedSubdomain dec = ''''"
  shows "\<exists>i < 8. host = randSubdomain (rnd e i) @ ''.'' @ BaseDomain (cfg s)"
  using assms by (auto simp: allocateHost_def Let_def find_Some_iff split: if_splits option.splits)

lemma sessionDown_byPort:
  "gget (byPort (hub (sessionDown e a s))) k =
     (if \<exists>t \<in> snd ` set (tunnels (ags s a)). btPort (bts s t) \<noteq> 0 \<and> bt_portKey (bts s t) = k then None
      else gget (byPort (hub s)) k)"
  unfolding sessionDown_def teardown_sel Let_def by (simp add: teardown_sel Let_def fold_release_byPort) blast

lemma sessionDown_used:
  "used_set proto (pman (sessionDown e a s)) =
     used_set proto (pman s) - {btPort (bts s t) | t. t \<in> snd ` set (tunnels (ags s a)) \<and> btPort (bts s t) \<noteq> 0 \<and>
        (proto = ''udp'') = (protoForType (ttype (bts s t)) = ''udp'')}"
  by (simp add: sessionDown_def teardown_sel Let_def used_set_fold_release)

lemma set_gset: "gomap_ok m \<Longrightarrow> set (gset k v m) = insert (k, v) {p \<in> set m. fst p \<noteq> k}"
  using gomap_ok_mem [of m] gomap_ok_mem [of "gset k v m"] by (auto split: if_splits)

section \<open>Properties\<close>

text \<open>C18. The edge enforces four of the limits of a decision itself, even when the control plane says \<^verbatim>\<open>Allow\<close>: a bind
  that succeeds was allowed, a TCP or UDP tunnel only with \<^verbatim>\<open>AllowTCP\<close> or \<^verbatim>\<open>AllowUDP\<close>, a custom domain only with
  \<^verbatim>\<open>AllowCustomDomains\<close>, a requested subdomain only with \<^verbatim>\<open>AllowReservedSubdomain\<close>, and then the host is the requested
  one. The numeric limits (concurrent tunnels, traffic, rate) are not looked at.\<close>

theorem bind_enforces_limits:
  assumes "edge_reach any_agent s" "handleBind e a b s = (r, s')" "rOk r"
  shows "\<exists>dec. checkBind e (bindRequest a b s) = Inr dec \<and> Allow dec
     \<and> (bType b = TunnelType_TCP \<longrightarrow> AllowTCP (dLimits dec))
     \<and> (bType b = TunnelType_UDP \<longrightarrow> AllowUDP (dLimits dec))
     \<and> (\<not> port_type (bType b) \<and> bCustomDomain b \<noteq> '''' \<longrightarrow>
          AllowCustomDomains (dLimits dec) \<and> rAssignedHost r = to_lower (bCustomDomain b))
     \<and> (\<not> port_type (bType b) \<and> bCustomDomain b = '''' \<and> bSubdomain b \<noteq> '''' \<longrightarrow>
          AllowReservedSubdomain (dLimits dec)
          \<and> rAssignedHost r = to_lower (bSubdomain b) @ ''.'' @ BaseDomain (cfg s))"
  using assms(2) edge_wfD(2) [OF edge_wf_reach [OF assms(1)]]
proof (cases rule: handleBind_cases)
  case Refused
  with assms(3) show ?thesis by simp
next
  case (Host dec s1 host)
  have "cfg s1 = cfg s" by (rule newTunnel_sel(8) [OF Host(4)])
  with Host allocateHost_free [OF Host(5)] allocateHost_sub [OF Host(5)] show ?thesis
    by (intro exI [of _ dec]) (auto simp: port_type_def)
next
  case (Port dec port)
  then show ?thesis by (intro exI [of _ dec]) (simp add: port_type_def)
qed

theorem bind_enforces_limits_witness:
  "\<exists>dec. checkBind ex_env (bindRequest 0 ex_bind ex_s1) = Inr dec \<and> Allow dec \<and> AllowTCP (dLimits dec)"
  using bind_enforces_limits [OF ex_s1_reach ex_handleBind] by (auto simp: ex_bind_def)

text \<open>A successful bind keeps every reserved port reserved and routed as before, and the new tunnel
  is on another one.\<close>

lemma bind_keeps_port:
  assumes "edge_wf s" "edge_exact s" "handleBind e a b s = (r, s')" "rOk r"
    and "proto = ''tcp'' \<or> proto = ''udp''" "gget (byPort (hub s)) (portKey proto p) = Some t"
  shows "new_tunnel a b s (btNext s) s' \<and> hubSessions (hub s') = hubSessions (hub s) \<and>
     gget (byPort (hub s')) (portKey proto p) = Some t \<and> p \<in> used_set proto (pman s') \<and>
     (btPort (bts s' (btNext s)) \<noteq> 0 \<longrightarrow> bt_portKey (bts s' (btNext s)) \<noteq> portKey proto p)"
  using assms(3) edge_wfD(2) [OF assms(1)]
proof (cases rule: handleBind_cases)
  case Refused
  with assms(4) show ?thesis by simp
next
  case (Host dec s1 host)
  with edge_exactD(3) [OF assms(2,5), of p] assms(6) show ?thesis by (simp add: bound_host_def)
next
  case (Port dec port)
  note pt = port_type_proto [OF Port(3)] and used = edge_exactD(3) [OF assms(2,5), of p]
  note op = openPort_ok [OF Port(7) pt]
  have ne: "\<not> (proto = protoForType (bType b) \<and> p = port)" using op(1) used assms(6) by auto
  have "p \<in> used_set proto (pman s')"
  proof (cases "proto = protoForType (bType b)")
    case True
    with op(2) used assms(6) show ?thesis by simp
  next
    case False
    then have "(proto = ''udp'') \<noteq> (protoForType (bType b) = ''udp'')" using assms(5) pt by auto
    with op(3) [of proto] used assms(6) show ?thesis by simp
  qed
  with Port(8) ne assms(6) show ?thesis by (auto simp: bound_port_def new_tunnel_def bt_portKey_def)
qed

text \<open>A tunnel id bound twice leaks the first tunnel. When a session binds a new tunnel under an
  id that already names a port tunnel, the old tunnel is no longer tracked: after the session is
  torn down its public port is still reserved and still routed to the dead session.\<close>

theorem rebind_leaks_port:
  assumes "edge_reach careful_agent s" "live s a"
    and "gget (tunnels (ags s a)) (bClientTunnelId b) = Some t" "btPort (bts s t) \<noteq> 0"
    and "handleBind e a b s = (r, s')" "rOk r"
  shows "let s'' = sessionDown e' a s'; proto = protoForType (ttype (bts s t)) in
     \<not> live s'' a \<and> btPort (bts s t) \<in> used_set proto (pman s'') \<and> LookupPort proto (btPort (bts s t)) (hub s'') = Some t"
proof -
  have wf: "edge_wf s" by (rule edge_wf_reach [OF assms(1)])
  note ex = edge_exact_reach [OF assms(1)]
  note d = edge_exactD [OF ex] and ti = trackedI [OF wf assms(2,3)]
  let ?proto = "protoForType (ttype (bts s t))" and ?p = "btPort (bts s t)"
  have pt: "port_type (ttype (bts s t))"
    using trackedD(2) [OF wf ti(1)] assms(4) by (auto simp: shape_def split: if_splits)
  have "gget (byPort (hub s)) (portKey ?proto ?p) = Some t"
    using d(2) [of "bt_portKey (bts s t)" t] ti(1) assms(4) by (simp add: bt_portKey_def)
  note k = bind_keeps_port [OF wf ex assms(5,6) port_type_proto [OF pt] this]
  have old: "u < btNext s \<Longrightarrow> bts s' u = bts s u" for u using k by (simp add: new_tunnel_def)
  have others: "bt_portKey (bts s' u) \<noteq> portKey ?proto ?p"
    if u: "u \<in> snd ` set (tunnels (ags s' a))" "btPort (bts s' u) \<noteq> 0" for u
  proof -
    have ok: "gomap_ok (tunnels (ags s a))" by (rule edge_wfD(5) [OF wf])
    have "u = btNext s \<or> (\<exists>cid. cid \<noteq> bClientTunnelId b \<and> gget (tunnels (ags s a)) cid = Some u)"
      using u(1) k set_gset [OF ok] gomap_ok_mem [OF ok] by (auto simp: new_tunnel_def)
    then show ?thesis
    proof
      assume "u = btNext s"
      with k u(2) show ?thesis by simp
    next
      assume "\<exists>cid. cid \<noteq> bClientTunnelId b \<and> gget (tunnels (ags s a)) cid = Some u"
      then obtain cid where c: "cid \<noteq> bClientTunnelId b" "gget (tunnels (ags s a)) cid = Some u" by blast
      note tu = trackedI [OF wf assms(2) c(2)]
      have eq: "bts s' u = bts s u" by (rule old [OF trackedD(1) [OF wf tu(1)]])
      have "u \<noteq> t" using tu(3) ti(3) c(1) by auto
      then show ?thesis using d(2) [of "bt_portKey (bts s u)" u] d(2) [of "bt_portKey (bts s t)" t] tu(1) ti(1) u(2) assms(4)
        by (auto simp: eq bt_portKey_def)
    qed
  qed
  then have route: "gget (byPort (hub (sessionDown e' a s'))) (portKey ?proto ?p) = Some t"
    using k unfolding sessionDown_byPort by auto
  have "\<not> (btPort (bts s' u) = ?p \<and> (?proto = ''udp'') = (protoForType (ttype (bts s' u)) = ''udp''))"
    if "u \<in> snd ` set (tunnels (ags s' a))" "btPort (bts s' u) \<noteq> 0" for u
  proof -
    have "live s' a" using live_new_tunnel(1) [of a b s "btNext s" s' a] k assms(2) by blast
    moreover have "edge_wf s'" by (rule edge_wf_handleBind [OF wf assms(2,5)])
    moreover from this that(1) obtain cid where "gget (tunnels (ags s' a)) cid = Some u"
      using gomap_ok_mem [OF edge_wfD(5)] by fastforce
    ultimately have "shape (bts s' u)" using edge_wfD(6) by blast
    then have "port_type (ttype (bts s' u))" using that(2) by (auto simp: shape_def split: if_splits)
    with others [OF that] pt show ?thesis by (auto simp: bt_portKey_def port_type_def)
  qed
  then have "?p \<in> used_set ?proto (pman (sessionDown e' a s'))"
    using k unfolding sessionDown_used Diff_iff mem_Collect_eq by metis
  moreover have "\<not> live (sessionDown e' a s') a" by (simp add: live_def sessionDown_def teardown_sel Let_def)
  ultimately show ?thesis using route by (simp add: LookupPort_def Let_def)
qed

theorem rebind_leaks_port_witness:
  "\<exists>r s'. handleBind ex_env 0 (ex_bind\<lparr>bRemotePort := 20002\<rparr>) ex_s2 = (r, s') \<and>
     20001 \<in> used_set ''tcp'' (pman (sessionDown ex_env 0 s')) \<and>
     LookupPort ''tcp'' 20001 (hub (sessionDown ex_env 0 s')) = Some 0"
proof -
  let ?b = "ex_bind\<lparr>bRemotePort := 20002\<rparr>"
  obtain r s' where h: "handleBind ex_env 0 ?b ex_s2 = (r, s')" by fastforce
  have used: "usedTCP (pman ex_s2) = [(20001, True)] \<and> pmMin (pman ex_s2) = 20000 \<and> pmMax (pman ex_s2) = 20099"
    by (simp add: ex_s2_def handleBind_def stub_CheckBind_def ex_env_def ex_bind_def bindPortTunnel_def newTunnel_def
        ex_s1_facts openPort_def openTCPPort_def reserve_def newPortManager_def pm_used_def is_used_def
        bindPort_def addSession_def NewHub_def Let_def noLimits_def set_used_def setTCP_def)
  have "rOk (fst (handleBind ex_env 0 ?b ex_s2))"
    by (simp add: handleBind_def stub_CheckBind_def ex_env_def ex_bind_def bindPortTunnel_def newTunnel_def
        used ex_s2_facts openPort_def openTCPPort_def reserve_def pm_used_def is_used_def
        bindPort_def bt_portKey_def Let_def noLimits_def zeroTunnel_def)
  with h have "rOk r" by simp
  with h show ?thesis
    using rebind_leaks_port [OF ex_s2_reach ex_s2_live, of ?b 0 ex_env r s' ex_env]
    by (simp add: ex_s2_facts ex_bind_def Let_def)
qed

text \<open>Certificates are only requested for names the service answers for. Outside its own zone, and
  with no entry in the shared registry, the edge allows issuance for a name exactly when a
  session that is up tracks a tunnel bound to that host; so an arbitrary name in a TLS handshake
  never reaches the certificate authority.\<close>

theorem tls_issuance_gate:
  assumes "edge_reach careful_agent s"
    and "n = to_lower (trim_suffix name ''.'')" "n \<noteq> ''''"
    and "n \<noteq> to_lower (BaseDomain (cfg s))" "\<not> has_suffix n (''.'' @ to_lower (BaseDomain (cfg s)))"
    and "reg_Lookup u (host_route n) (reg s) = None"
  shows "tlsDecision u name s = None \<longleftrightarrow> (\<exists>t. tracked s t \<and> btHost (bts s t) = n)"
  using edge_exactD(1) [OF edge_exact_reach [OF assms(1)], of n] assms(2-6)
  by (auto simp: tlsDecision_def allowTLSName_def LookupHost_def Let_def)

theorem tls_issuance_gate_witness:
  "tlsDecision 5 ''evil.example.'' ex_s0 \<noteq> None"
proof -
  have "edge_reach careful_agent ex_s0" unfolding ex_s0_def by (rule edge_reach.start) simp
  from tls_issuance_gate [OF this, of "''evil.example''" "''evil.example.''" 5] show ?thesis
    by (simp add: ex_s0_def newServer_def ex_cfg_def has_suffix_def trim_suffix_def to_lower_def lower_char_def
        reg_Lookup_def NewInMemoryRegistry_def tracked_def live_def NewHub_def)
qed

end
