(* ===== verification/IngressSafety.thy ===== *)
theory IngressSafety
  imports Ingress EdgePolicy
begin

text \<open>
  What the ingress guarantees to the tunnelled application and to the other edges: who a request
  comes from, how often a password can be tried, that a request crosses at most one hop, and that
  a tunnel that is bound is reached.
\<close>

section \<open>Events of one request\<close>

lemma serveRequest_agent:
  assumes "serveRequest n conn scheme f req s = (evs, keep, f', s')" "EvAgent t st r \<in> set evs"
  shows "LookupHost (hostOnly (rqHost req)) (hub s) = Some t"
    and "checkBasicAuth (rqHeader req) (btOptions (bts s t))"
    and "r = agentRequest n conn scheme (hostOnly (rqHost req)) (bts s t) req"
    and "st = agentInit n (connRemoteAddr conn) scheme (hostOnly (rqHost req)) (bts s t)"
  using assms
  by (auto simp: serveRequest_def Let_def proxyToUpstream_def forwardHTTP_def redirectToHTTPS_def
      split: if_splits option.splits prod.splits)

lemma serveRequest_peer:
  assumes "serveRequest n conn scheme f req s = (evs, keep, f', s')" "EvPeer addr hdr r \<in> set evs"
  shows "forwardingEnabled (cfg s)" "\<not> isForwarded conn" "LookupHost (hostOnly (rqHost req)) (hub s) = None"
    "r = req" "siRemoteAddr hdr = connRemoteAddr conn" "siProto hdr = scheme"
    "siMeta hdr = [(forwardTokenMeta, InternalToken (cfg s))]"
proof -
  have none: "LookupHost (hostOnly (rqHost req)) (hub s) = None"
    using assms by (auto simp: serveRequest_def Let_def redirectToHTTPS_def split: if_splits option.splits)
  have "EvPeer addr hdr r \<notin> set es" if "proxyToUpstream n (cfg s) conn req scheme up = (es, k)" for up es k
    using that by (auto simp: proxyToUpstream_def Let_def split: option.splits)
  then have fwd: "forwardingEnabled (cfg s) \<and> \<not> isForwarded conn \<and>
      (\<exists>evs. forwardHTTP n conn req (hostOnly (rqHost req)) scheme s = Some evs \<and> EvPeer addr hdr r \<in> set evs)"
    using assms none by (auto simp: serveRequest_def Let_def redirectToHTTPS_def split: if_splits option.splits prod.splits)
  then have "r = req \<and> (\<exists>g e. fwd_Dial n (cfg s) g e scheme (connRemoteAddr conn) = Some (addr, hdr))"
    by (auto simp: forwardHTTP_def dialForwardWithRetry_def split: if_splits option.splits; blast)
  with fwd none show "forwardingEnabled (cfg s)" "\<not> isForwarded conn" "LookupHost (hostOnly (rqHost req)) (hub s) = None"
    "r = req" "siRemoteAddr hdr = connRemoteAddr conn" "siProto hdr = scheme"
    "siMeta hdr = [(forwardTokenMeta, InternalToken (cfg s))]"
    by (auto simp: fwd_Dial_def split: if_splits option.splits)
qed

lemma cfg_serveRequest: "serveRequest n conn scheme f req s = (evs, keep, f', s') \<Longrightarrow> cfg s' = cfg s"
  by (auto simp: serveRequest_def Let_def recordUsage_def split: if_splits option.splits prod.splits)

lemma serveRequest_failures:
  assumes "serveRequest n conn scheme f req s = (evs, keep, f', s')"
  shows "(EvStatus 401 \<in> set evs \<and> evs = [EvSleep (basicAuthDelay (f + 1)), EvStatus 401] \<and> f' = f + 1 \<and>
          keep = (f + 1 < maxBasicAuthFailures)) \<or>
     (f' = f \<and> EvStatus 401 \<notin> set evs \<and> (\<forall>d. EvSleep d \<notin> set evs))"
proof (cases "LookupHost (hostOnly (rqHost req)) (hub s)")
  case None
  then show ?thesis
    using assms
    by (auto simp: serveRequest_def Let_def proxyToUpstream_def forwardHTTP_def redirectToHTTPS_def
        split: if_splits option.splits prod.splits)
next
  case (Some t)
  then show ?thesis
    using assms by (auto simp: serveRequest_def Let_def redirectToHTTPS_def split: if_splits option.splits)
qed

text \<open>The events of a connection are the events of its requests.\<close>

lemma serveHTTPConn_event:
  assumes "e \<in> set (fst (serveHTTPConn conn scheme f rs s))"
  shows "\<exists>n req f0 s0 evs keep f1 s1. (n, req) \<in> set rs \<and> cfg s0 = cfg s \<and>
     serveRequest n conn scheme f0 req s0 = (evs, keep, f1, s1) \<and> e \<in> set evs"
  using assms
proof (induction rs arbitrary: f s)
  case Nil
  then show ?case by simp
next
  case (Cons p rs)
  obtain n req where p: "p = (n, req)" by fastforce
  obtain evs keep f1 s1 where r: "serveRequest n conn scheme f req s = (evs, keep, f1, s1)" by (metis surj_pair)
  show ?case
  proof (cases "e \<in> set evs")
    case True
    with r p show ?thesis by force
  next
    case False
    with Cons.prems p r have "keep" "e \<in> set (fst (serveHTTPConn conn scheme f1 rs s1))"
      by (auto split: if_splits prod.splits)
    from Cons.IH [OF this(2)] cfg_serveRequest [OF r] show ?thesis by force
  qed
qed

section \<open>Password guessing\<close>

definition guesses :: "ev list \<Rightarrow> nat" where
  "guesses evs = length (filter (\<lambda>e. e = EvStatus 401) evs)"

fun sleep_of :: "ev \<Rightarrow> duration" where
  "sleep_of (EvSleep d) = d"
| "sleep_of _ = 0"

lemma guesses_append [simp]: "guesses (xs @ ys) = guesses xs + guesses ys"
  by (simp add: guesses_def)

lemma no_guess: "EvStatus 401 \<notin> set evs \<Longrightarrow> guesses evs = 0"
  by (auto simp: guesses_def filter_empty_conv)

lemma no_sleep: "\<forall>d. EvSleep d \<notin> set evs \<Longrightarrow> sum_list (map sleep_of evs) = 0"
proof (induction evs)
  case (Cons e evs)
  then show ?case by (cases e) auto
qed simp

lemma serveHTTPConn_guesses:
  assumes "0 \<le> f" "f < maxBasicAuthFailures"
  shows "case serveHTTPConn conn scheme f rs s of
     (evs, s') \<Rightarrow> f + int (guesses evs) \<le> maxBasicAuthFailures \<and>
       sum_list (map sleep_of evs) = sum_list (map (\<lambda>i. basicAuthDelay (f + int i)) [1..<Suc (guesses evs)])"
  using assms
proof (induction rs arbitrary: f s)
  case Nil
  then show ?case by (simp add: guesses_def)
next
  case (Cons p rs)
  obtain n req where p: "p = (n, req)" by fastforce
  obtain evs keep f1 s1 where r: "serveRequest n conn scheme f req s = (evs, keep, f1, s1)" by (metis surj_pair)
  obtain evs2 s2 where t: "serveHTTPConn conn scheme f1 rs s1 = (evs2, s2)" by fastforce
  consider (bad) "evs = [EvSleep (basicAuthDelay (f + 1)), EvStatus 401]" "f1 = f + 1" "keep = (f + 1 < maxBasicAuthFailures)"
    | (good) "f1 = f" "EvStatus 401 \<notin> set evs" "\<forall>d. EvSleep d \<notin> set evs"
    using serveRequest_failures [OF r] by blast
  then show ?case
  proof cases
    case bad
    have one: "guesses evs = 1" by (simp add: bad guesses_def)
    have shift: "sum_list (map (\<lambda>i. basicAuthDelay (f + int i)) [1..<Suc (Suc k)]) =
        basicAuthDelay (f + 1) + sum_list (map (\<lambda>i. basicAuthDelay (f + 1 + int i)) [1..<Suc k])" for k
    proof -
      have "[1..<Suc (Suc k)] = 1 # map Suc [1..<Suc k]"
        unfolding map_Suc_upt by (subst upt_conv_Cons) simp_all
      then show ?thesis by (simp add: comp_def algebra_simps del: upt_Suc)
    qed
    show ?thesis
    proof (cases keep)
      case True
      then have res: "serveHTTPConn conn scheme f (p # rs) s = (evs @ evs2, s2)" using t p r by simp
      have "guesses (evs @ evs2) = Suc (guesses evs2)" by (simp add: one)
      moreover have "sum_list (map sleep_of (evs @ evs2)) = basicAuthDelay (f + 1) + sum_list (map sleep_of evs2)"
        by (simp add: bad(1))
      ultimately show ?thesis
        using Cons.IH [of f1 s1] True bad(2,3) Cons.prems t shift [of "guesses evs2"]
        by (simp add: res del: upt_Suc)
    next
      case False
      then have res: "serveHTTPConn conn scheme f (p # rs) s = (evs, s1)" using p r by simp
      then show ?thesis using bad(1) Cons.prems one by simp
    qed
  next
    case good
    with Cons.IH [of f s1] Cons.prems t p r no_guess [of evs] no_sleep [of evs] show ?thesis by (auto simp: guesses_def)
  qed
qed

section \<open>Properties\<close>

text \<open>C10. The tunnelled application learns the true client. Whatever a public client puts in its
  forwarding headers, every request that \<^verbatim>\<open>serveHTTPConn\<close> sends to an agent carries the address of
  the connection in \<^verbatim>\<open>X-Forwarded-For\<close> and \<^verbatim>\<open>X-Real-Ip\<close>, no \<^verbatim>\<open>Forwarded\<close> header, the scheme it arrived
  over, and a stream header that names that same address.\<close>

theorem agent_sees_true_client:
  assumes "EvAgent t st r \<in> set (fst (serveHTTPConn conn scheme f rs s))"
  shows "hdr_Get (rqHeader r) ''X-Forwarded-For'' = clientIP (connRemoteAddr conn)
       \<and> hdr_Get (rqHeader r) ''X-Real-Ip'' = clientIP (connRemoteAddr conn)
       \<and> hdr_Get (rqHeader r) ''X-Forwarded-Proto'' = scheme
       \<and> gget (rqHeader r) ''Forwarded'' = None \<and> siRemoteAddr st = connRemoteAddr conn"
proof -
  obtain n req f0 s0 evs keep f1 s1
    where "serveRequest n conn scheme f0 req s0 = (evs, keep, f1, s1)" "EvAgent t st r \<in> set evs"
    using serveHTTPConn_event [OF assms] by blast
  from serveRequest_agent [OF this] show ?thesis
    by (simp add: agentRequest_def agentInit_def Let_def hdr_Get_def hdr_Set_def hdr_Del_def)
qed

text \<open>A server with one host tunnel, as the edge leaves it, and a network that always answers.\<close>

definition ex_host_server :: Server where
  "ex_host_server = (newServer ex_cfg 20000 20099 False)
     \<lparr>hub := NewHub\<lparr>byHost := [(''a.lvh.me'', 0)]\<rparr>, bts := (\<lambda>_. zeroTunnel\<lparr>btHost := ''a.lvh.me'', clientTunnelID := ''t''\<rparr>),
      btNext := 1\<rparr>"

definition ex_net :: Net where
  "ex_net = \<lparr>nNow = 1, nRid = replicate 12 7, nOpenStream = (\<lambda>_. True), nWriteReq = True,
     nResponse = Some \<lparr>rsStatus = 200, rsHeader = [], rsClose = False, rsContentLength = 5\<rparr>, nWriteResp = True,
     nCopied = (0, 0), nProxy = None, nUrlHost = (\<lambda>_. None), nDial = (\<lambda>_. True), nReg2 = NewInMemoryRegistry\<rparr>"

definition ex_req :: Request where
  "ex_req = \<lparr>rqHost = ''A.lvh.me'', rqURI = ''/'', rqHeader = [(''X-Forwarded-For'', [''6.6.6.6''])], rqClose = False,
     rqContentLength = -1\<rparr>"

lemma ex_req_sel:
  "rqContentLength ex_req = -1" "rqClose ex_req = False" "rqHeader ex_req = [(''X-Forwarded-For'', [''6.6.6.6''])]"
  by (simp_all add: ex_req_def)

lemma ex_req_host: "hostOnly (rqHost ex_req) = ''a.lvh.me''"
  by (simp add: ex_req_def hostOnly_def trim_space_id is_space_def to_lower_def lower_char_def char_of_def bit_0 Let_def)

lemma ex_serve:
  "serveRequest ex_net \<lparr>connRemoteAddr = ''1.2.3.4:555'', isForwarded = False\<rparr> ''https'' 0 ex_req ex_host_server =
     ([EvAgent 0 (agentInit ex_net ''1.2.3.4:555'' ''https'' ''a.lvh.me'' (bts ex_host_server 0))
         (agentRequest ex_net \<lparr>connRemoteAddr = ''1.2.3.4:555'', isForwarded = False\<rparr> ''https'' ''a.lvh.me'' (bts ex_host_server 0) ex_req),
       EvRelay \<lparr>rsStatus = 200, rsHeader = [], rsClose = False, rsContentLength = 5\<rparr>], True, 0,
      recordUsage (usageEnv ex_net) 0 0 5 1 ex_host_server)"
proof -
  have "\<not> isUpgrade (rqHeader (agentRequest ex_net c sc h bt ex_req))" for c sc h bt
    by (simp add: isUpgrade_def agentRequest_def ex_req_sel Let_def hdr_Get_def hdr_Set_def hdr_Del_def str_contains_def)
  then show ?thesis
    by (simp add: serveRequest_def ex_req_host Let_def LookupHost_def ex_host_server_def checkBasicAuth_def opt_get_def
        zeroTunnel_def ex_net_def setAltSvc_def newServer_def ex_cfg_def max64_def ex_req_sel)
qed

theorem agent_sees_true_client_witness:
  "\<exists>t st r. EvAgent t st r \<in> set (fst (serveHTTPConn \<lparr>connRemoteAddr = ''1.2.3.4:555'', isForwarded = False\<rparr> ''https'' 0
        [(ex_net, ex_req)] ex_host_server)) \<and> hdr_Get (rqHeader r) ''X-Forwarded-For'' = ''1.2.3.4''"
proof -
  let ?c = "\<lparr>connRemoteAddr = ''1.2.3.4:555'', isForwarded = False\<rparr>"
  let ?r = "agentRequest ex_net ?c ''https'' ''a.lvh.me'' (bts ex_host_server 0) ex_req"
  let ?st = "agentInit ex_net ''1.2.3.4:555'' ''https'' ''a.lvh.me'' (bts ex_host_server 0)"
  have mem: "EvAgent 0 ?st ?r \<in> set (fst (serveHTTPConn ?c ''https'' 0 [(ex_net, ex_req)] ex_host_server))"
    by (simp add: ex_serve)
  have "clientIP ''1.2.3.4:555'' = ''1.2.3.4''"
    using split_host_port_plain [of "''1.2.3.4''" "''555''"] by (simp add: clientIP_def)
  with agent_sees_true_client [OF mem] mem show ?thesis by auto
qed

text \<open>The HTTP/2 and HTTP/3 path lets a client choose its source address: \<^verbatim>\<open>routeHTTPS\<close> sends the
  request to the agent with the \<^verbatim>\<open>X-Forwarded-For\<close>, \<^verbatim>\<open>X-Real-Ip\<close> and \<^verbatim>\<open>Forwarded\<close> headers exactly as the
  client wrote them, where the HTTP/1.1 path overwrites them.\<close>

theorem h3_client_can_spoof_source:
  assumes "EvAgent t st r \<in> set (fst (routeHTTPS n raddr req s))"
  shows "hdr_Get (rqHeader r) ''X-Forwarded-For'' = hdr_Get (rqHeader req) ''X-Forwarded-For''
       \<and> hdr_Get (rqHeader r) ''X-Real-Ip'' = hdr_Get (rqHeader req) ''X-Real-Ip''
       \<and> gget (rqHeader r) ''Forwarded'' = gget (rqHeader req) ''Forwarded''"
proof -
  have "EvAgent t st r \<notin> set (proxyToUpstreamH3 n c raddr req up)" for c up
    by (auto simp: proxyToUpstreamH3_def Let_def split: option.splits)
  with assms have "rqHeader r = hdr_Set ''X-Request-Id'' (newRequestID (nRid n))
      (hdr_Set ''X-Forwarded-Host'' (hostOnly (rqHost req)) (hdr_Set ''X-Forwarded-Proto'' ''https'' (rqHeader req)))"
    by (auto simp: routeHTTPS_def Let_def split: option.splits if_splits)
  then show ?thesis by (simp add: hdr_Get_def hdr_Set_def)
qed

theorem h3_client_can_spoof_source_witness:
  "\<exists>t st r. EvAgent t st r \<in> set (fst (routeHTTPS ex_net ''1.2.3.4:555'' ex_req ex_host_server)) \<and>
     hdr_Get (rqHeader r) ''X-Forwarded-For'' = ''6.6.6.6''"
proof -
  have "\<exists>st r. EvAgent 0 st r \<in> set (fst (routeHTTPS ex_net ''1.2.3.4:555'' ex_req ex_host_server))"
    by (simp add: routeHTTPS_def ex_req_host Let_def LookupHost_def ex_host_server_def checkBasicAuth_def opt_get_def
        zeroTunnel_def ex_net_def)
  then obtain st r where "EvAgent 0 st r \<in> set (fst (routeHTTPS ex_net ''1.2.3.4:555'' ex_req ex_host_server))" by blast
  with h3_client_can_spoof_source [OF this] show ?thesis by (auto simp: ex_req_sel hdr_Get_def)
qed

text \<open>A request crosses at most one hop between edges. A connection handed over by a peer is never
  handed on, whatever the registry says, so edges cannot forward in a loop; and a peer that does
  not present the shared token is not served at all.\<close>

theorem forwarding_is_single_hop:
  "EvPeer addr hdr2 r \<notin> set (fst (serveForward hdr rs s)) \<and>
   (opt_get (siMeta hdr) forwardTokenMeta \<noteq> InternalToken (cfg s) \<longrightarrow> serveForward hdr rs s = ([], s))"
proof -
  have "EvPeer addr hdr2 r \<notin> set (fst (serveHTTPConn \<lparr>connRemoteAddr = a, isForwarded = True\<rparr> scheme f rs s))" for a scheme f
  proof
    assume "EvPeer addr hdr2 r \<in> set (fst (serveHTTPConn \<lparr>connRemoteAddr = a, isForwarded = True\<rparr> scheme f rs s))"
    from serveHTTPConn_event [OF this] show False using serveRequest_peer(2) by fastforce
  qed
  then show ?thesis by (auto simp: serveForward_def Let_def)
qed

theorem forwarding_is_single_hop_witness:
  "serveForward \<lparr>siClientTunnelId = '''', siRemoteAddr = ''1.2.3.4:5'', siProto = ''http'', siMeta = [(forwardTokenMeta, ''guess'')]\<rparr>
     [(ex_net, ex_req)] ex_host_server = ([], ex_host_server)"
  using forwarding_is_single_hop [of "''x''" _ _ "\<lparr>siClientTunnelId = '''', siRemoteAddr = ''1.2.3.4:5'', siProto = ''http'',
      siMeta = [(forwardTokenMeta, ''guess'')]\<rparr>" "[(ex_net, ex_req)]" ex_host_server]
  by (simp add: opt_get_def ex_host_server_def newServer_def ex_cfg_def)

text \<open>The hop between edges is transparent to the application: when an edge hands a connection to a
  peer of the same mesh, the peer accepts the header it is sent, and every request the peer sends
  to its agent carries the address of the original client, not that of the first edge.\<close>

theorem forwarding_keeps_client:
  assumes "EvPeer addr hdr r \<in> set (fst (serveHTTPConn conn scheme f rs sA))"
    and "InternalToken (cfg sA) = InternalToken (cfg sB)" "scheme = ''http'' \<or> scheme = ''https''"
  shows "serveForward hdr rs' sB = serveHTTPConn \<lparr>connRemoteAddr = connRemoteAddr conn, isForwarded = True\<rparr> scheme 0 rs' sB
       \<and> (\<forall>t st q. EvAgent t st q \<in> set (fst (serveForward hdr rs' sB)) \<longrightarrow>
            hdr_Get (rqHeader q) ''X-Forwarded-For'' = clientIP (connRemoteAddr conn))"
proof -
  obtain n req f0 s0 evs keep f1 s1
    where r: "cfg s0 = cfg sA" "serveRequest n conn scheme f0 req s0 = (evs, keep, f1, s1)" "EvPeer addr hdr r \<in> set evs"
    using serveHTTPConn_event [OF assms(1)] by blast
  note h = serveRequest_peer [OF r(2,3)]
  have eq: "serveForward hdr rs' sB =
      serveHTTPConn \<lparr>connRemoteAddr = connRemoteAddr conn, isForwarded = True\<rparr> scheme 0 rs' sB"
    using h(1,5,6,7) r(1) assms(2,3) by (auto simp: serveForward_def opt_get_def forwardingEnabled_def Let_def)
  have "hdr_Get (rqHeader q) ''X-Forwarded-For'' = clientIP (connRemoteAddr conn)"
    if "EvAgent t st q \<in> set (fst (serveForward hdr rs' sB))" for t st q
  proof -
    from serveHTTPConn_event [OF that [unfolded eq]] obtain n req f0 s0 evs keep f1 s1
      where "serveRequest n \<lparr>connRemoteAddr = connRemoteAddr conn, isForwarded = True\<rparr> scheme f0 req s0 = (evs, keep, f1, s1)"
        "EvAgent t st q \<in> set evs" by blast
    from serveRequest_agent(3) [OF this] show ?thesis
      by (simp add: agentRequest_def Let_def hdr_Get_def hdr_Set_def hdr_Del_def)
  qed
  with eq show ?thesis by blast
qed

text \<open>Two edges of a mesh; the host is homed on the second.\<close>

definition ex_mesh_cfg :: "string \<Rightarrow> EdgeConfig" where
  "ex_mesh_cfg edge = ex_cfg\<lparr>cfgEdgeID := edge, ForwardAddr := ''0.0.0.0:7000'', InternalToken := ''tok''\<rparr>"

definition ex_edgeA :: Server where
  "ex_edgeA = (newServer (ex_mesh_cfg ''A'') 20000 20099 False)
     \<lparr>reg := RegisterEdge 0 ''B'' ''b:7000'' 0 (reg_Bind 0 (host_route ''a.lvh.me'') \<lparr>EdgeID = ''B'', SessionID = ''s''\<rparr> 0 NewInMemoryRegistry)\<rparr>"

theorem forwarding_keeps_client_witness:
  "\<exists>addr hdr r. EvPeer addr hdr r \<in> set (fst (serveHTTPConn \<lparr>connRemoteAddr = ''1.2.3.4:555'', isForwarded = False\<rparr> ''https'' 0
        [(ex_net, ex_req)] ex_edgeA)) \<and>
     serveForward hdr [] (ex_host_server\<lparr>cfg := ex_mesh_cfg ''B''\<rparr>) =
       serveHTTPConn \<lparr>connRemoteAddr = ''1.2.3.4:555'', isForwarded = True\<rparr> ''https'' 0 [] (ex_host_server\<lparr>cfg := ex_mesh_cfg ''B''\<rparr>)"
proof -
  let ?c = "\<lparr>connRemoteAddr = ''1.2.3.4:555'', isForwarded = False\<rparr>"
  let ?hdr = "\<lparr>siClientTunnelId = '''', siRemoteAddr = ''1.2.3.4:555'', siProto = ''https'', siMeta = [(forwardTokenMeta, ''tok'')]\<rparr>"
  have "EvPeer ''b:7000'' ?hdr ex_req \<in> set (fst (serveHTTPConn ?c ''https'' 0 [(ex_net, ex_req)] ex_edgeA))"
    by (simp add: serveRequest_def ex_req_host LookupHost_def ex_edgeA_def newServer_def NewHub_def ex_mesh_cfg_def ex_cfg_def
        reservedUpstream_def forwardingEnabled_def forwardHTTP_def reg_Lookup_def RegisterEdge_def reg_Bind_def
        NewInMemoryRegistry_def expiryFrom_def dialForwardWithRetry_def fwd_Dial_def LookupEdge_def ex_net_def Let_def)
  then show ?thesis
    using forwarding_keeps_client [of "''b:7000''" ?hdr ex_req ?c "''https''" 0 "[(ex_net, ex_req)]" ex_edgeA
        "ex_host_server\<lparr>cfg := ex_mesh_cfg ''B''\<rparr>" "[]"]
    by (fastforce simp: ex_edgeA_def newServer_def ex_mesh_cfg_def)
qed

text \<open>Guessing a tunnel's password is throttled: one connection gets at most ten wrong answers, and
  the delays it is made to wait are exactly the escalating ones, so ten guesses take thirteen
  seconds.\<close>

theorem password_guesses_throttled:
  "case serveHTTPConn conn scheme 0 rs s of
     (evs, s') \<Rightarrow> guesses evs \<le> 10
       \<and> sum_list (map sleep_of evs) = sum_list (map (\<lambda>i. basicAuthDelay (int i)) [1..<Suc (guesses evs)])
       \<and> (if guesses evs = 10 then sum_list (map sleep_of evs) = 13 * second else True)"
proof -
  have ten: "sum_list (map (\<lambda>i. basicAuthDelay (int i)) [1..<11]) = 13 * second"
    by (simp add: basicAuthDelay_def upt_rec)
  show ?thesis
    using serveHTTPConn_guesses [of 0 conn scheme rs s] ten
    by (auto simp: maxBasicAuthFailures_def numeral_eq_Suc split: prod.splits)
qed

end
