(* ===== verification/Store.thy ===== *)
theory Store
  imports Prelude Http
begin

text \<open>
  The persistence layer of the control plane: the domain types of \<^verbatim>\<open>internal/api/store/store.go\<close> and
  the in-memory implementation \<^verbatim>\<open>MemStore\<close> of \<^verbatim>\<open>internal/api/store/mem.go\<close>, operation by operation.
  Every operation runs under the store's lock and is one step. \<^verbatim>\<open>time.Now()\<close> is an argument \<open>now\<close>, and
  the identifier that \<^verbatim>\<open>NewID\<close> draws is an argument \<open>nid\<close>. A \<^verbatim>\<open>*time.Time\<close> is an optional time.
  Listings that Go sorts with the unstable \<^verbatim>\<open>sort.Slice\<close> use a stable sort, one of the orders Go may
  return.
\<close>

section \<open>Domain types\<close>

datatype store_error = ErrNotFound | ErrConflict

record User =
  usID :: string
  Email :: string
  usName :: string
  AvatarURL :: string
  OAuthProvider :: string
  usCreatedAt :: gotime

record Org =
  orID :: string
  orName :: string
  orPlan :: string
  StripeCustomerID :: string
  orCreatedAt :: gotime
  PlanExpiresAt :: "gotime option"

record OrgMember =
  omOrgID :: string
  omUserID :: string
  Role :: string

record APIKey =
  kyID :: string
  kyOrgID :: string
  kyName :: string
  Prefix :: string
  Hash :: string
  LastUsedAt :: "gotime option"
  RevokedAt :: "gotime option"
  kyCreatedAt :: gotime

record ReservedSubdomain =
  rsuID :: string
  rsuOrgID :: string
  Subdomain :: string
  rsuCreatedAt :: gotime

record CustomDomain =
  cdID :: string
  cdOrgID :: string
  Domain :: string
  VerifyToken :: string
  VerifiedAt :: "gotime option"
  CertStatus :: string
  cdCreatedAt :: gotime

record UsageRecord =
  urOrgID :: string
  urTunnelID :: string
  urBytesIn :: int
  urBytesOut :: int
  urRequests :: int
  urWindowStart :: gotime
  urWindowEnd :: gotime

record TunnelSession =
  tsID :: string
  tsOrgID :: string
  tsEdgeID :: string
  tsSessionID :: string
  tsTunnelID :: string
  tsType :: string
  tsPublicURL :: string
  tsHost :: string
  tsPort :: int
  tsRegion :: string
  ClientIP :: string
  Country :: string
  City :: string
  tsBytesIn :: int
  tsBytesOut :: int
  tsRequests :: int
  Status :: string
  StartedAt :: gotime
  EndedAt :: "gotime option"

record TunnelSessionFilter =
  fOrgID :: string
  ActiveOnly :: bool
  Limit :: int
  Offset :: int

record UsageBucket =
  ubStart :: gotime
  ubBytesIn :: int
  ubBytesOut :: int
  ubRequests :: int

record AdminStats =
  stUsers :: nat
  NewUsers7d :: nat
  NewUsers30d :: nat
  stOrgs :: nat
  stOrgsByPlan :: "(string, nat) gomap"
  APIKeys :: nat
  ReservedSubdomains :: nat
  CustomDomains :: nat
  ActiveTunnels :: nat
  TotalTunnels :: nat
  BytesIn30d :: int
  BytesOut30d :: int
  Requests30d :: int

record Subscription =
  sbID :: string
  sbOrgID :: string
  StripeSubID :: string
  sbStripeCustomerID :: string
  sbPlan :: string
  sbStatus :: string
  CurrentPeriodEnd :: gotime
  CancelAtPeriodEnd :: bool
  sbCreatedAt :: gotime
  sbUpdatedAt :: gotime

record MeteredUsage =
  muID :: int
  muOrgID :: string
  Metric :: string
  Quantity :: int
  muWindowStart :: gotime
  muWindowEnd :: gotime
  ReportedAt :: "gotime option"
  muCreatedAt :: gotime

record MemStore =
  users :: "(string, User) gomap"
  usersEmail :: "(string, string) gomap"
  orgs :: "(string, Org) gomap"
  members :: "OrgMember list"
  keys :: "(string, APIKey) gomap"
  keyPrefix :: "(string, string) gomap"
  subs :: "(string, ReservedSubdomain) gomap"
  subByName :: "(string, string) gomap"
  domains :: "(string, CustomDomain) gomap"
  domByName :: "(string, string) gomap"
  stUsage :: "UsageRecord list"
  subsByOrg :: "(string, Subscription) gomap"
  subsByStripe :: "(string, string) gomap"
  events :: "(string, bool) gomap"
  metered :: "MeteredUsage list"
  meteredSeq :: int
  tunnelHist :: "TunnelSession list"

definition NewMemStore :: MemStore where
  "NewMemStore = \<lparr>users = [], usersEmail = [], orgs = [], members = [], keys = [], keyPrefix = [],
     subs = [], subByName = [], domains = [], domByName = [], stUsage = [], subsByOrg = [],
     subsByStripe = [], events = [], metered = [], meteredSeq = 0, tunnelHist = []\<rparr>"

text \<open>\<^verbatim>\<open>if x.ID == "" { x.ID = NewID(..) }\<close> and the same for a zero time.\<close>

definition or_id :: "string \<Rightarrow> string \<Rightarrow> string" where
  "or_id nid i = (if i = '''' then nid else i)"

definition or_time :: "gotime \<Rightarrow> gotime \<Rightarrow> gotime" where
  "or_time now t = (if t = 0 then now else t)"

text \<open>A Go map read where the key is known to be present.\<close>

definition the_row :: "(string, 'a) gomap \<Rightarrow> string \<Rightarrow> store_error + 'a" where
  "the_row m k = (case gget m k of Some v \<Rightarrow> Inr v | None \<Rightarrow> Inl ErrNotFound)"

section \<open>Users and organisations\<close>

definition CreateUser :: "gotime \<Rightarrow> string \<Rightarrow> User \<Rightarrow> MemStore \<Rightarrow> (store_error + User) \<times> MemStore" where
  "CreateUser now nid u m =
     (if gget (usersEmail m) (to_lower (Email u)) \<noteq> None then (Inl ErrConflict, m)
      else
        let u' = u\<lparr>usID := or_id nid (usID u), usCreatedAt := or_time now (usCreatedAt u)\<rparr>
        in (Inr u', m\<lparr>users := gset (usID u') u' (users m),
                      usersEmail := gset (to_lower (Email u')) (usID u') (usersEmail m)\<rparr>))"

definition UpdateUserProfile :: "string \<Rightarrow> string \<Rightarrow> string \<Rightarrow> MemStore \<Rightarrow> (store_error + unit) \<times> MemStore" where
  "UpdateUserProfile i name avatar m =
     (case gget (users m) i of
        None \<Rightarrow> (Inl ErrNotFound, m)
      | Some u \<Rightarrow>
          let u1 = (if name \<noteq> '''' then u\<lparr>usName := name\<rparr> else u);
              u2 = (if avatar \<noteq> '''' then u1\<lparr>AvatarURL := avatar\<rparr> else u1)
          in (Inr (), m\<lparr>users := gset i u2 (users m)\<rparr>))"

definition GetUser :: "string \<Rightarrow> MemStore \<Rightarrow> store_error + User" where
  "GetUser i m = the_row (users m) i"

text \<open>The index is followed without a check; a dangling entry would read Go's zero \<^verbatim>\<open>User\<close>. The
  invariant below shows that there is none.\<close>

definition zeroUser :: User where
  "zeroUser = \<lparr>usID = '''', Email = '''', usName = '''', AvatarURL = '''', OAuthProvider = '''', usCreatedAt = 0\<rparr>"

definition GetUserByEmail :: "string \<Rightarrow> MemStore \<Rightarrow> store_error + User" where
  "GetUserByEmail email m =
     (case gget (usersEmail m) (to_lower email) of
        None \<Rightarrow> Inl ErrNotFound
      | Some i \<Rightarrow> Inr (case gget (users m) i of Some u \<Rightarrow> u | None \<Rightarrow> zeroUser))"

definition CreateOrg :: "gotime \<Rightarrow> string \<Rightarrow> Org \<Rightarrow> MemStore \<Rightarrow> Org \<times> MemStore" where
  "CreateOrg now nid og m =
     (let o1 = og\<lparr>orID := or_id nid (orID og), orPlan := or_id ''free'' (orPlan og),
                 orCreatedAt := or_time now (orCreatedAt og)\<rparr>
      in (o1, m\<lparr>orgs := gset (orID o1) o1 (orgs m)\<rparr>))"

definition GetOrg :: "string \<Rightarrow> MemStore \<Rightarrow> store_error + Org" where
  "GetOrg i m = the_row (orgs m) i"

definition OrgsByPlan :: "string \<Rightarrow> MemStore \<Rightarrow> Org list" where
  "OrgsByPlan plan m = filter (\<lambda>og. orPlan og = plan) (map snd (orgs m))"

definition upd_org :: "string \<Rightarrow> (Org \<Rightarrow> Org) \<Rightarrow> MemStore \<Rightarrow> (store_error + unit) \<times> MemStore" where
  "upd_org orgID f m =
     (case gget (orgs m) orgID of
        None \<Rightarrow> (Inl ErrNotFound, m)
      | Some og \<Rightarrow> (Inr (), m\<lparr>orgs := gset orgID (f og) (orgs m)\<rparr>))"

definition UpdateOrgPlan :: "string \<Rightarrow> string \<Rightarrow> MemStore \<Rightarrow> (store_error + unit) \<times> MemStore" where
  "UpdateOrgPlan orgID plan = upd_org orgID (\<lambda>og. og\<lparr>orPlan := plan, PlanExpiresAt := None\<rparr>)"

definition SetOrgPlan :: "string \<Rightarrow> string \<Rightarrow> gotime option \<Rightarrow> MemStore \<Rightarrow> (store_error + unit) \<times> MemStore" where
  "SetOrgPlan orgID plan expiresAt = upd_org orgID (\<lambda>og. og\<lparr>orPlan := plan, PlanExpiresAt := expiresAt\<rparr>)"

definition SetOrgStripeCustomer :: "string \<Rightarrow> string \<Rightarrow> MemStore \<Rightarrow> (store_error + unit) \<times> MemStore" where
  "SetOrgStripeCustomer orgID customerID = upd_org orgID (\<lambda>og. og\<lparr>StripeCustomerID := customerID\<rparr>)"

definition AddOrgMember :: "OrgMember \<Rightarrow> MemStore \<Rightarrow> (store_error + unit) \<times> MemStore" where
  "AddOrgMember mem m =
     (if \<exists>e \<in> set (members m). omOrgID e = omOrgID mem \<and> omUserID e = omUserID mem then (Inl ErrConflict, m)
      else (Inr (), m\<lparr>members := members m @ [mem]\<rparr>))"

definition ListOrgMembers :: "string \<Rightarrow> MemStore \<Rightarrow> OrgMember list" where
  "ListOrgMembers orgID m = filter (\<lambda>e. omOrgID e = orgID) (members m)"

definition OrgsForUser :: "string \<Rightarrow> MemStore \<Rightarrow> Org list" where
  "OrgsForUser userID m =
     List.map_filter (\<lambda>e. if omUserID e = userID then gget (orgs m) (omOrgID e) else None) (members m)"

section \<open>API keys\<close>

definition CreateAPIKey :: "gotime \<Rightarrow> string \<Rightarrow> APIKey \<Rightarrow> MemStore \<Rightarrow> (store_error + APIKey) \<times> MemStore" where
  "CreateAPIKey now nid k m =
     (let k' = k\<lparr>kyID := or_id nid (kyID k), kyCreatedAt := or_time now (kyCreatedAt k)\<rparr> in
      if gget (keyPrefix m) (Prefix k') \<noteq> None then (Inl ErrConflict, m)
      else (Inr k', m\<lparr>keys := gset (kyID k') k' (keys m), keyPrefix := gset (Prefix k') (kyID k') (keyPrefix m)\<rparr>))"

definition zeroKey :: APIKey where
  "zeroKey = \<lparr>kyID = '''', kyOrgID = '''', kyName = '''', Prefix = '''', Hash = '''', LastUsedAt = None,
     RevokedAt = None, kyCreatedAt = 0\<rparr>"

definition GetAPIKeyByPrefix :: "string \<Rightarrow> MemStore \<Rightarrow> store_error + APIKey" where
  "GetAPIKeyByPrefix pfx m =
     (case gget (keyPrefix m) pfx of
        None \<Rightarrow> Inl ErrNotFound
      | Some i \<Rightarrow> Inr (case gget (keys m) i of Some k \<Rightarrow> k | None \<Rightarrow> zeroKey))"

definition ListAPIKeys :: "string \<Rightarrow> MemStore \<Rightarrow> APIKey list" where
  "ListAPIKeys orgID m = filter (\<lambda>k. kyOrgID k = orgID) (map snd (keys m))"

definition TouchAPIKey :: "string \<Rightarrow> gotime \<Rightarrow> MemStore \<Rightarrow> (store_error + unit) \<times> MemStore" where
  "TouchAPIKey i at m =
     (case gget (keys m) i of
        None \<Rightarrow> (Inl ErrNotFound, m)
      | Some k \<Rightarrow> (Inr (), m\<lparr>keys := gset i (k\<lparr>LastUsedAt := Some at\<rparr>) (keys m)\<rparr>))"

definition RevokeAPIKey :: "string \<Rightarrow> string \<Rightarrow> gotime \<Rightarrow> MemStore \<Rightarrow> (store_error + unit) \<times> MemStore" where
  "RevokeAPIKey i orgID at m =
     (case gget (keys m) i of
        None \<Rightarrow> (Inl ErrNotFound, m)
      | Some k \<Rightarrow>
          if kyOrgID k \<noteq> orgID then (Inl ErrNotFound, m)
          else (Inr (), m\<lparr>keys := gset i (k\<lparr>RevokedAt := Some at\<rparr>) (keys m)\<rparr>))"

section \<open>Subdomains and custom domains\<close>

definition ReserveSubdomain :: "gotime \<Rightarrow> string \<Rightarrow> ReservedSubdomain \<Rightarrow> MemStore \<Rightarrow> (store_error + ReservedSubdomain) \<times> MemStore" where
  "ReserveSubdomain now nid s m =
     (let name = to_lower (Subdomain s) in
      if gget (subByName m) name \<noteq> None then (Inl ErrConflict, m)
      else
        let s' = s\<lparr>rsuID := or_id nid (rsuID s), rsuCreatedAt := or_time now (rsuCreatedAt s), Subdomain := name\<rparr>
        in (Inr s', m\<lparr>subs := gset (rsuID s') s' (subs m), subByName := gset name (rsuID s') (subByName m)\<rparr>))"

definition ListSubdomains :: "string \<Rightarrow> MemStore \<Rightarrow> ReservedSubdomain list" where
  "ListSubdomains orgID m = filter (\<lambda>s. rsuOrgID s = orgID) (map snd (subs m))"

definition ReleaseSubdomain :: "string \<Rightarrow> string \<Rightarrow> MemStore \<Rightarrow> (store_error + unit) \<times> MemStore" where
  "ReleaseSubdomain i orgID m =
     (case gget (subs m) i of
        None \<Rightarrow> (Inl ErrNotFound, m)
      | Some s \<Rightarrow>
          if rsuOrgID s \<noteq> orgID then (Inl ErrNotFound, m)
          else (Inr (), m\<lparr>subs := gdel i (subs m), subByName := gdel (Subdomain s) (subByName m)\<rparr>))"

definition IsSubdomainReserved :: "string \<Rightarrow> string \<Rightarrow> MemStore \<Rightarrow> bool" where
  "IsSubdomainReserved orgID sub m =
     (case gget (subByName m) (to_lower sub) of
        None \<Rightarrow> False
      | Some i \<Rightarrow> (case gget (subs m) i of Some s \<Rightarrow> rsuOrgID s | None \<Rightarrow> '''') = orgID)"

definition CountSubdomains :: "string \<Rightarrow> MemStore \<Rightarrow> nat" where
  "CountSubdomains orgID m = length (filter (\<lambda>s. rsuOrgID s = orgID) (map snd (subs m)))"

definition AddCustomDomain :: "gotime \<Rightarrow> string \<Rightarrow> CustomDomain \<Rightarrow> MemStore \<Rightarrow> (store_error + CustomDomain) \<times> MemStore" where
  "AddCustomDomain now nid d m =
     (let name = to_lower (Domain d) in
      if gget (domByName m) name \<noteq> None then (Inl ErrConflict, m)
      else
        let d' = d\<lparr>cdID := or_id nid (cdID d), cdCreatedAt := or_time now (cdCreatedAt d),
                   CertStatus := or_id ''pending'' (CertStatus d), Domain := name\<rparr>
        in (Inr d', m\<lparr>domains := gset (cdID d') d' (domains m), domByName := gset name (cdID d') (domByName m)\<rparr>))"

definition GetCustomDomain :: "string \<Rightarrow> string \<Rightarrow> MemStore \<Rightarrow> store_error + CustomDomain" where
  "GetCustomDomain i orgID m =
     (case gget (domains m) i of
        None \<Rightarrow> Inl ErrNotFound
      | Some d \<Rightarrow> if cdOrgID d \<noteq> orgID then Inl ErrNotFound else Inr d)"

definition zeroDomain :: CustomDomain where
  "zeroDomain = \<lparr>cdID = '''', cdOrgID = '''', Domain = '''', VerifyToken = '''', VerifiedAt = None,
     CertStatus = '''', cdCreatedAt = 0\<rparr>"

definition GetCustomDomainByName :: "string \<Rightarrow> MemStore \<Rightarrow> store_error + CustomDomain" where
  "GetCustomDomainByName domain m =
     (case gget (domByName m) (to_lower domain) of
        None \<Rightarrow> Inl ErrNotFound
      | Some i \<Rightarrow> Inr (case gget (domains m) i of Some d \<Rightarrow> d | None \<Rightarrow> zeroDomain))"

definition ListCustomDomains :: "string \<Rightarrow> MemStore \<Rightarrow> CustomDomain list" where
  "ListCustomDomains orgID m = filter (\<lambda>d. cdOrgID d = orgID) (map snd (domains m))"

definition VerifyCustomDomain :: "string \<Rightarrow> string \<Rightarrow> gotime \<Rightarrow> MemStore \<Rightarrow> (store_error + unit) \<times> MemStore" where
  "VerifyCustomDomain i orgID at m =
     (case gget (domains m) i of
        None \<Rightarrow> (Inl ErrNotFound, m)
      | Some d \<Rightarrow>
          if cdOrgID d \<noteq> orgID then (Inl ErrNotFound, m)
          else (Inr (), m\<lparr>domains := gset i (d\<lparr>VerifiedAt := Some at, CertStatus := ''verified''\<rparr>) (domains m)\<rparr>))"

definition CountCustomDomains :: "string \<Rightarrow> MemStore \<Rightarrow> nat" where
  "CountCustomDomains orgID m = length (filter (\<lambda>d. cdOrgID d = orgID) (map snd (domains m)))"

section \<open>Usage and tunnel history\<close>

definition UpsertUsage :: "UsageRecord \<Rightarrow> MemStore \<Rightarrow> MemStore" where
  "UpsertUsage u m = m\<lparr>stUsage := stUsage m @ [u]\<rparr>"

definition UsageForOrg :: "gotime \<Rightarrow> string \<Rightarrow> gotime \<Rightarrow> MemStore \<Rightarrow> UsageRecord" where
  "UsageForOrg now orgID since m =
     foldl (\<lambda>agg u. if urOrgID u = orgID \<and> \<not> urWindowEnd u < since
                    then agg\<lparr>urBytesIn := urBytesIn agg + urBytesIn u, urBytesOut := urBytesOut agg + urBytesOut u,
                             urRequests := urRequests agg + urRequests u\<rparr>
                    else agg)
       \<lparr>urOrgID = orgID, urTunnelID = '''', urBytesIn = 0, urBytesOut = 0, urRequests = 0,
        urWindowStart = since, urWindowEnd = now\<rparr> (stUsage m)"

text \<open>\<^verbatim>\<open>truncateTo\<close>: the zero \<^verbatim>\<open>Time\<close> is a midnight in UTC.\<close>

definition truncateTo :: "gotime \<Rightarrow> string \<Rightarrow> gotime" where
  "truncateTo t bucket =
     (if bucket = ''hour'' then t - t mod (60 * minute) else t - t mod (24 * 60 * minute))"

definition UsageSeriesForOrg :: "string \<Rightarrow> gotime \<Rightarrow> string \<Rightarrow> MemStore \<Rightarrow> UsageBucket list" where
  "UsageSeriesForOrg orgID since bucket m =
     sort_key ubStart (map snd
       (foldl (\<lambda>bs u.
          if urOrgID u \<noteq> orgID \<or> urWindowEnd u < since then bs
          else
            let key = truncateTo (urWindowEnd u) bucket;
                b = (case gget bs key of
                       Some b \<Rightarrow> b
                     | None \<Rightarrow> \<lparr>ubStart = key, ubBytesIn = 0, ubBytesOut = 0, ubRequests = 0\<rparr>)
            in gset key (b\<lparr>ubBytesIn := ubBytesIn b + urBytesIn u, ubBytesOut := ubBytesOut b + urBytesOut u,
                          ubRequests := ubRequests b + urRequests u\<rparr>) bs) [] (stUsage m)))"

definition tunnelKeyMatch :: "TunnelSession \<Rightarrow> string \<Rightarrow> string \<Rightarrow> string \<Rightarrow> bool" where
  "tunnelKeyMatch s edgeID sessID tunID \<longleftrightarrow> tsEdgeID s = edgeID \<and> tsSessionID s = sessID \<and> tsTunnelID s = tunID"

text \<open>The index of the first row that satisfies \<open>P\<close>, as found by a loop from the front.\<close>

fun find_index :: "('a \<Rightarrow> bool) \<Rightarrow> 'a list \<Rightarrow> nat option" where
  "find_index P [] = None"
| "find_index P (x # xs) = (if P x then Some 0 else map_option Suc (find_index P xs))"

definition find_last_index :: "('a \<Rightarrow> bool) \<Rightarrow> 'a list \<Rightarrow> nat option" where
  "find_last_index P xs = map_option (\<lambda>i. length xs - 1 - i) (find_index P (rev xs))"

definition RecordTunnelOpen :: "gotime \<Rightarrow> string \<Rightarrow> TunnelSession \<Rightarrow> MemStore \<Rightarrow> TunnelSession \<times> MemStore" where
  "RecordTunnelOpen now nid s m =
     (let s1 = s\<lparr>StartedAt := or_time now (StartedAt s), Status := ''active'', EndedAt := None\<rparr> in
      case find_index (\<lambda>r. tunnelKeyMatch r (tsEdgeID s) (tsSessionID s) (tsTunnelID s) \<and> Status r = ''active'') (tunnelHist m) of
        Some i \<Rightarrow>
          let s2 = s1\<lparr>tsID := tsID (tunnelHist m ! i)\<rparr> in (s2, m\<lparr>tunnelHist := (tunnelHist m)[i := s2]\<rparr>)
      | None \<Rightarrow>
          let s2 = s1\<lparr>tsID := or_id nid (tsID s1)\<rparr> in (s2, m\<lparr>tunnelHist := tunnelHist m @ [s2]\<rparr>))"

definition CloseTunnelSession ::
  "string \<Rightarrow> string \<Rightarrow> string \<Rightarrow> gotime \<Rightarrow> int \<Rightarrow> int \<Rightarrow> int \<Rightarrow> MemStore \<Rightarrow> (store_error + unit) \<times> MemStore" where
  "CloseTunnelSession edgeID sessID tunID ended bi bo rq m =
     (case find_last_index (\<lambda>r. tunnelKeyMatch r edgeID sessID tunID \<and> Status r = ''active'') (tunnelHist m) of
        None \<Rightarrow> (Inl ErrNotFound, m)
      | Some i \<Rightarrow>
          (Inr (), m\<lparr>tunnelHist := (tunnelHist m)[i := (tunnelHist m ! i)\<lparr>EndedAt := Some ended, Status := ''closed'',
             tsBytesIn := bi, tsBytesOut := bo, tsRequests := rq\<rparr>]\<rparr>))"

definition matches_filter :: "string \<Rightarrow> bool \<Rightarrow> TunnelSession \<Rightarrow> bool" where
  "matches_filter orgID activeOnly s \<longleftrightarrow>
     \<not> (orgID \<noteq> '''' \<and> tsOrgID s \<noteq> orgID) \<and> \<not> (activeOnly \<and> Status s \<noteq> ''active'')"

definition ListTunnelSessions :: "TunnelSessionFilter \<Rightarrow> MemStore \<Rightarrow> TunnelSession list" where
  "ListTunnelSessions f m =
     (let limit = (if Limit f \<le> 0 then 100 else Limit f) in
      take (nat limit) (drop (nat (Offset f)) (filter (matches_filter (fOrgID f) (ActiveOnly f)) (rev (tunnelHist m)))))"

definition CountTunnelSessions :: "string \<Rightarrow> bool \<Rightarrow> MemStore \<Rightarrow> nat" where
  "CountTunnelSessions orgID activeOnly m = length (filter (matches_filter orgID activeOnly) (tunnelHist m))"

text \<open>\<^verbatim>\<open>out[cc]++\<close> on a map of counters.\<close>

definition incr :: "string \<Rightarrow> (string, nat) gomap \<Rightarrow> (string, nat) gomap" where
  "incr k m = gset k (case gget m k of Some n \<Rightarrow> n + 1 | None \<Rightarrow> 1) m"

definition TunnelCountryBreakdown :: "string \<Rightarrow> bool \<Rightarrow> MemStore \<Rightarrow> (string, nat) gomap" where
  "TunnelCountryBreakdown orgID activeOnly m =
     foldl (\<lambda>out s. incr (if Country s = '''' then ''??'' else Country s) out) []
       (filter (matches_filter orgID activeOnly) (tunnelHist m))"

section \<open>Administration\<close>

definition AdminOverview :: "gotime \<Rightarrow> MemStore \<Rightarrow> AdminStats" where
  "AdminOverview now m =
     (let d7 = now - 7 * 24 * 60 * minute; d30 = now - 30 * 24 * 60 * minute;
          recent = filter (\<lambda>u. \<not> urWindowEnd u < d30) (stUsage m)
      in \<lparr>stUsers = length (users m),
          NewUsers7d = length (filter (\<lambda>(i, u). usCreatedAt u > d7) (users m)),
          NewUsers30d = length (filter (\<lambda>(i, u). usCreatedAt u > d30) (users m)),
          stOrgs = length (orgs m),
          stOrgsByPlan = foldl (\<lambda>out (i, og). incr (if orPlan og = '''' then ''free'' else orPlan og) out) [] (orgs m),
          APIKeys = length (keys m), ReservedSubdomains = length (subs m), CustomDomains = length (domains m),
          ActiveTunnels = length (filter (\<lambda>t. Status t = ''active'') (tunnelHist m)),
          TotalTunnels = length (tunnelHist m),
          BytesIn30d = sum_list (map urBytesIn recent), BytesOut30d = sum_list (map urBytesOut recent),
          Requests30d = sum_list (map urRequests recent)\<rparr>)"

definition pageSlice :: "'a list \<Rightarrow> int \<Rightarrow> int \<Rightarrow> 'a list" where
  "pageSlice s limit off =
     (let l = (if limit \<le> 0 then 50 else limit); f = (if off < 0 then 0 else off) in
      if f \<ge> int (length s) then []
      else take (nat (min (f + l) (int (length s)) - f)) (drop (nat f) s))"

definition ListUsers :: "int \<Rightarrow> int \<Rightarrow> string \<Rightarrow> MemStore \<Rightarrow> User list" where
  "ListUsers limit off search m =
     (let q = to_lower (trim_space search);
          all = filter (\<lambda>u. \<not> (q \<noteq> '''' \<and> \<not> str_contains (to_lower (Email u)) q \<and> \<not> str_contains (to_lower (usName u)) q))
                  (map snd (users m))
      in pageSlice (sort_key (\<lambda>u. - usCreatedAt u) all) limit off)"

definition ListOrgs :: "int \<Rightarrow> int \<Rightarrow> string \<Rightarrow> MemStore \<Rightarrow> Org list" where
  "ListOrgs limit off plan m =
     (let p = to_lower (trim_space plan);
          all = filter (\<lambda>og. \<not> (p \<noteq> '''' \<and> orPlan og \<noteq> p)) (map snd (orgs m))
      in pageSlice (sort_key (\<lambda>og. - orCreatedAt og) all) limit off)"

section \<open>Billing\<close>

definition UpsertSubscription :: "gotime \<Rightarrow> string \<Rightarrow> Subscription \<Rightarrow> MemStore \<Rightarrow> Subscription \<times> MemStore" where
  "UpsertSubscription now nid s m =
     (let s1 = (if sbID s = '''' then
                  (case gget (subsByOrg m) (sbOrgID s) of
                     Some old \<Rightarrow> s\<lparr>sbID := sbID old, sbCreatedAt := (if sbCreatedAt s = 0 then sbCreatedAt old else sbCreatedAt s)\<rparr>
                   | None \<Rightarrow> s\<lparr>sbID := nid\<rparr>)
                else s);
          s2 = s1\<lparr>sbCreatedAt := or_time now (sbCreatedAt s1), sbUpdatedAt := now\<rparr>;
          m1 = m\<lparr>subsByOrg := gset (sbOrgID s2) s2 (subsByOrg m)\<rparr>
      in (s2, if StripeSubID s2 \<noteq> '''' then m1\<lparr>subsByStripe := gset (StripeSubID s2) (sbOrgID s2) (subsByStripe m1)\<rparr> else m1))"

definition GetSubscriptionForOrg :: "string \<Rightarrow> MemStore \<Rightarrow> store_error + Subscription" where
  "GetSubscriptionForOrg orgID m = the_row (subsByOrg m) orgID"

definition DeleteSubscription :: "string \<Rightarrow> MemStore \<Rightarrow> (store_error + unit) \<times> MemStore" where
  "DeleteSubscription stripeSubID m =
     (case gget (subsByStripe m) stripeSubID of
        None \<Rightarrow> (Inl ErrNotFound, m)
      | Some orgID \<Rightarrow>
          (Inr (), m\<lparr>subsByStripe := gdel stripeSubID (subsByStripe m), subsByOrg := gdel orgID (subsByOrg m)\<rparr>))"

definition GetOrgByStripeCustomer :: "string \<Rightarrow> MemStore \<Rightarrow> store_error + Org" where
  "GetOrgByStripeCustomer customerID m =
     (if customerID = '''' then Inl ErrNotFound
      else (case find (\<lambda>og. StripeCustomerID og = customerID) (map snd (orgs m)) of
              Some og \<Rightarrow> Inr og
            | None \<Rightarrow> Inl ErrNotFound))"

definition MarkEventProcessed :: "string \<Rightarrow> MemStore \<Rightarrow> bool \<times> MemStore" where
  "MarkEventProcessed eventID m =
     (if eventID = '''' then (True, m)
      else if gget (events m) eventID = Some True then (False, m)
      else (True, m\<lparr>events := gset eventID True (events m)\<rparr>))"

definition InsertMeteredUsage :: "gotime \<Rightarrow> MeteredUsage \<Rightarrow> MemStore \<Rightarrow> (store_error + MeteredUsage) \<times> MemStore" where
  "InsertMeteredUsage now u m =
     (if \<exists>e \<in> set (metered m). muOrgID e = muOrgID u \<and> Metric e = Metric u \<and> muWindowStart e = muWindowStart u
      then (Inl ErrConflict, m)
      else
        let sq = meteredSeq m + 1; u' = u\<lparr>muID := sq, muCreatedAt := or_time now (muCreatedAt u)\<rparr>
        in (Inr u', m\<lparr>meteredSeq := sq, metered := metered m @ [u']\<rparr>))"

definition PendingMeteredUsage :: "int \<Rightarrow> MemStore \<Rightarrow> MeteredUsage list" where
  "PendingMeteredUsage limit m =
     (let p = filter (\<lambda>e. ReportedAt e = None) (metered m) in if limit > 0 then take (nat limit) p else p)"

definition MarkMeteredUsageReported :: "int list \<Rightarrow> gotime \<Rightarrow> MemStore \<Rightarrow> MemStore" where
  "MarkMeteredUsageReported ids at m =
     m\<lparr>metered := map (\<lambda>e. if muID e \<in> set ids then e\<lparr>ReportedAt := Some at\<rparr> else e) (metered m)\<rparr>"

end
