(* ===== verification/StoreInv.thy ===== *)
theory StoreInv
  imports Store
begin

text \<open>
  The invariant of the store: each secondary index (email, key prefix, subdomain, domain name)
  agrees with its table, so that names are unique and a lookup by name finds the row. The locale
  \<open>unique_index\<close> states what an insertion promises and proves the consequences once; it is
  interpreted for the four tables.
\<close>

section \<open>A table with a unique index\<close>

definition index_ok :: "('r \<Rightarrow> string) \<Rightarrow> ('r \<Rightarrow> string) \<Rightarrow> (string, 'r) gomap \<Rightarrow> (string, string) gomap \<Rightarrow> bool" where
  "index_ok key rid rows idx \<longleftrightarrow>
     (\<forall>i r. gget rows i = Some r \<longrightarrow> rid r = i \<and> gget idx (key r) = Some i) \<and>
     (\<forall>k i. gget idx k = Some i \<longrightarrow> (\<exists>r. gget rows i = Some r \<and> key r = k))"

lemma index_ok_Nil [simp]: "index_ok key rid [] []"
  by (simp add: index_ok_def)

lemma index_ok_insert:
  assumes "index_ok key rid rows idx" "gget idx (key r) = None" "gget rows (rid r) = None"
  shows "index_ok key rid (gset (rid r) r rows) (gset (key r) (rid r) idx)"
  using assms unfolding index_ok_def by (auto split: if_splits) (metis option.distinct(1))+

lemma index_ok_update:
  assumes "index_ok key rid rows idx" "gget rows i = Some r" "key r' = key r" "rid r' = rid r"
  shows "index_ok key rid (gset i r' rows) idx"
  using assms unfolding index_ok_def by (auto split: if_splits) (metis option.inject)+

lemma index_ok_delete:
  assumes "index_ok key rid rows idx" "gget rows i = Some r"
  shows "index_ok key rid (gdel i rows) (gdel (key r) idx)"
  using assms unfolding index_ok_def by (auto split: if_splits) (metis option.inject)+

lemma index_ok_lookup:
  assumes "index_ok key rid rows idx"
  shows "(\<exists>i. gget idx k = Some i \<and> gget rows i = Some r) \<longleftrightarrow> gget rows (rid r) = Some r \<and> key r = k"
  using assms unfolding index_ok_def by (metis option.inject)

locale unique_index =
  fixes rows :: "'m \<Rightarrow> (string, 'r) gomap"
    and idx :: "'m \<Rightarrow> (string, string) gomap"
    and key :: "'r \<Rightarrow> string"
    and rid :: "'r \<Rightarrow> string"
    and create :: "gotime \<Rightarrow> string \<Rightarrow> 'r \<Rightarrow> 'm \<Rightarrow> (store_error + 'r) \<times> 'm"
  assumes create_Inr: "create now nid r m = (Inr r', m') \<Longrightarrow>
      gget (idx m) (key r') = None \<and> key r' = key r \<and> rid r' = or_id nid (rid r) \<and>
      rows m' = gset (rid r') r' (rows m) \<and> idx m' = gset (key r') (rid r') (idx m)"
    and create_Inl: "create now nid r m = (Inl e, m') \<Longrightarrow> e = ErrConflict \<and> m' = m \<and> gget (idx m) (key r) \<noteq> None"
begin

definition ok :: "'m \<Rightarrow> bool" where
  "ok m \<longleftrightarrow> index_ok key rid (rows m) (idx m)"

lemma ok_create:
  assumes "ok m" "gget (rows m) (or_id nid (rid r)) = None"
  shows "ok (snd (create now nid r m))"
proof (cases "create now nid r m")
  case (Pair x m')
  show ?thesis
  proof (cases x)
    case (Inl e)
    with Pair assms show ?thesis using create_Inl by fastforce
  next
    case (Inr r')
    with Pair have c: "create now nid r m = (Inr r', m')" by simp
    show ?thesis
      using create_Inr [OF c] assms index_ok_insert [of key rid "rows m" "idx m" r'] by (auto simp: ok_def c)
  qed
qed

text \<open>The first to create a name keeps it: a second row under the same name is refused.\<close>

lemma create_conflict:
  assumes "create now nid r m = (Inr r', m')" "key q = key r"
  shows "create now2 nid2 q m' = (Inl ErrConflict, m')"
proof (cases "create now2 nid2 q m'")
  case (Pair x m2)
  have "gget (idx m') (key q) \<noteq> None" using create_Inr [OF assms(1)] assms(2) by auto
  with Pair create_Inr [of now2 nid2 q m'] create_Inl [of now2 nid2 q m'] show ?thesis
    by (cases x) auto
qed

lemma name_unique:
  assumes "ok m" "gget (rows m) i = Some r" "gget (rows m) j = Some s" "key r = key s"
  shows "i = j \<and> r = s"
  using assms unfolding ok_def index_ok_def by (metis option.inject)

end

interpretation userix: unique_index users usersEmail "\<lambda>u. to_lower (Email u)" usID CreateUser
  by unfold_locales (auto simp: CreateUser_def Let_def split: if_splits)

interpretation keyix: unique_index keys keyPrefix Prefix kyID CreateAPIKey
  by unfold_locales (auto simp: CreateAPIKey_def Let_def split: if_splits)

interpretation subix: unique_index subs subByName "\<lambda>s. to_lower (Subdomain s)" rsuID ReserveSubdomain
  by unfold_locales (auto simp: ReserveSubdomain_def Let_def split: if_splits)

interpretation domix: unique_index domains domByName "\<lambda>d. to_lower (Domain d)" cdID AddCustomDomain
  by unfold_locales (auto simp: AddCustomDomain_def Let_def split: if_splits)

section \<open>The store as a state machine\<close>

text \<open>Subdomains are stored in lower case, which \<^verbatim>\<open>ReleaseSubdomain\<close> relies on.\<close>

definition store_ok :: "MemStore \<Rightarrow> bool" where
  "store_ok m \<longleftrightarrow> userix.ok m \<and> keyix.ok m \<and> subix.ok m \<and> domix.ok m \<and>
     (\<forall>i s. gget (subs m) i = Some s \<longrightarrow> to_lower (Subdomain s) = Subdomain s) \<and>
     (\<forall>i og. gget (orgs m) i = Some og \<longrightarrow> orID og = i)"

text \<open>Every operation that changes the store. A fresh id is not the id of a row (eight random bytes).\<close>

inductive store_step :: "MemStore \<Rightarrow> MemStore \<Rightarrow> bool" where
  "gget (users m) (or_id nid (usID u)) = None \<Longrightarrow> store_step m (snd (CreateUser now nid u m))"
| "store_step m (snd (UpdateUserProfile i name avatar m))"
| "gget (orgs m) (or_id nid (orID og)) = None \<Longrightarrow> store_step m (snd (CreateOrg now nid og m))"
| "store_step m (snd (UpdateOrgPlan i plan m))"
| "store_step m (snd (SetOrgPlan i plan ex m))"
| "store_step m (snd (SetOrgStripeCustomer i c m))"
| "store_step m (snd (AddOrgMember mem m))"
| "gget (keys m) (or_id nid (kyID k)) = None \<Longrightarrow> store_step m (snd (CreateAPIKey now nid k m))"
| "store_step m (snd (TouchAPIKey i at m))"
| "store_step m (snd (RevokeAPIKey i orgID at m))"
| "gget (subs m) (or_id nid (rsuID s)) = None \<Longrightarrow> store_step m (snd (ReserveSubdomain now nid s m))"
| "store_step m (snd (ReleaseSubdomain i orgID m))"
| "gget (domains m) (or_id nid (cdID d)) = None \<Longrightarrow> store_step m (snd (AddCustomDomain now nid d m))"
| "store_step m (snd (VerifyCustomDomain i orgID at m))"
| "store_step m (UpsertUsage u m)"
| "store_step m (snd (RecordTunnelOpen now nid ts m))"
| "store_step m (snd (CloseTunnelSession e se t at bi bo rq m))"
| "store_step m (snd (UpsertSubscription now nid sb m))"
| "store_step m (snd (DeleteSubscription i m))"
| "store_step m (snd (MarkEventProcessed i m))"
| "store_step m (snd (InsertMeteredUsage now mu m))"
| "store_step m (MarkMeteredUsageReported ids at m)"

inductive store_reach :: "MemStore \<Rightarrow> bool" where
  start: "store_reach NewMemStore"
| step: "store_reach m \<Longrightarrow> store_step m m' \<Longrightarrow> store_reach m'"

lemma store_ok_new: "store_ok NewMemStore"
  by (simp add: store_ok_def NewMemStore_def userix.ok_def keyix.ok_def subix.ok_def domix.ok_def)

text \<open>Operations on other tables.\<close>

lemma store_ok_cong:
  assumes "store_ok m" "users m' = users m" "usersEmail m' = usersEmail m" "keys m' = keys m" "keyPrefix m' = keyPrefix m"
    "subs m' = subs m" "subByName m' = subByName m" "domains m' = domains m" "domByName m' = domByName m"
    "\<And>i og. gget (orgs m') i = Some og \<Longrightarrow> orID og = i"
  shows "store_ok m'"
  using assms by (simp add: store_ok_def userix.ok_def keyix.ok_def subix.ok_def domix.ok_def)

lemma store_ok_step:
  assumes "store_step m m'" "store_ok m"
  shows "store_ok m'"
  using assms
proof (induction rule: store_step.induct)
  case (1 m nid u now)
  then show ?case using userix.ok_create [of m nid u now]
    by (auto simp: store_ok_def keyix.ok_def subix.ok_def domix.ok_def CreateUser_def Let_def)
next
  case (2 m i name avatar)
  then show ?case
    by (auto simp: store_ok_def userix.ok_def keyix.ok_def subix.ok_def domix.ok_def UpdateUserProfile_def Let_def
        split: option.splits intro: index_ok_update)
next
  case (8 m nid k now)
  then show ?case using keyix.ok_create [of m nid k now]
    by (auto simp: store_ok_def userix.ok_def subix.ok_def domix.ok_def CreateAPIKey_def Let_def)
next
  case (9 m i at)
  then show ?case
    by (auto simp: store_ok_def userix.ok_def keyix.ok_def subix.ok_def domix.ok_def TouchAPIKey_def
        split: option.splits intro: index_ok_update)
next
  case (10 m i orgID at)
  then show ?case
    by (auto simp: store_ok_def userix.ok_def keyix.ok_def subix.ok_def domix.ok_def RevokeAPIKey_def
        split: option.splits intro: index_ok_update)
next
  case (11 m nid s now)
  then show ?case using subix.ok_create [of m nid s now]
    by (auto simp: store_ok_def userix.ok_def keyix.ok_def domix.ok_def ReserveSubdomain_def Let_def)
next
  case (12 m i orgID)
  then show ?case
    using index_ok_delete [of "\<lambda>s. to_lower (Subdomain s)" rsuID "subs m" "subByName m" i]
    by (auto simp: store_ok_def userix.ok_def keyix.ok_def subix.ok_def domix.ok_def ReleaseSubdomain_def
        split: option.splits if_splits)
next
  case (13 m nid d now)
  then show ?case using domix.ok_create [of m nid d now]
    by (auto simp: store_ok_def userix.ok_def keyix.ok_def subix.ok_def AddCustomDomain_def Let_def)
next
  case (14 m i orgID at)
  then show ?case
    by (auto simp: store_ok_def userix.ok_def keyix.ok_def subix.ok_def domix.ok_def VerifyCustomDomain_def
        split: option.splits intro: index_ok_update)
qed (auto simp: store_ok_def CreateOrg_def UpdateOrgPlan_def SetOrgPlan_def SetOrgStripeCustomer_def upd_org_def
      AddOrgMember_def UpsertUsage_def RecordTunnelOpen_def CloseTunnelSession_def UpsertSubscription_def
      DeleteSubscription_def MarkEventProcessed_def InsertMeteredUsage_def MarkMeteredUsageReported_def Let_def
      userix.ok_def keyix.ok_def subix.ok_def domix.ok_def split: option.splits if_splits)

lemma store_ok_reach: "store_reach m \<Longrightarrow> store_ok m"
  by (induction rule: store_reach.induct) (auto intro: store_ok_new store_ok_step)

section \<open>Tunnel history\<close>

lemma find_index_Some: "find_index P xs = Some i \<Longrightarrow> i < length xs \<and> P (xs ! i)"
  by (induction xs arbitrary: i) (auto split: if_splits)

lemma find_index_None: "find_index P xs = None \<longleftrightarrow> (\<forall>x \<in> set xs. \<not> P x)"
  by (induction xs) auto

lemma find_last_index_Some: "find_last_index P xs = Some i \<Longrightarrow> i < length xs \<and> P (xs ! i)"
  using find_index_Some [of P "rev xs"] by (auto simp: find_last_index_def rev_nth)

lemma find_last_index_None: "find_last_index P xs = None \<longleftrightarrow> (\<forall>x \<in> set xs. \<not> P x)"
  by (simp add: find_last_index_def find_index_None)

definition active_rows :: "string \<Rightarrow> string \<Rightarrow> string \<Rightarrow> MemStore \<Rightarrow> nat" where
  "active_rows e s t m = length (filter (\<lambda>r. tunnelKeyMatch r e s t \<and> Status r = ''active'') (tunnelHist m))"

lemma length_filter_update:
  assumes "i < length xs"
  shows "length (filter P (xs[i := y])) + (if P (xs ! i) then 1 else 0) = length (filter P xs) + (if P y then 1 else 0)"
proof -
  have "xs = take i xs @ xs ! i # drop (Suc i) xs" "xs[i := y] = take i xs @ y # drop (Suc i) xs"
    using assms by (simp_all add: id_take_nth_drop upd_conv_take_nth_drop)
  then have "length (filter P xs) = length (filter P (take i xs @ xs ! i # drop (Suc i) xs))"
    "length (filter P (xs[i := y])) = length (filter P (take i xs @ y # drop (Suc i) xs))" by metis+
  then show ?thesis by auto
qed

lemma active_rows_open:
  "active_rows e s t (snd (RecordTunnelOpen now nid r m)) =
     (if tunnelKeyMatch r e s t \<and> active_rows e s t m = 0 then 1 else active_rows e s t m)"
proof (cases "find_index (\<lambda>q. tunnelKeyMatch q (tsEdgeID r) (tsSessionID r) (tsTunnelID r) \<and> Status q = ''active'') (tunnelHist m)")
  case None
  then have "tunnelKeyMatch r e s t \<Longrightarrow> active_rows e s t m = 0"
    by (auto simp: find_index_None active_rows_def tunnelKeyMatch_def filter_empty_conv)
  with None show ?thesis
    by (auto simp: RecordTunnelOpen_def Let_def active_rows_def tunnelKeyMatch_def)
next
  case (Some i)
  note f = find_index_Some [OF Some]
  define P where "P = (\<lambda>q. tunnelKeyMatch q e s t \<and> Status q = ''active'')"
  have new: "P (r\<lparr>StartedAt := a, Status := ''active'', EndedAt := None, tsID := b\<rparr>) = tunnelKeyMatch r e s t"
    "P (tunnelHist m ! i) = tunnelKeyMatch r e s t" for a b
    using f by (auto simp: P_def tunnelKeyMatch_def)
  have "P (tunnelHist m ! i) \<Longrightarrow> length (filter P (tunnelHist m)) \<noteq> 0"
    using f by (auto simp: filter_empty_conv)
  moreover define y where "y = r\<lparr>StartedAt := or_time now (StartedAt r), Status := ''active'', EndedAt := None,
      tsID := tsID (tunnelHist m ! i)\<rparr>"
  moreover have "active_rows e s t (snd (RecordTunnelOpen now nid r m)) = length (filter P ((tunnelHist m)[i := y]))"
    using Some by (simp add: RecordTunnelOpen_def Let_def active_rows_def P_def y_def)
  moreover have "active_rows e s t m = length (filter P (tunnelHist m))" by (simp add: active_rows_def P_def)
  ultimately show ?thesis
    using new f length_filter_update [of i "tunnelHist m" P y] by (auto split: if_splits)
qed

lemma active_rows_close:
  "active_rows e s t (snd (CloseTunnelSession e' s' t' at bi bo rq m)) =
     (if (e', s', t') = (e, s, t) then active_rows e s t m - 1 else active_rows e s t m)"
proof (cases "find_last_index (\<lambda>r. tunnelKeyMatch r e' s' t' \<and> Status r = ''active'') (tunnelHist m)")
  case None
  then have "(e', s', t') = (e, s, t) \<Longrightarrow> active_rows e s t m = 0"
    by (auto simp: find_last_index_None active_rows_def filter_empty_conv)
  with None show ?thesis by (auto simp: CloseTunnelSession_def)
next
  case (Some i)
  note f = find_last_index_Some [OF Some]
  define P where "P = (\<lambda>q. tunnelKeyMatch q e s t \<and> Status q = ''active'')"
  have "\<not> P (q\<lparr>EndedAt := a, Status := ''closed'', tsBytesIn := bi, tsBytesOut := bo, tsRequests := rq\<rparr>)" for q a
    by (simp add: P_def)
  moreover have "P (tunnelHist m ! i) \<longleftrightarrow> (e', s', t') = (e, s, t)"
    using f by (auto simp: P_def tunnelKeyMatch_def)
  moreover define y where "y = (tunnelHist m ! i)\<lparr>EndedAt := Some at, Status := ''closed'', tsBytesIn := bi,
      tsBytesOut := bo, tsRequests := rq\<rparr>"
  moreover have "active_rows e s t (snd (CloseTunnelSession e' s' t' at bi bo rq m)) = length (filter P ((tunnelHist m)[i := y]))"
    using Some by (simp add: CloseTunnelSession_def active_rows_def P_def y_def)
  moreover have "active_rows e s t m = length (filter P (tunnelHist m))" by (simp add: active_rows_def P_def)
  ultimately show ?thesis
    using f length_filter_update [of i "tunnelHist m" P y] by (auto split: if_splits)
qed

lemma active_rows_reach:
  assumes "store_reach m"
  shows "active_rows e s t m \<le> 1"
  using assms
proof (induction rule: store_reach.induct)
  case start
  show ?case by (simp add: active_rows_def NewMemStore_def)
next
  case (step m m')
  have other: "tunnelHist m' = tunnelHist m \<Longrightarrow> ?case" using step.IH by (simp add: active_rows_def)
  from step.hyps(2) show ?case
  proof cases
    case (16 now nid ts)
    then show ?thesis using step.IH by (simp add: active_rows_open)
  next
    case (17 e' se t' at bi bo rq)
    then show ?thesis using step.IH by (simp add: active_rows_close)
  qed (rule other; auto simp: CreateUser_def UpdateUserProfile_def CreateOrg_def UpdateOrgPlan_def SetOrgPlan_def
      SetOrgStripeCustomer_def upd_org_def AddOrgMember_def CreateAPIKey_def TouchAPIKey_def RevokeAPIKey_def
      ReserveSubdomain_def ReleaseSubdomain_def AddCustomDomain_def VerifyCustomDomain_def UpsertUsage_def
      UpsertSubscription_def DeleteSubscription_def MarkEventProcessed_def InsertMeteredUsage_def
      MarkMeteredUsageReported_def Let_def split: option.splits if_splits)+
qed

section \<open>Properties\<close>

text \<open>C25. Names are unique and lookups by name are exact. In every state the store can reach, an email
  address, a key prefix, a subdomain or a domain name belongs to at most one row, and the lookup
  by that name returns precisely the row that carries it.\<close>

theorem store_names_unique:
  assumes "store_reach m"
  shows "(GetUserByEmail email m = Inr u \<longleftrightarrow> gget (users m) (usID u) = Some u \<and> to_lower (Email u) = to_lower email)
       \<and> (GetAPIKeyByPrefix p m = Inr k \<longleftrightarrow> gget (keys m) (kyID k) = Some k \<and> Prefix k = p)
       \<and> (GetCustomDomainByName dn m = Inr d \<longleftrightarrow> gget (domains m) (cdID d) = Some d \<and> to_lower (Domain d) = to_lower dn)
       \<and> (IsSubdomainReserved org sub m \<longleftrightarrow>
            (\<exists>s. gget (subs m) (rsuID s) = Some s \<and> to_lower (Subdomain s) = to_lower sub \<and> rsuOrgID s = org))"
proof -
  have ok: "userix.ok m" "keyix.ok m" "subix.ok m" "domix.ok m"
    using store_ok_reach [OF assms] by (auto simp: store_ok_def)
  have dangling: "gget idx k = Some i \<Longrightarrow> \<exists>r. gget rows i = Some r" if "index_ok key rid rows idx" for key rid rows idx k i
    using that unfolding index_ok_def by blast
  have "GetUserByEmail email m = Inr u \<longleftrightarrow> (\<exists>i. gget (usersEmail m) (to_lower email) = Some i \<and> gget (users m) i = Some u)"
    using dangling [OF ok(1) [unfolded userix.ok_def]] by (fastforce simp: GetUserByEmail_def split: option.splits)
  moreover have "GetAPIKeyByPrefix p m = Inr k \<longleftrightarrow> (\<exists>i. gget (keyPrefix m) p = Some i \<and> gget (keys m) i = Some k)"
    using dangling [OF ok(2) [unfolded keyix.ok_def]] by (fastforce simp: GetAPIKeyByPrefix_def split: option.splits)
  moreover have "GetCustomDomainByName dn m = Inr d \<longleftrightarrow> (\<exists>i. gget (domByName m) (to_lower dn) = Some i \<and> gget (domains m) i = Some d)"
    using dangling [OF ok(4) [unfolded domix.ok_def]] by (fastforce simp: GetCustomDomainByName_def split: option.splits)
  moreover have "IsSubdomainReserved org sub m \<longleftrightarrow>
      (\<exists>s. (\<exists>i. gget (subByName m) (to_lower sub) = Some i \<and> gget (subs m) i = Some s) \<and> rsuOrgID s = org)"
    using dangling [OF ok(3) [unfolded subix.ok_def]] by (fastforce simp: IsSubdomainReserved_def split: option.splits)
  ultimately show ?thesis
    using index_ok_lookup [OF ok(1) [unfolded userix.ok_def]] index_ok_lookup [OF ok(2) [unfolded keyix.ok_def]]
      index_ok_lookup [OF ok(3) [unfolded subix.ok_def]] index_ok_lookup [OF ok(4) [unfolded domix.ok_def]] by auto
qed

text \<open>A store with one reserved subdomain.\<close>

definition ex_store :: MemStore where
  "ex_store = snd (ReserveSubdomain 5 ''sub_1'' \<lparr>rsuID = '''', rsuOrgID = ''org_1'', Subdomain = ''Demo'', rsuCreatedAt = 0\<rparr> NewMemStore)"

lemma ex_store_reach: "store_reach ex_store"
  unfolding ex_store_def by (rule store_reach.step [OF store_reach.start store_step.intros(11)]) (simp add: NewMemStore_def)

theorem store_names_unique_witness:
  "IsSubdomainReserved ''org_1'' ''DEMO'' ex_store \<and> \<not> IsSubdomainReserved ''org_2'' ''demo'' ex_store"
proof -
  have rows: "gget (subs ex_store) i = Some s \<longleftrightarrow> i = ''sub_1'' \<and>
      s = \<lparr>rsuID = ''sub_1'', rsuOrgID = ''org_1'', Subdomain = to_lower ''Demo'', rsuCreatedAt = 5\<rparr>" for i s
    by (auto simp: ex_store_def ReserveSubdomain_def NewMemStore_def or_id_def or_time_def Let_def)
  have low: "to_lower ''DEMO'' = to_lower ''Demo''" "to_lower ''demo'' = to_lower ''Demo''"
    by (simp_all add: to_lower_def lower_char_def char_of_def bit_0)
  show ?thesis
    using store_names_unique [OF ex_store_reach, THEN conjunct2, THEN conjunct2, THEN conjunct2, of "''org_1''" "''DEMO''"]
      store_names_unique [OF ex_store_reach, THEN conjunct2, THEN conjunct2, THEN conjunct2, of "''org_2''" "''demo''"]
    by (auto simp: rows low)
qed

text \<open>Tunnel history never shows a tunnel twice: in every state the store can reach, for each
  edge, session and tunnel at most one row is active. Opening makes exactly one active row, however
  often it is reported; closing makes it inactive; other tunnels are not affected.\<close>

theorem history_one_active_row:
  assumes "store_reach m"
  shows "active_rows e s t m \<le> 1
       \<and> active_rows e s t (snd (RecordTunnelOpen now nid r m)) = (if tunnelKeyMatch r e s t then 1 else active_rows e s t m)
       \<and> active_rows e s t (snd (CloseTunnelSession e' s' t' at bi bo rq m)) =
           (if (e', s', t') = (e, s, t) then 0 else active_rows e s t m)"
  using active_rows_reach [OF assms, of e s t] active_rows_open [of e s t now nid r m]
    active_rows_close [of e s t e' s' t' at bi bo rq m] by auto

theorem history_one_active_row_witness:
  "active_rows ''e'' ''s'' ''t'' (snd (CloseTunnelSession ''e'' ''s'' ''t'' 9 1 2 3 ex_store)) = 0"
  using history_one_active_row [OF ex_store_reach, of "''e''" "''s''" "''t''" _ _ _ "''e''" "''s''" "''t''" 9 1 2 3]
  by simp

end
