(* ===== verification/ApiKey.thy ===== *)
theory ApiKey
  imports StoreInv
begin

text \<open>
  API keys: minting, hashing and checking (\<^verbatim>\<open>internal/api/auth/apikey.go\<close>) and the lookup
  \<^verbatim>\<open>Auth.AuthenticateAPIKey\<close> (\<^verbatim>\<open>internal/api/auth/auth.go\<close>) over the store. \<^verbatim>\<open>argon2.IDKey\<close> is the
  parameter \<open>idkey\<close>; what the code relies on is \<open>argon_ok\<close>: it returns as many bytes as asked for.
  Random bytes are arguments, \<open>None\<close> when \<^verbatim>\<open>rand.Read\<close> fails.
\<close>

section \<open>Format\<close>

definition keyEnv :: string where
  "keyEnv = ''tq_live_''"

record GeneratedKey =
  gkFull :: string
  gkPrefix :: string
  gkHash :: string

definition KeyPrefix :: "string \<Rightarrow> string option" where
  "KeyPrefix raw =
     (if \<not> has_prefix raw keyEnv then None
      else
        let rest = drop (length keyEnv) raw in
        case index_byte CHR ''_'' rest of None \<Rightarrow> None | Some i \<Rightarrow> Some (keyEnv @ take i rest))"

section \<open>Hash encoding\<close>

type_synonym idkey = "string \<Rightarrow> nat list \<Rightarrow> nat \<Rightarrow> nat \<Rightarrow> nat \<Rightarrow> nat \<Rightarrow> nat list"

definition argon_ok :: "idkey \<Rightarrow> bool" where
  "argon_ok idkey \<longleftrightarrow>
     (\<forall>k salt t m p n. length (idkey k salt t m p n) = n \<and> (\<forall>b \<in> set (idkey k salt t m p n). b < 256))"

definition argonTime :: nat where "argonTime = 1"
definition argonMemory :: nat where "argonMemory = 64 * 1024"
definition argonThreads :: nat where "argonThreads = 4"
definition argonKeyLen :: nat where "argonKeyLen = 32"
definition argonVersion :: nat where "argonVersion = 0x13"

text \<open>\<^verbatim>\<open>base64.RawStdEncoding\<close>: no padding, in either direction.\<close>

definition b64_raw :: "nat list \<Rightarrow> string" where
  "b64_raw bs = takeWhile (\<lambda>c. c \<noteq> CHR ''='') (b64_encode bs)"

definition b64_raw_decode :: "string \<Rightarrow> nat list option" where
  "b64_raw_decode s =
     (let t = filter (\<lambda>c. of_char c \<noteq> (10 :: nat) \<and> of_char c \<noteq> (13 :: nat)) s in
      if CHR ''='' \<in> set t then None
      else if length t mod 4 = 0 then b64_groups t
      else if length t mod 4 = 2 then b64_groups (t @ ''=='')
      else if length t mod 4 = 3 then b64_groups (t @ ''='')
      else None)"

definition HashKey :: "idkey \<Rightarrow> nat list \<Rightarrow> string \<Rightarrow> string" where
  "HashKey idkey salt full =
     (let sum = idkey full salt argonTime argonMemory argonThreads argonKeyLen in
      ''$argon2id$v='' @ show_nat argonVersion @ ''$m='' @ show_nat argonMemory @ '',t='' @ show_nat argonTime
        @ '',p='' @ show_nat argonThreads @ ''$'' @ b64_raw salt @ ''$'' @ b64_raw sum)"

text \<open>\<^verbatim>\<open>fmt.Sscanf\<close> with the verbs of \<^verbatim>\<open>VerifyKey\<close>: a literal, and an unsigned number of some width.\<close>

definition scan_lit :: "string \<Rightarrow> string \<Rightarrow> string option" where
  "scan_lit p s = (if has_prefix s p then Some (drop (length p) s) else None)"

definition is_digit :: "char \<Rightarrow> bool" where
  "is_digit c \<longleftrightarrow> 48 \<le> (of_char c :: nat) \<and> (of_char c :: nat) \<le> 57"

definition scan_uint :: "nat \<Rightarrow> string \<Rightarrow> (nat \<times> string) option" where
  "scan_uint bits s =
     (let s1 = dropWhile (\<lambda>c. is_space c \<and> of_char c \<noteq> (10 :: nat)) s;
          ds = takeWhile is_digit s1
      in if ds = [] \<or> digits_val ds \<ge> 2 ^ bits then None else Some (digits_val ds, dropWhile is_digit s1))"

definition scan_params :: "string \<Rightarrow> (nat \<times> nat \<times> nat) option" where
  "scan_params s =
     (case scan_lit ''m='' s of None \<Rightarrow> None | Some s1 \<Rightarrow>
      (case scan_uint 32 s1 of None \<Rightarrow> None | Some (memory, s2) \<Rightarrow>
       (case scan_lit '',t='' s2 of None \<Rightarrow> None | Some s3 \<Rightarrow>
        (case scan_uint 32 s3 of None \<Rightarrow> None | Some (tCost, s4) \<Rightarrow>
         (case scan_lit '',p='' s4 of None \<Rightarrow> None | Some s5 \<Rightarrow>
          (case scan_uint 8 s5 of None \<Rightarrow> None | Some (threads, s6) \<Rightarrow> Some (memory, tCost, threads)))))))"

definition VerifyKey :: "idkey \<Rightarrow> string \<Rightarrow> string \<Rightarrow> bool" where
  "VerifyKey idkey full encoded =
     (case split_byte CHR ''$'' encoded of
        [p0, p1, p2, p3, p4, p5] \<Rightarrow>
          if p1 \<noteq> ''argon2id'' then False
          else (case scan_params p3 of
                  None \<Rightarrow> False
                | Some (memory, tCost, threads) \<Rightarrow>
                    (case (b64_raw_decode p4, b64_raw_decode p5) of
                       (Some salt, Some want) \<Rightarrow> idkey full salt tCost memory threads (length want) = want
                     | _ \<Rightarrow> False))
      | _ \<Rightarrow> False)"

definition GenerateAPIKey :: "idkey \<Rightarrow> byte list option \<Rightarrow> byte list option \<Rightarrow> nat list \<Rightarrow> GeneratedKey option" where
  "GenerateAPIKey idkey pb sb salt =
     (case (pb, sb) of
        (Some pb, Some sb) \<Rightarrow>
          let pfx = keyEnv @ hex_encode pb; full = pfx @ ''_'' @ hex_encode sb
          in Some \<lparr>gkFull = full, gkPrefix = pfx, gkHash = HashKey idkey salt full\<rparr>
      | _ \<Rightarrow> None)"

section \<open>Authentication\<close>

datatype auth_error = ErrUnauthorized | ErrKeyRevoked | ErrOther

definition AuthenticateAPIKey :: "idkey \<Rightarrow> gotime \<Rightarrow> string \<Rightarrow> MemStore \<Rightarrow> (auth_error + APIKey) \<times> MemStore" where
  "AuthenticateAPIKey idkey now raw m =
     (case KeyPrefix raw of
        None \<Rightarrow> (Inl ErrUnauthorized, m)
      | Some pfx \<Rightarrow>
          (case GetAPIKeyByPrefix pfx m of
             Inl _ \<Rightarrow> (Inl ErrUnauthorized, m)
           | Inr k \<Rightarrow>
               if RevokedAt k \<noteq> None then (Inl ErrKeyRevoked, m)
               else if \<not> VerifyKey idkey raw (Hash k) then (Inl ErrUnauthorized, m)
               else (Inr k, snd (TouchAPIKey (kyID k) now m))))"

section \<open>The encoding round trip\<close>

lemma KeyPrefix_generated: "KeyPrefix ((keyEnv @ hex_encode pb) @ ''_'' @ s) = Some (keyEnv @ hex_encode pb)"
  using index_byte_append [OF hex_encode_not_in [of "CHR ''_''" pb], of s]
  by (simp add: KeyPrefix_def has_prefix_def)

lemma b64_digit_plain [simp]:
  assumes "n < 64"
  shows "b64_digit n \<noteq> CHR ''$''" "b64_digit n \<noteq> CHR ''=''" "CHR ''$'' \<noteq> b64_digit n" "CHR ''='' \<noteq> b64_digit n"
proof -
  have "(of_char (b64_digit n) :: nat) \<noteq> 36" using assms by (auto simp: b64_digit_def)
  then show "b64_digit n \<noteq> CHR ''$''" by auto
  then show "CHR ''$'' \<noteq> b64_digit n" by metis
  show "b64_digit n \<noteq> CHR ''=''" using b64_digit_ok [OF assms] by simp
  then show "CHR ''='' \<noteq> b64_digit n" by metis
qed

lemma b64_raw_encode:
  assumes "\<forall>b \<in> set bs. b < 256"
  shows "CHR ''='' \<notin> set (b64_raw bs) \<and> CHR ''$'' \<notin> set (b64_raw bs) \<and>
     b64_encode bs = b64_raw bs @ replicate ((4 - length (b64_raw bs) mod 4) mod 4) CHR ''='' \<and>
     length (b64_raw bs) mod 4 \<noteq> 1"
  using assms
proof (induction bs rule: b64_encode.induct)
  case (2 a)
  then have "a div 4 < 64" "a mod 4 * 16 < 64" by auto
  then show ?case by (simp add: b64_raw_def numeral_2_eq_2)
next
  case (3 a b)
  then have "a div 4 < 64" "a mod 4 * 16 + b div 16 < 64" "b mod 16 * 4 < 64" by auto
  then show ?case by (simp add: b64_raw_def)
next
  case (4 a b c r)
  then have d: "a div 4 < 64" "a mod 4 * 16 + b div 16 < 64" "b mod 16 * 4 + c div 64 < 64" "c mod 64 < 64" by auto
  then have raw: "b64_raw (a # b # c # r) = b64_digit (a div 4) # b64_digit (a mod 4 * 16 + b div 16)
      # b64_digit (b mod 16 * 4 + c div 64) # b64_digit (c mod 64) # b64_raw r"
    by (simp add: b64_raw_def)
  have "length (b64_raw (a # b # c # r)) mod 4 = length (b64_raw r) mod 4" by (simp add: raw)
  moreover have "CHR ''$'' \<notin> set (b64_raw (a # b # c # r))" "CHR ''='' \<notin> set (b64_raw (a # b # c # r))"
    using d 4 by (simp_all add: raw)
  ultimately show ?case using 4 by (simp add: raw)
qed (simp add: b64_raw_def)

lemma b64_raw_roundtrip:
  assumes "\<forall>b \<in> set bs. b < 256"
  shows "b64_raw_decode (b64_raw bs) = Some bs"
proof -
  note enc = b64_raw_encode [OF assms]
  define r where "r = b64_raw bs"
  have "c \<in> set r \<Longrightarrow> of_char c \<noteq> (10 :: nat) \<and> of_char c \<noteq> (13 :: nat)" for c
    using b64_encode_no_break [OF assms, of c] enc by (auto simp: r_def)
  then have f: "filter (\<lambda>c. of_char c \<noteq> (10 :: nat) \<and> of_char c \<noteq> (13 :: nat)) r = r" by (simp add: filter_id_conv)
  have g: "b64_groups (r @ replicate ((4 - length r mod 4) mod 4) CHR ''='') = Some bs"
    using b64_groups_encode [OF assms] enc by (simp add: r_def)
  have "length r mod 4 = 0 \<or> length r mod 4 = 2 \<or> length r mod 4 = 3"
    using enc by (auto simp: r_def [symmetric])
  then show ?thesis
    using g enc f by (auto simp: b64_raw_decode_def r_def [symmetric] numeral_2_eq_2)
qed

lemma scan_uint_show:
  assumes "n < 2 ^ bits" "s = [] \<or> \<not> is_digit (hd s)"
  shows "scan_uint bits (show_nat n @ s) = Some (n, s)"
proof -
  have dig: "is_digit c" if "c \<in> set (show_nat n)" for c using show_nat_digits [OF that] by (simp add: is_digit_def)
  have "show_nat n \<noteq> []" by (subst show_nat.simps) simp
  then obtain d ds where n: "show_nat n = d # ds" by (cases "show_nat n") auto
  have "is_digit d" using dig n by simp
  then have "\<not> is_space d" by (auto simp: is_space_def is_digit_def Let_def)
  then have "dropWhile (\<lambda>c. is_space c \<and> of_char c \<noteq> (10 :: nat)) (show_nat n @ s) = show_nat n @ s" by (simp add: n)
  moreover have "takeWhile is_digit (show_nat n @ s) = show_nat n" "dropWhile is_digit (show_nat n @ s) = s"
    using dig assms(2) by (cases s; simp add: takeWhile_append dropWhile_append takeWhile_eq_all_conv)+
  moreover have "show_nat n \<noteq> []" by (simp add: n)
  ultimately show ?thesis using assms(1) unfolding scan_uint_def Let_def by simp
qed

lemma HashKey_parts:
  assumes "argon_ok idkey" "\<forall>b \<in> set salt. b < 256"
  shows "split_byte CHR ''$'' (HashKey idkey salt full) =
    ['''', ''argon2id'', ''v='' @ show_nat argonVersion,
     ''m='' @ show_nat argonMemory @ '',t='' @ show_nat argonTime @ '',p='' @ show_nat argonThreads,
     b64_raw salt, b64_raw (idkey full salt argonTime argonMemory argonThreads argonKeyLen)]"
proof -
  define sum where "sum = idkey full salt argonTime argonMemory argonThreads argonKeyLen"
  have "\<forall>b \<in> set sum. b < 256" using assms(1) by (auto simp: argon_ok_def sum_def)
  then have raw: "CHR ''$'' \<notin> set (b64_raw salt)" "CHR ''$'' \<notin> set (b64_raw sum)"
    using b64_raw_encode assms(2) by blast+
  have digits: "CHR ''$'' \<notin> set (show_nat n)" for n using show_nat_digits [of "CHR ''$''" n] by auto
  define ps where "ps = ''m='' @ show_nat argonMemory @ '',t='' @ show_nat argonTime @ '',p='' @ show_nat argonThreads"
  define v where "v = ''v='' @ show_nat argonVersion"
  have parts: "CHR ''$'' \<notin> set ps" "CHR ''$'' \<notin> set v" by (simp_all add: ps_def v_def digits)
  have whole: "HashKey idkey salt full = '''' @ CHR ''$'' # ''argon2id'' @ CHR ''$'' # v @ CHR ''$'' # ps @
      CHR ''$'' # b64_raw salt @ CHR ''$'' # b64_raw sum"
    by (simp add: HashKey_def sum_def ps_def v_def)
  have "split_byte CHR ''$'' ('''' @ CHR ''$'' # ''argon2id'' @ CHR ''$'' # v @ CHR ''$'' # ps @
      CHR ''$'' # b64_raw salt @ CHR ''$'' # b64_raw sum) = ['''', ''argon2id'', v, ps, b64_raw salt, b64_raw sum]"
    using raw parts by (simp add: split_byte_append split_byte_last)
  with whole show ?thesis by (simp only: sum_def ps_def v_def)
qed

lemma scan_params_HashKey:
  "scan_params (''m='' @ show_nat argonMemory @ '',t='' @ show_nat argonTime @ '',p='' @ show_nat argonThreads) =
     Some (argonMemory, argonTime, argonThreads)"
proof -
  have "scan_uint 8 (show_nat argonThreads) = Some (argonThreads, [])"
    using scan_uint_show [of argonThreads 8 "[]"] by (simp add: argonThreads_def)
  moreover have "scan_uint 32 (show_nat argonTime @ '',p='' @ s) = Some (argonTime, '',p='' @ s)"
    "scan_uint 32 (show_nat argonMemory @ '',t='' @ s) = Some (argonMemory, '',t='' @ s)" for s
    using scan_uint_show [of argonTime 32 "'',p='' @ s"] scan_uint_show [of argonMemory 32 "'',t='' @ s"]
    by (simp_all add: argonTime_def argonMemory_def is_digit_def)
  ultimately show ?thesis by (simp add: scan_params_def scan_lit_def has_prefix_def)
qed

lemma VerifyKey_HashKey:
  assumes "argon_ok idkey" "\<forall>b \<in> set salt. b < 256"
  shows "VerifyKey idkey raw (HashKey idkey salt full) \<longleftrightarrow>
    idkey raw salt argonTime argonMemory argonThreads argonKeyLen = idkey full salt argonTime argonMemory argonThreads argonKeyLen"
proof -
  define sum where "sum = idkey full salt argonTime argonMemory argonThreads argonKeyLen"
  have "\<forall>b \<in> set sum. b < 256" and len: "length sum = argonKeyLen"
    using assms(1) by (auto simp: argon_ok_def sum_def)
  then show ?thesis
    unfolding VerifyKey_def HashKey_parts [OF assms] sum_def [symmetric]
    by (simp add: scan_params_HashKey [simplified] b64_raw_roundtrip assms(2))
qed

section \<open>Revoked keys\<close>

definition key_dead :: "string \<Rightarrow> string \<Rightarrow> MemStore \<Rightarrow> bool" where
  "key_dead i p m \<longleftrightarrow> gget (keyPrefix m) p = Some i \<and> (\<exists>k. gget (keys m) i = Some k \<and> RevokedAt k \<noteq> None)"

lemma key_dead_step:
  assumes "store_step m m'" "key_dead i p m"
  shows "key_dead i p m'"
proof -
  have other: "keys m' = keys m \<Longrightarrow> keyPrefix m' = keyPrefix m \<Longrightarrow> ?thesis" using assms(2) by (simp add: key_dead_def)
  from assms(1) show ?thesis
  proof cases
    case (8 nid k now)
    then show ?thesis using assms(2) by (auto simp: key_dead_def CreateAPIKey_def Let_def)
  next
    case (9 j at)
    then show ?thesis using assms(2) by (auto simp: key_dead_def TouchAPIKey_def split: option.splits)
  next
    case (10 j orgID at)
    then show ?thesis using assms(2) by (auto simp: key_dead_def RevokeAPIKey_def split: option.splits)
  qed (rule other; auto simp: CreateUser_def UpdateUserProfile_def CreateOrg_def UpdateOrgPlan_def SetOrgPlan_def
      SetOrgStripeCustomer_def upd_org_def AddOrgMember_def ReserveSubdomain_def ReleaseSubdomain_def
      AddCustomDomain_def VerifyCustomDomain_def UpsertUsage_def RecordTunnelOpen_def CloseTunnelSession_def
      UpsertSubscription_def DeleteSubscription_def MarkEventProcessed_def InsertMeteredUsage_def
      MarkMeteredUsageReported_def Let_def split: option.splits if_splits)+
qed

lemma key_dead_steps: "store_step\<^sup>*\<^sup>* m m' \<Longrightarrow> key_dead i p m \<Longrightarrow> key_dead i p m'"
  by (induction rule: rtranclp_induct) (auto intro: key_dead_step)

lemma key_dead_refused:
  "key_dead i p m \<Longrightarrow> KeyPrefix raw = Some p \<Longrightarrow> AuthenticateAPIKey idkey now raw m = (Inl ErrKeyRevoked, m)"
  by (auto simp: key_dead_def AuthenticateAPIKey_def GetAPIKeyByPrefix_def)

section \<open>Properties\<close>

text \<open>A minted API key works and nothing else does. The lookup prefix of the full key is the stored
  prefix, and against the stored hash a raw key verifies exactly when the key derivation gives the
  same digest for it as for the minted key, whatever the random bytes and the salt.\<close>

theorem api_key_roundtrip:
  assumes "argon_ok idkey" "\<forall>b \<in> set salt. b < 256" "GenerateAPIKey idkey (Some pb) (Some sb) salt = Some g"
  shows "KeyPrefix (gkFull g) = Some (gkPrefix g)
       \<and> (VerifyKey idkey raw (gkHash g) \<longleftrightarrow>
           idkey raw salt argonTime argonMemory argonThreads argonKeyLen =
           idkey (gkFull g) salt argonTime argonMemory argonThreads argonKeyLen)"
proof -
  from assms(3) have "gkFull g = (keyEnv @ hex_encode pb) @ ''_'' @ hex_encode sb" "gkPrefix g = keyEnv @ hex_encode pb"
    "gkHash g = HashKey idkey salt (gkFull g)"
    by (auto simp: GenerateAPIKey_def Let_def)
  then show ?thesis using KeyPrefix_generated [of pb "hex_encode sb"] VerifyKey_HashKey [OF assms(1,2)] by simp
qed

text \<open>A derivation that fills the digest with the length of the key.\<close>

definition ex_idkey :: idkey where
  "ex_idkey k salt t m p n = replicate n (length k mod 256)"

lemma ex_idkey_ok: "argon_ok ex_idkey"
  by (simp add: argon_ok_def ex_idkey_def)

theorem api_key_roundtrip_witness:
  "\<exists>g. GenerateAPIKey ex_idkey (Some [1, 2]) (Some [3]) [7] = Some g \<and> VerifyKey ex_idkey (gkFull g) (gkHash g)
     \<and> \<not> VerifyKey ex_idkey ''tq_live_'' (gkHash g)"
proof -
  obtain g where g: "GenerateAPIKey ex_idkey (Some [1, 2]) (Some [3]) [7] = Some g"
    by (auto simp: GenerateAPIKey_def Let_def)
  then have "length (gkFull g) = 15"
    by (auto simp: GenerateAPIKey_def Let_def keyEnv_def hex_encode_def)
  with g api_key_roundtrip [OF ex_idkey_ok _ g, of "gkFull g"] api_key_roundtrip [OF ex_idkey_ok _ g, of "''tq_live_''"]
  show ?thesis by (auto simp: ex_idkey_def argonKeyLen_def)
qed

text \<open>C26. Revoking an API key is final: from then on, whatever else happens to the store, every raw key
  with that prefix is refused as revoked.\<close>

theorem revoked_key_final:
  assumes "store_reach m" "gget (keys m) i = Some k" "RevokeAPIKey i (kyOrgID k) at m = (Inr (), m1)"
    and "store_step\<^sup>*\<^sup>* m1 m2" "KeyPrefix raw = Some (Prefix k)"
  shows "AuthenticateAPIKey idkey now raw m2 = (Inl ErrKeyRevoked, m2)"
proof -
  have "gget (keyPrefix m) (Prefix k) = Some i"
    using store_ok_reach [OF assms(1)] assms(2) unfolding store_ok_def keyix.ok_def index_ok_def by metis
  then have "key_dead i (Prefix k) m1"
    using assms(2,3) by (auto simp: key_dead_def RevokeAPIKey_def)
  then show ?thesis using key_dead_steps [OF assms(4)] key_dead_refused [OF _ assms(5)] by blast
qed

definition ex_key :: APIKey where
  "ex_key = zeroKey\<lparr>kyID := ''key_1'', kyOrgID := ''org_1'', Prefix := ''tq_live_ab'', kyCreatedAt := 5\<rparr>"

theorem revoked_key_final_witness:
  "AuthenticateAPIKey ex_idkey 9 ''tq_live_ab_00'' (snd (RevokeAPIKey ''key_1'' ''org_1'' 7 (snd (CreateAPIKey 5 ''x'' ex_key NewMemStore))))
     = (Inl ErrKeyRevoked, snd (RevokeAPIKey ''key_1'' ''org_1'' 7 (snd (CreateAPIKey 5 ''x'' ex_key NewMemStore))))"
proof -
  define m where "m = snd (CreateAPIKey 5 ''x'' ex_key NewMemStore)"
  have "store_reach m"
    unfolding m_def by (rule store_reach.step [OF store_reach.start store_step.intros(8)]) (simp add: NewMemStore_def)
  moreover have k: "gget (keys m) ''key_1'' = Some ex_key"
    by (simp add: m_def ex_key_def zeroKey_def CreateAPIKey_def NewMemStore_def or_id_def or_time_def Let_def)
  moreover have "RevokeAPIKey ''key_1'' (kyOrgID ex_key) 7 m = (Inr (), snd (RevokeAPIKey ''key_1'' ''org_1'' 7 m))"
    using k by (simp add: RevokeAPIKey_def ex_key_def)
  moreover have "KeyPrefix ''tq_live_ab_00'' = Some (Prefix ex_key)"
    by (simp add: KeyPrefix_def keyEnv_def has_prefix_def ex_key_def)
  ultimately have "AuthenticateAPIKey ex_idkey 9 ''tq_live_ab_00'' (snd (RevokeAPIKey ''key_1'' ''org_1'' 7 m))
      = (Inl ErrKeyRevoked, snd (RevokeAPIKey ''key_1'' ''org_1'' 7 m))"
    by (intro revoked_key_final) auto
  then show ?thesis by (simp only: m_def)
qed


end
