(* ===== verification/Calendar.thy ===== *)
theory Calendar
  imports Prelude
begin

text \<open>
  The part of Go's \<^verbatim>\<open>time\<close> package that \<^verbatim>\<open>monthStart\<close> (\<^verbatim>\<open>internal/billing/entitlements.go\<close>) uses: the
  proleptic Gregorian calendar in UTC, counted from the zero \<^verbatim>\<open>Time\<close>, the first of January of year 1.
  The year is found by a search that starts at a lower bound; the search is a \<open>function\<close> with its
  termination proof.
\<close>

abbreviation aday :: duration where "aday \<equiv> 86400000000000"

definition leap :: "nat \<Rightarrow> bool" where
  "leap y \<longleftrightarrow> y mod 4 = 0 \<and> (y mod 100 \<noteq> 0 \<or> y mod 400 = 0)"

text \<open>Days before the first of January of year \<open>y\<close>, and the days of its months.\<close>

definition year_days :: "nat \<Rightarrow> nat" where
  "year_days y = 365 * (y - 1) + ((y - 1) div 4 - (y - 1) div 100) + (y - 1) div 400"

definition month_lengths :: "nat \<Rightarrow> nat list" where
  "month_lengths y = [31, if leap y then 29 else 28, 31, 30, 31, 30, 31, 31, 30, 31, 30, 31]"

lemma sum_month_lengths: "sum_list (month_lengths y) = (if leap y then 366 else 365)"
  by (simp add: month_lengths_def)

lemma year_days_Suc:
  assumes "1 \<le> y"
  shows "year_days (Suc y) = year_days y + (if leap y then 366 else 365)"
proof -
  obtain n where y: "y = Suc n" using assms by (cases y) auto
  define a b c where "a = n div 4" and "b = n div 100" and "c = n div 400"
  have le: "b \<le> a" unfolding a_def b_def by (rule div_le_mono2) auto
  have q: "Suc n div 4 = (if Suc n mod 4 = 0 then Suc a else a)" "Suc n div 100 = (if Suc n mod 100 = 0 then Suc b else b)"
    "Suc n div 400 = (if Suc n mod 400 = 0 then Suc c else c)"
    by (simp_all add: a_def b_def c_def div_Suc)
  have now: "year_days (Suc n) = 365 * n + (a - b) + c"
    and nxt: "year_days (Suc (Suc n)) = 365 * Suc n + (Suc n div 4 - Suc n div 100) + Suc n div 400"
    by (simp_all add: year_days_def a_def b_def c_def)
  consider "\<not> 4 dvd Suc n" "\<not> 100 dvd Suc n" "\<not> 400 dvd Suc n" | "4 dvd Suc n" "\<not> 100 dvd Suc n" "\<not> 400 dvd Suc n"
    | "4 dvd Suc n" "100 dvd Suc n" "\<not> 400 dvd Suc n" | "4 dvd Suc n" "100 dvd Suc n" "400 dvd Suc n"
  proof -
    have "(4 :: nat) dvd 100" "(100 :: nat) dvd 400" by simp_all
    then show ?thesis using that by (metis dvd_trans)
  qed
  then show ?thesis
  proof cases
  qed (use le in \<open>simp_all add: y now nxt q leap_def mod_eq_0_iff_dvd\<close>)
qed

lemma year_days_mono: "1 \<le> y \<Longrightarrow> year_days y < year_days (Suc y)"
  using year_days_Suc by simp

lemma year_days_bound: "year_days (Suc n) \<le> 366 * n"
  by (simp add: year_days_def)

section \<open>Year and month of a day\<close>

text \<open>\<open>d\<close> days after the first of January of year 1.\<close>

function year_from :: "nat \<Rightarrow> nat \<Rightarrow> nat" where
  "year_from y d = (if d < year_days (Suc (Suc y)) then Suc y else year_from (Suc y) d)"
  by pat_completeness auto
termination
proof (relation "measure (\<lambda>(y, d). Suc d - year_days (Suc (Suc y)))")
  fix y d
  assume "\<not> d < year_days (Suc (Suc y))"
  with year_days_mono [of "Suc (Suc y)"]
  show "((Suc y, d), (y, d)) \<in> measure (\<lambda>(y, d). Suc d - year_days (Suc (Suc y)))" by auto
qed simp

declare year_from.simps [simp del]

definition Year :: "nat \<Rightarrow> nat" where
  "Year d = year_from (d div 366) d"

fun month_scan :: "nat list \<Rightarrow> nat \<Rightarrow> nat" where
  "month_scan [] r = 0"
| "month_scan (m # ms) r = (if r < m then 0 else Suc (month_scan ms (r - m)))"

definition Month :: "nat \<Rightarrow> nat" where
  "Month d = Suc (month_scan (month_lengths (Year d)) (d - year_days (Year d)))"

text \<open>\<^verbatim>\<open>time.Date(y, m, 1, 0, 0, 0, 0, time.UTC)\<close>.\<close>

definition first_of :: "nat \<Rightarrow> nat \<Rightarrow> nat" where
  "first_of y m = year_days y + sum_list (take (m - 1) (month_lengths y))"

definition monthStart :: "gotime \<Rightarrow> gotime" where
  "monthStart t = (let d = nat (t div aday) in int (first_of (Year d) (Month d)) * aday)"

lemma year_from_spec:
  "year_days (Suc y) \<le> d \<Longrightarrow> 1 \<le> year_from y d \<and> year_days (year_from y d) \<le> d \<and> d < year_days (Suc (year_from y d))"
proof (induction y d rule: year_from.induct)
  case (1 y d)
  then show ?case by (subst (1 2 3) year_from.simps) auto
qed

lemma Year_spec: "1 \<le> Year d \<and> year_days (Year d) \<le> d \<and> d < year_days (Suc (Year d))"
  unfolding Year_def by (rule year_from_spec) (rule order_trans [OF year_days_bound], simp)

lemma month_scan_spec:
  "r < sum_list ms \<Longrightarrow> month_scan ms r < length ms \<and> sum_list (take (month_scan ms r) ms) \<le> r
     \<and> r < sum_list (take (Suc (month_scan ms r)) ms)"
proof (induction ms arbitrary: r)
  case (Cons m ms)
  show ?case
  proof (cases "r < m")
    case False
    with Cons.prems have "r - m < sum_list ms" by simp
    from Cons.IH [OF this] False show ?thesis by (simp only: month_scan.simps if_False) (simp; linarith)
  qed simp
qed simp

lemma Month_spec:
  "1 \<le> Month d \<and> Month d \<le> 12 \<and> first_of (Year d) (Month d) \<le> d
     \<and> d < first_of (Year d) (Month d) + month_lengths (Year d) ! (Month d - 1)"
proof -
  define r where "r = d - year_days (Year d)"
  have d: "d = year_days (Year d) + r" using Year_spec [of d] by (simp add: r_def)
  have "r < sum_list (month_lengths (Year d))"
    using Year_spec [of d] year_days_Suc [of "Year d"] by (auto simp: sum_month_lengths r_def)
  note scan = month_scan_spec [OF this]
  have len: "length (month_lengths (Year d)) = 12" by (simp add: month_lengths_def)
  show ?thesis using scan d unfolding Month_def r_def [symmetric]
    by (auto simp: first_of_def len take_Suc_conv_app_nth)
qed

text \<open>Two days of one month have the same first day, and a first day is its own.\<close>

lemma Year_unique:
  assumes "1 \<le> y" "year_days y \<le> d" "d < year_days (Suc y)"
  shows "Year d = y"
proof -
  have mono: "1 \<le> a \<Longrightarrow> year_days a \<le> year_days (a + k)" for a k
  proof (induction k)
    case (Suc k)
    then show ?case using year_days_mono [of "a + k"] by simp
  qed simp
  have False if "1 \<le> a" "a < b" "d < year_days (Suc a)" "year_days b \<le> d" for a b
    using mono [of "Suc a" "b - Suc a"] that by simp
  then show ?thesis using Year_spec [of d] assms by (metis linorder_neqE_nat)
qed

lemma month_scan_first: "i < length ms \<Longrightarrow> \<forall>m \<in> set ms. 0 < m \<Longrightarrow> month_scan ms (sum_list (take i ms)) = i"
  by (induction ms arbitrary: i) (auto simp: take_Cons split: nat.splits)

lemma first_of_first:
  assumes "1 \<le> y" "1 \<le> m" "m \<le> 12"
  shows "Year (first_of y m) = y \<and> Month (first_of y m) = m"
proof -
  have len: "length (month_lengths y) = 12" and pos: "\<forall>k \<in> set (month_lengths y). 0 < k"
    by (auto simp: month_lengths_def)
  have split: "sum_list (month_lengths y) = sum_list (take (m - 1) (month_lengths y)) + sum_list (drop (m - 1) (month_lengths y))"
    by (metis append_take_drop_id sum_list_append)
  have "drop (m - 1) (month_lengths y) \<noteq> []" using len assms by simp
  then obtain k ks where ks: "drop (m - 1) (month_lengths y) = k # ks" by (cases "drop (m - 1) (month_lengths y)") auto
  then have "0 < k" using pos by (metis in_set_dropD list.set_intros(1))
  with ks split have "sum_list (take (m - 1) (month_lengths y)) < sum_list (month_lengths y)" by simp
  then have "Year (first_of y m) = y"
    using assms year_days_Suc [of y] by (intro Year_unique) (simp_all add: first_of_def sum_month_lengths)
  moreover have "month_scan (month_lengths y) (sum_list (take (m - 1) (month_lengths y))) = m - 1"
    by (rule month_scan_first) (use len pos assms in auto)
  ultimately show ?thesis using assms by (simp add: Month_def) (simp add: first_of_def)
qed

lemma monthStart_bounds:
  assumes "0 \<le> t"
  shows "monthStart t \<le> t \<and> t < monthStart t + 31 * aday"
proof -
  define d where "d = nat (t div aday)"
  have "month_lengths (Year d) ! (Month d - 1) \<le> 31"
  proof -
    have "month_lengths (Year d) ! (Month d - 1) \<in> set (month_lengths (Year d))"
      using Month_spec [of d] by (intro nth_mem) (auto simp: month_lengths_def)
    then show ?thesis by (auto simp: month_lengths_def split: if_splits)
  qed
  with Month_spec [of d] have "int (first_of (Year d) (Month d)) \<le> int d" "int d < int (first_of (Year d) (Month d)) + 31" by auto
  moreover have "int d * aday \<le> t" "t < (int d + 1) * aday" using assms by (auto simp: d_def)
  ultimately show ?thesis unfolding monthStart_def d_def [symmetric] Let_def by (auto simp: algebra_simps)
qed

lemma monthStart_nonneg: "0 \<le> monthStart t"
  by (simp add: monthStart_def Let_def)

lemma monthStart_idem: "monthStart (monthStart t) = monthStart t"
  using first_of_first Month_spec Year_spec by (simp add: monthStart_def Let_def)

section \<open>Adding months\<close>

text \<open>\<^verbatim>\<open>t.AddDate(0, k, 0)\<close> in UTC: the month is normalised, the day of the month kept, and a day past
  the end of the month runs over into the next.\<close>

definition AddMonths :: "nat \<Rightarrow> gotime \<Rightarrow> gotime" where
  "AddMonths k t =
     (let d = nat (t div aday); n = Month d - 1 + k;
          first = first_of (Year d + n div 12) (n mod 12 + 1)
      in int (first + (d - first_of (Year d) (Month d))) * aday + t mod aday)"

text \<open>The first day of the \<open>n\<close>-th month after January of year \<open>y\<close>.\<close>

definition month_no :: "nat \<Rightarrow> nat \<Rightarrow> nat" where
  "month_no y n = first_of (y + n div 12) (n mod 12 + 1)"

lemma month_no_Suc:
  assumes "1 \<le> y"
  shows "month_no y n + 28 \<le> month_no y (Suc n) \<and> month_no y (Suc n) \<le> month_no y n + 31"
proof -
  define z i where "z = y + n div 12" and "i = n mod 12"
  have i: "i < 12" by (simp add: i_def)
  have z: "1 \<le> z" using assms by (simp add: z_def)
  have len: "28 \<le> month_lengths z ! i \<and> month_lengths z ! i \<le> 31"
  proof -
    have "month_lengths z ! i \<in> set (month_lengths z)" using i by (intro nth_mem) (simp add: month_lengths_def)
    then show ?thesis by (auto simp: month_lengths_def split: if_splits)
  qed
  have "month_no y (Suc n) = month_no y n + month_lengths z ! i"
  proof (cases "i = 11")
    case True
    then have "Suc n mod 12 = 0" "Suc n div 12 = Suc (n div 12)" by (simp_all add: i_def mod_Suc div_Suc)
    then have "month_no y (Suc n) = year_days (Suc z)" by (simp add: month_no_def first_of_def z_def)
    moreover have "month_no y n + month_lengths z ! i = year_days z + sum_list (month_lengths z)"
      using True by (simp add: month_no_def first_of_def z_def i_def month_lengths_def)
    ultimately show ?thesis using year_days_Suc [OF z] by (simp add: sum_month_lengths)
  next
    case False
    with i have "Suc n mod 12 = Suc i" "Suc n div 12 = n div 12" by (simp_all add: i_def mod_Suc div_Suc)
    moreover have "i < length (month_lengths z)" using i by (simp add: month_lengths_def)
    ultimately show ?thesis
      by (simp add: month_no_def first_of_def z_def [symmetric] i_def [symmetric] take_Suc_conv_app_nth)
  qed
  with len show ?thesis by simp
qed

lemma month_no_add:
  assumes "1 \<le> y"
  shows "month_no y n + 28 * k \<le> month_no y (n + k) \<and> month_no y (n + k) \<le> month_no y n + 31 * k"
proof (induction k)
  case (Suc k)
  then show ?case using month_no_Suc [OF assms, of "n + k"] by simp
qed simp

lemma AddMonths_bounds:
  assumes "0 \<le> t"
  shows "t + 28 * int k * aday \<le> AddMonths k t \<and> AddMonths k t \<le> t + 31 * int k * aday"
proof -
  define d y n where "d = nat (t div aday)" and "y = Year d" and "n = Month d - 1"
  have y: "1 \<le> y" using Year_spec [of d] by (simp add: y_def)
  have m: "1 \<le> Month d" "Month d \<le> 12" "first_of y (Month d) \<le> d" using Month_spec [of d] by (auto simp: y_def)
  then have "n div 12 = 0" "n mod 12 = n" by (auto simp: n_def)
  with m have now: "month_no y n = first_of y (Month d)" by (simp add: month_no_def n_def)
  have add: "AddMonths k t = int (month_no y (n + k) + (d - month_no y n)) * aday + t mod aday"
    unfolding now by (simp add: AddMonths_def Let_def d_def [symmetric] y_def [symmetric] n_def month_no_def)
  have "int d = t div aday" using assms by (simp add: d_def pos_imp_zdiv_nonneg_iff)
  then have t: "t = int d * aday + t mod aday" by simp
  have "int (month_no y (n + k) + (d - month_no y n)) = int d + (int (month_no y (n + k)) - int (month_no y n))"
    using m now by simp
  moreover have "28 * int k \<le> int (month_no y (n + k)) - int (month_no y n)" "int (month_no y (n + k)) - int (month_no y n) \<le> 31 * int k"
    using month_no_add [OF y, of n k] by linarith+
  ultimately show ?thesis using t add by (simp add: algebra_simps)
qed

section \<open>The date months later\<close>

text \<open>The day of the month, and the days a month has.\<close>

definition Day :: "nat \<Rightarrow> nat" where
  "Day d = Suc (d - first_of (Year d) (Month d))"

definition month_len :: "nat \<Rightarrow> nat \<Rightarrow> nat" where
  "month_len y m = month_lengths y ! (m - 1)"

lemma month_len_bounds: "1 \<le> m \<Longrightarrow> m \<le> 12 \<Longrightarrow> 28 \<le> month_len y m \<and> month_len y m \<le> 31"
proof -
  assume "1 \<le> m" "m \<le> 12"
  then have "month_len y m \<in> set (month_lengths y)" unfolding month_len_def by (intro nth_mem) (auto simp: month_lengths_def)
  then show ?thesis by (auto simp: month_lengths_def split: if_splits)
qed

lemma month_scan_at: "i < length ms \<Longrightarrow> j < ms ! i \<Longrightarrow> month_scan ms (sum_list (take i ms) + j) = i"
  by (induction ms arbitrary: i) (auto simp: take_Cons split: nat.splits)

lemma date_of_day:
  assumes "1 \<le> y" "1 \<le> m" "m \<le> 12" "j < month_len y m"
  shows "Year (first_of y m + j) = y \<and> Month (first_of y m + j) = m \<and> Day (first_of y m + j) = Suc j"
proof -
  have i: "m - 1 < length (month_lengths y)" using assms by (simp add: month_lengths_def)
  have "sum_list (take (m - 1) (month_lengths y)) + month_len y m \<le> sum_list (month_lengths y)"
    unfolding month_len_def using i by (subst (3) id_take_nth_drop [OF i]) simp
  then have y: "Year (first_of y m + j) = y"
    using assms year_days_Suc [of y] by (intro Year_unique) (simp_all add: first_of_def sum_month_lengths)
  have "month_scan (month_lengths y) (sum_list (take (m - 1) (month_lengths y)) + j) = m - 1"
    using month_scan_at [OF i, of j] assms(4) by (simp add: month_len_def)
  then have "Month (first_of y m + j) = m" unfolding Month_def y using assms(2) by (simp add: first_of_def)
  with y show ?thesis by (simp add: Day_def)
qed

lemma first_of_Suc: "1 \<le> m \<Longrightarrow> m < 12 \<Longrightarrow> first_of y (Suc m) = first_of y m + month_len y m"
proof -
  assume "1 \<le> m" "m < 12"
  moreover have "length (month_lengths y) = 12" by (simp add: month_lengths_def)
  ultimately show ?thesis by (cases m) (simp_all add: first_of_def month_len_def take_Suc_conv_app_nth)
qed

text \<open>\<open>t1\<close> is \<open>k\<close> months after \<open>t0\<close>: at the same time of the same day of the month where that month has such a day, and
  otherwise in the month after it, by as many days as were missing.\<close>

definition months_later :: "nat \<Rightarrow> gotime \<Rightarrow> gotime \<Rightarrow> bool" where
  "months_later k t0 t1 \<longleftrightarrow>
     (let d0 = nat (t0 div aday); d1 = nat (t1 div aday); n = Month d0 - 1 + k; y = Year d0 + n div 12; m = n mod 12 + 1
      in t1 mod aday = t0 mod aday \<and> Year d1 = y \<and>
         (if Day d0 \<le> month_len y m then Month d1 = m \<and> Day d1 = Day d0
          else Month d1 = Suc m \<and> Day d1 = Day d0 - month_len y m))"

lemma AddMonths_date:
  assumes "0 \<le> t"
  shows "months_later k t (AddMonths k t)"
proof -
  define d n where "d = nat (t div aday)" and "n = Month d - 1 + k"
  define y m where "y = Year d + n div 12" and "m = n mod 12 + 1"
  define j where "j = d - first_of (Year d) (Month d)"
  have y: "1 \<le> y" using Year_spec [of d] by (simp add: y_def)
  have m: "1 \<le> m" "m \<le> 12" by (auto simp: m_def)
  have j: "Day d = Suc j" by (simp add: Day_def j_def)
  have "j < month_len (Year d) (Month d)" using Month_spec [of d] by (auto simp: j_def month_len_def)
  with month_len_bounds [of "Month d" "Year d"] Month_spec [of d] have j31: "j < 31" by auto
  define x where "x = first_of y m + j"
  have add: "AddMonths k t = int x * aday + t mod aday"
    by (simp add: AddMonths_def Let_def d_def n_def y_def m_def j_def x_def)
  have dm: "nat (AddMonths k t div aday) = x" "AddMonths k t mod aday = t mod aday"
    unfolding add by simp_all
  have spec: "months_later k t t1 \<longleftrightarrow> t1 mod aday = t mod aday \<and> Year (nat (t1 div aday)) = y \<and>
      (if Day d \<le> month_len y m then Month (nat (t1 div aday)) = m \<and> Day (nat (t1 div aday)) = Day d
       else Month (nat (t1 div aday)) = Suc m \<and> Day (nat (t1 div aday)) = Day d - month_len y m)" for t1
    unfolding months_later_def Let_def d_def n_def y_def m_def ..
  show ?thesis
  proof (cases "Suc j \<le> month_len y m")
    case True
    with date_of_day [OF y m, of j] dm [unfolded x_def] j show ?thesis
      by (simp add: spec)
  next
    case False
    define i where "i = j - month_len y m"
    have "m \<noteq> 12" using False j31 by (auto simp: month_len_def month_lengths_def)
    then have m': "1 \<le> Suc m" "Suc m \<le> 12" using m by auto
    have "i < 3" using month_len_bounds [OF m, of y] j31 by (auto simp: i_def)
    then have i: "i < month_len y (Suc m)" using month_len_bounds [OF m', of y] by simp
    have "first_of y m + j = first_of y (Suc m) + i" using first_of_Suc [of m y] m m' False by (simp add: i_def)
    with date_of_day [OF y m' i] dm [unfolded x_def] j False show ?thesis
      by (simp add: spec i_def Suc_diff_le)
  qed
qed

end
