(* ===== verification/Entitle.thy ===== *)
theory Entitle
  imports ApiKey Plans Calendar
begin

text \<open>
  The entitlements service of the control plane, which the edge asks before every bind:
  \<^verbatim>\<open>internal/api/entitlements.go\<close>, with the quota of \<^verbatim>\<open>internal/billing/entitlements.go\<close>. The handlers read
  the clock and draw a random subdomain; both are arguments. The locale \<open>entitlements\<close> of theory
  \<open>Plans\<close> is interpreted for \<open>CheckBind\<close>.
\<close>

section \<open>Plan in force and quota\<close>

definition effectivePlan :: "gotime \<Rightarrow> Org \<Rightarrow> string" where
  "effectivePlan now og =
     (case PlanExpiresAt og of
        Some ex \<Rightarrow> if now > ex then PlanFree else if orPlan og = '''' then PlanFree else orPlan og
      | None \<Rightarrow> if orPlan og = '''' then PlanFree else orPlan og)"

text \<open>An error code and a message, or two empty strings. The in-memory store never fails to sum up
  the usage; sums are 64-bit integers in the code and do not overflow below 8 EiB.\<close>

definition CheckQuota :: "gotime \<Rightarrow> string \<Rightarrow> string \<Rightarrow> MemStore \<Rightarrow> string \<times> string" where
  "CheckQuota now orgID planCode m =
     (let plan = PlanFor planCode; limits = plan_Limits plan in
      if Metered plan then ('''', '''')
      else if MaxBandwidthBytesMo limits \<le> 0 \<and> MaxRequestsMo limits \<le> 0 then ('''', '''')
      else
        let u = UsageForOrg now orgID (monthStart now) m in
        if MaxBandwidthBytesMo limits > 0 \<and> urBytesIn u + urBytesOut u \<ge> MaxBandwidthBytesMo limits
        then (CodeQuotaBandwidth, ''monthly bandwidth quota exceeded for the '' @ pName plan @ '' plan; upgrade to raise it'')
        else if MaxRequestsMo limits > 0 \<and> urRequests u \<ge> MaxRequestsMo limits
        then (CodeQuotaRequests, ''monthly request quota exceeded for the '' @ pName plan @ '' plan; upgrade to raise it'')
        else ('''', ''''))"

section \<open>Decisions\<close>

definition ent_Authenticate :: "idkey \<Rightarrow> gotime \<Rightarrow> string \<Rightarrow> MemStore \<Rightarrow> (auth_error + string \<times> string) \<times> MemStore" where
  "ent_Authenticate idkey now apiKey m =
     (case AuthenticateAPIKey idkey now apiKey m of
        (Inl e, m') \<Rightarrow> (Inl e, m')
      | (Inr k, m') \<Rightarrow>
          (case GetOrg (kyOrgID k) m' of
             Inl e \<Rightarrow> (Inl ErrOther, m')
           | Inr og \<Rightarrow> (Inr (orID og, effectivePlan now og), m')))"

definition deny :: "string \<Rightarrow> string \<Rightarrow> Decision" where
  "deny code msg =
     \<lparr>Allow = False, dAccountID = '''', dPlan = '''', dLimits = noLimits, AssignedSubdomain = '''',
      ErrorCode = code, ErrorMessage = msg\<rparr>"

definition denyWith :: "Decision \<Rightarrow> string \<Rightarrow> string \<Rightarrow> Decision" where
  "denyWith dec code msg = dec\<lparr>Allow := False, ErrorCode := code, ErrorMessage := msg\<rparr>"

text \<open>The early returns of \<^verbatim>\<open>CheckBind\<close> before the quota, in order: the code and message of the first that
  applies.\<close>

definition bindRefusal :: "BindRequest \<Rightarrow> Plan \<Rightarrow> string \<Rightarrow> MemStore \<Rightarrow> (string \<times> string) option" where
  "bindRefusal req plan accountID m =
     (if brType req = ''udp'' \<and> \<not> pAllowUDP plan then Some (CodePlanForbids, ''UDP tunnels require a paid plan'')
      else if brType req = ''tls'' \<and> \<not> pAllowTLS plan then Some (CodePlanForbids, ''TLS tunnels require a paid plan'')
      else if brType req = ''tcp'' \<and> \<not> pAllowTCP plan
      then Some (CodePlanForbids, ''TCP tunnels are not allowed on this plan'')
      else if brCustomHost req \<noteq> '''' \<and> \<not> pAllowCustomDomains plan
      then Some (CodePlanForbids, ''custom domains require a paid plan'')
      else if brCustomHost req \<noteq> '''' \<and>
              (case GetCustomDomainByName (brCustomHost req) m of
                 Inl _ \<Rightarrow> True
               | Inr d \<Rightarrow> cdOrgID d \<noteq> accountID \<or> VerifiedAt d = None)
      then Some (CodeDomainUnverified, ''custom domain not verified'')
      else if brSubdomain req \<noteq> '''' \<and> \<not> IsSubdomainReserved accountID (brSubdomain req) m
      then Some (CodeSubdomainForbidden, ''subdomain is not reserved by your account'')
      else None)"

text \<open>\<open>quota\<close> tells whether a quota checker is installed, \<open>rnd\<close> is what \<^verbatim>\<open>randSubdomain(8)\<close> reads.\<close>

definition ent_CheckBind :: "idkey \<Rightarrow> bool \<Rightarrow> gotime \<Rightarrow> byte list \<Rightarrow> BindRequest \<Rightarrow> MemStore \<Rightarrow> Decision \<times> MemStore" where
  "ent_CheckBind idkey quota now rnd req m =
     (case ent_Authenticate idkey now (brAPIKey req) m of
        (Inl e, m') \<Rightarrow> (deny CodeAuthInvalid ''invalid api key'', m')
      | (Inr (accountID, planCode), m') \<Rightarrow>
          let plan = PlanFor planCode;
              dec = \<lparr>Allow = False, dAccountID = accountID, dPlan = planCode, dLimits = plan_Limits plan,
                     AssignedSubdomain = '''', ErrorCode = '''', ErrorMessage = ''''\<rparr>
          in (case bindRefusal req plan accountID m' of
                Some (code, msg) \<Rightarrow> (denyWith dec code msg, m')
              | None \<Rightarrow>
                  let dec1 = (if brSubdomain req = '''' \<and> brCustomHost req = ''''
                              then dec\<lparr>AssignedSubdomain := randSubdomain rnd\<rparr> else dec);
                      (code, msg) = (if quota then CheckQuota now accountID planCode m' else ('''', ''''))
                  in if code \<noteq> '''' then (denyWith dec1 code msg, m') else (dec1\<lparr>Allow := True\<rparr>, m')))"

definition ReportUsage :: "Usage \<Rightarrow> MemStore \<Rightarrow> MemStore" where
  "ReportUsage u m =
     UpsertUsage \<lparr>urOrgID = uAccountID u, urTunnelID = uTunnelID u, urBytesIn = uBytesIn u, urBytesOut = uBytesOut u,
       urRequests = uRequests u, urWindowStart = uWindowStart u, urWindowEnd = uWindowEnd u\<rparr> m"

section \<open>Facts\<close>

text \<open>What an allowed bind implies about the store.\<close>

definition entitled :: "idkey \<Rightarrow> gotime \<Rightarrow> BindRequest \<Rightarrow> MemStore \<Rightarrow> string \<Rightarrow> bool" where
  "entitled idkey now req m org \<longleftrightarrow>
     (\<exists>k og. fst (AuthenticateAPIKey idkey now (brAPIKey req) m) = Inr k \<and> gget (orgs m) (kyOrgID k) = Some og
        \<and> org = orID og)
     \<and> (brCustomHost req \<noteq> '''' \<longrightarrow>
          (\<exists>d. GetCustomDomainByName (brCustomHost req) m = Inr d \<and> cdOrgID d = org \<and> VerifiedAt d \<noteq> None))
     \<and> (brSubdomain req \<noteq> '''' \<longrightarrow> IsSubdomainReserved org (brSubdomain req) m)"

lemma Authenticate_store:
  assumes "AuthenticateAPIKey idkey now raw m = (r, m')"
  shows "orgs m' = orgs m \<and> domains m' = domains m \<and> domByName m' = domByName m \<and> subs m' = subs m
       \<and> subByName m' = subByName m \<and> stUsage m' = stUsage m"
proof -
  have "orgs (snd (TouchAPIKey i t m)) = orgs m \<and> domains (snd (TouchAPIKey i t m)) = domains m
     \<and> domByName (snd (TouchAPIKey i t m)) = domByName m \<and> subs (snd (TouchAPIKey i t m)) = subs m
     \<and> subByName (snd (TouchAPIKey i t m)) = subByName m \<and> stUsage (snd (TouchAPIKey i t m)) = stUsage m" for i t
    by (simp add: TouchAPIKey_def split: option.splits)
  then show ?thesis using assms by (auto simp: AuthenticateAPIKey_def split: option.splits sum.splits if_splits)
qed

lemma GetCustomDomainByName_cong:
  "domains m' = domains m \<Longrightarrow> domByName m' = domByName m \<Longrightarrow> GetCustomDomainByName n m' = GetCustomDomainByName n m"
  by (simp add: GetCustomDomainByName_def split: option.splits)

lemma IsSubdomainReserved_cong:
  "subs m' = subs m \<Longrightarrow> subByName m' = subByName m \<Longrightarrow> IsSubdomainReserved org n m' = IsSubdomainReserved org n m"
  by (simp add: IsSubdomainReserved_def split: option.splits)

lemma ent_Authenticate_Inr:
  assumes "ent_Authenticate idkey now raw m = (Inr (acc, plan), m')"
  obtains k og where "AuthenticateAPIKey idkey now raw m = (Inr k, m')" "gget (orgs m) (kyOrgID k) = Some og"
    "acc = orID og" "plan = effectivePlan now og"
proof -
  from assms obtain k m1 where k: "AuthenticateAPIKey idkey now raw m = (Inr k, m1)"
    by (cases "AuthenticateAPIKey idkey now raw m") (auto simp: ent_Authenticate_def split: sum.splits)
  from assms k have "m' = m1" by (auto simp: ent_Authenticate_def split: sum.splits)
  with assms k Authenticate_store [OF k] obtain og where "gget (orgs m) (kyOrgID k) = Some og" "acc = orID og" "plan = effectivePlan now og"
    by (auto simp: ent_Authenticate_def GetOrg_def the_row_def split: option.splits)
  with k \<open>m' = m1\<close> show ?thesis using that by blast
qed

lemma bindRefusal_None:
  assumes "bindRefusal req plan acc m = None"
  shows "brType req = ''udp'' \<longrightarrow> pAllowUDP plan" "brType req = ''tcp'' \<longrightarrow> pAllowTCP plan" "brType req = ''tls'' \<longrightarrow> pAllowTLS plan"
    "brCustomHost req \<noteq> [] \<longrightarrow> pAllowCustomDomains plan" "brSubdomain req \<noteq> [] \<longrightarrow> IsSubdomainReserved acc (brSubdomain req) m"
    "brCustomHost req \<noteq> [] \<longrightarrow>
       (\<exists>d. GetCustomDomainByName (brCustomHost req) m = Inr d \<and> cdOrgID d = acc \<and> VerifiedAt d \<noteq> None)"
  using assms by (auto simp: bindRefusal_def split: if_splits sum.splits)

lemma bindRefusal_Some: "bindRefusal req plan acc m = Some (code, msg) \<Longrightarrow> code \<noteq> []"
  by (auto simp: bindRefusal_def code_defs split: if_splits)

lemma bindRefusal_cong:
  assumes "domains m' = domains m" "domByName m' = domByName m" "subs m' = subs m" "subByName m' = subByName m"
  shows "bindRefusal req plan acc m' = bindRefusal req plan acc m"
  using GetCustomDomainByName_cong [OF assms(1,2)] IsSubdomainReserved_cong [OF assms(3,4)] by (simp only: bindRefusal_def)

text \<open>The two ends of \<^verbatim>\<open>CheckBind\<close>: refused with a code, or allowed with everything checked.\<close>

lemma ent_CheckBind_ends:
  assumes "ent_CheckBind idkey quota now rnd req m = (d, m')"
  shows "\<not> Allow d \<and> ErrorCode d \<noteq> [] \<or>
     Allow d \<and> entitled idkey now req m (dAccountID d) \<and> dLimits d = plan_Limits (PlanFor (dPlan d)) \<and>
     bindRefusal req (PlanFor (dPlan d)) (dAccountID d) m = None \<and>
     AssignedSubdomain d = (if brSubdomain req = [] \<and> brCustomHost req = [] then randSubdomain rnd else []) \<and>
     (quota \<longrightarrow> fst (CheckQuota now (dAccountID d) (dPlan d) m) = [])"
proof (cases "ent_Authenticate idkey now (brAPIKey req) m")
  case (Pair res m1)
  show ?thesis
  proof (cases res)
    case (Inl e)
    with assms Pair show ?thesis by (auto simp: ent_CheckBind_def deny_def code_defs)
  next
    case (Inr p)
    obtain acc plan where "p = (acc, plan)" by (cases p)
    with Inr Pair have au: "ent_Authenticate idkey now (brAPIKey req) m = (Inr (acc, plan), m1)" by simp
    from au obtain k og where k: "AuthenticateAPIKey idkey now (brAPIKey req) m = (Inr k, m1)"
      "gget (orgs m) (kyOrgID k) = Some og" "acc = orID og" by (rule ent_Authenticate_Inr)
    note same = Authenticate_store [OF k(1)]
    have ref: "bindRefusal req pl acc m1 = bindRefusal req pl acc m" for pl using same by (intro bindRefusal_cong) auto
    have "UsageForOrg now acc t m1 = UsageForOrg now acc t m" for t using same by (simp add: UsageForOrg_def)
    then have quo: "CheckQuota now acc plan m1 = CheckQuota now acc plan m" by (simp only: CheckQuota_def)
    note run = assms [unfolded ent_CheckBind_def au ref quo prod.case sum.case Let_def]
    show ?thesis
    proof (cases "bindRefusal req (PlanFor plan) acc m")
      case None
      then have "entitled idkey now req m acc" using k bindRefusal_None [OF None] by (auto simp: entitled_def)
      with None run show ?thesis by (auto simp: denyWith_def split: if_splits prod.splits)
    next
      case (Some cm)
      with run bindRefusal_Some show ?thesis by (cases cm) (auto simp: denyWith_def)
    qed
  qed
qed

lemma ent_CheckBind_Allow:
  assumes "ent_CheckBind idkey quota now rnd req m = (d, m')" "Allow d"
  shows "entitled idkey now req m (dAccountID d)" "dLimits d = plan_Limits (PlanFor (dPlan d))"
    and "bindRefusal req (PlanFor (dPlan d)) (dAccountID d) m = None"
    and "AssignedSubdomain d = (if brSubdomain req = [] \<and> brCustomHost req = [] then randSubdomain rnd else [])"
    and "quota \<Longrightarrow> fst (CheckQuota now (dAccountID d) (dPlan d) m) = []"
  using ent_CheckBind_ends [OF assms(1)] assms(2) by auto

text \<open>The contract the edge relies on; the state is the store, the clock and the random bytes.\<close>

interpretation ctl: entitlements "\<lambda>(idkey, quota, now, rnd, m) req. Inr (fst (ent_CheckBind idkey quota now rnd req m))"
proof (unfold_locales, goal_cases)
  case (1 s req d)
  then show ?case using ent_CheckBind_ends by (cases s) (fastforce simp: prod_eq_iff)
next
  case (2 s req d)
  then show ?case
    using ent_CheckBind_Allow(2) bindRefusal_None(2) [OF ent_CheckBind_Allow(3)] by (cases s) (fastforce simp: prod_eq_iff plan_Limits_def)
next
  case (3 s req d)
  then show ?case
    using ent_CheckBind_Allow(2) bindRefusal_None(1) [OF ent_CheckBind_Allow(3)] by (cases s) (fastforce simp: prod_eq_iff plan_Limits_def)
next
  case (4 s req d)
  then show ?case
    using ent_CheckBind_Allow(2) bindRefusal_None(4) [OF ent_CheckBind_Allow(3)] by (cases s) (fastforce simp: prod_eq_iff plan_Limits_def)
next
  case (5 s req d)
  then show ?case using ent_CheckBind_Allow(2) PlanFor_subdomains by (cases s) (fastforce simp: prod_eq_iff plan_Limits_def)
qed

text \<open>A key that was minted and stored authenticates.\<close>

lemma minted_key_authenticates:
  assumes "argon_ok idkey" "\<forall>b \<in> set salt. b < 256" "GenerateAPIKey idkey (Some pb) (Some sb) salt = Some g"
    and "CreateAPIKey t nid k m = (Inr k', m')" "Prefix k = gkPrefix g" "Hash k = gkHash g" "RevokedAt k = None"
  shows "AuthenticateAPIKey idkey now (gkFull g) m' = (Inr k', snd (TouchAPIKey (kyID k') now m'))"
    and "kyOrgID k' = kyOrgID k"
proof -
  from assms(3) have full: "gkFull g = (keyEnv @ hex_encode pb) @ ''_'' @ hex_encode sb" "gkPrefix g = keyEnv @ hex_encode pb"
    "gkHash g = HashKey idkey salt (gkFull g)"
    by (auto simp: GenerateAPIKey_def Let_def)
  have kp: "KeyPrefix (gkFull g) = Some (gkPrefix g)" using KeyPrefix_generated [of pb "hex_encode sb"] by (simp add: full)
  have vf: "VerifyKey idkey (gkFull g) (gkHash g)" unfolding full(3) using VerifyKey_HashKey [OF assms(1,2)] by blast
  from assms(4) have k': "k' = k\<lparr>kyID := or_id nid (kyID k), kyCreatedAt := or_time t (kyCreatedAt k)\<rparr>"
    and m': "m' = m\<lparr>keys := gset (kyID k') k' (keys m), keyPrefix := gset (Prefix k') (kyID k') (keyPrefix m)\<rparr>"
    by (auto simp: CreateAPIKey_def Let_def split: if_splits)
  show "kyOrgID k' = kyOrgID k" by (simp add: k')
  have "GetAPIKeyByPrefix (gkPrefix g) m' = Inr k'"
    using assms(5) by (simp add: GetAPIKeyByPrefix_def m' k')
  then show "AuthenticateAPIKey idkey now (gkFull g) m' = (Inr k', snd (TouchAPIKey (kyID k') now m'))"
    using kp vf assms(6,7) by (simp add: AuthenticateAPIKey_def k')
qed

section \<open>Properties\<close>

lemma UsageForOrg_sum:
  "urBytesIn (UsageForOrg now org since m) + urBytesOut (UsageForOrg now org since m) =
     (\<Sum>u \<leftarrow> filter (\<lambda>u. urOrgID u = org \<and> since \<le> urWindowEnd u) (stUsage m). urBytesIn u + urBytesOut u)"
proof -
  have sum: "urBytesIn (foldl f acc us) + urBytesOut (foldl f acc us) = urBytesIn acc + urBytesOut acc +
      (\<Sum>u \<leftarrow> filter (\<lambda>u. urOrgID u = org \<and> since \<le> urWindowEnd u) us. urBytesIn u + urBytesOut u)"
    if "f = (\<lambda>agg u. if urOrgID u = org \<and> \<not> urWindowEnd u < since
                    then agg\<lparr>urBytesIn := urBytesIn agg + urBytesIn u, urBytesOut := urBytesOut agg + urBytesOut u,
                             urRequests := urRequests agg + urRequests u\<rparr>
                    else agg)" for f and acc :: UsageRecord and us
    using that by (induction us arbitrary: acc) auto
  show ?thesis unfolding UsageForOrg_def by (subst sum [OF refl]) simp
qed

text \<open>The monthly bandwidth quota is exact: a bind is refused for quota exactly when the plan is not
  pay-as-you-go and the traffic in the usage windows of the organisation that end in the current
  calendar month has reached the limit of the plan; no other quota error exists. The month starts on
  a first of a month at midnight, not after now and less than 31 days before.\<close>

theorem monthly_quota_exact:
  assumes "0 \<le> now"
  shows "fst (CheckQuota now org code m) =
      (if code \<noteq> PlanPAYG \<and> MaxBandwidthBytesMo (LimitsForPlan code) \<le>
            (\<Sum>u \<leftarrow> filter (\<lambda>u. urOrgID u = org \<and> monthStart now \<le> urWindowEnd u) (stUsage m). urBytesIn u + urBytesOut u)
       then CodeQuotaBandwidth else '''')
     \<and> monthStart now \<le> now \<and> now < monthStart now + 31 * aday \<and> monthStart (monthStart now) = monthStart now
     \<and> (\<exists>y mo. 1 \<le> mo \<and> mo \<le> 12 \<and> monthStart now = int (first_of y mo) * aday)"
proof -
  have lim: "LimitsForPlan code = plan_Limits (PlanFor code)" by (simp add: LimitsForPlan_def)
  have reqs: "MaxRequestsMo (plan_Limits (PlanFor code)) = 0"
    using PlanFor_cases [of code] by (auto simp: plan_Limits_def plan_defs)
  have met: "Metered (PlanFor code) \<longleftrightarrow> code = PlanPAYG"
    by (auto simp: PlanFor_def Catalog_def plan_defs Metered_def plan_code_defs)
  have pos: "code \<noteq> PlanPAYG \<Longrightarrow> 0 < MaxBandwidthBytesMo (plan_Limits (PlanFor code))"
    using PlanFor_cases [of code] by (auto simp: plan_Limits_def plan_defs GB_def TB_def)
  have "\<exists>y mo. 1 \<le> mo \<and> mo \<le> 12 \<and> monthStart now = int (first_of y mo) * aday"
    using Month_spec by (auto simp: monthStart_def Let_def)
  moreover have "fst (CheckQuota now org code m) =
      (if code \<noteq> PlanPAYG \<and> MaxBandwidthBytesMo (LimitsForPlan code) \<le>
            (\<Sum>u \<leftarrow> filter (\<lambda>u. urOrgID u = org \<and> monthStart now \<le> urWindowEnd u) (stUsage m). urBytesIn u + urBytesOut u)
       then CodeQuotaBandwidth else '''')"
  proof (cases "code = PlanPAYG")
    case True
    with met show ?thesis by (simp add: CheckQuota_def Let_def)
  next
    case False
    with pos met show ?thesis by (simp add: CheckQuota_def Let_def reqs lim UsageForOrg_sum)
  qed
  ultimately show ?thesis using monthStart_bounds [OF assms] monthStart_idem by blast
qed

theorem monthly_quota_exact_witness:
  "fst (CheckQuota 100 ''org_1'' PlanFree (NewMemStore\<lparr>stUsage := [\<lparr>urOrgID = ''org_1'', urTunnelID = ''t'', urBytesIn = 10 * GB,
      urBytesOut = 1, urRequests = 1, urWindowStart = 1, urWindowEnd = 90\<rparr>]\<rparr>)) = CodeQuotaBandwidth"
proof -
  have "monthStart 100 \<le> 90"
  proof -
    have "Year 0 = 1" "Month 0 = 1" using first_of_first [of 1 1] by (simp_all add: first_of_def year_days_def)
    then show ?thesis by (simp add: monthStart_def first_of_def year_days_def)
  qed
  moreover have "MaxBandwidthBytesMo (LimitsForPlan PlanFree) = 10 * GB"
    by (simp add: LimitsForPlan_def PlanFor_def Catalog_def plan_Limits_def free_plan_def)
  moreover have "PlanFree \<noteq> PlanPAYG" by (simp add: plan_code_defs)
  ultimately show ?thesis using monthly_quota_exact [of 100] by simp
qed


end
