(* ===== verification/Ownership.thy ===== *)
theory Ownership
  imports IngressSafety Entitle
begin

text \<open>
  The edge of theory \<open>Edge\<close> with the control plane of theory \<open>Entitle\<close> deciding its binds: whose a host is.
\<close>

section \<open>The edge with the control plane\<close>

text \<open>The edge of theory \<open>Edge\<close> asks the entitlements of theory \<open>Entitle\<close>.\<close>

definition with_control_plane :: "idkey \<Rightarrow> bool \<Rightarrow> byte list \<Rightarrow> MemStore \<Rightarrow> Env \<Rightarrow> bool" where
  "with_control_plane idkey quota rb m e \<longleftrightarrow>
     (checkBind e = (\<lambda>req. Inr (fst (ent_CheckBind idkey quota (now e) rb req m))))"

lemma allocateHost_assigned:
  assumes "allocateHost e b dec s = Inr host" "bCustomDomain b = ''''" "bSubdomain b = ''''" "AssignedSubdomain dec \<noteq> ''''"
  shows "host = to_lower (AssignedSubdomain dec) @ ''.'' @ BaseDomain (cfg s)"
  using assms by (auto simp: allocateHost_def Let_def split: if_splits)

lemma randSubdomain_nonempty: "rb \<noteq> [] \<Longrightarrow> randSubdomain rb \<noteq> []"
  by (auto simp: randSubdomain_def Let_def)

lemma entitled_rows:
  assumes "store_reach m" "entitled idkey t req m org"
  shows "brCustomHost req \<noteq> '''' \<Longrightarrow> \<exists>d. gget (domains m) (cdID d) = Some d \<and> to_lower (Domain d) = to_lower (brCustomHost req)
        \<and> cdOrgID d = org \<and> VerifiedAt d \<noteq> None"
    and "brSubdomain req \<noteq> '''' \<Longrightarrow> \<exists>sd. gget (subs m) (rsuID sd) = Some sd \<and> to_lower (Subdomain sd) = to_lower (brSubdomain req)
        \<and> rsuOrgID sd = org"
    and "\<exists>k. fst (AuthenticateAPIKey idkey t (brAPIKey req) m) = Inr k \<and> kyOrgID k = org"
proof -
  have ok: "subix.ok m" "domix.ok m" and og: "\<And>i og. gget (orgs m) i = Some og \<Longrightarrow> orID og = i"
    using store_ok_reach [OF assms(1)] by (auto simp: store_ok_def)
  note dom = index_ok_lookup [OF ok(2) [unfolded domix.ok_def]] and sub = index_ok_lookup [OF ok(1) [unfolded subix.ok_def]]
  show "\<exists>d. gget (domains m) (cdID d) = Some d \<and> to_lower (Domain d) = to_lower (brCustomHost req)
        \<and> cdOrgID d = org \<and> VerifiedAt d \<noteq> None" if "brCustomHost req \<noteq> ''''"
  proof -
    from assms(2) that obtain d where d: "GetCustomDomainByName (brCustomHost req) m = Inr d" "cdOrgID d = org" "VerifiedAt d \<noteq> None"
      by (auto simp: entitled_def)
    then have "\<exists>i. gget (domByName m) (to_lower (brCustomHost req)) = Some i \<and> gget (domains m) i = Some d"
      by (auto simp: GetCustomDomainByName_def zeroDomain_def split: option.splits)
    with dom d show ?thesis by blast
  qed
  show "\<exists>sd. gget (subs m) (rsuID sd) = Some sd \<and> to_lower (Subdomain sd) = to_lower (brSubdomain req) \<and> rsuOrgID sd = org"
    if "brSubdomain req \<noteq> ''''"
  proof -
    from assms(2) that have "IsSubdomainReserved org (brSubdomain req) m" by (auto simp: entitled_def)
    then obtain i where i: "gget (subByName m) (to_lower (brSubdomain req)) = Some i"
      "(case gget (subs m) i of Some s \<Rightarrow> rsuOrgID s | None \<Rightarrow> '''') = org"
      by (auto simp: IsSubdomainReserved_def split: option.splits)
    from ok(1) [unfolded subix.ok_def index_ok_def] i(1) obtain sd where "gget (subs m) i = Some sd" by blast
    then have "gget (subs m) (rsuID sd) = Some sd \<and> to_lower (Subdomain sd) = to_lower (brSubdomain req)"
      using sub [of "to_lower (brSubdomain req)" sd] i(1) by blast
    with i(2) \<open>gget (subs m) i = Some sd\<close> show ?thesis by (intro exI [of _ sd]) simp
  qed
  show "\<exists>k. fst (AuthenticateAPIKey idkey t (brAPIKey req) m) = Inr k \<and> kyOrgID k = org"
    using assms(2) og by (auto simp: entitled_def)
qed

text \<open>C4. A host name is only ever served for its owner. With the control plane deciding, a successful
  bind of a host, in any state of the edge and of the store: the session's API key authenticates as a
  key of some organisation; a custom domain is a verified domain of that organisation; a requested
  subdomain is reserved by that organisation; otherwise the host is the random subdomain that was
  assigned. The host is then routed to the new tunnel.\<close>

theorem hosts_belong_to_their_owner:
  assumes "edge_reach any_agent s" "store_reach m" "with_control_plane idkey quota rb m e" "rb \<noteq> []"
    and "handleBind e a b s = (r, s')" "rOk r" "\<not> port_type (bType b)"
  shows "\<exists>k. fst (AuthenticateAPIKey idkey (now e) (asApiKey (ags s a)) m) = Inr k
     \<and> (if bCustomDomain b \<noteq> '''' then
          rAssignedHost r = to_lower (bCustomDomain b) \<and>
          (\<exists>d. gget (domains m) (cdID d) = Some d \<and> to_lower (Domain d) = rAssignedHost r
             \<and> cdOrgID d = kyOrgID k \<and> VerifiedAt d \<noteq> None)
        else if bSubdomain b \<noteq> '''' then
          rAssignedHost r = to_lower (bSubdomain b) @ ''.'' @ BaseDomain (cfg s) \<and>
          (\<exists>sd. gget (subs m) (rsuID sd) = Some sd \<and> to_lower (Subdomain sd) = to_lower (bSubdomain b)
             \<and> rsuOrgID sd = kyOrgID k)
        else rAssignedHost r = to_lower (randSubdomain rb) @ ''.'' @ BaseDomain (cfg s))
     \<and> LookupHost (rAssignedHost r) (hub s') = Some (btNext s)"
  using assms(5) edge_wfD(2) [OF edge_wf_reach [OF assms(1)]]
proof (cases rule: handleBind_cases)
  case (Host dec s1 host)
  define req where "req = bindRequest a b s"
  have dec: "ent_CheckBind idkey quota (now e) rb req m = (dec, snd (ent_CheckBind idkey quota (now e) rb req m))"
    using Host(1) assms(3) by (simp add: with_control_plane_def req_def prod_eq_iff)
  note allow = ent_CheckBind_Allow [OF dec Host(2)]
  note rows = entitled_rows [OF assms(2) allow(1)]
  have req: "brCustomHost req = bCustomDomain b" "brSubdomain req = bSubdomain b" "brAPIKey req = asApiKey (ags s a)"
    by (simp_all add: req_def bindRequest_def)
  have cfg: "cfg s1 = cfg s" by (rule newTunnel_sel(8) [OF Host(4)])
  obtain k where k: "fst (AuthenticateAPIKey idkey (now e) (asApiKey (ags s a)) m) = Inr k" "kyOrgID k = dAccountID dec"
    using rows(3) req by auto
  have route: "LookupHost host (hub s') = Some (btNext s)"
    using Host(8) by (simp add: bound_host_def LookupHost_def)
  have host: "bCustomDomain b \<noteq> '''' \<Longrightarrow> host = to_lower (bCustomDomain b)"
    using Host(5) by (auto simp: allocateHost_def split: if_splits)
  have assigned: "bCustomDomain b = '''' \<Longrightarrow> bSubdomain b = '''' \<Longrightarrow> host = to_lower (randSubdomain rb) @ ''.'' @ BaseDomain (cfg s)"
    using allocateHost_assigned [OF Host(5)] allow(4) req cfg randSubdomain_nonempty [OF assms(4)] by simp
  show ?thesis
    using k rows req route host assigned allocateHost_sub [OF Host(5)] cfg Host(7) by (intro exI [of _ k]) auto
qed (use assms in auto)

text \<open>A store with an organisation, its reserved subdomain and its key, and an edge on which an agent
  with that key asks for the subdomain.\<close>

definition own_gk :: GeneratedKey where
  "own_gk = the (GenerateAPIKey ex_idkey (Some [1, 2]) (Some [3]) [7])"

definition own_m0 :: MemStore where
  "own_m0 = snd (ReserveSubdomain 5 ''sub_1'' \<lparr>rsuID = '''', rsuOrgID = ''org_1'', Subdomain = ''demo'', rsuCreatedAt = 0\<rparr>
     (snd (CreateOrg 5 ''org_1'' \<lparr>orID = '''', orName = '''', orPlan = ''free'', StripeCustomerID = '''', orCreatedAt = 0,
        PlanExpiresAt = None\<rparr> NewMemStore)))"

definition own_key :: APIKey where
  "own_key = zeroKey\<lparr>kyID := ''key_1'', kyOrgID := ''org_1'', Prefix := gkPrefix own_gk, Hash := gkHash own_gk, kyCreatedAt := 5\<rparr>"

definition own_m :: MemStore where
  "own_m = snd (CreateAPIKey 5 ''x'' own_key own_m0)"

definition own_env :: Env where
  "own_env = ex_env\<lparr>checkBind := (\<lambda>req. Inr (fst (ent_CheckBind ex_idkey False (now ex_env) [1] req own_m)))\<rparr>"

definition own_s :: Server where
  "own_s = snd (snd (openSession (\<lambda>_. Inr (''org_1'', ''free'')) True [1, 2] ''1.2.3.4:5''
     (MsgHello \<lparr>ProtocolVersion = '''', ApiKey = gkFull own_gk\<rparr>) ex_s0))"

definition own_bind :: BindTunnel where
  "own_bind = \<lparr>bClientTunnelId = ''t1'', bType = TunnelType_HTTP, bSubdomain = ''demo'', bCustomDomain = '''',
     bRemotePort = 0, bOptions = []\<rparr>"

lemma own_m0_facts:
  "gget (orgs own_m0) ''org_1'' = Some \<lparr>orID = ''org_1'', orName = '''', orPlan = ''free'', StripeCustomerID = '''', orCreatedAt = 5,
        PlanExpiresAt = None\<rparr>"
  "keys own_m0 = []" "keyPrefix own_m0 = []" "IsSubdomainReserved ''org_1'' ''demo'' own_m0" "store_reach own_m0"
proof -
  have low: "to_lower ''demo'' = ''demo''" by code_simp
  show "gget (orgs own_m0) ''org_1'' = Some \<lparr>orID = ''org_1'', orName = '''', orPlan = ''free'', StripeCustomerID = '''', orCreatedAt = 5,
        PlanExpiresAt = None\<rparr>" "keys own_m0 = []" "keyPrefix own_m0 = []" "IsSubdomainReserved ''org_1'' ''demo'' own_m0"
    by (simp_all add: own_m0_def CreateOrg_def ReserveSubdomain_def NewMemStore_def or_id_def or_time_def Let_def low IsSubdomainReserved_def)
  show "store_reach own_m0"
    unfolding own_m0_def
    by (rule store_reach.step [OF store_reach.step [OF store_reach.start store_step.intros(3)] store_step.intros(11)])
      (simp_all add: NewMemStore_def CreateOrg_def Let_def)
qed

lemma own_m_facts:
  "store_reach own_m" "fst (AuthenticateAPIKey ex_idkey t (gkFull own_gk) own_m) = Inr own_key"
  "orgs own_m = orgs own_m0" "subs own_m = subs own_m0" "subByName own_m = subByName own_m0"
proof -
  have create: "CreateAPIKey 5 ''x'' own_key own_m0 = (Inr own_key, own_m)"
    by (simp add: own_m_def CreateAPIKey_def own_m0_facts own_key_def zeroKey_def or_id_def or_time_def Let_def)
  have "GenerateAPIKey ex_idkey (Some [1, 2]) (Some [3]) [7] = Some own_gk"
    by (simp add: own_gk_def GenerateAPIKey_def Let_def)
  from minted_key_authenticates(1) [OF ex_idkey_ok _ this create] show
    "fst (AuthenticateAPIKey ex_idkey t (gkFull own_gk) own_m) = Inr own_key"
    by (simp add: own_key_def zeroKey_def)
  show "store_reach own_m"
    unfolding own_m_def by (rule store_reach.step [OF own_m0_facts(5) store_step.intros(8)]) (simp add: own_m0_facts)
  show "orgs own_m = orgs own_m0" "subs own_m = subs own_m0" "subByName own_m = subByName own_m0"
    by (simp_all add: own_m_def CreateAPIKey_def Let_def)
qed

lemma own_decision:
  assumes "brAPIKey req = gkFull own_gk" "brType req = ''http''" "brSubdomain req = ''demo''" "brCustomHost req = ''''"
  shows "fst (ent_CheckBind ex_idkey False t [1] req own_m) =
     \<lparr>Allow = True, dAccountID = ''org_1'', dPlan = ''free'', dLimits = plan_Limits (PlanFor ''free''), AssignedSubdomain = '''',
      ErrorCode = '''', ErrorMessage = ''''\<rparr>"
proof -
  obtain m' where au: "AuthenticateAPIKey ex_idkey t (gkFull own_gk) own_m = (Inr own_key, m')"
    using own_m_facts(2) [of t] by (cases "AuthenticateAPIKey ex_idkey t (gkFull own_gk) own_m") auto
  note same = Authenticate_store [OF au]
  have "IsSubdomainReserved ''org_1'' ''demo'' m'"
    using own_m0_facts(4) same own_m_facts IsSubdomainReserved_cong [of m' own_m0 "''org_1''" "''demo''"] by simp
  then have "bindRefusal req pl ''org_1'' m' = None" for pl
    using assms by (simp add: bindRefusal_def)
  moreover have "ent_Authenticate ex_idkey t (gkFull own_gk) own_m = (Inr (''org_1'', ''free''), m')"
    using same by (simp add: ent_Authenticate_def au GetOrg_def the_row_def own_key_def own_m_facts own_m0_facts effectivePlan_def)
  ultimately show ?thesis using assms by (simp add: ent_CheckBind_def)
qed

lemma own_s_facts:
  "edge_reach ok own_s" "hub own_s = addSession (newSessionID [1, 2]) 0 NewHub" "asApiKey (ags own_s 0) = gkFull own_gk"
  "cfg own_s = ex_cfg"
proof -
  have "edge_reach ok ex_s0" unfolding ex_s0_def by (rule edge_reach.start) simp
  moreover have "gget (hubSessions (hub ex_s0)) (newSessionID [1, 2]) = None"
    by (simp add: ex_s0_def newServer_def NewHub_def)
  ultimately show "edge_reach ok own_s"
    unfolding own_s_def by (metis (no_types, lifting) edge_reach.step edge_step.session_up prod.collapse)
  show "hub own_s = addSession (newSessionID [1, 2]) 0 NewHub" "asApiKey (ags own_s 0) = gkFull own_gk" "cfg own_s = ex_cfg"
    by (simp_all add: own_s_def openSession_def readHello_def ex_s0_def newServer_def Let_def)
qed

theorem hosts_belong_to_their_owner_witness:
  "rOk (fst (handleBind own_env 0 own_bind own_s)) \<and>
   (\<exists>k. fst (AuthenticateAPIKey ex_idkey (now own_env) (asApiKey (ags own_s 0)) own_m) = Inr k \<and>
      (\<exists>sd. gget (subs own_m) (rsuID sd) = Some sd \<and> to_lower (Subdomain sd) = ''demo'' \<and> rsuOrgID sd = kyOrgID k))"
proof -
  have low: "to_lower ''demo'' = ''demo''" by code_simp
  have "checkBind own_env (bindRequest 0 own_bind own_s) =
      Inr \<lparr>Allow = True, dAccountID = ''org_1'', dPlan = ''free'', dLimits = plan_Limits (PlanFor ''free''), AssignedSubdomain = '''',
        ErrorCode = '''', ErrorMessage = ''''\<rparr>"
    unfolding own_env_def by (simp add: own_decision bindRequest_def own_bind_def own_s_facts)
  moreover have "AllowReservedSubdomain (plan_Limits (PlanFor ''free''))"
    using PlanFor_subdomains [of "''free''"] by (simp add: plan_Limits_def)
  ultimately have ok: "rOk (fst (handleBind own_env 0 own_bind own_s))"
    by (simp add: handleBind_def bindHostTunnel_def newTunnel_def allocateHost_def own_bind_def LookupHost_def own_s_facts
        addSession_def NewHub_def bindHost_def Let_def)
  obtain r s' where rs: "handleBind own_env 0 own_bind own_s = (r, s')" by (cases "handleBind own_env 0 own_bind own_s")
  have env: "with_control_plane ex_idkey False [1] own_m own_env"
    by (simp add: with_control_plane_def own_env_def)
  from hosts_belong_to_their_owner [OF own_s_facts(1) own_m_facts(1) env _ rs] ok rs
  have "\<exists>k. fst (AuthenticateAPIKey ex_idkey (now own_env) (asApiKey (ags own_s 0)) own_m) = Inr k \<and>
      (\<exists>sd. gget (subs own_m) (rsuID sd) = Some sd \<and> to_lower (Subdomain sd) = to_lower ''demo'' \<and> rsuOrgID sd = kyOrgID k)"
    by (auto simp: own_bind_def port_type_def)
  with ok low show ?thesis by simp
qed

end
