(* ===== verification/EndToEnd.thy ===== *)
theory EndToEnd
  imports Forward Ownership
begin

text \<open>
  The agent, the edge and the control plane together: a tunnel the agent starts carries public requests to the
  local service, and what becomes of it when the agent has to reconnect.
\<close>

section \<open>From the public host to the local service\<close>

lemma handleBind_host_resp:
  assumes "handleBind e a b s = (r, s')" "rOk r" "\<not> port_type (bType b)"
  shows "rPublicUrl r = ''https://'' @ rAssignedHost r \<and> rClientTunnelId r = bClientTunnelId b \<and> rAssignedPort r = 0"
  using assms
  by (auto simp: handleBind_def bindHostTunnel_def bindErr_def port_type_def Let_def split: sum.splits if_splits prod.splits)

lemma http_type:
  assumes "snd (tunnelType p)" "to_lower p \<in> {''http'', ''https''}"
  shows "\<not> port_type (fst (tunnelType p))"
  using assms by (auto simp: tunnelType_def port_type_def Let_def)

text \<open>The tunnel the edge binds for a bind message of the agent.\<close>

lemma start_binds_host:
  assumes "StartTunnel at wr (\<lambda>b. Some (fst (handleBind e sid b s))) buf t spec a = (Inr tn, a')"
    and "to_lower (tsProto (fillSpec spec)) \<in> {''http'', ''https''}" "pm_wf (pman s)"
    and "s' = snd (handleBind e sid (bindMsg (newClientTunnelID buf) (fillSpec spec)) s)"
  obtains host br where "tnPublicURL tn = ''https://'' @ host" "LookupHost host (hub s') = Some (btNext s)"
    "clientTunnelID (bts s' (btNext s)) = newClientTunnelID buf" "btOptions (bts s' (btNext s)) = bindOptions spec"
    "lookupTunnel (newClientTunnelID buf) a' = Some (newActive t (fillSpec spec) (newClientTunnelID buf) br)"
proof -
  define b where "b = bindMsg (newClientTunnelID buf) (fillSpec spec)"
  from assms(1) obtain a1 where st: "snd (tunnelType (tsProto (fillSpec spec)))"
    "bind wr (\<lambda>b. Some (fst (handleBind e sid b s))) buf t (fillSpec spec) a1 = (Inr tn, a')" by (rule StartTunnel_Inr)
  from st(2) obtain br where br: "br = fst (handleBind e sid b s)" "rOk br"
    "tn = view (newActive t (fillSpec spec) (newClientTunnelID buf) br)"
    "lookupTunnel (newClientTunnelID buf) a' = Some (newActive t (fillSpec spec) (newClientTunnelID buf) br)"
    by (rule bind_Inr) (simp add: b_def)
  then have h: "handleBind e sid b s = (br, s')" by (simp add: assms(4) b_def)
  have np: "\<not> port_type (bType b)" using http_type [OF st(1) assms(2)] by (simp add: b_def bindMsg_def)
  from h assms(3) show thesis
  proof (cases rule: handleBind_cases)
    case (Host dec s1 host)
    have "bindOptions (fillSpec spec) = bindOptions spec" by (simp add: bindOptions_def)
    with Host br(3,4) handleBind_host_resp [OF h br(2) np] show thesis
      by (intro that [of host br]) (auto simp: bound_host_def new_tunnel_def LookupHost_def view_def newActive_def b_def bindMsg_def)
  qed (use br np in auto)
qed

text \<open>What the agent reads off the stream is the request the edge wrote there.\<close>

definition same_request :: "Request \<Rightarrow> DataReq \<Rightarrow> bool" where
  "same_request r q \<longleftrightarrow> dqHost q = rqHost r \<and> dqURI q = rqURI r \<and> dqHeader q = rqHeader r"

lemma serveRequest_to_agent:
  assumes "LookupHost (hostOnly (rqHost req)) (hub s) = Some u" "checkBasicAuth (rqHeader req) (btOptions (bts s u))"
    and "nOpenStream n u" "scheme = ''http'' \<longrightarrow> reservedUpstream (cfg s) (hostOnly (rqHost req)) = ''''"
  shows "EvAgent u (agentInit n (connRemoteAddr conn) scheme (hostOnly (rqHost req)) (bts s u))
       (agentRequest n conn scheme (hostOnly (rqHost req)) (bts s u) req) \<in> set (fst (serveRequest n conn scheme f req s))"
  using assms by (auto simp: serveRequest_def Let_def split: option.splits)

lemma set_serve_one: "fst (serveHTTPConn conn scheme f [(n, req)] s) = fst (serveRequest n conn scheme f req s)"
  by (auto split: prod.splits)

lemma handleDataStream_local:
  assumes "agentInit n raddr scheme host bt = st" "clientTunnelID bt = cid" "scheme \<in> {''http'', ''https''}"
    and "lookupTunnel cid a = Some (newActive t spec cid br)" "leReq le = Some q" "\<not> isUpgradeReq (dqHeader q)"
  shows "FwLocal (normalizeLocalAddr (tsAddr spec)) ((localReq q)\<lparr>dqBody := take (leTaken le) (dqBody q)\<rparr>) \<in> set (fst (handleDataStream le (Some st) a))"
proof -
  have "to_lower scheme \<in> {''http'', ''https''}" using assms(3) by (auto simp: to_lower_def lower_char_def)
  with assms show ?thesis
    by (auto simp: handleDataStream_def ag_forwardHTTP_def agentInit_def newActive_def tee_fold Let_def split: sum.splits prod.splits)
qed

text \<open>C3. A tunnel works end to end. When the agent starts an HTTP tunnel and the edge accepts the bind, a request
  for the public host whose credentials, if the tunnel asks for any, are right is sent by the edge to that agent;
  and the agent sends what it reads off that stream to the local address the user gave, with the path the client
  asked for and the client's true address in \<^verbatim>\<open>X-Forwarded-For\<close>.\<close>

theorem tunnel_reaches_service:
  assumes "StartTunnel at wr (\<lambda>b. Some (fst (handleBind e sid b s))) buf t spec a = (Inr tn, a')"
    and "to_lower (tsProto (fillSpec spec)) \<in> {''http'', ''https''}" "pm_wf (pman s)"
    and "s' = snd (handleBind e sid (bindMsg (newClientTunnelID buf) (fillSpec spec)) s)"
    and "tnPublicURL tn = ''https://'' @ hostOnly (rqHost req)" "checkBasicAuth (rqHeader req) (bindOptions spec)"
    and "nOpenStream n (btNext s)"
  shows "\<exists>st r. EvAgent (btNext s) st r \<in> set (fst (serveHTTPConn conn ''https'' f [(n, req)] s'))
    \<and> (\<forall>le q. leReq le = Some q \<longrightarrow> same_request r q \<longrightarrow> \<not> isUpgradeReq (dqHeader q) \<longrightarrow>
         (\<exists>x. FwLocal (normalizeLocalAddr (tsAddr spec)) x \<in> set (fst (handleDataStream le (Some st) a'))
            \<and> dqURI x = rqURI req \<and> hdr_Get (dqHeader x) ''X-Forwarded-For'' = clientIP (connRemoteAddr conn)))"
proof -
  from assms(1-4) obtain host br where host: "tnPublicURL tn = ''https://'' @ host" "LookupHost host (hub s') = Some (btNext s)"
    "clientTunnelID (bts s' (btNext s)) = newClientTunnelID buf" "btOptions (bts s' (btNext s)) = bindOptions spec"
    "lookupTunnel (newClientTunnelID buf) a' = Some (newActive t (fillSpec spec) (newClientTunnelID buf) br)"
    by (rule start_binds_host)
  then have h: "hostOnly (rqHost req) = host" using assms(5) by simp
  define st r where "st = agentInit n (connRemoteAddr conn) ''https'' host (bts s' (btNext s))"
    and "r = agentRequest n conn ''https'' host (bts s' (btNext s)) req"
  have ev: "EvAgent (btNext s) st r \<in> set (fst (serveHTTPConn conn ''https'' f [(n, req)] s'))"
    unfolding set_serve_one st_def r_def
    using serveRequest_to_agent [of req s' "btNext s" n "''https''" conn f] host h assms(6,7) by simp
  have x: "\<exists>x. FwLocal (normalizeLocalAddr (tsAddr spec)) x \<in> set (fst (handleDataStream le (Some st) a'))
      \<and> dqURI x = rqURI req \<and> hdr_Get (dqHeader x) ''X-Forwarded-For'' = clientIP (connRemoteAddr conn)"
    if q: "leReq le = Some q" "same_request r q" "\<not> isUpgradeReq (dqHeader q)" for le q
  proof (intro exI conjI)
    let ?x = "(localReq q)\<lparr>dqBody := take (leTaken le) (dqBody q)\<rparr>"
    show "FwLocal (normalizeLocalAddr (tsAddr spec)) ?x \<in> set (fst (handleDataStream le (Some st) a'))"
      using handleDataStream_local [OF st_def [symmetric] host(3) _ host(5) q(1,3)] by simp
    have "canon ` set hopHeaders = set hopHeaders" "''X-Forwarded-For'' \<notin> set hopHeaders" by code_simp+
    with q(2) show "hdr_Get (dqHeader ?x) ''X-Forwarded-For'' = clientIP (connRemoteAddr conn)"
      by (simp add: same_request_def localReq_def r_def agentRequest_def Let_def hdr_Get_def gget_fold_Del hdr_Set_def hdr_Del_def)
    show "dqURI ?x = rqURI req"
      using q(2) by (simp add: same_request_def localReq_def r_def agentRequest_def Let_def)
  qed
  with ev show ?thesis by blast
qed

definition e2e_spec :: TunnelSpec where
  "e2e_spec = ex_spec\<lparr>tsSubdomain := ''a''\<rparr>"

definition e2e_bind :: BindTunnel where
  "e2e_bind = bindMsg (newClientTunnelID [7]) (fillSpec e2e_spec)"

lemma e2e_bind_eq:
  "e2e_bind = \<lparr>bClientTunnelId = newClientTunnelID [7], bType = TunnelType_HTTP, bSubdomain = ''a'', bCustomDomain = '''',
     bRemotePort = 0, bOptions = []\<rparr>"
  by (simp add: e2e_bind_def e2e_spec_def ex_spec_def bindMsg_def fillSpec_def bindOptions_def tunnelType_def to_lower_def lower_char_def Let_def)

lemma e2e_handleBind:
  "fst (handleBind ex_env 0 e2e_bind ex_s1) =
     \<lparr>rClientTunnelId = newClientTunnelID [7], rOk = True, rPublicUrl = ''https://a.lvh.me'', rAssignedHost = ''a.lvh.me'',
      rAssignedPort = 0, rError = None\<rparr>"
  by (simp add: handleBind_def stub_CheckBind_def ex_env_def e2e_bind_eq bindHostTunnel_def allocateHost_def newTunnel_def
      ex_s1_facts bindHost_def LookupHost_def addSession_def NewHub_def Let_def noLimits_def to_lower_def lower_char_def upd_bt_def)
    (simp add: ex_s1_def ex_s0_def newServer_def openSession_def readHello_def protocolVersion_def
      stub_Authenticate_def Let_def ex_cfg_def NewHub_def addSession_def)

definition e2e_start :: "(agent_err + Tunnel) \<times> Agent" where
  "e2e_start = StartTunnel (Reply 7 ''quic'' (MsgAuthResp \<lparr>aOk = True, aAccountId = ''acc'', aPlan = ''free'', aSessionId = ''s'', aError = None\<rparr>))
     True (\<lambda>b. Some (fst (handleBind ex_env 0 b ex_s1))) [7] 0 e2e_spec (newAgent DefaultAgentCfg)"

lemma e2e_start_ok: "\<exists>tn a'. e2e_start = (Inr tn, a') \<and> tnPublicURL tn = ''https://a.lvh.me''"
proof -
  let ?at = "Reply 7 ''quic'' (MsgAuthResp \<lparr>aOk = True, aAccountId = ''acc'', aPlan = ''free'', aSessionId = ''s'', aError = None\<rparr>)"
  obtain a1 where a1: "startCheck ?at (fillSpec e2e_spec) (newAgent DefaultAgentCfg) = (None, a1)" "agControl a1 = Some 7"
    by (auto simp: startCheck_def e2e_spec_def ex_spec_def fillSpec_def tunnelType_def to_lower_def lower_char_def Let_def
        ensureConnected_def newAgent_def connect_def)
  have "fst (bind True (\<lambda>b. Some (fst (handleBind ex_env 0 b ex_s1))) [7] 0 (fillSpec e2e_spec) a1) =
      Inr (view (newActive 0 (fillSpec e2e_spec) (newClientTunnelID [7]) (fst (handleBind ex_env 0 e2e_bind ex_s1))))"
    by (rule bind_ok) (simp_all add: a1 e2e_handleBind flip: e2e_bind_def)
  with a1(1) show ?thesis
    by (auto simp: e2e_start_def StartTunnel_def Let_def view_def newActive_def e2e_handleBind intro!: exI prod_eqI)
qed

theorem tunnel_reaches_service_witness:
  "\<exists>a' st r. snd e2e_start = a' \<and> EvAgent 0 st r \<in> set (fst (serveHTTPConn \<lparr>connRemoteAddr = ''1.2.3.4:555'', isForwarded = False\<rparr> ''https'' 0
      [(ex_net, ex_req)] (snd (handleBind ex_env 0 e2e_bind ex_s1))))
    \<and> (\<forall>le q. leReq le = Some q \<longrightarrow> same_request r q \<longrightarrow> \<not> isUpgradeReq (dqHeader q) \<longrightarrow>
         (\<exists>x. FwLocal (normalizeLocalAddr ''3000'') x \<in> set (fst (handleDataStream le (Some st) a')) \<and> dqURI x = ''/''))"
proof -
  obtain tn a' where s: "e2e_start = (Inr tn, a')" "tnPublicURL tn = ''https://a.lvh.me''" using e2e_start_ok by blast
  have "to_lower (tsProto (fillSpec e2e_spec)) \<in> {''http'', ''https''}"
    by (simp add: e2e_spec_def ex_spec_def fillSpec_def to_lower_def lower_char_def)
  moreover have "pm_wf (pman ex_s1)" by (simp add: ex_s1_facts pm_wf_new)
  moreover have "tnPublicURL tn = ''https://'' @ hostOnly (rqHost ex_req)" by (simp add: s ex_req_host)
  moreover have "checkBasicAuth (rqHeader ex_req) (bindOptions e2e_spec)"
    by (simp add: checkBasicAuth_def bindOptions_def e2e_spec_def ex_spec_def opt_get_def)
  moreover have "nOpenStream ex_net (btNext ex_s1)" by (simp add: ex_net_def)
  moreover have "tsAddr e2e_spec = ''3000''" "rqURI ex_req = ''/''" by (simp_all add: e2e_spec_def ex_spec_def ex_req_def)
  ultimately obtain st r where
    "EvAgent (btNext ex_s1) st r \<in> set (fst (serveHTTPConn \<lparr>connRemoteAddr = ''1.2.3.4:555'', isForwarded = False\<rparr> ''https'' 0
        [(ex_net, ex_req)] (snd (handleBind ex_env 0 e2e_bind ex_s1))))"
    "\<forall>le q. leReq le = Some q \<longrightarrow> same_request r q \<longrightarrow> \<not> isUpgradeReq (dqHeader q) \<longrightarrow>
         (\<exists>x. FwLocal (normalizeLocalAddr ''3000'') x \<in> set (fst (handleDataStream le (Some st) a')) \<and> dqURI x = ''/'')"
    using tunnel_reaches_service [OF s(1) [unfolded e2e_start_def] _ _ refl, of ex_req ex_net "\<lparr>connRemoteAddr = ''1.2.3.4:555'', isForwarded = False\<rparr>" 0]
    unfolding e2e_bind_def by metis
  moreover have "snd e2e_start = a'" by (simp add: s(1))
  ultimately show ?thesis unfolding ex_s1_facts(5) by blast
qed

section \<open>Reconnecting\<close>

lemma unreserved_refused:
  assumes "brSubdomain req \<noteq> ''''" "\<forall>org. \<not> IsSubdomainReserved org (brSubdomain req) m"
  shows "\<not> Allow (fst (ent_CheckBind idkey quota t rb req m))"
proof
  assume "Allow (fst (ent_CheckBind idkey quota t rb req m))"
  from ent_CheckBind_Allow(1) [OF prod.collapse [symmetric] this] assms show False by (auto simp: entitled_def)
qed

lemma refused_bind_agent:
  assumes "edge (bindMsg (newClientTunnelID buf) spec) = Some br" "\<not> rOk br"
  shows "\<exists>err. fst (bind True edge buf t spec a) = Inl err" "agTunnels (snd (bind True edge buf t spec a)) = agTunnels a"
  using assms
  by (auto simp: bind_def bindStart_def bindFinish_def deliverBind_def writeControl_def bindMsg_def Let_def
      split: option.splits sum.splits prod.splits if_splits)

text \<open>Reconnecting loses every tunnel whose subdomain is not reserved. The agent asks for the first label of the
  host it had been assigned as if the user had asked for it, and the control plane refuses a subdomain that no
  organisation has reserved. So after a reconnection a tunnel with a random host, or of a port (its host is the base
  domain of the edge), or of a custom domain is refused by the edge and is gone from the table of the agent, with no
  further attempt.\<close>

theorem reconnect_loses_tunnel:
  assumes "with_control_plane idkey quota rb m e"
    and "tsSubdomain (atSpec old) = ''''" "atAssignedHost old \<noteq> ''''"
    and "\<forall>org. \<not> IsSubdomainReserved org (firstLabel (atAssignedHost old)) m"
    and "edge = (\<lambda>b. Some (fst (handleBind e sid b s)))"
  shows "\<not> rOk (the (edge (bindMsg (newClientTunnelID buf) (rebindSpec old))))
    \<and> agTunnels (rebindOne edge (buf, t) old a) = gdel (atClientTunnelID old) (agTunnels a)"
proof -
  define b where "b = bindMsg (newClientTunnelID buf) (rebindSpec old)"
  have label: "firstLabel (atAssignedHost old) \<noteq> ''''"
    using assms(3) by (auto simp: firstLabel_def index_byte_None split: option.splits dest: index_byte_Some)
  then have sub: "bSubdomain b = firstLabel (atAssignedHost old)" "bSubdomain b \<noteq> ''''"
    using assms(2,3) by (simp_all add: b_def bindMsg_def rebindSpec_def Let_def)
  then have "\<not> Allow (fst (ent_CheckBind idkey quota (now e) rb (bindRequest sid b s) m))"
    using assms(4) by (intro unreserved_refused) (simp_all add: bindRequest_def)
  then have ref: "\<not> rOk (fst (handleBind e sid b s))"
    using assms(1) by (simp add: handleBind_def with_control_plane_def bindErr_def Let_def)
  have edge: "edge (bindMsg (newClientTunnelID buf) (rebindSpec old)) = Some (fst (handleBind e sid b s))"
    by (simp add: assms(5) b_def)
  from refused_bind_agent [where edge = edge, OF edge ref] have
    "\<exists>err. fst (bind True edge buf t (rebindSpec old) x) = Inl err" "agTunnels (snd (bind True edge buf t (rebindSpec old) x)) = agTunnels x" for x
    by blast+
  from this [of "a\<lparr>agTunnels := gdel (atClientTunnelID old) (agTunnels a)\<rparr>"] edge ref show ?thesis
    by (auto simp: rebindOne_def Let_def split: prod.splits)
qed

theorem reconnect_loses_tunnel_witness:
  "agTunnels (rebindOne (\<lambda>b. Some (fst (handleBind own_env 0 b own_s))) ([1], 0) (newActive 0 ex_spec ''ct_1'' ex_resp) ex_agent) = []"
proof -
  have "with_control_plane ex_idkey False [1] own_m own_env" by (simp add: with_control_plane_def own_env_def)
  moreover have "firstLabel ''a.lvh.me'' = ''a''" by code_simp
  moreover have "\<not> IsSubdomainReserved org ''a'' own_m" for org
  proof -
    have "subByName own_m = [(''demo'', ''sub_1'')]" unfolding own_m_facts(5)
      by (simp add: own_m0_def CreateOrg_def ReserveSubdomain_def NewMemStore_def or_id_def or_time_def Let_def) code_simp
    moreover have "to_lower ''a'' = ''a''" by code_simp
    ultimately show ?thesis by (simp add: IsSubdomainReserved_def)
  qed
  ultimately show ?thesis
    using reconnect_loses_tunnel [of ex_idkey False "[1]" own_m own_env "newActive 0 ex_spec ''ct_1'' ex_resp" _ 0 own_s "[1]" 0 ex_agent]
    by (simp add: newActive_def ex_spec_def ex_resp_def ex_agent_def)
qed

end
