(* ===== verification/LocalApi.thy ===== *)
theory LocalApi
  imports Agent
begin

text \<open>
  The control API of the agent, through which the desktop application and the command line drive it:
  \<^verbatim>\<open>internal/agent/localapi.go\<close>, the calls to the control plane of \<^verbatim>\<open>internal/agent/cloudapi.go\<close> and the handlers of
  \<^verbatim>\<open>internal/agent/remoteapi.go\<close> that start and stop a pairing and publish to it. The state is the agent, the configuration
  file, the pairing and the subscribers of the event stream, an instance of the locale \<open>fanout\<close>. Bodies are decoded by the JSON library; a request carries the decoded value.
\<close>

section \<open>The latest release\<close>

text \<open>\<^verbatim>\<open>internal/agent/update.go\<close>. A release is its tag, its notes and whether it is a draft; \<open>rels\<close> is the reply of the
  release list, newest first. Answers are kept for an hour.\<close>

record UpdateInfo =
  uiVersion :: string
  uiNotes :: string
  uiURL :: string

definition downloadBaseURL :: string where
  "downloadBaseURL = ''https://github.com/uzcreator/trqsh/releases/download''"

definition assetName :: "string \<Rightarrow> string \<Rightarrow> string" where
  "assetName version goos =
     (if goos = ''windows'' then ''trqsh_'' @ version @ ''_x64-setup.exe''
      else if goos = ''darwin'' then ''trqsh_'' @ version @ ''_aarch64.dmg''
      else if goos = ''linux'' then ''trqsh_'' @ version @ ''_amd64.AppImage''
      else '''')"

definition releaseInfo :: "string \<Rightarrow> string \<times> string \<Rightarrow> UpdateInfo" where
  "releaseInfo goos tn =
     (let tag = fst tn; version = trim_prefix tag ''desktop-v''; asset = assetName version goos in
      \<lparr>uiVersion = version, uiNotes = snd tn,
       uiURL = (if asset \<noteq> '''' then downloadBaseURL @ ''/'' @ tag @ ''/'' @ asset
                else ''https://github.com/uzcreator/trqsh/releases/tag/'' @ tag)\<rparr>)"

definition latestRelease ::
  "string \<Rightarrow> gotime \<Rightarrow> string + (string \<times> string \<times> bool) list \<Rightarrow> (UpdateInfo \<times> gotime) option
     \<Rightarrow> (string + UpdateInfo) \<times> (UpdateInfo \<times> gotime) option" where
  "latestRelease goos t rels cache =
     (let fetch =
        (case rels of
           Inl err \<Rightarrow> (Inl err, cache)
         | Inr rs \<Rightarrow>
             (case find (\<lambda>(tag, notes, draft). \<not> draft \<and> has_prefix tag ''desktop-v'') rs of
                None \<Rightarrow> (Inl ''no desktop release found'', cache)
              | Some (tag, notes, _) \<Rightarrow>
                  if tag = '''' then (Inl ''no desktop release found'', cache)
                  else let info = releaseInfo goos (tag, notes) in (Inr info, Some (info, t))))
      in case cache of
           Some (u, at) \<Rightarrow> if t - at < 60 * minute then (Inr u, cache) else fetch
         | None \<Rightarrow> fetch)"

section \<open>State and environment\<close>

text \<open>The active pairing: its code and the context of its pump, a number.\<close>

record remotePairing =
  rpCode :: string
  rpCtx :: nat

text \<open>A goroutine that a handler has started: one that ends a replaced pairing with a key and cancels its pump, or
  the pump of a new one.\<close>

datatype la_task = TDrop string remotePairing | TPump nat string string

text \<open>\<open>laEnds\<close> logs the sessions that the control plane was asked to end, with the key, and \<open>laPublished\<close> the publications
  sent to it: address, bearer and body.\<close>

record LocalAPI =
  laCore :: Agent
  laToken :: string
  laOnShutdown :: bool
  laSubs :: "(nat, Event list) gomap"
  laNext :: nat
  laFile :: cfg_file
  laUpd :: "(UpdateInfo \<times> gotime) option"
  laRemote :: "remotePairing option"
  laNextCtx :: nat
  laCancelled :: "nat list"
  laTasks :: "la_task list"
  laEnds :: "(string \<times> string) list"
  laPublished :: "(string \<times> string \<times> string) list"

text \<open>What the outside answers: the file system and environment, the edge, the control plane (\<open>lvCloud\<close>: method, URL,
  bearer and body to an error or a status and body) and its device endpoint (\<open>lvDevice\<close>: the key and the error of the
  reply); \<open>lvURLErr\<close> is the error of a request with an address that does not parse, \<open>lvPairing\<close> decodes the code and the
  address of a new pairing, \<open>lvErrField\<close> the error of a refusal, '''' where there is none.\<close>

record LaEnv =
  lvCfg :: CfgEnv
  lvPath :: string
  lvAttempt :: attempt
  lvWr :: bool
  lvEdge :: "BindTunnel \<Rightarrow> BindResp option"
  lvBuf :: "byte list"
  lvTime :: gotime
  lvCloud :: "string \<Rightarrow> string \<Rightarrow> string \<Rightarrow> string \<Rightarrow> string + int \<times> string"
  lvDevice :: "string \<Rightarrow> string \<Rightarrow> string + string \<times> string"
  lvOS :: string
  lvReleases :: "string + (string \<times> string \<times> bool) list"
  lvURLErr :: "string \<Rightarrow> string option"
  lvPairing :: "string \<Rightarrow> (string \<times> string) option"
  lvErrField :: "string \<Rightarrow> string"

definition NewLocalAPI :: "Agent \<Rightarrow> cfg_file \<Rightarrow> LocalAPI" where
  "NewLocalAPI core f = \<lparr>laCore = core, laToken = '''', laOnShutdown = False, laSubs = [], laNext = 0, laFile = f, laUpd = None,
     laRemote = None, laNextCtx = 0, laCancelled = [], laTasks = [], laEnds = [], laPublished = []\<rparr>"

section \<open>Events\<close>

definition broadcast :: "Event \<Rightarrow> LocalAPI \<Rightarrow> LocalAPI" where
  "broadcast e l = l\<lparr>laSubs := map (\<lambda>(i, q). (i, try_send 64 e q)) (laSubs l)\<rparr>"

definition la_subscribe :: "LocalAPI \<Rightarrow> nat \<times> LocalAPI" where
  "la_subscribe l = (laNext l, l\<lparr>laNext := laNext l + 1, laSubs := gset (laNext l) [] (laSubs l)\<rparr>)"

definition la_unsubscribe :: "nat \<Rightarrow> LocalAPI \<Rightarrow> LocalAPI" where
  "la_unsubscribe i l = l\<lparr>laSubs := gdel i (laSubs l)\<rparr>"

text \<open>The receive of \<^verbatim>\<open>events\<close>, when something waits.\<close>

definition events_recv :: "nat \<Rightarrow> LocalAPI \<Rightarrow> Event option \<times> LocalAPI" where
  "events_recv i l =
     (case gget (laSubs l) i of
        Some (e # q) \<Rightarrow> (Some e, l\<lparr>laSubs := gset i q (laSubs l)\<rparr>)
      | _ \<Rightarrow> (None, l))"

text \<open>One turn of \<^verbatim>\<open>pump\<close>: an event of the agent, if one waits, goes to all subscribers.\<close>

definition pump :: "LocalAPI \<Rightarrow> LocalAPI" where
  "pump l =
     (case agEvents (laCore l) of
        [] \<Rightarrow> l
      | e # es \<Rightarrow> broadcast e (l\<lparr>laCore := (laCore l)\<lparr>agEvents := es\<rparr>\<rparr>))"

interpretation ev: fanout "\<lambda>e l. (e, broadcast e l)" la_subscribe la_unsubscribe events_recv "\<lambda>l. gget (laSubs l)" 64 laNext "\<lambda>_. []"
proof (unfold_locales, goal_cases)
  case (1 x s e s' i)
  then show ?case by (auto simp: broadcast_def map_of_map)
next
  case (6 i s r s')
  then show ?case by (auto simp: events_recv_def split: option.splits list.splits)
qed (auto simp: broadcast_def la_subscribe_def la_unsubscribe_def)

section \<open>Signing in and out\<close>

definition ag_Login :: "CfgEnv \<Rightarrow> string \<Rightarrow> Agent \<Rightarrow> cfg_file \<Rightarrow> string option \<times> Agent \<times> cfg_file" where
  "ag_Login ce token a f =
     (let a1 = a\<lparr>agCfg := (agCfg a)\<lparr>acAPIKey := token\<rparr>\<rparr> in
      case Save ce (agCfg a1) f of (err, f') \<Rightarrow> (err, a1, f'))"

definition storedAPIKey :: "CfgEnv \<Rightarrow> string \<Rightarrow> cfg_file \<Rightarrow> string" where
  "storedAPIKey ce path f = (case Load ce path f of Inl _ \<Rightarrow> '''' | Inr c \<Rightarrow> acAPIKey c)"

definition clearStoredAPIKey :: "CfgEnv \<Rightarrow> string \<Rightarrow> cfg_file \<Rightarrow> string option \<times> cfg_file" where
  "clearStoredAPIKey ce path f =
     (case Load ce path f of Inl err \<Rightarrow> (Some err, f) | Inr c \<Rightarrow> Save ce (c\<lparr>acAPIKey := ''''\<rparr>) f)"

definition trim_right :: "char \<Rightarrow> string \<Rightarrow> string" where
  "trim_right c s = rev (dropWhile (\<lambda>x. x = c) (rev s))"

definition cloudBase :: "CfgEnv \<Rightarrow> string \<Rightarrow> cfg_file \<Rightarrow> string" where
  "cloudBase ce path f =
     trim_right CHR ''/''
       (case Load ce path f of
          Inr c \<Rightarrow> if trim_space (acAPIBase c) \<noteq> '''' then acAPIBase c else DefaultAPIBase
        | Inl _ \<Rightarrow> DefaultAPIBase)"

section \<open>Requests\<close>

text \<open>\<^verbatim>\<open>url.PathEscape\<close>.\<close>

definition path_safe :: "char \<Rightarrow> bool" where
  "path_safe c \<longleftrightarrow> (let n = (of_char c :: nat) in 48 \<le> n \<and> n \<le> 57 \<or> 65 \<le> n \<and> n \<le> 90 \<or> 97 \<le> n \<and> n \<le> 122)
     \<or> c \<in> set ''-_.~$&+=:@''"

definition PathEscape :: "string \<Rightarrow> string" where
  "PathEscape s =
     concat (map (\<lambda>c. if path_safe c then [c]
        else CHR ''%'' # to_upper [hex_digit (of_char c div 16), hex_digit (of_char c mod 16)]) s)"

text \<open>The routes of the mux; \<open>RCloud\<close> carries the method and path for the control plane.\<close>

datatype la_route =
    RHealthz | RStatus | RSession | RLogin | RLogout | RTunnels | RStartTunnel | RStopTunnel string | RRequests | RClearRequests
  | RShutdown | RUpdate | ROauthStart | ROauthPoll | RCloud string string | REvents
  | RRemoteStart | RRemoteStop | RRemotePublish | RNotFound

definition cloud_route :: "string \<Rightarrow> string list \<Rightarrow> la_route" where
  "cloud_route meth segs =
     (if meth = ''GET'' \<and> segs = [''me''] then RCloud ''GET'' ''/v1/me''
      else if meth = ''GET'' \<and> segs = [''usage''] then RCloud ''GET'' ''/v1/usage''
      else if meth = ''GET'' \<and> segs = [''plans''] then RCloud ''GET'' ''/v1/plans''
      else if meth \<in> {''GET'', ''POST''} \<and> segs = [''keys''] then RCloud meth ''/v1/api-keys''
      else if meth \<in> {''GET'', ''POST''} \<and> segs = [''subdomains''] then RCloud meth ''/v1/subdomains''
      else if meth \<in> {''GET'', ''POST''} \<and> segs = [''domains''] then RCloud meth ''/v1/domains''
      else (case segs of
              [res, i] \<Rightarrow>
                if meth = ''DELETE'' \<and> res = ''keys'' then RCloud ''DELETE'' (''/v1/api-keys/'' @ PathEscape i)
                else if meth = ''DELETE'' \<and> res = ''subdomains'' then RCloud ''DELETE'' (''/v1/subdomains/'' @ PathEscape i)
                else RNotFound
            | [res, i, act] \<Rightarrow>
                if meth = ''POST'' \<and> res = ''domains'' \<and> act = ''verify''
                then RCloud ''POST'' (''/v1/domains/'' @ PathEscape i @ ''/verify'') else RNotFound
            | _ \<Rightarrow> RNotFound))"

text \<open>A pattern for \<^verbatim>\<open>GET\<close> also matches \<^verbatim>\<open>HEAD\<close>.\<close>

definition la_mux :: "string \<Rightarrow> string \<Rightarrow> la_route" where
  "la_mux meth0 path =
     (let meth = (if meth0 = ''HEAD'' then ''GET'' else meth0); segs = split_byte CHR ''/'' path in
      if meth = ''GET'' \<and> path = ''/healthz'' then RHealthz
      else if meth = ''GET'' \<and> path = ''/status'' then RStatus
      else if meth = ''GET'' \<and> path = ''/session'' then RSession
      else if meth = ''POST'' \<and> path = ''/login'' then RLogin
      else if meth = ''POST'' \<and> path = ''/logout'' then RLogout
      else if meth = ''GET'' \<and> path = ''/tunnels'' then RTunnels
      else if meth = ''POST'' \<and> path = ''/tunnels'' then RStartTunnel
      else if meth = ''GET'' \<and> path = ''/requests'' then RRequests
      else if meth = ''DELETE'' \<and> path = ''/requests'' then RClearRequests
      else if meth = ''POST'' \<and> path = ''/shutdown'' then RShutdown
      else if meth = ''GET'' \<and> path = ''/update'' then RUpdate
      else if meth = ''POST'' \<and> path = ''/login/oauth/start'' then ROauthStart
      else if meth = ''POST'' \<and> path = ''/login/oauth/poll'' then ROauthPoll
      else if meth = ''GET'' \<and> path = ''/events'' then REvents
      else if meth = ''POST'' \<and> path = ''/remote/start'' then RRemoteStart
      else if meth = ''POST'' \<and> path = ''/remote/stop'' then RRemoteStop
      else if meth = ''POST'' \<and> path = ''/remote/publish'' then RRemotePublish
      else (case segs of
              [e, res, i] \<Rightarrow>
                if e = '''' \<and> res = ''tunnels'' \<and> meth = ''DELETE'' \<and> i \<noteq> '''' then RStopTunnel i
                else if e = '''' \<and> res = ''cloud'' then cloud_route meth [i] else RNotFound
            | e # res # rest \<Rightarrow> if e = '''' \<and> res = ''cloud'' then cloud_route meth rest else RNotFound
            | _ \<Rightarrow> RNotFound))"

record LaReq =
  lqMethod :: string
  lqHost :: string
  lqPath :: string
  lqHeader :: Header
  lqQueryToken :: string
  lqToken :: "string option"
  lqSpec :: "TunnelSpec option"
  lqDevice :: string
  lqBody :: string
  lqBodyErr :: "string option"

datatype la_resp =
    LText string
  | LStatus Status
  | LSession bool Status
  | LTunnels "Tunnel list"
  | LTunnel Tunnel
  | LRequests "CapturedRequest list"
  | LUpdate UpdateInfo
  | LNoContent
  | LStream nat
  | LRaw int string
  | LAuthed
  | LPending
  | LPollError string
  | LPairing string string
  | LErr int string

definition cloudProxy :: "LaEnv \<Rightarrow> string \<Rightarrow> string \<Rightarrow> string \<Rightarrow> LocalAPI \<Rightarrow> la_resp" where
  "cloudProxy ve body meth path l =
     (let key = storedAPIKey (lvCfg ve) (lvPath ve) (laFile l); addr = cloudBase (lvCfg ve) (lvPath ve) (laFile l) @ path in
      if key = '''' then LErr 401 ''not signed in''
      else (case lvURLErr ve addr of
              Some err \<Rightarrow> LErr 502 err
            | None \<Rightarrow>
                (case lvCloud ve meth addr (''Bearer '' @ key) (take (2 ^ 20) body) of
                   Inl err \<Rightarrow> LErr 502 (''cloud unreachable: '' @ err)
                 | Inr (status, reply) \<Rightarrow> LRaw status (take (2 ^ 22) reply))))"

definition oauthPoll :: "LaEnv \<Rightarrow> string \<Rightarrow> LocalAPI \<Rightarrow> la_resp \<times> LocalAPI" where
  "oauthPoll ve device l =
     (if trim_space device = '''' then (LErr 400 ''missing device_code'', l)
      else (case lvDevice ve (cloudBase (lvCfg ve) (lvPath ve) (laFile l) @ ''/v1/auth/device/token'') device of
              Inl err \<Rightarrow> (LErr 502 (''cloud unreachable: '' @ err), l)
            | Inr (key, terr) \<Rightarrow>
                if key \<noteq> '''' then
                  (case ag_Login (lvCfg ve) key (laCore l) (laFile l) of
                     (Some err, a, f) \<Rightarrow> (LErr 502 err, l\<lparr>laCore := a, laFile := f\<rparr>)
                   | (None, a, f) \<Rightarrow> (LAuthed, l\<lparr>laCore := a, laFile := f\<rparr>))
                else if terr = ''authorization_pending'' \<or> terr = ''slow_down'' then (LPending, l)
                else (LPollError (if terr = '''' then ''authorization failed'' else terr), l)))"

text \<open>The pairing of \<^verbatim>\<open>remoteapi.go\<close>.\<close>

definition swapRemote :: "remotePairing option \<Rightarrow> LocalAPI \<Rightarrow> remotePairing option \<times> LocalAPI" where
  "swapRemote p l = (laRemote l, l\<lparr>laRemote := p\<rparr>)"

definition activeRemote :: "LocalAPI \<Rightarrow> remotePairing option" where
  "activeRemote l = laRemote l"

definition pairKey :: "LaEnv \<Rightarrow> LocalAPI \<Rightarrow> string" where
  "pairKey ve l = storedAPIKey (lvCfg ve) (lvPath ve) (laFile l)"

definition sessions_url :: "LaEnv \<Rightarrow> LocalAPI \<Rightarrow> string" where
  "sessions_url ve l = cloudBase (lvCfg ve) (lvPath ve) (laFile l) @ ''/v1/remote/sessions''"

definition endRemoteSession :: "LaEnv \<Rightarrow> string \<Rightarrow> string \<Rightarrow> LocalAPI \<Rightarrow> LocalAPI" where
  "endRemoteSession ve key code l =
     (if key = '''' \<or> code = '''' \<or> lvURLErr ve (sessions_url ve l @ ''/'' @ code @ ''/end'') \<noteq> None then l
      else l\<lparr>laEnds := laEnds l @ [(key, code)]\<rparr>)"

definition cancel :: "nat \<Rightarrow> LocalAPI \<Rightarrow> LocalAPI" where
  "cancel ctx l = l\<lparr>laCancelled := ctx # laCancelled l\<rparr>"

definition dropPairing :: "LaEnv \<Rightarrow> string \<Rightarrow> remotePairing \<Rightarrow> LocalAPI \<Rightarrow> LocalAPI" where
  "dropPairing ve key old l = cancel (rpCtx old) (endRemoteSession ve key (rpCode old) l)"

text \<open>The message of a refusal: the \<open>error\<close> field of the reply, as decoded, or the status.\<close>

definition remoteErrorFrom :: "LaEnv \<Rightarrow> int \<Rightarrow> string \<Rightarrow> string" where
  "remoteErrorFrom ve status body = (if lvErrField ve body \<noteq> '''' then lvErrField ve body else ''status '' @ show_int status)"

definition remoteStart :: "LaEnv \<Rightarrow> LocalAPI \<Rightarrow> la_resp \<times> LocalAPI" where
  "remoteStart ve l =
     (let key = pairKey ve l in
      if key = '''' then (LErr 401 ''not signed in'', l)
      else (case lvURLErr ve (sessions_url ve l) of
              Some err \<Rightarrow> (LErr 500 err, l)
            | None \<Rightarrow>
                (case lvCloud ve ''POST'' (sessions_url ve l) (''Bearer '' @ key) '''' of
                   Inl err \<Rightarrow> (LErr 502 (''cloud unreachable: '' @ err), l)
                 | Inr (status, body) \<Rightarrow>
                     if status \<noteq> 201 then (LErr 502 (remoteErrorFrom ve status body), l)
                     else (case lvPairing ve (take (2 ^ 16) body) of
                             None \<Rightarrow> (LErr 502 ''bad response from cloud'', l)
                           | Some (code, addr) \<Rightarrow>
                               if code = '''' then (LErr 502 ''bad response from cloud'', l)
                               else
                                 let ctx = laNextCtx l in
                                 (case swapRemote (Some \<lparr>rpCode = code, rpCtx = ctx\<rparr>) (l\<lparr>laNextCtx := ctx + 1\<rparr>) of
                                    (old, l1) \<Rightarrow>
                                      (LPairing code addr,
                                       l1\<lparr>laTasks := laTasks l1 @ (case old of Some p \<Rightarrow> [TDrop key p] | None \<Rightarrow> []) @ [TPump ctx key code]\<rparr>))))))"

text \<open>The goroutine that drops a replaced pairing, whenever it runs.\<close>

definition run_drop :: "LaEnv \<Rightarrow> string \<Rightarrow> remotePairing \<Rightarrow> LocalAPI \<Rightarrow> LocalAPI" where
  "run_drop ve key p l = dropPairing ve key p (l\<lparr>laTasks := remove1 (TDrop key p) (laTasks l)\<rparr>)"

definition remoteStop :: "LaEnv \<Rightarrow> LocalAPI \<Rightarrow> LocalAPI" where
  "remoteStop ve l =
     (case swapRemote None l of
        (None, l1) \<Rightarrow> l1
      | (Some old, l1) \<Rightarrow> dropPairing ve (pairKey ve l1) old l1)"

text \<open>\<open>rerr\<close> is the error of reading the body. What the control plane answers is ignored.\<close>

definition remotePublish :: "LaEnv \<Rightarrow> string option \<Rightarrow> string \<Rightarrow> LocalAPI \<Rightarrow> la_resp \<times> LocalAPI" where
  "remotePublish ve rerr body l =
     (case activeRemote l of
        None \<Rightarrow> (LNoContent, l)
      | Some p \<Rightarrow>
          let key = pairKey ve l; addr = sessions_url ve l @ ''/'' @ rpCode p @ ''/publish'' in
          if key = '''' then (LNoContent, l)
          else (case rerr of
                  Some err \<Rightarrow> (LErr 400 err, l)
                | None \<Rightarrow>
                    if lvURLErr ve addr \<noteq> None then (LNoContent, l)
                    else (LNoContent, l\<lparr>laPublished := laPublished l @ [(addr, ''Bearer '' @ key, take (2 ^ 20) body)]\<rparr>)))"

definition stopAll :: "Agent \<Rightarrow> Agent" where
  "stopAll a = fold (\<lambda>t b. snd (snd (StopTunnel (tnID t) b))) (agList a) a"

definition la_handle :: "LaEnv \<Rightarrow> LaReq \<Rightarrow> LocalAPI \<Rightarrow> la_resp \<times> LocalAPI" where
  "la_handle ve q l =
     (case la_mux (lqMethod q) (lqPath q) of
        RHealthz \<Rightarrow> (LText ''ok'', l)
      | RStatus \<Rightarrow> (LStatus (agStatus (laCore l)), l)
      | RSession \<Rightarrow> (LSession (storedAPIKey (lvCfg ve) (lvPath ve) (laFile l) \<noteq> '''') (agStatus (laCore l)), l)
      | RLogin \<Rightarrow>
          (case lqToken q of
             None \<Rightarrow> (LErr 400 '''', l)
           | Some tok \<Rightarrow>
               let tok = trim_space tok in
               if tok = '''' then (LErr 400 ''missing token'', l)
               else (case ag_Login (lvCfg ve) tok (laCore l) (laFile l) of
                       (Some err, a, f) \<Rightarrow> (LErr 502 err, l\<lparr>laCore := a, laFile := f\<rparr>)
                     | (None, a, f) \<Rightarrow> (LSession True (agStatus a), l\<lparr>laCore := a, laFile := f\<rparr>)))
      | RLogout \<Rightarrow>
          (LNoContent, l\<lparr>laCore := stopAll (laCore l), laFile := snd (clearStoredAPIKey (lvCfg ve) (lvPath ve) (laFile l))\<rparr>)
      | RTunnels \<Rightarrow> (LTunnels (agList (laCore l)), l)
      | RStartTunnel \<Rightarrow>
          (case lqSpec q of
             None \<Rightarrow> (LErr 400 '''', l)
           | Some spec \<Rightarrow>
               (case StartTunnel (lvAttempt ve) (lvWr ve) (lvEdge ve) (lvBuf ve) (lvTime ve) spec (laCore l) of
                  (Inl err, a) \<Rightarrow> (LErr 502 (err_text err), l\<lparr>laCore := a\<rparr>)
                | (Inr t, a) \<Rightarrow> (LTunnel t, l\<lparr>laCore := a\<rparr>)))
      | RStopTunnel i \<Rightarrow>
          (case StopTunnel i (laCore l) of
             (_, Some err, a) \<Rightarrow> (LErr 404 (err_Error err), l\<lparr>laCore := a\<rparr>)
           | (_, None, a) \<Rightarrow> (LNoContent, l\<lparr>laCore := a\<rparr>))
      | RRequests \<Rightarrow> (LRequests (rec_List (agInsp (laCore l))), l)
      | RClearRequests \<Rightarrow> (LNoContent, l\<lparr>laCore := (laCore l)\<lparr>agInsp := rec_Clear (agInsp (laCore l))\<rparr>\<rparr>)
      | RShutdown \<Rightarrow> (LNoContent, if laOnShutdown l then l\<lparr>laCore := snd (Shutdown (laCore l))\<rparr> else l)
      | RUpdate \<Rightarrow>
          (case latestRelease (lvOS ve) (lvTime ve) (lvReleases ve) (laUpd l) of
             (Inl err, c) \<Rightarrow> (LErr 502 err, l\<lparr>laUpd := c\<rparr>)
           | (Inr info, c) \<Rightarrow> (LUpdate info, l\<lparr>laUpd := c\<rparr>))
      | ROauthStart \<Rightarrow>
          (case lvCloud ve ''POST'' (cloudBase (lvCfg ve) (lvPath ve) (laFile l) @ ''/v1/auth/device/code'') '''' '''' of
             Inl err \<Rightarrow> (LErr 502 (''cloud unreachable: '' @ err), l)
           | Inr (status, reply) \<Rightarrow> (LRaw status (take (2 ^ 16) reply), l))
      | ROauthPoll \<Rightarrow> oauthPoll ve (lqDevice q) l
      | RCloud meth path \<Rightarrow> (cloudProxy ve (lqBody q) meth path l, l)
      | REvents \<Rightarrow> map_prod LStream (\<lambda>x. x) (la_subscribe l)
      | RRemoteStart \<Rightarrow> remoteStart ve l
      | RRemoteStop \<Rightarrow> (LNoContent, remoteStop ve l)
      | RRemotePublish \<Rightarrow> remotePublish ve (lqBodyErr q) (lqBody q) l
      | RNotFound \<Rightarrow> (LErr 404 '''', l))"

section \<open>The guard\<close>

definition tokenMatches :: "Header \<Rightarrow> string \<Rightarrow> string \<Rightarrow> bool" where
  "tokenMatches hdr query want =
     (let h = hdr_Get hdr ''Authorization'';
          got = (if has_prefix h ''Bearer '' then trim_space (trim_prefix h ''Bearer '') else '''');
          got = (if got = '''' then query else got)
      in got = want)"

definition secure :: "LaEnv \<Rightarrow> LaReq \<Rightarrow> LocalAPI \<Rightarrow> la_resp \<times> LocalAPI" where
  "secure ve q l =
     (if lqMethod q = ''OPTIONS'' then (LNoContent, l)
      else if \<not> isLoopbackHost (lqHost q) then (LErr 403 ''forbidden: non-loopback host'', l)
      else if laToken l \<noteq> '''' \<and> lqPath q \<noteq> ''/healthz'' \<and> \<not> tokenMatches (lqHeader q) (lqQueryToken q) (laToken l)
      then (LErr 401 ''unauthorized'', l)
      else la_handle ve q l)"

section \<open>Facts\<close>

lemma StopTunnel_sel:
  "gget (agTunnels (snd (snd (StopTunnel cid a)))) k = (if k = cid then None else gget (agTunnels a) k)"
  "agCfg (snd (snd (StopTunnel cid a))) = agCfg a" "agConnected (snd (snd (StopTunnel cid a))) = agConnected a"
  "agControl (snd (snd (StopTunnel cid a))) = agControl a" "agAccountID (snd (snd (StopTunnel cid a))) = agAccountID a"
  by (auto simp: StopTunnel_def emit_def split: option.splits)

lemma stop_fold:
  defines "st \<equiv> \<lambda>t b. snd (snd (StopTunnel (tnID t) b))"
  shows "gget (agTunnels (fold st ts a)) k = (if k \<in> tnID ` set ts then None else gget (agTunnels a) k)"
    and "agCfg (fold st ts a) = agCfg a" "agConnected (fold st ts a) = agConnected a" "agControl (fold st ts a) = agControl a"
    "agAccountID (fold st ts a) = agAccountID a"
  by (induction ts arbitrary: a) (auto simp: st_def StopTunnel_sel)

lemma gomap_empty: "(\<And>k. gget m k = None) \<Longrightarrow> m = []"
  by (cases m) (auto split: if_splits prod.splits dest: meta_spec [where x = "fst (hd m)"])

lemma stopAll_sel:
  assumes "agent_ok a"
  shows "agTunnels (stopAll a) = []" "agCfg (stopAll a) = agCfg a" "agConnected (stopAll a) = agConnected a"
    "agControl (stopAll a) = agControl a" "agAccountID (stopAll a) = agAccountID a"
proof -
  have "gget (agTunnels (stopAll a)) k = None" for k
  proof (cases "gget (agTunnels a) k")
    case (Some t)
    then have "t \<in> snd ` set (agTunnels a)" "atClientTunnelID t = k"
      using assms by (auto simp: agent_ok_def dest: gget_SomeD intro: rev_image_eqI)
    then have "k \<in> tnID ` set (agList a)" by (force simp: agList_def view_def image_image)
    then show ?thesis by (simp add: stopAll_def stop_fold)
  qed (simp add: stopAll_def stop_fold)
  then show "agTunnels (stopAll a) = []" by (rule gomap_empty)
qed (simp_all add: stopAll_def stop_fold)

lemma la_mux_healthz: "la_mux meth ''/healthz'' = RHealthz \<or> la_mux meth ''/healthz'' = RNotFound"
  by (simp add: la_mux_def Let_def)

lemma la_mux_logout: "la_mux ''POST'' ''/logout'' = RLogout" "la_mux ''POST'' ''/tunnels'' = RStartTunnel"
  by (simp_all add: la_mux_def)

lemma storedAPIKey_cleared:
  assumes "\<And>c. Load ce path f = Inr c \<Longrightarrow> yaml_lawful ce (c\<lparr>acAPIKey := ''''\<rparr>)" "ceSaveErr ce = None" "env_str (ceGetenv ce) ''TRQSH_API_KEY'' '''' = ''''"
    and "is_ok (Load ce path f)"
  shows "storedAPIKey ce path (snd (clearStoredAPIKey ce path f)) = ''''"
proof -
  from assms(4) obtain c where c: "Load ce path f = Inr c" by (cases "Load ce path f") auto
  with assms(2) have "Save ce (c\<lparr>acAPIKey := ''''\<rparr>) f = (None, snd (clearStoredAPIKey ce path f))"
    by (simp add: clearStoredAPIKey_def Save_def)
  from Load_Save [OF assms(1) [OF c] this] assms(3) show ?thesis
    by (simp add: storedAPIKey_def applyEnv_def omitted_def DefaultAgentCfg_def)
qed

section \<open>Properties\<close>

text \<open>C21. The control API answers only the machine it runs on, and only who knows its token. When a token is set (the
  agent may run without one), a request that does not name a loopback host or does not carry the token changes nothing,
  and is answered with a preflight reply to \<^verbatim>\<open>OPTIONS\<close>, a refusal, or, for a loopback host, the health check. This goes
  for every route, pairing included. A host is loopback only if it is \<^verbatim>\<open>localhost\<close> or spelled as an address, so that no
  other name gets through even when it resolves to 127.0.0.1.\<close>

theorem control_api_guarded:
  assumes "laToken l \<noteq> ''''" "\<not> (isLoopbackHost (lqHost q) \<and> tokenMatches (lqHeader q) (lqQueryToken q) (laToken l))"
  shows "(\<exists>resp. secure ve q l = (resp, l)
      \<and> (resp = LNoContent \<and> lqMethod q = ''OPTIONS''
         \<or> resp = LErr 403 ''forbidden: non-loopback host'' \<and> \<not> isLoopbackHost (lqHost q)
         \<or> isLoopbackHost (lqHost q) \<and> (resp = LErr 401 ''unauthorized'' \<and> lqPath q \<noteq> ''/healthz''
              \<or> (resp = LText ''ok'' \<or> resp = LErr 404 '''') \<and> lqPath q = ''/healthz'')))
    \<and> (\<forall>h port. isLoopbackHost (lqHost q) \<and>
          (split_host_port (lqHost q) = Some (h, port) \<or> split_host_port (lqHost q) = None \<and> h = lqHost q) \<longrightarrow>
         to_lower h = ''localhost'' \<or> (\<forall>c \<in> set h. addr_char c))"
proof
  show "\<exists>resp. secure ve q l = (resp, l)
      \<and> (resp = LNoContent \<and> lqMethod q = ''OPTIONS''
         \<or> resp = LErr 403 ''forbidden: non-loopback host'' \<and> \<not> isLoopbackHost (lqHost q)
         \<or> isLoopbackHost (lqHost q) \<and> (resp = LErr 401 ''unauthorized'' \<and> lqPath q \<noteq> ''/healthz''
              \<or> (resp = LText ''ok'' \<or> resp = LErr 404 '''') \<and> lqPath q = ''/healthz''))"
    using assms la_mux_healthz [of "lqMethod q"] by (auto simp: secure_def la_handle_def)
  show "\<forall>h port. isLoopbackHost (lqHost q) \<and>
          (split_host_port (lqHost q) = Some (h, port) \<or> split_host_port (lqHost q) = None \<and> h = lqHost q) \<longrightarrow>
         to_lower h = ''localhost'' \<or> (\<forall>c \<in> set h. addr_char c)"
    using not_loopback_name [of "lqHost q"] by blast
qed

definition ex_ce :: CfgEnv where
  "ex_ce = \<lparr>ceGetenv = (\<lambda>_. None), ceMarshal = (\<lambda>c. acAPIKey c), ceUnmarshal = (\<lambda>d c. Inr (c\<lparr>acAPIKey := d\<rparr>)), ceSaveErr = None\<rparr>"

definition ex_ve :: LaEnv where
  "ex_ve = \<lparr>lvCfg = ex_ce, lvPath = ''trqsh.yml'', lvAttempt = NoDial '''', lvWr = True, lvEdge = (\<lambda>_. None), lvBuf = [], lvTime = 0,
     lvCloud = (\<lambda>_ _ _ _. Inl ''''), lvDevice = (\<lambda>_ _. Inl ''''), lvOS = ''linux'', lvReleases = Inr [],
     lvURLErr = (\<lambda>_. None), lvPairing = (\<lambda>_. None), lvErrField = (\<lambda>_. '''')\<rparr>"

definition ex_lreq :: "string \<Rightarrow> string \<Rightarrow> LaReq" where
  "ex_lreq meth path = \<lparr>lqMethod = meth, lqHost = ''localhost'', lqPath = path, lqHeader = [], lqQueryToken = ''s3cret'', lqToken = None,
     lqSpec = None, lqDevice = '''', lqBody = '''', lqBodyErr = None\<rparr>"

definition ex_la :: LocalAPI where
  "ex_la = (NewLocalAPI (newAgent DefaultAgentCfg) (Content ''key''))\<lparr>laToken := ''s3cret''\<rparr>"

theorem control_api_guarded_witness:
  "\<exists>resp. secure ex_ve ((ex_lreq ''POST'' ''/remote/stop'')\<lparr>lqQueryToken := ''guess''\<rparr>) ex_la = (resp, ex_la)"
proof -
  let ?q = "(ex_lreq ''POST'' ''/remote/stop'')\<lparr>lqQueryToken := ''guess''\<rparr>"
  have "laToken ex_la \<noteq> ''''" "\<not> (isLoopbackHost (lqHost ?q) \<and> tokenMatches (lqHeader ?q) (lqQueryToken ?q) (laToken ex_la))"
    by (simp_all add: ex_la_def ex_lreq_def tokenMatches_def hdr_Get_def has_prefix_def)
  from control_api_guarded [OF this] show ?thesis by blast
qed

text \<open>With the token the same request is served.\<close>

lemma control_api_serves_owner:
  "secure ex_ve (ex_lreq ''POST'' ''/remote/stop'') (ex_la\<lparr>laRemote := Some \<lparr>rpCode = ''c'', rpCtx = 0\<rparr>\<rparr>) =
     (LNoContent, ex_la\<lparr>laRemote := None, laEnds := [(''key'', ''c'')], laCancelled := [0]\<rparr>)"
proof -
  have l: "isLoopbackHost ''localhost''" by code_simp
  show ?thesis
    by (simp add: secure_def ex_lreq_def l ex_la_def NewLocalAPI_def tokenMatches_def hdr_Get_def has_prefix_def la_handle_def la_mux_def
        remoteStop_def swapRemote_def dropPairing_def endRemoteSession_def cancel_def pairKey_def storedAPIKey_def ex_ve_def ex_ce_def
        Load_def applyEnv_def DefaultAgentCfg_def)
qed

text \<open>Signing out leaves the agent signed in. After \<^verbatim>\<open>POST /logout\<close> no tunnel is left and no key is stored, so the
  application shows the user as signed out; but the session with the edge and the key in memory stay, and a tunnel
  started next is bound on that session, for the account that signed out.\<close>

theorem logout_leaves_session_open:
  assumes "agent_ok (laCore l)" "agConnected (laCore l)"
    and "\<And>c. Load (lvCfg ve) (lvPath ve) (laFile l) = Inr c \<Longrightarrow> yaml_lawful (lvCfg ve) (c\<lparr>acAPIKey := ''''\<rparr>)" "ceSaveErr (lvCfg ve) = None"
    and "env_str (ceGetenv (lvCfg ve)) ''TRQSH_API_KEY'' '''' = ''''" "is_ok (Load (lvCfg ve) (lvPath ve) (laFile l))"
    and "lqMethod q = ''POST''" "lqPath q = ''/logout''" "la_handle ve q l = (resp, l')"
    and "lqMethod q2 = ''POST''" "lqPath q2 = ''/tunnels''" "lqSpec q2 = Some spec" "snd (tunnelType (tsProto (fillSpec spec)))" "lvWr ve"
    and "lvEdge ve (bindMsg (newClientTunnelID (lvBuf ve)) (fillSpec spec)) = Some br" "rOk br" "rClientTunnelId br = newClientTunnelID (lvBuf ve)"
  shows "agList (laCore l') = [] \<and> storedAPIKey (lvCfg ve) (lvPath ve) (laFile l') = ''''
    \<and> agCfg (laCore l') = agCfg (laCore l) \<and> agConnected (laCore l') \<and> agControl (laCore l') = agControl (laCore l)
    \<and> (\<exists>t. fst (la_handle ve q2 l') = LTunnel t \<and> tnPublicURL t = rPublicUrl br)"
proof -
  have l': "laCore l' = stopAll (laCore l)" "laFile l' = snd (clearStoredAPIKey (lvCfg ve) (lvPath ve) (laFile l))"
    using assms(7-9) by (auto simp: la_handle_def la_mux_logout)
  note s = stopAll_sel [OF assms(1)]
  have ctl: "agControl (laCore l') \<noteq> None" using assms(1,2) s(4) l' by (simp add: agent_ok_def)
  have "fst (StartTunnel (lvAttempt ve) True (lvEdge ve) (lvBuf ve) (lvTime ve) spec (laCore l')) =
      Inr (view (newActive (lvTime ve) (fillSpec spec) (newClientTunnelID (lvBuf ve)) br))"
    using bind_ok [where edge = "lvEdge ve", OF ctl assms(15,16,17)] assms(2,13) s(3) l'
    by (simp add: StartTunnel_def startCheck_def ensureConnected_def Let_def)
  then have "\<exists>t. fst (la_handle ve q2 l') = LTunnel t \<and> tnPublicURL t = rPublicUrl br"
    using assms(10-14)
    by (auto simp: la_handle_def la_mux_logout view_def newActive_def split: prod.splits sum.splits)
  then show ?thesis using s l' assms(2) storedAPIKey_cleared [OF assms(3-6)] by (simp add: agList_def)
qed

definition ex_ar :: AuthResp where
  "ex_ar = \<lparr>aOk = True, aAccountId = ''acc'', aPlan = ''free'', aSessionId = ''s'', aError = None\<rparr>"

definition ex_up :: Agent where
  "ex_up = snd (connect (Reply 7 ''quic'' (MsgAuthResp ex_ar)) (newAgent DefaultAgentCfg))"

definition ex_ve2 :: LaEnv where
  "ex_ve2 = ex_ve\<lparr>lvEdge := (\<lambda>b. Some \<lparr>rClientTunnelId = bClientTunnelId b, rOk = True, rPublicUrl = ''https://a.lvh.me'',
     rAssignedHost = ''a.lvh.me'', rAssignedPort = 0, rError = None\<rparr>)\<rparr>"

theorem logout_leaves_session_open_witness:
  "\<exists>l' t. la_handle ex_ve2 (ex_lreq ''POST'' ''/logout'') (NewLocalAPI ex_up (Content ''key'')) = (LNoContent, l')
     \<and> storedAPIKey ex_ce ''trqsh.yml'' (laFile l') = ''''
     \<and> fst (la_handle ex_ve2 ((ex_lreq ''POST'' ''/tunnels'')\<lparr>lqSpec := Some \<lparr>tsName = ''web'', tsProto = ''http'', tsAddr = ''3000'',
          tsSubdomain = '''', tsCustomDomain = '''', tsBasicAuth = '''', tsHostHeader = '''', tsRemotePort = 0\<rparr>\<rparr>) l') = LTunnel t"
proof -
  let ?l = "NewLocalAPI ex_up (Content ''key'')"
  let ?spec = "\<lparr>tsName = ''web'', tsProto = ''http'', tsAddr = ''3000'', tsSubdomain = '''', tsCustomDomain = '''', tsBasicAuth = '''',
     tsHostHeader = '''', tsRemotePort = 0\<rparr>"
  let ?q2 = "(ex_lreq ''POST'' ''/tunnels'')\<lparr>lqSpec := Some ?spec\<rparr>"
  have up: "connect (Reply 7 ''quic'' (MsgAuthResp ex_ar)) (newAgent DefaultAgentCfg) = (None, ex_up)"
    by (simp add: ex_up_def connect_def ex_ar_def Let_def)
  have ok: "agent_ok ex_up" by (rule agent_ok_connect [OF agent_ok_new up])
  have con: "agConnected ex_up" using up by (cases rule: connect_cases) auto
  obtain l' where lo: "la_handle ex_ve2 (ex_lreq ''POST'' ''/logout'') ?l = (LNoContent, l')"
    by (simp add: la_handle_def ex_lreq_def la_mux_logout)
  have load: "Load ex_ce p (Content k) = Inr (DefaultAgentCfg\<lparr>acAPIKey := k\<rparr>)" for p k
    by (simp add: Load_def ex_ce_def applyEnv_def DefaultAgentCfg_def)
  have ve: "lvCfg ex_ve2 = ex_ce" "lvPath ex_ve2 = ''trqsh.yml''" "lvWr ex_ve2" "ceSaveErr ex_ce = None" "ceGetenv ex_ce = (\<lambda>_. None)"
    by (simp_all add: ex_ve2_def ex_ve_def ex_ce_def)
  have yl: "yaml_lawful ex_ce (DefaultAgentCfg\<lparr>acAPIKey := ''''\<rparr>)"
    by (simp add: yaml_lawful_def ex_ce_def omitted_def DefaultAgentCfg_def)
  have ty: "snd (tunnelType (tsProto (fillSpec ?spec)))"
    by (simp add: fillSpec_def tunnelType_def to_lower_def lower_char_def Let_def)
  have ed: "lvEdge ex_ve2 (bindMsg (newClientTunnelID (lvBuf ex_ve2)) (fillSpec ?spec)) =
      Some \<lparr>rClientTunnelId = newClientTunnelID (lvBuf ex_ve2), rOk = True, rPublicUrl = ''https://a.lvh.me'',
        rAssignedHost = ''a.lvh.me'', rAssignedPort = 0, rError = None\<rparr>"
    by (simp add: ex_ve2_def bindMsg_def)
  have "storedAPIKey ex_ce ''trqsh.yml'' (laFile l') = '''' \<and> (\<exists>t. fst (la_handle ex_ve2 ?q2 l') = LTunnel t)"
    using logout_leaves_session_open [where ?q2.0 = ?q2, OF _ _ _ _ _ _ _ _ lo _ _ _ ty ve(3) ed] ok con load ve yl
    by (auto simp: NewLocalAPI_def ex_lreq_def)
  with lo show ?thesis by blast
qed

end
