(* ===== verification/Billing.thy ===== *)
theory Billing
  imports Entitle Config
begin

text \<open>
  Billing: webhooks, checkout and metering of \<^verbatim>\<open>internal/billing\<close> and the signature scheme of
  \<^verbatim>\<open>internal/billing/stripe/stripe.go\<close>. The HMAC, the JSON decoding of an event and the calls to Stripe are
  arguments. The in-memory store is the one of theory \<open>Store\<close>.
\<close>

section \<open>Configuration\<close>

record BillingConfig =
  SecretKey :: string
  WebhookSecret :: string
  Prices :: "(string, StripePrices) gomap"
  MeterBandwidth :: string
  MeterRequests :: string
  SuccessURL :: string
  CancelURL :: string
  PortalReturnURL :: string
  TrialDays :: int
  DunningGrace :: duration
  WebhookTolerance :: duration
  MeteringInterval :: duration

definition Enabled :: "BillingConfig \<Rightarrow> bool" where
  "Enabled c \<longleftrightarrow> SecretKey c \<noteq> ''''"

definition PriceID :: "BillingConfig \<Rightarrow> string \<Rightarrow> string \<Rightarrow> string" where
  "PriceID c plan cadence =
     (case gget (Prices c) plan of
        None \<Rightarrow> ''''
      | Some p \<Rightarrow> if cadence = ''annual'' then spAnnual p else if cadence = ''metered'' then spMetered p else spMonthly p)"

definition MetricBandwidth :: string where "MetricBandwidth = ''bandwidth_bytes''"
definition MetricRequests :: string where "MetricRequests = ''requests''"

definition MeterEventName :: "BillingConfig \<Rightarrow> string \<Rightarrow> string" where
  "MeterEventName c metric =
     (if metric = MetricBandwidth then MeterBandwidth c else if metric = MetricRequests then MeterRequests c else '''')"

definition DefaultBillingConfig :: BillingConfig where
  "DefaultBillingConfig =
     \<lparr>SecretKey = '''', WebhookSecret = '''', Prices = [], MeterBandwidth = '''', MeterRequests = '''',
      SuccessURL = ''http://localhost:3000/billing?status=success'', CancelURL = ''http://localhost:3000/billing?status=cancel'',
      PortalReturnURL = ''http://localhost:3000/billing'', TrialDays = 14, DunningGrace = 72 * 60 * minute,
      WebhookTolerance = 5 * minute, MeteringInterval = 0\<rparr>"

definition getenv :: "genv \<Rightarrow> string \<Rightarrow> string" where
  "getenv g k = (case g k of Some v \<Rightarrow> v | None \<Rightarrow> '''')"

text \<open>\<open>pdur\<close> is \<^verbatim>\<open>time.ParseDuration\<close>.\<close>

definition LoadBillingConfig :: "(string \<Rightarrow> duration option) \<Rightarrow> genv \<Rightarrow> BillingConfig" where
  "LoadBillingConfig pdur g =
     (let d = DefaultBillingConfig;
          dur = (\<lambda>k cur. if getenv g k = '''' then cur else (case pdur (getenv g k) of Some v \<Rightarrow> v | None \<Rightarrow> cur))
      in \<lparr>SecretKey = env_str g ''TRQSH_STRIPE_SECRET_KEY'' (SecretKey d),
          WebhookSecret = env_str g ''TRQSH_STRIPE_WEBHOOK_SECRET'' (WebhookSecret d),
          Prices = [(PlanPro, \<lparr>spMonthly = getenv g ''TRQSH_STRIPE_PRICE_PRO_MONTHLY'', spAnnual = getenv g ''TRQSH_STRIPE_PRICE_PRO_ANNUAL'', spMetered = ''''\<rparr>),
                    (PlanTeam, \<lparr>spMonthly = getenv g ''TRQSH_STRIPE_PRICE_TEAM_MONTHLY'', spAnnual = getenv g ''TRQSH_STRIPE_PRICE_TEAM_ANNUAL'', spMetered = ''''\<rparr>),
                    (PlanPAYG, \<lparr>spMonthly = '''', spAnnual = '''', spMetered = getenv g ''TRQSH_STRIPE_PRICE_PAYG_METERED''\<rparr>)],
          MeterBandwidth = env_str g ''TRQSH_STRIPE_METER_BANDWIDTH'' (MeterBandwidth d),
          MeterRequests = env_str g ''TRQSH_STRIPE_METER_REQUESTS'' (MeterRequests d),
          SuccessURL = env_str g ''TRQSH_BILLING_SUCCESS_URL'' (SuccessURL d),
          CancelURL = env_str g ''TRQSH_BILLING_CANCEL_URL'' (CancelURL d),
          PortalReturnURL = env_str g ''TRQSH_BILLING_PORTAL_RETURN_URL'' (PortalReturnURL d),
          TrialDays = (if getenv g ''TRQSH_BILLING_TRIAL_DAYS'' = '''' then TrialDays d
                       else (case atoi (getenv g ''TRQSH_BILLING_TRIAL_DAYS'') of Some n \<Rightarrow> n | None \<Rightarrow> TrialDays d)),
          DunningGrace = dur ''TRQSH_BILLING_DUNNING_GRACE'' (DunningGrace d),
          WebhookTolerance = WebhookTolerance d,
          MeteringInterval = dur ''TRQSH_BILLING_METERING_INTERVAL'' (MeteringInterval d)\<rparr>)"

section \<open>Signatures\<close>

definition unix_time :: "int \<Rightarrow> gotime" where
  "unix_time n = (n + 62135596800) * second"

text \<open>The timestamp (the last one) and the signatures of a header.\<close>

definition sig_parts :: "string \<Rightarrow> (string \<times> string) list" where
  "sig_parts hdr =
     List.map_filter (\<lambda>p.
        let s = trim_space p in
        (case index_byte CHR ''='' s of None \<Rightarrow> None | Some i \<Rightarrow> Some (take i s, drop (i + 1) s))) (split_byte CHR '','' hdr)"

definition sig_ts :: "string \<Rightarrow> string" where
  "sig_ts hdr = foldl (\<lambda>cur (k, v). if k = ''t'' then v else cur) '''' (sig_parts hdr)"

definition sig_v1s :: "string \<Rightarrow> string list" where
  "sig_v1s hdr = map snd (filter (\<lambda>(k, v). k = ''v1'') (sig_parts hdr))"

text \<open>\<open>hmac\<close> is HMAC-SHA256 of a key and a message. \<open>None\<close> is acceptance.\<close>

type_synonym hmac = "string \<Rightarrow> string \<Rightarrow> byte list"

definition VerifySignature :: "hmac \<Rightarrow> gotime \<Rightarrow> string \<Rightarrow> string \<Rightarrow> string \<Rightarrow> duration \<Rightarrow> string option" where
  "VerifySignature hmac t payload hdr secret tolerance =
     (if secret = '''' then Some ''stripe: empty webhook secret''
      else if sig_ts hdr = '''' \<or> sig_v1s hdr = [] then Some ''stripe: webhook signature verification failed''
      else (case atoi (sig_ts hdr) of
              None \<Rightarrow> Some ''stripe: webhook signature verification failed''
            | Some ts \<Rightarrow>
                if tolerance > 0 \<and> (t - unix_time ts > tolerance \<or> t - unix_time ts < - tolerance)
                then Some ''stripe: webhook timestamp outside tolerance''
                else if hex_encode (hmac secret (sig_ts hdr @ ''.'' @ payload)) \<in> set (sig_v1s hdr) then None
                else Some ''stripe: webhook signature verification failed''))"

definition SignPayload :: "hmac \<Rightarrow> string \<Rightarrow> string \<Rightarrow> int \<Rightarrow> string" where
  "SignPayload hmac payload secret ts =
     ''t='' @ show_int ts @ '',v1='' @ hex_encode (hmac secret (show_int ts @ ''.'' @ payload))"

section \<open>Webhooks\<close>

record SubscriptionObject =
  soID :: string
  soCustomer :: string
  soStatus :: string
  soCancelAtPeriodEnd :: bool
  soCurrentPeriodEnd :: int
  soItems :: "string list"
  soMetadata :: "(string, string) gomap"

record CheckoutSessionObject =
  coCustomer :: string
  coClientReferenceID :: string
  coMetadata :: "(string, string) gomap"

record InvoiceObject =
  ioCustomer :: string

text \<open>An event with its object as each of the three types, \<open>None\<close> where decoding it as that type fails.\<close>

record StripeEvent =
  evID :: string
  evType :: string
  evSub :: "SubscriptionObject option"
  evCheckout :: "CheckoutSessionObject option"
  evInvoice :: "InvoiceObject option"

definition so_PriceID :: "SubscriptionObject \<Rightarrow> string" where
  "so_PriceID s = (case soItems s of p # _ \<Rightarrow> p | [] \<Rightarrow> '''')"

definition PeriodEnd :: "SubscriptionObject \<Rightarrow> gotime" where
  "PeriodEnd s = (if soCurrentPeriodEnd s = 0 then 0 else unix_time (soCurrentPeriodEnd s))"

definition meta :: "(string, string) gomap \<Rightarrow> string \<Rightarrow> string" where
  "meta m k = (case gget m k of Some v \<Rightarrow> v | None \<Rightarrow> '''')"

definition planForSubscription :: "BillingConfig \<Rightarrow> SubscriptionObject \<Rightarrow> string" where
  "planForSubscription c s =
     (case PlanForPriceID (Prices c) (so_PriceID s) of
        Some code \<Rightarrow> code
      | None \<Rightarrow>
          let code = meta (soMetadata s) ''plan'' in
          if code \<noteq> '''' \<and> gget Catalog code \<noteq> None then code else '''')"

definition resolveOrgID :: "(string, string) gomap \<Rightarrow> string \<Rightarrow> MemStore \<Rightarrow> store_error + string" where
  "resolveOrgID md customerID m =
     (if meta md ''org_id'' \<noteq> '''' then Inr (meta md ''org_id'')
      else (case GetOrgByStripeCustomer customerID m of Inl e \<Rightarrow> Inl e | Inr og \<Rightarrow> Inr (orID og)))"

definition derivePlan :: "string \<Rightarrow> string \<Rightarrow> string" where
  "derivePlan status plan =
     (if status = ''active'' \<or> status = ''trialing'' then plan
      else if status = ''canceled'' \<or> status = ''incomplete_expired'' \<or> status = ''unpaid'' then PlanFree
      else '''')"

text \<open>A handler returns whether it failed, and the store. \<open>t\<close> and \<open>nid\<close> are the clock and a fresh id.\<close>

definition onCheckoutCompleted :: "StripeEvent \<Rightarrow> MemStore \<Rightarrow> bool \<times> MemStore" where
  "onCheckoutCompleted e m =
     (case evCheckout e of
        None \<Rightarrow> (True, m)
      | Some obj \<Rightarrow>
          let orgID = (if coClientReferenceID obj = '''' then meta (coMetadata obj) ''org_id'' else coClientReferenceID obj) in
          if orgID \<noteq> '''' \<and> coCustomer obj \<noteq> ''''
          then map_prod isl (\<lambda>x. x) (SetOrgStripeCustomer orgID (coCustomer obj) m)
          else (False, m))"

definition syncCustomer :: "string \<Rightarrow> string \<Rightarrow> MemStore \<Rightarrow> bool \<times> MemStore" where
  "syncCustomer orgID customer m =
     (if customer \<noteq> '''' \<and> (case GetOrg orgID m of Inr og \<Rightarrow> StripeCustomerID og \<noteq> customer | Inl _ \<Rightarrow> False)
      then map_prod isl (\<lambda>x. x) (SetOrgStripeCustomer orgID customer m) else (False, m))"

definition onSubscriptionUpsert :: "BillingConfig \<Rightarrow> gotime \<Rightarrow> string \<Rightarrow> StripeEvent \<Rightarrow> MemStore \<Rightarrow> bool \<times> MemStore" where
  "onSubscriptionUpsert c t nid e m =
     (case evSub e of
        None \<Rightarrow> (True, m)
      | Some sub \<Rightarrow>
          (case resolveOrgID (soMetadata sub) (soCustomer sub) m of
             Inl err \<Rightarrow> (True, m)
           | Inr orgID \<Rightarrow>
               (case syncCustomer orgID (soCustomer sub) m of
                  (True, m1) \<Rightarrow> (True, m1)
                | (False, m1) \<Rightarrow>
                    let plan = planForSubscription c sub;
                        m2 = snd (UpsertSubscription t nid
                               \<lparr>sbID = '''', sbOrgID = orgID, StripeSubID = soID sub, sbStripeCustomerID = soCustomer sub, sbPlan = plan,
                                sbStatus = soStatus sub, CurrentPeriodEnd = PeriodEnd sub, CancelAtPeriodEnd = soCancelAtPeriodEnd sub,
                                sbCreatedAt = 0, sbUpdatedAt = 0\<rparr> m1);
                        target = derivePlan (soStatus sub) plan
                    in if target \<noteq> '''' then map_prod isl (\<lambda>x. x) (UpdateOrgPlan orgID target m2) else (False, m2))))"

definition onSubscriptionDeleted :: "StripeEvent \<Rightarrow> MemStore \<Rightarrow> bool \<times> MemStore" where
  "onSubscriptionDeleted e m =
     (case evSub e of
        None \<Rightarrow> (True, m)
      | Some sub \<Rightarrow>
          (case resolveOrgID (soMetadata sub) (soCustomer sub) m of
             Inl err \<Rightarrow> (True, m)
           | Inr orgID \<Rightarrow>
               (case UpdateOrgPlan orgID PlanFree m of
                  (Inl err, m1) \<Rightarrow> (True, m1)
                | (Inr _, m1) \<Rightarrow>
                    (case DeleteSubscription (soID sub) m1 of
                       (Inl err, m2) \<Rightarrow> (err \<noteq> ErrNotFound, m2)
                     | (Inr _, m2) \<Rightarrow> (False, m2)))))"

text \<open>The organisation and subscription of an invoice: \<open>None\<close> when there is nothing to do.\<close>

definition invoiceSub :: "InvoiceObject \<Rightarrow> MemStore \<Rightarrow> (Org \<times> Subscription) option" where
  "invoiceSub iv m =
     (if ioCustomer iv = '''' then None
      else (case GetOrgByStripeCustomer (ioCustomer iv) m of
              Inl _ \<Rightarrow> None
            | Inr og \<Rightarrow> (case GetSubscriptionForOrg (orID og) m of Inl _ \<Rightarrow> None | Inr sub \<Rightarrow> Some (og, sub))))"

definition onInvoicePaid :: "gotime \<Rightarrow> string \<Rightarrow> StripeEvent \<Rightarrow> MemStore \<Rightarrow> bool \<times> MemStore" where
  "onInvoicePaid t nid e m =
     (case evInvoice e of
        None \<Rightarrow> (True, m)
      | Some iv \<Rightarrow>
          (case invoiceSub iv m of
             None \<Rightarrow> (False, m)
           | Some (og, sub) \<Rightarrow>
               let m1 = (if sbStatus sub = ''past_due'' \<or> sbStatus sub = ''unpaid''
                         then snd (UpsertSubscription t nid (sub\<lparr>sbStatus := ''active''\<rparr>) m) else m)
               in if sbPlan sub \<noteq> '''' then map_prod isl (\<lambda>x. x) (UpdateOrgPlan (orID og) (sbPlan sub) m1) else (False, m1)))"

definition onInvoicePaymentFailed :: "gotime \<Rightarrow> string \<Rightarrow> StripeEvent \<Rightarrow> MemStore \<Rightarrow> bool \<times> MemStore" where
  "onInvoicePaymentFailed t nid e m =
     (case evInvoice e of
        None \<Rightarrow> (True, m)
      | Some iv \<Rightarrow>
          (case invoiceSub iv m of
             None \<Rightarrow> (False, m)
           | Some (og, sub) \<Rightarrow> (False, snd (UpsertSubscription t nid (sub\<lparr>sbStatus := ''past_due''\<rparr>) m))))"

definition dispatch :: "BillingConfig \<Rightarrow> gotime \<Rightarrow> string \<Rightarrow> StripeEvent \<Rightarrow> MemStore \<Rightarrow> bool \<times> MemStore" where
  "dispatch c t nid e m =
     (if evType e = ''checkout.session.completed'' then onCheckoutCompleted e m
      else if evType e = ''customer.subscription.created'' \<or> evType e = ''customer.subscription.updated''
      then onSubscriptionUpsert c t nid e m
      else if evType e = ''customer.subscription.deleted'' then onSubscriptionDeleted e m
      else if evType e = ''invoice.paid'' \<or> evType e = ''invoice.payment_succeeded'' then onInvoicePaid t nid e m
      else if evType e = ''invoice.payment_failed'' then onInvoicePaymentFailed t nid e m
      else (False, m))"

text \<open>\<open>parse\<close> is \<^verbatim>\<open>ParseEvent\<close>. The body is at most 1 MiB of what was sent.\<close>

definition HandleWebhook ::
  "hmac \<Rightarrow> (string \<Rightarrow> StripeEvent option) \<Rightarrow> BillingConfig \<Rightarrow> gotime \<Rightarrow> string \<Rightarrow> string \<Rightarrow> string \<Rightarrow> MemStore
     \<Rightarrow> (int \<times> string) \<times> MemStore" where
  "HandleWebhook hmac parse c t nid raw hdr m =
     (let body = take (2 ^ 20) raw in
      if WebhookSecret c = '''' then ((503, ''webhook secret not configured''), m)
      else if VerifySignature hmac t body hdr (WebhookSecret c) (WebhookTolerance c) \<noteq> None then ((400, ''invalid signature''), m)
      else (case parse body of
              None \<Rightarrow> ((400, ''invalid event''), m)
            | Some e \<Rightarrow>
                (case MarkEventProcessed (evID e) m of
                   (False, m1) \<Rightarrow> ((200, ''duplicate_ignored''), m1)
                 | (True, m1) \<Rightarrow>
                     (case dispatch c t nid e m1 of
                        (True, m2) \<Rightarrow> ((500, ''handler error''), m2)
                      | (False, m2) \<Rightarrow> ((200, ''ok''), m2)))))"

section \<open>Checkout and portal\<close>

text \<open>What is asked of Stripe, and its answers.\<close>

record CheckoutParams =
  cpCustomerID :: string
  cpPriceID :: string
  cpSuccessURL :: string
  cpCancelURL :: string
  cpOrgID :: string
  cpTrialDays :: int
  cpAllowPromoCodes :: bool
  cpMeteredPrice :: bool

record StripeAPI =
  apiCreateCustomer :: "string \<Rightarrow> string \<Rightarrow> string \<Rightarrow> string option"
  apiCheckout :: "CheckoutParams \<Rightarrow> (string \<times> string) option"
  apiPortal :: "string \<Rightarrow> string \<Rightarrow> (string \<times> string) option"
  apiMeter :: "string \<Rightarrow> string \<Rightarrow> int \<Rightarrow> string \<Rightarrow> gotime \<Rightarrow> bool"

definition ownerContact :: "string \<Rightarrow> MemStore \<Rightarrow> string \<times> string" where
  "ownerContact orgID m =
     (let ms = ListOrgMembers orgID m;
          userID = (case find (\<lambda>x. Role x = ''owner'') ms of
                      Some x \<Rightarrow> omUserID x
                    | None \<Rightarrow> (case find (\<lambda>x. omUserID x \<noteq> '''') ms of Some x \<Rightarrow> omUserID x | None \<Rightarrow> ''''))
      in if userID = '''' then ('''', '''')
         else (case GetUser userID m of Inl _ \<Rightarrow> ('''', '''') | Inr u \<Rightarrow> (Email u, usName u)))"

definition resolveCustomer :: "StripeAPI \<Rightarrow> BillingConfig \<Rightarrow> string \<Rightarrow> MemStore \<Rightarrow> string option \<times> MemStore" where
  "resolveCustomer api c orgID m =
     (if \<not> Enabled c then (None, m)
      else (case GetOrg orgID m of
              Inl _ \<Rightarrow> (None, m)
            | Inr og \<Rightarrow>
                if StripeCustomerID og \<noteq> '''' then (Some (StripeCustomerID og), m)
                else (case ownerContact orgID m of
                        (email, name) \<Rightarrow>
                          (case apiCreateCustomer api email name orgID of
                             None \<Rightarrow> (None, m)
                           | Some cust \<Rightarrow>
                               (case SetOrgStripeCustomer orgID cust m of
                                  (Inl _, m1) \<Rightarrow> (None, m1)
                                | (Inr _, m1) \<Rightarrow> (Some cust, m1))))))"

definition HandleCheckout :: "StripeAPI \<Rightarrow> BillingConfig \<Rightarrow> string \<Rightarrow> string \<Rightarrow> string \<Rightarrow> MemStore \<Rightarrow> (int \<times> string) \<times> MemStore" where
  "HandleCheckout api c orgID planCode cadence0 m =
     (if \<not> Enabled c then ((503, ''billing: Stripe is not configured''), m)
      else
        let cadence = (if cadence0 = '''' then ''monthly'' else cadence0) in
        (case gget Catalog planCode of
           None \<Rightarrow> ((400, ''unknown or non-billable plan''), m)
         | Some plan \<Rightarrow>
             if pCode plan = PlanFree then ((400, ''unknown or non-billable plan''), m)
             else
               let priceID = PriceID c planCode cadence in
               if priceID = '''' then ((400, ''no Stripe price configured for this plan/cadence''), m)
               else (case resolveCustomer api c orgID m of
                       (None, m1) \<Rightarrow> ((502, ''could not create billing customer''), m1)
                     | (Some cust, m1) \<Rightarrow>
                         (case apiCheckout api \<lparr>cpCustomerID = cust, cpPriceID = priceID, cpSuccessURL = SuccessURL c,
                                 cpCancelURL = CancelURL c, cpOrgID = orgID,
                                 cpTrialDays = (if pCode plan = PlanPro then TrialDays c else 0), cpAllowPromoCodes = True,
                                 cpMeteredPrice = (cadence = ''metered'' \<or> Metered plan)\<rparr> of
                            None \<Rightarrow> ((502, ''could not create checkout session''), m1)
                          | Some (sid, url) \<Rightarrow> ((200, url), m1)))))"

definition HandlePortal :: "StripeAPI \<Rightarrow> BillingConfig \<Rightarrow> string \<Rightarrow> MemStore \<Rightarrow> int \<times> string" where
  "HandlePortal api c orgID m =
     (if \<not> Enabled c then (503, ''billing: Stripe is not configured'')
      else (case GetOrg orgID m of
              Inl _ \<Rightarrow> (500, ''org lookup failed'')
            | Inr og \<Rightarrow>
                if StripeCustomerID og = '''' then (400, ''no subscription to manage yet'')
                else (case apiPortal api (StripeCustomerID og) (PortalReturnURL c) of
                        None \<Rightarrow> (502, ''could not create portal session'')
                      | Some (sid, url) \<Rightarrow> (200, url))))"

text \<open>The plan, whether billing is on, and the subscription if there is one; \<open>None\<close> is a failed lookup.\<close>

definition HandleSubscription :: "BillingConfig \<Rightarrow> string \<Rightarrow> MemStore \<Rightarrow> (string \<times> bool \<times> Subscription option) option" where
  "HandleSubscription c orgID m =
     (case GetOrg orgID m of
        Inl _ \<Rightarrow> None
      | Inr og \<Rightarrow> Some (orPlan og, Enabled c, case GetSubscriptionForOrg orgID m of Inl _ \<Rightarrow> None | Inr s \<Rightarrow> Some s))"

section \<open>Metering\<close>

text \<open>The rows a collection creates for one organisation. The in-memory store only ever reports a conflict.\<close>

definition collectMetric :: "gotime \<Rightarrow> string \<Rightarrow> gotime \<Rightarrow> gotime \<Rightarrow> nat \<times> MemStore \<Rightarrow> string \<times> int \<Rightarrow> nat \<times> MemStore" where
  "collectMetric t orgID start fin s q =
     (case s of (created, m) \<Rightarrow>
        if snd q \<le> 0 then (created, m)
        else (case InsertMeteredUsage t \<lparr>muID = 0, muOrgID = orgID, Metric = fst q, Quantity = snd q, muWindowStart = start,
                     muWindowEnd = fin, ReportedAt = None, muCreatedAt = 0\<rparr> m of
                (Inl _, m1) \<Rightarrow> (created, m1)
              | (Inr _, m1) \<Rightarrow> (created + 1, m1)))"

definition collectForOrg :: "gotime \<Rightarrow> string \<Rightarrow> gotime \<Rightarrow> gotime \<Rightarrow> MemStore \<Rightarrow> nat \<times> MemStore" where
  "collectForOrg t orgID start fin m =
     (let u = UsageForOrg t orgID start m in
      foldl (collectMetric t orgID start fin) (0, m) [(MetricBandwidth, urBytesIn u + urBytesOut u), (MetricRequests, urRequests u)])"

definition CollectMeteredUsage :: "gotime \<Rightarrow> gotime \<Rightarrow> gotime \<Rightarrow> MemStore \<Rightarrow> nat \<times> MemStore" where
  "CollectMeteredUsage t start fin m =
     foldl (\<lambda>(created, m) og. case collectForOrg t (orID og) start fin m of (n, m1) \<Rightarrow> (created + n, m1))
       (0, m) (OrgsByPlan PlanPAYG m)"

text \<open>Seconds since the Unix epoch, rounded down.\<close>

definition unix :: "gotime \<Rightarrow> int" where
  "unix t = t div second - 62135596800"

definition meterIdentifier :: "MeteredUsage \<Rightarrow> string" where
  "meterIdentifier u = ''mu_'' @ muOrgID u @ ''_'' @ Metric u @ ''_'' @ show_int (unix (muWindowStart u))"

text \<open>The rows that are sent, and the store afterwards.\<close>

definition pushRow :: "StripeAPI \<Rightarrow> BillingConfig \<Rightarrow> MemStore \<Rightarrow> MeteredUsage \<Rightarrow> bool" where
  "pushRow api c m u =
     (let name = MeterEventName c (Metric u) in
      if name = '''' then False
      else (case GetOrg (muOrgID u) m of
              Inl _ \<Rightarrow> False
            | Inr og \<Rightarrow>
                if StripeCustomerID og = '''' then False
                else apiMeter api name (StripeCustomerID og) (Quantity u) (meterIdentifier u) (muWindowEnd u)))"

definition FlushMeteredUsage :: "StripeAPI \<Rightarrow> BillingConfig \<Rightarrow> gotime \<Rightarrow> MemStore \<Rightarrow> MeteredUsage list \<times> MemStore" where
  "FlushMeteredUsage api c t m =
     (if \<not> Enabled c then ([], m)
      else
        let rows = filter (pushRow api c m) (PendingMeteredUsage 500 m) in
        (rows, if rows = [] then m else MarkMeteredUsageReported (map muID rows) t m))"

text \<open>One tick of \<^verbatim>\<open>RunMeteringLoop\<close>.\<close>

definition meteringTick :: "StripeAPI \<Rightarrow> BillingConfig \<Rightarrow> gotime \<Rightarrow> MemStore \<Rightarrow> MeteredUsage list \<times> MemStore" where
  "meteringTick api c t m = FlushMeteredUsage api c t (snd (CollectMeteredUsage t (monthStart t) t m))"

section \<open>The client of the Stripe API\<close>

text \<open>
  A request of the client, and the transport that sends it: \<open>None\<close> is a failure to reach Stripe. The form is encoded by
  \<^verbatim>\<open>url.Values.Encode\<close>, which sorts it by key, so its order here is immaterial.
\<close>

record StripeRequest =
  srURL :: string
  srUser :: string
  srForm :: "(string, string) gomap"
  srIdempotencyKey :: "string option"

datatype stripe_error = StripeTransport | StripeError int string | StripeDecode

record StripeClient =
  scSecretKey :: string
  scBaseURL :: string
  scDo :: "StripeRequest \<Rightarrow> (int \<times> string) option"
  scDecodeID :: "string \<Rightarrow> string option"
  scDecodeSession :: "string \<Rightarrow> (string \<times> string) option"

definition newStripeClient ::
  "(StripeRequest \<Rightarrow> (int \<times> string) option) \<Rightarrow> (string \<Rightarrow> string option) \<Rightarrow> (string \<Rightarrow> (string \<times> string) option) \<Rightarrow> string \<Rightarrow> StripeClient" where
  "newStripeClient http dID dSession secretKey =
     \<lparr>scSecretKey = secretKey, scBaseURL = ''https://api.stripe.com'', scDo = http, scDecodeID = dID, scDecodeSession = dSession\<rparr>"

definition stripe_post :: "StripeClient \<Rightarrow> string \<Rightarrow> (string, string) gomap \<Rightarrow> string \<Rightarrow> stripe_error + string" where
  "stripe_post c path form idempotencyKey =
     (case scDo c \<lparr>srURL = scBaseURL c @ path, srUser = scSecretKey c, srForm = form,
                   srIdempotencyKey = (if idempotencyKey \<noteq> '''' then Some idempotencyKey else None)\<rparr> of
        None \<Rightarrow> Inl StripeTransport
      | Some (status, body) \<Rightarrow>
          if status < 200 \<or> status \<ge> 300 then Inl (StripeError status (take (2 ^ 20) body)) else Inr (take (2 ^ 20) body))"

definition set_if :: "bool \<Rightarrow> string \<Rightarrow> string \<Rightarrow> (string, string) gomap \<Rightarrow> (string, string) gomap" where
  "set_if b k v form = (if b then gset k v form else form)"

definition CreateCustomer :: "StripeClient \<Rightarrow> string \<Rightarrow> string \<Rightarrow> string \<Rightarrow> stripe_error + string" where
  "CreateCustomer c email name orgID =
     (let form = set_if (orgID \<noteq> '''') ''metadata[org_id]'' orgID (set_if (name \<noteq> '''') ''name'' name (set_if (email \<noteq> '''') ''email'' email []))
      in case stripe_post c ''/v1/customers'' form '''' of
           Inl e \<Rightarrow> Inl e
         | Inr body \<Rightarrow> (case scDecodeID c body of None \<Rightarrow> Inl StripeDecode | Some i \<Rightarrow> Inr i))"

definition checkoutForm :: "CheckoutParams \<Rightarrow> (string, string) gomap" where
  "checkoutForm p =
     (let f1 = gset ''line_items[0][price]'' (cpPriceID p) (gset ''customer'' (cpCustomerID p) (gset ''mode'' ''subscription'' []));
          f2 = set_if (\<not> cpMeteredPrice p) ''line_items[0][quantity]'' ''1'' f1;
          f3 = gset ''cancel_url'' (cpCancelURL p) (gset ''success_url'' (cpSuccessURL p) f2);
          f4 = set_if (cpOrgID p \<noteq> '''') ''subscription_data[metadata][org_id]'' (cpOrgID p)
                 (set_if (cpOrgID p \<noteq> '''') ''client_reference_id'' (cpOrgID p) f3);
          f5 = set_if (cpTrialDays p > 0) ''subscription_data[trial_period_days]'' (show_int (cpTrialDays p)) f4
      in set_if (cpAllowPromoCodes p) ''allow_promotion_codes'' ''true'' f5)"

definition decodeSession :: "StripeClient \<Rightarrow> stripe_error + string \<Rightarrow> stripe_error + string \<times> string" where
  "decodeSession c r =
     (case r of Inl e \<Rightarrow> Inl e
      | Inr body \<Rightarrow> (case scDecodeSession c body of None \<Rightarrow> Inl StripeDecode | Some s \<Rightarrow> Inr s))"

definition CreateCheckoutSession :: "StripeClient \<Rightarrow> CheckoutParams \<Rightarrow> stripe_error + string \<times> string" where
  "CreateCheckoutSession c p = decodeSession c (stripe_post c ''/v1/checkout/sessions'' (checkoutForm p) '''')"

definition CreatePortalSession :: "StripeClient \<Rightarrow> string \<Rightarrow> string \<Rightarrow> stripe_error + string \<times> string" where
  "CreatePortalSession c customerID returnURL =
     decodeSession c (stripe_post c ''/v1/billing_portal/sessions''
       (gset ''return_url'' returnURL (gset ''customer'' customerID [])) '''')"

definition CreateMeterEvent :: "StripeClient \<Rightarrow> string \<Rightarrow> string \<Rightarrow> int \<Rightarrow> string \<Rightarrow> gotime \<Rightarrow> stripe_error + unit" where
  "CreateMeterEvent c eventName customerID value identifier timestamp =
     (let f1 = gset ''payload[value]'' (show_int value) (gset ''payload[stripe_customer_id]'' customerID (gset ''event_name'' eventName []));
          f2 = set_if (timestamp \<noteq> 0) ''timestamp'' (show_int (unix timestamp)) f1;
          f3 = set_if (identifier \<noteq> '''') ''identifier'' identifier f2
      in case stripe_post c ''/v1/billing/meter_events'' f3 identifier of Inl e \<Rightarrow> Inl e | Inr _ \<Rightarrow> Inr ())"

text \<open>The client as the interface the service calls.\<close>

definition the_ok :: "'e + 'a \<Rightarrow> 'a option" where
  "the_ok r = (case r of Inl _ \<Rightarrow> None | Inr x \<Rightarrow> Some x)"

definition client_api :: "StripeClient \<Rightarrow> StripeAPI" where
  "client_api c =
     \<lparr>apiCreateCustomer = (\<lambda>email name orgID. the_ok (CreateCustomer c email name orgID)),
      apiCheckout = (\<lambda>p. the_ok (CreateCheckoutSession c p)),
      apiPortal = (\<lambda>cu ret. the_ok (CreatePortalSession c cu ret)),
      apiMeter = (\<lambda>n cu q i t. the_ok (CreateMeterEvent c n cu q i t) \<noteq> None)\<rparr>"

end
