(* ===== verification/BillingSafety.thy ===== *)
theory BillingSafety
  imports Billing
begin

text \<open>
  Billing is safe: signatures round-trip, webhook events are authentic and take effect at most once, a window of
  metered usage is billed once, and what the deletion of a replaced subscription does.
\<close>

section \<open>A signed payload is accepted\<close>

lemma sig_parts_signed:
  assumes "\<forall>c \<in> set a \<union> set b. c \<noteq> CHR '','' \<and> \<not> is_space c"
  shows "sig_parts (''t='' @ a @ '',v1='' @ b) = [(''t'', a), (''v1'', b)]"
proof -
  have 1: "split_byte CHR '','' ((''t='' @ a) @ CHR '','' # (''v1='' @ b)) = [''t='' @ a, ''v1='' @ b]"
  proof -
    have "CHR '','' \<notin> set (''t='' @ a)" "CHR '','' \<notin> set (''v1='' @ b)" using assms by auto
    then show ?thesis by (metis split_byte_append split_byte_last)
  qed
  have "trim_space (''t='' @ a) = ''t='' @ a" "trim_space (''v1='' @ b) = ''v1='' @ b"
  proof -
    have "\<not> is_space CHR ''t''" "\<not> is_space CHR ''v''" "\<not> is_space CHR ''1''" "\<not> is_space CHR ''=''"
      by (simp_all add: is_space_def)
    with assms show "trim_space (''t='' @ a) = ''t='' @ a" "trim_space (''v1='' @ b) = ''v1='' @ b"
      by (simp_all add: trim_space_id)
  qed
  with 1 show ?thesis by (simp add: sig_parts_def List.map_filter_def)
qed

lemma SignPayload_parts:
  "sig_parts (SignPayload hmac payload secret ts) =
     [(''t'', show_int ts), (''v1'', hex_encode (hmac secret (show_int ts @ ''.'' @ payload)))]"
proof -
  have ok: "c \<noteq> CHR '','' \<and> \<not> is_space c" if "c = CHR ''-'' \<or> 48 \<le> (of_char c :: nat)" for c
    using that by (auto simp: is_space_def)
  have "c \<noteq> CHR '','' \<and> \<not> is_space c" if "c \<in> set (show_int ts) \<union> set (hex_encode bs)" for c bs
    using that show_int_chars [of c ts] hex_encode_range [of c bs] by (intro ok) auto
  then show ?thesis unfolding SignPayload_def by (intro sig_parts_signed ballI)
qed

lemma VerifySignature_SignPayload:
  assumes "secret \<noteq> ''''" "- (2 ^ 63) \<le> ts" "ts < 2 ^ 63" "\<bar>t - unix_time ts\<bar> \<le> tolerance"
  shows "VerifySignature hmac t payload (SignPayload hmac payload secret ts) secret tolerance = None"
proof -
  have "show_int ts \<noteq> ''''" by (simp add: show_int_def show_nat_nonempty)
  with assms show ?thesis
    by (simp add: VerifySignature_def sig_ts_def sig_v1s_def SignPayload_parts atoi_show_int abs_le_iff)
qed

section \<open>Webhooks are authentic and take effect once\<close>

lemma map_prod_events: "events (snd (map_prod f (\<lambda>x. x) p)) = events (snd p)"
  by (cases p) simp

lemma upd_org_events [simp]: "events (snd (upd_org i f m)) = events m"
  by (simp add: upd_org_def split: option.splits)

lemma billing_events [simp]:
  "events (snd (UpdateOrgPlan i p m)) = events m"
  "events (snd (SetOrgStripeCustomer i cu m)) = events m"
  "events (snd (UpsertSubscription t nid s m)) = events m"
  "events (snd (DeleteSubscription k m)) = events m"
  by (simp_all add: UpdateOrgPlan_def SetOrgStripeCustomer_def UpsertSubscription_def DeleteSubscription_def Let_def
      split: option.splits)

lemma syncCustomer_events: "events (snd (syncCustomer i cu m)) = events m"
  by (simp add: syncCustomer_def map_prod_events)

lemma onSubscriptionUpsert_events: "events (snd (onSubscriptionUpsert c t nid e m)) = events m"
proof -
  have "syncCustomer i cu m = (b, m1) \<Longrightarrow> events m1 = events m" for i cu b m1
    using syncCustomer_events [of i cu m] by simp
  then show ?thesis
    by (auto simp: onSubscriptionUpsert_def Let_def map_prod_events split: option.splits sum.splits prod.splits bool.splits)
qed

lemma onSubscriptionDeleted_events: "events (snd (onSubscriptionDeleted e m)) = events m"
proof -
  have "UpdateOrgPlan i PlanFree m = (r, m1) \<Longrightarrow> DeleteSubscription k m1 = (r', m2) \<Longrightarrow> events m2 = events m"
    "UpdateOrgPlan i PlanFree m = (r, m1) \<Longrightarrow> events m1 = events m" for i r m1 k r' m2
    using billing_events(1) [of i PlanFree m] billing_events(4) [of k m1] by simp_all
  then show ?thesis
    by (auto simp: onSubscriptionDeleted_def split: option.splits sum.splits prod.splits)
qed

lemma dispatch_events: "events (snd (dispatch c t nid e m)) = events m"
  by (simp add: dispatch_def onSubscriptionUpsert_events onSubscriptionDeleted_events onCheckoutCompleted_def
      onInvoicePaid_def onInvoicePaymentFailed_def map_prod_events Let_def split: option.splits)

lemma HandleWebhook_events:
  "gget (events m) i = Some True \<Longrightarrow> gget (events (snd (HandleWebhook hmac parse c t nid raw hdr m))) i = Some True"
proof -
  assume i: "gget (events m) i = Some True"
  have "gget (events m1) i = Some True" if "MarkEventProcessed k m = (b, m1)" for k b m1
    using that i by (auto simp: MarkEventProcessed_def split: if_splits)
  moreover have "dispatch c t nid e m1 = (b, m2) \<Longrightarrow> events m2 = events m1" for e m1 b m2
    using dispatch_events [of c t nid e m1] by simp
  ultimately show ?thesis
    using i by (auto simp: HandleWebhook_def Let_def split: option.splits prod.splits bool.splits)
qed

text \<open>A delivery: the time, a fresh id, the body and the signature header. \<open>webhooks\<close> lists the stores after each.\<close>

type_synonym delivery = "gotime \<times> string \<times> string \<times> string"

fun webhooks :: "hmac \<Rightarrow> (string \<Rightarrow> StripeEvent option) \<Rightarrow> BillingConfig \<Rightarrow> delivery list \<Rightarrow> MemStore \<Rightarrow> ((int \<times> string) \<times> MemStore) list" where
  "webhooks hmac parse c [] m = []"
| "webhooks hmac parse c ((t, nid, raw, hdr) # ds) m =
     (let r = HandleWebhook hmac parse c t nid raw hdr m in r # webhooks hmac parse c ds (snd r))"

lemma HandleWebhook_marks:
  assumes "HandleWebhook hmac parse c t nid raw hdr m = ((st, msg), m')" "st = 500 \<or> st = 200"
    "parse (take (2 ^ 20) raw) = Some e" "evID e \<noteq> ''''"
  shows "gget (events m') (evID e) = Some True"
proof -
  have d: "dispatch c t nid e m1 = (b, m2) \<Longrightarrow> events m2 = events m1" for m1 b m2
    using dispatch_events [of c t nid e m1] by simp
  have k: "gget (events m1) (evID e) = Some True" if "MarkEventProcessed (evID e) m = (b, m1)" for b m1
    using that assms(4) by (auto simp: MarkEventProcessed_def split: if_splits)
  show ?thesis
    using assms d k by (auto simp: HandleWebhook_def Let_def split: option.splits prod.splits bool.splits if_splits)
qed

lemma HandleWebhook_duplicate:
  assumes "parse (take (2 ^ 20) raw) = Some e" "gget (events m) (evID e) = Some True" "evID e \<noteq> ''''"
  shows "snd (HandleWebhook hmac parse c t nid raw hdr m) = m"
  using assms by (simp add: HandleWebhook_def Let_def MarkEventProcessed_def split: option.splits)

lemma webhooks_duplicate:
  assumes "gget (events m) (evID e) = Some True" "evID e \<noteq> ''''" "i < length ds"
    "ds ! i = (t, nid, raw, hdr)" "parse (take (2 ^ 20) raw) = Some e"
  shows "snd (webhooks hmac parse c ds m ! i) = (if i = 0 then m else snd (webhooks hmac parse c ds m ! (i - 1)))"
  using assms
proof (induction ds arbitrary: m i)
  case (Cons d ds)
  obtain t' nid' raw' hdr' where d: "d = (t', nid', raw', hdr')" by (cases d)
  show ?case
  proof (cases i)
    case 0
    with Cons.prems d show ?thesis by (simp add: Let_def HandleWebhook_duplicate)
  next
    case (Suc j)
    with Cons.prems d Cons.IH [of "snd (HandleWebhook hmac parse c t' nid' raw' hdr' m)" j]
    show ?thesis by (cases j) (simp_all add: Let_def HandleWebhook_events)
  qed
qed simp

lemma HandleWebhook_authentic:
  assumes "snd (HandleWebhook hmac parse c t nid raw hdr m) \<noteq> m"
  shows "WebhookSecret c \<noteq> ''''"
    "hex_encode (hmac (WebhookSecret c) (sig_ts hdr @ ''.'' @ take (2 ^ 20) raw)) \<in> set (sig_v1s hdr)"
    "\<exists>ts. atoi (sig_ts hdr) = Some ts \<and> (WebhookTolerance c > 0 \<longrightarrow> \<bar>t - unix_time ts\<bar> \<le> WebhookTolerance c)"
  using assms by (auto simp: HandleWebhook_def VerifySignature_def Let_def abs_le_iff split: if_splits option.splits)

text \<open>The store as delivery number \<open>k\<close> finds it.\<close>

definition store_before :: "hmac \<Rightarrow> (string \<Rightarrow> StripeEvent option) \<Rightarrow> BillingConfig \<Rightarrow> delivery list \<Rightarrow> MemStore \<Rightarrow> nat \<Rightarrow> MemStore" where
  "store_before hmac parse c ds m k = (if k = 0 then m else snd (webhooks hmac parse c ds m ! (k - 1)))"

lemma webhooks_nth:
  "k < length ds \<Longrightarrow> ds ! k = (t, nid, raw, hdr) \<Longrightarrow>
     webhooks hmac parse c ds m ! k = HandleWebhook hmac parse c t nid raw hdr (store_before hmac parse c ds m k)"
proof (induction ds arbitrary: m k)
  case (Cons d ds)
  then show ?case by (cases d; cases k) (auto simp: Let_def store_before_def nth_Cons' split: if_splits)
qed simp

lemma webhooks_drop:
  "i < length ds \<Longrightarrow> drop (Suc i) (webhooks hmac parse c ds m) = webhooks hmac parse c (drop (Suc i) ds) (snd (webhooks hmac parse c ds m ! i))"
proof (induction ds arbitrary: m i)
  case (Cons d ds)
  then show ?case by (cases d; cases i) (auto simp: Let_def)
qed simp

lemma length_webhooks [simp]: "length (webhooks hmac parse c ds m) = length ds"
  by (induction ds arbitrary: m) (auto simp: Let_def)

lemma webhooks_later:
  assumes "i < j" "j < length ds"
  shows "webhooks hmac parse c ds m ! j = webhooks hmac parse c (drop (Suc i) ds) (snd (webhooks hmac parse c ds m ! i)) ! (j - Suc i)"
  using assms webhooks_drop [of i ds hmac parse c m, symmetric] by simp

text \<open>An event that was marked is not applied again.\<close>

lemma webhook_again:
  assumes "k < length ds" "ds ! k = (t, nid, raw, hdr)" "parse (take (2 ^ 20) raw) = Some e" "evID e \<noteq> ''''"
    and "i < k" "ds ! i = (t', nid', raw', hdr')" "parse (take (2 ^ 20) raw') = Some e'" "evID e' = evID e"
    and "fst (fst (webhooks hmac parse c ds m ! i)) \<in> {200, 500}"
  shows "snd (webhooks hmac parse c ds m ! k) = store_before hmac parse c ds m k"
proof -
  let ?W = "webhooks hmac parse c ds m"
  have "?W ! i = HandleWebhook hmac parse c t' nid' raw' hdr' (store_before hmac parse c ds m i)"
    using assms by (intro webhooks_nth) simp_all
  moreover obtain st msg m' where "?W ! i = ((st, msg), m')" by (metis surj_pair)
  moreover have "st = 500 \<or> st = 200" using assms(9) \<open>?W ! i = ((st, msg), m')\<close> by auto
  ultimately have marked: "gget (events (snd (?W ! i))) (evID e) = Some True"
    using HandleWebhook_marks [of hmac parse c t' nid' raw' hdr' "store_before hmac parse c ds m i" st msg m' e'] assms(4,7,8)
    by (metis snd_conv)
  have "snd (?W ! k) = (if k - Suc i = 0 then snd (?W ! i)
      else snd (webhooks hmac parse c (drop (Suc i) ds) (snd (?W ! i)) ! (k - Suc i - 1)))"
    unfolding webhooks_later [OF \<open>i < k\<close> \<open>k < length ds\<close>]
    using webhooks_duplicate [OF marked \<open>evID e \<noteq> ''''\<close>, of "k - Suc i" "drop (Suc i) ds" t nid raw hdr] assms by simp
  also have "\<dots> = store_before hmac parse c ds m k"
  proof (cases "k = Suc i")
    case False
    with \<open>i < k\<close> have "i < k - 1" "k - 1 - Suc i = k - Suc i - 1" by simp_all
    with webhooks_later [of i "k - 1" ds hmac parse c m] assms(1) False show ?thesis by (simp add: store_before_def)
  qed (simp add: store_before_def)
  finally show ?thesis .
qed

text \<open>C28. Webhook deliveries in any order and number: a delivery changes the store only if it carries a signature under the
  configured, non-empty secret of its own timestamp and body (the first MiB), made within the tolerance where one is
  configured (a tolerance above zero); and once an event with a non-empty identifier has been answered with success, no later
  delivery of the same event changes the store.\<close>

theorem webhook_at_most_once:
  assumes "k < length ds" "ds ! k = (t, nid, raw, hdr)" "parse (take (2 ^ 20) raw) = Some e" "evID e \<noteq> ''''"
    and "i < k" "ds ! i = (t', nid', raw', hdr')" "parse (take (2 ^ 20) raw') = Some e'" "evID e' = evID e"
    and "fst (fst (webhooks hmac parse c ds m ! i)) = 200"
  shows "snd (webhooks hmac parse c ds m ! k) = store_before hmac parse c ds m k
    \<and> (\<forall>k' < length ds. snd (webhooks hmac parse c ds m ! k') \<noteq> store_before hmac parse c ds m k' \<longrightarrow>
        (case ds ! k' of (t, nid, raw, hdr) \<Rightarrow>
           WebhookSecret c \<noteq> '''' \<and>
           hex_encode (hmac (WebhookSecret c) (sig_ts hdr @ ''.'' @ take (2 ^ 20) raw)) \<in> set (sig_v1s hdr) \<and>
           (\<exists>ts. atoi (sig_ts hdr) = Some ts \<and> (WebhookTolerance c > 0 \<longrightarrow> \<bar>t - unix_time ts\<bar> \<le> WebhookTolerance c))))"
proof (intro conjI allI impI)
  show "snd (webhooks hmac parse c ds m ! k) = store_before hmac parse c ds m k"
    using webhook_again [OF assms(1-8)] assms(9) by simp
next
  fix k'
  assume "k' < length ds" "snd (webhooks hmac parse c ds m ! k') \<noteq> store_before hmac parse c ds m k'"
  then show "case ds ! k' of (t, nid, raw, hdr) \<Rightarrow>
           WebhookSecret c \<noteq> '''' \<and>
           hex_encode (hmac (WebhookSecret c) (sig_ts hdr @ ''.'' @ take (2 ^ 20) raw)) \<in> set (sig_v1s hdr) \<and>
           (\<exists>ts. atoi (sig_ts hdr) = Some ts \<and> (WebhookTolerance c > 0 \<longrightarrow> \<bar>t - unix_time ts\<bar> \<le> WebhookTolerance c))"
    using HandleWebhook_authentic [of hmac parse c _ _ _ _ "store_before hmac parse c ds m k'"]
    by (cases "ds ! k'") (simp add: webhooks_nth)
qed

text \<open>An event of a subscription whose customer is not known yet, and one that needs no handling.\<close>

definition ex_event :: StripeEvent where
  "ex_event = \<lparr>evID = ''evt_1'', evType = ''customer.subscription.updated'',
     evSub = Some \<lparr>soID = ''sub_1'', soCustomer = ''cus_1'', soStatus = ''active'', soCancelAtPeriodEnd = False,
       soCurrentPeriodEnd = 0, soItems = [''price_pro''], soMetadata = []\<rparr>, evCheckout = None, evInvoice = None\<rparr>"

definition ex_created :: StripeEvent where
  "ex_created = ex_event\<lparr>evType := ''customer.created''\<rparr>"

definition ex_billing :: BillingConfig where
  "ex_billing = DefaultBillingConfig\<lparr>WebhookSecret := ''whsec''\<rparr>"

lemma ex_signed: "VerifySignature (\<lambda>k x. []) (unix_time 0) b (SignPayload (\<lambda>k x. []) b ''whsec'' 0) ''whsec'' (WebhookTolerance ex_billing) = None"
  by (rule VerifySignature_SignPayload) (simp_all add: ex_billing_def DefaultBillingConfig_def)

theorem webhook_at_most_once_witness:
  "let d = (unix_time 0, ''x'', ''body'', SignPayload (\<lambda>k x. []) ''body'' ''whsec'' 0);
       W = webhooks (\<lambda>k x. []) (\<lambda>b. Some ex_created) ex_billing [d, d] NewMemStore
   in fst (fst (W ! 0)) = 200 \<and> snd (W ! 0) \<noteq> NewMemStore \<and> snd (W ! 1) = snd (W ! 0)"
proof -
  let ?h = "SignPayload (\<lambda>k x. []) ''body'' ''whsec'' 0"
  let ?d = "(unix_time 0, ''x'', ''body'', ?h)"
  let ?W = "webhooks (\<lambda>k x. []) (\<lambda>b. Some ex_created) ex_billing [?d, ?d] NewMemStore"
  have "fst (fst (?W ! 0)) = 200" "events (snd (?W ! 0)) \<noteq> events NewMemStore"
    using ex_signed [of "''body''"]
    by (simp_all add: HandleWebhook_def Let_def ex_event_def ex_created_def MarkEventProcessed_def dispatch_def NewMemStore_def)
      (simp_all add: ex_billing_def)
  then show ?thesis
    using webhook_at_most_once [of 1 "[?d, ?d]" "unix_time 0" "''x''" "''body''" ?h "\<lambda>b. Some ex_created" ex_created 0
        "unix_time 0" "''x''" "''body''" ?h ex_created "\<lambda>k x. []" ex_billing NewMemStore]
    by (auto simp: Let_def store_before_def ex_created_def ex_event_def)
qed

text \<open>A handler that fails answers 500, so that Stripe delivers the event again; that delivery is ignored too, the event
  being marked before it is handled.\<close>

lemma failed_event_is_not_retried:
  fixes d
  defines "d \<equiv> (unix_time 0, ''x'', ''body'', SignPayload (\<lambda>k x. []) ''body'' ''whsec'' 0)"
  defines "W \<equiv> webhooks (\<lambda>k x. []) (\<lambda>b. Some ex_event) ex_billing [d, d] NewMemStore"
  shows "fst (fst (W ! 0)) = 500" and "fst (W ! 1) = (200, ''duplicate_ignored'')" and "snd (W ! 1) = snd (W ! 0)"
proof -
  show 1: "fst (fst (W ! 0)) = 500"
    using ex_signed [of "''body''"] unfolding W_def d_def
    by (simp add: HandleWebhook_def Let_def ex_event_def MarkEventProcessed_def dispatch_def onSubscriptionUpsert_def
        resolveOrgID_def meta_def GetOrgByStripeCustomer_def NewMemStore_def) (simp add: ex_billing_def)
  show "fst (W ! 1) = (200, ''duplicate_ignored'')"
    using ex_signed [of "''body''"] unfolding W_def d_def
    by (simp add: HandleWebhook_def Let_def ex_event_def MarkEventProcessed_def dispatch_def onSubscriptionUpsert_def
        resolveOrgID_def meta_def GetOrgByStripeCustomer_def NewMemStore_def) (simp add: ex_billing_def)
  show "snd (W ! 1) = snd (W ! 0)"
    using webhook_again [of 1 "[d, d]" "unix_time 0" "''x''" "''body''" _ "\<lambda>b. Some ex_event" ex_event 0
        "unix_time 0" "''x''" "''body''" _ ex_event "\<lambda>k x. []" ex_billing NewMemStore] 1
    by (simp add: d_def W_def store_before_def ex_event_def)
qed

section \<open>Metered usage is billed once per window\<close>

definition mkey :: "MeteredUsage \<Rightarrow> string \<times> string \<times> gotime" where
  "mkey u = (muOrgID u, Metric u, muWindowStart u)"

definition metered_ok :: "MemStore \<Rightarrow> bool" where
  "metered_ok m \<longleftrightarrow> distinct (map mkey (metered m)) \<and> distinct (map muID (metered m)) \<and>
     (\<forall>e \<in> set (metered m). muID e \<le> meteredSeq m \<and> Metric e \<in> {MetricBandwidth, MetricRequests} \<and> second dvd muWindowStart e)"

text \<open>What a collection does to the rows: it keeps them and appends new ones.\<close>

definition collects :: "MemStore \<Rightarrow> MemStore \<Rightarrow> bool" where
  "collects m m' \<longleftrightarrow> metered_ok m \<longrightarrow> metered_ok m' \<and> (\<exists>zs. metered m' = metered m @ zs)"

lemma collects_refl [simp]: "collects m m"
  by (simp add: collects_def)

lemma collects_trans [trans]: "collects m m' \<Longrightarrow> collects m' m'' \<Longrightarrow> collects m m''"
  by (auto simp: collects_def)

lemma InsertMeteredUsage_collects:
  assumes "Metric u \<in> {MetricBandwidth, MetricRequests}" "second dvd muWindowStart u"
  shows "collects m (snd (InsertMeteredUsage t u m))"
  using assms by (fastforce simp: collects_def metered_ok_def InsertMeteredUsage_def mkey_def Let_def)

lemma foldl_collects:
  assumes "\<And>n m x. x \<in> set xs \<Longrightarrow> collects m (snd (f (n, m) x))"
  shows "collects (snd s) (snd (foldl f s xs))"
  using assms
proof (induction xs arbitrary: s)
  case (Cons x xs)
  then have "collects (snd s) (snd (f s x))" by (metis list.set_intros(1) prod.collapse)
  also have "collects (snd (f s x)) (snd (foldl f (f s x) xs))" by (rule Cons.IH) (simp add: Cons.prems)
  finally show ?case by simp
qed simp

lemma collectMetric_collects:
  assumes "fst q \<in> {MetricBandwidth, MetricRequests}" "second dvd start"
  shows "collects m (snd (collectMetric t i start fin (n, m) q))"
  using InsertMeteredUsage_collects [of "\<lparr>muID = 0, muOrgID = i, Metric = fst q, Quantity = snd q, muWindowStart = start,
      muWindowEnd = fin, ReportedAt = None, muCreatedAt = 0\<rparr>" m t] assms
  by (auto simp: collectMetric_def split: prod.splits sum.splits)

lemma collectForOrg_collects: "second dvd start \<Longrightarrow> collects m (snd (collectForOrg t i start fin m))"
  unfolding collectForOrg_def Let_def
  by (rule foldl_collects [of _ _ "(0, m)", unfolded snd_conv]) (auto intro: collectMetric_collects)

lemma CollectMeteredUsage_collects:
  assumes "second dvd start"
  shows "collects m (snd (CollectMeteredUsage t start fin m))"
proof -
  have "collectForOrg t i start fin m1 = (k, m2) \<Longrightarrow> collects m1 m2" for i m1 k m2
    using collectForOrg_collects [OF assms, of m1 t i fin] by simp
  then show ?thesis
    unfolding CollectMeteredUsage_def
    by (intro foldl_collects [of _ _ "(0, m)", unfolded snd_conv]) (auto split: prod.splits)
qed

lemma monthStart_dvd: "second dvd monthStart t"
  by (simp add: monthStart_def Let_def)

text \<open>A row apart from when it was reported.\<close>

abbreviation core :: "MeteredUsage \<Rightarrow> MeteredUsage" where
  "core u \<equiv> u\<lparr>ReportedAt := None\<rparr>"

lemma core_sel: "core u = core v \<Longrightarrow> mkey u = mkey v \<and> muID u = muID v \<and> Quantity u = Quantity v \<and> Metric u = Metric v
    \<and> muWindowStart u = muWindowStart v \<and> muOrgID u = muOrgID v"
  by (cases u; cases v) (simp add: mkey_def)

lemma metered_ok_core:
  assumes "metered_ok m" "map core (metered m') = map core (metered m)" "meteredSeq m' = meteredSeq m"
  shows "metered_ok m'"
proof -
  have sel: "map f (metered m') = map f (metered m)" if "\<And>u v. core u = core v \<Longrightarrow> f u = f v" for f :: "MeteredUsage \<Rightarrow> 'b"
  proof (rule nth_equalityI)
    show "length (map f (metered m')) = length (map f (metered m))" using arg_cong [OF assms(2), of length] by simp
    then show "i < length (map f (metered m')) \<Longrightarrow> map f (metered m') ! i = map f (metered m) ! i" for i
      using arg_cong [OF assms(2), of "\<lambda>xs. xs ! i"] that [of "metered m' ! i" "metered m ! i"]
      by (simp only: length_map nth_map)
  qed
  have "e \<in> set (metered m') \<Longrightarrow> \<exists>e' \<in> set (metered m). core e' = core e" for e
    using arg_cong [OF assms(2), of set] by (metis (no_types, lifting) image_iff list.set_map)
  then show ?thesis
    using assms(1,3) sel [of mkey] sel [of muID] core_sel unfolding metered_ok_def by metis
qed

lemma FlushMeteredUsage_rows:
  assumes "FlushMeteredUsage api c t m = (rows, m')"
  shows "map core (metered m') = map core (metered m)" "meteredSeq m' = meteredSeq m"
    "set rows \<subseteq> {e \<in> set (metered m). ReportedAt e = None}"
    "distinct (map muID (metered m)) \<Longrightarrow> distinct (map muID rows)"
    "\<forall>e \<in> set (metered m). ReportedAt e \<noteq> None \<or> e \<in> set rows \<longrightarrow>
       (\<exists>e' \<in> set (metered m'). core e' = core e \<and> ReportedAt e' \<noteq> None)"
proof -
  have r: "rows = [] \<and> m' = m \<or> rows \<noteq> [] \<and> rows = filter (pushRow api c m) (PendingMeteredUsage 500 m) \<and>
      m' = MarkMeteredUsageReported (map muID rows) t m"
    using assms by (auto simp: FlushMeteredUsage_def Let_def split: if_splits)
  then show "map core (metered m') = map core (metered m)" "meteredSeq m' = meteredSeq m"
    by (auto simp: MarkMeteredUsageReported_def)
  from r show "set rows \<subseteq> {e \<in> set (metered m). ReportedAt e = None}"
    by (auto simp: PendingMeteredUsage_def dest!: in_set_takeD)
  from r show "distinct (map muID rows)" if "distinct (map muID (metered m))"
    using that by (auto simp: PendingMeteredUsage_def distinct_map_filter take_map [symmetric])
  show "\<forall>e \<in> set (metered m). ReportedAt e \<noteq> None \<or> e \<in> set rows \<longrightarrow>
       (\<exists>e' \<in> set (metered m'). core e' = core e \<and> ReportedAt e' \<noteq> None)"
  proof (intro ballI impI)
    fix e
    assume e: "e \<in> set (metered m)" "ReportedAt e \<noteq> None \<or> e \<in> set rows"
    let ?mark = "\<lambda>e. if muID e \<in> set (map muID rows) then e\<lparr>ReportedAt := Some t\<rparr> else e"
    have "core (?mark e) = core e" "ReportedAt (?mark e) \<noteq> None" using e(2) by auto
    moreover have "?mark e \<in> set (metered m')"
    proof (cases "rows = []")
      case True
      with r e show ?thesis by simp
    next
      case False
      with r have "metered m' = map ?mark (metered m)" by (simp only: MarkMeteredUsageReported_def) simp
      with e show ?thesis by (simp only: list.set_map) (rule imageI)
    qed
    ultimately show "\<exists>e' \<in> set (metered m'). core e' = core e \<and> ReportedAt e' \<noteq> None" by blast
  qed
qed

text \<open>
  The life of the metering loop. Between its ticks the rest of the control plane changes the store, but nothing else
  writes rows of metered usage. Stripe answers every tick (\<open>api\<close>) as it likes. \<open>L\<close> is the list of rows it accepted.
\<close>

inductive meter_run :: "BillingConfig \<Rightarrow> MemStore \<Rightarrow> MeteredUsage list \<Rightarrow> MemStore \<Rightarrow> bool" for c m where
  meter_start: "meter_run c m [] m"
| meter_tick: "meter_run c m L m1 \<Longrightarrow> meteringTick api c t m1 = (rows, m2) \<Longrightarrow> meter_run c m (L @ rows) m2"
| meter_other: "meter_run c m L m1 \<Longrightarrow> metered m2 = metered m1 \<Longrightarrow> meteredSeq m2 = meteredSeq m1 \<Longrightarrow> meter_run c m L m2"

definition sent_ok :: "MeteredUsage list \<Rightarrow> MemStore \<Rightarrow> bool" where
  "sent_ok L m \<longleftrightarrow> distinct (map muID L) \<and> (\<forall>r \<in> set L. \<exists>e \<in> set (metered m). core e = core r \<and> ReportedAt e \<noteq> None)"

lemma sent_ok_tick:
  assumes tick: "meteringTick api c t m1 = (rows, m2)" and ok: "metered_ok m1" and sent: "sent_ok L m1"
  shows "metered_ok m2" "sent_ok (L @ rows) m2" "\<exists>zs. map core (metered m2) = map core (metered m1) @ zs"
proof -
  define mc where "mc = snd (CollectMeteredUsage t (monthStart t) t m1)"
  have "collects m1 mc" unfolding mc_def by (rule CollectMeteredUsage_collects [OF monthStart_dvd])
  with ok obtain zs where mc: "metered_ok mc" "metered mc = metered m1 @ zs" by (auto simp: collects_def)
  have "FlushMeteredUsage api c t mc = (rows, m2)" using tick by (simp add: meteringTick_def mc_def)
  note fl = FlushMeteredUsage_rows [OF this]
  show "metered_ok m2" using metered_ok_core [OF mc(1) fl(1,2)] .
  have "map core (metered m2) = map core (metered m1) @ map core zs" using fl(1) mc(2) by simp
  then show "\<exists>zs. map core (metered m2) = map core (metered m1) @ zs" by blast
  have d: "distinct (map muID (metered mc))" using mc(1) by (simp add: metered_ok_def)
  have rep: "\<exists>e \<in> set (metered mc). core e = core r \<and> ReportedAt e \<noteq> None" if "r \<in> set L" for r
    using sent that mc(2) unfolding sent_ok_def by (metis UnI1 set_append)
  have new: "muID r \<noteq> muID q" if r: "r \<in> set L" and q: "q \<in> set rows" for r q
  proof
    assume eq: "muID r = muID q"
    obtain e where e: "e \<in> set (metered mc)" "core e = core r" "ReportedAt e \<noteq> None" using rep [OF r] by blast
    moreover have "muID e = muID q" using core_sel [OF e(2)] eq by simp
    moreover have "q \<in> set (metered mc)" "ReportedAt q = None" using q fl(3) by auto
    ultimately show False using d by (metis distinct_map inj_onD)
  qed
  have "\<exists>e \<in> set (metered m2). core e = core r \<and> ReportedAt e \<noteq> None" if r: "r \<in> set (L @ rows)" for r
  proof -
    obtain e where "e \<in> set (metered mc)" "core e = core r" "ReportedAt e \<noteq> None \<or> e \<in> set rows"
      using r rep [of r] fl(3) by auto
    with fl(5) show ?thesis by metis
  qed
  moreover have "distinct (map muID (L @ rows))" using sent fl(4) [OF d] new by (auto simp: sent_ok_def)
  ultimately show "sent_ok (L @ rows) m2" by (simp add: sent_ok_def)
qed

lemma meter_run_ok:
  assumes "meter_run c m L m'" "metered_ok m"
  shows "metered_ok m' \<and> sent_ok L m' \<and> (\<exists>zs. map core (metered m') = map core (metered m) @ zs)"
  using assms
proof (induction rule: meter_run.induct)
  case meter_start
  then show ?case by (simp add: sent_ok_def)
next
  case (meter_tick L m1 api t rows m2)
  then show ?case using sent_ok_tick [of api c t m1 rows m2 L] by auto
next
  case (meter_other L m1 m2)
  then show ?case by (auto simp: metered_ok_def sent_ok_def)
qed

lemma meterIdentifier_key:
  assumes "meterIdentifier u = meterIdentifier v" "second dvd muWindowStart u" "second dvd muWindowStart v"
    "Metric u \<in> {MetricBandwidth, MetricRequests}" "Metric v \<in> {MetricBandwidth, MetricRequests}"
  shows "mkey u = mkey v"
proof -
  have us: "CHR ''_'' \<notin> set (show_int i)" for i using show_int_chars [of "CHR ''_''" i] by auto
  have "(muOrgID u @ CHR ''_'' # Metric u) @ CHR ''_'' # show_int (unix (muWindowStart u)) =
      (muOrgID v @ CHR ''_'' # Metric v) @ CHR ''_'' # show_int (unix (muWindowStart v))"
    using assms(1) by (simp add: meterIdentifier_def)
  then have *: "muOrgID u @ CHR ''_'' # Metric u = muOrgID v @ CHR ''_'' # Metric v" "unix (muWindowStart u) = unix (muWindowStart v)"
    unfolding append_sep_inj [OF us us] by simp_all
  have "rev (Metric u) @ CHR ''_'' # rev (muOrgID u) = rev (Metric v) @ CHR ''_'' # rev (muOrgID v)"
    using arg_cong [OF *(1), of rev] by simp
  then have "Metric u = Metric v" using assms(4,5) by (auto simp: MetricBandwidth_def MetricRequests_def)
  moreover have "muWindowStart u = muWindowStart v" using *(2) assms(2,3) by (auto simp: unix_def elim!: dvdE)
  ultimately show ?thesis using *(1) by (simp add: mkey_def)
qed

text \<open>C13. Over the life of the metering loop, with any changes of the rest of the store between its ticks, no two
  rows are sent under one identifier, so Stripe never counts a window twice; and a window that has been collected
  once is sent with the quantity of that first collection, whatever usage is reported later in the same month.\<close>

theorem metering_bills_window_once:
  assumes "meter_run c m L m'" "metered_ok m"
  shows "distinct (map meterIdentifier L) \<and>
    (\<forall>r \<in> set L. \<forall>e \<in> set (metered m).
       muOrgID e = muOrgID r \<and> Metric e = Metric r \<and> muWindowStart e = muWindowStart r \<longrightarrow> Quantity r = Quantity e)"
proof -
  obtain zs where ok: "metered_ok m'" "sent_ok L m'" "map core (metered m') = map core (metered m) @ zs"
    using meter_run_ok [OF assms] by blast
  have row: "\<exists>e \<in> set (metered m'). core e = core r" if "r \<in> set L" for r using ok(2) that by (auto simp: sent_ok_def)
  have wf: "second dvd muWindowStart r \<and> Metric r \<in> {MetricBandwidth, MetricRequests}" if "r \<in> set L" for r
    using row [OF that] ok(1) core_sel unfolding metered_ok_def by metis
  have inj: "core e = core e'" if "e \<in> set (metered m')" "e' \<in> set (metered m')" "mkey e = mkey e'" for e e'
    using ok(1) that unfolding metered_ok_def by (metis distinct_map inj_onD)
  have eq: "core r = core r'" if "r \<in> set L" "r' \<in> set L" "mkey r = mkey r'" for r r'
    using row [OF that(1)] row [OF that(2)] inj core_sel that(3) by metis
  have "inj_on meterIdentifier (set L)"
  proof (rule inj_onI)
    fix r r'
    assume r: "r \<in> set L" "r' \<in> set L" "meterIdentifier r = meterIdentifier r'"
    then have "core r = core r'" using eq wf meterIdentifier_key by blast
    then have "muID r = muID r'" using core_sel by blast
    with ok(2) r show "r = r'" by (auto simp: sent_ok_def distinct_map inj_on_def)
  qed
  moreover have "Quantity r = Quantity e" if "r \<in> set L" "e \<in> set (metered m)" "mkey e = mkey r" for r e
  proof -
    have "core e \<in> core ` set (metered m')" using that(2) arg_cong [OF ok(3), of set] by auto
    then obtain e' where "e' \<in> set (metered m')" "core e' = core e" by auto
    with row [OF that(1)] inj core_sel that(3) show ?thesis by metis
  qed
  ultimately show ?thesis using ok(2) by (auto simp: sent_ok_def distinct_map mkey_def)
qed

text \<open>A pay-as-you-go organisation with 5 bytes at the first tick and 100 more at the second is billed for 5.\<close>

definition ex_usage :: "int \<Rightarrow> gotime \<Rightarrow> UsageRecord" where
  "ex_usage n t = \<lparr>urOrgID = ''o'', urTunnelID = ''t'', urBytesIn = n, urBytesOut = 0, urRequests = 0, urWindowStart = t, urWindowEnd = t\<rparr>"

definition ex_payg :: MemStore where
  "ex_payg = NewMemStore\<lparr>orgs := [(''o'', \<lparr>orID = ''o'', orName = ''o'', orPlan = PlanPAYG, StripeCustomerID = ''cus'',
     orCreatedAt = 1, PlanExpiresAt = None\<rparr>)], stUsage := [ex_usage 5 90]\<rparr>"

definition ex_api :: StripeAPI where
  "ex_api = \<lparr>apiCreateCustomer = (\<lambda>e n i. None), apiCheckout = (\<lambda>p. None), apiPortal = (\<lambda>cu r. None), apiMeter = (\<lambda>n cu q i t. True)\<rparr>"

definition ex_meter :: BillingConfig where
  "ex_meter = DefaultBillingConfig\<lparr>SecretKey := ''sk'', MeterBandwidth := ''bw''\<rparr>"

definition ex_row :: MeteredUsage where
  "ex_row = \<lparr>muID = 1, muOrgID = ''o'', Metric = MetricBandwidth, Quantity = 5, muWindowStart = 0, muWindowEnd = 100,
     ReportedAt = None, muCreatedAt = 100\<rparr>"

lemma monthStart_early: "0 \<le> t \<Longrightarrow> t < aday \<Longrightarrow> monthStart t = 0"
proof -
  assume "0 \<le> t" "t < aday"
  then have "t div aday = 0" by simp
  moreover have "Year 0 = 1" "Month 0 = 1" using first_of_first [of 1 1] by (simp_all add: first_of_def year_days_def)
  ultimately show ?thesis by (simp add: monthStart_def first_of_def year_days_def)
qed

lemmas tick_defs = meteringTick_def CollectMeteredUsage_def collectForOrg_def collectMetric_def InsertMeteredUsage_def
  FlushMeteredUsage_def pushRow_def PendingMeteredUsage_def MarkMeteredUsageReported_def OrgsByPlan_def UsageForOrg_def
  GetOrg_def the_row_def MeterEventName_def Enabled_def Let_def or_time_def

lemmas ex_meter_defs = ex_payg_def ex_usage_def ex_api_def ex_meter_def ex_row_def NewMemStore_def DefaultBillingConfig_def
  MetricBandwidth_def MetricRequests_def plan_code_defs

lemma ex_first_tick: "meteringTick ex_api ex_meter 100 ex_payg = ([ex_row], ex_payg\<lparr>meteredSeq := 1, metered := [ex_row\<lparr>ReportedAt := Some 100\<rparr>]\<rparr>)"
  by (simp add: monthStart_early tick_defs ex_meter_defs)

lemma ex_second_tick:
  "meteringTick ex_api ex_meter 200 (ex_payg\<lparr>meteredSeq := 1, metered := [ex_row\<lparr>ReportedAt := Some 100\<rparr>], stUsage := [ex_usage 5 90, ex_usage 100 150]\<rparr>) =
     ([], ex_payg\<lparr>meteredSeq := 1, metered := [ex_row\<lparr>ReportedAt := Some 100\<rparr>], stUsage := [ex_usage 5 90, ex_usage 100 150]\<rparr>)"
  by (simp add: monthStart_early tick_defs ex_meter_defs)

theorem metering_bills_window_once_witness:
  "\<exists>m'. meter_run ex_meter ex_payg [ex_row] m' \<and> distinct (map meterIdentifier [ex_row])
     \<and> Quantity ex_row = 5 \<and> urBytesIn (UsageForOrg 200 ''o'' 0 m') = 105"
proof -
  let ?m1 = "ex_payg\<lparr>meteredSeq := 1, metered := [ex_row\<lparr>ReportedAt := Some 100\<rparr>]\<rparr>"
  let ?m2 = "ex_payg\<lparr>meteredSeq := 1, metered := [ex_row\<lparr>ReportedAt := Some 100\<rparr>], stUsage := [ex_usage 5 90, ex_usage 100 150]\<rparr>"
  have "meter_run ex_meter ex_payg [ex_row] ?m1"
    using meter_tick [OF meter_start ex_first_tick] by simp
  then have "meter_run ex_meter ex_payg [ex_row] ?m2" by (rule meter_other) simp_all
  then have run: "meter_run ex_meter ex_payg [ex_row] ?m2" using meter_tick [OF _ ex_second_tick] by fastforce
  moreover have "metered_ok ex_payg" by (simp add: metered_ok_def ex_payg_def NewMemStore_def)
  ultimately have "distinct (map meterIdentifier [ex_row])" using metering_bills_window_once by blast
  with run show ?thesis by (intro exI [of _ ?m2]) (simp add: UsageForOrg_def ex_meter_defs)
qed

section \<open>The end of a replaced subscription\<close>

text \<open>
  When an organisation has moved to a new subscription, the deletion of the old one still sets its plan to free and
  drops the row of the new one.
\<close>

lemma UpsertSubscription_stripe:
  "subsByStripe (snd (UpsertSubscription t nid s m)) =
     (if StripeSubID s \<noteq> '''' then gset (StripeSubID s) (sbOrgID s) (subsByStripe m) else subsByStripe m)"
  by (auto simp: UpsertSubscription_def Let_def split: option.splits)

lemma UpsertSubscription_orgs: "orgs (snd (UpsertSubscription t nid s m)) = orgs m"
  by (auto simp: UpsertSubscription_def Let_def)

theorem stale_deletion_downgrades:
  assumes e: "evSub e = Some old" and o: "resolveOrgID (soMetadata old) (soCustomer old) m2 = Inr (sbOrgID s2)"
    and org: "gget (orgs m) (sbOrgID s2) = Some og"
    and s: "StripeSubID s1 = soID old" "soID old \<noteq> ''''" "sbOrgID s1 = sbOrgID s2" "StripeSubID s2 \<noteq> soID old"
    and m2: "m2 = snd (UpsertSubscription t2 n2 s2 (snd (UpsertSubscription t1 n1 s1 m)))"
    and res: "onSubscriptionDeleted e m2 = (failed, m3)"
  shows "\<not> failed \<and> GetSubscriptionForOrg (sbOrgID s2) m3 = Inl ErrNotFound \<and>
    GetOrg (sbOrgID s2) m3 = Inr (og\<lparr>orPlan := PlanFree, PlanExpiresAt := None\<rparr>)"
proof -
  have orgs: "orgs m2 = orgs m" by (simp add: m2 UpsertSubscription_orgs)
  have idx: "gget (subsByStripe m2) (soID old) = Some (sbOrgID s2)"
    using s by (auto simp: m2 UpsertSubscription_stripe)
  let ?m = "m2\<lparr>orgs := gset (sbOrgID s2) (og\<lparr>orPlan := PlanFree, PlanExpiresAt := None\<rparr>) (orgs m)\<rparr>"
  have "UpdateOrgPlan (sbOrgID s2) PlanFree m2 = (Inr (), ?m)"
    using org by (simp add: UpdateOrgPlan_def upd_org_def orgs)
  with res e o idx
  have "\<not> failed" "m3 = ?m\<lparr>subsByStripe := gdel (soID old) (subsByStripe m2), subsByOrg := gdel (sbOrgID s2) (subsByOrg m2)\<rparr>"
    by (auto simp: onSubscriptionDeleted_def DeleteSubscription_def)
  then show ?thesis by (simp add: GetSubscriptionForOrg_def GetOrg_def the_row_def)
qed


end
