(* ===== verification/Codes.thy ===== *)
theory Codes
  imports Prelude
begin

text \<open>
  Codes that may be redeemed once: the device-authorization flow (\<^verbatim>\<open>internal/api/auth/device.go\<close>) and
  the nonces of the OAuth flow (\<^verbatim>\<open>internal/api/oauth_state.go\<close>). Both keep a map of live codes under a
  lock. The locale \<open>single_use\<close> states the laws of such a map and proves once that a code is
  redeemed at most as often as it was issued; it is interpreted for both. Random codes and the clock
  are arguments. A \<^verbatim>\<open>*DeviceRequest\<close> is only written under the lock, so the map holds values.
\<close>

section \<open>Single use\<close>

fun redeemed :: "('op \<Rightarrow> 's \<Rightarrow> 's) \<Rightarrow> ('op \<Rightarrow> 's \<Rightarrow> 'k \<Rightarrow> bool) \<Rightarrow> 'op list \<Rightarrow> 's \<Rightarrow> 'k \<Rightarrow> nat" where
  "redeemed step redeems [] s k = 0"
| "redeemed step redeems (p # ps) s k = of_bool (redeems p s k) + redeemed step redeems ps (step p s) k"

definition issued :: "('op \<Rightarrow> 'k \<Rightarrow> bool) \<Rightarrow> 'op list \<Rightarrow> 'k \<Rightarrow> nat" where
  "issued issues ps k = length (filter (\<lambda>p. issues p k) ps)"

locale single_use =
  fixes step :: "'op \<Rightarrow> 's \<Rightarrow> 's"
    and live :: "'k \<Rightarrow> 's \<Rightarrow> bool"
    and issues :: "'op \<Rightarrow> 'k \<Rightarrow> bool"
    and redeems :: "'op \<Rightarrow> 's \<Rightarrow> 'k \<Rightarrow> bool"
  assumes redeem_live: "redeems p s k \<Longrightarrow> live k s \<and> \<not> live k (step p s) \<and> \<not> issues p k"
    and live_step: "live k (step p s) \<Longrightarrow> live k s \<or> issues p k"
begin

lemma at_most_once: "redeemed step redeems ps s k \<le> of_bool (live k s) + issued issues ps k"
proof (induction ps arbitrary: s)
  case (Cons p ps)
  have "redeemed step redeems ps (step p s) k \<le> of_bool (live k (step p s)) + issued issues ps k" by (rule Cons.IH)
  moreover have "of_bool (redeems p s k) + of_bool (live k (step p s)) \<le> of_bool (live k s) + (of_bool (issues p k) :: nat)"
    using redeem_live [of p s k] live_step [of k p s] by auto
  ultimately show ?case by (auto simp: issued_def)
qed simp

end

section \<open>The device flow\<close>

datatype device_error = ErrDevicePending | ErrDeviceExpired | ErrDeviceUnknown

record DeviceRequest =
  DeviceCode :: string
  UserCode :: string
  drOrgID :: string
  drAPIKey :: string
  Approved :: bool
  drCreatedAt :: gotime

record deviceStore =
  byDevice :: "(string, DeviceRequest) gomap"
  byUser :: "(string, string) gomap"

definition newDeviceStore :: deviceStore where
  "newDeviceStore = \<lparr>byDevice = [], byUser = []\<rparr>"

definition DeviceTTL :: duration where
  "DeviceTTL = 10 * minute"

definition randToken :: "byte list \<Rightarrow> string" where
  "randToken b = hex_encode b"

definition userAlphabet :: string where
  "userAlphabet = ''BCDFGHJKLMNPQRSTVWXZ0123456789''"

text \<open>The dash goes before the fifth letter.\<close>

definition randUserCode :: "byte list \<Rightarrow> string" where
  "randUserCode b =
     (let f = map (\<lambda>c. userAlphabet ! (unat c mod length userAlphabet)) in
      if length b > 4 then f (take 4 b) @ ''-'' @ f (drop 4 b) else f b)"

definition dev_Create :: "gotime \<Rightarrow> string \<Rightarrow> string \<Rightarrow> deviceStore \<Rightarrow> DeviceRequest \<times> deviceStore" where
  "dev_Create now dc uc d =
     (let req = \<lparr>DeviceCode = dc, UserCode = uc, drOrgID = '''', drAPIKey = '''', Approved = False, drCreatedAt = now\<rparr>
      in (req, d\<lparr>byDevice := gset dc req (byDevice d), byUser := gset uc dc (byUser d)\<rparr>))"

definition dev_Approve :: "string \<Rightarrow> string \<Rightarrow> string \<Rightarrow> deviceStore \<Rightarrow> (device_error + unit) \<times> deviceStore" where
  "dev_Approve userCode orgID apiKey d =
     (case gget (byUser d) (to_upper (trim_space userCode)) of
        None \<Rightarrow> (Inl ErrDeviceUnknown, d)
      | Some dc \<Rightarrow>
          (case gget (byDevice d) dc of
             None \<Rightarrow> (Inl ErrDeviceUnknown, d)
           | Some req \<Rightarrow>
               (Inr (), d\<lparr>byDevice := gset dc (req\<lparr>Approved := True, drOrgID := orgID, drAPIKey := apiKey\<rparr>) (byDevice d)\<rparr>)))"

definition dev_Poll :: "gotime \<Rightarrow> string \<Rightarrow> deviceStore \<Rightarrow> (device_error + string) \<times> deviceStore" where
  "dev_Poll now deviceCode d =
     (case gget (byDevice d) deviceCode of
        None \<Rightarrow> (Inl ErrDeviceUnknown, d)
      | Some req \<Rightarrow>
          let gone = d\<lparr>byDevice := gdel deviceCode (byDevice d), byUser := gdel (UserCode req) (byUser d)\<rparr> in
          if now - drCreatedAt req > DeviceTTL then (Inl ErrDeviceExpired, gone)
          else if \<not> Approved req then (Inl ErrDevicePending, d)
          else (Inr (drAPIKey req), gone))"

datatype dev_op =
    DCreate gotime string string
  | DApprove string string string
  | DPoll gotime string

fun dev_step :: "dev_op \<Rightarrow> deviceStore \<Rightarrow> deviceStore" where
  "dev_step (DCreate now dc uc) d = snd (dev_Create now dc uc d)"
| "dev_step (DApprove uc orgID key) d = snd (dev_Approve uc orgID key d)"
| "dev_step (DPoll now dc) d = snd (dev_Poll now dc d)"

fun dev_issues :: "dev_op \<Rightarrow> string \<Rightarrow> bool" where
  "dev_issues (DCreate now dc uc) k = (dc = k)"
| "dev_issues _ k = False"

fun dev_redeems :: "dev_op \<Rightarrow> deviceStore \<Rightarrow> string \<Rightarrow> bool" where
  "dev_redeems (DPoll now dc) d k = (dc = k \<and> is_ok (fst (dev_Poll now dc d)))"
| "dev_redeems _ d k = False"

definition dev_live :: "string \<Rightarrow> deviceStore \<Rightarrow> bool" where
  "dev_live k d \<longleftrightarrow> gget (byDevice d) k \<noteq> None"

interpretation devices: single_use dev_step dev_live dev_issues dev_redeems
proof (unfold_locales, goal_cases)
  case (1 p d k)
  then show ?case
    by (cases p) (auto simp: dev_live_def dev_Poll_def Let_def split: option.splits if_splits)
next
  case (2 k p d)
  then show ?case
    by (cases p) (auto simp: dev_live_def dev_Create_def dev_Approve_def dev_Poll_def Let_def split: option.splits if_splits)
qed

section \<open>OAuth state nonces\<close>

type_synonym memStateStore = "(string, gotime) gomap"

definition oauthStateTTL :: duration where
  "oauthStateTTL = 10 * minute"

definition newMemStateStore :: memStateStore where
  "newMemStateStore = []"

definition newOAuthStateNonce :: "byte list \<Rightarrow> string" where
  "newOAuthStateNonce b = hex_encode b"

definition state_New :: "gotime \<Rightarrow> byte list \<Rightarrow> memStateStore \<Rightarrow> string \<times> memStateStore" where
  "state_New now b m = (newOAuthStateNonce b, gset (newOAuthStateNonce b) (now + oauthStateTTL) m)"

definition state_Check :: "gotime \<Rightarrow> string \<Rightarrow> memStateStore \<Rightarrow> bool \<times> memStateStore" where
  "state_Check now st m =
     (if st = '''' then (False, m)
      else ((case gget m st of Some ex \<Rightarrow> now < ex | None \<Rightarrow> False), gdel st m))"

datatype state_op =
    SNew gotime "byte list"
  | SCheck gotime string

fun state_step :: "state_op \<Rightarrow> memStateStore \<Rightarrow> memStateStore" where
  "state_step (SNew now b) m = snd (state_New now b m)"
| "state_step (SCheck now st) m = snd (state_Check now st m)"

fun state_issues :: "state_op \<Rightarrow> string \<Rightarrow> bool" where
  "state_issues (SNew now b) k = (newOAuthStateNonce b = k)"
| "state_issues _ k = False"

fun state_redeems :: "state_op \<Rightarrow> memStateStore \<Rightarrow> string \<Rightarrow> bool" where
  "state_redeems (SCheck now st) m k = (st = k \<and> fst (state_Check now st m))"
| "state_redeems _ m k = False"

definition state_live :: "string \<Rightarrow> memStateStore \<Rightarrow> bool" where
  "state_live k m \<longleftrightarrow> gget m k \<noteq> None"

interpretation states: single_use state_step state_live state_issues state_redeems
proof (unfold_locales, goal_cases)
  case (1 p m k)
  then show ?case
    by (cases p) (auto simp: state_live_def state_Check_def split: option.splits if_splits)
next
  case (2 k p m)
  then show ?case
    by (cases p) (auto simp: state_live_def state_New_def state_Check_def split: option.splits if_splits)
qed

section \<open>Where a delivered key comes from\<close>

definition dev_run :: "dev_op list \<Rightarrow> deviceStore" where
  "dev_run ops = fold dev_step ops newDeviceStore"

lemma dev_run_snoc [simp]: "dev_run (ops @ [p]) = dev_step p (dev_run ops)"
  by (simp add: dev_run_def)

lemma dev_byUser:
  "gget (byUser (dev_run ops)) uc = Some dc \<Longrightarrow> \<exists>t. DCreate t dc uc \<in> set ops"
proof (induction ops arbitrary: uc dc rule: rev_induct)
  case (snoc p ops)
  then show ?case
    by (cases p) (auto simp: dev_Create_def dev_Approve_def dev_Poll_def Let_def split: option.splits if_splits)
qed (simp add: dev_run_def newDeviceStore_def)

lemma dev_byDevice:
  "gget (byDevice (dev_run ops)) dc = Some r \<Longrightarrow>
     DCreate (drCreatedAt r) dc (UserCode r) \<in> set ops \<and>
     (Approved r \<longrightarrow> (\<exists>t uc. DCreate t dc (to_upper (trim_space uc)) \<in> set ops \<and> DApprove uc (drOrgID r) (drAPIKey r) \<in> set ops))"
proof (induction ops arbitrary: dc r rule: rev_induct)
  case (snoc p ops)
  show ?case
  proof (cases p)
    case (DCreate t dc' uc)
    then show ?thesis using snoc by (auto simp: dev_Create_def Let_def split: if_splits)
  next
    case (DPoll t dc')
    then show ?thesis using snoc by (auto simp: dev_Poll_def Let_def split: option.splits if_splits)
  next
    case (DApprove uc orgID key)
    note cs = dev_byUser [of ops "to_upper (trim_space uc)"]
    from DApprove snoc show ?thesis
      by (auto simp: dev_Approve_def split: option.splits if_splits dest!: cs) blast+
  qed
qed (simp add: dev_run_def newDeviceStore_def)

lemma dev_Poll_Inr:
  assumes "dev_Poll now dc (dev_run ops) = (Inr key, d)"
  shows "(\<exists>t u. DCreate t dc u \<in> set ops \<and> now - t \<le> DeviceTTL)
       \<and> (\<exists>t uc orgID. DCreate t dc (to_upper (trim_space uc)) \<in> set ops \<and> DApprove uc orgID key \<in> set ops)"
proof -
  from assms obtain r where r: "gget (byDevice (dev_run ops)) dc = Some r" "now - drCreatedAt r \<le> DeviceTTL"
    "Approved r" "key = drAPIKey r"
    by (auto simp: dev_Poll_def Let_def split: option.splits if_splits)
  then show ?thesis using dev_byDevice [OF r(1)] by blast
qed

section \<open>Properties\<close>

text \<open>A device login hands out its API key at most once, and only an approved one. Over any sequence
  of operations, the polls of a device code that return a key are at most as many as the flows
  started under that code; and a key a poll returns was given to \<^verbatim>\<open>Approve\<close> for a user code of that
  flow, which was started at most ten minutes ago.\<close>

theorem device_key_once:
  shows "redeemed dev_step dev_redeems ops newDeviceStore dc \<le> issued dev_issues ops dc
     \<and> (dev_Poll now dc (dev_run ops) = (Inr key, d) \<longrightarrow>
          (\<exists>t u. DCreate t dc u \<in> set ops \<and> now - t \<le> DeviceTTL)
        \<and> (\<exists>t uc orgID. DCreate t dc (to_upper (trim_space uc)) \<in> set ops \<and> DApprove uc orgID key \<in> set ops))"
  using devices.at_most_once [of ops newDeviceStore dc] dev_Poll_Inr [of now dc ops key d]
  by (auto simp: dev_live_def newDeviceStore_def)

theorem device_key_once_witness:
  "fst (dev_Poll 5 ''dc'' (dev_run [DCreate 1 ''dc'' ''UC'', DApprove ''UC'' ''org'' ''key''])) = Inr ''key''
     \<and> redeemed dev_step dev_redeems [DCreate 1 ''dc'' ''UC'', DApprove ''UC'' ''org'' ''key'', DPoll 5 ''dc'', DPoll 6 ''dc'']
          newDeviceStore ''dc'' \<le> 1
     \<and> (\<exists>t uc orgID. DCreate t ''dc'' (to_upper (trim_space uc)) \<in> set [DCreate 1 ''dc'' ''UC'', DApprove ''UC'' ''org'' ''key'']
          \<and> DApprove uc orgID ''key'' \<in> set [DCreate 1 ''dc'' ''UC'', DApprove ''UC'' ''org'' ''key''])"
proof -
  define ops where "ops = [DCreate 1 ''dc'' ''UC'', DApprove ''UC'' ''org'' ''key'']"
  have uc: "to_upper (trim_space ''UC'') = ''UC''" by code_simp
  have run: "fst (dev_Poll 5 ''dc'' (dev_run ops)) = Inr ''key''"
    by (simp add: ops_def dev_run_def newDeviceStore_def dev_Create_def dev_Approve_def uc dev_Poll_def DeviceTTL_def Let_def)
  then obtain d where "dev_Poll 5 ''dc'' (dev_run ops) = (Inr ''key'', d)" by (cases "dev_Poll 5 ''dc'' (dev_run ops)") auto
  with device_key_once [of ops "''dc''" 5 "''key''" d] have "\<exists>t uc orgID. DCreate t ''dc'' (to_upper (trim_space uc)) \<in> set ops
          \<and> DApprove uc orgID ''key'' \<in> set ops" by blast
  moreover have "redeemed dev_step dev_redeems (ops @ [DPoll 5 ''dc'', DPoll 6 ''dc'']) newDeviceStore ''dc'' \<le> 1"
    using conjunct1 [OF device_key_once, of "ops @ [DPoll 5 ''dc'', DPoll 6 ''dc'']" "''dc''"] by (simp add: issued_def ops_def)
  ultimately show ?thesis using run by (simp add: ops_def)
qed

text \<open>An OAuth state nonce is good for one callback. Over any sequence of operations, the checks of a
  nonce that succeed are at most as many as the times it was issued, and one that succeeds was issued
  less than ten minutes before.\<close>

theorem oauth_state_single_use:
  shows "redeemed state_step state_redeems ops newMemStateStore st \<le> issued state_issues ops st
     \<and> (fst (state_Check now st (fold state_step ops newMemStateStore)) \<longrightarrow>
          (\<exists>t b. SNew t b \<in> set ops \<and> newOAuthStateNonce b = st \<and> now < t + oauthStateTTL))"
proof -
  have "gget (fold state_step ops newMemStateStore) k = Some ex \<Longrightarrow>
      \<exists>t b. SNew t b \<in> set ops \<and> newOAuthStateNonce b = k \<and> ex = t + oauthStateTTL" for k ex
  proof (induction ops arbitrary: k ex rule: rev_induct)
    case (snoc p ops)
    then show ?case
      by (cases p) (fastforce simp: state_New_def state_Check_def split: if_splits)+
  qed (simp add: newMemStateStore_def)
  then have "fst (state_Check now st (fold state_step ops newMemStateStore)) \<Longrightarrow>
      \<exists>t b. SNew t b \<in> set ops \<and> newOAuthStateNonce b = st \<and> now < t + oauthStateTTL"
    by (fastforce simp: state_Check_def split: if_splits option.splits)
  then show ?thesis
    using states.at_most_once [of ops newMemStateStore st] by (simp add: state_live_def newMemStateStore_def)
qed

theorem oauth_state_single_use_witness:
  "fst (state_Check 5 (newOAuthStateNonce [1]) (fold state_step [SNew 1 [1]] newMemStateStore))
     \<and> redeemed state_step state_redeems [SNew 1 [1], SCheck 2 (newOAuthStateNonce [1]), SCheck 3 (newOAuthStateNonce [1])]
          newMemStateStore (newOAuthStateNonce [1]) \<le> 1
     \<and> (\<exists>t b. SNew t b \<in> set [SNew 1 [1]] \<and> newOAuthStateNonce b = newOAuthStateNonce [1] \<and> 5 < t + oauthStateTTL)"
proof -
  have ok: "fst (state_Check 5 (newOAuthStateNonce [1]) (fold state_step [SNew 1 [1]] newMemStateStore))"
    by (simp add: state_Check_def state_New_def newOAuthStateNonce_def hex_encode_def oauthStateTTL_def newMemStateStore_def)
  with oauth_state_single_use [of "[SNew 1 [1]]" "newOAuthStateNonce [1]" 5]
  have "\<exists>t b. SNew t b \<in> set [SNew 1 [1]] \<and> newOAuthStateNonce b = newOAuthStateNonce [1] \<and> 5 < t + oauthStateTTL"
    by blast
  moreover have "redeemed state_step state_redeems [SNew 1 [1], SCheck 2 (newOAuthStateNonce [1]), SCheck 3 (newOAuthStateNonce [1])]
          newMemStateStore (newOAuthStateNonce [1]) \<le> 1"
    using conjunct1 [OF oauth_state_single_use, of "[SNew 1 [1], SCheck 2 (newOAuthStateNonce [1]), SCheck 3 (newOAuthStateNonce [1])]"
        "newOAuthStateNonce [1]"] by (simp add: issued_def)
  ultimately show ?thesis using ok by blast
qed


end
