(* ===== verification/Auth.thy ===== *)
theory Auth
  imports ApiKey Codes
begin

text \<open>
  Sessions of the dashboard and the login handlers: signing and parsing of tokens, refresh and
  logout (\<^verbatim>\<open>internal/api/auth/auth.go\<close>), the revocation list (\<^verbatim>\<open>revoke.go\<close>), the middleware that
  resolves the caller (\<^verbatim>\<open>middleware.go\<close>) and the handlers of \<^verbatim>\<open>internal/api/handlers_auth.go\<close>. The JWT
  library is a pair of parameters: \<open>sg secret claims\<close> is \<^verbatim>\<open>SignedString\<close>, \<open>prs secret now token\<close> is
  \<^verbatim>\<open>ParseWithClaims\<close> restricted to HMAC. What the code relies on is \<open>jwt_lawful\<close>.
\<close>

section \<open>Tokens\<close>

record Claims =
  clOrgID :: string
  clKind :: string
  clID :: string
  clSubject :: string
  clIssuedAt :: gotime
  clExpiresAt :: "gotime option"
  clIssuer :: string

record Tokens =
  tkAccess :: string
  tkRefresh :: string
  tkExpiresIn :: int
  tkTokenType :: string

type_synonym jwt_sign = "string \<Rightarrow> Claims \<Rightarrow> string option"
type_synonym jwt_parse = "string \<Rightarrow> gotime \<Rightarrow> string \<Rightarrow> Claims option"

record AuthCfg =
  acSecret :: string
  accessTTL :: duration
  refreshTTL :: duration

definition newAuthCfg :: "string \<Rightarrow> AuthCfg" where
  "newAuthCfg secret = \<lparr>acSecret = secret, accessTTL = 60 * minute, refreshTTL = 30 * 24 * 60 * minute\<rparr>"

text \<open>\<^verbatim>\<open>jwt.NewNumericDate\<close> keeps whole seconds.\<close>

definition numericDate :: "gotime \<Rightarrow> gotime" where
  "numericDate t = t - t mod second"

definition newJTI :: "byte list \<Rightarrow> string" where
  "newJTI b = hex_encode b"

definition tok_claims :: "gotime \<Rightarrow> byte list \<Rightarrow> string \<Rightarrow> string \<Rightarrow> string \<Rightarrow> duration \<Rightarrow> Claims" where
  "tok_claims now b userID orgID kind ttl =
     \<lparr>clOrgID = orgID, clKind = kind, clID = newJTI b, clSubject = userID, clIssuedAt = numericDate now,
      clExpiresAt = Some (numericDate (now + ttl)), clIssuer = ''trqsh-api''\<rparr>"

definition sign :: "jwt_sign \<Rightarrow> AuthCfg \<Rightarrow> gotime \<Rightarrow> byte list \<Rightarrow> string \<Rightarrow> string \<Rightarrow> string \<Rightarrow> duration \<Rightarrow> string option" where
  "sign sg a now b userID orgID kind ttl = sg (acSecret a) (tok_claims now b userID orgID kind ttl)"

definition IssueTokens ::
  "jwt_sign \<Rightarrow> AuthCfg \<Rightarrow> gotime \<Rightarrow> byte list \<times> byte list \<Rightarrow> string \<Rightarrow> string \<Rightarrow> Tokens option" where
  "IssueTokens sg a now bs userID orgID =
     (case sign sg a now (fst bs) userID orgID ''access'' (accessTTL a) of
        None \<Rightarrow> None
      | Some acc \<Rightarrow>
          (case sign sg a now (snd bs) userID orgID ''refresh'' (refreshTTL a) of
             None \<Rightarrow> None
           | Some ref \<Rightarrow>
               Some \<lparr>tkAccess = acc, tkRefresh = ref, tkExpiresIn = accessTTL a div second, tkTokenType = ''Bearer''\<rparr>))"

definition ParseToken :: "jwt_parse \<Rightarrow> AuthCfg \<Rightarrow> gotime \<Rightarrow> string \<Rightarrow> auth_error + Claims" where
  "ParseToken prs a now tok = (case prs (acSecret a) now tok of None \<Rightarrow> Inl ErrUnauthorized | Some c \<Rightarrow> Inr c)"

section \<open>Revocation\<close>

type_synonym memRevoker = "(string, gotime) gomap"

definition newMemRevoker :: memRevoker where
  "newMemRevoker = []"

definition Revoke :: "gotime \<Rightarrow> string \<Rightarrow> duration \<Rightarrow> memRevoker \<Rightarrow> memRevoker" where
  "Revoke now jti ttl m = (if jti = '''' \<or> ttl \<le> 0 then m else gset jti (now + ttl) m)"

definition IsRevoked :: "gotime \<Rightarrow> string \<Rightarrow> memRevoker \<Rightarrow> bool \<times> memRevoker" where
  "IsRevoked now jti m =
     (if jti = '''' then (False, m)
      else (case gget m jti of
              None \<Rightarrow> (False, m)
            | Some ex \<Rightarrow> if now > ex then (False, gdel jti m) else (True, m)))"

text \<open>One tick of the reaper.\<close>

definition rev_reap :: "gotime \<Rightarrow> memRevoker \<Rightarrow> memRevoker" where
  "rev_reap now m = filter (\<lambda>(jti, ex). \<not> now > ex) m"

definition Refresh ::
  "jwt_sign \<Rightarrow> jwt_parse \<Rightarrow> AuthCfg \<Rightarrow> gotime \<Rightarrow> byte list \<times> byte list \<Rightarrow> string \<Rightarrow> memRevoker
     \<Rightarrow> (auth_error + Tokens) \<times> memRevoker" where
  "Refresh sg prs a now bs tok m =
     (case ParseToken prs a now tok of
        Inl e \<Rightarrow> (Inl e, m)
      | Inr c \<Rightarrow>
          if clKind c \<noteq> ''refresh'' then (Inl ErrUnauthorized, m)
          else (case IsRevoked now (clID c) m of
                  (True, m') \<Rightarrow> (Inl ErrUnauthorized, m')
                | (False, m') \<Rightarrow>
                    (case IssueTokens sg a now bs (clSubject c) (clOrgID c) of
                       None \<Rightarrow> (Inl ErrOther, m')
                     | Some t \<Rightarrow> (Inr t, m'))))"

text \<open>\<open>now\<close> is the clock of \<^verbatim>\<open>time.Until\<close>, \<open>now'\<close> the one of \<^verbatim>\<open>Revoke\<close>.\<close>

definition RevokeRefresh :: "jwt_parse \<Rightarrow> AuthCfg \<Rightarrow> gotime \<Rightarrow> gotime \<Rightarrow> string \<Rightarrow> memRevoker \<Rightarrow> memRevoker" where
  "RevokeRefresh prs a now now' tok m =
     (case ParseToken prs a now tok of
        Inl e \<Rightarrow> m
      | Inr c \<Rightarrow>
          if clKind c \<noteq> ''refresh'' \<or> clID c = '''' then m
          else (case clExpiresAt c of
                  None \<Rightarrow> m
                | Some ex \<Rightarrow> if ex - now > 0 then Revoke now' (clID c) (ex - now) m else m))"

section \<open>The middleware\<close>

record Principal =
  prUserID :: string
  prOrgID :: string
  ViaAPIKey :: bool
  prAPIKeyID :: string

definition bearerToken :: "Header \<Rightarrow> string" where
  "bearerToken hdr =
     (let h = hdr_Get hdr ''Authorization'' in
      if h = '''' then ''''
      else if has_prefix (to_lower h) ''bearer '' then trim_space (drop 7 h)
      else trim_space h)"

text \<open>The principal the next handler sees, or \<open>None\<close> for a 401.\<close>

definition Middleware ::
  "jwt_parse \<Rightarrow> AuthCfg \<Rightarrow> idkey \<Rightarrow> gotime \<Rightarrow> Header \<Rightarrow> MemStore \<Rightarrow> Principal option \<times> MemStore" where
  "Middleware prs a idkey now hdr m =
     (let tok = bearerToken hdr in
      if tok = '''' then (None, m)
      else if has_prefix tok ''tq_'' then
        (case AuthenticateAPIKey idkey now tok m of
           (Inl e, m') \<Rightarrow> (None, m')
         | (Inr k, m') \<Rightarrow> (Some \<lparr>prUserID = '''', prOrgID = kyOrgID k, ViaAPIKey = True, prAPIKeyID = kyID k\<rparr>, m'))
      else
        (case ParseToken prs a now tok of
           Inl e \<Rightarrow> (None, m)
         | Inr c \<Rightarrow>
             if clKind c \<noteq> ''access'' then (None, m)
             else (Some \<lparr>prUserID = clSubject c, prOrgID = clOrgID c, ViaAPIKey = False, prAPIKeyID = ''''\<rparr>, m)))"

section \<open>What is asked of the JWT library\<close>

text \<open>An expired token is rejected, the claims of a token do not change, and a signed token parses
  until it expires (\<^verbatim>\<open>jwt/v5\<close>: the validator requires the current time to be before \<^verbatim>\<open>exp\<close>).\<close>

definition jwt_lawful :: "jwt_sign \<Rightarrow> jwt_parse \<Rightarrow> string \<Rightarrow> bool" where
  "jwt_lawful sg prs secret \<longleftrightarrow>
     (\<forall>t tok c ex. prs secret t tok = Some c \<longrightarrow> clExpiresAt c = Some ex \<longrightarrow> t < ex) \<and>
     (\<forall>t t' tok c c'. prs secret t tok = Some c \<longrightarrow> prs secret t' tok = Some c' \<longrightarrow> c = c') \<and>
     (\<forall>c tok ex t. sg secret c = Some tok \<longrightarrow> clExpiresAt c = Some ex \<longrightarrow> t < ex \<longrightarrow> prs secret t tok = Some c)"

section \<open>Revocation over time\<close>

datatype rev_op =
    RRevoke gotime string duration
  | RCheck gotime string
  | RReap gotime

fun rev_step :: "rev_op \<Rightarrow> memRevoker \<Rightarrow> memRevoker" where
  "rev_step (RRevoke t jti ttl) m = Revoke t jti ttl m"
| "rev_step (RCheck t jti) m = snd (IsRevoked t jti m)"
| "rev_step (RReap t) m = rev_reap t m"

fun rev_time :: "rev_op \<Rightarrow> gotime" where
  "rev_time (RRevoke t jti ttl) = t"
| "rev_time (RCheck t jti) = t"
| "rev_time (RReap t) = t"

text \<open>Until \<open>x\<close> the entry for a token id stays, with an expiry not before \<open>x\<close>.\<close>

definition barred :: "string \<Rightarrow> gotime \<Rightarrow> memRevoker \<Rightarrow> bool" where
  "barred jti x m \<longleftrightarrow> gomap_ok m \<and> (\<exists>ex. gget m jti = Some ex \<and> x \<le> ex)"

lemma barred_step:
  assumes "barred jti x m" "rev_time p < x" "\<And>t ttl. p = RRevoke t jti ttl \<Longrightarrow> x \<le> t + ttl"
  shows "barred jti x (rev_step p m)"
proof (cases p)
  case (RRevoke t j ttl)
  then show ?thesis using assms by (auto simp: barred_def Revoke_def)
next
  case (RCheck t j)
  then show ?thesis using assms by (auto simp: barred_def IsRevoked_def split: option.splits)
next
  case (RReap t)
  have "gomap_ok (rev_reap t m)"
    using assms(1) by (auto simp: barred_def rev_reap_def)
  then show ?thesis
    using assms RReap gget_filter_val [of m "\<lambda>v. \<not> t > v" jti]
    by (auto simp: barred_def rev_reap_def split: option.splits)
qed

lemma barred_steps:
  assumes "barred jti x m" "\<forall>p \<in> set ps. rev_time p < x" "\<forall>t ttl. RRevoke t jti ttl \<in> set ps \<longrightarrow> x \<le> t + ttl"
  shows "barred jti x (fold rev_step ps m)"
  using assms
proof (induction ps arbitrary: m)
  case (Cons p ps)
  have "barred jti x (rev_step p m)" by (rule barred_step) (use Cons.prems in auto)
  with Cons show ?case by auto
qed simp

section \<open>Properties\<close>

lemma barred_RevokeRefresh:
  assumes "prs (acSecret a) t0 tok = Some c" "clKind c = ''refresh''" "clID c \<noteq> ''''" "clExpiresAt c = Some x"
    and "t0 < x" "t0 \<le> t1" "gomap_ok m"
  shows "barred (clID c) x (RevokeRefresh prs a t0 t1 tok m)"
  using assms by (simp add: RevokeRefresh_def ParseToken_def Revoke_def barred_def)

lemma barred_Refresh:
  assumes "barred (clID c) x m" "prs (acSecret a) now tok = Some c" "now < x" "clID c \<noteq> ''''"
  shows "fst (Refresh sg prs a now bs tok m) = Inl ErrUnauthorized"
proof -
  obtain ex where "gget m (clID c) = Some ex" "x \<le> ex" using assms(1) by (auto simp: barred_def)
  then have "IsRevoked now (clID c) m = (True, m)" using assms(3,4) by (simp add: IsRevoked_def)
  then show ?thesis using assms(2) by (simp add: Refresh_def ParseToken_def)
qed

text \<open>C24. Logging out is final. Once a refresh token is revoked, every later attempt to refresh with it is
  refused, whatever else is revoked, checked or reaped in between, and even though its signature is
  still valid; after its expiry the parser refuses it. (Other revocations under the same token id, of
  which there are none but the token's own, must not carry an earlier expiry.)\<close>

theorem logout_final:
  assumes "jwt_lawful sg prs (acSecret a)" "gomap_ok m"
    and "prs (acSecret a) t0 tok = Some c" "clKind c = ''refresh''" "clID c \<noteq> ''''" "clExpiresAt c = Some x" "t0 \<le> t1"
    and "\<forall>p \<in> set ps. rev_time p \<le> now" "\<forall>t ttl. RRevoke t (clID c) ttl \<in> set ps \<longrightarrow> x \<le> t + ttl"
  shows "fst (Refresh sg prs a now bs tok (fold rev_step ps (RevokeRefresh prs a t0 t1 tok m))) = Inl ErrUnauthorized"
proof (cases "prs (acSecret a) now tok")
  case None
  then show ?thesis by (simp add: Refresh_def ParseToken_def)
next
  case (Some c')
  then have same: "c' = c" using assms(1,3) by (auto simp: jwt_lawful_def)
  have "now < x" "t0 < x" using assms(1,3,6) Some same by (auto simp: jwt_lawful_def)
  with assms have "barred (clID c) x (fold rev_step ps (RevokeRefresh prs a t0 t1 tok m))"
    by (intro barred_steps barred_RevokeRefresh) auto
  then show ?thesis using Some same \<open>now < x\<close> assms(5) by (intro barred_Refresh) auto
qed

text \<open>A library that knows one token, \<open>''r''\<close>, valid until time 100.\<close>

definition ex_claims :: Claims where
  "ex_claims = \<lparr>clOrgID = ''org_1'', clKind = ''refresh'', clID = ''j1'', clSubject = ''u1'', clIssuedAt = 0,
     clExpiresAt = Some 100, clIssuer = ''trqsh-api''\<rparr>"

definition ex_parse :: jwt_parse where
  "ex_parse secret t tok = (if tok = ''r'' \<and> t < 100 then Some ex_claims else None)"

definition ex_sign :: jwt_sign where
  "ex_sign secret c = (if c = ex_claims then Some ''r'' else None)"

theorem logout_final_witness:
  "fst (Refresh ex_sign ex_parse (newAuthCfg ''k'') 50 ([1], [2]) ''r''
      (fold rev_step [RReap 20, RCheck 30 ''j1'', RRevoke 40 ''j2'' 5] (RevokeRefresh ex_parse (newAuthCfg ''k'') 10 11 ''r'' newMemRevoker)))
     = Inl ErrUnauthorized"
proof -
  have law: "jwt_lawful ex_sign ex_parse (acSecret (newAuthCfg ''k''))"
    unfolding jwt_lawful_def by (auto simp: ex_sign_def ex_parse_def ex_claims_def split: if_splits)
  have tok: "ex_parse (acSecret (newAuthCfg ''k'')) 10 ''r'' = Some ex_claims" by (simp add: ex_parse_def)
  have "clKind ex_claims = ''refresh''" "clID ex_claims = ''j1''" "clExpiresAt ex_claims = Some 100" by (simp_all add: ex_claims_def)
  then show ?thesis
    by (intro logout_final [OF law _ tok, where x = 100]) (auto simp: newMemRevoker_def)
qed


end
