(* ===== verification/Remote.thy ===== *)
theory Remote
  imports Fanout Auth Config Codes
begin

text \<open>
  The relay of remote-control pairings (\<^verbatim>\<open>internal/api/remote.go\<close>): the hub of sessions, a session with its agent
  channel and its viewers, and the handlers of both sides. Handlers hold a session after they have looked it up, so
  sessions live in a heap (the list \<open>rhHeap\<close>) and the hub maps codes to it. A channel is the list of what waits in it;
  a send on a closed channel and a second close are panics of Go and set \<open>rsPanic\<close>.
\<close>

section \<open>Data\<close>

definition remoteSessionTTL :: duration where "remoteSessionTTL = 30 * minute"
definition remoteBacklogLimit :: nat where "remoteBacklogLimit = 200"

record remoteTunnel =
  rtID :: string
  rtPublicURL :: string
  rtLocalAddr :: string
  rtStatus :: string
  rtRequests :: int

record remoteState =
  rmOnline :: bool
  rmEdge :: string
  rmTunnels :: "remoteTunnel list"

record remoteEvent =
  reType :: string
  reLines :: "string list"
  reState :: "remoteState option"
  reCommand :: string
  reConnected :: bool

abbreviation chan_cap :: nat where "chan_cap \<equiv> 32"

record rchan =
  rcBuf :: "remoteEvent list"
  rcClosed :: bool

text \<open>
  A viewer's channel is known by the number of the viewer: \<open>rsViewers\<close> is the map of the session, \<open>rsGone\<close> keeps the
  channels of viewers that have left, which their handlers may still read. The agent's channels are numbered.
\<close>

record remoteSession =
  rsCode :: string
  rsOrgID :: string
  rsCreatedAt :: gotime
  rsExpiresAt :: gotime
  rsAgentChans :: "remoteEvent list list"
  agentCh :: "nat option"
  agentConnected :: bool
  rsViewers :: "(nat, rchan) gomap"
  rsGone :: "(nat, rchan) gomap"
  nextViewer :: nat
  backlog :: "string list"
  rsState :: "remoteState option"
  rsEnded :: bool
  rsPanic :: bool

definition newRemoteSession :: "string \<Rightarrow> string \<Rightarrow> gotime \<Rightarrow> remoteSession" where
  "newRemoteSession code orgID t =
     \<lparr>rsCode = code, rsOrgID = orgID, rsCreatedAt = t, rsExpiresAt = t + remoteSessionTTL, rsAgentChans = [], agentCh = None,
      agentConnected = False, rsViewers = [], rsGone = [], nextViewer = 0, backlog = [], rsState = None, rsEnded = False,
      rsPanic = False\<rparr>"

definition presence :: "bool \<Rightarrow> remoteEvent" where
  "presence b = \<lparr>reType = ''presence'', reLines = [], reState = None, reCommand = '''', reConnected = b\<rparr>"

definition ended_event :: remoteEvent where
  "ended_event = \<lparr>reType = ''ended'', reLines = [], reState = None, reCommand = '''', reConnected = False\<rparr>"

section \<open>A session\<close>

definition send_viewer :: "remoteEvent \<Rightarrow> rchan \<Rightarrow> rchan" where
  "send_viewer e c = (if rcClosed c then c else c\<lparr>rcBuf := try_send chan_cap e (rcBuf c)\<rparr>)"

definition broadcastViewersLocked :: "remoteEvent \<Rightarrow> remoteSession \<Rightarrow> remoteSession" where
  "broadcastViewersLocked e s =
     s\<lparr>rsViewers := map (\<lambda>(i, c). (i, send_viewer e c)) (rsViewers s),
       rsPanic := (rsPanic s \<or> (\<exists>(i, c) \<in> set (rsViewers s). rcClosed c))\<rparr>"

definition attachAgent :: "remoteSession \<Rightarrow> nat \<times> remoteSession" where
  "attachAgent s =
     (let ch = length (rsAgentChans s);
          s1 = s\<lparr>rsAgentChans := rsAgentChans s @ [[]], agentCh := Some ch, agentConnected := True\<rparr>
      in (ch, broadcastViewersLocked (presence True) s1))"

definition detachAgent :: "nat \<Rightarrow> remoteSession \<Rightarrow> remoteSession" where
  "detachAgent ch s =
     (if agentCh s \<noteq> Some ch then s
      else broadcastViewersLocked (presence False) (s\<lparr>agentCh := None, agentConnected := False\<rparr>))"

text \<open>What a new viewer finds in its channel. The sends block on a full channel, and this one is new.\<close>

definition context_of :: "remoteSession \<Rightarrow> remoteEvent list" where
  "context_of s =
     (if backlog s \<noteq> [] then [\<lparr>reType = ''lines'', reLines = backlog s, reState = None, reCommand = '''', reConnected = False\<rparr>] else []) @
     (case rsState s of
        Some st \<Rightarrow> [\<lparr>reType = ''state'', reLines = [], reState = Some st, reCommand = '''', reConnected = False\<rparr>]
      | None \<Rightarrow> []) @
     [presence (agentConnected s)]"

definition addViewer :: "remoteSession \<Rightarrow> nat \<times> remoteSession" where
  "addViewer s =
     (nextViewer s,
      s\<lparr>nextViewer := nextViewer s + 1,
        rsViewers := gset (nextViewer s) \<lparr>rcBuf = context_of s, rcClosed = False\<rparr> (rsViewers s)\<rparr>)"

definition close_viewer :: "nat \<Rightarrow> rchan \<Rightarrow> remoteSession \<Rightarrow> remoteSession" where
  "close_viewer i c s =
     s\<lparr>rsViewers := gdel i (rsViewers s), rsGone := gset i (c\<lparr>rcClosed := True\<rparr>) (rsGone s),
       rsPanic := (rsPanic s \<or> rcClosed c)\<rparr>"

definition removeViewer :: "nat \<Rightarrow> remoteSession \<Rightarrow> remoteSession" where
  "removeViewer i s = (case gget (rsViewers s) i of None \<Rightarrow> s | Some c \<Rightarrow> close_viewer i c s)"

definition publish :: "remoteEvent \<Rightarrow> remoteSession \<Rightarrow> remoteSession" where
  "publish e s =
     (let s1 = (if reType e = ''lines'' then
                  let b = backlog s @ reLines e in
                  s\<lparr>backlog := (if length b > remoteBacklogLimit then drop (length b - remoteBacklogLimit) b else b)\<rparr>
                else if reType e = ''state'' then s\<lparr>rsState := reState e\<rparr>
                else s)
      in broadcastViewersLocked e s1)"

definition command :: "string \<Rightarrow> remoteSession \<Rightarrow> bool \<times> remoteSession" where
  "command txt s =
     (case agentCh s of
        None \<Rightarrow> (False, s)
      | Some ch \<Rightarrow>
          let q = rsAgentChans s ! ch in
          if length q < chan_cap
          then (True, s\<lparr>rsAgentChans := (rsAgentChans s)[ch := q @ [\<lparr>reType = ''command'', reLines = [], reState = None,
                  reCommand = txt, reConnected = False\<rparr>]]\<rparr>)
          else (False, s))"

definition endSession :: "remoteSession \<Rightarrow> remoteSession" where
  "endSession s =
     (if rsEnded s then s
      else
        let s1 = broadcastViewersLocked ended_event (s\<lparr>rsEnded := True\<rparr>);
            s2 = (case agentCh s1 of
                    None \<Rightarrow> s1
                  | Some ch \<Rightarrow> s1\<lparr>rsAgentChans := (rsAgentChans s1)[ch := try_send chan_cap ended_event (rsAgentChans s1 ! ch)]\<rparr>)
        in fold (\<lambda>(i, c). close_viewer i c) (rsViewers s2) s2)"

text \<open>
  The receive of the two stream handlers, when something waits. The outer \<open>None\<close> is a handler that goes on waiting; an inner
  \<open>None\<close> is a closed channel that is empty.
\<close>

definition recv_chan :: "rchan \<Rightarrow> remoteEvent option option \<times> rchan" where
  "recv_chan c =
     (case rcBuf c of
        e # q \<Rightarrow> (Some (Some e), c\<lparr>rcBuf := q\<rparr>)
      | [] \<Rightarrow> (if rcClosed c then Some None else None, c))"

definition viewer_recv :: "nat \<Rightarrow> remoteSession \<Rightarrow> remoteEvent option option \<times> remoteSession" where
  "viewer_recv i s =
     (case gget (rsViewers s) i of
        Some c \<Rightarrow> (fst (recv_chan c), s\<lparr>rsViewers := gset i (snd (recv_chan c)) (rsViewers s)\<rparr>)
      | None \<Rightarrow>
          (case gget (rsGone s) i of
             Some c \<Rightarrow> (fst (recv_chan c), s\<lparr>rsGone := gset i (snd (recv_chan c)) (rsGone s)\<rparr>)
           | None \<Rightarrow> (None, s)))"

definition agent_recv :: "nat \<Rightarrow> remoteSession \<Rightarrow> remoteEvent option \<times> remoteSession" where
  "agent_recv ch s =
     (if ch < length (rsAgentChans s)
      then (case rsAgentChans s ! ch of
              e # q \<Rightarrow> (Some e, s\<lparr>rsAgentChans := (rsAgentChans s)[ch := q]\<rparr>)
            | [] \<Rightarrow> (None, s))
      else (None, s))"

section \<open>The hub\<close>

record remoteHub =
  rhHeap :: "remoteSession list"
  rhSessions :: "(string, nat) gomap"

definition newRemoteHub :: remoteHub where
  "newRemoteHub = \<lparr>rhHeap = [], rhSessions = []\<rparr>"

definition upd_rs :: "nat \<Rightarrow> (remoteSession \<Rightarrow> remoteSession) \<Rightarrow> remoteHub \<Rightarrow> remoteHub" where
  "upd_rs i f h = (if i < length (rhHeap h) then h\<lparr>rhHeap := (rhHeap h)[i := f (rhHeap h ! i)]\<rparr> else h)"

fun group4 :: "string \<Rightarrow> string" where
  "group4 s = (if length s > 4 then take 4 s @ ''-'' @ group4 (drop 4 s) else s)"

declare group4.simps [simp del]

text \<open>\<open>b\<close> are twelve random bytes. A dash goes before every fourth letter but the first.\<close>

definition newRemoteCode :: "byte list \<Rightarrow> string" where
  "newRemoteCode b = group4 (map (\<lambda>c. userAlphabet ! (unat c mod length userAlphabet)) b)"

definition hub_create :: "gotime \<Rightarrow> byte list \<Rightarrow> string \<Rightarrow> remoteHub \<Rightarrow> nat \<times> remoteHub" where
  "hub_create t b orgID h =
     (let s = newRemoteSession (newRemoteCode b) orgID t; i = length (rhHeap h)
      in (i, h\<lparr>rhHeap := rhHeap h @ [s], rhSessions := gset (rsCode s) i (rhSessions h)\<rparr>))"

definition hub_get :: "gotime \<Rightarrow> string \<Rightarrow> remoteHub \<Rightarrow> nat option \<times> remoteHub" where
  "hub_get t code h =
     (case gget (rhSessions h) code of
        None \<Rightarrow> (None, h)
      | Some i \<Rightarrow>
          if t > rsExpiresAt (rhHeap h ! i) then (None, h\<lparr>rhSessions := gdel code (rhSessions h)\<rparr>)
          else (Some i, h))"

definition hub_end :: "string \<Rightarrow> remoteHub \<Rightarrow> remoteHub" where
  "hub_end code h =
     (case gget (rhSessions h) code of
        None \<Rightarrow> h\<lparr>rhSessions := gdel code (rhSessions h)\<rparr>
      | Some i \<Rightarrow> upd_rs i endSession (h\<lparr>rhSessions := gdel code (rhSessions h)\<rparr>))"

text \<open>One tick of \<^verbatim>\<open>sweepLoop\<close>.\<close>

definition hub_sweep :: "gotime \<Rightarrow> remoteHub \<Rightarrow> remoteHub" where
  "hub_sweep t h =
     (let dead = (\<lambda>(code, i). t > rsExpiresAt (rhHeap h ! i))
      in fold (\<lambda>(code, i). upd_rs i endSession) (filter dead (rhSessions h))
           (h\<lparr>rhSessions := filter (\<lambda>x. \<not> dead x) (rhSessions h)\<rparr>))"

section \<open>Handlers\<close>

text \<open>\<^verbatim>\<open>strings.TrimRight(s, "/")\<close>\<close>

definition qrBase :: "ApiConfig \<Rightarrow> string" where
  "qrBase c =
     (if QRURL c \<noteq> '''' then rev (dropWhile (\<lambda>x. x = CHR ''/'') (rev (QRURL c))) else ''https://qr.'' @ apBaseDomain c)"

text \<open>The code, the address for the phone and the expiry.\<close>

definition handleRemoteCreate :: "ApiConfig \<Rightarrow> gotime \<Rightarrow> byte list \<Rightarrow> Principal \<Rightarrow> remoteHub \<Rightarrow> (string \<times> string \<times> gotime) \<times> remoteHub" where
  "handleRemoteCreate c t b p h =
     (case hub_create t b (prOrgID p) h of
        (i, h1) \<Rightarrow>
          let s = rhHeap h1 ! i in ((rsCode s, qrBase c @ ''/'' @ rsCode s, rsExpiresAt s), h1))"

definition remoteSessionForAgent :: "gotime \<Rightarrow> Principal \<Rightarrow> string \<Rightarrow> remoteHub \<Rightarrow> nat option \<times> remoteHub" where
  "remoteSessionForAgent t p code h =
     (case hub_get t code h of
        (None, h1) \<Rightarrow> (None, h1)
      | (Some i, h1) \<Rightarrow> if rsOrgID (rhHeap h1 ! i) \<noteq> prOrgID p then (None, h1) else (Some i, h1))"

text \<open>The agent's stream up to its loop: the session and the channel it reads, or a 404.\<close>

definition handleRemoteAgentStream :: "gotime \<Rightarrow> Principal \<Rightarrow> string \<Rightarrow> remoteHub \<Rightarrow> (nat \<times> nat) option \<times> remoteHub" where
  "handleRemoteAgentStream t p code h =
     (case remoteSessionForAgent t p code h of
        (None, h1) \<Rightarrow> (None, h1)
      | (Some i, h1) \<Rightarrow> (Some (i, fst (attachAgent (rhHeap h1 ! i))), upd_rs i (\<lambda>s. snd (attachAgent s)) h1))"

text \<open>
  What the loop writes for the events it takes from its channel, up to the end of the session. \<open>enc\<close> is the JSON encoding,
  after which \<^verbatim>\<open>Encode\<close> writes a newline. Keep-alive comments are left out; a reader skips them.
\<close>

abbreviation newline :: char where "newline \<equiv> CHR 0x0A"

definition sse_event :: "(remoteEvent \<Rightarrow> string) \<Rightarrow> remoteEvent \<Rightarrow> string" where
  "sse_event enc e = ''data: '' @ enc e @ [newline, newline]"

fun upto_ended :: "remoteEvent list \<Rightarrow> remoteEvent list" where
  "upto_ended [] = []"
| "upto_ended (e # es) = e # (if reType e = ''ended'' then [] else upto_ended es)"

definition sse_stream :: "(remoteEvent \<Rightarrow> string) \<Rightarrow> remoteEvent list \<Rightarrow> string" where
  "sse_stream enc es = '': connected'' @ [newline, newline] @ concat (map (sse_event enc) (upto_ended es))"

definition handleRemotePublish :: "gotime \<Rightarrow> Principal \<Rightarrow> string \<Rightarrow> remoteEvent option \<Rightarrow> remoteHub \<Rightarrow> int \<times> remoteHub" where
  "handleRemotePublish t p code body h =
     (case remoteSessionForAgent t p code h of
        (None, h1) \<Rightarrow> (404, h1)
      | (Some i, h1) \<Rightarrow>
          (case body of
             None \<Rightarrow> (400, h1)
           | Some e \<Rightarrow>
               if reType e \<noteq> ''lines'' \<and> reType e \<noteq> ''state'' then (400, h1)
               else (204, upd_rs i (publish e) h1)))"

definition handleRemoteEnd :: "gotime \<Rightarrow> Principal \<Rightarrow> string \<Rightarrow> remoteHub \<Rightarrow> int \<times> remoteHub" where
  "handleRemoteEnd t p code h =
     (case remoteSessionForAgent t p code h of
        (None, h1) \<Rightarrow> (404, h1)
      | (Some i, h1) \<Rightarrow> (204, hub_end (rsCode (rhHeap h1 ! i)) h1))"

definition handleRemoteViewerStream :: "gotime \<Rightarrow> string \<Rightarrow> remoteHub \<Rightarrow> (nat \<times> nat) option \<times> remoteHub" where
  "handleRemoteViewerStream t code h =
     (case hub_get t code h of
        (None, h1) \<Rightarrow> (None, h1)
      | (Some i, h1) \<Rightarrow> (Some (i, fst (addViewer (rhHeap h1 ! i))), upd_rs i (\<lambda>s. snd (addViewer s)) h1))"

definition handleRemoteCommand :: "gotime \<Rightarrow> string \<Rightarrow> string option \<Rightarrow> remoteHub \<Rightarrow> int \<times> remoteHub" where
  "handleRemoteCommand t code body h =
     (case hub_get t code h of
        (None, h1) \<Rightarrow> (404, h1)
      | (Some i, h1) \<Rightarrow>
          (case body of
             None \<Rightarrow> (400, h1)
           | Some txt \<Rightarrow>
               if length txt = 0 \<or> length txt > 240 then (400, h1)
               else if fst (command txt (rhHeap h1 ! i)) then (204, upd_rs i (\<lambda>s. snd (command txt s)) h1)
               else (409, h1)))"

section \<open>What a viewer sees\<close>

text \<open>The events an agent causes at the viewers by what it publishes and by connecting.\<close>

datatype cast = CastPublish remoteEvent | CastAttach

definition cast_op :: "cast \<Rightarrow> remoteSession \<Rightarrow> remoteEvent \<times> remoteSession" where
  "cast_op c s = (case c of CastPublish e \<Rightarrow> (e, publish e s) | CastAttach \<Rightarrow> (presence True, snd (attachAgent s)))"

definition open_chan :: "remoteSession \<Rightarrow> nat \<Rightarrow> remoteEvent list option" where
  "open_chan s i = (case gget (rsViewers s) i of Some c \<Rightarrow> if rcClosed c then None else Some (rcBuf c) | None \<Rightarrow> None)"

text \<open>A receive of a viewer whose channel is open.\<close>

definition live_recv :: "nat \<Rightarrow> remoteSession \<Rightarrow> remoteEvent option \<times> remoteSession" where
  "live_recv i s =
     (case open_chan s i of
        None \<Rightarrow> (None, s)
      | Some q \<Rightarrow> (case viewer_recv i s of (r, s') \<Rightarrow> (case r of Some e \<Rightarrow> e | None \<Rightarrow> None, s')))"

lemma broadcast_viewers:
  "gget (rsViewers (broadcastViewersLocked e s)) i = map_option (send_viewer e) (gget (rsViewers s) i)"
  by (simp add: broadcastViewersLocked_def map_of_map)

lemma broadcast_open: "open_chan (broadcastViewersLocked e s) i = map_option (try_send chan_cap e) (open_chan s i)"
  by (simp add: open_chan_def broadcast_viewers send_viewer_def split: option.splits)

lemma broadcast_sel [simp]:
  "rsCode (broadcastViewersLocked e s) = rsCode s" "rsOrgID (broadcastViewersLocked e s) = rsOrgID s"
  "rsExpiresAt (broadcastViewersLocked e s) = rsExpiresAt s" "rsAgentChans (broadcastViewersLocked e s) = rsAgentChans s"
  "agentCh (broadcastViewersLocked e s) = agentCh s" "rsGone (broadcastViewersLocked e s) = rsGone s"
  "nextViewer (broadcastViewersLocked e s) = nextViewer s" "backlog (broadcastViewersLocked e s) = backlog s"
  "rsState (broadcastViewersLocked e s) = rsState s" "rsEnded (broadcastViewersLocked e s) = rsEnded s"
  by (simp_all add: broadcastViewersLocked_def)

lemma publish_open: "open_chan (publish e s) i = map_option (try_send chan_cap e) (open_chan s i)"
  unfolding publish_def Let_def broadcast_open by (simp add: open_chan_def)

lemma attach_open: "open_chan (snd (attachAgent s)) i = map_option (try_send chan_cap (presence True)) (open_chan s i)"
  unfolding attachAgent_def Let_def snd_conv broadcast_open by (simp add: open_chan_def)

lemma nextViewer_cast: "nextViewer (publish e s) = nextViewer s" "nextViewer (snd (attachAgent s)) = nextViewer s"
  by (simp_all add: publish_def attachAgent_def Let_def)

interpretation rv: fanout cast_op addViewer removeViewer live_recv open_chan chan_cap nextViewer context_of
proof (unfold_locales, goal_cases)
  case (1 x s e s' i)
  then show ?case by (auto simp: cast_op_def publish_open attach_open split: cast.splits)
next
  case (2 x s e s')
  then show ?case by (auto simp: cast_op_def nextViewer_cast split: cast.splits)
next
  case (3 s i s')
  then show ?case by (auto simp: addViewer_def open_chan_def)
next
  case (4 i s)
  then show ?case by (auto simp: removeViewer_def close_viewer_def open_chan_def fun_eq_iff split: option.splits)
next
  case (5 i s)
  then show ?case by (simp add: removeViewer_def close_viewer_def split: option.splits)
next
  case (6 i s r s')
  then show ?case
    by (auto simp: live_recv_def viewer_recv_def recv_chan_def open_chan_def fun_eq_iff split: option.splits list.splits if_splits)
qed

section \<open>The relay in every interleaving\<close>

text \<open>
  Each operation of a session runs under its mutex, so an execution of all the handlers is a sequence of operations.
  A handler may use a session it has looked up at any later time.
\<close>

datatype sess_op =
    SAttach | SDetach nat | SAddViewer | SRemoveViewer nat | SPublish remoteEvent | SCommand string | SEnd
  | SViewerRecv nat | SAgentRecv nat

fun sess_step :: "sess_op \<Rightarrow> remoteSession \<Rightarrow> remoteSession" where
  "sess_step SAttach s = snd (attachAgent s)"
| "sess_step (SDetach ch) s = detachAgent ch s"
| "sess_step SAddViewer s = snd (addViewer s)"
| "sess_step (SRemoveViewer i) s = removeViewer i s"
| "sess_step (SPublish e) s = publish e s"
| "sess_step (SCommand txt) s = snd (command txt s)"
| "sess_step SEnd s = endSession s"
| "sess_step (SViewerRecv i) s = snd (viewer_recv i s)"
| "sess_step (SAgentRecv ch) s = snd (agent_recv ch s)"

definition viewer_ok :: "nat \<Rightarrow> nat \<times> rchan \<Rightarrow> bool" where
  "viewer_ok n p \<longleftrightarrow> fst p < n \<and> \<not> rcClosed (snd p) \<and> length (rcBuf (snd p)) \<le> chan_cap"

definition session_ok :: "remoteSession \<Rightarrow> bool" where
  "session_ok s \<longleftrightarrow> \<not> rsPanic s \<and> gomap_ok (rsViewers s) \<and> (\<forall>p \<in> set (rsViewers s). viewer_ok (nextViewer s) p) \<and>
     (\<forall>q \<in> set (rsAgentChans s). length q \<le> chan_cap) \<and> (\<forall>ch. agentCh s = Some ch \<longrightarrow> ch < length (rsAgentChans s)) \<and>
     length (backlog s) \<le> remoteBacklogLimit"

lemma session_ok_viewers: "session_ok s \<Longrightarrow> \<forall>p \<in> set (rsViewers s). viewer_ok (nextViewer s) p"
  by (simp add: session_ok_def)

lemma session_ok_broadcast:
  assumes "session_ok s"
  shows "session_ok (broadcastViewersLocked e s)"
proof -
  have "\<not> rsPanic (broadcastViewersLocked e s)"
    using assms by (fastforce simp: session_ok_def broadcastViewersLocked_def viewer_ok_def)
  moreover have "viewer_ok n (i, send_viewer e c)" if "viewer_ok n (i, c)" for n i c
    using that by (simp add: viewer_ok_def send_viewer_def length_try_send)
  ultimately show ?thesis
    using assms by (auto simp: session_ok_def broadcastViewersLocked_def gomap_ok_def comp_def split_def)
qed

lemma set_gset_cases: "p \<in> set (gset k v m) \<Longrightarrow> p = (k, v) \<or> p \<in> set m"
  by (induction m) (auto split: if_splits)

lemma set_gdel_subset: "set (gdel k m) \<subseteq> set m"
  by (auto simp: AList.delete_eq)

lemma length_context: "length (context_of s) \<le> 3"
  by (simp add: context_of_def split: option.splits)

lemma session_ok_addViewer: "session_ok s \<Longrightarrow> session_ok (snd (addViewer s))"
  using length_context [of s]
  by (fastforce simp: session_ok_def addViewer_def viewer_ok_def dest!: set_gset_cases)

lemma session_ok_close: "session_ok s \<Longrightarrow> viewer_ok n (i, c) \<Longrightarrow> session_ok (close_viewer i c s)"
  using set_gdel_subset [of i "rsViewers s"] by (auto simp: session_ok_def close_viewer_def viewer_ok_def)

lemma session_ok_close_all:
  "session_ok s \<Longrightarrow> \<forall>p \<in> set ps. viewer_ok n p \<Longrightarrow> session_ok (fold (\<lambda>(i, c). close_viewer i c) ps s)"
  by (induction ps arbitrary: s) (auto simp: session_ok_close)

lemma session_ok_agent_send:
  assumes "session_ok s" "length q \<le> chan_cap"
  shows "session_ok (s\<lparr>rsAgentChans := (rsAgentChans s)[ch := q]\<rparr>)"
  using assms by (auto simp: session_ok_def dest!: set_update_subset_insert [THEN subsetD])

lemma session_ok_endSession: "session_ok s \<Longrightarrow> session_ok (endSession s)"
proof (cases "rsEnded s")
  case False
  assume "session_ok s"
  then have 1: "session_ok (broadcastViewersLocked ended_event (s\<lparr>rsEnded := True\<rparr>))"
    by (intro session_ok_broadcast) (simp add: session_ok_def)
  let ?s1 = "broadcastViewersLocked ended_event (s\<lparr>rsEnded := True\<rparr>)"
  let ?s2 = "case agentCh ?s1 of None \<Rightarrow> ?s1
    | Some ch \<Rightarrow> ?s1\<lparr>rsAgentChans := (rsAgentChans ?s1)[ch := try_send chan_cap ended_event (rsAgentChans ?s1 ! ch)]\<rparr>"
  have 2: "session_ok ?s2"
  proof (cases "agentCh ?s1")
    case (Some ch)
    with 1 have "rsAgentChans ?s1 ! ch \<in> set (rsAgentChans ?s1)" by (simp add: session_ok_def)
    with 1 have "length (rsAgentChans ?s1 ! ch) \<le> chan_cap" unfolding session_ok_def by blast
    with 1 Some show ?thesis by (simp add: session_ok_agent_send length_try_send del: broadcast_sel)
  qed (use 1 in simp)
  from session_ok_close_all [OF 2 session_ok_viewers [OF 2]] False show ?thesis by (simp add: endSession_def Let_def)
qed (simp add: endSession_def)

lemma session_ok_step: "session_ok s \<Longrightarrow> session_ok (sess_step op s)"
proof (cases op)
  case SAttach
  assume ok: "session_ok s"
  then have "session_ok (s\<lparr>rsAgentChans := rsAgentChans s @ [[]], agentCh := Some (length (rsAgentChans s)), agentConnected := True\<rparr>)"
    by (auto simp: session_ok_def)
  with SAttach show ?thesis by (simp add: attachAgent_def Let_def session_ok_broadcast)
next
  case (SDetach ch)
  assume "session_ok s"
  then have "session_ok (s\<lparr>agentCh := None, agentConnected := False\<rparr>)" by (simp add: session_ok_def)
  with SDetach \<open>session_ok s\<close> show ?thesis by (simp add: detachAgent_def session_ok_broadcast)
next
  case (SRemoveViewer i)
  assume "session_ok s"
  with SRemoveViewer session_ok_viewers [of s] show ?thesis
    by (auto simp: removeViewer_def intro!: session_ok_close [of s "nextViewer s"] dest!: gget_SomeD split: option.splits)
next
  case (SPublish e)
  assume "session_ok s"
  with SPublish show ?thesis
    unfolding SPublish sess_step.simps publish_def Let_def
    by (intro session_ok_broadcast) (auto simp: session_ok_def)
next
  case (SCommand x)
  assume "session_ok s"
  with SCommand show ?thesis
    by (auto simp: command_def Let_def intro!: session_ok_agent_send split: option.splits)
next
  case (SViewerRecv i)
  assume "session_ok s"
  with SViewerRecv show ?thesis
    by (auto simp: viewer_recv_def recv_chan_def session_ok_def viewer_ok_def dest!: set_gset_cases gget_SomeD
        split: option.splits list.splits)
next
  case (SAgentRecv ch)
  assume ok: "session_ok s"
  have "length q \<le> chan_cap" if "ch < length (rsAgentChans s)" "rsAgentChans s ! ch = e # q" for e q
  proof -
    have "e # q \<in> set (rsAgentChans s)" using that by (metis nth_mem)
    with ok have "length (e # q) \<le> chan_cap" unfolding session_ok_def by blast
    then show ?thesis by simp
  qed
  with SAgentRecv ok show ?thesis
    by (auto simp: agent_recv_def intro!: session_ok_agent_send split: list.splits)
qed (simp_all add: session_ok_addViewer session_ok_endSession)

text \<open>Everything published as lines.\<close>

fun lines_of :: "sess_op \<Rightarrow> string list" where
  "lines_of (SPublish e) = (if reType e = ''lines'' then reLines e else [])"
| "lines_of _ = []"

lemma close_all_sel: "backlog (fold (\<lambda>(i, c). close_viewer i c) ps s) = backlog s"
  by (induction ps arbitrary: s) (auto simp: close_viewer_def)

lemma backlog_step: "backlog s = window remoteBacklogLimit L \<Longrightarrow> backlog (sess_step op s) = window remoteBacklogLimit (L @ lines_of op)"
proof (cases op)
  case (SPublish e)
  assume b: "backlog s = window remoteBacklogLimit L"
  have "(if length b > remoteBacklogLimit then drop (length b - remoteBacklogLimit) b else b) = window remoteBacklogLimit b" for b :: "string list"
    by (simp add: window_def)
  with SPublish b show ?thesis by (simp add: publish_def Let_def window_window)
qed (simp_all add: attachAgent_def detachAgent_def addViewer_def removeViewer_def close_viewer_def command_def endSession_def
      viewer_recv_def agent_recv_def Let_def close_all_sel split: option.splits list.splits)

lemma backlog_run:
  "backlog s = window remoteBacklogLimit L \<Longrightarrow>
     backlog (fold sess_step ops s) = window remoteBacklogLimit (L @ concat (map lines_of ops))"
proof (induction ops arbitrary: s L)
  case (Cons op ops)
  from Cons.IH [OF backlog_step [OF Cons.prems, of op]] show ?case by simp
qed simp

datatype remote_op = ROCreate gotime "byte list" string | ROGet gotime string | ROEnd string | ROSweep gotime | ROSess nat sess_op

fun remote_step :: "remote_op \<Rightarrow> remoteHub \<Rightarrow> remoteHub" where
  "remote_step (ROCreate t b org) h = snd (hub_create t b org h)"
| "remote_step (ROGet t code) h = snd (hub_get t code h)"
| "remote_step (ROEnd code) h = hub_end code h"
| "remote_step (ROSweep t) h = hub_sweep t h"
| "remote_step (ROSess i op) h = upd_rs i (sess_step op) h"

definition hub_wf :: "remoteHub \<Rightarrow> bool" where
  "hub_wf h \<longleftrightarrow> (\<forall>s \<in> set (rhHeap h). session_ok s) \<and>
     (\<forall>(code, i) \<in> set (rhSessions h). i < length (rhHeap h) \<and> rsCode (rhHeap h ! i) = code)"

lemma sess_step_code: "rsCode (sess_step op s) = rsCode s" "rsExpiresAt (sess_step op s) = rsExpiresAt s" "rsOrgID (sess_step op s) = rsOrgID s"
proof -
  have c: "rsCode (fold (\<lambda>(i, c). close_viewer i c) ps s) = rsCode s \<and> rsExpiresAt (fold (\<lambda>(i, c). close_viewer i c) ps s) = rsExpiresAt s \<and>
      rsOrgID (fold (\<lambda>(i, c). close_viewer i c) ps s) = rsOrgID s" for ps s
    by (induction ps arbitrary: s) (auto simp: close_viewer_def)
  show "rsCode (sess_step op s) = rsCode s" "rsExpiresAt (sess_step op s) = rsExpiresAt s" "rsOrgID (sess_step op s) = rsOrgID s"
    by (cases op; simp add: c attachAgent_def detachAgent_def addViewer_def removeViewer_def close_viewer_def publish_def command_def
        endSession_def viewer_recv_def agent_recv_def Let_def split: option.splits list.splits)+
qed

lemma hub_wf_upd: "hub_wf h \<Longrightarrow> hub_wf (upd_rs i (sess_step op) h)"
  by (auto simp: hub_wf_def upd_rs_def session_ok_step nth_list_update sess_step_code dest!: set_update_subset_insert [THEN subsetD])

lemma hub_wf_end: "hub_wf h \<Longrightarrow> hub_wf (upd_rs i endSession h)"
proof -
  have "sess_step SEnd = endSession" by (rule ext) simp
  then show "hub_wf h \<Longrightarrow> hub_wf (upd_rs i endSession h)" using hub_wf_upd [of h i SEnd] by simp
qed

lemma hub_wf_fold_end: "hub_wf h \<Longrightarrow> hub_wf (fold (\<lambda>(code, i). upd_rs i endSession) xs h)"
proof (induction xs arbitrary: h)
  case (Cons x xs)
  then show ?case using hub_wf_end by (cases x) simp
qed simp

lemma hub_wf_drop: "hub_wf h \<Longrightarrow> set xs \<subseteq> set (rhSessions h) \<Longrightarrow> hub_wf (h\<lparr>rhSessions := xs\<rparr>)"
  by (auto simp: hub_wf_def)

lemma hub_wf_create: "hub_wf h \<Longrightarrow> hub_wf (snd (hub_create t b org h))"
  by (auto simp: hub_wf_def hub_create_def newRemoteSession_def session_ok_def Let_def nth_append dest!: set_gset_cases)

lemma hub_wf_step: "hub_wf h \<Longrightarrow> hub_wf (remote_step op h)"
proof (cases op)
  case (ROGet t code)
  assume "hub_wf h"
  with ROGet show ?thesis
    by (simp add: hub_get_def hub_wf_drop set_gdel_subset split: option.splits)
next
  case (ROEnd code)
  assume "hub_wf h"
  then have "hub_wf (h\<lparr>rhSessions := gdel code (rhSessions h)\<rparr>)" by (simp add: hub_wf_drop set_gdel_subset)
  with ROEnd hub_wf_end show ?thesis by (auto simp: hub_end_def split: option.splits)
next
  case (ROSweep t)
  assume "hub_wf h"
  with ROSweep show ?thesis by (auto simp: hub_sweep_def Let_def intro!: hub_wf_fold_end hub_wf_drop)
qed (simp_all add: hub_wf_create hub_wf_upd)

lemma hub_wf_run: "hub_wf (fold remote_step ops newRemoteHub)"
proof -
  have "hub_wf h \<Longrightarrow> hub_wf (fold remote_step ops h)" for h
    by (induction ops arbitrary: h) (simp_all add: hub_wf_step)
  moreover have "hub_wf newRemoteHub" by (simp add: hub_wf_def newRemoteHub_def)
  ultimately show ?thesis by blast
qed

text \<open>How a step may change what waits in a channel of an agent: the agent reads, or the channel is the one attached and a
  command or the end of the session is put into it.\<close>

definition command_event :: "string \<Rightarrow> remoteEvent" where
  "command_event txt = \<lparr>reType = ''command'', reLines = [], reState = None, reCommand = txt, reConnected = False\<rparr>"

definition chan_change :: "(string \<Rightarrow> bool) \<Rightarrow> bool \<Rightarrow> remoteEvent list \<Rightarrow> remoteEvent list \<Rightarrow> bool" where
  "chan_change sent attached q q' \<longleftrightarrow>
     q' = q \<or> q' = tl q \<or> attached \<and> ((\<exists>txt. sent txt \<and> q' = q @ [command_event txt]) \<or> q' = q @ [ended_event])"

lemma close_all_agent:
  "rsAgentChans (fold (\<lambda>(i, c). close_viewer i c) ps s) = rsAgentChans s" "rsEnded (fold (\<lambda>(i, c). close_viewer i c) ps s) = rsEnded s"
  by (induction ps arbitrary: s) (auto simp: close_viewer_def)

lemma nth_update: "k < length xs \<Longrightarrow> xs[j := y] ! k = (if j = k then y else xs ! k)"
  by simp

lemma chan_step:
  "chan_change (\<lambda>txt. op = SCommand txt) (agentCh s = Some k) (rsAgentChans s ! k) (rsAgentChans (sess_step op s) ! k)"
  if "k < length (rsAgentChans s)"
  using that
  by (cases op)
    (auto simp: chan_change_def command_event_def attachAgent_def detachAgent_def addViewer_def removeViewer_def close_viewer_def publish_def
      command_def endSession_def viewer_recv_def agent_recv_def Let_def close_all_agent try_send_def nth_append nth_update
      split: option.splits list.splits)

lemma endSession_idem: "endSession (endSession s) = endSession s"
proof -
  have "rsEnded (endSession s)" by (auto simp: endSession_def Let_def close_all_agent split: option.splits)
  then show ?thesis by (simp add: endSession_def)
qed

lemma fold_end_heap:
  "length (rhHeap (fold (\<lambda>(code, i). upd_rs i endSession) xs h)) = length (rhHeap h)"
  "j < length (rhHeap h) \<Longrightarrow> rhHeap (fold (\<lambda>(code, i). upd_rs i endSession) xs h) ! j =
     (if j \<in> snd ` set xs then endSession (rhHeap h ! j) else rhHeap h ! j)"
proof (induction xs arbitrary: h)
  case (Cons x xs)
  obtain code i where x: "x = (code, i)" by (cases x)
  have l: "length (rhHeap (upd_rs i endSession h)) = length (rhHeap h)" for h by (simp add: upd_rs_def)
  { case 1 show ?case using Cons.IH(1) [of "upd_rs i endSession h"] by (simp add: x l) }
  { case 2
    have "rhHeap (upd_rs i endSession h) ! j = (if j = i then endSession (rhHeap h ! j) else rhHeap h ! j)"
      using 2 by (auto simp: upd_rs_def)
    with 2 Cons.IH(2) [of "upd_rs i endSession h"] show ?case by (auto simp: x l endSession_idem) }
qed simp_all

lemma remote_step_heap:
  assumes "i < length (rhHeap h)"
  shows "rhHeap (remote_step op h) ! i \<in> {rhHeap h ! i, endSession (rhHeap h ! i)} \<or>
    (\<exists>sop. op = ROSess i sop \<and> rhHeap (remote_step op h) ! i = sess_step sop (rhHeap h ! i))"
  using assms
  by (cases op)
    (auto simp: hub_create_def hub_get_def hub_end_def hub_sweep_def upd_rs_def Let_def nth_append fold_end_heap nth_list_update split: option.splits)

lemma remote_chan_step:
  assumes "i < length (rhHeap h)" "k < length (rsAgentChans (rhHeap h ! i))"
  shows "chan_change (\<lambda>txt. op = ROSess i (SCommand txt)) (agentCh (rhHeap h ! i) = Some k)
     (rsAgentChans (rhHeap h ! i) ! k) (rsAgentChans (rhHeap (remote_step op h) ! i) ! k)"
proof -
  consider "rhHeap (remote_step op h) ! i = rhHeap h ! i" | "rhHeap (remote_step op h) ! i = sess_step SEnd (rhHeap h ! i)"
    | sop where "op = ROSess i sop" "rhHeap (remote_step op h) ! i = sess_step sop (rhHeap h ! i)"
    using remote_step_heap [OF assms(1), of op] by auto
  then show ?thesis
  proof cases
    case 1
    then show ?thesis by (simp add: chan_change_def)
  next
    case 2
    then show ?thesis using chan_step [OF assms(2), of SEnd] by (auto simp: chan_change_def)
  next
    case (3 sop)
    then show ?thesis using chan_step [OF assms(2), of sop] by (auto simp: chan_change_def)
  qed
qed

text \<open>C29. In every interleaving of the handlers of the relay, also when a handler goes on using a session that has ended,
  no send hits a closed channel and no channel is closed twice (either would crash the control plane), no channel of an
  agent or of a viewer holds more than 32 events and no session keeps more than 200 lines, a code leads only to the
  session made for it, and commands reach only the attached agent: whatever happens next, a command is put into a channel
  only as the step that posts it to that session, and only into the channel of the agent that is attached to it.\<close>

theorem remote_relay_safe:
  fixes ops
  defines "h \<equiv> fold remote_step ops newRemoteHub"
  shows "(\<forall>s \<in> set (rhHeap h).
      \<not> rsPanic s \<and> (\<forall>(i, c) \<in> set (rsViewers s). \<not> rcClosed c \<and> length (rcBuf c) \<le> 32) \<and>
      (\<forall>q \<in> set (rsAgentChans s). length q \<le> 32) \<and> length (backlog s) \<le> 200)
   \<and> (\<forall>code i. gget (rhSessions h) code = Some i \<longrightarrow> rsCode (rhHeap h ! i) = code)
   \<and> (\<forall>op i k. i < length (rhHeap h) \<and> k < length (rsAgentChans (rhHeap h ! i)) \<longrightarrow>
        (let q = rsAgentChans (rhHeap h ! i) ! k; q' = rsAgentChans (rhHeap (remote_step op h) ! i) ! k
         in q' = q \<or> q' = tl q \<or>
            agentCh (rhHeap h ! i) = Some k \<and>
              ((\<exists>txt. op = ROSess i (SCommand txt) \<and> q' = q @ [command_event txt]) \<or> q' = q @ [ended_event])))"
proof (intro conjI)
  note wf = hub_wf_run [of ops, folded h_def]
  show "\<forall>s \<in> set (rhHeap h).
      \<not> rsPanic s \<and> (\<forall>(i, c) \<in> set (rsViewers s). \<not> rcClosed c \<and> length (rcBuf c) \<le> 32) \<and>
      (\<forall>q \<in> set (rsAgentChans s). length q \<le> 32) \<and> length (backlog s) \<le> 200"
    using wf by (auto simp: hub_wf_def session_ok_def viewer_ok_def remoteBacklogLimit_def) fastforce+
  show "\<forall>code i. gget (rhSessions h) code = Some i \<longrightarrow> rsCode (rhHeap h ! i) = code"
    using wf by (auto simp: hub_wf_def dest!: gget_SomeD)
  show "\<forall>op i k. i < length (rhHeap h) \<and> k < length (rsAgentChans (rhHeap h ! i)) \<longrightarrow>
        (let q = rsAgentChans (rhHeap h ! i) ! k; q' = rsAgentChans (rhHeap (remote_step op h) ! i) ! k
         in q' = q \<or> q' = tl q \<or>
            agentCh (rhHeap h ! i) = Some k \<and>
              ((\<exists>txt. op = ROSess i (SCommand txt) \<and> q' = q @ [command_event txt]) \<or> q' = q @ [ended_event]))"
    using remote_chan_step [of _ h] unfolding chan_change_def Let_def by blast
qed

theorem remote_relay_safe_witness:
  "\<exists>s. rhHeap (fold remote_step [ROCreate 0 [] ''o'', ROSess 0 SAddViewer, ROEnd '''', ROSess 0 (SPublish ended_event), ROSess 0 (SRemoveViewer 0)]
       newRemoteHub) = [s] \<and> rsEnded s \<and> \<not> rsPanic s"
proof -
  let ?ops = "[ROCreate 0 [] ''o'', ROSess 0 SAddViewer, ROEnd '''', ROSess 0 (SPublish ended_event), ROSess 0 (SRemoveViewer 0)]"
  have "length (rhHeap (fold remote_step ?ops newRemoteHub)) = 1 \<and> rsEnded (rhHeap (fold remote_step ?ops newRemoteHub) ! 0)"
    by (simp add: newRemoteHub_def hub_create_def newRemoteSession_def newRemoteCode_def group4.simps Let_def upd_rs_def hub_end_def
        addViewer_def endSession_def publish_def removeViewer_def close_viewer_def broadcastViewersLocked_def ended_event_def)
  with remote_relay_safe [of ?ops] show ?thesis by (cases "rhHeap (fold remote_step ?ops newRemoteHub)") auto
qed

text \<open>A phone that joins a pairing at any point of its life first gets the last 200 lines of everything the console has
  published, then the state and whether the console is connected; from then on it gets the events in the order they
  happen, none twice and none from elsewhere, and all of them as long as it never leaves 32 of them unread.\<close>

theorem remote_viewer_mirror:
  fixes ops ps code org t
  defines "s \<equiv> fold sess_step ops (newRemoteSession code org t)"
  defines "i \<equiv> fst (addViewer s)" and "s1 \<equiv> snd (addViewer s)"
  defines "lines \<equiv> concat (map lines_of ops)"
  assumes "FUnsubscribe i \<notin> set ps"
  shows "(\<exists>q. open_chan (fold rv.step ps s1) i = Some q \<and>
      subseq (rv.received i ps s1 @ q) (context_of s @ rv.published ps s1) \<and>
      (rv.keeps_up i ps s1 \<longrightarrow> rv.received i ps s1 @ q = context_of s @ rv.published ps s1))
    \<and> (lines \<noteq> [] \<longrightarrow> reType (hd (context_of s)) = ''lines'' \<and>
        reLines (hd (context_of s)) = drop (length lines - 200) lines)"
proof
  have b: "backlog s = window remoteBacklogLimit lines"
    unfolding s_def lines_def using backlog_run [of "newRemoteSession code org t" "[]" ops]
    by (simp add: newRemoteSession_def window_def)
  have "lines \<noteq> [] \<Longrightarrow> drop (length lines - 200) lines \<noteq> []" by (cases lines) auto
  with b show "lines \<noteq> [] \<longrightarrow> reType (hd (context_of s)) = ''lines'' \<and>
        reLines (hd (context_of s)) = drop (length lines - 200) lines"
    by (simp add: context_of_def window_def remoteBacklogLimit_def del: drop_eq_Nil)
  have "i < nextViewer s1" "open_chan s1 i = Some (context_of s)"
    by (simp_all add: i_def s1_def addViewer_def open_chan_def)
  from rv.subscriber_sees [OF this assms(5)]
  show "\<exists>q. open_chan (fold rv.step ps s1) i = Some q \<and>
      subseq (rv.received i ps s1 @ q) (context_of s @ rv.published ps s1) \<and>
      (rv.keeps_up i ps s1 \<longrightarrow> rv.received i ps s1 @ q = context_of s @ rv.published ps s1)" .
qed

definition ex_line :: "string \<Rightarrow> remoteEvent" where
  "ex_line l = \<lparr>reType = ''lines'', reLines = [l], reState = None, reCommand = '''', reConnected = False\<rparr>"

theorem remote_viewer_mirror_witness:
  "let s = fold sess_step [SPublish (ex_line ''a''), SPublish (ex_line ''b'')] (newRemoteSession ''c'' ''o'' 0)
   in reLines (hd (context_of s)) = [''a'', ''b'']"
  using remote_viewer_mirror [where ps = "[]" and ops = "[SPublish (ex_line ''a''), SPublish (ex_line ''b'')]" and code = "''c''"
      and org = "''o''" and t = 0]
  by (simp add: ex_line_def Let_def del: sess_step.simps)

text \<open>
  A look-up of an expired session takes it out of the hub without ending it. From then on no ending and no sweep reaches
  it, and its viewers and its agent wait for an end that never comes.
\<close>

definition unreachable :: "nat \<Rightarrow> remoteSession \<Rightarrow> remoteHub \<Rightarrow> bool" where
  "unreachable i s h \<longleftrightarrow> i < length (rhHeap h) \<and> rhHeap h ! i = s \<and> (\<forall>(code, j) \<in> set (rhSessions h). j \<noteq> i)"

lemma unreachable_fold_end:
  "unreachable i s h \<Longrightarrow> \<forall>(code, j) \<in> set xs. j \<noteq> i \<Longrightarrow> unreachable i s (fold (\<lambda>(code, j). upd_rs j endSession) xs h)"
proof (induction xs arbitrary: h)
  case (Cons x xs)
  obtain code j where x: "x = (code, j)" by (cases x)
  with Cons.prems have "unreachable i s (upd_rs j endSession h)" by (auto simp: unreachable_def upd_rs_def)
  with Cons.IH Cons.prems(2) x show ?case by simp
qed simp

lemma unreachable_drop: "unreachable i s h \<Longrightarrow> set xs \<subseteq> set (rhSessions h) \<Longrightarrow> unreachable i s (h\<lparr>rhSessions := xs\<rparr>)"
  by (auto simp: unreachable_def)

lemma unreachable_step:
  assumes "unreachable i s h" "\<forall>j op'. op = ROSess j op' \<longrightarrow> j \<noteq> i"
  shows "unreachable i s (remote_step op h)"
proof (cases op)
  case (ROCreate t b org)
  with assms show ?thesis by (auto simp: unreachable_def hub_create_def Let_def nth_append dest!: set_gset_cases)
next
  case (ROGet t code)
  with assms show ?thesis by (simp add: hub_get_def unreachable_drop set_gdel_subset split: option.splits)
next
  case (ROEnd code)
  have d: "unreachable i s (h\<lparr>rhSessions := gdel code (rhSessions h)\<rparr>)" using assms(1) by (simp add: unreachable_drop set_gdel_subset)
  have "j \<noteq> i" if "gget (rhSessions h) code = Some j" for j
    using that assms(1) by (auto simp: unreachable_def dest!: gget_SomeD)
  with ROEnd d show ?thesis by (auto simp: hub_end_def unreachable_def upd_rs_def split: option.splits)
next
  case (ROSweep t)
  with assms(1) show ?thesis
    by (auto simp: hub_sweep_def Let_def unreachable_def intro!: unreachable_fold_end [unfolded unreachable_def])
next
  case (ROSess j op')
  with assms show ?thesis by (auto simp: unreachable_def upd_rs_def)
qed

theorem expired_lookup_orphans_viewers:
  assumes "hub_wf h" "gomap_ok (rhSessions h)" "gget (rhSessions h) code = Some i" "t > rsExpiresAt (rhHeap h ! i)"
    "\<forall>j op. ROSess j op \<in> set ops \<longrightarrow> j \<noteq> i"
  shows "rhHeap (fold remote_step ops (snd (hub_get t code h))) ! i = rhHeap h ! i"
proof -
  have i: "i < length (rhHeap h)" "rsCode (rhHeap h ! i) = code" using assms(1,3) by (auto simp: hub_wf_def dest!: gget_SomeD)
  have "j \<noteq> i" if "(c, j) \<in> set (gdel code (rhSessions h))" for c j
  proof
    assume "j = i"
    with that assms(1) i(2) have "c = code" by (auto simp: hub_wf_def AList.delete_eq)
    with that show False by (simp add: AList.delete_eq)
  qed
  with assms(3,4) i have "unreachable i (rhHeap h ! i) (snd (hub_get t code h))"
    by (auto simp: unreachable_def hub_get_def)
  moreover have "unreachable i s h' \<Longrightarrow> \<forall>j op. ROSess j op \<in> set ops \<longrightarrow> j \<noteq> i \<Longrightarrow> unreachable i s (fold remote_step ops h')" for s h'
  proof (induction ops arbitrary: h')
    case (Cons op ops)
    have "unreachable i s (remote_step op h')" using Cons.prems by (intro unreachable_step) auto
    moreover have "\<forall>j op. ROSess j op \<in> set ops \<longrightarrow> j \<noteq> i" using Cons.prems(2) by auto
    ultimately show ?case using Cons.IH by simp
  qed simp
  ultimately show ?thesis using assms(5) by (auto simp: unreachable_def)
qed


end
