(* ===== verification/RemoteAgent.thy ===== *)
theory RemoteAgent
  imports LocalApi Remote
begin

text \<open>
  The agent's side of a remote-control pairing (\<^verbatim>\<open>internal/agent/remoteapi.go\<close>): the pump that turns the events of the
  control plane into events of the control API. Starting and stopping a pairing and publishing are in theory \<open>LocalApi\<close>,
  the relay it talks to is theory \<open>Remote\<close>.
\<close>

section \<open>The pump\<close>

datatype pump_error = PumpEnded | PumpFailed string

text \<open>\<^verbatim>\<open>bufio.Scanner\<close> with a limit of 1 MiB: the lines, and whether a line was too long.\<close>

definition dropCR :: "string \<Rightarrow> string" where
  "dropCR l = (if l \<noteq> [] \<and> last l = CHR 0x0D then butlast l else l)"

fun scan_lines :: "string list \<Rightarrow> string list \<times> bool" where
  "scan_lines [] = ([], False)"
| "scan_lines [l] = (if l = [] then ([], False) else if length l \<ge> 2 ^ 20 then ([], True) else ([dropCR l], False))"
| "scan_lines (l # ls) =
     (if length l \<ge> 2 ^ 20 then ([], True) else (case scan_lines ls of (ls', b) \<Rightarrow> (dropCR l # ls', b)))"

record remoteWireEvent =
  rwType :: string
  rwCommand :: string
  rwConnected :: bool

definition data_prefix :: string where "data_prefix = ''data: ''"

text \<open>The loop over the lines: the events broadcast, and whether it ended with \<^verbatim>\<open>ended\<close>. \<open>dec\<close> is the JSON decoder.\<close>

fun pump_lines :: "(string \<Rightarrow> remoteWireEvent option) \<Rightarrow> string list \<Rightarrow> RemoteEvent list \<times> bool" where
  "pump_lines dec [] = ([], False)"
| "pump_lines dec (l # ls) =
     (if \<not> has_prefix l data_prefix then pump_lines dec ls
      else (case dec (drop (length data_prefix) l) of
              None \<Rightarrow> pump_lines dec ls
            | Some e \<Rightarrow>
                if rwType e = ''command'' then map_prod (\<lambda>es. RemoteCommand (rwCommand e) # es) (\<lambda>b. b) (pump_lines dec ls)
                else if rwType e = ''presence'' then map_prod (\<lambda>es. RemotePresence (rwConnected e) # es) (\<lambda>b. b) (pump_lines dec ls)
                else if rwType e = ''ended'' then ([], True)
                else pump_lines dec ls))"

text \<open>One connection: \<open>Inl\<close> is a failure to connect, \<open>Inr\<close> a status with the text of the stream until it ends.\<close>

definition pumpRemoteOnce ::
  "(string \<Rightarrow> remoteWireEvent option) \<Rightarrow> string + int \<times> string \<Rightarrow> pump_error option \<times> RemoteEvent list" where
  "pumpRemoteOnce dec conn =
     (case conn of
        Inl err \<Rightarrow> (Some (PumpFailed err), [])
      | Inr (status, txt) \<Rightarrow>
          if status = 404 then (Some PumpEnded, [])
          else if status \<noteq> 200 then (Some (PumpFailed (''remote agent stream: status '' @ show_int status)), [])
          else (case scan_lines (split_byte newline txt) of
                  (ls, toolong) \<Rightarrow>
                    (case pump_lines dec ls of
                       (es, ended) \<Rightarrow>
                         (if ended then Some PumpEnded
                          else if toolong then Some (PumpFailed ''bufio.Scanner: token too long'') else None, es))))"

definition broadcastAll :: "RemoteEvent list \<Rightarrow> LocalAPI \<Rightarrow> LocalAPI" where
  "broadcastAll es st = fold (\<lambda>e. broadcast (EventRemote e)) es st"

text \<open>
  What the pump of \<open>code\<close> does when its session has ended: it takes the pairing out, and puts a newer one back. Another
  goroutine may run between the two.
\<close>

definition pumpTake :: "LocalAPI \<Rightarrow> remotePairing option \<times> LocalAPI" where
  "pumpTake st = swapRemote None st"

definition pumpSettle :: "string \<Rightarrow> remotePairing option \<Rightarrow> LocalAPI \<Rightarrow> LocalAPI" where
  "pumpSettle code old st =
     (case old of
        Some p \<Rightarrow> if rpCode p \<noteq> code then snd (swapRemote (Some p) st) else broadcastAll [RemoteEnded] st
      | None \<Rightarrow> broadcastAll [RemoteEnded] st)"

text \<open>The loop of the pump of context \<open>ctx\<close> over its connections, with nothing else running. A second passes between two.\<close>

fun pumpRemote ::
  "(string \<Rightarrow> remoteWireEvent option) \<Rightarrow> string \<Rightarrow> nat \<Rightarrow> (string + int \<times> string) list \<Rightarrow> LocalAPI \<Rightarrow> LocalAPI" where
  "pumpRemote dec code ctx [] st = st"
| "pumpRemote dec code ctx (conn # conns) st =
     (if ctx \<in> set (laCancelled st) then st
      else (case pumpRemoteOnce dec conn of
              (err, es) \<Rightarrow>
                let st1 = broadcastAll es st in
                if err = Some PumpEnded then (case pumpTake st1 of (old, st2) \<Rightarrow> pumpSettle code old st2)
                else pumpRemote dec code ctx conns st1))"

section \<open>From the phone to the console\<close>

text \<open>
  The JSON library: an event is encoded on one line that decodes to its type, command and flag. A line of the
  stream has to fit the reader's buffer.
\<close>

definition wire :: "remoteEvent \<Rightarrow> remoteWireEvent" where
  "wire e = \<lparr>rwType = reType e, rwCommand = reCommand e, rwConnected = reConnected e\<rparr>"

definition json_lawful :: "(remoteEvent \<Rightarrow> string) \<Rightarrow> (string \<Rightarrow> remoteWireEvent option) \<Rightarrow> remoteEvent set \<Rightarrow> bool" where
  "json_lawful enc dec E \<longleftrightarrow>
     (\<forall>e \<in> E. dec (enc e) = Some (wire e) \<and> newline \<notin> set (enc e) \<and> enc e \<noteq> [] \<and> last (enc e) \<noteq> CHR 0x0D \<and> length (enc e) + 6 < 2 ^ 20)"

definition to_remote :: "remoteEvent \<Rightarrow> RemoteEvent list" where
  "to_remote e =
     (if reType e = ''command'' then [RemoteCommand (reCommand e)]
      else if reType e = ''presence'' then [RemotePresence (reConnected e)] else [])"

lemma split_frames:
  assumes "\<forall>e \<in> set es. newline \<notin> set (enc e)"
  shows "split_byte newline (concat (map (sse_event enc) es)) = concat (map (\<lambda>e. [''data: '' @ enc e, []]) es) @ [[]]"
  using assms
proof (induction es)
  case (Cons e es)
  have "newline \<notin> set (''data: '' @ enc e)" using Cons.prems by simp
  then have "split_byte newline ((''data: '' @ enc e) @ newline # newline # rest) = (''data: '' @ enc e) # [] # split_byte newline rest"
    for rest by (simp only: split_byte_append split_byte.simps if_True simp_thms)
  moreover have "concat (map (sse_event enc) (e # es)) = (''data: '' @ enc e) @ newline # newline # concat (map (sse_event enc) es)"
    by (simp add: sse_event_def)
  moreover have "split_byte newline (concat (map (sse_event enc) es)) = concat (map (\<lambda>e. [''data: '' @ enc e, []]) es) @ [[]]"
    using Cons by simp
  ultimately show ?case by (simp only: list.map concat.simps append.simps append_assoc)
qed simp

lemma scan_lines_ok: "\<forall>l \<in> set ls. length l < 2 ^ 20 \<and> dropCR l = l \<Longrightarrow> scan_lines (ls @ [[]]) = (ls, False)"
proof (induction ls)
  case (Cons l ls)
  then show ?case by (cases ls) auto
qed simp

lemma scan_stream:
  assumes "json_lawful enc dec (set es)" "\<forall>e \<in> set es. reType e \<noteq> ''ended''"
  shows "scan_lines (split_byte newline (sse_stream enc es)) =
     ('': connected'' # [] # concat (map (\<lambda>e. [''data: '' @ enc e, []]) es), False)"
proof -
  have "upto_ended es = es" using assms(2) by (induction es) auto
  moreover have "newline \<notin> set '': connected''" by simp
  moreover have n: "\<forall>e \<in> set es. newline \<notin> set (enc e)" using assms(1) by (simp add: json_lawful_def)
  ultimately have "split_byte newline (sse_stream enc es) =
      ('': connected'' # [] # concat (map (\<lambda>e. [''data: '' @ enc e, []]) es)) @ [[]]"
    unfolding sse_stream_def by (simp add: split_frames [OF n])
  moreover have "length l < 2 ^ 20 \<and> dropCR l = l"
    if "l \<in> set ('': connected'' # [] # concat (map (\<lambda>e. [''data: '' @ enc e, []]) es))" for l
    using that assms(1) by (auto simp: json_lawful_def dropCR_def)
  ultimately show ?thesis by (metis scan_lines_ok)
qed

lemma pump_stream:
  assumes "json_lawful enc dec (set es)" "\<forall>e \<in> set es. reType e \<noteq> ''ended''"
  shows "pumpRemoteOnce dec (Inr (200, sse_stream enc es)) = (None, concat (map to_remote es))"
proof -
  have "pump_lines dec (concat (map (\<lambda>e. [''data: '' @ enc e, []]) es)) = (concat (map to_remote es), False)"
    using assms
    by (induction es) (auto simp: json_lawful_def to_remote_def wire_def data_prefix_def has_prefix_def)
  then show ?thesis
    using scan_stream [OF assms] by (simp add: pumpRemoteOnce_def data_prefix_def has_prefix_def)
qed

lemma broadcast_sub: "gget (laSubs (broadcast e l)) n = map_option (try_send 64 e) (gget (laSubs l) n)"
  by (simp add: broadcast_def map_of_map)

lemma broadcastAll_sub:
  "gget (laSubs l) n = Some evs \<Longrightarrow> length evs + length es \<le> 64 \<Longrightarrow>
     gget (laSubs (broadcastAll es l)) n = Some (evs @ map EventRemote es)"
proof (induction es arbitrary: evs l)
  case (Cons e es)
  have "gget (laSubs (broadcast (EventRemote e) l)) n = Some (evs @ [EventRemote e])"
    using Cons.prems by (simp add: broadcast_sub try_send_def)
  from Cons.IH [OF this] Cons.prems(2) show ?case by (simp add: broadcastAll_def)
qed (simp add: broadcastAll_def)

text \<open>C30. A command from a phone gets to the console. A command of 1 to 240 bytes that a phone sends under the code
  of a live pairing, whose agent is attached and not 32 events behind, is accepted; the stream the relay then writes,
  as encoded by the JSON library, makes the pump of the agent emit everything that was waiting, in order, and the
  command last; and a console subscribed to the events of that agent, with room in its channel of 64, has them at the
  end of it. No other session of the relay changes.\<close>

theorem remote_command_end_to_end:
  fixes ops t code x
  defines "h \<equiv> fold remote_step ops newRemoteHub"
    and "c \<equiv> \<lparr>reType = ''command'', reLines = [], reState = None, reCommand = x, reConnected = False\<rparr>"
  assumes "gget (rhSessions h) code = Some i" "t \<le> rsExpiresAt (rhHeap h ! i)" "agentCh (rhHeap h ! i) = Some ch"
    and q: "rsAgentChans (rhHeap h ! i) ! ch = q" "length q < 32" "\<forall>e \<in> set q. reType e \<noteq> ''ended''"
    and "0 < length x" "length x \<le> 240"
    and "json_lawful enc dec (set (q @ [c]))"
    and sub: "gget (laSubs l) n = Some evs" "length evs + length (concat (map to_remote q)) < 64"
  shows "\<exists>h' es. handleRemoteCommand t code (Some x) h = (204, h') \<and>
     pumpRemoteOnce dec (Inr (200, sse_stream enc (rsAgentChans (rhHeap h' ! i) ! ch))) = (None, es) \<and>
     es = concat (map to_remote q) @ [RemoteCommand x] \<and>
     gget (laSubs (broadcastAll es l)) n = Some (evs @ map EventRemote es) \<and>
     (\<forall>j. j \<noteq> i \<longrightarrow> rhHeap h' ! j = rhHeap h ! j)"
proof -
  let ?s = "rhHeap h ! i" and ?h = "upd_rs i (\<lambda>s. snd (command x s)) h" and ?es = "concat (map to_remote q) @ [RemoteCommand x]"
  have wf: "hub_wf h" unfolding h_def by (rule hub_wf_run)
  have i: "i < length (rhHeap h)" using wf assms(3) by (auto simp: hub_wf_def dest!: gget_SomeD)
  with wf have "session_ok ?s" by (simp add: hub_wf_def)
  with assms(5) have ch: "ch < length (rsAgentChans ?s)" by (simp add: session_ok_def)
  have cmd: "command x ?s = (True, ?s\<lparr>rsAgentChans := (rsAgentChans ?s)[ch := q @ [c]]\<rparr>)"
    using assms(5) q by (simp add: command_def c_def)
  have "handleRemoteCommand t code (Some x) h = (204, ?h)"
    using assms(3-4,9-10) by (simp add: handleRemoteCommand_def hub_get_def cmd)
  moreover have "rsAgentChans (rhHeap ?h ! i) ! ch = q @ [c]" using i ch by (simp add: upd_rs_def cmd)
  moreover have "pumpRemoteOnce dec (Inr (200, sse_stream enc (q @ [c]))) = (None, ?es)"
    using pump_stream [OF assms(11)] q(3) by (simp add: c_def to_remote_def)
  moreover have "gget (laSubs (broadcastAll ?es l)) n = Some (evs @ map EventRemote ?es)"
    using broadcastAll_sub [OF sub(1), of ?es] sub(2) by simp
  moreover have "j \<noteq> i \<Longrightarrow> rhHeap ?h ! j = rhHeap h ! j" for j by (simp add: upd_rs_def)
  ultimately show ?thesis by auto
qed

text \<open>The encoding of a command by \<^verbatim>\<open>encoding/json\<close>, for text that needs no escapes.\<close>

definition ex_enc :: "remoteEvent \<Rightarrow> string" where
  "ex_enc e = ''{\"type\":\"'' @ reType e @ ''\",\"command\":\"'' @ reCommand e @ ''\"}''"

definition ex_dec :: "string \<Rightarrow> remoteWireEvent option" where
  "ex_dec t =
     (case split_byte CHR 0x22 t of
        [a, k1, b, ty, d, k2, f, cmd, g] \<Rightarrow>
          if k1 = ''type'' \<and> k2 = ''command'' then Some \<lparr>rwType = ty, rwCommand = cmd, rwConnected = False\<rparr> else None
      | _ \<Rightarrow> None)"

theorem remote_command_end_to_end_witness:
  "\<exists>h' es. handleRemoteCommand 5 '''' (Some ''ls'') (fold remote_step [ROCreate 0 [] ''o'', ROSess 0 SAttach] newRemoteHub) = (204, h')
     \<and> gget (laSubs (broadcastAll es (snd (la_subscribe (NewLocalAPI (newAgent DefaultAgentCfg) NoFile))))) 0 = Some [EventRemote (RemoteCommand ''ls'')]"
proof -
  let ?ops = "[ROCreate 0 [] ''o'', ROSess 0 SAttach]" and ?l = "snd (la_subscribe (NewLocalAPI (newAgent DefaultAgentCfg) NoFile))"
  let ?h = "fold remote_step ?ops newRemoteHub"
  have f: "rhHeap ?h ! 0 = snd (attachAgent (newRemoteSession '''' ''o'' 0))" "gget (rhSessions ?h) '''' = Some 0"
    by (simp_all add: newRemoteHub_def hub_create_def newRemoteSession_def newRemoteCode_def group4.simps Let_def upd_rs_def)
  have s: "agentCh (rhHeap ?h ! 0) = Some 0" "rsAgentChans (rhHeap ?h ! 0) ! 0 = []" "5 \<le> rsExpiresAt (rhHeap ?h ! 0)"
    unfolding f by (simp_all add: attachAgent_def newRemoteSession_def Let_def remoteSessionTTL_def)
  have j: "json_lawful ex_enc ex_dec {\<lparr>reType = ''command'', reLines = [], reState = None, reCommand = ''ls'', reConnected = False\<rparr>}"
    by (simp add: json_lawful_def ex_enc_def ex_dec_def wire_def)
  have sub: "gget (laSubs ?l) 0 = Some []" by (simp add: la_subscribe_def NewLocalAPI_def)
  show ?thesis
    using remote_command_end_to_end [of ?ops "''''" 0 5 0 "[]" "''ls''" ex_enc ex_dec ?l 0 "[]"] f(2) s j sub by auto
qed

section \<open>Stopping while an older pump settles\<close>

text \<open>
  The pump of an ended pairing takes the newer one out of its place for a moment. A stop that falls into that moment
  finds nothing to stop, and the pairing is back afterwards: not ended, not cancelled and still reported as stopped.
\<close>

theorem stop_undone_by_older_pump:
  assumes "laRemote st = Some p" "rpCode p \<noteq> code" "pumpTake st = (old, st1)"
  shows "pumpSettle code old (remoteStop ve st1) = st"
proof -
  have st: "old = Some p" "st1 = st\<lparr>laRemote := None\<rparr>" using assms(1,3) by (simp_all add: pumpTake_def swapRemote_def)
  have "remoteStop ve st1 = st1" by (simp add: remoteStop_def swapRemote_def st)
  moreover have "st\<lparr>laRemote := Some p\<rparr> = st" using assms(1) by (cases st) simp
  ultimately show ?thesis using assms(2) by (simp add: pumpSettle_def swapRemote_def st)
qed

lemma stop_ends_pairing:
  assumes "laRemote st = Some p" "pairKey ve st \<noteq> ''''" "rpCode p \<noteq> ''''" "\<And>u. lvURLErr ve u = None"
  shows "laRemote (remoteStop ve st) = None \<and> (pairKey ve st, rpCode p) \<in> set (laEnds (remoteStop ve st)) \<and>
    rpCtx p \<in> set (laCancelled (remoteStop ve st))"
  using assms by (simp add: remoteStop_def swapRemote_def dropPairing_def endRemoteSession_def cancel_def pairKey_def)


end
