(* ===== verification/CertStore.thy ===== *)
theory CertStore
  imports Config "HOL-Library.Char_ord" "HOL-Library.List_Lexorder"
begin

text \<open>
  The certificate storage that edges share (\<^verbatim>\<open>internal/server/tls_storage_redis.go\<close>): files in Redis hashes with an index,
  and locks with a lease. Redis is a state of its own that executes one command or transaction at a time; \<open>up\<close> says
  whether a command reaches it. Each edge is an instance with a table of the locks it holds. A token is a random value
  and an argument. The three name spaces of keys are three maps here, without their prefixes.
\<close>

section \<open>Redis\<close>

record cert_file =
  cfValue :: "byte list"
  cfSize :: string
  cfModNs :: string

record cert_redis =
  crFiles :: "(string, cert_file) gomap"
  crIndex :: "string list"
  crLocks :: "(string, string \<times> gotime) gomap"

definition no_redis :: cert_redis where
  "no_redis = \<lparr>crFiles = [], crIndex = [], crLocks = []\<rparr>"

definition sadd :: "string \<Rightarrow> string list \<Rightarrow> string list" where
  "sadd x xs = (if x \<in> set xs then xs else x # xs)"

text \<open>\<^verbatim>\<open>GET\<close> of a key with an expiry.\<close>

definition lock_value :: "gotime \<Rightarrow> string \<Rightarrow> cert_redis \<Rightarrow> string option" where
  "lock_value t key r = (case gget (crLocks r) key of Some (tok, ex) \<Rightarrow> if t < ex then Some tok else None | None \<Rightarrow> None)"

text \<open>\<^verbatim>\<open>SET key token NX PX ttl\<close>.\<close>

definition set_nx :: "gotime \<Rightarrow> string \<Rightarrow> string \<Rightarrow> duration \<Rightarrow> cert_redis \<Rightarrow> bool \<times> cert_redis" where
  "set_nx t key tok ttl r =
     (if lock_value t key r = None then (True, r\<lparr>crLocks := gset key (tok, t + ttl) (crLocks r)\<rparr>) else (False, r))"

definition releaseScript :: "gotime \<Rightarrow> string \<Rightarrow> string \<Rightarrow> cert_redis \<Rightarrow> cert_redis" where
  "releaseScript t key tok r = (if lock_value t key r = Some tok then r\<lparr>crLocks := gdel key (crLocks r)\<rparr> else r)"

definition refreshScript :: "gotime \<Rightarrow> string \<Rightarrow> string \<Rightarrow> duration \<Rightarrow> cert_redis \<Rightarrow> cert_redis" where
  "refreshScript t key tok ttl r =
     (if lock_value t key r = Some tok then r\<lparr>crLocks := gset key (tok, t + ttl) (crLocks r)\<rparr> else r)"

section \<open>Files\<close>

datatype 'a cert_result = CertOk 'a | ErrNotExist | ErrRedis

definition unix_nano :: "gotime \<Rightarrow> int" where
  "unix_nano t = t - 62135596800 * second"

definition cs_Store :: "bool \<Rightarrow> gotime \<Rightarrow> string \<Rightarrow> byte list \<Rightarrow> cert_redis \<Rightarrow> unit cert_result \<times> cert_redis" where
  "cs_Store up t key v r =
     (if \<not> up then (ErrRedis, r)
      else (CertOk (), r\<lparr>crFiles := gset key \<lparr>cfValue = v, cfSize = show_int (int (length v)), cfModNs = show_int (unix_nano t)\<rparr> (crFiles r),
                         crIndex := sadd key (crIndex r)\<rparr>))"

definition cs_Load :: "bool \<Rightarrow> string \<Rightarrow> cert_redis \<Rightarrow> byte list cert_result" where
  "cs_Load up key r =
     (if \<not> up then ErrRedis
      else (case gget (crFiles r) key of None \<Rightarrow> ErrNotExist | Some f \<Rightarrow> CertOk (cfValue f)))"

definition under :: "string \<Rightarrow> string \<Rightarrow> bool" where
  "under key m \<longleftrightarrow> has_prefix m (key @ ''/'')"

text \<open>Deleting reads the index first and removes what it found in a transaction later.\<close>

definition delete_plan :: "string \<Rightarrow> cert_redis \<Rightarrow> string list" where
  "delete_plan key r = filter (\<lambda>m. m = key \<or> under key m) (crIndex r)"

definition delete_exec :: "string list \<Rightarrow> cert_redis \<Rightarrow> cert_redis" where
  "delete_exec victims r =
     r\<lparr>crFiles := filter (\<lambda>(k, f). k \<notin> set victims) (crFiles r), crIndex := filter (\<lambda>m. m \<notin> set victims) (crIndex r)\<rparr>"

definition cs_Delete :: "bool \<Rightarrow> string \<Rightarrow> cert_redis \<Rightarrow> unit cert_result \<times> cert_redis" where
  "cs_Delete up key r =
     (if \<not> up then (ErrRedis, r)
      else
        let victims = delete_plan key r in
        if victims = [] then (CertOk (), r) else (CertOk (), delete_exec victims r))"

definition hasChildren :: "string \<Rightarrow> cert_redis \<Rightarrow> bool" where
  "hasChildren key r \<longleftrightarrow> (\<exists>m \<in> set (crIndex r). under key m)"

definition cs_Exists :: "bool \<Rightarrow> string \<Rightarrow> cert_redis \<Rightarrow> bool" where
  "cs_Exists up key r \<longleftrightarrow> up \<and> (gget (crFiles r) key \<noteq> None \<or> hasChildren key r)"

definition trim_suffix_slash :: "string \<Rightarrow> string" where
  "trim_suffix_slash s = (if s \<noteq> [] \<and> last s = CHR ''/'' then butlast s else s)"

text \<open>The entry a stored key contributes to a listing.\<close>

definition list_entry :: "bool \<Rightarrow> string \<Rightarrow> string \<Rightarrow> string option" where
  "list_entry recursive dir m =
     (let cp = (if dir = '''' then '''' else dir @ ''/''); rest = drop (length cp) m in
      if m = dir \<or> cp \<noteq> '''' \<and> \<not> has_prefix m cp \<or> rest = '''' then None
      else if recursive then Some m
      else (case index_byte CHR ''/'' rest of Some i \<Rightarrow> Some (cp @ take i rest) | None \<Rightarrow> Some m))"

definition cs_List :: "bool \<Rightarrow> string \<Rightarrow> bool \<Rightarrow> cert_redis \<Rightarrow> string list cert_result" where
  "cs_List up dir0 recursive r =
     (if \<not> up then ErrRedis
      else
        let dir = trim_suffix_slash dir0; out = remdups (List.map_filter (list_entry recursive dir) (crIndex r)) in
        if out = [] then (if dir \<in> set (crIndex r) then CertOk [] else ErrNotExist)
        else CertOk (sort out))"

record KeyInfo =
  kiKey :: string
  kiModified :: gotime
  kiSize :: int
  kiIsTerminal :: bool

definition toInt64 :: "string \<Rightarrow> int" where
  "toInt64 s = (case atoi s of Some n \<Rightarrow> n | None \<Rightarrow> 0)"

definition cs_Stat :: "bool \<Rightarrow> string \<Rightarrow> cert_redis \<Rightarrow> KeyInfo cert_result" where
  "cs_Stat up key r =
     (if \<not> up then ErrRedis
      else (case gget (crFiles r) key of
              Some f \<Rightarrow> CertOk \<lparr>kiKey = key, kiModified = toInt64 (cfModNs f) + 62135596800 * second, kiSize = toInt64 (cfSize f), kiIsTerminal = True\<rparr>
            | None \<Rightarrow> if hasChildren key r then CertOk \<lparr>kiKey = key, kiModified = 0, kiSize = 0, kiIsTerminal = False\<rparr> else ErrNotExist))"

section \<open>Locks\<close>

definition certmagicLockTTL :: duration where "certmagicLockTTL = 60 * second"
definition certmagicLockPollWait :: duration where "certmagicLockPollWait = 1 * second"

text \<open>The cluster: Redis and, for each edge, the tokens of the locks in its table \<^verbatim>\<open>locks\<close>.\<close>

record cluster =
  clRedis :: cert_redis
  clHeld :: "nat \<Rightarrow> string \<Rightarrow> string option"

definition no_cluster :: cluster where
  "no_cluster = \<lparr>clRedis = no_redis, clHeld = (\<lambda>e n. None)\<rparr>"

definition held_upd :: "nat \<Rightarrow> string \<Rightarrow> string option \<Rightarrow> cluster \<Rightarrow> cluster" where
  "held_upd e name tok c = c\<lparr>clHeld := (clHeld c)(e := (clHeld c e)(name := tok))\<rparr>"

text \<open>One turn of the loop of \<^verbatim>\<open>Lock\<close> (with Redis reachable): whether the lock is obtained.\<close>

definition lock_try :: "gotime \<Rightarrow> nat \<Rightarrow> string \<Rightarrow> string \<Rightarrow> cluster \<Rightarrow> bool \<times> cluster" where
  "lock_try t e name tok c =
     (case set_nx t name tok certmagicLockTTL (clRedis c) of
        (True, r) \<Rightarrow> (True, held_upd e name (Some tok) (c\<lparr>clRedis := r\<rparr>))
      | (False, r) \<Rightarrow> (False, c\<lparr>clRedis := r\<rparr>))"

text \<open>A tick of the refresher of a held lock.\<close>

definition refreshLock :: "bool \<Rightarrow> gotime \<Rightarrow> nat \<Rightarrow> string \<Rightarrow> cluster \<Rightarrow> cluster" where
  "refreshLock up t e name c =
     (case clHeld c e name of
        None \<Rightarrow> c
      | Some tok \<Rightarrow> if up then c\<lparr>clRedis := refreshScript t name tok certmagicLockTTL (clRedis c)\<rparr> else c)"

text \<open>\<open>None\<close> is an unlock of a lock this instance does not hold.\<close>

definition cs_Unlock :: "bool \<Rightarrow> gotime \<Rightarrow> nat \<Rightarrow> string \<Rightarrow> cluster \<Rightarrow> unit cert_result option \<times> cluster" where
  "cs_Unlock up t e name c =
     (case clHeld c e name of
        None \<Rightarrow> (None, c)
      | Some tok \<Rightarrow>
          let c1 = held_upd e name None c in
          if up then (Some (CertOk ()), c1\<lparr>clRedis := releaseScript t name tok (clRedis c1)\<rparr>) else (Some ErrRedis, c1))"

text \<open>\<^verbatim>\<open>Close\<close> stops the refreshers and forgets the locks without releasing them; so does a crash.\<close>

definition cs_Close :: "nat \<Rightarrow> cluster \<Rightarrow> cluster" where
  "cs_Close e c = c\<lparr>clHeld := (clHeld c)(e := (\<lambda>n. None))\<rparr>"

text \<open>What goes on in the cluster besides.\<close>

datatype lock_op = OpTry gotime nat string string | OpRefresh bool gotime nat string | OpUnlock bool gotime nat string | OpClose nat

text \<open>
  \<^verbatim>\<open>Lock\<close>: a turn of its loop is a poll at a moment, after whatever the edges of the cluster did since the last turn;
  \<open>tnUp\<close> is whether Redis answers. The turns end with the context of the caller.
\<close>

record turn =
  tnOthers :: "lock_op list"
  tnUp :: bool
  tnNow :: gotime

datatype lock_end = Obtained gotime | LockErrRedis | Cancelled

fun lock_op_step :: "lock_op \<Rightarrow> cluster \<Rightarrow> cluster" where
  "lock_op_step (OpTry t e n tok) c = snd (lock_try t e n tok c)"
| "lock_op_step (OpRefresh up t e n) c = refreshLock up t e n c"
| "lock_op_step (OpUnlock up t e n) c = snd (cs_Unlock up t e n c)"
| "lock_op_step (OpClose e) c = cs_Close e c"

fun cs_Lock :: "turn list \<Rightarrow> nat \<Rightarrow> string \<Rightarrow> string \<Rightarrow> cluster \<Rightarrow> lock_end \<times> cluster" where
  "cs_Lock [] e name tok c = (Cancelled, c)"
| "cs_Lock (u # us) e name tok c =
     (let c0 = fold lock_op_step (tnOthers u) c in
      if \<not> tnUp u then (LockErrRedis, c0)
      else (case lock_try (tnNow u) e name tok c0 of
              (True, c1) \<Rightarrow> (Obtained (tnNow u), c1)
            | (False, c1) \<Rightarrow> cs_Lock us e name tok c1))"

section \<open>The files as a map\<close>

text \<open>Transactions of all edges in the order Redis executes them. A delete executes a plan that may be out of date.\<close>

datatype cert_op = CStore gotime string "byte list" | CDelete string | CExec "string list"

fun cert_step :: "cert_op \<Rightarrow> cert_redis \<Rightarrow> cert_redis" where
  "cert_step (CStore t k v) r = snd (cs_Store True t k v r)"
| "cert_step (CDelete k) r = snd (cs_Delete True k r)"
| "cert_step (CExec vs) r = delete_exec vs r"

fun file_step :: "cert_op \<Rightarrow> (string \<rightharpoonup> byte list) \<Rightarrow> (string \<rightharpoonup> byte list)" where
  "file_step (CStore t k v) m = m(k \<mapsto> v)"
| "file_step (CDelete k) m = m |` {k'. k' \<noteq> k \<and> \<not> under k k'}"
| "file_step (CExec vs) m = m |` (- set vs)"

definition cert_ok :: "cert_redis \<Rightarrow> bool" where
  "cert_ok r \<longleftrightarrow> distinct (crIndex r) \<and> (\<forall>k. k \<in> set (crIndex r) \<longleftrightarrow> gget (crFiles r) k \<noteq> None)"

definition contents :: "cert_redis \<Rightarrow> (string \<rightharpoonup> byte list)" where
  "contents r = (\<lambda>k. map_option cfValue (gget (crFiles r) k))"

lemma gget_filter_key: "gget (filter (\<lambda>(k, v). P k) m) k = (if P k then gget m k else None)"
  by (induction m) auto

lemma delete_exec_ok:
  assumes "cert_ok r"
  shows "cert_ok (delete_exec vs r)" "contents (delete_exec vs r) = contents r |` (- set vs)"
  using assms by (auto simp: cert_ok_def delete_exec_def contents_def gget_filter_key restrict_map_def fun_eq_iff)

lemma cert_step_ok:
  assumes "cert_ok r"
  shows "cert_ok (cert_step op r) \<and> contents (cert_step op r) = file_step op (contents r)"
proof (cases op)
  case (CStore t k v)
  with assms show ?thesis by (auto simp: cs_Store_def cert_ok_def contents_def sadd_def fun_eq_iff)
next
  case (CDelete k)
  have plan: "set (delete_plan k r) = {m \<in> set (crIndex r). m = k \<or> under k m}" by (auto simp: delete_plan_def)
  have "contents r |` (- set (delete_plan k r)) = contents r |` {k'. k' \<noteq> k \<and> \<not> under k k'}"
    using assms by (auto simp: plan restrict_map_def fun_eq_iff cert_ok_def contents_def)
  moreover have "snd (cs_Delete True k r) = delete_exec (delete_plan k r) r"
    by (cases r) (auto simp: cs_Delete_def Let_def delete_exec_def)
  ultimately show ?thesis using CDelete delete_exec_ok [OF assms] by simp
next
  case (CExec vs)
  with delete_exec_ok [OF assms] show ?thesis by simp
qed

lemma cert_run_ok:
  "cert_ok r \<Longrightarrow> cert_ok (fold cert_step ops r) \<and> contents (fold cert_step ops r) = fold file_step ops (contents r)"
  by (induction ops arbitrary: r) (auto simp: cert_step_ok)

lemma set_map_filter_Some: "set (List.map_filter f xs) = {y. \<exists>x \<in> set xs. f x = Some y}"
  by (force simp: List.map_filter_def)

lemma sort_remdups_set: "sort (remdups xs) = sorted_list_of_set (set xs)" for xs :: "string list"
  by (simp add: sorted_list_of_set_sort_remdups)

text \<open>C31. After any sequence of stores and deletions by any number of edges, also deletions whose list of victims is out of
  date, the shared storage behaves as one map from names to contents: a load returns what was stored last, a name
  exists when it or something below it is stored, and a listing is the sorted set of the entries one level (or all
  levels) below the directory.\<close>

theorem cert_storage_refines_map:
  fixes ops
  defines "r \<equiv> fold cert_step ops no_redis" and "m \<equiv> fold file_step ops Map.empty"
  shows "(\<forall>k. cs_Load True k r = (case m k of Some v \<Rightarrow> CertOk v | None \<Rightarrow> ErrNotExist))
    \<and> (\<forall>k. cs_Exists True k r \<longleftrightarrow> (\<exists>k' \<in> dom m. k' = k \<or> under k k'))
    \<and> (\<forall>d rcs. cs_List True d rcs r =
        (let S = {x. \<exists>k \<in> dom m. list_entry rcs (trim_suffix_slash d) k = Some x} in
         if S = {} then if trim_suffix_slash d \<in> dom m then CertOk [] else ErrNotExist
         else CertOk (sorted_list_of_set S)))"
proof (intro conjI allI)
  have "cert_ok no_redis" "contents no_redis = Map.empty" by (simp_all add: cert_ok_def no_redis_def contents_def)
  then have ok: "cert_ok r" "contents r = m" using cert_run_ok [of no_redis ops] by (auto simp: r_def m_def)
  then have idx: "set (crIndex r) = dom m" by (auto simp: cert_ok_def contents_def)
  have m: "m k = map_option cfValue (gget (crFiles r) k)" for k using ok(2) by (auto simp: contents_def)
  show "cs_Load True k r = (case m k of Some v \<Rightarrow> CertOk v | None \<Rightarrow> ErrNotExist)" for k
    by (simp add: cs_Load_def m split: option.splits)
  have "k \<in> dom m \<longleftrightarrow> gget (crFiles r) k \<noteq> None" for k by (simp add: dom_def m)
  then show "cs_Exists True k r \<longleftrightarrow> (\<exists>k' \<in> dom m. k' = k \<or> under k k')" for k
    unfolding cs_Exists_def hasChildren_def idx by blast
  show "cs_List True d rcs r =
        (let S = {x. \<exists>k \<in> dom m. list_entry rcs (trim_suffix_slash d) k = Some x} in
         if S = {} then if trim_suffix_slash d \<in> dom m then CertOk [] else ErrNotExist
         else CertOk (sorted_list_of_set S))" for d rcs
    by (simp add: cs_List_def Let_def sort_remdups_set set_map_filter_Some flip: set_empty idx)
qed

section \<open>The lock excludes\<close>

text \<open>
  A run of the cluster. \<open>g e n\<close> is when edge \<open>e\<close> last obtained or refreshed lock \<open>n\<close>. An edge is \<open>prompt\<close> when none of its
  leases runs out before it is refreshed: the refresher ticks three times per lease, so one of its ticks has to reach
  Redis. Tokens are new, being random.
\<close>

type_synonym ghost = "nat \<Rightarrow> string \<Rightarrow> gotime"

definition prompt :: "gotime \<Rightarrow> ghost \<Rightarrow> cluster \<Rightarrow> bool" where
  "prompt t g c \<longleftrightarrow> (\<forall>e n. clHeld c e n \<noteq> None \<longrightarrow> t < g e n + certmagicLockTTL)"

definition fresh_token :: "string \<Rightarrow> cluster \<Rightarrow> bool" where
  "fresh_token tok c \<longleftrightarrow> (\<forall>e n. clHeld c e n \<noteq> Some tok) \<and> (\<forall>n tok' ex. gget (crLocks (clRedis c)) n = Some (tok', ex) \<longrightarrow> tok' \<noteq> tok)"

inductive lock_run :: "gotime \<Rightarrow> ghost \<Rightarrow> cluster \<Rightarrow> bool" where
  run_start: "lock_run t g no_cluster"
| run_try: "lock_run t0 g c \<Longrightarrow> t0 \<le> t \<Longrightarrow> prompt t g c \<Longrightarrow> fresh_token tok c \<Longrightarrow> lock_try t e n tok c = (b, c') \<Longrightarrow>
    lock_run t (if b then g(e := (g e)(n := t)) else g) c'"
| run_refresh: "lock_run t0 g c \<Longrightarrow> t0 \<le> t \<Longrightarrow> prompt t g c \<Longrightarrow>
    lock_run t (if up then g(e := (g e)(n := t)) else g) (refreshLock up t e n c)"
| run_unlock: "lock_run t0 g c \<Longrightarrow> t0 \<le> t \<Longrightarrow> prompt t g c \<Longrightarrow> lock_run t g (snd (cs_Unlock up t e n c))"
| run_close: "lock_run t0 g c \<Longrightarrow> t0 \<le> t \<Longrightarrow> prompt t g c \<Longrightarrow> lock_run t g (cs_Close e c)"

inductive_cases lock_runE: "lock_run t g c"

text \<open>What an edge believes to hold is leased to it in Redis.\<close>

definition leases_ok :: "ghost \<Rightarrow> cluster \<Rightarrow> bool" where
  "leases_ok g c \<longleftrightarrow>
     (\<forall>e n tok. clHeld c e n = Some tok \<longrightarrow> gget (crLocks (clRedis c)) n = Some (tok, g e n + certmagicLockTTL)) \<and>
     (\<forall>e n e' n' tok. clHeld c e n = Some tok \<longrightarrow> clHeld c e' n' = Some tok \<longrightarrow> e = e' \<and> n = n')"

lemma leases_okD:
  assumes "leases_ok g c" "clHeld c e n = Some tok"
  shows "gget (crLocks (clRedis c)) n = Some (tok, g e n + certmagicLockTTL)"
    "\<And>e' n'. clHeld c e' n' = Some tok \<Longrightarrow> e' = e \<and> n' = n"
  using assms unfolding leases_ok_def by blast+

lemma held_live:
  assumes "leases_ok g c" "prompt t g c" "clHeld c e n = Some tok"
  shows "lock_value t n (clRedis c) = Some tok"
  using leases_okD(1) [OF assms(1,3)] assms(2,3) by (auto simp: lock_value_def prompt_def)

lemma held_exclusive:
  assumes "leases_ok g c" "clHeld c e n \<noteq> None" "clHeld c e' n \<noteq> None"
  shows "e = e'"
  using assms leases_okD by (metis not_None_eq option.inject prod.inject)

lemma leases_try:
  assumes ok: "leases_ok g c" and pr: "prompt t g c" and fresh: "fresh_token tok c" and att: "lock_try t e n tok c = (b, c')"
  shows "leases_ok (if b then g(e := (g e)(n := t)) else g) c'"
proof (cases "lock_value t n (clRedis c) = None")
  case True
  then have free: "clHeld c e' n = None" for e' using held_live [OF ok pr, of e' n] by (cases "clHeld c e' n") auto
  have b: "b" and c': "c' = held_upd e n (Some tok) (c\<lparr>clRedis := (clRedis c)\<lparr>crLocks := gset n (tok, t + certmagicLockTTL) (crLocks (clRedis c))\<rparr>\<rparr>)"
    using att True by (auto simp: lock_try_def set_nx_def)
  show ?thesis
    using ok fresh free unfolding leases_ok_def fresh_token_def c'
    by (auto simp: b held_upd_def)
next
  case False
  with att ok show ?thesis by (auto simp: lock_try_def set_nx_def)
qed

lemma leases_okI:
  assumes "\<And>e n tok. clHeld c e n = Some tok \<Longrightarrow> gget (crLocks (clRedis c)) n = Some (tok, g e n + certmagicLockTTL)"
    "\<And>e n e' n' tok. clHeld c e n = Some tok \<Longrightarrow> clHeld c e' n' = Some tok \<Longrightarrow> e = e' \<and> n = n'"
  shows "leases_ok g c"
  using assms unfolding leases_ok_def by blast

lemma leases_refresh:
  assumes ok: "leases_ok g c" and pr: "prompt t g c"
  shows "leases_ok (if up then g(e := (g e)(n := t)) else g) (refreshLock up t e n c)"
proof (cases "clHeld c e n")
  case None
  show ?thesis
  proof (rule leases_okI)
    fix e2 n2 tok2
    assume "clHeld (refreshLock up t e n c) e2 n2 = Some tok2"
    then have h: "clHeld c e2 n2 = Some tok2" by (simp add: refreshLock_def None)
    moreover have "(e2, n2) \<noteq> (e, n)" using h None by auto
    ultimately show "gget (crLocks (clRedis (refreshLock up t e n c))) n2 =
        Some (tok2, (if up then g(e := (g e)(n := t)) else g) e2 n2 + certmagicLockTTL)"
      using leases_okD(1) [OF ok h] by (auto simp: refreshLock_def None)
  qed (use leases_okD(2) [OF ok] None in \<open>auto simp: refreshLock_def\<close>)
next
  case (Some tok)
  note live = held_live [OF ok pr Some]
  show ?thesis
  proof (rule leases_okI)
    fix e2 n2 tok2
    assume "clHeld (refreshLock up t e n c) e2 n2 = Some tok2"
    then have h: "clHeld c e2 n2 = Some tok2" by (simp add: refreshLock_def Some split: if_splits)
    show "gget (crLocks (clRedis (refreshLock up t e n c))) n2 =
        Some (tok2, (if up then g(e := (g e)(n := t)) else g) e2 n2 + certmagicLockTTL)"
    proof (cases "n2 = n")
      case True
      with h Some held_exclusive [OF ok, of e2 n e] have "e2 = e" "tok2 = tok" by auto
      with True Some live leases_okD(1) [OF ok h] show ?thesis by (simp add: refreshLock_def refreshScript_def)
    next
      case False
      with Some live leases_okD(1) [OF ok h] show ?thesis by (simp add: refreshLock_def refreshScript_def)
    qed
  next
    fix e1 n1 e2 n2 tok2
    assume "clHeld (refreshLock up t e n c) e1 n1 = Some tok2" "clHeld (refreshLock up t e n c) e2 n2 = Some tok2"
    then show "e1 = e2 \<and> n1 = n2" using leases_okD(2) [OF ok] by (simp add: refreshLock_def Some split: if_splits)
  qed
qed

lemma leases_unlock:
  assumes ok: "leases_ok g c"
  shows "leases_ok g (snd (cs_Unlock up t e n c))"
proof (cases "clHeld c e n")
  case None
  with ok show ?thesis by (simp add: cs_Unlock_def)
next
  case (Some tok)
  have held: "clHeld (snd (cs_Unlock up t e n c)) e2 n2 = (if e2 = e \<and> n2 = n then None else clHeld c e2 n2)" for e2 n2
    by (simp add: cs_Unlock_def Some Let_def held_upd_def)
  have redis: "n2 \<noteq> n \<Longrightarrow> gget (crLocks (clRedis (snd (cs_Unlock up t e n c)))) n2 = gget (crLocks (clRedis c)) n2" for n2
    by (simp add: cs_Unlock_def Some Let_def held_upd_def releaseScript_def)
  show ?thesis
  proof (rule leases_okI)
    fix e2 n2 tok2
    assume "clHeld (snd (cs_Unlock up t e n c)) e2 n2 = Some tok2"
    then have h: "clHeld c e2 n2 = Some tok2" "\<not> (e2 = e \<and> n2 = n)" by (simp_all add: held split: if_splits)
    then have "n2 \<noteq> n" using held_exclusive [OF ok, of e2 n e] Some by auto
    with leases_okD(1) [OF ok h(1)] redis
    show "gget (crLocks (clRedis (snd (cs_Unlock up t e n c)))) n2 = Some (tok2, g e2 n2 + certmagicLockTTL)" by simp
  next
    fix e1 n1 e2 n2 tok2
    assume "clHeld (snd (cs_Unlock up t e n c)) e1 n1 = Some tok2" "clHeld (snd (cs_Unlock up t e n c)) e2 n2 = Some tok2"
    then have "clHeld c e1 n1 = Some tok2" "clHeld c e2 n2 = Some tok2" by (simp_all add: held split: if_splits)
    then show "e1 = e2 \<and> n1 = n2" using leases_okD(2) [OF ok] by metis
  qed
qed

lemma leases_run: "lock_run t g c \<Longrightarrow> leases_ok g c"
proof (induction rule: lock_run.induct)
  case (run_start t g)
  show ?case by (simp add: leases_ok_def no_cluster_def)
next
  case (run_close t0 g c t e)
  then show ?case by (auto simp: leases_ok_def cs_Close_def)
qed (simp_all add: leases_try leases_refresh leases_unlock)

text \<open>C32. As long as every holder gets a refresh through to Redis before its lease runs out, no two edges hold the lock of
  one certificate at the same time, in any interleaving of attempts, refreshes that may fail, releases and crashes.\<close>

theorem cert_lock_exclusive:
  assumes "lock_run t g c" "clHeld c e n \<noteq> None" "clHeld c e' n \<noteq> None"
  shows "e = e'"
  using held_exclusive [OF leases_run [OF assms(1)] assms(2,3)] .

theorem cert_lock_exclusive_witness:
  "\<exists>c. lock_run 5 ((\<lambda>e n. 0)(3 := (\<lambda>n. 0)(''cert'' := 5))) c \<and> clHeld c 3 ''cert'' = Some ''tok'' \<and> (\<forall>e'. clHeld c e' ''cert'' \<noteq> None \<longrightarrow> 3 = e')"
proof -
  obtain c where c: "lock_try 5 3 ''cert'' ''tok'' no_cluster = (True, c)" "clHeld c 3 ''cert'' = Some ''tok''"
    by (simp add: lock_try_def set_nx_def lock_value_def no_cluster_def no_redis_def held_upd_def)
  have "lock_run 5 (if True then (\<lambda>e n. 0)(3 := ((\<lambda>e n. 0) (3 :: nat))(''cert'' := 5)) else (\<lambda>e n. 0)) c"
    by (rule run_try [OF run_start [of 0 "\<lambda>e n. 0"] _ _ _ c(1)])
       (simp_all add: prompt_def fresh_token_def no_cluster_def no_redis_def)
  then have r: "lock_run 5 ((\<lambda>e n. 0)(3 := (\<lambda>n. 0)(''cert'' := 5))) c" by simp
  have "3 = e'" if "clHeld c e' ''cert'' \<noteq> None" for e' using cert_lock_exclusive [OF r, of 3 "''cert''" e'] c(2) that by simp
  with r c(2) show ?thesis by blast
qed

section \<open>The lock comes free\<close>

lemma lock_try_free:
  "lock_value t n (clRedis c) = None \<Longrightarrow> \<exists>c'. lock_try t e n tok c = (True, c') \<and> clHeld c' e n = Some tok"
  by (simp add: lock_try_def set_nx_def held_upd_def)

lemma lock_try_busy: "lock_value t n (clRedis c) \<noteq> None \<Longrightarrow> lock_try t e n tok c = (False, c)"
  by (simp add: lock_try_def set_nx_def)

text \<open>Whether one of the operations obtains the lock \<open>n\<close>, and whether one does while a caller of \<^verbatim>\<open>Lock\<close> polls for it.\<close>

fun op_obtains :: "string \<Rightarrow> lock_op \<Rightarrow> cluster \<Rightarrow> bool" where
  "op_obtains n (OpTry t e n' tok) c \<longleftrightarrow> n' = n \<and> fst (lock_try t e n' tok c)"
| "op_obtains n _ c \<longleftrightarrow> False"

fun ops_obtain :: "string \<Rightarrow> lock_op list \<Rightarrow> cluster \<Rightarrow> bool" where
  "ops_obtain n [] c \<longleftrightarrow> False"
| "ops_obtain n (p # ps) c \<longleftrightarrow> op_obtains n p c \<or> ops_obtain n ps (lock_op_step p c)"

fun overtaken :: "turn list \<Rightarrow> nat \<Rightarrow> string \<Rightarrow> string \<Rightarrow> cluster \<Rightarrow> bool" where
  "overtaken [] e n tok c \<longleftrightarrow> False"
| "overtaken (u # us) e n tok c \<longleftrightarrow>
     ops_obtain n (tnOthers u) c \<or>
     (let c0 = fold lock_op_step (tnOthers u) c in
      tnUp u \<and> (case lock_try (tnNow u) e n tok c0 of (True, c1) \<Rightarrow> False | (False, c1) \<Rightarrow> overtaken us e n tok c1))"

text \<open>A lock nobody holds, whose lease in Redis ends at \<open>d\<close>: until an edge obtains it, nothing prolongs the lease.\<close>

definition left_until :: "gotime \<Rightarrow> string \<Rightarrow> cluster \<Rightarrow> bool" where
  "left_until d n c \<longleftrightarrow> (\<forall>e. clHeld c e n = None) \<and> (\<forall>tok ex. gget (crLocks (clRedis c)) n = Some (tok, ex) \<longrightarrow> ex \<le> d)"

lemma left_until_step:
  assumes "left_until d n c" "\<not> op_obtains n p c"
  shows "left_until d n (lock_op_step p c)"
proof (cases p)
  case (OpTry t e n' tok)
  with assms show ?thesis
    by (cases "lock_value t n' (clRedis c) = None") (auto simp: left_until_def lock_try_def set_nx_def held_upd_def)
next
  case (OpRefresh up t e n')
  with assms show ?thesis by (auto simp: left_until_def refreshLock_def refreshScript_def split: option.splits)
next
  case (OpUnlock up t e n')
  with assms show ?thesis
    by (auto simp: left_until_def cs_Unlock_def releaseScript_def held_upd_def Let_def split: option.splits if_splits)
next
  case (OpClose e)
  with assms show ?thesis by (auto simp: left_until_def cs_Close_def)
qed

lemma left_until_steps: "left_until d n c \<Longrightarrow> \<not> ops_obtain n ps c \<Longrightarrow> left_until d n (fold lock_op_step ps c)"
  by (induction ps arbitrary: c) (auto intro: left_until_step)

lemma left_until_free: "left_until d n c \<Longrightarrow> d \<le> t \<Longrightarrow> lock_value t n (clRedis c) = None"
  by (fastforce simp: left_until_def lock_value_def split: option.splits)

text \<open>C33. A dead holder does not block the cluster: when nobody holds the lock of a certificate any more and a lease of at
  most a minute is left of it in Redis, then an edge that polls in \<^verbatim>\<open>Lock\<close> obtains it, at the latest at its first poll
  after the lease, provided Redis answers its polls and the caller waits that long, or another edge obtains it first.
  This holds whatever attempts, refreshes, releases and crashes of any edges, with any locks, happen between the polls.\<close>

theorem cert_lock_obtained_after_crash:
  assumes "\<forall>e'. clHeld c e' n = None"
    and "\<forall>tok' ex. gget (crLocks (clRedis c)) n = Some (tok', ex) \<longrightarrow> ex \<le> t + certmagicLockTTL"
    and "\<forall>u \<in> set (us @ [w]). tnUp u" "t + certmagicLockTTL \<le> tnNow w" "\<forall>u \<in> set us. tnNow u \<le> tnNow w"
  shows "overtaken (us @ [w]) e n tok c \<or>
    (\<exists>t' c'. cs_Lock (us @ [w]) e n tok c = (Obtained t', c') \<and> t' \<le> tnNow w \<and> clHeld c' e n = Some tok)"
proof -
  have "left_until (t + certmagicLockTTL) n c" using assms(1,2) by (simp add: left_until_def)
  then show ?thesis using assms(3-5)
  proof (induction us arbitrary: c)
    case Nil
    show ?case
    proof (cases "ops_obtain n (tnOthers w) c")
      case False
      from left_until_free [OF left_until_steps [OF Nil.prems(1) this] Nil.prems(3)] Nil.prems(2)
      show ?thesis by (auto dest!: lock_try_free [of _ _ _ e tok])
    qed simp
  next
    case (Cons u us)
    let ?c = "fold lock_op_step (tnOthers u) c"
    show ?case
    proof (cases "ops_obtain n (tnOthers u) c")
      case False
      note left = left_until_steps [OF Cons.prems(1) this]
      show ?thesis
      proof (cases "lock_value (tnNow u) n (clRedis ?c) = None")
        case True
        with Cons.prems show ?thesis by (auto dest!: lock_try_free [of _ _ _ e tok])
      next
        case busy: False
        from Cons.IH [OF left] Cons.prems(2-4) lock_try_busy [OF busy, of e tok] show ?thesis by auto
      qed
    qed simp
  qed
qed

text \<open>Edge 0 crashes with the lock; edge 2 holds and refreshes another one while edge 1 polls.\<close>

theorem cert_lock_obtained_after_crash_witness:
  "\<exists>t' c'. cs_Lock [\<lparr>tnOthers = [OpTry 0 2 ''other'' ''x''], tnUp = True, tnNow = 1\<rparr>,
       \<lparr>tnOthers = [OpRefresh True 2 2 ''other'', OpTry 3 2 ''cert'' ''y''], tnUp = True, tnNow = 60 * second\<rparr>] 1 ''cert'' ''b''
       (cs_Close 0 (snd (lock_try 0 0 ''cert'' ''a'' no_cluster))) = (Obtained t', c') \<and> clHeld c' 1 ''cert'' = Some ''b''"
proof -
  let ?c = "cs_Close 0 (snd (lock_try 0 0 ''cert'' ''a'' no_cluster))"
  let ?u = "\<lparr>tnOthers = [OpTry 0 2 ''other'' ''x''], tnUp = True, tnNow = 1\<rparr>"
  let ?w = "\<lparr>tnOthers = [OpRefresh True 2 2 ''other'', OpTry 3 2 ''cert'' ''y''], tnUp = True, tnNow = 60 * second\<rparr>"
  note ev = lock_try_def set_nx_def lock_value_def no_cluster_def no_redis_def held_upd_def cs_Close_def certmagicLockTTL_def
  have "\<not> overtaken [?u, ?w] 1 ''cert'' ''b'' ?c"
    by (simp add: ev refreshLock_def refreshScript_def Let_def)
  moreover have "\<forall>e'. clHeld ?c e' ''cert'' = None" by (simp add: ev)
  moreover have "\<forall>tok' ex. gget (crLocks (clRedis ?c)) ''cert'' = Some (tok', ex) \<longrightarrow> ex \<le> 0 + certmagicLockTTL" by (simp add: ev)
  ultimately show ?thesis
    using cert_lock_obtained_after_crash [of ?c "''cert''" 0 "[?u]" ?w 1 "''b''"] by (auto simp: certmagicLockTTL_def)
qed

text \<open>
  An edge whose refreshes fail for a whole lease is not told: its table still has the lock after another edge has
  obtained it, and \<^verbatim>\<open>refreshLock\<close> drops the answer of the script that says so.
\<close>

theorem lost_lease_goes_unnoticed:
  fixes n and c1 c2 c3 :: cluster
  defines "c1 \<equiv> snd (lock_try 0 0 n ''a'' no_cluster)"
    and "c2 \<equiv> refreshLock False (40 * second) 0 n (refreshLock False (20 * second) 0 n c1)"
    and "c3 \<equiv> snd (lock_try (60 * second) 1 n ''b'' c2)"
  shows "clHeld c3 0 n = Some ''a'' \<and> clHeld c3 1 n = Some ''b'' \<and> refreshLock True (61 * second) 0 n c3 = c3"
  by (simp add: assms lock_try_def set_nx_def lock_value_def refreshLock_def refreshScript_def no_cluster_def no_redis_def held_upd_def
      certmagicLockTTL_def)


end
