(* ===== verification/Login.thy ===== *)
theory Login
  imports Auth Config
begin

text \<open>
  The login handlers of the control plane (\<^verbatim>\<open>internal/api/handlers_auth.go\<close>) over the state they share:
  the store, the revocation list, the device flows and the OAuth nonces. A handler yields a status
  with a message or a value, and the new state. The decoded request is an argument; cookies that are
  set or cleared are part of the value where the session depends on them. The OAuth exchange with the
  provider is the argument \<open>exch\<close>.
\<close>

record Api =
  aCfg :: ApiConfig
  aAuth :: AuthCfg
  aStore :: MemStore
  aRev :: memRevoker
  aDev :: deviceStore
  aStates :: memStateStore

record OAuthUser =
  ouEmail :: string
  ouName :: string
  ouAvatarURL :: string
  ouProvider :: string

record authResponse =
  arUser :: User
  arOrg :: Org
  arTokens :: Tokens

type_synonym 'a resp = "(nat \<times> string) + 'a"

text \<open>What a request draws from its surroundings: the clock, new ids, random bytes.\<close>

record Draw =
  dNow :: gotime
  dUserID :: string
  dOrgID :: string
  dKeyID :: string
  dJti :: "byte list \<times> byte list"
  dRand1 :: "byte list option"
  dRand2 :: "byte list option"
  dSalt :: "nat list"

section \<open>Accounts\<close>

definition firstOrg :: "string \<Rightarrow> MemStore \<Rightarrow> string + Org" where
  "firstOrg userID m = (case OrgsForUser userID m of [] \<Rightarrow> Inl ''user has no org'' | og # _ \<Rightarrow> Inr og)"

definition store_msg :: "store_error \<Rightarrow> string" where
  "store_msg e = (case e of ErrNotFound \<Rightarrow> ''store: not found'' | ErrConflict \<Rightarrow> ''store: conflict'')"

definition newAccount :: "Draw \<Rightarrow> string \<Rightarrow> string \<Rightarrow> string \<Rightarrow> string \<Rightarrow> MemStore \<Rightarrow> (string + User \<times> Org) \<times> MemStore" where
  "newAccount dr email name avatar provider m =
     (let name' = (if name = '''' then hd (split_byte CHR ''@'' email) else name) in
      case CreateUser (dNow dr) (dUserID dr)
             \<lparr>usID = '''', Email = email, usName = name', AvatarURL = avatar, OAuthProvider = provider, usCreatedAt = 0\<rparr> m of
        (Inl e, m1) \<Rightarrow> (Inl (store_msg e), m1)
      | (Inr u, m1) \<Rightarrow>
          (case CreateOrg (dNow dr) (dOrgID dr)
                  \<lparr>orID = '''', orName = name' @ CHR 0x27 # ''s org'', orPlan = PlanFree, StripeCustomerID = '''',
                   orCreatedAt = 0, PlanExpiresAt = None\<rparr> m1 of
             (og, m2) \<Rightarrow>
               (case AddOrgMember \<lparr>omOrgID = orID og, omUserID = usID u, Role = ''owner''\<rparr> m2 of
                  (Inl e, m3) \<Rightarrow> (Inl (store_msg e), m3)
                | (Inr _, m3) \<Rightarrow> (Inr (u, og), m3))))"

definition provisionUser :: "Draw \<Rightarrow> string \<Rightarrow> string \<Rightarrow> string \<Rightarrow> string \<Rightarrow> MemStore \<Rightarrow> (string + User \<times> Org) \<times> MemStore" where
  "provisionUser dr email name avatar provider m =
     (case GetUserByEmail email m of
        Inl ErrNotFound \<Rightarrow> newAccount dr email name avatar provider m
      | Inl e \<Rightarrow> (Inl (store_msg e), m)
      | Inr u \<Rightarrow>
          let (u', m') =
            (if (avatar \<noteq> '''' \<and> avatar \<noteq> AvatarURL u) \<or> (name \<noteq> '''' \<and> name \<noteq> usName u)
             then (case UpdateUserProfile (usID u) name avatar m of
                     (Inr _, m1) \<Rightarrow>
                       (let u1 = (if name \<noteq> '''' then u\<lparr>usName := name\<rparr> else u)
                        in (if avatar \<noteq> '''' then u1\<lparr>AvatarURL := avatar\<rparr> else u1, m1))
                   | (Inl _, m1) \<Rightarrow> (u, m1))
             else (u, m))
          in (case firstOrg (usID u') m' of
                Inl e \<Rightarrow> (Inl e, m')
              | Inr og \<Rightarrow> (Inr (u', og), m')))"

definition issue :: "jwt_sign \<Rightarrow> Draw \<Rightarrow> User \<Rightarrow> Org \<Rightarrow> Api \<Rightarrow> authResponse resp" where
  "issue sg dr u og a =
     (case IssueTokens sg (aAuth a) (dNow dr) (dJti dr) (usID u) (orID og) of
        None \<Rightarrow> Inl (500, ''sign'')
      | Some t \<Rightarrow> Inr \<lparr>arUser = u, arOrg = og, arTokens = t\<rparr>)"

definition handleSignup :: "jwt_sign \<Rightarrow> Draw \<Rightarrow> string \<Rightarrow> string \<Rightarrow> Api \<Rightarrow> authResponse resp \<times> Api" where
  "handleSignup sg dr email name a =
     (if \<not> DevAuth (aCfg a) then (Inl (403, ''password-less signup is disabled; use OAuth''), a)
      else if CHR ''@'' \<notin> set email then (Inl (400, ''valid email required''), a)
      else if is_ok (GetUserByEmail email (aStore a)) then (Inl (409, ''user already exists''), a)
      else (case provisionUser dr email name '''' ''email'' (aStore a) of
              (Inl e, m) \<Rightarrow> (Inl (500, e), a\<lparr>aStore := m\<rparr>)
            | (Inr (u, og), m) \<Rightarrow> (issue sg dr u og a, a\<lparr>aStore := m\<rparr>)))"

definition handleLogin :: "jwt_sign \<Rightarrow> Draw \<Rightarrow> string \<Rightarrow> Api \<Rightarrow> authResponse resp \<times> Api" where
  "handleLogin sg dr email a =
     (if \<not> DevAuth (aCfg a) then (Inl (403, ''password-less login is disabled; use OAuth''), a)
      else (case GetUserByEmail email (aStore a) of
              Inl e \<Rightarrow> (Inl (401, ''no such user''), a)
            | Inr u \<Rightarrow>
                (case firstOrg (usID u) (aStore a) of
                   Inl e \<Rightarrow> (Inl (500, e), a)
                 | Inr og \<Rightarrow> (issue sg dr u og a, a))))"

definition handleRefresh :: "jwt_sign \<Rightarrow> jwt_parse \<Rightarrow> Draw \<Rightarrow> string \<Rightarrow> Api \<Rightarrow> Tokens resp \<times> Api" where
  "handleRefresh sg prs dr tok a =
     (case Refresh sg prs (aAuth a) (dNow dr) (dJti dr) tok (aRev a) of
        (Inl e, r) \<Rightarrow> (Inl (401, ''invalid refresh token''), a\<lparr>aRev := r\<rparr>)
      | (Inr t, r) \<Rightarrow> (Inr t, a\<lparr>aRev := r\<rparr>))"

text \<open>The refresh token comes from the cookie or else from the body.\<close>

definition refreshTokenFromRequest :: "string option \<Rightarrow> string option \<Rightarrow> string" where
  "refreshTokenFromRequest cookie body =
     (case cookie of
        Some c \<Rightarrow> if c \<noteq> '''' then c else (case body of Some b \<Rightarrow> b | None \<Rightarrow> '''')
      | None \<Rightarrow> (case body of Some b \<Rightarrow> b | None \<Rightarrow> ''''))"

definition handleLogout :: "jwt_parse \<Rightarrow> gotime \<Rightarrow> gotime \<Rightarrow> string option \<Rightarrow> string option \<Rightarrow> Api \<Rightarrow> Api" where
  "handleLogout prs t t' cookie body a =
     (let rt = refreshTokenFromRequest cookie body in
      if rt \<noteq> '''' then a\<lparr>aRev := RevokeRefresh prs (aAuth a) t t' rt (aRev a)\<rparr> else a)"

section \<open>OAuth\<close>

definition trim_right_slash :: "string \<Rightarrow> string" where
  "trim_right_slash s = rev (dropWhile (\<lambda>c. c = CHR ''/'') (rev s))"

definition appBase :: "ApiConfig \<Rightarrow> string" where
  "appBase c = (if AppURL c \<noteq> '''' then trim_right_slash (AppURL c) else ''https://app.'' @ apBaseDomain c)"

text \<open>The character after the slash in the third case is a backslash.\<close>

definition safeNextPath :: "string \<Rightarrow> string" where
  "safeNextPath p =
     (if p = '''' \<or> \<not> has_prefix p ''/'' \<or> has_prefix p ''//'' \<or> has_prefix p [CHR ''/'', CHR 0x5C] then '''' else p)"

definition handleOAuthCallback ::
  "jwt_sign \<Rightarrow> (string \<Rightarrow> string + OAuthUser) option \<Rightarrow> Draw \<Rightarrow> string \<Rightarrow> string option \<Rightarrow> string \<Rightarrow> string option \<Rightarrow> Api
     \<Rightarrow> (string \<times> Tokens) resp \<times> Api" where
  "handleOAuthCallback sg provider dr qstate stateCookie code nextCookie a =
     (case provider of
        None \<Rightarrow> (Inl (404, ''provider not configured''), a)
      | Some exch \<Rightarrow>
          if stateCookie \<noteq> Some qstate then (Inl (400, ''invalid state''), a)
          else
            (case state_Check (dNow dr) qstate (aStates a) of
               (False, st) \<Rightarrow> (Inl (400, ''invalid state''), a\<lparr>aStates := st\<rparr>)
             | (True, st) \<Rightarrow>
                 let a1 = a\<lparr>aStates := st\<rparr> in
                 (case exch code of
                    Inl e \<Rightarrow> (Inl (502, e), a1)
                  | Inr prof \<Rightarrow>
                      (case provisionUser dr (ouEmail prof) (ouName prof) (ouAvatarURL prof) (ouProvider prof) (aStore a1) of
                         (Inl e, m) \<Rightarrow> (Inl (500, e), a1\<lparr>aStore := m\<rparr>)
                       | (Inr (u, og), m) \<Rightarrow>
                           (case issue sg dr u og a1 of
                              Inl e \<Rightarrow> (Inl e, a1\<lparr>aStore := m\<rparr>)
                            | Inr r \<Rightarrow>
                                let dest = (case nextCookie of
                                      Some nc \<Rightarrow> if safeNextPath nc \<noteq> '''' then appBase (aCfg a) @ safeNextPath nc
                                                 else appBase (aCfg a) @ ''/''
                                    | None \<Rightarrow> appBase (aCfg a) @ ''/'')
                                in (Inr (dest, arTokens r), a1\<lparr>aStore := m\<rparr>))))))"

section \<open>Device login\<close>

definition handleDeviceCode :: "gotime \<Rightarrow> byte list \<Rightarrow> byte list \<Rightarrow> Api \<Rightarrow> (string \<times> string) \<times> Api" where
  "handleDeviceCode t b1 b2 a =
     (case dev_Create t (randToken b1) (randUserCode b2) (aDev a) of
        (req, d) \<Rightarrow> ((DeviceCode req, UserCode req), a\<lparr>aDev := d\<rparr>))"

definition handleDeviceApprove :: "idkey \<Rightarrow> Draw \<Rightarrow> Principal \<Rightarrow> string \<Rightarrow> Api \<Rightarrow> unit resp \<times> Api" where
  "handleDeviceApprove idkey dr p userCode a =
     (case GenerateAPIKey idkey (dRand1 dr) (dRand2 dr) (dSalt dr) of
        None \<Rightarrow> (Inl (500, ''rand''), a)
      | Some g \<Rightarrow>
          (case CreateAPIKey (dNow dr) (dKeyID dr)
                  (zeroKey\<lparr>kyOrgID := prOrgID p, kyName := ''cli-device'', Prefix := gkPrefix g, Hash := gkHash g\<rparr>) (aStore a) of
             (Inl e, m) \<Rightarrow> (Inl (500, store_msg e), a\<lparr>aStore := m\<rparr>)
           | (Inr k, m) \<Rightarrow>
               (case dev_Approve userCode (prOrgID p) (gkFull g) (aDev a) of
                  (Inl e, d) \<Rightarrow> (Inl (400, ''invalid_device_code''), a\<lparr>aStore := m, aDev := d\<rparr>)
                | (Inr _, d) \<Rightarrow> (Inr (), a\<lparr>aStore := m, aDev := d\<rparr>))))"

definition device_msg :: "device_error \<Rightarrow> string" where
  "device_msg e = (case e of ErrDevicePending \<Rightarrow> ''authorization_pending'' | ErrDeviceExpired \<Rightarrow> ''expired_token''
     | ErrDeviceUnknown \<Rightarrow> ''invalid_device_code'')"

definition handleDeviceToken :: "gotime \<Rightarrow> string \<Rightarrow> Api \<Rightarrow> string resp \<times> Api" where
  "handleDeviceToken t deviceCode a =
     (case dev_Poll t deviceCode (aDev a) of
        (Inl e, d) \<Rightarrow> (Inl (400, device_msg e), a\<lparr>aDev := d\<rparr>)
      | (Inr key, d) \<Rightarrow> (Inr key, a\<lparr>aDev := d\<rparr>))"

section \<open>Profile and cookies\<close>

record accountView =
  avUser :: User
  avOrgs :: "Org list"
  avActiveOrg :: string

definition handleAccount :: "Principal \<Rightarrow> MemStore \<Rightarrow> accountView resp" where
  "handleAccount p m =
     (case GetUser (prUserID p) m of
        Inl e \<Rightarrow> Inl (404, ''user not found'')
      | Inr u \<Rightarrow> Inr \<lparr>avUser = u, avOrgs = OrgsForUser (prUserID p) m, avActiveOrg = prOrgID p\<rparr>)"

text \<open>Every cookie is \<^verbatim>\<open>HttpOnly\<close> and \<^verbatim>\<open>SameSite=Lax\<close>; a negative age deletes it.\<close>

record Cookie =
  ckName :: string
  ckValue :: string
  ckPath :: string
  ckDomain :: string
  ckSecure :: bool
  ckMaxAge :: int

definition oauth_cookie :: "ApiConfig \<Rightarrow> string \<Rightarrow> string \<Rightarrow> int \<Rightarrow> Cookie" where
  "oauth_cookie c name v age =
     \<lparr>ckName = name, ckValue = v, ckPath = ''/v1/auth/oauth'', ckDomain = '''', ckSecure = IsProduction c, ckMaxAge = age\<rparr>"

definition setNextCookie :: "ApiConfig \<Rightarrow> string \<Rightarrow> Cookie" where
  "setNextCookie c nxt = oauth_cookie c ''trqsh_oauth_next'' nxt 600"

definition clearNextCookie :: "ApiConfig \<Rightarrow> Cookie" where
  "clearNextCookie c = oauth_cookie c ''trqsh_oauth_next'' '''' (- 1)"

definition setStateCookie :: "ApiConfig \<Rightarrow> string \<Rightarrow> Cookie" where
  "setStateCookie c state = oauth_cookie c ''trqsh_oauth_state'' state 600"

definition clearStateCookie :: "ApiConfig \<Rightarrow> Cookie" where
  "clearStateCookie c = oauth_cookie c ''trqsh_oauth_state'' '''' (- 1)"

definition session_cookie :: "ApiConfig \<Rightarrow> string \<Rightarrow> string \<Rightarrow> int \<Rightarrow> Cookie" where
  "session_cookie c name v age =
     \<lparr>ckName = name, ckValue = v, ckPath = ''/'', ckDomain = ''.'' @ apBaseDomain c, ckSecure = IsProduction c, ckMaxAge = age\<rparr>"

definition setSessionCookies :: "ApiConfig \<Rightarrow> Tokens \<Rightarrow> Cookie list" where
  "setSessionCookies c tk =
     [session_cookie c ''trqsh_access'' (tkAccess tk) (tkExpiresIn tk), session_cookie c ''trqsh_refresh'' (tkRefresh tk) (30 * 24 * 60 * 60)]"

definition clearSessionCookies :: "ApiConfig \<Rightarrow> Cookie list" where
  "clearSessionCookies c = map (\<lambda>name. session_cookie c name '''' (- 1)) [''trqsh_access'', ''trqsh_refresh'']"

text \<open>The browser's cookies after a \<^verbatim>\<open>Set-Cookie\<close> (RFC 6265: a cookie that is sent again replaces the old one, and
  one with a lifetime that is not positive is removed). A cookie is identified by name, domain and path.\<close>

type_synonym jar = "(string \<times> string \<times> string, string) gomap"

definition set_cookie :: "Cookie \<Rightarrow> jar \<Rightarrow> jar" where
  "set_cookie ck j =
     (let k = (ckName ck, ckDomain ck, ckPath ck) in
      if ckMaxAge ck \<le> 0 then gdel k j else gset k (ckValue ck) j)"

text \<open>The start of an OAuth login: \<open>url\<close> is the provider's \<^verbatim>\<open>AuthCodeURL\<close>, \<open>None\<close> a provider that is not configured.
  The result is the address to go to and the cookies to set.\<close>

definition handleOAuthStart ::
  "(string \<Rightarrow> string) option \<Rightarrow> gotime \<Rightarrow> byte list \<Rightarrow> string \<Rightarrow> Api \<Rightarrow> (string \<times> Cookie list) resp \<times> Api" where
  "handleOAuthStart url t rb qnext a =
     (case url of
        None \<Rightarrow> (Inl (404, ''provider not configured''), a)
      | Some authCodeURL \<Rightarrow>
          let nxt = safeNextPath qnext in
          (case state_New t rb (aStates a) of
             (state, st) \<Rightarrow>
               (Inr (authCodeURL state, (if nxt \<noteq> '''' then [setNextCookie (aCfg a) nxt] else []) @ [setStateCookie (aCfg a) state]),
                a\<lparr>aStates := st\<rparr>)))"

end
