(* ===== verification/OAuth.thy ===== *)
theory OAuth
  imports Login IpAddr StoreInv
begin

text \<open>
  The OAuth client of the control plane (\<^verbatim>\<open>internal/api/auth/oauth.go\<close>): the providers, the address of the
  authorization page, the exchange of a code for a token and of the token for a profile with an email
  address the provider vouches for. The network is the argument \<open>http\<close>, which maps a request to a
  status and a body, or to nothing; the JSON decoders are arguments too.
\<close>

section \<open>Providers\<close>

record OAuthProvider =
  opName :: string
  ClientID :: string
  ClientSecret :: string
  RedirectURL :: string
  AuthURL :: string
  TokenURL :: string
  UserURL :: string
  Scopes :: "string list"
  AuthParams :: "(string, string) gomap"

definition GitHubProvider :: "string \<Rightarrow> string \<Rightarrow> string \<Rightarrow> OAuthProvider" where
  "GitHubProvider cid secret redirect =
     \<lparr>opName = ''github'', ClientID = cid, ClientSecret = secret, RedirectURL = redirect,
      AuthURL = ''https://github.com/login/oauth/authorize'', TokenURL = ''https://github.com/login/oauth/access_token'',
      UserURL = ''https://api.github.com/user'', Scopes = [''read:user'', ''user:email''], AuthParams = []\<rparr>"

definition GoogleProvider :: "string \<Rightarrow> string \<Rightarrow> string \<Rightarrow> OAuthProvider" where
  "GoogleProvider cid secret redirect =
     \<lparr>opName = ''google'', ClientID = cid, ClientSecret = secret, RedirectURL = redirect,
      AuthURL = ''https://accounts.google.com/o/oauth2/v2/auth'', TokenURL = ''https://oauth2.googleapis.com/token'',
      UserURL = ''https://www.googleapis.com/oauth2/v2/userinfo'', Scopes = [''openid'', ''email'', ''profile''],
      AuthParams = [(''prompt'', ''select_account'')]\<rparr>"

definition Configured :: "OAuthProvider \<Rightarrow> bool" where
  "Configured p \<longleftrightarrow> ClientID p \<noteq> '''' \<and> ClientSecret p \<noteq> ''''"

text \<open>The table \<^verbatim>\<open>s.providers\<close> that \<^verbatim>\<open>New\<close> fills.\<close>

definition api_providers :: "ApiConfig \<Rightarrow> (string, OAuthProvider) gomap" where
  "api_providers c =
     (if GitHubClientID c \<noteq> ''''
      then [(''github'', GitHubProvider (GitHubClientID c) (GitHubClientSecret c) (PublicURL c @ ''/v1/auth/oauth/github/callback''))] else []) @
     (if GoogleClientID c \<noteq> ''''
      then [(''google'', GoogleProvider (GoogleClientID c) (GoogleClientSecret c) (PublicURL c @ ''/v1/auth/oauth/google/callback''))] else [])"

text \<open>The query parameters of the authorization page; \<^verbatim>\<open>url.Values.Encode\<close> is the argument \<open>enc\<close>.\<close>

definition auth_params :: "OAuthProvider \<Rightarrow> string \<Rightarrow> (string, string) gomap" where
  "auth_params p state =
     foldl (\<lambda>q (k, v). gset k v q)
       [(''client_id'', ClientID p), (''redirect_uri'', RedirectURL p), (''response_type'', ''code''),
        (''scope'', join '' '' (Scopes p)), (''state'', state)] (AuthParams p)"

definition AuthCodeURL :: "((string, string) gomap \<Rightarrow> string) \<Rightarrow> OAuthProvider \<Rightarrow> string \<Rightarrow> string" where
  "AuthCodeURL enc p state = AuthURL p @ ''?'' @ enc (auth_params p state)"

section \<open>The exchange\<close>

datatype oauth_req = TokenRequest string "(string, string) gomap" | UserRequest string string

record raw_user =
  rwEmail :: string
  rwName :: string
  rwLogin :: string
  rwAvatar :: string
  rwPicture :: string
  rwVerifiedEmail :: "bool option"
  rwEmailVerified :: "bool option"

record raw_email =
  rlEmail :: string
  rlPrimary :: bool
  rlVerified :: bool

record OAuthNet =
  onHttp :: "oauth_req \<Rightarrow> (int \<times> string) option"
  onToken :: "string \<Rightarrow> string option"
  onUser :: "string \<Rightarrow> raw_user option"
  onEmails :: "string \<Rightarrow> raw_email list option"

definition exchangeToken :: "OAuthNet \<Rightarrow> OAuthProvider \<Rightarrow> string \<Rightarrow> string + string" where
  "exchangeToken nt p code =
     (case onHttp nt (TokenRequest (TokenURL p)
         [(''client_id'', ClientID p), (''client_secret'', ClientSecret p), (''code'', code),
          (''redirect_uri'', RedirectURL p), (''grant_type'', ''authorization_code'')]) of
        None \<Rightarrow> Inl ''oauth token exchange: transport''
      | Some (status, body) \<Rightarrow>
          if status \<noteq> 200 then Inl (''oauth token exchange: status '' @ show_int status)
          else (case onToken nt (take (2 ^ 20) body) of
                  None \<Rightarrow> Inl ''oauth token exchange: no access_token''
                | Some tok \<Rightarrow> if tok = '''' then Inl ''oauth token exchange: no access_token'' else Inr tok))"

text \<open>The first address that is verified and primary, else the first verified one.\<close>

definition pick_email :: "raw_email list \<Rightarrow> string" where
  "pick_email es =
     (case filter (\<lambda>e. rlVerified e \<and> rlPrimary e) es of
        e # _ \<Rightarrow> rlEmail e
      | [] \<Rightarrow> (case filter (\<lambda>e. rlVerified e \<and> rlEmail e \<noteq> '''') es of e # _ \<Rightarrow> rlEmail e | [] \<Rightarrow> ''''))"

definition fetchGitHubEmail :: "OAuthNet \<Rightarrow> string \<Rightarrow> string + string" where
  "fetchGitHubEmail nt tok =
     (case onHttp nt (UserRequest ''https://api.github.com/user/emails'' tok) of
        None \<Rightarrow> Inl ''oauth userinfo: transport''
      | Some (status, body) \<Rightarrow>
          if status \<noteq> 200 then Inl (''oauth userinfo: emails status '' @ show_int status)
          else (case onEmails nt body of
                  None \<Rightarrow> Inl ''oauth userinfo: decode''
                | Some es \<Rightarrow>
                    if filter (\<lambda>e. rlVerified e \<and> rlPrimary e) es = [] \<and> pick_email es = ''''
                    then Inl ''oauth userinfo: no verified email'' else Inr (pick_email es)))"

definition fetchUser :: "OAuthNet \<Rightarrow> OAuthProvider \<Rightarrow> string \<Rightarrow> string + OAuthUser" where
  "fetchUser nt p tok =
     (case onHttp nt (UserRequest (UserURL p) tok) of
        None \<Rightarrow> Inl ''oauth userinfo: transport''
      | Some (status, body) \<Rightarrow>
          if status \<noteq> 200 then Inl (''oauth userinfo: status '' @ show_int status)
          else (case onUser nt body of
                  None \<Rightarrow> Inl ''oauth userinfo: decode''
                | Some raw \<Rightarrow>
                    if rwVerifiedEmail raw = Some False \<or> rwEmailVerified raw = Some False
                    then Inl (''oauth userinfo: email is not verified with '' @ opName p)
                    else
                      let name = (if rwName raw = '''' then rwLogin raw else rwName raw);
                          avatar = (if rwAvatar raw = '''' then rwPicture raw else rwAvatar raw);
                          email = (if rwEmail raw = '''' \<and> opName p = ''github'' then fetchGitHubEmail nt tok else Inr (rwEmail raw))
                      in (case email of
                            Inl e \<Rightarrow> Inl e
                          | Inr em \<Rightarrow>
                              if em = '''' then Inl ''oauth userinfo: no email (make it public or add email scope)''
                              else Inr \<lparr>ouEmail = em, ouName = name, ouAvatarURL = avatar, ouProvider = opName p\<rparr>)))"

definition Exchange :: "OAuthNet \<Rightarrow> OAuthProvider \<Rightarrow> string \<Rightarrow> string + OAuthUser" where
  "Exchange nt p code = (case exchangeToken nt p code of Inl e \<Rightarrow> Inl e | Inr tok \<Rightarrow> fetchUser nt p tok)"

section \<open>Whose account a login enters\<close>

text \<open>The provider vouches for an address: its profile carries it and does not call it unverified, or, for a GitHub profile
  without an address, the list of addresses has it as verified.\<close>

definition vouched :: "OAuthNet \<Rightarrow> OAuthProvider \<Rightarrow> string \<Rightarrow> string \<Rightarrow> bool" where
  "vouched nt p code em \<longleftrightarrow>
     (\<exists>tok body raw. exchangeToken nt p code = Inr tok \<and> onHttp nt (UserRequest (UserURL p) tok) = Some (200, body)
        \<and> onUser nt body = Some raw \<and> rwVerifiedEmail raw \<noteq> Some False \<and> rwEmailVerified raw \<noteq> Some False
        \<and> (rwEmail raw = em \<or>
           rwEmail raw = '''' \<and> opName p = ''github'' \<and>
           (\<exists>list es e. onHttp nt (UserRequest ''https://api.github.com/user/emails'' tok) = Some (200, list) \<and> onEmails nt list = Some es
              \<and> e \<in> set es \<and> rlVerified e \<and> rlEmail e = em)))"

lemma pick_email_verified:
  assumes "pick_email es \<noteq> ''''"
  shows "\<exists>e \<in> set es. rlVerified e \<and> rlEmail e = pick_email es"
proof -
  have hd: "e \<in> set es \<and> P e" if "filter P es = e # r" for P e r
  proof -
    have "e \<in> set (filter P es)" using that by simp
    then show ?thesis by simp
  qed
  show ?thesis
  proof (cases "filter (\<lambda>e. rlVerified e \<and> rlPrimary e) es")
    case (Cons e r)
    with hd [OF Cons] show ?thesis by (auto simp: pick_email_def)
  next
    case Nil
    show ?thesis
    proof (cases "filter (\<lambda>e. rlVerified e \<and> rlEmail e \<noteq> '''') es")
      case (Cons e r)
      with Nil hd [OF Cons] show ?thesis by (auto simp: pick_email_def)
    qed (use assms Nil in \<open>simp add: pick_email_def\<close>)
  qed
qed

lemma fetchGitHubEmail_Inr:
  assumes "fetchGitHubEmail nt tok = Inr em" "em \<noteq> ''''"
  shows "\<exists>list es e. onHttp nt (UserRequest ''https://api.github.com/user/emails'' tok) = Some (200, list) \<and> onEmails nt list = Some es
           \<and> e \<in> set es \<and> rlVerified e \<and> rlEmail e = em"
proof -
  obtain list es where l: "onHttp nt (UserRequest ''https://api.github.com/user/emails'' tok) = Some (200, list)" "onEmails nt list = Some es"
    "pick_email es = em"
    using assms(1) unfolding fetchGitHubEmail_def by (simp split: option.splits prod.splits if_splits)
  with pick_email_verified [of es] assms(2) show ?thesis by metis
qed

lemma Exchange_vouched:
  assumes "Exchange nt p code = Inr prof"
  shows "ouEmail prof \<noteq> '''' \<and> vouched nt p code (ouEmail prof)"
proof -
  from assms obtain tok where tok: "exchangeToken nt p code = Inr tok" "fetchUser nt p tok = Inr prof"
    by (auto simp: Exchange_def split: sum.splits)
  from tok(2) obtain body raw where raw: "onHttp nt (UserRequest (UserURL p) tok) = Some (200, body)" "onUser nt body = Some raw"
    "rwVerifiedEmail raw \<noteq> Some False" "rwEmailVerified raw \<noteq> Some False" "ouEmail prof \<noteq> ''''"
    "rwEmail raw = '''' \<and> opName p = ''github'' \<and> fetchGitHubEmail nt tok = Inr (ouEmail prof) \<or> rwEmail raw = ouEmail prof"
    by (auto simp: fetchUser_def Let_def split: option.splits prod.splits if_splits sum.splits)
  with tok(1) fetchGitHubEmail_Inr [of nt tok "ouEmail prof"] show ?thesis unfolding vouched_def by metis
qed

text \<open>The account of an address in a store: the user found by it, and an organisation this user is a member of.\<close>

definition account_of :: "string \<Rightarrow> MemStore \<Rightarrow> User \<Rightarrow> Org \<Rightarrow> bool" where
  "account_of em m u og \<longleftrightarrow> GetUserByEmail em m = Inr u \<and> to_lower (Email u) = to_lower em \<and> GetOrg (orID og) m = Inr og
     \<and> (\<exists>e \<in> set (members m). omUserID e = usID u \<and> omOrgID e = orID og)"

lemma newAccount_account:
  assumes "newAccount dr em name avatar prov m = (Inr (u, og), m')"
  shows "account_of em m' u og \<and> usID u = dUserID dr \<and> orID og = dOrgID dr"
  using assms
  by (auto simp: newAccount_def CreateUser_def CreateOrg_def AddOrgMember_def account_of_def GetUserByEmail_def GetOrg_def the_row_def or_id_def Let_def
      split: sum.splits prod.splits if_splits)

lemma firstOrg_member:
  assumes "firstOrg u m = Inr og" "store_ok m"
  shows "GetOrg (orID og) m = Inr og \<and> (\<exists>e \<in> set (members m). omUserID e = u \<and> omOrgID e = orID og)"
proof -
  from assms(1) have "og \<in> set (OrgsForUser u m)" by (auto simp: firstOrg_def split: list.splits)
  then obtain e where e: "e \<in> set (members m)" "omUserID e = u" "gget (orgs m) (omOrgID e) = Some og"
    by (auto simp: OrgsForUser_def List.map_filter_def split: if_splits)
  moreover have "orID og = omOrgID e" using e(3) assms(2) by (auto simp: store_ok_def)
  ultimately show ?thesis by (auto simp: GetOrg_def the_row_def)
qed

text \<open>A profile that came with the login replaces the stored name and picture, in the row and in what is returned.\<close>

lemma UpdateUserProfile_row:
  assumes "gget (users m) i = Some u"
  shows "UpdateUserProfile i name avatar m =
     (Inr (), m\<lparr>users := gset i (let u1 = (if name \<noteq> '''' then u\<lparr>usName := name\<rparr> else u)
        in if avatar \<noteq> '''' then u1\<lparr>AvatarURL := avatar\<rparr> else u1) (users m)\<rparr>)"
  using assms by (simp add: UpdateUserProfile_def Let_def)

lemma provisionUser_account:
  assumes "provisionUser dr em name avatar prov m = (Inr (u, og), m')" "store_reach m"
  shows "account_of em m' u og \<and>
    (case GetUserByEmail em m of
       Inr w \<Rightarrow> usID u = usID w \<and> orgs m' = orgs m \<and> members m' = members m
     | Inl e \<Rightarrow> usID u = dUserID dr \<and> orID og = dOrgID dr)"
proof (cases "GetUserByEmail em m")
  case (Inl e)
  with assms(1) show ?thesis by (cases e) (auto simp: provisionUser_def dest: newAccount_account)
next
  case (Inr w)
  note ok = store_ok_reach [OF assms(2)]
  from Inr ok obtain i where w: "gget (usersEmail m) (to_lower em) = Some i" "gget (users m) i = Some w" "usID w = i" "to_lower (Email w) = to_lower em"
    by (auto simp: GetUserByEmail_def store_ok_def userix.ok_def index_ok_def split: option.splits) fastforce+
  have ok': "store_ok (snd (UpdateUserProfile i name avatar m))"
    by (rule store_ok_reach [OF store_reach.step [OF assms(2) store_step.intros(2)]])
  show ?thesis
  proof (cases "(avatar \<noteq> '''' \<and> avatar \<noteq> AvatarURL w) \<or> (name \<noteq> '''' \<and> name \<noteq> usName w)")
    case True
    then have "m' = snd (UpdateUserProfile i name avatar m)" "firstOrg (usID u) m' = Inr og" "GetUserByEmail em m' = Inr u" "usID u = i"
      "to_lower (Email u) = to_lower em"
      using assms(1) w Inr by (auto simp: provisionUser_def UpdateUserProfile_row [OF w(2)] GetUserByEmail_def Let_def split: sum.splits if_splits)
    with firstOrg_member [of "usID u" m' og] ok' w Inr show ?thesis
      by (auto simp: account_of_def UpdateUserProfile_row [OF w(2)])
  next
    case False
    then have "m' = m" "u = w" "firstOrg (usID u) m = Inr og"
      using assms(1) Inr by (auto simp: provisionUser_def Let_def split: sum.splits if_splits)
    with firstOrg_member [of "usID u" m og] ok w Inr show ?thesis by (auto simp: account_of_def)
  qed
qed

text \<open>C14. An OAuth login enters only the account of an address the provider vouches for. If a callback ends in a session,
  then the browser holds the cookie with the state of the callback, that state is one the service keeps, not yet expired, and is used up; the code was
  exchanged for a token with the provider; the provider's profile carries the address and does not call it unverified (for a GitHub
  account with a hidden address, it is one of the verified addresses); and the tokens are for the user that the store then finds by this address and for an
  organisation this user is a member of. If the store found a user by this address before, it is that user, and no organisation or
  membership has changed; if not, user and organisation have the newly drawn ids. The address the browser is sent to is one of the dashboard.\<close>

theorem oauth_login_enters_own_account:
  assumes "handleOAuthCallback sg (Some (Exchange nt p)) dr qstate stateCookie code nextCookie a = (Inr (dest, tokens), a')"
    and "store_reach (aStore a)"
  shows "stateCookie = Some qstate \<and> (\<exists>ex. gget (aStates a) qstate = Some ex \<and> dNow dr < ex) \<and> gget (aStates a') qstate = None
       \<and> (\<exists>em u og. vouched nt p code em \<and> account_of em (aStore a') u og
            \<and> IssueTokens sg (aAuth a) (dNow dr) (dJti dr) (usID u) (orID og) = Some tokens
            \<and> (case GetUserByEmail em (aStore a) of
                 Inr w \<Rightarrow> usID u = usID w \<and> orgs (aStore a') = orgs (aStore a) \<and> members (aStore a') = members (aStore a)
               | Inl e \<Rightarrow> usID u = dUserID dr \<and> orID og = dOrgID dr))
       \<and> (\<exists>rest. dest = appBase (aCfg a) @ ''/'' @ rest \<and> \<not> has_prefix rest ''/'' \<and> \<not> has_prefix rest [CHR 0x5C])"
proof -
  from assms(1) obtain st prof u og m where c: "stateCookie = Some qstate" "state_Check (dNow dr) qstate (aStates a) = (True, st)"
    "Exchange nt p code = Inr prof"
    "provisionUser dr (ouEmail prof) (ouName prof) (ouAvatarURL prof) (ouProvider prof) (aStore a) = (Inr (u, og), m)"
    "IssueTokens sg (aAuth a) (dNow dr) (dJti dr) (usID u) (orID og) = Some tokens"
    "a' = a\<lparr>aStates := st, aStore := m\<rparr>"
    "dest = (case nextCookie of Some nc \<Rightarrow> if safeNextPath nc \<noteq> '''' then appBase (aCfg a) @ safeNextPath nc else appBase (aCfg a) @ ''/''
                              | None \<Rightarrow> appBase (aCfg a) @ ''/'')"
    by (auto simp: handleOAuthCallback_def issue_def Let_def split: if_splits sum.splits prod.splits option.splits bool.splits)
  have "\<exists>rest. dest = appBase (aCfg a) @ ''/'' @ rest \<and> \<not> has_prefix rest ''/'' \<and> \<not> has_prefix rest [CHR 0x5C]"
  proof (cases "nextCookie = None \<or> safeNextPath (the nextCookie) = ''''")
    case True
    then show ?thesis by (intro exI [of _ "[]"]) (auto simp: c(7) has_prefix_def split: option.splits)
  next
    case False
    then obtain nc where nc: "nextCookie = Some nc" "safeNextPath nc \<noteq> ''''" by auto
    then obtain rest where "nc = CHR ''/'' # rest" "safeNextPath nc = nc" "\<not> has_prefix rest ''/''" "\<not> has_prefix rest [CHR 0x5C]"
      by (cases nc) (auto simp: safeNextPath_def has_prefix_def split: if_splits)
    with nc show ?thesis by (intro exI [of _ rest]) (simp add: c(7))
  qed
  moreover have "(\<exists>ex. gget (aStates a) qstate = Some ex \<and> dNow dr < ex) \<and> gget (aStates a') qstate = None"
    using c(2,6) by (auto simp: state_Check_def split: option.splits if_splits)
  moreover have "vouched nt p code (ouEmail prof)" using Exchange_vouched [OF c(3)] by simp
  moreover note provisionUser_account [OF c(4) assms(2)]
  moreover have "aStore a' = m" using c(6) by simp
  ultimately show ?thesis using c(1,5) by blast
qed

text \<open>A login at a provider that answers every request.\<close>

definition ex_oauth :: OAuthNet where
  "ex_oauth = \<lparr>onHttp = (\<lambda>r. Some (200, '''')), onToken = (\<lambda>b. Some ''t''),
     onUser = (\<lambda>b. Some \<lparr>rwEmail = ''a@b.c'', rwName = ''A'', rwLogin = '''', rwAvatar = '''', rwPicture = '''',
        rwVerifiedEmail = Some True, rwEmailVerified = None\<rparr>), onEmails = (\<lambda>b. None)\<rparr>"

definition ex_login :: Api where
  "ex_login = \<lparr>aCfg = DefaultApiConfig, aAuth = newAuthCfg ''secret'', aStore = NewMemStore, aRev = [], aDev = newDeviceStore,
     aStates = [(''s'', 100)]\<rparr>"

definition ex_draw :: Draw where
  "ex_draw = \<lparr>dNow = 7, dUserID = ''usr_1'', dOrgID = ''org_1'', dKeyID = ''key_1'', dJti = ([], []), dRand1 = None, dRand2 = None, dSalt = []\<rparr>"

theorem oauth_login_enters_own_account_witness:
  "\<exists>tokens a'. handleOAuthCallback (\<lambda>k c. Some ''jwt'') (Some (Exchange ex_oauth (GoogleProvider ''i'' ''s'' ''r''))) ex_draw ''s'' (Some ''s'') ''c'' None ex_login
       = (Inr (appBase DefaultApiConfig @ ''/'', tokens), a')
     \<and> gget (aStates a') ''s'' = None \<and> (\<exists>em. vouched ex_oauth (GoogleProvider ''i'' ''s'' ''r'') ''c'' em)"
proof -
  have ex: "Exchange ex_oauth (GoogleProvider ''i'' ''s'' ''r'') ''c'' = Inr \<lparr>ouEmail = ''a@b.c'', ouName = ''A'', ouAvatarURL = '''', ouProvider = ''google''\<rparr>"
    by (simp add: Exchange_def exchangeToken_def fetchUser_def ex_oauth_def GoogleProvider_def)
  obtain tokens a' where h: "handleOAuthCallback (\<lambda>k c. Some ''jwt'') (Some (Exchange ex_oauth (GoogleProvider ''i'' ''s'' ''r''))) ex_draw ''s'' (Some ''s'') ''c'' None ex_login
       = (Inr (appBase DefaultApiConfig @ ''/'', tokens), a')"
    by (simp add: handleOAuthCallback_def ex ex_login_def ex_draw_def state_Check_def provisionUser_def GetUserByEmail_def newAccount_def
        CreateUser_def CreateOrg_def AddOrgMember_def NewMemStore_def issue_def IssueTokens_def sign_def or_id_def or_time_def Let_def)
  have "store_reach (aStore ex_login)" by (simp add: ex_login_def store_reach.start)
  from oauth_login_enters_own_account [OF h this] h show ?thesis by blast
qed

end
