(* ===== verification/Resources.thy ===== *)
theory Resources
  imports Entitle Login StoreInv
begin

text \<open>
  The handlers of the control plane for the resources of an account
  (\<^verbatim>\<open>internal/api/handlers_resources.go\<close>, \<^verbatim>\<open>handlers_history.go\<close>): API keys, reserved subdomains, custom
  domains, usage, tunnels, profile. A handler takes the principal the authentication put into the
  request, the decoded body (\<open>None\<close> when it does not decode), and the store; it yields a status with
  a message or a view, and the new store. The store that is modelled (\<open>Store\<close>) does not fail in its
  reading operations, so the branches for such failures have no counterpart. The DNS resolver is the
  argument \<open>txt\<close>.
\<close>

abbreviation orgOf :: "Principal \<Rightarrow> string" where "orgOf p \<equiv> prOrgID p"

abbreviation bad_body :: "nat \<times> string" where "bad_body \<equiv> (400, ''invalid request body'')"

section \<open>API keys\<close>

record newKeyView =
  nkID :: string
  nkName :: string
  nkPrefix :: string
  nkApiKey :: string
  nkCreatedAt :: gotime

record keyView =
  kvID :: string
  kvName :: string
  kvPrefix :: string
  kvLastUsedAt :: "gotime option"
  kvRevokedAt :: "gotime option"
  kvCreatedAt :: gotime

definition handleCreateAPIKey :: "idkey \<Rightarrow> Draw \<Rightarrow> Principal \<Rightarrow> string option \<Rightarrow> MemStore \<Rightarrow> newKeyView resp \<times> MemStore" where
  "handleCreateAPIKey idkey dr p body m =
     (case body of
        None \<Rightarrow> (Inl bad_body, m)
      | Some nm \<Rightarrow>
          let name = (if nm = '''' then ''default'' else nm) in
          (case GenerateAPIKey idkey (dRand1 dr) (dRand2 dr) (dSalt dr) of
             None \<Rightarrow> (Inl (500, ''rand''), m)
           | Some g \<Rightarrow>
               (case CreateAPIKey (dNow dr) (dKeyID dr)
                       (zeroKey\<lparr>kyOrgID := orgOf p, kyName := name, Prefix := gkPrefix g, Hash := gkHash g\<rparr>) m of
                  (Inl e, m') \<Rightarrow> (Inl (500, store_msg e), m')
                | (Inr k, m') \<Rightarrow>
                    (Inr \<lparr>nkID = kyID k, nkName = kyName k, nkPrefix = Prefix k, nkApiKey = gkFull g, nkCreatedAt = kyCreatedAt k\<rparr>, m'))))"

definition key_view :: "APIKey \<Rightarrow> keyView" where
  "key_view k = \<lparr>kvID = kyID k, kvName = kyName k, kvPrefix = Prefix k, kvLastUsedAt = LastUsedAt k,
     kvRevokedAt = RevokedAt k, kvCreatedAt = kyCreatedAt k\<rparr>"

definition handleListAPIKeys :: "Principal \<Rightarrow> MemStore \<Rightarrow> keyView list" where
  "handleListAPIKeys p m = map key_view (ListAPIKeys (orgOf p) m)"

definition handleRevokeAPIKey :: "gotime \<Rightarrow> Principal \<Rightarrow> string \<Rightarrow> MemStore \<Rightarrow> unit resp \<times> MemStore" where
  "handleRevokeAPIKey t p i m =
     (case RevokeAPIKey i (orgOf p) t m of
        (Inl e, m') \<Rightarrow> (Inl (404, ''no such key''), m')
      | (Inr _, m') \<Rightarrow> (Inr (), m'))"

section \<open>Subdomains\<close>

definition lower_alnum :: "char \<Rightarrow> bool" where
  "lower_alnum c \<longleftrightarrow> (let n = (of_char c :: nat) in (97 \<le> n \<and> n \<le> 122) \<or> (48 \<le> n \<and> n \<le> 57))"

text \<open>\<^verbatim>\<open>^[a-z0-9]([a-z0-9-]{0,61}[a-z0-9])?$\<close>\<close>

definition subdomainRe :: "string \<Rightarrow> bool" where
  "subdomainRe s =
     (case s of
        [] \<Rightarrow> False
      | c # r \<Rightarrow> lower_alnum c \<and>
          (r = [] \<or> length (butlast r) \<le> 61 \<and> list_all (\<lambda>c. lower_alnum c \<or> c = CHR ''-'') (butlast r) \<and> lower_alnum (last r)))"

text \<open>The handler asks for the plan and the number of reservations, and then reserves. The two calls
  lock the store separately.\<close>

definition reserveAllowed :: "gotime \<Rightarrow> Principal \<Rightarrow> string \<Rightarrow> MemStore \<Rightarrow> Org resp" where
  "reserveAllowed t p sub m =
     (if \<not> subdomainRe sub then Inl (400, ''invalid subdomain'')
      else (case GetOrg (orgOf p) m of
              Inl e \<Rightarrow> Inl (500, store_msg e)
            | Inr og \<Rightarrow>
                if int (CountSubdomains (orID og) m) \<ge> pMaxReservedSubdomains (PlanFor (effectivePlan t og))
                then Inl (403, ''reserved subdomain limit reached for your plan'')
                else Inr og))"

definition reserveCommit :: "gotime \<Rightarrow> string \<Rightarrow> Org \<Rightarrow> string \<Rightarrow> MemStore \<Rightarrow> ReservedSubdomain resp \<times> MemStore" where
  "reserveCommit t nid og sub m =
     (case ReserveSubdomain t nid \<lparr>rsuID = '''', rsuOrgID = orID og, Subdomain = sub, rsuCreatedAt = 0\<rparr> m of
        (Inl ErrConflict, m') \<Rightarrow> (Inl (409, ''subdomain already taken''), m')
      | (Inl e, m') \<Rightarrow> (Inl (500, store_msg e), m')
      | (Inr res, m') \<Rightarrow> (Inr res, m'))"

definition handleReserveSubdomain :: "gotime \<Rightarrow> string \<Rightarrow> Principal \<Rightarrow> string option \<Rightarrow> MemStore \<Rightarrow> ReservedSubdomain resp \<times> MemStore" where
  "handleReserveSubdomain t nid p body m =
     (case body of
        None \<Rightarrow> (Inl bad_body, m)
      | Some b \<Rightarrow>
          let sub = to_lower (trim_space b) in
          (case reserveAllowed t p sub m of
             Inl e \<Rightarrow> (Inl e, m)
           | Inr og \<Rightarrow> reserveCommit t nid og sub m))"

definition handleListSubdomains :: "Principal \<Rightarrow> MemStore \<Rightarrow> ReservedSubdomain list" where
  "handleListSubdomains p m = ListSubdomains (orgOf p) m"

definition handleReleaseSubdomain :: "Principal \<Rightarrow> string \<Rightarrow> MemStore \<Rightarrow> unit resp \<times> MemStore" where
  "handleReleaseSubdomain p i m =
     (case ReleaseSubdomain i (orgOf p) m of
        (Inl e, m') \<Rightarrow> (Inl (404, ''no such subdomain''), m')
      | (Inr _, m') \<Rightarrow> (Inr (), m'))"

section \<open>Custom domains\<close>

record domainView =
  dvDomain :: CustomDomain
  dvTxtName :: string
  dvTxtValue :: string
  dvCnameName :: string
  dvCnameValue :: string

definition domainAllowed :: "gotime \<Rightarrow> Principal \<Rightarrow> string \<Rightarrow> MemStore \<Rightarrow> Org resp" where
  "domainAllowed t p domain m =
     (if domain = '''' \<or> CHR ''.'' \<notin> set domain then Inl (400, ''invalid domain'')
      else (case GetOrg (orgOf p) m of
              Inl e \<Rightarrow> Inl (500, store_msg e)
            | Inr og \<Rightarrow>
                let plan = PlanFor (effectivePlan t og) in
                if \<not> pAllowCustomDomains plan then Inl (403, ''custom domains require a paid plan'')
                else if int (CountCustomDomains (orID og) m) \<ge> pMaxCustomDomains plan
                then Inl (403, ''custom domain limit reached for your plan'')
                else Inr og))"

text \<open>The verification token is drawn with \<^verbatim>\<open>NewID\<close>: eight random bytes in hexadecimal.\<close>

definition verifyToken :: "byte list \<Rightarrow> string" where
  "verifyToken rb = ''trqsh-verify='' @ hex_encode rb"

definition handleAddDomain :: "ApiConfig \<Rightarrow> gotime \<Rightarrow> string \<Rightarrow> byte list \<Rightarrow> Principal \<Rightarrow> string option \<Rightarrow> MemStore \<Rightarrow> domainView resp \<times> MemStore" where
  "handleAddDomain c t nid rb p body m =
     (case body of
        None \<Rightarrow> (Inl bad_body, m)
      | Some b \<Rightarrow>
          let domain = to_lower (trim_space b) in
          (case domainAllowed t p domain m of
             Inl e \<Rightarrow> (Inl e, m)
           | Inr og \<Rightarrow>
               (case AddCustomDomain t nid (zeroDomain\<lparr>cdOrgID := orID og, Domain := domain, VerifyToken := verifyToken rb\<rparr>) m of
                  (Inl ErrConflict, m') \<Rightarrow> (Inl (409, ''domain already added''), m')
                | (Inl e, m') \<Rightarrow> (Inl (500, store_msg e), m')
                | (Inr d, m') \<Rightarrow>
                    (Inr \<lparr>dvDomain = d, dvTxtName = ''_trqsh-challenge.'' @ domain, dvTxtValue = verifyToken rb,
                          dvCnameName = domain, dvCnameValue = apBaseDomain c\<rparr>, m'))))"

definition handleListDomains :: "Principal \<Rightarrow> MemStore \<Rightarrow> CustomDomain list" where
  "handleListDomains p m = ListCustomDomains (orgOf p) m"

definition dnsHasTXT :: "(string \<Rightarrow> string list option) \<Rightarrow> string \<Rightarrow> string \<Rightarrow> bool" where
  "dnsHasTXT txt name want = (case txt name of None \<Rightarrow> False | Some records \<Rightarrow> list_ex (\<lambda>rec. trim_space rec = want) records)"

definition handleVerifyDomain ::
  "(string \<Rightarrow> string list option) \<Rightarrow> ApiConfig \<Rightarrow> gotime \<Rightarrow> Principal \<Rightarrow> string \<Rightarrow> string \<Rightarrow> MemStore \<Rightarrow> CustomDomain resp \<times> MemStore" where
  "handleVerifyDomain txt c t p i force m =
     (case GetCustomDomain i (orgOf p) m of
        Inl e \<Rightarrow> (Inl (404, ''no such domain''), m)
      | Inr d \<Rightarrow>
          let forced = DevAuth c \<and> force = ''true'' in
          if \<not> forced \<and> \<not> dnsHasTXT txt (''_trqsh-challenge.'' @ Domain d) (VerifyToken d)
          then (Inl (400, ''DNS TXT record not found yet; add it and retry''), m)
          else (case VerifyCustomDomain i (orgOf p) t m of
                  (Inl e, m') \<Rightarrow> (Inl (500, store_msg e), m')
                | (Inr _, m') \<Rightarrow>
                    (Inr (case GetCustomDomain i (orgOf p) m' of Inr v \<Rightarrow> v | Inl _ \<Rightarrow> zeroDomain), m')))"

section \<open>Usage, accounts, tunnels\<close>

text \<open>\<^verbatim>\<open>time.Now().AddDate(0, 0, -n)\<close>, in UTC.\<close>

abbreviation days_before :: "gotime \<Rightarrow> int \<Rightarrow> gotime" where
  "days_before t n \<equiv> t - n * aday"

record usageView =
  uvUsage :: UsageRecord
  uvBandwidthMo :: int
  uvRequestsMo :: int
  uvPlan :: string
  uvPlanExpiresAt :: "gotime option"

definition handleUsage :: "gotime \<Rightarrow> Principal \<Rightarrow> MemStore \<Rightarrow> usageView resp" where
  "handleUsage t p m =
     (case GetOrg (orgOf p) m of
        Inl e \<Rightarrow> Inl (500, store_msg e)
      | Inr og \<Rightarrow>
          let planCode = effectivePlan t og; plan = PlanFor planCode
          in Inr \<lparr>uvUsage = UsageForOrg t (orID og) (days_before t 30) m, uvBandwidthMo = pMaxBandwidthBytesMo plan,
                  uvRequestsMo = pMaxRequestsMo plan, uvPlan = planCode, uvPlanExpiresAt = PlanExpiresAt og\<rparr>)"

definition handleListOrgs :: "Principal \<Rightarrow> MemStore \<Rightarrow> Org list resp" where
  "handleListOrgs p m =
     (if prUserID p = '''' then
        (case GetOrg (orgOf p) m of Inl e \<Rightarrow> Inl (500, store_msg e) | Inr og \<Rightarrow> Inr [og])
      else Inr (OrgsForUser (prUserID p) m))"

definition handleListTunnels :: "Principal \<Rightarrow> MemStore \<Rightarrow> TunnelSession list" where
  "handleListTunnels p m = ListTunnelSessions \<lparr>fOrgID = orgOf p, ActiveOnly = True, Limit = 200, Offset = 0\<rparr> m"

definition ownerUserID :: "OrgMember list \<Rightarrow> string" where
  "ownerUserID ms =
     (case filter (\<lambda>e. Role e = ''owner'') ms of
        e # _ \<Rightarrow> omUserID e
      | [] \<Rightarrow> (case ms of e # _ \<Rightarrow> omUserID e | [] \<Rightarrow> ''''))"

record meView =
  meUser :: User
  meOrg :: Org
  mePlan :: string
  mePlanExpiresAt :: "gotime option"
  meViaAPIKey :: bool
  meUsage :: UsageRecord
  meLimits :: "(string, int) gomap"

definition handleMe :: "gotime \<Rightarrow> Principal \<Rightarrow> MemStore \<Rightarrow> meView resp" where
  "handleMe t p m =
     (case GetOrg (orgOf p) m of
        Inl e \<Rightarrow> Inl (500, store_msg e)
      | Inr og \<Rightarrow>
          let userID = (if prUserID p = '''' then ownerUserID (ListOrgMembers (orID og) m) else prUserID p);
              u = (if userID \<noteq> '''' then (case GetUser userID m of Inr u \<Rightarrow> u | Inl _ \<Rightarrow> zeroUser) else zeroUser);
              planCode = effectivePlan t og;
              plan = PlanFor planCode
          in Inr \<lparr>meUser = u, meOrg = og\<lparr>orPlan := planCode\<rparr>, mePlan = planCode, mePlanExpiresAt = PlanExpiresAt og,
                  meViaAPIKey = ViaAPIKey p, meUsage = UsageForOrg t (orID og) (days_before t 30) m,
                  meLimits = [(''bandwidth_bytes_mo'', pMaxBandwidthBytesMo plan), (''requests_mo'', pMaxRequestsMo plan),
                    (''max_concurrent_tunnels'', pMaxConcurrentTunnels plan),
                    (''max_reserved_subdomains'', pMaxReservedSubdomains plan),
                    (''max_custom_domains'', pMaxCustomDomains plan)]\<rparr>)"

definition handleListPlans :: "Plan list" where
  "handleListPlans = sort_key pMaxConcurrentTunnels (map snd Catalog)"

section \<open>History\<close>

text \<open>\<^verbatim>\<open>parsePage\<close> gets the two query parameters; a missing one is empty.\<close>

definition parsePage :: "string \<Rightarrow> string \<Rightarrow> int \<Rightarrow> int \<Rightarrow> int \<times> int" where
  "parsePage qlimit qoffset defLimit maxLimit =
     (let l = (case atoi qlimit of Some v \<Rightarrow> if v > 0 then v else defLimit | None \<Rightarrow> defLimit)
      in (min l maxLimit, case atoi qoffset of Some v \<Rightarrow> if v > 0 then v else 0 | None \<Rightarrow> 0))"

record historyView =
  hvSessions :: "TunnelSession list"
  hvTotal :: nat
  hvLimit :: int
  hvOffset :: int

definition handleTunnelHistory :: "Principal \<Rightarrow> string \<Rightarrow> string \<Rightarrow> string \<Rightarrow> MemStore \<Rightarrow> historyView" where
  "handleTunnelHistory p qlimit qoffset qactive m =
     (let (limit, off) = parsePage qlimit qoffset 50 200; activeOnly = (qactive = ''true'')
      in \<lparr>hvSessions = ListTunnelSessions \<lparr>fOrgID = orgOf p, ActiveOnly = activeOnly, Limit = limit, Offset = off\<rparr> m,
          hvTotal = CountTunnelSessions (orgOf p) activeOnly m, hvLimit = limit, hvOffset = off\<rparr>)"

definition handleUsageHistory :: "gotime \<Rightarrow> Principal \<Rightarrow> string \<Rightarrow> string \<Rightarrow> MemStore \<Rightarrow> string \<times> gotime \<times> UsageBucket list" where
  "handleUsageHistory t p qbucket qdays m =
     (let bucket = (if qbucket \<noteq> ''hour'' then ''day'' else qbucket);
          days = (case atoi qdays of Some v \<Rightarrow> if v > 0 then v else 30 | None \<Rightarrow> 30);
          since = days_before t (min days 365)
      in (bucket, since, UsageSeriesForOrg (orgOf p) since bucket m))"

end
