(* ===== verification/Geo.thy ===== *)
theory Geo
  imports IpAddr Http Complex_Main
begin

text \<open>
  Locating clients (\<^verbatim>\<open>internal/geo\<close>): the table of countries, the catalogue of regions with the choice of the nearest, and
  the chain of resolvers behind a cache. The provider is the argument \<open>http\<close>, from an URL to a status and body, with
  \<open>dec\<close> decoding the body; the model returns the URLs that were requested. Coordinates are rationals, carried and never
  computed with.
\<close>

section \<open>Countries\<close>

definition countries :: "(string, string \<times> string) gomap" where
  "countries =
     [
      (''AD'', (''Andorra'', ''EU'')), (''AE'', (''United Arab Emirates'', ''AS'')), (''AF'', (''Afghanistan'', ''AS'')),
      (''AG'', (''Antigua and Barbuda'', ''NA'')), (''AI'', (''Anguilla'', ''NA'')), (''AL'', (''Albania'', ''EU'')),
      (''AM'', (''Armenia'', ''AS'')), (''AO'', (''Angola'', ''AF'')), (''AQ'', (''Antarctica'', ''AN'')),
      (''AR'', (''Argentina'', ''SA'')), (''AS'', (''American Samoa'', ''OC'')), (''AT'', (''Austria'', ''EU'')),
      (''AU'', (''Australia'', ''OC'')), (''AW'', (''Aruba'', ''NA'')), (''AX'', ([CHR 0xC3, CHR 0x85] @ ''land Islands'', ''EU'')),
      (''AZ'', (''Azerbaijan'', ''AS'')), (''BA'', (''Bosnia and Herzegovina'', ''EU'')), (''BB'', (''Barbados'', ''NA'')),
      (''BD'', (''Bangladesh'', ''AS'')), (''BE'', (''Belgium'', ''EU'')), (''BF'', (''Burkina Faso'', ''AF'')),
      (''BG'', (''Bulgaria'', ''EU'')), (''BH'', (''Bahrain'', ''AS'')), (''BI'', (''Burundi'', ''AF'')),
      (''BJ'', (''Benin'', ''AF'')), (''BL'', (''Saint Barth'' @ [CHR 0xC3, CHR 0xA9] @ ''lemy'', ''NA'')), (''BM'', (''Bermuda'', ''NA'')),
      (''BN'', (''Brunei'', ''AS'')), (''BO'', (''Bolivia'', ''SA'')), (''BQ'', (''Caribbean Netherlands'', ''NA'')),
      (''BR'', (''Brazil'', ''SA'')), (''BS'', (''Bahamas'', ''NA'')), (''BT'', (''Bhutan'', ''AS'')),
      (''BV'', (''Bouvet Island'', ''AN'')), (''BW'', (''Botswana'', ''AF'')), (''BY'', (''Belarus'', ''EU'')),
      (''BZ'', (''Belize'', ''NA'')), (''CA'', (''Canada'', ''NA'')), (''CC'', (''Cocos (Keeling) Islands'', ''AS'')),
      (''CD'', (''DR Congo'', ''AF'')), (''CF'', (''Central African Republic'', ''AF'')), (''CG'', (''Congo'', ''AF'')),
      (''CH'', (''Switzerland'', ''EU'')), (''CI'', (''C'' @ [CHR 0xC3, CHR 0xB4] @ ''te d'' @ [CHR 0x27] @ ''Ivoire'', ''AF'')), (''CK'', (''Cook Islands'', ''OC'')),
      (''CL'', (''Chile'', ''SA'')), (''CM'', (''Cameroon'', ''AF'')), (''CN'', (''China'', ''AS'')),
      (''CO'', (''Colombia'', ''SA'')), (''CR'', (''Costa Rica'', ''NA'')), (''CU'', (''Cuba'', ''NA'')),
      (''CV'', (''Cape Verde'', ''AF'')), (''CW'', (''Cura'' @ [CHR 0xC3, CHR 0xA7] @ ''ao'', ''NA'')), (''CX'', (''Christmas Island'', ''AS'')),
      (''CY'', (''Cyprus'', ''AS'')), (''CZ'', (''Czechia'', ''EU'')), (''DE'', (''Germany'', ''EU'')),
      (''DJ'', (''Djibouti'', ''AF'')), (''DK'', (''Denmark'', ''EU'')), (''DM'', (''Dominica'', ''NA'')),
      (''DO'', (''Dominican Republic'', ''NA'')), (''DZ'', (''Algeria'', ''AF'')), (''EC'', (''Ecuador'', ''SA'')),
      (''EE'', (''Estonia'', ''EU'')), (''EG'', (''Egypt'', ''AF'')), (''EH'', (''Western Sahara'', ''AF'')),
      (''ER'', (''Eritrea'', ''AF'')), (''ES'', (''Spain'', ''EU'')), (''ET'', (''Ethiopia'', ''AF'')),
      (''FI'', (''Finland'', ''EU'')), (''FJ'', (''Fiji'', ''OC'')), (''FK'', (''Falkland Islands'', ''SA'')),
      (''FM'', (''Micronesia'', ''OC'')), (''FO'', (''Faroe Islands'', ''EU'')), (''FR'', (''France'', ''EU'')),
      (''GA'', (''Gabon'', ''AF'')), (''GB'', (''United Kingdom'', ''EU'')), (''GD'', (''Grenada'', ''NA'')),
      (''GE'', (''Georgia'', ''AS'')), (''GF'', (''French Guiana'', ''SA'')), (''GG'', (''Guernsey'', ''EU'')),
      (''GH'', (''Ghana'', ''AF'')), (''GI'', (''Gibraltar'', ''EU'')), (''GL'', (''Greenland'', ''NA'')),
      (''GM'', (''Gambia'', ''AF'')), (''GN'', (''Guinea'', ''AF'')), (''GP'', (''Guadeloupe'', ''NA'')),
      (''GQ'', (''Equatorial Guinea'', ''AF'')), (''GR'', (''Greece'', ''EU'')), (''GS'', (''South Georgia'', ''AN'')),
      (''GT'', (''Guatemala'', ''NA'')), (''GU'', (''Guam'', ''OC'')), (''GW'', (''Guinea-Bissau'', ''AF'')),
      (''GY'', (''Guyana'', ''SA'')), (''HK'', (''Hong Kong'', ''AS'')), (''HM'', (''Heard & McDonald Islands'', ''AN'')),
      (''HN'', (''Honduras'', ''NA'')), (''HR'', (''Croatia'', ''EU'')), (''HT'', (''Haiti'', ''NA'')),
      (''HU'', (''Hungary'', ''EU'')), (''ID'', (''Indonesia'', ''AS'')), (''IE'', (''Ireland'', ''EU'')),
      (''IL'', (''Israel'', ''AS'')), (''IM'', (''Isle of Man'', ''EU'')), (''IN'', (''India'', ''AS'')),
      (''IO'', (''British Indian Ocean Territory'', ''AS'')), (''IQ'', (''Iraq'', ''AS'')), (''IR'', (''Iran'', ''AS'')),
      (''IS'', (''Iceland'', ''EU'')), (''IT'', (''Italy'', ''EU'')), (''JE'', (''Jersey'', ''EU'')),
      (''JM'', (''Jamaica'', ''NA'')), (''JO'', (''Jordan'', ''AS'')), (''JP'', (''Japan'', ''AS'')),
      (''KE'', (''Kenya'', ''AF'')), (''KG'', (''Kyrgyzstan'', ''AS'')), (''KH'', (''Cambodia'', ''AS'')),
      (''KI'', (''Kiribati'', ''OC'')), (''KM'', (''Comoros'', ''AF'')), (''KN'', (''Saint Kitts and Nevis'', ''NA'')),
      (''KP'', (''North Korea'', ''AS'')), (''KR'', (''South Korea'', ''AS'')), (''KW'', (''Kuwait'', ''AS'')),
      (''KY'', (''Cayman Islands'', ''NA'')), (''KZ'', (''Kazakhstan'', ''AS'')), (''LA'', (''Laos'', ''AS'')),
      (''LB'', (''Lebanon'', ''AS'')), (''LC'', (''Saint Lucia'', ''NA'')), (''LI'', (''Liechtenstein'', ''EU'')),
      (''LK'', (''Sri Lanka'', ''AS'')), (''LR'', (''Liberia'', ''AF'')), (''LS'', (''Lesotho'', ''AF'')),
      (''LT'', (''Lithuania'', ''EU'')), (''LU'', (''Luxembourg'', ''EU'')), (''LV'', (''Latvia'', ''EU'')),
      (''LY'', (''Libya'', ''AF'')), (''MA'', (''Morocco'', ''AF'')), (''MC'', (''Monaco'', ''EU'')),
      (''MD'', (''Moldova'', ''EU'')), (''ME'', (''Montenegro'', ''EU'')), (''MF'', (''Saint Martin'', ''NA'')),
      (''MG'', (''Madagascar'', ''AF'')), (''MH'', (''Marshall Islands'', ''OC'')), (''MK'', (''North Macedonia'', ''EU'')),
      (''ML'', (''Mali'', ''AF'')), (''MM'', (''Myanmar'', ''AS'')), (''MN'', (''Mongolia'', ''AS'')),
      (''MO'', (''Macao'', ''AS'')), (''MP'', (''Northern Mariana Islands'', ''OC'')), (''MQ'', (''Martinique'', ''NA'')),
      (''MR'', (''Mauritania'', ''AF'')), (''MS'', (''Montserrat'', ''NA'')), (''MT'', (''Malta'', ''EU'')),
      (''MU'', (''Mauritius'', ''AF'')), (''MV'', (''Maldives'', ''AS'')), (''MW'', (''Malawi'', ''AF'')),
      (''MX'', (''Mexico'', ''NA'')), (''MY'', (''Malaysia'', ''AS'')), (''MZ'', (''Mozambique'', ''AF'')),
      (''NA'', (''Namibia'', ''AF'')), (''NC'', (''New Caledonia'', ''OC'')), (''NE'', (''Niger'', ''AF'')),
      (''NF'', (''Norfolk Island'', ''OC'')), (''NG'', (''Nigeria'', ''AF'')), (''NI'', (''Nicaragua'', ''NA'')),
      (''NL'', (''Netherlands'', ''EU'')), (''NO'', (''Norway'', ''EU'')), (''NP'', (''Nepal'', ''AS'')),
      (''NR'', (''Nauru'', ''OC'')), (''NU'', (''Niue'', ''OC'')), (''NZ'', (''New Zealand'', ''OC'')),
      (''OM'', (''Oman'', ''AS'')), (''PA'', (''Panama'', ''NA'')), (''PE'', (''Peru'', ''SA'')),
      (''PF'', (''French Polynesia'', ''OC'')), (''PG'', (''Papua New Guinea'', ''OC'')), (''PH'', (''Philippines'', ''AS'')),
      (''PK'', (''Pakistan'', ''AS'')), (''PL'', (''Poland'', ''EU'')), (''PM'', (''Saint Pierre and Miquelon'', ''NA'')),
      (''PN'', (''Pitcairn Islands'', ''OC'')), (''PR'', (''Puerto Rico'', ''NA'')), (''PS'', (''Palestine'', ''AS'')),
      (''PT'', (''Portugal'', ''EU'')), (''PW'', (''Palau'', ''OC'')), (''PY'', (''Paraguay'', ''SA'')),
      (''QA'', (''Qatar'', ''AS'')), (''RE'', (''R'' @ [CHR 0xC3, CHR 0xA9] @ ''union'', ''AF'')), (''RO'', (''Romania'', ''EU'')),
      (''RS'', (''Serbia'', ''EU'')), (''RU'', (''Russia'', ''EU'')), (''RW'', (''Rwanda'', ''AF'')),
      (''SA'', (''Saudi Arabia'', ''AS'')), (''SB'', (''Solomon Islands'', ''OC'')), (''SC'', (''Seychelles'', ''AF'')),
      (''SD'', (''Sudan'', ''AF'')), (''SE'', (''Sweden'', ''EU'')), (''SG'', (''Singapore'', ''AS'')),
      (''SH'', (''Saint Helena'', ''AF'')), (''SI'', (''Slovenia'', ''EU'')), (''SJ'', (''Svalbard and Jan Mayen'', ''EU'')),
      (''SK'', (''Slovakia'', ''EU'')), (''SL'', (''Sierra Leone'', ''AF'')), (''SM'', (''San Marino'', ''EU'')),
      (''SN'', (''Senegal'', ''AF'')), (''SO'', (''Somalia'', ''AF'')), (''SR'', (''Suriname'', ''SA'')),
      (''SS'', (''South Sudan'', ''AF'')), (''ST'', (''S'' @ [CHR 0xC3, CHR 0xA3] @ ''o Tom'' @ [CHR 0xC3, CHR 0xA9] @ '' and Pr'' @ [CHR 0xC3, CHR 0xAD] @ ''ncipe'', ''AF'')), (''SV'', (''El Salvador'', ''NA'')),
      (''SX'', (''Sint Maarten'', ''NA'')), (''SY'', (''Syria'', ''AS'')), (''SZ'', (''Eswatini'', ''AF'')),
      (''TC'', (''Turks and Caicos Islands'', ''NA'')), (''TD'', (''Chad'', ''AF'')), (''TF'', (''French Southern Territories'', ''AN'')),
      (''TG'', (''Togo'', ''AF'')), (''TH'', (''Thailand'', ''AS'')), (''TJ'', (''Tajikistan'', ''AS'')),
      (''TK'', (''Tokelau'', ''OC'')), (''TL'', (''Timor-Leste'', ''AS'')), (''TM'', (''Turkmenistan'', ''AS'')),
      (''TN'', (''Tunisia'', ''AF'')), (''TO'', (''Tonga'', ''OC'')), (''TR'', (''Turkey'', ''AS'')),
      (''TT'', (''Trinidad and Tobago'', ''NA'')), (''TV'', (''Tuvalu'', ''OC'')), (''TW'', (''Taiwan'', ''AS'')),
      (''TZ'', (''Tanzania'', ''AF'')), (''UA'', (''Ukraine'', ''EU'')), (''UG'', (''Uganda'', ''AF'')),
      (''UM'', (''U.S. Minor Outlying Islands'', ''OC'')), (''US'', (''United States'', ''NA'')), (''UY'', (''Uruguay'', ''SA'')),
      (''UZ'', (''Uzbekistan'', ''AS'')), (''VA'', (''Vatican City'', ''EU'')), (''VC'', (''Saint Vincent and the Grenadines'', ''NA'')),
      (''VE'', (''Venezuela'', ''SA'')), (''VG'', (''British Virgin Islands'', ''NA'')), (''VI'', (''U.S. Virgin Islands'', ''NA'')),
      (''VN'', (''Vietnam'', ''AS'')), (''VU'', (''Vanuatu'', ''OC'')), (''WF'', (''Wallis and Futuna'', ''OC'')),
      (''WS'', (''Samoa'', ''OC'')), (''XK'', (''Kosovo'', ''EU'')), (''YE'', (''Yemen'', ''AS'')),
      (''YT'', (''Mayotte'', ''AF'')), (''ZA'', (''South Africa'', ''AF'')), (''ZM'', (''Zambia'', ''AF'')),
      (''ZW'', (''Zimbabwe'', ''AF''))]"

definition normalizeCountry :: "string \<Rightarrow> string" where
  "normalizeCountry s0 =
     (let s = to_upper (trim_space s0); up = (\<lambda>c. 65 \<le> (of_char c :: nat) \<and> (of_char c :: nat) \<le> 90) in
      if length s \<noteq> 2 \<or> \<not> up (s ! 0) \<or> \<not> up (s ! 1) then '''' else s)"

definition CountryName :: "string \<Rightarrow> string" where
  "CountryName code = (case gget countries (normalizeCountry code) of Some (n, _) \<Rightarrow> n | None \<Rightarrow> '''')"

definition Continent :: "string \<Rightarrow> string" where
  "Continent code = (case gget countries (normalizeCountry code) of Some (_, c) \<Rightarrow> c | None \<Rightarrow> '''')"

section \<open>Locations and regions\<close>

record Location =
  loIP :: string
  loCountry :: string
  loCountryName :: string
  loContinent :: string
  loRegion :: string
  loCity :: string
  loLat :: rat
  loLon :: rat
  loSource :: string

definition noLocation :: Location where
  "noLocation = \<lparr>loIP = '''', loCountry = '''', loCountryName = '''', loContinent = '''', loRegion = '''', loCity = '''',
     loLat = 0, loLon = 0, loSource = ''''\<rparr>"

definition Known :: "Location \<Rightarrow> bool" where
  "Known l \<longleftrightarrow> loCountry l \<noteq> ''''"

definition applyCountry :: "string \<Rightarrow> Location \<Rightarrow> Location" where
  "applyCountry code l =
     (let cc = normalizeCountry code in
      if cc = '''' then l
      else
        let l1 = l\<lparr>loCountry := cc\<rparr> in
        (case gget countries cc of
           None \<Rightarrow> l1
         | Some (n, c) \<Rightarrow>
             l1\<lparr>loCountryName := (if loCountryName l1 = '''' then n else loCountryName l1),
                loContinent := (if loContinent l1 = '''' then c else loContinent l1)\<rparr>))"

record Region =
  rgCode :: string
  rgName :: string
  rgCity :: string
  rgCountry :: string
  rgContinent :: string
  rgEndpoint :: string
  rgLat :: rat
  rgLon :: rat
  rgDefault :: bool

definition noRegion :: Region where
  "noRegion = \<lparr>rgCode = '''', rgName = '''', rgCity = '''', rgCountry = '''', rgContinent = '''', rgEndpoint = '''', rgLat = 0, rgLon = 0, rgDefault = False\<rparr>"

definition DefaultRegions :: "Region list" where
  "DefaultRegions =
     [\<lparr>rgCode = ''eu'', rgName = ''Europe (Frankfurt)'', rgCity = ''Frankfurt'', rgCountry = ''DE'', rgContinent = ''EU'',
       rgEndpoint = ''eu.trqsh.uz:443'', rgLat = 5011 / 100, rgLon = 868 / 100, rgDefault = True\<rparr>,
      \<lparr>rgCode = ''us'', rgName = ''US East (New York)'', rgCity = ''New York'', rgCountry = ''US'', rgContinent = ''NA'',
       rgEndpoint = ''us.trqsh.uz:443'', rgLat = 4071 / 100, rgLon = - 7401 / 100, rgDefault = False\<rparr>,
      \<lparr>rgCode = ''ap'', rgName = ''Asia Pacific (Singapore)'', rgCity = ''Singapore'', rgCountry = ''SG'', rgContinent = ''AS'',
       rgEndpoint = ''ap.trqsh.uz:443'', rgLat = 135 / 100, rgLon = 10382 / 100, rgDefault = False\<rparr>]"

text \<open>\<open>dec\<close> is \<^verbatim>\<open>json.Unmarshal\<close>; \<open>Inl\<close> its error.\<close>

definition ParseRegions :: "(string \<Rightarrow> string + Region list) \<Rightarrow> string \<Rightarrow> string + Region list" where
  "ParseRegions dec jsonArray =
     (if trim_space jsonArray = '''' then Inr []
      else (case dec (trim_space jsonArray) of
              Inl e \<Rightarrow> Inl e
            | Inr rs \<Rightarrow>
                Inr (map (\<lambda>r. r\<lparr>rgCode := to_lower (trim_space (rgCode r)), rgContinent := to_upper (trim_space (rgContinent r))\<rparr>) rs)))"

definition continentFallback :: "string \<Rightarrow> string" where
  "continentFallback c =
     (if c = ''SA'' then ''NA'' else if c = ''AF'' then ''EU'' else if c = ''OC'' then ''AS'' else if c = ''AN'' then ''OC'' else '''')"

definition defaultRegion :: "Region list \<Rightarrow> Region" where
  "defaultRegion catalog = (case find rgDefault catalog of Some r \<Rightarrow> r | None \<Rightarrow> hd catalog)"

definition nearestRegion :: "Region list \<Rightarrow> Location \<Rightarrow> Region" where
  "nearestRegion catalog loc =
     (if catalog = [] then noRegion
      else
        let c = (if loContinent loc = '''' \<and> loCountry loc \<noteq> ''''
                 then (case gget countries (loCountry loc) of Some (_, k) \<Rightarrow> k | None \<Rightarrow> '''') else loContinent loc)
        in if c = '''' then defaultRegion catalog
           else (case find (\<lambda>r. rgContinent r = c) catalog of
                   Some r \<Rightarrow> r
                 | None \<Rightarrow> (case find (\<lambda>r. rgContinent r = continentFallback c) catalog of Some r \<Rightarrow> r | None \<Rightarrow> defaultRegion catalog)))"

section \<open>Resolvers\<close>

record providerResponse =
  pvStatus :: string
  pvCountryCode :: string
  pvCountry :: string
  pvRegionName :: string
  pvCity :: string
  pvLat :: rat
  pvLon :: rat

text \<open>\<^verbatim>\<open>strings.ReplaceAll(s, "{ip}", x)\<close>.\<close>

fun replace_ip :: "string \<Rightarrow> string \<Rightarrow> string" where
  "replace_ip x (a # b # c # d # s) =
     (if [a, b, c, d] = ''{ip}'' then x @ replace_ip x s else a # replace_ip x (b # c # d # s))"
| "replace_ip x s = s"

text \<open>A resolver answers and lists the URLs it requested.\<close>

definition private_Lookup :: "string \<Rightarrow> Location option \<times> string list" where
  "private_Lookup ip =
     (case ParseIP ip of
        None \<Rightarrow> (None, [])
      | Some p \<Rightarrow>
          if IsLoopback p \<or> IsPrivate p \<or> IsLinkLocalUnicast p \<or> IsUnspecified p
          then (Some (noLocation\<lparr>loIP := ip, loSource := ''private''\<rparr>), []) else (None, []))"

type_synonym provider = "string \<Rightarrow> (int \<times> string) option"

definition http_Lookup :: "provider \<Rightarrow> (string \<Rightarrow> providerResponse option) \<Rightarrow> string \<Rightarrow> string \<Rightarrow> Location option \<times> string list" where
  "http_Lookup http dec tmpl ip =
     (case ParseIP ip of
        None \<Rightarrow> (None, [])
      | Some p \<Rightarrow>
          let url = replace_ip (ip_String p) tmpl in
          (case http url of
             None \<Rightarrow> (None, [url])
           | Some (status, body) \<Rightarrow>
               if status \<noteq> 200 then (None, [url])
               else (case dec (take (2 ^ 16) body) of
                       None \<Rightarrow> (None, [url])
                     | Some pr \<Rightarrow>
                         if pvStatus pr \<noteq> '''' \<and> \<not> EqualFold (pvStatus pr) ''success'' then (None, [url])
                         else
                           let cc = normalizeCountry (pvCountryCode pr) in
                           if cc = '''' then (None, [url])
                           else (Some \<lparr>loIP = ip, loCountry = cc, loCountryName = trim_space (pvCountry pr), loContinent = '''',
                                       loRegion = trim_space (pvRegionName pr), loCity = trim_space (pvCity pr),
                                       loLat = pvLat pr, loLon = pvLon pr, loSource = ''api''\<rparr>, [url]))))"

section \<open>The service\<close>

record cacheEntry =
  ceLoc :: Location
  ceExpiry :: gotime

record ttlCache =
  tcTTL :: duration
  tcM :: "(string, cacheEntry) gomap"
  tcMax :: nat

definition newTTLCache :: "duration \<Rightarrow> ttlCache" where
  "newTTLCache ttl = \<lparr>tcTTL = ttl, tcM = [], tcMax = 50000\<rparr>"

definition cache_get :: "gotime \<Rightarrow> string \<Rightarrow> ttlCache \<Rightarrow> Location option" where
  "cache_get t ip c =
     (case gget (tcM c) ip of None \<Rightarrow> None | Some e \<Rightarrow> if t > ceExpiry e then None else Some (ceLoc e))"

definition cache_set :: "gotime \<Rightarrow> string \<Rightarrow> Location \<Rightarrow> ttlCache \<Rightarrow> ttlCache" where
  "cache_set t ip loc c =
     (let m = (if length (tcM c) \<ge> tcMax c then [] else tcM c)
      in c\<lparr>tcM := gset ip \<lparr>ceLoc = loc, ceExpiry = t + tcTTL c\<rparr> m\<rparr>)"

record GeoConfig =
  gcHeader :: string
  gcAPIURL :: string
  gcCacheTTL :: duration
  gcRegions :: "Region list"

record GeoService =
  gsHeader :: string
  gsAPIURL :: string
  gsCatalog :: "Region list"
  gsCache :: "ttlCache option"

definition newGeo :: "GeoConfig \<Rightarrow> GeoService" where
  "newGeo cfg =
     (let ttl = (if gcCacheTTL cfg = 0 then 60 * minute else gcCacheTTL cfg) in
      \<lparr>gsHeader = canon (trim_space (gcHeader cfg)), gsAPIURL = gcAPIURL cfg,
       gsCatalog = (if gcRegions cfg = [] then DefaultRegions else gcRegions cfg),
       gsCache = (if ttl > 0 then Some (newTTLCache ttl) else None)\<rparr>)"

text \<open>The chain of resolvers: private addresses first, then the provider where one is configured.\<close>

definition resolve :: "provider \<Rightarrow> (string \<Rightarrow> providerResponse option) \<Rightarrow> GeoService \<Rightarrow> string \<Rightarrow> Location \<times> string list" where
  "resolve http dec s ip =
     (let (l, urls) =
        (case private_Lookup ip of
           (Some l, us) \<Rightarrow> (l, us)
         | (None, us) \<Rightarrow>
             if gsAPIURL s = '''' then (noLocation, us)
             else (case http_Lookup http dec (gsAPIURL s) ip of
                     (Some l, us') \<Rightarrow> (l, us @ us')
                   | (None, us') \<Rightarrow> (noLocation, us @ us')));
          l1 = l\<lparr>loIP := ip\<rparr>
      in (if loCountry l1 \<noteq> '''' then applyCountry (loCountry l1) l1 else l1, urls))"

definition FromIP ::
  "provider \<Rightarrow> (string \<Rightarrow> providerResponse option) \<Rightarrow> gotime \<Rightarrow> string \<Rightarrow> GeoService \<Rightarrow> (Location \<times> string list) \<times> GeoService" where
  "FromIP http dec t ip0 s =
     (let ip = trim_space ip0 in
      if ip = '''' then ((noLocation, []), s)
      else (case gsCache s of
              None \<Rightarrow> (resolve http dec s ip, s)
            | Some c \<Rightarrow>
                (case cache_get t ip c of
                   Some l \<Rightarrow> ((l, []), s)
                 | None \<Rightarrow>
                     let r = resolve http dec s ip in (r, s\<lparr>gsCache := Some (cache_set t ip (fst r) c)\<rparr>))))"

definition FromRequest ::
  "provider \<Rightarrow> (string \<Rightarrow> providerResponse option) \<Rightarrow> gotime \<Rightarrow> Header \<Rightarrow> string \<Rightarrow> GeoService \<Rightarrow> (Location \<times> string list) \<times> GeoService" where
  "FromRequest http dec t hdr ip s =
     (let cc = normalizeCountry (hdr_Get hdr (gsHeader s)) in
      if gsHeader s \<noteq> '''' \<and> cc \<noteq> ''''
      then ((applyCountry cc (noLocation\<lparr>loIP := ip, loSource := ''header''\<rparr>), []), s)
      else FromIP http dec t ip s)"

definition Nearest :: "GeoService \<Rightarrow> Location \<Rightarrow> Region" where
  "Nearest s loc = nearestRegion (gsCatalog s) loc"

definition Regions :: "GeoService \<Rightarrow> Region list" where
  "Regions s = gsCatalog s"

section \<open>Looking up\<close>

text \<open>A sequence of look-ups, each at its time.\<close>

fun lookups ::
  "provider \<Rightarrow> (string \<Rightarrow> providerResponse option) \<Rightarrow> (gotime \<times> string) list \<Rightarrow> GeoService \<Rightarrow> (Location \<times> string list) list" where
  "lookups http dec [] s = []"
| "lookups http dec ((t, ip) # qs) s =
     (case FromIP http dec t ip s of (r, s') \<Rightarrow> r # lookups http dec qs s')"

definition direct :: "provider \<Rightarrow> (string \<Rightarrow> providerResponse option) \<Rightarrow> string \<Rightarrow> string \<Rightarrow> Location \<times> string list" where
  "direct http dec url ip =
     (if trim_space ip = '''' then (noLocation, [])
      else resolve http dec \<lparr>gsHeader = '''', gsAPIURL = url, gsCatalog = [], gsCache = None\<rparr> (trim_space ip))"

lemma resolve_url: "gsAPIURL s = gsAPIURL s' \<Longrightarrow> resolve http dec s ip = resolve http dec s' ip"
  by (simp only: resolve_def)

text \<open>What is cached is what a direct look-up would give, and the cache is bounded.\<close>

definition cache_ok :: "provider \<Rightarrow> (string \<Rightarrow> providerResponse option) \<Rightarrow> GeoService \<Rightarrow> bool" where
  "cache_ok http dec s \<longleftrightarrow>
     (\<forall>c. gsCache s = Some c \<longrightarrow> tcMax c = 50000 \<and> length (tcM c) \<le> tcMax c \<and>
        (\<forall>ip e. gget (tcM c) ip = Some e \<longrightarrow> ceLoc e = fst (resolve http dec s ip)))"

lemma FromIP_ok:
  assumes "cache_ok http dec s" "FromIP http dec t ip s = (r, s')"
  shows "cache_ok http dec s'" "gsAPIURL s' = gsAPIURL s" "fst r = fst (direct http dec (gsAPIURL s) ip)"
    "set (snd r) \<subseteq> set (snd (direct http dec (gsAPIURL s) ip))"
proof -
  let ?i = "trim_space ip"
  let ?d = "\<lparr>gsHeader = '''', gsAPIURL = gsAPIURL s, gsCatalog = [], gsCache = None\<rparr>"
  have d: "resolve http dec ?d ?i = resolve http dec s ?i" by (rule resolve_url) simp
  have "cache_ok http dec s' \<and> gsAPIURL s' = gsAPIURL s \<and> fst r = fst (direct http dec (gsAPIURL s) ip) \<and>
    set (snd r) \<subseteq> set (snd (direct http dec (gsAPIURL s) ip))"
  proof (cases "?i = ''''")
    case True
    with assms show ?thesis by (auto simp: FromIP_def direct_def)
  next
    case False
    show ?thesis
    proof (cases "gsCache s")
      case None
      with assms False d show ?thesis by (auto simp: FromIP_def direct_def)
    next
      case (Some c)
      show ?thesis
      proof (cases "cache_get t ?i c")
        case None
        let ?s' = "s\<lparr>gsCache := Some (cache_set t ?i (fst (resolve http dec s ?i)) c)\<rparr>"
        have r: "r = resolve http dec s ?i" "s' = ?s'" using assms(2) False None Some by (auto simp: FromIP_def Let_def)
        have "resolve http dec ?s' j = resolve http dec s j" for j by (rule resolve_url) simp
        with assms(1) Some have "cache_ok http dec ?s'"
          by (auto simp: cache_ok_def cache_set_def Let_def length_gset)
        with r False d show ?thesis by (simp add: direct_def)
      next
        case (Some l)
        with \<open>gsCache s = Some c\<close> assms have "l = fst (resolve http dec s ?i)"
          by (auto simp: cache_get_def cache_ok_def split: option.splits if_splits)
        moreover have "r = (l, [])" "s' = s" using assms(2) False Some \<open>gsCache s = Some c\<close> by (auto simp: FromIP_def Let_def)
        ultimately show ?thesis using assms(1) False d by (simp add: direct_def)
      qed
    qed
  qed
  then show "cache_ok http dec s'" "gsAPIURL s' = gsAPIURL s" "fst r = fst (direct http dec (gsAPIURL s) ip)"
    "set (snd r) \<subseteq> set (snd (direct http dec (gsAPIURL s) ip))" by simp_all
qed

lemma lookups_direct:
  "cache_ok http dec s \<Longrightarrow> list_all2 (\<lambda>(t, ip) r. fst r = fst (direct http dec (gsAPIURL s) ip) \<and>
     set (snd r) \<subseteq> set (snd (direct http dec (gsAPIURL s) ip))) qs (lookups http dec qs s)"
proof (induction qs arbitrary: s)
  case (Cons q qs)
  obtain t ip where q: "q = (t, ip)" by (cases q)
  obtain r s' where r: "FromIP http dec t ip s = (r, s')" by fastforce
  from FromIP_ok [OF Cons.prems r] Cons.IH [of s'] q r show ?case by simp
qed simp

lemma cache_ok_new: "cache_ok http dec (newGeo cfg)"
  by (auto simp: cache_ok_def newGeo_def newTTLCache_def Let_def)

text \<open>The cache of the geo service does not change its answers: over any sequence of look-ups, with entries expiring and
  the cache dropped when it is full, every answer is the one the chain of resolvers gives for that address.\<close>

theorem geo_cache_transparent:
  "map fst (lookups http dec qs (newGeo cfg)) = map (\<lambda>(t, ip). fst (direct http dec (gcAPIURL cfg) ip)) qs"
proof -
  have "list_all2 (\<lambda>(t, ip) r. fst r = fst (direct http dec (gcAPIURL cfg) ip)) qs (lookups http dec qs (newGeo cfg))"
    using lookups_direct [OF cache_ok_new, of http dec cfg qs]
    by (rule list_all2_mono) (auto simp: newGeo_def Let_def)
  then show ?thesis by (induction rule: list_all2_induct) auto
qed

lemma resolve_urls:
  assumes "u \<in> set (snd (resolve http dec s ip))"
  shows "\<exists>p. ParseIP ip = Some p \<and> \<not> IsLoopback p \<and> \<not> IsPrivate p \<and> \<not> IsLinkLocalUnicast p \<and> \<not> IsUnspecified p \<and>
    gsAPIURL s \<noteq> '''' \<and> u = replace_ip (ip_String p) (gsAPIURL s)"
  using assms
  by (auto simp: resolve_def private_Lookup_def http_Lookup_def Let_def split: option.splits if_splits prod.splits)

text \<open>Over any sequence of look-ups, addresses of this machine or of a private network, and anything that is not an IP
  address, are never sent to the provider; and what is put into the URL is an address written with hexadecimal
  digits, dots and colons only, so that a client-supplied value cannot steer the request elsewhere.\<close>

theorem geo_provider_sees_public_addresses:
  assumes "u \<in> set (concat (map snd (lookups http dec qs (newGeo cfg))))"
  shows "\<exists>t ip p. (t, ip) \<in> set qs \<and> ParseIP (trim_space ip) = Some p \<and> \<not> IsLoopback p \<and> \<not> IsPrivate p \<and>
    \<not> IsLinkLocalUnicast p \<and> \<not> IsUnspecified p \<and> u = replace_ip (ip_String p) (gcAPIURL cfg) \<and> (\<forall>c \<in> set (ip_String p). addr_char c)"
proof -
  have "list_all2 (\<lambda>(t, ip) r. set (snd r) \<subseteq> set (snd (direct http dec (gcAPIURL cfg) ip))) qs (lookups http dec qs (newGeo cfg))"
    using lookups_direct [OF cache_ok_new, of http dec cfg qs]
    by (rule list_all2_mono) (auto simp: newGeo_def Let_def)
  then have "\<forall>r \<in> set (lookups http dec qs (newGeo cfg)). \<exists>(t, ip) \<in> set qs. set (snd r) \<subseteq> set (snd (direct http dec (gcAPIURL cfg) ip))"
    by (induction rule: list_all2_induct) auto
  with assms obtain t ip where ip: "(t, ip) \<in> set qs" "u \<in> set (snd (direct http dec (gcAPIURL cfg) ip))" by fastforce
  then obtain p where p: "ParseIP (trim_space ip) = Some p" "\<not> IsLoopback p" "\<not> IsPrivate p" "\<not> IsLinkLocalUnicast p"
    "\<not> IsUnspecified p" "u = replace_ip (ip_String p) (gcAPIURL cfg)"
    by (auto simp: direct_def split: if_splits dest!: resolve_urls)
  moreover have "addr_char c" if "c \<in> set (ip_String p)" for c
    using that ip_String_chars ParseIP_bytes [OF p(1)] by blast
  ultimately show ?thesis using ip(1) by blast
qed

lemma ex_public: "ParseIP ''8.8.8.8'' = Some (replicate 10 0 @ [255, 255, 8, 8, 8, 8])" "ip_String (replicate 10 0 @ [255, 255, 8, 8, 8, 8]) = ''8.8.8.8''"
  by code_simp+

lemma ex_public_class: "\<not> IsLoopback (replicate 10 0 @ [255, 255, 8, 8, 8, 8])" "\<not> IsPrivate (replicate 10 0 @ [255, 255, 8, 8, 8, 8])"
  "\<not> IsLinkLocalUnicast (replicate 10 0 @ [255, 255, 8, 8, 8, 8])" "\<not> IsUnspecified (replicate 10 0 @ [255, 255, 8, 8, 8, 8])"
  by code_simp+

theorem geo_provider_sees_public_addresses_witness:
  "\<exists>u ip p. u \<in> set (concat (map snd (lookups (\<lambda>u. None) (\<lambda>b. None) [(0, '' 8.8.8.8'')]
       (newGeo \<lparr>gcHeader = '''', gcAPIURL = ''h/{ip}'', gcCacheTTL = 0, gcRegions = []\<rparr>)))) \<and>
     ParseIP (trim_space ip) = Some p \<and> u = replace_ip (ip_String p) ''h/{ip}''"
proof -
  let ?cfg = "\<lparr>gcHeader = '''', gcAPIURL = ''h/{ip}'', gcCacheTTL = 0, gcRegions = []\<rparr>"
  have t: "trim_space '' 8.8.8.8'' = ''8.8.8.8''" by code_simp
  have "''h/8.8.8.8'' \<in> set (concat (map snd (lookups (\<lambda>u. None) (\<lambda>b. None) [(0, '' 8.8.8.8'')] (newGeo ?cfg))))"
    by (simp add: FromIP_def t newGeo_def newTTLCache_def cache_get_def resolve_def private_Lookup_def http_Lookup_def ex_public
        ex_public_class Let_def)
  with geo_provider_sees_public_addresses [OF this] show ?thesis by (simp del: set_concat) blast
qed


end
