(* ===== verification/Admin.thy ===== *)
theory Admin
  imports Resources Billing Geo
begin

text \<open>
  The administration console of the control plane (\<^verbatim>\<open>internal/api/handlers_admin.go\<close> and
  \<^verbatim>\<open>handlers_admin_dash.go\<close>): its signed session cookie, the guard in front of it, granting and revoking
  plans by hand, and the read-only views. \<open>hm\<close> is HMAC-SHA256 of a key and a message.
\<close>

section \<open>The session cookie\<close>

definition adminTTL :: duration where "adminTTL = 12 * 60 * minute"

definition adminEnabled :: "ApiConfig \<Rightarrow> bool" where
  "adminEnabled c \<longleftrightarrow> AdminUser c \<noteq> '''' \<and> AdminPassword c \<noteq> ''''"

definition isAdminHost :: "string \<Rightarrow> Header \<Rightarrow> bool" where
  "isAdminHost host hdr =
     (let xf = hdr_Get hdr ''X-Forwarded-Host''
      in has_prefix (to_lower (if xf \<noteq> '''' then xf else host)) ''approve.'')"

definition adminMac :: "hmac \<Rightarrow> ApiConfig \<Rightarrow> string \<Rightarrow> string" where
  "adminMac hm c payload = hex_encode (hm (JWTSecret c) (''admin|'' @ payload))"

definition signAdmin :: "hmac \<Rightarrow> ApiConfig \<Rightarrow> gotime \<Rightarrow> string" where
  "signAdmin hm c ex = (let payload = show_int (unix ex) in payload @ ''.'' @ adminMac hm c payload)"

definition verifyAdmin :: "hmac \<Rightarrow> ApiConfig \<Rightarrow> gotime \<Rightarrow> string \<Rightarrow> bool" where
  "verifyAdmin hm c t v =
     (case last_index_byte CHR ''.'' v of
        None \<Rightarrow> False
      | Some i \<Rightarrow>
          if i = 0 then False
          else
            let payload = take i v; sig = drop (i + 1) v in
            if sig \<noteq> adminMac hm c payload then False
            else (case atoi payload of None \<Rightarrow> False | Some ex \<Rightarrow> t < unix_time ex))"

text \<open>The guard: \<open>None\<close> lets the request through.\<close>

definition requireAdmin :: "hmac \<Rightarrow> ApiConfig \<Rightarrow> gotime \<Rightarrow> string option \<Rightarrow> (nat \<times> string) option" where
  "requireAdmin hm c t cookie =
     (if \<not> adminEnabled c then Some (404, ''admin console is disabled'')
      else (case cookie of
              None \<Rightarrow> Some (401, ''not signed in'')
            | Some v \<Rightarrow> if verifyAdmin hm c t v then None else Some (401, ''not signed in'')))"

text \<open>The value of the cookie that a login sets.\<close>

definition handleAdminLogin :: "hmac \<Rightarrow> ApiConfig \<Rightarrow> gotime \<Rightarrow> (string \<times> string) option \<Rightarrow> string resp" where
  "handleAdminLogin hm c t body =
     (if \<not> adminEnabled c then Inl (404, ''admin console is disabled'')
      else (case body of
              None \<Rightarrow> Inl bad_body
            | Some (user, pass) \<Rightarrow>
                if user \<noteq> AdminUser c \<or> pass \<noteq> AdminPassword c then Inl (401, ''invalid credentials'')
                else Inr (signAdmin hm c (t + adminTTL))))"

text \<open>Whether the page is served; \<open>False\<close> is a 404.\<close>

definition handleAdminPage :: "ApiConfig \<Rightarrow> string \<Rightarrow> Header \<Rightarrow> bool" where
  "handleAdminPage c host hdr \<longleftrightarrow> \<not> (\<not> adminEnabled c \<or> IsProduction c \<and> \<not> isAdminHost host hdr)"

definition handleRoot :: "ApiConfig \<Rightarrow> string \<Rightarrow> Header \<Rightarrow> bool" where
  "handleRoot c host hdr \<longleftrightarrow> adminEnabled c \<and> isAdminHost host hdr \<and> handleAdminPage c host hdr"

section \<open>Granting plans\<close>

definition adminOrgFor :: "string \<Rightarrow> MemStore \<Rightarrow> (User \<times> Org) option" where
  "adminOrgFor email m =
     (case GetUserByEmail (trim_space email) m of
        Inl e \<Rightarrow> None
      | Inr u \<Rightarrow> (case OrgsForUser (usID u) m of [] \<Rightarrow> None | og # _ \<Rightarrow> Some (u, og)))"

record orgView =
  ovEmail :: string
  ovName :: string
  ovOrgID :: string
  ovPlan :: string
  ovStoredPlan :: string
  ovPlanExpiresAt :: "gotime option"

definition adminOrgView :: "gotime \<Rightarrow> User \<Rightarrow> Org \<Rightarrow> orgView" where
  "adminOrgView t u og =
     \<lparr>ovEmail = Email u, ovName = usName u, ovOrgID = orID og, ovPlan = effectivePlan t og,
      ovStoredPlan = orPlan og, ovPlanExpiresAt = PlanExpiresAt og\<rparr>"

definition handleAdminLookup :: "gotime \<Rightarrow> string \<Rightarrow> MemStore \<Rightarrow> orgView resp" where
  "handleAdminLookup t email m =
     (case adminOrgFor email m of
        None \<Rightarrow> Inl (404, ''no account with that email'')
      | Some (u, og) \<Rightarrow> Inr (adminOrgView t u og))"

definition handleAdminGrant :: "gotime \<Rightarrow> (string \<times> string \<times> int) option \<Rightarrow> MemStore \<Rightarrow> orgView resp \<times> MemStore" where
  "handleAdminGrant t body m =
     (case body of
        None \<Rightarrow> (Inl bad_body, m)
      | Some (email, planName, months) \<Rightarrow>
          let plan = to_lower (trim_space planName) in
          if plan \<noteq> PlanPro \<and> plan \<noteq> PlanTeam \<and> plan \<noteq> PlanFree then (Inl (400, ''plan must be pro, team, or free''), m)
          else if months < 1 \<or> months > 60 then (Inl (400, ''months must be between 1 and 60''), m)
          else (case adminOrgFor email m of
                  None \<Rightarrow> (Inl (404, ''no account with that email''), m)
                | Some (u, og) \<Rightarrow>
                    let expires = AddMonths (nat months) t in
                    (case SetOrgPlan (orID og) plan (Some expires) m of
                       (Inl e, m') \<Rightarrow> (Inl (500, store_msg e), m')
                     | (Inr _, m') \<Rightarrow> (Inr (adminOrgView t u (og\<lparr>orPlan := plan, PlanExpiresAt := Some expires\<rparr>)), m'))))"

definition handleAdminRevoke :: "gotime \<Rightarrow> string option \<Rightarrow> MemStore \<Rightarrow> orgView resp \<times> MemStore" where
  "handleAdminRevoke t body m =
     (case body of
        None \<Rightarrow> (Inl bad_body, m)
      | Some email \<Rightarrow>
          (case adminOrgFor email m of
             None \<Rightarrow> (Inl (404, ''no account with that email''), m)
           | Some (u, og) \<Rightarrow>
               (case SetOrgPlan (orID og) PlanFree None m of
                  (Inl e, m') \<Rightarrow> (Inl (500, store_msg e), m')
                | (Inr _, m') \<Rightarrow> (Inr (adminOrgView t u (og\<lparr>orPlan := PlanFree, PlanExpiresAt := None\<rparr>)), m'))))"

section \<open>The dashboard\<close>

record statsView =
  svStats :: AdminStats
  svGeo :: "(string, nat) gomap"
  svGeoActive :: "(string, nat) gomap"
  svRegions :: "Region list"
  svGeneratedAt :: gotime

definition handleAdminStats :: "gotime \<Rightarrow> GeoService \<Rightarrow> MemStore \<Rightarrow> statsView" where
  "handleAdminStats t g m =
     \<lparr>svStats = AdminOverview t m, svGeo = TunnelCountryBreakdown '''' False m,
      svGeoActive = TunnelCountryBreakdown '''' True m, svRegions = Geo.Regions g, svGeneratedAt = t\<rparr>"

record userRow =
  urwID :: string
  urwEmail :: string
  urwName :: string
  urwOAuthProvider :: string
  urwCreatedAt :: gotime
  urwOrg :: "(string \<times> string \<times> gotime option) option"

definition handleAdminUsers :: "gotime \<Rightarrow> string \<Rightarrow> string \<Rightarrow> string \<Rightarrow> MemStore \<Rightarrow> userRow list \<times> int \<times> int" where
  "handleAdminUsers t qlimit qoffset q m =
     (let (limit, off) = parsePage qlimit qoffset 50 200
      in (map (\<lambda>u. \<lparr>urwID = usID u, urwEmail = Email u, urwName = usName u, urwOAuthProvider = OAuthProvider u, urwCreatedAt = usCreatedAt u,
              urwOrg = (case OrgsForUser (usID u) m of
                          [] \<Rightarrow> None
                        | og # _ \<Rightarrow> Some (orID og, effectivePlan t og, PlanExpiresAt og))\<rparr>) (ListUsers limit off q m), limit, off))"

record orgRow =
  orwID :: string
  orwName :: string
  orwPlan :: string
  orwStoredPlan :: string
  orwPlanExpiresAt :: "gotime option"
  orwMembers :: nat
  orwCreatedAt :: gotime

definition handleAdminOrgs :: "gotime \<Rightarrow> string \<Rightarrow> string \<Rightarrow> string \<Rightarrow> MemStore \<Rightarrow> orgRow list \<times> int \<times> int" where
  "handleAdminOrgs t qlimit qoffset qplan m =
     (let (limit, off) = parsePage qlimit qoffset 50 200
      in (map (\<lambda>og. \<lparr>orwID = orID og, orwName = orName og, orwPlan = effectivePlan t og, orwStoredPlan = orPlan og,
              orwPlanExpiresAt = PlanExpiresAt og, orwMembers = length (ListOrgMembers (orID og) m), orwCreatedAt = orCreatedAt og\<rparr>)
            (ListOrgs limit off qplan m), limit, off))"

definition handleAdminTunnels :: "string \<Rightarrow> string \<Rightarrow> string \<Rightarrow> MemStore \<Rightarrow> historyView" where
  "handleAdminTunnels qlimit qoffset qactive m =
     (let (limit, off) = parsePage qlimit qoffset 50 200; activeOnly = (qactive = ''true'')
      in \<lparr>hvSessions = ListTunnelSessions \<lparr>fOrgID = '''', ActiveOnly = activeOnly, Limit = limit, Offset = off\<rparr> m,
          hvTotal = CountTunnelSessions '''' activeOnly m, hvLimit = limit, hvOffset = off\<rparr>)"

section \<open>Properties\<close>

lemma adminMac_no_dot: "CHR ''.'' \<notin> set (adminMac hm c payload)"
  unfolding adminMac_def by (rule hex_encode_not_in) simp

lemma last_index_byte_split:
  assumes "last_index_byte c v = Some i"
  shows "v = take i v @ c # drop (i + 1) v"
proof -
  from assms obtain j where j: "index_byte c (rev v) = Some j" "i = length v - 1 - j"
    by (auto simp: last_index_byte_def)
  from index_byte_Some [OF j(1)] have "j < length v" "rev v ! j = c" by simp_all
  then have "v ! i = c" "i < length v" by (simp_all add: j(2) rev_nth)
  then show ?thesis using id_take_nth_drop [of i v] by simp
qed

lemma verifyAdmin_iff:
  "verifyAdmin hm c t v \<longleftrightarrow>
     (\<exists>payload n. v = payload @ ''.'' @ adminMac hm c payload \<and> atoi payload = Some n \<and> t < unix_time n)"
proof
  assume "verifyAdmin hm c t v"
  then obtain i n where i: "last_index_byte CHR ''.'' v = Some i" "drop (i + 1) v = adminMac hm c (take i v)"
    "atoi (take i v) = Some n" "t < unix_time n"
    by (auto simp: verifyAdmin_def Let_def split: option.splits if_splits)
  from last_index_byte_split [OF i(1)] i
  have "v = take i v @ ''.'' @ adminMac hm c (take i v)" by simp
  with i(3,4) show "\<exists>payload n. v = payload @ ''.'' @ adminMac hm c payload \<and> atoi payload = Some n \<and> t < unix_time n" by metis
next
  assume "\<exists>payload n. v = payload @ ''.'' @ adminMac hm c payload \<and> atoi payload = Some n \<and> t < unix_time n"
  then obtain payload n where v: "v = payload @ ''.'' @ adminMac hm c payload" "atoi payload = Some n" "t < unix_time n" by blast
  moreover have "payload \<noteq> []" using v(2) by (auto simp: atoi_def)
  ultimately show "verifyAdmin hm c t v"
    using last_index_byte_append [OF adminMac_no_dot [of hm c payload], of payload] by (simp add: verifyAdmin_def)
qed

text \<open>C35. An administrator's session. A request passes the guard of the console exactly when the console is
  configured and the request carries a cookie whose payload is signed under the secret of the deployment and names a
  second that is still to come. The cookie a login sets passes for the next twelve hours, to the second, and at no time
  after.\<close>

theorem admin_session_exact:
  assumes "- (2 ^ 63) \<le> unix (t0 + adminTTL)" "unix (t0 + adminTTL) < 2 ^ 63"
  shows "(requireAdmin hm c t cookie = None \<longleftrightarrow>
            adminEnabled c \<and> (\<exists>payload n. cookie = Some (payload @ ''.'' @ adminMac hm c payload) \<and> atoi payload = Some n \<and> t < unix_time n))
       \<and> (handleAdminLogin hm c t0 body = Inr v \<longrightarrow>
            body = Some (AdminUser c, AdminPassword c) \<and>
            (requireAdmin hm c t (Some v) = None \<longleftrightarrow> t < t0 + adminTTL - (t0 + adminTTL) mod second))"
proof
  show "requireAdmin hm c t cookie = None \<longleftrightarrow>
      adminEnabled c \<and> (\<exists>payload n. cookie = Some (payload @ ''.'' @ adminMac hm c payload) \<and> atoi payload = Some n \<and> t < unix_time n)"
    by (auto simp: requireAdmin_def verifyAdmin_iff split: option.splits if_splits)
  have "unix_time (unix ex) = ex - ex mod second" for ex
    by (simp add: unix_time_def unix_def minus_mod_eq_div_mult)
  moreover have "verifyAdmin hm c t (signAdmin hm c (t0 + adminTTL)) \<longleftrightarrow> t < unix_time (unix (t0 + adminTTL))"
    using last_index_byte_append [OF adminMac_no_dot [of hm c "show_int (unix (t0 + adminTTL))"], of "show_int (unix (t0 + adminTTL))"]
      atoi_show_int [OF assms] by (auto simp: verifyAdmin_def signAdmin_def Let_def atoi_def)
  ultimately show "handleAdminLogin hm c t0 body = Inr v \<longrightarrow>
      body = Some (AdminUser c, AdminPassword c) \<and>
      (requireAdmin hm c t (Some v) = None \<longleftrightarrow> t < t0 + adminTTL - (t0 + adminTTL) mod second)"
    by (auto simp: handleAdminLogin_def requireAdmin_def split: option.splits if_splits prod.splits)
qed

definition ex_admin :: ApiConfig where
  "ex_admin = DefaultApiConfig\<lparr>AdminUser := ''root'', AdminPassword := ''pw''\<rparr>"

theorem admin_session_exact_witness:
  "requireAdmin (\<lambda>k s. []) ex_admin (63900000000 * second) (Some (signAdmin (\<lambda>k s. []) ex_admin (63900000000 * second + adminTTL))) = None"
proof -
  have e: "adminEnabled ex_admin" by (simp add: adminEnabled_def ex_admin_def)
  then have "handleAdminLogin (\<lambda>k s. []) ex_admin (63900000000 * second) (Some (AdminUser ex_admin, AdminPassword ex_admin)) =
      Inr (signAdmin (\<lambda>k s. []) ex_admin (63900000000 * second + adminTTL))"
    by (simp add: handleAdminLogin_def)
  with admin_session_exact [of "63900000000 * second" "\<lambda>k s. []" ex_admin "63900000000 * second"]
  show ?thesis by (simp add: unix_def adminTTL_def)
qed

lemma SetOrgPlan_Inr:
  assumes "SetOrgPlan i plan ex m = (Inr u, m')"
  shows "\<exists>og. gget (orgs m) i = Some og \<and> m' = m\<lparr>orgs := gset i (og\<lparr>orPlan := plan, PlanExpiresAt := ex\<rparr>) (orgs m)\<rparr>"
  using assms by (auto simp: SetOrgPlan_def upd_org_def split: option.splits)


text \<open>A store with one account.\<close>

definition ex_account :: MemStore where
  "ex_account = NewMemStore\<lparr>users := [(''usr_1'', \<lparr>usID = ''usr_1'', Email = ''a@b.c'', usName = ''a'', AvatarURL = '''', OAuthProvider = ''email'', usCreatedAt = 1\<rparr>)],
     usersEmail := [(''a@b.c'', ''usr_1'')],
     orgs := [(''org_1'', \<lparr>orID = ''org_1'', orName = ''a'', orPlan = PlanFree, StripeCustomerID = '''', orCreatedAt = 1, PlanExpiresAt = None\<rparr>)],
     members := [\<lparr>omOrgID = ''org_1'', omUserID = ''usr_1'', Role = ''owner''\<rparr>]\<rparr>"


end
