(* ===== verification/Wire.thy ===== *)
theory Wire
  imports Edge Plans "HOL-Library.Monad_Syntax"
begin

text \<open>
  The messages of \<^verbatim>\<open>internal/entitlerpc/entitlerpc.go\<close> as they travel: the structs with their JSON tags, what
  \<^verbatim>\<open>json.Marshal\<close> makes of them and what \<^verbatim>\<open>Decode\<close> reads into them. A JSON text is its tree of values; a number that is no
  64-bit integer and an array are \<open>JOther\<close>. A string that is a time in RFC 3339 carries the instant it names.
\<close>

section \<open>JSON values\<close>

datatype json = JNull | JBool bool | JNum int | JStr string | JTime string gotime | JObj "(string \<times> json) list" | JOther

text \<open>The text of a value: its length in bytes, and the text of a time.\<close>

record JsonText =
  jsLen :: "json \<Rightarrow> nat"
  jsTime :: "gotime \<Rightarrow> string"

text \<open>\<^verbatim>\<open>json.Marshal\<close> replaces every byte that does not belong to valid UTF-8 by U+FFFD. \<open>rune_len\<close> is the length of the
  encoded character a string starts with.\<close>

definition cont :: "nat \<Rightarrow> nat \<Rightarrow> string \<Rightarrow> nat \<Rightarrow> bool" where
  "cont lo hi s i \<longleftrightarrow> i < length s \<and> lo \<le> of_char (s ! i) \<and> of_char (s ! i) \<le> hi"

definition rune_len :: "string \<Rightarrow> nat option" where
  "rune_len s =
     (let b = of_char (hd s) :: nat; tail = cont 128 191 s
      in if b < 128 then Some 1
         else if 194 \<le> b \<and> b \<le> 223 \<and> tail 1 then Some 2
         else if (b = 224 \<and> cont 160 191 s 1 \<or> b = 237 \<and> cont 128 159 s 1
                  \<or> 225 \<le> b \<and> b \<le> 239 \<and> b \<noteq> 237 \<and> tail 1) \<and> tail 2 then Some 3
         else if (b = 240 \<and> cont 144 191 s 1 \<or> b = 244 \<and> cont 128 143 s 1
                  \<or> 241 \<le> b \<and> b \<le> 243 \<and> tail 1) \<and> tail 2 \<and> tail 3 then Some 4
         else None)"

lemma rune_len_bound: "s \<noteq> [] \<Longrightarrow> rune_len s = Some n \<Longrightarrow> 0 < n \<and> n \<le> length s"
  by (auto simp: rune_len_def cont_def Let_def Suc_le_eq split: if_splits)

function utf8_clean :: "string \<Rightarrow> string" where
  "utf8_clean s =
     (if s = [] then []
      else case rune_len s of
             None \<Rightarrow> [char_of (239 :: nat), char_of (191 :: nat), char_of (189 :: nat)] @ utf8_clean (tl s)
           | Some n \<Rightarrow> take n s @ utf8_clean (drop n s))"
  by auto

termination utf8_clean
  by (relation "measure length") (auto dest: rune_len_bound)

declare utf8_clean.simps [simp del]

lemma utf8_clean_Nil [simp]: "utf8_clean [] = []"
  by (subst utf8_clean.simps) simp

lemma utf8_clean_ascii: "\<forall>c \<in> set s. of_char c < (128 :: nat) \<Longrightarrow> utf8_clean s = s"
  by (induction s) (simp, subst utf8_clean.simps, simp add: rune_len_def)

section \<open>Writing and reading fields\<close>

definition jstr :: "string \<Rightarrow> json" where "jstr s = JStr (utf8_clean s)"

text \<open>\<^verbatim>\<open>time.Time\<close> refuses years that have not four digits.\<close>

definition json_year :: "gotime \<Rightarrow> bool" where
  "json_year t \<longleftrightarrow> - 366 * (24 * 3600 * second) \<le> t \<and> t < 3652059 * (24 * 3600 * second)"

definition omitempty :: "bool \<Rightarrow> string \<Rightarrow> json \<Rightarrow> (string \<times> json) list" where
  "omitempty b k v = (if b then [] else [(k, v)])"

text \<open>The values an object gives for a key, matched without case; \<^verbatim>\<open>null\<close> leaves a field as it is.\<close>

definition vals :: "string \<Rightarrow> (string \<times> json) list \<Rightarrow> json list" where
  "vals k ob = map snd (filter (\<lambda>(k', v). to_lower k' = to_lower k \<and> v \<noteq> JNull) ob)"

text \<open>A field: the last value given, the zero value \<open>z\<close> if there is none, an error if one has another type.\<close>

definition field :: "(json \<Rightarrow> 'a option) \<Rightarrow> 'a \<Rightarrow> string \<Rightarrow> (string \<times> json) list \<Rightarrow> 'a option" where
  "field rd z k ob = (let vs = map rd (vals k ob) in if None \<in> set vs then None else last (Some z # vs))"

fun as_str :: "json \<Rightarrow> string option" where
  "as_str (JStr s) = Some s" | "as_str (JTime s t) = Some s" | "as_str _ = None"

fun as_int :: "json \<Rightarrow> int option" where
  "as_int (JNum n) = Some n" | "as_int _ = None"

fun as_bool :: "json \<Rightarrow> bool option" where
  "as_bool (JBool b) = Some b" | "as_bool _ = None"

fun as_time :: "json \<Rightarrow> gotime option" where
  "as_time (JTime s t) = Some t" | "as_time _ = None"

fun as_obj :: "json \<Rightarrow> (string \<times> json) list option" where
  "as_obj (JObj ob) = Some ob" | "as_obj JNull = Some []" | "as_obj _ = None"

text \<open>A struct inside a struct: repeated objects fill the same fields.\<close>

definition subfields :: "string \<Rightarrow> (string \<times> json) list \<Rightarrow> (string \<times> json) list option" where
  "subfields k ob = (let vs = map as_obj (vals k ob) in if None \<in> set vs then None else Some (concat (map the vs)))"

lemma vals_Nil [simp]: "vals k [] = []"
  by (simp add: vals_def)

lemma vals_Cons [simp]: "vals k ((k', v) # ob) = (if to_lower k' = to_lower k \<and> v \<noteq> JNull then [v] else []) @ vals k ob"
  by (simp add: vals_def)

lemma vals_append [simp]: "vals k (ob @ ob') = vals k ob @ vals k ob'"
  by (simp add: vals_def)

text \<open>Rules that read a field out of an object whose keys are literals, with no search.\<close>

named_theorems wire_read

definition absent :: "string \<Rightarrow> (string \<times> json) list \<Rightarrow> bool" where
  "absent k ob \<longleftrightarrow> vals k ob = []"

lemma absent_rules [wire_read]:
  "absent k []"
  "to_lower k' \<noteq> to_lower k \<Longrightarrow> absent k ((k', v) # ob) = absent k ob"
  "to_lower k' \<noteq> to_lower k \<Longrightarrow> absent k (omitempty b k' v @ ob) = absent k ob"
  "to_lower k' \<noteq> to_lower k \<Longrightarrow> absent k (omitempty b k' v)"
  by (simp_all add: absent_def omitempty_def)

lemma field_rules [wire_read]:
  "field rd z k [] = Some z"
  "to_lower k' \<noteq> to_lower k \<Longrightarrow> field rd z k ((k', v) # ob) = field rd z k ob"
  "to_lower k' \<noteq> to_lower k \<Longrightarrow> field rd z k (omitempty b k' v @ ob) = field rd z k ob"
  by (simp_all add: field_def omitempty_def)

lemma field_hit [wire_read]:
  assumes "v \<noteq> JNull" "absent k ob"
  shows "field rd z k ((k, v) # ob) = rd v"
    and "field rd z k (omitempty b k v @ ob) = (if b then Some z else rd v)"
  using assms by (auto simp: field_def absent_def omitempty_def)

lemma field_hit_end [wire_read]: "v \<noteq> JNull \<Longrightarrow> field rd z k (omitempty b k v) = (if b then Some z else rd v)"
  by (simp add: field_def omitempty_def)

lemma subfields_rules [wire_read]:
  "to_lower k' \<noteq> to_lower k \<Longrightarrow> subfields k ((k', v) # ob) = subfields k ob"
  "v \<noteq> JNull \<Longrightarrow> absent k ob \<Longrightarrow> subfields k ((k, v) # ob) = as_obj v"
  by (auto simp: subfields_def absent_def)

lemma as_str_jstr [simp]: "as_str (jstr s) = Some (utf8_clean s)" and jstr_not_null [simp]: "jstr s \<noteq> JNull"
  by (simp_all add: jstr_def)

lemma lowered_tags [wire_read]:
  "to_lower ''api_key'' = ''api_key''" "to_lower ''type'' = ''type''" "to_lower ''subdomain'' = ''subdomain''"
  "to_lower ''custom_host'' = ''custom_host''" "to_lower ''remote_port'' = ''remote_port''" "to_lower ''region'' = ''region''"
  "to_lower ''account_id'' = ''account_id''" "to_lower ''plan'' = ''plan''" "to_lower ''error'' = ''error''"
  "to_lower ''allow'' = ''allow''" "to_lower ''limits'' = ''limits''" "to_lower ''assigned_subdomain'' = ''assigned_subdomain''"
  "to_lower ''error_code'' = ''error_code''" "to_lower ''error_message'' = ''error_message''" "to_lower ''tunnel_id'' = ''tunnel_id''"
  "to_lower ''bytes_in'' = ''bytes_in''" "to_lower ''bytes_out'' = ''bytes_out''" "to_lower ''requests'' = ''requests''"
  "to_lower ''window_start'' = ''window_start''" "to_lower ''window_end'' = ''window_end''" "to_lower ''action'' = ''action''"
  "to_lower ''edge_id'' = ''edge_id''" "to_lower ''session_id'' = ''session_id''" "to_lower ''public_url'' = ''public_url''"
  "to_lower ''host'' = ''host''" "to_lower ''port'' = ''port''" "to_lower ''client_ip'' = ''client_ip''"
  "to_lower ''at'' = ''at''" "to_lower ''MaxConcurrentTunnels'' = ''maxconcurrenttunnels''" "to_lower ''MaxBandwidthBytesMo'' = ''maxbandwidthbytesmo''"
  "to_lower ''MaxRequestsMo'' = ''maxrequestsmo''" "to_lower ''AllowCustomDomains'' = ''allowcustomdomains''" "to_lower ''AllowReservedSubdomain'' = ''allowreservedsubdomain''"
  "to_lower ''AllowTCP'' = ''allowtcp''" "to_lower ''AllowUDP'' = ''allowudp''" "to_lower ''RateLimitRPS'' = ''ratelimitrps''"
  by (code_simp)+

section \<open>The messages\<close>

record AuthRequest =
  aqAPIKey :: string

record AuthResponse =
  apAccountID :: string
  apPlan :: string
  apError :: string

record CheckBindRequest =
  cqAPIKey :: string
  cqType :: string
  cqSubdomain :: string
  cqCustomHost :: string
  cqRemotePort :: int
  cqRegion :: string

record CheckBindResponse =
  cpAllow :: bool
  cpAccountID :: string
  cpPlan :: string
  cpLimits :: Limits
  cpAssignedSubdomain :: string
  cpErrorCode :: string
  cpErrorMessage :: string

record UsageRequest =
  uqAccountID :: string
  uqTunnelID :: string
  uqBytesIn :: int
  uqBytesOut :: int
  uqRequests :: int
  uqWindowStart :: gotime
  uqWindowEnd :: gotime

definition AuthRequest_json :: "AuthRequest \<Rightarrow> json" where
  "AuthRequest_json q = JObj [(''api_key'', jstr (aqAPIKey q))]"

definition AuthResponse_json :: "AuthResponse \<Rightarrow> json" where
  "AuthResponse_json p =
     JObj ([(''account_id'', jstr (apAccountID p)), (''plan'', jstr (apPlan p))] @ omitempty (apError p = '''') ''error'' (jstr (apError p)))"

definition CheckBindRequest_json :: "CheckBindRequest \<Rightarrow> json" where
  "CheckBindRequest_json q =
     JObj [(''api_key'', jstr (cqAPIKey q)), (''type'', jstr (cqType q)), (''subdomain'', jstr (cqSubdomain q)),
           (''custom_host'', jstr (cqCustomHost q)), (''remote_port'', JNum (cqRemotePort q)), (''region'', jstr (cqRegion q))]"

text \<open>\<^verbatim>\<open>authz.Limits\<close> has no tags: the keys are the names of its fields.\<close>

definition Limits_json :: "Limits \<Rightarrow> json" where
  "Limits_json l =
     JObj [(''MaxConcurrentTunnels'', JNum (MaxConcurrentTunnels l)), (''MaxBandwidthBytesMo'', JNum (MaxBandwidthBytesMo l)),
           (''MaxRequestsMo'', JNum (MaxRequestsMo l)), (''AllowCustomDomains'', JBool (AllowCustomDomains l)),
           (''AllowReservedSubdomain'', JBool (AllowReservedSubdomain l)), (''AllowTCP'', JBool (AllowTCP l)),
           (''AllowUDP'', JBool (AllowUDP l)), (''RateLimitRPS'', JNum (RateLimitRPS l))]"

definition CheckBindResponse_json :: "CheckBindResponse \<Rightarrow> json" where
  "CheckBindResponse_json p =
     JObj [(''allow'', JBool (cpAllow p)), (''account_id'', jstr (cpAccountID p)), (''plan'', jstr (cpPlan p)),
           (''limits'', Limits_json (cpLimits p)), (''assigned_subdomain'', jstr (cpAssignedSubdomain p)),
           (''error_code'', jstr (cpErrorCode p)), (''error_message'', jstr (cpErrorMessage p))]"

definition UsageRequest_json :: "JsonText \<Rightarrow> UsageRequest \<Rightarrow> json option" where
  "UsageRequest_json js q =
     (if json_year (uqWindowStart q) \<and> json_year (uqWindowEnd q)
      then Some (JObj [(''account_id'', jstr (uqAccountID q)), (''tunnel_id'', jstr (uqTunnelID q)), (''bytes_in'', JNum (uqBytesIn q)),
             (''bytes_out'', JNum (uqBytesOut q)), (''requests'', JNum (uqRequests q)),
             (''window_start'', JTime (jsTime js (uqWindowStart q)) (uqWindowStart q)),
             (''window_end'', JTime (jsTime js (uqWindowEnd q)) (uqWindowEnd q))])
      else None)"

definition TunnelReport_json :: "JsonText \<Rightarrow> TunnelReport \<Rightarrow> json option" where
  "TunnelReport_json js r =
     (if json_year (trAt r)
      then Some (JObj ([(''action'', jstr (trAction r)), (''edge_id'', jstr (trEdgeID r)), (''session_id'', jstr (trSessionID r)),
             (''tunnel_id'', jstr (trTunnelID r)), (''account_id'', jstr (trAccountID r)), (''type'', jstr (trType r))]
           @ omitempty (trPublicURL r = '''') ''public_url'' (jstr (trPublicURL r)) @ omitempty (trHost r = '''') ''host'' (jstr (trHost r))
           @ omitempty (trPort r = 0) ''port'' (JNum (trPort r)) @ omitempty (trRegion r = '''') ''region'' (jstr (trRegion r))
           @ omitempty (trClientIP r = '''') ''client_ip'' (jstr (trClientIP r)) @ omitempty (trBytesIn r = 0) ''bytes_in'' (JNum (trBytesIn r))
           @ omitempty (trBytesOut r = 0) ''bytes_out'' (JNum (trBytesOut r)) @ omitempty (trRequests r = 0) ''requests'' (JNum (trRequests r))
           @ [(''at'', JTime (jsTime js (trAt r)) (trAt r))]))
      else None)"

section \<open>Reading the messages\<close>

definition AuthRequest_of :: "json \<Rightarrow> AuthRequest option" where
  "AuthRequest_of j = do { ob \<leftarrow> as_obj j; k \<leftarrow> field as_str '''' ''api_key'' ob; Some \<lparr>aqAPIKey = k\<rparr> }"

definition AuthResponse_of :: "json \<Rightarrow> AuthResponse option" where
  "AuthResponse_of j = do {
     ob \<leftarrow> as_obj j; a \<leftarrow> field as_str '''' ''account_id'' ob; p \<leftarrow> field as_str '''' ''plan'' ob; e \<leftarrow> field as_str '''' ''error'' ob;
     Some \<lparr>apAccountID = a, apPlan = p, apError = e\<rparr> }"

definition CheckBindRequest_of :: "json \<Rightarrow> CheckBindRequest option" where
  "CheckBindRequest_of j = do {
     ob \<leftarrow> as_obj j; k \<leftarrow> field as_str '''' ''api_key'' ob; ty \<leftarrow> field as_str '''' ''type'' ob; s \<leftarrow> field as_str '''' ''subdomain'' ob;
     h \<leftarrow> field as_str '''' ''custom_host'' ob; p \<leftarrow> field as_int 0 ''remote_port'' ob; r \<leftarrow> field as_str '''' ''region'' ob;
     Some \<lparr>cqAPIKey = k, cqType = ty, cqSubdomain = s, cqCustomHost = h, cqRemotePort = p, cqRegion = r\<rparr> }"

definition Limits_of :: "(string \<times> json) list \<Rightarrow> Limits option" where
  "Limits_of ob = do {
     a \<leftarrow> field as_int 0 ''MaxConcurrentTunnels'' ob; b \<leftarrow> field as_int 0 ''MaxBandwidthBytesMo'' ob; c \<leftarrow> field as_int 0 ''MaxRequestsMo'' ob;
     d \<leftarrow> field as_bool False ''AllowCustomDomains'' ob; e \<leftarrow> field as_bool False ''AllowReservedSubdomain'' ob;
     f \<leftarrow> field as_bool False ''AllowTCP'' ob; g \<leftarrow> field as_bool False ''AllowUDP'' ob; h \<leftarrow> field as_int 0 ''RateLimitRPS'' ob;
     Some \<lparr>MaxConcurrentTunnels = a, MaxBandwidthBytesMo = b, MaxRequestsMo = c, AllowCustomDomains = d, AllowReservedSubdomain = e,
       AllowTCP = f, AllowUDP = g, RateLimitRPS = h\<rparr> }"

definition CheckBindResponse_of :: "json \<Rightarrow> CheckBindResponse option" where
  "CheckBindResponse_of j = do {
     ob \<leftarrow> as_obj j; al \<leftarrow> field as_bool False ''allow'' ob; a \<leftarrow> field as_str '''' ''account_id'' ob; p \<leftarrow> field as_str '''' ''plan'' ob;
     lo \<leftarrow> subfields ''limits'' ob; l \<leftarrow> Limits_of lo; s \<leftarrow> field as_str '''' ''assigned_subdomain'' ob;
     ec \<leftarrow> field as_str '''' ''error_code'' ob; em \<leftarrow> field as_str '''' ''error_message'' ob;
     Some \<lparr>cpAllow = al, cpAccountID = a, cpPlan = p, cpLimits = l, cpAssignedSubdomain = s, cpErrorCode = ec, cpErrorMessage = em\<rparr> }"

definition UsageRequest_of :: "json \<Rightarrow> UsageRequest option" where
  "UsageRequest_of j = do {
     ob \<leftarrow> as_obj j; a \<leftarrow> field as_str '''' ''account_id'' ob; tn \<leftarrow> field as_str '''' ''tunnel_id'' ob; bi \<leftarrow> field as_int 0 ''bytes_in'' ob;
     bo \<leftarrow> field as_int 0 ''bytes_out'' ob; r \<leftarrow> field as_int 0 ''requests'' ob; ws \<leftarrow> field as_time 0 ''window_start'' ob;
     we \<leftarrow> field as_time 0 ''window_end'' ob;
     Some \<lparr>uqAccountID = a, uqTunnelID = tn, uqBytesIn = bi, uqBytesOut = bo, uqRequests = r, uqWindowStart = ws, uqWindowEnd = we\<rparr> }"

definition TunnelReport_of :: "json \<Rightarrow> TunnelReport option" where
  "TunnelReport_of j = do {
     ob \<leftarrow> as_obj j; ac \<leftarrow> field as_str '''' ''action'' ob; e \<leftarrow> field as_str '''' ''edge_id'' ob; s \<leftarrow> field as_str '''' ''session_id'' ob;
     tn \<leftarrow> field as_str '''' ''tunnel_id'' ob; a \<leftarrow> field as_str '''' ''account_id'' ob; ty \<leftarrow> field as_str '''' ''type'' ob;
     u \<leftarrow> field as_str '''' ''public_url'' ob; h \<leftarrow> field as_str '''' ''host'' ob; p \<leftarrow> field as_int 0 ''port'' ob;
     rg \<leftarrow> field as_str '''' ''region'' ob; ip \<leftarrow> field as_str '''' ''client_ip'' ob; bi \<leftarrow> field as_int 0 ''bytes_in'' ob;
     bo \<leftarrow> field as_int 0 ''bytes_out'' ob; r \<leftarrow> field as_int 0 ''requests'' ob; wh \<leftarrow> field as_time 0 ''at'' ob;
     Some \<lparr>trAction = ac, trEdgeID = e, trSessionID = s, trTunnelID = tn, trAccountID = a, trType = ty, trPublicURL = u, trHost = h,
       trPort = p, trRegion = rg, trClientIP = ip, trBytesIn = bi, trBytesOut = bo, trRequests = r, trAt = wh\<rparr> }"

section \<open>What is written is read back\<close>

text \<open>A message as the other side reads it: the same, with its strings made valid UTF-8.\<close>

definition clean_bind :: "CheckBindRequest \<Rightarrow> CheckBindRequest" where
  "clean_bind q = q\<lparr>cqAPIKey := utf8_clean (cqAPIKey q), cqType := utf8_clean (cqType q), cqSubdomain := utf8_clean (cqSubdomain q),
     cqCustomHost := utf8_clean (cqCustomHost q), cqRegion := utf8_clean (cqRegion q)\<rparr>"

definition clean_report :: "TunnelReport \<Rightarrow> TunnelReport" where
  "clean_report r = r\<lparr>trAction := utf8_clean (trAction r), trEdgeID := utf8_clean (trEdgeID r), trSessionID := utf8_clean (trSessionID r),
     trTunnelID := utf8_clean (trTunnelID r), trAccountID := utf8_clean (trAccountID r), trType := utf8_clean (trType r),
     trPublicURL := utf8_clean (trPublicURL r), trHost := utf8_clean (trHost r), trRegion := utf8_clean (trRegion r),
     trClientIP := utf8_clean (trClientIP r)\<rparr>"

lemma AuthRequest_roundtrip: "AuthRequest_of (AuthRequest_json q) = Some \<lparr>aqAPIKey = utf8_clean (aqAPIKey q)\<rparr>"
  by (simp add: AuthRequest_of_def AuthRequest_json_def wire_read)

lemma AuthResponse_roundtrip:
  "AuthResponse_of (AuthResponse_json p) =
     Some \<lparr>apAccountID = utf8_clean (apAccountID p), apPlan = utf8_clean (apPlan p), apError = utf8_clean (apError p)\<rparr>"
  by (simp add: AuthResponse_of_def AuthResponse_json_def wire_read)

lemma CheckBindRequest_roundtrip: "CheckBindRequest_of (CheckBindRequest_json q) = Some (clean_bind q)"
  by (simp add: CheckBindRequest_of_def CheckBindRequest_json_def clean_bind_def wire_read)

lemma Limits_roundtrip: "as_obj (Limits_json l) = Some ob \<Longrightarrow> Limits_of ob = Some l"
  by (auto simp: Limits_of_def Limits_json_def wire_read)

lemma CheckBindResponse_roundtrip:
  "CheckBindResponse_of (CheckBindResponse_json p) =
     Some (p\<lparr>cpAccountID := utf8_clean (cpAccountID p), cpPlan := utf8_clean (cpPlan p),
       cpAssignedSubdomain := utf8_clean (cpAssignedSubdomain p), cpErrorCode := utf8_clean (cpErrorCode p),
       cpErrorMessage := utf8_clean (cpErrorMessage p)\<rparr>)"
proof -
  obtain ob where ob: "as_obj (Limits_json (cpLimits p)) = Some ob" "Limits_json (cpLimits p) \<noteq> JNull" by (simp add: Limits_json_def)
  from Limits_roundtrip [OF ob(1)] ob show ?thesis
    by (simp add: CheckBindResponse_of_def CheckBindResponse_json_def wire_read)
qed

lemma UsageRequest_roundtrip:
  "UsageRequest_json js q = Some j \<Longrightarrow>
     UsageRequest_of j = Some (q\<lparr>uqAccountID := utf8_clean (uqAccountID q), uqTunnelID := utf8_clean (uqTunnelID q)\<rparr>)"
  by (auto simp: UsageRequest_of_def UsageRequest_json_def wire_read split: if_splits)

lemma TunnelReport_roundtrip: "TunnelReport_json js r = Some j \<Longrightarrow> TunnelReport_of j = Some (clean_report r)"
  by (auto simp: TunnelReport_of_def TunnelReport_json_def clean_report_def wire_read split: if_splits)

end
