(* ===== verification/Rpc.thy ===== *)
theory Rpc
  imports Entitle Geo Config Wire
begin

text \<open>
  The internal interface between an edge and the control plane: the endpoints of \<^verbatim>\<open>internal/api/rpc.go\<close> and the client of
  \<^verbatim>\<open>internal/entitlerpc/entitlerpc.go\<close> with its cache of authentications. Client and server copy their structs field by field
  into the messages of \<open>Wire\<close>, which travel as JSON.
\<close>

section \<open>Messages\<close>

datatype rpc_req = RpcAuthenticate AuthRequest | RpcCheckBind CheckBindRequest | RpcReportUsage UsageRequest | RpcReportTunnel TunnelReport
  | RpcMalformed

datatype rpc_body = RpcAuth AuthResponse | RpcBind CheckBindResponse | RpcNoBody | RpcError string

definition rpc_prefix :: string where "rpc_prefix = ''/internal/entitlements/''"

definition PathAuthenticate :: string where "PathAuthenticate = rpc_prefix @ ''authenticate''"
definition PathCheckBind :: string where "PathCheckBind = rpc_prefix @ ''check-bind''"
definition PathReportUsage :: string where "PathReportUsage = rpc_prefix @ ''report-usage''"
definition PathReportTunnel :: string where "PathReportTunnel = rpc_prefix @ ''report-tunnel''"

text \<open>\<^verbatim>\<open>decode\<close> into the struct of the endpoint; \<open>None\<close> is a body with no JSON value in its first MiB.\<close>

definition rpc_decode :: "string \<Rightarrow> json option \<Rightarrow> rpc_req" where
  "rpc_decode name body =
     (let msg = (if name = ''authenticate'' then Option.bind body (map_option RpcAuthenticate \<circ> AuthRequest_of)
                 else if name = ''check-bind'' then Option.bind body (map_option RpcCheckBind \<circ> CheckBindRequest_of)
                 else if name = ''report-usage'' then Option.bind body (map_option RpcReportUsage \<circ> UsageRequest_of)
                 else Option.bind body (map_option RpcReportTunnel \<circ> TunnelReport_of))
      in case msg of None \<Rightarrow> RpcMalformed | Some q \<Rightarrow> q)"

definition rpc_body_json :: "rpc_body \<Rightarrow> json option" where
  "rpc_body_json b =
     (case b of RpcAuth p \<Rightarrow> Some (AuthResponse_json p) | RpcBind p \<Rightarrow> Some (CheckBindResponse_json p) | RpcNoBody \<Rightarrow> None
      | RpcError e \<Rightarrow> Some (JObj [(''error'', jstr e)]))"

section \<open>The endpoints\<close>

record RpcEnv =
  reIdkey :: idkey
  reQuota :: bool
  reHttp :: provider
  reDec :: "string \<Rightarrow> providerResponse option"

definition rpcAuthenticate :: "RpcEnv \<Rightarrow> gotime \<Rightarrow> AuthRequest \<Rightarrow> MemStore \<Rightarrow> rpc_body \<times> MemStore" where
  "rpcAuthenticate v t req m =
     (case ent_Authenticate (reIdkey v) t (aqAPIKey req) m of
        (Inl e, m') \<Rightarrow> (RpcAuth \<lparr>apAccountID = '''', apPlan = '''', apError = ''invalid api key''\<rparr>, m')
      | (Inr (acc, plan), m') \<Rightarrow> (RpcAuth \<lparr>apAccountID = acc, apPlan = plan, apError = ''''\<rparr>, m'))"

definition rpcCheckBind :: "RpcEnv \<Rightarrow> gotime \<Rightarrow> byte list \<Rightarrow> CheckBindRequest \<Rightarrow> MemStore \<Rightarrow> rpc_body \<times> MemStore" where
  "rpcCheckBind v t rb req m =
     (case ent_CheckBind (reIdkey v) (reQuota v) t rb
             \<lparr>brAPIKey = cqAPIKey req, brType = cqType req, brSubdomain = cqSubdomain req, brCustomHost = cqCustomHost req,
              brRemotePort = cqRemotePort req, brRegion = cqRegion req\<rparr> m of
        (dec, m') \<Rightarrow>
          (RpcBind \<lparr>cpAllow = Allow dec, cpAccountID = dAccountID dec, cpPlan = dPlan dec, cpLimits = dLimits dec,
             cpAssignedSubdomain = AssignedSubdomain dec, cpErrorCode = ErrorCode dec, cpErrorMessage = ErrorMessage dec\<rparr>, m'))"

definition rpcReportUsage :: "UsageRequest \<Rightarrow> MemStore \<Rightarrow> MemStore" where
  "rpcReportUsage req m =
     ReportUsage \<lparr>uAccountID = uqAccountID req, uTunnelID = uqTunnelID req, uBytesIn = uqBytesIn req, uBytesOut = uqBytesOut req,
       uRequests = uqRequests req, uWindowStart = uqWindowStart req, uWindowEnd = uqWindowEnd req\<rparr> m"

definition rpcReportTunnel :: "RpcEnv \<Rightarrow> gotime \<Rightarrow> string \<Rightarrow> TunnelReport \<Rightarrow> MemStore \<times> GeoService \<Rightarrow> MemStore \<times> GeoService" where
  "rpcReportTunnel v t nid r mg =
     (case mg of (m, g) \<Rightarrow>
        if trAccountID r = '''' then (m, g)
        else
          let wh = (if trAt r = 0 then t else trAt r) in
          if trAction r = ''open'' then
            (case FromIP (reHttp v) (reDec v) t (trClientIP r) g of
               ((loc, _), g') \<Rightarrow>
                 (snd (RecordTunnelOpen t nid
                    \<lparr>tsID = '''', tsOrgID = trAccountID r, tsEdgeID = trEdgeID r, tsSessionID = trSessionID r, tsTunnelID = trTunnelID r,
                     tsType = trType r, tsPublicURL = trPublicURL r, tsHost = trHost r, tsPort = trPort r, tsRegion = trRegion r,
                     ClientIP = trClientIP r, Country = loCountry loc, City = loCity loc, tsBytesIn = 0, tsBytesOut = 0, tsRequests = 0,
                     Status = '''', StartedAt = wh, EndedAt = None\<rparr> m), g'))
          else if trAction r = ''close'' then
            (snd (CloseTunnelSession (trEdgeID r) (trSessionID r) (trTunnelID r) wh (trBytesIn r) (trBytesOut r) (trRequests r) m), g)
          else (m, g))"

text \<open>The handlers behind \<^verbatim>\<open>internalTokenGuard\<close>: a status, a body, and the state afterwards.\<close>

definition rpc_handle ::
  "RpcEnv \<Rightarrow> gotime \<Rightarrow> byte list \<Rightarrow> string \<Rightarrow> rpc_req \<Rightarrow> MemStore \<times> GeoService \<Rightarrow> (int \<times> rpc_body) \<times> MemStore \<times> GeoService" where
  "rpc_handle v t rb nid q mg =
     (case mg of (m, g) \<Rightarrow>
        (case q of
           RpcAuthenticate req \<Rightarrow> (case rpcAuthenticate v t req m of (b, m') \<Rightarrow> ((200, b), m', g))
         | RpcCheckBind req \<Rightarrow> (case rpcCheckBind v t rb req m of (b, m') \<Rightarrow> ((200, b), m', g))
         | RpcReportUsage req \<Rightarrow> ((200, RpcNoBody), rpcReportUsage req m, g)
         | RpcReportTunnel r \<Rightarrow> ((200, RpcNoBody), rpcReportTunnel v t nid r (m, g))
         | RpcMalformed \<Rightarrow> ((400, RpcError ''invalid request body''), m, g)))"

definition internalTokenGuard ::
  "string \<Rightarrow> string \<Rightarrow> (MemStore \<times> GeoService \<Rightarrow> (int \<times> rpc_body) \<times> MemStore \<times> GeoService) \<Rightarrow> MemStore \<times> GeoService
     \<Rightarrow> (int \<times> rpc_body) \<times> MemStore \<times> GeoService" where
  "internalTokenGuard want got next mg =
     (if want = '''' \<or> got \<noteq> want then ((401, RpcError ''invalid internal token''), mg) else next mg)"

definition rpc_serve ::
  "RpcEnv \<Rightarrow> string \<Rightarrow> gotime \<Rightarrow> byte list \<Rightarrow> string \<Rightarrow> string \<Rightarrow> rpc_req \<Rightarrow> MemStore \<times> GeoService
     \<Rightarrow> (int \<times> rpc_body) \<times> MemStore \<times> GeoService" where
  "rpc_serve v want t rb nid got q = internalTokenGuard want got (rpc_handle v t rb nid q)"

section \<open>The client\<close>

record authCacheEntry =
  aeAccountID :: string
  aePlan :: string
  aeExpiry :: gotime

record EntClient =
  ecToken :: string
  ecCacheTTL :: duration
  ecTimeout :: duration
  ecCache :: "(string, authCacheEntry) gomap"

definition NewClient :: "string \<Rightarrow> EntClient" where
  "NewClient token = \<lparr>ecToken = token, ecCacheTTL = 30 * second, ecTimeout = 5 * second, ecCache = []\<rparr>"

text \<open>The other side: a path, a token and a message give a status and a body, or no answer at all, and change the state
  there.\<close>

type_synonym 's upstream = "string \<Rightarrow> string \<Rightarrow> json \<Rightarrow> 's \<Rightarrow> (int \<times> json option) option \<times> 's"

definition ec_post :: "'s upstream \<Rightarrow> EntClient \<Rightarrow> string \<Rightarrow> json option \<Rightarrow> 's \<Rightarrow> (string + json option) \<times> 's" where
  "ec_post net c path body s =
     (case body of
        None \<Rightarrow> (Inl ''json: error calling MarshalJSON for type time.Time'', s)
      | Some j \<Rightarrow>
          (case net path (ecToken c) j s of
             (None, s') \<Rightarrow> (Inl ''transport'', s')
           | (Some (status, b), s') \<Rightarrow>
               (if status \<noteq> 200 then Inl (''entitlements: '' @ path @ '': status '' @ show_int status) else Inr b, s')))"

text \<open>The answer decoded into a struct.\<close>

definition ec_read :: "(json \<Rightarrow> 'a option) \<Rightarrow> string + json option \<Rightarrow> string + 'a" where
  "ec_read rd r =
     (case r of
        Inl e \<Rightarrow> Inl e
      | Inr None \<Rightarrow> Inl ''EOF''
      | Inr (Some j) \<Rightarrow> (case rd j of None \<Rightarrow> Inl ''json: cannot unmarshal'' | Some x \<Rightarrow> Inr x))"

definition ec_cached :: "gotime \<Rightarrow> string \<Rightarrow> EntClient \<Rightarrow> (string \<times> string) option" where
  "ec_cached t key c =
     (case gget (ecCache c) key of
        Some e \<Rightarrow> if t < aeExpiry e then Some (aeAccountID e, aePlan e) else None
      | None \<Rightarrow> None)"

definition ec_remember :: "gotime \<Rightarrow> string \<Rightarrow> string \<Rightarrow> string \<Rightarrow> EntClient \<Rightarrow> EntClient" where
  "ec_remember t key acc plan c =
     c\<lparr>ecCache := gset key \<lparr>aeAccountID = acc, aePlan = plan, aeExpiry = t + ecCacheTTL c\<rparr> (ecCache c)\<rparr>"

text \<open>The clock is read before the look-up (\<open>t\<close>) and when the reply is there (\<open>t'\<close>).\<close>

definition ec_Authenticate ::
  "'s upstream \<Rightarrow> gotime \<Rightarrow> gotime \<Rightarrow> string \<Rightarrow> EntClient \<Rightarrow> 's \<Rightarrow> (string + string \<times> string) \<times> EntClient \<times> 's" where
  "ec_Authenticate net t t' key c s =
     (case ec_cached t key c of
        Some r \<Rightarrow> (Inr r, c, s)
      | None \<Rightarrow>
          (case ec_post net c PathAuthenticate (Some (AuthRequest_json \<lparr>aqAPIKey = key\<rparr>)) s of
             (r, s') \<Rightarrow>
               (case ec_read AuthResponse_of r of
                  Inl e \<Rightarrow> (Inl e, c, s')
                | Inr resp \<Rightarrow>
                    if apError resp \<noteq> '''' then (Inl (''entitlements: '' @ apError resp), c, s')
                    else (Inr (apAccountID resp, apPlan resp), ec_remember t' key (apAccountID resp) (apPlan resp) c, s'))))"

definition bind_message :: "BindRequest \<Rightarrow> CheckBindRequest" where
  "bind_message req =
     \<lparr>cqAPIKey = brAPIKey req, cqType = brType req, cqSubdomain = brSubdomain req, cqCustomHost = brCustomHost req,
      cqRemotePort = brRemotePort req, cqRegion = brRegion req\<rparr>"

definition ec_CheckBind :: "'s upstream \<Rightarrow> EntClient \<Rightarrow> BindRequest \<Rightarrow> 's \<Rightarrow> (string + Decision) \<times> 's" where
  "ec_CheckBind net c req s =
     (case ec_post net c PathCheckBind (Some (CheckBindRequest_json (bind_message req))) s of
        (r, s') \<Rightarrow>
          (case ec_read CheckBindResponse_of r of
             Inl e \<Rightarrow> Inl e
           | Inr resp \<Rightarrow>
               Inr \<lparr>Allow = cpAllow resp, dAccountID = cpAccountID resp, dPlan = cpPlan resp, dLimits = cpLimits resp,
                    AssignedSubdomain = cpAssignedSubdomain resp, ErrorCode = cpErrorCode resp, ErrorMessage = cpErrorMessage resp\<rparr>, s'))"

definition usage_message :: "Usage \<Rightarrow> UsageRequest" where
  "usage_message u =
     \<lparr>uqAccountID = uAccountID u, uqTunnelID = uTunnelID u, uqBytesIn = uBytesIn u, uqBytesOut = uBytesOut u, uqRequests = uRequests u,
      uqWindowStart = uWindowStart u, uqWindowEnd = uWindowEnd u\<rparr>"

text \<open>No struct is given to decode into: only the status counts.\<close>

definition ec_ReportUsage :: "JsonText \<Rightarrow> 's upstream \<Rightarrow> EntClient \<Rightarrow> Usage \<Rightarrow> 's \<Rightarrow> string option \<times> 's" where
  "ec_ReportUsage js net c u s =
     (case ec_post net c PathReportUsage (UsageRequest_json js (usage_message u)) s of
        (r, s') \<Rightarrow> (case r of Inl e \<Rightarrow> Some e | Inr _ \<Rightarrow> None, s'))"

definition ec_ReportTunnel :: "JsonText \<Rightarrow> 's upstream \<Rightarrow> EntClient \<Rightarrow> TunnelReport \<Rightarrow> 's \<Rightarrow> string option \<times> 's" where
  "ec_ReportTunnel js net c tr s =
     (case ec_post net c PathReportTunnel (TunnelReport_json js tr) s of
        (r, s') \<Rightarrow> (case r of Inl e \<Rightarrow> Some e | Inr _ \<Rightarrow> None, s'))"

section \<open>The client answers as the entitlements do\<close>

text \<open>A client connected to the server, which reads at most a MiB of a message.\<close>

definition rpc_names :: "string list" where
  "rpc_names = [''authenticate'', ''check-bind'', ''report-usage'', ''report-tunnel'']"

definition wired :: "RpcEnv \<Rightarrow> JsonText \<Rightarrow> string \<Rightarrow> gotime \<Rightarrow> byte list \<Rightarrow> string \<Rightarrow> (MemStore \<times> GeoService) upstream" where
  "wired v js want t rb nid path token j mg =
     (let name = drop (length rpc_prefix) path
      in if \<not> has_prefix path rpc_prefix \<or> name \<notin> set rpc_names then (Some (404, None), mg)
         else (case rpc_serve v want t rb nid token (rpc_decode name (if jsLen js j \<le> 2 ^ 20 then Some j else None)) mg of
                 ((status, b), mg') \<Rightarrow> (Some (status, rpc_body_json b), mg')))"

text \<open>A message gets through: there is one, it is not too long, and the client has the token of the server.\<close>

definition gets_through :: "JsonText \<Rightarrow> EntClient \<Rightarrow> string \<Rightarrow> json option \<Rightarrow> bool" where
  "gets_through js c want msg \<longleftrightarrow> ecToken c = want \<and> want \<noteq> '''' \<and> (case msg of None \<Rightarrow> False | Some j \<Rightarrow> jsLen js j \<le> 2 ^ 20)"

text \<open>Text as JSON carries it.\<close>

definition clean_request :: "BindRequest \<Rightarrow> BindRequest" where
  "clean_request req = req\<lparr>brAPIKey := utf8_clean (brAPIKey req), brType := utf8_clean (brType req),
     brSubdomain := utf8_clean (brSubdomain req), brCustomHost := utf8_clean (brCustomHost req), brRegion := utf8_clean (brRegion req)\<rparr>"

definition clean_decision :: "Decision \<Rightarrow> Decision" where
  "clean_decision d = d\<lparr>dAccountID := utf8_clean (dAccountID d), dPlan := utf8_clean (dPlan d),
     AssignedSubdomain := utf8_clean (AssignedSubdomain d), ErrorCode := utf8_clean (ErrorCode d), ErrorMessage := utf8_clean (ErrorMessage d)\<rparr>"

definition clean_usage :: "Usage \<Rightarrow> Usage" where
  "clean_usage u = u\<lparr>uAccountID := utf8_clean (uAccountID u), uTunnelID := utf8_clean (uTunnelID u)\<rparr>"

lemmas rpc_path_defs = PathAuthenticate_def PathCheckBind_def PathReportUsage_def PathReportTunnel_def

lemma rpc_paths: "has_prefix (rpc_prefix @ n) rpc_prefix" "drop (length rpc_prefix) (rpc_prefix @ n) = n"
  by (simp_all add: has_prefix_def)

lemma post_refused:
  assumes "\<not> gets_through js c want msg" "n \<in> set rpc_names"
  shows "\<exists>e. ec_post (wired v js want t rb nid) c (rpc_prefix @ n) msg mg = (Inl e, mg)"
proof (cases msg)
  case (Some j)
  have "rpc_decode n None = RpcMalformed" by (simp add: rpc_decode_def)
  with Some assms show ?thesis
    by (cases mg) (auto simp: ec_post_def wired_def gets_through_def rpc_paths rpc_serve_def internalTokenGuard_def rpc_handle_def)
qed (simp add: ec_post_def)

lemma post_served:
  assumes "gets_through js c want (Some j)" "n \<in> set rpc_names"
    and "rpc_handle v t rb nid (rpc_decode n (Some j)) mg = ((200, b), mg')"
  shows "ec_post (wired v js want t rb nid) c (rpc_prefix @ n) (Some j) mg = (Inr (rpc_body_json b), mg')"
  using assms by (simp add: ec_post_def wired_def gets_through_def rpc_paths rpc_serve_def internalTokenGuard_def)

lemma CheckBind_wired:
  assumes "gets_through js c want (Some (CheckBindRequest_json (bind_message req)))"
    and "ent_CheckBind (reIdkey v) (reQuota v) t rb (clean_request req) m = (d, m')"
  shows "ec_CheckBind (wired v js want t rb nid) c req (m, g) = (Inr (clean_decision d), m', g)"
proof -
  let ?q = "bind_message req"
  have q: "rpc_decode ''check-bind'' (Some (CheckBindRequest_json ?q)) = RpcCheckBind (clean_bind ?q)"
    by (simp add: rpc_decode_def CheckBindRequest_roundtrip)
  have r: "\<lparr>brAPIKey = cqAPIKey (clean_bind ?q), brType = cqType (clean_bind ?q), brSubdomain = cqSubdomain (clean_bind ?q),
      brCustomHost = cqCustomHost (clean_bind ?q), brRemotePort = cqRemotePort (clean_bind ?q), brRegion = cqRegion (clean_bind ?q)\<rparr>
      = clean_request req"
    by (cases req) (simp add: clean_bind_def bind_message_def clean_request_def)
  let ?b = "RpcBind \<lparr>cpAllow = Allow d, cpAccountID = dAccountID d, cpPlan = dPlan d, cpLimits = dLimits d,
             cpAssignedSubdomain = AssignedSubdomain d, cpErrorCode = ErrorCode d, cpErrorMessage = ErrorMessage d\<rparr>"
  have "rpc_handle v t rb nid (rpc_decode ''check-bind'' (Some (CheckBindRequest_json ?q))) (m, g) = ((200, ?b), m', g)"
    by (simp add: q rpc_handle_def rpcCheckBind_def r assms(2))
  from post_served [OF assms(1) _ this]
  show ?thesis
    by (cases d) (simp add: ec_CheckBind_def rpc_path_defs rpc_names_def ec_read_def rpc_body_json_def CheckBindResponse_roundtrip clean_decision_def)
qed

lemma Authenticate_wired:
  assumes "gets_through js c want (Some (AuthRequest_json \<lparr>aqAPIKey = key\<rparr>))" "ec_cached t0 key c = None"
    and "ent_Authenticate (reIdkey v) t (utf8_clean key) m = (r, m')"
  shows "ec_Authenticate (wired v js want t rb nid) t0 t' key c (m, g) =
    (case r of Inl e \<Rightarrow> (Inl ''entitlements: invalid api key'', c, m', g)
     | Inr (acc, plan) \<Rightarrow> (Inr (utf8_clean acc, utf8_clean plan), ec_remember t' key (utf8_clean acc) (utf8_clean plan) c, m', g))"
proof -
  have q: "rpc_decode ''authenticate'' (Some (AuthRequest_json \<lparr>aqAPIKey = key\<rparr>)) = RpcAuthenticate \<lparr>aqAPIKey = utf8_clean key\<rparr>"
    by (simp add: rpc_decode_def AuthRequest_roundtrip)
  obtain b where b: "rpcAuthenticate v t \<lparr>aqAPIKey = utf8_clean key\<rparr> m = (b, m')"
    using assms(3) by (cases r) (auto simp: rpcAuthenticate_def)
  have "rpc_handle v t rb nid (rpc_decode ''authenticate'' (Some (AuthRequest_json \<lparr>aqAPIKey = key\<rparr>))) (m, g) = ((200, b), m', g)"
    by (simp add: q rpc_handle_def b)
  from post_served [OF assms(1) _ this] b assms(2,3) show ?thesis
    by (auto simp: ec_Authenticate_def rpc_path_defs rpc_names_def ec_read_def rpc_body_json_def AuthResponse_roundtrip rpcAuthenticate_def
        utf8_clean_ascii split: sum.splits)
qed

lemma ReportUsage_wired:
  assumes "gets_through js c want (UsageRequest_json js (usage_message u))"
  shows "ec_ReportUsage js (wired v js want t rb nid) c u (m, g) = (None, ReportUsage (clean_usage u) m, g)"
proof -
  obtain j where j: "UsageRequest_json js (usage_message u) = Some j" using assms by (auto simp: gets_through_def split: option.splits)
  from UsageRequest_roundtrip [OF j]
  have "rpc_handle v t rb nid (rpc_decode ''report-usage'' (Some j)) (m, g) = ((200, RpcNoBody), ReportUsage (clean_usage u) m, g)"
    by (cases u) (simp add: rpc_decode_def rpc_handle_def rpcReportUsage_def usage_message_def clean_usage_def)
  from post_served [OF _ _ this] j assms show ?thesis by (simp add: ec_ReportUsage_def rpc_path_defs rpc_names_def)
qed

lemma ReportTunnel_wired:
  assumes "gets_through js c want (TunnelReport_json js r)"
  shows "ec_ReportTunnel js (wired v js want t rb nid) c r mg = (None, rpcReportTunnel v t nid (clean_report r) mg)"
proof -
  obtain j where j: "TunnelReport_json js r = Some j" using assms by (auto simp: gets_through_def split: option.splits)
  obtain m g where mg: "mg = (m, g)" by (cases mg)
  obtain m' g' where e: "rpcReportTunnel v t nid (clean_report r) mg = (m', g')" by (cases "rpcReportTunnel v t nid (clean_report r) mg")
  from TunnelReport_roundtrip [OF j] e
  have "rpc_handle v t rb nid (rpc_decode ''report-tunnel'' (Some j)) mg = ((200, RpcNoBody), m', g')"
    by (simp add: rpc_decode_def rpc_handle_def mg)
  from post_served [OF _ _ this] j assms e show ?thesis by (simp add: ec_ReportTunnel_def rpc_path_defs rpc_names_def)
qed

text \<open>C34. Over the internal interface an edge gets what the entitlements service of the control plane decides, and the
  store of the control plane changes as by a direct call: \<^verbatim>\<open>CheckBind\<close> gives the decision on the request, field by field,
  \<^verbatim>\<open>ReportUsage\<close> records the usage, \<^verbatim>\<open>ReportTunnel\<close> has the report recorded, and \<^verbatim>\<open>Authenticate\<close> gives the account and plan
  or an error, except that it answers from its cache, without a call, while the entry for the key is fresh. This holds
  for a message of at most 1 MiB whose times have years of four digits, sent with the configured, non-empty token, and
  with strings as JSON carries them (bytes that are not UTF-8 become U+FFFD; ASCII is unchanged); any other message gives
  an error, and nothing changes.\<close>

theorem rpc_equals_direct_call:
  "(if gets_through js c want (Some (CheckBindRequest_json (bind_message req)))
    then ec_CheckBind (wired v js want t rb nid) c req (m, g)
       = (case ent_CheckBind (reIdkey v) (reQuota v) t rb (clean_request req) m of (d, m') \<Rightarrow> (Inr (clean_decision d), m', g))
    else (\<exists>e. ec_CheckBind (wired v js want t rb nid) c req (m, g) = (Inl e, m, g))) \<and>
   (if gets_through js c want (UsageRequest_json js (usage_message u))
    then ec_ReportUsage js (wired v js want t rb nid) c u (m, g) = (None, ReportUsage (clean_usage u) m, g)
    else (\<exists>e. ec_ReportUsage js (wired v js want t rb nid) c u (m, g) = (Some e, m, g))) \<and>
   (if gets_through js c want (TunnelReport_json js r)
    then ec_ReportTunnel js (wired v js want t rb nid) c r (m, g) = (None, rpcReportTunnel v t nid (clean_report r) (m, g))
    else (\<exists>e. ec_ReportTunnel js (wired v js want t rb nid) c r (m, g) = (Some e, m, g))) \<and>
   (case ec_cached t0 key c of
      Some a \<Rightarrow> ec_Authenticate (wired v js want t rb nid) t0 t' key c (m, g) = (Inr a, c, m, g)
    | None \<Rightarrow>
        if gets_through js c want (Some (AuthRequest_json \<lparr>aqAPIKey = key\<rparr>))
        then ec_Authenticate (wired v js want t rb nid) t0 t' key c (m, g)
           = (case ent_Authenticate (reIdkey v) t (utf8_clean key) m of
                (Inl e, m') \<Rightarrow> (Inl ''entitlements: invalid api key'', c, m', g)
              | (Inr (acc, plan), m') \<Rightarrow>
                  (Inr (utf8_clean acc, utf8_clean plan), ec_remember t' key (utf8_clean acc) (utf8_clean plan) c, m', g))
        else (\<exists>e. ec_Authenticate (wired v js want t rb nid) t0 t' key c (m, g) = (Inl e, c, m, g)))"
proof -
  let ?net = "wired v js want t rb nid"
  have names: "''authenticate'' \<in> set rpc_names" "''check-bind'' \<in> set rpc_names" "''report-usage'' \<in> set rpc_names"
    "''report-tunnel'' \<in> set rpc_names" by (simp_all add: rpc_names_def)
  note refused = post_refused [of js c want _ _ v t rb nid "(m, g)"]
  have bind: "\<exists>e. ec_CheckBind ?net c req (m, g) = (Inl e, m, g)"
    if "\<not> gets_through js c want (Some (CheckBindRequest_json (bind_message req)))"
    using refused [OF that names(2)] by (auto simp: ec_CheckBind_def rpc_path_defs ec_read_def)
  have usage: "\<exists>e. ec_ReportUsage js ?net c u (m, g) = (Some e, m, g)"
    if "\<not> gets_through js c want (UsageRequest_json js (usage_message u))"
    using refused [OF that names(3)] by (auto simp: ec_ReportUsage_def rpc_path_defs)
  have report: "\<exists>e. ec_ReportTunnel js ?net c r (m, g) = (Some e, m, g)" if "\<not> gets_through js c want (TunnelReport_json js r)"
    using refused [OF that names(4)] by (auto simp: ec_ReportTunnel_def rpc_path_defs)
  have auth: "\<exists>e. ec_Authenticate ?net t0 t' key c (m, g) = (Inl e, c, m, g)"
    if "\<not> gets_through js c want (Some (AuthRequest_json \<lparr>aqAPIKey = key\<rparr>))" "ec_cached t0 key c = None"
    using refused [OF that(1) names(1)] that(2) by (auto simp: ec_Authenticate_def rpc_path_defs ec_read_def)
  have hit: "ec_Authenticate ?net t0 t' key c (m, g) = (Inr a, c, m, g)" if "ec_cached t0 key c = Some a" for a
    using that by (simp add: ec_Authenticate_def)
  show ?thesis
    using bind usage report auth hit CheckBind_wired [of js c want req v t rb m _ _ nid g] ReportUsage_wired ReportTunnel_wired
      Authenticate_wired [of js c want key t0 v t m _ _ rb nid t' g]
    by (simp split: option.splits prod.splits sum.splits)
qed

section \<open>Revocation and the cache\<close>

text \<open>
  An edge and the control plane over time. The control plane answers an authentication at one moment and the reply is
  cached at a later one, no later than the timeout of the client; the store may change in between. \<open>eaFlight\<close> holds the
  successful replies on their way: key, time of the answer, account and plan.
\<close>

record EdgeAuth =
  eaClient :: EntClient
  eaFlight :: "(string \<times> gotime \<times> string \<times> string) list"
  eaStore :: MemStore

inductive auth_run :: "RpcEnv \<Rightarrow> gotime \<Rightarrow> EdgeAuth \<Rightarrow> gotime \<Rightarrow> EdgeAuth \<Rightarrow> bool" for v t0 s0 where
  au_start: "auth_run v t0 s0 t0 s0"
| au_ask: "auth_run v t0 s0 t1 s \<Longrightarrow> t1 \<le> t \<Longrightarrow> rpcAuthenticate v t \<lparr>aqAPIKey = utf8_clean key\<rparr> (eaStore s) = (RpcAuth p, m') \<Longrightarrow> apError p = '''' \<Longrightarrow>
    auth_run v t0 s0 t (s\<lparr>eaFlight := (key, t, utf8_clean (apAccountID p), utf8_clean (apPlan p)) # eaFlight s, eaStore := m'\<rparr>)"
| au_reply: "auth_run v t0 s0 t1 s \<Longrightarrow> t1 \<le> t \<Longrightarrow> (key, ts, acc, plan) \<in> set (eaFlight s) \<Longrightarrow> t \<le> ts + ecTimeout (eaClient s) \<Longrightarrow>
    auth_run v t0 s0 t (s\<lparr>eaClient := ec_remember t key acc plan (eaClient s)\<rparr>)"
| au_store: "auth_run v t0 s0 t1 s \<Longrightarrow> t1 \<le> t \<Longrightarrow> store_step (eaStore s) m' \<Longrightarrow> auth_run v t0 s0 t (s\<lparr>eaStore := m'\<rparr>)"

lemma dead_refused:
  assumes "key_dead i p m" "KeyPrefix raw = Some p"
  shows "\<exists>e. ent_Authenticate ik t raw m = (Inl e, m)"
    and "rpcAuthenticate v t \<lparr>aqAPIKey = raw\<rparr> m = (RpcAuth \<lparr>apAccountID = '''', apPlan = '''', apError = ''invalid api key''\<rparr>, m)"
  using assms by (simp_all add: rpcAuthenticate_def ent_Authenticate_def key_dead_refused)

lemma ask_store:
  assumes "rpcAuthenticate v t q m = (b, m')" "key_dead i p m"
  shows "key_dead i p m'"
proof -
  have "AuthenticateAPIKey (reIdkey v) t (aqAPIKey q) m = (r, m1) \<Longrightarrow> m1 = m \<or> (\<exists>j. m1 = snd (TouchAPIKey j t m))" for r m1
    by (auto simp: AuthenticateAPIKey_def Let_def split: option.splits sum.splits if_splits)
  then have "m' = m \<or> (\<exists>j. m' = snd (TouchAPIKey j t m))"
    using assms(1) by (auto simp: rpcAuthenticate_def ent_Authenticate_def split: prod.splits sum.splits)
  with assms(2) show ?thesis by (auto simp: key_dead_def TouchAPIKey_def split: option.splits)
qed

text \<open>What holds from the moment \<open>t0\<close> of the revocation on.\<close>

definition fading :: "string \<Rightarrow> gotime \<Rightarrow> EdgeAuth \<Rightarrow> bool" where
  "fading raw t0 s \<longleftrightarrow> ecCacheTTL (eaClient s) = 30 * second \<and> ecTimeout (eaClient s) = 5 * second \<and>
     (\<forall>e. gget (ecCache (eaClient s)) raw = Some e \<longrightarrow> aeExpiry e \<le> t0 + 35 * second) \<and>
     (\<forall>ts acc plan. (raw, ts, acc, plan) \<in> set (eaFlight s) \<longrightarrow> ts \<le> t0)"

lemma auth_run_fading:
  assumes "auth_run v t0 s0 t s" "fading raw t0 s0" "key_dead i p (eaStore s0)" "KeyPrefix raw = Some p" "utf8_clean raw = raw"
  shows "fading raw t0 s \<and> key_dead i p (eaStore s)"
  using assms
proof (induction rule: auth_run.induct)
  case (au_ask t1 s t key pl m')
  then have IH: "fading raw t0 s" "key_dead i p (eaStore s)" by simp_all
  have "key \<noteq> raw" using dead_refused(2) [OF IH(2) au_ask.prems(3), of v t] au_ask.hyps(3,4) au_ask.prems(4) by auto
  with IH ask_store [OF au_ask.hyps(3) IH(2)] show ?case by (auto simp: fading_def)
next
  case (au_reply t1 s t key ts acc plan)
  then have IH: "fading raw t0 s" "key_dead i p (eaStore s)" by simp_all
  have "t \<le> t0 + 5 * second" if "key = raw"
  proof -
    have "ts \<le> t0" "ecTimeout (eaClient s) = 5 * second" using that IH(1) au_reply.hyps(3) unfolding fading_def by blast+
    with au_reply.hyps(4) show ?thesis by simp
  qed
  with IH show ?case by (auto simp: fading_def ec_remember_def)
next
  case (au_store t1 s t m')
  then have IH: "fading raw t0 s" "key_dead i p (eaStore s)" by simp_all
  from IH(1) key_dead_step [OF au_store.hyps(3) IH(2)] show ?case by (simp add: fading_def)
qed simp

text \<open>Before the revocation: entries were made at some moment of the past.\<close>

definition past_only :: "gotime \<Rightarrow> EdgeAuth \<Rightarrow> bool" where
  "past_only t s \<longleftrightarrow> ecCacheTTL (eaClient s) = 30 * second \<and> ecTimeout (eaClient s) = 5 * second \<and>
     (\<forall>k e. gget (ecCache (eaClient s)) k = Some e \<longrightarrow> aeExpiry e \<le> t + 30 * second) \<and>
     (\<forall>k ts acc plan. (k, ts, acc, plan) \<in> set (eaFlight s) \<longrightarrow> ts \<le> t)"

lemma past_only_mono: "past_only t s \<Longrightarrow> t \<le> t' \<Longrightarrow> past_only t' s"
  unfolding past_only_def by fastforce

lemma auth_run_past: "auth_run v t0 s0 t s \<Longrightarrow> past_only t0 s0 \<Longrightarrow> past_only t s"
proof (induction rule: auth_run.induct)
  case (au_ask t1 s t key pl m')
  then have "past_only t s" using past_only_mono by blast
  then show ?case by (auto simp: past_only_def)
next
  case (au_reply t1 s t key ts acc plan)
  then have "past_only t s" using past_only_mono by blast
  then show ?case by (auto simp: past_only_def ec_remember_def)
next
  case (au_store t1 s t m')
  then have "past_only t s" using past_only_mono by blast
  then show ?case by (simp add: past_only_def)
qed

text \<open>An edge that starts with an empty cache, with authentications, replies in flight and changes of the control plane in
  any order: once an API key has been revoked in the control plane, the edge refuses it 35 seconds later and ever after
  (30 seconds of cache and the 5 seconds a reply may be on its way).\<close>

theorem revoked_key_fades_from_edge:
  assumes "auth_run v tb \<lparr>eaClient = NewClient tok, eaFlight = [], eaStore = m\<rparr> t0 s0"
    and "key_dead i p (eaStore s0)" "KeyPrefix raw = Some p" "utf8_clean raw = raw"
    and "auth_run v t0 s0 t s" "t \<ge> t0 + 35 * second"
  shows "\<exists>e. fst (ec_Authenticate (wired v js want t rb nid) t t' raw (eaClient s) (eaStore s, g)) = Inl e"
proof -
  have "past_only t0 s0"
    using auth_run_past [OF assms(1)] by (simp add: past_only_def NewClient_def)
  then have "fading raw t0 s0" by (fastforce simp: past_only_def fading_def)
  from auth_run_fading [OF assms(5) this assms(2,3,4)]
  have f: "fading raw t0 s" "key_dead i p (eaStore s)" by simp_all
  have "ec_cached t raw (eaClient s) = None"
    using f(1) assms(6) by (force simp: ec_cached_def fading_def split: option.splits)
  moreover obtain e where "ent_Authenticate (reIdkey v) t (utf8_clean raw) (eaStore s) = (Inl e, eaStore s)"
    using dead_refused(1) [OF f(2) assms(3)] assms(4) by fastforce
  moreover note post_refused [of js "eaClient s" want "Some (AuthRequest_json \<lparr>aqAPIKey = raw\<rparr>)" "''authenticate''" v t rb nid "(eaStore s, g)"]
  ultimately show ?thesis
    using Authenticate_wired [of js "eaClient s" want raw t v t "eaStore s" "Inl e" "eaStore s" rb nid t' g]
    by (cases "gets_through js (eaClient s) want (Some (AuthRequest_json \<lparr>aqAPIKey = raw\<rparr>))")
      (auto simp: ec_Authenticate_def rpc_path_defs rpc_names_def ec_read_def)
qed

definition ex_rpc :: RpcEnv where
  "ex_rpc = \<lparr>reIdkey = ex_idkey, reQuota = False, reHttp = (\<lambda>u. None), reDec = (\<lambda>b. None)\<rparr>"

definition ex_js :: JsonText where
  "ex_js = \<lparr>jsLen = (\<lambda>j. 20), jsTime = (\<lambda>t. ''2026-01-01T00:00:00Z'')\<rparr>"

definition ex_geo :: GeoService where
  "ex_geo = newGeo \<lparr>gcHeader = [], gcAPIURL = [], gcCacheTTL = 0, gcRegions = []\<rparr>"

definition ex_revoked :: EdgeAuth where
  "ex_revoked = \<lparr>eaClient = NewClient ''tok'', eaFlight = [],
     eaStore = snd (RevokeAPIKey ''key_1'' ''org_1'' 7 (snd (CreateAPIKey 5 ''x'' ex_key NewMemStore)))\<rparr>"

theorem revoked_key_fades_from_edge_witness:
  "\<exists>s e. auth_run ex_rpc 0 ex_revoked (40 * second) s \<and> s \<noteq> ex_revoked \<and>
     fst (ec_Authenticate (wired ex_rpc ex_js ''tok'' (40 * second) [] ''n'') (40 * second) (40 * second) ''tq_live_ab_00''
       (eaClient s) (eaStore s, ex_geo)) = Inl e"
proof -
  have dead: "key_dead ''key_1'' ''tq_live_ab'' (eaStore ex_revoked)"
    by (simp add: ex_revoked_def key_dead_def CreateAPIKey_def RevokeAPIKey_def ex_key_def zeroKey_def NewMemStore_def or_id_def or_time_def Let_def)
  have pre: "KeyPrefix ''tq_live_ab_00'' = Some ''tq_live_ab''" by code_simp
  have utf: "utf8_clean ''tq_live_ab_00'' = ''tq_live_ab_00''" by (simp add: utf8_clean_ascii)
  define u where "u = \<lparr>urOrgID = [], urTunnelID = [], urBytesIn = 0, urBytesOut = 0, urRequests = 0, urWindowStart = 0, urWindowEnd = 0\<rparr>"
  let ?s = "ex_revoked\<lparr>eaStore := UpsertUsage u (eaStore ex_revoked)\<rparr>"
  have run: "auth_run ex_rpc 0 ex_revoked (40 * second) ?s"
    by (rule au_store [OF au_start]) (simp_all add: store_step.intros)
  have "stUsage (eaStore ?s) = stUsage (eaStore ex_revoked) @ [u]" by (simp add: UpsertUsage_def)
  then have "?s \<noteq> ex_revoked" by (metis append_self_conv not_Cons_self2)
  moreover have "auth_run ex_rpc 0 \<lparr>eaClient = NewClient ''tok'', eaFlight = [], eaStore = eaStore ex_revoked\<rparr> 0 ex_revoked"
    using au_start [of ex_rpc 0 ex_revoked] by (simp add: ex_revoked_def)
  from revoked_key_fades_from_edge [OF this dead pre utf run, of ex_js "''tok''" "[]" "''n''" "40 * second" ex_geo]
  have "\<exists>e. fst (ec_Authenticate (wired ex_rpc ex_js ''tok'' (40 * second) [] ''n'') (40 * second) (40 * second) ''tq_live_ab_00''
       (eaClient ?s) (eaStore ?s, ex_geo)) = Inl e" by simp
  ultimately show ?thesis using run by blast
qed

end
