(* ===== verification/Float64.thy ===== *)
theory Float64
  imports Complex_Main "HOL-Library.Log_Nat"
begin

text \<open>
  Arithmetic of \<^verbatim>\<open>float64\<close> (and of the numbers of Lua, which are C doubles). A float is represented by the
  rational it stands for, and an operation is the exact one followed by \<open>fl\<close>, rounding to 53
  significant bits, ties to even. The exponent is not bounded: the amounts the development computes
  with are zero or lie between \<open>2\<^sup>-\<^sup>6\<^sup>0\<close> and \<open>2\<^sup>6\<^sup>4\<close>, far from where a double overflows or becomes
  subnormal. The lemmas say what the clients use: rounding is monotone and off by at most one part in \<open>2\<^sup>5\<^sup>3\<close>.
\<close>

section \<open>Rounding to an integer\<close>

definition round_even :: "rat \<Rightarrow> int" where
  "round_even x =
     (let n = \<lfloor>x\<rfloor>; d = x - of_int n
      in if d < 1 / 2 then n else if 1 / 2 < d then n + 1 else if even n then n else n + 1)"

lemma round_even_near: "\<bar>of_int (round_even x) - x\<bar> \<le> 1 / 2"
proof -
  have "of_int \<lfloor>x\<rfloor> \<le> x" "x < of_int \<lfloor>x\<rfloor> + 1" using floor_correct [of x] by auto
  then show ?thesis by (simp add: round_even_def Let_def abs_if) linarith
qed

lemma round_even_of_int [simp]: "round_even (of_int n) = n"
  by (simp add: round_even_def)

lemma round_even_mono:
  assumes "x \<le> y"
  shows "round_even x \<le> round_even y"
proof (cases "\<lfloor>x\<rfloor> = \<lfloor>y\<rfloor>")
  case True
  with assms show ?thesis by (auto simp: round_even_def Let_def)
next
  case False
  with assms have "\<lfloor>x\<rfloor> + 1 \<le> \<lfloor>y\<rfloor>" using floor_mono [OF assms] by linarith
  moreover have "round_even x \<le> \<lfloor>x\<rfloor> + 1" "\<lfloor>y\<rfloor> \<le> round_even y" by (auto simp: round_even_def Let_def)
  ultimately show ?thesis by linarith
qed

section \<open>The binary exponent\<close>

definition log2_floor :: "rat \<Rightarrow> int" where
  "log2_floor x = (case quotient_of x of (p, q) \<Rightarrow>
     let k = bitlen p - bitlen q in if 2 powi k \<le> x then k else k - 1)"

lemma bitlen_between:
  assumes "0 < (p :: int)"
  shows "2 powi (bitlen p - 1) \<le> (of_int p :: rat)" "of_int p < (2 :: rat) powi bitlen p"
proof -
  have b: "2 ^ nat (bitlen p - 1) \<le> p" "p < 2 ^ nat (bitlen p)" using bitlen_bounds [OF assms] by auto
  have pos: "0 < bitlen p" using assms by (metis bitlen_eq_zero_iff bitlen_nonneg order_le_less not_less)
  have "(2 :: rat) powi (bitlen p - 1) = of_int (2 ^ nat (bitlen p - 1))" "(2 :: rat) powi bitlen p = of_int (2 ^ nat (bitlen p))"
    using pos by (simp_all add: power_int_def)
  with b show "2 powi (bitlen p - 1) \<le> (of_int p :: rat)" "of_int p < (2 :: rat) powi bitlen p"
    by (metis of_int_le_iff, metis of_int_less_iff)
qed

lemma log2_floor_bounds:
  assumes "0 < x"
  shows "2 powi log2_floor x \<le> x" "x < 2 powi (log2_floor x + 1)"
proof -
  obtain p q where pq: "quotient_of x = (p, q)" by (cases "quotient_of x")
  have x: "x = of_int p / of_int q" and q: "0 < q" using quotient_of_div [OF pq] quotient_of_denom_pos [OF pq] by auto
  have p: "0 < p" using assms x q by (simp add: zero_less_divide_iff)
  define k where "k = bitlen p - bitlen q"
  note bp = bitlen_between [OF p] and bq = bitlen_between [OF q]
  have "x < 2 powi bitlen p / 2 powi (bitlen q - 1)"
    unfolding x using bp bq p q by (intro frac_less) auto
  also have "\<dots> = 2 powi (k + 1)" by (simp add: k_def power_int_diff [symmetric] algebra_simps)
  finally have up: "x < 2 powi (k + 1)" .
  have "2 powi (bitlen p - 1) / 2 powi bitlen q \<le> x"
    unfolding x using bp bq p q by (intro frac_le) auto
  moreover have "(2 :: rat) powi (bitlen p - 1) / 2 powi bitlen q = 2 powi (k - 1)"
    by (simp add: k_def power_int_diff [symmetric] algebra_simps)
  ultimately have low: "2 powi (k - 1) \<le> x" by simp
  show "2 powi log2_floor x \<le> x" "x < 2 powi (log2_floor x + 1)"
    using up low by (auto simp: log2_floor_def pq Let_def k_def [symmetric])
qed

lemma log2_floor_mono:
  assumes "0 < x" "x \<le> y"
  shows "log2_floor x \<le> log2_floor y"
proof (rule ccontr)
  assume "\<not> ?thesis"
  then have "log2_floor y + 1 \<le> log2_floor x" by simp
  then have "(2 :: rat) powi (log2_floor y + 1) \<le> 2 powi log2_floor x" by (rule power_int_increasing) simp
  with log2_floor_bounds [of x] log2_floor_bounds [of y] assms show False by linarith
qed

section \<open>Rounding to a float\<close>

definition fl :: "rat \<Rightarrow> rat" where
  "fl x = (if x = 0 then 0 else
     let u = 2 powi (log2_floor \<bar>x\<bar> - 52) in of_int (round_even (x / u)) * u)"

lemma fl_0 [simp]: "fl 0 = 0"
  by (simp add: fl_def)

text \<open>Rounding is off by at most one part in \<open>2\<^sup>5\<^sup>3\<close>.\<close>

lemma fl_error:
  assumes "0 \<le> x"
  shows "\<bar>fl x - x\<bar> \<le> x / 2 ^ 53"
proof (cases "x = 0")
  case False
  define u :: rat where "u = 2 powi (log2_floor x - 52)"
  have u: "0 < u" by (simp add: u_def)
  have f: "fl x = of_int (round_even (x / u)) * u" using False assms by (simp add: fl_def u_def Let_def)
  have "\<bar>fl x - x\<bar> = \<bar>of_int (round_even (x / u)) - x / u\<bar> * u"
  proof -
    have "fl x - x = (of_int (round_even (x / u)) - x / u) * u" unfolding f using u by (simp add: left_diff_distrib)
    then show ?thesis using u by (simp only: abs_mult abs_of_pos)
  qed
  also have "\<dots> \<le> 1 / 2 * u" using round_even_near [of "x / u"] u by (intro mult_right_mono) auto
  also have "\<dots> = 2 powi log2_floor x / 2 ^ 53" by (simp add: u_def power_int_diff)
  also have "\<dots> \<le> x / 2 ^ 53" using log2_floor_bounds(1) [of x] False assms by (simp add: divide_right_mono)
  finally show ?thesis .
qed simp

lemma fl_upper: "0 \<le> x \<Longrightarrow> fl x \<le> x * (1 + 1 / 2 ^ 53)"
  using fl_error [of x] by (auto simp: abs_if split: if_splits)

lemma fl_nonneg: "0 \<le> x \<Longrightarrow> 0 \<le> fl x"
proof -
  assume x: "0 \<le> x"
  have "x / 2 ^ 53 \<le> x" using x by (simp add: field_simps)
  then show ?thesis using fl_error [OF x] x by (auto simp: abs_if split: if_splits)
qed

text \<open>A float lies between the powers of two around the number it rounds.\<close>

lemma fl_binade:
  assumes "0 < x"
  shows "2 powi log2_floor x \<le> fl x" "fl x \<le> 2 powi (log2_floor x + 1)"
proof -
  define e where "e = log2_floor x"
  define u :: rat where "u = 2 powi (e - 52)"
  have u: "0 < u" by (simp add: u_def)
  have f: "fl x = of_int (round_even (x / u)) * u" using assms by (simp add: fl_def u_def e_def Let_def)
  have p: "2 powi e = of_int (2 ^ 52) * u" "2 powi (e + 1) = of_int (2 ^ 53) * u"
    by (simp_all add: u_def power_int_diff power_int_add)
  have "of_int (2 ^ 52) \<le> x / u" "x / u \<le> of_int (2 ^ 53)"
    using log2_floor_bounds [OF assms] u unfolding e_def [symmetric] p
    by (simp_all only: pos_le_divide_eq pos_divide_le_eq less_imp_le)
  then have "2 ^ 52 \<le> round_even (x / u)" "round_even (x / u) \<le> 2 ^ 53"
    using round_even_mono round_even_of_int by metis+
  then have "of_int (2 ^ 52) \<le> (of_int (round_even (x / u)) :: rat)" "(of_int (round_even (x / u)) :: rat) \<le> of_int (2 ^ 53)"
    by (simp_all only: of_int_le_iff)
  with u show "2 powi log2_floor x \<le> fl x" "fl x \<le> 2 powi (log2_floor x + 1)"
    unfolding f e_def [symmetric] p by (simp_all only: mult_right_mono less_imp_le)
qed

lemma fl_mono:
  assumes "0 \<le> x" "x \<le> y"
  shows "fl x \<le> fl y"
proof (cases "x = 0")
  case True
  then show ?thesis using fl_nonneg [of y] assms by simp
next
  case False
  then have x: "0 < x" and y: "0 < y" using assms by auto
  show ?thesis
  proof (cases "log2_floor x = log2_floor y")
    case True
    define u :: rat where "u = 2 powi (log2_floor y - 52)"
    have u: "0 < u" by (simp add: u_def)
    have "of_int (round_even (x / u)) \<le> (of_int (round_even (y / u)) :: rat)"
      using assms u by (intro of_int_le_iff [THEN iffD2] round_even_mono divide_right_mono) auto
    with u have "of_int (round_even (x / u)) * u \<le> of_int (round_even (y / u)) * u" by (intro mult_right_mono) auto
    with x y show ?thesis by (simp add: fl_def Let_def True u_def)
  next
    case False
    then have "log2_floor x + 1 \<le> log2_floor y" using log2_floor_mono [OF x assms(2)] by simp
    then have "(2 :: rat) powi (log2_floor x + 1) \<le> 2 powi log2_floor y" by (rule power_int_increasing) simp
    with fl_binade [OF x] fl_binade [OF y] show ?thesis by linarith
  qed
qed

text \<open>The float amounts the limiters are configured with.\<close>

lemma fl_consts [simp]: "fl 1 = 1" "fl 3 = 3" "fl 5 = 5" "fl 10 = 10" "fl 50 = 50" "fl 100 = 100" "fl 600 = 600"
  by code_simp+

text \<open>A capped sum is off by at most a part in \<open>2\<^sup>5\<^sup>2\<close> of the cap.\<close>

lemma fl_capped:
  assumes "0 \<le> x" "0 \<le> b"
  shows "min b (fl x) \<le> x + b / 2 ^ 52"
proof (cases "x \<le> 2 * b")
  case True
  have "x / 2 ^ 53 \<le> 2 * b / 2 ^ 53" using True by (rule divide_right_mono) simp
  with fl_error [OF assms(1)] have "fl x \<le> x + b / 2 ^ 52" by (auto simp: abs_if split: if_splits)
  then show ?thesis by (simp add: min.coboundedI2)
next
  case False
  then have "b \<le> x" using assms by linarith
  moreover have "0 \<le> b / 2 ^ 52" using assms by simp
  ultimately show ?thesis by (simp add: min_def)
qed

end
