(* ===== verification/RateLimit.thy ===== *)
theory RateLimit
  imports Float64 Hosts Http
begin

text \<open>
  The rate limiter of the control plane (\<^verbatim>\<open>internal/api/middleware.go\<close>): the token buckets a single
  replica keeps, with the reaper that forgets idle ones, the script \<^verbatim>\<open>allowScript\<close> that all replicas
  run on shared buckets (\<^verbatim>\<open>internal/api/ratelimit_redis.go\<close>), with the expiry that forgets idle ones,
  and the fallback of every replica to its own buckets when Redis does not answer. Token amounts are
  \<^verbatim>\<open>float64\<close>: every operation rounds (theory \<open>Float64\<close>). What the stores promise is the locale
  \<open>token_bucket\<close>; that forgetting is unobservable and the bound on admissions are proved there once.
\<close>

section \<open>The contract of a bucket store\<close>

datatype rl_op = Req int string | Forget int

fun op_time :: "rl_op \<Rightarrow> int" where
  "op_time (Req t k) = t"
| "op_time (Forget t) = t"

text \<open>Times that never go back, from \<open>t\<close> on, and the last of them.\<close>

fun times_from :: "int \<Rightarrow> rl_op list \<Rightarrow> bool" where
  "times_from t [] = True"
| "times_from t (p # ps) = (t \<le> op_time p \<and> times_from (op_time p) ps)"

fun last_time :: "int \<Rightarrow> rl_op list \<Rightarrow> int" where
  "last_time t [] = t"
| "last_time t (p # ps) = last_time (op_time p) ps"

text \<open>The decisions of a run, and how many requests of a key it admits.\<close>

fun decisions :: "(int \<Rightarrow> string \<Rightarrow> 's \<Rightarrow> bool \<times> 's) \<Rightarrow> (int \<Rightarrow> 's \<Rightarrow> 's) \<Rightarrow> rl_op list \<Rightarrow> 's \<Rightarrow> (string \<times> bool) list" where
  "decisions allow forget [] s = []"
| "decisions allow forget (Req t k # ps) s = (k, fst (allow t k s)) # decisions allow forget ps (snd (allow t k s))"
| "decisions allow forget (Forget t # ps) s = decisions allow forget ps (forget t s)"

definition admitted :: "string \<Rightarrow> (string \<times> bool) list \<Rightarrow> nat" where
  "admitted k ds = length (filter (\<lambda>d. d = (k, True)) ds)"

fun is_req :: "rl_op \<Rightarrow> bool" where
  "is_req (Req t k) = True"
| "is_req (Forget t) = False"

definition requests :: "string \<Rightarrow> rl_op list \<Rightarrow> nat" where
  "requests k ps = length (filter (\<lambda>p. \<exists>t. p = Req t k) ps)"

text \<open>What \<open>n\<close> requests over \<open>T\<close> seconds can get out of a bucket: the burst, the tokens of the time that
  passed, and what rounding adds.\<close>

definition allowance :: "rat \<Rightarrow> rat \<Rightarrow> rat \<Rightarrow> nat \<Rightarrow> rat" where
  "allowance rps burst T n = burst + rps * T * (1 + 1 / 2 ^ 50) + burst * of_nat n / 2 ^ 50"

lemma last_time_ge: "times_from t ps \<Longrightarrow> t \<le> last_time t ps"
  by (induction ps arbitrary: t) (auto intro: order_trans)

lemma times_from_filter: "times_from t ps \<Longrightarrow> times_from t (filter is_req ps)"
proof (induction ps arbitrary: t)
  case (Cons p ps)
  have weaken: "t \<le> u \<Longrightarrow> times_from u qs \<Longrightarrow> times_from t qs" for t u qs by (cases qs) auto
  from Cons show ?case by (auto intro: weaken)
qed simp

lemma last_time_filter: "times_from t ps \<Longrightarrow> last_time t (filter is_req ps) \<le> last_time t ps"
proof (induction ps arbitrary: t)
  case (Cons p ps)
  have shift: "t \<le> u \<Longrightarrow> last_time t qs \<le> last_time u qs" for t u :: int and qs by (cases qs) auto
  from Cons have "last_time (op_time p) (filter is_req ps) \<le> last_time (op_time p) ps" "t \<le> op_time p" by auto
  then show ?case using shift [of t "op_time p" "filter is_req ps"] by auto
qed simp

lemma requests_filter [simp]: "requests k (filter is_req ps) = requests k ps"
  by (induction ps) (auto simp: requests_def)

text \<open>The level of a bucket at a time: full where there is none.\<close>

definition bucket_level :: "(rat \<Rightarrow> int \<Rightarrow> rat) \<Rightarrow> rat \<Rightarrow> (rat \<times> int) option \<Rightarrow> int \<Rightarrow> rat" where
  "bucket_level rise burst e t = (case e of None \<Rightarrow> burst | Some (tokens, ts) \<Rightarrow> rise tokens (t - ts))"

definition entry_ok :: "rat \<Rightarrow> (rat \<times> int) option \<Rightarrow> int \<Rightarrow> bool" where
  "entry_ok burst e t = (case e of None \<Rightarrow> True | Some (tokens, ts) \<Rightarrow> 0 \<le> tokens \<and> tokens \<le> burst \<and> ts \<le> t)"

lemma entry_ok_mono: "entry_ok burst e t \<Longrightarrow> t \<le> t' \<Longrightarrow> entry_ok burst e t'"
  by (auto simp: entry_ok_def split: option.splits)

text \<open>The tokens of \<open>d\<close> units of time, with what rounding may add.\<close>

definition refilled :: "rat \<Rightarrow> int \<Rightarrow> rat" where
  "refilled rate d = rate * of_int d * (1 + 1 / 2 ^ 50)"

lemma refilled_add: "refilled rate (c - a) = refilled rate (b - a) + refilled rate (c - b)"
  unfolding refilled_def distrib_right [symmetric] distrib_left [symmetric] of_int_add [symmetric] by simp

lemma refilled_mono: "0 \<le> rate \<Longrightarrow> d \<le> d' \<Longrightarrow> refilled rate d \<le> refilled rate d'"
  unfolding refilled_def by (intro mult_right_mono mult_left_mono) auto

lemma refilled_0 [simp]: "refilled rate 0 = 0"
  by (simp add: refilled_def)

lemma refilled_nonneg: "0 \<le> rate \<Longrightarrow> 0 \<le> d \<Longrightarrow> 0 \<le> refilled rate d"
  by (simp add: refilled_def)

text \<open>A store whose entries all hold between no tokens and the burst, last touched in the past.\<close>

definition buckets_ok :: "('s \<Rightarrow> bool) \<Rightarrow> ('s \<Rightarrow> string \<Rightarrow> (rat \<times> int) option) \<Rightarrow> rat \<Rightarrow> 's \<Rightarrow> int \<Rightarrow> bool" where
  "buckets_ok ok entry burst s t \<longleftrightarrow> ok s \<and> (\<forall>k. entry_ok burst (entry s k) t)"

lemma buckets_ok_mono: "buckets_ok ok entry burst s t \<Longrightarrow> t \<le> t' \<Longrightarrow> buckets_ok ok entry burst s t'"
  by (auto simp: buckets_ok_def intro: entry_ok_mono)

text \<open>The store \<open>s\<close> is \<open>s'\<close> less some entries that have been idle.\<close>

definition forgot :: "('s \<Rightarrow> string \<Rightarrow> (rat \<times> int) option) \<Rightarrow> (int \<Rightarrow> bool) \<Rightarrow> 's \<Rightarrow> 's \<Rightarrow> int \<Rightarrow> bool" where
  "forgot entry idle s s' t \<longleftrightarrow> (\<forall>k. entry s k = entry s' k \<or>
     (entry s k = None \<and> (\<exists>x ts u. entry s' k = Some (x, ts) \<and> u \<le> t \<and> idle (u - ts))))"

lemma forgot_mono: "forgot entry idle s s' t \<Longrightarrow> t \<le> t' \<Longrightarrow> forgot entry idle s s' t'"
  unfolding forgot_def by (meson order_trans)

text \<open>What a bucket can have given by a time, rounding of the refill included.\<close>

definition potential :: "rat \<Rightarrow> rat \<Rightarrow> (rat \<times> int) option \<Rightarrow> int \<Rightarrow> rat" where
  "potential rate burst e t =
     (case e of None \<Rightarrow> burst | Some (x, ts) \<Rightarrow> x + refilled rate (t - ts))"

lemma potential_later:
  "0 \<le> rate \<Longrightarrow> t \<le> t' \<Longrightarrow> potential rate burst e t' \<le> potential rate burst e t + refilled rate (t' - t)"
  using refilled_nonneg [of rate "t' - t"] refilled_add [of rate t' "case e of Some (x, ts) \<Rightarrow> ts" t]
  by (auto simp: potential_def split: option.splits)

locale token_bucket =
  fixes allow :: "int \<Rightarrow> string \<Rightarrow> 's \<Rightarrow> bool \<times> 's"
    and forget :: "int \<Rightarrow> 's \<Rightarrow> 's"
    and ok :: "'s \<Rightarrow> bool"
    and entry :: "'s \<Rightarrow> string \<Rightarrow> (rat \<times> int) option"
    and rise :: "rat \<Rightarrow> int \<Rightarrow> rat"
    and idle :: "int \<Rightarrow> bool"
    and rate burst :: rat
  assumes burst_ge: "1 \<le> burst" and burst_float: "fl burst = burst" and rate_nonneg: "0 \<le> rate"
    and ok_allow: "ok s \<Longrightarrow> ok (snd (allow t k s))"
    and ok_forget: "ok s \<Longrightarrow> ok (forget t s)"
    and rise_bounds: "0 \<le> x \<Longrightarrow> x \<le> burst \<Longrightarrow> 0 \<le> d \<Longrightarrow> 0 \<le> rise x d \<and> rise x d \<le> burst"
    and rise_error: "0 \<le> x \<Longrightarrow> x \<le> burst \<Longrightarrow> 0 \<le> d \<Longrightarrow> rise x d \<le> x + refilled rate d + burst / 2 ^ 52"
    and idle_full: "idle d \<Longrightarrow> d \<le> d' \<Longrightarrow> 0 \<le> x \<Longrightarrow> x \<le> burst \<Longrightarrow> rise x d' = burst"
    and allow_iff: "ok s \<Longrightarrow> entry_ok burst (entry s k) t \<Longrightarrow> fst (allow t k s) \<longleftrightarrow> 1 \<le> bucket_level rise burst (entry s k) t"
    and entry_allow: "ok s \<Longrightarrow> entry_ok burst (entry s k) t \<Longrightarrow> entry (snd (allow t k s)) j =
        (if j = k then (let x = bucket_level rise burst (entry s k) t in Some (if 1 \<le> x then fl (x - 1) else x, t)) else entry s j)"
    and entry_forget: "ok s \<Longrightarrow> entry (forget t s) k =
        (case entry s k of Some (x, ts) \<Rightarrow> if idle (t - ts) then None else Some (x, ts) | None \<Rightarrow> None)"
begin

abbreviation inv :: "'s \<Rightarrow> int \<Rightarrow> bool" where
  "inv \<equiv> buckets_ok ok entry burst"

abbreviation level :: "'s \<Rightarrow> string \<Rightarrow> int \<Rightarrow> rat" where
  "level s k t \<equiv> bucket_level rise burst (entry s k) t"

lemma invD: "inv s t \<Longrightarrow> ok s" "inv s t \<Longrightarrow> entry_ok burst (entry s k) t"
  by (auto simp: buckets_ok_def)

lemma level_bounds: "inv s t \<Longrightarrow> 0 \<le> level s k t \<and> level s k t \<le> burst"
  using burst_ge rise_bounds invD(2) [of s t k] by (auto simp: bucket_level_def entry_ok_def split: option.splits)

lemma take_bounds:
  assumes "1 \<le> x" "x \<le> burst"
  shows "0 \<le> fl (x - 1)" "fl (x - 1) \<le> burst" "fl (x - 1) \<le> x - 1 + burst / 2 ^ 53"
proof -
  have e: "\<bar>fl (x - 1) - (x - 1)\<bar> \<le> (x - 1) / 2 ^ 53" using fl_error [of "x - 1"] assms by simp
  show "0 \<le> fl (x - 1)" using fl_nonneg assms by simp
  show "fl (x - 1) \<le> x - 1 + burst / 2 ^ 53" using e assms by (auto simp: abs_if split: if_splits)
  show "fl (x - 1) \<le> burst" using fl_mono [of "x - 1" burst] assms burst_float by simp
qed

lemma inv_allow: "inv s t \<Longrightarrow> inv (snd (allow t k s)) t"
  using level_bounds [of s t k] take_bounds [of "level s k t"]
  by (auto simp: buckets_ok_def ok_allow entry_allow Let_def) (auto simp: entry_ok_def)

lemma inv_forget: "inv s t \<Longrightarrow> inv (forget t s) t"
  by (auto simp: buckets_ok_def ok_forget entry_forget entry_ok_def split: option.splits)

text \<open>A forgotten entry had refilled, so that its absence is not noticed.\<close>

lemma level_forgot:
  assumes "forgot entry idle s s' t" "inv s' t"
  shows "level s k t = level s' k t"
proof -
  have "level s' k t = burst" if "entry s' k = Some (x, ts)" "u \<le> t" "idle (u - ts)" for x ts u
    using idle_full [OF that(3), of "t - ts" x] that invD(2) [OF assms(2), of k] by (simp add: bucket_level_def entry_ok_def)
  then show ?thesis using assms(1) [unfolded forgot_def, rule_format, of k] by (auto simp: bucket_level_def)
qed

lemma forgot_allow:
  assumes "forgot entry idle s s' t" "inv s t" "inv s' t"
  shows "fst (allow t k s) = fst (allow t k s')" "forgot entry idle (snd (allow t k s)) (snd (allow t k s')) t"
  using assms level_forgot [OF assms(1,3)] invD
  by (auto simp: allow_iff entry_allow forgot_def Let_def)

lemma forgot_forget:
  assumes "forgot entry idle s s' t" "inv s t"
  shows "forgot entry idle (forget t s) s' t"
  unfolding forgot_def
proof
  fix k
  show "entry (forget t s) k = entry s' k \<or>
     (entry (forget t s) k = None \<and> (\<exists>x ts u. entry s' k = Some (x, ts) \<and> u \<le> t \<and> idle (u - ts)))"
    using assms(1) [unfolded forgot_def, rule_format, of k] entry_forget [OF invD(1) [OF assms(2)], of t k]
    by (auto split: option.splits if_splits)
qed

lemma forgetting_unobservable:
  assumes "inv s t" "inv s' t" "forgot entry idle s s' t" "times_from t ps"
  shows "decisions allow forget ps s = decisions allow forget (filter is_req ps) s'"
  using assms
proof (induction ps arbitrary: s s' t)
  case (Cons p ps)
  then have t: "t \<le> op_time p" and rest: "times_from (op_time p) ps" by auto
  note i = buckets_ok_mono [OF Cons.prems(1) t] buckets_ok_mono [OF Cons.prems(2) t] forgot_mono [OF Cons.prems(3) t]
  show ?case
  proof (cases p)
    case (Req u k)
    with i rest have "inv s u" "inv s' u" "forgot entry idle s s' u" "times_from u ps" by auto
    then show ?thesis using Req forgot_allow [of s s' u k] Cons.IH [of "snd (allow u k s)" u "snd (allow u k s')"] inv_allow by simp
  next
    case (Forget u)
    with i rest have "inv s u" "inv s' u" "forgot entry idle s s' u" "times_from u ps" by auto
    then show ?thesis using Forget Cons.IH [of "forget u s" u s'] inv_forget forgot_forget by simp
  qed
qed simp

text \<open>One request: what it takes comes out of the potential of its bucket.\<close>

lemma potential_allow:
  assumes "inv s t"
  shows "of_bool (fst (allow t k s)) + potential rate burst (entry (snd (allow t k s)) k) t
       \<le> potential rate burst (entry s k) t + burst / 2 ^ 50"
proof -
  have lv: "level s k t \<le> potential rate burst (entry s k) t + burst / 2 ^ 52"
    using invD(2) [OF assms, of k] rise_error burst_ge
    by (auto simp: bucket_level_def potential_def entry_ok_def split: option.splits)
  have b: "burst / 2 ^ 52 + burst / 2 ^ 53 \<le> burst / 2 ^ 50" "0 \<le> burst / 2 ^ 53" using burst_ge by (auto simp: field_simps)
  have e: "entry (snd (allow t k s)) k = Some (if 1 \<le> level s k t then fl (level s k t - 1) else level s k t, t)"
    using entry_allow [OF invD [OF assms]] by (simp add: Let_def)
  show ?thesis
  proof (cases "1 \<le> level s k t")
    case True
    then show ?thesis using take_bounds(3) [of "level s k t"] level_bounds [OF assms, of k] lv b e allow_iff [OF invD [OF assms], of k]
      by (simp add: potential_def [of _ _ "Some _"])
  next
    case False
    then show ?thesis using lv b e allow_iff [OF invD [OF assms], of k] by (simp add: potential_def [of _ _ "Some _"])
  qed
qed

lemma admission_reqs:
  assumes "inv s t" "times_from t ps" "list_all is_req ps"
  shows "of_nat (admitted k (decisions allow forget ps s))
    \<le> potential rate burst (entry s k) t + refilled rate (last_time t ps - t) + burst * of_nat (requests k ps) / 2 ^ 50"
  using assms
proof (induction ps arbitrary: s t)
  case Nil
  have "0 \<le> potential rate burst (entry s k) t"
    using invD(2) [OF Nil(1), of k] refilled_nonneg [OF rate_nonneg] burst_ge by (auto simp: potential_def entry_ok_def split: option.splits)
  then show ?case by (simp add: admitted_def requests_def)
next
  case (Cons p ps)
  then obtain u j where p: "p = Req u j" by (cases p) auto
  with Cons.prems have t: "t \<le> u" and rest: "times_from u ps" by auto
  note i = buckets_ok_mono [OF Cons.prems(1) t]
  let ?s = "snd (allow u j s)"
  have IH: "of_nat (admitted k (decisions allow forget ps ?s))
    \<le> potential rate burst (entry ?s k) u + refilled rate (last_time u ps - u) + burst * of_nat (requests k ps) / 2 ^ 50"
    using Cons.IH [OF inv_allow [OF i] rest] Cons.prems by simp
  have time: "refilled rate (last_time u ps - t) = refilled rate (u - t) + refilled rate (last_time u ps - u)"
    by (rule refilled_add)
  have pot: "potential rate burst (entry s k) u \<le> potential rate burst (entry s k) t + refilled rate (u - t)"
    by (rule potential_later [OF rate_nonneg t])
  show ?case
  proof (cases "j = k")
    case True
    then have "burst * of_nat (requests k (p # ps)) / 2 ^ 50 = burst / 2 ^ 50 + burst * of_nat (requests k ps) / 2 ^ 50"
      "of_nat (admitted k (decisions allow forget (p # ps) s)) =
         of_bool (fst (allow u k s)) + (of_nat (admitted k (decisions allow forget ps ?s)) :: rat)"
      by (auto simp: p requests_def admitted_def distrib_left add_divide_distrib)
    moreover have "potential rate burst (entry ?s k) u = potential rate burst (entry (snd (allow u k s)) k) u" using True by simp
    ultimately show ?thesis using IH time pot potential_allow [OF i, of k] unfolding p last_time.simps op_time.simps by linarith
  next
    case False
    then have same: "requests k (Req u j # ps) = requests k ps"
      "admitted k (decisions allow forget (Req u j # ps) s) = admitted k (decisions allow forget ps ?s)"
      and "potential rate burst (entry ?s k) u = potential rate burst (entry s k) u"
      using entry_allow [OF invD [OF i], of j k] by (auto simp: requests_def admitted_def)
    with IH time pot show ?thesis unfolding p last_time.simps op_time.simps same by linarith
  qed
qed

text \<open>What a fresh store admits.\<close>

lemma admission_bound:
  assumes "inv s t" "entry s k = None" "times_from t ps"
  shows "of_nat (admitted k (decisions allow forget ps s))
    \<le> burst + refilled rate (last_time t ps - t) + burst * of_nat (requests k ps) / 2 ^ 50"
proof -
  let ?qs = "filter is_req ps"
  have "decisions allow forget ps s = decisions allow forget ?qs s"
    using forgetting_unobservable [OF assms(1) assms(1) _ assms(3)] by (simp add: forgot_def)
  moreover have "of_nat (admitted k (decisions allow forget ?qs s))
    \<le> burst + refilled rate (last_time t ?qs - t) + burst * of_nat (requests k ps) / 2 ^ 50"
    using admission_reqs [OF assms(1) times_from_filter [OF assms(3)], of k] assms(2) by (simp add: potential_def list_all_iff)
  moreover have "refilled rate (last_time t ?qs - t) \<le> refilled rate (last_time t ps - t)"
    using last_time_filter [OF assms(3)] rate_nonneg by (simp add: refilled_mono)
  ultimately show ?thesis by simp
qed

end

section \<open>The store of one replica\<close>

record tokenBucket =
  tbTokens :: rat
  tbLast :: gotime

record localBucketStore =
  buckets :: "(string, tokenBucket) gomap"
  lbRps :: rat
  lbBurst :: rat

definition newLocalBucketStore :: "rat \<Rightarrow> rat \<Rightarrow> localBucketStore" where
  "newLocalBucketStore rps burst = \<lparr>buckets = [], lbRps = rps, lbBurst = burst\<rparr>"

text \<open>\<^verbatim>\<open>Duration.Seconds\<close>, on durations that are not negative.\<close>

definition Seconds :: "duration \<Rightarrow> rat" where
  "Seconds d = fl (of_int (d div second) + fl (of_int (d mod second) / 1000000000))"

text \<open>The product and the sum of a refill. Go may fuse the two into one rounding, and does so on some
  machines: \<open>fma\<close> says whether it does.\<close>

definition mul_add :: "bool \<Rightarrow> rat \<Rightarrow> rat \<Rightarrow> rat \<Rightarrow> rat" where
  "mul_add fma z x y = (if fma then fl (z + x * y) else fl (z + fl (x * y)))"

definition local_allow_on :: "bool \<Rightarrow> gotime \<Rightarrow> string \<Rightarrow> localBucketStore \<Rightarrow> bool \<times> localBucketStore" where
  "local_allow_on fma now key s =
     (case gget (buckets s) key of
        None \<Rightarrow> (True, s\<lparr>buckets := gset key \<lparr>tbTokens = fl (lbBurst s - 1), tbLast = now\<rparr> (buckets s)\<rparr>)
      | Some b \<Rightarrow>
          let tokens = min (lbBurst s) (mul_add fma (tbTokens b) (Seconds (now - tbLast b)) (lbRps s)) in
          if tokens < 1 then (False, s\<lparr>buckets := gset key \<lparr>tbTokens = tokens, tbLast = now\<rparr> (buckets s)\<rparr>)
          else (True, s\<lparr>buckets := gset key \<lparr>tbTokens = fl (tokens - 1), tbLast = now\<rparr> (buckets s)\<rparr>))"

abbreviation local_allow :: "gotime \<Rightarrow> string \<Rightarrow> localBucketStore \<Rightarrow> bool \<times> localBucketStore" where
  "local_allow \<equiv> local_allow_on False"

text \<open>One tick of the reaper.\<close>

definition local_reap :: "gotime \<Rightarrow> localBucketStore \<Rightarrow> localBucketStore" where
  "local_reap now s =
     (let cutoff = now + - (10 * minute) in s\<lparr>buckets := filter (\<lambda>(k, b). \<not> tbLast b < cutoff) (buckets s)\<rparr>)"

section \<open>The shared script\<close>

text \<open>\<^verbatim>\<open>allowScript\<close> on the stored hash (\<open>tokens\<close> and \<open>ts\<close>, \<open>None\<close> when the key is not there): the reply and
  the hash it writes. Times are milliseconds. Redis prints a number of Lua with 17 significant digits,
  which read back give the same double, so that the stored \<open>tokens\<close> is the computed one.\<close>

definition allowScript :: "rat \<Rightarrow> rat \<Rightarrow> int \<Rightarrow> (rat \<times> int) option \<Rightarrow> bool \<times> (rat \<times> int)" where
  "allowScript rps burst now data =
     (case data of
        None \<Rightarrow> (True, (fl (burst - 1), now))
      | Some (tokens, ts) \<Rightarrow>
          let elapsed = fl (of_int (now - ts) / 1000);
              elapsed = (if elapsed < 0 then 0 else elapsed);
              tokens = min burst (fl (tokens + fl (elapsed * rps)))
          in if tokens \<ge> 1 then (True, (fl (tokens - 1), now)) else (False, (tokens, now)))"

definition ttlMs :: "rat \<Rightarrow> rat \<Rightarrow> int" where
  "ttlMs rps burst = (if rps > 0 then \<lceil>fl (fl (burst / rps) * 1000)\<rceil> + 1000 else 60000)"

text \<open>The keys of one limiter in Redis. The script runs atomically; every run renews the expiry of its
  key, so a key is dropped \<open>ttlMs\<close> after its last use.\<close>

record redisBuckets =
  hashes :: "(string, rat \<times> int) gomap"
  rbRps :: rat
  rbBurst :: rat

definition newRedisBuckets :: "rat \<Rightarrow> rat \<Rightarrow> redisBuckets" where
  "newRedisBuckets rps burst = \<lparr>hashes = [], rbRps = rps, rbBurst = burst\<rparr>"

definition redis_allow :: "int \<Rightarrow> string \<Rightarrow> redisBuckets \<Rightarrow> bool \<times> redisBuckets" where
  "redis_allow now key s =
     (case allowScript (rbRps s) (rbBurst s) now (gget (hashes s) key) of
        (allowed, h) \<Rightarrow> (allowed, s\<lparr>hashes := gset key h (hashes s)\<rparr>))"

definition redis_expire :: "int \<Rightarrow> redisBuckets \<Rightarrow> redisBuckets" where
  "redis_expire now s = s\<lparr>hashes := filter (\<lambda>(k, (tokens, ts)). \<not> ts + ttlMs (rbRps s) (rbBurst s) \<le> now) (hashes s)\<rparr>"

section \<open>Both stores keep the contract\<close>

definition local_entry :: "localBucketStore \<Rightarrow> string \<Rightarrow> (rat \<times> int) option" where
  "local_entry s k = map_option (\<lambda>b. (tbTokens b, tbLast b)) (gget (buckets s) k)"

definition local_ok :: "rat \<Rightarrow> rat \<Rightarrow> localBucketStore \<Rightarrow> bool" where
  "local_ok rps burst s \<longleftrightarrow> gomap_ok (buckets s) \<and> lbRps s = rps \<and> lbBurst s = burst"

definition local_rise :: "bool \<Rightarrow> rat \<Rightarrow> rat \<Rightarrow> rat \<Rightarrow> int \<Rightarrow> rat" where
  "local_rise fma rps burst x d = min burst (mul_add fma x (Seconds d) rps)"

definition redis_entry :: "redisBuckets \<Rightarrow> string \<Rightarrow> (rat \<times> int) option" where
  "redis_entry s k = gget (hashes s) k"

definition redis_ok :: "rat \<Rightarrow> rat \<Rightarrow> redisBuckets \<Rightarrow> bool" where
  "redis_ok rps burst s \<longleftrightarrow> gomap_ok (hashes s) \<and> rbRps s = rps \<and> rbBurst s = burst"

definition redis_rise :: "rat \<Rightarrow> rat \<Rightarrow> rat \<Rightarrow> int \<Rightarrow> rat" where
  "redis_rise rps burst x d = min burst (fl (x + fl (fl (of_int d / 1000) * rps)))"

text \<open>Rounding three times adds little to a product.\<close>

lemma rounded_thrice:
  assumes "0 \<le> x" "y \<le> x * (1 + 1 / 2 ^ 53) * (1 + 1 / 2 ^ 53)" "0 \<le> y" "0 \<le> r"
  shows "fl (y * r) \<le> r * x * (1 + 1 / 2 ^ 50)" "y * r \<le> r * x * (1 + 1 / 2 ^ 50)"
proof -
  let ?e = "1 + 1 / 2 ^ 53 :: rat"
  have yr: "y * r \<le> r * x * (?e * ?e)"
    using mult_left_mono [OF assms(2,4)] by (simp only: mult_ac)
  have c: "?e * ?e \<le> 1 + 1 / 2 ^ 50" "?e * ?e * ?e \<le> 1 + 1 / 2 ^ 50" by simp_all
  have rx: "0 \<le> r * x" using assms by simp
  show "y * r \<le> r * x * (1 + 1 / 2 ^ 50)" using yr mult_left_mono [OF c(1) rx] by linarith
  have "fl (y * r) \<le> y * r * ?e" using assms by (intro fl_upper) simp
  also have "\<dots> \<le> r * x * (?e * ?e) * ?e" using yr by (rule mult_right_mono) simp
  also have "\<dots> = r * x * (?e * ?e * ?e)" by (simp only: mult_ac)
  also have "\<dots> \<le> r * x * (1 + 1 / 2 ^ 50)" by (rule mult_left_mono [OF c(2) rx])
  finally show "fl (y * r) \<le> r * x * (1 + 1 / 2 ^ 50)" .
qed

lemma Seconds_nonneg: "0 \<le> d \<Longrightarrow> 0 \<le> Seconds d"
  unfolding Seconds_def by (intro fl_nonneg add_nonneg_nonneg) (auto intro: fl_nonneg)

lemma Seconds_upper:
  assumes "0 \<le> d"
  shows "Seconds d \<le> of_int d / 1000000000 * (1 + 1 / 2 ^ 53) * (1 + 1 / 2 ^ 53)"
proof -
  let ?e = "1 + 1 / 2 ^ 53 :: rat" and ?s = "of_int (d div second) :: rat" and ?n = "of_int (d mod second) / 1000000000 :: rat"
  have pos: "0 \<le> ?s" "0 \<le> ?n" using assms by auto
  have "of_int d = (of_int (d div second * second + d mod second) :: rat)" by simp
  then have d: "?s + ?n = of_int d / 1000000000" by (simp only: of_int_add of_int_mult) simp
  have "?s + fl ?n \<le> ?s * ?e + ?n * ?e" using fl_upper [OF pos(2)] pos by (intro add_mono) auto
  also have "\<dots> = of_int d / 1000000000 * ?e" unfolding d [symmetric] by (simp only: distrib_right)
  finally have "?s + fl ?n \<le> of_int d / 1000000000 * ?e" .
  moreover have "0 \<le> ?s + fl ?n" using pos fl_nonneg by (intro add_nonneg_nonneg) auto
  ultimately show ?thesis
    unfolding Seconds_def by (intro order_trans [OF fl_upper mult_right_mono]) auto
qed

lemma Seconds_idle: "600 * second \<le> d \<Longrightarrow> 600 \<le> Seconds d"
proof -
  assume d: "600 * second \<le> d"
  then have "600 \<le> d div second" by (simp add: zdiv_mono1 [of "600 * second" d second, simplified])
  then have "(600 :: rat) \<le> of_int (d div second)" by (metis of_int_le_iff of_int_numeral)
  moreover have "0 \<le> fl (of_int (d mod second) / 1000000000)" by (rule fl_nonneg) simp
  ultimately have "fl 600 \<le> Seconds d" unfolding Seconds_def by (intro fl_mono) auto
  then show ?thesis by simp
qed

text \<open>The parameters of a limiter: at least one token of burst, and a bucket that refills within the ten
  minutes after which the reaper forgets it and within the expiry of its key.\<close>

locale limiter =
  fixes rps burst :: rat
  assumes one_burst: "1 \<le> burst" and float_burst: "fl burst = burst" and rps_pos: "0 < rps"
    and refill: "burst \<le> 600 * rps" and expiry: "burst \<le> fl (fl (of_int (ttlMs rps burst) / 1000) * rps)"
begin

lemma local_rise_full:
  assumes "10 * minute < d" "0 \<le> x"
  shows "local_rise fma rps burst x d = burst"
proof -
  have "600 \<le> Seconds d" using assms(1) by (intro Seconds_idle) simp
  then have "600 * rps \<le> Seconds d * rps" using rps_pos by (intro mult_right_mono) auto
  with refill have m: "burst \<le> Seconds d * rps" by linarith
  then have "fl burst \<le> fl (Seconds d * rps)" using one_burst by (intro fl_mono) auto
  then have "burst \<le> x + fl (Seconds d * rps)" "burst \<le> x + Seconds d * rps" using assms(2) m float_burst by auto
  then have "fl burst \<le> fl (x + fl (Seconds d * rps))" "fl burst \<le> fl (x + Seconds d * rps)"
    using one_burst by (intro fl_mono; simp)+
  then show ?thesis by (simp add: local_rise_def mul_add_def float_burst)
qed

lemma redis_rise_full:
  assumes "ttlMs rps burst \<le> d" "0 \<le> x"
  shows "redis_rise rps burst x d = burst"
proof -
  have "0 \<le> fl (fl (burst / rps) * 1000)" using rps_pos one_burst by (intro fl_nonneg mult_nonneg_nonneg) simp_all
  then have "0 \<le> \<lceil>fl (fl (burst / rps) * 1000)\<rceil>" by linarith
  then have ttl: "0 \<le> ttlMs rps burst" using rps_pos by (simp add: ttlMs_def)
  have "fl (of_int (ttlMs rps burst) / 1000) \<le> fl (of_int d / 1000)" using assms(1) ttl by (intro fl_mono divide_right_mono) auto
  then have "fl (of_int (ttlMs rps burst) / 1000) * rps \<le> fl (of_int d / 1000) * rps" using rps_pos by (intro mult_right_mono) auto
  then have "fl (fl (of_int (ttlMs rps burst) / 1000) * rps) \<le> fl (fl (of_int d / 1000) * rps)"
    using rps_pos ttl by (intro fl_mono mult_nonneg_nonneg fl_nonneg) simp_all
  with expiry assms(2) have "burst \<le> x + fl (fl (of_int d / 1000) * rps)" by linarith
  then have "fl burst \<le> fl (x + fl (fl (of_int d / 1000) * rps))" using one_burst by (intro fl_mono) simp_all
  then show ?thesis by (simp add: redis_rise_def float_burst)
qed

lemma local_rise_bounds: "0 \<le> x \<Longrightarrow> 0 \<le> d \<Longrightarrow> 0 \<le> local_rise fma rps burst x d \<and> local_rise fma rps burst x d \<le> burst"
  using one_burst rps_pos
  by (auto simp: local_rise_def mul_add_def min_def intro!: fl_nonneg add_nonneg_nonneg mult_nonneg_nonneg Seconds_nonneg)

lemma redis_rise_bounds: "0 \<le> x \<Longrightarrow> 0 \<le> d \<Longrightarrow> 0 \<le> redis_rise rps burst x d \<and> redis_rise rps burst x d \<le> burst"
  using one_burst rps_pos by (auto simp: redis_rise_def min_def intro!: fl_nonneg add_nonneg_nonneg mult_nonneg_nonneg)

lemma local_rise_error:
  assumes "0 \<le> x" "0 \<le> d"
  shows "local_rise fma rps burst x d \<le> x + refilled (rps / 1000000000) d + burst / 2 ^ 52"
proof -
  have r: "refilled (rps / 1000000000) d = rps * (of_int d / 1000000000) * (1 + 1 / 2 ^ 50)" by (simp add: refilled_def)
  have "0 \<le> Seconds d * rps" using Seconds_nonneg [OF assms(2)] rps_pos by simp
  then have "min burst (fl (x + Seconds d * rps)) \<le> x + Seconds d * rps + burst / 2 ^ 52"
    "min burst (fl (x + fl (Seconds d * rps))) \<le> x + fl (Seconds d * rps) + burst / 2 ^ 52"
    using assms one_burst fl_nonneg by (intro fl_capped add_nonneg_nonneg; simp)+
  moreover have "0 \<le> (of_int d / 1000000000 :: rat)" "0 \<le> rps" using assms rps_pos by auto
  note up = rounded_thrice [OF this(1) Seconds_upper [OF assms(2)] Seconds_nonneg [OF assms(2)] this(2)]
  ultimately show ?thesis unfolding r local_rise_def mul_add_def by (cases fma; simp only: if_True if_False; linarith)
qed

lemma redis_rise_error:
  assumes "0 \<le> x" "0 \<le> d"
  shows "redis_rise rps burst x d \<le> x + refilled (rps / 1000) d + burst / 2 ^ 52"
proof -
  have r: "refilled (rps / 1000) d = rps * (of_int d / 1000) * (1 + 1 / 2 ^ 50)" by (simp add: refilled_def)
  have pos: "0 \<le> (of_int d / 1000 :: rat)" using assms by simp
  then have "fl (of_int d / 1000) \<le> of_int d / 1000 * (1 + 1 / 2 ^ 53) * (1 + 1 / 2 ^ 53)"
    by (intro order_trans [OF fl_upper]) (auto intro: mult_left_mono)
  note up = rounded_thrice(1) [OF pos this fl_nonneg [OF pos], of rps]
  have "min burst (fl (x + fl (fl (of_int d / 1000) * rps))) \<le> x + fl (fl (of_int d / 1000) * rps) + burst / 2 ^ 52"
    using assms one_burst rps_pos pos by (intro fl_capped add_nonneg_nonneg fl_nonneg mult_nonneg_nonneg) auto
  with up rps_pos show ?thesis unfolding r redis_rise_def by linarith
qed

end

lemma local_ok_steps:
  "local_ok rps burst s \<Longrightarrow> local_ok rps burst (snd (local_allow_on fma t k s))" "local_ok rps burst s \<Longrightarrow> local_ok rps burst (local_reap t s)"
  by (auto simp: local_ok_def local_allow_on_def local_reap_def Let_def split: option.splits)

lemma local_allow_entry:
  assumes "local_ok rps burst s" "1 \<le> burst"
  shows "fst (local_allow_on fma t k s) \<longleftrightarrow> 1 \<le> bucket_level (local_rise fma rps burst) burst (local_entry s k) t"
    and "local_entry (snd (local_allow_on fma t k s)) j =
      (if j = k then (let x = bucket_level (local_rise fma rps burst) burst (local_entry s k) t in Some (if 1 \<le> x then fl (x - 1) else x, t))
       else local_entry s j)"
  using assms by (auto simp: local_allow_on_def local_entry_def bucket_level_def local_ok_def local_rise_def Let_def split: option.splits)

lemma local_reap_entry:
  "local_ok rps burst s \<Longrightarrow> local_entry (local_reap t s) k =
     (case local_entry s k of Some (x, ts) \<Rightarrow> if 10 * minute < t - ts then None else Some (x, ts) | None \<Rightarrow> None)"
  using gget_filter_val [of "buckets s" "\<lambda>b. \<not> tbLast b < t + - (10 * minute)" k]
  by (auto simp: local_ok_def local_entry_def local_reap_def Let_def split: option.splits)

lemma redis_ok_steps:
  "redis_ok rps burst s \<Longrightarrow> redis_ok rps burst (snd (redis_allow t k s))" "redis_ok rps burst s \<Longrightarrow> redis_ok rps burst (redis_expire t s)"
  by (auto simp: redis_ok_def redis_allow_def redis_expire_def split: prod.splits)

lemma redis_allow_entry:
  assumes "redis_ok rps burst s" "1 \<le> burst" "entry_ok burst (redis_entry s k) t"
  shows "fst (redis_allow t k s) \<longleftrightarrow> 1 \<le> bucket_level (redis_rise rps burst) burst (redis_entry s k) t"
    and "redis_entry (snd (redis_allow t k s)) j =
      (if j = k then (let x = bucket_level (redis_rise rps burst) burst (redis_entry s k) t in Some (if 1 \<le> x then fl (x - 1) else x, t))
       else redis_entry s j)"
proof -
  have "\<not> fl (of_int (t - ts) / 1000) < 0" if "redis_entry s k = Some (x, ts)" for x ts
    using fl_nonneg [of "of_int (t - ts) / 1000"] assms(3) that by (simp add: entry_ok_def)
  then show "fst (redis_allow t k s) \<longleftrightarrow> 1 \<le> bucket_level (redis_rise rps burst) burst (redis_entry s k) t"
    "redis_entry (snd (redis_allow t k s)) j =
      (if j = k then (let x = bucket_level (redis_rise rps burst) burst (redis_entry s k) t in Some (if 1 \<le> x then fl (x - 1) else x, t))
       else redis_entry s j)"
    using assms(1,2)
    by (cases "gget (hashes s) k"; force simp: redis_allow_def allowScript_def redis_entry_def bucket_level_def redis_ok_def redis_rise_def Let_def
        split: prod.splits)+
qed

lemma redis_expire_entry:
  assumes "redis_ok rps burst s"
  shows "redis_entry (redis_expire t s) k =
     (case redis_entry s k of Some (x, ts) \<Rightarrow> if ttlMs rps burst \<le> t - ts then None else Some (x, ts) | None \<Rightarrow> None)"
proof -
  have "filter (\<lambda>(k, (tokens, ts)). \<not> ts + ttlMs (rbRps s) (rbBurst s) \<le> t) (hashes s) =
      filter (\<lambda>(k, v). \<not> snd v + ttlMs rps burst \<le> t) (hashes s)"
    using assms by (auto simp: redis_ok_def intro!: filter_cong)
  then show ?thesis
    using assms gget_filter_val [of "hashes s" "\<lambda>v. \<not> snd v + ttlMs rps burst \<le> t" k]
    by (auto simp: redis_ok_def redis_entry_def redis_expire_def split: option.splits)
qed

sublocale limiter \<subseteq> loc: token_bucket "local_allow_on fma" local_reap "local_ok rps burst" local_entry
    "local_rise fma rps burst" "\<lambda>d. 10 * minute < d" "rps / 1000000000" burst for fma
  by unfold_locales
    (use rps_pos one_burst float_burst local_rise_bounds local_rise_error local_rise_full in
      \<open>auto simp: local_allow_entry [where rps = rps and burst = burst] local_reap_entry local_ok_steps\<close>)

sublocale limiter \<subseteq> red: token_bucket redis_allow redis_expire "redis_ok rps burst" redis_entry
    "redis_rise rps burst" "\<lambda>d. ttlMs rps burst \<le> d" "rps / 1000" burst
  by unfold_locales
    (use rps_pos one_burst float_burst redis_rise_bounds redis_rise_error redis_rise_full in
      \<open>auto simp: redis_ok_steps redis_allow_entry [where rps = rps and burst = burst] redis_expire_entry\<close>)

text \<open>The two limiters of \<^verbatim>\<open>internal/api/server.go\<close>.\<close>

lemma ttlMs_limiters [simp]: "ttlMs 5 10 = 3000" "ttlMs 50 100 = 3000"
  by code_simp+

interpretation auth_limiter: limiter 5 10
  by unfold_locales (simp_all, code_simp?)

interpretation api_limiter: limiter 50 100
  by unfold_locales (simp_all, code_simp?)

section \<open>The middleware\<close>

text \<open>\<^verbatim>\<open>clientIP\<close>: the key of a request.\<close>

definition rl_clientIP :: "bool \<Rightarrow> Header \<Rightarrow> string \<Rightarrow> string" where
  "rl_clientIP trustXFF hdr remoteAddr =
     (let peer = (case split_host_port remoteAddr of Some (host, _) \<Rightarrow> host | None \<Rightarrow> remoteAddr);
          xff = hdr_Get hdr ''X-Forwarded-For'';
          first = trim_space (hd (split_byte CHR '','' xff));
          xr = trim_space (hdr_Get hdr ''X-Real-IP'')
      in if \<not> trustXFF then peer
         else if xff \<noteq> '''' \<and> first \<noteq> '''' then first
         else if xr \<noteq> '''' then xr
         else peer)"


text \<open>\<^verbatim>\<open>redisBucketStore.allow\<close>. The round trip gives an answer, or an error, whether the script ran and its
  reply was late or it did not run; after an error the replica's own buckets decide.\<close>

datatype redis_reply = Answered | ReplyLost | Unreachable

definition shared_allow :: "bool \<Rightarrow> redis_reply \<Rightarrow> gotime \<Rightarrow> string \<Rightarrow> redisBuckets \<times> localBucketStore \<Rightarrow> bool \<times> redisBuckets \<times> localBucketStore" where
  "shared_allow fma reply now key s =
     (let (res, r) = (if reply = Unreachable then (False, fst s) else redis_allow (unixMilli now) key (fst s)) in
      if reply = Answered then (res, r, snd s)
      else (case local_allow_on fma now key (snd s) of (b, l) \<Rightarrow> (b, r, l)))"

text \<open>Replicas that share one Redis, numbered, each with its own fallback. A decision is recorded with its
  author: \<open>None\<close> for Redis, \<open>Some i\<close> for the fallback of replica \<open>i\<close>.\<close>

datatype sh_op = Ask nat redis_reply gotime string | Reap nat gotime | Expire gotime

fun sh_time :: "sh_op \<Rightarrow> gotime" where
  "sh_time (Ask i r t k) = t"
| "sh_time (Reap i t) = t"
| "sh_time (Expire t) = t"

fun sh_times :: "gotime \<Rightarrow> sh_op list \<Rightarrow> bool" where
  "sh_times t [] = True"
| "sh_times t (p # ps) = (t \<le> sh_time p \<and> sh_times (sh_time p) ps)"

fun sh_last :: "gotime \<Rightarrow> sh_op list \<Rightarrow> gotime" where
  "sh_last t [] = t"
| "sh_last t (p # ps) = sh_last (sh_time p) ps"

fun shared_run :: "bool \<Rightarrow> sh_op list \<Rightarrow> redisBuckets \<times> (nat \<Rightarrow> localBucketStore) \<Rightarrow> (string \<times> nat option \<times> bool) list" where
  "shared_run fma [] s = []"
| "shared_run fma (Ask i reply t k # ps) (r, L) =
     (case shared_allow fma reply t k (r, L i) of
        (b, r', l') \<Rightarrow> (k, if reply = Answered then None else Some i, b) # shared_run fma ps (r', L(i := l')))"
| "shared_run fma (Reap i t # ps) (r, L) = shared_run fma ps (r, L(i := local_reap t (L i)))"
| "shared_run fma (Expire t # ps) (r, L) = shared_run fma ps (redis_expire (unixMilli t) r, L)"

definition admitted_by :: "nat option \<Rightarrow> string \<Rightarrow> (string \<times> nat option \<times> bool) list \<Rightarrow> nat" where
  "admitted_by a k ds = length (filter (\<lambda>d. d = (k, a, True)) ds)"

definition asks :: "string \<Rightarrow> sh_op list \<Rightarrow> nat" where
  "asks k ps = length (filter (\<lambda>p. case p of Ask i r t j \<Rightarrow> j = k | _ \<Rightarrow> False) ps)"

text \<open>What the shared buckets and the buckets of one replica see of a run.\<close>

fun redis_ops :: "sh_op list \<Rightarrow> rl_op list" where
  "redis_ops [] = []"
| "redis_ops (Ask i reply t k # ps) = (if reply = Unreachable then redis_ops ps else Req (unixMilli t) k # redis_ops ps)"
| "redis_ops (Reap i t # ps) = redis_ops ps"
| "redis_ops (Expire t # ps) = Forget (unixMilli t) # redis_ops ps"

fun local_ops :: "nat \<Rightarrow> sh_op list \<Rightarrow> rl_op list" where
  "local_ops i [] = []"
| "local_ops i (Ask j reply t k # ps) = (if j = i \<and> reply \<noteq> Answered then Req t k # local_ops i ps else local_ops i ps)"
| "local_ops i (Reap j t # ps) = (if j = i then Forget t # local_ops i ps else local_ops i ps)"
| "local_ops i (Expire t # ps) = local_ops i ps"

lemma admitted_simps [simp]:
  "admitted k [] = 0" "admitted k (d # ds) = of_bool (d = (k, True)) + admitted k ds"
  "admitted_by a k [] = 0" "admitted_by a k (e # es) = of_bool (e = (k, a, True)) + admitted_by a k es"
  by (auto simp: admitted_def admitted_by_def)

lemma by_redis: "admitted_by None k (shared_run fma ps (r, L)) \<le> admitted k (decisions redis_allow redis_expire (redis_ops ps) r)"
proof (induction ps arbitrary: r L)
  case (Cons p ps)
  show ?case
  proof (cases p)
    case (Ask i reply t j)
    obtain b r' where a: "redis_allow (unixMilli t) j r = (b, r')" by fastforce
    obtain b' l' where l: "local_allow_on fma t j (L i) = (b', l')" by fastforce
    show ?thesis by (cases reply) (auto simp: Ask a l shared_allow_def intro: Cons le_SucI)
  qed (use Cons in auto)
qed simp

lemma by_replica:
  "admitted_by (Some i) k (shared_run fma ps (r, L)) = admitted k (decisions (local_allow_on fma) local_reap (local_ops i ps) (L i))"
proof (induction ps arbitrary: r L)
  case (Cons p ps)
  show ?case
  proof (cases p)
    case (Ask j reply t h)
    obtain b' l' where l: "local_allow_on fma t h (L j) = (b', l')" by fastforce
    with Cons show ?thesis
      by (cases "redis_allow (unixMilli t) h r"; cases reply; cases "j = i") (auto simp: Ask shared_allow_def)
  qed (auto simp: Cons)
qed simp

lemma unixMilli_mono: "t \<le> u \<Longrightarrow> unixMilli t \<le> unixMilli u"
  by (simp add: unixMilli_def zdiv_mono1)

lemma times_from_weaken: "t \<le> u \<Longrightarrow> times_from u qs \<Longrightarrow> times_from t qs"
  by (cases qs) auto

lemma last_time_later: "t \<le> u \<Longrightarrow> last_time t qs \<le> last_time u qs"
  by (cases qs) auto

lemma redis_ops_times:
  "sh_times t ps \<Longrightarrow> times_from (unixMilli t) (redis_ops ps) \<and> last_time (unixMilli t) (redis_ops ps) \<le> unixMilli (sh_last t ps)"
proof (induction ps arbitrary: t)
  case (Cons p ps)
  then have t: "unixMilli t \<le> unixMilli (sh_time p)" and IH: "times_from (unixMilli (sh_time p)) (redis_ops ps)"
    "last_time (unixMilli (sh_time p)) (redis_ops ps) \<le> unixMilli (sh_last (sh_time p) ps)" by (auto intro: unixMilli_mono)
  show ?case using t IH times_from_weaken [OF t] last_time_later [OF t, of "redis_ops ps"] by (cases p) auto
qed simp

lemma local_ops_times: "sh_times t ps \<Longrightarrow> times_from t (local_ops i ps) \<and> last_time t (local_ops i ps) \<le> sh_last t ps"
proof (induction ps arbitrary: t)
  case (Cons p ps)
  then have t: "t \<le> sh_time p" and IH: "times_from (sh_time p) (local_ops i ps)" "last_time (sh_time p) (local_ops i ps) \<le> sh_last (sh_time p) ps"
    by auto
  show ?case using t IH times_from_weaken [OF t] last_time_later [OF t, of "local_ops i ps"] by (cases p) auto
qed simp

lemma ops_requests: "requests k (redis_ops ps) \<le> asks k ps" "requests k (local_ops i ps) \<le> asks k ps"
proof -
  have "requests k (redis_ops ps) \<le> asks k ps \<and> requests k (local_ops i ps) \<le> asks k ps"
    by (induction ps rule: redis_ops.induct) (auto simp: requests_def asks_def le_SucI split: if_splits)
  then show "requests k (redis_ops ps) \<le> asks k ps" "requests k (local_ops i ps) \<le> asks k ps" by auto
qed

lemma unixMilli_diff: "(of_int (unixMilli u - unixMilli t) :: rat) / 1000 \<le> of_int (u - t) / 1000000000 + 1 / 1000"
proof -
  have "unixMilli u * millisecond \<le> u - 62135596800 * second" "t - 62135596800 * second < unixMilli t * millisecond + millisecond"
    unfolding unixMilli_def by (auto simp: minus_mod_eq_div_mult [symmetric] mod_less)
  then have "(unixMilli u - unixMilli t) * 1000000 \<le> (u - t) + 1000000" by (simp add: left_diff_distrib)
  then have "(of_int ((unixMilli u - unixMilli t) * 1000000) :: rat) \<le> of_int ((u - t) + 1000000)" by (simp only: of_int_le_iff)
  then show ?thesis by (simp add: field_simps)
qed

lemma allowance_mono: "0 \<le> rps \<Longrightarrow> 0 \<le> burst \<Longrightarrow> T \<le> T' \<Longrightarrow> n \<le> n' \<Longrightarrow> allowance rps burst T n \<le> allowance rps burst T' n'"
  unfolding allowance_def by (intro add_mono order_refl mult_right_mono mult_left_mono divide_right_mono) auto

section \<open>Properties\<close>

lemma new_stores:
  "buckets_ok (local_ok rps burst) local_entry burst (newLocalBucketStore rps burst) t" "local_entry (newLocalBucketStore rps burst) k = None"
  "buckets_ok (redis_ok rps burst) redis_entry burst (newRedisBuckets rps burst) t" "redis_entry (newRedisBuckets rps burst) k = None"
  by (auto simp: buckets_ok_def local_ok_def local_entry_def newLocalBucketStore_def entry_ok_def redis_ok_def redis_entry_def newRedisBuckets_def)

context limiter
begin

lemma reaper_unobservable:
  "times_from t ps \<Longrightarrow> decisions (local_allow_on fma) local_reap ps (newLocalBucketStore rps burst) =
     decisions (local_allow_on fma) local_reap (filter is_req ps) (newLocalBucketStore rps burst)"
  by (rule loc.forgetting_unobservable [OF new_stores(1) new_stores(1)]) (auto simp: forgot_def)

lemma expiry_unobservable:
  "times_from t ps \<Longrightarrow> decisions redis_allow redis_expire ps (newRedisBuckets rps burst) =
     decisions redis_allow redis_expire (filter is_req ps) (newRedisBuckets rps burst)"
  by (rule red.forgetting_unobservable [OF new_stores(3) new_stores(3)]) (auto simp: forgot_def)

lemma local_bound:
  "times_from t ps \<Longrightarrow> of_nat (admitted k (decisions (local_allow_on fma) local_reap ps (newLocalBucketStore rps burst)))
     \<le> allowance rps burst (of_int (last_time t ps - t) / 1000000000) (requests k ps)"
  using loc.admission_bound [OF new_stores(1) new_stores(2), of t ps k fma] by (simp add: allowance_def refilled_def)

lemma redis_bound:
  "times_from t ps \<Longrightarrow> of_nat (admitted k (decisions redis_allow redis_expire ps (newRedisBuckets rps burst)))
     \<le> allowance rps burst (of_int (last_time t ps - t) / 1000) (requests k ps)"
  using red.admission_bound [OF new_stores(3) new_stores(4), of t ps k] by (simp add: allowance_def refilled_def)

lemma shared_bound:
  assumes "sh_times t ps"
  shows "of_nat (admitted_by None k (shared_run fma ps (newRedisBuckets rps burst, \<lambda>i. newLocalBucketStore rps burst)))
       \<le> allowance rps burst (of_int (sh_last t ps - t) / 1000000000 + 1 / 1000) (asks k ps)"
proof -
  have "(of_int (last_time (unixMilli t) (redis_ops ps) - unixMilli t) / 1000 :: rat) \<le> of_int (unixMilli (sh_last t ps) - unixMilli t) / 1000"
    using redis_ops_times [OF assms] by (intro divide_right_mono) auto
  also have "\<dots> \<le> of_int (sh_last t ps - t) / 1000000000 + 1 / 1000" by (rule unixMilli_diff)
  finally have "allowance rps burst (of_int (last_time (unixMilli t) (redis_ops ps) - unixMilli t) / 1000) (requests k (redis_ops ps))
      \<le> allowance rps burst (of_int (sh_last t ps - t) / 1000000000 + 1 / 1000) (asks k ps)"
    using rps_pos one_burst ops_requests by (intro allowance_mono) auto
  moreover note redis_bound [of "unixMilli t" "redis_ops ps" k] redis_ops_times [OF assms]
  moreover have "of_nat (admitted_by None k (shared_run fma ps (newRedisBuckets rps burst, \<lambda>i. newLocalBucketStore rps burst)))
      \<le> (of_nat (admitted k (decisions redis_allow redis_expire (redis_ops ps) (newRedisBuckets rps burst))) :: rat)"
    using by_redis by (simp only: of_nat_le_iff)
  ultimately show ?thesis by linarith
qed

lemma fallback_bound:
  assumes "sh_times t ps"
  shows "of_nat (admitted_by (Some i) k (shared_run fma ps (newRedisBuckets rps burst, \<lambda>i. newLocalBucketStore rps burst)))
       \<le> allowance rps burst (of_int (sh_last t ps - t) / 1000000000) (asks k ps)"
proof -
  have "allowance rps burst (of_int (last_time t (local_ops i ps) - t) / 1000000000) (requests k (local_ops i ps))
      \<le> allowance rps burst (of_int (sh_last t ps - t) / 1000000000) (asks k ps)"
    using rps_pos one_burst ops_requests local_ops_times [OF assms] by (intro allowance_mono divide_right_mono) auto
  with local_bound [of t "local_ops i ps" k fma] local_ops_times [OF assms, of i] show ?thesis by (simp add: by_replica)
qed

end

text \<open>C22. Forgetting is not observable. For the two limiters of the control plane, at times that do not go
  back, the answers to a sequence of requests do not depend on when the reaper of the in-process store
  runs nor on when Redis drops a key that has reached its expiry: they are the answers of a store that
  never forgets, to the last bit of the \<^verbatim>\<open>float64\<close> arithmetic.\<close>

theorem forgetting_is_unobservable:
  assumes "(rps, burst) \<in> {(5, 10), (50, 100)}" "times_from t ps"
  shows "decisions (local_allow_on fma) local_reap ps (newLocalBucketStore rps burst) =
           decisions (local_allow_on fma) local_reap (filter is_req ps) (newLocalBucketStore rps burst)
       \<and> decisions redis_allow redis_expire ps (newRedisBuckets rps burst) =
           decisions redis_allow redis_expire (filter is_req ps) (newRedisBuckets rps burst)"
  using assms auth_limiter.reaper_unobservable api_limiter.reaper_unobservable auth_limiter.expiry_unobservable api_limiter.expiry_unobservable
  by blast

theorem forgetting_is_unobservable_witness:
  "decisions local_allow local_reap [Req 0 ''a'', Forget 700000000000, Req 700000000001 ''a''] (newLocalBucketStore 5 10) =
   decisions local_allow local_reap [Req 0 ''a'', Req 700000000001 ''a''] (newLocalBucketStore 5 10)"
  using forgetting_is_unobservable [of 5 10 0 "[Req 0 ''a'', Forget 700000000000, Req 700000000001 ''a'']" False] by simp

text \<open>C23. The limiters bound what a client can do. On a clock that does not go back, the authentication limiter
  (five a second, burst ten) and the limiter of the API (fifty a second, burst a hundred) admit at most
  the burst plus the rate times the elapsed time of one client, up to the rounding of \<^verbatim>\<open>float64\<close> (one part
  in \<open>2\<^sup>5\<^sup>0\<close>, per request for the burst): so does a store in the process, so do the buckets on
  Redis for all replicas that share them together (with the clock read in milliseconds), and so does
  the fallback of each replica on its own while Redis does not answer it.\<close>

theorem limiter_admission_bound:
  assumes "(rps, burst) \<in> {(5, 10), (50, 100)}" "times_from t ps" "sh_times t qs"
  shows "of_nat (admitted k (decisions (local_allow_on fma) local_reap ps (newLocalBucketStore rps burst)))
           \<le> allowance rps burst (of_int (last_time t ps - t) / 1000000000) (requests k ps)
       \<and> of_nat (admitted_by None k (shared_run fma qs (newRedisBuckets rps burst, \<lambda>i. newLocalBucketStore rps burst)))
           \<le> allowance rps burst (of_int (sh_last t qs - t) / 1000000000 + 1 / 1000) (asks k qs)
       \<and> of_nat (admitted_by (Some i) k (shared_run fma qs (newRedisBuckets rps burst, \<lambda>i. newLocalBucketStore rps burst)))
           \<le> allowance rps burst (of_int (sh_last t qs - t) / 1000000000) (asks k qs)"
  using assms(1) auth_limiter.local_bound [OF assms(2)] api_limiter.local_bound [OF assms(2)]
    auth_limiter.shared_bound [OF assms(3)] api_limiter.shared_bound [OF assms(3)]
    auth_limiter.fallback_bound [OF assms(3)] api_limiter.fallback_bound [OF assms(3)]
  by blast

theorem limiter_admission_bound_witness:
  "of_nat (admitted ''a'' (decisions local_allow local_reap [Req 0 ''a'', Req 5 ''a''] (newLocalBucketStore 5 10)))
     \<le> allowance 5 10 (of_int 5 / 1000000000) 2
   \<and> of_nat (admitted_by None ''a'' (shared_run False [Ask 0 Answered 0 ''a'', Ask 1 ReplyLost 7 ''a''] (newRedisBuckets 5 10, \<lambda>i. newLocalBucketStore 5 10)))
     \<le> allowance 5 10 (of_int 7 / 1000000000 + 1 / 1000) 2"
proof -
  let ?ps = "[Req 0 ''a'', Req 5 ''a'']" and ?qs = "[Ask 0 Answered 0 ''a'', Ask 1 ReplyLost 7 ''a'']"
  have h: "(5 :: rat, 10 :: rat) \<in> {(5, 10), (50, 100)}" "times_from 0 ?ps" "sh_times 0 ?qs" by simp_all
  have n: "requests ''a'' ?ps = 2" "asks ''a'' ?qs = 2" "last_time 0 ?ps - 0 = 5" "sh_last 0 ?qs - 0 = 7"
    by (simp_all add: requests_def asks_def)
  show ?thesis using limiter_admission_bound [OF h, of "''a''" False 0] unfolding n by blast
qed

end
