(* ===== verification/Router.thy ===== *)
theory Router
  imports OAuth Admin Remote Rpc RateLimit "HOL-Library.Char_ord" "HOL-Library.List_Lexorder"
begin

text \<open>
  The control plane as a whole (\<^verbatim>\<open>internal/api/server.go\<close>): its state, the route table with the middleware of every
  group, and one function that serves a request, in the configuration without a database and without Redis.
  The public handlers for plans and regions are here too (\<^verbatim>\<open>handlers_plans_public.go\<close>, \<^verbatim>\<open>handlers_geo.go\<close>).
  The router package is not part of the sources: the matching of a method and a path against the table
  follows its documentation, with the path given as its segments.
\<close>

section \<open>Public endpoints\<close>

definition securityHeaders :: "ApiConfig \<Rightarrow> Header \<Rightarrow> Header" where
  "securityHeaders c h =
     (let h1 = hdr_Set ''Cross-Origin-Opener-Policy'' ''same-origin'' (hdr_Set ''Referrer-Policy'' ''no-referrer''
                 (hdr_Set ''X-Frame-Options'' ''DENY'' (hdr_Set ''X-Content-Type-Options'' ''nosniff'' h)))
      in if IsProduction c then hdr_Set ''Strict-Transport-Security'' ''max-age=63072000; includeSubDomains'' h1 else h1)"

definition SortRegions :: "Region list \<Rightarrow> Region list" where
  "SortRegions rs = sort_key rgCode rs"

definition handleListRegions :: "GeoService \<Rightarrow> Region list" where
  "handleListRegions g = SortRegions (Geo.Regions g)"

record geoView =
  gvIP :: string
  gvLocation :: Location
  gvRegion :: Region
  gvRegions :: "Region list"
  gvDetected :: bool

definition handleGeo ::
  "provider \<Rightarrow> (string \<Rightarrow> providerResponse option) \<Rightarrow> ApiConfig \<Rightarrow> gotime \<Rightarrow> Header \<Rightarrow> string \<Rightarrow> string \<Rightarrow> GeoService \<Rightarrow> geoView \<times> GeoService" where
  "handleGeo http dec c t hdr remoteAddr qip g =
     (let ip = (if DevAuth c \<and> qip \<noteq> '''' then qip else rl_clientIP (TrustProxy c) hdr remoteAddr) in
      case FromRequest http dec t hdr ip g of
        ((loc, urls), g') \<Rightarrow>
          (\<lparr>gvIP = loIP loc, gvLocation = loc, gvRegion = Nearest g' loc, gvRegions = SortRegions (Geo.Regions g'), gvDetected = Known loc\<rparr>, g'))"

record publicPlan =
  ppCode :: string
  ppName :: string
  ppMaxConcurrentTunnels :: int
  ppMaxBandwidthBytesMo :: int
  ppMaxRequestsMo :: int
  ppMaxReservedSubdomains :: int
  ppMaxCustomDomains :: int
  ppAllowCustomDomains :: bool
  ppAllowTCP :: bool
  ppAllowTLS :: bool
  ppAllowUDP :: bool
  ppRateLimitRPS :: int
  ppInspectorHistory :: duration
  ppMeteredSeats :: bool
  ppPriceMonthlyCents :: int
  ppPriceAnnualCents :: int

definition public_plan :: "Plan \<Rightarrow> publicPlan" where
  "public_plan p =
     \<lparr>ppCode = pCode p, ppName = pName p, ppMaxConcurrentTunnels = pMaxConcurrentTunnels p,
      ppMaxBandwidthBytesMo = pMaxBandwidthBytesMo p, ppMaxRequestsMo = pMaxRequestsMo p,
      ppMaxReservedSubdomains = pMaxReservedSubdomains p, ppMaxCustomDomains = pMaxCustomDomains p,
      ppAllowCustomDomains = pAllowCustomDomains p, ppAllowTCP = pAllowTCP p, ppAllowTLS = pAllowTLS p, ppAllowUDP = pAllowUDP p,
      ppRateLimitRPS = pRateLimitRPS p, ppInspectorHistory = pInspectorHistory p, ppMeteredSeats = pMeteredSeats p,
      ppPriceMonthlyCents = pPriceMonthlyCents p, ppPriceAnnualCents = pPriceAnnualCents p\<rparr>"

definition planDisplayRank :: "string \<Rightarrow> int" where
  "planDisplayRank code =
     (case gget [(PlanFree, 0), (PlanPro, 1), (PlanTeam, 2), (PlanPAYG, 3)] code of Some n \<Rightarrow> n | None \<Rightarrow> 0)"

definition handleListPlansPublic :: "publicPlan list" where
  "handleListPlansPublic = sort_key (\<lambda>p. planDisplayRank (ppCode p)) (map (\<lambda>(k, p). public_plan p) Catalog)"

definition storeKind :: "ApiConfig \<Rightarrow> string" where
  "storeKind c = (if DatabaseURL c \<noteq> '''' then ''postgres'' else ''memory'')"

section \<open>State, requests, answers\<close>

record Control =
  ctApi :: Api
  ctBilling :: BillingConfig
  ctGeo :: GeoService
  ctRemote :: remoteHub
  ctAuthLimiter :: localBucketStore
  ctApiLimiter :: localBucketStore

abbreviation ctStore :: "Control \<Rightarrow> MemStore" where "ctStore ct \<equiv> aStore (ctApi ct)"
abbreviation ctCfg :: "Control \<Rightarrow> ApiConfig" where "ctCfg ct \<equiv> aCfg (ctApi ct)"

text \<open>\<^verbatim>\<open>New\<close>: \<open>pr\<close> decodes the configured regions; a value that does not decode is ignored.\<close>

definition newControl :: "(string \<Rightarrow> string + Region list) \<Rightarrow> ApiConfig \<Rightarrow> BillingConfig \<Rightarrow> Control" where
  "newControl pr c bc =
     \<lparr>ctApi = \<lparr>aCfg = c, aAuth = newAuthCfg (JWTSecret c), aStore = NewMemStore, aRev = newMemRevoker,
               aDev = newDeviceStore, aStates = newMemStateStore\<rparr>,
      ctBilling = bc,
      ctGeo = newGeo \<lparr>gcHeader = GeoIPHeader c, gcAPIURL = GeoIPAPI c, gcCacheTTL = 0,
                      gcRegions = (case ParseRegions pr (ApiConfig.Regions c) of Inr rs \<Rightarrow> rs | Inl _ \<Rightarrow> [])\<rparr>,
      ctRemote = newRemoteHub,
      ctAuthLimiter = newLocalBucketStore 5 10, ctApiLimiter = newLocalBucketStore 50 100\<rparr>"

record HttpReq =
  hqMethod :: string
  hqPath :: "string list"
  hqHost :: string
  hqHeader :: Header
  hqRemoteAddr :: string
  hqQuery :: "string \<Rightarrow> string"
  hqCookie :: "string \<Rightarrow> string option"
  hqBody :: string

text \<open>What a request draws from its surroundings, and the code outside the sources.\<close>

record CpDraw =
  cdDraw :: Draw
  cdRowID :: string
  cdToken :: "byte list"
  cdBytes1 :: "byte list"
  cdBytes2 :: "byte list"

abbreviation cdNow :: "CpDraw \<Rightarrow> gotime" where "cdNow d \<equiv> dNow (cdDraw d)"

record CpEnv =
  ceSign :: jwt_sign
  ceParse :: jwt_parse
  ceIdkey :: idkey
  ceHmac :: hmac
  ceStripe :: StripeAPI
  ceEvent :: "string \<Rightarrow> StripeEvent option"
  ceOAuth :: OAuthNet
  ceUrlEnc :: "(string, string) gomap \<Rightarrow> string"
  ceTxt :: "gotime \<Rightarrow> string \<Rightarrow> string list option"
  ceGeoHttp :: provider
  ceGeoDec :: "string \<Rightarrow> providerResponse option"
  ceStr :: "string list \<Rightarrow> string \<Rightarrow> (string \<Rightarrow> string) option"
  ceGrant :: "string \<Rightarrow> (string \<times> string \<times> int) option"
  ceRemote :: "string \<Rightarrow> remoteEvent option"
  ceJson :: "string \<Rightarrow> json option"

text \<open>\<^verbatim>\<open>decode\<close> reads at most 1 MiB of the body; \<open>ceStr\<close> decodes a JSON object with the named string fields.\<close>

definition decode :: "CpEnv \<Rightarrow> string list \<Rightarrow> HttpReq \<Rightarrow> (string \<Rightarrow> string) option" where
  "decode v fs q = ceStr v fs (take (2 ^ 20) (hqBody q))"

definition decode1 :: "CpEnv \<Rightarrow> string \<Rightarrow> HttpReq \<Rightarrow> string option" where
  "decode1 v f q = map_option (\<lambda>b. b f) (decode v [f] q)"

datatype reply =
    RError nat string
  | RText string
  | RStatus int string
  | RUnit nat
  | RPage
  | RPublicPlans "publicPlan list"
  | RPlans "Plan list"
  | RRegions "Region list"
  | RGeo geoView
  | RAuth authResponse
  | RTokens Tokens
  | RRedirect string
  | RDevice string string
  | RDeviceKey string
  | RAccount accountView
  | RMe meView
  | RNewKey newKeyView
  | RKeys "keyView list"
  | RSubdomain ReservedSubdomain
  | RSubdomains "ReservedSubdomain list"
  | RNewDomain domainView
  | RDomain CustomDomain
  | RDomains "CustomDomain list"
  | RUsage usageView
  | RUsageHistory string gotime "UsageBucket list"
  | ROrgs "Org list"
  | RTunnels "TunnelSession list"
  | RHistory historyView
  | RSubscription string bool "Subscription option"
  | RRemote string string gotime
  | RStream nat nat
  | ROrgView orgView
  | RStats statsView
  | RUserRows "userRow list" int int
  | ROrgRows "orgRow list" int int
  | RRpc int rpc_body

section \<open>The route table\<close>

datatype root_ep = EpHealthz | EpRoot | EpOpenAPI | EpStatus | EpDocs | EpAdminPage | EpAdminLogout | EpAdminLogin

datatype public_ep = EpPlansPublic | EpRegions | EpGeo | EpWebhook | EpRemoteViewer | EpRemoteCommand

datatype login_ep =
    EpSignup | EpLogin | EpRefresh | EpOAuthStart | EpOAuthCallback | EpLogout | EpDeviceCode | EpDeviceToken

datatype account_ep =
    EpAccount | EpMe | EpDeviceApprove
  | EpListAPIKeys | EpCreateAPIKey | EpRevokeAPIKey
  | EpListSubdomains | EpReserveSubdomain | EpReleaseSubdomain
  | EpListDomains | EpAddDomain | EpVerifyDomain
  | EpUsage | EpUsageHistory | EpListOrgs | EpListTunnels | EpTunnelHistory | EpListPlans
  | EpCheckout | EpPortal | EpSubscription
  | EpRemoteCreate | EpRemoteAgent | EpRemotePublish | EpRemoteEnd

datatype admin_ep =
    EpAdminSession | EpAdminLookup | EpAdminGrant | EpAdminRevoke | EpAdminStats | EpAdminUsers | EpAdminOrgs | EpAdminTunnels

datatype endpoint = RootEp root_ep | PublicEp public_ep | LoginEp login_ep | AccountEp account_ep | AdminEp admin_ep | RpcEp string

datatype guard = Public | Strict | Authenticated | AdminOnly | Internal

datatype seg = Lit string | Param

record route =
  rtMethod :: string
  rtPath :: "seg list"
  rtGuard :: guard
  rtEnd :: endpoint

definition mk :: "guard \<Rightarrow> string \<Rightarrow> seg list \<Rightarrow> endpoint \<Rightarrow> route" where
  "mk g meth path ep = \<lparr>rtMethod = meth, rtPath = path, rtGuard = g, rtEnd = ep\<rparr>"

definition root_routes :: "ApiConfig \<Rightarrow> route list" where
  "root_routes c =
     [mk Public ''GET'' [Lit ''healthz''] (RootEp EpHealthz),
      mk Public ''GET'' [] (RootEp EpRoot),
      mk Public ''GET'' [Lit ''openapi.yaml''] (RootEp EpOpenAPI)] @
     (if \<not> IsProduction c
      then [mk Public ''GET'' [Lit ''status''] (RootEp EpStatus), mk Public ''GET'' [Lit ''docs''] (RootEp EpDocs)] else []) @
     [mk Public ''GET'' [Lit ''admin''] (RootEp EpAdminPage),
      mk Public ''POST'' [Lit ''admin'', Lit ''logout''] (RootEp EpAdminLogout),
      mk Strict ''POST'' [Lit ''admin'', Lit ''login''] (RootEp EpAdminLogin)]"

definition public_routes :: "route list" where
  "public_routes =
     [mk Public ''GET'' [Lit ''plans'', Lit ''public''] (PublicEp EpPlansPublic),
      mk Public ''GET'' [Lit ''regions''] (PublicEp EpRegions),
      mk Public ''GET'' [Lit ''geo''] (PublicEp EpGeo),
      mk Public ''POST'' [Lit ''billing'', Lit ''webhooks''] (PublicEp EpWebhook),
      mk Public ''GET'' [Lit ''remote'', Lit ''sessions'', Param, Lit ''viewer''] (PublicEp EpRemoteViewer),
      mk Public ''POST'' [Lit ''remote'', Lit ''sessions'', Param, Lit ''command''] (PublicEp EpRemoteCommand)]"

definition login_routes :: "route list" where
  "login_routes =
     [mk Strict ''POST'' [Lit ''auth'', Lit ''signup''] (LoginEp EpSignup),
      mk Strict ''POST'' [Lit ''auth'', Lit ''login''] (LoginEp EpLogin),
      mk Strict ''POST'' [Lit ''auth'', Lit ''refresh''] (LoginEp EpRefresh),
      mk Strict ''GET'' [Lit ''auth'', Lit ''oauth'', Param] (LoginEp EpOAuthStart),
      mk Strict ''GET'' [Lit ''auth'', Lit ''oauth'', Param, Lit ''callback''] (LoginEp EpOAuthCallback),
      mk Strict ''POST'' [Lit ''auth'', Lit ''logout''] (LoginEp EpLogout),
      mk Strict ''POST'' [Lit ''auth'', Lit ''device'', Lit ''code''] (LoginEp EpDeviceCode),
      mk Strict ''POST'' [Lit ''auth'', Lit ''device'', Lit ''token''] (LoginEp EpDeviceToken)]"

definition account_routes :: "route list" where
  "account_routes =
     [mk Authenticated ''GET'' [Lit ''account''] (AccountEp EpAccount),
      mk Authenticated ''GET'' [Lit ''me''] (AccountEp EpMe),
      mk Authenticated ''POST'' [Lit ''auth'', Lit ''device'', Lit ''approve''] (AccountEp EpDeviceApprove),
      mk Authenticated ''GET'' [Lit ''api-keys''] (AccountEp EpListAPIKeys),
      mk Authenticated ''POST'' [Lit ''api-keys''] (AccountEp EpCreateAPIKey),
      mk Authenticated ''DELETE'' [Lit ''api-keys'', Param] (AccountEp EpRevokeAPIKey),
      mk Authenticated ''GET'' [Lit ''subdomains''] (AccountEp EpListSubdomains),
      mk Authenticated ''POST'' [Lit ''subdomains''] (AccountEp EpReserveSubdomain),
      mk Authenticated ''DELETE'' [Lit ''subdomains'', Param] (AccountEp EpReleaseSubdomain),
      mk Authenticated ''GET'' [Lit ''domains''] (AccountEp EpListDomains),
      mk Authenticated ''POST'' [Lit ''domains''] (AccountEp EpAddDomain),
      mk Authenticated ''POST'' [Lit ''domains'', Param, Lit ''verify''] (AccountEp EpVerifyDomain),
      mk Authenticated ''GET'' [Lit ''usage''] (AccountEp EpUsage),
      mk Authenticated ''GET'' [Lit ''usage'', Lit ''history''] (AccountEp EpUsageHistory),
      mk Authenticated ''GET'' [Lit ''orgs''] (AccountEp EpListOrgs),
      mk Authenticated ''GET'' [Lit ''tunnels''] (AccountEp EpListTunnels),
      mk Authenticated ''GET'' [Lit ''tunnels'', Lit ''history''] (AccountEp EpTunnelHistory),
      mk Authenticated ''GET'' [Lit ''plans''] (AccountEp EpListPlans),
      mk Authenticated ''POST'' [Lit ''billing'', Lit ''checkout''] (AccountEp EpCheckout),
      mk Authenticated ''POST'' [Lit ''billing'', Lit ''portal''] (AccountEp EpPortal),
      mk Authenticated ''GET'' [Lit ''billing'', Lit ''subscription''] (AccountEp EpSubscription),
      mk Authenticated ''POST'' [Lit ''remote'', Lit ''sessions''] (AccountEp EpRemoteCreate),
      mk Authenticated ''GET'' [Lit ''remote'', Lit ''sessions'', Param, Lit ''agent''] (AccountEp EpRemoteAgent),
      mk Authenticated ''POST'' [Lit ''remote'', Lit ''sessions'', Param, Lit ''publish''] (AccountEp EpRemotePublish),
      mk Authenticated ''POST'' [Lit ''remote'', Lit ''sessions'', Param, Lit ''end''] (AccountEp EpRemoteEnd)]"

definition admin_routes :: "route list" where
  "admin_routes =
     [mk AdminOnly ''GET'' [Lit ''admin'', Lit ''session''] (AdminEp EpAdminSession),
      mk AdminOnly ''GET'' [Lit ''admin'', Lit ''lookup''] (AdminEp EpAdminLookup),
      mk AdminOnly ''POST'' [Lit ''admin'', Lit ''grant''] (AdminEp EpAdminGrant),
      mk AdminOnly ''POST'' [Lit ''admin'', Lit ''revoke''] (AdminEp EpAdminRevoke),
      mk AdminOnly ''GET'' [Lit ''admin'', Lit ''stats''] (AdminEp EpAdminStats),
      mk AdminOnly ''GET'' [Lit ''admin'', Lit ''users''] (AdminEp EpAdminUsers),
      mk AdminOnly ''GET'' [Lit ''admin'', Lit ''orgs''] (AdminEp EpAdminOrgs),
      mk AdminOnly ''GET'' [Lit ''admin'', Lit ''tunnels''] (AdminEp EpAdminTunnels)]"

definition internal_routes :: "route list" where
  "internal_routes =
     map (\<lambda>n. mk Internal ''POST'' [Lit ''internal'', Lit ''entitlements'', Lit n] (RpcEp n))
       [''authenticate'', ''check-bind'', ''report-usage'', ''report-tunnel'']"

definition v1_routes :: "route list" where
  "v1_routes = public_routes @ login_routes @ account_routes @ admin_routes"

definition routes :: "ApiConfig \<Rightarrow> route list" where
  "routes c = root_routes c @ map (\<lambda>r. r\<lparr>rtPath := Lit ''v1'' # rtPath r\<rparr>) v1_routes @ internal_routes"

text \<open>The parameters of a path that matches a pattern.\<close>

fun match_path :: "seg list \<Rightarrow> string list \<Rightarrow> string list option" where
  "match_path [] [] = Some []"
| "match_path (Lit s # ps) (x # xs) = (if s = x then match_path ps xs else None)"
| "match_path (Param # ps) (x # xs) = (if x = '''' then None else map_option (\<lambda>r. x # r) (match_path ps xs))"
| "match_path _ _ = None"

definition param :: "string list \<Rightarrow> string" where
  "param ps = (case ps of x # _ \<Rightarrow> x | [] \<Rightarrow> '''')"

text \<open>The first route for the method and the path, else a 405 or a 404.\<close>

fun find_route :: "route list \<Rightarrow> string \<Rightarrow> string list \<Rightarrow> (nat \<times> string) + (route \<times> string list)" where
  "find_route [] meth path = Inl (404, ''404 page not found'')"
| "find_route (r # rs) meth path =
     (case match_path (rtPath r) path of
        None \<Rightarrow> find_route rs meth path
      | Some ps \<Rightarrow>
          if rtMethod r = meth then Inr (r, ps)
          else (case find_route rs meth path of Inr x \<Rightarrow> Inr x | Inl _ \<Rightarrow> Inl (405, '''')))"

section \<open>The handlers behind the routes\<close>

definition rp :: "('a \<Rightarrow> reply) \<Rightarrow> 'a resp \<Rightarrow> reply" where
  "rp f r = (case r of Inl (status, msg) \<Rightarrow> RError status msg | Inr x \<Rightarrow> f x)"

type_synonym served = "(reply \<times> Cookie list) \<times> Control"

definition reading :: "reply \<Rightarrow> Control \<Rightarrow> served" where
  "reading r ct = ((r, []), ct)"

definition on_api :: "('a \<Rightarrow> reply) \<Rightarrow> (Api \<Rightarrow> 'a resp \<times> Api) \<Rightarrow> Control \<Rightarrow> served" where
  "on_api f h ct = (case h (ctApi ct) of (r, a) \<Rightarrow> ((rp f r, []), ct\<lparr>ctApi := a\<rparr>))"

definition on_store :: "('a \<Rightarrow> reply) \<Rightarrow> (MemStore \<Rightarrow> 'a resp \<times> MemStore) \<Rightarrow> Control \<Rightarrow> served" where
  "on_store f h = on_api f (\<lambda>a. case h (aStore a) of (r, m) \<Rightarrow> (r, a\<lparr>aStore := m\<rparr>))"

definition on_remote :: "('a \<Rightarrow> reply) \<Rightarrow> (remoteHub \<Rightarrow> 'a \<times> remoteHub) \<Rightarrow> Control \<Rightarrow> served" where
  "on_remote f h ct = (case h (ctRemote ct) of (r, rh) \<Rightarrow> ((f r, []), ct\<lparr>ctRemote := rh\<rparr>))"

text \<open>A handler whose body is decoded first.\<close>

definition with_body :: "'b option \<Rightarrow> ('b \<Rightarrow> Control \<Rightarrow> served) \<Rightarrow> Control \<Rightarrow> served" where
  "with_body b h ct = (case b of None \<Rightarrow> ((RError 400 ''invalid request body'', []), ct) | Some x \<Rightarrow> h x ct)"

fun serve_root :: "CpEnv \<Rightarrow> CpDraw \<Rightarrow> HttpReq \<Rightarrow> root_ep \<Rightarrow> Control \<Rightarrow> served" where
  "serve_root v d q EpHealthz ct = reading (RText ''ok'') ct"
| "serve_root v d q EpRoot ct = reading (if handleRoot (ctCfg ct) (hqHost q) (hqHeader q) then RPage else RError 404 ''404 page not found'') ct"
| "serve_root v d q EpOpenAPI ct = reading RPage ct"
| "serve_root v d q EpStatus ct = reading (RText (storeKind (ctCfg ct))) ct"
| "serve_root v d q EpDocs ct = reading RPage ct"
| "serve_root v d q EpAdminPage ct = reading (if handleAdminPage (ctCfg ct) (hqHost q) (hqHeader q) then RPage else RError 404 ''404 page not found'') ct"
| "serve_root v d q EpAdminLogout ct =
     ((RUnit 200, [\<lparr>ckName = ''trqsh_admin'', ckValue = '''', ckPath = ''/'', ckDomain = '''', ckSecure = IsProduction (ctCfg ct), ckMaxAge = - 1\<rparr>]), ct)"
| "serve_root v d q EpAdminLogin ct =
     (let body = map_option (\<lambda>b. (b ''username'', b ''password'')) (decode v [''username'', ''password''] q) in
      case handleAdminLogin (ceHmac v) (ctCfg ct) (cdNow d) body of
        Inl (status, msg) \<Rightarrow> ((RError status msg, []), ct)
      | Inr tok \<Rightarrow>
          ((RUnit 200, [\<lparr>ckName = ''trqsh_admin'', ckValue = tok, ckPath = ''/'', ckDomain = '''', ckSecure = IsProduction (ctCfg ct),
                         ckMaxAge = adminTTL div second\<rparr>]), ct))"

fun serve_public :: "CpEnv \<Rightarrow> CpDraw \<Rightarrow> HttpReq \<Rightarrow> string list \<Rightarrow> public_ep \<Rightarrow> Control \<Rightarrow> served" where
  "serve_public v d q ps EpPlansPublic ct = reading (RPublicPlans handleListPlansPublic) ct"
| "serve_public v d q ps EpRegions ct = reading (RRegions (handleListRegions (ctGeo ct))) ct"
| "serve_public v d q ps EpGeo ct =
     (case handleGeo (ceGeoHttp v) (ceGeoDec v) (ctCfg ct) (cdNow d) (hqHeader q) (hqRemoteAddr q) (hqQuery q ''ip'') (ctGeo ct) of
        (view, g) \<Rightarrow> ((RGeo view, []), ct\<lparr>ctGeo := g\<rparr>))"
| "serve_public v d q ps EpWebhook ct =
     (case HandleWebhook (ceHmac v) (ceEvent v) (ctBilling ct) (cdNow d) (cdRowID d) (hqBody q) (hdr_Get (hqHeader q) ''Stripe-Signature'') (ctStore ct) of
        ((status, msg), m) \<Rightarrow> ((RStatus status msg, []), ct\<lparr>ctApi := (ctApi ct)\<lparr>aStore := m\<rparr>\<rparr>))"
| "serve_public v d q ps EpRemoteViewer ct =
     on_remote (\<lambda>r. case r of None \<Rightarrow> RError 404 ''session not found or expired'' | Some (i, ch) \<Rightarrow> RStream i ch)
       (handleRemoteViewerStream (cdNow d) (param ps)) ct"
| "serve_public v d q ps EpRemoteCommand ct =
     on_remote (\<lambda>status. RStatus status '''') (handleRemoteCommand (cdNow d) (param ps) (decode1 v ''text'' q)) ct"

fun serve_login :: "CpEnv \<Rightarrow> CpDraw \<Rightarrow> HttpReq \<Rightarrow> string list \<Rightarrow> login_ep \<Rightarrow> Control \<Rightarrow> served" where
  "serve_login v d q ps EpSignup ct =
     (if \<not> DevAuth (ctCfg ct) then on_api RAuth (handleSignup (ceSign v) (cdDraw d) '''' '''') ct
      else with_body (decode v [''email'', ''name''] q)
             (\<lambda>b. on_api RAuth (handleSignup (ceSign v) (cdDraw d) (b ''email'') (b ''name''))) ct)"
| "serve_login v d q ps EpLogin ct =
     (if \<not> DevAuth (ctCfg ct) then on_api RAuth (handleLogin (ceSign v) (cdDraw d) '''') ct
      else with_body (decode v [''email'', ''name''] q) (\<lambda>b. on_api RAuth (handleLogin (ceSign v) (cdDraw d) (b ''email''))) ct)"
| "serve_login v d q ps EpRefresh ct =
     with_body (decode1 v ''refresh_token'' q) (\<lambda>tok. on_api RTokens (handleRefresh (ceSign v) (ceParse v) (cdDraw d) tok)) ct"
| "serve_login v d q ps EpOAuthStart ct =
     (let url = (case gget (api_providers (ctCfg ct)) (param ps) of
                   None \<Rightarrow> None
                 | Some p \<Rightarrow> if Configured p then Some (AuthCodeURL (ceUrlEnc v) p) else None)
      in case handleOAuthStart url (cdNow d) (cdBytes1 d) (hqQuery q ''next'') (ctApi ct) of
           (Inl (status, msg), a) \<Rightarrow> ((RError status msg, []), ct\<lparr>ctApi := a\<rparr>)
         | (Inr (dest, cookies), a) \<Rightarrow> ((RRedirect dest, cookies), ct\<lparr>ctApi := a\<rparr>))"
| "serve_login v d q ps EpOAuthCallback ct =
     (let prov = map_option (Exchange (ceOAuth v)) (gget (api_providers (ctCfg ct)) (param ps));
          cleared = (if prov = None then [] else [clearStateCookie (ctCfg ct)])
      in case handleOAuthCallback (ceSign v) prov (cdDraw d) (hqQuery q ''state'') (hqCookie q ''trqsh_oauth_state'')
                (hqQuery q ''code'') (hqCookie q ''trqsh_oauth_next'') (ctApi ct) of
           (Inl (status, msg), a) \<Rightarrow> ((RError status msg, cleared), ct\<lparr>ctApi := a\<rparr>)
         | (Inr (dest, tokens), a) \<Rightarrow>
             ((RRedirect dest, cleared @ clearNextCookie (ctCfg ct) # setSessionCookies (ctCfg ct) tokens), ct\<lparr>ctApi := a\<rparr>))"
| "serve_login v d q ps EpLogout ct =
     ((RUnit 200, clearSessionCookies (ctCfg ct)),
      ct\<lparr>ctApi := handleLogout (ceParse v) (cdNow d) (cdNow d) (hqCookie q ''trqsh_refresh'')
           (map_option (\<lambda>b. b ''refresh_token'') (ceStr v [''refresh_token''] (take (2 ^ 16) (hqBody q)))) (ctApi ct)\<rparr>)"
| "serve_login v d q ps EpDeviceCode ct =
     (case handleDeviceCode (cdNow d) (cdBytes1 d) (cdBytes2 d) (ctApi ct) of
        ((dc, uc), a) \<Rightarrow> ((RDevice dc uc, []), ct\<lparr>ctApi := a\<rparr>))"
| "serve_login v d q ps EpDeviceToken ct =
     with_body (decode1 v ''device_code'' q) (\<lambda>code. on_api RDeviceKey (handleDeviceToken (cdNow d) code)) ct"

fun serve_account :: "CpEnv \<Rightarrow> CpDraw \<Rightarrow> HttpReq \<Rightarrow> string list \<Rightarrow> Principal \<Rightarrow> account_ep \<Rightarrow> Control \<Rightarrow> served" where
  "serve_account v d q ps p EpAccount ct = reading (rp RAccount (handleAccount p (ctStore ct))) ct"
| "serve_account v d q ps p EpMe ct = reading (rp RMe (handleMe (cdNow d) p (ctStore ct))) ct"
| "serve_account v d q ps p EpDeviceApprove ct =
     with_body (decode1 v ''user_code'' q) (\<lambda>code. on_api (\<lambda>_. RUnit 200) (handleDeviceApprove (ceIdkey v) (cdDraw d) p code)) ct"
| "serve_account v d q ps p EpListAPIKeys ct = reading (RKeys (handleListAPIKeys p (ctStore ct))) ct"
| "serve_account v d q ps p EpCreateAPIKey ct = on_store RNewKey (handleCreateAPIKey (ceIdkey v) (cdDraw d) p (decode1 v ''name'' q)) ct"
| "serve_account v d q ps p EpRevokeAPIKey ct = on_store (\<lambda>_. RUnit 204) (handleRevokeAPIKey (cdNow d) p (param ps)) ct"
| "serve_account v d q ps p EpListSubdomains ct = reading (RSubdomains (handleListSubdomains p (ctStore ct))) ct"
| "serve_account v d q ps p EpReserveSubdomain ct =
     on_store RSubdomain (handleReserveSubdomain (cdNow d) (cdRowID d) p (decode1 v ''subdomain'' q)) ct"
| "serve_account v d q ps p EpReleaseSubdomain ct = on_store (\<lambda>_. RUnit 204) (handleReleaseSubdomain p (param ps)) ct"
| "serve_account v d q ps p EpListDomains ct = reading (RDomains (handleListDomains p (ctStore ct))) ct"
| "serve_account v d q ps p EpAddDomain ct =
     on_store RNewDomain (handleAddDomain (ctCfg ct) (cdNow d) (cdRowID d) (cdToken d) p (decode1 v ''domain'' q)) ct"
| "serve_account v d q ps p EpVerifyDomain ct =
     on_store RDomain (handleVerifyDomain (ceTxt v (cdNow d)) (ctCfg ct) (cdNow d) p (param ps) (hqQuery q ''force'')) ct"
| "serve_account v d q ps p EpUsage ct = reading (rp RUsage (handleUsage (cdNow d) p (ctStore ct))) ct"
| "serve_account v d q ps p EpUsageHistory ct =
     (case handleUsageHistory (cdNow d) p (hqQuery q ''bucket'') (hqQuery q ''days'') (ctStore ct) of
        (b, since, series) \<Rightarrow> reading (RUsageHistory b since series) ct)"
| "serve_account v d q ps p EpListOrgs ct = reading (rp ROrgs (handleListOrgs p (ctStore ct))) ct"
| "serve_account v d q ps p EpListTunnels ct = reading (RTunnels (handleListTunnels p (ctStore ct))) ct"
| "serve_account v d q ps p EpTunnelHistory ct =
     reading (RHistory (handleTunnelHistory p (hqQuery q ''limit'') (hqQuery q ''offset'') (hqQuery q ''active'') (ctStore ct))) ct"
| "serve_account v d q ps p EpListPlans ct = reading (RPlans handleListPlans) ct"
| "serve_account v d q ps p EpCheckout ct =
     (let run = (\<lambda>plan cadence. case HandleCheckout (ceStripe v) (ctBilling ct) (prOrgID p) plan cadence (ctStore ct) of
                   ((status, msg), m) \<Rightarrow> ((RStatus status msg, []), ct\<lparr>ctApi := (ctApi ct)\<lparr>aStore := m\<rparr>\<rparr>))
      in if \<not> Enabled (ctBilling ct) then run '''' ''''
         else with_body (decode v [''plan'', ''cadence''] q) (\<lambda>b _. run (b ''plan'') (b ''cadence'')) ct)"
| "serve_account v d q ps p EpPortal ct =
     (case HandlePortal (ceStripe v) (ctBilling ct) (prOrgID p) (ctStore ct) of (status, msg) \<Rightarrow> reading (RStatus status msg) ct)"
| "serve_account v d q ps p EpSubscription ct =
     reading (case HandleSubscription (ctBilling ct) (prOrgID p) (ctStore ct) of
                None \<Rightarrow> RError 500 ''org lookup failed''
              | Some (plan, on, sub) \<Rightarrow> RSubscription plan on sub) ct"
| "serve_account v d q ps p EpRemoteCreate ct =
     on_remote (\<lambda>(code, url, ex). RRemote code url ex) (handleRemoteCreate (ctCfg ct) (cdNow d) (cdBytes1 d) p) ct"
| "serve_account v d q ps p EpRemoteAgent ct =
     on_remote (\<lambda>r. case r of None \<Rightarrow> RError 404 ''session not found or expired'' | Some (i, ch) \<Rightarrow> RStream i ch)
       (handleRemoteAgentStream (cdNow d) p (param ps)) ct"
| "serve_account v d q ps p EpRemotePublish ct =
     on_remote (\<lambda>status. RStatus status '''') (handleRemotePublish (cdNow d) p (param ps) (ceRemote v (take (2 ^ 20) (hqBody q)))) ct"
| "serve_account v d q ps p EpRemoteEnd ct =
     on_remote (\<lambda>status. RStatus status '''') (handleRemoteEnd (cdNow d) p (param ps)) ct"

fun serve_admin :: "CpEnv \<Rightarrow> CpDraw \<Rightarrow> HttpReq \<Rightarrow> admin_ep \<Rightarrow> Control \<Rightarrow> served" where
  "serve_admin v d q EpAdminSession ct = reading (RUnit 200) ct"
| "serve_admin v d q EpAdminLookup ct = reading (rp ROrgView (handleAdminLookup (cdNow d) (hqQuery q ''email'') (ctStore ct))) ct"
| "serve_admin v d q EpAdminGrant ct = on_store ROrgView (handleAdminGrant (cdNow d) (ceGrant v (take (2 ^ 20) (hqBody q)))) ct"
| "serve_admin v d q EpAdminRevoke ct = on_store ROrgView (handleAdminRevoke (cdNow d) (decode1 v ''email'' q)) ct"
| "serve_admin v d q EpAdminStats ct = reading (RStats (handleAdminStats (cdNow d) (ctGeo ct) (ctStore ct))) ct"
| "serve_admin v d q EpAdminUsers ct =
     (case handleAdminUsers (cdNow d) (hqQuery q ''limit'') (hqQuery q ''offset'') (hqQuery q ''q'') (ctStore ct) of
        (rows, l, off) \<Rightarrow> reading (RUserRows rows l off) ct)"
| "serve_admin v d q EpAdminOrgs ct =
     (case handleAdminOrgs (cdNow d) (hqQuery q ''limit'') (hqQuery q ''offset'') (hqQuery q ''plan'') (ctStore ct) of
        (rows, l, off) \<Rightarrow> reading (ROrgRows rows l off) ct)"
| "serve_admin v d q EpAdminTunnels ct =
     reading (RHistory (handleAdminTunnels (hqQuery q ''limit'') (hqQuery q ''offset'') (hqQuery q ''active'') (ctStore ct))) ct"

definition serve_rpc :: "CpEnv \<Rightarrow> CpDraw \<Rightarrow> HttpReq \<Rightarrow> string \<Rightarrow> Control \<Rightarrow> served" where
  "serve_rpc v d q name ct =
     (case rpc_serve \<lparr>reIdkey = ceIdkey v, reQuota = True, reHttp = ceGeoHttp v, reDec = ceGeoDec v\<rparr> (apInternalToken (ctCfg ct)) (cdNow d)
             (cdBytes1 d) (cdRowID d) (hdr_Get (hqHeader q) ''X-trqsh-Internal-Token'') (rpc_decode name (ceJson v (take (2 ^ 20) (hqBody q))))
             (ctStore ct, ctGeo ct) of
        ((status, body), m, g) \<Rightarrow> ((RRpc status body, []), ct\<lparr>ctApi := (ctApi ct)\<lparr>aStore := m\<rparr>, ctGeo := g\<rparr>))"

section \<open>Serving a request\<close>

text \<open>\<^verbatim>\<open>rateLimiter.middleware\<close>\<close>

definition limited :: "gotime \<Rightarrow> Control \<Rightarrow> HttpReq \<Rightarrow> localBucketStore \<Rightarrow> bool \<times> localBucketStore" where
  "limited t ct q = local_allow t (rl_clientIP (TrustProxy (ctCfg ct)) (hqHeader q) (hqRemoteAddr q))"

abbreviation too_many :: "reply \<times> Cookie list" where
  "too_many \<equiv> (RError 429 ''rate limit exceeded'', [])"

definition run_endpoint :: "CpEnv \<Rightarrow> CpDraw \<Rightarrow> HttpReq \<Rightarrow> route \<Rightarrow> string list \<Rightarrow> Control \<Rightarrow> served" where
  "run_endpoint v d q r ps ct =
     (case rtEnd r of
        RootEp e \<Rightarrow> serve_root v d q e ct
      | PublicEp e \<Rightarrow> serve_public v d q ps e ct
      | LoginEp e \<Rightarrow> serve_login v d q ps e ct
      | AccountEp e \<Rightarrow>
          (case Middleware (ceParse v) (aAuth (ctApi ct)) (ceIdkey v) (cdNow d) (hqHeader q) (ctStore ct) of
             (None, m) \<Rightarrow> ((RError 401 ''unauthorized'', []), ct\<lparr>ctApi := (ctApi ct)\<lparr>aStore := m\<rparr>\<rparr>)
           | (Some p, m) \<Rightarrow> serve_account v d q ps p e (ct\<lparr>ctApi := (ctApi ct)\<lparr>aStore := m\<rparr>\<rparr>))
      | AdminEp e \<Rightarrow>
          (case requireAdmin (ceHmac v) (ctCfg ct) (cdNow d) (hqCookie q ''trqsh_admin'') of
             Some (status, msg) \<Rightarrow> ((RError status msg, []), ct)
           | None \<Rightarrow> serve_admin v d q e ct)
      | RpcEp name \<Rightarrow> serve_rpc v d q name ct)"

text \<open>The strict limiter stands in front of the routes of its groups.\<close>

definition run_route :: "CpEnv \<Rightarrow> CpDraw \<Rightarrow> HttpReq \<Rightarrow> route \<Rightarrow> string list \<Rightarrow> Control \<Rightarrow> served" where
  "run_route v d q r ps ct =
     (if rtGuard r = Strict then
        (case limited (cdNow d) ct q (ctAuthLimiter ct) of
           (False, l) \<Rightarrow> (too_many, ct\<lparr>ctAuthLimiter := l\<rparr>)
         | (True, l) \<Rightarrow> run_endpoint v d q r ps (ct\<lparr>ctAuthLimiter := l\<rparr>))
      else run_endpoint v d q r ps ct)"

text \<open>\<^verbatim>\<open>Router\<close>: everything below \<^verbatim>\<open>/v1\<close> passes the flood guard first, a request for no route too.\<close>

definition serve :: "CpEnv \<Rightarrow> CpDraw \<Rightarrow> HttpReq \<Rightarrow> Control \<Rightarrow> served" where
  "serve v d q ct =
     (let go = (\<lambda>ct. case find_route (routes (ctCfg ct)) (hqMethod q) (hqPath q) of
                 Inl (status, msg) \<Rightarrow> ((RError status msg, []), ct)
               | Inr (r, ps) \<Rightarrow> run_route v d q r ps ct)
      in if hqPath q \<noteq> [] \<and> hd (hqPath q) = ''v1'' then
           (case limited (cdNow d) ct q (ctApiLimiter ct) of
              (False, l) \<Rightarrow> (too_many, ct\<lparr>ctApiLimiter := l\<rparr>)
            | (True, l) \<Rightarrow> go (ct\<lparr>ctApiLimiter := l\<rparr>))
         else go ct)"

section \<open>The table is unambiguous\<close>

text \<open>Whether some path matches both patterns.\<close>

fun overlap :: "seg list \<Rightarrow> seg list \<Rightarrow> bool" where
  "overlap [] [] = True"
| "overlap (Lit s # ps) (Lit s' # qs) = (s = s' \<and> overlap ps qs)"
| "overlap (Lit s # ps) (Param # qs) = overlap ps qs"
| "overlap (Param # ps) (_ # qs) = overlap ps qs"
| "overlap _ _ = False"

lemma match_overlap: "match_path ps x \<noteq> None \<Longrightarrow> match_path qs x \<noteq> None \<Longrightarrow> overlap ps qs"
proof (induction ps qs arbitrary: x rule: overlap.induct)
  case (2 s ps s' qs)
  then show ?case by (cases x) (auto split: if_splits)
next
  case (3 s ps qs)
  then show ?case by (cases x) (auto split: if_splits)
next
  case (4 ps u qs)
  then show ?case by (cases x; cases u) (auto split: if_splits)
qed (auto elim!: match_path.elims)

fun unambiguous :: "route list \<Rightarrow> bool" where
  "unambiguous [] = True"
| "unambiguous (r # rs) = (list_all (\<lambda>r'. rtMethod r = rtMethod r' \<longrightarrow> \<not> overlap (rtPath r) (rtPath r')) rs \<and> unambiguous rs)"

lemma find_route_exact:
  "unambiguous rs \<Longrightarrow> find_route rs meth path = Inr (r, ps) \<longleftrightarrow> r \<in> set rs \<and> rtMethod r = meth \<and> match_path (rtPath r) path = Some ps"
proof (induction rs)
  case (Cons r0 rs)
  then have "False" if "r \<in> set rs" "rtMethod r = rtMethod r0" "match_path (rtPath r) path = Some ps" "match_path (rtPath r0) path = Some b" for b
    using that match_overlap [of "rtPath r0" path "rtPath r"] by (auto simp: list_all_iff)
  with Cons show ?case by (auto split: option.split sum.split)
qed simp

lemma find_route_miss:
  "find_route rs meth path = Inl e \<Longrightarrow>
     fst e = (if \<exists>r \<in> set rs. match_path (rtPath r) path \<noteq> None then 405 else 404) \<and> (\<forall>r \<in> set rs. rtMethod r = meth \<longrightarrow> match_path (rtPath r) path = None)"
  by (induction rs arbitrary: e) (auto split: option.splits sum.splits if_splits)

definition well_guarded :: "route \<Rightarrow> bool" where
  "well_guarded r = (case rtEnd r of
       RootEp e \<Rightarrow> (rtGuard r = Strict \<longleftrightarrow> e = EpAdminLogin) \<and> rtGuard r \<in> {Public, Strict}
     | PublicEp e \<Rightarrow> rtGuard r = Public | LoginEp e \<Rightarrow> rtGuard r = Strict
     | AccountEp e \<Rightarrow> rtGuard r = Authenticated | AdminEp e \<Rightarrow> rtGuard r = AdminOnly | RpcEp n \<Rightarrow> rtGuard r = Internal)"

lemma unambiguous_routes: "unambiguous (routes c)"
  by (cases "IsProduction c")
    (simp_all add: routes_def v1_routes_def root_routes_def public_routes_def login_routes_def account_routes_def admin_routes_def internal_routes_def mk_def)

lemma guarded_routes: "list_all well_guarded (routes c)"
  by (cases "IsProduction c")
    (simp_all add: routes_def v1_routes_def root_routes_def public_routes_def login_routes_def account_routes_def admin_routes_def internal_routes_def mk_def
     well_guarded_def)

text \<open>C37. The route table is well formed and routing is exact. In every configuration a request is routed to a route precisely when
  that route is registered for its method and matches its path, so no two registrations compete and their order does not matter; the handlers
  of accounts, of the administrator and of the edges stand behind the guard of their group, the login handlers behind the strict limiter;
  and a miss is a 405 when the path is known under another method and a 404 otherwise.\<close>

theorem routing_exact:
  "(find_route (routes c) meth path = Inr (r, ps) \<longleftrightarrow> r \<in> set (routes c) \<and> rtMethod r = meth \<and> match_path (rtPath r) path = Some ps)
   \<and> (r \<in> set (routes c) \<longrightarrow> well_guarded r)
   \<and> (find_route (routes c) meth path = Inl e \<longrightarrow> fst e = (if \<exists>r \<in> set (routes c). match_path (rtPath r) path \<noteq> None then 405 else 404))"
  using find_route_exact [OF unambiguous_routes, of c meth path r ps] find_route_miss [of "routes c" meth path e] guarded_routes [of c]
  by (simp add: list_all_iff)

theorem routing_exact_witness:
  "(\<exists>r ps. find_route (routes DefaultApiConfig) ''DELETE'' [''v1'', ''api-keys'', ''key_7''] = Inr (r, ps) \<and> rtGuard r = Authenticated \<and> ps = [''key_7''])
   \<and> find_route (routes DefaultApiConfig) ''PUT'' [''v1'', ''api-keys'', ''key_7''] = Inl (405, '''')"
proof
  let ?r = "(mk Authenticated ''DELETE'' [Lit ''api-keys'', Param] (AccountEp EpRevokeAPIKey))\<lparr>rtPath := [Lit ''v1'', Lit ''api-keys'', Param]\<rparr>"
  have "?r \<in> set (routes DefaultApiConfig)" by (simp add: routes_def v1_routes_def account_routes_def mk_def)
  then have "find_route (routes DefaultApiConfig) ''DELETE'' [''v1'', ''api-keys'', ''key_7''] = Inr (?r, [''key_7'']) \<and> well_guarded ?r"
    using routing_exact [of DefaultApiConfig "''DELETE''" "[''v1'', ''api-keys'', ''key_7'']" ?r "[''key_7'']"] by (simp add: mk_def)
  then show "\<exists>r ps. find_route (routes DefaultApiConfig) ''DELETE'' [''v1'', ''api-keys'', ''key_7''] = Inr (r, ps) \<and> rtGuard r = Authenticated \<and> ps = [''key_7'']"
    by (simp add: mk_def)
  show "find_route (routes DefaultApiConfig) ''PUT'' [''v1'', ''api-keys'', ''key_7''] = Inl (405, '''')"
    by (simp add: routes_def v1_routes_def root_routes_def public_routes_def login_routes_def account_routes_def admin_routes_def internal_routes_def mk_def)
qed

end
