(* ===== verification/Tenants.thy ===== *)
theory Tenants
  imports Router
begin

text \<open>
  Isolation between the accounts of the control plane, over the function that serves a request: what a caller can change, and
  what an answer shows.
\<close>

named_theorems isolation "operations that leave the rows of an organisation alone"

section \<open>The rows of an organisation\<close>

definition org_rows :: "string \<Rightarrow> MemStore \<Rightarrow> (string \<times> APIKey) set \<times> (string \<times> ReservedSubdomain) set \<times> (string \<times> CustomDomain) set
    \<times> Org option \<times> Subscription option \<times> OrgMember list \<times> UsageRecord list \<times> TunnelSession list" where
  "org_rows B m =
     ({(i, k). gget (keys m) i = Some k \<and> kyOrgID k = B}, {(i, s). gget (subs m) i = Some s \<and> rsuOrgID s = B},
      {(i, d). gget (domains m) i = Some d \<and> cdOrgID d = B}, gget (orgs m) B, gget (subsByOrg m) B,
      filter (\<lambda>e. omOrgID e = B) (members m), filter (\<lambda>u. urOrgID u = B) (stUsage m), filter (\<lambda>t. tsOrgID t = B) (tunnelHist m))"

lemma rows_CreateAPIKey [isolation]:
  "kyOrgID k \<noteq> B \<Longrightarrow> gget (keys m) (or_id nid (kyID k)) = None \<Longrightarrow> org_rows B (snd (CreateAPIKey t nid k m)) = org_rows B m"
  by (auto simp: org_rows_def CreateAPIKey_def Let_def split: if_splits)

lemma rows_TouchAPIKey [isolation]:
  "(\<And>k. gget (keys m) i = Some k \<Longrightarrow> kyOrgID k \<noteq> B) \<Longrightarrow> org_rows B (snd (TouchAPIKey i t m)) = org_rows B m"
  by (auto simp: org_rows_def TouchAPIKey_def split: option.splits if_splits)

lemma rows_RevokeAPIKey [isolation]: "A \<noteq> B \<Longrightarrow> org_rows B (snd (RevokeAPIKey i A t m)) = org_rows B m"
  by (auto simp: org_rows_def RevokeAPIKey_def split: option.splits if_splits)

lemma rows_ReserveSubdomain [isolation]:
  "rsuOrgID s \<noteq> B \<Longrightarrow> gget (subs m) (or_id nid (rsuID s)) = None \<Longrightarrow> org_rows B (snd (ReserveSubdomain t nid s m)) = org_rows B m"
  by (auto simp: org_rows_def ReserveSubdomain_def Let_def split: if_splits)

lemma rows_ReleaseSubdomain [isolation]: "A \<noteq> B \<Longrightarrow> org_rows B (snd (ReleaseSubdomain i A m)) = org_rows B m"
  by (auto simp: org_rows_def ReleaseSubdomain_def split: option.splits if_splits)

lemma rows_AddCustomDomain [isolation]:
  "cdOrgID d \<noteq> B \<Longrightarrow> gget (domains m) (or_id nid (cdID d)) = None \<Longrightarrow> org_rows B (snd (AddCustomDomain t nid d m)) = org_rows B m"
  by (auto simp: org_rows_def AddCustomDomain_def Let_def split: if_splits)

lemma rows_VerifyCustomDomain [isolation]: "A \<noteq> B \<Longrightarrow> org_rows B (snd (VerifyCustomDomain i A t m)) = org_rows B m"
  by (auto simp: org_rows_def VerifyCustomDomain_def split: option.splits if_splits)

lemma rows_SetOrgStripeCustomer [isolation]: "A \<noteq> B \<Longrightarrow> org_rows B (snd (SetOrgStripeCustomer A c m)) = org_rows B m"
  by (auto simp: org_rows_def SetOrgStripeCustomer_def upd_org_def split: option.splits)

lemma rows_CreateUser [isolation]: "org_rows B (snd (CreateUser t nid u m)) = org_rows B m"
  by (auto simp: org_rows_def CreateUser_def Let_def)

lemma rows_UpdateUserProfile [isolation]: "org_rows B (snd (UpdateUserProfile i n a m)) = org_rows B m"
  by (auto simp: org_rows_def UpdateUserProfile_def Let_def split: option.splits)

lemma rows_CreateOrg [isolation]: "or_id nid (orID og) \<noteq> B \<Longrightarrow> org_rows B (snd (CreateOrg t nid og m)) = org_rows B m"
  by (auto simp: org_rows_def CreateOrg_def Let_def)

lemma rows_AddOrgMember [isolation]: "omOrgID mem \<noteq> B \<Longrightarrow> org_rows B (snd (AddOrgMember mem m)) = org_rows B m"
  by (auto simp: org_rows_def AddOrgMember_def)


section \<open>Handlers\<close>

definition fresh_ids :: "CpDraw \<Rightarrow> MemStore \<Rightarrow> bool" where
  "fresh_ids d m \<longleftrightarrow> gget (users m) (dUserID (cdDraw d)) = None \<and> gget (orgs m) (dOrgID (cdDraw d)) = None
     \<and> gget (keys m) (dKeyID (cdDraw d)) = None \<and> gget (subs m) (cdRowID d) = None \<and> gget (domains m) (cdRowID d) = None"

lemma or_id_empty [simp]: "or_id nid '''' = nid"
  by (simp add: or_id_def)

lemma rows_handleCreateAPIKey:
  assumes "prOrgID p \<noteq> B" "gget (keys m) (dKeyID dr) = None"
  shows "org_rows B (snd (handleCreateAPIKey ik dr p body m)) = org_rows B m"
proof -
  have "org_rows B m' = org_rows B m"
    if "CreateAPIKey t (dKeyID dr) (zeroKey\<lparr>kyOrgID := prOrgID p, kyName := n, Prefix := x, Hash := h\<rparr>) m = (r, m')" for t n x h r m'
    using rows_CreateAPIKey [of "zeroKey\<lparr>kyOrgID := prOrgID p, kyName := n, Prefix := x, Hash := h\<rparr>" B m "dKeyID dr" t] that assms
    by (simp add: zeroKey_def)
  then show ?thesis by (auto simp: handleCreateAPIKey_def Let_def split: option.splits prod.splits sum.splits)
qed

lemma rows_handleDeviceApprove:
  assumes "prOrgID p \<noteq> B" "gget (keys (aStore a)) (dKeyID dr) = None"
  shows "org_rows B (aStore (snd (handleDeviceApprove ik dr p code a))) = org_rows B (aStore a)"
proof -
  have "org_rows B m' = org_rows B (aStore a)"
    if "CreateAPIKey t (dKeyID dr) (zeroKey\<lparr>kyOrgID := prOrgID p, kyName := n, Prefix := x, Hash := h\<rparr>) (aStore a) = (r, m')" for t n x h r m'
    using rows_CreateAPIKey [of "zeroKey\<lparr>kyOrgID := prOrgID p, kyName := n, Prefix := x, Hash := h\<rparr>" B "aStore a" "dKeyID dr" t] that assms
    by (simp add: zeroKey_def)
  then show ?thesis by (auto simp: handleDeviceApprove_def split: option.splits prod.splits sum.splits)
qed

lemma GetOrg_id: "store_ok m \<Longrightarrow> GetOrg i m = Inr og \<Longrightarrow> orID og = i"
  by (auto simp: store_ok_def GetOrg_def the_row_def split: option.splits)

lemma reserveAllowed_org: "store_ok m \<Longrightarrow> reserveAllowed t p sub m = Inr og \<Longrightarrow> orID og = prOrgID p"
  by (auto simp: reserveAllowed_def dest: GetOrg_id split: if_splits sum.splits)

lemma domainAllowed_org: "store_ok m \<Longrightarrow> domainAllowed t p sub m = Inr og \<Longrightarrow> orID og = prOrgID p"
  by (auto simp: domainAllowed_def Let_def dest: GetOrg_id split: if_splits sum.splits)

lemma rows_handleReserveSubdomain:
  assumes "prOrgID p \<noteq> B" "gget (subs m) nid = None" "store_ok m"
  shows "org_rows B (snd (handleReserveSubdomain t nid p body m)) = org_rows B m"
proof -
  have "snd (reserveCommit t nid og sub m) = snd (ReserveSubdomain t nid \<lparr>rsuID = '''', rsuOrgID = orID og, Subdomain = sub, rsuCreatedAt = 0\<rparr> m)"
    for og :: Org and sub by (auto simp: reserveCommit_def split: prod.splits sum.splits store_error.splits)
  then have "org_rows B (snd (reserveCommit t nid og sub m)) = org_rows B m" if "orID og = prOrgID p" for og :: Org and sub
    using rows_ReserveSubdomain [of "\<lparr>rsuID = '''', rsuOrgID = orID og, Subdomain = sub, rsuCreatedAt = 0\<rparr>" B m nid t] that assms by simp
  then show ?thesis using reserveAllowed_org [OF assms(3)]
    by (auto simp: handleReserveSubdomain_def Let_def split: option.splits sum.splits)
qed

lemma rows_handleAddDomain:
  assumes "prOrgID p \<noteq> B" "gget (domains m) nid = None" "store_ok m"
  shows "org_rows B (snd (handleAddDomain c t nid rb p body m)) = org_rows B m"
proof -
  have "org_rows B m' = org_rows B m"
    if "AddCustomDomain t nid (zeroDomain\<lparr>cdOrgID := prOrgID p, Domain := n, VerifyToken := x\<rparr>) m = (r, m')" for n x r m'
    using rows_AddCustomDomain [of "zeroDomain\<lparr>cdOrgID := prOrgID p, Domain := n, VerifyToken := x\<rparr>" B m nid t] that assms
    by (simp add: zeroDomain_def)
  then show ?thesis using domainAllowed_org [OF assms(3)]
    by (auto simp: handleAddDomain_def Let_def split: option.splits prod.splits sum.splits store_error.splits)
qed

lemma snd_case_sum: "snd (case r of Inl e \<Rightarrow> (f e, m) | Inr x \<Rightarrow> (g x, m)) = m"
  by (cases r) auto

lemma rows_revoke_release_verify:
  assumes "prOrgID p \<noteq> B"
  shows "org_rows B (snd (handleRevokeAPIKey t p i m)) = org_rows B m"
    and "org_rows B (snd (handleReleaseSubdomain p i m)) = org_rows B m"
    and "org_rows B (snd (handleVerifyDomain txt c t p i force m)) = org_rows B m"
  using rows_RevokeAPIKey [OF assms, of i t m] rows_ReleaseSubdomain [OF assms, of i m] rows_VerifyCustomDomain [OF assms, of i t m]
  by (auto simp: handleRevokeAPIKey_def handleReleaseSubdomain_def handleVerifyDomain_def Let_def split: prod.splits sum.splits)

text \<open>What a checkout does to the store: at most it notes the customer of the organisation.\<close>

lemma snd_tail: "snd (case y of (Inl e, m') \<Rightarrow> (f e, m') | (Inr x, m') \<Rightarrow> (g x, m')) = snd y"
  by (cases y; cases "fst y") auto

lemma resolveCustomer_store: "\<exists>cu. snd (resolveCustomer api c A m) \<in> {m, snd (SetOrgStripeCustomer A cu m)}"
  by (rule exI [of _ "the (apiCreateCustomer api (fst (ownerContact A m)) (snd (ownerContact A m)) A)"])
    (simp only: resolveCustomer_def snd_tail split: sum.split prod.split option.split if_split, simp)

lemma HandleCheckout_store: "\<exists>cu. snd (HandleCheckout api c A plan cad m) \<in> {m, snd (SetOrgStripeCustomer A cu m)}"
proof -
  obtain r m1 where rc: "resolveCustomer api c A m = (r, m1)" by fastforce
  have inner: "snd (case x of None \<Rightarrow> (e, m1) | Some (sid, url) \<Rightarrow> ((200, url), m1)) = m1" for x :: "(string \<times> string) option" and e :: "int \<times> string"
    by (simp split: option.split prod.split)
  have "snd (HandleCheckout api c A plan cad m) \<in> {m, m1}"
    by (cases "gget Catalog plan"; cases r) (simp_all add: HandleCheckout_def rc inner Let_def if_distrib [of snd] del: if_split)
  with resolveCustomer_store [of api c A m] show ?thesis unfolding rc by auto
qed

lemma rows_HandleCheckout: "A \<noteq> B \<Longrightarrow> org_rows B (snd (HandleCheckout api c A plan cad m)) = org_rows B m"
  using HandleCheckout_store [of api c A plan cad m] rows_SetOrgStripeCustomer by force

lemma rows_provisionUser:
  assumes "dOrgID dr \<noteq> B"
  shows "org_rows B (snd (provisionUser dr em n av pr m)) = org_rows B m"
proof -
  have u: "org_rows B m' = org_rows B m" if "CreateUser t i u m = (r, m')" for t i u r m m'
    using rows_CreateUser [of B t i u m] that by simp
  have g: "org_rows B m' = org_rows B m" if "CreateOrg t (dOrgID dr) og m = (r, m')" "orID og = ''''" for t og r m m'
    using rows_CreateOrg [of "dOrgID dr" og B t m] that assms by simp
  have gid: "orID r = dOrgID dr" if "CreateOrg t (dOrgID dr) og m = (r, m')" "orID og = ''''" for t og r m m'
    using that by (auto simp: CreateOrg_def Let_def)
  have mem: "org_rows B m' = org_rows B m" if "AddOrgMember x m = (r, m')" "omOrgID x \<noteq> B" for x r m m'
    using rows_AddOrgMember [of x B m] that by simp
  have p: "org_rows B m' = org_rows B m" if "UpdateUserProfile i x y m = (r, m')" for i x y r m'
    using rows_UpdateUserProfile [of B i x y m] that by simp
  have "org_rows B (snd (newAccount dr em n av pr m)) = org_rows B m"
    using assms by (fastforce simp: newAccount_def Let_def dest: u g gid mem split: prod.splits sum.splits)
  then show ?thesis
    by (auto simp: provisionUser_def Let_def dest: p split: sum.splits prod.splits store_error.splits if_splits)
qed

section \<open>Serving a request of a stranger\<close>

text \<open>Who has no credentials of organisation \<open>B\<close>, and none of the administrator, of an edge or of the payment provider.\<close>

definition stranger :: "CpEnv \<Rightarrow> CpDraw \<Rightarrow> HttpReq \<Rightarrow> string \<Rightarrow> Control \<Rightarrow> bool" where
  "stranger v d q B ct \<longleftrightarrow>
     (\<forall>p m. Middleware (ceParse v) (aAuth (ctApi ct)) (ceIdkey v) (cdNow d) (hqHeader q) (ctStore ct) = (Some p, m) \<longrightarrow> prOrgID p \<noteq> B)
     \<and> requireAdmin (ceHmac v) (ctCfg ct) (cdNow d) (hqCookie q ''trqsh_admin'') \<noteq> None
     \<and> (apInternalToken (ctCfg ct) = '''' \<or> hdr_Get (hqHeader q) ''X-trqsh-Internal-Token'' \<noteq> apInternalToken (ctCfg ct))
     \<and> (WebhookSecret (ctBilling ct) = '''' \<or>
        VerifySignature (ceHmac v) (cdNow d) (take (2 ^ 20) (hqBody q)) (hdr_Get (hqHeader q) ''Stripe-Signature'')
          (WebhookSecret (ctBilling ct)) (WebhookTolerance (ctBilling ct)) \<noteq> None)"

lemma Middleware_cases:
  assumes "Middleware prs au ik t hdr m = (r, m')"
  shows "m' = m \<or> (\<exists>k pfx p. GetAPIKeyByPrefix pfx m = Inr k \<and> r = Some p \<and> prOrgID p = kyOrgID k \<and> m' = snd (TouchAPIKey (kyID k) t m))"
  using assms by (auto simp: Middleware_def AuthenticateAPIKey_def Let_def split: if_splits sum.splits prod.splits option.splits)

lemma key_by_prefix: "store_ok m \<Longrightarrow> GetAPIKeyByPrefix pfx m = Inr k \<Longrightarrow> gget (keys m) (kyID k) = Some k"
  by (auto simp: store_ok_def keyix.ok_def index_ok_def GetAPIKeyByPrefix_def split: option.splits) fastforce

text \<open>Authentication keeps what the handler relies on.\<close>

lemma Middleware_keeps:
  assumes "Middleware prs au ik t hdr m = (r, m')" "store_ok m" "\<And>p. r = Some p \<Longrightarrow> prOrgID p \<noteq> B"
  shows "org_rows B m' = org_rows B m" and "store_ok m'" and "fresh_ids d m' \<longleftrightarrow> fresh_ids d m" and "gget (orgs m') B = gget (orgs m) B"
proof -
  have step: "store_step m (snd (TouchAPIKey i t m))" for i by (rule store_step.intros(9))
  have keys: "gget (keys (snd (TouchAPIKey i t m))) x = None \<longleftrightarrow> gget (keys m) x = None" for i x
    by (auto simp: TouchAPIKey_def split: option.splits)
  have other: "users (snd (TouchAPIKey i t m)) = users m \<and> orgs (snd (TouchAPIKey i t m)) = orgs m
      \<and> subs (snd (TouchAPIKey i t m)) = subs m \<and> domains (snd (TouchAPIKey i t m)) = domains m" for i
    by (auto simp: TouchAPIKey_def split: option.splits)
  from Middleware_cases [OF assms(1)]
  have "org_rows B m' = org_rows B m \<and> store_ok m' \<and> (fresh_ids d m' \<longleftrightarrow> fresh_ids d m) \<and> gget (orgs m') B = gget (orgs m) B"
  proof
    assume "\<exists>k pfx p. GetAPIKeyByPrefix pfx m = Inr k \<and> r = Some p \<and> prOrgID p = kyOrgID k \<and> m' = snd (TouchAPIKey (kyID k) t m)"
    then obtain k pfx p where k: "GetAPIKeyByPrefix pfx m = Inr k" "r = Some p" "prOrgID p = kyOrgID k" "m' = snd (TouchAPIKey (kyID k) t m)"
      by blast
    with key_by_prefix [OF assms(2) k(1)] assms(3) have "org_rows B m' = org_rows B m" by (auto intro: rows_TouchAPIKey)
    with store_ok_step [OF step assms(2)] keys other show ?thesis by (auto simp: k(4) fresh_ids_def)
  qed (use assms(2) in auto)
  then show "org_rows B m' = org_rows B m" "store_ok m'" "fresh_ids d m' \<longleftrightarrow> fresh_ids d m" "gget (orgs m') B = gget (orgs m) B" by auto
qed

lemmas serving_defs = reading_def on_api_def on_store_def on_remote_def with_body_def Let_def

lemma ctStore_on_store: "ctStore (snd (on_store f h ct)) = snd (h (ctStore ct))"
  by (simp add: on_store_def on_api_def split: prod.splits)

lemma ctStore_on_api: "ctStore (snd (on_api f h ct)) = aStore (snd (h (ctApi ct)))"
  by (simp add: on_api_def split: prod.splits)

lemma ctStore_reading: "ctStore (snd (reading r ct)) = ctStore ct"
  by (simp add: reading_def)

lemma ctStore_on_remote: "ctStore (snd (on_remote f h ct)) = ctStore ct"
  by (simp add: on_remote_def split: prod.splits)

lemmas ctStore_simps = ctStore_on_store ctStore_on_api ctStore_reading ctStore_on_remote

lemma rows_serve_account:
  assumes "prOrgID p \<noteq> B" "store_ok (ctStore ct)" "fresh_ids d (ctStore ct)"
  shows "org_rows B (ctStore (snd (serve_account v d q ps p e ct))) = org_rows B (ctStore ct)"
proof -
  have fr: "gget (keys (ctStore ct)) (dKeyID (cdDraw d)) = None" "gget (subs (ctStore ct)) (cdRowID d) = None"
    "gget (domains (ctStore ct)) (cdRowID d) = None" using assms(3) by (auto simp: fresh_ids_def)
  show ?thesis
  proof (cases e)
    case EpCheckout
    have "org_rows B m' = org_rows B (ctStore ct)" if "HandleCheckout (ceStripe v) (ctBilling ct) (prOrgID p) pl cad (ctStore ct) = (r, m')" for pl cad r m'
      using rows_HandleCheckout [OF assms(1), of "ceStripe v" "ctBilling ct" pl cad "ctStore ct"] that by simp
    then show ?thesis by (auto simp: EpCheckout with_body_def Let_def split: option.splits prod.splits)
  next
    case EpUsageHistory
    then show ?thesis by (simp add: ctStore_reading split: prod.splits)
  next
    case EpPortal
    then show ?thesis by (simp add: ctStore_reading split: prod.splits)
  next
    case EpDeviceApprove
    then show ?thesis using rows_handleDeviceApprove [OF assms(1) fr(1)] by (auto simp: with_body_def ctStore_on_api split: option.splits)
  qed (use assms fr in \<open>simp_all add: ctStore_simps rows_handleCreateAPIKey rows_revoke_release_verify rows_handleReserveSubdomain rows_handleAddDomain\<close>)
qed

lemma rows_serve_login:
  assumes "dOrgID (cdDraw d) \<noteq> B"
  shows "org_rows B (ctStore (snd (serve_login v d q ps e ct))) = org_rows B (ctStore ct)"
proof -
  have prov: "org_rows B m' = org_rows B m" if "provisionUser (cdDraw d) em n av pr m = (r, m')" for em n av pr m r m'
    using rows_provisionUser [OF assms, of em n av pr m] that by simp
  have cb: "org_rows B (aStore a') = org_rows B (aStore a)"
    if "handleOAuthCallback sg pro (cdDraw d) qs sc code nc a = (r, a')" for sg pro qs sc code nc a r a'
    using that by (auto simp: handleOAuthCallback_def Let_def dest: prov split: option.splits if_splits prod.splits bool.splits sum.splits)
  have su: "org_rows B (aStore (snd (handleSignup sg (cdDraw d) em n a))) = org_rows B (aStore a)" for sg em n a
    by (auto simp: handleSignup_def dest: prov split: prod.splits sum.splits)
  show ?thesis
  proof (cases e)
    case EpOAuthCallback
    then show ?thesis by (auto simp: Let_def dest: cb split: prod.splits sum.splits)
  next
    case EpSignup
    then show ?thesis by (auto simp: with_body_def ctStore_on_api su split: option.splits)
  qed (auto simp: with_body_def ctStore_on_api handleLogin_def handleRefresh_def handleOAuthStart_def handleLogout_def handleDeviceCode_def
      handleDeviceToken_def Let_def split: option.splits prod.splits sum.splits)
qed

text \<open>Limiters are the only other state a request passes on its way.\<close>

lemma stranger_limits [simp]:
  "stranger v d q B (ct\<lparr>ctAuthLimiter := l\<rparr>) = stranger v d q B ct" "stranger v d q B (ct\<lparr>ctApiLimiter := l\<rparr>) = stranger v d q B ct"
  by (simp_all add: stranger_def)

lemma rows_run_endpoint:
  assumes "store_ok (ctStore ct)" "gget (orgs (ctStore ct)) B \<noteq> None" "fresh_ids d (ctStore ct)" "stranger v d q B ct"
  shows "org_rows B (ctStore (snd (run_endpoint v d q r ps ct))) = org_rows B (ctStore ct)"
proof (cases "rtEnd r")
  case (RootEp e)
  then show ?thesis by (cases e) (auto simp: run_endpoint_def ctStore_reading Let_def split: sum.splits)
next
  case (PublicEp e)
  then show ?thesis using assms(4)
    by (cases e) (auto simp: run_endpoint_def ctStore_reading ctStore_on_remote HandleWebhook_def stranger_def Let_def split: prod.splits)
next
  case (LoginEp e)
  have "dOrgID (cdDraw d) \<noteq> B" using assms(2,3) by (auto simp: fresh_ids_def)
  with LoginEp show ?thesis by (simp add: run_endpoint_def rows_serve_login)
next
  case (AccountEp e)
  obtain po m where mw: "Middleware (ceParse v) (aAuth (ctApi ct)) (ceIdkey v) (cdNow d) (hqHeader q) (ctStore ct) = (po, m)" by fastforce
  have other: "po = Some p \<Longrightarrow> prOrgID p \<noteq> B" for p using assms(4) mw by (auto simp: stranger_def)
  note keeps = Middleware_keeps [OF mw assms(1) other]
  show ?thesis
  proof (cases po)
    case None
    then show ?thesis using keeps by (simp add: run_endpoint_def AccountEp mw)
  next
    case (Some p)
    have "prOrgID p \<noteq> B" using other Some by simp
    then show ?thesis using keeps Some assms(3)
      rows_serve_account [of p B "ct\<lparr>ctApi := (ctApi ct)\<lparr>aStore := m\<rparr>\<rparr>" d v q ps e]
      by (simp add: run_endpoint_def AccountEp mw)
  qed
next
  case (AdminEp e)
  then show ?thesis using assms(4) by (auto simp: run_endpoint_def stranger_def)
next
  case (RpcEp n)
  then show ?thesis using assms(4) by (auto simp: run_endpoint_def stranger_def serve_rpc_def rpc_serve_def internalTokenGuard_def)
qed

text \<open>C2. Isolation of accounts. Whatever a caller sends who does not hold credentials of organisation \<open>B\<close>, and none of
  the administrator, an edge or the payment provider, to whatever path: the API keys, subdomains, domains, plan,
  subscription, members, usage and tunnel history of \<open>B\<close> are afterwards what they were.\<close>

theorem strangers_cannot_touch_an_account:
  assumes "store_reach (ctStore ct)" "gget (orgs (ctStore ct)) B \<noteq> None" "fresh_ids d (ctStore ct)" "stranger v d q B ct"
  shows "org_rows B (ctStore (snd (serve v d q ct))) = org_rows B (ctStore ct)"
proof -
  have ep: "org_rows B (ctStore (snd (run_endpoint v d q r ps ct'))) = org_rows B (ctStore ct)"
    if "ctStore ct' = ctStore ct" "stranger v d q B ct'" for r ps ct'
    using rows_run_endpoint [of ct' B d v q r ps] assms(2,3) store_ok_reach [OF assms(1)] that by simp
  have "org_rows B (ctStore (snd (run_route v d q r ps ct'))) = org_rows B (ctStore ct)"
    if "ctStore ct' = ctStore ct" "stranger v d q B ct'" for r ps ct'
    using that ep by (auto simp: run_route_def split: prod.splits bool.splits)
  then show ?thesis using assms(4) by (auto simp: serve_def Let_def split: prod.splits bool.splits sum.splits)
qed

definition ex_stripe :: StripeAPI where
  "ex_stripe = \<lparr>apiCreateCustomer = (\<lambda>e n i. None), apiCheckout = (\<lambda>p. None), apiPortal = (\<lambda>c u. None), apiMeter = (\<lambda>n c k i t. True)\<rparr>"

definition ex_cp :: CpEnv where
  "ex_cp = \<lparr>ceSign = (\<lambda>s c. None), ceParse = (\<lambda>s t x. None), ceIdkey = ex_idkey, ceHmac = (\<lambda>k s. []), ceStripe = ex_stripe, ceEvent = (\<lambda>s. None),
     ceOAuth = ex_oauth, ceUrlEnc = (\<lambda>m. ''''), ceTxt = (\<lambda>t n. None), ceGeoHttp = (\<lambda>u. None), ceGeoDec = (\<lambda>s. None),
     ceStr = (\<lambda>fs b. None), ceGrant = (\<lambda>b. None), ceRemote = (\<lambda>b. None), ceJson = (\<lambda>b. None)\<rparr>"

definition ex_cpdraw :: CpDraw where
  "ex_cpdraw = \<lparr>cdDraw = ex_draw, cdRowID = ''row_1'', cdToken = [], cdBytes1 = [], cdBytes2 = []\<rparr>"

definition ex_control :: Control where
  "ex_control =
     (let ct = newControl (\<lambda>s. Inr []) DefaultApiConfig (DefaultBillingConfig) in
      ct\<lparr>ctApi := (ctApi ct)\<lparr>aStore := snd (CreateOrg 5 ''org_b'' \<lparr>orID = '''', orName = ''b'', orPlan = PlanFree, StripeCustomerID = '''',
         orCreatedAt = 0, PlanExpiresAt = None\<rparr> NewMemStore)\<rparr>\<rparr>)"

definition ex_delete :: HttpReq where
  "ex_delete = \<lparr>hqMethod = ''DELETE'', hqPath = [''v1'', ''api-keys'', ''key_7''], hqHost = ''api.trqsh.uz'', hqHeader = [], hqRemoteAddr = ''1.2.3.4:5'',
     hqQuery = (\<lambda>k. ''''), hqCookie = (\<lambda>k. None), hqBody = ''''\<rparr>"

lemma ex_control_store: "ctStore ex_control = NewMemStore\<lparr>orgs := [(''org_b'', \<lparr>orID = ''org_b'', orName = ''b'', orPlan = PlanFree,
    StripeCustomerID = '''', orCreatedAt = 5, PlanExpiresAt = None\<rparr>)]\<rparr>"
  by (simp add: ex_control_def CreateOrg_def NewMemStore_def or_time_def or_id_def PlanFree_def Let_def)

lemma ex_control_reach: "store_reach (ctStore ex_control)"
  unfolding ex_control_def Let_def
  by (simp, rule store_reach.step [OF store_reach.start store_step.intros(3)]) (simp add: NewMemStore_def)

theorem strangers_cannot_touch_an_account_witness:
  "gget (orgs (ctStore ex_control)) ''org_b'' \<noteq> None
   \<and> org_rows ''org_b'' (ctStore (snd (serve ex_cp ex_cpdraw ex_delete ex_control))) = org_rows ''org_b'' (ctStore ex_control)"
proof
  show ex: "gget (orgs (ctStore ex_control)) ''org_b'' \<noteq> None" by (simp add: ex_control_store)
  have fr: "fresh_ids ex_cpdraw (ctStore ex_control)"
    by (simp add: fresh_ids_def ex_control_store ex_cpdraw_def ex_draw_def NewMemStore_def)
  have "hdr_Get [] k = ''''" for k by (simp add: hdr_Get_def)
  then have "stranger ex_cp ex_cpdraw ex_delete ''org_b'' ex_control"
    by (simp add: stranger_def Middleware_def bearerToken_def ex_delete_def requireAdmin_def adminEnabled_def ex_control_def newControl_def
        DefaultApiConfig_def DefaultBillingConfig_def devInternalToken_def Let_def)
  then show "org_rows ''org_b'' (ctStore (snd (serve ex_cp ex_cpdraw ex_delete ex_control))) = org_rows ''org_b'' (ctStore ex_control)"
    by (rule strangers_cannot_touch_an_account [OF ex_control_reach ex fr])
qed

section \<open>What an answer depends on\<close>

text \<open>The rows of an organisation as the reading handlers see them, in their order.\<close>

definition own_view :: "string \<Rightarrow> MemStore \<Rightarrow> APIKey list \<times> ReservedSubdomain list \<times> CustomDomain list
    \<times> Org option \<times> Subscription option \<times> OrgMember list \<times> UsageRecord list \<times> TunnelSession list" where
  "own_view B m =
     (filter (\<lambda>k. kyOrgID k = B) (map snd (keys m)), filter (\<lambda>s. rsuOrgID s = B) (map snd (subs m)),
      filter (\<lambda>d. cdOrgID d = B) (map snd (domains m)), gget (orgs m) B, gget (subsByOrg m) B,
      filter (\<lambda>e. omOrgID e = B) (members m), filter (\<lambda>u. urOrgID u = B) (stUsage m), filter (\<lambda>t. tsOrgID t = B) (tunnelHist m))"

text \<open>Two stores that a caller should not be able to tell apart: they agree on the rows of the organisation of its credentials, on
  the memberships of its user with the organisations these name, and on the users that are the caller or members of its organisation.
  Everything else may differ.\<close>

definition same_view :: "Principal \<Rightarrow> MemStore \<Rightarrow> MemStore \<Rightarrow> bool" where
  "same_view p m m' \<longleftrightarrow>
     own_view (prOrgID p) m = own_view (prOrgID p) m'
     \<and> filter (\<lambda>e. omUserID e = prUserID p) (members m) = filter (\<lambda>e. omUserID e = prUserID p) (members m')
     \<and> (\<forall>e \<in> set (members m). omUserID e = prUserID p \<longrightarrow> gget (orgs m) (omOrgID e) = gget (orgs m') (omOrgID e))
     \<and> (\<forall>u. u = prUserID p \<or> (\<exists>e \<in> set (members m). omOrgID e = prOrgID p \<and> omUserID e = u) \<longrightarrow> gget (users m) u = gget (users m') u)"

text \<open>The endpoints that do not write to the store.\<close>

fun reads :: "account_ep \<Rightarrow> bool" where
  "reads EpDeviceApprove = False"
| "reads EpCreateAPIKey = False"
| "reads EpRevokeAPIKey = False"
| "reads EpReserveSubdomain = False"
| "reads EpReleaseSubdomain = False"
| "reads EpAddDomain = False"
| "reads EpVerifyDomain = False"
| "reads EpCheckout = False"
| "reads _ = True"

lemma foldl_filtered: "(\<And>a x. \<not> P x \<Longrightarrow> f a x = a) \<Longrightarrow> foldl f a (filter P xs) = foldl f a xs"
  by (induction xs arbitrary: a) auto

lemma UsageForOrg_own: "UsageForOrg t B since m = UsageForOrg t B since (m\<lparr>stUsage := filter (\<lambda>u. urOrgID u = B) (stUsage m)\<rparr>)"
  unfolding UsageForOrg_def by (simp add: foldl_filtered)

lemma UsageSeriesForOrg_own:
  "UsageSeriesForOrg B since bucket m = UsageSeriesForOrg B since bucket (m\<lparr>stUsage := filter (\<lambda>u. urOrgID u = B) (stUsage m)\<rparr>)"
  unfolding UsageSeriesForOrg_def by (simp add: foldl_filtered)

lemma usage_own:
  assumes "filter (\<lambda>u. urOrgID u = B) (stUsage m) = filter (\<lambda>u. urOrgID u = B) (stUsage m')"
  shows "UsageForOrg t B since m = UsageForOrg t B since m'" "UsageSeriesForOrg B since bucket m = UsageSeriesForOrg B since bucket m'"
proof -
  show "UsageForOrg t B since m = UsageForOrg t B since m'"
    using UsageForOrg_own [of t B since m] UsageForOrg_own [of t B since m'] assms by (simp add: UsageForOrg_def)
  show "UsageSeriesForOrg B since bucket m = UsageSeriesForOrg B since bucket m'"
    using UsageSeriesForOrg_own [of B since bucket m] UsageSeriesForOrg_own [of B since bucket m'] assms by (simp add: UsageSeriesForOrg_def)
qed

lemma tunnels_own:
  assumes "filter (\<lambda>t. tsOrgID t = B) (tunnelHist m) = filter (\<lambda>t. tsOrgID t = B) (tunnelHist m')" "B \<noteq> ''''"
  shows "fOrgID f = B \<Longrightarrow> ListTunnelSessions f m = ListTunnelSessions f m'" "CountTunnelSessions B b m = CountTunnelSessions B b m'"
proof -
  have f: "filter (matches_filter B b) xs = filter (\<lambda>s. \<not> (b \<and> Status s \<noteq> ''active'')) (filter (\<lambda>t. tsOrgID t = B) xs)" for b xs
    using assms(2) by (auto simp: matches_filter_def intro!: filter_cong)
  have r: "filter (\<lambda>t. tsOrgID t = B) (rev (tunnelHist m)) = filter (\<lambda>t. tsOrgID t = B) (rev (tunnelHist m'))"
    using assms(1) by (simp add: rev_filter [symmetric])
  show "fOrgID f = B \<Longrightarrow> ListTunnelSessions f m = ListTunnelSessions f m'" by (simp add: ListTunnelSessions_def f r)
  show "CountTunnelSessions B b m = CountTunnelSessions B b m'" by (simp add: CountTunnelSessions_def f assms(1))
qed

lemma OrgsForUser_own:
  assumes "filter (\<lambda>e. omUserID e = u) (members m) = filter (\<lambda>e. omUserID e = u) (members m')"
    and "\<forall>e \<in> set (members m). omUserID e = u \<longrightarrow> gget (orgs m) (omOrgID e) = gget (orgs m') (omOrgID e)"
  shows "OrgsForUser u m = OrgsForUser u m'"
proof -
  have "List.map_filter (\<lambda>e. if omUserID e = u then g e else None) xs = List.map_filter g (filter (\<lambda>e. omUserID e = u) xs)"
    for g :: "OrgMember \<Rightarrow> Org option" and xs by (induction xs) (auto simp: map_filter_simps split: option.split)
  then have own: "OrgsForUser u m = List.map_filter (\<lambda>e. gget (orgs m) (omOrgID e)) (filter (\<lambda>e. omUserID e = u) (members m))" for m
    by (simp add: OrgsForUser_def)
  have cong: "List.map_filter f xs = List.map_filter g xs" if "\<forall>x \<in> set xs. f x = g x" for f g :: "OrgMember \<Rightarrow> Org option" and xs
    using that by (induction xs) (auto simp: map_filter_simps split: option.split)
  show ?thesis using assms(2) unfolding own assms(1) [symmetric] by (intro cong) auto
qed

lemma reads_own:
  assumes "store_ok (ctStore ct)" "prOrgID p \<noteq> ''''" "same_view p (ctStore ct) m'" "reads e"
  shows "fst (serve_account v d q ps p e ct) = fst (serve_account v d q ps p e (ct\<lparr>ctApi := (ctApi ct)\<lparr>aStore := m'\<rparr>\<rparr>))"
proof -
  let ?m = "ctStore ct"
  have rows: "filter (\<lambda>k. kyOrgID k = prOrgID p) (map snd (keys ?m)) = filter (\<lambda>k. kyOrgID k = prOrgID p) (map snd (keys m'))"
    "filter (\<lambda>s. rsuOrgID s = prOrgID p) (map snd (subs ?m)) = filter (\<lambda>s. rsuOrgID s = prOrgID p) (map snd (subs m'))"
    "filter (\<lambda>k. cdOrgID k = prOrgID p) (map snd (domains ?m)) = filter (\<lambda>k. cdOrgID k = prOrgID p) (map snd (domains m'))"
    "ListOrgMembers (prOrgID p) ?m = ListOrgMembers (prOrgID p) m'"
    and org: "GetOrg (prOrgID p) m' = GetOrg (prOrgID p) ?m" "GetSubscriptionForOrg (prOrgID p) m' = GetSubscriptionForOrg (prOrgID p) ?m"
    and use: "filter (\<lambda>u. urOrgID u = prOrgID p) (stUsage ?m) = filter (\<lambda>u. urOrgID u = prOrgID p) (stUsage m')"
    and tun: "filter (\<lambda>t. tsOrgID t = prOrgID p) (tunnelHist ?m) = filter (\<lambda>t. tsOrgID t = prOrgID p) (tunnelHist m')"
    using assms(3) by (auto simp: same_view_def own_view_def GetOrg_def GetSubscriptionForOrg_def ListOrgMembers_def the_row_def)
  have user: "GetUser (prUserID p) m' = GetUser (prUserID p) ?m" using assms(3) by (auto simp: same_view_def GetUser_def the_row_def)
  have owner: "GetUser (ownerUserID (ListOrgMembers (prOrgID p) ?m)) m' = GetUser (ownerUserID (ListOrgMembers (prOrgID p) ?m)) ?m"
    if "ownerUserID (ListOrgMembers (prOrgID p) ?m) \<noteq> ''''"
  proof -
    let ?ms = "ListOrgMembers (prOrgID p) ?m"
    have "\<exists>e \<in> set ?ms. omUserID e = ownerUserID ?ms"
    proof (cases "filter (\<lambda>e. Role e = ''owner'') ?ms")
      case Nil
      with that show ?thesis by (auto simp: ownerUserID_def split: list.splits)
    next
      case (Cons a as)
      then have "a \<in> set ?ms" by (metis filter_is_subset list.set_intros(1) subsetD)
      with Cons show ?thesis by (auto simp: ownerUserID_def)
    qed
    then show ?thesis using assms(3) by (auto simp: same_view_def GetUser_def the_row_def ListOrgMembers_def)
  qed
  have orgs: "OrgsForUser (prUserID p) m' = OrgsForUser (prUserID p) ?m" using assms(3) by (intro OrgsForUser_own [symmetric]) (auto simp: same_view_def)
  note own = rows user orgs org usage_own [OF use] tunnels_own [OF tun assms(2)]
  note handlers = reading_def on_remote_def handleAccount_def handleMe_def handleUsage_def handleUsageHistory_def handleListOrgs_def
    handleListTunnels_def handleTunnelHistory_def handleListAPIKeys_def handleListSubdomains_def handleListDomains_def ListAPIKeys_def
    ListSubdomains_def ListCustomDomains_def HandlePortal_def HandleSubscription_def
  show ?thesis
  proof (cases e)
    case EpMe
    then show ?thesis using own owner GetOrg_id [OF assms(1)] by (auto simp: handlers Let_def split: sum.splits)
  next
    case EpUsage
    then show ?thesis using own GetOrg_id [OF assms(1)] by (auto simp: handlers Let_def split: sum.splits)
  qed (use assms(4) own in \<open>auto simp: handlers Let_def split: sum.splits prod.splits\<close>)
qed

text \<open>C8. What a caller reads depends only on its own rows. Take a request for an account endpoint that reads (keys, subdomains, domains,
  usage and its history, tunnels and their history, organisations, profile, subscription, plans, portal, pairings), whose credentials name an
  organisation. Replace the store by any other in which the same credentials are accepted, and which agrees with it, once they are, on the rows of
  that organisation, on the memberships of the signed-in user with the organisations these name, and on the users of that organisation: the
  answer is the same, status, body and cookies. So no row of another organisation shows in it, not even in a sum. Credentials without an organisation are
  excepted, since the listing of tunnels reads an empty organisation as all of them.\<close>

theorem answers_depend_on_own_rows:
  assumes "store_reach (ctStore ct)"
    and "find_route (routes (ctCfg ct)) (hqMethod q) (hqPath q) = Inr (r, ps)" "rtEnd r = AccountEp e" "reads e"
    and "Middleware (ceParse v) (aAuth (ctApi ct)) (ceIdkey v) (cdNow d) (hqHeader q) (ctStore ct) = (Some p, m)"
    and "Middleware (ceParse v) (aAuth (ctApi ct)) (ceIdkey v) (cdNow d) (hqHeader q) other = (Some p, m')"
    and "prOrgID p \<noteq> ''''" "same_view p m m'"
  shows "fst (serve v d q (ct\<lparr>ctApi := (ctApi ct)\<lparr>aStore := other\<rparr>\<rparr>)) = fst (serve v d q ct)"
proof -
  have "store_reach m" using Middleware_cases [OF assms(5)] assms(1) store_reach.step [OF assms(1) store_step.intros(9)] by auto
  note ok = store_ok_reach [OF this]
  have ep: "fst (run_endpoint v d q r ps (ct'\<lparr>ctApi := (ctApi ct)\<lparr>aStore := other\<rparr>\<rparr>)) = fst (run_endpoint v d q r ps ct')"
    if "ctApi ct' = ctApi ct" for ct'
    using reads_own [of "ct'\<lparr>ctApi := (ctApi ct)\<lparr>aStore := m\<rparr>\<rparr>" p m' e v d q ps] ok assms(3-8) that by (simp add: run_endpoint_def)
  have comm: "c\<lparr>ctApi := a, ctAuthLimiter := l\<rparr> = c\<lparr>ctAuthLimiter := l, ctApi := a\<rparr>" "c\<lparr>ctApi := a, ctApiLimiter := l\<rparr> = c\<lparr>ctApiLimiter := l, ctApi := a\<rparr>"
    for a l and c :: Control by simp_all
  have lim: "limited t (ct\<lparr>ctApi := (ctApi ct)\<lparr>aStore := other\<rparr>\<rparr>) q l = limited t ct q l" for t l by (simp add: limited_def)
  have route: "fst (run_route v d q r ps (ct'\<lparr>ctApi := (ctApi ct)\<lparr>aStore := other\<rparr>\<rparr>)) = fst (run_route v d q r ps ct')"
    if "ctApi ct' = ctApi ct" for ct'
    using ep [OF that] ep [of "ct'\<lparr>ctAuthLimiter := l\<rparr>" for l] that
    by (auto simp: run_route_def limited_def comm split: prod.splits bool.splits)
  show ?thesis
    using route [of ct] route [of "ct\<lparr>ctApiLimiter := l\<rparr>" for l] assms(2)
    by (auto simp: serve_def Let_def lim comm split: prod.splits bool.splits)
qed

definition ex_claims_b :: Claims where
  "ex_claims_b = ex_claims\<lparr>clSubject := ''usr_b'', clOrgID := ''org_b'', clKind := ''access''\<rparr>"

definition ex_me :: HttpReq where
  "ex_me = ex_delete\<lparr>hqMethod := ''GET'', hqPath := [''v1'', ''usage''], hqHeader := [(canon ''Authorization'', [''jwt''])]\<rparr>"

lemma ex_me_route: "find_route (routes DefaultApiConfig) ''GET'' [''v1'', ''usage''] =
    Inr (\<lparr>rtMethod = ''GET'', rtPath = [Lit ''v1'', Lit ''usage''], rtGuard = Authenticated, rtEnd = AccountEp EpUsage\<rparr>, [])"
  by (simp add: routes_def v1_routes_def root_routes_def public_routes_def login_routes_def account_routes_def admin_routes_def internal_routes_def mk_def)

lemma ex_me_principal:
  "Middleware (\<lambda>s t x. Some ex_claims_b) au ik t (hqHeader ex_me) m =
     (Some \<lparr>prUserID = ''usr_b'', prOrgID = ''org_b'', ViaAPIKey = False, prAPIKeyID = ''''\<rparr>, m)"
  by (simp add: Middleware_def bearerToken_def ex_me_def hdr_Get_def has_prefix_def to_lower_def trim_space_def is_space_def ParseToken_def
      ex_claims_b_def Let_def)

text \<open>The usage another organisation reports leaves the answer about one's own usage alone.\<close>

theorem answers_depend_on_own_rows_witness:
  "fst (serve (ex_cp\<lparr>ceParse := (\<lambda>s t x. Some ex_claims_b)\<rparr>) ex_cpdraw ex_me
       (ex_control\<lparr>ctApi := (ctApi ex_control)\<lparr>aStore := (ctStore ex_control)\<lparr>stUsage := [\<lparr>urOrgID = ''org_a'', urTunnelID = ''t'',
          urBytesIn = 5, urBytesOut = 6, urRequests = 7, urWindowStart = 0, urWindowEnd = 9\<rparr>]\<rparr>\<rparr>\<rparr>)) =
   fst (serve (ex_cp\<lparr>ceParse := (\<lambda>s t x. Some ex_claims_b)\<rparr>) ex_cpdraw ex_me ex_control)"
proof (rule answers_depend_on_own_rows [OF ex_control_reach])
  let ?v = "ex_cp\<lparr>ceParse := (\<lambda>s t x. Some ex_claims_b)\<rparr>" and ?p = "\<lparr>prUserID = ''usr_b'', prOrgID = ''org_b'', ViaAPIKey = False, prAPIKeyID = ''''\<rparr>"
  have q: "hqMethod ex_me = ''GET''" "hqPath ex_me = [''v1'', ''usage'']" by (simp_all add: ex_me_def ex_delete_def)
  have cfg: "ctCfg ex_control = DefaultApiConfig" by (simp add: ex_control_def newControl_def Let_def)
  show "find_route (routes (ctCfg ex_control)) (hqMethod ex_me) (hqPath ex_me) =
      Inr (\<lparr>rtMethod = ''GET'', rtPath = [Lit ''v1'', Lit ''usage''], rtGuard = Authenticated, rtEnd = AccountEp EpUsage\<rparr>, [])"
    by (simp add: q cfg ex_me_route)
  show "Middleware (ceParse ?v) (aAuth (ctApi ex_control)) (ceIdkey ?v) (cdNow ex_cpdraw) (hqHeader ex_me) (ctStore ex_control) =
      (Some ?p, ctStore ex_control)" by (simp add: ex_me_principal)
  show "Middleware (ceParse ?v) (aAuth (ctApi ex_control)) (ceIdkey ?v) (cdNow ex_cpdraw) (hqHeader ex_me) m = (Some ?p, m)" for m
    by (simp add: ex_me_principal)
  show "same_view ?p (ctStore ex_control) ((ctStore ex_control)\<lparr>stUsage := [\<lparr>urOrgID = ''org_a'', urTunnelID = ''t'',
          urBytesIn = 5, urBytesOut = 6, urRequests = 7, urWindowStart = 0, urWindowEnd = 9\<rparr>]\<rparr>)"
    by (simp add: same_view_def own_view_def ex_control_store NewMemStore_def)
qed (simp_all only: route.simps reads.simps, simp_all)

end
