(* ===== verification/Domains.thy ===== *)
theory Domains
  imports Tenants
begin

text \<open>
  The control plane over its whole life: every run of requests, from the start, keeps the store within the states that
  theory \<open>StoreInv\<close> reasons about, and a custom domain is verified only for who controls its DNS zone. The limits of a plan on
  reserved subdomains, and the interleaving of requests that exceeds them.
\<close>

section \<open>Steps that leave the domains alone\<close>

lemma frame_ops [simp]:
  "domains (snd (CreateUser t nid u m)) = domains m"
  "domains (snd (UpdateUserProfile i n a m)) = domains m"
  "domains (snd (CreateOrg t nid og m)) = domains m"
  "domains (snd (UpdateOrgPlan i p m)) = domains m"
  "domains (snd (SetOrgPlan i p ex m)) = domains m"
  "domains (snd (SetOrgStripeCustomer i c m)) = domains m"
  "domains (snd (AddOrgMember x m)) = domains m"
  "domains (snd (CreateAPIKey t nid k m)) = domains m"
  "domains (snd (TouchAPIKey i t m)) = domains m"
  "domains (snd (RevokeAPIKey i org t m)) = domains m"
  "domains (snd (ReserveSubdomain t nid s m)) = domains m"
  "domains (snd (ReleaseSubdomain i org m)) = domains m"
  "domains (snd (RecordTunnelOpen t nid ts m)) = domains m"
  "domains (snd (CloseTunnelSession e se tu en bi bo rq m)) = domains m"
  "domains (snd (UpsertSubscription t nid sb m)) = domains m"
  "domains (snd (DeleteSubscription i m)) = domains m"
  "domains (snd (MarkEventProcessed i m)) = domains m"
  "domains (UpsertUsage ur m) = domains m"
  by (simp_all add: CreateUser_def UpdateUserProfile_def CreateOrg_def UpdateOrgPlan_def SetOrgPlan_def SetOrgStripeCustomer_def AddOrgMember_def CreateAPIKey_def TouchAPIKey_def RevokeAPIKey_def ReserveSubdomain_def ReleaseSubdomain_def RecordTunnelOpen_def CloseTunnelSession_def UpsertSubscription_def DeleteSubscription_def MarkEventProcessed_def UpsertUsage_def upd_org_def Let_def split: option.splits)

definition quiet :: "MemStore \<Rightarrow> MemStore \<Rightarrow> bool" where
  "quiet m m' \<longleftrightarrow> (store_reach m \<longrightarrow> store_reach m') \<and> domains m' = domains m"

lemma quiet_refl [simp]: "quiet m m"
  by (simp add: quiet_def)

lemma quiet_trans: "quiet m m1 \<Longrightarrow> quiet m1 m2 \<Longrightarrow> quiet m m2"
  by (simp add: quiet_def)

lemma quietI: "store_step m m' \<Longrightarrow> domains m' = domains m \<Longrightarrow> quiet m m'"
  by (auto simp: quiet_def intro: store_reach.step)

lemma quiet_ops:
  "gget (users m) (or_id nid (usID u)) = None \<Longrightarrow> quiet m (snd (CreateUser t nid u m))"
  "quiet m (snd (UpdateUserProfile i n a m))"
  "gget (orgs m) (or_id nid (orID og)) = None \<Longrightarrow> quiet m (snd (CreateOrg t nid og m))"
  "quiet m (snd (UpdateOrgPlan i p m))"
  "quiet m (snd (SetOrgPlan i p ex m))"
  "quiet m (snd (SetOrgStripeCustomer i c m))"
  "quiet m (snd (AddOrgMember x m))"
  "gget (keys m) (or_id nid (kyID k)) = None \<Longrightarrow> quiet m (snd (CreateAPIKey t nid k m))"
  "quiet m (snd (TouchAPIKey i t m))"
  "quiet m (snd (RevokeAPIKey i org t m))"
  "gget (subs m) (or_id nid (rsuID s)) = None \<Longrightarrow> quiet m (snd (ReserveSubdomain t nid s m))"
  "quiet m (snd (ReleaseSubdomain i org m))"
  "quiet m (snd (RecordTunnelOpen t nid ts m))"
  "quiet m (snd (CloseTunnelSession e se tu en bi bo rq m))"
  "quiet m (snd (UpsertSubscription t nid sb m))"
  "quiet m (snd (DeleteSubscription i m))"
  "quiet m (snd (MarkEventProcessed i m))"
  "quiet m (UpsertUsage ur m)"
  by (rule quietI; (rule store_step.intros | simp); assumption?)+

lemma quiet_results:
  "gget (users m) (or_id nid (usID u)) = None \<Longrightarrow> CreateUser t nid u m = (r1, m') \<Longrightarrow> quiet m m'"
  "UpdateUserProfile i n a m = (r2, m') \<Longrightarrow> quiet m m'"
  "gget (orgs m) (or_id nid (orID og)) = None \<Longrightarrow> CreateOrg t nid og m = (r3, m') \<Longrightarrow> quiet m m'"
  "UpdateOrgPlan i p m = (r4, m') \<Longrightarrow> quiet m m'"
  "SetOrgPlan i p ex m = (r5, m') \<Longrightarrow> quiet m m'"
  "SetOrgStripeCustomer i c m = (r6, m') \<Longrightarrow> quiet m m'"
  "AddOrgMember x m = (r7, m') \<Longrightarrow> quiet m m'"
  "gget (keys m) (or_id nid (kyID k)) = None \<Longrightarrow> CreateAPIKey t nid k m = (r8, m') \<Longrightarrow> quiet m m'"
  "TouchAPIKey i t m = (r9, m') \<Longrightarrow> quiet m m'"
  "RevokeAPIKey i org t m = (r10, m') \<Longrightarrow> quiet m m'"
  "gget (subs m) (or_id nid (rsuID s)) = None \<Longrightarrow> ReserveSubdomain t nid s m = (r11, m') \<Longrightarrow> quiet m m'"
  "ReleaseSubdomain i org m = (r12, m') \<Longrightarrow> quiet m m'"
  "RecordTunnelOpen t nid ts m = (r16, m') \<Longrightarrow> quiet m m'"
  "CloseTunnelSession e se tu en bi bo rq m = (r17, m') \<Longrightarrow> quiet m m'"
  "UpsertSubscription t nid sb m = (r18, m') \<Longrightarrow> quiet m m'"
  "DeleteSubscription i m = (r19, m') \<Longrightarrow> quiet m m'"
  "MarkEventProcessed i m = (r20, m') \<Longrightarrow> quiet m m'"
  by (metis quiet_ops snd_conv)+

section \<open>Handlers\<close>

lemma quiet_keys:
  assumes "gget (keys m) (dKeyID dr) = None"
  shows "quiet m (snd (handleCreateAPIKey ik dr p body m))"
    and "aStore a = m \<Longrightarrow> quiet m (aStore (snd (handleDeviceApprove ik dr p code a)))"
proof -
  have "quiet m m'" if "CreateAPIKey t (dKeyID dr) (zeroKey\<lparr>kyOrgID := A, kyName := n, Prefix := x, Hash := h\<rparr>) m = (r, m')" for t A n x h r m'
    using quiet_results(8) [OF _ that] assms by (simp add: zeroKey_def)
  then show "quiet m (snd (handleCreateAPIKey ik dr p body m))"
    and "aStore a = m \<Longrightarrow> quiet m (aStore (snd (handleDeviceApprove ik dr p code a)))"
    by (auto simp: handleCreateAPIKey_def handleDeviceApprove_def Let_def split: option.splits prod.splits sum.splits)
qed

lemma quiet_handleReserveSubdomain:
  assumes "gget (subs m) nid = None"
  shows "quiet m (snd (handleReserveSubdomain t nid p body m))"
proof -
  have "quiet m m'" if "ReserveSubdomain t nid \<lparr>rsuID = '''', rsuOrgID = A, Subdomain = s, rsuCreatedAt = 0\<rparr> m = (r, m')" for A s r m'
    using quiet_results(11) [OF _ that] assms by simp
  then show ?thesis
    by (auto simp: handleReserveSubdomain_def reserveCommit_def Let_def split: option.splits sum.splits prod.splits store_error.splits)
qed

lemma quiet_small:
  "quiet m (snd (handleRevokeAPIKey t p i m))" "quiet m (snd (handleReleaseSubdomain p i m))"
  "quiet m (snd (handleAdminGrant t gr m))" "quiet m (snd (handleAdminRevoke t em m))"
  by (simp_all add: handleRevokeAPIKey_def handleReleaseSubdomain_def handleAdminGrant_def handleAdminRevoke_def Let_def snd_tail quiet_ops
      split: option.split prod.split)

lemma quiet_HandleCheckout: "quiet m (snd (HandleCheckout api c A plan cad m))"
  using HandleCheckout_store [of api c A plan cad m] quiet_ops(6) by force

lemma quiet_newAccount:
  assumes "gget (users m) (dUserID dr) = None" "gget (orgs m) (dOrgID dr) = None"
  shows "quiet m (snd (newAccount dr em n av pr m))"
proof -
  define n' where "n' = (if n = '''' then hd (split_byte CHR ''@'' em) else n)"
  define u0 where "u0 = \<lparr>usID = '''', Email = em, usName = n', AvatarURL = av, OAuthProvider = pr, usCreatedAt = 0\<rparr>"
  define o0 where "o0 = \<lparr>orID = '''', orName = n' @ CHR 0x27 # ''s org'', orPlan = PlanFree, StripeCustomerID = '''', orCreatedAt = 0, PlanExpiresAt = None\<rparr>"
  obtain r1 m1 where 1: "CreateUser (dNow dr) (dUserID dr) u0 m = (r1, m1)" by fastforce
  have q1: "quiet m m1" using quiet_results(1) [OF _ 1] assms(1) by (simp add: u0_def)
  have "orgs m1 = orgs m" using 1 by (auto simp: CreateUser_def Let_def split: if_splits)
  obtain og m2 where 2: "CreateOrg (dNow dr) (dOrgID dr) o0 m1 = (og, m2)" by fastforce
  have q2: "quiet m1 m2" using quiet_results(3) [OF _ 2] assms(2) \<open>orgs m1 = orgs m\<close> by (simp add: o0_def)
  have q3: "quiet m2 m3" if "AddOrgMember x m2 = (r3, m3)" for x r3 m3 using quiet_results(7) [OF that] .
  show ?thesis
    using q1 q2 q3 quiet_trans unfolding newAccount_def Let_def n'_def [symmetric] u0_def [symmetric] o0_def [symmetric] 1
    by (auto simp: 2 split: sum.splits prod.splits)
qed

lemma quiet_provisionUser:
  assumes "gget (users m) (dUserID dr) = None" "gget (orgs m) (dOrgID dr) = None"
  shows "quiet m (snd (provisionUser dr em n av pr m))"
proof (cases "GetUserByEmail em m")
  case (Inl e)
  then show ?thesis using quiet_newAccount [OF assms] by (cases e) (simp_all add: provisionUser_def)
next
  case (Inr u)
  define X where "X = (if av \<noteq> '''' \<and> av \<noteq> AvatarURL u \<or> n \<noteq> '''' \<and> n \<noteq> usName u
     then (case UpdateUserProfile (usID u) n av m of
             (Inr _, m1) \<Rightarrow> (let u1 = (if n \<noteq> '''' then u\<lparr>usName := n\<rparr> else u) in (if av \<noteq> '''' then u1\<lparr>AvatarURL := av\<rparr> else u1, m1))
           | (Inl _, m1) \<Rightarrow> (u, m1))
     else (u, m))"
  have "snd X = (if av \<noteq> '''' \<and> av \<noteq> AvatarURL u \<or> n \<noteq> '''' \<and> n \<noteq> usName u then snd (UpdateUserProfile (usID u) n av m) else m)"
    by (simp add: X_def Let_def split: prod.split sum.split)
  then have "quiet m (snd X)" using quiet_ops(2) by simp
  moreover have "snd (provisionUser dr em n av pr m) = snd X"
    by (simp add: provisionUser_def Inr X_def [symmetric] split: prod.split sum.split)
  ultimately show ?thesis by simp
qed

lemma quiet_dispatch: "quiet m (snd (dispatch c t nid e m))"
proof -
  have mp: "snd (map_prod isl (\<lambda>x. x) y) = snd y" for y :: "('a + 'b) \<times> MemStore" by (cases y) simp
  have sync: "quiet m (snd (syncCustomer i cu m))" for i cu m by (simp add: syncCustomer_def mp quiet_ops)
  have sync': "quiet m m1" if "syncCustomer i cu m = (b, m1)" for i cu m b m1 using sync [of m i cu] that by simp
  have up: "quiet m (snd (UpdateOrgPlan i p (snd (UpsertSubscription t nid sb m))))" for i p sb m
    by (rule quiet_trans [OF quiet_ops(15) quiet_ops(4)])
  have "quiet m (snd (onCheckoutCompleted e m))" by (auto simp: onCheckoutCompleted_def mp quiet_ops Let_def split: option.splits)
  moreover have "quiet m (snd (onSubscriptionUpsert c t nid e m))"
    by (auto simp: onSubscriptionUpsert_def mp Let_def intro: quiet_trans [OF sync'] up quiet_ops quiet_trans [OF sync' quiet_ops(15)]
        quiet_trans [OF sync' up] dest: sync' split: option.splits sum.splits prod.splits bool.splits)
  moreover have "quiet m (snd (onSubscriptionDeleted e m))"
    by (auto simp: onSubscriptionDeleted_def intro: quiet_results quiet_trans split: option.splits sum.splits prod.splits)
  moreover have "quiet m (snd (onInvoicePaid t nid e m))"
    by (auto simp: onInvoicePaid_def mp Let_def intro: up quiet_ops split: option.splits prod.splits)
  moreover have "quiet m (snd (onInvoicePaymentFailed t nid e m))"
    by (auto simp: onInvoicePaymentFailed_def intro: quiet_ops split: option.splits prod.splits)
  ultimately show ?thesis by (simp add: dispatch_def)
qed

lemma quiet_HandleWebhook: "quiet m (snd (HandleWebhook hm parse c t nid raw hdr m))"
proof -
  have "quiet m m2" if "MarkEventProcessed i m = (b, m1)" "dispatch c t nid e m1 = (b', m2)" for i b m1 e b' m2
    using quiet_trans [OF quiet_results(17) [OF that(1)] quiet_dispatch [of m1 c t nid e]] that(2) by simp
  then show ?thesis by (auto simp: HandleWebhook_def Let_def intro: quiet_results split: option.splits prod.splits bool.splits)
qed

lemma quiet_Middleware: "Middleware prs au ik t hdr m = (r, m') \<Longrightarrow> quiet m m'"
  using Middleware_cases [of prs au ik t hdr m r m'] quiet_ops(9) by auto

lemma quiet_rpc: "quiet m (fst (snd (rpc_serve v want t rb nid got rq (m, g))))"
proof -
  have auth: "quiet m m'" if "AuthenticateAPIKey ik t k m = (r, m')" for ik k r m'
    using that by (auto simp: AuthenticateAPIKey_def intro: quiet_ops split: option.splits sum.splits if_splits)
  have ent: "quiet m m'" if "ent_Authenticate ik t k m = (r, m')" for ik k r m'
    using that by (auto simp: ent_Authenticate_def dest: auth split: prod.splits sum.splits)
  show ?thesis
    by (cases rq) (auto simp: rpc_serve_def internalTokenGuard_def rpc_handle_def rpcAuthenticate_def rpcCheckBind_def ent_CheckBind_def
        rpcReportUsage_def ReportUsage_def rpcReportTunnel_def Let_def dest: ent intro: quiet_ops split: prod.splits sum.splits option.splits if_splits)
qed

section \<open>Runs of the control plane\<close>

text \<open>A domain that is verified was found under its challenge name in the DNS at the time of its verification.\<close>

definition dns_proved :: "CpEnv \<Rightarrow> MemStore \<Rightarrow> bool" where
  "dns_proved v m \<longleftrightarrow>
     (\<forall>i d t. gget (domains m) i = Some d \<longrightarrow> VerifiedAt d = Some t \<longrightarrow> dnsHasTXT (ceTxt v t) (''_trqsh-challenge.'' @ Domain d) (VerifyToken d))"

definition good_step :: "CpEnv \<Rightarrow> MemStore \<Rightarrow> MemStore \<Rightarrow> bool" where
  "good_step v m m' \<longleftrightarrow> (store_reach m \<longrightarrow> store_reach m') \<and> (dns_proved v m \<longrightarrow> dns_proved v m')"

lemma good_quiet: "quiet m m' \<Longrightarrow> good_step v m m'"
  by (simp add: quiet_def good_step_def dns_proved_def)

lemma good_trans: "good_step v m m1 \<Longrightarrow> good_step v m1 m2 \<Longrightarrow> good_step v m m2"
  by (simp add: good_step_def)

lemma good_handleAddDomain:
  assumes "gget (domains m) nid = None"
  shows "good_step v m (snd (handleAddDomain c t nid rb p body m))"
proof -
  have "good_step v m m'" if a: "AddCustomDomain t nid (zeroDomain\<lparr>cdOrgID := A, Domain := n, VerifyToken := x\<rparr>) m = (r, m')" for A n x r m'
  proof -
    have "gget (domains m) (or_id nid (cdID (zeroDomain\<lparr>cdOrgID := A, Domain := n, VerifyToken := x\<rparr>))) = None"
      using assms by (simp add: zeroDomain_def)
    from store_step.intros(13) [OF this, of t] have "store_reach m \<longrightarrow> store_reach m'" using store_reach.step a by simp
    then show ?thesis using a
      by (auto simp: good_step_def dns_proved_def AddCustomDomain_def zeroDomain_def Let_def split: if_splits)
  qed
  then show ?thesis by (auto simp: handleAddDomain_def Let_def good_step_def split: option.splits sum.splits prod.splits store_error.splits)
qed

lemma good_handleVerifyDomain:
  assumes "\<not> DevAuth c"
  shows "good_step v m (snd (handleVerifyDomain (ceTxt v t) c t p i force m))"
proof -
  have "good_step v m m'"
    if d: "GetCustomDomain i A m = Inr d" "dnsHasTXT (ceTxt v t) (''_trqsh-challenge.'' @ Domain d) (VerifyToken d)"
      and a: "VerifyCustomDomain i A t m = (r, m')" for A d r m'
  proof -
    from store_step.intros(14) [of m i A t] have "store_reach m \<longrightarrow> store_reach m'" using store_reach.step a by simp
    then show ?thesis using a d
      by (auto simp: good_step_def dns_proved_def VerifyCustomDomain_def GetCustomDomain_def split: option.splits if_splits)
  qed
  then show ?thesis using assms
    by (auto simp: handleVerifyDomain_def Let_def good_step_def split: sum.splits prod.splits)
qed

lemma good_serve_account:
  assumes "fresh_ids d (ctStore ct)" "\<not> DevAuth (ctCfg ct)"
  shows "good_step v (ctStore ct) (ctStore (snd (serve_account v d q ps p e ct)))"
proof -
  have fr: "gget (keys (ctStore ct)) (dKeyID (cdDraw d)) = None" "gget (subs (ctStore ct)) (cdRowID d) = None"
    "gget (domains (ctStore ct)) (cdRowID d) = None" using assms(1) by (auto simp: fresh_ids_def)
  have refl: "good_step v m m" for m by (simp add: good_step_def)
  show ?thesis
  proof (cases e)
    case EpCheckout
    have "good_step v (ctStore ct) m'" if "HandleCheckout (ceStripe v) (ctBilling ct) (prOrgID p) pl cad (ctStore ct) = (r, m')" for pl cad r m'
      using good_quiet [OF quiet_HandleCheckout, of v "ctStore ct" "ceStripe v" "ctBilling ct" "prOrgID p" pl cad] that by simp
    then show ?thesis by (auto simp: EpCheckout with_body_def Let_def refl split: option.splits prod.splits)
  next
    case EpUsageHistory
    then show ?thesis by (simp add: ctStore_reading refl split: prod.splits)
  next
    case EpPortal
    then show ?thesis by (simp add: ctStore_reading refl split: prod.splits)
  next
    case EpDeviceApprove
    then show ?thesis using good_quiet [OF quiet_keys(2) [OF fr(1) HOL.refl]] refl by (auto simp: with_body_def ctStore_on_api split: option.splits)
  qed (use assms fr in \<open>simp_all add: ctStore_simps refl good_handleAddDomain good_handleVerifyDomain
        good_quiet [OF quiet_keys(1)] good_quiet [OF quiet_handleReserveSubdomain] quiet_small good_quiet\<close>)
qed

lemma good_serve_login:
  assumes "fresh_ids d (ctStore ct)"
  shows "good_step v (ctStore ct) (ctStore (snd (serve_login v d q ps e ct)))"
proof -
  have prov: "quiet (ctStore ct) m'" if "provisionUser (cdDraw d) em n av pr (ctStore ct) = (r, m')" for em n av pr r m'
    using quiet_provisionUser [of "ctStore ct" "cdDraw d" em n av pr] that assms by (simp add: fresh_ids_def)
  have cb: "quiet (ctStore ct) (aStore a')"
    if "handleOAuthCallback sg pro (cdDraw d) qs sc code nc (ctApi ct) = (r, a')" for sg pro qs sc code nc r a'
    using that by (auto simp: handleOAuthCallback_def Let_def dest: prov split: option.splits if_splits prod.splits bool.splits sum.splits)
  have su: "quiet (ctStore ct) (aStore (snd (handleSignup sg (cdDraw d) em n (ctApi ct))))" for sg em n
    by (auto simp: handleSignup_def dest: prov split: prod.splits sum.splits)
  have "quiet (ctStore ct) (ctStore (snd (serve_login v d q ps e ct)))"
  proof (cases e)
    case EpOAuthCallback
    then show ?thesis by (auto simp: Let_def dest: cb split: prod.splits sum.splits)
  next
    case EpSignup
    then show ?thesis by (auto simp: with_body_def ctStore_on_api su split: option.splits)
  qed (auto simp: with_body_def ctStore_on_api handleLogin_def handleRefresh_def handleOAuthStart_def handleLogout_def handleDeviceCode_def
      handleDeviceToken_def Let_def split: option.splits prod.splits sum.splits)
  then show ?thesis by (rule good_quiet)
qed

lemma good_run_endpoint:
  assumes "fresh_ids d (ctStore ct)" "\<not> DevAuth (ctCfg ct)"
  shows "good_step v (ctStore ct) (ctStore (snd (run_endpoint v d q r ps ct)))"
proof (cases "rtEnd r")
  case (RootEp e)
  then show ?thesis by (cases e) (auto simp: run_endpoint_def ctStore_reading Let_def good_step_def split: sum.splits)
next
  case (PublicEp e)
  have "quiet (ctStore ct) m'" if "HandleWebhook hm parse c t nid raw hdr (ctStore ct) = (x, m')" for hm parse c t nid raw hdr x m'
    using quiet_HandleWebhook [of "ctStore ct" hm parse c t nid raw hdr] that by simp
  then have "quiet (ctStore ct) (ctStore (snd (run_endpoint v d q r ps ct)))"
    using PublicEp by (cases e) (auto simp: run_endpoint_def ctStore_reading ctStore_on_remote split: prod.splits)
  then show ?thesis by (rule good_quiet)
next
  case (LoginEp e)
  then show ?thesis using good_serve_login [OF assms(1)] by (simp add: run_endpoint_def)
next
  case (AccountEp e)
  obtain po m where mw: "Middleware (ceParse v) (aAuth (ctApi ct)) (ceIdkey v) (cdNow d) (hqHeader q) (ctStore ct) = (po, m)" by fastforce
  have q: "good_step v (ctStore ct) m" by (rule good_quiet [OF quiet_Middleware [OF mw]])
  have touch: "fresh_ids d (snd (TouchAPIKey i t m0)) = fresh_ids d m0" for i t m0
    by (auto simp: TouchAPIKey_def fresh_ids_def split: option.splits)
  have fr: "fresh_ids d m" using Middleware_cases [OF mw] assms(1) by (auto simp: touch)
  show ?thesis
  proof (cases po)
    case None
    then show ?thesis using q by (simp add: run_endpoint_def AccountEp mw)
  next
    case (Some p)
    then show ?thesis
      using good_trans [OF q] good_serve_account [of d "ct\<lparr>ctApi := (ctApi ct)\<lparr>aStore := m\<rparr>\<rparr>" v q ps p e] fr assms(2)
      by (simp add: run_endpoint_def AccountEp mw)
  qed
next
  case (AdminEp e)
  have "quiet (ctStore ct) (ctStore (snd (run_endpoint v d q r ps ct)))"
    using AdminEp by (cases e) (auto simp: run_endpoint_def ctStore_simps quiet_small split: option.splits prod.splits)
  then show ?thesis by (rule good_quiet)
next
  case (RpcEp n)
  have "quiet (ctStore ct) m'" if "rpc_serve rv want t rb nid got rq (ctStore ct, g) = (x, m', g')" for rv want t rb nid got rq g x m' g'
    using quiet_rpc [of "ctStore ct" rv want t rb nid got rq g] that by simp
  then have "quiet (ctStore ct) (ctStore (snd (run_endpoint v d q r ps ct)))"
    using RpcEp by (auto simp: run_endpoint_def serve_rpc_def split: prod.splits)
  then show ?thesis by (rule good_quiet)
qed

lemma good_serve:
  assumes "fresh_ids d (ctStore ct)" "\<not> DevAuth (ctCfg ct)"
  shows "good_step v (ctStore ct) (ctStore (snd (serve v d q ct)))"
proof -
  have refl: "good_step v m m" for m by (simp add: good_step_def)
  have "good_step v (ctStore ct) (ctStore (snd (run_route v d q r ps ct')))" if "ctApi ct' = ctApi ct" for r ps ct'
    using good_run_endpoint [of d "ct'" v q r ps] good_run_endpoint [of d "ct'\<lparr>ctAuthLimiter := l\<rparr>" v q r ps for l] that assms refl
    by (auto simp: run_route_def split: prod.splits bool.splits)
  then show ?thesis using refl by (auto simp: serve_def Let_def split: prod.splits bool.splits sum.splits)
qed

text \<open>The configuration does not change.\<close>

lemma cfg_serve: "ctCfg (snd (serve v d q ct)) = ctCfg ct"
proof -
  have st: "ctCfg (snd (on_store f h ct)) = ctCfg ct" for f h ct by (simp add: on_store_def on_api_def split: prod.splits)
  have rm: "ctCfg (snd (on_remote f h ct)) = ctCfg ct" for f h ct by (simp add: on_remote_def split: prod.splits)
  have ap: "ctCfg (snd (on_api f h ct)) = ctCfg ct" if "\<And>a. aCfg (snd (h a)) = aCfg a" for f h ct
    using that [of "ctApi ct"] by (auto simp: on_api_def split: prod.splits)
  have da: "aCfg (snd (handleDeviceApprove ik dr p code a)) = aCfg a" for ik dr p code a
    by (auto simp: handleDeviceApprove_def split: option.splits prod.splits sum.splits)
  have cb: "aCfg a' = aCfg a" if "handleOAuthCallback sg pro dr qs sc code nc a = (x, a')" for sg pro dr qs sc code nc a x a'
    using that by (auto simp: handleOAuthCallback_def Let_def split: option.splits if_splits prod.splits bool.splits sum.splits)
  have root: "ctCfg (snd (serve_root v d q e ct)) = ctCfg ct" for e ct
    by (cases e) (auto simp: reading_def Let_def split: sum.splits)
  have pub: "ctCfg (snd (serve_public v d q ps e ct)) = ctCfg ct" for ps e ct
    by (cases e) (auto simp: reading_def rm split: prod.splits)
  have log: "ctCfg (snd (serve_login v d q ps e ct)) = ctCfg ct" for ps e ct
  proof (cases e)
    case EpOAuthCallback
    then show ?thesis by (auto simp: Let_def dest: cb split: prod.splits sum.splits)
  qed (simp_all add: with_body_def ap handleSignup_def handleLogin_def handleRefresh_def handleOAuthStart_def handleLogout_def handleDeviceCode_def
      handleDeviceToken_def Let_def split: option.split prod.split sum.split)
  have acc: "ctCfg (snd (serve_account v d q ps p e ct)) = ctCfg ct" for ps p e ct
    by (cases e) (simp_all add: reading_def with_body_def st rm ap da Let_def split: option.split prod.split)
  have adm: "ctCfg (snd (serve_admin v d q e ct)) = ctCfg ct" for e ct
    by (cases e) (auto simp: reading_def st split: prod.splits)
  have "ctCfg (snd (run_endpoint v d q r ps ct)) = ctCfg ct" for r ps ct
    by (auto simp: run_endpoint_def root pub log acc adm serve_rpc_def split: endpoint.splits prod.splits option.splits)
  then show ?thesis by (auto simp: serve_def run_route_def Let_def split: prod.splits bool.splits sum.splits)
qed

definition unverified :: "MemStore \<Rightarrow> bool" where
  "unverified m \<longleftrightarrow> (\<forall>i dm. gget (domains m) i = Some dm \<longrightarrow> VerifiedAt dm = None)"

text \<open>A run of requests, from a control plane that comes up on a store with no domain verified so far, such as the empty one.\<close>

inductive cp_run :: "CpEnv \<Rightarrow> ApiConfig \<Rightarrow> Control \<Rightarrow> bool" for v c where
  start: "store_reach m \<Longrightarrow> unverified m \<Longrightarrow> ct = newControl pr c bc \<Longrightarrow> cp_run v c (ct\<lparr>ctApi := (ctApi ct)\<lparr>aStore := m\<rparr>\<rparr>)"
| step: "cp_run v c ct \<Longrightarrow> fresh_ids d (ctStore ct) \<Longrightarrow> cp_run v c (snd (serve v d q ct))"

lemma cp_run_good:
  assumes "cp_run v c ct" "\<not> DevAuth c"
  shows "store_reach (ctStore ct) \<and> dns_proved v (ctStore ct) \<and> ctCfg ct = c"
  using assms
proof (induction rule: cp_run.induct)
  case (start m ct pr bc)
  then have "dns_proved v m" by (auto simp: dns_proved_def unverified_def)
  with start show ?case by (simp add: newControl_def)
next
  case (step ct d q)
  then show ?case using good_serve [of d ct v q] by (simp add: good_step_def cfg_serve)
qed

text \<open>C6. Nobody gets a domain that is not his. In every state a control plane without development login (\<^verbatim>\<open>DevAuth\<close>, with which \<^verbatim>\<open>?force=true\<close> skips DNS) reaches from a
  store without verified domains, by whatever requests, a custom domain that counts as verified had its own random token in a TXT record under the challenge name of
  that very domain, when it was verified; and the store is one of the states its invariants hold for, so that the name belongs to
  a single account.\<close>

theorem verified_domains_were_proved:
  assumes "cp_run v c ct" "\<not> DevAuth c"
  shows "store_reach (ctStore ct)
       \<and> (GetCustomDomainByName name (ctStore ct) = Inr dm \<and> VerifiedAt dm = Some t \<longrightarrow>
            dnsHasTXT (ceTxt v t) (''_trqsh-challenge.'' @ Domain dm) (VerifyToken dm) \<and> to_lower (Domain dm) = to_lower name)"
proof -
  note run = cp_run_good [OF assms]
  then have ok: "domix.ok (ctStore ct)" using store_ok_reach by (auto simp: store_ok_def)
  have "gget (domains (ctStore ct)) (cdID dm) = Some dm \<and> to_lower (Domain dm) = to_lower name"
    if "GetCustomDomainByName name (ctStore ct) = Inr dm" "VerifiedAt dm = Some t"
  proof -
    from that obtain i where "gget (domByName (ctStore ct)) (to_lower name) = Some i"
      "(case gget (domains (ctStore ct)) i of Some d \<Rightarrow> d | None \<Rightarrow> zeroDomain) = dm"
      by (auto simp: GetCustomDomainByName_def split: option.splits)
    with ok show ?thesis by (fastforce simp: domix.ok_def index_ok_def)
  qed
  with run show ?thesis unfolding dns_proved_def by blast
qed

definition ex_dns_cfg :: ApiConfig where
  "ex_dns_cfg = DefaultApiConfig\<lparr>DevAuth := False\<rparr>"

definition ex_dns_store :: MemStore where
  "ex_dns_store = snd (AddCustomDomain 5 ''dom_1'' \<lparr>cdID = '''', cdOrgID = ''org_b'', Domain = ''b.example'', VerifyToken = ''tok'',
     VerifiedAt = None, CertStatus = '''', cdCreatedAt = 0\<rparr> NewMemStore)"

definition ex_dns_control :: Control where
  "ex_dns_control = (let ct = newControl (\<lambda>s. Inr []) ex_dns_cfg DefaultBillingConfig in ct\<lparr>ctApi := (ctApi ct)\<lparr>aStore := ex_dns_store\<rparr>\<rparr>)"

definition ex_dns_env :: CpEnv where
  "ex_dns_env = ex_cp\<lparr>ceParse := (\<lambda>s t x. Some ex_claims_b), ceTxt := (\<lambda>t n. if n = ''_trqsh-challenge.b.example'' then Some [''tok''] else None)\<rparr>"

definition ex_verify :: HttpReq where
  "ex_verify = ex_me\<lparr>hqMethod := ''POST'', hqPath := [''v1'', ''domains'', ''dom_1'', ''verify'']\<rparr>"

lemma ex_dns_lower: "to_lower ''b.example'' = ''b.example''"
  by code_simp

lemma ex_dns_store_eq:
  "ex_dns_store = NewMemStore\<lparr>domains := [(''dom_1'', \<lparr>cdID = ''dom_1'', cdOrgID = ''org_b'', Domain = ''b.example'', VerifyToken = ''tok'',
     VerifiedAt = None, CertStatus = ''pending'', cdCreatedAt = 5\<rparr>)], domByName := [(''b.example'', ''dom_1'')]\<rparr>"
  by (simp add: ex_dns_store_def AddCustomDomain_def NewMemStore_def or_id_def or_time_def ex_dns_lower Let_def)

lemma ex_verify_route: "find_route (routes ex_dns_cfg) ''POST'' [''v1'', ''domains'', ''dom_1'', ''verify''] =
    Inr (\<lparr>rtMethod = ''POST'', rtPath = [Lit ''v1'', Lit ''domains'', Param, Lit ''verify''], rtGuard = Authenticated, rtEnd = AccountEp EpVerifyDomain\<rparr>, [''dom_1''])"
  by (simp add: ex_dns_cfg_def routes_def v1_routes_def root_routes_def public_routes_def login_routes_def account_routes_def admin_routes_def
      internal_routes_def mk_def)

lemma ex_dns_run: "cp_run ex_dns_env ex_dns_cfg (snd (serve ex_dns_env ex_cpdraw ex_verify ex_dns_control))"
proof (rule cp_run.step)
  have "store_reach ex_dns_store"
    unfolding ex_dns_store_def by (rule store_reach.step [OF store_reach.start store_step.intros(13)]) (simp add: NewMemStore_def)
  moreover have "unverified ex_dns_store" by (simp add: unverified_def ex_dns_store_eq)
  ultimately show "cp_run ex_dns_env ex_dns_cfg ex_dns_control"
    unfolding ex_dns_control_def Let_def by (rule cp_run.start) (rule HOL.refl)
  show "fresh_ids ex_cpdraw (ctStore ex_dns_control)"
    by (simp add: fresh_ids_def ex_dns_control_def ex_dns_store_eq ex_cpdraw_def ex_draw_def NewMemStore_def Let_def)
qed

lemma ex_dns_verified:
  "GetCustomDomainByName ''b.example'' (ctStore (snd (serve ex_dns_env ex_cpdraw ex_verify ex_dns_control))) =
     Inr \<lparr>cdID = ''dom_1'', cdOrgID = ''org_b'', Domain = ''b.example'', VerifyToken = ''tok'',
          VerifiedAt = Some 7, CertStatus = ''verified'', cdCreatedAt = 5\<rparr>"
proof -
  let ?ct = ex_dns_control
  have nd: "\<not> DevAuth ex_dns_cfg" by (simp add: ex_dns_cfg_def)
  have q: "hqMethod ex_verify = ''POST''" "hqPath ex_verify = [''v1'', ''domains'', ''dom_1'', ''verify'']" "hqHeader ex_verify = hqHeader ex_me"
    "hqQuery ex_verify = (\<lambda>k. '''')"
    by (simp_all add: ex_verify_def ex_me_def ex_delete_def)
  have v: "ceParse ex_dns_env = (\<lambda>s t x. Some ex_claims_b)"
    "ceTxt ex_dns_env = (\<lambda>t n. if n = ''_trqsh-challenge.b.example'' then Some [''tok''] else None)" by (simp_all add: ex_dns_env_def)
  have t: "cdNow ex_cpdraw = 7" by (simp add: ex_cpdraw_def ex_draw_def)
  have c: "ctCfg ?ct = ex_dns_cfg" "ctApiLimiter ?ct = newLocalBucketStore 50 100" "ctStore ?ct = ex_dns_store"
    by (simp_all add: ex_dns_control_def newControl_def Let_def)
  have "fst (limited 7 ?ct ex_verify (ctApiLimiter ?ct))"
    by (simp add: limited_def c local_allow_on_def newLocalBucketStore_def)
  then obtain l where l: "limited 7 ?ct ex_verify (ctApiLimiter ?ct) = (True, l)"
    by (cases "limited 7 ?ct ex_verify (ctApiLimiter ?ct)") auto
  show ?thesis
    unfolding serve_def t l
    by (simp add: ex_verify_route c run_route_def run_endpoint_def v q ex_me_principal t on_store_def on_api_def param_def
        handleVerifyDomain_def GetCustomDomain_def VerifyCustomDomain_def GetCustomDomainByName_def dnsHasTXT_def ex_dns_store_eq
        nd trim_space_def is_space_def ex_dns_lower Let_def)
qed

theorem verified_domains_were_proved_witness:
  "dnsHasTXT (ceTxt ex_dns_env 7) ''_trqsh-challenge.b.example'' ''tok''"
proof -
  let ?dm = "\<lparr>cdID = ''dom_1'', cdOrgID = ''org_b'', Domain = ''b.example'', VerifyToken = ''tok'',
    VerifiedAt = Some 7, CertStatus = ''verified'', cdCreatedAt = 5\<rparr>"
  have "\<not> DevAuth ex_dns_cfg" by (simp add: ex_dns_cfg_def)
  from verified_domains_were_proved [OF ex_dns_run this, of "''b.example''" ?dm 7] show ?thesis
    by (simp add: ex_dns_verified)
qed

section \<open>Reserved subdomains and the plan\<close>

lemma count_gset:
  "length (filter P (map snd (gset i s m))) \<le> length (filter P (map snd m)) + 1"
  by (induction m) auto

text \<open>A reservation never takes an account past the limit of its plan.\<close>

lemma reserve_within_plan:
  assumes "handleReserveSubdomain t nid p body m = (Inr res, m')" "store_ok m"
  shows "\<exists>og. GetOrg (prOrgID p) m = Inr og \<and> int (CountSubdomains (prOrgID p) m') \<le> pMaxReservedSubdomains (PlanFor (effectivePlan t og))"
proof -
  from assms(1) obtain b og where b: "body = Some b" "reserveAllowed t p (to_lower (trim_space b)) m = Inr og"
    "reserveCommit t nid og (to_lower (trim_space b)) m = (Inr res, m')"
    by (auto simp: handleReserveSubdomain_def Let_def split: option.splits sum.splits)
  then have og: "GetOrg (prOrgID p) m = Inr og" "int (CountSubdomains (orID og) m) < pMaxReservedSubdomains (PlanFor (effectivePlan t og))"
    by (auto simp: reserveAllowed_def split: if_splits sum.splits)
  have "CountSubdomains (orID og) m' \<le> CountSubdomains (orID og) m + 1"
    using b(3) count_gset [of "\<lambda>s. rsuOrgID s = orID og"]
    by (auto simp: reserveCommit_def ReserveSubdomain_def CountSubdomains_def Let_def split: if_splits sum.splits store_error.splits)
  then show ?thesis using og GetOrg_id [OF assms(2) og(1)] by auto
qed

text \<open>Two requests that both ask before either reserves: the account ends up with one more than its plan allows.\<close>

lemma reserve_race_exceeds_plan:
  assumes "GetOrg A m = Inr og" "orID og = A" "int (CountSubdomains A m) + 1 = pMaxReservedSubdomains (PlanFor (effectivePlan t og))"
    and "prOrgID p = A" "subdomainRe a" "subdomainRe b" "to_lower a \<noteq> to_lower b"
    and "gget (subByName m) (to_lower a) = None" "gget (subByName m) (to_lower b) = None"
    and "gget (subs m) i = None" "gget (subs m) j = None" "i \<noteq> j"
  shows "reserveAllowed t p a m = Inr og \<and> reserveAllowed t p b m = Inr og
       \<and> is_ok (fst (reserveCommit t i og a m)) \<and> is_ok (fst (reserveCommit t j og b (snd (reserveCommit t i og a m))))
       \<and> int (CountSubdomains A (snd (reserveCommit t j og b (snd (reserveCommit t i og a m))))) = pMaxReservedSubdomains (PlanFor (effectivePlan t og)) + 1"
proof -
  have new: "gget m i = None \<Longrightarrow> map snd (gset i s m) = map snd m @ [s]" for i s and m :: "(string, ReservedSubdomain) gomap"
    by (induction m) auto
  have "reserveAllowed t p x m = Inr og" if "subdomainRe x" for x
    using assms(1-4) that by (simp add: reserveAllowed_def)
  moreover have one: "reserveCommit t i og a m = (Inr \<lparr>rsuID = i, rsuOrgID = A, Subdomain = to_lower a, rsuCreatedAt = or_time t 0\<rparr>,
      m\<lparr>subs := gset i \<lparr>rsuID = i, rsuOrgID = A, Subdomain = to_lower a, rsuCreatedAt = or_time t 0\<rparr> (subs m),
        subByName := gset (to_lower a) i (subByName m)\<rparr>)"
    using assms by (simp add: reserveCommit_def ReserveSubdomain_def Let_def)
  moreover have "is_ok (fst (reserveCommit t j og b (snd (reserveCommit t i og a m))))"
    "CountSubdomains A (snd (reserveCommit t j og b (snd (reserveCommit t i og a m)))) = CountSubdomains A m + 2"
    using assms by (auto simp: one reserveCommit_def [of t j] ReserveSubdomain_def CountSubdomains_def new Let_def)
  ultimately show ?thesis using assms(3,5,6) by simp
qed

end
