(* ===== verification/SharedStores.thy ===== *)
theory SharedStores
  imports Codes Auth "HOL-Library.Countable"
begin

text \<open>
  The stores that several replicas of the control plane share through Redis: the device flow
  (\<^verbatim>\<open>internal/api/device_redis.go\<close>), the nonces of OAuth logins (the second half of \<^verbatim>\<open>internal/api/oauth_state.go\<close>) and the
  revoked refresh tokens (\<^verbatim>\<open>internal/api/token_revoke_redis.go\<close>). Each has the interface of an in-process store of
  the theories \<open>Codes\<close> and \<open>Auth\<close>, and is shown to behave like it as long as Redis answers; what the stores do when it does
  not, and where the replicas interleave, is shown as well.

  Redis is a map from keys to a value with an optional time of expiry. A command is carried out, or lost, or carried out with
  its answer lost (a timeout). The JSON codec of the requests and the client of Redis are parameters.
\<close>

section \<open>Redis\<close>

type_synonym redis = "string \<rightharpoonup> string \<times> gotime option"

definition rlive :: "gotime \<Rightarrow> string \<times> gotime option \<Rightarrow> bool" where
  "rlive t e = (case snd e of None \<Rightarrow> True | Some x \<Rightarrow> t < x)"

definition redis_get :: "gotime \<Rightarrow> string \<Rightarrow> redis \<Rightarrow> string option" where
  "redis_get t k r = (case r k of None \<Rightarrow> None | Some e \<Rightarrow> if rlive t e then Some (fst e) else None)"

definition redis_setex :: "gotime \<Rightarrow> string \<Rightarrow> string \<Rightarrow> duration \<Rightarrow> redis \<Rightarrow> redis" where
  "redis_setex t k v ttl r = r(k \<mapsto> (v, Some (t + ttl)))"

text \<open>\<^verbatim>\<open>SET key value KEEPTTL\<close>: a key that is not there is created without an expiry.\<close>

definition redis_set_keepttl :: "gotime \<Rightarrow> string \<Rightarrow> string \<Rightarrow> redis \<Rightarrow> redis" where
  "redis_set_keepttl t k v r = r(k \<mapsto> (v, case r k of None \<Rightarrow> None | Some e \<Rightarrow> if rlive t e then snd e else None))"

definition redis_del :: "string \<Rightarrow> redis \<Rightarrow> redis" where
  "redis_del k r = r(k := None)"

datatype cmd = Done | Lost | Unacked

text \<open>The client through which the stores reach Redis is a parameter. What they rely on, as the reference of the commands documents it: a key holds a
  value until it is overwritten, deleted or its time is over, and \<^verbatim>\<open>KEEPTTL\<close> keeps the time of a key that is there. \<open>V\<close> reads the key space off
  the state of the service.\<close>

record 's redis_api =
  rdGet :: "gotime \<Rightarrow> string \<Rightarrow> 's \<Rightarrow> string option"
  rdSetEx :: "gotime \<Rightarrow> string \<Rightarrow> string \<Rightarrow> duration \<Rightarrow> 's \<Rightarrow> 's"
  rdSetKeepTTL :: "gotime \<Rightarrow> string \<Rightarrow> string \<Rightarrow> 's \<Rightarrow> 's"
  rdDel :: "string \<Rightarrow> 's \<Rightarrow> 's"

definition redis_lawful :: "'s redis_api \<Rightarrow> ('s \<Rightarrow> redis) \<Rightarrow> bool" where
  "redis_lawful R V \<longleftrightarrow>
     (\<forall>t k s. rdGet R t k s = redis_get t k (V s))
   \<and> (\<forall>t k v ttl s. V (rdSetEx R t k v ttl s) = redis_setex t k v ttl (V s))
   \<and> (\<forall>t k v s. V (rdSetKeepTTL R t k v s) = redis_set_keepttl t k v (V s))
   \<and> (\<forall>k s. V (rdDel R k s) = redis_del k (V s))"

text \<open>The key space itself is a client that obeys the laws; every other one behaves like it.\<close>

definition keyspace :: "redis redis_api" where
  "keyspace = \<lparr>rdGet = redis_get, rdSetEx = redis_setex, rdSetKeepTTL = redis_set_keepttl, rdDel = redis_del\<rparr>"

lemma keyspace_simps [simp]:
  "rdGet keyspace = redis_get" "rdSetEx keyspace = redis_setex" "rdSetKeepTTL keyspace = redis_set_keepttl" "rdDel keyspace = redis_del"
  by (simp_all add: keyspace_def)

lemma keyspace_lawful: "redis_lawful keyspace (\<lambda>r. r)"
  by (simp add: redis_lawful_def)

lemma redis_lawfulD:
  assumes "redis_lawful R V"
  shows "rdGet R t k s = redis_get t k (V s)" "V (rdSetEx R t k v ttl s) = redis_setex t k v ttl (V s)"
    "V (rdSetKeepTTL R t k v s) = redis_set_keepttl t k v (V s)" "V (rdDel R k s) = redis_del k (V s)"
  using assms by (simp_all add: redis_lawful_def)

section \<open>OAuth nonces\<close>

definition redisOAuthStatePrefix :: string where
  "redisOAuthStatePrefix = ''trqsh:oauthstate:''"

definition rs_New :: "'s redis_api \<Rightarrow> cmd \<Rightarrow> gotime \<Rightarrow> byte list \<Rightarrow> 's \<Rightarrow> string \<times> 's" where
  "rs_New R c t b r =
     (let st = newOAuthStateNonce b in
      (st, if c = Lost then r else rdSetEx R t (redisOAuthStatePrefix @ st) ''1'' oauthStateTTL r))"

definition rs_Check :: "'s redis_api \<Rightarrow> cmd \<Rightarrow> gotime \<Rightarrow> string \<Rightarrow> 's \<Rightarrow> bool \<times> 's" where
  "rs_Check R c t st r =
     (if st = '''' then (False, r)
      else
        let k = redisOAuthStatePrefix @ st; r' = (if c = Lost then r else rdDel R k r)
        in (c = Done \<and> rdGet R t k r \<noteq> None, r'))"

section \<open>Revoked tokens\<close>

definition redisRevokePrefix :: string where
  "redisRevokePrefix = ''trqsh:revoked:''"

definition rv_Revoke :: "'s redis_api \<Rightarrow> cmd \<Rightarrow> gotime \<Rightarrow> string \<Rightarrow> duration \<Rightarrow> 's \<Rightarrow> 's" where
  "rv_Revoke R c t jti ttl r =
     (if jti = '''' \<or> ttl \<le> 0 then r
      else if c = Lost then r else rdSetEx R t (redisRevokePrefix @ jti) ''1'' ttl r)"

definition rv_IsRevoked :: "'s redis_api \<Rightarrow> cmd \<Rightarrow> gotime \<Rightarrow> string \<Rightarrow> 's \<Rightarrow> bool" where
  "rv_IsRevoked R c t jti r =
     (if jti = '''' then False
      else if c \<noteq> Done then False
      else rdGet R t (redisRevokePrefix @ jti) r \<noteq> None)"

section \<open>The device flow\<close>

definition redisDevicePrefix :: string where
  "redisDevicePrefix = ''trqsh:device:''"

definition redisDeviceSafetyMargin :: duration where
  "redisDeviceSafetyMargin = 5 * minute"

definition codeKey :: "string \<Rightarrow> string" where
  "codeKey dc = redisDevicePrefix @ ''code:'' @ dc"

definition userKey :: "string \<Rightarrow> string" where
  "userKey uc = redisDevicePrefix @ ''user:'' @ uc"

definition rd_Create :: "'s redis_api \<Rightarrow> (DeviceRequest \<Rightarrow> string) \<Rightarrow> cmd \<Rightarrow> gotime \<Rightarrow> string \<Rightarrow> string \<Rightarrow> 's \<Rightarrow> DeviceRequest \<times> 's" where
  "rd_Create R enc c t dc uc r =
     (let req = \<lparr>DeviceCode = dc, UserCode = uc, drOrgID = '''', drAPIKey = '''', Approved = False, drCreatedAt = t\<rparr>;
          ttl = DeviceTTL + redisDeviceSafetyMargin
      in (req, if c = Lost then r else rdSetEx R t (userKey uc) dc ttl (rdSetEx R t (codeKey dc) (enc req) ttl r)))"

text \<open>The three commands of \<^verbatim>\<open>Approve\<close>; a record that does not decode counts as unknown. The first two only read, so
  the request that is going to be written is a function of what they saw.\<close>

definition rd_ApproveRead ::
  "'s redis_api \<Rightarrow> (string \<Rightarrow> DeviceRequest option) \<Rightarrow> cmd \<times> cmd \<Rightarrow> gotime \<Rightarrow> string \<Rightarrow> 's \<Rightarrow> (string \<times> DeviceRequest) option" where
  "rd_ApproveRead R dec cs t userCode r =
     (case (if fst cs = Done then rdGet R t (userKey userCode) r else None) of
        None \<Rightarrow> None
      | Some dc \<Rightarrow>
          (case (if snd cs = Done then rdGet R t (codeKey dc) r else None) of
             None \<Rightarrow> None
           | Some raw \<Rightarrow> map_option (\<lambda>req. (dc, req)) (dec raw)))"

definition rd_ApproveWrite ::
  "'s redis_api \<Rightarrow> (DeviceRequest \<Rightarrow> string) \<Rightarrow> cmd \<Rightarrow> gotime \<Rightarrow> string \<Rightarrow> string \<Rightarrow> string \<times> DeviceRequest \<Rightarrow> 's \<Rightarrow> (device_error + unit) \<times> 's" where
  "rd_ApproveWrite R enc c t orgID apiKey seen r =
     (let req = (snd seen)\<lparr>Approved := True, drOrgID := orgID, drAPIKey := apiKey\<rparr> in
      (if c = Done then Inr () else Inl ErrDeviceUnknown,
       if c = Lost then r else rdSetKeepTTL R t (codeKey (fst seen)) (enc req) r))"

definition rd_Approve ::
  "'s redis_api \<Rightarrow> (DeviceRequest \<Rightarrow> string) \<Rightarrow> (string \<Rightarrow> DeviceRequest option) \<Rightarrow> (cmd \<times> cmd) \<times> cmd \<Rightarrow> gotime \<Rightarrow> string \<Rightarrow> string \<Rightarrow> string \<Rightarrow> 's
     \<Rightarrow> (device_error + unit) \<times> 's" where
  "rd_Approve R enc dec cs t userCode orgID apiKey r =
     (case rd_ApproveRead R dec (fst cs) t userCode r of
        None \<Rightarrow> (Inl ErrDeviceUnknown, r)
      | Some seen \<Rightarrow> rd_ApproveWrite R enc (snd cs) t orgID apiKey seen r)"

definition rd_delete :: "'s redis_api \<Rightarrow> cmd \<Rightarrow> string \<Rightarrow> string \<Rightarrow> 's \<Rightarrow> 's" where
  "rd_delete R c dc uc r = (if c = Lost then r else rdDel R (userKey uc) (rdDel R (codeKey dc) r))"

text \<open>\<^verbatim>\<open>Poll\<close>: a read, then what follows from it; the decision and the deletion are not one command.\<close>

definition rd_PollRead :: "'s redis_api \<Rightarrow> (string \<Rightarrow> DeviceRequest option) \<Rightarrow> cmd \<Rightarrow> gotime \<Rightarrow> string \<Rightarrow> 's \<Rightarrow> DeviceRequest option" where
  "rd_PollRead R dec c t dc r =
     (case (if c = Done then rdGet R t (codeKey dc) r else None) of None \<Rightarrow> None | Some raw \<Rightarrow> dec raw)"

definition rd_PollFinish :: "'s redis_api \<Rightarrow> cmd \<Rightarrow> gotime \<Rightarrow> string \<Rightarrow> DeviceRequest option \<Rightarrow> 's \<Rightarrow> (device_error + string) \<times> 's" where
  "rd_PollFinish R c t dc seen r =
     (case seen of
        None \<Rightarrow> (Inl ErrDeviceUnknown, r)
      | Some req \<Rightarrow>
          if t - drCreatedAt req > DeviceTTL then (Inl ErrDeviceExpired, rd_delete R c dc (UserCode req) r)
          else if \<not> Approved req then (Inl ErrDevicePending, r)
          else (Inr (drAPIKey req), rd_delete R c dc (UserCode req) r))"

definition rd_Poll :: "'s redis_api \<Rightarrow> (string \<Rightarrow> DeviceRequest option) \<Rightarrow> cmd \<times> cmd \<Rightarrow> gotime \<Rightarrow> string \<Rightarrow> 's \<Rightarrow> (device_error + string) \<times> 's" where
  "rd_Poll R dec cs t dc r = rd_PollFinish R (snd cs) t dc (rd_PollRead R dec (fst cs) t dc r) r"

section \<open>One Redis, three stores\<close>

datatype shared_op =
    SNonce gotime "byte list"
  | SRedeem gotime string
  | SRevoke gotime string duration
  | SRevoked gotime string
  | SCreate gotime string string
  | SApprove gotime string string string
  | SPoll gotime string

fun so_time :: "shared_op \<Rightarrow> gotime" where
  "so_time (SNonce t b) = t"
| "so_time (SRedeem t st) = t"
| "so_time (SRevoke t jti ttl) = t"
| "so_time (SRevoked t jti) = t"
| "so_time (SCreate t dc uc) = t"
| "so_time (SApprove t uc orgID key) = t"
| "so_time (SPoll t dc) = t"

datatype shared_ans = AString string | ABool bool | AUnit | ARequest DeviceRequest | AApproved "device_error + unit" | AKey "device_error + string"

record LocalStores =
  lsStates :: memStateStore
  lsRev :: memRevoker
  lsDev :: deviceStore

definition newLocalStores :: LocalStores where
  "newLocalStores = \<lparr>lsStates = newMemStateStore, lsRev = newMemRevoker, lsDev = newDeviceStore\<rparr>"

text \<open>The same operation on the stores of a single process, and on the shared ones when Redis answers.\<close>

fun local_step :: "shared_op \<Rightarrow> LocalStores \<Rightarrow> shared_ans \<times> LocalStores" where
  "local_step (SNonce t b) s = (case state_New t b (lsStates s) of (x, m) \<Rightarrow> (AString x, s\<lparr>lsStates := m\<rparr>))"
| "local_step (SRedeem t st) s = (case state_Check t st (lsStates s) of (x, m) \<Rightarrow> (ABool x, s\<lparr>lsStates := m\<rparr>))"
| "local_step (SRevoke t jti ttl) s = (AUnit, s\<lparr>lsRev := Revoke t jti ttl (lsRev s)\<rparr>)"
| "local_step (SRevoked t jti) s = (case IsRevoked t jti (lsRev s) of (x, m) \<Rightarrow> (ABool x, s\<lparr>lsRev := m\<rparr>))"
| "local_step (SCreate t dc uc) s = (case dev_Create t dc uc (lsDev s) of (x, d) \<Rightarrow> (ARequest x, s\<lparr>lsDev := d\<rparr>))"
| "local_step (SApprove t uc orgID key) s = (case dev_Approve uc orgID key (lsDev s) of (x, d) \<Rightarrow> (AApproved x, s\<lparr>lsDev := d\<rparr>))"
| "local_step (SPoll t dc) s = (case dev_Poll t dc (lsDev s) of (x, d) \<Rightarrow> (AKey x, s\<lparr>lsDev := d\<rparr>))"

fun shared_step :: "'s redis_api \<Rightarrow> (DeviceRequest \<Rightarrow> string) \<Rightarrow> (string \<Rightarrow> DeviceRequest option) \<Rightarrow> shared_op \<Rightarrow> 's \<Rightarrow> shared_ans \<times> 's" where
  "shared_step R enc dec (SNonce t b) r = map_prod AString (\<lambda>r. r) (rs_New R Done t b r)"
| "shared_step R enc dec (SRedeem t st) r = map_prod ABool (\<lambda>r. r) (rs_Check R Done t st r)"
| "shared_step R enc dec (SRevoke t jti ttl) r = (AUnit, rv_Revoke R Done t jti ttl r)"
| "shared_step R enc dec (SRevoked t jti) r = (ABool (rv_IsRevoked R Done t jti r), r)"
| "shared_step R enc dec (SCreate t dc uc) r = map_prod ARequest (\<lambda>r. r) (rd_Create R enc Done t dc uc r)"
| "shared_step R enc dec (SApprove t uc orgID key) r = map_prod AApproved (\<lambda>r. r) (rd_Approve R enc dec ((Done, Done), Done) t uc orgID key r)"
| "shared_step R enc dec (SPoll t dc) r = map_prod AKey (\<lambda>r. r) (rd_Poll R dec (Done, Done) t dc r)"

fun outs :: "('op \<Rightarrow> 's \<Rightarrow> 'a \<times> 's) \<Rightarrow> 'op list \<Rightarrow> 's \<Rightarrow> 'a list" where
  "outs step [] s = []"
| "outs step (p # ps) s = fst (step p s) # outs step ps (snd (step p s))"

text \<open>When a device record is forgotten by Redis, which is only a backstop.\<close>

definition forgotten :: "DeviceRequest \<Rightarrow> gotime" where
  "forgotten q = drCreatedAt q + (DeviceTTL + redisDeviceSafetyMargin)"

text \<open>What is asked of an operation: device and user codes are drawn afresh, a user code is typed in the form in which it
  was issued, nobody comes back to a flow later than the backstop, and no revocation is read in the very instant it ends.\<close>

fun regular :: "shared_op \<Rightarrow> LocalStores \<Rightarrow> bool" where
  "regular (SRevoked t jti) s \<longleftrightarrow> gget (lsRev s) jti \<noteq> Some t"
| "regular (SCreate t dc uc) s \<longleftrightarrow> gget (byDevice (lsDev s)) dc = None \<and> gget (byUser (lsDev s)) uc = None"
| "regular (SApprove t uc orgID key) s \<longleftrightarrow>
     to_upper (trim_space uc) = uc
     \<and> (case gget (byUser (lsDev s)) uc of None \<Rightarrow> True
        | Some dc \<Rightarrow> (case gget (byDevice (lsDev s)) dc of None \<Rightarrow> True | Some q \<Rightarrow> t < forgotten q))"
| "regular (SPoll t dc) s \<longleftrightarrow> (case gget (byDevice (lsDev s)) dc of None \<Rightarrow> True | Some q \<Rightarrow> t < forgotten q)"
| "regular _ s \<longleftrightarrow> True"

fun regular_run :: "gotime \<Rightarrow> shared_op list \<Rightarrow> LocalStores \<Rightarrow> bool" where
  "regular_run t [] s \<longleftrightarrow> True"
| "regular_run t (p # ps) s \<longleftrightarrow> t \<le> so_time p \<and> regular p s \<and> regular_run (so_time p) ps (snd (local_step p s))"

section \<open>The shared stores refine the local ones\<close>

definition states_rel :: "memStateStore \<Rightarrow> redis \<Rightarrow> bool" where
  "states_rel m r \<longleftrightarrow> (\<forall>st. r (redisOAuthStatePrefix @ st) = map_option (\<lambda>x. (''1'', Some x)) (gget m st))"

definition entry_rel :: "gotime \<Rightarrow> gotime option \<Rightarrow> string \<Rightarrow> string \<Rightarrow> redis \<Rightarrow> bool" where
  "entry_rel t x k v r \<longleftrightarrow>
     (case x of None \<Rightarrow> redis_get t k r = None | Some x \<Rightarrow> if t < x then r k = Some (v, Some x) else redis_get t k r = None)"

definition rev_rel :: "gotime \<Rightarrow> memRevoker \<Rightarrow> redis \<Rightarrow> bool" where
  "rev_rel t m r \<longleftrightarrow> (\<forall>jti. entry_rel t (gget m jti) (redisRevokePrefix @ jti) ''1'' r)"

definition codes_inv :: "deviceStore \<Rightarrow> bool" where
  "codes_inv d \<longleftrightarrow>
     (\<forall>dc q. gget (byDevice d) dc = Some q \<longrightarrow> gget (byUser d) (UserCode q) = Some dc)
   \<and> (\<forall>uc dc. gget (byUser d) uc = Some dc \<longrightarrow> (\<exists>q. gget (byDevice d) dc = Some q \<and> UserCode q = uc))"

definition dev_rel :: "(DeviceRequest \<Rightarrow> string) \<Rightarrow> gotime \<Rightarrow> deviceStore \<Rightarrow> redis \<Rightarrow> bool" where
  "dev_rel enc t d r \<longleftrightarrow>
     codes_inv d
   \<and> (\<forall>dc. entry_rel t (map_option forgotten (gget (byDevice d) dc)) (codeKey dc) (enc (the (gget (byDevice d) dc))) r)
   \<and> (\<forall>uc. entry_rel t (map_option (\<lambda>dc. forgotten (the (gget (byDevice d) dc))) (gget (byUser d) uc)) (userKey uc)
            (the (gget (byUser d) uc)) r)"

definition stores_rel :: "(DeviceRequest \<Rightarrow> string) \<Rightarrow> gotime \<Rightarrow> LocalStores \<Rightarrow> redis \<Rightarrow> bool" where
  "stores_rel enc t s r \<longleftrightarrow> states_rel (lsStates s) r \<and> rev_rel t (lsRev s) r \<and> dev_rel enc t (lsDev s) r"

lemma key_disjoint [simp]:
  "redisOAuthStatePrefix @ a \<noteq> redisRevokePrefix @ b" "redisRevokePrefix @ b \<noteq> redisOAuthStatePrefix @ a"
  "redisOAuthStatePrefix @ a \<noteq> codeKey c" "codeKey c \<noteq> redisOAuthStatePrefix @ a"
  "redisOAuthStatePrefix @ a \<noteq> userKey c" "userKey c \<noteq> redisOAuthStatePrefix @ a"
  "redisRevokePrefix @ a \<noteq> codeKey c" "codeKey c \<noteq> redisRevokePrefix @ a"
  "redisRevokePrefix @ a \<noteq> userKey c" "userKey c \<noteq> redisRevokePrefix @ a"
  "codeKey c \<noteq> userKey e" "userKey e \<noteq> codeKey c"
  by (simp_all add: redisOAuthStatePrefix_def redisRevokePrefix_def codeKey_def userKey_def redisDevicePrefix_def)

lemma key_inject [simp]: "codeKey a = codeKey b \<longleftrightarrow> a = b" "userKey a = userKey b \<longleftrightarrow> a = b"
  by (simp_all add: codeKey_def userKey_def)

lemma redis_get_upd [simp]:
  "redis_get t k (r(k' := v)) = (if k = k' then (case v of None \<Rightarrow> None | Some e \<Rightarrow> if rlive t e then Some (fst e) else None) else redis_get t k r)"
  by (simp add: redis_get_def)

lemma redis_get_later: "redis_get t k r = None \<Longrightarrow> t \<le> t' \<Longrightarrow> redis_get t' k r = None"
  by (auto simp: redis_get_def rlive_def split: option.splits if_splits)

lemma entry_later: "entry_rel t x k v r \<Longrightarrow> t \<le> t' \<Longrightarrow> entry_rel t' x k v r"
  by (auto simp: entry_rel_def redis_get_def rlive_def split: option.splits if_splits)

lemma stores_later: "stores_rel enc t s r \<Longrightarrow> t \<le> t' \<Longrightarrow> stores_rel enc t' s r"
  unfolding stores_rel_def rev_rel_def dev_rel_def by (blast intro: entry_later)

lemma entry_upd: "k \<noteq> k' \<Longrightarrow> entry_rel t x k v (r(k' := e)) = entry_rel t x k v r"
  by (simp add: entry_rel_def split: option.split)

lemma entry_set: "t < x \<Longrightarrow> entry_rel t (Some x) k v (r(k \<mapsto> (v, Some x)))"
  by (simp add: entry_rel_def)

lemma entry_del: "entry_rel t None k v (r(k := None))"
  by (simp add: entry_rel_def)

lemma entry_get: "entry_rel t x k v r \<Longrightarrow> redis_get t k r = (case x of None \<Rightarrow> None | Some x \<Rightarrow> if t < x then Some v else None)"
  by (auto simp: entry_rel_def redis_get_def rlive_def split: option.splits if_splits)

lemma rel_upd [simp]:
  "states_rel m (r(redisRevokePrefix @ j := e)) = states_rel m r"
  "states_rel m (r(codeKey c := e)) = states_rel m r"
  "states_rel m (r(userKey c := e)) = states_rel m r"
  "rev_rel t rv (r(redisOAuthStatePrefix @ j := e)) = rev_rel t rv r"
  "rev_rel t rv (r(codeKey c := e)) = rev_rel t rv r"
  "rev_rel t rv (r(userKey c := e)) = rev_rel t rv r"
  "dev_rel enc t d (r(redisOAuthStatePrefix @ j := e)) = dev_rel enc t d r"
  "dev_rel enc t d (r(redisRevokePrefix @ j := e)) = dev_rel enc t d r"
  by (simp_all add: states_rel_def rev_rel_def dev_rel_def entry_upd)

lemma sim_New:
  "states_rel m r \<Longrightarrow> fst (rs_New keyspace Done t b r) = fst (state_New t b m) \<and> states_rel (snd (state_New t b m)) (snd (rs_New keyspace Done t b r))"
  by (simp add: states_rel_def rs_New_def state_New_def redis_setex_def Let_def)

lemma sim_Check:
  "states_rel m r \<Longrightarrow> fst (rs_Check keyspace Done t st r) = fst (state_Check t st m) \<and> states_rel (snd (state_Check t st m)) (snd (rs_Check keyspace Done t st r))"
  by (auto simp: states_rel_def rs_Check_def state_Check_def redis_del_def redis_get_def rlive_def Let_def split: option.split)

lemma sim_Revoke: "rev_rel t m r \<Longrightarrow> rev_rel t (Revoke t jti ttl m) (rv_Revoke keyspace Done t jti ttl r)"
  by (auto simp: rev_rel_def rv_Revoke_def Revoke_def redis_setex_def entry_upd entry_set)

lemma sim_IsRevoked:
  assumes "rev_rel t m r" "gget m jti \<noteq> Some t"
  shows "rv_IsRevoked keyspace Done t jti r = fst (IsRevoked t jti m) \<and> rev_rel t (snd (IsRevoked t jti m)) r"
proof -
  have e: "entry_rel t (gget m j) (redisRevokePrefix @ j) ''1'' r" for j using assms(1) by (simp add: rev_rel_def)
  have "rv_IsRevoked keyspace Done t jti r = fst (IsRevoked t jti m)"
    using assms(2) entry_get [OF e [of jti]] by (auto simp: rv_IsRevoked_def IsRevoked_def split: option.splits)
  moreover have "entry_rel t None (redisRevokePrefix @ jti) ''1'' r" if "gget m jti = Some x" "x < t" for x
    using e [of jti] that by (simp add: entry_rel_def)
  then have "rev_rel t (snd (IsRevoked t jti m)) r"
    using e by (auto simp: rev_rel_def IsRevoked_def split: option.splits)
  ultimately show ?thesis ..
qed

lemma ttl_pos: "0 < DeviceTTL + redisDeviceSafetyMargin"
  by (simp add: DeviceTTL_def redisDeviceSafetyMargin_def)

lemma dev_relD:
  assumes "dev_rel enc t d r"
  shows "codes_inv d" "entry_rel t (map_option forgotten (gget (byDevice d) dc)) (codeKey dc) (enc (the (gget (byDevice d) dc))) r"
    "entry_rel t (map_option (\<lambda>dc. forgotten (the (gget (byDevice d) dc))) (gget (byUser d) uc)) (userKey uc) (the (gget (byUser d) uc)) r"
  using assms by (simp_all add: dev_rel_def)

lemma codes_invD:
  assumes "codes_inv d"
  shows "gget (byDevice d) dc = Some q \<Longrightarrow> gget (byUser d) (UserCode q) = Some dc"
    and "gget (byUser d) uc = Some dc \<Longrightarrow> \<exists>q. gget (byDevice d) dc = Some q \<and> UserCode q = uc"
  using assms by (simp_all add: codes_inv_def)

lemma dev_relI:
  assumes "codes_inv d"
    and "\<And>dc q. gget (byDevice d) dc = Some q \<Longrightarrow> entry_rel t (Some (forgotten q)) (codeKey dc) (enc q) r"
    and "\<And>dc. gget (byDevice d) dc = None \<Longrightarrow> redis_get t (codeKey dc) r = None"
    and "\<And>uc dc q. gget (byUser d) uc = Some dc \<Longrightarrow> gget (byDevice d) dc = Some q \<Longrightarrow> entry_rel t (Some (forgotten q)) (userKey uc) dc r"
    and "\<And>uc. gget (byUser d) uc = None \<Longrightarrow> redis_get t (userKey uc) r = None"
  shows "dev_rel enc t d r"
proof -
  have none: "entry_rel t None k v r = (redis_get t k r = None)" for k v by (simp add: entry_rel_def)
  have "entry_rel t (map_option forgotten (gget (byDevice d) dc)) (codeKey dc) (enc (the (gget (byDevice d) dc))) r" for dc
    using assms(2,3) [of dc] by (cases "gget (byDevice d) dc") (simp_all add: none)
  moreover have "entry_rel t (map_option (\<lambda>dc. forgotten (the (gget (byDevice d) dc))) (gget (byUser d) uc)) (userKey uc) (the (gget (byUser d) uc)) r" for uc
    using assms(4,5) [of uc] codes_invD(2) [OF assms(1), of uc] by (cases "gget (byUser d) uc") (auto simp: none)
  ultimately show ?thesis using assms(1) by (simp add: dev_rel_def)
qed

lemma dev_rel_codes:
  assumes "dev_rel enc t d r"
  shows "gget (byDevice d) dc = Some q \<Longrightarrow> entry_rel t (Some (forgotten q)) (codeKey dc) (enc q) r"
    and "gget (byUser d) uc = Some dc \<Longrightarrow> gget (byDevice d) dc = Some q \<Longrightarrow> entry_rel t (Some (forgotten q)) (userKey uc) dc r"
  using dev_relD(2) [OF assms, of dc] dev_relD(3) [OF assms, of uc] by simp_all

lemma dev_get:
  assumes "dev_rel enc t d r"
  shows "redis_get t (codeKey dc) r =
      (case gget (byDevice d) dc of None \<Rightarrow> None | Some q \<Rightarrow> if t < forgotten q then Some (enc q) else None)"
    and "redis_get t (userKey uc) r =
      (case gget (byUser d) uc of None \<Rightarrow> None | Some dc \<Rightarrow> if t < forgotten (the (gget (byDevice d) dc)) then Some dc else None)"
  using entry_get [OF dev_relD(2) [OF assms, of dc]] entry_get [OF dev_relD(3) [OF assms, of uc]] by (simp_all split: option.splits)

lemma sim_Create:
  assumes "dev_rel enc t d r" "gget (byDevice d) dc = None" "gget (byUser d) uc = None"
  shows "fst (rd_Create keyspace enc Done t dc uc r) = fst (dev_Create t dc uc d) \<and> dev_rel enc t (snd (dev_Create t dc uc d)) (snd (rd_Create keyspace enc Done t dc uc r))"
proof -
  note inv = codes_invD [OF dev_relD(1) [OF assms(1)]] and ent = dev_rel_codes [OF assms(1)]
  let ?q = "\<lparr>DeviceCode = dc, UserCode = uc, drOrgID = [], drAPIKey = [], Approved = False, drCreatedAt = t\<rparr>"
  let ?x = "t + (DeviceTTL + redisDeviceSafetyMargin)"
  have fg: "forgotten ?q = ?x" and lt: "t < ?x" using ttl_pos by (simp_all add: forgotten_def)
  have fr: "gget (byUser d) u \<noteq> Some dc" "gget (byDevice d) c = Some q \<Longrightarrow> UserCode q \<noteq> uc" for u c q
    using inv(2) [of u dc] inv(1) [of c q] assms(2,3) by auto
  have "codes_inv (d\<lparr>byDevice := gset dc ?q (byDevice d), byUser := gset uc dc (byUser d)\<rparr>)"
    using inv fr by (auto simp: codes_inv_def)
  then have "dev_rel enc t (d\<lparr>byDevice := gset dc ?q (byDevice d), byUser := gset uc dc (byUser d)\<rparr>)
      (r(codeKey dc \<mapsto> (enc ?q, Some ?x), userKey uc \<mapsto> (dc, Some ?x)))"
    using ent fr lt fg by (intro dev_relI) (auto simp: entry_upd entry_set dev_get [OF assms(1)] split: if_splits)
  then show ?thesis by (simp add: rd_Create_def dev_Create_def redis_setex_def Let_def)
qed

lemma sim_Approve:
  assumes "dev_rel enc t d r" "\<And>q. dec (enc q) = Some q" "to_upper (trim_space uc) = uc"
    and fresh: "\<And>dc q. gget (byUser d) uc = Some dc \<Longrightarrow> gget (byDevice d) dc = Some q \<Longrightarrow> t < forgotten q"
  shows "fst (rd_Approve keyspace enc dec ((Done, Done), Done) t uc orgID key r) = fst (dev_Approve uc orgID key d)
    \<and> dev_rel enc t (snd (dev_Approve uc orgID key d)) (snd (rd_Approve keyspace enc dec ((Done, Done), Done) t uc orgID key r))"
proof (cases "gget (byUser d) uc")
  case None
  then show ?thesis using assms(1,3) by (simp add: rd_Approve_def rd_ApproveRead_def dev_Approve_def dev_get(2) [OF assms(1)])
next
  case (Some dc)
  from assms(1) Some obtain q where q: "gget (byDevice d) dc = Some q" "UserCode q = uc"
    using codes_invD(2) [OF dev_relD(1)] by blast
  note lt = fresh [OF Some q(1)]
  let ?q = "q\<lparr>Approved := True, drOrgID := orgID, drAPIKey := key\<rparr>"
  have "entry_rel t (Some (forgotten q)) (codeKey dc) (enc q) r"
    using dev_relD(2) [OF assms(1), of dc] q(1) by simp
  then have rk: "r (codeKey dc) = Some (enc q, Some (forgotten q))" using lt by (simp add: entry_rel_def)
  have fg: "forgotten ?q = forgotten q" by (simp add: forgotten_def)
  have red: "rd_Approve keyspace enc dec ((Done, Done), Done) t uc orgID key r = (Inr (), r(codeKey dc \<mapsto> (enc ?q, Some (forgotten q))))"
    using lt by (simp add: rd_Approve_def rd_ApproveRead_def rd_ApproveWrite_def dev_get [OF assms(1)] Some q(1) assms(2) redis_set_keepttl_def rk rlive_def Let_def)
  have loc: "dev_Approve uc orgID key d = (Inr (), d\<lparr>byDevice := gset dc ?q (byDevice d)\<rparr>)"
    by (simp add: dev_Approve_def assms(3) Some q(1))
  have inv: "codes_inv (d\<lparr>byDevice := gset dc ?q (byDevice d)\<rparr>)"
    using codes_invD [OF dev_relD(1) [OF assms(1)]] q Some unfolding codes_inv_def by (simp, metis option.inject)
  have "dev_rel enc t (d\<lparr>byDevice := gset dc ?q (byDevice d)\<rparr>) (r(codeKey dc \<mapsto> (enc ?q, Some (forgotten q))))"
    using inv dev_rel_codes [OF assms(1)] lt fg q(1)
    by (intro dev_relI) (auto simp: entry_upd entry_set dev_get [OF assms(1)] split: if_splits)
  then show ?thesis unfolding red loc by simp
qed

lemma sim_Poll:
  assumes "dev_rel enc t d r" "\<And>q. dec (enc q) = Some q" "\<And>q. gget (byDevice d) dc = Some q \<Longrightarrow> t < forgotten q"
  shows "fst (rd_Poll keyspace dec (Done, Done) t dc r) = fst (dev_Poll t dc d)
    \<and> dev_rel enc t (snd (dev_Poll t dc d)) (snd (rd_Poll keyspace dec (Done, Done) t dc r))"
proof (cases "gget (byDevice d) dc")
  case None
  then show ?thesis using assms(1) by (simp add: rd_Poll_def rd_PollRead_def rd_PollFinish_def dev_Poll_def dev_get [OF assms(1)])
next
  case (Some q)
  let ?d = "d\<lparr>byDevice := gdel dc (byDevice d), byUser := gdel (UserCode q) (byUser d)\<rparr>"
  have us: "gget (byUser d) (UserCode q) = Some dc" using codes_invD(1) [OF dev_relD(1) [OF assms(1)] Some] .
  note inv = codes_invD [OF dev_relD(1) [OF assms(1)]]
  have other: "gget (byDevice d) c = Some q' \<Longrightarrow> c \<noteq> dc \<Longrightarrow> UserCode q' \<noteq> UserCode q" for c q'
    using inv(1) [of c q'] us by auto
  have owner: "gget (byUser d) u = Some dc \<Longrightarrow> u = UserCode q" for u
    using inv(2) [of u dc] Some by auto
  have "codes_inv ?d" using inv other owner by (auto simp: codes_inv_def)
  then have "dev_rel enc t ?d (rd_delete keyspace Done dc (UserCode q) r)"
    using dev_rel_codes [OF assms(1)] owner
    by (intro dev_relI) (auto simp: rd_delete_def redis_del_def entry_upd dev_get [OF assms(1)] split: if_splits)
  then show ?thesis
    using assms by (simp add: rd_Poll_def rd_PollRead_def rd_PollFinish_def dev_Poll_def dev_get(1) [OF assms(1)] Some Let_def)
qed

lemma sim_step:
  assumes "stores_rel enc t s r" "t \<le> so_time p" "regular p s" "\<And>q. dec (enc q) = Some q"
  shows "fst (shared_step keyspace enc dec p r) = fst (local_step p s)
    \<and> stores_rel enc (so_time p) (snd (local_step p s)) (snd (shared_step keyspace enc dec p r))"
proof -
  have rel: "states_rel (lsStates s) r" "rev_rel (so_time p) (lsRev s) r" "dev_rel enc (so_time p) (lsDev s) r"
    using stores_later [OF assms(1,2)] by (simp_all add: stores_rel_def)
  show ?thesis
  proof (cases p)
    case (SNonce t b)
    then show ?thesis
      using sim_New [OF rel(1), of t b] rel by (simp add: stores_rel_def rs_New_def state_New_def redis_setex_def Let_def)
  next
    case (SRedeem t st)
    then show ?thesis
      using sim_Check [OF rel(1), of t st] rel by (simp add: stores_rel_def rs_Check_def redis_del_def Let_def case_prod_unfold split: if_splits)
  next
    case (SRevoke t jti ttl)
    then show ?thesis
      using sim_Revoke [of t "lsRev s" r jti ttl] rel by (simp add: stores_rel_def rv_Revoke_def redis_setex_def split: if_splits)
  next
    case (SRevoked t jti)
    then show ?thesis
      using sim_IsRevoked [of t "lsRev s" r jti] rel assms(3) by (simp add: stores_rel_def case_prod_unfold)
  next
    case (SCreate t dc uc)
    then show ?thesis
      using sim_Create [of enc t "lsDev s" r dc uc] rel assms(3)
      by (simp add: stores_rel_def rd_Create_def dev_Create_def redis_setex_def case_prod_unfold Let_def)
  next
    case (SApprove t uc orgID key)
    with assms(3) have "states_rel (lsStates s) (snd (rd_Approve keyspace enc dec ((Done, Done), Done) t uc orgID key r))
        \<and> rev_rel t (lsRev s) (snd (rd_Approve keyspace enc dec ((Done, Done), Done) t uc orgID key r))"
      using rel by (simp add: rd_Approve_def rd_ApproveWrite_def redis_set_keepttl_def Let_def split: option.split)
    moreover have "t < forgotten q" if "gget (byUser (lsDev s)) uc = Some dc" "gget (byDevice (lsDev s)) dc = Some q" for dc q
      using SApprove assms(3) that by simp
    ultimately show ?thesis
      using sim_Approve [of enc t "lsDev s" r dec uc orgID key] SApprove rel assms(3,4)
      by (simp add: stores_rel_def case_prod_unfold)
  next
    case (SPoll t dc)
    have "states_rel (lsStates s) (snd (rd_Poll keyspace dec (Done, Done) t dc r)) \<and> rev_rel t (lsRev s) (snd (rd_Poll keyspace dec (Done, Done) t dc r))"
      using rel SPoll by (simp add: rd_Poll_def rd_PollFinish_def rd_delete_def redis_del_def split: option.split)
    moreover have "t < forgotten q" if "gget (byDevice (lsDev s)) dc = Some q" for q
      using SPoll assms(3) that by simp
    ultimately show ?thesis
      using sim_Poll [of enc t "lsDev s" r dec dc] SPoll rel assms(4)
      by (simp add: stores_rel_def case_prod_unfold)
  qed
qed

lemma sim_run:
  assumes "\<And>q. dec (enc q) = Some q"
  shows "stores_rel enc t s r \<Longrightarrow> regular_run t ops s \<Longrightarrow> outs (shared_step keyspace enc dec) ops r = outs local_step ops s"
proof (induction ops arbitrary: t s r)
  case (Cons p ops)
  then show ?case using sim_step [of enc t s r p dec] assms by fastforce
qed simp

lemma stores_rel_new: "stores_rel enc t newLocalStores Map.empty"
  by (simp add: stores_rel_def newLocalStores_def states_rel_def newMemStateStore_def rev_rel_def newMemRevoker_def dev_rel_def codes_inv_def
      newDeviceStore_def entry_rel_def redis_get_def)

text \<open>What a lawful client does is what the key space does.\<close>

lemma lawful_step:
  assumes "redis_lawful R V"
  shows "fst (shared_step R enc dec p s) = fst (shared_step keyspace enc dec p (V s))
    \<and> V (snd (shared_step R enc dec p s)) = snd (shared_step keyspace enc dec p (V s))"
  by (cases p)
    (simp_all add: rs_New_def rs_Check_def rv_Revoke_def rv_IsRevoked_def rd_Create_def rd_Approve_def rd_ApproveRead_def rd_ApproveWrite_def rd_Poll_def
      rd_PollRead_def rd_PollFinish_def rd_delete_def redis_lawfulD [OF assms] Let_def split: option.split)

lemma lawful_run: "redis_lawful R V \<Longrightarrow> outs (shared_step R enc dec) ops s = outs (shared_step keyspace enc dec) ops (V s)"
  by (induction ops arbitrary: s) (simp_all add: lawful_step)

section \<open>Properties\<close>

text \<open>C11. Replicas behave like one process, within limits. A sequence of logins, logouts, refreshes and device approvals, whichever replica each
  lands on, gets from the shared stores on one Redis the answers that the stores inside a single process would give: the three key spaces do not
  meet, and every expiry is the same. The limits: Redis answers every command, an operation is not interleaved with another one, the clock does not go back, device and user codes are
  drawn afresh, a user code is typed as it was issued (upper case, no blanks), nobody returns to a device flow after the fifteen minutes after which Redis forgets it, and no revocation is read in the
  very instant it ends. Outside them the answers can differ, as is shown for a code typed otherwise.\<close>

theorem shared_stores_agree:
  assumes "redis_lawful R V" "V s = Map.empty" "\<And>q. dec (enc q) = Some q" "regular_run t ops newLocalStores"
  shows "outs (shared_step R enc dec) ops s = outs local_step ops newLocalStores"
  unfolding lawful_run [OF assms(1)] assms(2) by (rule sim_run [OF assms(3) stores_rel_new assms(4)])

definition ex_enc :: "DeviceRequest \<Rightarrow> string" where
  "ex_enc q = replicate (to_nat (DeviceCode q, UserCode q, drOrgID q, drAPIKey q, Approved q, drCreatedAt q)) CHR ''x''"

definition ex_dec :: "string \<Rightarrow> DeviceRequest option" where
  "ex_dec s = (case from_nat (length s) of (dc, uc, og, key, ok, t) \<Rightarrow>
     Some \<lparr>DeviceCode = dc, UserCode = uc, drOrgID = og, drAPIKey = key, Approved = ok, drCreatedAt = t\<rparr>)"

lemma ex_codec: "ex_dec (ex_enc q) = Some q"
  by (simp add: ex_enc_def ex_dec_def)

theorem shared_stores_agree_witness:
  "outs (shared_step keyspace ex_enc ex_dec)
     [SCreate 1 ''dc'' ''UC'', SPoll 2 ''dc'', SApprove 3 ''UC'' ''org'' ''key'', SNonce 4 [1], SRevoke 5 ''j'' 60, SPoll 6 ''dc'', SPoll 7 ''dc'', SRevoked 8 ''j'']
     Map.empty =
   [ARequest \<lparr>DeviceCode = ''dc'', UserCode = ''UC'', drOrgID = '''', drAPIKey = '''', Approved = False, drCreatedAt = 1\<rparr>,
    AKey (Inl ErrDevicePending), AApproved (Inr ()), AString ''01'', AUnit, AKey (Inr ''key''), AKey (Inl ErrDeviceUnknown), ABool True]"
proof -
  have uc: "to_upper (trim_space ''UC'') = ''UC''" and n: "newOAuthStateNonce [1] = ''01''" by code_simp+
  let ?ops = "[SCreate 1 ''dc'' ''UC'', SPoll 2 ''dc'', SApprove 3 ''UC'' ''org'' ''key'', SNonce 4 [1], SRevoke 5 ''j'' 60, SPoll 6 ''dc'',
    SPoll 7 ''dc'', SRevoked 8 ''j'']"
  note defs = newLocalStores_def newMemStateStore_def newMemRevoker_def newDeviceStore_def dev_Create_def dev_Poll_def dev_Approve_def DeviceTTL_def uc
    state_New_def Revoke_def IsRevoked_def n Let_def
  have "regular_run 0 ?ops newLocalStores"
    by (simp add: defs forgotten_def redisDeviceSafetyMargin_def)
  from shared_stores_agree [where R = keyspace and V = "\<lambda>r. r" and s = Map.empty, OF keyspace_lawful refl ex_codec this] show ?thesis by (simp add: defs)
qed

text \<open>Nonces under failures.\<close>

fun rs_step :: "cmd \<times> state_op \<Rightarrow> redis \<Rightarrow> redis" where
  "rs_step (c, SNew t b) r = snd (rs_New keyspace c t b r)"
| "rs_step (c, SCheck t st) r = snd (rs_Check keyspace c t st r)"

fun rs_issues :: "cmd \<times> state_op \<Rightarrow> string \<Rightarrow> bool" where
  "rs_issues (c, p) k = state_issues p k"

fun rs_redeems :: "cmd \<times> state_op \<Rightarrow> redis \<Rightarrow> string \<Rightarrow> bool" where
  "rs_redeems (c, SCheck t st) r k = (st = k \<and> fst (rs_Check keyspace c t st r))"
| "rs_redeems _ r k = False"

definition rs_live :: "string \<Rightarrow> redis \<Rightarrow> bool" where
  "rs_live k r \<longleftrightarrow> r (redisOAuthStatePrefix @ k) \<noteq> None"

interpretation shared_states: single_use rs_step rs_live rs_issues rs_redeems
proof (unfold_locales, goal_cases)
  case (1 p r k)
  then show ?case
    by (cases "(p, r, k)" rule: rs_redeems.cases) (auto simp: rs_live_def rs_Check_def redis_del_def redis_get_def Let_def split: if_splits option.splits)
next
  case (2 k p r)
  then show ?case
    by (cases "(p, r)" rule: rs_step.cases)
      (auto simp: rs_live_def rs_New_def rs_Check_def redis_del_def redis_setex_def Let_def split: if_splits)
qed

text \<open>A nonce is good for one callback, on whatever replica, and whichever commands Redis loses: an outage fails a login, it never
  lets one nonce in twice.\<close>

lemma shared_nonce_single_use:
  "redeemed rs_step rs_redeems ops Map.empty st \<le> issued rs_issues ops st"
  using shared_states.at_most_once [of ops Map.empty st] by (simp add: rs_live_def)

text \<open>What an outage does: nonces and polls fail closed, revocations fail open.\<close>

lemma outage:
  "c \<noteq> Done \<Longrightarrow> \<not> fst (rs_Check R c t st r)"
  "c \<noteq> Done \<Longrightarrow> fst (rd_Poll R dec (c, c') t dc r) = Inl ErrDeviceUnknown"
  "c \<noteq> Done \<Longrightarrow> \<not> rv_IsRevoked R c t jti r"
  by (simp_all add: rs_Check_def rd_Poll_def rd_PollRead_def rd_PollFinish_def rv_IsRevoked_def Let_def)

text \<open>Two polls of one approved flow on two replicas, both of which read before either deletes, are both given the key.\<close>

lemma poll_race_hands_key_twice:
  assumes "rd_PollRead keyspace dec Done t dc r = Some q" "Approved q" "t - drCreatedAt q \<le> DeviceTTL"
  shows "fst (rd_PollFinish keyspace Done t dc (rd_PollRead keyspace dec Done t dc r) r) = Inr (drAPIKey q)
    \<and> fst (rd_PollFinish keyspace Done t dc (rd_PollRead keyspace dec Done t dc r) (snd (rd_PollFinish keyspace Done t dc (rd_PollRead keyspace dec Done t dc r) r))) = Inr (drAPIKey q)"
  using assms by (simp add: rd_PollFinish_def)

text \<open>An approval whose read precedes, and whose write follows, the deletion by a poll that found the flow expired: the record is
  back, with the API key in it, and never expires.\<close>

lemma approve_race_outlives_flow:
  assumes "rd_ApproveRead keyspace dec (Done, Done) t uc r = Some (dc, q)" "rd_PollRead keyspace dec Done t dc r = Some q" "t - drCreatedAt q > DeviceTTL"
  shows "snd (rd_ApproveWrite keyspace enc Done t orgID key (dc, q) (snd (rd_PollFinish keyspace Done t dc (Some q) r))) (codeKey dc) =
    Some (enc (q\<lparr>Approved := True, drOrgID := orgID, drAPIKey := key\<rparr>), None)"
  using assms by (simp add: rd_ApproveWrite_def rd_PollFinish_def rd_delete_def redis_del_def redis_set_keepttl_def Let_def)

text \<open>A user code typed in lower case is approved by the local store and unknown to the shared one.\<close>

lemma typed_code_differs:
  assumes "dev_rel enc t d r" "gget (byUser d) uc = None" "gget (byUser d) (to_upper (trim_space uc)) = Some dc"
  shows "fst (dev_Approve uc orgID key d) = Inr () \<and> fst (rd_Approve keyspace enc dec cs t uc orgID key r) = Inl ErrDeviceUnknown"
  using codes_invD(2) [OF dev_relD(1) [OF assms(1)] assms(3)] assms(2,3)
  by (auto simp: dev_Approve_def rd_Approve_def rd_ApproveRead_def dev_get(2) [OF assms(1)])

end
