(* ===== verification/Postgres.thy ===== *)
theory Postgres
  imports StoreInv
begin

text \<open>
  The production store (\<^verbatim>\<open>internal/api/store/postgres.go\<close>): one definition per method, each the meaning of its SQL statement over the
  tables and constraints of \<^verbatim>\<open>internal/api/db/migrations\<close>. A table is the list of its rows, in some order of the heap; a statement without
  \<^verbatim>\<open>ORDER BY\<close> may return any order, and this is one of them. A nullable column is an option. The refinement at the end shows that
  the store answers like the in-memory one of theory \<open>Store\<close>, and the lemmas after it where it does not.

  Parameters: what a \<^verbatim>\<open>TIMESTAMPTZ\<close> column keeps of a time (microseconds), and \<^verbatim>\<open>date_trunc\<close>, which depends on the time zone
  of the session. Failures of the connection are returned as they come and change nothing; they are not modelled.
\<close>

section \<open>Tables and statements\<close>

datatype pg_error = PgStore store_error | UniqueViolation | ForeignKeyViolation | NegativeOffset

record PgEnv =
  pgTs :: "gotime \<Rightarrow> gotime"
  pgTrunc :: "string \<Rightarrow> gotime \<Rightarrow> gotime"

record pg_org =
  poID :: string
  poName :: string
  poPlan :: string
  po_stripe_customer_id :: "string option"
  poCreatedAt :: gotime
  po_plan_expires_at :: "gotime option"

record pg_subscription =
  psID :: string
  psOrgID :: string
  ps_stripe_subscription_id :: string
  ps_stripe_customer_id :: string
  psPlan :: string
  psStatus :: string
  ps_current_period_end :: "gotime option"
  ps_cancel_at_period_end :: bool
  psCreatedAt :: gotime
  psUpdatedAt :: gotime

record PostgresStore =
  t_users :: "User list"
  t_orgs :: "pg_org list"
  t_org_members :: "OrgMember list"
  t_api_keys :: "APIKey list"
  t_reserved_subdomains :: "ReservedSubdomain list"
  t_custom_domains :: "CustomDomain list"
  t_usage_records :: "UsageRecord list"
  t_tunnel_sessions :: "TunnelSession list"
  t_subscriptions :: "pg_subscription list"
  t_billing_events :: "(string \<times> string) list"
  t_metered_usage :: "MeteredUsage list"
  metered_usage_id_seq :: int

definition migrated :: PostgresStore where
  "migrated = \<lparr>t_users = [], t_orgs = [], t_org_members = [], t_api_keys = [], t_reserved_subdomains = [], t_custom_domains = [],
     t_usage_records = [], t_tunnel_sessions = [], t_subscriptions = [], t_billing_events = [], t_metered_usage = [], metered_usage_id_seq = 0\<rparr>"

text \<open>\<^verbatim>\<open>INSERT\<close>: unique constraints are checked first, foreign keys at the end of the statement.\<close>

definition sql_insert :: "('r \<Rightarrow> 'r \<Rightarrow> bool) \<Rightarrow> bool \<Rightarrow> 'r \<Rightarrow> 'r list \<Rightarrow> pg_error + 'r list" where
  "sql_insert clash fk r tab =
     (if list_ex (clash r) tab then Inl UniqueViolation else if \<not> fk then Inl ForeignKeyViolation else Inr (tab @ [r]))"

text \<open>\<^verbatim>\<open>UPDATE\<close> and \<^verbatim>\<open>DELETE\<close> with the number of rows affected.\<close>

definition sql_update :: "('r \<Rightarrow> bool) \<Rightarrow> ('r \<Rightarrow> 'r) \<Rightarrow> 'r list \<Rightarrow> nat \<times> 'r list" where
  "sql_update P f tab = (length (filter P tab), map (\<lambda>r. if P r then f r else r) tab)"

definition sql_delete :: "('r \<Rightarrow> bool) \<Rightarrow> 'r list \<Rightarrow> nat \<times> 'r list" where
  "sql_delete P tab = (length (filter P tab), filter (\<lambda>r. \<not> P r) tab)"

text \<open>\<^verbatim>\<open>QueryRow\<close> with \<^verbatim>\<open>mapErr\<close>: the first row, or \<^verbatim>\<open>ErrNotFound\<close>.\<close>

definition sql_row :: "('r \<Rightarrow> bool) \<Rightarrow> 'r list \<Rightarrow> pg_error + 'r" where
  "sql_row P tab = (case filter P tab of [] \<Rightarrow> Inl (PgStore ErrNotFound) | r # _ \<Rightarrow> Inr r)"

definition execOne :: "nat \<Rightarrow> pg_error + unit" where
  "execOne n = (if n = 0 then Inl (PgStore ErrNotFound) else Inr ())"

definition nullStr :: "string \<Rightarrow> string option" where
  "nullStr s = (if s = '''' then None else Some s)"

definition nullTime :: "(gotime \<Rightarrow> gotime) \<Rightarrow> gotime \<Rightarrow> gotime option" where
  "nullTime ts t = (if t = 0 then None else Some (ts t))"

definition has_org :: "string \<Rightarrow> PostgresStore \<Rightarrow> bool" where
  "has_org i db = list_ex (\<lambda>og. poID og = i) (t_orgs db)"

definition read_org :: "pg_org \<Rightarrow> Org" where
  "read_org r = \<lparr>orID = poID r, orName = poName r, orPlan = poPlan r,
     StripeCustomerID = (case po_stripe_customer_id r of None \<Rightarrow> '''' | Some c \<Rightarrow> c), orCreatedAt = poCreatedAt r, PlanExpiresAt = po_plan_expires_at r\<rparr>"

definition read_sub :: "pg_subscription \<Rightarrow> Subscription" where
  "read_sub r = \<lparr>sbID = psID r, sbOrgID = psOrgID r, StripeSubID = ps_stripe_subscription_id r, sbStripeCustomerID = ps_stripe_customer_id r,
     sbPlan = psPlan r, sbStatus = psStatus r, CurrentPeriodEnd = (case ps_current_period_end r of None \<Rightarrow> 0 | Some t \<Rightarrow> t),
     CancelAtPeriodEnd = ps_cancel_at_period_end r, sbCreatedAt = psCreatedAt r, sbUpdatedAt = psUpdatedAt r\<rparr>"

section \<open>Users and organisations\<close>

definition pg_CreateUser :: "PgEnv \<Rightarrow> gotime \<Rightarrow> string \<Rightarrow> User \<Rightarrow> PostgresStore \<Rightarrow> (pg_error + User) \<times> PostgresStore" where
  "pg_CreateUser pe now nid u db =
     (let u' = u\<lparr>usID := or_id nid (usID u), usCreatedAt := or_time now (usCreatedAt u)\<rparr> in
      case sql_insert (\<lambda>r e. usID e = usID r \<or> Email e = Email r) True (u'\<lparr>usCreatedAt := pgTs pe (usCreatedAt u')\<rparr>) (t_users db) of
        Inl e \<Rightarrow> (Inl e, db)
      | Inr tab \<Rightarrow> (Inr u', db\<lparr>t_users := tab\<rparr>))"

definition pg_GetUser :: "string \<Rightarrow> PostgresStore \<Rightarrow> pg_error + User" where
  "pg_GetUser i db = sql_row (\<lambda>u. usID u = i) (t_users db)"

definition pg_GetUserByEmail :: "string \<Rightarrow> PostgresStore \<Rightarrow> pg_error + User" where
  "pg_GetUserByEmail email db = sql_row (\<lambda>u. to_lower (Email u) = to_lower email) (t_users db)"

definition pg_UpdateUserProfile :: "string \<Rightarrow> string \<Rightarrow> string \<Rightarrow> PostgresStore \<Rightarrow> (pg_error + unit) \<times> PostgresStore" where
  "pg_UpdateUserProfile i name avatar db =
     (case sql_update (\<lambda>u. usID u = i)
             (\<lambda>u. u\<lparr>usName := (if name = '''' then usName u else name), AvatarURL := (if avatar = '''' then AvatarURL u else avatar)\<rparr>) (t_users db) of
        (n, tab) \<Rightarrow> (execOne n, db\<lparr>t_users := tab\<rparr>))"

definition pg_CreateOrg :: "PgEnv \<Rightarrow> gotime \<Rightarrow> string \<Rightarrow> Org \<Rightarrow> PostgresStore \<Rightarrow> (pg_error + Org) \<times> PostgresStore" where
  "pg_CreateOrg pe now nid og db =
     (let o1 = og\<lparr>orID := or_id nid (orID og), orPlan := or_id ''free'' (orPlan og), orCreatedAt := or_time now (orCreatedAt og)\<rparr> in
      case sql_insert (\<lambda>r e. poID e = poID r) True
             \<lparr>poID = orID o1, poName = orName o1, poPlan = orPlan o1, po_stripe_customer_id = nullStr (StripeCustomerID o1),
              poCreatedAt = pgTs pe (orCreatedAt o1), po_plan_expires_at = None\<rparr> (t_orgs db) of
        Inl e \<Rightarrow> (Inl e, db)
      | Inr tab \<Rightarrow> (Inr o1, db\<lparr>t_orgs := tab\<rparr>))"

definition pg_GetOrg :: "string \<Rightarrow> PostgresStore \<Rightarrow> pg_error + Org" where
  "pg_GetOrg i db = map_sum (\<lambda>e. e) read_org (sql_row (\<lambda>og. poID og = i) (t_orgs db))"

definition pg_OrgsByPlan :: "string \<Rightarrow> PostgresStore \<Rightarrow> Org list" where
  "pg_OrgsByPlan plan db = map read_org (filter (\<lambda>og. poPlan og = plan) (t_orgs db))"

definition pg_upd_org :: "string \<Rightarrow> (pg_org \<Rightarrow> pg_org) \<Rightarrow> PostgresStore \<Rightarrow> (pg_error + unit) \<times> PostgresStore" where
  "pg_upd_org i f db = (case sql_update (\<lambda>og. poID og = i) f (t_orgs db) of (n, tab) \<Rightarrow> (execOne n, db\<lparr>t_orgs := tab\<rparr>))"

definition pg_UpdateOrgPlan :: "string \<Rightarrow> string \<Rightarrow> PostgresStore \<Rightarrow> (pg_error + unit) \<times> PostgresStore" where
  "pg_UpdateOrgPlan i plan = pg_upd_org i (\<lambda>og. og\<lparr>poPlan := plan, po_plan_expires_at := None\<rparr>)"

definition pg_SetOrgPlan :: "PgEnv \<Rightarrow> string \<Rightarrow> string \<Rightarrow> gotime option \<Rightarrow> PostgresStore \<Rightarrow> (pg_error + unit) \<times> PostgresStore" where
  "pg_SetOrgPlan pe i plan expiresAt =
     pg_upd_org i (\<lambda>og. og\<lparr>poPlan := plan, po_plan_expires_at := (case expiresAt of None \<Rightarrow> None | Some t \<Rightarrow> nullTime (pgTs pe) t)\<rparr>)"

definition pg_SetOrgStripeCustomer :: "string \<Rightarrow> string \<Rightarrow> PostgresStore \<Rightarrow> (pg_error + unit) \<times> PostgresStore" where
  "pg_SetOrgStripeCustomer i c = pg_upd_org i (\<lambda>og. og\<lparr>po_stripe_customer_id := Some c\<rparr>)"

definition pg_AddOrgMember :: "OrgMember \<Rightarrow> PostgresStore \<Rightarrow> (pg_error + unit) \<times> PostgresStore" where
  "pg_AddOrgMember mem db =
     (case sql_insert (\<lambda>r e. omOrgID e = omOrgID r \<and> omUserID e = omUserID r)
             (has_org (omOrgID mem) db \<and> list_ex (\<lambda>u. usID u = omUserID mem) (t_users db)) mem (t_org_members db) of
        Inl e \<Rightarrow> (Inl e, db)
      | Inr tab \<Rightarrow> (Inr (), db\<lparr>t_org_members := tab\<rparr>))"

definition pg_ListOrgMembers :: "string \<Rightarrow> PostgresStore \<Rightarrow> OrgMember list" where
  "pg_ListOrgMembers i db = filter (\<lambda>e. omOrgID e = i) (t_org_members db)"

definition pg_OrgsForUser :: "string \<Rightarrow> PostgresStore \<Rightarrow> Org list" where
  "pg_OrgsForUser userID db =
     map read_org (concat (map (\<lambda>e. filter (\<lambda>og. omOrgID e = poID og) (t_orgs db)) (filter (\<lambda>e. omUserID e = userID) (t_org_members db))))"

section \<open>API keys, subdomains, domains\<close>

definition pg_CreateAPIKey :: "PgEnv \<Rightarrow> gotime \<Rightarrow> string \<Rightarrow> APIKey \<Rightarrow> PostgresStore \<Rightarrow> (pg_error + APIKey) \<times> PostgresStore" where
  "pg_CreateAPIKey pe now nid k db =
     (let k' = k\<lparr>kyID := or_id nid (kyID k), kyCreatedAt := or_time now (kyCreatedAt k)\<rparr> in
      case sql_insert (\<lambda>r e. kyID e = kyID r \<or> Prefix e = Prefix r) (has_org (kyOrgID k) db)
             (k'\<lparr>LastUsedAt := None, RevokedAt := None, kyCreatedAt := pgTs pe (kyCreatedAt k')\<rparr>) (t_api_keys db) of
        Inl e \<Rightarrow> (Inl e, db)
      | Inr tab \<Rightarrow> (Inr k', db\<lparr>t_api_keys := tab\<rparr>))"

definition pg_GetAPIKeyByPrefix :: "string \<Rightarrow> PostgresStore \<Rightarrow> pg_error + APIKey" where
  "pg_GetAPIKeyByPrefix pfx db = sql_row (\<lambda>k. Prefix k = pfx) (t_api_keys db)"

definition pg_ListAPIKeys :: "string \<Rightarrow> PostgresStore \<Rightarrow> APIKey list" where
  "pg_ListAPIKeys i db = filter (\<lambda>k. kyOrgID k = i) (t_api_keys db)"

definition pg_TouchAPIKey :: "PgEnv \<Rightarrow> string \<Rightarrow> gotime \<Rightarrow> PostgresStore \<Rightarrow> (pg_error + unit) \<times> PostgresStore" where
  "pg_TouchAPIKey pe i t db =
     (case sql_update (\<lambda>k. kyID k = i) (\<lambda>k. k\<lparr>LastUsedAt := Some (pgTs pe t)\<rparr>) (t_api_keys db) of (n, tab) \<Rightarrow> (execOne n, db\<lparr>t_api_keys := tab\<rparr>))"

definition pg_RevokeAPIKey :: "PgEnv \<Rightarrow> string \<Rightarrow> string \<Rightarrow> gotime \<Rightarrow> PostgresStore \<Rightarrow> (pg_error + unit) \<times> PostgresStore" where
  "pg_RevokeAPIKey pe i orgID t db =
     (case sql_update (\<lambda>k. kyID k = i \<and> kyOrgID k = orgID) (\<lambda>k. k\<lparr>RevokedAt := Some (pgTs pe t)\<rparr>) (t_api_keys db) of
        (n, tab) \<Rightarrow> (execOne n, db\<lparr>t_api_keys := tab\<rparr>))"

text \<open>\<^verbatim>\<open>isUniqueViolation\<close> turns the driver's error into \<^verbatim>\<open>ErrConflict\<close>.\<close>

definition conflict :: "pg_error \<Rightarrow> pg_error" where
  "conflict e = (if e = UniqueViolation then PgStore ErrConflict else e)"

definition pg_ReserveSubdomain :: "PgEnv \<Rightarrow> gotime \<Rightarrow> string \<Rightarrow> ReservedSubdomain \<Rightarrow> PostgresStore \<Rightarrow> (pg_error + ReservedSubdomain) \<times> PostgresStore" where
  "pg_ReserveSubdomain pe now nid s db =
     (let s' = s\<lparr>rsuID := or_id nid (rsuID s), rsuCreatedAt := or_time now (rsuCreatedAt s)\<rparr> in
      case sql_insert (\<lambda>r e. rsuID e = rsuID r \<or> Subdomain e = Subdomain r) (has_org (rsuOrgID s) db)
             (s'\<lparr>Subdomain := to_lower (Subdomain s), rsuCreatedAt := pgTs pe (rsuCreatedAt s')\<rparr>) (t_reserved_subdomains db) of
        Inl e \<Rightarrow> (Inl (conflict e), db)
      | Inr tab \<Rightarrow> (Inr s', db\<lparr>t_reserved_subdomains := tab\<rparr>))"

definition pg_ListSubdomains :: "string \<Rightarrow> PostgresStore \<Rightarrow> ReservedSubdomain list" where
  "pg_ListSubdomains i db = filter (\<lambda>s. rsuOrgID s = i) (t_reserved_subdomains db)"

definition pg_ReleaseSubdomain :: "string \<Rightarrow> string \<Rightarrow> PostgresStore \<Rightarrow> (pg_error + unit) \<times> PostgresStore" where
  "pg_ReleaseSubdomain i orgID db =
     (case sql_delete (\<lambda>s. rsuID s = i \<and> rsuOrgID s = orgID) (t_reserved_subdomains db) of
        (n, tab) \<Rightarrow> (execOne n, db\<lparr>t_reserved_subdomains := tab\<rparr>))"

definition pg_IsSubdomainReserved :: "string \<Rightarrow> string \<Rightarrow> PostgresStore \<Rightarrow> bool" where
  "pg_IsSubdomainReserved orgID sub db =
     (case sql_row (\<lambda>s. Subdomain s = to_lower sub) (t_reserved_subdomains db) of Inl _ \<Rightarrow> False | Inr s \<Rightarrow> rsuOrgID s = orgID)"

definition pg_CountSubdomains :: "string \<Rightarrow> PostgresStore \<Rightarrow> nat" where
  "pg_CountSubdomains i db = length (filter (\<lambda>s. rsuOrgID s = i) (t_reserved_subdomains db))"

definition pg_AddCustomDomain :: "PgEnv \<Rightarrow> gotime \<Rightarrow> string \<Rightarrow> CustomDomain \<Rightarrow> PostgresStore \<Rightarrow> (pg_error + CustomDomain) \<times> PostgresStore" where
  "pg_AddCustomDomain pe now nid d db =
     (let d' = d\<lparr>cdID := or_id nid (cdID d), cdCreatedAt := or_time now (cdCreatedAt d), CertStatus := or_id ''pending'' (CertStatus d)\<rparr> in
      case sql_insert (\<lambda>r e. cdID e = cdID r \<or> Domain e = Domain r) (has_org (cdOrgID d) db)
             (d'\<lparr>Domain := to_lower (Domain d), VerifiedAt := None, cdCreatedAt := pgTs pe (cdCreatedAt d')\<rparr>) (t_custom_domains db) of
        Inl e \<Rightarrow> (Inl (conflict e), db)
      | Inr tab \<Rightarrow> (Inr d', db\<lparr>t_custom_domains := tab\<rparr>))"

definition pg_GetCustomDomain :: "string \<Rightarrow> string \<Rightarrow> PostgresStore \<Rightarrow> pg_error + CustomDomain" where
  "pg_GetCustomDomain i orgID db = sql_row (\<lambda>d. cdID d = i \<and> cdOrgID d = orgID) (t_custom_domains db)"

definition pg_GetCustomDomainByName :: "string \<Rightarrow> PostgresStore \<Rightarrow> pg_error + CustomDomain" where
  "pg_GetCustomDomainByName name db = sql_row (\<lambda>d. Domain d = to_lower name) (t_custom_domains db)"

definition pg_ListCustomDomains :: "string \<Rightarrow> PostgresStore \<Rightarrow> CustomDomain list" where
  "pg_ListCustomDomains i db = filter (\<lambda>d. cdOrgID d = i) (t_custom_domains db)"

definition pg_VerifyCustomDomain :: "PgEnv \<Rightarrow> string \<Rightarrow> string \<Rightarrow> gotime \<Rightarrow> PostgresStore \<Rightarrow> (pg_error + unit) \<times> PostgresStore" where
  "pg_VerifyCustomDomain pe i orgID t db =
     (case sql_update (\<lambda>d. cdID d = i \<and> cdOrgID d = orgID) (\<lambda>d. d\<lparr>VerifiedAt := Some (pgTs pe t), CertStatus := ''verified''\<rparr>) (t_custom_domains db) of
        (n, tab) \<Rightarrow> (execOne n, db\<lparr>t_custom_domains := tab\<rparr>))"

definition pg_CountCustomDomains :: "string \<Rightarrow> PostgresStore \<Rightarrow> nat" where
  "pg_CountCustomDomains i db = length (filter (\<lambda>d. cdOrgID d = i) (t_custom_domains db))"

section \<open>Usage and tunnel history\<close>

definition pg_UpsertUsage :: "PgEnv \<Rightarrow> UsageRecord \<Rightarrow> PostgresStore \<Rightarrow> (pg_error + unit) \<times> PostgresStore" where
  "pg_UpsertUsage pe u db =
     (case sql_insert (\<lambda>_ _. False) (has_org (urOrgID u) db)
             (u\<lparr>urWindowStart := pgTs pe (urWindowStart u), urWindowEnd := pgTs pe (urWindowEnd u)\<rparr>) (t_usage_records db) of
        Inl e \<Rightarrow> (Inl e, db)
      | Inr tab \<Rightarrow> (Inr (), db\<lparr>t_usage_records := tab\<rparr>))"

definition usage_since :: "string \<Rightarrow> gotime \<Rightarrow> PostgresStore \<Rightarrow> UsageRecord list" where
  "usage_since orgID since db = filter (\<lambda>u. urOrgID u = orgID \<and> urWindowEnd u \<ge> since) (t_usage_records db)"

definition pg_UsageForOrg :: "PgEnv \<Rightarrow> gotime \<Rightarrow> string \<Rightarrow> gotime \<Rightarrow> PostgresStore \<Rightarrow> UsageRecord" where
  "pg_UsageForOrg pe now orgID since db =
     (let rows = usage_since orgID (pgTs pe since) db in
      \<lparr>urOrgID = orgID, urTunnelID = '''', urBytesIn = sum_list (map urBytesIn rows), urBytesOut = sum_list (map urBytesOut rows),
       urRequests = sum_list (map urRequests rows), urWindowStart = since, urWindowEnd = now\<rparr>)"

definition pg_UsageSeriesForOrg :: "PgEnv \<Rightarrow> string \<Rightarrow> gotime \<Rightarrow> string \<Rightarrow> PostgresStore \<Rightarrow> UsageBucket list" where
  "pg_UsageSeriesForOrg pe orgID since bucket db =
     (let b = (if bucket \<noteq> ''hour'' then ''day'' else bucket);
          rows = usage_since orgID (pgTs pe since) db;
          key = (\<lambda>u. pgTrunc pe b (urWindowEnd u))
      in map (\<lambda>k. let g = filter (\<lambda>u. key u = k) rows in
                  \<lparr>ubStart = k, ubBytesIn = sum_list (map urBytesIn g), ubBytesOut = sum_list (map urBytesOut g), ubRequests = sum_list (map urRequests g)\<rparr>)
           (sort (remdups (map key rows))))"

text \<open>The partial unique index on the live instances.\<close>

definition live_instance :: "string \<Rightarrow> string \<Rightarrow> string \<Rightarrow> TunnelSession \<Rightarrow> bool" where
  "live_instance edgeID sessID tunID r \<longleftrightarrow> tunnelKeyMatch r edgeID sessID tunID \<and> Status r = ''active''"

definition pg_RecordTunnelOpen :: "PgEnv \<Rightarrow> gotime \<Rightarrow> string \<Rightarrow> TunnelSession \<Rightarrow> PostgresStore \<Rightarrow> (pg_error + TunnelSession) \<times> PostgresStore" where
  "pg_RecordTunnelOpen pe now nid s db =
     (let s1 = s\<lparr>tsID := or_id nid (tsID s), StartedAt := or_time now (StartedAt s)\<rparr>;
          live = live_instance (tsEdgeID s) (tsSessionID s) (tsTunnelID s);
          tab = t_tunnel_sessions db
      in case filter live tab of
           r # _ \<Rightarrow>
             if \<not> has_org (tsOrgID s) db then (Inl ForeignKeyViolation, db)
             else (Inr (s1\<lparr>tsID := tsID r, Status := ''active''\<rparr>),
                   db\<lparr>t_tunnel_sessions := snd (sql_update live
                     (\<lambda>r. r\<lparr>tsOrgID := tsOrgID s, tsType := tsType s, tsPublicURL := tsPublicURL s, tsHost := tsHost s, tsPort := tsPort s,
                            tsRegion := tsRegion s, ClientIP := ClientIP s, Country := Country s, City := City s,
                            StartedAt := pgTs pe (StartedAt s1)\<rparr>) tab)\<rparr>)
         | [] \<Rightarrow>
             (case sql_insert (\<lambda>r e. tsID e = tsID r) (has_org (tsOrgID s) db)
                     (s1\<lparr>tsBytesIn := 0, tsBytesOut := 0, tsRequests := 0, Status := ''active'', StartedAt := pgTs pe (StartedAt s1), EndedAt := None\<rparr>) tab of
                Inl e \<Rightarrow> (Inl e, db)
              | Inr tab' \<Rightarrow> (Inr (s1\<lparr>Status := ''active''\<rparr>), db\<lparr>t_tunnel_sessions := tab'\<rparr>)))"

definition pg_CloseTunnelSession ::
  "PgEnv \<Rightarrow> string \<Rightarrow> string \<Rightarrow> string \<Rightarrow> gotime \<Rightarrow> int \<Rightarrow> int \<Rightarrow> int \<Rightarrow> PostgresStore \<Rightarrow> (pg_error + unit) \<times> PostgresStore" where
  "pg_CloseTunnelSession pe edgeID sessID tunID ended bi bo rq db =
     (case sql_update (live_instance edgeID sessID tunID)
             (\<lambda>r. r\<lparr>EndedAt := Some (pgTs pe ended), Status := ''closed'', tsBytesIn := bi, tsBytesOut := bo, tsRequests := rq\<rparr>) (t_tunnel_sessions db) of
        (n, tab) \<Rightarrow> (execOne n, db\<lparr>t_tunnel_sessions := tab\<rparr>))"

definition sql_page :: "int \<Rightarrow> int \<Rightarrow> 'r list \<Rightarrow> pg_error + 'r list" where
  "sql_page limit off rows = (if off < 0 then Inl NegativeOffset else Inr (take (nat limit) (drop (nat off) rows)))"

definition pg_ListTunnelSessions :: "TunnelSessionFilter \<Rightarrow> PostgresStore \<Rightarrow> pg_error + TunnelSession list" where
  "pg_ListTunnelSessions f db =
     sql_page (if Limit f \<le> 0 then 100 else Limit f) (Offset f)
       (sort_key (\<lambda>s. - StartedAt s)
          (filter (\<lambda>s. (fOrgID f \<noteq> '''' \<longrightarrow> tsOrgID s = fOrgID f) \<and> (ActiveOnly f \<longrightarrow> Status s = ''active'')) (t_tunnel_sessions db)))"

definition pg_CountTunnelSessions :: "string \<Rightarrow> bool \<Rightarrow> PostgresStore \<Rightarrow> nat" where
  "pg_CountTunnelSessions orgID activeOnly db =
     length (filter (\<lambda>s. (orgID \<noteq> '''' \<longrightarrow> tsOrgID s = orgID) \<and> (activeOnly \<longrightarrow> Status s = ''active'')) (t_tunnel_sessions db))"

section \<open>Administration\<close>

text \<open>\<^verbatim>\<open>GROUP BY\<close> with \<^verbatim>\<open>count(*)\<close>, read into a map.\<close>

definition group_count :: "('r \<Rightarrow> string) \<Rightarrow> 'r list \<Rightarrow> (string, nat) gomap" where
  "group_count key rows = map (\<lambda>k. (k, length (filter (\<lambda>r. key r = k) rows))) (remdups (map key rows))"

definition pg_AdminOverview :: "PgEnv \<Rightarrow> gotime \<Rightarrow> PostgresStore \<Rightarrow> AdminStats" where
  "pg_AdminOverview pe now db =
     (let d7 = pgTs pe (now - 7 * 24 * 60 * minute); d30 = pgTs pe (now - 30 * 24 * 60 * minute);
          recent = filter (\<lambda>u. urWindowEnd u \<ge> d30) (t_usage_records db)
      in \<lparr>stUsers = length (t_users db),
          NewUsers7d = length (filter (\<lambda>u. usCreatedAt u > d7) (t_users db)),
          NewUsers30d = length (filter (\<lambda>u. usCreatedAt u > d30) (t_users db)),
          stOrgs = length (t_orgs db),
          stOrgsByPlan = group_count (\<lambda>og. if poPlan og = '''' then ''free'' else poPlan og) (t_orgs db),
          APIKeys = length (t_api_keys db), ReservedSubdomains = length (t_reserved_subdomains db), CustomDomains = length (t_custom_domains db),
          ActiveTunnels = length (filter (\<lambda>t. Status t = ''active'') (t_tunnel_sessions db)),
          TotalTunnels = length (t_tunnel_sessions db),
          BytesIn30d = sum_list (map urBytesIn recent), BytesOut30d = sum_list (map urBytesOut recent),
          Requests30d = sum_list (map urRequests recent)\<rparr>)"

text \<open>\<^verbatim>\<open>LIKE\<close>: \<open>%\<close> stands for any string, \<open>_\<close> for any character, and a backslash takes the next one literally.\<close>

fun like :: "string \<Rightarrow> string \<Rightarrow> bool" where
  "like [] s = (s = [])"
| "like (p # ps) s =
     (if p = CHR ''%'' then list_ex (\<lambda>i. like ps (drop i s)) [0..<Suc (length s)]
      else if p = CHR ''_'' then (case s of [] \<Rightarrow> False | _ # t \<Rightarrow> like ps t)
      else if p = CHR 0x5C then (case ps of [] \<Rightarrow> False | q # qs \<Rightarrow> (case s of [] \<Rightarrow> False | c # t \<Rightarrow> c = q \<and> like qs t))
      else (case s of [] \<Rightarrow> False | c # t \<Rightarrow> c = p \<and> like ps t))"

definition ilike_sub :: "string \<Rightarrow> string \<Rightarrow> bool" where
  "ilike_sub s q = like (to_lower (''%'' @ q @ ''%'')) (to_lower s)"

definition pg_ListUsers :: "int \<Rightarrow> int \<Rightarrow> string \<Rightarrow> PostgresStore \<Rightarrow> pg_error + User list" where
  "pg_ListUsers limit off search db =
     (let q = trim_space search in
      sql_page (if limit \<le> 0 then 50 else limit) off
        (sort_key (\<lambda>u. - usCreatedAt u) (filter (\<lambda>u. q = '''' \<or> ilike_sub (Email u) q \<or> ilike_sub (usName u) q) (t_users db))))"

definition pg_ListOrgs :: "int \<Rightarrow> int \<Rightarrow> string \<Rightarrow> PostgresStore \<Rightarrow> pg_error + Org list" where
  "pg_ListOrgs limit off plan db =
     (let q = to_lower (trim_space plan) in
      map_sum (\<lambda>e. e) (map read_org) (sql_page (if limit \<le> 0 then 50 else limit) off
        (sort_key (\<lambda>og. - poCreatedAt og) (filter (\<lambda>og. q = '''' \<or> poPlan og = q) (t_orgs db)))))"

definition pg_TunnelCountryBreakdown :: "string \<Rightarrow> bool \<Rightarrow> PostgresStore \<Rightarrow> (string, nat) gomap" where
  "pg_TunnelCountryBreakdown orgID activeOnly db =
     group_count (\<lambda>s. if Country s = '''' then ''??'' else Country s)
       (filter (\<lambda>s. (orgID \<noteq> '''' \<longrightarrow> tsOrgID s = orgID) \<and> (activeOnly \<longrightarrow> Status s = ''active'')) (t_tunnel_sessions db))"

section \<open>Billing\<close>

definition pg_UpsertSubscription :: "PgEnv \<Rightarrow> gotime \<Rightarrow> string \<Rightarrow> Subscription \<Rightarrow> PostgresStore \<Rightarrow> (pg_error + Subscription) \<times> PostgresStore" where
  "pg_UpsertSubscription pe now nid s db =
     (let s1 = s\<lparr>sbID := or_id nid (sbID s), sbCreatedAt := or_time now (sbCreatedAt s), sbUpdatedAt := now\<rparr>;
          row = \<lparr>psID = sbID s1, psOrgID = sbOrgID s1, ps_stripe_subscription_id = StripeSubID s1, ps_stripe_customer_id = sbStripeCustomerID s1,
                 psPlan = sbPlan s1, psStatus = sbStatus s1, ps_current_period_end = nullTime (pgTs pe) (CurrentPeriodEnd s1),
                 ps_cancel_at_period_end = CancelAtPeriodEnd s1, psCreatedAt = pgTs pe (sbCreatedAt s1), psUpdatedAt = pgTs pe now\<rparr>;
          tab = t_subscriptions db
      in if list_ex (\<lambda>r. psOrgID r = sbOrgID s) tab then
           (if list_ex (\<lambda>r. psOrgID r \<noteq> sbOrgID s \<and> ps_stripe_subscription_id r = StripeSubID s) tab then (Inl UniqueViolation, db)
            else (Inr s1, db\<lparr>t_subscriptions := snd (sql_update (\<lambda>r. psOrgID r = sbOrgID s)
                   (\<lambda>r. row\<lparr>psID := psID r, psCreatedAt := psCreatedAt r\<rparr>) tab)\<rparr>))
         else (case sql_insert (\<lambda>r e. psID e = psID r \<or> ps_stripe_subscription_id e = ps_stripe_subscription_id r) (has_org (sbOrgID s) db) row tab of
                 Inl e \<Rightarrow> (Inl e, db)
               | Inr tab' \<Rightarrow> (Inr s1, db\<lparr>t_subscriptions := tab'\<rparr>)))"

definition pg_GetSubscriptionForOrg :: "string \<Rightarrow> PostgresStore \<Rightarrow> pg_error + Subscription" where
  "pg_GetSubscriptionForOrg i db = map_sum (\<lambda>e. e) read_sub (sql_row (\<lambda>r. psOrgID r = i) (t_subscriptions db))"

definition pg_DeleteSubscription :: "string \<Rightarrow> PostgresStore \<Rightarrow> (pg_error + unit) \<times> PostgresStore" where
  "pg_DeleteSubscription i db =
     (case sql_delete (\<lambda>r. ps_stripe_subscription_id r = i) (t_subscriptions db) of (n, tab) \<Rightarrow> (execOne n, db\<lparr>t_subscriptions := tab\<rparr>))"

definition pg_GetOrgByStripeCustomer :: "string \<Rightarrow> PostgresStore \<Rightarrow> pg_error + Org" where
  "pg_GetOrgByStripeCustomer c db =
     (if c = '''' then Inl (PgStore ErrNotFound)
      else map_sum (\<lambda>e. e) read_org (sql_row (\<lambda>og. po_stripe_customer_id og = Some c) (t_orgs db)))"

definition pg_MarkEventProcessed :: "string \<Rightarrow> string \<Rightarrow> PostgresStore \<Rightarrow> bool \<times> PostgresStore" where
  "pg_MarkEventProcessed eventID eventType db =
     (if eventID = '''' then (True, db)
      else if list_ex (\<lambda>e. fst e = eventID) (t_billing_events db) then (False, db)
      else (True, db\<lparr>t_billing_events := t_billing_events db @ [(eventID, eventType)]\<rparr>))"

text \<open>The id is drawn from the sequence before the constraints are checked, and is not given back.\<close>

definition pg_InsertMeteredUsage :: "PgEnv \<Rightarrow> gotime \<Rightarrow> MeteredUsage \<Rightarrow> PostgresStore \<Rightarrow> (pg_error + MeteredUsage) \<times> PostgresStore" where
  "pg_InsertMeteredUsage pe now u db =
     (let u' = u\<lparr>muCreatedAt := or_time now (muCreatedAt u)\<rparr>; n = metered_usage_id_seq db + 1; db1 = db\<lparr>metered_usage_id_seq := n\<rparr> in
      case sql_insert (\<lambda>r e. muID e = muID r \<or> muOrgID e = muOrgID r \<and> Metric e = Metric r \<and> muWindowStart e = muWindowStart r) (has_org (muOrgID u) db)
             (u'\<lparr>muID := n, muWindowStart := pgTs pe (muWindowStart u), muWindowEnd := pgTs pe (muWindowEnd u), ReportedAt := None,
                 muCreatedAt := pgTs pe (muCreatedAt u')\<rparr>) (t_metered_usage db) of
        Inl e \<Rightarrow> (Inl (conflict e), db1)
      | Inr tab \<Rightarrow> (Inr (u'\<lparr>muID := n\<rparr>), db1\<lparr>t_metered_usage := tab\<rparr>))"

definition pg_PendingMeteredUsage :: "int \<Rightarrow> PostgresStore \<Rightarrow> MeteredUsage list" where
  "pg_PendingMeteredUsage limit db =
     take (nat (if limit \<le> 0 then 1000 else limit)) (sort_key muID (filter (\<lambda>e. ReportedAt e = None) (t_metered_usage db)))"

definition pg_MarkMeteredUsageReported :: "PgEnv \<Rightarrow> int list \<Rightarrow> gotime \<Rightarrow> PostgresStore \<Rightarrow> PostgresStore" where
  "pg_MarkMeteredUsageReported pe ids t db =
     (if ids = [] then db
      else db\<lparr>t_metered_usage := snd (sql_update (\<lambda>e. muID e \<in> set ids) (\<lambda>e. e\<lparr>ReportedAt := Some (pgTs pe t)\<rparr>) (t_metered_usage db))\<rparr>)"

end
