(* ===== verification/PostgresRefines.thy ===== *)
theory PostgresRefines
  imports Postgres
begin

text \<open>
  The production store refines the in-memory one: over every run of operations both accept and refuse the same ones and answer every query
  alike, for the operations the control plane performs. Where a precondition of the refinement is needed, a lemma shows
  what happens without it.
\<close>

section \<open>Go maps as tables\<close>

definition tab :: "('r \<Rightarrow> string) \<Rightarrow> (string, 'r) gomap \<Rightarrow> bool" where
  "tab idf g \<longleftrightarrow> gomap_ok g \<and> (\<forall>p \<in> set g. idf (snd p) = fst p)"

lemma tabI: "gomap_ok g \<Longrightarrow> (\<And>k r. gget g k = Some r \<Longrightarrow> idf r = k) \<Longrightarrow> tab idf g"
  by (auto simp: tab_def gomap_ok_mem)

lemma tab_Cons: "tab idf ((k, r) # g) \<longleftrightarrow> idf r = k \<and> tab idf g \<and> (\<forall>p \<in> set g. idf (snd p) \<noteq> k)"
proof -
  have "k \<notin> fst ` set g \<longleftrightarrow> (\<forall>p \<in> set g. idf (snd p) \<noteq> k)" if "\<forall>p \<in> set g. idf (snd p) = fst p" using that by force
  then show ?thesis by (simp add: tab_def gomap_ok_def) blast
qed

lemma tab_gget: "tab idf g \<Longrightarrow> gget g k = find (\<lambda>r. idf r = k) (map snd g)"
  by (induction g) (auto simp: tab_Cons)

lemma tab_filter: "tab idf g \<Longrightarrow> filter (\<lambda>r. idf r = k) (map snd g) = (case gget g k of None \<Rightarrow> [] | Some r \<Rightarrow> [r])"
proof (induction g)
  case (Cons p g)
  obtain i r where p: "p = (i, r)" by (cases p)
  from Cons.prems have g: "tab idf g" "idf r = i" "\<forall>p \<in> set g. idf (snd p) \<noteq> i" by (simp_all add: p tab_Cons)
  then have "filter (\<lambda>r. idf r = i) (map snd g) = []" by (auto simp: filter_empty_conv)
  with g Cons.IH show ?case by (auto simp: p)
qed simp

lemma tab_update:
  "tab idf g \<Longrightarrow> gget g k = Some r \<Longrightarrow> map snd (gset k (f r) g) = map (\<lambda>x. if idf x = k then f x else x) (map snd g)"
proof (induction g)
  case (Cons p g)
  obtain i r' where p: "p = (i, r')" by (cases p)
  from Cons.prems have g: "tab idf g" "idf r' = i" "\<forall>p \<in> set g. idf (snd p) \<noteq> i" by (simp_all add: p tab_Cons)
  show ?case
  proof (cases "i = k")
    case True
    then have "map (\<lambda>x. if idf x = k then f x else x) (map snd g) = map snd g" using g(3) by (auto intro!: map_idI)
    with True g Cons.prems show ?thesis by (simp add: p)
  qed (use g Cons in \<open>simp add: p\<close>)
qed simp

lemma tab_insert: "gget g k = None \<Longrightarrow> map snd (gset k r g) = map snd g @ [r]"
  by (induction g) (auto split: if_splits)

lemma tab_delete: "tab idf g \<Longrightarrow> map snd (gdel k g) = filter (\<lambda>x. idf x \<noteq> k) (map snd g)"
  by (induction g) (auto simp: tab_Cons)

lemma tab_mem: "tab idf g \<Longrightarrow> r \<in> set (map snd g) \<longleftrightarrow> gget g (idf r) = Some r"
proof -
  assume t: "tab idf g"
  then have "r \<in> set (map snd g) \<longleftrightarrow> (idf r, r) \<in> set g" by (force simp: tab_def)
  with t show ?thesis by (simp add: tab_def gomap_ok_mem)
qed

lemma tab_fresh: "tab idf g \<Longrightarrow> gget g k = None \<longleftrightarrow> \<not> list_ex (\<lambda>r. idf r = k) (map snd g)"
  by (simp add: tab_gget find_None_iff list_ex_iff)

text \<open>A lookup through a unique index is a scan of the table.\<close>

lemma index_scan:
  assumes "tab rid g" "index_ok key rid g idx"
  shows "filter (\<lambda>r. key r = k) (map snd g) = (case gget idx k of None \<Rightarrow> [] | Some i \<Rightarrow> (case gget g i of None \<Rightarrow> [] | Some r \<Rightarrow> [r]))"
proof (cases "gget idx k")
  case None
  have "key r \<noteq> k" if "r \<in> set (map snd g)" for r
    using that assms None tab_mem [OF assms(1)] unfolding index_ok_def by (metis option.distinct(1))
  then have "filter (\<lambda>r. key r = k) (map snd g) = []" by (simp add: filter_empty_conv)
  with None show ?thesis by simp
next
  case (Some i)
  then obtain r where r: "gget g i = Some r" "key r = k" using assms(2) unfolding index_ok_def by blast
  have "filter (\<lambda>r. key r = k) (map snd g) = filter (\<lambda>r. rid r = i) (map snd g)"
  proof (rule filter_cong)
    fix x assume "x \<in> set (map snd g)"
    then have "gget g (rid x) = Some x" using tab_mem [OF assms(1)] by blast
    then show "(key x = k) = (rid x = i)" using assms(2) Some r unfolding index_ok_def by (metis option.inject)
  qed simp
  with Some r show ?thesis using tab_filter [OF assms(1), of i] by simp
qed

section \<open>What every reachable store satisfies\<close>

lemmas store_op_defs =
  CreateUser_def UpdateUserProfile_def CreateOrg_def UpdateOrgPlan_def SetOrgPlan_def SetOrgStripeCustomer_def upd_org_def AddOrgMember_def
  CreateAPIKey_def TouchAPIKey_def RevokeAPIKey_def ReserveSubdomain_def ReleaseSubdomain_def AddCustomDomain_def VerifyCustomDomain_def
  UpsertUsage_def RecordTunnelOpen_def CloseTunnelSession_def UpsertSubscription_def DeleteSubscription_def MarkEventProcessed_def
  InsertMeteredUsage_def MarkMeteredUsageReported_def

lemma reach_distinct:
  "store_reach m \<Longrightarrow> gomap_ok (users m) \<and> gomap_ok (orgs m) \<and> gomap_ok (keys m) \<and> gomap_ok (subs m) \<and> gomap_ok (domains m) \<and> gomap_ok (subsByOrg m)"
proof (induction rule: store_reach.induct)
  case (step m m')
  from step.hyps(2) step.IH show ?case
    by cases (simp_all add: store_op_defs Let_def split: option.split)
qed (simp add: NewMemStore_def)

lemma reach_rows:
  "store_reach m \<Longrightarrow> (\<forall>i s. gget (subsByOrg m) i = Some s \<longrightarrow> sbOrgID s = i) \<and> (\<forall>i d. gget (domains m) i = Some d \<longrightarrow> to_lower (Domain d) = Domain d)"
proof (induction rule: store_reach.induct)
  case (step m m')
  from step.hyps(2) step.IH show ?case
    by cases (simp_all add: store_op_defs Let_def split: option.split)
qed (simp add: NewMemStore_def)

lemma reach_tabs:
  assumes "store_reach m"
  shows "tab usID (users m)" "tab orID (orgs m)" "tab kyID (keys m)" "tab rsuID (subs m)" "tab cdID (domains m)" "tab sbOrgID (subsByOrg m)"
  using reach_distinct [OF assms] reach_rows [OF assms] store_ok_reach [OF assms]
  by (auto intro!: tabI simp: store_ok_def userix.ok_def keyix.ok_def subix.ok_def domix.ok_def index_ok_def)

section \<open>The relation\<close>

definition stripe_exact :: "MemStore \<Rightarrow> bool" where
  "stripe_exact m \<longleftrightarrow> index_ok StripeSubID sbOrgID (subsByOrg m) (subsByStripe m)"

text \<open>The sequence of a \<^verbatim>\<open>BIGSERIAL\<close> column has gaps, so the ids of metered usage may differ, not their order.\<close>

definition metered_rel :: "MeteredUsage list \<Rightarrow> int \<Rightarrow> MeteredUsage list \<Rightarrow> int \<Rightarrow> bool" where
  "metered_rel xs n ys k \<longleftrightarrow>
     (\<exists>zs. map fst zs = xs \<and> map snd zs = ys \<and> (\<forall>p \<in> set zs. snd p = (fst p)\<lparr>muID := muID (snd p)\<rparr>))
   \<and> sorted_wrt (<) (map muID xs) \<and> sorted_wrt (<) (map muID ys) \<and> (\<forall>x \<in> set xs. muID x \<le> n) \<and> (\<forall>y \<in> set ys. muID y \<le> k)"

definition open_rows :: "TunnelSession list \<Rightarrow> bool" where
  "open_rows hist \<longleftrightarrow> (\<forall>r \<in> set hist. Status r = ''active'' \<longrightarrow> tsBytesIn r = 0 \<and> tsBytesOut r = 0 \<and> tsRequests r = 0 \<and> EndedAt r = None)"

definition pg_rel :: "MemStore \<Rightarrow> PostgresStore \<Rightarrow> bool" where
  "pg_rel m db \<longleftrightarrow>
     store_reach m
   \<and> t_users db = map snd (users m) \<and> map read_org (t_orgs db) = map snd (orgs m) \<and> t_org_members db = members m
   \<and> t_api_keys db = map snd (keys m) \<and> t_reserved_subdomains db = map snd (subs m) \<and> t_custom_domains db = map snd (domains m)
   \<and> t_usage_records db = stUsage m \<and> t_tunnel_sessions db = tunnelHist m \<and> open_rows (tunnelHist m)
   \<and> map read_sub (t_subscriptions db) = map snd (subsByOrg m) \<and> stripe_exact m
   \<and> (\<forall>e. list_ex (\<lambda>x. fst x = e) (t_billing_events db) \<longleftrightarrow> gget (events m) e = Some True)
   \<and> metered_rel (metered m) (meteredSeq m) (t_metered_usage db) (metered_usage_id_seq db)"

lemma pg_rel_new: "pg_rel NewMemStore migrated"
  by (simp add: pg_rel_def store_reach.start, simp add: NewMemStore_def migrated_def open_rows_def stripe_exact_def metered_rel_def)

lemma pg_relD:
  assumes "pg_rel m db"
  shows "store_reach m" "t_users db = map snd (users m)" "map read_org (t_orgs db) = map snd (orgs m)" "t_org_members db = members m"
    "t_api_keys db = map snd (keys m)" "t_reserved_subdomains db = map snd (subs m)" "t_custom_domains db = map snd (domains m)"
    "t_usage_records db = stUsage m" "t_tunnel_sessions db = tunnelHist m" "open_rows (tunnelHist m)"
    "map read_sub (t_subscriptions db) = map snd (subsByOrg m)" "stripe_exact m"
    "list_ex (\<lambda>x. fst x = e) (t_billing_events db) \<longleftrightarrow> gget (events m) e = Some True"
    "metered_rel (metered m) (meteredSeq m) (t_metered_usage db) (metered_usage_id_seq db)"
  using assms by (simp_all add: pg_rel_def)

text \<open>Scans of a table with nullable columns are scans of the rows read from it.\<close>

lemma read_org_simps [simp]: "orID (read_org r) = poID r" "orName (read_org r) = poName r" "orPlan (read_org r) = poPlan r"
  "orCreatedAt (read_org r) = poCreatedAt r" "PlanExpiresAt (read_org r) = po_plan_expires_at r"
  by (simp_all add: read_org_def)

lemma read_sub_simps [simp]: "sbID (read_sub r) = psID r" "sbOrgID (read_sub r) = psOrgID r" "StripeSubID (read_sub r) = ps_stripe_subscription_id r"
  by (simp_all add: read_sub_def)

lemma list_ex_map: "list_ex P (map f xs) = list_ex (\<lambda>x. P (f x)) xs"
  by (induction xs) auto

lemma read_filter: "map f (filter (\<lambda>r. P (f r)) xs) = filter P (map f xs)"
  by (induction xs) auto

lemma read_update:
  assumes "\<And>r. P (f r) = Q r" "\<And>r. Q r \<Longrightarrow> f (g r) = h (f r)"
  shows "map f (snd (sql_update Q g xs)) = map (\<lambda>x. if P x then h x else x) (map f xs)"
    and "fst (sql_update Q g xs) = length (filter P (map f xs))"
  using assms by (simp_all add: sql_update_def filter_map comp_def)

lemma has_org_iff:
  assumes "pg_rel m db"
  shows "has_org i db \<longleftrightarrow> gget (orgs m) i \<noteq> None"
proof -
  have "list_ex (\<lambda>og. orID og = i) (map snd (orgs m)) = has_org i db"
    unfolding pg_relD(3) [OF assms, symmetric] list_ex_map has_org_def by simp
  then show ?thesis using tab_fresh [OF reach_tabs(2) [OF pg_relD(1) [OF assms]], of i] by simp
qed

section \<open>Operations on one row\<close>

text \<open>An update of the row with a given id, on both sides.\<close>

lemma row_update:
  assumes "tab idf g" "map f xs = map snd g" "\<And>r. idf (f r) = k \<and> P (f r) \<longleftrightarrow> Q r" "\<And>r. Q r \<Longrightarrow> f (h' r) = h (f r)"
  shows "fst (sql_update Q h' xs) = (case gget g k of None \<Rightarrow> 0 | Some r \<Rightarrow> of_bool (P r))"
    and "map f (snd (sql_update Q h' xs)) = map snd (case gget g k of None \<Rightarrow> g | Some r \<Rightarrow> if P r then gset k (h r) g else g)"
proof -
  have fil: "filter (\<lambda>x. idf x = k \<and> P x) (map snd g) = filter P (filter (\<lambda>x. idf x = k) (map snd g))"
    by (simp add: conj_commute)
  have "fst (sql_update Q h' xs) = length (filter (\<lambda>x. idf x = k \<and> P x) (map snd g))"
    using read_update(2) [of "\<lambda>x. idf x = k \<and> P x" f Q h' h xs] assms by simp
  then show "fst (sql_update Q h' xs) = (case gget g k of None \<Rightarrow> 0 | Some r \<Rightarrow> of_bool (P r))"
    unfolding fil tab_filter [OF assms(1)] by (simp split: option.split)
  have upd: "map f (snd (sql_update Q h' xs)) = map (\<lambda>x. if idf x = k \<and> P x then h x else x) (map snd g)"
    using read_update(1) [of "\<lambda>x. idf x = k \<and> P x" f Q h' h xs] assms by simp
  show "map f (snd (sql_update Q h' xs)) = map snd (case gget g k of None \<Rightarrow> g | Some r \<Rightarrow> if P r then gset k (h r) g else g)"
  proof (cases "gget g k")
    case None
    then have "\<forall>x \<in> set (map snd g). idf x \<noteq> k" using tab_fresh [OF assms(1), of k] by (auto simp: list_ex_iff)
    with None upd show ?thesis by (auto intro!: map_idI)
  next
    case (Some r)
    then have only: "x = r" if "x \<in> set (map snd g)" "idf x = k" for x
      using that tab_mem [OF assms(1), of x] by auto
    show ?thesis
    proof (cases "P r")
      case True
      have "map (\<lambda>x. if idf x = k \<and> P x then h x else x) (map snd g) = map (\<lambda>x. if idf x = k then h x else x) (map snd g)"
        using only True by (intro map_cong) auto
      with True Some upd tab_update [OF assms(1) Some, of h] show ?thesis by simp
    next
      case False
      have "map (\<lambda>x. if idf x = k \<and> P x then h x else x) (map snd g) = map snd g"
        using only False by (intro map_idI) auto
      with False Some upd show ?thesis by simp
    qed
  qed
qed

lemma insert_indexed:
  assumes "tab rid g" "index_ok key rid g idx" "\<And>e. e \<in> set (map snd g) \<Longrightarrow> clash r e \<longleftrightarrow> key e = k" "fk"
  shows "sql_insert clash fk r (map snd g) = (if gget idx k \<noteq> None then Inl UniqueViolation else Inr (map snd g @ [r]))"
proof -
  have "list_ex (clash r) (map snd g) \<longleftrightarrow> filter (\<lambda>e. key e = k) (map snd g) \<noteq> []"
    using assms(3) by (auto simp: list_ex_iff filter_empty_conv)
  moreover have "gget idx k = Some i \<Longrightarrow> gget g i \<noteq> None" for i using assms(2) unfolding index_ok_def by fastforce
  ultimately show ?thesis
    using assms(4) index_scan [OF assms(1,2), of k] by (auto simp: sql_insert_def split: option.splits)
qed

section \<open>Runs\<close>

datatype pg_op =
    OCreateUser gotime string User
  | OUpdateUserProfile string string string
  | OCreateOrg gotime string Org
  | OUpdateOrgPlan string string
  | OSetOrgPlan string string "gotime option"
  | OSetOrgStripeCustomer string string
  | OAddOrgMember OrgMember
  | OCreateAPIKey gotime string APIKey
  | OTouchAPIKey string gotime
  | ORevokeAPIKey string string gotime
  | OReserveSubdomain gotime string ReservedSubdomain
  | OReleaseSubdomain string string
  | OAddCustomDomain gotime string CustomDomain
  | OVerifyCustomDomain string string gotime
  | OUpsertUsage UsageRecord
  | ORecordTunnelOpen gotime string TunnelSession
  | OCloseTunnelSession string string string gotime int int int
  | OUpsertSubscription gotime string Subscription
  | ODeleteSubscription string
  | OMarkEventProcessed string string
  | OInsertMeteredUsage gotime MeteredUsage
  | OReportMeteredUsage int "nat set" gotime

text \<open>What an operation answers: success, or the error. Where \<^verbatim>\<open>postgres.go\<close> does not translate the error of the driver, the in-memory
  store's \<^verbatim>\<open>ErrConflict\<close> stands against a unique violation.\<close>

definition raw :: "store_error \<Rightarrow> pg_error" where
  "raw e = (if e = ErrConflict then UniqueViolation else PgStore e)"

definition unit_of :: "'a \<Rightarrow> unit" where
  "unit_of x = ()"

text \<open>The metered rows that are reported: those at the given places of the pending ones.\<close>

definition picked :: "MeteredUsage list \<Rightarrow> nat set \<Rightarrow> int list" where
  "picked rows I = map muID (nths rows I)"

fun mem_step :: "pg_op \<Rightarrow> MemStore \<Rightarrow> (pg_error + unit) \<times> MemStore" where
  "mem_step (OCreateUser now nid u) m = map_prod (map_sum raw unit_of) (\<lambda>m. m) (CreateUser now nid u m)"
| "mem_step (OUpdateUserProfile i n a) m = map_prod (map_sum PgStore unit_of) (\<lambda>m. m) (UpdateUserProfile i n a m)"
| "mem_step (OCreateOrg now nid og) m = map_prod (\<lambda>_. Inr ()) (\<lambda>m. m) (CreateOrg now nid og m)"
| "mem_step (OUpdateOrgPlan i p) m = map_prod (map_sum PgStore unit_of) (\<lambda>m. m) (UpdateOrgPlan i p m)"
| "mem_step (OSetOrgPlan i p ex) m = map_prod (map_sum PgStore unit_of) (\<lambda>m. m) (SetOrgPlan i p ex m)"
| "mem_step (OSetOrgStripeCustomer i c) m = map_prod (map_sum PgStore unit_of) (\<lambda>m. m) (SetOrgStripeCustomer i c m)"
| "mem_step (OAddOrgMember x) m = map_prod (map_sum raw unit_of) (\<lambda>m. m) (AddOrgMember x m)"
| "mem_step (OCreateAPIKey now nid k) m = map_prod (map_sum raw unit_of) (\<lambda>m. m) (CreateAPIKey now nid k m)"
| "mem_step (OTouchAPIKey i t) m = map_prod (map_sum PgStore unit_of) (\<lambda>m. m) (TouchAPIKey i t m)"
| "mem_step (ORevokeAPIKey i org t) m = map_prod (map_sum PgStore unit_of) (\<lambda>m. m) (RevokeAPIKey i org t m)"
| "mem_step (OReserveSubdomain now nid s) m = map_prod (map_sum PgStore unit_of) (\<lambda>m. m) (ReserveSubdomain now nid s m)"
| "mem_step (OReleaseSubdomain i org) m = map_prod (map_sum PgStore unit_of) (\<lambda>m. m) (ReleaseSubdomain i org m)"
| "mem_step (OAddCustomDomain now nid d) m = map_prod (map_sum PgStore unit_of) (\<lambda>m. m) (AddCustomDomain now nid d m)"
| "mem_step (OVerifyCustomDomain i org t) m = map_prod (map_sum PgStore unit_of) (\<lambda>m. m) (VerifyCustomDomain i org t m)"
| "mem_step (OUpsertUsage u) m = (Inr (), UpsertUsage u m)"
| "mem_step (ORecordTunnelOpen now nid s) m = map_prod (\<lambda>_. Inr ()) (\<lambda>m. m) (RecordTunnelOpen now nid s m)"
| "mem_step (OCloseTunnelSession e se tu t bi bo rq) m = map_prod (map_sum PgStore unit_of) (\<lambda>m. m) (CloseTunnelSession e se tu t bi bo rq m)"
| "mem_step (OUpsertSubscription now nid s) m = map_prod (\<lambda>_. Inr ()) (\<lambda>m. m) (UpsertSubscription now nid s m)"
| "mem_step (ODeleteSubscription i) m = map_prod (map_sum PgStore unit_of) (\<lambda>m. m) (DeleteSubscription i m)"
| "mem_step (OMarkEventProcessed i ty) m =
     map_prod (\<lambda>new. if new then Inr () else Inl (PgStore ErrConflict)) (\<lambda>m. m) (MarkEventProcessed i m)"
| "mem_step (OInsertMeteredUsage now u) m = map_prod (map_sum PgStore unit_of) (\<lambda>m. m) (InsertMeteredUsage now u m)"
| "mem_step (OReportMeteredUsage l I t) m = (Inr (), MarkMeteredUsageReported (picked (PendingMeteredUsage l m) I) t m)"

fun pg_step :: "PgEnv \<Rightarrow> pg_op \<Rightarrow> PostgresStore \<Rightarrow> (pg_error + unit) \<times> PostgresStore" where
  "pg_step pe (OCreateUser now nid u) db = map_prod (map_sum id unit_of) (\<lambda>m. m) (pg_CreateUser pe now nid u db)"
| "pg_step pe (OUpdateUserProfile i n a) db = pg_UpdateUserProfile i n a db"
| "pg_step pe (OCreateOrg now nid og) db = map_prod (map_sum id unit_of) (\<lambda>m. m) (pg_CreateOrg pe now nid og db)"
| "pg_step pe (OUpdateOrgPlan i p) db = pg_UpdateOrgPlan i p db"
| "pg_step pe (OSetOrgPlan i p ex) db = pg_SetOrgPlan pe i p ex db"
| "pg_step pe (OSetOrgStripeCustomer i c) db = pg_SetOrgStripeCustomer i c db"
| "pg_step pe (OAddOrgMember x) db = pg_AddOrgMember x db"
| "pg_step pe (OCreateAPIKey now nid k) db = map_prod (map_sum id unit_of) (\<lambda>m. m) (pg_CreateAPIKey pe now nid k db)"
| "pg_step pe (OTouchAPIKey i t) db = pg_TouchAPIKey pe i t db"
| "pg_step pe (ORevokeAPIKey i org t) db = pg_RevokeAPIKey pe i org t db"
| "pg_step pe (OReserveSubdomain now nid s) db = map_prod (map_sum id unit_of) (\<lambda>m. m) (pg_ReserveSubdomain pe now nid s db)"
| "pg_step pe (OReleaseSubdomain i org) db = pg_ReleaseSubdomain i org db"
| "pg_step pe (OAddCustomDomain now nid d) db = map_prod (map_sum id unit_of) (\<lambda>m. m) (pg_AddCustomDomain pe now nid d db)"
| "pg_step pe (OVerifyCustomDomain i org t) db = pg_VerifyCustomDomain pe i org t db"
| "pg_step pe (OUpsertUsage u) db = pg_UpsertUsage pe u db"
| "pg_step pe (ORecordTunnelOpen now nid s) db = map_prod (map_sum id unit_of) (\<lambda>m. m) (pg_RecordTunnelOpen pe now nid s db)"
| "pg_step pe (OCloseTunnelSession e se tu t bi bo rq) db = pg_CloseTunnelSession pe e se tu t bi bo rq db"
| "pg_step pe (OUpsertSubscription now nid s) db = map_prod (map_sum id unit_of) (\<lambda>m. m) (pg_UpsertSubscription pe now nid s db)"
| "pg_step pe (ODeleteSubscription i) db = pg_DeleteSubscription i db"
| "pg_step pe (OMarkEventProcessed i ty) db =
     map_prod (\<lambda>new. if new then Inr () else Inl (PgStore ErrConflict)) (\<lambda>m. m) (pg_MarkEventProcessed i ty db)"
| "pg_step pe (OInsertMeteredUsage now u) db = map_prod (map_sum id unit_of) (\<lambda>m. m) (pg_InsertMeteredUsage pe now u db)"
| "pg_step pe (OReportMeteredUsage l I t) db = (Inr (), pg_MarkMeteredUsageReported pe (picked (pg_PendingMeteredUsage l db) I) t db)"

text \<open>What the control plane does: ids are fresh, rows belong to organisations that exist, times are whole microseconds, and the rows have the fields
  the handlers give them. The conditions on emails and subscriptions are discussed below.\<close>

fun proper :: "PgEnv \<Rightarrow> pg_op \<Rightarrow> MemStore \<Rightarrow> bool" where
  "proper pe (OCreateUser now nid u) m \<longleftrightarrow> gget (users m) (or_id nid (usID u)) = None \<and> pgTs pe (or_time now (usCreatedAt u)) = or_time now (usCreatedAt u)
     \<and> (\<forall>x \<in> set (map snd (users m)). to_lower (Email x) = to_lower (Email u) \<longrightarrow> Email x = Email u)"
| "proper pe (OCreateOrg now nid og) m \<longleftrightarrow> gget (orgs m) (or_id nid (orID og)) = None \<and> pgTs pe (or_time now (orCreatedAt og)) = or_time now (orCreatedAt og)
     \<and> PlanExpiresAt og = None"
| "proper pe (OSetOrgPlan i p ex) m \<longleftrightarrow> (case ex of None \<Rightarrow> True | Some t \<Rightarrow> t \<noteq> 0 \<and> pgTs pe t = t)"
| "proper pe (OAddOrgMember x) m \<longleftrightarrow> gget (orgs m) (omOrgID x) \<noteq> None \<and> gget (users m) (omUserID x) \<noteq> None"
| "proper pe (OCreateAPIKey now nid k) m \<longleftrightarrow> gget (keys m) (or_id nid (kyID k)) = None \<and> gget (orgs m) (kyOrgID k) \<noteq> None
     \<and> pgTs pe (or_time now (kyCreatedAt k)) = or_time now (kyCreatedAt k) \<and> LastUsedAt k = None \<and> RevokedAt k = None"
| "proper pe (OTouchAPIKey i t) m \<longleftrightarrow> pgTs pe t = t"
| "proper pe (ORevokeAPIKey i org t) m \<longleftrightarrow> pgTs pe t = t"
| "proper pe (OReserveSubdomain now nid s) m \<longleftrightarrow> gget (subs m) (or_id nid (rsuID s)) = None \<and> gget (orgs m) (rsuOrgID s) \<noteq> None
     \<and> pgTs pe (or_time now (rsuCreatedAt s)) = or_time now (rsuCreatedAt s)"
| "proper pe (OAddCustomDomain now nid d) m \<longleftrightarrow> gget (domains m) (or_id nid (cdID d)) = None \<and> gget (orgs m) (cdOrgID d) \<noteq> None
     \<and> pgTs pe (or_time now (cdCreatedAt d)) = or_time now (cdCreatedAt d) \<and> VerifiedAt d = None"
| "proper pe (OVerifyCustomDomain i org t) m \<longleftrightarrow> pgTs pe t = t"
| "proper pe (OUpsertUsage u) m \<longleftrightarrow> gget (orgs m) (urOrgID u) \<noteq> None \<and> pgTs pe (urWindowStart u) = urWindowStart u \<and> pgTs pe (urWindowEnd u) = urWindowEnd u"
| "proper pe (ORecordTunnelOpen now nid s) m \<longleftrightarrow> (\<forall>r \<in> set (tunnelHist m). tsID r \<noteq> or_id nid (tsID s)) \<and> gget (orgs m) (tsOrgID s) \<noteq> None
     \<and> pgTs pe (or_time now (StartedAt s)) = or_time now (StartedAt s) \<and> tsBytesIn s = 0 \<and> tsBytesOut s = 0 \<and> tsRequests s = 0"
| "proper pe (OCloseTunnelSession e se tu t bi bo rq) m \<longleftrightarrow> pgTs pe t = t"
| "proper pe (OUpsertSubscription now nid s) m \<longleftrightarrow> gget (orgs m) (sbOrgID s) \<noteq> None \<and> pgTs pe now = now
     \<and> pgTs pe (CurrentPeriodEnd s) = CurrentPeriodEnd s \<and> StripeSubID s \<noteq> ''''
     \<and> (\<forall>r \<in> set (map snd (subsByOrg m)). StripeSubID r = StripeSubID s \<longrightarrow> sbOrgID r = sbOrgID s)
     \<and> (case gget (subsByOrg m) (sbOrgID s) of
          Some r \<Rightarrow> StripeSubID r = StripeSubID s \<and> sbCreatedAt r \<noteq> 0 \<and> (sbID s = '''' \<and> sbCreatedAt s = 0 \<or> sbID s = sbID r \<and> sbCreatedAt s = sbCreatedAt r)
        | None \<Rightarrow> (\<forall>r \<in> set (map snd (subsByOrg m)). sbID r \<noteq> or_id nid (sbID s)) \<and> pgTs pe (or_time now (sbCreatedAt s)) = or_time now (sbCreatedAt s))"
| "proper pe (OInsertMeteredUsage now u) m \<longleftrightarrow> gget (orgs m) (muOrgID u) \<noteq> None \<and> pgTs pe (muWindowStart u) = muWindowStart u
     \<and> pgTs pe (muWindowEnd u) = muWindowEnd u \<and> pgTs pe (or_time now (muCreatedAt u)) = or_time now (muCreatedAt u) \<and> ReportedAt u = None"
| "proper pe (OReportMeteredUsage l I t) m \<longleftrightarrow> 0 < l \<and> pgTs pe t = t"
| "proper pe _ m \<longleftrightarrow> True"

fun proper_run :: "PgEnv \<Rightarrow> pg_op list \<Rightarrow> MemStore \<Rightarrow> bool" where
  "proper_run pe [] m \<longleftrightarrow> True"
| "proper_run pe (p # ps) m \<longleftrightarrow> proper pe p m \<and> proper_run pe ps (snd (mem_step p m))"

definition sim :: "PgEnv \<Rightarrow> pg_op \<Rightarrow> MemStore \<Rightarrow> PostgresStore \<Rightarrow> bool" where
  "sim pe p m db \<longleftrightarrow> fst (pg_step pe p db) = fst (mem_step p m) \<and> pg_rel (snd (mem_step p m)) (snd (pg_step pe p db))"

section \<open>One operation\<close>

lemma execOne_simps [simp]: "execOne 0 = Inl (PgStore ErrNotFound)" "execOne (Suc n) = Inr ()"
  by (simp_all add: execOne_def)

lemma stripe_exact_upd [simp]:
  "stripe_exact (m\<lparr>users := x0\<rparr>) = stripe_exact m"
  "stripe_exact (m\<lparr>usersEmail := x1\<rparr>) = stripe_exact m"
  "stripe_exact (m\<lparr>orgs := x2\<rparr>) = stripe_exact m"
  "stripe_exact (m\<lparr>members := x3\<rparr>) = stripe_exact m"
  "stripe_exact (m\<lparr>keys := x4\<rparr>) = stripe_exact m"
  "stripe_exact (m\<lparr>keyPrefix := x5\<rparr>) = stripe_exact m"
  "stripe_exact (m\<lparr>subs := x6\<rparr>) = stripe_exact m"
  "stripe_exact (m\<lparr>subByName := x7\<rparr>) = stripe_exact m"
  "stripe_exact (m\<lparr>domains := x8\<rparr>) = stripe_exact m"
  "stripe_exact (m\<lparr>domByName := x9\<rparr>) = stripe_exact m"
  "stripe_exact (m\<lparr>stUsage := x10\<rparr>) = stripe_exact m"
  "stripe_exact (m\<lparr>events := x11\<rparr>) = stripe_exact m"
  "stripe_exact (m\<lparr>metered := x12\<rparr>) = stripe_exact m"
  "stripe_exact (m\<lparr>meteredSeq := x13\<rparr>) = stripe_exact m"
  "stripe_exact (m\<lparr>tunnelHist := x14\<rparr>) = stripe_exact m"
  by (simp_all add: stripe_exact_def)

lemma sim_CreateUser:
  assumes "pg_rel m db" "proper pe (OCreateUser now nid u) m"
  shows "sim pe (OCreateUser now nid u) m db"
proof -
  note r = pg_relD(1) [OF assms(1)]
  let ?u = "u\<lparr>usID := or_id nid (usID u), usCreatedAt := or_time now (usCreatedAt u)\<rparr>"
  have "sql_insert (\<lambda>r e. usID e = usID r \<or> Email e = Email r) True ?u (map snd (users m)) =
      (if gget (usersEmail m) (to_lower (Email u)) \<noteq> None then Inl UniqueViolation else Inr (map snd (users m) @ [?u]))"
  proof (rule insert_indexed [OF reach_tabs(1) [OF r]])
    show "index_ok (\<lambda>u. to_lower (Email u)) usID (users m) (usersEmail m)" using store_ok_reach [OF r] by (simp add: store_ok_def userix.ok_def)
    show "(usID e = usID ?u \<or> Email e = Email ?u) = (to_lower (Email e) = to_lower (Email u))" if "e \<in> set (map snd (users m))" for e
      using that assms(2) tab_mem [OF reach_tabs(1) [OF r], of e] by auto
  qed simp
  moreover have "store_reach (snd (CreateUser now nid u m))" using assms(2) by (intro store_reach.step [OF r store_step.intros(1)]) simp
  ultimately show ?thesis
    using assms pg_relD(2) [OF assms(1)]
    by (auto simp: sim_def pg_rel_def pg_CreateUser_def CreateUser_def raw_def unit_of_def tab_insert Let_def)
qed

lemma sim_UpdateUserProfile:
  assumes "pg_rel m db"
  shows "sim pe (OUpdateUserProfile i n a) m db"
proof -
  note r = pg_relD(1) [OF assms]
  let ?h = "\<lambda>u. u\<lparr>usName := (if n = [] then usName u else n), AvatarURL := (if a = [] then AvatarURL u else a)\<rparr>"
  have h: "(let u1 = (if n \<noteq> [] then u\<lparr>usName := n\<rparr> else u); u2 = (if a \<noteq> [] then u1\<lparr>AvatarURL := a\<rparr> else u1) in (Inr (), m\<lparr>users := gset i u2 (users m)\<rparr>)) =
      (Inr (), m\<lparr>users := gset i (?h u) (users m)\<rparr>)" for u :: User
    by simp
  note upd = row_update [OF reach_tabs(1) [OF r], where f = "\<lambda>u. u" and xs = "t_users db" and k = i and P = "\<lambda>_. True"
      and Q = "\<lambda>u. usID u = i" and h = ?h and h' = ?h]
  have "store_reach (snd (UpdateUserProfile i n a m))" by (rule store_reach.step [OF r store_step.intros(2)])
  then show ?thesis
    using assms upd pg_relD(2) [OF assms] unfolding UpdateUserProfile_def h
    by (auto simp: sim_def pg_rel_def pg_UpdateUserProfile_def UpdateUserProfile_def h unit_of_def simp del: Let_def if_split
        split: prod.splits option.splits)
qed

lemma sim_CreateOrg:
  assumes "pg_rel m db" "proper pe (OCreateOrg now nid og) m"
  shows "sim pe (OCreateOrg now nid og) m db"
proof -
  have "\<not> has_org (or_id nid (orID og)) db" using assms by (simp add: has_org_iff)
  moreover have "store_reach (snd (CreateOrg now nid og m))"
    using assms(2) by (intro store_reach.step [OF pg_relD(1) [OF assms(1)] store_step.intros(3)]) simp
  ultimately show ?thesis
    using assms by (auto simp: sim_def pg_rel_def pg_CreateOrg_def CreateOrg_def sql_insert_def has_org_def unit_of_def tab_insert
        read_org_def nullStr_def Let_def)
qed

lemma sim_upd_org:
  assumes "pg_rel m db" "store_reach (snd (upd_org i h m))" "\<And>r. poID r = i \<Longrightarrow> read_org (h' r) = h (read_org r)"
  shows "fst (pg_upd_org i h' db) = map_sum PgStore unit_of (fst (upd_org i h m)) \<and> pg_rel (snd (upd_org i h m)) (snd (pg_upd_org i h' db))"
proof -
  note upd = row_update [OF reach_tabs(2) [OF pg_relD(1) [OF assms(1)]] pg_relD(3) [OF assms(1)], where k = i and P = "\<lambda>_. True"
      and Q = "\<lambda>r. poID r = i" and h = h and h' = h']
  then show ?thesis
    using assms by (auto simp: pg_rel_def pg_upd_org_def upd_org_def unit_of_def split: prod.splits option.splits)
qed

lemma sim_orgs:
  assumes "pg_rel m db"
  shows "sim pe (OUpdateOrgPlan i p) m db"
    and "proper pe (OSetOrgPlan i p ex) m \<Longrightarrow> sim pe (OSetOrgPlan i p ex) m db"
    and "sim pe (OSetOrgStripeCustomer i c) m db"
proof -
  note r = pg_relD(1) [OF assms]
  have "store_reach (snd (upd_org i (\<lambda>og. og\<lparr>orPlan := p, PlanExpiresAt := None\<rparr>) m))"
    using store_reach.step [OF r store_step.intros(4) [of m i p]] by (simp add: UpdateOrgPlan_def)
  from sim_upd_org [OF assms this, where h' = "\<lambda>og. og\<lparr>poPlan := p, po_plan_expires_at := None\<rparr>"]
  show "sim pe (OUpdateOrgPlan i p) m db" by (simp add: sim_def UpdateOrgPlan_def pg_UpdateOrgPlan_def read_org_def)
  have "store_reach (snd (upd_org i (\<lambda>og. og\<lparr>orPlan := p, PlanExpiresAt := ex\<rparr>) m))"
    using store_reach.step [OF r store_step.intros(5) [of m i p ex]] by (simp add: SetOrgPlan_def)
  from sim_upd_org [OF assms this, where h' = "\<lambda>og. og\<lparr>poPlan := p, po_plan_expires_at := (case ex of None \<Rightarrow> None | Some t \<Rightarrow> nullTime (pgTs pe) t)\<rparr>"]
  show "proper pe (OSetOrgPlan i p ex) m \<Longrightarrow> sim pe (OSetOrgPlan i p ex) m db"
    by (cases ex) (simp_all add: sim_def SetOrgPlan_def pg_SetOrgPlan_def read_org_def nullTime_def)
  have "store_reach (snd (upd_org i (\<lambda>og. og\<lparr>StripeCustomerID := c\<rparr>) m))"
    using store_reach.step [OF r store_step.intros(6) [of m i c]] by (simp add: SetOrgStripeCustomer_def)
  from sim_upd_org [OF assms this, where h' = "\<lambda>og. og\<lparr>po_stripe_customer_id := Some c\<rparr>"]
  show "sim pe (OSetOrgStripeCustomer i c) m db" by (simp add: sim_def SetOrgStripeCustomer_def pg_SetOrgStripeCustomer_def read_org_def)
qed

lemma sim_AddOrgMember:
  assumes "pg_rel m db" "proper pe (OAddOrgMember x) m"
  shows "sim pe (OAddOrgMember x) m db"
proof -
  note r = pg_relD(1) [OF assms(1)]
  have "list_ex (\<lambda>u. usID u = omUserID x) (map snd (users m))"
    using assms(2) tab_fresh [OF reach_tabs(1) [OF r], of "omUserID x"] by simp
  moreover have "store_reach (snd (AddOrgMember x m))" by (rule store_reach.step [OF r store_step.intros(7)])
  ultimately show ?thesis
    using assms has_org_iff [OF assms(1), of "omOrgID x"]
    by (auto simp: sim_def pg_rel_def pg_AddOrgMember_def AddOrgMember_def sql_insert_def raw_def unit_of_def list_ex_iff)
qed

lemma sim_CreateAPIKey:
  assumes "pg_rel m db" "proper pe (OCreateAPIKey now nid k) m"
  shows "sim pe (OCreateAPIKey now nid k) m db"
proof -
  note r = pg_relD(1) [OF assms(1)]
  let ?k = "k\<lparr>kyID := or_id nid (kyID k), kyCreatedAt := or_time now (kyCreatedAt k)\<rparr>"
  have k: "?k\<lparr>LastUsedAt := None, RevokedAt := None, kyCreatedAt := pgTs pe (kyCreatedAt ?k)\<rparr> = ?k" using assms(2) by simp
  have "sql_insert (\<lambda>r e. kyID e = kyID r \<or> Prefix e = Prefix r) (has_org (kyOrgID k) db) ?k (map snd (keys m)) =
      (if gget (keyPrefix m) (Prefix k) \<noteq> None then Inl UniqueViolation else Inr (map snd (keys m) @ [?k]))"
  proof (rule insert_indexed [OF reach_tabs(3) [OF r]])
    show "index_ok Prefix kyID (keys m) (keyPrefix m)" using store_ok_reach [OF r] by (simp add: store_ok_def keyix.ok_def)
    show "(kyID e = kyID ?k \<or> Prefix e = Prefix ?k) = (Prefix e = Prefix k)" if "e \<in> set (map snd (keys m))" for e
      using that assms(2) tab_mem [OF reach_tabs(3) [OF r], of e] by auto
    show "has_org (kyOrgID k) db" using assms by (simp add: has_org_iff)
  qed
  moreover have "store_reach (snd (CreateAPIKey now nid k m))" using assms(2) by (intro store_reach.step [OF r store_step.intros(8)]) simp
  ultimately show ?thesis
    using assms pg_relD(5) [OF assms(1)] unfolding sim_def pg_step.simps pg_CreateAPIKey_def Let_def k
    by (auto simp: pg_rel_def CreateAPIKey_def raw_def unit_of_def tab_insert Let_def)
qed

lemma sim_keys:
  assumes "pg_rel m db"
  shows "proper pe (OTouchAPIKey i t) m \<Longrightarrow> sim pe (OTouchAPIKey i t) m db"
    and "proper pe (ORevokeAPIKey i org t) m \<Longrightarrow> sim pe (ORevokeAPIKey i org t) m db"
proof -
  note r = pg_relD(1) [OF assms]
  have id: "map (\<lambda>k. k) (t_api_keys db) = map snd (keys m)" using pg_relD(5) [OF assms] by simp
  note touch = row_update [OF reach_tabs(3) [OF r] id, where k = i and P = "\<lambda>_. True" and Q = "\<lambda>k. kyID k = i"
      and h = "\<lambda>k. k\<lparr>LastUsedAt := Some t\<rparr>" and h' = "\<lambda>k. k\<lparr>LastUsedAt := Some t\<rparr>"]
    and revoke = row_update [OF reach_tabs(3) [OF r] id, where k = i and P = "\<lambda>k. kyOrgID k = org" and Q = "\<lambda>k. kyID k = i \<and> kyOrgID k = org"
      and h = "\<lambda>k. k\<lparr>RevokedAt := Some t\<rparr>" and h' = "\<lambda>k. k\<lparr>RevokedAt := Some t\<rparr>"]
  have reach: "store_reach (snd (TouchAPIKey i t m))" "store_reach (snd (RevokeAPIKey i org t m))"
    by (rule store_reach.step [OF r store_step.intros(9)], rule store_reach.step [OF r store_step.intros(10)])
  show "proper pe (OTouchAPIKey i t) m \<Longrightarrow> sim pe (OTouchAPIKey i t) m db"
    using assms touch reach(1)
    by (auto simp: sim_def pg_rel_def pg_TouchAPIKey_def TouchAPIKey_def unit_of_def split: prod.splits option.splits)
  show "proper pe (ORevokeAPIKey i org t) m \<Longrightarrow> sim pe (ORevokeAPIKey i org t) m db"
    using assms revoke reach(2)
    by (auto simp: sim_def pg_rel_def pg_RevokeAPIKey_def RevokeAPIKey_def unit_of_def split: prod.splits option.splits if_splits)
qed

lemma sim_ReserveSubdomain:
  assumes "pg_rel m db" "proper pe (OReserveSubdomain now nid s) m"
  shows "sim pe (OReserveSubdomain now nid s) m db"
proof -
  note r = pg_relD(1) [OF assms(1)]
  let ?s = "s\<lparr>rsuID := or_id nid (rsuID s), rsuCreatedAt := or_time now (rsuCreatedAt s), Subdomain := to_lower (Subdomain s)\<rparr>"
  have s: "(s\<lparr>rsuID := or_id nid (rsuID s), rsuCreatedAt := or_time now (rsuCreatedAt s)\<rparr>)\<lparr>Subdomain := to_lower (Subdomain s),
      rsuCreatedAt := pgTs pe (rsuCreatedAt (s\<lparr>rsuID := or_id nid (rsuID s), rsuCreatedAt := or_time now (rsuCreatedAt s)\<rparr>))\<rparr> = ?s" using assms(2) by simp
  have low: "to_lower (Subdomain e) = Subdomain e" if "e \<in> set (map snd (subs m))" for e
    using that store_ok_reach [OF r] tab_mem [OF reach_tabs(4) [OF r], of e] by (auto simp: store_ok_def)
  have "sql_insert (\<lambda>r e. rsuID e = rsuID r \<or> Subdomain e = Subdomain r) (has_org (rsuOrgID s) db) ?s (map snd (subs m)) =
      (if gget (subByName m) (to_lower (Subdomain s)) \<noteq> None then Inl UniqueViolation else Inr (map snd (subs m) @ [?s]))"
  proof (rule insert_indexed [OF reach_tabs(4) [OF r]])
    show "index_ok (\<lambda>s. to_lower (Subdomain s)) rsuID (subs m) (subByName m)" using store_ok_reach [OF r] by (simp add: store_ok_def subix.ok_def)
    show "(rsuID e = rsuID ?s \<or> Subdomain e = Subdomain ?s) = (to_lower (Subdomain e) = to_lower (Subdomain s))" if "e \<in> set (map snd (subs m))" for e
      using that low [OF that] assms(2) tab_mem [OF reach_tabs(4) [OF r], of e] by auto
    show "has_org (rsuOrgID s) db" using assms by (simp add: has_org_iff)
  qed
  moreover have "store_reach (snd (ReserveSubdomain now nid s m))" using assms(2) by (intro store_reach.step [OF r store_step.intros(11)]) simp
  ultimately show ?thesis
    using assms pg_relD(6) [OF assms(1)] unfolding sim_def pg_step.simps pg_ReserveSubdomain_def Let_def s
    by (auto simp: pg_rel_def ReserveSubdomain_def conflict_def unit_of_def tab_insert Let_def)
qed

lemma sim_ReleaseSubdomain:
  assumes "pg_rel m db"
  shows "sim pe (OReleaseSubdomain i org) m db"
proof -
  note r = pg_relD(1) [OF assms] and tb = reach_tabs(4) [OF pg_relD(1) [OF assms]]
  have "store_reach (snd (ReleaseSubdomain i org m))" by (rule store_reach.step [OF r store_step.intros(12)])
  moreover have "filter (\<lambda>s. rsuID s = i \<and> rsuOrgID s = org) (map snd (subs m)) = filter (\<lambda>s. rsuOrgID s = org) (filter (\<lambda>s. rsuID s = i) (map snd (subs m)))"
    by (simp add: conj_commute)
  moreover have "filter (\<lambda>s. \<not> (rsuID s = i \<and> rsuOrgID s = org)) (map snd (subs m)) =
      (case gget (subs m) i of None \<Rightarrow> map snd (subs m) | Some s \<Rightarrow> if rsuOrgID s = org then map snd (gdel i (subs m)) else map snd (subs m))"
  proof (cases "gget (subs m) i")
    case None
    then show ?thesis using tab_fresh [OF tb, of i] by (auto simp: list_ex_iff intro!: filter_True)
  next
    case (Some s)
    then have only: "x = s" if "x \<in> set (map snd (subs m))" "rsuID x = i" for x using that tab_mem [OF tb, of x] by auto
    show ?thesis
    proof (cases "rsuOrgID s = org")
      case True
      then have "filter (\<lambda>s. \<not> (rsuID s = i \<and> rsuOrgID s = org)) (map snd (subs m)) = filter (\<lambda>s. rsuID s \<noteq> i) (map snd (subs m))"
        using only by (intro filter_cong) auto
      with True Some tab_delete [OF tb, of i] show ?thesis by simp
    next
      case False
      with only have "filter (\<lambda>s. \<not> (rsuID s = i \<and> rsuOrgID s = org)) (map snd (subs m)) = map snd (subs m)"
        by (intro filter_True) auto
      with False Some show ?thesis by simp
    qed
  qed
  ultimately show ?thesis
    using assms tab_filter [OF tb, of i] pg_relD(6) [OF assms]
    by (auto simp: sim_def pg_rel_def pg_ReleaseSubdomain_def ReleaseSubdomain_def sql_delete_def unit_of_def split: option.splits if_splits)
qed

lemma sim_AddCustomDomain:
  assumes "pg_rel m db" "proper pe (OAddCustomDomain now nid d) m"
  shows "sim pe (OAddCustomDomain now nid d) m db"
proof -
  note r = pg_relD(1) [OF assms(1)]
  let ?raw = "d\<lparr>cdID := or_id nid (cdID d), cdCreatedAt := or_time now (cdCreatedAt d), CertStatus := or_id ''pending'' (CertStatus d)\<rparr>"
  let ?d = "?raw\<lparr>Domain := to_lower (Domain d)\<rparr>"
  have d: "?raw\<lparr>Domain := to_lower (Domain d), VerifiedAt := None, cdCreatedAt := pgTs pe (cdCreatedAt ?raw)\<rparr> = ?d" using assms(2) by simp
  have low: "to_lower (Domain e) = Domain e" if "e \<in> set (map snd (domains m))" for e
    using that reach_rows [OF r] tab_mem [OF reach_tabs(5) [OF r], of e] by auto
  have "sql_insert (\<lambda>r e. cdID e = cdID r \<or> Domain e = Domain r) (has_org (cdOrgID d) db) ?d (map snd (domains m)) =
      (if gget (domByName m) (to_lower (Domain d)) \<noteq> None then Inl UniqueViolation else Inr (map snd (domains m) @ [?d]))"
  proof (rule insert_indexed [OF reach_tabs(5) [OF r]])
    show "index_ok (\<lambda>s. to_lower (Domain s)) cdID (domains m) (domByName m)" using store_ok_reach [OF r] by (simp add: store_ok_def domix.ok_def)
    show "(cdID e = cdID ?d \<or> Domain e = Domain ?d) = (to_lower (Domain e) = to_lower (Domain d))" if "e \<in> set (map snd (domains m))" for e
      using that low [OF that] assms(2) tab_mem [OF reach_tabs(5) [OF r], of e] by auto
    show "has_org (cdOrgID d) db" using assms by (simp add: has_org_iff)
  qed
  moreover have "store_reach (snd (AddCustomDomain now nid d m))" using assms(2) by (intro store_reach.step [OF r store_step.intros(13)]) simp
  moreover have "AddCustomDomain now nid d m =
      (if gget (domByName m) (to_lower (Domain d)) \<noteq> None then (Inl ErrConflict, m)
       else (Inr ?d, m\<lparr>domains := gset (or_id nid (cdID d)) ?d (domains m), domByName := gset (to_lower (Domain d)) (or_id nid (cdID d)) (domByName m)\<rparr>))"
    by (simp add: AddCustomDomain_def Let_def)
  moreover have "pg_AddCustomDomain pe now nid d db =
      (case sql_insert (\<lambda>r e. cdID e = cdID r \<or> Domain e = Domain r) (has_org (cdOrgID d) db) ?d (map snd (domains m)) of
         Inl e \<Rightarrow> (Inl (conflict e), db) | Inr ds \<Rightarrow> (Inr ?raw, db\<lparr>t_custom_domains := ds\<rparr>))"
    unfolding pg_AddCustomDomain_def Let_def pg_relD(7) [OF assms(1)] d by (rule HOL.refl)
  ultimately show ?thesis
    using assms unfolding sim_def pg_step.simps mem_step.simps
    by (simp add: pg_rel_def conflict_def unit_of_def tab_insert)
qed

lemma sim_VerifyCustomDomain:
  assumes "pg_rel m db" "proper pe (OVerifyCustomDomain i org t) m"
  shows "sim pe (OVerifyCustomDomain i org t) m db"
proof -
  note r = pg_relD(1) [OF assms(1)]
  have id: "map (\<lambda>k. k) (t_custom_domains db) = map snd (domains m)" using pg_relD(7) [OF assms(1)] by simp
  define h where "h = (\<lambda>d :: CustomDomain. d\<lparr>VerifiedAt := Some t, CertStatus := ''verified''\<rparr>)"
  note upd = row_update [OF reach_tabs(5) [OF r] id, where k = i and P = "\<lambda>d. cdOrgID d = org" and Q = "\<lambda>d. cdID d = i \<and> cdOrgID d = org"
      and h = h and h' = h]
  have pg: "pg_step pe (OVerifyCustomDomain i org t) db =
      (case sql_update (\<lambda>d. cdID d = i \<and> cdOrgID d = org) h (t_custom_domains db) of (n, ds) \<Rightarrow> (execOne n, db\<lparr>t_custom_domains := ds\<rparr>))"
    using assms(2) by (simp add: pg_VerifyCustomDomain_def h_def)
  have mem: "VerifyCustomDomain i org t m = (case gget (domains m) i of None \<Rightarrow> (Inl ErrNotFound, m)
      | Some d \<Rightarrow> if cdOrgID d \<noteq> org then (Inl ErrNotFound, m) else (Inr (), m\<lparr>domains := gset i (h d) (domains m)\<rparr>))"
    unfolding VerifyCustomDomain_def h_def by (rule HOL.refl)
  have "store_reach (snd (VerifyCustomDomain i org t m))" by (rule store_reach.step [OF r store_step.intros(14)])
  then show ?thesis
    using assms(1) upd unfolding sim_def pg
    by (auto simp: pg_rel_def mem unit_of_def split: prod.splits option.splits if_splits)
qed

lemma sim_UpsertUsage:
  assumes "pg_rel m db" "proper pe (OUpsertUsage u) m"
  shows "sim pe (OUpsertUsage u) m db"
  using assms has_org_iff [OF assms(1), of "urOrgID u"] store_reach.step [OF pg_relD(1) [OF assms(1)] store_step.intros(15)]
  by (simp add: sim_def pg_rel_def pg_UpsertUsage_def UpsertUsage_def sql_insert_def list_ex_iff)

lemma update_unique:
  "length (filter P xs) \<le> 1 \<Longrightarrow> find_index P xs = Some i \<Longrightarrow>
     xs[i := f (xs ! i)] = map (\<lambda>r. if P r then f r else r) xs \<and> filter P xs = [xs ! i]"
proof (induction xs arbitrary: i)
  case (Cons x xs)
  show ?case
  proof (cases "P x")
    case True
    with Cons.prems have "filter P xs = []" by simp
    then have "map (\<lambda>r. if P r then f r else r) xs = xs" by (intro map_idI) (auto simp: filter_empty_conv)
    with True Cons.prems \<open>filter P xs = []\<close> show ?thesis by simp
  next
    case False
    with Cons.prems obtain j where "find_index P xs = Some j" "i = Suc j" by auto
    with False Cons show ?thesis by simp
  qed
qed simp

lemma find_last_unique:
  assumes "length (filter P xs) \<le> 1"
  shows "find_last_index P xs = find_index P xs"
proof (cases "find_index P xs")
  case None
  then show ?thesis using find_index_None [of P xs] find_last_index_None [of P xs] by simp
next
  case (Some i)
  then obtain j where j: "find_last_index P xs = Some j"
    using find_index_None [of P xs] find_last_index_None [of P xs] by (cases "find_last_index P xs") auto
  note pi = find_index_Some [OF Some] and pj = find_last_index_Some [OF j]
  have "i = j"
  proof (rule ccontr)
    assume "i \<noteq> j"
    then have "card {n. n < length xs \<and> P (xs ! n)} \<ge> card {i, j}" using pi pj by (intro card_mono) auto
    with \<open>i \<noteq> j\<close> assms show False by (simp add: length_filter_conv_card)
  qed
  with Some j show ?thesis by simp
qed

lemma sim_RecordTunnelOpen:
  assumes "pg_rel m db" "proper pe (ORecordTunnelOpen now nid s) m"
  shows "sim pe (ORecordTunnelOpen now nid s) m db"
proof -
  note r = pg_relD(1) [OF assms(1)]
  define live where "live = live_instance (tsEdgeID s) (tsSessionID s) (tsTunnelID s)"
  have live': "(\<lambda>r. tunnelKeyMatch r (tsEdgeID s) (tsSessionID s) (tsTunnelID s) \<and> Status r = ''active'') = live"
    by (simp add: live_def live_instance_def fun_eq_iff)
  have one: "length (filter live (tunnelHist m)) \<le> 1"
    using active_rows_reach [OF r, of "tsEdgeID s" "tsSessionID s" "tsTunnelID s"] by (simp add: active_rows_def live')
  have reach: "store_reach (snd (RecordTunnelOpen now nid s m))" by (rule store_reach.step [OF r store_step.intros(16)])
  have org: "has_org (tsOrgID s) db" using assms by (simp add: has_org_iff)
  note t = pg_relD(9) [OF assms(1)] and opn = pg_relD(10) [OF assms(1)]
  show ?thesis
  proof (cases "find_index live (tunnelHist m)")
    case None
    then have none: "filter live (tunnelHist m) = []" by (simp add: find_index_None filter_empty_conv)
    have "\<not> list_ex (\<lambda>e. tsID e = or_id nid (tsID s)) (tunnelHist m)" using assms(2) by (auto simp: list_ex_iff)
    then show ?thesis
      using assms reach None none org opn
      by (auto simp: sim_def pg_rel_def pg_RecordTunnelOpen_def RecordTunnelOpen_def live' simp flip: live_def
          simp: sql_insert_def unit_of_def open_rows_def Let_def)
  next
    case (Some i)
    define x where "x = tunnelHist m ! i"
    let ?f = "\<lambda>r. r\<lparr>tsOrgID := tsOrgID s, tsType := tsType s, tsPublicURL := tsPublicURL s, tsHost := tsHost s, tsPort := tsPort s,
        tsRegion := tsRegion s, ClientIP := ClientIP s, Country := Country s, City := City s, StartedAt := or_time now (StartedAt s)\<rparr>"
    have x: "x \<in> set (tunnelHist m)" "live x" using find_index_Some [OF Some] by (auto simp: x_def)
    then have xs: "tsEdgeID x = tsEdgeID s" "tsSessionID x = tsSessionID s" "tsTunnelID x = tsTunnelID s" "Status x = ''active''"
      by (auto simp: live_def live_instance_def tunnelKeyMatch_def)
    with x opn have "tsBytesIn x = 0" "tsBytesOut x = 0" "tsRequests x = 0" "EndedAt x = None" by (auto simp: open_rows_def)
    with xs assms(2) have fx: "?f x = s\<lparr>StartedAt := or_time now (StartedAt s), Status := ''active'', EndedAt := None, tsID := tsID x\<rparr>"
      by (cases x; cases s) simp
    note upd = update_unique [OF one Some, of ?f]
    have mem: "RecordTunnelOpen now nid s m = (?f x, m\<lparr>tunnelHist := (tunnelHist m)[i := ?f x]\<rparr>)"
      using Some fx by (simp add: RecordTunnelOpen_def live' Let_def flip: x_def)
    have "open_rows ((tunnelHist m)[i := ?f x])"
      using opn x xs(4) set_update_subset_insert [of "tunnelHist m" i "?f x"] by (fastforce simp: open_rows_def)
    moreover have "snd (pg_RecordTunnelOpen pe now nid s db) = db\<lparr>t_tunnel_sessions := (tunnelHist m)[i := ?f x]\<rparr>"
      "fst (pg_step pe (ORecordTunnelOpen now nid s) db) = Inr ()"
      using assms(2) upd org t by (simp_all add: pg_RecordTunnelOpen_def sql_update_def unit_of_def x_def Let_def flip: live_def)
    ultimately show ?thesis
      using assms(1) reach by (simp add: sim_def pg_rel_def mem)
  qed
qed

lemma sim_CloseTunnelSession:
  assumes "pg_rel m db" "proper pe (OCloseTunnelSession e se tu t bi bo rq) m"
  shows "sim pe (OCloseTunnelSession e se tu t bi bo rq) m db"
proof -
  note r = pg_relD(1) [OF assms(1)]
  define live where "live = live_instance e se tu"
  have live': "(\<lambda>r. tunnelKeyMatch r e se tu \<and> Status r = ''active'') = live" by (simp add: live_def live_instance_def fun_eq_iff)
  have one: "length (filter live (tunnelHist m)) \<le> 1" using active_rows_reach [OF r, of e se tu] by (simp add: active_rows_def live')
  have reach: "store_reach (snd (CloseTunnelSession e se tu t bi bo rq m))" by (rule store_reach.step [OF r store_step.intros(17)])
  let ?f = "\<lambda>r. r\<lparr>EndedAt := Some t, Status := ''closed'', tsBytesIn := bi, tsBytesOut := bo, tsRequests := rq\<rparr>"
  have opn: "open_rows (map (\<lambda>r. if live r then ?f r else r) (tunnelHist m))" using pg_relD(10) [OF assms(1)] by (auto simp: open_rows_def)
  show ?thesis
  proof (cases "find_index live (tunnelHist m)")
    case None
    then have "filter live (tunnelHist m) = []" "map (\<lambda>r. if live r then ?f r else r) (tunnelHist m) = tunnelHist m"
      by (auto simp: find_index_None filter_empty_conv intro!: map_idI)
    with None assms show ?thesis
      by (simp add: sim_def pg_rel_def pg_CloseTunnelSession_def CloseTunnelSession_def live' find_last_unique [OF one] sql_update_def unit_of_def
          flip: live_def)
  next
    case (Some i)
    with assms opn reach update_unique [OF one Some, of ?f] show ?thesis
      by (simp add: sim_def pg_rel_def pg_CloseTunnelSession_def CloseTunnelSession_def live' find_last_unique [OF one] sql_update_def unit_of_def
          flip: live_def)
  qed
qed

lemma sim_UpsertSubscription:
  assumes "pg_rel m db" "proper pe (OUpsertSubscription now nid s) m"
  shows "sim pe (OUpsertSubscription now nid s) m db"
proof -
  note r = pg_relD(1) [OF assms(1)] and sub = pg_relD(11) [OF assms(1)] and ex = pg_relD(12) [OF assms(1)]
  note tb = reach_tabs(6) [OF r]
  define row where "row = (\<lambda>i t. \<lparr>psID = i, psOrgID = sbOrgID s, ps_stripe_subscription_id = StripeSubID s, ps_stripe_customer_id = sbStripeCustomerID s,
     psPlan = sbPlan s, psStatus = sbStatus s, ps_current_period_end = nullTime (pgTs pe) (CurrentPeriodEnd s),
     ps_cancel_at_period_end = CancelAtPeriodEnd s, psCreatedAt = t, psUpdatedAt = now\<rparr>)"
  define new where "new = (\<lambda>i t. s\<lparr>sbID := i, sbCreatedAt := t, sbUpdatedAt := now\<rparr>)"
  have pr: "gget (orgs m) (sbOrgID s) \<noteq> None" "pgTs pe now = now" "pgTs pe (CurrentPeriodEnd s) = CurrentPeriodEnd s" "StripeSubID s \<noteq> []"
    using assms(2) unfolding proper.simps by blast+
  have read: "read_sub (row i t) = new i t" for i t
    using pr(3) by (cases s) (simp add: row_def new_def read_sub_def nullTime_def)
  have mem: "fst (mem_step (OUpsertSubscription now nid s) m) = Inr ()" by (cases "UpsertSubscription now nid s m") simp
  have reach: "store_reach (snd (UpsertSubscription now nid s m))" by (rule store_reach.step [OF r store_step.intros(18)])
  have mine: "sbOrgID q = sbOrgID s" if "q \<in> set (map snd (subsByOrg m))" "StripeSubID q = StripeSubID s" for q using assms(2) that by auto
  show ?thesis
  proof (cases "gget (subsByOrg m) (sbOrgID s)")
    case (Some q)
    let ?u = "new (sbID q) (sbCreatedAt q)"
    have st: "snd (UpsertSubscription now nid s m) =
        m\<lparr>subsByOrg := gset (sbOrgID s) ?u (subsByOrg m), subsByStripe := gset (StripeSubID s) (sbOrgID s) (subsByStripe m)\<rparr>"
    proof -
      have p: "StripeSubID s \<noteq> []" "sbCreatedAt q \<noteq> 0"
        "sbID s = [] \<and> sbCreatedAt s = 0 \<or> sbID q = sbID s \<and> sbCreatedAt q = sbCreatedAt s" using assms(2) Some by auto
      from p(3) show ?thesis
      proof (elim disjE)
        assume "sbID s = [] \<and> sbCreatedAt s = 0"
        with Some p(1,2) show ?thesis by (simp add: UpsertSubscription_def new_def or_time_def Let_def)
      next
        assume "sbID q = sbID s \<and> sbCreatedAt q = sbCreatedAt s"
        with Some p(1,2) show ?thesis by (cases "sbID s = []") (simp_all add: UpsertSubscription_def new_def or_time_def Let_def)
      qed
    qed
    note upd = row_update [OF tb sub, where k = "sbOrgID s" and P = "\<lambda>_. True" and Q = "\<lambda>r. psOrgID r = sbOrgID s"
        and h = "\<lambda>q. new (sbID q) (sbCreatedAt q)" and h' = "\<lambda>r. row (psID r) (psCreatedAt r)"]
    have has: "list_ex (\<lambda>r. psOrgID r = sbOrgID s) (t_subscriptions db)"
      using tab_fresh [OF tb, of "sbOrgID s"] Some by (simp add: list_ex_map flip: sub)
    have "\<not> list_ex (\<lambda>q. sbOrgID q \<noteq> sbOrgID s \<and> StripeSubID q = StripeSubID s) (map snd (subsByOrg m))"
      using mine unfolding list_ex_iff by blast
    then have other: "\<not> list_ex (\<lambda>r. psOrgID r \<noteq> sbOrgID s \<and> ps_stripe_subscription_id r = StripeSubID s) (t_subscriptions db)"
      by (simp add: list_ex_map flip: sub)
    have pg: "fst (pg_step pe (OUpsertSubscription now nid s) db) = Inr ()"
      "snd (pg_UpsertSubscription pe now nid s db) =
         db\<lparr>t_subscriptions := snd (sql_update (\<lambda>r. psOrgID r = sbOrgID s) (\<lambda>r. row (psID r) (psCreatedAt r)) (t_subscriptions db))\<rparr>"
      using has other pr(2) by (simp_all add: pg_UpsertSubscription_def unit_of_def row_def Let_def)
    have q: "sbOrgID q = sbOrgID s" "gget (subsByStripe m) (StripeSubID q) = Some (sbOrgID s)"
      using ex Some unfolding stripe_exact_def index_ok_def by blast+
    moreover have "StripeSubID s = StripeSubID q" using assms(2) Some by simp
    ultimately have "stripe_exact (snd (UpsertSubscription now nid s m))"
      using index_ok_update [OF ex [unfolded stripe_exact_def] Some, of ?u] unfolding st stripe_exact_def by (simp add: new_def update_triv)
    moreover have "sbCreatedAt (read_sub r) = psCreatedAt r" for r by (simp add: read_sub_def)
    ultimately show ?thesis
      using assms(1) reach upd(2) read Some unfolding sim_def mem pg(1)
      by (simp add: pg_rel_def st pg(2))
  next
    case None
    let ?i = "or_id nid (sbID s)" and ?t = "or_time now (sbCreatedAt s)"
    have st: "snd (UpsertSubscription now nid s m) =
        m\<lparr>subsByOrg := gset (sbOrgID s) (new ?i ?t) (subsByOrg m), subsByStripe := gset (StripeSubID s) (sbOrgID s) (subsByStripe m)\<rparr>"
      using pr(4) None by (simp add: UpsertSubscription_def new_def or_id_def Let_def)
    have pn: "\<forall>r \<in> set (map snd (subsByOrg m)). sbID r \<noteq> ?i" "pgTs pe ?t = ?t" using assms(2) None unfolding proper.simps by auto
    have no: "\<not> list_ex (\<lambda>q. sbOrgID q = sbOrgID s) (map snd (subsByOrg m))" using tab_fresh [OF tb, of "sbOrgID s"] None by simp
    then have "\<not> list_ex (\<lambda>q. sbID q = ?i \<or> StripeSubID q = StripeSubID s) (map snd (subsByOrg m))"
      using mine pn(1) unfolding list_ex_iff by blast
    with no have no': "\<not> list_ex (\<lambda>r. psOrgID r = sbOrgID s) (t_subscriptions db)"
      "\<not> list_ex (\<lambda>e. psID e = ?i \<or> ps_stripe_subscription_id e = StripeSubID s) (t_subscriptions db)"
      by (simp_all add: list_ex_map flip: sub)
    have org: "has_org (sbOrgID s) db" using assms(1) pr(1) by (simp add: has_org_iff)
    have pg: "fst (pg_step pe (OUpsertSubscription now nid s) db) = Inr ()"
      "snd (pg_UpsertSubscription pe now nid s db) = db\<lparr>t_subscriptions := t_subscriptions db @ [row ?i ?t]\<rparr>"
      using no' org pr(2) pn(2) by (simp_all add: pg_UpsertSubscription_def sql_insert_def unit_of_def row_def Let_def)
    have "gget (subsByStripe m) (StripeSubID s) = None"
    proof (rule ccontr)
      assume "gget (subsByStripe m) (StripeSubID s) \<noteq> None"
      then obtain i q where q: "gget (subsByOrg m) i = Some q" "StripeSubID q = StripeSubID s" using ex unfolding stripe_exact_def index_ok_def by blast
      then have "q \<in> set (map snd (subsByOrg m))" using gget_SomeD [OF q(1)] by force
      with mine [of q] q(2) no show False unfolding list_ex_iff by blast
    qed
    then have "stripe_exact (snd (UpsertSubscription now nid s m))"
      using index_ok_insert [OF ex [unfolded stripe_exact_def], of "new ?i ?t"] None unfolding st stripe_exact_def by (simp add: new_def)
    then show ?thesis
      using assms(1) reach read None unfolding sim_def mem pg(1)
      by (simp add: pg_rel_def st pg(2) tab_insert)
  qed
qed

lemma sim_DeleteSubscription:
  assumes "pg_rel m db"
  shows "sim pe (ODeleteSubscription x) m db"
proof -
  note r = pg_relD(1) [OF assms] and sub = pg_relD(11) [OF assms] and ex = pg_relD(12) [OF assms]
  note tb = reach_tabs(6) [OF r]
  have reach: "store_reach (snd (DeleteSubscription x m))" by (rule store_reach.step [OF r store_step.intros(19)])
  have same: "StripeSubID q = x \<longleftrightarrow> gget (subsByStripe m) x = Some (sbOrgID q)" if "q \<in> set (map snd (subsByOrg m))" for q
    using ex that tab_mem [OF tb, of q] unfolding stripe_exact_def index_ok_def by (metis option.inject)
  have n: "length (filter (\<lambda>r. ps_stripe_subscription_id r = x) (t_subscriptions db)) = length (filter (\<lambda>q. StripeSubID q = x) (map snd (subsByOrg m)))"
    unfolding sub [symmetric] by (simp add: filter_map comp_def)
  have t: "map read_sub (filter (\<lambda>r. ps_stripe_subscription_id r \<noteq> x) (t_subscriptions db)) = filter (\<lambda>q. StripeSubID q \<noteq> x) (map snd (subsByOrg m))"
    unfolding sub [symmetric] by (simp add: filter_map comp_def)
  show ?thesis
  proof (cases "gget (subsByStripe m) x")
    case None
    then have "\<forall>q \<in> set (map snd (subsByOrg m)). StripeSubID q \<noteq> x" using same by auto
    then have "filter (\<lambda>q. StripeSubID q = x) (map snd (subsByOrg m)) = []" "filter (\<lambda>q. StripeSubID q \<noteq> x) (map snd (subsByOrg m)) = map snd (subsByOrg m)"
      by (auto simp: filter_empty_conv intro!: filter_True)
    with None assms n t show ?thesis
      by (simp add: sim_def pg_rel_def pg_DeleteSubscription_def DeleteSubscription_def sql_delete_def unit_of_def)
  next
    case (Some i)
    then obtain q where q: "gget (subsByOrg m) i = Some q" "StripeSubID q = x" using ex unfolding stripe_exact_def index_ok_def by blast
    have "filter (\<lambda>q. StripeSubID q = x) (map snd (subsByOrg m)) = filter (\<lambda>q. sbOrgID q = i) (map snd (subsByOrg m))"
      "filter (\<lambda>q. StripeSubID q \<noteq> x) (map snd (subsByOrg m)) = filter (\<lambda>q. sbOrgID q \<noteq> i) (map snd (subsByOrg m))"
      using same Some by (intro filter_cong; auto)+
    then have f: "length (filter (\<lambda>q. StripeSubID q = x) (map snd (subsByOrg m))) = 1"
      "filter (\<lambda>q. StripeSubID q \<noteq> x) (map snd (subsByOrg m)) = map snd (gdel i (subsByOrg m))"
      using tab_filter [OF tb, of i] q tab_delete [OF tb, of i] by simp_all
    have "stripe_exact (m\<lparr>subsByStripe := gdel x (subsByStripe m), subsByOrg := gdel i (subsByOrg m)\<rparr>)"
      using index_ok_delete [OF ex [unfolded stripe_exact_def] q(1)] q(2) by (simp add: stripe_exact_def)
    with Some assms n t f reach show ?thesis
      by (simp add: sim_def pg_rel_def pg_DeleteSubscription_def DeleteSubscription_def sql_delete_def unit_of_def)
  qed
qed

lemma sim_MarkEventProcessed:
  assumes "pg_rel m db"
  shows "sim pe (OMarkEventProcessed i ty) m db"
  using assms store_reach.step [OF pg_relD(1) [OF assms] store_step.intros(20), of i] pg_relD(13) [OF assms, of i]
  by (auto simp: sim_def pg_rel_def pg_MarkEventProcessed_def MarkEventProcessed_def split: if_splits)

lemma metered_pairs:
  assumes "metered_rel xs n ys k"
  obtains zs where "xs = map fst zs" "ys = map snd zs" "\<And>p. p \<in> set zs \<Longrightarrow> snd p = (fst p)\<lparr>muID := muID (snd p)\<rparr>"
    "distinct (map (\<lambda>p. muID (fst p)) zs)" "distinct (map (\<lambda>p. muID (snd p)) zs)"
proof -
  from assms obtain zs where zs: "map fst zs = xs" "map snd zs = ys" "\<forall>p \<in> set zs. snd p = (fst p)\<lparr>muID := muID (snd p)\<rparr>"
    by (auto simp: metered_rel_def)
  have "distinct (map muID xs)" "distinct (map muID ys)"
    using assms by (simp_all add: metered_rel_def strict_sorted_iff)
  with zs that [of zs] show thesis by (auto simp: comp_def)
qed

lemma metered_ex:
  assumes "metered_rel xs n ys k" "\<And>e i. C (e\<lparr>muID := i\<rparr>) = C e"
  shows "(\<exists>e \<in> set ys. C e) = (\<exists>e \<in> set xs. C e)"
proof -
  obtain zs where zs: "xs = map fst zs" "ys = map snd zs" "\<And>p. p \<in> set zs \<Longrightarrow> snd p = (fst p)\<lparr>muID := muID (snd p)\<rparr>"
    using metered_pairs [OF assms(1)] by metis
  have "C (snd p) = C (fst p)" if "p \<in> set zs" for p using zs(3) [OF that] assms(2) by metis
  then show ?thesis by (auto simp: zs(1,2))
qed

lemma metered_skip: "metered_rel xs n ys k \<Longrightarrow> metered_rel xs n ys (k + 1)"
  by (auto simp: metered_rel_def)

lemma metered_append:
  assumes "metered_rel xs n ys k"
  shows "metered_rel (xs @ [u\<lparr>muID := n + 1\<rparr>]) (n + 1) (ys @ [u\<lparr>muID := k + 1\<rparr>]) (k + 1)"
proof -
  from assms obtain zs where zs: "map fst zs = xs" "map snd zs = ys" "\<forall>p \<in> set zs. snd p = (fst p)\<lparr>muID := muID (snd p)\<rparr>"
    by (auto simp: metered_rel_def)
  let ?zs = "zs @ [(u\<lparr>muID := n + 1\<rparr>, u\<lparr>muID := k + 1\<rparr>)]"
  have "map fst ?zs = xs @ [u\<lparr>muID := n + 1\<rparr>] \<and> map snd ?zs = ys @ [u\<lparr>muID := k + 1\<rparr>] \<and> (\<forall>p \<in> set ?zs. snd p = (fst p)\<lparr>muID := muID (snd p)\<rparr>)"
    using zs by simp
  then have "\<exists>zs. map fst zs = xs @ [u\<lparr>muID := n + 1\<rparr>] \<and> map snd zs = ys @ [u\<lparr>muID := k + 1\<rparr>]
      \<and> (\<forall>p \<in> set zs. snd p = (fst p)\<lparr>muID := muID (snd p)\<rparr>)" by (rule exI)
  moreover have "\<forall>x \<in> set xs. muID x < n + 1" "\<forall>y \<in> set ys. muID y < k + 1" using assms by (auto simp: metered_rel_def)
  ultimately show ?thesis using assms unfolding metered_rel_def by (simp add: sorted_wrt_append less_imp_le)
qed

lemma sim_InsertMeteredUsage:
  assumes "pg_rel m db" "proper pe (OInsertMeteredUsage now u) m"
  shows "sim pe (OInsertMeteredUsage now u) m db"
proof -
  note r = pg_relD(1) [OF assms(1)] and rel = pg_relD(14) [OF assms(1)]
  let ?u = "u\<lparr>muCreatedAt := or_time now (muCreatedAt u)\<rparr>" and ?k = "metered_usage_id_seq db + 1" and ?n = "meteredSeq m + 1"
  let ?C = "\<lambda>e. muOrgID e = muOrgID u \<and> Metric e = Metric u \<and> muWindowStart e = muWindowStart u"
  have reach: "store_reach (snd (InsertMeteredUsage now u m))" by (rule store_reach.step [OF r store_step.intros(21)])
  have row: "?u\<lparr>muID := ?k, muWindowStart := pgTs pe (muWindowStart u), muWindowEnd := pgTs pe (muWindowEnd u), ReportedAt := None,
      muCreatedAt := pgTs pe (muCreatedAt ?u)\<rparr> = ?u\<lparr>muID := ?k\<rparr>" using assms(2) by simp
  have "muID e \<noteq> ?k" if "e \<in> set (t_metered_usage db)" for e using rel that by (force simp: metered_rel_def)
  then have "list_ex (\<lambda>e. muID e = ?k \<or> ?C e) (t_metered_usage db) \<longleftrightarrow> (\<exists>e \<in> set (t_metered_usage db). ?C e)"
    unfolding list_ex_iff by blast
  also have "\<dots> \<longleftrightarrow> (\<exists>e \<in> set (metered m). ?C e)" by (rule metered_ex [OF rel]) simp
  finally have clash: "list_ex (\<lambda>e. muID e = ?k \<or> ?C e) (t_metered_usage db) \<longleftrightarrow> (\<exists>e \<in> set (metered m). ?C e)" .
  have org: "has_org (muOrgID u) db" using assms by (simp add: has_org_iff)
  have pg: "pg_InsertMeteredUsage pe now u db =
      (if \<exists>e \<in> set (metered m). ?C e then (Inl (PgStore ErrConflict), db\<lparr>metered_usage_id_seq := ?k\<rparr>)
       else (Inr (?u\<lparr>muID := ?k\<rparr>), db\<lparr>metered_usage_id_seq := ?k, t_metered_usage := t_metered_usage db @ [?u\<lparr>muID := ?k\<rparr>]\<rparr>))"
    unfolding pg_InsertMeteredUsage_def Let_def row using clash org by (auto simp: sql_insert_def conflict_def)
  show ?thesis
  proof (cases "\<exists>e \<in> set (metered m). ?C e")
    case True
    then have "InsertMeteredUsage now u m = (Inl ErrConflict, m)" by (simp add: InsertMeteredUsage_def)
    with True assms(1) metered_skip [OF rel] show ?thesis unfolding sim_def pg_step.simps mem_step.simps pg by (simp add: pg_rel_def)
  next
    case False
    then have "InsertMeteredUsage now u m = (Inr (?u\<lparr>muID := ?n\<rparr>), m\<lparr>meteredSeq := ?n, metered := metered m @ [?u\<lparr>muID := ?n\<rparr>]\<rparr>)"
      by (simp add: InsertMeteredUsage_def Let_def)
    with False assms(1) metered_append [OF rel, of ?u] reach show ?thesis
      unfolding sim_def pg_step.simps mem_step.simps pg by (simp add: pg_rel_def unit_of_def)
  qed
qed

lemma pending_sorted:
  assumes "metered_rel xs n ys k"
  shows "sort_key muID (filter P ys) = filter P ys"
proof -
  have "sorted (map muID (filter P ys))"
    using assms sorted_wrt_filter [of "\<lambda>a b. muID a < muID b" ys P] unfolding metered_rel_def
    by (auto simp: sorted_wrt_map intro: sorted_wrt_mono_rel [of _ "\<lambda>a b. muID a < muID b"])
  then show ?thesis by (rule sort_key_id_if_sorted)
qed

lemma picked_pairs:
  assumes "xs = map fst zs" "ys = map snd zs" "\<And>p. p \<in> set zs \<Longrightarrow> P (snd p) = P (fst p)"
  shows "nths (take n (filter P xs)) I = map fst (nths (take n (filter (\<lambda>p. P (fst p)) zs)) I)"
    and "nths (take n (filter P ys)) I = map snd (nths (take n (filter (\<lambda>p. P (fst p)) zs)) I)"
proof -
  have "filter (\<lambda>p. P (snd p)) zs = filter (\<lambda>p. P (fst p)) zs" using assms(3) by (rule filter_cong [OF HOL.refl])
  then show "nths (take n (filter P xs)) I = map fst (nths (take n (filter (\<lambda>p. P (fst p)) zs)) I)"
    "nths (take n (filter P ys)) I = map snd (nths (take n (filter (\<lambda>p. P (fst p)) zs)) I)"
    unfolding assms(1,2) by (simp_all add: filter_map comp_def take_map nths_map)
qed

lemma metered_report:
  assumes "metered_rel xs n ys k"
  shows "metered_rel
      (map (\<lambda>e. if muID e \<in> set (map muID (nths (take l (filter (\<lambda>e. ReportedAt e = None) xs)) I)) then e\<lparr>ReportedAt := t\<rparr> else e) xs) n
      (map (\<lambda>e. if muID e \<in> set (map muID (nths (take l (filter (\<lambda>e. ReportedAt e = None) ys)) I)) then e\<lparr>ReportedAt := t\<rparr> else e) ys) k"
proof -
  obtain zs where zs: "xs = map fst zs" "ys = map snd zs" "\<And>p. p \<in> set zs \<Longrightarrow> snd p = (fst p)\<lparr>muID := muID (snd p)\<rparr>"
    "distinct (map (\<lambda>p. muID (fst p)) zs)" "distinct (map (\<lambda>p. muID (snd p)) zs)" using metered_pairs [OF assms] by metis
  define ps where "ps = nths (take l (filter (\<lambda>p. ReportedAt (fst p) = None) zs)) I"
  have sub: "set ps \<subseteq> set zs" using set_nths_subset set_take_subset unfolding ps_def by fastforce
  have "ReportedAt (snd p) = ReportedAt (fst p)" if "p \<in> set zs" for p by (subst zs(3) [OF that]) simp
  then have pk: "nths (take l (filter (\<lambda>e. ReportedAt e = None) xs)) I = map fst ps" "nths (take l (filter (\<lambda>e. ReportedAt e = None) ys)) I = map snd ps"
    using picked_pairs [OF zs(1,2), of "\<lambda>e. ReportedAt e = None"] by (simp_all add: ps_def)
  have in1: "muID (fst p) \<in> set (map muID (map fst ps)) \<longleftrightarrow> p \<in> set ps" and in2: "muID (snd p) \<in> set (map muID (map snd ps)) \<longleftrightarrow> p \<in> set ps"
    if "p \<in> set zs" for p
    using inj_on_image_mem_iff [OF _ that sub, of "\<lambda>p. muID (fst p)"] inj_on_image_mem_iff [OF _ that sub, of "\<lambda>p. muID (snd p)"] zs(4,5)
    by (simp_all add: distinct_map image_image)
  let ?m = "\<lambda>e. e\<lparr>ReportedAt := t\<rparr>"
  let ?zs = "map (\<lambda>p. if p \<in> set ps then (?m (fst p), ?m (snd p)) else p) zs"
  have f: "map fst ?zs = map (\<lambda>e. if muID e \<in> set (map muID (map fst ps)) then ?m e else e) xs"
    and s: "map snd ?zs = map (\<lambda>e. if muID e \<in> set (map muID (map snd ps)) then ?m e else e) ys"
    unfolding zs(1,2) map_map comp_def by (rule map_cong [OF HOL.refl], simp add: in1 [simplified] in2 [simplified])+
  have rel: "\<forall>p \<in> set ?zs. snd p = (fst p)\<lparr>muID := muID (snd p)\<rparr>"
  proof
    fix p' assume "p' \<in> set ?zs"
    then obtain p where "p \<in> set zs" "p' = (if p \<in> set ps then (?m (fst p), ?m (snd p)) else p)"
      unfolding set_map by (rule imageE)
    define i where "i = muID (snd p)"
    then have "snd p = (fst p)\<lparr>muID := i\<rparr>" using zs(3) [OF \<open>p \<in> set zs\<close>] by simp
    with \<open>p' = _\<close> show "snd p' = (fst p')\<lparr>muID := muID (snd p')\<rparr>" by simp
  qed
  have ids: "map muID (map (\<lambda>e. if Q e then ?m e else e) es) = map muID es" for Q es by simp
  show ?thesis
    using assms f s rel unfolding pk metered_rel_def ids by (auto intro!: exI [of _ ?zs])
qed

lemma sim_ReportMeteredUsage:
  assumes "pg_rel m db" "proper pe (OReportMeteredUsage l I t) m"
  shows "sim pe (OReportMeteredUsage l I t) m db"
proof -
  note r = pg_relD(1) [OF assms(1)] and rel = pg_relD(14) [OF assms(1)]
  have reach: "store_reach (MarkMeteredUsageReported ids t m)" for ids by (rule store_reach.step [OF r store_step.intros(22)])
  show ?thesis
    using assms reach [of "map muID (nths (take (nat l) (filter (\<lambda>e. ReportedAt e = None) (metered m))) I)"] metered_report [OF rel, of "nat l" I "Some t"] pending_sorted [OF rel, of "\<lambda>e. ReportedAt e = None"]
    by (auto simp: sim_def pg_rel_def pg_MarkMeteredUsageReported_def MarkMeteredUsageReported_def picked_def pg_PendingMeteredUsage_def
        PendingMeteredUsage_def sql_update_def Let_def)
qed

lemma sim_any: "pg_rel m db \<Longrightarrow> proper pe p m \<Longrightarrow> sim pe p m db"
  by (cases p)
    (simp_all only: sim_CreateUser sim_UpdateUserProfile sim_CreateOrg sim_orgs sim_AddOrgMember sim_CreateAPIKey sim_keys sim_ReserveSubdomain
      sim_ReleaseSubdomain sim_AddCustomDomain sim_VerifyCustomDomain sim_UpsertUsage sim_RecordTunnelOpen sim_CloseTunnelSession
      sim_UpsertSubscription sim_DeleteSubscription sim_MarkEventProcessed sim_InsertMeteredUsage sim_ReportMeteredUsage)

section \<open>Queries\<close>

definition ok_or :: "store_error + 'a \<Rightarrow> pg_error + 'a" where
  "ok_or = map_sum PgStore (\<lambda>x. x)"

lemma ok_or_simps [simp]: "ok_or (Inl e) = Inl (PgStore e)" "ok_or (Inr x) = Inr x"
  by (simp_all add: ok_or_def)

lemma row_by_id:
  assumes "tab idf g"
  shows "sql_row (\<lambda>r. idf r = k) (map snd g) = ok_or (the_row g k)"
  by (simp add: sql_row_def tab_filter [OF assms] the_row_def split: option.split)

lemma row_by_index:
  assumes "tab rid g" "index_ok key rid g idx"
  shows "sql_row (\<lambda>r. key r = k) (map snd g) = ok_or (case gget idx k of None \<Rightarrow> Inl ErrNotFound | Some i \<Rightarrow> Inr (case gget g i of Some r \<Rightarrow> r | None \<Rightarrow> z))"
proof -
  have "gget idx k = Some i \<Longrightarrow> gget g i \<noteq> None" for i using assms(2) unfolding index_ok_def by fastforce
  then show ?thesis by (auto simp: sql_row_def index_scan [OF assms] split: option.split)
qed

lemma read_row:
  assumes "map f xs = ys" "\<And>r. P (f r) = Q r"
  shows "map_sum (\<lambda>e. e) f (sql_row Q xs) = sql_row P ys"
proof -
  have "filter P ys = map f (filter Q xs)" unfolding assms(1) [symmetric] by (simp add: filter_map comp_def assms(2))
  then show ?thesis by (simp add: sql_row_def split: list.split)
qed

lemma row_find: "sql_row P xs = (case find P xs of None \<Rightarrow> Inl (PgStore ErrNotFound) | Some r \<Rightarrow> Inr r)"
  by (induction xs) (auto simp: sql_row_def)

lemma q_users:
  assumes rel: "pg_rel m db"
  shows "pg_GetUser i db = ok_or (GetUser i m)" "pg_GetUserByEmail email db = ok_or (GetUserByEmail email m)"
proof -
  note r = pg_relD(1) [OF rel]
  have ix: "index_ok (\<lambda>u. to_lower (Email u)) usID (users m) (usersEmail m)" using store_ok_reach [OF r] by (simp add: store_ok_def userix.ok_def)
  show "pg_GetUser i db = ok_or (GetUser i m)"
    using row_by_id [OF reach_tabs(1) [OF r], of i] pg_relD(2) [OF rel] by (simp add: pg_GetUser_def GetUser_def)
  show "pg_GetUserByEmail email db = ok_or (GetUserByEmail email m)"
    using row_by_index [OF reach_tabs(1) [OF r] ix, of "to_lower email" zeroUser] pg_relD(2) [OF rel] by (simp add: pg_GetUserByEmail_def GetUserByEmail_def)
qed

lemma q_orgs:
  assumes rel: "pg_rel m db"
  shows "pg_GetOrg i db = ok_or (GetOrg i m)" "pg_OrgsByPlan plan db = OrgsByPlan plan m" "pg_ListOrgMembers i db = ListOrgMembers i m"
    "pg_OrgsForUser u db = OrgsForUser u m" "pg_GetOrgByStripeCustomer c db = ok_or (GetOrgByStripeCustomer c m)"
proof -
  note tb = reach_tabs(2) [OF pg_relD(1) [OF rel]] and og = pg_relD(3) [OF rel]
  show "pg_GetOrg i db = ok_or (GetOrg i m)"
    using row_by_id [OF tb, of i] read_row [OF og, of "\<lambda>g. orID g = i"] by (simp add: pg_GetOrg_def GetOrg_def)
  show "pg_OrgsByPlan plan db = OrgsByPlan plan m"
    using read_filter [of read_org "\<lambda>g. orPlan g = plan" "t_orgs db"] og by (simp add: pg_OrgsByPlan_def OrgsByPlan_def)
  show "pg_ListOrgMembers i db = ListOrgMembers i m" using pg_relD(4) [OF rel] by (simp add: pg_ListOrgMembers_def ListOrgMembers_def)
  have one: "map read_org (filter (\<lambda>g. x = poID g) (t_orgs db)) = (case gget (orgs m) x of None \<Rightarrow> [] | Some g \<Rightarrow> [g])" for x
    using read_filter [of read_org "\<lambda>g. x = orID g" "t_orgs db"] og tab_filter [OF tb, of x] by (simp add: eq_commute [of x])
  have "map read_org (concat (map (\<lambda>e. filter (\<lambda>og. omOrgID e = poID og) (t_orgs db)) (filter (\<lambda>e. omUserID e = u) es))) =
      List.map_filter (\<lambda>e. if omUserID e = u then gget (orgs m) (omOrgID e) else None) es" for es
    by (induction es) (simp_all add: map_filter_simps one map_concat split: option.split)
  then show "pg_OrgsForUser u db = OrgsForUser u m" using pg_relD(4) [OF rel] by (simp add: pg_OrgsForUser_def OrgsForUser_def)
  have "StripeCustomerID (read_org r) = c \<longleftrightarrow> po_stripe_customer_id r = Some c" if "c \<noteq> []" for r
    using that by (auto simp: read_org_def split: option.splits)
  then show "pg_GetOrgByStripeCustomer c db = ok_or (GetOrgByStripeCustomer c m)"
    using read_row [OF og, of "\<lambda>g. StripeCustomerID g = c" "\<lambda>r. po_stripe_customer_id r = Some c"]
    by (auto simp: pg_GetOrgByStripeCustomer_def GetOrgByStripeCustomer_def row_find split: option.splits)
qed

lemma q_keys:
  assumes rel: "pg_rel m db"
  shows "pg_GetAPIKeyByPrefix p db = ok_or (GetAPIKeyByPrefix p m)" "pg_ListAPIKeys i db = ListAPIKeys i m"
proof -
  note r = pg_relD(1) [OF rel]
  have "index_ok Prefix kyID (keys m) (keyPrefix m)" using store_ok_reach [OF r] by (simp add: store_ok_def keyix.ok_def)
  then show "pg_GetAPIKeyByPrefix p db = ok_or (GetAPIKeyByPrefix p m)"
    using row_by_index [OF reach_tabs(3) [OF r], of Prefix "keyPrefix m" p zeroKey] pg_relD(5) [OF rel]
    by (simp add: pg_GetAPIKeyByPrefix_def GetAPIKeyByPrefix_def)
  show "pg_ListAPIKeys i db = ListAPIKeys i m" using pg_relD(5) [OF rel] by (simp add: pg_ListAPIKeys_def ListAPIKeys_def)
qed

lemma q_subdomains:
  assumes rel: "pg_rel m db"
  shows "pg_ListSubdomains i db = ListSubdomains i m" "pg_CountSubdomains i db = CountSubdomains i m"
    "pg_IsSubdomainReserved i x db = IsSubdomainReserved i x m"
proof -
  note r = pg_relD(1) [OF rel] and s = pg_relD(6) [OF rel]
  show "pg_ListSubdomains i db = ListSubdomains i m" "pg_CountSubdomains i db = CountSubdomains i m"
    by (simp_all add: s pg_ListSubdomains_def ListSubdomains_def pg_CountSubdomains_def CountSubdomains_def)
  have ix: "index_ok (\<lambda>s. to_lower (Subdomain s)) rsuID (subs m) (subByName m)" using store_ok_reach [OF r] by (simp add: store_ok_def subix.ok_def)
  have "to_lower (Subdomain e) = Subdomain e" if "e \<in> set (map snd (subs m))" for e
    using that store_ok_reach [OF r] tab_mem [OF reach_tabs(4) [OF r], of e] by (auto simp: store_ok_def)
  then have "filter (\<lambda>s. Subdomain s = to_lower x) (map snd (subs m)) = filter (\<lambda>s. to_lower (Subdomain s) = to_lower x) (map snd (subs m))"
    by (intro filter_cong) auto
  then show "pg_IsSubdomainReserved i x db = IsSubdomainReserved i x m"
    using index_scan [OF reach_tabs(4) [OF r] ix, of "to_lower x"] index_ok_def [of "\<lambda>s. to_lower (Subdomain s)" rsuID "subs m" "subByName m"] ix
    by (fastforce simp: pg_IsSubdomainReserved_def IsSubdomainReserved_def sql_row_def s split: option.splits)
qed

lemma q_domains:
  assumes rel: "pg_rel m db"
  shows "pg_GetCustomDomain i org db = ok_or (GetCustomDomain i org m)" "pg_GetCustomDomainByName x db = ok_or (GetCustomDomainByName x m)"
    "pg_ListCustomDomains i db = ListCustomDomains i m" "pg_CountCustomDomains i db = CountCustomDomains i m"
proof -
  note r = pg_relD(1) [OF rel] and d = pg_relD(7) [OF rel]
  show "pg_ListCustomDomains i db = ListCustomDomains i m" "pg_CountCustomDomains i db = CountCustomDomains i m"
    by (simp_all add: d pg_ListCustomDomains_def ListCustomDomains_def pg_CountCustomDomains_def CountCustomDomains_def)
  have "filter (\<lambda>e. cdID e = i \<and> cdOrgID e = org) (map snd (domains m)) = filter (\<lambda>e. cdOrgID e = org) (filter (\<lambda>e. cdID e = i) (map snd (domains m)))"
    by (simp add: conj_commute)
  then show "pg_GetCustomDomain i org db = ok_or (GetCustomDomain i org m)"
    using tab_filter [OF reach_tabs(5) [OF r], of i] by (simp add: pg_GetCustomDomain_def GetCustomDomain_def sql_row_def d split: option.split)
  have ix: "index_ok (\<lambda>s. to_lower (Domain s)) cdID (domains m) (domByName m)" using store_ok_reach [OF r] by (simp add: store_ok_def domix.ok_def)
  have "to_lower (Domain e) = Domain e" if "e \<in> set (map snd (domains m))" for e
    using that reach_rows [OF r] tab_mem [OF reach_tabs(5) [OF r], of e] by auto
  then have "filter (\<lambda>e. Domain e = to_lower x) (map snd (domains m)) = filter (\<lambda>e. to_lower (Domain e) = to_lower x) (map snd (domains m))"
    by (intro filter_cong) auto
  then show "pg_GetCustomDomainByName x db = ok_or (GetCustomDomainByName x m)"
    using row_by_index [OF reach_tabs(5) [OF r] ix, of "to_lower x" zeroDomain]
    by (simp add: pg_GetCustomDomainByName_def GetCustomDomainByName_def sql_row_def d)
qed

lemma q_subscription: "pg_rel m db \<Longrightarrow> pg_GetSubscriptionForOrg i db = ok_or (GetSubscriptionForOrg i m)"
  using row_by_id [OF reach_tabs(6) [OF pg_relD(1)], of m db i] read_row [OF pg_relD(11), of m db "\<lambda>q. sbOrgID q = i"]
  by (simp add: pg_GetSubscriptionForOrg_def GetSubscriptionForOrg_def)

lemma q_pending:
  assumes "pg_rel m db" "0 < l"
  shows "map (\<lambda>e. e\<lparr>muID := 0\<rparr>) (pg_PendingMeteredUsage l db) = map (\<lambda>e. e\<lparr>muID := 0\<rparr>) (PendingMeteredUsage l m)"
proof -
  note mr = pg_relD(14) [OF assms(1)]
  obtain zs where zs: "metered m = map fst zs" "t_metered_usage db = map snd zs" "\<And>p. p \<in> set zs \<Longrightarrow> snd p = (fst p)\<lparr>muID := muID (snd p)\<rparr>"
    using metered_pairs [OF mr] by metis
  have "ReportedAt (snd p) = ReportedAt (fst p)" "(snd p)\<lparr>muID := 0\<rparr> = (fst p)\<lparr>muID := 0\<rparr>" if "p \<in> set zs" for p
    by (subst zs(3) [OF that], simp)+
  then have "filter (\<lambda>p. ReportedAt (snd p) = None) zs = filter (\<lambda>p. ReportedAt (fst p) = None) zs"
    "map (\<lambda>p. (snd p)\<lparr>muID := 0\<rparr>) (filter (\<lambda>p. ReportedAt (fst p) = None) zs) = map (\<lambda>p. (fst p)\<lparr>muID := 0\<rparr>) (filter (\<lambda>p. ReportedAt (fst p) = None) zs)"
    by (auto intro!: filter_cong)
  then show ?thesis
    using assms(2) pending_sorted [OF mr, of "\<lambda>e. ReportedAt e = None"]
    by (simp add: pg_PendingMeteredUsage_def PendingMeteredUsage_def zs(1,2) filter_map comp_def take_map [symmetric] Let_def del: map_eq_conv)
qed

lemma q_usage:
  assumes "pg_rel m db" "pgTs pe since = since"
  shows "pg_UsageForOrg pe now org since db = UsageForOrg now org since m"
proof -
  have f: "foldl (\<lambda>agg u. if urOrgID u = org \<and> \<not> urWindowEnd u < since
           then agg\<lparr>urBytesIn := urBytesIn agg + urBytesIn u, urBytesOut := urBytesOut agg + urBytesOut u, urRequests := urRequests agg + urRequests u\<rparr> else agg) a us =
      a\<lparr>urBytesIn := urBytesIn a + sum_list (map urBytesIn (filter (\<lambda>u. urOrgID u = org \<and> urWindowEnd u \<ge> since) us)),
        urBytesOut := urBytesOut a + sum_list (map urBytesOut (filter (\<lambda>u. urOrgID u = org \<and> urWindowEnd u \<ge> since) us)),
        urRequests := urRequests a + sum_list (map urRequests (filter (\<lambda>u. urOrgID u = org \<and> urWindowEnd u \<ge> since) us))\<rparr>" for a :: UsageRecord and us
    by (induction us arbitrary: a) (auto simp: not_less add.assoc)
  show ?thesis
    unfolding UsageForOrg_def f using pg_relD(8) [OF assms(1)] assms(2) by (simp add: pg_UsageForOrg_def usage_since_def Let_def)
qed

lemma filter_match: "(\<lambda>s. (org \<noteq> [] \<longrightarrow> tsOrgID s = org) \<and> (act \<longrightarrow> Status s = ''active'')) = matches_filter org act"
  by (auto simp: matches_filter_def fun_eq_iff)

lemma insort_last: "\<forall>y \<in> set ys. f y < f x \<Longrightarrow> insort_key f x ys = ys @ [x]" for f :: "'a \<Rightarrow> 'b :: linorder"
  by (induction ys) (auto simp: not_le)

lemma sort_rev: "sorted_wrt (\<lambda>a b. StartedAt a < StartedAt b) xs \<Longrightarrow> sort_key (\<lambda>s. - StartedAt s) xs = rev xs"
  by (induction xs) (simp_all add: insort_last)

lemma q_tunnels:
  assumes rel: "pg_rel m db"
  shows "pg_CountTunnelSessions org act db = CountTunnelSessions org act m"
    and "0 \<le> Offset f \<Longrightarrow> sorted_wrt (\<lambda>a b. StartedAt a < StartedAt b) (tunnelHist m) \<Longrightarrow> pg_ListTunnelSessions f db = Inr (ListTunnelSessions f m)"
  using pg_relD(9) [OF rel] sort_rev [OF sorted_wrt_filter, of "tunnelHist m" "matches_filter (fOrgID f) (ActiveOnly f)"]
  by (simp_all add: pg_CountTunnelSessions_def CountTunnelSessions_def pg_ListTunnelSessions_def ListTunnelSessions_def sql_page_def filter_match
      rev_filter Let_def)

lemma gget_group_count: "gget (group_count key rows) k = (let n = length (filter (\<lambda>r. key r = k) rows) in if n = 0 then None else Some n)"
proof -
  have "gget (map (\<lambda>k. (k, f k)) ks) k = (if k \<in> set ks then Some (f k) else None)" for f :: "string \<Rightarrow> nat" and ks by (induction ks) auto
  then show ?thesis by (auto simp: group_count_def Let_def filter_empty_conv)
qed

lemma gget_incr:
  "gget (foldl (\<lambda>out s. incr (key s) out) g rows) k =
     (let n = length (filter (\<lambda>r. key r = k) rows) in if n = 0 then gget g k else Some (n + (case gget g k of None \<Rightarrow> 0 | Some x \<Rightarrow> x)))"
  by (induction rows arbitrary: g) (auto simp: incr_def Let_def split: option.split)

lemma q_breakdown:
  assumes "pg_rel m db"
  shows "gget (pg_TunnelCountryBreakdown org act db) k = gget (TunnelCountryBreakdown org act m) k"
  using pg_relD(9) [OF assms]
  by (simp add: pg_TunnelCountryBreakdown_def TunnelCountryBreakdown_def gget_group_count filter_match
      gget_incr [of "\<lambda>s. if Country s = [] then ''??'' else Country s"] Let_def)

lemma q_overview:
  assumes rel: "pg_rel m db" and "pgTs pe (now - 7 * 24 * 60 * minute) = now - 7 * 24 * 60 * minute"
    "pgTs pe (now - 30 * 24 * 60 * minute) = now - 30 * 24 * 60 * minute"
  shows "(pg_AdminOverview pe now db)\<lparr>stOrgsByPlan := []\<rparr> = (AdminOverview now m)\<lparr>stOrgsByPlan := []\<rparr>"
    and "gget (stOrgsByPlan (pg_AdminOverview pe now db)) k = gget (stOrgsByPlan (AdminOverview now m)) k"
proof -
  have len: "length (t_orgs db) = length (orgs m)" using arg_cong [OF pg_relD(3) [OF rel], of length] by simp
  have us: "length (filter (\<lambda>u. P (usCreatedAt u)) (map snd (users m))) = length (filter (\<lambda>(i, u). P (usCreatedAt u)) (users m))" for P
    by (simp add: filter_map comp_def case_prod_unfold)
  show "(pg_AdminOverview pe now db)\<lparr>stOrgsByPlan := []\<rparr> = (AdminOverview now m)\<lparr>stOrgsByPlan := []\<rparr>"
    using pg_relD(2,5-9) [OF rel] assms(2,3) len us [of "\<lambda>t. t > now - 7 * 24 * 60 * minute"] us [of "\<lambda>t. t > now - 30 * 24 * 60 * minute"]
    by (simp add: pg_AdminOverview_def AdminOverview_def not_less Let_def)
  let ?k = "\<lambda>g. if orPlan g = [] then ''free'' else orPlan g"
  have "length (filter (\<lambda>r. (if poPlan r = [] then ''free'' else poPlan r) = k) (t_orgs db)) = length (filter (\<lambda>g. ?k g = k) (map read_org (t_orgs db)))"
    by (simp add: filter_map comp_def)
  then have n: "length (filter (\<lambda>r. (if poPlan r = [] then ''free'' else poPlan r) = k) (t_orgs db)) = length (filter (\<lambda>(i, g). ?k g = k) (orgs m))"
    unfolding pg_relD(3) [OF rel] by (simp add: filter_map comp_def case_prod_unfold)
  have "gget (foldl (\<lambda>out (i, og). incr (?k og) out) [] (orgs m)) k =
      (let n = length (filter (\<lambda>(i, g). ?k g = k) (orgs m)) in if n = 0 then None else Some n)"
    using gget_incr [of "\<lambda>p. ?k (snd p)" "[]" "orgs m" k] by (simp add: case_prod_unfold)
  then show "gget (stOrgsByPlan (pg_AdminOverview pe now db)) k = gget (stOrgsByPlan (AdminOverview now m)) k"
    by (simp add: pg_AdminOverview_def AdminOverview_def gget_group_count n Let_def)
qed

definition plain :: "string \<Rightarrow> bool" where
  "plain q \<longleftrightarrow> (\<forall>c \<in> set q. c \<noteq> CHR ''%'' \<and> c \<noteq> CHR ''_'' \<and> c \<noteq> CHR 0x5C)"

lemma lower_char_plain:
  "lower_char c = CHR ''%'' \<longleftrightarrow> c = CHR ''%''" "lower_char c = CHR ''_'' \<longleftrightarrow> c = CHR ''_''" "lower_char c = CHR 0x5C \<longleftrightarrow> c = CHR 0x5C"
proof -
  have "\<forall>c. (lower_char c = CHR ''%'' \<longleftrightarrow> c = CHR ''%'') \<and> (lower_char c = CHR ''_'' \<longleftrightarrow> c = CHR ''_'') \<and> (lower_char c = CHR 0x5C \<longleftrightarrow> c = CHR 0x5C)"
    by code_simp
  then show "lower_char c = CHR ''%'' \<longleftrightarrow> c = CHR ''%''" "lower_char c = CHR ''_'' \<longleftrightarrow> c = CHR ''_''" "lower_char c = CHR 0x5C \<longleftrightarrow> c = CHR 0x5C"
    by blast+
qed

lemma like_prefix: "plain q \<Longrightarrow> like (q @ ''%'') t \<longleftrightarrow> take (length q) t = q"
proof (induction q arbitrary: t)
  case Nil
  have "list_ex (\<lambda>i. drop i t = []) [0..<Suc (length t)]" by (auto simp: list_ex_iff)
  then show ?case by simp
next
  case (Cons c q)
  then have "plain q" "c \<noteq> CHR ''%''" "c \<noteq> CHR ''_''" "c \<noteq> CHR 0x5C" by (simp_all add: plain_def)
  with Cons.IH show ?case by (cases t) auto
qed

lemma ilike_contains:
  assumes "plain q"
  shows "ilike_sub s q = str_contains (to_lower s) (to_lower q)"
proof -
  have "plain (to_lower q)" using assms by (auto simp: plain_def to_lower_def lower_char_plain)
  moreover have "to_lower (''%'' @ q @ ''%'') = CHR ''%'' # (to_lower q @ ''%'')" by (simp add: to_lower_def lower_char_plain)
  ultimately show ?thesis by (simp add: ilike_sub_def like_prefix str_contains_def list_ex_iff)
qed

lemma page: "0 \<le> off \<Longrightarrow> pageSlice s limit off = take (nat (if limit \<le> 0 then 50 else limit)) (drop (nat off) s)"
  by (auto simp: pageSlice_def Let_def min_def nat_add_distrib nat_diff_distrib nat_le_iff le_nat_iff)

lemma q_list_users:
  assumes "pg_rel m db" "0 \<le> off" "plain (trim_space search)"
  shows "pg_ListUsers limit off search db = Inr (ListUsers limit off search m)"
proof -
  have e: "to_lower q = [] \<longleftrightarrow> q = []" for q by (simp add: to_lower_def)
  show ?thesis
    using pg_relD(2) [OF assms(1)] assms(2) by (simp add: pg_ListUsers_def ListUsers_def sql_page_def page ilike_contains [OF assms(3)] e Let_def)
qed

lemma insort_read: "map g (insort_key (\<lambda>x. f (g x)) x xs) = insort_key f (g x) (map g xs)" for f :: "'b \<Rightarrow> 'c :: linorder"
  by (induction xs) auto

lemma sort_read: "map g (sort_key (\<lambda>x. f (g x)) xs) = sort_key f (map g xs)" for f :: "'b \<Rightarrow> 'c :: linorder"
  by (induction xs) (simp_all add: insort_read)

lemma q_list_orgs:
  assumes "pg_rel m db" "0 \<le> off"
  shows "pg_ListOrgs limit off plan db = Inr (ListOrgs limit off plan m)"
proof -
  let ?q = "to_lower (trim_space plan)"
  have "map read_org (sort_key (\<lambda>og. - poCreatedAt og) (filter (\<lambda>og. ?q = [] \<or> poPlan og = ?q) (t_orgs db))) =
      sort_key (\<lambda>og. - orCreatedAt og) (filter (\<lambda>og. ?q = [] \<or> orPlan og = ?q) (map snd (orgs m)))"
    unfolding pg_relD(3) [OF assms(1), symmetric]
    using sort_read [of read_org "\<lambda>og. - orCreatedAt og"] read_filter [of read_org "\<lambda>og. ?q = [] \<or> orPlan og = ?q"] by simp
  then show ?thesis
    using assms(2) by (simp add: pg_ListOrgs_def ListOrgs_def sql_page_def page Let_def drop_map [symmetric] take_map [symmetric])
qed

text \<open>The buckets of a usage series.\<close>

definition bucket :: "(UsageRecord \<Rightarrow> gotime) \<Rightarrow> UsageRecord list \<Rightarrow> gotime \<Rightarrow> UsageBucket" where
  "bucket key us k = (let g = filter (\<lambda>u. key u = k) us in
     \<lparr>ubStart = k, ubBytesIn = sum_list (map urBytesIn g), ubBytesOut = sum_list (map urBytesOut g), ubRequests = sum_list (map urRequests g)\<rparr>)"

definition add_bucket :: "(UsageRecord \<Rightarrow> gotime) \<Rightarrow> (gotime, UsageBucket) gomap \<Rightarrow> UsageRecord \<Rightarrow> (gotime, UsageBucket) gomap" where
  "add_bucket key bs u =
     (let b = (case gget bs (key u) of Some b \<Rightarrow> b | None \<Rightarrow> \<lparr>ubStart = key u, ubBytesIn = 0, ubBytesOut = 0, ubRequests = 0\<rparr>) in
      gset (key u) (b\<lparr>ubBytesIn := ubBytesIn b + urBytesIn u, ubBytesOut := ubBytesOut b + urBytesOut u, ubRequests := ubRequests b + urRequests u\<rparr>) bs)"

lemma buckets:
  "gomap_ok (foldl (add_bucket key) [] us) \<and> (\<forall>k. gget (foldl (add_bucket key) [] us) k = (if k \<in> key ` set us then Some (bucket key us k) else None))"
proof (induction us rule: rev_induct)
  case (snoc u us)
  have "filter (\<lambda>v. key v = key u) us = []" if "key u \<notin> key ` set us"
    using that unfolding filter_empty_conv by (metis imageI)
  with snoc show ?case by (auto simp: add_bucket_def bucket_def Let_def)
qed simp

lemma sorted_buckets: "sort_key ubStart (map snd (foldl (add_bucket key) [] us)) = map (bucket key us) (sort (remdups (map key us)))"
proof -
  let ?G = "foldl (add_bucket key) [] us"
  note g = buckets [of key us]
  have "snd p = bucket key us (fst p)" if "p \<in> set ?G" for p
    using g that gomap_ok_mem [of ?G "fst p" "snd p"] by (simp split: if_splits)
  then have G: "map snd ?G = map (bucket key us) (map fst ?G)" by simp
  have k: "(\<lambda>k. ubStart (bucket key us k)) = (\<lambda>k. k)" by (simp add: bucket_def Let_def)
  have "sort_key ubStart (map snd ?G) = map (bucket key us) (sort (map fst ?G))"
    unfolding G using sort_read [of "bucket key us" ubStart "map fst ?G"] unfolding k by (rule sym)
  moreover have "set (map fst ?G) = key ` set us"
    using g by (metis (no_types, lifting) domIff dom_map_of_conv_image_fst list.set_map option.distinct(1) subsetI subset_antisym)
  then have "sort (map fst ?G) = sort (remdups (map key us))"
    using g by (intro sorted_distinct_set_unique) (simp_all add: gomap_ok_def)
  ultimately show ?thesis by simp
qed

lemma q_series:
  assumes "pg_rel m db" "pgTs pe since = since" "\<And>b t. pgTrunc pe b t = truncateTo t b"
  shows "pg_UsageSeriesForOrg pe org since b db = UsageSeriesForOrg org since b m"
proof -
  let ?key = "\<lambda>u. truncateTo (urWindowEnd u) b" and ?us = "filter (\<lambda>u. urOrgID u = org \<and> urWindowEnd u \<ge> since) (stUsage m)"
  have tr: "truncateTo t (if b \<noteq> ''hour'' then ''day'' else b) = truncateTo t b" for t by (simp add: truncateTo_def)
  have "foldl (\<lambda>bs u. if urOrgID u \<noteq> org \<or> urWindowEnd u < since then bs else add_bucket ?key bs u) g us =
      foldl (add_bucket ?key) g (filter (\<lambda>u. urOrgID u = org \<and> urWindowEnd u \<ge> since) us)" for g us
    by (induction us arbitrary: g) auto
  moreover have "UsageSeriesForOrg org since b m = sort_key ubStart (map snd
      (foldl (\<lambda>bs u. if urOrgID u \<noteq> org \<or> urWindowEnd u < since then bs else add_bucket ?key bs u) [] (stUsage m)))"
    unfolding UsageSeriesForOrg_def add_bucket_def Let_def by (rule HOL.refl)
  ultimately have "UsageSeriesForOrg org since b m = map (bucket ?key ?us) (sort (remdups (map ?key ?us)))" by (simp add: sorted_buckets)
  then show ?thesis
    unfolding pg_UsageSeriesForOrg_def Let_def assms(2,3) tr usage_since_def pg_relD(8) [OF assms(1)] by (simp add: bucket_def Let_def)
qed

section \<open>The refinement\<close>

text \<open>Every query has the same answer, the listings of the administration for well-formed pages and searches.\<close>

definition same_answers :: "PgEnv \<Rightarrow> MemStore \<Rightarrow> PostgresStore \<Rightarrow> bool" where
  "same_answers pe m db \<longleftrightarrow>
     (\<forall>i. pg_GetUser i db = ok_or (GetUser i m)) \<and> (\<forall>e. pg_GetUserByEmail e db = ok_or (GetUserByEmail e m))
   \<and> (\<forall>i. pg_GetOrg i db = ok_or (GetOrg i m)) \<and> (\<forall>p. pg_OrgsByPlan p db = OrgsByPlan p m) \<and> (\<forall>c. pg_GetOrgByStripeCustomer c db = ok_or (GetOrgByStripeCustomer c m))
   \<and> (\<forall>i. pg_ListOrgMembers i db = ListOrgMembers i m) \<and> (\<forall>u. pg_OrgsForUser u db = OrgsForUser u m)
   \<and> (\<forall>p. pg_GetAPIKeyByPrefix p db = ok_or (GetAPIKeyByPrefix p m)) \<and> (\<forall>i. pg_ListAPIKeys i db = ListAPIKeys i m)
   \<and> (\<forall>i. pg_ListSubdomains i db = ListSubdomains i m) \<and> (\<forall>i. pg_CountSubdomains i db = CountSubdomains i m)
   \<and> (\<forall>i x. pg_IsSubdomainReserved i x db = IsSubdomainReserved i x m)
   \<and> (\<forall>i org. pg_GetCustomDomain i org db = ok_or (GetCustomDomain i org m)) \<and> (\<forall>x. pg_GetCustomDomainByName x db = ok_or (GetCustomDomainByName x m))
   \<and> (\<forall>i. pg_ListCustomDomains i db = ListCustomDomains i m) \<and> (\<forall>i. pg_CountCustomDomains i db = CountCustomDomains i m)
   \<and> (\<forall>i. pg_GetSubscriptionForOrg i db = ok_or (GetSubscriptionForOrg i m))
   \<and> (\<forall>l. 0 < l \<longrightarrow> map (\<lambda>e. e\<lparr>muID := 0\<rparr>) (pg_PendingMeteredUsage l db) = map (\<lambda>e. e\<lparr>muID := 0\<rparr>) (PendingMeteredUsage l m))
   \<and> (\<forall>t org since. pgTs pe since = since \<longrightarrow> pg_UsageForOrg pe t org since db = UsageForOrg t org since m)
   \<and> (\<forall>org since b. pgTs pe since = since \<longrightarrow> pg_UsageSeriesForOrg pe org since b db = UsageSeriesForOrg org since b m)
   \<and> (\<forall>org act. pg_CountTunnelSessions org act db = CountTunnelSessions org act m)
   \<and> (\<forall>f. 0 \<le> Offset f \<longrightarrow> sorted_wrt (\<lambda>a b. StartedAt a < StartedAt b) (tunnelHist m) \<longrightarrow> pg_ListTunnelSessions f db = Inr (ListTunnelSessions f m))
   \<and> (\<forall>org act k. gget (pg_TunnelCountryBreakdown org act db) k = gget (TunnelCountryBreakdown org act m) k)
   \<and> (\<forall>l off q. 0 \<le> off \<longrightarrow> plain (trim_space q) \<longrightarrow> pg_ListUsers l off q db = Inr (ListUsers l off q m))
   \<and> (\<forall>l off p. 0 \<le> off \<longrightarrow> pg_ListOrgs l off p db = Inr (ListOrgs l off p m))"

lemma rel_same_answers:
  assumes "pg_rel m db" "\<And>b t. pgTrunc pe b t = truncateTo t b"
  shows "same_answers pe m db"
  unfolding same_answers_def
  using q_users [OF assms(1)] q_orgs [OF assms(1)] q_keys [OF assms(1)] q_subdomains [OF assms(1)] q_domains [OF assms(1)] q_subscription [OF assms(1)]
    q_pending [OF assms(1)] q_usage [OF assms(1)] q_series [OF assms(1) _ assms(2)] q_tunnels [OF assms(1)] q_breakdown [OF assms(1)]
    q_list_users [OF assms(1)] q_list_orgs [OF assms(1)]
  by (intro conjI allI impI)

fun outcomes :: "('op \<Rightarrow> 's \<Rightarrow> 'a \<times> 's) \<Rightarrow> 'op list \<Rightarrow> 's \<Rightarrow> 'a list \<times> 's" where
  "outcomes step [] s = ([], s)"
| "outcomes step (p # ps) s = (case outcomes step ps (snd (step p s)) of (as, s') \<Rightarrow> (fst (step p s) # as, s'))"

lemma sim_outcomes:
  "pg_rel m db \<Longrightarrow> proper_run pe ps m \<Longrightarrow>
     fst (outcomes (pg_step pe) ps db) = fst (outcomes mem_step ps m) \<and> pg_rel (snd (outcomes mem_step ps m)) (snd (outcomes (pg_step pe) ps db))"
proof (induction ps arbitrary: m db)
  case (Cons p ps)
  then have "sim pe p m db" by (simp add: sim_any)
  with Cons.IH [of "snd (mem_step p m)" "snd (pg_step pe p db)"] Cons.prems show ?case by (simp add: sim_def case_prod_unfold)
qed simp


definition ex_pg :: PgEnv where
  "ex_pg = \<lparr>pgTs = (\<lambda>t. t - t mod 1000), pgTrunc = (\<lambda>b t. truncateTo t b)\<rparr>"

definition ex_pg_ops :: "pg_op list" where
  "ex_pg_ops =
     [OCreateOrg 5000 ''org_1'' \<lparr>orID = '''', orName = ''a'', orPlan = '''', StripeCustomerID = '''', orCreatedAt = 0, PlanExpiresAt = None\<rparr>,
      OReserveSubdomain 6000 ''sub_1'' \<lparr>rsuID = '''', rsuOrgID = ''org_1'', Subdomain = ''demo'', rsuCreatedAt = 0\<rparr>,
      OReserveSubdomain 7000 ''sub_2'' \<lparr>rsuID = '''', rsuOrgID = ''org_1'', Subdomain = ''demo'', rsuCreatedAt = 0\<rparr>,
      OReleaseSubdomain ''sub_9'' ''org_1'', OReleaseSubdomain ''sub_1'' ''org_1'']"


section \<open>Where the stores differ\<close>

text \<open>The unique constraint on emails is case-sensitive, the lookup is not: an address that differs from an existing one in case only is
  accepted by Postgres and refused by the in-memory store, and the second account can then not be reached by its email.\<close>

lemma email_case_duplicates:
  assumes "pg_rel m db" "gget (usersEmail m) (to_lower (Email u)) = Some i"
    and "\<forall>x \<in> set (map snd (users m)). Email x \<noteq> Email u \<and> usID x \<noteq> or_id nid (usID u)"
  shows "fst (CreateUser now nid u m) = Inl ErrConflict"
    and "is_ok (fst (pg_CreateUser pe now nid u db))"
    and "pg_GetUserByEmail (Email u) (snd (pg_CreateUser pe now nid u db)) = pg_GetUserByEmail (Email u) db"
proof -
  note r = pg_relD(1) [OF assms(1)]
  show "fst (CreateUser now nid u m) = Inl ErrConflict" using assms(2) by (simp add: CreateUser_def)
  have no: "\<not> list_ex (\<lambda>e. usID e = or_id nid (usID u) \<or> Email e = Email u) (map snd (users m))" using assms(3) unfolding list_ex_iff by blast
  then show "is_ok (fst (pg_CreateUser pe now nid u db))"
    using pg_relD(2) [OF assms(1)] by (simp add: pg_CreateUser_def sql_insert_def Let_def)
  have ix: "index_ok (\<lambda>u. to_lower (Email u)) usID (users m) (usersEmail m)" using store_ok_reach [OF r] by (simp add: store_ok_def userix.ok_def)
  then obtain x where "gget (users m) i = Some x" using assms(2) unfolding index_ok_def by blast
  then have "filter (\<lambda>x. to_lower (Email x) = to_lower (Email u)) (map snd (users m)) = [x]"
    using index_scan [OF reach_tabs(1) [OF r] ix, of "to_lower (Email u)"] assms(2) by simp
  with no show "pg_GetUserByEmail (Email u) (snd (pg_CreateUser pe now nid u db)) = pg_GetUserByEmail (Email u) db"
    using pg_relD(2) [OF assms(1)] by (simp add: pg_GetUserByEmail_def pg_CreateUser_def sql_insert_def sql_row_def Let_def)
qed

text \<open>\<^verbatim>\<open>MemStore\<close> keeps the index entry of a subscription that was replaced: when the deletion of the old one is announced afterwards, the
  in-memory store deletes the new one, where Postgres finds nothing to delete.\<close>

lemma replaced_subscription_deleted:
  assumes "pg_rel m db" "gget (subsByStripe m) old = Some (sbOrgID s)" "old \<noteq> StripeSubID s" "StripeSubID s \<noteq> []"
    and "pg_UpsertSubscription pe now nid s db = (Inr s', db')"
  shows "gget (subsByOrg (snd (UpsertSubscription now nid s m))) (sbOrgID s) \<noteq> None
    \<and> gget (subsByOrg (snd (DeleteSubscription old (snd (UpsertSubscription now nid s m))))) (sbOrgID s) = None
    \<and> fst (pg_DeleteSubscription old db') = Inl (PgStore ErrNotFound)"
proof -
  note sub = pg_relD(11) [OF assms(1)] and tb = reach_tabs(6) [OF pg_relD(1) [OF assms(1)]]
  have "gget (subsByOrg (snd (UpsertSubscription now nid s m))) (sbOrgID s) \<noteq> None"
    by (auto simp: UpsertSubscription_def Let_def split: option.split)
  moreover have "gget (subsByStripe (snd (UpsertSubscription now nid s m))) old = Some (sbOrgID s)"
    using assms(2,3) by (auto simp: UpsertSubscription_def Let_def split: option.split)
  moreover have mine: "psOrgID r = sbOrgID s" if "r \<in> set (t_subscriptions db)" "ps_stripe_subscription_id r = old" for r
  proof -
    have "read_sub r \<in> set (map snd (subsByOrg m))" unfolding sub [symmetric] using that(1) by simp
    then have "gget (subsByOrg m) (psOrgID r) = Some (read_sub r)" using tab_mem [OF tb, of "read_sub r"] by simp
    then have "gget (subsByStripe m) (StripeSubID (read_sub r)) = Some (psOrgID r)"
      using pg_relD(12) [OF assms(1)] unfolding stripe_exact_def index_ok_def by blast
    then show ?thesis using assms(2) that(2) by simp
  qed
  have "list_ex (\<lambda>r. psOrgID r = sbOrgID s) (t_subscriptions db)"
  proof -
    obtain q where "gget (subsByOrg m) (sbOrgID s) = Some q" using pg_relD(12) [OF assms(1)] assms(2) unfolding stripe_exact_def index_ok_def by blast
    then have "list_ex (\<lambda>q. sbOrgID q = sbOrgID s) (map read_sub (t_subscriptions db))" unfolding sub using tab_fresh [OF tb, of "sbOrgID s"] by simp
    then show ?thesis by (simp add: list_ex_map)
  qed
  with assms(5) have "t_subscriptions db' = map (\<lambda>r. if psOrgID r = sbOrgID s then r\<lparr>ps_stripe_subscription_id := StripeSubID s,
      ps_stripe_customer_id := sbStripeCustomerID s, psPlan := sbPlan s, psStatus := sbStatus s, ps_current_period_end := nullTime (pgTs pe) (CurrentPeriodEnd s),
      ps_cancel_at_period_end := CancelAtPeriodEnd s, psUpdatedAt := pgTs pe now\<rparr> else r) (t_subscriptions db)"
    by (auto simp: pg_UpsertSubscription_def sql_update_def Let_def split: if_splits)
  with mine assms(3) have "filter (\<lambda>r. ps_stripe_subscription_id r = old) (t_subscriptions db') = []"
    by (auto simp: filter_empty_conv)
  ultimately show ?thesis by (simp add: DeleteSubscription_def pg_DeleteSubscription_def sql_delete_def)
qed

text \<open>A search is a pattern: an underscore in it matches any character.\<close>

lemma search_is_a_pattern: "ilike_sub ''axb@c.d'' ''a_b'' \<and> \<not> str_contains (to_lower ''axb@c.d'') (to_lower ''a_b'')"
  by code_simp

end
