(* ===== verification/RawIngress.thy ===== *)
theory RawIngress
  imports EdgeExact Ingress
begin

text \<open>
  The public TCP and UDP ports of an edge: \<^verbatim>\<open>serveUDPTunnel\<close> with its table of flows and \<^verbatim>\<open>udpReadBack\<close>
  (\<^verbatim>\<open>internal/server/ingress_udp.go\<close>), \<^verbatim>\<open>acceptTCPTunnel\<close> and \<^verbatim>\<open>weldRawConn\<close> (\<^verbatim>\<open>internal/server/ingress_tcp.go\<close>)
  and \<^verbatim>\<open>rawJoin\<close> (\<^verbatim>\<open>internal/server/weld.go\<close>).

  A data stream of an agent is the list of the bytes written to it. Whether it can be opened, and how many more bytes it
  takes before it fails, is part of the environment of a datagram. The server may change in any way between two datagrams.
\<close>

section \<open>UDP\<close>

definition udpIdleTimeout :: duration where
  "udpIdleTimeout = 60 * second"

record udpFlow =
  ufStream :: nat
  lastSeen :: gotime

record udpStream =
  usTunnel :: tref
  usInit :: StreamInit
  usOut :: "byte list"
  usOpen :: bool

text \<open>The local variables of \<^verbatim>\<open>serveUDPTunnel\<close>; \<open>ustreams\<close> holds the streams the flows point to, in the order in which they were opened.\<close>

record UDPPort =
  uflows :: "(string, udpFlow) gomap"
  ustreams :: "udpStream list"
  usock :: bool

definition newUDPPort :: UDPPort where
  "newUDPPort = \<lparr>uflows = [], ustreams = [], usock = True\<rparr>"

record UdpNet =
  unEnv :: Env
  unOpen :: bool
  unRoom :: "nat option"

text \<open>\<^verbatim>\<open>stream.Write\<close>: a stream that fails has taken a part of the bytes.\<close>

definition stream_write :: "byte list \<Rightarrow> byte list \<times> nat option \<Rightarrow> io_error option \<times> (byte list \<times> nat option)" where
  "stream_write b w =
     (case w of
        (out, None) \<Rightarrow> (None, (out @ b, None))
      | (out, Some n) \<Rightarrow> if length b \<le> n then (None, (out @ b, Some (n - length b))) else (Some ErrWrite, (out @ take n b, Some 0)))"

definition upd_stream :: "nat \<Rightarrow> (udpStream \<Rightarrow> udpStream) \<Rightarrow> UDPPort \<Rightarrow> UDPPort" where
  "upd_stream i f u = u\<lparr>ustreams := (ustreams u)[i := f (ustreams u ! i)]\<rparr>"

definition udpInit :: "string \<Rightarrow> boundTunnel \<Rightarrow> StreamInit" where
  "udpInit key bt = \<lparr>siClientTunnelId = clientTunnelID bt, siRemoteAddr = key, siProto = ''udp'', siMeta = []\<rparr>"

text \<open>The flow of a client, opened when there is none.\<close>

definition flowFor :: "UdpNet \<Rightarrow> tref \<Rightarrow> string \<Rightarrow> Server \<Rightarrow> UDPPort \<Rightarrow> (udpFlow \<times> UDPPort) option" where
  "flowFor n t key s u =
     (case gget (uflows u) key of
        Some f \<Rightarrow> Some (f, u)
      | None \<Rightarrow>
          if \<not> unOpen n then None
          else
            let f = \<lparr>ufStream = length (ustreams u), lastSeen = now (unEnv n)\<rparr>
            in Some (f, u\<lparr>uflows := gset key f (uflows u),
                          ustreams := ustreams u @ [\<lparr>usTunnel = t, usInit = udpInit key (bts s t), usOut = [], usOpen = True\<rparr>]\<rparr>))"

text \<open>One datagram of \<open>key\<close> on \<open>port\<close>.\<close>

definition recvUDP :: "UdpNet \<Rightarrow> int \<Rightarrow> string \<Rightarrow> byte list \<Rightarrow> Server \<Rightarrow> UDPPort \<Rightarrow> Server \<times> UDPPort" where
  "recvUDP n port key payload s u =
     (case LookupPort ''udp'' port (hub s) of
        None \<Rightarrow> (s, u)
      | Some t \<Rightarrow>
          (case flowFor n t key s u of
             None \<Rightarrow> (s, u)
           | Some (f, u1) \<Rightarrow>
               let u2 = u1\<lparr>uflows := gset key (f\<lparr>lastSeen := now (unEnv n)\<rparr>) (uflows u1)\<rparr>; i = ufStream f in
               case writeUDPFrame stream_write (usOut (ustreams u2 ! i), unRoom n) payload of
                 (Some er, w) \<Rightarrow>
                   (s, upd_stream i (\<lambda>x. x\<lparr>usOut := fst w, usOpen := False\<rparr>) (u2\<lparr>uflows := gdel key (uflows u2)\<rparr>))
               | (None, w) \<Rightarrow> (recordUsage (unEnv n) t (int (length payload)) 0 1 s, upd_stream i (\<lambda>x. x\<lparr>usOut := fst w\<rparr>) u2)))"

text \<open>The idle sweeper, every half a minute.\<close>

definition idle :: "gotime \<Rightarrow> udpFlow \<Rightarrow> bool" where
  "idle t f \<longleftrightarrow> t - lastSeen f > udpIdleTimeout"

definition sweepUDP :: "gotime \<Rightarrow> UDPPort \<Rightarrow> UDPPort" where
  "sweepUDP t u =
     (let dead = filter (idle t) (map snd (uflows u)) in
      foldr (\<lambda>f. upd_stream (ufStream f) (\<lambda>x. x\<lparr>usOpen := False\<rparr>)) dead (u\<lparr>uflows := filter (\<lambda>(k, f). \<not> idle t f) (uflows u)\<rparr>))"

text \<open>\<^verbatim>\<open>serveUDPTunnel\<close> is this loop; once the socket is closed it ends, and leaves the flows as they are.\<close>

datatype udp_ev = UDatagram UdpNet Server string "byte list" | USweep gotime | UClose

fun serveUDPTunnel :: "int \<Rightarrow> udp_ev list \<Rightarrow> UDPPort \<Rightarrow> UDPPort" where
  "serveUDPTunnel port [] u = u"
| "serveUDPTunnel port (UDatagram n s key p # evs) u = serveUDPTunnel port evs (snd (recvUDP n port key p s u))"
| "serveUDPTunnel port (USweep t # evs) u = serveUDPTunnel port evs (sweepUDP t u)"
| "serveUDPTunnel port (UClose # evs) u = u\<lparr>usock := False\<rparr>"

text \<open>\<^verbatim>\<open>udpReadBack\<close> of stream \<open>i\<close>: the datagrams sent to the client, and what is charged to the tunnel the stream was opened for.\<close>

definition udpReadBack :: "Env \<Rightarrow> (byte list \<Rightarrow> bool) \<Rightarrow> nat \<Rightarrow> byte list \<Rightarrow> UDPPort \<Rightarrow> Server \<Rightarrow> (string \<times> byte list) list \<times> Server" where
  "udpReadBack e send i r u s =
     (let x = ustreams u ! i; ps = fst (udpRecvLoop send r)
      in (map (Pair (siRemoteAddr (usInit x))) ps, fold (\<lambda>p. recordUsage e (usTunnel x) 0 (int (length p)) 0) ps s))"

section \<open>TCP\<close>

text \<open>\<^verbatim>\<open>rawJoin\<close>: two copies run side by side; the one that ends first, because its reader is at the end or fails, closes both connections.
  \<open>wUpIn\<close> and \<open>wDownIn\<close> are the bytes the two sides are going to send.\<close>

record Weld =
  wUpIn :: "byte list"
  wDownIn :: "byte list"
  wUp :: "byte list"
  wDown :: "byte list"
  wOpen :: bool

datatype weld_ev = CopyUp nat | CopyDown nat | EndUp | EndDown

definition newWeld :: "byte list \<Rightarrow> byte list \<Rightarrow> Weld" where
  "newWeld up down = \<lparr>wUpIn = up, wDownIn = down, wUp = [], wDown = [], wOpen = True\<rparr>"

fun weld_step :: "Weld \<Rightarrow> weld_ev \<Rightarrow> Weld" where
  "weld_step w (CopyUp n) = (if wOpen w then w\<lparr>wUpIn := drop n (wUpIn w), wUp := wUp w @ take n (wUpIn w)\<rparr> else w)"
| "weld_step w (CopyDown n) = (if wOpen w then w\<lparr>wDownIn := drop n (wDownIn w), wDown := wDown w @ take n (wDownIn w)\<rparr> else w)"
| "weld_step w EndUp = w\<lparr>wOpen := False\<rparr>"
| "weld_step w EndDown = w\<lparr>wOpen := False\<rparr>"

definition rawJoin :: "weld_ev list \<Rightarrow> byte list \<Rightarrow> byte list \<Rightarrow> Weld \<times> int \<times> int" where
  "rawJoin evs up down =
     (let w = foldl weld_step (newWeld up down) evs in (w\<lparr>wOpen := False\<rparr>, int (length (wUp w)), int (length (wDown w))))"

datatype raw_ev = RawClosed | RawWelded tref StreamInit Weld

definition rawInit :: "string \<Rightarrow> string \<Rightarrow> boundTunnel \<Rightarrow> StreamInit" where
  "rawInit remote ptype bt = \<lparr>siClientTunnelId = clientTunnelID bt, siRemoteAddr = remote, siProto = ptype, siMeta = []\<rparr>"

definition weldRawConn :: "Env \<Rightarrow> bool \<Rightarrow> weld_ev list \<Rightarrow> string \<Rightarrow> byte list \<Rightarrow> byte list \<Rightarrow> tref \<Rightarrow> string \<Rightarrow> Server \<Rightarrow> raw_ev \<times> Server" where
  "weldRawConn e ok evs remote up down t ptype s =
     (if \<not> ok then (RawClosed, s)
      else
        case rawJoin evs up down of
          (w, nu, nd) \<Rightarrow> (RawWelded t (rawInit remote ptype (bts s t)) w, recordUsage e t nu nd 1 s))"

definition acceptTCPTunnel :: "Env \<Rightarrow> bool \<Rightarrow> weld_ev list \<Rightarrow> int \<Rightarrow> string \<Rightarrow> byte list \<Rightarrow> byte list \<Rightarrow> Server \<Rightarrow> raw_ev \<times> Server" where
  "acceptTCPTunnel e ok evs port remote up down s =
     (case LookupPort ''tcp'' port (hub s) of
        None \<Rightarrow> (RawClosed, s)
      | Some t \<Rightarrow> weldRawConn e ok evs remote up down t ''tcp'' s)"

section \<open>What reaches the agent\<close>

lemma readUDPFrame_cut:
  assumes "m < length (udp_frame p)" "length p \<le> 65535"
  shows "\<exists>er. readUDPFrame (take m (udp_frame p)) = Inl er"
proof (rule ccontr)
  assume "\<nexists>er. readUDPFrame (take m (udp_frame p)) = Inl er"
  then obtain b r where "readUDPFrame (take m (udp_frame p)) = Inr (b, r)" by (metis sum.exhaust surj_pair)
  then have cut: "take m (udp_frame p) = udp_frame b @ r" by (rule conjunct1 [OF udp.rd_sound])
  have "readUDPFrame (udp_frame p) = readUDPFrame (udp_frame b @ r @ drop m (udp_frame p))"
    by (metis append_assoc append_take_drop_id cut)
  moreover have "length b \<le> 65535" using udp.rd_sound \<open>readUDPFrame (take m (udp_frame p)) = Inr (b, r)\<close> by blast
  ultimately have "p = b" using udp.rd_enc [OF assms(2), of "[]"] udp.rd_enc by force
  with cut assms(1) show False by (metis length_append length_take min.absorb4 not_add_less1)
qed

lemma udpRecvLoop_then:
  assumes "\<forall>d \<in> set ds. length d \<le> 65535" "readUDPFrame rest = Inl er"
  shows "fst (udpRecvLoop (\<lambda>_. True) (concat (map udp_frame ds) @ rest)) = ds"
  using assms(1)
proof (induction ds)
  case Nil
  then show ?case using assms(2) by (subst udpRecvLoop.simps) simp
next
  case (Cons d ds)
  then show ?case by (subst udpRecvLoop.simps) (simp add: udp.rd_enc case_prod_unfold)
qed

lemma write_frame:
  "writeUDPFrame stream_write (out, room) p =
     (case room of
        None \<Rightarrow> (None, (out @ udp_frame p, None))
      | Some n \<Rightarrow> if length (udp_frame p) \<le> n then (None, (out @ udp_frame p, Some (n - length (udp_frame p))))
          else (Some ErrWrite, (out @ take n (udp_frame p), Some 0)))"
proof -
  have "length (put_uint16 x) = 2" for x by (simp add: put_uint16_def)
  then show ?thesis by (auto simp: writeUDPFrame_def stream_write_def udp_frame_def split: option.split)
qed

definition received :: "udpStream \<Rightarrow> byte list list" where
  "received x = fst (udpRecvLoop (\<lambda>_. True) (usOut x))"

definition of_client :: "string \<Rightarrow> udpStream \<Rightarrow> bool" where
  "of_client a x \<longleftrightarrow> siRemoteAddr (usInit x) = a"

definition got :: "string \<Rightarrow> UDPPort \<Rightarrow> byte list list" where
  "got a u = concat (map received (filter (of_client a) (ustreams u)))"

definition framed :: "udpStream \<Rightarrow> bool" where
  "framed x \<longleftrightarrow> (\<exists>ds. usOut x = concat (map udp_frame ds) \<and> (\<forall>d \<in> set ds. length d \<le> 65535))"

definition udp_ok :: "UDPPort \<Rightarrow> bool" where
  "udp_ok u \<longleftrightarrow>
     gomap_ok (uflows u)
   \<and> (\<forall>a f. gget (uflows u) a = Some f \<longrightarrow>
        ufStream f < length (ustreams u) \<and> usOpen (ustreams u ! ufStream f) \<and> of_client a (ustreams u ! ufStream f)
        \<and> (\<forall>j. ufStream f < j \<longrightarrow> j < length (ustreams u) \<longrightarrow> \<not> of_client a (ustreams u ! j)))
   \<and> (\<forall>i < length (ustreams u). usOpen (ustreams u ! i) \<longrightarrow>
        framed (ustreams u ! i) \<and> (\<exists>f. gget (uflows u) (siRemoteAddr (usInit (ustreams u ! i))) = Some f \<and> ufStream f = i))"

lemma udp_okD:
  assumes "udp_ok u"
  shows "gomap_ok (uflows u)"
    and "gget (uflows u) a = Some f \<Longrightarrow> ufStream f < length (ustreams u)"
    and "gget (uflows u) a = Some f \<Longrightarrow> usOpen (ustreams u ! ufStream f)"
    and "gget (uflows u) a = Some f \<Longrightarrow> siRemoteAddr (usInit (ustreams u ! ufStream f)) = a"
    and "gget (uflows u) a = Some f \<Longrightarrow> ufStream f < j \<Longrightarrow> j < length (ustreams u) \<Longrightarrow> \<not> of_client a (ustreams u ! j)"
    and "i < length (ustreams u) \<Longrightarrow> usOpen (ustreams u ! i) \<Longrightarrow> framed (ustreams u ! i)"
    and "i < length (ustreams u) \<Longrightarrow> usOpen (ustreams u ! i) \<Longrightarrow>
      \<exists>f. gget (uflows u) (siRemoteAddr (usInit (ustreams u ! i))) = Some f \<and> ufStream f = i"
  using assms unfolding udp_ok_def of_client_def by blast+

lemma flow_last: "udp_ok u \<Longrightarrow> gget (uflows u) a = Some f \<Longrightarrow> filter (of_client a) (drop (Suc (ufStream f)) (ustreams u)) = []"
  using udp_okD(5) [of u a f] unfolding filter_empty_conv set_conv_nth by auto

lemma flow_inj: "udp_ok u \<Longrightarrow> gget (uflows u) a = Some f \<Longrightarrow> gget (uflows u) b = Some g \<Longrightarrow> ufStream f = ufStream g \<Longrightarrow> a = b"
  by (metis udp_okD(4))

lemma concat_upd_last:
  assumes "i < length xs" "filter P (drop (Suc i) xs) = []"
  shows "P (xs ! i) \<Longrightarrow> concat (map g (filter P xs)) = concat (map g (filter P (take i xs))) @ g (xs ! i)"
    and "P y \<Longrightarrow> concat (map g (filter P (xs[i := y]))) = concat (map g (filter P (take i xs))) @ g y"
proof -
  have "filter P xs = filter P (take i xs) @ filter P [xs ! i]" using assms by (subst id_take_nth_drop [OF assms(1)]) simp
  then show "P (xs ! i) \<Longrightarrow> concat (map g (filter P xs)) = concat (map g (filter P (take i xs))) @ g (xs ! i)" by simp
  show "P y \<Longrightarrow> concat (map g (filter P (xs[i := y]))) = concat (map g (filter P (take i xs))) @ g y"
    using assms by (simp add: upd_conv_take_nth_drop)
qed

lemma filter_upd_other: "i < length xs \<Longrightarrow> \<not> P (xs ! i) \<Longrightarrow> \<not> P y \<Longrightarrow> filter P (xs[i := y]) = filter P xs"
  by (subst (2) id_take_nth_drop [of i xs]) (simp_all add: upd_conv_take_nth_drop)

lemma received_framed:
  assumes "usOut x = concat (map udp_frame ds)" "\<forall>d \<in> set ds. length d \<le> 65535" "length p \<le> 65535"
  shows "received x = ds" "received (x\<lparr>usOut := usOut x @ udp_frame p\<rparr>) = ds @ [p]"
    and "m < length (udp_frame p) \<Longrightarrow> received (x\<lparr>usOut := usOut x @ take m (udp_frame p), usOpen := b\<rparr>) = ds"
proof -
  show "received x = ds" using udpRecvLoop_then [OF assms(2) udp.rd_eof] by (simp add: received_def assms(1))
  show "received (x\<lparr>usOut := usOut x @ udp_frame p\<rparr>) = ds @ [p]"
    using udpRecvLoop_then [of "ds @ [p]", OF _ udp.rd_eof] assms by (simp add: received_def)
  assume "m < length (udp_frame p)"
  then obtain er where "readUDPFrame (take m (udp_frame p)) = Inl er" using readUDPFrame_cut assms(3) by blast
  then show "received (x\<lparr>usOut := usOut x @ take m (udp_frame p), usOpen := b\<rparr>) = ds"
    using udpRecvLoop_then [OF assms(2)] by (simp add: received_def assms(1))
qed

lemma flowFor_ok:
  assumes "udp_ok u" "flowFor n t key s u = Some (f, u1)"
  shows "udp_ok u1 \<and> gget (uflows u1) key = Some f \<and> got a u1 = got a u"
proof (cases "gget (uflows u) key")
  case None
  let ?x = "\<lparr>usTunnel = t, usInit = udpInit key (bts s t), usOut = [], usOpen = True\<rparr>"
  have f: "f = \<lparr>ufStream = length (ustreams u), lastSeen = now (unEnv n)\<rparr>" "u1 = u\<lparr>uflows := gset key f (uflows u), ustreams := ustreams u @ [?x]\<rparr>"
    using assms(2) None by (auto simp: flowFor_def Let_def split: if_splits)
  have x: "framed ?x" "received ?x = []"
    using udpRecvLoop_then [of "[]", OF _ udp.rd_eof] by (simp_all add: framed_def received_def exI [of _ "[]"])
  have "udp_ok u1"
    unfolding udp_ok_def
  proof (intro conjI allI impI)
    show "gomap_ok (uflows u1)" using udp_okD(1) [OF assms(1)] f by simp
  next
    fix a g assume g: "gget (uflows u1) a = Some g"
    show "ufStream g < length (ustreams u1)" "usOpen (ustreams u1 ! ufStream g)" "of_client a (ustreams u1 ! ufStream g)"
      using g f None udp_okD(2-4) [OF assms(1), of a g]
      by (auto simp: nth_append of_client_def udpInit_def split: if_splits)
    fix j assume "ufStream g < j" "j < length (ustreams u1)"
    then show "\<not> of_client a (ustreams u1 ! j)"
      using g f None udp_okD(5) [OF assms(1), of a g j]
      by (auto simp: nth_append of_client_def udpInit_def less_Suc_eq split: if_splits)
  next
    fix i assume i: "i < length (ustreams u1)" "usOpen (ustreams u1 ! i)"
    show "framed (ustreams u1 ! i)" using i f x udp_okD(6) [OF assms(1), of i] by (auto simp: nth_append less_Suc_eq)
    show "\<exists>g. gget (uflows u1) (siRemoteAddr (usInit (ustreams u1 ! i))) = Some g \<and> ufStream g = i"
      using i f None udp_okD(7) [OF assms(1), of i] by (auto simp: nth_append less_Suc_eq udpInit_def)
  qed
  then show ?thesis using f x by (simp add: got_def)
next
  case (Some g)
  then show ?thesis using assms by (simp add: flowFor_def)
qed

lemma touch_ok: "udp_ok u \<Longrightarrow> gget (uflows u) key = Some f \<Longrightarrow> udp_ok (u\<lparr>uflows := gset key (f\<lparr>lastSeen := t\<rparr>) (uflows u)\<rparr>)"
  unfolding udp_ok_def by (simp, metis option.inject)

lemma write_ok:
  assumes "udp_ok u" "gget (uflows u) key = Some f" "length p \<le> 65535"
  shows "udp_ok (upd_stream (ufStream f) (\<lambda>x. x\<lparr>usOut := usOut x @ udp_frame p\<rparr>) u)
    \<and> got a (upd_stream (ufStream f) (\<lambda>x. x\<lparr>usOut := usOut x @ udp_frame p\<rparr>) u) = got a u @ (if a = key then [p] else [])"
proof -
  let ?i = "ufStream f" and ?x = "ustreams u ! ufStream f"
  note ok = udp_okD(2-4) [OF assms(1,2)] flow_last [OF assms(1,2)]
  let ?y = "?x\<lparr>usOut := usOut ?x @ udp_frame p\<rparr>"
  obtain ds where ds: "usOut ?x = concat (map udp_frame ds)" "\<forall>d \<in> set ds. length d \<le> 65535"
    using udp_okD(6) [OF assms(1) ok(1,2)] unfolding framed_def by blast
  have cl: "of_client b ?y = of_client b ?x" for b by (simp add: of_client_def)
  have "framed ?y" unfolding framed_def using ds assms(3) by (intro exI [of _ "ds @ [p]"]) auto
  then have "udp_ok (upd_stream ?i (\<lambda>x. x\<lparr>usOut := usOut x @ udp_frame p\<rparr>) u)"
    using assms(1) ok unfolding udp_ok_def upd_stream_def by (auto simp: nth_list_update of_client_def)
  moreover have "got a (upd_stream ?i (\<lambda>x. x\<lparr>usOut := usOut x @ udp_frame p\<rparr>) u) = got a u @ (if a = key then [p] else [])"
  proof (cases "a = key")
    case True
    then have "of_client a ?x" "of_client a ?y" using ok(3) by (simp_all add: of_client_def)
    moreover have "filter (of_client a) (drop (Suc ?i) (ustreams u)) = []" using True ok(4) by simp
    ultimately have "concat (map received (filter (of_client a) ((ustreams u)[?i := ?y]))) = concat (map received (filter (of_client a) (ustreams u))) @ [p]"
      using concat_upd_last(1) [OF ok(1), of "of_client a" received] concat_upd_last(2) [OF ok(1), of "of_client a" ?y received]
        received_framed(1,2) [OF ds assms(3)] by simp
    then show ?thesis using True by (simp add: got_def upd_stream_def)
  next
    case False
    then show ?thesis using filter_upd_other [OF ok(1), of "of_client a" ?y] ok(3) cl by (simp add: got_def upd_stream_def of_client_def)
  qed
  ultimately show ?thesis ..
qed

text \<open>Closing streams, one after the other.\<close>

definition close_stream :: "nat \<Rightarrow> UDPPort \<Rightarrow> UDPPort" where
  "close_stream i = upd_stream i (\<lambda>x. x\<lparr>usOpen := False\<rparr>)"

lemma close_stream_sel [simp]:
  "uflows (close_stream i u) = uflows u" "length (ustreams (close_stream i u)) = length (ustreams u)"
  "j < length (ustreams u) \<Longrightarrow> ustreams (close_stream i u) ! j = (if i = j then (ustreams u ! j)\<lparr>usOpen := False\<rparr> else ustreams u ! j)"
  by (simp_all add: close_stream_def upd_stream_def)

lemma close_streams:
  "uflows (foldr (close_stream \<circ> ufStream) fs u) = uflows u"
  "length (ustreams (foldr (close_stream \<circ> ufStream) fs u)) = length (ustreams u)"
  "i < length (ustreams u) \<Longrightarrow> ustreams (foldr (close_stream \<circ> ufStream) fs u) ! i =
     (if i \<in> ufStream ` set fs then (ustreams u ! i)\<lparr>usOpen := False\<rparr> else ustreams u ! i)"
  by (induction fs) auto

lemma sweep_unfold:
  "sweepUDP t u = foldr (close_stream \<circ> ufStream) (filter (idle t) (map snd (uflows u))) (u\<lparr>uflows := filter (\<lambda>(k, f). \<not> idle t f) (uflows u)\<rparr>)"
  by (simp add: sweepUDP_def close_stream_def [abs_def] comp_def)

lemma close_ok:
  assumes "udp_ok u" "gomap_ok (uflows v)" "length (ustreams v) = length (ustreams u)"
    and "\<And>a f. gget (uflows v) a = Some f \<Longrightarrow> gget (uflows u) a = Some f \<and> usOpen (ustreams v ! ufStream f)"
    and "\<And>i. i < length (ustreams u) \<Longrightarrow> usInit (ustreams v ! i) = usInit (ustreams u ! i)"
    and "\<And>i. i < length (ustreams u) \<Longrightarrow> usOpen (ustreams v ! i) \<Longrightarrow> ustreams v ! i = ustreams u ! i \<and> gget (uflows v) (siRemoteAddr (usInit (ustreams u ! i))) \<noteq> None"
  shows "udp_ok v"
  unfolding udp_ok_def
proof (intro conjI allI impI)
  fix a f assume f: "gget (uflows v) a = Some f"
  note u = udp_okD(2-5) [OF assms(1) conjunct1 [OF assms(4) [OF f]]]
  show "ufStream f < length (ustreams v)" "usOpen (ustreams v ! ufStream f)" "of_client a (ustreams v ! ufStream f)"
    using u assms(3,5) assms(4) [OF f] by (simp_all add: of_client_def)
  fix j assume "ufStream f < j" "j < length (ustreams v)"
  then show "\<not> of_client a (ustreams v ! j)" using u(4) [of j] assms(3,5) by (simp add: of_client_def)
next
  fix i assume i: "i < length (ustreams v)" "usOpen (ustreams v ! i)"
  then have same: "ustreams v ! i = ustreams u ! i" and fl: "gget (uflows v) (siRemoteAddr (usInit (ustreams u ! i))) \<noteq> None"
    using assms(6) [of i] assms(3) by simp_all
  then show "framed (ustreams v ! i)" using udp_okD(6) [OF assms(1)] i assms(3) by simp
  show "\<exists>f. gget (uflows v) (siRemoteAddr (usInit (ustreams v ! i))) = Some f \<and> ufStream f = i"
    using same fl udp_okD(7) [OF assms(1), of i] i assms(3,4) by force
qed (rule assms(2))

lemma got_cong:
  assumes "length (ustreams v) = length (ustreams u)"
    and "\<And>i. i < length (ustreams u) \<Longrightarrow> usInit (ustreams v ! i) = usInit (ustreams u ! i) \<and> received (ustreams v ! i) = received (ustreams u ! i)"
  shows "got a v = got a u"
proof -
  let ?g = "\<lambda>x. (usInit x, received x)"
  have "map ?g (ustreams v) = map ?g (ustreams u)" using assms by (intro nth_equalityI) simp_all
  moreover have "got a w = concat (map snd (filter (\<lambda>(x, r). siRemoteAddr x = a) (map ?g (ustreams w))))" for w
    by (simp add: got_def filter_map comp_def of_client_def [abs_def])
  ultimately show ?thesis by simp
qed

lemma write_fail:
  assumes "udp_ok u" "gget (uflows u) key = Some f" "length p \<le> 65535" "m < length (udp_frame p)"
    and v: "v = upd_stream (ufStream f) (\<lambda>x. x\<lparr>usOut := usOut x @ take m (udp_frame p), usOpen := False\<rparr>) (u\<lparr>uflows := gdel key (uflows u)\<rparr>)"
  shows "udp_ok v \<and> got a v = got a u"
proof -
  let ?i = "ufStream f"
  note ok = udp_okD(2-4) [OF assms(1,2)]
  obtain ds where ds: "usOut (ustreams u ! ?i) = concat (map udp_frame ds)" "\<forall>d \<in> set ds. length d \<le> 65535"
    using udp_okD(6) [OF assms(1) ok(1,2)] unfolding framed_def by blast
  have nth: "ustreams v ! j = (if j = ?i then (ustreams u ! j)\<lparr>usOut := usOut (ustreams u ! j) @ take m (udp_frame p), usOpen := False\<rparr> else ustreams u ! j)"
    if "j < length (ustreams u)" for j using that ok(1) by (simp add: v upd_stream_def)
  have len: "length (ustreams v) = length (ustreams u)" and fl: "uflows v = gdel key (uflows u)" by (simp_all add: v upd_stream_def)
  have "udp_ok v"
  proof (rule close_ok [OF assms(1)])
    show "gomap_ok (uflows v)" using udp_okD(1) [OF assms(1)] fl by simp
    show "gget (uflows u) b = Some g \<and> usOpen (ustreams v ! ufStream g)" if "gget (uflows v) b = Some g" for b g
      using that fl nth [of "ufStream g"] udp_okD(2,3) [OF assms(1), of b g] flow_inj [OF assms(1,2), of b g] by (auto split: if_splits)
    show "usInit (ustreams v ! j) = usInit (ustreams u ! j)" if "j < length (ustreams u)" for j using nth [OF that] by simp
    show "ustreams v ! j = ustreams u ! j \<and> gget (uflows v) (siRemoteAddr (usInit (ustreams u ! j))) \<noteq> None"
      if "j < length (ustreams u)" "usOpen (ustreams v ! j)" for j
      using that nth [of j] fl udp_okD(7) [OF assms(1), of j] assms(2) by (auto split: if_splits)
  qed (rule len)
  moreover have "got a v = got a u"
    using len nth received_framed(1,3) [OF ds assms(3)] assms(4) by (intro got_cong) auto
  ultimately show ?thesis ..
qed

lemma sweep_ok:
  assumes "udp_ok u"
  shows "udp_ok (sweepUDP t u) \<and> got a (sweepUDP t u) = got a u"
proof -
  let ?v = "sweepUDP t u"
  note cl = close_streams [where u = "u\<lparr>uflows := filter (\<lambda>(k, f). \<not> idle t f) (uflows u)\<rparr>" and fs = "filter (idle t) (map snd (uflows u))", folded sweep_unfold, simplified]
  have fl: "gget (uflows ?v) b = (case gget (uflows u) b of None \<Rightarrow> None | Some f \<Rightarrow> if idle t f then None else Some f)" for b
    unfolding cl(1) using gget_filter_val [OF udp_okD(1) [OF assms], of "\<lambda>f. \<not> idle t f" b] by (simp split: option.split)
  have dead: "i \<in> ufStream ` {f \<in> snd ` set (uflows u). idle t f} \<longleftrightarrow> (\<exists>b f. gget (uflows u) b = Some f \<and> idle t f \<and> ufStream f = i)" for i
    using udp_okD(1) [OF assms] gomap_ok_mem by force
  have "udp_ok ?v"
  proof (rule close_ok [OF assms])
    show "gomap_ok (uflows ?v)" unfolding cl(1) using udp_okD(1) [OF assms] by simp
    show "gget (uflows u) b = Some g \<and> usOpen (ustreams ?v ! ufStream g)" if "gget (uflows ?v) b = Some g" for b g
    proof -
      from that have g: "gget (uflows u) b = Some g" "\<not> idle t g" unfolding fl by (auto split: option.splits if_splits)
      then have "ufStream g \<notin> ufStream ` {f \<in> snd ` set (uflows u). idle t f}"
        unfolding dead using flow_inj [OF assms g(1)] by (metis option.inject)
      then show ?thesis using g(1) cl(3) udp_okD(2,3) [OF assms g(1)] by simp
    qed
    show "usInit (ustreams ?v ! j) = usInit (ustreams u ! j)" if "j < length (ustreams u)" for j using cl(3) [OF that] by simp
    show "ustreams ?v ! j = ustreams u ! j \<and> gget (uflows ?v) (siRemoteAddr (usInit (ustreams u ! j))) \<noteq> None"
      if j: "j < length (ustreams u)" "usOpen (ustreams ?v ! j)" for j
    proof -
      from j have alive: "j \<notin> ufStream ` {f \<in> snd ` set (uflows u). idle t f}" and same: "ustreams ?v ! j = ustreams u ! j"
        using cl(3) [OF j(1)] by (auto split: if_splits)
      with j obtain f where f: "gget (uflows u) (siRemoteAddr (usInit (ustreams u ! j))) = Some f" "ufStream f = j"
        using udp_okD(7) [OF assms j(1)] by auto
      with alive have "\<not> idle t f" unfolding dead by blast
      with same f fl show ?thesis by simp
    qed
  qed (rule cl(2))
  moreover have "got a ?v = got a u" using cl(2,3) by (intro got_cong) (simp_all add: received_def)
  ultimately show ?thesis ..
qed

text \<open>Which datagrams are taken: the port is bound, the client has a flow or is given one, and the stream has room for the frame.\<close>

definition takes :: "UdpNet \<Rightarrow> int \<Rightarrow> string \<Rightarrow> byte list \<Rightarrow> Server \<Rightarrow> UDPPort \<Rightarrow> bool" where
  "takes n port key p s u \<longleftrightarrow>
     LookupPort ''udp'' port (hub s) \<noteq> None \<and> (gget (uflows u) key \<noteq> None \<or> unOpen n)
   \<and> (case unRoom n of None \<Rightarrow> True | Some m \<Rightarrow> length p + 2 \<le> m)"

lemma recv_ok:
  assumes "udp_ok u" "length p \<le> 65535"
  shows "udp_ok (snd (recvUDP n port key p s u))
    \<and> got a (snd (recvUDP n port key p s u)) = got a u @ (if a = key \<and> takes n port key p s u then [p] else [])"
proof (cases "LookupPort ''udp'' port (hub s)")
  case None
  then show ?thesis using assms by (simp add: recvUDP_def takes_def)
next
  case bound: (Some t)
  show ?thesis
  proof (cases "flowFor n t key s u")
    case None
    then have "\<not> takes n port key p s u" by (auto simp: flowFor_def takes_def Let_def split: option.splits if_splits)
    then show ?thesis using assms bound None by (simp add: recvUDP_def)
  next
    case (Some q)
    obtain f u1 where q: "q = (f, u1)" by (cases q)
    let ?f = "f\<lparr>lastSeen := now (unEnv n)\<rparr>"
    let ?u = "u1\<lparr>uflows := gset key ?f (uflows u1)\<rparr>"
    have ff: "udp_ok u1" "gget (uflows u1) key = Some f" "got a u1 = got a u" using flowFor_ok [OF assms(1)] Some q by simp_all
    note u = touch_ok [OF ff(1,2)]
    have fl: "gget (uflows ?u) key = Some ?f" "ufStream ?f = ufStream f" "got a ?u = got a u" using ff by (simp_all add: got_def)
    have tk: "takes n port key p s u \<longleftrightarrow> (case unRoom n of None \<Rightarrow> True | Some m \<Rightarrow> length (udp_frame p) \<le> m)"
      using bound Some by (auto simp: takes_def flowFor_def udp_frame_def put_uint16_def split: option.splits if_splits)
    let ?w = "writeUDPFrame stream_write (usOut (ustreams u1 ! ufStream f), unRoom n) p"
    have rc: "recvUDP n port key p s u =
        (case ?w of (Some er, w) \<Rightarrow> (s, upd_stream (ufStream f) (\<lambda>x. x\<lparr>usOut := fst w, usOpen := False\<rparr>) (?u\<lparr>uflows := gdel key (uflows ?u)\<rparr>))
         | (None, w) \<Rightarrow> (recordUsage (unEnv n) t (int (length p)) 0 1 s, upd_stream (ufStream f) (\<lambda>x. x\<lparr>usOut := fst w\<rparr>) ?u))"
      by (simp add: recvUDP_def bound Some q Let_def)
    show ?thesis
    proof (cases "takes n port key p s u")
      case True
      then have "fst ?w = None" "fst (snd ?w) = usOut (ustreams u1 ! ufStream f) @ udp_frame p"
        using tk unfolding write_frame by (auto split: option.splits)
      then have "snd (recvUDP n port key p s u) = upd_stream (ufStream ?f) (\<lambda>x. x\<lparr>usOut := usOut x @ udp_frame p\<rparr>) ?u"
        unfolding rc by (cases ?w) (simp add: upd_stream_def)
      then show ?thesis using write_ok [OF u fl(1) assms(2), of a] fl(3) True by simp
    next
      case False
      then obtain m where m: "unRoom n = Some m" "m < length (udp_frame p)" using tk by (auto split: option.splits)
      then have "fst ?w = Some ErrWrite" "fst (snd ?w) = usOut (ustreams u1 ! ufStream f) @ take m (udp_frame p)"
        unfolding write_frame by simp_all
      then have "snd (recvUDP n port key p s u) =
          upd_stream (ufStream ?f) (\<lambda>x. x\<lparr>usOut := usOut x @ take m (udp_frame p), usOpen := False\<rparr>) (?u\<lparr>uflows := gdel key (uflows ?u)\<rparr>)"
        unfolding rc by (cases ?w) (simp add: upd_stream_def)
      then show ?thesis using write_fail [OF u fl(1) assms(2) m(2), of _ a] fl(3) False by simp
    qed
  qed
qed

lemma recv_charges:
  "fst (recvUDP n port key p s u) =
     (if takes n port key p s u then recordUsage (unEnv n) (the (LookupPort ''udp'' port (hub s))) (int (length p)) 0 1 s else s)"
proof -
  have "length (put_uint16 x) = 2" for x by (simp add: put_uint16_def)
  then show ?thesis
    by (auto simp: recvUDP_def takes_def flowFor_def write_frame udp_frame_def Let_def split: option.splits if_splits)
qed

fun delivered :: "int \<Rightarrow> string \<Rightarrow> udp_ev list \<Rightarrow> UDPPort \<Rightarrow> byte list list" where
  "delivered port a [] u = []"
| "delivered port a (UDatagram n s key p # evs) u =
     (if a = key \<and> takes n port key p s u then [p] else []) @ delivered port a evs (snd (recvUDP n port key p s u))"
| "delivered port a (USweep t # evs) u = delivered port a evs (sweepUDP t u)"
| "delivered port a (UClose # evs) u = []"

lemma serve_ok:
  assumes "udp_ok u" "\<forall>n s k p. UDatagram n s k p \<in> set evs \<longrightarrow> length p \<le> 65535"
  shows "udp_ok (serveUDPTunnel port evs u) \<and> got a (serveUDPTunnel port evs u) = got a u @ delivered port a evs u"
  using assms
proof (induction port evs u rule: serveUDPTunnel.induct)
  case (2 port n s key p evs u)
  have "length p \<le> 65535" using 2(3) by simp
  from recv_ok [OF 2(2) this, of n port key s a] 2(1,3) show ?case by simp
next
  case (3 port t evs u)
  from sweep_ok [OF 3(2), of t a] 3(1,3) show ?case by simp
next
  case (4 port evs u)
  then show ?case by (simp add: udp_ok_def got_def)
qed simp

lemma udp_ok_new: "udp_ok newUDPPort" "got a newUDPPort = []"
  by (simp_all add: udp_ok_def newUDPPort_def got_def)

section \<open>Properties\<close>

text \<open>C9. Datagrams arrive once, whole, in order and apart. On a public UDP port, whatever is sent to it, however the clients interleave, and
  whichever streams cannot be opened or break in the middle of a frame, what the agent reads off the streams opened for one client address, one after the
  other, are exactly the datagrams of that client that were accepted, in the order in which they came. A stream is open only as long as
  it is the stream of its client in the table of flows, so that a client has at most one.\<close>

theorem udp_delivery_exact:
  assumes "\<forall>n s k p. UDatagram n s k p \<in> set evs \<longrightarrow> length p \<le> 65535" "u = serveUDPTunnel port evs newUDPPort"
  shows "concat (map (\<lambda>x. fst (udpRecvLoop (\<lambda>_. True) (usOut x))) (filter (\<lambda>x. siRemoteAddr (usInit x) = a) (ustreams u))) = delivered port a evs newUDPPort
    \<and> (\<forall>i < length (ustreams u). usOpen (ustreams u ! i) \<longleftrightarrow> (\<exists>f. gget (uflows u) (siRemoteAddr (usInit (ustreams u ! i))) = Some f \<and> ufStream f = i))"
proof -
  have ok: "udp_ok u" "got a u = delivered port a evs newUDPPort"
    using serve_ok [OF udp_ok_new(1) assms(1), of port a] by (simp_all add: assms(2) udp_ok_new(2))
  have "concat (map (\<lambda>x. fst (udpRecvLoop (\<lambda>_. True) (usOut x))) (filter (\<lambda>x. siRemoteAddr (usInit x) = a) (ustreams u))) = delivered port a evs newUDPPort"
    using ok(2) by (simp add: got_def received_def [abs_def] of_client_def [abs_def])
  moreover have "usOpen (ustreams u ! i) \<longleftrightarrow> (\<exists>f. gget (uflows u) (siRemoteAddr (usInit (ustreams u ! i))) = Some f \<and> ufStream f = i)"
    if "i < length (ustreams u)" for i
    using that udp_okD(3,7) [OF ok(1)] by blast
  ultimately show ?thesis by blast
qed

definition ex_udp :: Server where
  "ex_udp = ex_s2\<lparr>hub := (hub ex_s2)\<lparr>byPort := [(portKey ''udp'' 5000, 0)]\<rparr>\<rparr>"

definition ex_net :: "nat option \<Rightarrow> UdpNet" where
  "ex_net room = \<lparr>unEnv = ex_env, unOpen = True, unRoom = room\<rparr>"

theorem udp_delivery_exact_witness:
  "concat (map (\<lambda>x. fst (udpRecvLoop (\<lambda>_. True) (usOut x))) (filter (\<lambda>x. siRemoteAddr (usInit x) = ''a'')
     (ustreams (serveUDPTunnel 5000 [UDatagram (ex_net None) ex_udp ''a'' [1], UDatagram (ex_net None) ex_udp ''b'' [9],
        UDatagram (ex_net (Some 2)) ex_udp ''a'' [7], UDatagram (ex_net None) ex_udp ''a'' [2]] newUDPPort)))) = [[1], [2]]"
proof -
  let ?evs = "[UDatagram (ex_net None) ex_udp ''a'' [1], UDatagram (ex_net None) ex_udp ''b'' [9],
    UDatagram (ex_net (Some 2)) ex_udp ''a'' [7], UDatagram (ex_net None) ex_udp ''a'' [2]]"
  have "delivered 5000 ''a'' ?evs newUDPPort = [[1], [2]]"
    by (simp add: takes_def recvUDP_def flowFor_def write_frame ex_net_def ex_udp_def LookupPort_def newUDPPort_def upd_stream_def udp_frame_def
        put_uint16_def Let_def)
  moreover have "\<forall>n s k p. UDatagram n s k p \<in> set ?evs \<longrightarrow> length p \<le> 65535" by auto
  ultimately show ?thesis using udp_delivery_exact [of ?evs _ 5000 "''a''"] by simp
qed

text \<open>Nothing is lost on the way when the port stays bound and the streams neither fail to open nor break.\<close>

lemma udp_lossless:
  assumes "\<forall>ev \<in> set evs. case ev of UDatagram n s k p \<Rightarrow> unOpen n \<and> unRoom n = None \<and> LookupPort ''udp'' port (hub s) \<noteq> None | USweep t \<Rightarrow> True | UClose \<Rightarrow> False"
  shows "delivered port a evs u = concat (map (\<lambda>ev. case ev of UDatagram n s k p \<Rightarrow> if k = a then [p] else [] | _ \<Rightarrow> []) evs)"
  using assms
proof (induction port a evs u rule: delivered.induct)
  case (2 port a n s key p evs u)
  then have "takes n port key p s u" by (auto simp: takes_def)
  with 2 show ?case by simp
qed simp_all

text \<open>A sweep leaves exactly the flows seen within the last minute.\<close>

lemma sweep_exact:
  assumes "udp_ok u"
  shows "gget (uflows (sweepUDP t u)) a = Some f \<longleftrightarrow> gget (uflows u) a = Some f \<and> t - lastSeen f \<le> udpIdleTimeout"
proof -
  have "uflows (sweepUDP t u) = filter (\<lambda>(k, f). \<not> idle t f) (uflows u)" unfolding sweep_unfold close_streams(1) by simp
  then show ?thesis
    using gget_filter_val [OF udp_okD(1) [OF assms], of "\<lambda>f. \<not> idle t f" a] by (auto simp: idle_def not_less split: option.splits if_splits)
qed

text \<open>When the port is released the loop returns and leaves the streams of its flows open: nothing closes them before the session of the agent ends.\<close>

lemma released_port_leaves_streams_open:
  assumes "udp_ok u" "gget (uflows u) a = Some f"
  shows "usOpen (ustreams (serveUDPTunnel port (UClose # evs) u) ! ufStream f)"
  using udp_okD(3) [OF assms] by simp

text \<open>What a weld carries: each side gets a prefix of what the other sent, and that is what is charged.\<close>

lemma weld_run:
  "wUp (foldl weld_step w evs) @ wUpIn (foldl weld_step w evs) = wUp w @ wUpIn w
   \<and> wDown (foldl weld_step w evs) @ wDownIn (foldl weld_step w evs) = wDown w @ wDownIn w"
proof (induction evs arbitrary: w)
  case (Cons ev evs)
  show ?case using Cons [of "weld_step w ev"] by (cases ev) simp_all
qed simp

lemma rawJoin_exact:
  assumes "rawJoin evs up down = (w, nu, nd)"
  shows "wUp w @ wUpIn w = up" "wDown w @ wDownIn w = down" "nu = int (length (wUp w))" "nd = int (length (wDown w))"
  using assms weld_run [of "newWeld up down" evs] by (auto simp: rawJoin_def newWeld_def Let_def)

text \<open>The end of either direction ends both: a client that stops sending before it has read the answer loses the rest of it.\<close>

lemma half_close_ends_both: "wDown (fst (rawJoin (EndUp # evs) up down)) = []"
proof -
  have "\<not> wOpen w \<Longrightarrow> foldl weld_step w evs = w" for w :: Weld
  proof (induction evs arbitrary: w)
    case (Cons ev evs)
    then have "weld_step w ev = w" by (cases ev) simp_all
    with Cons show ?case by simp
  qed simp
  then show ?thesis by (simp add: rawJoin_def newWeld_def Let_def)
qed

lemma accepted_conn_charged:
  assumes "acceptTCPTunnel e ok evs port remote up down s = (RawWelded t si w, s')"
  shows "LookupPort ''tcp'' port (hub s) = Some t \<and> siClientTunnelId si = clientTunnelID (bts s t) \<and> siRemoteAddr si = remote
    \<and> s' = recordUsage e t (int (length (wUp w))) (int (length (wDown w))) 1 s"
  using assms rawJoin_exact(3,4) [of evs up down]
  by (auto simp: acceptTCPTunnel_def weldRawConn_def rawInit_def split: option.splits if_splits prod.splits)

end
