(* ===== verification/SelfUpdate.thy ===== *)
theory SelfUpdate
  imports Agent Config
begin

text \<open>
  The self-update of the command line (\<^verbatim>\<open>internal/agent/cli/update.go\<close>, \<^verbatim>\<open>sigstore.go\<close> and \<^verbatim>\<open>selfUpdate\<close> of \<^verbatim>\<open>dashboard.go\<close>): the choice
  of a release, the download, the checks of signature and checksum, and the swap of the running binary.

  GitHub, SHA-256, the archive formats and the Sigstore library are parameters (\<open>UpdEnv\<close>, \<open>sigstore_lib\<close>). The file system is a map from
  paths to contents with permission bits; every system call can fail. The swap yields the states the file system passes through, so
  that a crash between two calls is one of them.
\<close>

section \<open>Versions\<close>

definition index_any :: "char set \<Rightarrow> string \<Rightarrow> string" where
  "index_any cs = takeWhile (\<lambda>c. c \<notin> cs)"

definition parseSemver :: "string \<Rightarrow> (int \<times> int \<times> int) option" where
  "parseSemver v =
     (let v = index_any {CHR ''-'', CHR ''+''} (trim_prefix (trim_space v) ''v'') in
      case map atoi (split_byte CHR ''.'' v) of
        [Some a, Some b, Some c] \<Rightarrow> if a < 0 \<or> b < 0 \<or> c < 0 then None else Some (a, b, c)
      | _ \<Rightarrow> None)"

definition compareVersions :: "string \<Rightarrow> string \<Rightarrow> int \<times> bool" where
  "compareVersions a b =
     (case (parseSemver a, parseSemver b) of
        (Some (a1, a2, a3), Some (b1, b2, b3)) \<Rightarrow>
          (if a1 \<noteq> b1 then (if a1 > b1 then 1 else -1)
           else if a2 \<noteq> b2 then (if a2 > b2 then 1 else -1)
           else if a3 \<noteq> b3 then (if a3 > b3 then 1 else -1)
           else 0, True)
      | _ \<Rightarrow> (0, False))"

section \<open>Downloading\<close>

record gh_release =
  TagName :: string
  Draft :: bool
  Prerelease :: bool

record http_resp =
  hrStatus :: int
  hrRateRemaining :: string
  hrBody :: "string + byte list"

record tar_entry =
  teReg :: bool
  teName :: string
  teData :: "string + byte list"

record UpdEnv =
  ueVersion :: string
  ueGOOS :: string
  ueGOARCH :: string
  ueGet :: "string \<Rightarrow> string \<Rightarrow> string + http_resp"
  ueReleases :: "byte list \<Rightarrow> string + gh_release list"
  ueSha256 :: "byte list \<Rightarrow> byte list"
  ueZip :: "byte list \<Rightarrow> string + (string \<times> (string + byte list)) list"
  ueGunzip :: "byte list \<Rightarrow> string + byte list"
  ueTar :: "byte list \<Rightarrow> tar_entry list \<times> string option"
  ueExecutable :: "string + string"
  ueEvalSymlinks :: "string \<Rightarrow> string option"

definition updateRepo :: string where
  "updateRepo = ''uzcreator/trqshcli''"

definition updateMaxBytes :: nat where
  "updateMaxBytes = 200 * 2 ^ 20"

definition updateReleasesAPIURL :: string where
  "updateReleasesAPIURL = ''https://api.github.com/repos/'' @ updateRepo @ ''/releases?per_page=30''"

definition updateDownloadBase :: string where
  "updateDownloadBase = ''https://github.com/'' @ updateRepo @ ''/releases/download''"

definition fetchURL :: "UpdEnv \<Rightarrow> string \<Rightarrow> string \<Rightarrow> string + byte list" where
  "fetchURL e url accept =
     (case ueGet e url accept of
        Inl er \<Rightarrow> Inl er
      | Inr resp \<Rightarrow>
          if hrStatus resp \<noteq> 200 then
            if hrStatus resp = 403 \<and> hrRateRemaining resp = ''0''
            then Inl (''GitHub API rate limit hit '' @ emdash @ '' try again in a few minutes, or check https://github.com/'' @ updateRepo @ ''/releases directly'')
            else Inl (''status '' @ show_int (hrStatus resp) @ '' for '' @ url)
          else map_sum (\<lambda>er. er) (take updateMaxBytes) (hrBody resp))"

definition latestCLIVersion :: "UpdEnv \<Rightarrow> string + string" where
  "latestCLIVersion e =
     (case fetchURL e updateReleasesAPIURL ''application/vnd.github+json'' of
        Inl er \<Rightarrow> Inl er
      | Inr data \<Rightarrow>
          (case ueReleases e data of
             Inl er \<Rightarrow> Inl er
           | Inr rels \<Rightarrow>
               (case find (\<lambda>r. \<not> (Draft r \<or> Prerelease r) \<and> has_prefix (TagName r) ''v'' \<and> \<not> has_prefix (TagName r) ''desktop-v'') rels of
                  Some r \<Rightarrow> Inr (trim_prefix (TagName r) ''v'')
                | None \<Rightarrow> Inl ''no published CLI release found'')))"

section \<open>Verification\<close>

definition releaseCertIdentityRegexp :: string where
  "releaseCertIdentityRegexp = ''https://github.com/uzcreator/trqsh/.*''"

definition releaseCertOIDCIssuer :: string where
  "releaseCertOIDCIssuer = ''https://token.actions.githubusercontent.com''"

record ('root, 'vf, 'b, 'i) sigstore_lib =
  FetchTrustedRoot :: "string + 'root"
  NewVerifier :: "'root \<Rightarrow> nat \<Rightarrow> nat \<Rightarrow> nat \<Rightarrow> string + 'vf"
  UnmarshalBundle :: "byte list \<Rightarrow> string + 'b"
  NewShortCertificateIdentity :: "string \<Rightarrow> string \<Rightarrow> string \<Rightarrow> string \<Rightarrow> string + 'i"
  Verify :: "'vf \<Rightarrow> 'b \<Rightarrow> byte list \<Rightarrow> 'i \<Rightarrow> string + unit"

definition verifySigstoreBundle :: "('root, 'vf, 'b, 'i) sigstore_lib \<Rightarrow> byte list \<Rightarrow> byte list \<Rightarrow> string option" where
  "verifySigstoreBundle L checksumsData sigstoreJSON =
     (case FetchTrustedRoot L of
        Inl er \<Rightarrow> Some (''fetch sigstore trusted root: '' @ er)
      | Inr root \<Rightarrow>
     (case NewVerifier L root 1 1 1 of
        Inl er \<Rightarrow> Some (''build sigstore verifier: '' @ er)
      | Inr vf \<Rightarrow>
     (case UnmarshalBundle L sigstoreJSON of
        Inl er \<Rightarrow> Some (''parse checksums.txt.sigstore.json: '' @ er)
      | Inr b \<Rightarrow>
     (case NewShortCertificateIdentity L releaseCertOIDCIssuer [] [] releaseCertIdentityRegexp of
        Inl er \<Rightarrow> Some (''build certificate identity: '' @ er)
      | Inr certID \<Rightarrow>
     (case Verify L vf b checksumsData certID of
        Inl er \<Rightarrow> Some (''sigstore verification failed: '' @ er)
      | Inr u \<Rightarrow> None)))))"

definition str_of_bytes :: "byte list \<Rightarrow> string" where
  "str_of_bytes = map (\<lambda>b. char_of (unat b))"

text \<open>\<^verbatim>\<open>strings.Fields\<close>.\<close>

definition str_fields :: "string \<Rightarrow> string list" where
  "str_fields s = filter (\<lambda>w. w \<noteq> []) (split_byte CHR '' '' (map (\<lambda>c. if is_space c then CHR '' '' else c) s))"

fun checksum_line :: "string \<Rightarrow> string list \<Rightarrow> string" where
  "checksum_line archive [] = []"
| "checksum_line archive (line # ls) =
     (case str_fields line of
        [sm, nm] \<Rightarrow> if trim_prefix nm ''*'' = archive then to_lower sm else checksum_line archive ls
      | _ \<Rightarrow> checksum_line archive ls)"

definition verifyChecksum :: "(byte list \<Rightarrow> byte list) \<Rightarrow> byte list \<Rightarrow> string \<Rightarrow> string \<Rightarrow> string option" where
  "verifyChecksum sha data archive sums =
     (let want = checksum_line archive (split_byte (CHR 0x0A) sums) in
      if want = [] then Some (archive @ '' not listed in checksums.txt'')
      else
        let got = hex_encode (sha data) in
        if got \<noteq> want then Some (''checksum mismatch for '' @ archive @ [CHR 0x0A] @ ''  expected '' @ want @ [CHR 0x0A] @ ''  got      '' @ got)
        else None)"

text \<open>\<^verbatim>\<open>filepath.Base\<close>; on Windows a drive letter is dropped and a backslash separates as well.\<close>

definition is_sep :: "string \<Rightarrow> char \<Rightarrow> bool" where
  "is_sep goos c \<longleftrightarrow> c = CHR ''/'' \<or> goos = ''windows'' \<and> c = CHR 0x5C"

definition base_name :: "string \<Rightarrow> string \<Rightarrow> string" where
  "base_name goos p =
     (let p1 = rev (dropWhile (is_sep goos) (rev p));
          p2 = (if goos = ''windows'' \<and> 2 \<le> length p1 \<and> p1 ! 1 = CHR '':'' then drop 2 p1 else p1)
      in if p = [] then ''.''
         else if p2 = [] then (if goos = ''windows'' then [CHR 0x5C] else ''/'')
         else rev (takeWhile (\<lambda>c. \<not> is_sep goos c) (rev p2)))"

definition extractBinaryFromArchive :: "UpdEnv \<Rightarrow> byte list \<Rightarrow> string \<Rightarrow> string \<Rightarrow> string + byte list" where
  "extractBinaryFromArchive e data ext binName =
     (if ext = ''zip'' then
        (case ueZip e data of
           Inl er \<Rightarrow> Inl er
         | Inr files \<Rightarrow>
             (case find (\<lambda>f. base_name (ueGOOS e) (fst f) = binName) files of
                None \<Rightarrow> Inl (binName @ '' not found in archive'')
              | Some f \<Rightarrow> map_sum (\<lambda>er. er) (take updateMaxBytes) (snd f)))
      else
        (case ueGunzip e data of
           Inl er \<Rightarrow> Inl er
         | Inr tar \<Rightarrow>
             (case ueTar e tar of
                (entries, end_err) \<Rightarrow>
                  (case find (\<lambda>t. teReg t \<and> base_name (ueGOOS e) (teName t) = binName) entries of
                     Some t \<Rightarrow> map_sum (\<lambda>er. er) (take updateMaxBytes) (teData t)
                   | None \<Rightarrow> (case end_err of Some er \<Rightarrow> Inl er | None \<Rightarrow> Inl (binName @ '' not found in archive''))))))"

section \<open>The swap\<close>

type_synonym fs = "string \<rightharpoonup> byte list \<times> nat"

text \<open>An error of the operating system, with whether it is \<^verbatim>\<open>os.ErrPermission\<close>.\<close>

type_synonym os_error = "string \<times> bool"

record OsEnv =
  osTemp :: "os_error + string"
  osWrite :: "(string \<times> nat) option"
  osClose :: "string option"
  osChmod :: "string option"
  osAside :: "os_error option"
  osRename :: "os_error option"
  osRevert :: bool
  osRemove :: "string \<Rightarrow> bool"

definition fs_rename :: "string \<Rightarrow> string \<Rightarrow> fs \<Rightarrow> fs" where
  "fs_rename a b f = f(a := None, b := f a)"

definition fs_remove :: "OsEnv \<Rightarrow> string \<Rightarrow> fs \<Rightarrow> fs" where
  "fs_remove oe a f = (if osRemove oe a then f(a := None) else f)"

definition permissionHint :: "string \<Rightarrow> os_error \<Rightarrow> string" where
  "permissionHint goos er =
     (if \<not> snd er then fst er
      else if goos = ''windows'' then fst er @ '' (try running from an elevated/Administrator terminal)''
      else fst er @ '' (try `sudo trqsh update`, or reinstall to a directory you own)'')"

definition firstErr :: "string option list \<Rightarrow> string" where
  "firstErr es = (case find (\<lambda>x. x \<noteq> None) es of Some (Some er) \<Rightarrow> er | _ \<Rightarrow> [])"

definition wrap :: "string \<Rightarrow> os_error \<Rightarrow> os_error" where
  "wrap what er = (what @ '': '' @ fst er, snd er)"

text \<open>The result, and the states of the file system after each call.\<close>

definition replaceBinary :: "string \<Rightarrow> OsEnv \<Rightarrow> string \<Rightarrow> byte list \<Rightarrow> fs \<Rightarrow> string option \<times> fs list" where
  "replaceBinary goos oe target newData f0 =
     (case osTemp oe of
        Inl er \<Rightarrow> (Some (''create temp file next to '' @ target @ '': '' @ fst er), [f0])
      | Inr tmp \<Rightarrow>
          let f1 = f0(tmp \<mapsto> ([], 0x180));
              f2 = f0(tmp \<mapsto> (case osWrite oe of None \<Rightarrow> newData | Some (er, n) \<Rightarrow> take n newData, 0x180))
          in
          if osWrite oe \<noteq> None \<or> osClose oe \<noteq> None then
            (Some (''write new binary: '' @ firstErr [map_option fst (osWrite oe), osClose oe]), [f0, f1, f2, fs_remove oe tmp f2])
          else
            (case osChmod oe of
               Some er \<Rightarrow> (Some (''chmod new binary: '' @ er), [f0, f1, f2, fs_remove oe tmp f2])
             | None \<Rightarrow>
                 let f3 = f2(tmp \<mapsto> (newData, 0x1ED)) in
                 if goos = ''windows'' then
                   let old = target @ ''.old''; f4 = fs_remove oe old f3 in
                   (case osAside oe of
                      Some er \<Rightarrow> (Some (permissionHint goos (wrap (''replace '' @ target) er)), [f0, f1, f2, f3, f4, fs_remove oe tmp f4])
                    | None \<Rightarrow>
                        let f5 = fs_rename target old f4 in
                        (case osRename oe of
                           Some er \<Rightarrow>
                             (Some (permissionHint goos (wrap (''replace '' @ target) er)),
                              [f0, f1, f2, f3, f4, f5, if osRevert oe then fs_rename old target f5 else f5])
                         | None \<Rightarrow>
                             let f6 = fs_rename tmp target f5 in (None, [f0, f1, f2, f3, f4, f5, f6, fs_remove oe old f6])))
                 else
                   (case osRename oe of
                      Some er \<Rightarrow> (Some (permissionHint goos (wrap (''replace '' @ target) er)), [f0, f1, f2, f3, fs_remove oe tmp f3])
                    | None \<Rightarrow> (None, [f0, f1, f2, f3, fs_rename tmp target f3]))))"

section \<open>Update\<close>

definition archiveName :: "UpdEnv \<Rightarrow> string \<Rightarrow> string" where
  "archiveName e version =
     ''trqsh_'' @ version @ ''_'' @ ueGOOS e @ ''_'' @ ueGOARCH e @ ''.'' @ (if ueGOOS e = ''windows'' then ''zip'' else ''tar.gz'')"

definition downloadVerified :: "('root, 'vf, 'b, 'i) sigstore_lib \<Rightarrow> UpdEnv \<Rightarrow> string \<Rightarrow> string + byte list" where
  "downloadVerified L e version =
     (let ext = (if ueGOOS e = ''windows'' then ''zip'' else ''tar.gz'');
          binName = (if ueGOOS e = ''windows'' then ''trqsh.exe'' else ''trqsh'');
          archive = archiveName e version;
          base = updateDownloadBase @ ''/v'' @ version
      in
      case fetchURL e (base @ ''/'' @ archive) [] of
        Inl er \<Rightarrow> Inl (''download '' @ archive @ '': '' @ er)
      | Inr data \<Rightarrow>
     (case fetchURL e (base @ ''/checksums.txt'') [] of
        Inl er \<Rightarrow> Inl (''download checksums.txt: '' @ er)
      | Inr sums \<Rightarrow>
     (case fetchURL e (base @ ''/checksums.txt.sigstore.json'') [] of
        Inl er \<Rightarrow> Inl (''download checksums.txt.sigstore.json: '' @ er)
      | Inr sigstoreBundle \<Rightarrow>
     (case verifySigstoreBundle L sums sigstoreBundle of
        Some er \<Rightarrow> Inl (''sigstore signature: '' @ er)
      | None \<Rightarrow>
     (case verifyChecksum (ueSha256 e) data archive (str_of_bytes sums) of
        Some er \<Rightarrow> Inl er
      | None \<Rightarrow> map_sum (\<lambda>er. ''extract '' @ binName @ '': '' @ er) (\<lambda>b. b) (extractBinaryFromArchive e data ext binName))))))"

definition installUpdate ::
  "('root, 'vf, 'b, 'i) sigstore_lib \<Rightarrow> UpdEnv \<Rightarrow> OsEnv \<Rightarrow> string \<Rightarrow> string \<Rightarrow> fs \<Rightarrow> string option \<times> fs list" where
  "installUpdate L e oe version target f =
     (case downloadVerified L e version of
        Inl er \<Rightarrow> (Some er, [f])
      | Inr binData \<Rightarrow> replaceBinary (ueGOOS e) oe target binData f)"

definition runningBinaryPath :: "UpdEnv \<Rightarrow> string + string" where
  "runningBinaryPath e =
     (case ueExecutable e of
        Inl er \<Rightarrow> Inl (''locate running binary: '' @ er)
      | Inr target \<Rightarrow> Inr (case ueEvalSymlinks e target of Some resolved \<Rightarrow> resolved | None \<Rightarrow> target))"

definition arrow :: string where
  "arrow = [CHR 0x20, CHR 0xE2, CHR 0x86, CHR 0x92, CHR 0x20]"

definition selfUpdate ::
  "('root, 'vf, 'b, 'i) sigstore_lib \<Rightarrow> UpdEnv \<Rightarrow> OsEnv \<Rightarrow> fs \<Rightarrow> (string + string) \<times> fs list" where
  "selfUpdate L e oe f =
     (let current = ueVersion e in
      if current = '''' \<or> current = ''dev''
      then (Inl (''this is a dev build '' @ emdash @ '' install a release from https://trqsh.uz/download''), [f])
      else
        case latestCLIVersion e of
          Inl er \<Rightarrow> (Inl er, [f])
        | Inr latest \<Rightarrow>
            (case compareVersions latest current of
               (c, ok) \<Rightarrow>
                 if \<not> ok \<or> c \<le> 0 then (Inr (''trqsh '' @ current @ '' is already the latest''), [f])
                 else
                   (case runningBinaryPath e of
                      Inl er \<Rightarrow> (Inl er, [f])
                    | Inr target \<Rightarrow>
                        (case installUpdate L e oe latest target f of
                           (Some er, fs) \<Rightarrow> (Inl er, fs)
                         | (None, fs) \<Rightarrow> (Inr (''updated trqsh '' @ current @ arrow @ latest), fs)))))"

section \<open>The order of versions\<close>

lemma compareVersions_swap: "compareVersions b a = map_prod uminus (\<lambda>ok. ok) (compareVersions a b)"
  by (auto simp: compareVersions_def split: option.split)

lemma compareVersions_trans:
  assumes "compareVersions a b = (1, True)" "compareVersions b c = (1, True)"
  shows "compareVersions a c = (1, True)"
  using assms by (auto simp: compareVersions_def split: option.splits if_splits)

section \<open>The swap is atomic\<close>

lemma swap_states:
  assumes "\<And>tmp. osTemp oe = Inr tmp \<Longrightarrow> g tmp = None" "g target \<noteq> None" "f \<in> set (snd (replaceBinary goos oe target bin g))"
  shows "f target = g target \<or> f target = Some (bin, 0x1ED) \<or> goos = ''windows'' \<and> f target = None"
  using assms
  by (auto simp: replaceBinary_def fs_remove_def fs_rename_def Let_def split: sum.splits if_splits option.splits)

lemma swap_frame:
  assumes "f \<in> set (snd (replaceBinary goos oe target bin g))" "f p \<noteq> g p"
  shows "p = target \<or> osTemp oe = Inr p \<or> goos = ''windows'' \<and> p = target @ ''.old''"
  using assms
  by (auto simp: replaceBinary_def fs_remove_def fs_rename_def Let_def split: sum.splits if_splits option.splits)

lemma swap_result:
  assumes "\<And>tmp. osTemp oe = Inr tmp \<Longrightarrow> g tmp = None" "g target \<noteq> None" "goos \<noteq> ''windows''"
  shows "last (snd (replaceBinary goos oe target bin g)) target =
    (if fst (replaceBinary goos oe target bin g) = None then Some (bin, 0x1ED) else g target)"
  using assms by (auto simp: replaceBinary_def fs_remove_def fs_rename_def Let_def split: sum.splits if_splits option.splits)

section \<open>Properties\<close>

definition verified_release :: "('root, 'vf, 'b, 'i) sigstore_lib \<Rightarrow> UpdEnv \<Rightarrow> string \<Rightarrow> byte list \<Rightarrow> bool" where
  "verified_release L e version bin \<longleftrightarrow>
     (\<exists>data sums bundle.
        fetchURL e (updateDownloadBase @ ''/v'' @ version @ ''/'' @ archiveName e version) [] = Inr data
      \<and> fetchURL e (updateDownloadBase @ ''/v'' @ version @ ''/checksums.txt'') [] = Inr sums
      \<and> fetchURL e (updateDownloadBase @ ''/v'' @ version @ ''/checksums.txt.sigstore.json'') [] = Inr bundle
      \<and> verifySigstoreBundle L sums bundle = None
      \<and> hex_encode (ueSha256 e data) = checksum_line (archiveName e version) (split_byte (CHR 0x0A) (str_of_bytes sums))
      \<and> extractBinaryFromArchive e data (if ueGOOS e = ''windows'' then ''zip'' else ''tar.gz'') (if ueGOOS e = ''windows'' then ''trqsh.exe'' else ''trqsh'') = Inr bin)"

lemma map_sum_Inr: "map_sum f (\<lambda>b. b) x = Inr y \<longleftrightarrow> x = Inr y"
  by (cases x) simp_all

lemma downloaded_is_verified: "downloadVerified L e version = Inr bin \<Longrightarrow> verified_release L e version bin"
  unfolding downloadVerified_def verified_release_def verifyChecksum_def
  by (auto simp: Let_def map_sum_Inr split: sum.splits option.splits if_splits)

text \<open>A run either leaves the file system alone or is the swap of a verified release that is newer than the running program.\<close>

lemma selfUpdate_cases:
  assumes "runningBinaryPath e = Inr target"
  obtains "snd (selfUpdate L e oe f0) = [f0]"
  | latest bin where "latestCLIVersion e = Inr latest" "compareVersions latest (ueVersion e) = (1, True)" "verified_release L e latest bin"
      "snd (selfUpdate L e oe f0) = snd (replaceBinary (ueGOOS e) oe target bin f0)"
      "fst (replaceBinary (ueGOOS e) oe target bin f0) = None \<longleftrightarrow> (\<exists>msg. fst (selfUpdate L e oe f0) = Inr msg)"
proof (cases "ueVersion e = '''' \<or> ueVersion e = ''dev''")
  case True
  then show ?thesis using that(1) by (auto simp: selfUpdate_def Let_def)
next
  case False
  show ?thesis
  proof (cases "latestCLIVersion e")
    case (Inl er)
    then show ?thesis using that(1) False by (simp add: selfUpdate_def Let_def)
  next
    case latest: (Inr latest)
    show ?thesis
    proof (cases "compareVersions latest (ueVersion e) = (1, True)")
      case older: False
      then have "\<not> snd (compareVersions latest (ueVersion e)) \<or> fst (compareVersions latest (ueVersion e)) \<le> 0"
        by (auto simp: compareVersions_def split: option.splits if_splits)
      then show ?thesis using that(1) False latest by (cases "compareVersions latest (ueVersion e)") (auto simp: selfUpdate_def Let_def)
    next
      case newer: True
      show ?thesis
      proof (cases "downloadVerified L e latest")
        case (Inl er)
        then show ?thesis using that(1) False latest newer assms by (simp add: selfUpdate_def installUpdate_def Let_def)
      next
        case (Inr bin)
        then show ?thesis
          using that(2) [OF latest newer downloaded_is_verified [OF Inr]] False latest newer assms
          by (cases "replaceBinary (ueGOOS e) oe target bin f0") (auto simp: selfUpdate_def installUpdate_def Let_def split: option.splits)
      qed
    qed
  qed
qed

text \<open>C39. Only signed, newer releases replace the program. Whatever GitHub answers and wherever the machine fails or stops
  during an update, the file of the program is the old one, or, complete and executable, the binary taken (up to its
  first 200 MiB) from an archive whose checksum is listed in a checksum file that the Sigstore verifier accepts for the
  release workflow, of a version greater than the running one, or, on Windows only, it is missing: there it is moved aside
  first, and it stays away if the machine stops there or both the second move and the way back fail. Besides it an update
  touches only its temporary file and, on Windows, the file it moves the old program to. Off Windows an update that reports an error has
  left every file as it was, except that the temporary file may remain. The temporary file is a new one.\<close>

theorem update_installs_only_verified:
  assumes "runningBinaryPath e = Inr target" "g target \<noteq> None" "\<And>tmp. osTemp oe = Inr tmp \<Longrightarrow> g tmp = None"
  shows "(\<forall>f \<in> set (snd (selfUpdate L e oe g)). f target = g target \<or> ueGOOS e = ''windows'' \<and> f target = None
      \<or> (\<exists>latest bin. latestCLIVersion e = Inr latest \<and> compareVersions latest (ueVersion e) = (1, True) \<and> verified_release L e latest bin
           \<and> f target = Some (bin, 0x1ED)))
    \<and> (\<forall>f \<in> set (snd (selfUpdate L e oe g)). \<forall>p. f p \<noteq> g p \<longrightarrow>
         p = target \<or> osTemp oe = Inr p \<or> ueGOOS e = ''windows'' \<and> p = target @ ''.old'')
    \<and> (ueGOOS e \<noteq> ''windows'' \<longrightarrow> (\<exists>er. fst (selfUpdate L e oe g) = Inl er) \<longrightarrow>
         (\<forall>p. osTemp oe \<noteq> Inr p \<longrightarrow> last (snd (selfUpdate L e oe g)) p = g p))"
proof (cases rule: selfUpdate_cases [OF assms(1), of L oe g])
  case 1
  then show ?thesis by simp
next
  case (2 latest bin)
  note at = assms(3,2)
  have "f target = g target \<or> f target = Some (bin, 0x1ED) \<or> ueGOOS e = ''windows'' \<and> f target = None" if "f \<in> set (snd (selfUpdate L e oe g))" for f
    using that swap_states [where oe = oe and g = g and target = target and f = f, OF at, of "ueGOOS e" bin] unfolding 2(4) by blast
  moreover have "p = target \<or> osTemp oe = Inr p \<or> ueGOOS e = ''windows'' \<and> p = target @ ''.old''"
    if "f \<in> set (snd (selfUpdate L e oe g))" "f p \<noteq> g p" for f p
    using that swap_frame [where oe = oe and g = g and target = target and f = f and p = p, of "ueGOOS e" bin] unfolding 2(4) by blast
  moreover have "last (snd (selfUpdate L e oe g)) p = g p"
    if "ueGOOS e \<noteq> ''windows''" "fst (selfUpdate L e oe g) = Inl er" "osTemp oe \<noteq> Inr p" for er p
  proof (cases "p = target")
    case True
    with that 2(4,5) swap_result [where oe = oe and g = g and target = target, OF at, of "ueGOOS e" bin] show ?thesis by (auto split: if_splits)
  next
    case False
    have "snd (selfUpdate L e oe g) \<noteq> []" unfolding 2(4) by (auto simp: replaceBinary_def Let_def split: sum.splits option.splits)
    then have "last (snd (selfUpdate L e oe g)) \<in> set (snd (selfUpdate L e oe g))" by simp
    with swap_frame [where oe = oe and g = g and target = target and p = p and goos = "ueGOOS e" and bin = bin] False that show ?thesis unfolding 2(4) by blast
  qed
  ultimately show ?thesis using 2(1-3) by blast
qed

definition ex_sums :: string where
  "ex_sums = ''01  trqsh_1.1.0_linux_amd64.tar.gz''"

definition ex_upd :: UpdEnv where
  "ex_upd = \<lparr>ueVersion = ''1.0.0'', ueGOOS = ''linux'', ueGOARCH = ''amd64'',
     ueGet = (\<lambda>url accept. Inr \<lparr>hrStatus = 200, hrRateRemaining = [], hrBody = Inr (if has_suffix url ''/checksums.txt'' then map (\<lambda>c. word_of_nat (of_char c)) ex_sums else [])\<rparr>),
     ueReleases = (\<lambda>_. Inr [\<lparr>TagName = ''v1.2.0-rc1'', Draft = False, Prerelease = True\<rparr>, \<lparr>TagName = ''v1.1.0'', Draft = False, Prerelease = False\<rparr>]),
     ueSha256 = (\<lambda>_. [1]), ueZip = (\<lambda>_. Inl []), ueGunzip = Inr, ueTar = (\<lambda>_. ([\<lparr>teReg = True, teName = ''trqsh'', teData = Inr [7]\<rparr>], None)),
     ueExecutable = Inr ''/bin/trqsh'', ueEvalSymlinks = (\<lambda>_. None)\<rparr>"

definition ex_sig :: "(unit, unit, unit, unit) sigstore_lib" where
  "ex_sig = \<lparr>FetchTrustedRoot = Inr (), NewVerifier = (\<lambda>_ _ _ _. Inr ()), UnmarshalBundle = (\<lambda>_. Inr ()),
     NewShortCertificateIdentity = (\<lambda>_ _ _ _. Inr ()), Verify = (\<lambda>_ _ _ _. Inr ())\<rparr>"

definition ex_os :: OsEnv where
  "ex_os = \<lparr>osTemp = Inr ''/bin/.trqsh-update-1'', osWrite = None, osClose = None, osChmod = None, osAside = None, osRename = None,
     osRevert = True, osRemove = (\<lambda>_. True)\<rparr>"

definition ex_fs :: fs where
  "ex_fs = [''/bin/trqsh'' \<mapsto> ([5], 0x1ED)]"

lemma ex_update:
  "latestCLIVersion ex_upd = Inr ''1.1.0''" "compareVersions ''1.1.0'' ''1.0.0'' = (1, True)" "downloadVerified ex_sig ex_upd ''1.1.0'' = Inr [7]"
proof -
  have find: "find (\<lambda>r. \<not> (Draft r \<or> Prerelease r) \<and> has_prefix (TagName r) ''v'' \<and> \<not> has_prefix (TagName r) ''desktop-v'')
      [\<lparr>TagName = ''v1.2.0-rc1'', Draft = False, Prerelease = True\<rparr>, \<lparr>TagName = ''v1.1.0'', Draft = False, Prerelease = False\<rparr>] =
      Some \<lparr>TagName = ''v1.1.0'', Draft = False, Prerelease = False\<rparr>" "trim_prefix ''v1.1.0'' ''v'' = ''1.1.0''" by code_simp+
  show "compareVersions ''1.1.0'' ''1.0.0'' = (1, True)" by code_simp
  have take: "length xs \<le> 99 \<Longrightarrow> take updateMaxBytes xs = xs" for xs :: "byte list" by (simp add: updateMaxBytes_def)
  have suffix: "has_suffix updateReleasesAPIURL ''/checksums.txt'' = False" "has_suffix (updateDownloadBase @ ''/v1.1.0/checksums.txt'') ''/checksums.txt''"
    "has_suffix (updateDownloadBase @ ''/v1.1.0/checksums.txt.sigstore.json'') ''/checksums.txt'' = False"
    "has_suffix (updateDownloadBase @ ''/v1.1.0/trqsh_1.1.0_linux_amd64.tar.gz'') ''/checksums.txt'' = False" by code_simp+
  have fetch: "fetchURL ex_upd url accept = Inr (if has_suffix url ''/checksums.txt'' then map (\<lambda>c. word_of_nat (of_char c)) ex_sums else [])" for url accept
    by (simp add: fetchURL_def ex_upd_def take ex_sums_def)
  show "latestCLIVersion ex_upd = Inr ''1.1.0''"
    unfolding latestCLIVersion_def fetch using find by (simp add: ex_upd_def)
  have archive: "archiveName ex_upd ''1.1.0'' = ''trqsh_1.1.0_linux_amd64.tar.gz''" by (simp add: archiveName_def ex_upd_def)
  have "checksum_line ''trqsh_1.1.0_linux_amd64.tar.gz'' (split_byte (CHR 0x0A) (str_of_bytes (map (\<lambda>c. word_of_nat (of_char c)) ex_sums))) = ''01''"
    by code_simp
  moreover have "hex_encode [1] = ''01''" by code_simp
  moreover have "base_name ''linux'' ''trqsh'' = ''trqsh''" by code_simp
  ultimately show "downloadVerified ex_sig ex_upd ''1.1.0'' = Inr [7]"
    using suffix take [of "[7]"] unfolding downloadVerified_def fetch Let_def archive
    by (simp add: verifySigstoreBundle_def ex_sig_def verifyChecksum_def extractBinaryFromArchive_def ex_upd_def Let_def)
qed

theorem update_installs_only_verified_witness:
  "fst (selfUpdate ex_sig ex_upd ex_os ex_fs) = Inr (''updated trqsh 1.0.0'' @ arrow @ ''1.1.0'')
   \<and> last (snd (selfUpdate ex_sig ex_upd ex_os ex_fs)) ''/bin/trqsh'' = Some ([7], 0x1ED)
   \<and> (\<exists>latest. latestCLIVersion ex_upd = Inr latest \<and> verified_release ex_sig ex_upd latest [7])"
proof -
  have run: "runningBinaryPath ex_upd = Inr ''/bin/trqsh''" by (simp add: runningBinaryPath_def ex_upd_def)
  have "ueVersion ex_upd = ''1.0.0''" "ueGOOS ex_upd = ''linux''" by (simp_all add: ex_upd_def)
  then have sw: "selfUpdate ex_sig ex_upd ex_os ex_fs =
      (Inr (''updated trqsh 1.0.0'' @ arrow @ ''1.1.0''), snd (replaceBinary ''linux'' ex_os ''/bin/trqsh'' [7] ex_fs))"
    and st: "last (snd (replaceBinary ''linux'' ex_os ''/bin/trqsh'' [7] ex_fs)) ''/bin/trqsh'' = Some ([7], 0x1ED)"
      "snd (replaceBinary ''linux'' ex_os ''/bin/trqsh'' [7] ex_fs) \<noteq> []"
    by (simp_all add: selfUpdate_def installUpdate_def ex_update run replaceBinary_def ex_os_def ex_fs_def fs_rename_def Let_def)
  have old: "ex_fs ''/bin/trqsh'' = Some ([5], 0x1ED)" and "osTemp ex_os = Inr tmp \<Longrightarrow> ex_fs tmp = None" for tmp
    by (auto simp: ex_fs_def ex_os_def)
  then have "ex_fs ''/bin/trqsh'' \<noteq> None" and tmp: "\<And>tmp. osTemp ex_os = Inr tmp \<Longrightarrow> ex_fs tmp = None" by simp_all
  note upd = conjunct1 [OF update_installs_only_verified [where target = "''/bin/trqsh''" and oe = ex_os and L = ex_sig and g = ex_fs, OF run this]]
  have "last (snd (selfUpdate ex_sig ex_upd ex_os ex_fs)) \<in> set (snd (selfUpdate ex_sig ex_upd ex_os ex_fs))" using sw st(2) by simp
  from bspec [OF upd this] have "\<exists>latest. latestCLIVersion ex_upd = Inr latest \<and> verified_release ex_sig ex_upd latest [7]"
    using sw st(1) old \<open>ueGOOS ex_upd = _\<close> by auto
  with sw st show ?thesis by simp
qed

text \<open>On Windows there is a state without a program, and when the second rename and the way back both fail it is the last one.\<close>

lemma windows_update_can_lose_the_program:
  assumes "osTemp oe = Inr tmp" "tmp \<noteq> target" "osWrite oe = None" "osClose oe = None" "osChmod oe = None" "osAside oe = None"
    and "osRename oe = Some er" "\<not> osRevert oe"
  shows "last (snd (replaceBinary ''windows'' oe target bin f0)) target = None"
  using assms by (simp add: replaceBinary_def fs_rename_def Let_def)

end
