(* ===== verification/Console.thy ===== *)
theory Console
  imports Forward SelfUpdate
begin

text \<open>
  The console of the command line (\<^verbatim>\<open>internal/agent/cli/tui\<close>): the client of the control API (\<^verbatim>\<open>client.go\<close>), the slash commands
  (\<^verbatim>\<open>commands.go\<close>) and the loop that handles keys, events and answers (\<^verbatim>\<open>model.go\<close>). Layout, colours and scrolling are left out: a
  style is a name that the environment renders, the text area edits a string, and the banner is a parameter.

  A \<^verbatim>\<open>tea.Cmd\<close> is a value of \<open>tcmd\<close> with the variables its closure captures; \<open>exec\<close> runs one and logs what it does: the requests to the
  daemon, and the calls into \<^verbatim>\<open>package cli\<close>. The daemon answers every request as a function of the log so far.
\<close>

section \<open>Text\<close>

datatype style = stErr | stKey | stDim | stOK | stURL | stTitle | stWarn | stBrand | stEcho | stMethod string | stStatus int | stFg string | stBold string

definition g_cross :: string where "g_cross = [CHR 0xE2, CHR 0x9C, CHR 0x97]"
definition g_check :: string where "g_check = [CHR 0xE2, CHR 0x9C, CHR 0x93]"
definition g_warn :: string where "g_warn = [CHR 0xE2, CHR 0x9A, CHR 0xA0]"
definition g_up :: string where "g_up = [CHR 0xE2, CHR 0x96, CHR 0xB2]"
definition g_chevron :: string where "g_chevron = [CHR 0xE2, CHR 0x9D, CHR 0xAF]"
definition g_phone :: string where "g_phone = [CHR 0xF0, CHR 0x9F, CHR 0x93, CHR 0xB1]"
definition g_dots :: string where "g_dots = [CHR 0xE2, CHR 0x80, CHR 0xA6]"
definition g_mid :: string where "g_mid = [CHR 0xC2, CHR 0xB7]"
definition g_to :: string where "g_to = [CHR 0xE2, CHR 0x86, CHR 0x92]"
definition g_full :: string where "g_full = [CHR 0xE2, CHR 0x97, CHR 0x8F]"
definition g_empty :: string where "g_empty = [CHR 0xE2, CHR 0x97, CHR 0x8B]"
definition g_updown :: string where "g_updown = [CHR 0xE2, CHR 0x86, CHR 0x91, CHR 0xE2, CHR 0x86, CHR 0x93]"

definition pad :: "string \<Rightarrow> nat \<Rightarrow> string" where
  "pad s n = s @ replicate (n - length s) CHR '' ''"

definition shortID :: "string \<Rightarrow> string" where
  "shortID i = take 8 i"

definition first_non_blank :: "string list \<Rightarrow> string" where
  "first_non_blank vs = (case find (\<lambda>v. trim_space v \<noteq> []) vs of Some v \<Rightarrow> v | None \<Rightarrow> [])"

definition equal_fold :: "string \<Rightarrow> string \<Rightarrow> bool" where
  "equal_fold a b \<longleftrightarrow> to_lower a = to_lower b"

text \<open>\<^verbatim>\<open>humanBytes\<close>: one decimal, rounded half to even as \<^verbatim>\<open>%.1f\<close> does.\<close>

definition tenths :: "nat \<Rightarrow> nat \<Rightarrow> nat" where
  "tenths n d = (let q = n * 10 div d; r = n * 10 mod d in if 2 * r > d \<or> 2 * r = d \<and> odd q then q + 1 else q)"

fun unit_steps :: "nat \<Rightarrow> nat \<Rightarrow> nat \<Rightarrow> nat \<times> nat" where
  "unit_steps 0 x d = (d, 0)"
| "unit_steps (Suc k) x d = (if x \<ge> 1024 then (case unit_steps k (x div 1024) (d * 1024) of (d', e) \<Rightarrow> (d', Suc e)) else (d, 0))"

definition humanBytes :: "int \<Rightarrow> string" where
  "humanBytes n =
     (if n < 1024 then show_int n @ '' B''
      else
        case unit_steps 5 (nat n div 1024) 1024 of
          (d, e) \<Rightarrow>
            let t = tenths (nat n) d
            in show_nat (t div 10) @ ''.'' @ show_nat (t mod 10) @ '' '' @ [''KMGTPE'' ! e] @ ''B'')"

definition normalizeAddr :: "string \<Rightarrow> string" where
  "normalizeAddr a =
     (let a = trim_space a; a = (case index_str ''://'' a of Some i \<Rightarrow> drop (i + 3) a | None \<Rightarrow> a)
      in if split_host_port a \<noteq> None then a else ''localhost:'' @ a)"

section \<open>The client of the control API\<close>

record subdomain =
  sdID :: string
  sdSubdomain :: string

record domain =
  dmID :: string
  dmDomain :: string
  dmVerified :: bool
  dmCertStatus :: string

record addDomainResp =
  adDomain :: domain
  adDNS :: "(string, string) gomap"

record account =
  acEmail :: string
  acName :: string
  acOrgName :: string
  acOrgPlan :: string
  acPlan :: string
  acBytesIn :: int
  acBytesOut :: int
  acRequests :: int

record deviceStart =
  dsDeviceCode :: string
  dsUserCode :: string
  dsURI :: string
  dsURIComplete :: string
  dsInterval :: int
  dsExpiresIn :: int

record tuiRequest =
  cqMethod :: string
  cqHost :: string
  cqPath :: string
  cqStatus :: int
  cqDurationMs :: int

record remoteStartResp =
  rsCode :: string
  rsURL :: string

record tuiRemoteTunnel =
  rtID :: string
  rtPublicURL :: string
  rtLocalAddr :: string
  rtStatus :: string
  rtRequests :: int

record tuiRemoteState =
  rsOnline :: bool
  rsEdge :: string
  rsTunnels :: "tuiRemoteTunnel list"

datatype body = BNone | BSpec TunnelSpec | BFields "(string \<times> string) list" | BLines "string list" | BState tuiRemoteState

text \<open>What the console does outside itself.\<close>

datatype act = AReq string string string body | ACheckUpdate | AUpdate | AUninstall | AQuit

record Daemon =
  dHTTP :: "act list \<Rightarrow> string + int \<times> string"
  dError :: "string \<Rightarrow> string option"
  dStatus :: "string \<Rightarrow> string + Status"
  dTunnels :: "string \<Rightarrow> string + Tunnel list"
  dTunnel :: "string \<Rightarrow> string + Tunnel"
  dRequests :: "string \<Rightarrow> string + tuiRequest list"
  dSubs :: "string \<Rightarrow> string + subdomain list"
  dSub :: "string \<Rightarrow> string + subdomain"
  dDomains :: "string \<Rightarrow> string + domain list"
  dDomain :: "string \<Rightarrow> string + domain"
  dAddDomain :: "string \<Rightarrow> string + addDomainResp"
  dAccount :: "string \<Rightarrow> string + account"
  dDevice :: "string \<Rightarrow> string + deviceStart"
  dPoll :: "string \<Rightarrow> string + bool"
  dRemote :: "string \<Rightarrow> string + remoteStartResp"

record client =
  clToken :: string
  clDaemon :: Daemon

type_synonym 'a io = "act list \<Rightarrow> (string + 'a) \<times> act list"

definition cl_do :: "client \<Rightarrow> string \<Rightarrow> string \<Rightarrow> body \<Rightarrow> (string \<Rightarrow> string + 'a) \<Rightarrow> 'a \<Rightarrow> 'a io" where
  "cl_do c method path body dec zero lg =
     (let lg' = lg @ [AReq method path (clToken c) body] in
      (case dHTTP (clDaemon c) lg' of
         Inl er \<Rightarrow> Inl er
       | Inr (status, resp) \<Rightarrow>
           let data = take (2 ^ 20) resp in
           if status div 100 \<noteq> 2 then
             (case dError (clDaemon c) data of
                Some er \<Rightarrow> if er \<noteq> [] then Inl er else Inl (''control API '' @ method @ '' '' @ path @ '': status '' @ show_int status)
              | None \<Rightarrow> Inl (''control API '' @ method @ '' '' @ path @ '': status '' @ show_int status))
           else if data = [] then Inr zero else dec data,
       lg'))"

abbreviation no_out :: "string \<Rightarrow> string + unit" where
  "no_out \<equiv> \<lambda>_. Inr ()"

definition zeroTun :: Tunnel where
  "zeroTun = \<lparr>tnID = [], tnName = [], tnProto = [], tnLocalAddr = [], tnPublicURL = [], tnStatus = [],
     tnMetrics = \<lparr>tmConnections = 0, tmRequests = 0, tmBytesIn = 0, tmBytesOut = 0\<rparr>, tnCreatedAt = 0\<rparr>"

definition zeroStatus :: Status where
  "zeroStatus = \<lparr>stConnected = False, stAccountID = [], stPlan = [], stEdge = [], stKind = []\<rparr>"

definition zeroSub :: subdomain where "zeroSub = \<lparr>sdID = [], sdSubdomain = []\<rparr>"
definition zeroDomain :: domain where "zeroDomain = \<lparr>dmID = [], dmDomain = [], dmVerified = False, dmCertStatus = []\<rparr>"
definition zeroAccount :: account where
  "zeroAccount = \<lparr>acEmail = [], acName = [], acOrgName = [], acOrgPlan = [], acPlan = [], acBytesIn = 0, acBytesOut = 0, acRequests = 0\<rparr>"
definition zeroDevice :: deviceStart where
  "zeroDevice = \<lparr>dsDeviceCode = [], dsUserCode = [], dsURI = [], dsURIComplete = [], dsInterval = 0, dsExpiresIn = 0\<rparr>"

definition cl_status :: "client \<Rightarrow> Status io" where "cl_status c = cl_do c ''GET'' ''/status'' BNone (dStatus (clDaemon c)) zeroStatus"
definition cl_tunnels :: "client \<Rightarrow> (Tunnel list) io" where "cl_tunnels c = cl_do c ''GET'' ''/tunnels'' BNone (dTunnels (clDaemon c)) []"
definition cl_startTunnel :: "client \<Rightarrow> TunnelSpec \<Rightarrow> Tunnel io" where "cl_startTunnel c spec = cl_do c ''POST'' ''/tunnels'' (BSpec spec) (dTunnel (clDaemon c)) zeroTun"
definition cl_stopTunnel :: "client \<Rightarrow> string \<Rightarrow> unit io" where "cl_stopTunnel c i = cl_do c ''DELETE'' (''/tunnels/'' @ i) BNone no_out ()"
definition cl_requests :: "client \<Rightarrow> (tuiRequest list) io" where "cl_requests c = cl_do c ''GET'' ''/requests'' BNone (dRequests (clDaemon c)) []"
definition cl_login :: "client \<Rightarrow> string \<Rightarrow> unit io" where "cl_login c key = cl_do c ''POST'' ''/login'' (BFields [(''token'', key)]) no_out ()"
definition cl_logout :: "client \<Rightarrow> unit io" where "cl_logout c = cl_do c ''POST'' ''/logout'' BNone no_out ()"
definition cl_shutdown :: "client \<Rightarrow> unit io" where "cl_shutdown c = cl_do c ''POST'' ''/shutdown'' BNone no_out ()"
definition cl_listSubdomains :: "client \<Rightarrow> (subdomain list) io" where "cl_listSubdomains c = cl_do c ''GET'' ''/cloud/subdomains'' BNone (dSubs (clDaemon c)) []"
definition cl_reserveSubdomain :: "client \<Rightarrow> string \<Rightarrow> subdomain io" where
  "cl_reserveSubdomain c name = cl_do c ''POST'' ''/cloud/subdomains'' (BFields [(''subdomain'', name)]) (dSub (clDaemon c)) zeroSub"
definition cl_releaseSubdomain :: "client \<Rightarrow> string \<Rightarrow> unit io" where "cl_releaseSubdomain c i = cl_do c ''DELETE'' (''/cloud/subdomains/'' @ i) BNone no_out ()"
definition cl_listDomains :: "client \<Rightarrow> (domain list) io" where "cl_listDomains c = cl_do c ''GET'' ''/cloud/domains'' BNone (dDomains (clDaemon c)) []"
definition cl_addDomain :: "client \<Rightarrow> string \<Rightarrow> addDomainResp io" where
  "cl_addDomain c name = cl_do c ''POST'' ''/cloud/domains'' (BFields [(''domain'', name)]) (dAddDomain (clDaemon c)) \<lparr>adDomain = zeroDomain, adDNS = []\<rparr>"
definition cl_verifyDomain :: "client \<Rightarrow> string \<Rightarrow> domain io" where
  "cl_verifyDomain c i = cl_do c ''POST'' (''/cloud/domains/'' @ i @ ''/verify'') BNone (dDomain (clDaemon c)) zeroDomain"
definition cl_me :: "client \<Rightarrow> account io" where "cl_me c = cl_do c ''GET'' ''/cloud/me'' BNone (dAccount (clDaemon c)) zeroAccount"
definition cl_oauthStart :: "client \<Rightarrow> deviceStart io" where "cl_oauthStart c = cl_do c ''POST'' ''/login/oauth/start'' BNone (dDevice (clDaemon c)) zeroDevice"
definition cl_remoteStart :: "client \<Rightarrow> remoteStartResp io" where "cl_remoteStart c = cl_do c ''POST'' ''/remote/start'' BNone (dRemote (clDaemon c)) \<lparr>rsCode = [], rsURL = []\<rparr>"
definition cl_remoteStop :: "client \<Rightarrow> unit io" where "cl_remoteStop c = cl_do c ''POST'' ''/remote/stop'' BNone no_out ()"
definition cl_remotePublishLines :: "client \<Rightarrow> string list \<Rightarrow> unit io" where "cl_remotePublishLines c ls = cl_do c ''POST'' ''/remote/publish'' (BLines ls) no_out ()"
definition cl_remotePublishState :: "client \<Rightarrow> tuiRemoteState \<Rightarrow> unit io" where "cl_remotePublishState c st = cl_do c ''POST'' ''/remote/publish'' (BState st) no_out ()"

text \<open>\<^verbatim>\<open>oauthPoll\<close>: authorized, pending, or an error.\<close>

definition cl_oauthPoll :: "client \<Rightarrow> string \<Rightarrow> (bool \<times> bool) io" where
  "cl_oauthPoll c code lg =
     (case cl_do c ''POST'' ''/login/oauth/poll'' (BFields [(''device_code'', code)]) (dPoll (clDaemon c)) False lg of
        (Inl er, lg') \<Rightarrow> (if er = ''authorization_pending'' \<or> er = ''slow_down'' then Inr (False, True) else Inl er, lg')
      | (Inr authed, lg') \<Rightarrow> (Inr (authed, False), lg'))"

section \<open>The state of the console\<close>

record Options =
  oAPIKey :: string
  oBaseDomain :: string
  oVersion :: string
  oInitial :: string
  oStartSpecs :: "TunnelSpec list"
  oConfigRows :: "(string \<times> string) list"
  oOnUpdate :: "(act list \<Rightarrow> string + string) option"
  oOnUninstall :: "(act list \<Rightarrow> string + string) option"
  oOnCheckUpdate :: "(act list \<Rightarrow> string + string) option"

record TuiEnv =
  Render :: "style \<Rightarrow> string \<Rightarrow> string"
  AnsiStrip :: "string \<Rightarrow> string"
  qrLines :: "string \<Rightarrow> string list"
  openBrowser :: "string \<Rightarrow> string option"
  clipboardWrite :: "string \<Rightarrow> string option"
  platform :: string

record reqRow =
  rrMethod :: string
  rrPath :: string
  rrStatus :: int
  rrMs :: int

record menuEntry =
  meInsert :: string
  meLabel :: string
  meDesc :: string
  meRun :: bool

record model =
  opts :: Options
  ready :: bool
  input :: string
  transcript :: "string list"
  mstatus :: Status
  authed :: bool
  acct :: "account option"
  mtunnels :: "Tunnel list"
  mrequests :: "reqRow list"
  pins :: "string list"
  remoteCode :: string
  remoteURL :: string
  remoteConnected :: bool
  pendingRemoteLines :: "string list"
  menuItems :: "menuEntry list"
  menuIdx :: nat
  history :: "string list"
  historyIdx :: nat
  selectAll :: bool
  welcomeShown :: bool
  welcomeLen :: nat
  loginActive :: bool
  initialRan :: bool
  quitting :: bool
  panicked :: bool

datatype tcmd =
    TNone
  | TBatch "tcmd list"
  | TTick
  | TMascot
  | TPoll
  | TFetchAccount string
  | TPollLogin string int
  | TPublishState tuiRemoteState
  | TPublishLines "string list"
  | TStartTunnel TunnelSpec
  | TStartAll "TunnelSpec list"
  | TRemoteStart
  | TRemoteStop
  | TRequests
  | TStop string "Tunnel list"
  | TLoginKey string
  | TOauthStart
  | TUpdate string bool
  | TDown
  | TLogout
  | TSubReserve string string
  | TSubRelease string
  | TSubList string
  | TDomainAdd string
  | TDomainVerify string
  | TDomainList
  | TUninstall
  | TQuit

datatype msg =
    MNone
  | MTick
  | MMascot
  | MData "Tunnel list" Status bool
  | MAccount "account option" bool
  | MEvent Event
  | MPrint "string list"
  | MLoginStarted deviceStart
  | MLoginTick string int
  | MLoginDone bool string
  | MRemoteStarted string string

definition appendLines :: "TuiEnv \<Rightarrow> string list \<Rightarrow> model \<Rightarrow> model" where
  "appendLines te ls m =
     (let m1 = m\<lparr>transcript := transcript m @ ls\<rparr> in
      if remoteCode m \<noteq> [] then m1\<lparr>pendingRemoteLines := pendingRemoteLines m @ map (AnsiStrip te) ls\<rparr> else m1)"

section \<open>Commands\<close>

definition say :: "TuiEnv \<Rightarrow> string list \<Rightarrow> tcmd \<Rightarrow> model \<Rightarrow> model \<times> tcmd" where
  "say te ls c m = (appendLines te ls m, c)"

definition bad :: "string \<Rightarrow> string" where "bad s = ''  '' @ g_cross @ '' '' @ s"
definition good :: "string \<Rightarrow> string" where "good s = ''  '' @ g_check @ '' '' @ s"

definition matchTunnel :: "Tunnel list \<Rightarrow> string \<Rightarrow> Tunnel option" where
  "matchTunnel ts q =
     (let ql = to_lower (trim_space q) in
      if ql = [] then None
      else find (\<lambda>t. tnID t = q \<or> equal_fold (tnName t) q \<or> has_prefix (tnID t) q \<or> str_contains (to_lower (tnPublicURL t)) ql) ts)"

definition pickTunnel :: "string list \<Rightarrow> model \<Rightarrow> Tunnel option" where
  "pickTunnel args m =
     (case args of
        [] \<Rightarrow> (case mtunnels m of [] \<Rightarrow> None | t # _ \<Rightarrow> Some t)
      | a # _ \<Rightarrow> matchTunnel (mtunnels m) a)"

text \<open>\<^verbatim>\<open>strconv.Atoi\<close> with its error ignored: zero for no number, the nearest number for one out of range.\<close>

definition atoi_lax :: "string \<Rightarrow> int" where
  "atoi_lax s =
     (case atoi s of
        Some n \<Rightarrow> n
      | None \<Rightarrow>
          let ds = (case s of c # cs \<Rightarrow> if c = CHR ''-'' \<or> c = CHR ''+'' then cs else s | [] \<Rightarrow> [])
          in if ds = [] \<or> list_ex (\<lambda>c. \<not> (48 \<le> (of_char c :: nat) \<and> (of_char c :: nat) \<le> 57)) ds then 0
             else if hd s = CHR ''-'' then - (2 ^ 63) else 2 ^ 63 - 1)"

fun tunnelFlags :: "string list \<Rightarrow> TunnelSpec \<Rightarrow> TunnelSpec" where
  "tunnelFlags [] s = s"
| "tunnelFlags [a] s = s"
| "tunnelFlags (a # b # rest) s =
     (if a = ''--subdomain'' \<or> a = ''-s'' then tunnelFlags rest (s\<lparr>tsSubdomain := b\<rparr>)
      else if a = ''--remote-port'' then tunnelFlags rest (s\<lparr>tsRemotePort := atoi_lax b\<rparr>)
      else tunnelFlags (b # rest) s)"

definition startTunnelCmd :: "TuiEnv \<Rightarrow> string \<Rightarrow> string list \<Rightarrow> model \<Rightarrow> model \<times> tcmd" where
  "startTunnelCmd te proto args m =
     (case args of
        [] \<Rightarrow> say te [Render te stErr (bad ''usage: '') @ Render te stKey (''/'' @ proto @ '' <port>'')] TNone m
      | a # rest \<Rightarrow>
          let spec = tunnelFlags rest \<lparr>tsName = [], tsProto = proto, tsAddr = normalizeAddr a, tsSubdomain = [], tsCustomDomain = [], tsBasicAuth = [],
                       tsHostHeader = [], tsRemotePort = 0\<rparr>
          in say te [Render te stDim (''  starting '' @ proto @ '' tunnel '' @ g_to @ '' '' @ tsAddr spec @ '' '' @ g_dots)] (TStartTunnel spec) m)"

definition cmdLs :: "TuiEnv \<Rightarrow> string list \<Rightarrow> model \<Rightarrow> model \<times> tcmd" where
  "cmdLs te args m =
     (if mtunnels m = [] then
        say te [Render te stDim (''  no tunnels '' @ emdash @ '' '') @ Render te stKey ''/http <port>'' @ Render te stDim '' to start one''] TNone m
      else
        say te (map (\<lambda>t. ''  '' @ Render te stKey (shortID (tnID t)) @ ''  '' @ Render te stURL (tnPublicURL t) @
                  Render te stDim (''  '' @ g_to @ '' '' @ tnLocalAddr t @ '' '' @ g_mid @ '' '' @ tnStatus t @ '' '' @ g_mid @ '' '' @ show_int (tmRequests (tnMetrics t)) @ '' req''))
                (mtunnels m)) TNone m)"

definition cmdOpen :: "TuiEnv \<Rightarrow> string list \<Rightarrow> model \<Rightarrow> model \<times> tcmd" where
  "cmdOpen te args m =
     (case pickTunnel args m of
        None \<Rightarrow> say te [Render te stErr (bad ''no matching tunnel'')] TNone m
      | Some t \<Rightarrow>
          (case openBrowser te (tnPublicURL t) of
             Some er \<Rightarrow> say te [Render te stErr (bad (''couldn't open browser: '' @ er))] TNone m
           | None \<Rightarrow> say te [Render te stOK (good ''opened '') @ Render te stURL (tnPublicURL t)] TNone m))"

definition cmdQRTunnel :: "TuiEnv \<Rightarrow> string list \<Rightarrow> model \<Rightarrow> model \<times> tcmd" where
  "cmdQRTunnel te args m =
     (case pickTunnel args m of
        None \<Rightarrow> say te [Render te stErr (bad (''no tunnel to show '' @ emdash @ '' '')) @ Render te stKey ''/http <port>'' @ Render te stDim '' first''] TNone m
      | Some t \<Rightarrow>
          say te ((Render te stDim ''  scan to open '' @ Render te stURL (tnPublicURL t) @ Render te stDim '' on your phone:'')
                  # map (\<lambda>l. ''  '' @ l) (qrLines te (tnPublicURL t))) TNone m)"

definition cmdQRPair :: "TuiEnv \<Rightarrow> model \<Rightarrow> model \<times> tcmd" where
  "cmdQRPair te m =
     (if acct m = None \<and> \<not> authed m then say te [Render te stErr (bad (''sign in first '' @ emdash @ '' '')) @ Render te stKey ''/login''] TNone m
      else say te [Render te stDim (''  starting a pairing session'' @ g_dots)] TRemoteStart m)"

definition cmdQRStop :: "TuiEnv \<Rightarrow> model \<Rightarrow> model \<times> tcmd" where
  "cmdQRStop te m =
     (if remoteCode m = [] then say te [Render te stDim ''  no active pairing''] TNone m
      else say te [Render te stDim (''  ending pairing'' @ g_dots)] TRemoteStop m)"

definition cmdQR :: "TuiEnv \<Rightarrow> string list \<Rightarrow> model \<Rightarrow> model \<times> tcmd" where
  "cmdQR te args m =
     (case args of
        [] \<Rightarrow> cmdQRPair te m
      | a # _ \<Rightarrow> if equal_fold a ''stop'' then cmdQRStop te m else cmdQRTunnel te args m)"

definition renderPairQR :: "TuiEnv \<Rightarrow> string \<Rightarrow> string \<Rightarrow> model \<Rightarrow> model" where
  "renderPairQR te url code m =
     appendLines te
       ([Render te stDim ''  scan to control this console from your phone:''] @ map (\<lambda>l. ''  '' @ l) (qrLines te url) @
        [Render te stDim ''  or open '' @ Render te stURL (''qr.'' @ oBaseDomain (opts m)) @ Render te stDim '' and enter '' @ Render te stKey code,
         Render te stDim ''  '' @ Render te stKey ''/qr stop'' @ Render te stDim '' ends the pairing'']) m"

definition remoteBlocked :: "string list" where
  "remoteBlocked = [''qr'', ''login'', ''logout'', ''uninstall'', ''update'', ''down'', ''quit'']"

definition cmdCopy :: "TuiEnv \<Rightarrow> string list \<Rightarrow> model \<Rightarrow> model \<times> tcmd" where
  "cmdCopy te args m =
     (case pickTunnel args m of
        None \<Rightarrow> say te [Render te stErr (bad ''no tunnel to copy'')] TNone m
      | Some t \<Rightarrow>
          (case clipboardWrite te (tnPublicURL t) of
             Some er \<Rightarrow> say te [Render te stErr (bad (''couldn't copy: '' @ er))] TNone m
           | None \<Rightarrow> say te [Render te stOK (good ''copied '') @ Render te stURL (tnPublicURL t) @ Render te stDim '' to the clipboard''] TNone m))"

definition cmdRequests :: "TuiEnv \<Rightarrow> string list \<Rightarrow> model \<Rightarrow> model \<times> tcmd" where
  "cmdRequests te args m = (m, TRequests)"

definition cmdStop :: "TuiEnv \<Rightarrow> string list \<Rightarrow> model \<Rightarrow> model \<times> tcmd" where
  "cmdStop te args m =
     (case args of
        [] \<Rightarrow> say te [Render te stErr (bad ''usage: '') @ Render te stKey ''/stop <id|all>''] TNone m
      | a # _ \<Rightarrow> (m, TStop a (mtunnels m)))"

definition pinnable :: "string list" where
  "pinnable = [''traffic'', ''tunnels'', ''status'']"

definition cmdPin :: "TuiEnv \<Rightarrow> string list \<Rightarrow> model \<Rightarrow> model \<times> tcmd" where
  "cmdPin te args m =
     (case args of
        [] \<Rightarrow> say te [Render te stErr (bad ''usage: '') @ Render te stKey ''/pin <traffic|tunnels|status>''] TNone m
      | a # _ \<Rightarrow>
          let name = to_lower a in
          if name \<notin> set pinnable then
            say te [Render te stErr (bad ''can't pin '') @ name @ Render te stDim ('' '' @ emdash @ '' try traffic, tunnels or status'')] TNone m
          else if name \<in> set (pins m) then say te [Render te stDim (''  '' @ name @ '' is already pinned'')] TNone m
          else say te [Render te stOK (good ''pinned '') @ Render te stKey name @ Render te stDim ('' '' @ emdash @ '' it stays on screen'')] TNone
                 (m\<lparr>pins := pins m @ [name]\<rparr>))"

definition cmdUnpin :: "TuiEnv \<Rightarrow> string list \<Rightarrow> model \<Rightarrow> model \<times> tcmd" where
  "cmdUnpin te args m =
     (case args of
        [] \<Rightarrow> say te [Render te stErr (bad ''usage: '') @ Render te stKey ''/unpin <name|all>''] TNone m
      | a # _ \<Rightarrow>
          if equal_fold a ''all'' then say te [Render te stOK (good ''unpinned all'')] TNone (m\<lparr>pins := []\<rparr>)
          else
            let name = to_lower a; m1 = m\<lparr>pins := filter (\<lambda>p. p \<noteq> name) (pins m)\<rparr> in
            if name \<in> set (pins m) then say te [Render te stOK (good (''unpinned '' @ name))] TNone m1
            else say te [Render te stErr (bad (name @ '' isn't pinned''))] TNone m1)"

definition connState :: "model \<Rightarrow> string \<times> string \<times> string" where
  "connState m =
     (if mtunnels m \<noteq> [] \<and> stConnected (mstatus m) then (g_full, ''online'', ''green'')
      else if mtunnels m \<noteq> [] then (g_full, ''connecting'', ''yellow'')
      else (g_empty, ''idle'', ''dim''))"

definition cmdStatus :: "TuiEnv \<Rightarrow> string list \<Rightarrow> model \<Rightarrow> model \<times> tcmd" where
  "cmdStatus te args m =
     (case connState m of
        (glyph, word, col) \<Rightarrow>
          say te [''  '' @ Render te (stFg col) (glyph @ '' '' @ word) @
            Render te stDim (''   edge '' @ first_non_blank [stEdge (mstatus m), emdash] @ '' '' @ g_mid @ '' '' @ first_non_blank [stKind (mstatus m), emdash] @
              '' '' @ g_mid @ '' '' @ show_nat (length (mtunnels m)) @ '' tunnels'')] TNone m)"

definition fetchAccount :: "model \<Rightarrow> tcmd" where
  "fetchAccount m = TFetchAccount (oAPIKey (opts m))"

definition cmdWhoami :: "TuiEnv \<Rightarrow> string list \<Rightarrow> model \<Rightarrow> model \<times> tcmd" where
  "cmdWhoami te args m =
     (case acct m of
        None \<Rightarrow> say te [Render te stDim (''  not signed in '' @ emdash @ '' '') @ Render te stKey ''/login''] (fetchAccount m) m
      | Some a \<Rightarrow>
          say te [''  '' @ Render te stBrand (first_non_blank [acName a, acEmail a, emdash]) @
                    Render te stDim (''   '' @ first_non_blank [acPlan a, acOrgPlan a, ''free''] @ '' plan''),
                  Render te stDim (''  usage  '' @ humanBytes (acBytesIn a) @ '' in '' @ g_mid @ '' '' @ humanBytes (acBytesOut a) @ '' out '' @ g_mid @ '' '' @
                    show_int (acRequests a) @ '' req (30d)'')] TNone m)"

definition cmdLogin :: "TuiEnv \<Rightarrow> string list \<Rightarrow> model \<Rightarrow> model \<times> tcmd" where
  "cmdLogin te args m =
     (case args of
        key # _ \<Rightarrow> say te [Render te stDim (''  signing in with key'' @ g_dots)] (TLoginKey key) m
      | [] \<Rightarrow>
          if loginActive m then say te [Render te stDim (''  sign-in already in progress'' @ g_dots)] TNone m
          else say te [Render te stDim (''  starting browser sign-in'' @ g_dots)] TOauthStart m)"

definition cmdUpdate :: "TuiEnv \<Rightarrow> string list \<Rightarrow> model \<Rightarrow> model \<times> tcmd" where
  "cmdUpdate te args m =
     say te [Render te stDim (''  checking for updates'' @ g_dots)]
       (TUpdate (oVersion (opts m)) (case args of [] \<Rightarrow> False | a # _ \<Rightarrow> equal_fold a ''check'')) m"

definition cmdStart :: "TuiEnv \<Rightarrow> string list \<Rightarrow> model \<Rightarrow> model \<times> tcmd" where
  "cmdStart te args m =
     (let specs = oStartSpecs (opts m) in
      if specs = [] then say te [Render te stDim (''  no tunnels in your config '' @ emdash @ '' add some, or use '') @ Render te stKey ''/http <port>''] TNone m
      else say te [Render te stDim (''  starting '' @ show_nat (length specs) @ '' tunnel(s) from config'' @ g_dots)] (TStartAll specs) m)"

definition cmdDown :: "TuiEnv \<Rightarrow> string list \<Rightarrow> model \<Rightarrow> model \<times> tcmd" where
  "cmdDown te args m = say te [Render te stDim (''  stopping the background daemon'' @ g_dots)] TDown m"

definition cmdLogout :: "TuiEnv \<Rightarrow> string list \<Rightarrow> model \<Rightarrow> model \<times> tcmd" where
  "cmdLogout te args m = (m\<lparr>acct := None, authed := False\<rparr>, TLogout)"

definition cmdConfig :: "TuiEnv \<Rightarrow> string list \<Rightarrow> model \<Rightarrow> model \<times> tcmd" where
  "cmdConfig te args m =
     (if oConfigRows (opts m) = [] then say te [Render te stDim ''  (no configuration to show)''] TNone m
      else say te ((''  '' @ Render te stTitle ''CONFIG'') # map (\<lambda>(k, v). ''  '' @ Render te stDim (pad k 12) @ v) (oConfigRows (opts m))) TNone m)"

definition cmdSubdomains :: "TuiEnv \<Rightarrow> string list \<Rightarrow> model \<Rightarrow> model \<times> tcmd" where
  "cmdSubdomains te args m =
     (let base = first_non_blank [oBaseDomain (opts m), ''trqsh.uz''] in
      case args of
        a # b # _ \<Rightarrow>
          if to_lower a \<in> {''reserve'', ''add''} then (m, TSubReserve (to_lower b) base)
          else if to_lower a \<in> {''release'', ''remove'', ''rm''} then (m, TSubRelease b)
          else (m, TSubList base)
      | _ \<Rightarrow> (m, TSubList base))"

definition cmdDomains :: "TuiEnv \<Rightarrow> string list \<Rightarrow> model \<Rightarrow> model \<times> tcmd" where
  "cmdDomains te args m =
     (case args of
        a # b # _ \<Rightarrow>
          if to_lower a = ''add'' then (m, TDomainAdd (to_lower b))
          else if to_lower a = ''verify'' then (m, TDomainVerify b)
          else (m, TDomainList)
      | _ \<Rightarrow> (m, TDomainList))"

definition cmdUninstall :: "TuiEnv \<Rightarrow> string list \<Rightarrow> model \<Rightarrow> model \<times> tcmd" where
  "cmdUninstall te args m =
     (if oOnUninstall (opts m) = None then say te [Render te stDim ''  uninstall isn't available in this build''] TNone m
      else if args = [] \<or> \<not> equal_fold (hd args) ''yes'' then
        say te [Render te stWarn (''  '' @ g_warn @ '' this removes trqsh's local data (config, credentials, cached binaries) and stops tunnels''),
                Render te stDim ''  type '' @ Render te stKey ''/uninstall yes'' @ Render te stDim '' to confirm''] TNone m
      else (m, TUninstall))"

definition cmdVersion :: "TuiEnv \<Rightarrow> string list \<Rightarrow> model \<Rightarrow> model \<times> tcmd" where
  "cmdVersion te args m =
     say te [''  '' @ Render te stBrand ''trqsh'' @ '' '' @ oVersion (opts m) @ Render te stDim (''  '' @ platform te)] TNone m"

definition cmdClear :: "(model \<Rightarrow> string list) \<Rightarrow> string list \<Rightarrow> model \<Rightarrow> model \<times> tcmd" where
  "cmdClear banner args m = (m\<lparr>welcomeLen := length (banner m), transcript := banner m\<rparr>, TNone)"

text \<open>Name, arguments and description of every command, in the order of the menu.\<close>

definition commandTable :: "(string \<times> string \<times> string) list" where
  "commandTable =
     [(''http'', ''<port>'', ''Expose a local HTTP port''), (''tcp'', ''<port>'', ''Expose a local TCP port''), (''udp'', ''<port>'', ''Expose a local UDP port''),
      (''start'', [], ''Start tunnels from your config''), (''ls'', [], ''List running tunnels''), (''open'', ''<id>'', ''Open a tunnel URL in your browser''),
      (''qr'', ''[id|stop]'', ''Pair this console to your phone (or a tunnel's QR)''), (''copy'', ''[id]'', ''Copy a tunnel URL to the clipboard''),
      (''stop'', ''<id|all>'', ''Stop a tunnel (or all)''), (''down'', [], ''Stop the background daemon and quit''), (''requests'', [], ''Show recently captured requests''),
      (''pin'', ''<panel>'', ''Keep a live panel on screen (traffic/tunnels/status)''), (''unpin'', ''<panel>'', ''Remove a pinned panel''),
      (''status'', [], ''Show connection status''), (''whoami'', [], ''Show account, plan and usage''), (''login'', ''[key]'', ''Sign in via browser (or paste a key)''),
      (''logout'', [], ''Sign out''), (''subdomains'', ''[reserve|release]'', ''Manage reserved subdomains''), (''domains'', ''[add|verify]'', ''Manage custom domains''),
      (''config'', [], ''Show configuration''), (''update'', ''[check]'', ''Check for / install a newer trqsh''), (''uninstall'', [], ''Remove trqsh's local data''),
      (''version'', [], ''Show version''), (''clear'', [], ''Clear the transcript''), (''help'', [], ''Show all commands''), (''quit'', [], ''Exit the console'')]"

definition helpGroups :: "(string \<times> string \<times> string list) list" where
  "helpGroups =
     [(''TUNNELS'', ''brand'', [''http'', ''tcp'', ''udp'', ''start'', ''ls'', ''open'', ''qr'', ''copy'', ''stop'', ''down'', ''requests'']),
      (''PANELS'', ''cyan'', [''pin'', ''unpin'']),
      (''ACCOUNT'', ''violet'', [''status'', ''whoami'', ''login'', ''logout'', ''subdomains'', ''domains'']),
      (''SYSTEM'', ''amber'', [''config'', ''update'', ''uninstall'', ''version'', ''clear'', ''help'', ''quit''])]"

definition helpLine :: "TuiEnv \<Rightarrow> string \<Rightarrow> string \<Rightarrow> string" where
  "helpLine te col n =
     (case map_of commandTable n of
        Some (args, desc) \<Rightarrow> ''    '' @ Render te (stFg col) (pad (''/'' @ n) 11) @ Render te stDim (pad args 18) @ desc
      | None \<Rightarrow> ''    '' @ Render te (stFg col) (pad ''/'' 11) @ Render te stDim (pad [] 18))"

definition cmdHelp :: "TuiEnv \<Rightarrow> string list \<Rightarrow> model \<Rightarrow> model \<times> tcmd" where
  "cmdHelp te args m =
     say te
       (concat (map (\<lambda>(title, col, names). [''  '' @ Render te (stBold col) title] @ map (helpLine te col) names @ [[]]) helpGroups) @
        [Render te stDim ''  tip: '' @ Render te stKey ''/'' @ Render te stDim ('' autocompletes '' @ g_mid @ '' '') @ Render te stKey g_updown @
         Render te stDim ('' history '' @ g_mid @ '' '') @ Render te stKey ''/pin traffic'' @ Render te stDim '' watches requests live'']) TNone m"

definition cmdQuit :: "TuiEnv \<Rightarrow> string list \<Rightarrow> model \<Rightarrow> model \<times> tcmd" where
  "cmdQuit te args m = (m, TQuit)"

record slashCmd =
  scName :: string
  scRun :: "string list \<Rightarrow> model \<Rightarrow> model \<times> tcmd"

definition handlers :: "TuiEnv \<Rightarrow> (model \<Rightarrow> string list) \<Rightarrow> (string list \<Rightarrow> model \<Rightarrow> model \<times> tcmd) list" where
  "handlers te banner =
     [startTunnelCmd te ''http'', startTunnelCmd te ''tcp'', startTunnelCmd te ''udp'', cmdStart te, cmdLs te, cmdOpen te, cmdQR te, cmdCopy te, cmdStop te,
      cmdDown te, cmdRequests te, cmdPin te, cmdUnpin te, cmdStatus te, cmdWhoami te, cmdLogin te, cmdLogout te, cmdSubdomains te, cmdDomains te,
      cmdConfig te, cmdUpdate te, cmdUninstall te, cmdVersion te, cmdClear banner, cmdHelp te, cmdQuit te]"

definition slashCommands :: "TuiEnv \<Rightarrow> (model \<Rightarrow> string list) \<Rightarrow> slashCmd list" where
  "slashCommands te banner = map2 (\<lambda>(name, _, _) h. \<lparr>scName = name, scRun = h\<rparr>) commandTable (handlers te banner)"

text \<open>The alias table maps to names of the list, so that one more search suffices.\<close>

definition aliases :: "(string \<times> string) list" where
  "aliases =
     [(''q'', ''quit''), (''exit'', ''quit''), (''list'', ''ls''), (''ps'', ''ls''), (''account'', ''whoami''), (''me'', ''whoami''), (''subs'', ''subdomains''),
      (''subdomain'', ''subdomains''), (''domain'', ''domains''), (''?'', ''help'')]"

definition lookupCommand :: "TuiEnv \<Rightarrow> (model \<Rightarrow> string list) \<Rightarrow> string \<Rightarrow> slashCmd option" where
  "lookupCommand te banner name =
     (let by_name = (\<lambda>n. find (\<lambda>c. scName c = n) (slashCommands te banner)) in
      case by_name name of
        Some c \<Rightarrow> Some c
      | None \<Rightarrow> (case map_of aliases name of Some n \<Rightarrow> by_name n | None \<Rightarrow> None))"

definition parseLine :: "string \<Rightarrow> string \<times> string list" where
  "parseLine line =
     (case str_fields (trim_prefix (trim_space line) ''/'') of
        [] \<Rightarrow> ([], [])
      | w # ws \<Rightarrow> (to_lower w, ws))"

section \<open>Running a line\<close>

definition run :: "TuiEnv \<Rightarrow> (model \<Rightarrow> string list) \<Rightarrow> string \<Rightarrow> bool \<Rightarrow> model \<Rightarrow> model \<times> tcmd" where
  "run te banner line remote m =
     (case parseLine line of
        (name, args) \<Rightarrow>
          (case lookupCommand te banner name of
             Some c \<Rightarrow>
               if remote \<and> scName c \<in> set remoteBlocked then
                 say te [Render te stWarn (''  '' @ g_warn @ '' blocked: '') @ Render te stKey (''/'' @ scName c) @ Render te stDim '' only runs from the laptop''] TNone m
               else scRun c args
                      (appendLines te [[], Render te stKey (''  '' @ (if remote then g_phone else g_chevron) @ '' '') @ Render te stEcho line] m)
           | None \<Rightarrow>
               say te [[], Render te stKey (''  '' @ (if remote then g_phone else g_chevron) @ '' '') @ Render te stEcho line,
                       Render te stErr (bad (''unknown command: '' @ name)) @ Render te stDim ''   (type /help)''] TNone m))"

section \<open>Running the commands behind a line\<close>

fun leaves :: "tcmd \<Rightarrow> tcmd list" where
  "leaves (TBatch cs) = concat (map leaves cs)"
| "leaves c = [c]"

definition failed :: "TuiEnv \<Rightarrow> string \<Rightarrow> msg" where
  "failed te er = MPrint [Render te stErr (bad er)]"

fun stop_victims :: "TuiEnv \<Rightarrow> client \<Rightarrow> Tunnel list \<Rightarrow> act list \<Rightarrow> string list \<times> act list" where
  "stop_victims te cl [] lg = ([], lg)"
| "stop_victims te cl (t # ts) lg =
     (case cl_stopTunnel cl (tnID t) lg of
        (r, lg1) \<Rightarrow>
          (case stop_victims te cl ts lg1 of
             (out, lg2) \<Rightarrow>
               ((case r of Inl er \<Rightarrow> Render te stErr (bad er) | Inr _ \<Rightarrow> Render te stOK (good ''stopped '') @ Render te stDim (tnPublicURL t)) # out, lg2)))"

fun startAll :: "TuiEnv \<Rightarrow> client \<Rightarrow> TunnelSpec list \<Rightarrow> act list \<Rightarrow> string list \<times> act list" where
  "startAll te cl [] lg = ([], lg)"
| "startAll te cl (spec # specs) lg =
     (case cl_startTunnel cl spec lg of
        (r, lg1) \<Rightarrow>
          (case startAll te cl specs lg1 of
             (out, lg2) \<Rightarrow>
               ((case r of
                   Inl er \<Rightarrow> Render te stErr (bad (first_non_blank [tsName spec, tsAddr spec] @ '': '' @ er))
                 | Inr t \<Rightarrow> Render te stOK (good []) @ Render te stURL (tnPublicURL t) @ Render te stDim (''  '' @ g_to @ '' '' @ tnLocalAddr t)) # out, lg2)))"

definition requestLine :: "TuiEnv \<Rightarrow> tuiRequest \<Rightarrow> string" where
  "requestLine te r =
     ''  '' @ Render te (stMethod (cqMethod r)) (pad (cqMethod r) 6) @ '' '' @
     Render te (stStatus (cqStatus r)) (let d = show_int (cqStatus r) in replicate (3 - length d) CHR '' '' @ d) @ '' '' @
     Render te stDim (cqHost r) @ cqPath r @ Render te stDim (''  '' @ show_int (cqDurationMs r) @ ''ms'')"

definition execUpdate :: "TuiEnv \<Rightarrow> Options \<Rightarrow> string \<Rightarrow> bool \<Rightarrow> act list \<Rightarrow> msg \<times> act list" where
  "execUpdate te opt cur checkOnly lg =
     (let (latest, lg1) = (case oOnCheckUpdate opt of None \<Rightarrow> (Inr [], lg) | Some f \<Rightarrow> (f (lg @ [ACheckUpdate]), lg @ [ACheckUpdate])) in
      case latest of
        Inl er \<Rightarrow> (failed te (''couldn't check: '' @ er), lg1)
      | Inr latest \<Rightarrow>
          if latest = [] then (MPrint [Render te stDim ''  no release info available''], lg1)
          else if cur = ''dev'' \<or> cur = [] then (MPrint [Render te stDim (''  dev build; latest release is '' @ latest)], lg1)
          else if latest = cur then (MPrint [Render te stOK (good (''trqsh '' @ cur @ '' is up to date''))], lg1)
          else
            (case (if checkOnly then None else oOnUpdate opt) of
               None \<Rightarrow>
                 (MPrint [Render te stWarn (''  '' @ g_up @ '' update available: '') @ Render te stKey (cur @ '' '' @ g_to @ '' '' @ latest),
                          Render te stDim ''  run '' @ Render te stKey ''/update'' @ Render te stDim '' to install it''], lg1)
             | Some f \<Rightarrow>
                 let lg2 = lg1 @ [AUpdate] in
                 (case f lg2 of
                    Inl er \<Rightarrow> (failed te (''update failed: '' @ er), lg2)
                  | Inr summary \<Rightarrow> (MPrint [Render te stOK (good summary), Render te stDim ''  restart the console to run the new version''], lg2))))"

definition dnsLine :: "TuiEnv \<Rightarrow> string \<Rightarrow> string \<Rightarrow> string \<Rightarrow> addDomainResp \<Rightarrow> string list" where
  "dnsLine te kind k v r =
     (case gget (adDNS r) k of
        Some n \<Rightarrow> if n \<noteq> [] then [Render te stDim (''    '' @ kind @ n @ ''  '' @ (case gget (adDNS r) v of Some x \<Rightarrow> x | None \<Rightarrow> []))] else []
      | None \<Rightarrow> [])"

fun exec :: "TuiEnv \<Rightarrow> Options \<Rightarrow> client \<Rightarrow> tcmd \<Rightarrow> act list \<Rightarrow> msg \<times> act list" where
  "exec te opt cl TNone lg = (MNone, lg)"
| "exec te opt cl (TBatch cs) lg = (MNone, lg)"
| "exec te opt cl TTick lg = (MTick, lg)"
| "exec te opt cl TMascot lg = (MMascot, lg)"
| "exec te opt cl TPoll lg =
     (case cl_tunnels cl lg of
        (ts, lg1) \<Rightarrow>
          (case cl_status cl lg1 of
             (st, lg2) \<Rightarrow>
               (MData (case ts of Inr x \<Rightarrow> x | Inl _ \<Rightarrow> []) (case st of Inr x \<Rightarrow> x | Inl _ \<Rightarrow> zeroStatus) (is_ok ts), lg2)))"
| "exec te opt cl (TFetchAccount key) lg =
     (let lg1 = (if key \<noteq> [] then snd (cl_login cl key lg) else lg) in
      case cl_me cl lg1 of
        (Inl er, lg2) \<Rightarrow> (MAccount None False, lg2)
      | (Inr a, lg2) \<Rightarrow> (MAccount (Some a) True, lg2))"
| "exec te opt cl (TPollLogin code interval) lg =
     (case cl_oauthPoll cl code lg of
        (Inl er, lg1) \<Rightarrow> (MLoginDone False er, lg1)
      | (Inr (ok, _), lg1) \<Rightarrow> (if ok then MLoginDone True [] else MLoginTick code interval, lg1))"
| "exec te opt cl (TPublishState st) lg = (MNone, snd (cl_remotePublishState cl st lg))"
| "exec te opt cl (TPublishLines ls) lg = (MNone, snd (cl_remotePublishLines cl ls lg))"
| "exec te opt cl (TStartTunnel spec) lg =
     (case cl_startTunnel cl spec lg of
        (Inl er, lg1) \<Rightarrow> (failed te er, lg1)
      | (Inr t, lg1) \<Rightarrow> (MPrint [Render te stOK (good []) @ Render te stURL (tnPublicURL t) @ Render te stDim (''  '' @ g_to @ '' '' @ tnLocalAddr t)], lg1))"
| "exec te opt cl (TStartAll specs) lg = (case startAll te cl specs lg of (out, lg1) \<Rightarrow> (MPrint out, lg1))"
| "exec te opt cl TRemoteStart lg =
     (case cl_remoteStart cl lg of (Inl er, lg1) \<Rightarrow> (failed te er, lg1) | (Inr r, lg1) \<Rightarrow> (MRemoteStarted (rsCode r) (rsURL r), lg1))"
| "exec te opt cl TRemoteStop lg = (MPrint [Render te stOK (good ''pairing ended'')], snd (cl_remoteStop cl lg))"
| "exec te opt cl TRequests lg =
     (case cl_requests cl lg of
        (Inl er, lg1) \<Rightarrow> (failed te er, lg1)
      | (Inr reqs, lg1) \<Rightarrow>
          (if reqs = [] then MPrint [Render te stDim (''  no requests captured yet '' @ emdash @ '' expose an HTTP service with /http'')]
           else MPrint ((''  '' @ Render te stTitle ''RECENT REQUESTS'') # map (requestLine te) (drop (length reqs - 20) reqs)), lg1))"
| "exec te opt cl (TStop target ts) lg =
     (let victims = (if equal_fold target ''all'' then ts else case matchTunnel ts target of Some t \<Rightarrow> [t] | None \<Rightarrow> []) in
      if victims = [] then (failed te (''no tunnel matched '' @ target), lg)
      else (case stop_victims te cl victims lg of (out, lg1) \<Rightarrow> (MPrint out, lg1)))"
| "exec te opt cl (TLoginKey key) lg =
     (case cl_login cl key lg of (Inl er, lg1) \<Rightarrow> (failed te (''sign-in failed: '' @ er), lg1) | (Inr _, lg1) \<Rightarrow> (MLoginDone True [], lg1))"
| "exec te opt cl TOauthStart lg =
     (case cl_oauthStart cl lg of (Inl er, lg1) \<Rightarrow> (failed te (''couldn't start sign-in: '' @ er), lg1) | (Inr d, lg1) \<Rightarrow> (MLoginStarted d, lg1))"
| "exec te opt cl (TUpdate cur checkOnly) lg = execUpdate te opt cur checkOnly lg"
| "exec te opt cl TDown lg = (MNone, snd (cl_shutdown cl lg) @ [AQuit])"
| "exec te opt cl TLogout lg =
     (case cl_logout cl lg of (Inl er, lg1) \<Rightarrow> (failed te er, lg1) | (Inr _, lg1) \<Rightarrow> (MPrint [Render te stOK (good ''signed out'')], lg1))"
| "exec te opt cl (TSubReserve name base) lg =
     (case cl_reserveSubdomain cl name lg of
        (Inl er, lg1) \<Rightarrow> (failed te er, lg1)
      | (Inr s, lg1) \<Rightarrow> (MPrint [Render te stOK (good ''reserved '') @ Render te stURL (sdSubdomain s @ ''.'' @ base)], lg1))"
| "exec te opt cl (TSubRelease name) lg =
     (case cl_listSubdomains cl lg of
        (Inl er, lg1) \<Rightarrow> (failed te er, lg1)
      | (Inr subs, lg1) \<Rightarrow>
          (case find (\<lambda>s. sdID s = name \<or> equal_fold (sdSubdomain s) name) subs of
             None \<Rightarrow> (failed te (''no reserved subdomain matched '' @ name), lg1)
           | Some s \<Rightarrow>
               if sdID s = [] then (failed te (''no reserved subdomain matched '' @ name), lg1)
               else
                 (case cl_releaseSubdomain cl (sdID s) lg1 of
                    (Inl er, lg2) \<Rightarrow> (failed te er, lg2)
                  | (Inr _, lg2) \<Rightarrow> (MPrint [Render te stOK (good (''released '' @ name))], lg2))))"
| "exec te opt cl (TSubList base) lg =
     (case cl_listSubdomains cl lg of
        (Inl er, lg1) \<Rightarrow> (failed te er, lg1)
      | (Inr subs, lg1) \<Rightarrow>
          (if subs = [] then MPrint [Render te stDim (''  no reserved subdomains '' @ emdash @ '' '') @ Render te stKey ''/subdomains reserve <name>'']
           else MPrint ((''  '' @ Render te stTitle ''SUBDOMAINS'') # map (\<lambda>s. ''  '' @ Render te stURL (sdSubdomain s @ ''.'' @ base)) subs), lg1))"
| "exec te opt cl (TDomainAdd name) lg =
     (case cl_addDomain cl name lg of
        (Inl er, lg1) \<Rightarrow> (failed te er, lg1)
      | (Inr r, lg1) \<Rightarrow>
          (MPrint ([Render te stOK (good ''added '') @ Render te stURL (dmDomain (adDomain r)),
                    Render te stDim ''  set these DNS records, then '' @ Render te stKey (''/domains verify '' @ dmDomain (adDomain r)) @ Render te stDim '':''] @
                   dnsLine te ''TXT   '' ''txt_name'' ''txt_value'' r @ dnsLine te ''CNAME '' ''cname_name'' ''cname_value'' r), lg1))"
| "exec te opt cl (TDomainVerify name) lg =
     (case cl_listDomains cl lg of
        (Inl er, lg1) \<Rightarrow> (failed te er, lg1)
      | (Inr doms, lg1) \<Rightarrow>
          (case find (\<lambda>d. dmID d = name \<or> equal_fold (dmDomain d) name) doms of
             None \<Rightarrow> (failed te (''no domain matched '' @ name), lg1)
           | Some d \<Rightarrow>
               if dmID d = [] then (failed te (''no domain matched '' @ name), lg1)
               else
                 (case cl_verifyDomain cl (dmID d) lg1 of
                    (Inl er, lg2) \<Rightarrow> (failed te er, lg2)
                  | (Inr d', lg2) \<Rightarrow>
                      (if dmVerified d' then MPrint [Render te stOK (good (''verified '' @ dmDomain d'))]
                       else MPrint [Render te stWarn (''  '' @ dmDomain d' @ '' is not verified yet'')], lg2))))"
| "exec te opt cl TDomainList lg =
     (case cl_listDomains cl lg of
        (Inl er, lg1) \<Rightarrow> (failed te er, lg1)
      | (Inr doms, lg1) \<Rightarrow>
          (if doms = [] then MPrint [Render te stDim (''  no custom domains '' @ emdash @ '' '') @ Render te stKey ''/domains add <domain>'']
           else MPrint ((''  '' @ Render te stTitle ''DOMAINS'')
                  # map (\<lambda>d. ''  '' @ Render te stURL (dmDomain d) @
                      Render te stDim (''  '' @ (if dmVerified d then ''verified'' else ''pending'') @ '' '' @ g_mid @ '' '' @ first_non_blank [dmCertStatus d, emdash])) doms), lg1))"
| "exec te opt cl TUninstall lg =
     (let lg1 = lg @ [AUninstall] in
      case oOnUninstall opt of
        None \<Rightarrow> (MNone, lg1)
      | Some f \<Rightarrow> (case f lg1 of Inl er \<Rightarrow> (failed te er, lg1) | Inr s \<Rightarrow> (MPrint [Render te stOK (good s)], lg1)))"
| "exec te opt cl TQuit lg = (MNone, lg @ [AQuit])"

section \<open>Keys, menu and history\<close>

datatype key = KCtrlA | KRunes string | KSpace | KBackspace | KDelete | KCtrlC | KPgUp | KPgDown | KEnd | KUp | KDown | KTab | KEsc | KEnter | KOther string

definition argOptions :: "string \<Rightarrow> model \<Rightarrow> string list" where
  "argOptions name m =
     (if name = ''pin'' then [''traffic'', ''tunnels'', ''status'']
      else if name = ''unpin'' then pins m @ [''all''] else [])"

definition menuOpen :: "model \<Rightarrow> bool" where
  "menuOpen m \<longleftrightarrow> menuItems m \<noteq> []"

text \<open>\<^verbatim>\<open>refreshMenu\<close> reads the first word after the slash; when there is none but a space, it panics, which ends the program.\<close>

definition menuFor :: "model \<Rightarrow> menuEntry list option" where
  "menuFor m =
     (let v = input m in
      if \<not> has_prefix v ''/'' then Some []
      else
        let fs = str_fields (drop 1 v); trailing = has_suffix v '' '' in
        if length fs \<le> 1 \<and> \<not> trailing then
          let prefix = (case fs of [] \<Rightarrow> [] | w # _ \<Rightarrow> to_lower w) in
          Some (map (\<lambda>(name, args, desc).
                 \<lparr>meInsert = ''/'' @ name @ (if args \<noteq> [] then '' '' else []), meLabel = ''/'' @ name @ (if args \<noteq> [] then '' '' @ args else []),
                  meDesc = desc, meRun = (args = [])\<rparr>)
            (filter (\<lambda>(name, _, _). has_prefix name prefix) commandTable))
        else
          (case fs of
             [] \<Rightarrow> None
           | w # _ \<Rightarrow>
               let name = to_lower w; prefix = (if \<not> trailing \<and> 2 \<le> length fs then to_lower (last fs) else []) in
               Some (map (\<lambda>opt. \<lparr>meInsert = ''/'' @ name @ '' '' @ opt, meLabel = ''/'' @ name @ '' '' @ opt, meDesc = [], meRun = True\<rparr>)
                 (filter (\<lambda>opt. has_prefix opt prefix) (argOptions name m)))))"

definition refreshMenu :: "model \<Rightarrow> model" where
  "refreshMenu m =
     (case menuFor m of
        Some items \<Rightarrow> m\<lparr>menuItems := items, menuIdx := 0\<rparr>
      | None \<Rightarrow> m\<lparr>menuItems := [], menuIdx := 0, panicked := True\<rparr>)"

definition acceptMenu :: "model \<Rightarrow> model" where
  "acceptMenu m = (if \<not> menuOpen m then m else refreshMenu (m\<lparr>input := meInsert (menuItems m ! menuIdx m)\<rparr>))"

definition historyPrev :: "model \<Rightarrow> model" where
  "historyPrev m =
     (if history m = [] then m
      else let i = historyIdx m - 1 in refreshMenu (m\<lparr>historyIdx := i, input := history m ! i\<rparr>))"

definition historyNext :: "model \<Rightarrow> model" where
  "historyNext m =
     (if history m = [] then m
      else if historyIdx m + 1 < length (history m) then refreshMenu (m\<lparr>historyIdx := historyIdx m + 1, input := history m ! (historyIdx m + 1)\<rparr>)
      else refreshMenu (m\<lparr>historyIdx := length (history m), input := []\<rparr>))"

definition pushHistory :: "string \<Rightarrow> model \<Rightarrow> model" where
  "pushHistory line m =
     (let h = (if history m = [] \<or> last (history m) \<noteq> line then history m @ [line] else history m)
      in m\<lparr>history := h, historyIdx := length h\<rparr>)"

definition submit :: "TuiEnv \<Rightarrow> (model \<Rightarrow> string list) \<Rightarrow> model \<Rightarrow> model \<times> tcmd" where
  "submit te banner m =
     (let sel = menuItems m ! menuIdx m; m1 = (if menuOpen m then m\<lparr>input := meInsert sel\<rparr> else m) in
      if menuOpen m \<and> \<not> meRun sel then (refreshMenu m1, TNone)
      else
        let line = trim_space (input m1); m2 = refreshMenu (m1\<lparr>input := []\<rparr>) in
        if line = [] then (m2, TNone) else run te banner line False (pushHistory line m2))"

text \<open>\<^verbatim>\<open>handleKey\<close>; \<open>edit\<close> is what the text area does with a key.\<close>

definition handleKey :: "TuiEnv \<Rightarrow> (model \<Rightarrow> string list) \<Rightarrow> (key \<Rightarrow> string \<Rightarrow> string) \<Rightarrow> key \<Rightarrow> model \<Rightarrow> model \<times> tcmd" where
  "handleKey te banner edit k m0 =
     (if k = KCtrlA then (if trim_space (input m0) \<noteq> [] then m0\<lparr>selectAll := True\<rparr> else m0, TNone)
      else
        let m = (if selectAll m0
                 then (case k of KRunes s \<Rightarrow> m0\<lparr>selectAll := False, input := []\<rparr> | KSpace \<Rightarrow> m0\<lparr>selectAll := False, input := []\<rparr>
                       | KBackspace \<Rightarrow> m0\<lparr>selectAll := False, input := []\<rparr> | KDelete \<Rightarrow> m0\<lparr>selectAll := False, input := []\<rparr>
                       | _ \<Rightarrow> m0\<lparr>selectAll := False\<rparr>)
                 else m0);
            ordinary = (refreshMenu (m\<lparr>input := edit k (input m), historyIdx := length (history m)\<rparr>), TNone)
        in
        case k of
          KCtrlC \<Rightarrow> (m\<lparr>quitting := True\<rparr>, TQuit)
        | KPgUp \<Rightarrow> (m, TNone)
        | KPgDown \<Rightarrow> (m, TNone)
        | KEnd \<Rightarrow> (m, TNone)
        | KUp \<Rightarrow> (if menuOpen m0 then m\<lparr>menuIdx := menuIdx m - 1\<rparr> else historyPrev m, TNone)
        | KDown \<Rightarrow> (if menuOpen m0 then (if menuIdx m + 1 < length (menuItems m) then m\<lparr>menuIdx := menuIdx m + 1\<rparr> else m) else historyNext m, TNone)
        | KTab \<Rightarrow> if menuOpen m0 then (acceptMenu m, TNone) else ordinary
        | KEsc \<Rightarrow> if menuOpen m0 then (refreshMenu (m\<lparr>input := []\<rparr>), TNone) else ordinary
        | KEnter \<Rightarrow> submit te banner m
        | _ \<Rightarrow> ordinary)"

section \<open>Events and answers\<close>

definition handleRemoteEvent :: "TuiEnv \<Rightarrow> (model \<Rightarrow> string list) \<Rightarrow> RemoteEvent \<Rightarrow> model \<Rightarrow> model \<times> tcmd" where
  "handleRemoteEvent te banner ev m =
     (case ev of
        RemotePresence up \<Rightarrow>
          say te [if up then Render te stOK (good (g_phone @ '' phone connected'')) else Render te stDim (''  '' @ g_phone @ '' phone disconnected'')] TNone
            (m\<lparr>remoteConnected := up\<rparr>)
      | RemoteEnded \<Rightarrow> say te [Render te stDim (''  '' @ g_phone @ '' pairing ended'')] TNone (m\<lparr>remoteCode := [], remoteURL := [], remoteConnected := False\<rparr>)
      | RemoteCommand line \<Rightarrow> run te banner line True m)"

definition handleEvent :: "TuiEnv \<Rightarrow> (model \<Rightarrow> string list) \<Rightarrow> Event \<Rightarrow> model \<Rightarrow> model \<times> tcmd" where
  "handleEvent te banner ev m =
     (case ev of
        EventRequest r \<Rightarrow>
          let rs = mrequests m @ [\<lparr>rrMethod = crMethod r, rrPath = crPath r, rrStatus = crStatus r, rrMs = crDurationMs r\<rparr>]
          in (m\<lparr>mrequests := drop (length rs - 500) rs\<rparr>, TNone)
      | EventStatus st \<Rightarrow> (m\<lparr>mstatus := st\<rparr>, TNone)
      | EventError er \<Rightarrow> if er \<noteq> [] then say te [Render te stWarn (''  '' @ g_warn @ '' '' @ er)] TNone m else (m, TNone)
      | EventRemote rv \<Rightarrow> handleRemoteEvent te banner rv m
      | EventTunnel t \<Rightarrow> (m, TNone))"

definition publishRemoteState :: "model \<Rightarrow> tcmd" where
  "publishRemoteState m =
     TPublishState \<lparr>rsOnline = stConnected (mstatus m), rsEdge = stEdge (mstatus m),
       rsTunnels = map (\<lambda>t. \<lparr>rtID = tnID t, rtPublicURL = tnPublicURL t, rtLocalAddr = tnLocalAddr t, rtStatus = tnStatus t,
                              rtRequests = tmRequests (tnMetrics t)\<rparr>) (mtunnels m)\<rparr>"

definition refreshWelcome :: "(model \<Rightarrow> string list) \<Rightarrow> model \<Rightarrow> model" where
  "refreshWelcome banner m =
     (if \<not> welcomeShown m \<or> welcomeLen m = 0 \<or> length (transcript m) < welcomeLen m then m
      else m\<lparr>transcript := banner m @ drop (welcomeLen m) (transcript m), welcomeLen := length (banner m)\<rparr>)"

text \<open>The end of \<^verbatim>\<open>Update\<close>: the lines queued for a paired phone go out as one request.\<close>

definition flushLines :: "model \<times> tcmd list \<Rightarrow> model \<times> tcmd" where
  "flushLines mc =
     (case mc of
        (m, cs) \<Rightarrow>
          if pendingRemoteLines m \<noteq> [] then (m\<lparr>pendingRemoteLines := []\<rparr>, TBatch (cs @ [TPublishLines (pendingRemoteLines m)]))
          else (m, TBatch cs))"

definition windowSize :: "TuiEnv \<Rightarrow> (model \<Rightarrow> string list) \<Rightarrow> model \<Rightarrow> model \<times> tcmd" where
  "windowSize te banner m =
     (let m1 = m\<lparr>ready := True\<rparr>;
          m2 = (if welcomeShown m1 then m1
                else m1\<lparr>welcomeShown := True, welcomeLen := length (banner m1), transcript := banner m1 @ transcript m1\<rparr>)
      in if \<not> initialRan m2 \<and> trim_space (oInitial (opts m2)) \<noteq> [] then run te banner (oInitial (opts m2)) False (m2\<lparr>initialRan := True\<rparr>)
         else (m2, TNone))"

definition Update :: "TuiEnv \<Rightarrow> (model \<Rightarrow> string list) \<Rightarrow> msg \<Rightarrow> model \<Rightarrow> model \<times> tcmd" where
  "Update te banner ms m =
     flushLines
       (case ms of
          MNone \<Rightarrow> (m, [])
        | MTick \<Rightarrow> (m, [TPoll, TTick])
        | MMascot \<Rightarrow> (refreshWelcome banner m, [TMascot])
        | MData ts st ok \<Rightarrow>
            let m1 = refreshWelcome banner (if ok then m\<lparr>mtunnels := ts, mstatus := st\<rparr> else m\<lparr>mstatus := st\<rparr>)
            in (m1, if remoteCode m1 \<noteq> [] then [publishRemoteState m1] else [])
        | MAccount a ok \<Rightarrow> (refreshWelcome banner (m\<lparr>acct := a, authed := ok\<rparr>), [])
        | MEvent ev \<Rightarrow> (case handleEvent te banner ev m of (m1, c) \<Rightarrow> (m1, [c]))
        | MRemoteStarted code url \<Rightarrow> (renderPairQR te url code (m\<lparr>remoteCode := code, remoteURL := url\<rparr>), [])
        | MPrint ls \<Rightarrow> (appendLines te ls m, [])
        | MLoginStarted d \<Rightarrow>
            (appendLines te
               [''  '' @ Render te stTitle ''Sign in'',
                ''  '' @ Render te stDim ''open '' @ Render te stURL (first_non_blank [dsURIComplete d, dsURI d]),
                ''  '' @ Render te stDim ''code '' @ Render te stKey (dsUserCode d),
                Render te stDim (''  waiting for approval'' @ g_dots @ '' (keep using other commands)'')] (m\<lparr>loginActive := True\<rparr>),
             [TPollLogin (dsDeviceCode d) (max (dsInterval d) 2 * second)])
        | MLoginTick code interval \<Rightarrow> (m, [TPollLogin code interval])
        | MLoginDone ok er \<Rightarrow>
            let m1 = m\<lparr>loginActive := False\<rparr> in
            if ok then (appendLines te [Render te stOK (good ''signed in'')] m1, [fetchAccount m1])
            else (appendLines te [Render te stErr (bad (''sign-in failed: '' @ er))] m1, []))"

section \<open>What a phone can do\<close>

text \<open>The requests a paired phone may cause: none that ends the daemon, the pairing or the program, none that touches the binary or the local data,
  and no sign-in other than with the key the console was started with.\<close>

definition laptop_only :: "string list" where
  "laptop_only = [''/shutdown'', ''/logout'', ''/login/oauth/start'', ''/login/oauth/poll'', ''/remote/start'', ''/remote/stop'']"

fun phone_may :: "string \<Rightarrow> act \<Rightarrow> bool" where
  "phone_may key (AReq meth path tok b) \<longleftrightarrow> path \<notin> set laptop_only \<and> (path = ''/login'' \<longrightarrow> b = BFields [(''token'', key)])"
| "phone_may key _ \<longleftrightarrow> False"

fun phone_cmd :: "string \<Rightarrow> tcmd \<Rightarrow> bool" where
  "phone_cmd key TNone \<longleftrightarrow> True"
| "phone_cmd key (TFetchAccount k) \<longleftrightarrow> k = key"
| "phone_cmd key (TStartTunnel s) \<longleftrightarrow> True"
| "phone_cmd key (TStartAll ss) \<longleftrightarrow> True"
| "phone_cmd key TRequests \<longleftrightarrow> True"
| "phone_cmd key (TStop q ts) \<longleftrightarrow> True"
| "phone_cmd key (TSubReserve n b) \<longleftrightarrow> True"
| "phone_cmd key (TSubRelease n) \<longleftrightarrow> True"
| "phone_cmd key (TSubList b) \<longleftrightarrow> True"
| "phone_cmd key (TDomainAdd n) \<longleftrightarrow> True"
| "phone_cmd key (TDomainVerify n) \<longleftrightarrow> True"
| "phone_cmd key TDomainList \<longleftrightarrow> True"
| "phone_cmd key _ \<longleftrightarrow> False"

lemma cl_do_log [simp]: "snd (cl_do c meth path b dec zero lg) = lg @ [AReq meth path (clToken c) b]"
  by (simp add: cl_do_def Let_def)

lemmas cl_defs = cl_status_def cl_tunnels_def cl_startTunnel_def cl_stopTunnel_def cl_requests_def cl_login_def cl_listSubdomains_def cl_reserveSubdomain_def
  cl_releaseSubdomain_def cl_listDomains_def cl_addDomain_def cl_verifyDomain_def cl_me_def

lemma cl_do_cases:
  assumes "cl_do c meth path b dec zero lg = (r, lg')"
  shows "lg' = lg @ [AReq meth path (clToken c) b]"
  using assms cl_do_log [of c meth path b dec zero lg] by simp

lemma stop_victims_log: "snd (stop_victims te cl ts lg) = lg @ map (\<lambda>t. AReq ''DELETE'' (''/tunnels/'' @ tnID t) (clToken cl) BNone) ts"
  by (induction ts arbitrary: lg) (simp_all add: cl_stopTunnel_def case_prod_unfold)

lemma startAll_log: "snd (startAll te cl ss lg) = lg @ map (\<lambda>s. AReq ''POST'' ''/tunnels'' (clToken cl) (BSpec s)) ss"
  by (induction ss arbitrary: lg) (simp_all add: cl_startTunnel_def case_prod_unfold)

lemma stop_victims_cases:
  "stop_victims te cl ts lg = (out, lg') \<Longrightarrow> lg' = lg @ map (\<lambda>t. AReq ''DELETE'' (''/tunnels/'' @ tnID t) (clToken cl) BNone) ts"
  using stop_victims_log [of te cl ts lg] by simp

lemma startAll_cases: "startAll te cl ss lg = (out, lg') \<Longrightarrow> lg' = lg @ map (\<lambda>s. AReq ''POST'' ''/tunnels'' (clToken cl) (BSpec s)) ss"
  using startAll_log [of te cl ss lg] by simp

lemma phone_cmd_acts:
  assumes "phone_cmd key c"
  shows "\<exists>as. snd (exec te opt cl c lg) = lg @ as \<and> list_all (phone_may key) as"
  using assms
  by (cases "(key, c)" rule: phone_cmd.cases)
    (auto simp: cl_defs laptop_only_def list_all_iff Let_def split: prod.splits sum.splits option.splits if_splits
      dest!: cl_do_cases stop_victims_cases startAll_cases)

text \<open>What a remote command leaves alone.\<close>

definition owner_view :: "model \<Rightarrow> Options \<times> account option \<times> bool \<times> string \<times> bool" where
  "owner_view m = (opts m, acct m, authed m, remoteCode m, quitting m)"

lemma say_simps [simp]:
  "snd (say te ls c m) = c" "owner_view (fst (say te ls c m)) = owner_view m" "owner_view (appendLines te ls m) = owner_view m"
  "opts (appendLines te ls m) = opts m" "owner_view (m\<lparr>pins := ps\<rparr>) = owner_view m" "owner_view (m\<lparr>welcomeLen := n, transcript := t\<rparr>) = owner_view m"
  by (simp_all add: say_def appendLines_def owner_view_def Let_def)

lemma remote_handlers:
  assumes "scName c \<notin> set remoteBlocked" "c \<in> set (slashCommands te banner)"
  shows "phone_cmd (oAPIKey (opts m)) (snd (scRun c args m)) \<and> owner_view (fst (scRun c args m)) = owner_view m"
proof -
  note simps = remoteBlocked_def startTunnelCmd_def cmdStart_def cmdLs_def cmdOpen_def cmdCopy_def cmdStop_def cmdRequests_def cmdPin_def cmdUnpin_def
    cmdStatus_def cmdWhoami_def fetchAccount_def cmdSubdomains_def cmdDomains_def cmdConfig_def cmdVersion_def cmdClear_def cmdHelp_def connState_def Let_def
  from assms(2) show ?thesis
    unfolding slashCommands_def commandTable_def handlers_def using assms(1)
    by simp (elim disjE; simp add: simps split: list.split option.split)
qed

lemma lookup_mem: "lookupCommand te banner name = Some c \<Longrightarrow> c \<in> set (slashCommands te banner)"
  by (auto simp: lookupCommand_def Let_def find_Some_iff split: option.splits)

lemma remote_run: "phone_cmd (oAPIKey (opts m)) (snd (run te banner line True m)) \<and> owner_view (fst (run te banner line True m)) = owner_view m"
proof -
  have "phone_cmd (oAPIKey (opts m)) (snd (scRun c args (appendLines te ls m))) \<and> owner_view (fst (scRun c args (appendLines te ls m))) = owner_view m"
    if "scName c \<notin> set remoteBlocked" "lookupCommand te banner name = Some c" for c name args ls
    using remote_handlers [OF that(1) lookup_mem [OF that(2)], of "appendLines te ls m"] by simp
  then show ?thesis by (simp add: run_def split: prod.split option.split)
qed

text \<open>What the answers to such a command make the console do: publish lines, nothing else.\<close>

lemma phone_cmd_answers:
  assumes "phone_cmd key c" "d \<in> set (leaves (snd (Update te banner (fst (exec te opt cl c lg)) m)))"
  shows "\<exists>ls. d = TPublishLines ls"
proof -
  have "fst (exec te opt cl c lg) = MNone \<or> (\<exists>ls. fst (exec te opt cl c lg) = MPrint ls) \<or> (\<exists>a ok. fst (exec te opt cl c lg) = MAccount a ok)"
    using assms(1) by (cases "(key, c)" rule: phone_cmd.cases) (auto simp: failed_def Let_def split: prod.splits sum.splits option.splits if_splits)
  then show ?thesis using assms(2) by (auto simp: Update_def flushLines_def split: if_splits)
qed

section \<open>Properties\<close>

text \<open>C40. A phone is not the owner. Whatever line a paired phone sends, under whatever alias and spelling, the requests it causes at the daemon never stop it, sign out,
  start a sign-in, or start or end a pairing, sign in at most with the key the console was started with, and neither update nor
  uninstall nor quit the program; the account, the sign-in state and the pairing of the console stay as they are, and the answers to those requests cause
  nothing but the publication of lines.\<close>

theorem phone_is_not_the_owner:
  assumes "handleRemoteEvent te banner (RemoteCommand line) m = (m', c)"
  shows "opts m' = opts m \<and> acct m' = acct m \<and> authed m' = authed m \<and> remoteCode m' = remoteCode m \<and> quitting m' = quitting m
    \<and> (\<forall>d \<in> set (leaves c).
         (\<exists>as. snd (exec te opt cl d lg) = lg @ as \<and> list_all (phone_may (oAPIKey (opts m))) as)
       \<and> (\<forall>d' \<in> set (leaves (snd (Update te banner (fst (exec te opt cl d lg)) m2))). \<exists>ls. d' = TPublishLines ls))"
proof -
  have r: "phone_cmd (oAPIKey (opts m)) c" "owner_view m' = owner_view m"
    using remote_run [of m te banner line] assms by (simp_all add: handleRemoteEvent_def)
  then have "leaves c = [c]" by (cases c) simp_all
  with r phone_cmd_acts [OF r(1), of te opt cl lg] phone_cmd_answers [OF r(1), of _ te banner opt cl lg m2] show ?thesis
    by (simp add: owner_view_def)
qed

definition ex_tui :: TuiEnv where
  "ex_tui = \<lparr>Render = (\<lambda>_ s. s), AnsiStrip = (\<lambda>s. s), qrLines = (\<lambda>_. []), openBrowser = (\<lambda>_. None), clipboardWrite = (\<lambda>_. None), platform = ''linux/amd64''\<rparr>"

definition ex_opts :: Options where
  "ex_opts = \<lparr>oAPIKey = ''key'', oBaseDomain = ''trqsh.uz'', oVersion = ''1.0.0'', oInitial = [], oStartSpecs = [], oConfigRows = [], oOnUpdate = None,
     oOnUninstall = None, oOnCheckUpdate = None\<rparr>"

definition ex_model :: model where
  "ex_model = \<lparr>opts = ex_opts, ready = True, input = [], transcript = [], mstatus = zeroStatus, authed = False, acct = None, mtunnels = [], mrequests = [], pins = [],
     remoteCode = ''ABC123'', remoteURL = [], remoteConnected = True, pendingRemoteLines = [], menuItems = [], menuIdx = 0, history = [], historyIdx = 0, selectAll = False,
     welcomeShown = True, welcomeLen = 0, loginActive = False, initialRan = True, quitting = False, panicked = False\<rparr>"

definition ex_client :: client where
  "ex_client = \<lparr>clToken = ''tok'', clDaemon = \<lparr>dHTTP = (\<lambda>_. Inl ''down''), dError = (\<lambda>_. None), dStatus = Inl, dTunnels = Inl, dTunnel = Inl, dRequests = Inl,
     dSubs = Inl, dSub = Inl, dDomains = Inl, dDomain = Inl, dAddDomain = Inl, dAccount = Inl, dDevice = Inl, dPoll = Inl, dRemote = Inl\<rparr>\<rparr>"

theorem phone_is_not_the_owner_witness:
  "snd (handleRemoteEvent ex_tui (\<lambda>_. []) (RemoteCommand ''/EXIT'') ex_model) = TNone
   \<and> snd (handleRemoteEvent ex_tui (\<lambda>_. []) (RemoteCommand ''/me'') ex_model) = TFetchAccount ''key''
   \<and> list_all (phone_may ''key'') (snd (exec ex_tui ex_opts ex_client (TFetchAccount ''key'') []))"
proof -
  have words: "parseLine ''/EXIT'' = (''exit'', [])" "parseLine ''/me'' = (''me'', [])" by code_simp+
  note look = lookupCommand_def slashCommands_def commandTable_def handlers_def aliases_def
  have quit: "snd (handleRemoteEvent ex_tui (\<lambda>_. []) (RemoteCommand ''/EXIT'') ex_model) = TNone"
    by (simp add: handleRemoteEvent_def run_def words look remoteBlocked_def)
  have me: "snd (handleRemoteEvent ex_tui (\<lambda>_. []) (RemoteCommand ''/me'') ex_model) = TFetchAccount ''key''"
    by (simp add: handleRemoteEvent_def run_def words look remoteBlocked_def cmdWhoami_def fetchAccount_def appendLines_def ex_model_def ex_opts_def Let_def)
  from phone_is_not_the_owner [OF prod.collapse [symmetric], of ex_tui "\<lambda>_. []" "''/me''" ex_model ex_opts ex_client "[]" ex_model]
  have "\<forall>d \<in> set (leaves (TFetchAccount ''key'')). \<exists>as. snd (exec ex_tui ex_opts ex_client d []) = [] @ as \<and> list_all (phone_may (oAPIKey (opts ex_model))) as"
    unfolding me by blast
  then show ?thesis using quit me by (simp add: ex_model_def ex_opts_def del: exec.simps)
qed

text \<open>After a sign-out, \<^verbatim>\<open>/whoami\<close> signs in again with the key the console was started with, also when it comes from the phone.\<close>

lemma whoami_undoes_logout:
  assumes "oAPIKey (opts m) \<noteq> []"
  shows "AReq ''POST'' ''/login'' (clToken cl) (BFields [(''token'', oAPIKey (opts m))])
    \<in> set (snd (exec te opt cl (snd (cmdWhoami te [] (fst (cmdLogout te [] m)))) lg))"
  using assms by (auto simp: cmdWhoami_def cmdLogout_def fetchAccount_def cl_login_def cl_me_def Let_def split: prod.split sum.split dest!: cl_do_cases)

text \<open>A key typed into \<^verbatim>\<open>/login\<close> while a phone is paired is echoed to the phone.\<close>

lemma typed_key_is_mirrored:
  assumes "remoteCode m \<noteq> []" "parseLine line = (''login'', key # rest)"
  shows "AnsiStrip te (Render te stKey (''  '' @ g_chevron @ '' '') @ Render te stEcho line) \<in> set (pendingRemoteLines (fst (run te banner line False m)))"
proof -
  have "lookupCommand te banner ''login'' = Some \<lparr>scName = ''login'', scRun = cmdLogin te\<rparr>"
    by (simp add: lookupCommand_def slashCommands_def commandTable_def handlers_def)
  then show ?thesis using assms by (simp add: run_def cmdLogin_def say_def appendLines_def Let_def)
qed

text \<open>A slash followed by a space ends the program: \<^verbatim>\<open>refreshMenu\<close> reads the first of no words.\<close>

lemma slash_space_panics:
  assumes "input m = ''/''" "edit KSpace ''/'' = ''/ ''" "\<not> selectAll m"
  shows "panicked (fst (handleKey te banner edit KSpace m))"
proof -
  have "has_prefix ''/ '' ''/''" "has_suffix ''/ '' '' ''" "str_fields '' '' = []" by code_simp+
  then show ?thesis using assms by (simp add: handleKey_def refreshMenu_def menuFor_def Let_def)
qed

section \<open>The console stays within its bounds\<close>

definition console_ok :: "model \<Rightarrow> bool" where
  "console_ok m \<longleftrightarrow>
     historyIdx m \<le> length (history m) \<and> (menuItems m \<noteq> [] \<longrightarrow> menuIdx m < length (menuItems m))
   \<and> distinct (pins m) \<and> set (pins m) \<subseteq> set pinnable \<and> length (mrequests m) \<le> 500"

lemma ok_simps [simp]:
  "console_ok (appendLines te ls m) = console_ok m" "console_ok (fst (say te ls c m)) = console_ok m"
  "console_ok (m\<lparr>acct := a, authed := b\<rparr>) = console_ok m" "console_ok (m\<lparr>welcomeLen := n, transcript := t\<rparr>) = console_ok m"
  "console_ok m \<Longrightarrow> console_ok (m\<lparr>pins := []\<rparr>)"
  by (auto simp: console_ok_def say_def appendLines_def Let_def)

lemma handlers_ok:
  assumes "console_ok m" "c \<in> set (slashCommands te banner)"
  shows "console_ok (fst (scRun c args m))"
proof -
  have "console_ok (m\<lparr>pins := pins m @ [p]\<rparr>)" if "p \<in> set pinnable" "p \<notin> set (pins m)" for p using assms(1) that by (simp add: console_ok_def)
  moreover have "console_ok (m\<lparr>pins := filter P (pins m)\<rparr>)" for P using assms(1) by (auto simp: console_ok_def)
  moreover note simps = startTunnelCmd_def cmdStart_def cmdLs_def cmdOpen_def cmdQR_def cmdQRPair_def cmdQRStop_def cmdQRTunnel_def cmdCopy_def cmdStop_def cmdDown_def
    cmdRequests_def cmdPin_def cmdUnpin_def cmdStatus_def cmdWhoami_def cmdLogin_def cmdLogout_def cmdSubdomains_def cmdDomains_def cmdConfig_def cmdUpdate_def
    cmdUninstall_def cmdVersion_def cmdClear_def cmdHelp_def cmdQuit_def connState_def Let_def
  ultimately show ?thesis
    using assms unfolding slashCommands_def commandTable_def handlers_def
    by simp (elim disjE; simp add: simps split: list.split option.split)
qed

lemma run_ok: "console_ok m \<Longrightarrow> console_ok (fst (run te banner line remote m))"
  by (auto simp: run_def handlers_ok dest: lookup_mem split: prod.split option.split)

lemma menu_ok: "console_ok m \<Longrightarrow> console_ok (refreshMenu m)"
  by (simp add: refreshMenu_def console_ok_def split: option.split)

lemma field_ok [simp]:
  "console_ok (m\<lparr>input := i\<rparr>) = console_ok m" "console_ok (m\<lparr>quitting := b\<rparr>) = console_ok m" "console_ok (m\<lparr>selectAll := b\<rparr>) = console_ok m"
  "console_ok (m\<lparr>selectAll := b, input := i\<rparr>) = console_ok m" "console_ok (m\<lparr>initialRan := b\<rparr>) = console_ok m"
  "console_ok (m\<lparr>mstatus := st\<rparr>) = console_ok m" "console_ok (m\<lparr>mtunnels := ts\<rparr>) = console_ok m" "console_ok (m\<lparr>loginActive := b\<rparr>) = console_ok m"
  "console_ok (m\<lparr>remoteCode := x\<rparr>) = console_ok m" "console_ok (m\<lparr>remoteURL := x\<rparr>) = console_ok m" "console_ok (m\<lparr>remoteConnected := b\<rparr>) = console_ok m"
  "console_ok m \<Longrightarrow> length rs \<le> 500 \<Longrightarrow> console_ok (m\<lparr>mrequests := rs\<rparr>)"
  "console_ok m \<Longrightarrow> n \<le> length (history m) \<Longrightarrow> console_ok (m\<lparr>historyIdx := n\<rparr>)"
  "console_ok m \<Longrightarrow> console_ok (m\<lparr>input := i, historyIdx := length (history m)\<rparr>)"
  "console_ok m \<Longrightarrow> console_ok (m\<lparr>menuIdx := menuIdx m - Suc 0\<rparr>)" "console_ok m \<Longrightarrow> console_ok (m\<lparr>selectAll := b, menuIdx := menuIdx m - Suc 0\<rparr>)"
  "console_ok m \<Longrightarrow> Suc (menuIdx m) < length (menuItems m) \<Longrightarrow> console_ok (m\<lparr>menuIdx := Suc (menuIdx m)\<rparr>)"
  by (auto simp: console_ok_def)

lemma history_ok:
  assumes "console_ok m"
  shows "console_ok (historyPrev m)" "console_ok (historyNext m)" "console_ok (pushHistory l m)"
proof -
  have "historyIdx m - 1 \<le> length (history m)" using assms by (auto simp: console_ok_def)
  then show "console_ok (historyPrev m)" "console_ok (historyNext m)" using assms by (simp_all add: historyPrev_def historyNext_def menu_ok Let_def)
  show "console_ok (pushHistory l m)" using assms by (simp add: pushHistory_def console_ok_def Let_def)
qed

lemma submit_ok: "console_ok m \<Longrightarrow> console_ok (fst (submit te banner m))"
  by (simp add: submit_def Let_def menu_ok run_ok history_ok)

text \<open>Every key and every message keeps the cursors inside the menu and the history, the panels distinct and known, and the feed of requests bounded.\<close>

lemma key_keeps_bounds: "console_ok m \<Longrightarrow> console_ok (fst (handleKey te banner edit k m))"
  by (cases k) (simp_all add: handleKey_def acceptMenu_def menu_ok submit_ok history_ok Let_def)

lemma message_keeps_bounds: "console_ok m \<Longrightarrow> console_ok (fst (Update te banner ms m))"
proof -
  assume ok: "console_ok m"
  have flush: "console_ok (fst (flushLines mc)) = console_ok (fst mc)" for mc by (cases mc) (simp add: flushLines_def console_ok_def)
  have bn: "console_ok (refreshWelcome banner m') = console_ok m'" for m' by (simp add: refreshWelcome_def console_ok_def)
  have "console_ok (fst (handleEvent te banner ev m))" for ev
    using ok run_ok [OF ok] by (cases ev) (simp_all add: handleEvent_def handleRemoteEvent_def Let_def split: RemoteEvent.split)
  then show ?thesis
    using ok unfolding Update_def flush by (cases ms) (simp_all add: bn renderPairQR_def case_prod_unfold Let_def)
qed

end
