(* ===== verification/Spec2Isabelle.thy ===== *)
theory Spec2Isabelle
  imports EndToEnd LocalApi BillingSafety RemoteAgent CertStore Domains SharedStores PostgresRefines RawIngress Console
begin

text \<open>
  A verification library for trqsh, the tunnelling service under \<^verbatim>\<open>src/\<close>.

  \<^bold>\<open>The program.\<close> An \<^emph>\<open>agent\<close> on a developer's machine (\<^verbatim>\<open>internal/agent\<close>) keeps a session to an \<^emph>\<open>edge\<close>
  (\<^verbatim>\<open>internal/server\<close>). It binds tunnels there; the edge gives each a public host or port, accepts public connections and hands
  every one to the agent as a data stream, which the agent joins to a local service. Edges share a registry of routes and forward
  to each other. The \<^emph>\<open>control plane\<close> (\<^verbatim>\<open>internal/api\<close>, \<^verbatim>\<open>internal/billing\<close>) has the accounts, keys, subdomains, domains and
  plans; an edge asks it before a session and before every bind, and reports usage to it. Users reach it through a dashboard,
  an administration console and the control API of the agent; a phone can be paired with the console of an agent through a
  relay in the control plane.

  \<^bold>\<open>The library.\<close> Every theory names the files it models. A handler is one function over the state it works on; whole
  components are state machines (\<open>edge_step\<close>, \<open>store_step\<close>, \<open>ag_step\<close>, \<open>remote_step\<close>, \<open>serve\<close>) and their invariants are
  proved over the reachable states.

  Foundations:
  \<^item> \<open>Prelude\<close>: Go's strings, maps, times and machine integers, collections of rules, generic lemmas. A Go map is an association
    list with distinct keys.
  \<^item> \<open>Hosts\<close>, \<open>IpAddr\<close>, \<open>Http\<close>, \<open>Calendar\<close>, \<open>Float64\<close>: what the code uses of \<^verbatim>\<open>net\<close>, \<^verbatim>\<open>net/http\<close>, \<^verbatim>\<open>encoding\<close> and \<^verbatim>\<open>time\<close>, and
    the arithmetic of \<^verbatim>\<open>float64\<close>: rational results rounded to 53 binary digits, ties to even.
  \<^item> \<open>Framing\<close>: \<^verbatim>\<open>pkg/proto/codec.go\<close> and the datagram frames, two instances of the locale \<open>framing\<close>: what is written is read
    back, frame by frame, whatever follows.
  \<^item> \<open>Fanout\<close>: the locale of the event streams with their bounded, dropping channels; instances are the inspector, the
    control API and the relay.
  \<^item> \<open>Codes\<close>: codes for one use, the locale \<open>single_use\<close> with the device flow and the OAuth nonces as instances.
  \<^item> \<open>Plans\<close>: \<^verbatim>\<open>pkg/authz\<close>, \<^verbatim>\<open>pkg/proto/errors.go\<close> and the catalogue of \<^verbatim>\<open>internal/billing/plans.go\<close>; the locale
    \<open>entitlements\<close> is what an edge relies on, and is interpreted by the stub and by \<open>Entitle\<close>.

  The edge:
  \<^item> \<open>Registry\<close> (\<^verbatim>\<open>registry.go\<close>), \<open>Hub\<close> (\<^verbatim>\<open>hub.go\<close>), \<open>Ports\<close> (\<^verbatim>\<open>portManager\<close> of \<^verbatim>\<open>ingress_tcp.go\<close>), \<open>Metering\<close>
    (\<^verbatim>\<open>usage.go\<close>): the first three behind locales for their interfaces; routes belong to sessions, ports are exclusive, sampled traffic is delivered, dropped with a failed report, or pending.
  \<^item> \<open>Edge\<close> (\<^verbatim>\<open>server.go\<close>, \<^verbatim>\<open>session.go\<close>), \<open>EdgeSteps\<close>, \<open>EdgeSafety\<close>, \<open>EdgeExact\<close>, \<open>EdgePolicy\<close>: the handlers, the machine
    they make, and that the routing tables and the port pool hold exactly the tunnels of the live sessions.
  \<^item> \<open>Ingress\<close>, \<open>IngressSafety\<close> (\<^verbatim>\<open>ingress_http.go\<close>, \<^verbatim>\<open>ingress_h3.go\<close>, \<^verbatim>\<open>forward.go\<close>, \<^verbatim>\<open>forward_listener.go\<close>): a public
    request from its connection to the agent, an upstream or a peer edge.
  \<^item> \<open>RawIngress\<close> (\<^verbatim>\<open>ingress_udp.go\<close>, \<^verbatim>\<open>ingress_tcp.go\<close>, \<^verbatim>\<open>weld.go\<close>): the public UDP and TCP ports. The flow table delivers each
    client's datagrams in order and apart; a weld carries prefixes and charges what it carried.
  \<^item> \<open>CertStore\<close> (\<^verbatim>\<open>tls_storage_redis.go\<close>): the shared certificate files and their locks.

  The control plane:
  \<^item> \<open>Store\<close>, \<open>StoreInv\<close> (\<^verbatim>\<open>store/store.go\<close>, \<^verbatim>\<open>store/mem.go\<close>): tables, indices and their invariant (locale \<open>unique_index\<close>).
  \<^item> \<open>Postgres\<close>, \<open>PostgresRefines\<close> (\<^verbatim>\<open>store/postgres.go\<close> over the tables of \<^verbatim>\<open>db/migrations\<close>): the SQL store, and that it
    agrees with the in-memory one over runs of proper operations; where operations are not proper, lemmas show how the two differ.
  \<^item> \<open>ApiKey\<close>, \<open>Auth\<close>, \<open>Login\<close>, \<open>OAuth\<close>: keys, session tokens, the login handlers and the OAuth client; \<open>SharedStores\<close>: the
    device flow, nonces and revocations on Redis, which answer as those of one process over regular runs; the races and
    differences outside them are shown.
  \<^item> \<open>Entitle\<close>, \<open>Wire\<close>, \<open>Rpc\<close>: the entitlements service, the JSON messages of its interface and the client of the edge, which gets
    what a direct call would give; \<open>Ownership\<close> and \<open>EndToEnd\<close> put it together with the edge
    and the agent.
  \<^item> \<open>Billing\<close>, \<open>BillingSafety\<close>: webhooks, checkout, metering; \<open>RateLimit\<close>: the two rate limiters (locales \<open>token_bucket\<close>
    and \<open>limiter\<close>), in floating-point arithmetic, shared by replicas and during an outage of Redis; \<open>Config\<close>: what either server refuses to start with; \<open>Geo\<close>: locating clients; \<open>Remote\<close>: the relay.
  \<^item> \<open>Resources\<close>, \<open>Admin\<close>, \<open>Router\<close>, \<open>Tenants\<close>, \<open>Domains\<close>: every handler of the dashboard and the administration, the
    route table with its guards, isolation between accounts over the function that serves a request, and invariants over the
    life of the control plane.

  The agent:
  \<^item> \<open>AgentConfig\<close>, \<open>Agent\<close>, \<open>Forward\<close>, \<open>Inspect\<close>, \<open>LocalApi\<close>, \<open>RemoteAgent\<close>: configuration, session and reconnection, data streams,
    the inspector, the control API and the agent's end of a pairing.
  \<^item> \<open>SelfUpdate\<close> (\<^verbatim>\<open>cli/update.go\<close>, \<^verbatim>\<open>cli/sigstore.go\<close>): only signed, newer releases replace the program, over every state of the file
    system an update passes through. \<open>Console\<close> (\<^verbatim>\<open>cli/tui\<close>): the slash commands, the client of the control API and the loop of the
    console; what a paired phone can do with it, and that its cursors and lists stay within bounds.

  \<^bold>\<open>Parameters and hypotheses.\<close> Code outside the repository is a parameter, with what is relied on as a named hypothesis and
  a witness that satisfies it: protobuf and JSON codecs (round trips; \<open>json_lawful\<close>), the JWT library (\<open>jwt_lawful\<close>), argon2
  (\<open>argon_ok\<close>), YAML (\<open>yaml_lawful\<close>), HMAC, SHA-256, the archive formats and the Sigstore verifier, Redis (\<open>redis_lawful\<close> for the shared stores), the precision of Postgres timestamps and
  \<^verbatim>\<open>date_trunc\<close> (\<open>PgEnv\<close>), DNS, Stripe, the OAuth and geolocation providers, the listeners of the operating system, the clock and
  the source of random bytes. SQL statements, the Lua script of the limiter and the patterns of the router are part of the source and
  are given their meaning here: a table is a list of rows, unique constraints are checked before foreign keys.

  \<^bold>\<open>Representation.\<close> Machine integers are words where they wrap (frame lengths, ports on the wire) and \<^typ>\<open>int\<close> where a
  wrap-around would need centuries; counters of traffic are integers reduced to 64 bits; floats of the limiter are rounded rationals and those of the geometry reals;
  case mapping and white space are those of ASCII; the calendar is Gregorian in UTC. An operation under a Go mutex is one step;
  where the code gives up the lock between two steps (approvals and polls on Redis, counting and reserving, reconnecting, the two
  copies of a weld) the steps are separate and the races are shown.

  \<^bold>\<open>Termination and fuel.\<close> All functions are total. Loops over input that shrinks carry a measure (the frame readers); loops that wait (reconnecting, the lock of a certificate) are modelled over the list of outcomes of their
  attempts, and that they end is proved as such. The eight draws of a random host are the eight of the code.

  \<^bold>\<open>Not modelled.\<close> Layout, colours and drawing of the console, its reconnecting event reader, and the launcher of
  \<^verbatim>\<open>internal/agent/cli\<close> (flags, the start of the background process, removal of local files), the QUIC and HTTP/2 transports of
  \<^verbatim>\<open>pkg/tunnel\<close> (third-party streams: the model takes ordered byte streams), TLS listeners and ACME (configuration of \<^verbatim>\<open>crypto/tls\<close>
  and certmagic; the gate that decides on issuance is modelled), metrics, the constant HTML and YAML pages, opening the database pool
  and failures of its connection, the entry points under \<^verbatim>\<open>cmd\<close>, the load test, the web and desktop applications.
\<close>

end
